(* ===== verification/Prelude.thy ===== *)
theory Prelude
  imports Main "HOL-Library.Word"
begin

text \<open>
  The types and the generic facts the components share: Go's fixed-width integers, byte slices
  and 32-byte arrays, maps and the order in which a \<open>range\<close> statement visits them, and the
  collections of simplification rules the component theories fill.

  Conventions. A \<open>uint64\<close> is a 64-bit word, so \<open>+\<close>, \<open>-\<close> and \<open>*\<close> wrap as in Go. A signed
  integer (\<open>int\<close>, \<open>int64\<close>, \<open>time.Duration\<close>) is an \<open>int\<close> with the wrap-around written
  out by \<open>i64\<close> where a sum can leave the range. A Go map is a partial function. A
  \<open>range\<close> over a map visits its keys in an order the language does not fix, so an operation
  that ranges over a map takes the order as an argument, and its theorems hold for every order
  that satisfies \<open>range_order\<close>. A call of \<open>time.Now\<close> is an argument too. Log output is not
  modelled. An operation that holds its mutex throughout is one step on the component's state.
\<close>

section \<open>Integers\<close>

type_synonym byte = "8 word"
type_synonym bytes = "byte list"
type_synonym uint64 = "64 word"
type_synonym hash32 = "256 word"
type_synonym duration = int

definition i64 :: "int \<Rightarrow> int" where
  "i64 x = sint (word_of_int x :: 64 word)"

text \<open>Go's integer division truncates towards zero; a zero divisor panics and is checked by
  the operations that divide.\<close>

definition go_div :: "int \<Rightarrow> int \<Rightarrow> int" where
  "go_div a b = sgn a * sgn b * (\<bar>a\<bar> div \<bar>b\<bar>)"

section \<open>Bytes\<close>

text \<open>\<open>binary.BigEndian.PutUint64\<close>, \<open>binary.LittleEndian.PutUint64\<close>,
  \<open>binary.BigEndian.Uint64\<close> and the bytes of a \<open>[32]byte\<close> array.\<close>

definition le_bytes :: "nat \<Rightarrow> 'a::len word \<Rightarrow> bytes" where
  "le_bytes n w = map (\<lambda>i. ucast (drop_bit (8 * i) w)) [0..<n]"

definition be_bytes :: "nat \<Rightarrow> 'a::len word \<Rightarrow> bytes" where
  "be_bytes n w = rev (le_bytes n w)"

fun of_le_bytes :: "bytes \<Rightarrow> 'a::len word" where
  "of_le_bytes [] = 0"
| "of_le_bytes (b # bs) = ucast b + 256 * of_le_bytes bs"

definition of_be_bytes :: "bytes \<Rightarrow> 'a::len word" where
  "of_be_bytes bs = of_le_bytes (rev bs)"

definition hash_bytes :: "hash32 \<Rightarrow> bytes" where
  "hash_bytes h = be_bytes 32 h"

definition string_bytes :: "string \<Rightarrow> bytes" where
  "string_bytes s = map (\<lambda>c. of_nat (of_char c)) s"

section \<open>Maps\<close>

definition range_order :: "('k \<rightharpoonup> 'v) \<Rightarrow> 'k list \<Rightarrow> bool" where
  "range_order m ks \<longleftrightarrow> distinct ks \<and> set ks = dom m"

text \<open>\<open>map_modify\<close> writes through a pointer held in a map: the object of a key, if there is
  one, is replaced by its update.\<close>

definition map_modify :: "'k \<Rightarrow> ('v \<Rightarrow> 'v) \<Rightarrow> ('k \<rightharpoonup> 'v) \<Rightarrow> ('k \<rightharpoonup> 'v)" where
  "map_modify k f m = (case m k of None \<Rightarrow> m | Some v \<Rightarrow> m(k \<mapsto> f v))"

section \<open>Facts on integers and bytes\<close>

named_theorems frame_simps \<open>fields an operation leaves as they are\<close>

lemma i64_id: "- (2 ^ 63) \<le> x \<Longrightarrow> x < 2 ^ 63 \<Longrightarrow> i64 x = x"
  by (simp add: i64_def signed_of_int signed_take_bit_int_eq_self)

lemma i64_bounds: "- (2 ^ 63) \<le> i64 x" "i64 x < 2 ^ 63"
  using sint_ge [of "word_of_int x :: 64 word"] sint_lt [of "word_of_int x :: 64 word"]
  by (simp_all add: i64_def)

lemma go_div_nonneg: "0 \<le> a \<Longrightarrow> 0 < b \<Longrightarrow> go_div a b = a div b"
  by (cases "a = 0") (simp_all add: go_div_def)

lemma length_le_bytes [simp]: "length (le_bytes n w) = n"
  by (simp add: le_bytes_def)

lemma length_be_bytes [simp]: "length (be_bytes n w) = n"
  by (simp add: be_bytes_def)

lemma length_hash_bytes [simp]: "length (hash_bytes h) = 32"
  by (simp add: hash_bytes_def)

lemma le_bytes_Suc: "le_bytes (Suc n) w = ucast w # le_bytes n (drop_bit 8 w)"
  unfolding le_bytes_def upt_conv_Cons [OF zero_less_Suc]
  by (simp add: map_Suc_upt [symmetric] comp_def drop_bit_drop_bit add.commute del: upt_Suc)

lemma of_le_bytes_le_bytes: "of_le_bytes (le_bytes n w) = take_bit (8 * n) (w :: 'a::len word)"
proof (induction n arbitrary: w)
  case (Suc n)
  have "take_bit (8 + 8 * n) w = take_bit 8 w + 256 * take_bit (8 * n) (drop_bit 8 w)"
    using bits_ident [of 8 "take_bit (8 + 8 * n) w"]
    by (simp add: drop_bit_take_bit push_bit_eq_mult mult.commute add.commute)
  moreover have "(ucast (ucast w :: byte) :: 'a word) = take_bit 8 w"
    by (rule bit_word_eqI) (auto simp: bit_simps)
  ultimately show ?case
    using Suc by (simp add: le_bytes_Suc)
qed (simp add: le_bytes_def)

lemma of_be_bytes_hash_bytes: "of_be_bytes (hash_bytes h) = h"
  by (simp add: of_be_bytes_def hash_bytes_def be_bytes_def of_le_bytes_le_bytes take_bit_word_eq_self)

section \<open>Facts on maps and sums over them\<close>

lemma range_order_distinct: "range_order m ks \<Longrightarrow> distinct ks"
  by (simp add: range_order_def)

lemma range_order_finite: "range_order m ks \<Longrightarrow> finite (dom m)"
  by (metis List.finite_set range_order_def)

lemma range_order_sum_list:
  "range_order m ks \<Longrightarrow> sum_list (map f ks) = sum f (dom m)"
  by (metis range_order_def sum_list_distinct_conv_sum_set)

lemma map_modify_dom [simp]: "dom (map_modify k f m) = dom m"
  by (auto simp: map_modify_def split: option.splits)

lemma map_modify_apply:
  "map_modify k f m j = (if j = k then map_option f (m k) else m j)"
  by (auto simp: map_modify_def split: option.splits)

end
