(* ===== verification/Hex.thy ===== *)
theory Hex
  imports Prelude
begin

text \<open>
  Hexadecimal text of byte slices: \<open>hex.EncodeToString\<close> and \<open>hex.DecodeString\<close> of Go's
  standard library, and the two helpers of \<open>consensus/diamantefinality/dag.go\<close> that write and
  read the 32-byte identities of nodes and events. A decoding error is \<open>None\<close>.
\<close>

section \<open>Definitions\<close>

definition hex_digit :: "nat \<Rightarrow> char" where
  "hex_digit n = char_of (if n < 10 then n + 48 else n + 87)"

definition hex_val :: "char \<Rightarrow> nat option" where
  "hex_val c = (let n = of_char c in
     if 48 \<le> n \<and> n \<le> 57 then Some (n - 48)
     else if 97 \<le> n \<and> n \<le> 102 then Some (n - 87)
     else if 65 \<le> n \<and> n \<le> 70 then Some (n - 55)
     else None)"

fun hex_encode :: "bytes \<Rightarrow> string" where
  "hex_encode [] = []"
| "hex_encode (b # bs) = hex_digit (unat b div 16) # hex_digit (unat b mod 16) # hex_encode bs"

fun hex_decode :: "string \<Rightarrow> bytes option" where
  "hex_decode [] = Some []"
| "hex_decode [c] = None"
| "hex_decode (c # d # s) =
     (case hex_val c of None \<Rightarrow> None
      | Some x \<Rightarrow> (case hex_val d of None \<Rightarrow> None
      | Some y \<Rightarrow> map_option ((#) (word_of_nat (16 * x + y))) (hex_decode s)))"

definition byteArrayToString :: "hash32 \<Rightarrow> string" where
  "byteArrayToString b = hex_encode (hash_bytes b)"

definition stringToByteArray :: "string \<Rightarrow> hash32 option" where
  "stringToByteArray s =
     (case hex_decode s of
        None \<Rightarrow> None
      | Some data \<Rightarrow> if length data \<noteq> 32 then None else Some (of_be_bytes data))"

section \<open>Decoding undoes encoding\<close>

lemma hex_val_digit: "n < 16 \<Longrightarrow> hex_val (hex_digit n) = Some n"
  by (auto simp: hex_val_def hex_digit_def Let_def)

lemma hex_decode_encode: "hex_decode (hex_encode bs) = Some bs"
proof (induction bs)
  case (Cons b bs)
  have "unat b < 256" using unsigned_less [of b] by simp
  then have "unat b div 16 < 16" "unat b mod 16 < 16" by auto
  with Cons show ?case by (simp add: hex_val_digit)
qed simp

lemma length_hex_encode [simp]: "length (hex_encode bs) = 2 * length bs"
  by (induction bs) auto

lemma stringToByteArray_inverse: "stringToByteArray (byteArrayToString b) = Some b"
  by (simp add: stringToByteArray_def byteArrayToString_def hex_decode_encode of_be_bytes_hash_bytes)

lemma stringToByteArray_length: "stringToByteArray s = Some b \<Longrightarrow> length s = 64"
proof -
  have "hex_decode s = Some data \<Longrightarrow> length s = 2 * length data" for data
    by (induction s arbitrary: data rule: hex_decode.induct) (auto split: option.splits)
  then show "stringToByteArray s = Some b \<Longrightarrow> length s = 64"
    by (auto simp: stringToByteArray_def split: option.splits if_splits)
qed

end
