(* ===== verification/Float64.thy ===== *)
theory Float64
  imports Complex_Main
begin

text \<open>
  Go's \<open>float64\<close>, the IEEE-754 binary64 type the program keeps balances, fees, thresholds and
  scores in. A value is a NaN, one of the two infinities or a finite number, which is a rational.
  Every arithmetic operation computes exactly on the rationals and then rounds to the nearest
  binary64 number, ties to even, with gradual underflow and overflow to infinity (\<open>rnd\<close>).
  Comparisons with a NaN are false, as in Go. Negative zero is identified with zero: no
  operation modelled in this development divides by a zero that can be negative. Operations
  are not fused, as on amd64.

  The lemmas give what the components need of the type: rounding is monotone, keeps the sign
  and is exact on integers up to \<open>2 ^ 53\<close> in magnitude (and on their quotients by powers
  of two), so that balances in whole tokens and stakes below \<open>2 ^ 53\<close> are added exactly.
\<close>

section \<open>Rounding a rational to a binary64 number\<close>

fun bitlen :: "nat \<Rightarrow> nat" where
  "bitlen n = (if n = 0 then 0 else Suc (bitlen (n div 2)))"

declare bitlen.simps [simp del]

definition pow2 :: "int \<Rightarrow> rat" where
  "pow2 e = (if 0 \<le> e then 2 ^ nat e else 1 / 2 ^ nat (- e))"

definition flog2 :: "rat \<Rightarrow> int" where
  "flog2 q = (if 1 \<le> q then int (bitlen (nat \<lfloor>q\<rfloor>)) - 1
              else - int (bitlen (nat (\<lceil>1 / q\<rceil> - 1))))"

definition round_even :: "rat \<Rightarrow> int" where
  "round_even q =
     (let f = \<lfloor>q\<rfloor>; d = q - of_int f
      in if d < 1 / 2 then f else if 1 / 2 < d then f + 1 else if even f then f else f + 1)"

definition f64_grid :: "rat \<Rightarrow> int" where
  "f64_grid q = max (flog2 \<bar>q\<bar> - 52) (- 1074)"

definition f64_round :: "rat \<Rightarrow> rat" where
  "f64_round q = (if q = 0 then 0 else of_int (round_even (q / pow2 (f64_grid q))) * pow2 (f64_grid q))"

section \<open>The type and its operations\<close>

text \<open>\<open>rnd\<close> is the result of an operation whose exact value is given, and a decimal constant
  of the source.\<close>

datatype float64 = NaN | PInf | NInf | Fin rat

definition rnd :: "rat \<Rightarrow> float64" where
  "rnd q = (let r = f64_round q
            in if 2 ^ 1024 \<le> r then PInf else if r \<le> - (2 ^ 1024) then NInf else Fin r)"

fun f64_neg :: "float64 \<Rightarrow> float64" where
  "f64_neg NaN = NaN"
| "f64_neg PInf = NInf"
| "f64_neg NInf = PInf"
| "f64_neg (Fin a) = Fin (- a)"

fun f64_add :: "float64 \<Rightarrow> float64 \<Rightarrow> float64" where
  "f64_add (Fin a) (Fin b) = rnd (a + b)"
| "f64_add NaN _ = NaN"
| "f64_add _ NaN = NaN"
| "f64_add PInf NInf = NaN"
| "f64_add NInf PInf = NaN"
| "f64_add PInf _ = PInf"
| "f64_add _ PInf = PInf"
| "f64_add NInf _ = NInf"
| "f64_add _ NInf = NInf"

definition f64_sub :: "float64 \<Rightarrow> float64 \<Rightarrow> float64" where
  "f64_sub x y = f64_add x (f64_neg y)"

definition f64_inf :: "bool \<Rightarrow> float64" where
  "f64_inf neg = (if neg then NInf else PInf)"

fun f64_mul :: "float64 \<Rightarrow> float64 \<Rightarrow> float64" where
  "f64_mul (Fin a) (Fin b) = rnd (a * b)"
| "f64_mul NaN _ = NaN"
| "f64_mul _ NaN = NaN"
| "f64_mul PInf (Fin b) = (if b = 0 then NaN else f64_inf (b < 0))"
| "f64_mul (Fin a) PInf = (if a = 0 then NaN else f64_inf (a < 0))"
| "f64_mul NInf (Fin b) = (if b = 0 then NaN else f64_inf (0 < b))"
| "f64_mul (Fin a) NInf = (if a = 0 then NaN else f64_inf (0 < a))"
| "f64_mul PInf PInf = PInf"
| "f64_mul NInf NInf = PInf"
| "f64_mul PInf NInf = NInf"
| "f64_mul NInf PInf = NInf"

fun f64_div :: "float64 \<Rightarrow> float64 \<Rightarrow> float64" where
  "f64_div (Fin a) (Fin b) = (if b = 0 then (if a = 0 then NaN else f64_inf (a < 0)) else rnd (a / b))"
| "f64_div NaN _ = NaN"
| "f64_div _ NaN = NaN"
| "f64_div PInf (Fin b) = f64_inf (b < 0)"
| "f64_div NInf (Fin b) = f64_inf (0 \<le> b)"
| "f64_div (Fin a) _ = Fin 0"
| "f64_div _ _ = NaN"

fun f64_lt :: "float64 \<Rightarrow> float64 \<Rightarrow> bool" where
  "f64_lt (Fin a) (Fin b) = (a < b)"
| "f64_lt NaN _ = False"
| "f64_lt _ NaN = False"
| "f64_lt NInf NInf = False"
| "f64_lt NInf _ = True"
| "f64_lt (Fin a) PInf = True"
| "f64_lt _ _ = False"

definition f64_le :: "float64 \<Rightarrow> float64 \<Rightarrow> bool" where
  "f64_le x y = (f64_lt x y \<or> x = y \<and> x \<noteq> NaN)"

abbreviation f64_0 :: float64 where "f64_0 \<equiv> Fin 0"

abbreviation f64_1 :: float64 where "f64_1 \<equiv> Fin 1"

definition f64_of_int :: "int \<Rightarrow> float64" where
  "f64_of_int n = rnd (of_int n)"

text \<open>\<open>math.Min\<close> and \<open>math.Max\<close>: the infinities win over a NaN, a NaN over the rest.\<close>

definition f64_Min :: "float64 \<Rightarrow> float64 \<Rightarrow> float64" where
  "f64_Min x y = (if x = NInf \<or> y = NInf then NInf else if x = NaN \<or> y = NaN then NaN
                  else if f64_lt x y then x else y)"

definition f64_Max :: "float64 \<Rightarrow> float64 \<Rightarrow> float64" where
  "f64_Max x y = (if x = PInf \<or> y = PInf then PInf else if x = NaN \<or> y = NaN then NaN
                  else if f64_lt y x then x else y)"

text \<open>
  The conversion \<open>int(x)\<close> truncates towards zero. Where the value does not fit, Go leaves
  the result to the implementation, which is the parameter \<open>impl\<close>.
\<close>

definition rat_trunc :: "rat \<Rightarrow> int" where
  "rat_trunc q = (if 0 \<le> q then \<lfloor>q\<rfloor> else \<lceil>q\<rceil>)"

fun f64_to_int64 :: "(float64 \<Rightarrow> int) \<Rightarrow> float64 \<Rightarrow> int" where
  "f64_to_int64 impl (Fin q) =
     (if - (2 ^ 63) \<le> rat_trunc q \<and> rat_trunc q < 2 ^ 63 then rat_trunc q else impl (Fin q))"
| "f64_to_int64 impl x = impl x"

text \<open>The product of an integer and a factor, converted back to an integer: \<open>int(float64(n) * factor)\<close>.\<close>

definition scaled :: "(float64 \<Rightarrow> int) \<Rightarrow> int \<Rightarrow> float64 \<Rightarrow> int" where
  "scaled conv n factor = f64_to_int64 conv (f64_mul (f64_of_int n) factor)"

text \<open>The rationals that are binary64 numbers.\<close>

definition f64_ok :: "float64 \<Rightarrow> bool" where
  "f64_ok x = (case x of Fin q \<Rightarrow> rnd q = Fin q | _ \<Rightarrow> True)"

section \<open>Rounding is monotone and exact on the integers below 2 to the 53\<close>

lemma bitlen_0 [simp]: "bitlen 0 = 0"
  by (simp add: bitlen.simps)

lemma bitlen_bounds: "0 < n \<Longrightarrow> 2 ^ (bitlen n - 1) \<le> n \<and> n < 2 ^ bitlen n"
proof (induction n rule: bitlen.induct)
  case (1 n)
  show ?case
  proof (cases "n div 2 = 0")
    case True
    with "1.prems" have "n = 1" by auto
    then show ?thesis by (simp add: bitlen.simps)
  next
    case False
    with "1.IH" "1.prems" have "2 ^ (bitlen (n div 2) - 1) \<le> n div 2" "n div 2 < 2 ^ bitlen (n div 2)"
      by auto
    moreover have "bitlen (n div 2) = Suc (bitlen (n div 2) - 1)"
      using False by (simp add: bitlen.simps [of "n div 2"])
    moreover have "bitlen n = Suc (bitlen (n div 2))"
      using "1.prems" by (subst bitlen.simps) simp
    ultimately show ?thesis
      by (metis (no_types, lifting) diff_Suc_1 div_less_iff_less_mult less_eq_div_iff_mult_less_eq
          mult.commute pos2 power_Suc)
  qed
qed

lemma pow2_powi: "pow2 e = 2 powi e"
  by (auto simp: pow2_def power_int_def inverse_eq_divide power_one_over)

lemma pow2_pos [simp]: "0 < pow2 e"
  by (simp add: pow2_powi)

lemma pow2_add: "pow2 (a + b) = pow2 a * pow2 b"
  by (simp add: pow2_powi power_int_add)

lemma pow2_mono: "a \<le> b \<Longrightarrow> pow2 a \<le> pow2 b"
  by (simp add: pow2_powi power_int_increasing)

lemma flog2_bounds:
  assumes "0 < q"
  shows "pow2 (flog2 q) \<le> q" and "q < pow2 (flog2 q + 1)"
proof -
  have "pow2 (flog2 q) \<le> q \<and> q < pow2 (flog2 q + 1)"
  proof (cases "1 \<le> q")
    case True
    define n where "n = nat \<lfloor>q\<rfloor>"
    have n: "0 < n" "of_nat n \<le> q" "q < of_nat n + 1"
      using True by (auto simp: n_def of_nat_nat) linarith+
    have b: "2 ^ (bitlen n - 1) \<le> n" "n < 2 ^ bitlen n" "0 < bitlen n"
      using bitlen_bounds [OF n(1)] n(1) by (auto simp: bitlen.simps [of n])
    have "(2 ^ (bitlen n - 1) :: rat) \<le> of_nat n"
      using b(1) by (metis of_nat_le_iff of_nat_numeral of_nat_power)
    moreover have "(of_nat n + 1 :: rat) \<le> 2 ^ bitlen n"
      using b(2) by (metis Suc_leI of_nat_Suc of_nat_le_iff add.commute of_nat_numeral of_nat_power)
    ultimately have "(2 ^ (bitlen n - 1) :: rat) \<le> q" "q < 2 ^ bitlen n"
      using n by linarith+
    then show ?thesis
      using True b(3) by (simp add: flog2_def n_def [symmetric] pow2_def nat_diff_distrib)
  next
    case False
    define c where "c = nat (\<lceil>1 / q\<rceil> - 1)"
    have q1: "1 < 1 / q" using False assms by simp
    define z where "z = \<lceil>1 / q\<rceil>"
    from q1 have "1 < z" by (simp only: z_def less_ceiling_iff of_int_1)
    then have c0: "0 < c" and ci: "int c + 1 = \<lceil>1 / q\<rceil>"
      unfolding c_def z_def [symmetric] by linarith+
    have c: "of_nat c < 1 / q" "1 / q \<le> of_nat c + 1"
      using ci by (metis less_ceiling_iff of_int_of_nat_eq zless_add1_eq order_refl)
        (metis ceiling_le_iff ci of_int_add of_int_of_nat_eq of_int_1 order_refl)
    have b: "2 ^ (bitlen c - 1) \<le> c" "c < 2 ^ bitlen c" "0 < bitlen c"
      using bitlen_bounds [OF c0] c0 by (auto simp: bitlen.simps [of c])
    have l: "(2 ^ (bitlen c - 1) :: rat) \<le> of_nat c"
      using b(1) by (metis of_nat_le_iff of_nat_numeral of_nat_power)
    have u: "(of_nat c + 1 :: rat) \<le> 2 ^ bitlen c"
      using b(2) by (metis Suc_leI of_nat_Suc of_nat_le_iff add.commute of_nat_numeral of_nat_power)
    have "1 / q \<le> 2 ^ bitlen c" "2 ^ (bitlen c - 1) < 1 / q"
      using c l u by linarith+
    then have "1 / 2 ^ bitlen c \<le> q" "q < 1 / 2 ^ (bitlen c - 1)"
      using assms by (simp_all add: field_simps)
    moreover have "pow2 (1 - int (bitlen c)) = 1 / 2 ^ (bitlen c - 1)"
      using b(3) by (cases "bitlen c = 1") (auto simp: pow2_def nat_diff_distrib)
    ultimately show ?thesis
      using False b(3) by (simp add: flog2_def c_def [symmetric]) (simp add: pow2_def)
  qed
  then show "pow2 (flog2 q) \<le> q" and "q < pow2 (flog2 q + 1)" by auto
qed

lemma flog2_less: "0 < q \<Longrightarrow> pow2 k \<le> q \<Longrightarrow> k \<le> flog2 q"
proof (rule ccontr)
  assume "0 < q" "pow2 k \<le> q" "\<not> k \<le> flog2 q"
  then have "q < pow2 (flog2 q + 1)" "pow2 (flog2 q + 1) \<le> pow2 k"
    by (auto intro: flog2_bounds(2) pow2_mono)
  with \<open>pow2 k \<le> q\<close> show False by linarith
qed

lemma flog2_mono: "0 < p \<Longrightarrow> p \<le> q \<Longrightarrow> flog2 p \<le> flog2 q"
  using flog2_bounds(1) [of p] by (intro flog2_less) auto

lemma round_even_of_int [simp]: "round_even (of_int n) = n"
  by (simp add: round_even_def)

lemma round_even_floor: "\<lfloor>q\<rfloor> \<le> round_even q" "round_even q \<le> \<lfloor>q\<rfloor> + 1"
  by (auto simp: round_even_def Let_def)

lemma round_even_mono: "p \<le> q \<Longrightarrow> round_even p \<le> round_even q"
proof (cases "\<lfloor>p\<rfloor> = \<lfloor>q\<rfloor>")
  case True
  assume "p \<le> q"
  with True show ?thesis by (auto simp: round_even_def Let_def)
next
  case False
  assume "p \<le> q"
  then have "\<lfloor>p\<rfloor> \<le> \<lfloor>q\<rfloor>" by (rule floor_mono)
  with False round_even_floor(2) [of p] round_even_floor(1) [of q] show ?thesis by linarith
qed

lemma round_even_minus: "round_even (- q) = - round_even q"
proof (cases "q = of_int \<lfloor>q\<rfloor>")
  case True
  then show ?thesis by (metis of_int_minus round_even_of_int)
next
  case False
  have f: "\<lfloor>- q\<rfloor> = - \<lfloor>q\<rfloor> - 1"
  proof (rule floor_unique)
    show "of_int (- \<lfloor>q\<rfloor> - 1) \<le> - q" by simp linarith
    have "of_int \<lfloor>q\<rfloor> < q" using False of_int_floor_le [of q] by linarith
    then show "- q < of_int (- \<lfloor>q\<rfloor> - 1) + 1" by simp
  qed
  show ?thesis
    unfolding round_even_def Let_def f by (auto simp: field_simps)
qed

lemma f64_round_0 [simp]: "f64_round 0 = 0"
  by (simp add: f64_round_def)

lemma f64_round_minus: "f64_round (- q) = - f64_round q"
  by (simp add: f64_round_def f64_grid_def round_even_minus)

lemma f64_round_exact:
  assumes m: "\<bar>m\<bar> \<le> 2 ^ 53" and e: "- 1074 \<le> e"
  shows "f64_round (of_int m * pow2 e) = of_int m * pow2 e"
proof (cases "m = 0")
  case False
  define q where "q = of_int m * pow2 e"
  define u where "u = f64_grid q"
  have q0: "q \<noteq> 0" using False by (simp add: q_def less_imp_neq [OF pow2_pos, symmetric])
  have absq: "\<bar>q\<bar> = of_int \<bar>m\<bar> * pow2 e" by (simp add: q_def abs_mult less_imp_le)
  have "\<exists>n. q / pow2 u = of_int n"
  proof (cases "u \<le> e")
    case True
    then have "q / pow2 u = of_int m * pow2 (e - u)"
      using pow2_add [of "e - u" u] by (simp add: q_def less_imp_neq [OF pow2_pos, symmetric])
    also have "\<dots> = of_int (m * 2 ^ nat (e - u))" using True by (simp add: pow2_def)
    finally show ?thesis by blast
  next
    case nle: False
    with e have ue: "u = flog2 \<bar>q\<bar> - 52" by (auto simp: u_def f64_grid_def)
    have "pow2 (u + 52) \<le> of_int \<bar>m\<bar> * pow2 e"
      using flog2_bounds(1) [of "\<bar>q\<bar>"] q0 ue absq by simp
    moreover have "pow2 (u + 52) = pow2 (u - e + 52) * pow2 e"
      by (simp add: pow2_add [symmetric])
    ultimately have "pow2 (u - e + 52) \<le> of_int \<bar>m\<bar>" by simp
    moreover have "pow2 (u - e + 52) = of_int (2 ^ nat (u - e + 52))" using nle by (simp add: pow2_def)
    ultimately have le: "2 ^ nat (u - e + 52) \<le> \<bar>m\<bar>" by (simp only: of_int_le_iff)
    have "(2::int) ^ nat (u - e + 52) \<le> 2 ^ 53" using le m by linarith
    then have "nat (u - e + 52) \<le> 53" by (rule power_le_imp_le_exp [rotated]) simp
    with nle have ue1: "u = e + 1" by linarith
    with le m have "\<bar>m\<bar> = 2 ^ 53" by simp
    then obtain s where "m = s * 2 ^ 53" by (metis mult_sgn_abs)
    moreover have "q / pow2 u = of_int m / 2"
      using ue1 pow2_add [of e 1] less_imp_neq [OF pow2_pos [of e]] by (simp add: q_def pow2_def [of 1])
    ultimately have "q / pow2 u = of_int (s * 2 ^ 52)" by simp
    then show ?thesis by blast
  qed
  then obtain n where n: "q / pow2 u = of_int n" by blast
  then have "f64_round q = of_int n * pow2 u"
    using q0 by (simp add: f64_round_def u_def [symmetric])
  also have "\<dots> = q" using n by (metis nonzero_eq_divide_eq pow2_pos less_irrefl)
  finally show ?thesis by (simp add: q_def)
qed simp

lemma f64_round_int: "\<bar>m\<bar> \<le> 2 ^ 53 \<Longrightarrow> f64_round (of_int m) = of_int m"
  using f64_round_exact [of m 0] by (simp add: pow2_def)

lemma f64_round_le_grid:
  assumes "0 < q" "f64_grid q \<le> k" "q \<le> pow2 k"
  shows "f64_round q \<le> pow2 k"
proof -
  have k: "pow2 k / pow2 (f64_grid q) = of_int (2 ^ nat (k - f64_grid q))"
    using pow2_add [of "k - f64_grid q" "f64_grid q"] assms(2)
    by (simp add: pow2_def [of "k - f64_grid q"] less_imp_neq [OF pow2_pos, symmetric])
  have "q / pow2 (f64_grid q) \<le> pow2 k / pow2 (f64_grid q)"
    using assms(3) by (simp add: divide_right_mono less_imp_le)
  then have "round_even (q / pow2 (f64_grid q)) \<le> 2 ^ nat (k - f64_grid q)"
    using round_even_mono k by (metis round_even_of_int)
  then have "of_int (round_even (q / pow2 (f64_grid q))) \<le> pow2 k / pow2 (f64_grid q)"
    unfolding k by (simp only: of_int_le_iff)
  then show ?thesis using assms(1) by (simp add: f64_round_def pos_le_divide_eq)
qed

lemma f64_round_ge_grid:
  assumes "0 < q" "f64_grid q \<le> k" "pow2 k \<le> q"
  shows "pow2 k \<le> f64_round q"
proof -
  have k: "pow2 k / pow2 (f64_grid q) = of_int (2 ^ nat (k - f64_grid q))"
    using pow2_add [of "k - f64_grid q" "f64_grid q"] assms(2)
    by (simp add: pow2_def [of "k - f64_grid q"] less_imp_neq [OF pow2_pos, symmetric])
  have "pow2 k / pow2 (f64_grid q) \<le> q / pow2 (f64_grid q)"
    using assms(3) by (simp add: divide_right_mono less_imp_le)
  then have "2 ^ nat (k - f64_grid q) \<le> round_even (q / pow2 (f64_grid q))"
    using round_even_mono k by (metis round_even_of_int)
  then have "pow2 k / pow2 (f64_grid q) \<le> of_int (round_even (q / pow2 (f64_grid q)))"
    unfolding k by (simp only: of_int_le_iff)
  then show ?thesis using assms(1) by (simp add: f64_round_def pos_divide_le_eq)
qed

lemma f64_round_nonneg: "0 \<le> q \<Longrightarrow> 0 \<le> f64_round q"
proof -
  assume "0 \<le> q"
  then have "0 \<le> q / pow2 (f64_grid q)" by (simp add: less_imp_le)
  then have "round_even 0 \<le> round_even (q / pow2 (f64_grid q))" by (rule round_even_mono)
  moreover have "round_even 0 = 0" using round_even_of_int [of 0] by simp
  ultimately show ?thesis by (simp add: f64_round_def less_imp_le)
qed

lemma f64_round_mono_pos:
  assumes "0 < p" "p \<le> q"
  shows "f64_round p \<le> f64_round q"
proof (cases "f64_grid p = f64_grid q")
  case True
  have "p / pow2 (f64_grid q) \<le> q / pow2 (f64_grid q)"
    using assms(2) by (simp add: divide_right_mono less_imp_le)
  then have "round_even (p / pow2 (f64_grid q)) \<le> round_even (q / pow2 (f64_grid q))"
    by (rule round_even_mono)
  with True assms show ?thesis by (simp add: f64_round_def less_imp_le)
next
  case False
  have fl: "flog2 p \<le> flog2 q" using assms by (rule flog2_mono)
  with False have g: "flog2 p < flog2 q" "f64_grid q = flog2 q - 52" "f64_grid p \<le> flog2 q"
    using assms by (auto simp: f64_grid_def max_def split: if_splits)
  have "p \<le> pow2 (flog2 q)"
    using flog2_bounds(2) [of p] assms(1) pow2_mono [of "flog2 p + 1" "flog2 q"] g(1) by linarith
  then have "f64_round p \<le> pow2 (flog2 q)" using f64_round_le_grid assms(1) g(3) by blast
  also have "\<dots> \<le> f64_round q"
    using f64_round_ge_grid [of q "flog2 q"] flog2_bounds(1) [of q] assms g(2) by simp
  finally show ?thesis .
qed

lemma f64_round_mono: "p \<le> q \<Longrightarrow> f64_round p \<le> f64_round q"
proof -
  assume pq: "p \<le> q"
  consider "0 < p" | "p \<le> 0" "0 \<le> q" | "q < 0" using pq by linarith
  then show ?thesis
  proof cases
    case 1
    with pq show ?thesis by (rule f64_round_mono_pos [rotated])
  next
    case 2
    then show ?thesis
      using f64_round_nonneg [of q] f64_round_nonneg [of "- p"] by (simp add: f64_round_minus)
  next
    case 3
    with pq have "f64_round (- q) \<le> f64_round (- p)" by (intro f64_round_mono_pos) auto
    then show ?thesis by (simp add: f64_round_minus)
  qed
qed

lemma f64_lt_irrefl [simp]: "\<not> f64_lt x x"
  by (cases x) auto

lemma f64_lt_NaN [simp]: "\<not> f64_lt x NaN"
  by (cases x) auto

lemma f64_le_refl [simp]: "f64_le x x \<longleftrightarrow> x \<noteq> NaN"
  by (simp add: f64_le_def)

lemma f64_le_Fin [simp]: "f64_le (Fin a) (Fin b) \<longleftrightarrow> a \<le> b"
  by (auto simp: f64_le_def)

lemma f64_lt_trans: "f64_lt x y \<Longrightarrow> f64_lt y z \<Longrightarrow> f64_lt x z"
  by (cases x; cases y; cases z) auto

lemma f64_le_trans: "f64_le x y \<Longrightarrow> f64_le y z \<Longrightarrow> f64_le x z"
  by (auto simp: f64_le_def intro: f64_lt_trans)

lemma f64_not_lt: "x \<noteq> NaN \<Longrightarrow> y \<noteq> NaN \<Longrightarrow> \<not> f64_lt x y \<longleftrightarrow> f64_le y x"
  by (cases x; cases y) (auto simp: f64_le_def)

lemma rnd_not_NaN [simp]: "rnd q \<noteq> NaN"
  by (simp add: rnd_def Let_def)

lemma rnd_exact:
  assumes m: "\<bar>m\<bar> \<le> 2 ^ 53" and e: "- 1074 \<le> e" "e \<le> 0"
  shows "rnd (of_int m * pow2 e) = Fin (of_int m * pow2 e)"
proof -
  have "pow2 e \<le> 1" using pow2_mono [OF e(2)] by (simp add: pow2_def)
  moreover have "of_int \<bar>m\<bar> \<le> (of_int (2 ^ 53) :: rat)" using m by (simp only: of_int_le_iff)
  ultimately have "\<bar>of_int m * pow2 e\<bar> \<le> 2 ^ 53 * 1"
    unfolding abs_mult by (intro mult_mono) (auto simp: less_imp_le)
  also have "\<dots> < (2 ^ 1024 :: rat)" by simp
  finally have "\<bar>of_int m * pow2 e\<bar> < 2 ^ 1024" .
  then have "\<not> 2 ^ 1024 \<le> of_int m * pow2 e" "\<not> of_int m * pow2 e \<le> - (2 ^ 1024)" by linarith+
  then show ?thesis
    unfolding rnd_def Let_def f64_round_exact [OF m e(1)] by (simp only: if_False)
qed

lemma rnd_int: "\<bar>m\<bar> \<le> 2 ^ 53 \<Longrightarrow> rnd (of_int m) = Fin (of_int m)"
  using rnd_exact [of m 0] by (simp add: pow2_def)

lemma rnd_0 [simp]: "rnd 0 = Fin 0"
  using rnd_int [of 0] by simp

lemma rnd_mono: "p \<le> q \<Longrightarrow> f64_le (rnd p) (rnd q)"
  using f64_round_mono [of p q] by (auto simp: rnd_def Let_def f64_le_def)

lemma rnd_between:
  assumes "rnd a = Fin a" and "rnd b = Fin b" and "a \<le> q" and "q \<le> b"
  shows "\<exists>t. rnd q = Fin t \<and> a \<le> t \<and> t \<le> b"
proof -
  have "f64_le (Fin a) (rnd q)" "f64_le (rnd q) (Fin b)" using rnd_mono [OF assms(3)] rnd_mono [OF assms(4)] assms(1,2) by simp_all
  then show ?thesis by (cases "rnd q") (auto simp: f64_le_def)
qed

lemma rnd_nonneg: "0 \<le> q \<Longrightarrow> \<not> f64_lt (rnd q) (Fin 0)"
  using f64_round_nonneg [of q] by (auto simp: rnd_def Let_def)

lemma f64_sub_nonneg: "\<not> f64_lt x y \<Longrightarrow> \<not> f64_lt (f64_sub x y) f64_0"
  by (cases x; cases y) (auto simp: f64_sub_def intro!: rnd_nonneg)

lemma f64_add_nonneg: "\<not> f64_lt x f64_0 \<Longrightarrow> \<not> f64_lt y f64_0 \<Longrightarrow> \<not> f64_lt (f64_add x y) f64_0"
  by (cases x; cases y) (auto intro!: rnd_nonneg)

lemma f64_add_int: "\<bar>a + b\<bar> \<le> 2 ^ 53 \<Longrightarrow> f64_add (Fin (of_int a)) (Fin (of_int b)) = Fin (of_int (a + b))"
  using rnd_int [of "a + b"] by simp

lemma f64_round_repr: "\<exists>n e. f64_round q = of_int n * pow2 e \<and> \<bar>n\<bar> \<le> 2 ^ 53 \<and> - 1074 \<le> e"
proof (cases "q = 0")
  case True
  then show ?thesis by (intro exI [of _ 0]) (auto simp: pow2_def)
next
  case False
  define u where "u = f64_grid q"
  have "\<bar>q\<bar> < pow2 (flog2 \<bar>q\<bar> + 1)" using False by (intro flog2_bounds) simp
  also have "\<dots> \<le> pow2 (53 + u)" by (rule pow2_mono) (simp add: u_def f64_grid_def)
  also have "\<dots> = 2 ^ 53 * pow2 u" by (simp add: pow2_add pow2_def [of 53])
  finally have "\<bar>q / pow2 u\<bar> \<le> 2 ^ 53"
    by (simp add: abs_divide pos_divide_le_eq)
  then have "q / pow2 u \<le> 2 ^ 53" "- (2 ^ 53) \<le> q / pow2 u" by linarith+
  then have "q / pow2 u \<le> of_int (2 ^ 53)" "of_int (- (2 ^ 53)) \<le> q / pow2 u" by simp_all
  then have "round_even (q / pow2 u) \<le> 2 ^ 53" "- (2 ^ 53) \<le> round_even (q / pow2 u)"
    by (metis round_even_mono round_even_of_int)+
  then show ?thesis
    using False by (intro exI [of _ "round_even (q / pow2 u)"] exI [of _ u])
      (auto simp: f64_round_def u_def f64_grid_def)
qed

lemma f64_round_idem [simp]: "f64_round (f64_round q) = f64_round q"
  using f64_round_repr [of q] f64_round_exact by metis

lemma f64_ok_simps [simp]: "f64_ok NaN" "f64_ok PInf" "f64_ok NInf" "f64_ok (Fin q) \<longleftrightarrow> rnd q = Fin q"
  by (simp_all add: f64_ok_def)

lemma f64_ok_rnd [simp]: "f64_ok (rnd q)"
  by (auto simp: f64_ok_def rnd_def Let_def)

lemma f64_ok_add [simp]: "f64_ok (f64_add x y)"
  by (cases "(x, y)" rule: f64_add.cases) simp_all

lemma f64_ok_mul [simp]: "f64_ok (f64_mul x y)"
  by (cases "(x, y)" rule: f64_mul.cases) (simp_all add: f64_inf_def)

lemma f64_add_ge: "f64_ok x \<Longrightarrow> x \<noteq> NaN \<Longrightarrow> f64_le f64_0 y \<Longrightarrow> x \<noteq> NInf \<Longrightarrow> f64_le x (f64_add x y)"
proof (cases x; cases y)
  fix a b
  assume "f64_ok x" "f64_le f64_0 y" "x = Fin a" "y = Fin b"
  then show ?thesis using rnd_mono [of a "a + b"] by simp
qed (auto simp: f64_le_def)

section \<open>Values of constants\<close>

lemma flog2_eq: "pow2 k \<le> q \<Longrightarrow> q < pow2 (k + 1) \<Longrightarrow> flog2 q = k"
proof -
  assume a: "pow2 k \<le> q" "q < pow2 (k + 1)"
  have q: "0 < q" using a(1) pow2_pos [of k] by linarith
  have "k \<le> flog2 q" using flog2_less [OF q a(1)] .
  moreover have "\<not> k + 1 \<le> flog2 q" using flog2_bounds(1) [OF q] pow2_mono [of "k + 1" "flog2 q"] a(2) by auto
  ultimately show ?thesis by simp
qed

lemma round_even_eq: "\<bar>q - of_int m\<bar> < 1 / 2 \<Longrightarrow> round_even q = m"
  unfolding round_even_def Let_def by (auto simp: abs_if split: if_splits) linarith+

text \<open>The value of a constant: the multiple of the grid in its binade that is nearest.\<close>

lemma rnd_eqI:
  assumes "pow2 k \<le> q" and "q < pow2 (k + 1)" and "- 1000 \<le> k" and "k \<le> 1000" and "\<bar>q / pow2 (k - 52) - of_int m\<bar> < 1 / 2"
  shows "rnd q = Fin (of_int m * pow2 (k - 52))"
proof -
  have q: "0 < q" using assms(1) pow2_pos [of k] by linarith
  have g: "f64_grid q = k - 52" using flog2_eq [OF assms(1,2)] assms(3) q by (simp add: f64_grid_def)
  have r: "f64_round q = of_int m * pow2 (k - 52)" using round_even_eq [OF assms(5)] q g by (simp add: f64_round_def)
  have "f64_round q \<le> pow2 (k + 1)"
    using f64_round_mono [of q "pow2 (k + 1)"] f64_round_exact [of 1 "k + 1"] assms(2,3,4) by simp
  moreover have "0 \<le> f64_round q" using f64_round_nonneg [of q] q by simp
  moreover have "pow2 (k + 1) \<le> pow2 1001" using assms(4) by (intro pow2_mono) simp
  moreover have "pow2 1001 < (2 :: rat) ^ 1024" by (simp add: pow2_def)
  ultimately show ?thesis using r by (simp add: rnd_def Let_def)
qed

lemma scaled_bounds:
  assumes "\<bar>n\<bar> \<le> 2 ^ 53" and "0 \<le> lo" and "lo \<le> 2 ^ 53" and "0 \<le> hi" and "hi \<le> 2 ^ 53"
    and "of_int lo / 1024 \<le> of_int n * f" and "of_int n * f \<le> of_int hi / 1024"
  shows "lo div 1024 \<le> scaled conv n (Fin f)" and "scaled conv n (Fin f) \<le> hi div 1024"
proof -
  have e: "rnd (of_int m / 1024) = Fin (of_int m / 1024)" if "\<bar>m\<bar> \<le> 2 ^ 53" for m
    using rnd_exact [OF that, of "- 10"] by (simp add: pow2_def)
  from rnd_between [OF e [of lo] e [of hi] assms(6,7)] assms obtain t where
    t: "rnd (of_int n * f) = Fin t" "of_int lo / 1024 \<le> t" "t \<le> of_int hi / 1024" by auto
  have 0: "0 \<le> t" using t(2) assms(2) by (smt (verit, best) divide_nonneg_nonneg of_int_0_le_iff zero_le_numeral order_trans)
  have fl: "\<lfloor>(of_int m :: rat) / 1024\<rfloor> = m div 1024" for m using floor_divide_of_int_eq [of m 1024, where 'a = rat] by simp
  have b: "lo div 1024 \<le> \<lfloor>t\<rfloor>" "\<lfloor>t\<rfloor> \<le> hi div 1024" using floor_mono [OF t(2)] floor_mono [OF t(3)] by (simp_all add: fl)
  moreover have "hi div 1024 < 2 ^ 63" using assms(5) by (intro order.strict_trans1 [OF zdiv_mono1 [of hi "2 ^ 53" 1024]]) auto
  ultimately have "\<lfloor>t\<rfloor> < 2 ^ 63" "0 \<le> \<lfloor>t\<rfloor>" using 0 by linarith+
  then have "scaled conv n (Fin f) = \<lfloor>t\<rfloor>"
    using t(1) 0 rnd_int [OF assms(1)] by (simp add: scaled_def f64_of_int_def rat_trunc_def del: floor_less_numeral)
  with b show "lo div 1024 \<le> scaled conv n (Fin f)" "scaled conv n (Fin f) \<le> hi div 1024" by simp_all
qed

end
