(* ===== verification/GoTime.thy ===== *)
theory GoTime
  imports Prelude Float64
begin

text \<open>
  Time and decimal formatting as the components use them. An instant is a number of nanoseconds
  since the Unix epoch and a \<open>time.Duration\<close> a number of nanoseconds; instants outside the range
  of \<open>time.Time\<close> are not treated. \<open>fmt_d\<close> and \<open>fmt_f8\<close> are the verbs \<open>%d\<close> and
  \<open>%.8f\<close> of \<open>fmt.Sprintf\<close>.
\<close>

section \<open>Definitions\<close>

definition nanosecond :: duration where "nanosecond = 1"

definition millisecond :: duration where "millisecond = 1000000"

definition second :: duration where "second = 1000000000"

definition minute :: duration where "minute = 60 * second"

definition hour :: duration where "hour = 60 * minute"

text \<open>\<open>Time.Unix\<close> and \<open>Duration.Seconds\<close>.\<close>

definition unix :: "int \<Rightarrow> int" where
  "unix t = t div second"

definition go_mod :: "int \<Rightarrow> int \<Rightarrow> int" where
  "go_mod a b = a - b * go_div a b"

definition duration_seconds :: "duration \<Rightarrow> float64" where
  "duration_seconds d =
     f64_add (f64_of_int (go_div d second)) (f64_div (f64_of_int (go_mod d second)) (Fin 1000000000))"

fun fmt_nat :: "nat \<Rightarrow> string" where
  "fmt_nat n = (if n < 10 then [char_of (48 + n)] else fmt_nat (n div 10) @ [char_of (48 + n mod 10)])"

declare fmt_nat.simps [simp del]

definition fmt_d :: "int \<Rightarrow> string" where
  "fmt_d n = (if n < 0 then CHR ''-'' # fmt_nat (nat (- n)) else fmt_nat (nat n))"

text \<open>The verb \<open>%.8f\<close>: the decimal with eight places nearest to the exact value, ties to even.\<close>

definition fmt_pad :: "nat \<Rightarrow> string \<Rightarrow> string" where
  "fmt_pad n s = replicate (n - length s) (CHR ''0'') @ s"

fun fmt_f8 :: "float64 \<Rightarrow> string" where
  "fmt_f8 NaN = ''NaN''"
| "fmt_f8 PInf = ''+Inf''"
| "fmt_f8 NInf = ''-Inf''"
| "fmt_f8 (Fin q) =
     (let n = nat (round_even (\<bar>q\<bar> * 100000000))
      in (if q < 0 then ''-'' else []) @ fmt_nat (n div 100000000) @ ''.'' @ fmt_pad 8 (fmt_nat (n mod 100000000)))"

section \<open>Decimal notation is injective\<close>

definition digit :: "char \<Rightarrow> bool" where
  "digit c \<longleftrightarrow> 48 \<le> (of_char c :: nat) \<and> (of_char c :: nat) \<le> 57"

lemma of_char_digit: "k < 10 \<Longrightarrow> of_char (char_of (48 + k) :: char) = (48 + k :: nat)"
  by simp

lemma fmt_nat_digits: "c \<in> set (fmt_nat n) \<Longrightarrow> digit c"
proof (induction n rule: fmt_nat.induct)
  case (1 n)
  then show ?case
    by (subst (asm) (2) fmt_nat.simps) (auto simp: digit_def split: if_splits)
qed

text \<open>The value of a digit string, to which \<open>fmt_nat\<close> is a right inverse.\<close>

definition digits_val :: "string \<Rightarrow> nat" where
  "digits_val s = foldl (\<lambda>v c. 10 * v + (of_char c - 48)) 0 s"

lemma digits_val_fmt: "digits_val (fmt_nat n) = n"
proof (induction n rule: fmt_nat.induct)
  case (1 n)
  show ?case
  proof (cases "n < 10")
    case True
    then show ?thesis by (simp add: fmt_nat.simps [of n] digits_val_def)
  next
    case False
    then have "digits_val (fmt_nat n) = 10 * digits_val (fmt_nat (n div 10)) + n mod 10"
      by (simp add: fmt_nat.simps [of n] digits_val_def)
    with 1 [OF False] show ?thesis by simp
  qed
qed

lemma fmt_nat_not_minus: "fmt_nat n \<noteq> CHR ''-'' # s"
  using fmt_nat_digits [of "CHR ''-''" n] by (auto simp: digit_def)

lemma fmt_nat_inj: "fmt_nat n = fmt_nat m \<Longrightarrow> n = m"
  by (metis digits_val_fmt)

lemma fmt_d_inj:
  assumes "fmt_d n = fmt_d m"
  shows "n = m"
proof -
  consider "n < 0" "m < 0" | "n < 0" "0 \<le> m" | "0 \<le> n" "m < 0" | "0 \<le> n" "0 \<le> m" by linarith
  then show ?thesis
  proof cases
    case 1
    with assms have "nat (- n) = nat (- m)" by (intro fmt_nat_inj) (simp add: fmt_d_def)
    with 1 show ?thesis by simp
  next
    case 4
    with assms have "nat n = nat m" by (intro fmt_nat_inj) (simp add: fmt_d_def)
    with 4 show ?thesis by simp
  qed (use assms fmt_nat_not_minus fmt_nat_not_minus [symmetric] in \<open>auto simp: fmt_d_def\<close>)
qed

lemma fmt_d_no_colon: "CHR '':'' \<notin> set (fmt_d n)"
  using fmt_nat_digits [of "CHR '':''" "nat n"] fmt_nat_digits [of "CHR '':''" "nat (- n)"]
  by (auto simp: fmt_d_def digit_def split: if_splits)

text \<open>A key \<open>\<open>s:n\<close>\<close> determines \<open>s\<close> and \<open>n\<close>: no colon is in a decimal number.\<close>

lemma colon_key_inj:
  assumes "s @ '':'' @ fmt_d n = t @ '':'' @ fmt_d m"
  shows "s = t \<and> n = m"
proof -
  have "rev (fmt_d n) @ CHR '':'' # rev s = rev (fmt_d m) @ CHR '':'' # rev t"
    using arg_cong [OF assms, of rev] by simp
  moreover have "takeWhile (\<lambda>c. c \<noteq> CHR '':'') (rev (fmt_d k) @ CHR '':'' # u) = rev (fmt_d k)" for k u
    using fmt_d_no_colon [of k] by (subst takeWhile_append2) auto
  ultimately have "rev (fmt_d n) = rev (fmt_d m)" by metis
  then have "n = m" using fmt_d_inj by simp
  with assms show ?thesis by simp
qed

end
