(* ===== verification/Accounts.thy ===== *)
theory Accounts
  imports Hex GoTime Sha256
begin

text \<open>
  The package \<open>common\<close>: transactions and blocks with their sanity checks (\<open>common/common.go\<close>),
  the global account table and its operations, and the methods of an account
  (\<open>common/accounts.go\<close>).

  The account table maps an ID to the account object stored under it. An operation that
  fails returns its error; a method that returns only an error returns \<open>None\<close> for \<open>nil\<close>.
  A write through the pointer \<open>GetAccount\<close> returns is a write to the table's object.
\<close>

section \<open>Data\<close>

datatype common_error =
    ErrAccountNotFound
  | ErrInsufficientFunds
  | ErrAccountExists
  | ErrExceedsTotalSupply
  | ErrInvalidAmount
  | ErrNew string
  | ErrAccountMissing string
  | ErrTransactionValidation common_error

record Account =
  acc_ID :: string
  acc_PublicKey :: bytes
  acc_EncryptedPrivateKey :: bytes
  acc_Balance :: float64
  acc_MultiSig :: bool
  acc_HDWalletKey :: string
  acc_Role :: string
  acc_KYCStatus :: bool
  acc_VotingWeight :: int
  acc_Nonce :: int
  acc_CreatedAt :: int
  acc_LastActive :: int
  acc_StakedAmount :: float64
  acc_DelegatedValidator :: string

type_synonym accounts = "string \<rightharpoonup> Account"

text \<open>A struct literal leaves the fields it does not name at their zero values.\<close>

definition zero_Account :: Account where
  "zero_Account =
     \<lparr>acc_ID = '''', acc_PublicKey = [], acc_EncryptedPrivateKey = [], acc_Balance = f64_0,
      acc_MultiSig = False, acc_HDWalletKey = '''', acc_Role = '''', acc_KYCStatus = False,
      acc_VotingWeight = 0, acc_Nonce = 0, acc_CreatedAt = 0, acc_LastActive = 0,
      acc_StakedAmount = f64_0, acc_DelegatedValidator = ''''\<rparr>"

text \<open>Of a transaction's metadata the program reads the keys only.\<close>

record Transaction =
  tx_ID :: string
  tx_Sender :: string
  tx_Receiver :: string
  tx_Amount :: float64
  tx_Timestamp :: int
  tx_Signature :: bytes
  tx_Priority :: int
  tx_Fee :: float64
  tx_ExpiryTime :: int
  tx_SmartContractID :: string
  tx_Metadata :: "string list"
  tx_Data :: bytes
  tx_Nonce :: int
  tx_SignerID :: string
  tx_BlockHeight :: int
  tx_Status :: string

record Block =
  blk_Number :: int
  blk_PreviousHash :: string
  blk_Hash :: string
  blk_Transactions :: "Transaction list"
  blk_Timestamp :: int
  blk_Validator :: string
  blk_MerkleRoot :: string

section \<open>Transactions and blocks\<close>

definition Transaction_Validate :: "int \<Rightarrow> Transaction \<Rightarrow> common_error option" where
  "Transaction_Validate now tx =
     (if f64_le (tx_Amount tx) f64_0 then Some (ErrNew ''transaction amount must be greater than zero'')
      else if f64_lt (tx_Fee tx) f64_0 then Some (ErrNew ''transaction fee cannot be negative'')
      else if tx_Sender tx = '''' \<or> tx_Receiver tx = ''''
        then Some (ErrNew ''transaction must have a valid sender and receiver'')
      else if tx_ExpiryTime tx > 0 \<and> tx_ExpiryTime tx < now then Some (ErrNew ''transaction has expired'')
      else None)"

fun validate_each :: "int \<Rightarrow> Transaction list \<Rightarrow> common_error option" where
  "validate_each now [] = None"
| "validate_each now (tx # txs) =
     (case Transaction_Validate now tx of
        Some e \<Rightarrow> Some (ErrTransactionValidation e)
      | None \<Rightarrow> validate_each now txs)"

definition Block_Validate :: "int \<Rightarrow> Block \<Rightarrow> Block option \<Rightarrow> common_error option" where
  "Block_Validate now b previousBlock =
     (if blk_Number b \<le> 0 then Some (ErrNew ''block number must be positive'')
      else if blk_Timestamp b \<le> 0 then Some (ErrNew ''block timestamp must be positive'')
      else if length (blk_Hash b) = 0 then Some (ErrNew ''block hash cannot be empty'')
      else
        case (if blk_Number b > 1 then
                (case previousBlock of
                   None \<Rightarrow> Some (ErrNew ''previous block required for validation'')
                 | Some p \<Rightarrow>
                     if blk_PreviousHash b \<noteq> blk_Hash p then Some (ErrNew ''previous hash does not match'')
                     else if blk_Number b \<noteq> i64 (blk_Number p + 1)
                       then Some (ErrNew ''block number must be sequential'')
                     else None)
              else None) of
          Some e \<Rightarrow> Some e
        | None \<Rightarrow> validate_each now (blk_Transactions b))"

section \<open>Hashes of transactions and blocks\<close>

definition HashData :: "bytes \<Rightarrow> string" where
  "HashData data = hex_encode (hash_bytes (sha256 data))"

text \<open>What is hashed for one transaction.\<close>

definition tx_line :: "Transaction \<Rightarrow> string" where
  "tx_line tx = tx_ID tx @ '':'' @ tx_Sender tx @ '':'' @ tx_Receiver tx @ '':'' @ fmt_f8 (tx_Amount tx) @ '':'' @
                fmt_d (tx_Timestamp tx)"

definition HashTransactions :: "Transaction list \<Rightarrow> string" where
  "HashTransactions txs =
     (if length txs = 0 then []
      else hex_encode (hash_bytes (sha256 (string_bytes (concat (map tx_line txs))))))"

definition ComputeBlockHash :: "Block \<Rightarrow> string" where
  "ComputeBlockHash b =
     hex_encode (hash_bytes (sha256 (string_bytes
       (fmt_d (blk_Number b) @ '':'' @ blk_PreviousHash b @ '':'' @ fmt_d (blk_Timestamp b) @ '':'' @
        blk_MerkleRoot b @ '':'' @ HashTransactions (blk_Transactions b)))))"

section \<open>The account table\<close>

definition SetAccountBalance :: "string \<Rightarrow> float64 \<Rightarrow> accounts \<Rightarrow> common_error option \<times> accounts" where
  "SetAccountBalance accountID balance accs =
     (if accountID = '''' then (Some (ErrNew ''account ID cannot be empty''), accs)
      else case accs accountID of
        None \<Rightarrow> (None, accs(accountID \<mapsto>
                  zero_Account\<lparr>acc_ID := accountID, acc_Balance := balance, acc_Nonce := 0\<rparr>))
      | Some acc \<Rightarrow> (None, accs(accountID \<mapsto> acc\<lparr>acc_Balance := balance\<rparr>)))"

definition SetPublicKey :: "string \<Rightarrow> bytes \<Rightarrow> accounts \<Rightarrow> common_error option \<times> accounts" where
  "SetPublicKey accountID pubKey accs =
     (if accountID = '''' then (Some (ErrNew ''account ID cannot be empty''), accs)
      else if length pubKey = 0 then (Some (ErrNew ''public key cannot be empty''), accs)
      else case accs accountID of
        None \<Rightarrow> (None, accs(accountID \<mapsto>
                  zero_Account\<lparr>acc_ID := accountID, acc_PublicKey := pubKey\<rparr>))
      | Some acc \<Rightarrow> (None, accs(accountID \<mapsto> acc\<lparr>acc_PublicKey := pubKey\<rparr>)))"

definition CheckAccountBalance :: "string \<Rightarrow> float64 \<Rightarrow> accounts \<Rightarrow> bool" where
  "CheckAccountBalance accountID amount accs =
     (if f64_lt amount f64_0 then False
      else case accs accountID of
        None \<Rightarrow> False
      | Some acc \<Rightarrow> f64_le amount (acc_Balance acc))"

definition GetAccount :: "string \<Rightarrow> accounts \<Rightarrow> Account option" where
  "GetAccount accountID accs = accs accountID"

definition GetPublicKey :: "string \<Rightarrow> accounts \<Rightarrow> common_error + bytes" where
  "GetPublicKey accountID accs =
     (case accs accountID of
        None \<Rightarrow> Inl (ErrAccountMissing accountID)
      | Some acc \<Rightarrow> Inr (acc_PublicKey acc))"

definition UpdateAccountBalance :: "string \<Rightarrow> float64 \<Rightarrow> accounts \<Rightarrow> common_error option \<times> accounts" where
  "UpdateAccountBalance accountID amount accs =
     (case accs accountID of
        None \<Rightarrow> (Some ErrAccountNotFound, accs)
      | Some acc \<Rightarrow>
          if f64_lt (f64_add (acc_Balance acc) amount) f64_0 then (Some ErrInsufficientFunds, accs)
          else (None, accs(accountID \<mapsto> acc\<lparr>acc_Balance := f64_add (acc_Balance acc) amount\<rparr>)))"

definition ValidateTransaction :: "int \<Rightarrow> Transaction \<Rightarrow> common_error option" where
  "ValidateTransaction now tx = Transaction_Validate now tx"

definition RegisterAccount :: "Account option \<Rightarrow> accounts \<Rightarrow> common_error option \<times> accounts" where
  "RegisterAccount ac accs =
     (case ac of
        None \<Rightarrow> (Some (ErrNew ''account cannot be nil''), accs)
      | Some a \<Rightarrow>
          if acc_ID a = '''' then (Some (ErrNew ''account ID cannot be empty''), accs)
          else case accs (acc_ID a) of
            Some _ \<Rightarrow> (Some ErrAccountExists, accs)
          | None \<Rightarrow> (None, accs(acc_ID a \<mapsto> a)))"

definition GetAllAccounts :: "accounts \<Rightarrow> accounts" where
  "GetAllAccounts accs =
     (\<lambda>id. map_option (\<lambda>acc. zero_Account\<lparr>acc_ID := acc_ID acc, acc_Balance := acc_Balance acc,
                                acc_Nonce := acc_Nonce acc, acc_PublicKey := acc_PublicKey acc\<rparr>) (accs id))"

definition ClearAllAccounts :: "accounts \<Rightarrow> accounts" where
  "ClearAllAccounts accs = Map.empty"

section \<open>Methods of an account\<close>

definition Account_Validate :: "Account \<Rightarrow> common_error option" where
  "Account_Validate a =
     (if acc_ID a = '''' then Some (ErrNew ''account ID cannot be empty'')
      else if length (acc_PublicKey a) = 0 then Some (ErrNew ''account must have a public key'')
      else if f64_lt (acc_Balance a) f64_0 then Some (ErrNew ''account balance cannot be negative'')
      else if acc_Nonce a < 0 then Some (ErrNew ''account nonce cannot be negative'')
      else None)"

definition Account_IncrementNonce :: "Account \<Rightarrow> int \<times> Account" where
  "Account_IncrementNonce a = (let n = i64 (acc_Nonce a + 1) in (n, a\<lparr>acc_Nonce := n\<rparr>))"

definition Account_UpdateBalance :: "int \<Rightarrow> float64 \<Rightarrow> Account \<Rightarrow> common_error option \<times> Account" where
  "Account_UpdateBalance now amount a =
     (if f64_lt (f64_add (acc_Balance a) amount) f64_0 then (Some ErrInsufficientFunds, a)
      else (None, a\<lparr>acc_Balance := f64_add (acc_Balance a) amount, acc_LastActive := now\<rparr>))"

definition Account_Stake :: "float64 \<Rightarrow> Account \<Rightarrow> common_error option \<times> Account" where
  "Account_Stake amount a =
     (if f64_le amount f64_0 then (Some (ErrNew ''stake amount must be positive''), a)
      else if f64_lt (acc_Balance a) amount then (Some ErrInsufficientFunds, a)
      else (None, a\<lparr>acc_Balance := f64_sub (acc_Balance a) amount,
                    acc_StakedAmount := f64_add (acc_StakedAmount a) amount\<rparr>))"

definition Account_Unstake :: "float64 \<Rightarrow> Account \<Rightarrow> common_error option \<times> Account" where
  "Account_Unstake amount a =
     (if f64_le amount f64_0 then (Some (ErrNew ''unstake amount must be positive''), a)
      else if f64_lt (acc_StakedAmount a) amount then (Some (ErrNew ''insufficient staked amount''), a)
      else (None, a\<lparr>acc_StakedAmount := f64_sub (acc_StakedAmount a) amount,
                    acc_Balance := f64_add (acc_Balance a) amount\<rparr>))"

definition Account_Clone :: "Account \<Rightarrow> Account" where
  "Account_Clone a =
     zero_Account\<lparr>acc_ID := acc_ID a, acc_Balance := acc_Balance a, acc_MultiSig := acc_MultiSig a,
       acc_HDWalletKey := acc_HDWalletKey a, acc_Role := acc_Role a, acc_KYCStatus := acc_KYCStatus a,
       acc_VotingWeight := acc_VotingWeight a, acc_Nonce := acc_Nonce a, acc_CreatedAt := acc_CreatedAt a,
       acc_LastActive := acc_LastActive a, acc_StakedAmount := acc_StakedAmount a,
       acc_DelegatedValidator := acc_DelegatedValidator a,
       acc_PublicKey := (if length (acc_PublicKey a) > 0 then acc_PublicKey a else []),
       acc_EncryptedPrivateKey :=
         (if length (acc_EncryptedPrivateKey a) > 0 then acc_EncryptedPrivateKey a else [])\<rparr>"

definition NewAccount :: "int \<Rightarrow> int \<Rightarrow> string \<Rightarrow> bytes \<Rightarrow> common_error + Account" where
  "NewAccount now1 now2 accID publicKey =
     (if accID = '''' then Inl (ErrNew ''account ID cannot be empty'')
      else if length publicKey = 0 then Inl (ErrNew ''public key cannot be empty'')
      else Inr (zero_Account\<lparr>acc_ID := accID, acc_PublicKey := publicKey, acc_Balance := f64_0,
                  acc_Nonce := 0, acc_CreatedAt := now1, acc_LastActive := now2\<rparr>))"

section \<open>Private keys at rest\<close>

text \<open>
  AES-256-GCM is a parameter: \<open>seal key nonce plain\<close> and \<open>opn key nonce data\<close>, which is
  \<open>None\<close> when authentication fails. The nonce read from \<open>rand.Reader\<close> is an argument,
  \<open>None\<close> when the read fails. \<open>aead.NonceSize()\<close> is 12.
\<close>

type_synonym aead_seal = "bytes \<Rightarrow> bytes \<Rightarrow> bytes \<Rightarrow> bytes"
type_synonym aead_open = "bytes \<Rightarrow> bytes \<Rightarrow> bytes \<Rightarrow> bytes option"

definition EncryptPrivateKey :: "aead_seal \<Rightarrow> bytes option \<Rightarrow> bytes \<Rightarrow> bytes \<Rightarrow> common_error + bytes" where
  "EncryptPrivateKey seal rand plain key =
     (if length key \<noteq> 32 then Inl (ErrNew ''encryption key must be 32 bytes for AES-256'')
      else if length plain = 0 then Inl (ErrNew ''private key cannot be empty'')
      else case rand of
        None \<Rightarrow> Inl (ErrNew ''nonce generation error'')
      | Some nonce \<Rightarrow> Inr (nonce @ seal key nonce plain))"

definition DecryptPrivateKey :: "aead_open \<Rightarrow> bytes \<Rightarrow> bytes \<Rightarrow> common_error + bytes" where
  "DecryptPrivateKey opn ciphertext key =
     (if length key \<noteq> 32 then Inl (ErrNew ''decryption key must be 32 bytes for AES-256'')
      else if length ciphertext = 0 then Inl (ErrNew ''ciphertext cannot be empty'')
      else if length ciphertext < 12 then Inl (ErrNew ''ciphertext too short'')
      else case opn key (take 12 ciphertext) (drop 12 ciphertext) of
        None \<Rightarrow> Inl (ErrNew ''aes GCM open error'')
      | Some plain \<Rightarrow> Inr plain)"

definition Account_SetPrivateKey ::
    "aead_seal \<Rightarrow> bytes option \<Rightarrow> bytes \<Rightarrow> string \<Rightarrow> Account \<Rightarrow> common_error option \<times> Account" where
  "Account_SetPrivateKey seal rand plain hexKey a =
     (if length plain = 0 then (Some (ErrNew ''private key cannot be empty''), a)
      else if hexKey = '''' then (Some (ErrNew ''encryption key cannot be empty''), a)
      else case hex_decode hexKey of
        None \<Rightarrow> (Some (ErrNew ''failed to decode hex key''), a)
      | Some key \<Rightarrow>
          (case EncryptPrivateKey seal rand plain key of
             Inl e \<Rightarrow> (Some e, a)
           | Inr encrypted \<Rightarrow> (None, a\<lparr>acc_EncryptedPrivateKey := encrypted\<rparr>)))"

definition Account_GetDecryptedPrivateKey :: "aead_open \<Rightarrow> string \<Rightarrow> Account \<Rightarrow> common_error + bytes" where
  "Account_GetDecryptedPrivateKey opn hexKey a =
     (if hexKey = '''' then Inl (ErrNew ''decryption key cannot be empty'')
      else if length (acc_EncryptedPrivateKey a) = 0
        then Inl (ErrNew ''no encrypted private key available'')
      else case hex_decode hexKey of
        None \<Rightarrow> Inl (ErrNew ''failed to decode hex key'')
      | Some key \<Rightarrow> DecryptPrivateKey opn (acc_EncryptedPrivateKey a) key)"

section \<open>Solvency\<close>

text \<open>An account is solvent when neither its balance nor its stake compares below zero, the
  check \<open>Account.Validate\<close> makes of the balance.\<close>

definition solvent :: "Account \<Rightarrow> bool" where
  "solvent a \<longleftrightarrow> \<not> f64_lt (acc_Balance a) f64_0 \<and> \<not> f64_lt (acc_StakedAmount a) f64_0"

text \<open>\<open>D\<close> are the accounts that a caller has made insolvent.\<close>

definition table_ok :: "string set \<Rightarrow> accounts \<Rightarrow> bool" where
  "table_ok D accs \<longleftrightarrow> (\<forall>i a. accs i = Some a \<longrightarrow> acc_ID a = i \<and> i \<noteq> '''' \<and> (i \<notin> D \<longrightarrow> solvent a))"

fun run_method :: "(float64 \<Rightarrow> Account \<Rightarrow> common_error option \<times> Account) \<Rightarrow> float64 list \<Rightarrow> Account \<Rightarrow> Account" where
  "run_method m [] a = a"
| "run_method m (x # xs) a = run_method m xs (snd (m x a))"

text \<open>The contract of the three methods that move an account's money.\<close>

locale account_method =
  fixes m :: "float64 \<Rightarrow> Account \<Rightarrow> common_error option \<times> Account"
  assumes error_unchanged: "fst (m x a) \<noteq> None \<Longrightarrow> snd (m x a) = a"
    and keeps_solvent: "solvent a \<Longrightarrow> solvent (snd (m x a))"
    and keeps_identity: "acc_ID (snd (m x a)) = acc_ID a"
begin

lemma run_solvent: "solvent a \<Longrightarrow> solvent (run_method m xs a)"
  by (induction xs arbitrary: a) (simp_all add: keeps_solvent)

lemma run_identity: "acc_ID (run_method m xs a) = acc_ID a"
  by (induction xs arbitrary: a) (simp_all add: keeps_identity)

lemma table_ok_update: "table_ok D accs \<Longrightarrow> accs i = Some a \<Longrightarrow> table_ok D (accs(i \<mapsto> snd (m x a)))"
  by (auto simp: table_ok_def keeps_solvent keeps_identity)

end

interpretation update_balance: account_method "Account_UpdateBalance now" for now
  by unfold_locales (auto simp: Account_UpdateBalance_def solvent_def)

interpretation stake: account_method Account_Stake
  by unfold_locales
    (auto simp: Account_Stake_def solvent_def f64_le_def f64_sub_nonneg f64_add_nonneg)

interpretation unstake: account_method Account_Unstake
  by unfold_locales
    (auto simp: Account_Unstake_def solvent_def f64_le_def f64_sub_nonneg f64_add_nonneg)

section \<open>Every history of the account table\<close>

text \<open>
  The writes the package offers on the table, as steps: its own operations, and the methods called on the object \<open>GetAccount\<close> returned. \<open>SetAccountBalance\<close> stores any
  balance it is given and \<open>RegisterAccount\<close> any account; the accounts they make insolvent are collected until the table is cleared.
\<close>

inductive table_step :: "string set \<times> accounts \<Rightarrow> string set \<times> accounts \<Rightarrow> bool" where
  set_balance: "table_step (D, accs) (if f64_lt b f64_0 then insert i D else D, snd (SetAccountBalance i b accs))"
| set_key: "table_step (D, accs) (D, snd (SetPublicKey i k accs))"
| update: "table_step (D, accs) (D, snd (UpdateAccountBalance i x accs))"
| register: "table_step (D, accs) (if solvent a then D else insert (acc_ID a) D, snd (RegisterAccount (Some a) accs))"
| method_update: "accs i = Some a \<Longrightarrow> table_step (D, accs) (D, accs(i \<mapsto> snd (Account_UpdateBalance now x a)))"
| method_stake: "accs i = Some a \<Longrightarrow> table_step (D, accs) (D, accs(i \<mapsto> snd (Account_Stake x a)))"
| method_unstake: "accs i = Some a \<Longrightarrow> table_step (D, accs) (D, accs(i \<mapsto> snd (Account_Unstake x a)))"
| method_nonce: "accs i = Some a \<Longrightarrow> table_step (D, accs) (D, accs(i \<mapsto> snd (Account_IncrementNonce a)))"
| clear: "table_step (D, accs) ({}, ClearAllAccounts accs)"

inductive table_reachable :: "string set \<times> accounts \<Rightarrow> bool" where
  start: "table_reachable ({}, Map.empty)"
| step: "table_reachable st \<Longrightarrow> table_step st st' \<Longrightarrow> table_reachable st'"

lemma zero_Account_simps [simp]:
  "acc_Balance zero_Account = f64_0" "acc_StakedAmount zero_Account = f64_0"
  by (simp_all add: zero_Account_def)

lemma SetAccountBalance_ok:
  "table_ok D accs \<Longrightarrow> table_ok (if f64_lt b f64_0 then insert i D else D) (snd (SetAccountBalance i b accs))"
  by (auto simp: table_ok_def SetAccountBalance_def solvent_def split: option.splits)

lemma SetPublicKey_ok: "table_ok D accs \<Longrightarrow> table_ok D (snd (SetPublicKey i k accs))"
  by (auto simp: table_ok_def SetPublicKey_def solvent_def split: option.splits)

lemma UpdateAccountBalance_ok: "table_ok D accs \<Longrightarrow> table_ok D (snd (UpdateAccountBalance i x accs))"
  by (auto simp: table_ok_def UpdateAccountBalance_def solvent_def split: option.splits)

lemma RegisterAccount_ok:
  "table_ok D accs \<Longrightarrow> table_ok (if solvent a then D else insert (acc_ID a) D) (snd (RegisterAccount (Some a) accs))"
  by (auto simp: table_ok_def RegisterAccount_def split: option.splits)

lemma IncrementNonce_ok:
  "table_ok D accs \<Longrightarrow> accs i = Some a \<Longrightarrow> table_ok D (accs(i \<mapsto> snd (Account_IncrementNonce a)))"
  by (auto simp: table_ok_def Account_IncrementNonce_def Let_def solvent_def)

lemmas table_ok_ops =
  SetAccountBalance_ok SetPublicKey_ok UpdateAccountBalance_ok RegisterAccount_ok IncrementNonce_ok
  update_balance.table_ok_update stake.table_ok_update unstake.table_ok_update

lemma table_step_ok: "table_step st st' \<Longrightarrow> table_ok (fst st) (snd st) \<Longrightarrow> table_ok (fst st') (snd st')"
proof (induction rule: table_step.induct)
  case (clear D accs)
  show ?case by (simp add: ClearAllAccounts_def table_ok_def)
qed (simp_all only: fst_conv snd_conv table_ok_ops)

text \<open>
  C33: Through every operation of the package, with any arguments (infinities and NaNs included): each account of the table is stored under its own non-empty ID, and neither
  its balance nor its stake is negative, unless a caller has given this account a negative balance with \<open>SetAccountBalance\<close> or registered it with a negative balance or
  stake, which the package does not refuse. No balance update, stake or unstake makes an account negative, and one bad account does not affect another.
\<close>

theorem account_table_safe:
  assumes "table_reachable (D, accs)" and "accs i = Some a"
  shows "acc_ID a = i \<and> i \<noteq> '''' \<and> (i \<notin> D \<longrightarrow> \<not> f64_lt (acc_Balance a) f64_0 \<and> \<not> f64_lt (acc_StakedAmount a) f64_0)"
proof -
  have "table_ok (fst st) (snd st)" if "table_reachable st" for st
    using that
  proof (induction rule: table_reachable.induct)
    case start
    show ?case by (simp add: table_ok_def)
  next
    case (step st st')
    then show ?case by (blast intro: table_step_ok)
  qed
  from this [OF assms(1)] assms(2) show ?thesis by (simp add: table_ok_def solvent_def)
qed

theorem account_table_safe_witness:
  "\<exists>a. snd (UpdateAccountBalance ''a'' (Fin (- 3)) (snd (SetAccountBalance ''b'' (Fin (- 1)) (snd (SetAccountBalance ''a'' (Fin 5) Map.empty))))) ''a'' = Some a \<and>
     \<not> f64_lt (acc_Balance a) f64_0"
proof -
  note r = table_reachable.step [OF table_reachable.step [OF table_reachable.step
        [OF table_reachable.start table_step.set_balance [of _ _ "Fin 5" "''a''"]] table_step.set_balance [of _ _ "Fin (- 1)" "''b''"]]
      table_step.update [of _ _ "''a''" "Fin (- 3)"]]
  have "\<exists>a. snd (UpdateAccountBalance ''a'' (Fin (- 3)) (snd (SetAccountBalance ''b'' (Fin (- 1)) (snd (SetAccountBalance ''a'' (Fin 5) Map.empty))))) ''a'' = Some a"
    by (simp add: SetAccountBalance_def UpdateAccountBalance_def)
  then show ?thesis using account_table_safe [OF r, of "''a''"] by fastforce
qed

text \<open>On whole amounts that stay within the integers a float64 holds exactly, unstaking what was
  staked gives the account back as it was.
\<close>

theorem unstake_undoes_stake:
  assumes "acc_Balance a = Fin (of_int b)" and "acc_StakedAmount a = Fin (of_int s)"
    and "0 < n" and "n \<le> b" and "0 \<le> s" and "b + s \<le> 2 ^ 53"
  shows "Account_Unstake (Fin (of_int n)) (snd (Account_Stake (Fin (of_int n)) a)) = (None, a)
       \<and> fst (Account_Stake (Fin (of_int n)) a) = None"
proof -
  have "f64_sub (Fin (of_int b)) (Fin (of_int n)) = Fin (of_int (b - n))"
    using rnd_int [of "b - n"] assms by (simp add: f64_sub_def)
  moreover have "f64_add (Fin (of_int s)) (Fin (of_int n)) = Fin (of_int (s + n))"
    using assms by (intro f64_add_int) simp
  ultimately have st: "Account_Stake (Fin (of_int n)) a =
      (None, a\<lparr>acc_Balance := Fin (of_int (b - n)), acc_StakedAmount := Fin (of_int (s + n))\<rparr>)"
    using assms by (simp add: Account_Stake_def)
  moreover have "f64_sub (Fin (of_int (s + n))) (Fin (of_int n)) = Fin (of_int s)"
    using rnd_int [of s] assms by (simp add: f64_sub_def)
  moreover have "f64_add (Fin (of_int (b - n))) (Fin (of_int n)) = Fin (of_int b)"
    using rnd_int [of b] assms by simp
  ultimately show ?thesis using assms by (simp add: Account_Unstake_def)
qed

theorem unstake_undoes_stake_witness:
  "Account_Unstake (Fin 3) (snd (Account_Stake (Fin 3) (zero_Account\<lparr>acc_Balance := Fin 10\<rparr>)))
     = (None, zero_Account\<lparr>acc_Balance := Fin 10\<rparr>)"
  using unstake_undoes_stake [of "zero_Account\<lparr>acc_Balance := Fin 10\<rparr>" 10 0 3] by simp

text \<open>A private key stored with \<open>SetPrivateKey\<close> comes back from \<open>GetDecryptedPrivateKey\<close>
  under the same hexadecimal key, for every cipher whose \<open>Open\<close> inverts its \<open>Seal\<close>.
\<close>

theorem private_key_roundtrip:
  assumes "\<And>key nonce plain. opn key nonce (seal key nonce plain) = Some plain"
    and "length nonce = 12"
    and "Account_SetPrivateKey seal (Some nonce) plain hexKey a = (None, a')"
  shows "Account_GetDecryptedPrivateKey opn hexKey a' = Inr plain"
  using assms
  by (auto simp: Account_SetPrivateKey_def EncryptPrivateKey_def Account_GetDecryptedPrivateKey_def
      DecryptPrivateKey_def split: if_splits option.splits sum.splits)

theorem private_key_roundtrip_witness:
  "Account_GetDecryptedPrivateKey (\<lambda>key nonce data. Some (rev data)) (hex_encode (replicate 32 7))
     (snd (Account_SetPrivateKey (\<lambda>key nonce plain. rev plain) (Some (replicate 12 0)) [1, 2, 3]
            (hex_encode (replicate 32 7)) zero_Account)) = Inr [1, 2, 3]"
proof -
  define K where "K = replicate 32 (7 :: byte)"
  have len: "length K = 32" by (simp add: K_def)
  have ne: "hex_encode K \<noteq> []" using length_hex_encode [of K] len by (cases "hex_encode K") auto
  have "Account_SetPrivateKey (\<lambda>key nonce plain. rev plain) (Some (replicate 12 0)) [1, 2, 3]
          (hex_encode K) zero_Account =
        (None, snd (Account_SetPrivateKey (\<lambda>key nonce plain. rev plain) (Some (replicate 12 0)) [1, 2, 3]
          (hex_encode K) zero_Account))"
    by (simp add: Account_SetPrivateKey_def hex_decode_encode EncryptPrivateKey_def len ne)
  from private_key_roundtrip [OF _ _ this, of "\<lambda>key nonce data. Some (rev data)"]
  show ?thesis by (simp add: K_def)
qed

section \<open>Chains of validated blocks\<close>

text \<open>Each block of the list is validated against the one before it.\<close>

fun validated_chain :: "int \<Rightarrow> Block option \<Rightarrow> Block list \<Rightarrow> bool" where
  "validated_chain now prev [] = True"
| "validated_chain now prev (b # bs) =
     (Block_Validate now b prev = None \<and> validated_chain now (Some b) bs)"

lemma validate_each_None:
  "validate_each now txs = None \<longleftrightarrow> (\<forall>tx \<in> set txs. Transaction_Validate now tx = None)"
  by (induction txs) (auto split: option.splits)

lemma Block_Validate_None:
  "Block_Validate now b prev = None \<longleftrightarrow>
     0 < blk_Number b \<and> 0 < blk_Timestamp b \<and> blk_Hash b \<noteq> '''' \<and>
     (1 < blk_Number b \<longrightarrow> (\<exists>p. prev = Some p \<and> blk_PreviousHash b = blk_Hash p
                               \<and> blk_Number b = i64 (blk_Number p + 1))) \<and>
     (\<forall>tx \<in> set (blk_Transactions b). Transaction_Validate now tx = None)"
  by (auto simp: Block_Validate_def validate_each_None split: option.splits if_splits)

lemma validated_chain_nth:
  "validated_chain now prev bs \<Longrightarrow> k < length bs \<Longrightarrow>
     Block_Validate now (bs ! k) (if k = 0 then prev else Some (bs ! (k - 1))) = None"
proof (induction bs arbitrary: prev k)
  case (Cons b bs)
  show ?case
  proof (cases k)
    case (Suc j)
    with Cons.prems have "Block_Validate now (bs ! j) (if j = 0 then Some b else Some (bs ! (j - 1))) = None"
      by (intro Cons.IH) auto
    with Suc show ?thesis by (cases j) auto
  qed (use Cons.prems in simp)
qed simp

text \<open>In a list of blocks that were each validated against the one before, the first block is
  number 1, every later block either carries its predecessor's hash and the next number or is
  again number 1, and every transaction has an amount above zero or a NaN, never a negative fee,
  and a sender and a receiver.
\<close>

theorem validated_chain_linked:
  assumes "validated_chain now None bs" and "k < length bs"
  shows "(k = 0 \<longrightarrow> blk_Number (bs ! k) = 1)
       \<and> (0 < k \<longrightarrow> blk_Number (bs ! k) = 1 \<or>
            blk_PreviousHash (bs ! k) = blk_Hash (bs ! (k - 1)) \<and>
            blk_Number (bs ! k) = i64 (blk_Number (bs ! (k - 1)) + 1))
       \<and> (\<forall>tx \<in> set (blk_Transactions (bs ! k)).
            \<not> f64_le (tx_Amount tx) f64_0 \<and> \<not> f64_lt (tx_Fee tx) f64_0 \<and>
            tx_Sender tx \<noteq> '''' \<and> tx_Receiver tx \<noteq> '''')"
proof -
  have "Block_Validate now (bs ! k) (if k = 0 then None else Some (bs ! (k - 1))) = None"
    using assms by (rule validated_chain_nth)
  then show ?thesis
    by (auto simp: Block_Validate_None Transaction_Validate_def split: if_splits)
qed

definition example_block :: "int \<Rightarrow> string \<Rightarrow> string \<Rightarrow> Block" where
  "example_block n prev h =
     \<lparr>blk_Number = n, blk_PreviousHash = prev, blk_Hash = h, blk_Transactions = [], blk_Timestamp = 1,
      blk_Validator = ''v'', blk_MerkleRoot = ''''\<rparr>"

theorem validated_chain_linked_witness:
  "blk_PreviousHash (example_block 2 ''a'' ''b'') = blk_Hash (example_block 1 '''' ''a'')
   \<and> validated_chain 0 None [example_block 1 '''' ''a'', example_block 2 ''a'' ''b'']"
proof -
  have v: "validated_chain 0 None [example_block 1 '''' ''a'', example_block 2 ''a'' ''b'']"
    by (simp add: Block_Validate_None example_block_def i64_id)
  from validated_chain_linked [OF v, of 1] v show ?thesis by (simp add: example_block_def)
qed

text \<open>
  The hash of a list of transactions does not determine the list: the lines of the transactions are
  joined with nothing between them, so a transaction's ID can hold the line of the one before.
\<close>

theorem HashTransactions_ambiguous:
  "HashTransactions [t1, t2] = HashTransactions [t2\<lparr>tx_ID := tx_line t1 @ tx_ID t2\<rparr>]"
  by (simp add: HashTransactions_def tx_line_def)

end
