(* ===== verification/TokenSupplyTheory.thy ===== *)
theory TokenSupplyTheory
  imports Accounts
begin

text \<open>
  The token supply of \<open>common/token_supply.go\<close>: a singleton that keeps the total and the
  circulating supply and moves tokens between the treasury account and the other accounts of the
  account table. An operation takes the supply record and the table and returns both.
\<close>

section \<open>Definitions\<close>

record TokenSupply =
  ts_totalSupply :: float64
  ts_circulatingSupply :: float64
  ts_treasuryID :: string

definition DefaultTotalSupply :: float64 where
  "DefaultTotalSupply = Fin 100000000"

text \<open>The value \<open>GetTokenSupply\<close> creates on its first call.\<close>

definition GetTokenSupply :: TokenSupply where
  "GetTokenSupply = \<lparr>ts_totalSupply = DefaultTotalSupply, ts_circulatingSupply = f64_0, ts_treasuryID = ''''\<rparr>"

definition TokenSupply_Initialize ::
    "int \<Rightarrow> int \<Rightarrow> float64 \<Rightarrow> string \<Rightarrow> TokenSupply \<times> accounts \<Rightarrow> common_error option \<times> TokenSupply \<times> accounts" where
  "TokenSupply_Initialize now1 now2 totalSupply treasuryID st =
     (let (ts, accs) = st in
      if f64_le totalSupply f64_0 then (Some ErrInvalidAmount, ts, accs)
      else let ts1 = ts\<lparr>ts_totalSupply := totalSupply, ts_treasuryID := treasuryID\<rparr> in
        case GetAccount treasuryID accs of
          None \<Rightarrow>
            (case RegisterAccount (Some (zero_Account\<lparr>acc_ID := treasuryID, acc_Balance := totalSupply,
                     acc_CreatedAt := now1, acc_LastActive := now2\<rparr>)) accs of
               (Some e, accs1) \<Rightarrow> (Some e, ts1, accs1)
             | (None, accs1) \<Rightarrow> (None, ts1\<lparr>ts_circulatingSupply := f64_0\<rparr>, accs1))
        | Some treasury \<Rightarrow>
            (None, ts1\<lparr>ts_circulatingSupply := f64_0\<rparr>,
             accs(treasuryID \<mapsto> treasury\<lparr>acc_Balance := totalSupply\<rparr>)))"

definition TokenSupply_GetTreasuryBalance :: "TokenSupply \<times> accounts \<Rightarrow> float64" where
  "TokenSupply_GetTreasuryBalance st =
     (case GetAccount (ts_treasuryID (fst st)) (snd st) of
        None \<Rightarrow> f64_0
      | Some treasury \<Rightarrow> acc_Balance treasury)"

definition TokenSupply_MintTokens ::
    "string \<Rightarrow> float64 \<Rightarrow> TokenSupply \<times> accounts \<Rightarrow> common_error option \<times> TokenSupply \<times> accounts" where
  "TokenSupply_MintTokens accountID amount st =
     (let (ts, accs) = st in
      if f64_le amount f64_0 then (Some ErrInvalidAmount, ts, accs)
      else case GetAccount (ts_treasuryID ts) accs of
        None \<Rightarrow> (Some (ErrNew ''treasury account not found''), ts, accs)
      | Some treasury \<Rightarrow>
          if f64_lt (acc_Balance treasury) amount then (Some ErrExceedsTotalSupply, ts, accs)
          else case UpdateAccountBalance (ts_treasuryID ts) (f64_neg amount) accs of
            (Some e, accs1) \<Rightarrow> (Some e, ts, accs1)
          | (None, accs1) \<Rightarrow>
              (case UpdateAccountBalance accountID amount accs1 of
                 (Some e, accs2) \<Rightarrow> (Some e, ts, snd (UpdateAccountBalance (ts_treasuryID ts) amount accs2))
               | (None, accs2) \<Rightarrow>
                   (None, ts\<lparr>ts_circulatingSupply := f64_add (ts_circulatingSupply ts) amount\<rparr>, accs2)))"

definition TokenSupply_BurnTokens ::
    "string \<Rightarrow> float64 \<Rightarrow> TokenSupply \<times> accounts \<Rightarrow> common_error option \<times> TokenSupply \<times> accounts" where
  "TokenSupply_BurnTokens accountID amount st =
     (let (ts, accs) = st in
      if f64_le amount f64_0 then (Some ErrInvalidAmount, ts, accs)
      else case GetAccount accountID accs of
        None \<Rightarrow> (Some (ErrNew ''account not found''), ts, accs)
      | Some account \<Rightarrow>
          if f64_lt (acc_Balance account) amount then (Some ErrInsufficientFunds, ts, accs)
          else case UpdateAccountBalance accountID (f64_neg amount) accs of
            (Some e, accs1) \<Rightarrow> (Some e, ts, accs1)
          | (None, accs1) \<Rightarrow>
              (case UpdateAccountBalance (ts_treasuryID ts) amount accs1 of
                 (Some e, accs2) \<Rightarrow> (Some e, ts, snd (UpdateAccountBalance accountID amount accs2))
               | (None, accs2) \<Rightarrow>
                   (None, ts\<lparr>ts_circulatingSupply := f64_sub (ts_circulatingSupply ts) amount\<rparr>, accs2)))"

definition TokenSupply_FundNewWallet ::
    "string \<Rightarrow> float64 \<Rightarrow> TokenSupply \<times> accounts \<Rightarrow> common_error option \<times> TokenSupply \<times> accounts" where
  "TokenSupply_FundNewWallet walletID amount st =
     (if f64_le amount f64_0 then (Some ErrInvalidAmount, st)
      else TokenSupply_MintTokens walletID amount st)"

section \<open>Tables of whole balances\<close>

text \<open>Balances that are whole numbers, and their sum over the table.\<close>

definition bal_int :: "Account \<Rightarrow> int" where
  "bal_int a = (case acc_Balance a of Fin q \<Rightarrow> \<lfloor>q\<rfloor> | _ \<Rightarrow> 0)"

definition whole :: "Account \<Rightarrow> bool" where
  "whole a \<longleftrightarrow> acc_Balance a = Fin (of_int (bal_int a)) \<and> 0 \<le> bal_int a"

definition bal_sum :: "accounts \<Rightarrow> int" where
  "bal_sum accs = (\<Sum>i \<in> dom accs. bal_int (the (accs i)))"

definition whole_table :: "accounts \<Rightarrow> bool" where
  "whole_table accs \<longleftrightarrow> finite (dom accs) \<and> (\<forall>a \<in> ran accs. whole a) \<and> bal_sum accs \<le> 2 ^ 53"

lemma bal_int_update [simp]: "bal_int (a\<lparr>acc_Balance := Fin (of_int n)\<rparr>) = n"
    "bal_int (a\<lparr>acc_Balance := Fin (of_int n + of_int m)\<rparr>) = n + m"
    "bal_int (a\<lparr>acc_Balance := Fin (of_int n - of_int m)\<rparr>) = n - m"
  by (simp_all add: bal_int_def flip: of_int_add of_int_diff)

lemma bal_sum_update:
  assumes "finite (dom accs)" and "accs i = Some a"
  shows "bal_sum (accs(i \<mapsto> a')) = bal_sum accs - bal_int a + bal_int a'"
proof -
  have "i \<in> dom accs" using assms(2) by auto
  then have "insert i (dom accs) = dom accs" by auto
  then show ?thesis
    using assms sum.remove [OF assms(1) \<open>i \<in> dom accs\<close>, of "\<lambda>j. bal_int (the (accs j))"]
      sum.remove [OF assms(1) \<open>i \<in> dom accs\<close>, of "\<lambda>j. bal_int (the ((accs(i \<mapsto> a')) j))"]
    by (simp add: bal_sum_def)
qed

lemma whole_le_sum:
  assumes "whole_table accs" and "accs i = Some a"
  shows "0 \<le> bal_int a" and "bal_int a \<le> bal_sum accs"
proof -
  have nonneg: "0 \<le> bal_int (the (accs j))" if "j \<in> dom accs" for j
    using assms(1) that by (auto simp: whole_table_def whole_def ran_def)
  show "0 \<le> bal_int a" using nonneg [of i] assms(2) by auto
  have "bal_int (the (accs i)) \<le> bal_sum accs"
    unfolding bal_sum_def using assms nonneg by (intro member_le_sum) (auto simp: whole_table_def)
  then show "bal_int a \<le> bal_sum accs" using assms(2) by simp
qed

lemma whole_two_le_sum:
  assumes "whole_table accs" and "accs i = Some a" and "accs j = Some b" and "i \<noteq> j"
  shows "bal_int a + bal_int b \<le> bal_sum accs"
proof -
  have nonneg: "0 \<le> bal_int (the (accs k))" if "k \<in> dom accs" for k
    using assms(1) that by (auto simp: whole_table_def whole_def ran_def)
  have "(\<Sum>k \<in> {i, j}. bal_int (the (accs k))) \<le> bal_sum accs"
    unfolding bal_sum_def using assms nonneg by (intro sum_mono2) (auto simp: whole_table_def)
  then show ?thesis using assms by simp
qed

lemma UpdateAccountBalance_whole:
  assumes "whole a" and "accs i = Some a" and "0 \<le> bal_int a + n" and "bal_int a + n \<le> 2 ^ 53"
  shows "UpdateAccountBalance i (Fin (of_int n)) accs =
           (None, accs(i \<mapsto> a\<lparr>acc_Balance := Fin (of_int (bal_int a + n))\<rparr>))"
proof -
  have "f64_add (acc_Balance a) (Fin (of_int n)) = Fin (of_int (bal_int a + n))"
    using assms f64_add_int [of "bal_int a" n] by (simp add: whole_def)
  then show ?thesis using assms by (simp add: UpdateAccountBalance_def)
qed

lemma whole_table_upd:
  "whole_table accs \<Longrightarrow> accs i = Some a \<Longrightarrow> 0 \<le> n \<Longrightarrow> bal_sum accs - bal_int a + n \<le> 2 ^ 53 \<Longrightarrow>
   whole_table (accs(i \<mapsto> a\<lparr>acc_Balance := Fin (of_int n)\<rparr>))"
  by (auto simp: whole_table_def bal_sum_update whole_def ran_def)

section \<open>Conservation of the supply\<close>

text \<open>
  The states the supply goes through after one \<open>Initialize\<close>: mints, burns and wallet fundings of whole amounts, positive or not, to and from any account, the treasury
  included, and registrations of accounts with a whole balance, in any order, failing or not. \<open>E\<close> counts the tokens that other accounts held already or brought in when they
  were registered, \<open>d\<close> what was minted to the treasury itself less what was burned from it, and \<open>v\<close> the volume of these operations.
\<close>

definition self_amount :: "string \<Rightarrow> int \<Rightarrow> TokenSupply \<Rightarrow> common_error option \<Rightarrow> int" where
  "self_amount i n ts e = (if i = ts_treasuryID ts \<and> e = None then n else 0)"

inductive supply_reachable :: "int \<Rightarrow> int \<Rightarrow> int \<Rightarrow> int \<Rightarrow> TokenSupply \<times> accounts \<Rightarrow> bool" for T :: int where
  init: "TokenSupply_Initialize now1 now2 (Fin (of_int T)) tid (ts, accs) = (None, st) \<Longrightarrow>
     finite (dom accs) \<Longrightarrow> (\<And>i a. accs i = Some a \<Longrightarrow> i \<noteq> tid \<Longrightarrow> whole a) \<Longrightarrow>
     supply_reachable T (bal_sum (accs(tid := None))) 0 0 st"
| mint: "supply_reachable T E d v st \<Longrightarrow> TokenSupply_MintTokens i (Fin (of_int n)) st = (e, st') \<Longrightarrow>
     supply_reachable T E (d + self_amount i n (fst st) e) (v + \<bar>self_amount i n (fst st) e\<bar>) st'"
| burn: "supply_reachable T E d v st \<Longrightarrow> TokenSupply_BurnTokens i (Fin (of_int n)) st = (e, st') \<Longrightarrow>
     supply_reachable T E (d - self_amount i n (fst st) e) (v + \<bar>self_amount i n (fst st) e\<bar>) st'"
| fund: "supply_reachable T E d v st \<Longrightarrow> TokenSupply_FundNewWallet i (Fin (of_int n)) st = (e, st') \<Longrightarrow>
     supply_reachable T E (d + self_amount i n (fst st) e) (v + \<bar>self_amount i n (fst st) e\<bar>) st'"
| register: "supply_reachable T E d v (ts, accs) \<Longrightarrow> whole a \<Longrightarrow> RegisterAccount (Some a) accs = (e, accs') \<Longrightarrow>
     supply_reachable T (if e = None then E + bal_int a else E) d v (ts, accs')"

definition supply_inv :: "int \<Rightarrow> int \<Rightarrow> int \<Rightarrow> int \<Rightarrow> TokenSupply \<times> accounts \<Rightarrow> bool" where
  "supply_inv T E d v st \<longleftrightarrow>
     (case st of (ts, accs) \<Rightarrow>
        whole_table accs \<and> bal_sum accs = T + E \<and> ts_totalSupply ts = Fin (of_int T) \<and> 0 < T \<and> 0 \<le> E \<and> \<bar>d\<bar> \<le> v \<and>
        (\<exists>t. accs (ts_treasuryID ts) = Some t \<and> ts_circulatingSupply ts = Fin (of_int (T - bal_int t + d))))"

lemma acc_Balance_self: "a\<lparr>acc_Balance := acc_Balance a\<rparr> = a"
  by simp

lemma whole_restore: "whole a \<Longrightarrow> a\<lparr>acc_Balance := Fin (of_int (bal_int a))\<rparr> = a"
  by (metis acc_Balance_self whole_def)

lemma whole_tableD: "whole_table accs \<Longrightarrow> accs i = Some a \<Longrightarrow> whole a"
  by (auto simp: whole_table_def ran_def)

lemma f64_neg_of_int: "f64_neg (Fin (of_int n)) = Fin (of_int (- n))"
  by simp

text \<open>The two outcomes of a transfer of a whole amount between two accounts of the table.\<close>

lemma transfer_steps:
  assumes tab: "whole_table accs" and frm: "accs i = Some a" and "0 < n" and "n \<le> bal_int a" and "i \<noteq> j"
  defines "accs1 \<equiv> accs(i \<mapsto> a\<lparr>acc_Balance := Fin (of_int (bal_int a - n))\<rparr>)"
  shows "UpdateAccountBalance i (Fin (of_int (- n))) accs = (None, accs1)"
    and "accs j = None \<Longrightarrow> UpdateAccountBalance j (Fin (of_int n)) accs1 = (Some ErrAccountNotFound, accs1)"
    and "UpdateAccountBalance i (Fin (of_int n)) accs1 = (None, accs)"
    and "accs j = Some b \<Longrightarrow> UpdateAccountBalance j (Fin (of_int n)) accs1 =
           (None, accs1(j \<mapsto> b\<lparr>acc_Balance := Fin (of_int (bal_int b + n))\<rparr>))"
proof -
  have a: "whole a" using tab frm by (rule whole_tableD)
  have le: "bal_int a \<le> 2 ^ 53"
    using whole_le_sum(2) [OF tab frm] tab by (simp add: whole_table_def)
  show "UpdateAccountBalance i (Fin (of_int (- n))) accs = (None, accs1)"
    using UpdateAccountBalance_whole [OF a, of accs i "- n"] assms le by (simp add: accs1_def)
  show "accs j = None \<Longrightarrow> UpdateAccountBalance j (Fin (of_int n)) accs1 = (Some ErrAccountNotFound, accs1)"
    using assms by (simp add: UpdateAccountBalance_def accs1_def)
  have "whole (a\<lparr>acc_Balance := Fin (of_int (bal_int a - n))\<rparr>)"
    using assms by (simp add: whole_def)
  from UpdateAccountBalance_whole [OF this, of accs1 i n]
  show "UpdateAccountBalance i (Fin (of_int n)) accs1 = (None, accs)"
    using assms le a by (simp add: accs1_def whole_restore fun_upd_idem)
  show "UpdateAccountBalance j (Fin (of_int n)) accs1 =
           (None, accs1(j \<mapsto> b\<lparr>acc_Balance := Fin (of_int (bal_int b + n))\<rparr>))" if "accs j = Some b"
    using UpdateAccountBalance_whole [OF whole_tableD [OF tab that], of accs1 j n]
      whole_two_le_sum [OF tab frm that \<open>i \<noteq> j\<close>] whole_le_sum [OF tab that] that assms
    by (simp add: accs1_def whole_table_def)
qed

lemma transfer_table:
  assumes tab: "whole_table accs" and frm: "accs i = Some a" and j: "accs j = Some b"
    and n: "0 < n" "n \<le> bal_int a" and "i \<noteq> j"
  defines "accs' \<equiv> accs(i \<mapsto> a\<lparr>acc_Balance := Fin (of_int (bal_int a - n))\<rparr>,
                        j \<mapsto> b\<lparr>acc_Balance := Fin (of_int (bal_int b + n))\<rparr>)"
  shows "whole_table accs'" and "bal_sum accs' = bal_sum accs"
proof -
  let ?accs1 = "accs(i \<mapsto> a\<lparr>acc_Balance := Fin (of_int (bal_int a - n))\<rparr>)"
  have fin: "finite (dom accs)" and le: "bal_sum accs \<le> 2 ^ 53"
    using tab by (simp_all add: whole_table_def)
  have s1: "bal_sum ?accs1 = bal_sum accs - n"
    using bal_sum_update [OF fin frm] by simp
  have t1: "whole_table ?accs1" using tab frm n le by (intro whole_table_upd) auto
  have j1: "?accs1 j = Some b" using j \<open>i \<noteq> j\<close> by simp
  show "bal_sum accs' = bal_sum accs"
    using bal_sum_update [of ?accs1 j b] j1 t1 s1 by (simp add: accs'_def whole_table_def)
  show "whole_table accs'"
    unfolding accs'_def using s1 le n whole_le_sum(1) [OF tab j] by (intro whole_table_upd [of ?accs1 j b, OF t1 j1]) simp_all
qed

text \<open>A mint to the treasury itself, and a burn from it, leave the balances and count the amount.\<close>

lemma self_transfers:
  assumes "whole_table accs" and "accs (ts_treasuryID ts) = Some t" and "0 < n" and "n \<le> bal_int t"
  shows "TokenSupply_MintTokens (ts_treasuryID ts) (Fin (of_int n)) (ts, accs) =
           (None, ts\<lparr>ts_circulatingSupply := f64_add (ts_circulatingSupply ts) (Fin (of_int n))\<rparr>, accs)"
    and "TokenSupply_BurnTokens (ts_treasuryID ts) (Fin (of_int n)) (ts, accs) =
           (None, ts\<lparr>ts_circulatingSupply := f64_sub (ts_circulatingSupply ts) (Fin (of_int n))\<rparr>, accs)"
proof -
  have bt: "acc_Balance t = Fin (of_int (bal_int t))" using whole_tableD [OF assms(1,2)] by (simp add: whole_def)
  have "ts_treasuryID ts \<noteq> CHR ''x'' # ts_treasuryID ts" by simp
  note steps = transfer_steps [OF assms this]
  show "TokenSupply_MintTokens (ts_treasuryID ts) (Fin (of_int n)) (ts, accs) =
      (None, ts\<lparr>ts_circulatingSupply := f64_add (ts_circulatingSupply ts) (Fin (of_int n))\<rparr>, accs)"
    and "TokenSupply_BurnTokens (ts_treasuryID ts) (Fin (of_int n)) (ts, accs) =
      (None, ts\<lparr>ts_circulatingSupply := f64_sub (ts_circulatingSupply ts) (Fin (of_int n))\<rparr>, accs)"
    using assms(2-4) bt steps(1,3)
    by (simp_all add: TokenSupply_MintTokens_def TokenSupply_BurnTokens_def GetAccount_def f64_neg_of_int)
qed

lemma f64_sub_int: "\<bar>m - n\<bar> \<le> 2 ^ 53 \<Longrightarrow> f64_sub (Fin (of_int m)) (Fin (of_int n)) = Fin (of_int (m - n))"
  using rnd_int [of "m - n"] by (simp add: f64_sub_def)

lemma Mint_inv:
  assumes inv: "supply_inv T E d v st" and mint: "TokenSupply_MintTokens i (Fin (of_int n)) st = (e, st')"
    and lim: "T + E + (v + \<bar>self_amount i n (fst st) e\<bar>) \<le> 2 ^ 53"
  shows "supply_inv T E (d + self_amount i n (fst st) e) (v + \<bar>self_amount i n (fst st) e\<bar>) st'"
proof -
  obtain ts accs t where st: "st = (ts, accs)" and tab: "whole_table accs" and sum: "bal_sum accs = T + E"
    and tot: "ts_totalSupply ts = Fin (of_int T)" "0 < T" "0 \<le> E" and t: "accs (ts_treasuryID ts) = Some t"
    and circ: "ts_circulatingSupply ts = Fin (of_int (T - bal_int t + d))" and d: "\<bar>d\<bar> \<le> v"
    using inv by (cases st) (auto simp: supply_inv_def)
  have bt: "acc_Balance t = Fin (of_int (bal_int t))" using whole_tableD [OF tab t] by (simp add: whole_def)
  have bal: "0 \<le> bal_int t" "bal_int t \<le> T + E" using whole_le_sum [OF tab t] sum by auto
  consider "n \<le> 0" | "bal_int t < n" | "0 < n" "n \<le> bal_int t" by linarith
  then show ?thesis
  proof cases
    case 3
    show ?thesis
    proof (cases "i = ts_treasuryID ts")
      case True
      have e: "e = None" "st' = (ts\<lparr>ts_circulatingSupply := f64_add (ts_circulatingSupply ts) (Fin (of_int n))\<rparr>, accs)"
        using self_transfers(1) [OF tab t 3] mint st True by auto
      have s: "self_amount i n (fst st) e = n" using e True st by (simp add: self_amount_def)
      have "\<bar>(T - bal_int t + d) + n\<bar> \<le> 2 ^ 53" using lim s bal d 3 tot by linarith
      then have "f64_add (ts_circulatingSupply ts) (Fin (of_int n)) = Fin (of_int (T - bal_int t + (d + n)))"
        unfolding circ by (subst f64_add_int) (simp_all add: algebra_simps)
      then show ?thesis using e tab sum tot t d s by (simp add: supply_inv_def)
    next
      case False
      note ts' = transfer_steps [OF tab t 3 not_sym [OF False]]
      have s: "self_amount i n (fst st) e = 0" using False st by (simp add: self_amount_def)
      have "\<bar>(T - bal_int t + d) + n\<bar> \<le> 2 ^ 53" using lim s bal d 3 tot by linarith
      then have c': "f64_add (Fin (of_int (T - bal_int t + d))) (Fin (of_int n)) = Fin (of_int (T - (bal_int t - n) + d))"
        by (subst f64_add_int) (simp_all add: algebra_simps)
      show ?thesis
      proof (cases "accs i")
        case None
        then have "TokenSupply_MintTokens i (Fin (of_int n)) st = (Some ErrAccountNotFound, st)"
          using 3 bt t ts'(1,3) ts'(2) [OF None] st
          by (simp add: TokenSupply_MintTokens_def GetAccount_def f64_neg_of_int)
        with inv mint s show ?thesis by simp
      next
        case (Some b)
        show ?thesis
          using 3 bt t ts'(1) ts'(4) [OF Some] st c' circ tot sum False mint d s
            transfer_table [OF tab t Some 3 not_sym [OF False]]
          by (auto simp: TokenSupply_MintTokens_def GetAccount_def f64_neg_of_int supply_inv_def)
      qed
    qed
  next
    case 1
    then have "TokenSupply_MintTokens i (Fin (of_int n)) st = (Some ErrInvalidAmount, st)" using st by (simp add: TokenSupply_MintTokens_def)
    then show ?thesis using inv mint by (simp add: self_amount_def)
  next
    case 2
    then have "TokenSupply_MintTokens i (Fin (of_int n)) st = (Some ErrExceedsTotalSupply, st)"
      using st t bt bal by (simp add: TokenSupply_MintTokens_def GetAccount_def)
    then show ?thesis using inv mint by (simp add: self_amount_def)
  qed
qed

lemma Burn_inv:
  assumes inv: "supply_inv T E d v st" and burn: "TokenSupply_BurnTokens i (Fin (of_int n)) st = (e, st')"
    and lim: "T + E + (v + \<bar>self_amount i n (fst st) e\<bar>) \<le> 2 ^ 53"
  shows "supply_inv T E (d - self_amount i n (fst st) e) (v + \<bar>self_amount i n (fst st) e\<bar>) st'"
proof -
  obtain ts accs t where st: "st = (ts, accs)" and tab: "whole_table accs" and sum: "bal_sum accs = T + E"
    and tot: "ts_totalSupply ts = Fin (of_int T)" "0 < T" "0 \<le> E" and t: "accs (ts_treasuryID ts) = Some t"
    and circ: "ts_circulatingSupply ts = Fin (of_int (T - bal_int t + d))" and d: "\<bar>d\<bar> \<le> v"
    using inv by (cases st) (auto simp: supply_inv_def)
  have bal: "0 \<le> bal_int t" "bal_int t \<le> T + E" using whole_le_sum [OF tab t] sum by auto
  show ?thesis
  proof (cases "accs i")
    case None
    then show ?thesis using inv st burn by (auto simp: TokenSupply_BurnTokens_def GetAccount_def self_amount_def split: if_splits)
  next
    case (Some b)
    have bb: "acc_Balance b = Fin (of_int (bal_int b))"
      using whole_tableD [OF tab Some] by (simp add: whole_def)
    consider "n \<le> 0" | "bal_int b < n" | "0 < n" "n \<le> bal_int b" by linarith
    then show ?thesis
    proof cases
      case 3
      show ?thesis
      proof (cases "i = ts_treasuryID ts")
        case True
        have n: "n \<le> bal_int t" using True t Some 3 by simp
        have e: "e = None" "st' = (ts\<lparr>ts_circulatingSupply := f64_sub (ts_circulatingSupply ts) (Fin (of_int n))\<rparr>, accs)"
          using self_transfers(2) [OF tab t 3(1) n] burn st True by auto
        have s: "self_amount i n (fst st) e = n" using e True st by (simp add: self_amount_def)
        have "\<bar>(T - bal_int t + d) - n\<bar> \<le> 2 ^ 53" using lim s bal d 3 n tot by linarith
        then have "f64_sub (ts_circulatingSupply ts) (Fin (of_int n)) = Fin (of_int (T - bal_int t + (d - n)))"
          unfolding circ by (subst f64_sub_int) (simp_all add: algebra_simps)
        then show ?thesis using e tab sum tot t d s by (simp add: supply_inv_def)
      next
        case False
        note ts' = transfer_steps [OF tab Some 3 False]
        have s: "self_amount i n (fst st) e = 0" using False st by (simp add: self_amount_def)
        have "bal_int b + bal_int t \<le> T + E" using whole_two_le_sum [OF tab Some t False] sum by simp
        then have "\<bar>(T - bal_int t + d) - n\<bar> \<le> 2 ^ 53" using lim s bal d 3 tot by linarith
        then have "f64_sub (Fin (of_int (T - bal_int t + d))) (Fin (of_int n)) = Fin (of_int (T - (bal_int t + n) + d))"
          by (subst f64_sub_int) (simp_all add: algebra_simps)
        then show ?thesis
          using 3 bb Some t ts'(1) ts'(4) [OF t] st circ tot sum burn d s
            transfer_table [OF tab Some t 3 False]
          by (auto simp: TokenSupply_BurnTokens_def GetAccount_def f64_neg_of_int supply_inv_def)
      qed
    next
      case 1
      then have "TokenSupply_BurnTokens i (Fin (of_int n)) st = (Some ErrInvalidAmount, st)" using st by (simp add: TokenSupply_BurnTokens_def)
      then show ?thesis using inv burn by (simp add: self_amount_def)
    next
      case 2
      moreover have "0 \<le> bal_int b" using whole_le_sum [OF tab Some] by simp
      ultimately have "TokenSupply_BurnTokens i (Fin (of_int n)) st = (Some ErrInsufficientFunds, st)"
        using st Some bb by (simp add: TokenSupply_BurnTokens_def GetAccount_def)
      then show ?thesis using inv burn by (simp add: self_amount_def)
    qed
  qed
qed

lemma Fund_is_Mint: "TokenSupply_FundNewWallet i x st = TokenSupply_MintTokens i x st"
  by (cases st) (simp add: TokenSupply_FundNewWallet_def TokenSupply_MintTokens_def)

lemma bal_sum_new:
  assumes "finite (dom accs)" and "accs i = None"
  shows "bal_sum (accs(i \<mapsto> a)) = bal_sum accs + bal_int a"
proof -
  have "(\<Sum>j\<in>dom accs. bal_int (the ((accs(i \<mapsto> a)) j))) = bal_sum accs"
    unfolding bal_sum_def using assms by (intro sum.cong) auto
  moreover have "i \<notin> dom accs" using assms(2) by auto
  ultimately show ?thesis using assms(1) by (simp add: bal_sum_def [of "accs(i \<mapsto> a)"])
qed

text \<open>A table of whole balances stays one when an account that is not in it yet is entered.\<close>

lemma whole_table_new:
  "finite (dom accs) \<Longrightarrow> \<forall>a \<in> ran accs. whole a \<Longrightarrow> accs i = None \<Longrightarrow> whole a \<Longrightarrow> bal_sum accs + bal_int a \<le> 2 ^ 53 \<Longrightarrow> whole_table (accs(i \<mapsto> a))"
  by (auto simp: whole_table_def bal_sum_new ran_def split: if_splits)

lemma bal_sum_nonneg: "\<forall>a \<in> ran accs. whole a \<Longrightarrow> 0 \<le> bal_sum accs"
  unfolding bal_sum_def by (intro sum_nonneg) (auto simp: ran_def whole_def)

lemma Initialize_inv:
  assumes ini: "TokenSupply_Initialize now1 now2 (Fin (of_int T)) tid (ts, accs) = (None, st)"
    and fin: "finite (dom accs)" and wh: "\<And>i a. accs i = Some a \<Longrightarrow> i \<noteq> tid \<Longrightarrow> whole a"
    and lim: "T + bal_sum (accs(tid := None)) \<le> 2 ^ 53"
  shows "supply_inv T (bal_sum (accs(tid := None))) 0 0 st"
proof -
  have T: "0 < T" using ini by (auto simp: TokenSupply_Initialize_def split: if_splits)
  obtain t where t: "snd st = accs(tid \<mapsto> t)" "acc_Balance t = Fin (of_int T)"
    and "fst st = ts\<lparr>ts_totalSupply := Fin (of_int T), ts_treasuryID := tid, ts_circulatingSupply := f64_0\<rparr>"
    using ini T
    by (cases "accs tid"; cases "tid = []")
      (auto simp: TokenSupply_Initialize_def GetAccount_def RegisterAccount_def Let_def)
  define others where "others = accs(tid := None)"
  have o: "finite (dom others)" "\<forall>a \<in> ran others. whole a" "others tid = None" using fin wh by (auto simp: ran_def others_def)
  have bt: "bal_int t = T" "whole t" using t(2) T by (simp_all add: bal_int_def whole_def)
  have eq: "accs(tid \<mapsto> t) = others(tid \<mapsto> t)" by (simp add: others_def)
  have "whole_table (accs(tid \<mapsto> t))" "bal_sum (accs(tid \<mapsto> t)) = T + bal_sum others"
    unfolding eq using whole_table_new [OF o bt(2)] bal_sum_new [OF o(1,3), of t] lim bt(1) by (simp_all add: others_def [symmetric])
  then show ?thesis
    using \<open>fst st = _\<close> t bt T bal_sum_nonneg [OF o(2)] unfolding others_def [symmetric] by (cases st) (auto simp: supply_inv_def)
qed

lemma Register_inv:
  assumes inv: "supply_inv T E d v (ts, accs)" and a: "whole a" and reg: "RegisterAccount (Some a) accs = (e, accs')"
    and lim: "T + (if e = None then E + bal_int a else E) \<le> 2 ^ 53"
  shows "supply_inv T (if e = None then E + bal_int a else E) d v (ts, accs')"
proof (cases "acc_ID a = '''' \<or> accs (acc_ID a) \<noteq> None")
  case False
  then have r: "e = None" "accs' = accs(acc_ID a \<mapsto> a)" using reg by (auto simp: RegisterAccount_def)
  have tab: "whole_table accs" "bal_sum accs = T + E" using inv by (auto simp: supply_inv_def)
  then have "whole_table accs'" "bal_sum accs' = T + E + bal_int a"
    using whole_table_new [of accs "acc_ID a" a] bal_sum_new [of accs "acc_ID a" a] False a lim r by (auto simp: whole_table_def)
  then show ?thesis using inv r False a by (auto simp: supply_inv_def whole_def)
next
  case True
  then have "e \<noteq> None" "accs' = accs" using reg by (auto simp: RegisterAccount_def split: if_splits option.splits)
  then show ?thesis using inv by auto
qed

text \<open>
  C1: From one initialisation with T whole tokens on, however whole amounts are minted, burned and moved to wallets, the treasury itself included as the account, and accounts
  with whole balances are registered, failed operations included: the total supply is T, no operation creates or destroys a token (the balances sum up to T and the E tokens
  that other accounts brought in), and the circulating supply is T less the treasury's balance, plus the amounts minted to the treasury itself less those burned from it, which
  the code counts although they move nothing. E, T and the volume of those amounts together stay within 2^53, where floating-point sums of whole numbers are exact.
\<close>

theorem supply_conserved:
  assumes "supply_reachable T E d v (ts, accs)" and "T + E + v \<le> 2 ^ 53"
  shows "ts_totalSupply ts = Fin (of_int T) \<and> bal_sum accs = T + E \<and>
         (\<exists>b. TokenSupply_GetTreasuryBalance (ts, accs) = Fin (of_int b) \<and> 0 \<le> b \<and> ts_circulatingSupply ts = Fin (of_int (T - b + d)))"
proof -
  have "supply_inv T E d v st" if "supply_reachable T E d v st" "T + E + v \<le> 2 ^ 53" for E d v st
    using that
  proof (induction rule: supply_reachable.induct)
    case (init now1 now2 tid ts accs st)
    then show ?case by (intro Initialize_inv) auto
  next
    case (mint E d v st i n e st')
    then show ?case by (intro Mint_inv) (auto simp: self_amount_def)
  next
    case (burn E d v st i n e st')
    then show ?case by (intro Burn_inv) (auto simp: self_amount_def)
  next
    case (fund E d v st i n e st')
    then show ?case unfolding Fund_is_Mint by (intro Mint_inv) (auto simp: self_amount_def)
  next
    case (register E d v ts accs a e accs')
    have v: "0 \<le> v" using register(1) by (induction rule: supply_reachable.induct) auto
    have "0 \<le> bal_int a" using register(2) by (simp add: whole_def)
    then have "supply_inv T E d v (ts, accs)" using register by (simp split: if_splits)
    then show ?case using register v by (intro Register_inv) (auto split: if_splits)
  qed
  then obtain t where inv: "supply_inv T E d v (ts, accs)" and t: "accs (ts_treasuryID ts) = Some t"
    and c: "ts_circulatingSupply ts = Fin (of_int (T - bal_int t + d))"
    using assms by (fastforce simp: supply_inv_def)
  then have tab: "whole_table accs" by (simp add: supply_inv_def)
  have "TokenSupply_GetTreasuryBalance (ts, accs) = Fin (of_int (bal_int t))" "0 \<le> bal_int t"
    using whole_tableD [OF tab t] t by (simp_all add: TokenSupply_GetTreasuryBalance_def GetAccount_def whole_def)
  then show ?thesis using inv c by (auto simp: supply_inv_def)
qed

text \<open>A mint of 30 to a wallet and one of 20 to the treasury itself: the second is counted as circulating.\<close>

theorem supply_conserved_witness:
  "\<exists>ts accs. TokenSupply_MintTokens ''T'' (Fin 20) (snd (TokenSupply_MintTokens ''w'' (Fin 30) (snd (TokenSupply_Initialize 1 1 (Fin 100) ''T''
        (GetTokenSupply, [''w'' \<mapsto> zero_Account\<lparr>acc_ID := ''w''\<rparr>]))))) = (None, ts, accs) \<and>
     bal_sum accs = 100 \<and> (\<exists>b. TokenSupply_GetTreasuryBalance (ts, accs) = Fin (of_int b) \<and> ts_circulatingSupply ts = Fin (of_int (120 - b)))"
proof -
  let ?accs = "[''w'' \<mapsto> zero_Account\<lparr>acc_ID := ''w''\<rparr>]"
  let ?i = "TokenSupply_Initialize 1 1 (Fin (of_int 100)) ''T'' (GetTokenSupply, ?accs)"
  let ?m = "TokenSupply_MintTokens ''w'' (Fin (of_int 30)) (snd ?i)"
  let ?s = "TokenSupply_MintTokens ''T'' (Fin (of_int 20)) (snd ?m)"
  have i: "?i = (None, snd ?i)" "ts_treasuryID (fst (snd ?i)) = ''T''"
    by (simp_all add: TokenSupply_Initialize_def GetAccount_def RegisterAccount_def)
  have m: "?m = (None, snd ?m)" "ts_treasuryID (fst (snd ?m)) = ''T''" "fst ?s = None"
    using rnd_int [of 30] rnd_int [of 70] rnd_int [of 20] rnd_int [of 50]
    by (simp_all add: TokenSupply_Initialize_def GetAccount_def RegisterAccount_def TokenSupply_MintTokens_def UpdateAccountBalance_def zero_Account_def)
  have "supply_reachable 100 (bal_sum (?accs(''T'' := None))) 0 0 (snd ?i)"
    using i(1) by (rule supply_reachable.init) (auto simp: zero_Account_def whole_def bal_int_def split: if_splits)
  moreover have "bal_sum (?accs(''T'' := None)) = 0" by (simp add: bal_sum_def bal_int_def zero_Account_def)
  ultimately have "supply_reachable 100 0 0 0 (snd ?i)" by simp
  from supply_reachable.mint [OF this m(1)] have "supply_reachable 100 0 0 0 (snd ?m)" using i(2) by (simp add: self_amount_def)
  from supply_reachable.mint [OF this, of "''T''" 20 None "snd ?s"] have r: "supply_reachable 100 0 20 20 (snd ?s)"
    using m(2,3) by (metis self_amount_def prod.collapse add_0 abs_numeral)
  obtain ts accs where s: "?s = (None, ts, accs)" using m(3) by (metis prod.collapse)
  have "bal_sum accs = 100 \<and> (\<exists>b. TokenSupply_GetTreasuryBalance (ts, accs) = Fin (of_int b) \<and> ts_circulatingSupply ts = Fin (of_int (100 - b + 20)))"
    using supply_conserved [of 100 0 20 20 ts accs] r unfolding s by auto
  then show ?thesis using s by (auto simp: algebra_simps)
qed

text \<open>
  Minting to the treasury itself succeeds, leaves every balance as it was and still raises the circulating supply.
\<close>

theorem mint_to_treasury_inflates:
  assumes "supply_inv T E d v (ts, accs)" and "accs (ts_treasuryID ts) = Some t" and "0 < n" and "n \<le> bal_int t"
  shows "TokenSupply_MintTokens (ts_treasuryID ts) (Fin (of_int n)) (ts, accs) =
           (None, ts\<lparr>ts_circulatingSupply := f64_add (ts_circulatingSupply ts) (Fin (of_int n))\<rparr>, accs)"
  using assms by (intro self_transfers) (auto simp: supply_inv_def)

end
