(* ===== verification/Dilithium.thy ===== *)
theory Dilithium
  imports Prelude
begin

text \<open>
  Signatures: the wrapper \<open>crypto/dilithium.go\<close> puts around the signature schemes of the circl
  library. A scheme is a record of the library's operations and a parameter of the definitions
  (\<open>schemes\<close> gives the scheme of a mode); marshalled keys are bytes and so are the library's key
  objects, which the wrapper does not look into. The wrapper's performance counters and logs
  are not modelled.
\<close>

section \<open>Definitions\<close>

datatype crypto_error =
    ErrInvalidDilithiumScheme int
  | ErrDilithiumKeyGenFailed
  | ErrDilithiumPublicKeyRecover
  | ErrEmptyInput
  | ErrNilInput
  | ErrSigningTimeout
  | ErrNilKyberScheme
  | ErrUnmarshalPublicKey
  | ErrUnmarshalPrivateKey
  | ErrEncapsulationFailed
  | ErrDecapsulationFailed
  | ErrInvalidCiphertext
  | ErrInvalidKyberLevel int
  | ErrInvalidDilithiumLevel int
  | CryptoErrNew string
  | CryptoErrWrap string crypto_error

record Scheme =
  sch_GenerateKey :: "(bytes \<times> bytes) option"
  sch_MarshalPublicKey :: "bytes \<Rightarrow> bytes option"
  sch_MarshalPrivateKey :: "bytes \<Rightarrow> bytes option"
  sch_UnmarshalBinaryPublicKey :: "bytes \<Rightarrow> bytes option"
  sch_UnmarshalBinaryPrivateKey :: "bytes \<Rightarrow> bytes option"
  sch_Public :: "bytes \<Rightarrow> bytes option"
  sch_Sign :: "bytes \<Rightarrow> bytes \<Rightarrow> bytes"
  sch_Verify :: "bytes \<Rightarrow> bytes \<Rightarrow> bytes \<Rightarrow> bool"

type_synonym schemes = "int \<Rightarrow> Scheme"

record DilithiumKeyPair =
  kp_PublicKey :: bytes
  kp_PrivateKey :: bytes
  kp_Level :: int

definition DilithiumLevel2 :: int where "DilithiumLevel2 = 2"

definition DilithiumLevel3 :: int where "DilithiumLevel3 = 3"

definition DilithiumLevel5 :: int where "DilithiumLevel5 = 5"

definition defaultDilithiumLevel :: int where "defaultDilithiumLevel = DilithiumLevel3"

definition isValidDilithiumLevel :: "int \<Rightarrow> bool" where
  "isValidDilithiumLevel level \<longleftrightarrow> level = DilithiumLevel2 \<or> level = DilithiumLevel3 \<or> level = DilithiumLevel5"

definition getDilithiumScheme :: "schemes \<Rightarrow> int \<Rightarrow> crypto_error + Scheme" where
  "getDilithiumScheme schemes level =
     (if level = DilithiumLevel2 then Inr (schemes 2)
      else if level = DilithiumLevel3 then Inr (schemes 3)
      else if level = DilithiumLevel5 then Inr (schemes 5)
      else Inl (ErrInvalidDilithiumScheme level))"

definition DilithiumKeyPair_Validate :: "DilithiumKeyPair option \<Rightarrow> crypto_error option" where
  "DilithiumKeyPair_Validate kpo =
     (case kpo of
        None \<Rightarrow> Some (CryptoErrNew ''nil key pair'')
      | Some kp \<Rightarrow>
          if length (kp_PublicKey kp) = 0 then Some (CryptoErrNew ''empty public key'')
          else if length (kp_PrivateKey kp) = 0 then Some (CryptoErrNew ''empty private key'')
          else if \<not> isValidDilithiumLevel (kp_Level kp) \<and> kp_Level kp \<noteq> 0
            then Some (CryptoErrNew ''invalid Dilithium level'')
          else None)"

definition DilithiumSignatureSize :: "int \<Rightarrow> int" where
  "DilithiumSignatureSize level =
     (if level = DilithiumLevel2 then 2420
      else if level = DilithiumLevel3 then 3293
      else if level = DilithiumLevel5 then 4595
      else 3293)"

definition DilithiumKeyPair_GetSignatureSize :: "DilithiumKeyPair \<Rightarrow> int" where
  "DilithiumKeyPair_GetSignatureSize kp =
     DilithiumSignatureSize (if kp_Level kp = 0 then defaultDilithiumLevel else kp_Level kp)"

text \<open>The serialized form has the same three fields as the key pair.\<close>

definition SerializeDilithiumKeyPair :: "DilithiumKeyPair option \<Rightarrow> crypto_error + DilithiumKeyPair" where
  "SerializeDilithiumKeyPair kpo =
     (case kpo of
        None \<Rightarrow> Inl (CryptoErrNew ''nil DilithiumKeyPair'')
      | Some kp \<Rightarrow>
          (case DilithiumKeyPair_Validate kpo of
             Some e \<Rightarrow> Inl (CryptoErrWrap ''invalid DilithiumKeyPair'' e)
           | None \<Rightarrow> Inr \<lparr>kp_PublicKey = kp_PublicKey kp, kp_PrivateKey = kp_PrivateKey kp, kp_Level = kp_Level kp\<rparr>))"

definition DeserializeDilithiumKeyPair :: "DilithiumKeyPair option \<Rightarrow> crypto_error + DilithiumKeyPair" where
  "DeserializeDilithiumKeyPair so =
     (case so of
        None \<Rightarrow> Inl (CryptoErrNew ''nil serialized DilithiumKeyPair'')
      | Some s \<Rightarrow>
          if length (kp_PublicKey s) = 0
            then Inl (CryptoErrNew ''empty public key in serialized DilithiumKeyPair'')
          else if length (kp_PrivateKey s) = 0
            then Inl (CryptoErrNew ''empty private key in serialized DilithiumKeyPair'')
          else let level = (if kp_Level s = 0 then defaultDilithiumLevel else kp_Level s) in
            if \<not> isValidDilithiumLevel level then Inl (CryptoErrNew ''invalid Dilithium level'')
            else let kp = \<lparr>kp_PublicKey = kp_PublicKey s, kp_PrivateKey = kp_PrivateKey s, kp_Level = level\<rparr> in
              (case DilithiumKeyPair_Validate (Some kp) of Some e \<Rightarrow> Inl e | None \<Rightarrow> Inr kp))"

definition GenerateDilithiumKeyPair :: "schemes \<Rightarrow> int \<Rightarrow> crypto_error + DilithiumKeyPair" where
  "GenerateDilithiumKeyPair schemes level =
     (if \<not> isValidDilithiumLevel level then Inl (ErrInvalidDilithiumScheme level)
      else case getDilithiumScheme schemes level of
        Inl e \<Rightarrow> Inl e
      | Inr scheme \<Rightarrow>
          (case sch_GenerateKey scheme of
             None \<Rightarrow> Inl ErrDilithiumKeyGenFailed
           | Some (pub, priv) \<Rightarrow>
               (case sch_MarshalPublicKey scheme pub of
                  None \<Rightarrow> Inl (CryptoErrNew ''failed to marshal Dilithium public key'')
                | Some pubBytes \<Rightarrow>
                    (case sch_MarshalPrivateKey scheme priv of
                       None \<Rightarrow> Inl (CryptoErrNew ''failed to marshal Dilithium private key'')
                     | Some privBytes \<Rightarrow>
                         Inr \<lparr>kp_PublicKey = pubBytes, kp_PrivateKey = privBytes, kp_Level = level\<rparr>))))"

definition SignDilithium :: "schemes \<Rightarrow> int \<Rightarrow> bytes \<Rightarrow> bytes \<Rightarrow> crypto_error + bytes" where
  "SignDilithium schemes level privKeyBytes message =
     (if \<not> isValidDilithiumLevel level then Inl (ErrInvalidDilithiumScheme level)
      else if length privKeyBytes = 0 \<or> length message = 0 then Inl ErrEmptyInput
      else case getDilithiumScheme schemes level of
        Inl e \<Rightarrow> Inl e
      | Inr scheme \<Rightarrow>
          (case sch_UnmarshalBinaryPrivateKey scheme privKeyBytes of
             None \<Rightarrow> Inl (CryptoErrNew ''failed to unmarshal Dilithium private key'')
           | Some sk \<Rightarrow> Inr (sch_Sign scheme sk message)))"

definition VerifyDilithium :: "schemes \<Rightarrow> int \<Rightarrow> bytes \<Rightarrow> bytes \<Rightarrow> bytes \<Rightarrow> crypto_error + bool" where
  "VerifyDilithium schemes level pubKeyBytes message signature =
     (if \<not> isValidDilithiumLevel level then Inl (ErrInvalidDilithiumScheme level)
      else if length pubKeyBytes = 0 \<or> length message = 0 \<or> length signature = 0 then Inl ErrEmptyInput
      else case getDilithiumScheme schemes level of
        Inl e \<Rightarrow> Inl e
      | Inr scheme \<Rightarrow>
          (case sch_UnmarshalBinaryPublicKey scheme pubKeyBytes of
             None \<Rightarrow> Inl (CryptoErrNew ''failed to unmarshal Dilithium public key'')
           | Some pk \<Rightarrow> Inr (sch_Verify scheme pk message signature)))"

definition DilithiumPrivateKeyToPub :: "schemes \<Rightarrow> int \<Rightarrow> bytes \<Rightarrow> crypto_error + bytes" where
  "DilithiumPrivateKeyToPub schemes level privKeyBytes =
     (if \<not> isValidDilithiumLevel level then Inl (ErrInvalidDilithiumScheme level)
      else if length privKeyBytes = 0 then Inl ErrEmptyInput
      else case getDilithiumScheme schemes level of
        Inl e \<Rightarrow> Inl e
      | Inr scheme \<Rightarrow>
          (case sch_UnmarshalBinaryPrivateKey scheme privKeyBytes of
             None \<Rightarrow> Inl (CryptoErrNew ''failed to unmarshal Dilithium private key'')
           | Some sk \<Rightarrow>
               (case sch_Public scheme sk of
                  None \<Rightarrow> Inl ErrDilithiumPublicKeyRecover
                | Some pubKey \<Rightarrow>
                    (case sch_MarshalPublicKey scheme pubKey of
                       None \<Rightarrow> Inl (CryptoErrNew ''failed to marshal Dilithium public key'')
                     | Some pubBytes \<Rightarrow> Inr pubBytes))))"

definition SignDataWithDilithium :: "schemes \<Rightarrow> bytes \<Rightarrow> bytes \<Rightarrow> crypto_error + bytes" where
  "SignDataWithDilithium schemes privKey data = SignDilithium schemes defaultDilithiumLevel privKey data"

definition VerifySignature :: "schemes \<Rightarrow> bytes \<Rightarrow> bytes \<Rightarrow> bytes \<Rightarrow> crypto_error + bool" where
  "VerifySignature schemes pubKey data sig = VerifyDilithium schemes defaultDilithiumLevel pubKey data sig"

text \<open>\<open>now\<close> is the reading of the clock from which the test message is made.\<close>

definition ValidateDilithiumKeyPair :: "schemes \<Rightarrow> uint64 \<Rightarrow> DilithiumKeyPair \<Rightarrow> crypto_error option" where
  "ValidateDilithiumKeyPair schemes now kp =
     (case DilithiumKeyPair_Validate (Some kp) of
        Some e \<Rightarrow> Some e
      | None \<Rightarrow>
          let level = (if kp_Level kp = 0 then defaultDilithiumLevel else kp_Level kp);
              testMsg = le_bytes 8 now @ replicate 24 0 in
          case SignDilithium schemes level (kp_PrivateKey kp) testMsg of
            Inl e \<Rightarrow> Some (CryptoErrWrap ''validation signing failed'' e)
          | Inr sig \<Rightarrow>
              (case VerifyDilithium schemes level (kp_PublicKey kp) testMsg sig of
                 Inl e \<Rightarrow> Some (CryptoErrWrap ''validation verification failed'' e)
               | Inr valid \<Rightarrow>
                   if \<not> valid
                     then Some (CryptoErrNew ''key pair validation failed: signature verification failed'')
                   else None))"

definition GetSecurityLevel :: "int \<Rightarrow> int" where
  "GetSecurityLevel dilithiumLevel =
     (if dilithiumLevel = DilithiumLevel2 then 2
      else if dilithiumLevel = DilithiumLevel3 then 3
      else if dilithiumLevel = DilithiumLevel5 then 5
      else 0)"

definition boolToInt :: "bool \<Rightarrow> int" where
  "boolToInt b = (if b then 1 else 0)"

text \<open>\<open>ConstantTimeByteEq\<close> is 1 on equal bytes and 0 otherwise, and \<open>ConstantTimeSelect v x y\<close> is
  \<open>x\<close> for \<open>v = 1\<close> and \<open>y\<close> for \<open>v = 0\<close>. A false result comes with an error, if there is one.\<close>

definition VerifySignatureConstantTime :: "schemes \<Rightarrow> bytes \<Rightarrow> bytes \<Rightarrow> bytes \<Rightarrow> bool \<times> crypto_error option" where
  "VerifySignatureConstantTime schemes pubKey data sig =
     (let (valid, err) = (case VerifyDilithium schemes defaultDilithiumLevel pubKey data sig of
                            Inl e \<Rightarrow> (False, Some e) | Inr v \<Rightarrow> (v, None));
          eq = (if boolToInt valid = 1 then 1 else 0 :: int);
          result = (if eq = 1 then 1 else 0 :: int)
      in (result = 1, err))"

text \<open>
  The signing and verifying methods of \<open>crypto/crypto_manager.go\<close> for a manager at level \<open>level\<close>.
  The signature is made in a goroutine that races with the context; \<open>timedOut\<close> says which of the two
  the \<open>select\<close> takes.
\<close>

definition CryptoManager_SignWithContext ::
    "schemes \<Rightarrow> int \<Rightarrow> bool \<Rightarrow> DilithiumKeyPair option \<Rightarrow> bytes \<Rightarrow> crypto_error + bytes" where
  "CryptoManager_SignWithContext schemes level timedOut priv message =
     (case priv of
        None \<Rightarrow> Inl ErrNilInput
      | Some kp \<Rightarrow>
          if length message = 0 then Inl ErrEmptyInput
          else if length (kp_PrivateKey kp) = 0 then Inl (CryptoErrNew ''private key is empty'')
          else if timedOut then Inl ErrSigningTimeout
          else case SignDilithium schemes level (kp_PrivateKey kp) message of
            Inl e \<Rightarrow> Inl (CryptoErrWrap ''dilithium signing failed'' e)
          | Inr sig \<Rightarrow> Inr sig)"

definition CryptoManager_Verify ::
    "schemes \<Rightarrow> int \<Rightarrow> DilithiumKeyPair option \<Rightarrow> bytes \<Rightarrow> bytes \<Rightarrow> crypto_error + bool" where
  "CryptoManager_Verify schemes level pub msg sig =
     (case pub of
        None \<Rightarrow> Inl ErrNilInput
      | Some kp \<Rightarrow>
          if length msg = 0 \<or> length sig = 0 then Inl ErrEmptyInput
          else if length (kp_PublicKey kp) = 0 then Inl (CryptoErrNew ''public key is empty'')
          else case VerifyDilithium schemes level (kp_PublicKey kp) msg sig of
            Inl e \<Rightarrow> Inl (CryptoErrWrap ''dilithium verification failed'' e)
          | Inr ok \<Rightarrow> Inr ok)"

section \<open>What the wrapper guarantees\<close>

text \<open>What the documentation of circl states of a scheme: marshalling and unmarshalling of a
  generated key are inverse, and the public key accepts what the private key signed.\<close>

definition sound_scheme :: "Scheme \<Rightarrow> bool" where
  "sound_scheme s \<longleftrightarrow>
     (\<forall>pub priv. sch_GenerateKey s = Some (pub, priv) \<longrightarrow>
        (\<forall>b. sch_MarshalPublicKey s pub = Some b \<longrightarrow> b \<noteq> [] \<and> sch_UnmarshalBinaryPublicKey s b = Some pub) \<and>
        (\<forall>b. sch_MarshalPrivateKey s priv = Some b \<longrightarrow> b \<noteq> [] \<and> sch_UnmarshalBinaryPrivateKey s b = Some priv) \<and>
        (\<forall>m. sch_Sign s priv m \<noteq> [] \<and> sch_Verify s pub m (sch_Sign s priv m)))"

lemmas level_defs = isValidDilithiumLevel_def DilithiumLevel2_def DilithiumLevel3_def DilithiumLevel5_def
  defaultDilithiumLevel_def

lemma getDilithiumScheme_valid:
  "isValidDilithiumLevel level \<Longrightarrow> getDilithiumScheme schemes level = Inr (schemes level)"
  by (auto simp: getDilithiumScheme_def level_defs)

lemma generated_key_verifies:
  assumes "sound_scheme (schemes level)" and "GenerateDilithiumKeyPair schemes level = Inr kp" and "m \<noteq> []"
  shows "\<exists>sig. SignDilithium schemes level (kp_PrivateKey kp) m = Inr sig \<and> sig \<noteq> [] \<and>
               VerifyDilithium schemes level (kp_PublicKey kp) m sig = Inr True"
    and "isValidDilithiumLevel level" "kp_Level kp = level" "kp_PublicKey kp \<noteq> []" "kp_PrivateKey kp \<noteq> []"
proof -
  show lv: "isValidDilithiumLevel level" using assms(2)
    by (auto simp: GenerateDilithiumKeyPair_def split: if_splits)
  obtain pub priv where k: "sch_GenerateKey (schemes level) = Some (pub, priv)"
    "sch_MarshalPublicKey (schemes level) pub = Some (kp_PublicKey kp)"
    "sch_MarshalPrivateKey (schemes level) priv = Some (kp_PrivateKey kp)" "kp_Level kp = level"
    using assms(2) lv
    by (auto simp: GenerateDilithiumKeyPair_def getDilithiumScheme_valid split: if_splits option.splits sum.splits)
  then have s: "kp_PublicKey kp \<noteq> []" "kp_PrivateKey kp \<noteq> []"
    "sch_UnmarshalBinaryPublicKey (schemes level) (kp_PublicKey kp) = Some pub"
    "sch_UnmarshalBinaryPrivateKey (schemes level) (kp_PrivateKey kp) = Some priv"
    "sch_Sign (schemes level) priv m \<noteq> []"
    "sch_Verify (schemes level) pub m (sch_Sign (schemes level) priv m)"
    using assms(1) unfolding sound_scheme_def by blast+
  show "kp_Level kp = level" "kp_PublicKey kp \<noteq> []" "kp_PrivateKey kp \<noteq> []" using k(4) s by auto
  show "\<exists>sig. SignDilithium schemes level (kp_PrivateKey kp) m = Inr sig \<and> sig \<noteq> [] \<and>
      VerifyDilithium schemes level (kp_PublicKey kp) m sig = Inr True"
    using assms(3) s lv by (simp add: SignDilithium_def VerifyDilithium_def getDilithiumScheme_valid)
qed

text \<open>A key pair the wrapper generated for a level signs every non-empty message with a signature
  that verifies under the pair's public key at that level, and the pair passes the wrapper's own
  validation and survives serialization.
\<close>

theorem generated_key_signs:
  assumes "sound_scheme (schemes level)" and "GenerateDilithiumKeyPair schemes level = Inr kp" and "m \<noteq> []"
  shows "(\<exists>sig. SignDilithium schemes level (kp_PrivateKey kp) m = Inr sig \<and>
               VerifyDilithium schemes level (kp_PublicKey kp) m sig = Inr True) \<and>
         ValidateDilithiumKeyPair schemes now kp = None \<and>
         SerializeDilithiumKeyPair (Some kp) = Inr kp \<and> DeserializeDilithiumKeyPair (Some kp) = Inr kp"
proof -
  note k = generated_key_verifies(2-5) [OF assms]
  then have l0: "level \<noteq> 0" by (auto simp: level_defs)
  have v: "DilithiumKeyPair_Validate (Some kp) = None" using k by (simp add: DilithiumKeyPair_Validate_def)
  have "ValidateDilithiumKeyPair schemes now kp = None"
    using generated_key_verifies [OF assms(1,2), of "le_bytes 8 now @ replicate 24 0"] v k(2) l0 by (auto simp: ValidateDilithiumKeyPair_def)
  moreover have "SerializeDilithiumKeyPair (Some kp) = Inr kp \<and> DeserializeDilithiumKeyPair (Some kp) = Inr kp"
    using v k(1,3,4) l0 unfolding k(2) [symmetric]
    by (cases kp) (simp add: SerializeDilithiumKeyPair_def DeserializeDilithiumKeyPair_def Let_def)
  ultimately show ?thesis using generated_key_verifies [OF assms] by blast
qed

definition tag_scheme :: Scheme where
  "tag_scheme = \<lparr>sch_GenerateKey = Some ([1], [2]), sch_MarshalPublicKey = Some, sch_MarshalPrivateKey = Some,
     sch_UnmarshalBinaryPublicKey = Some, sch_UnmarshalBinaryPrivateKey = Some, sch_Public = (\<lambda>_. Some [1]),
     sch_Sign = (\<lambda>sk m. sk @ m), sch_Verify = (\<lambda>pk m s. s = 2 # m)\<rparr>"

theorem generated_key_signs_witness:
  "ValidateDilithiumKeyPair (\<lambda>_. tag_scheme) 5 \<lparr>kp_PublicKey = [1], kp_PrivateKey = [2], kp_Level = 3\<rparr> = None"
proof -
  have "sound_scheme tag_scheme" by (simp add: sound_scheme_def tag_scheme_def)
  moreover have "GenerateDilithiumKeyPair (\<lambda>_. tag_scheme) 3 =
      Inr \<lparr>kp_PublicKey = [1], kp_PrivateKey = [2], kp_Level = 3\<rparr>"
    by (simp add: GenerateDilithiumKeyPair_def getDilithiumScheme_def level_defs tag_scheme_def)
  ultimately show ?thesis using generated_key_signs [of "\<lambda>_. tag_scheme" 3 _ "[9]" 5] by simp
qed

end
