(* ===== verification/KyberTheory.thy ===== *)
theory KyberTheory
  imports Dilithium Accounts
begin

text \<open>
  Key encapsulation and the crypto manager: \<open>crypto/kyber.go\<close> and the rest of \<open>crypto/crypto_manager.go\<close>.

  A key encapsulation scheme of the circl library is a record of its operations and a parameter; what the library draws from the
  system's random source is an argument (\<open>coins\<close>). AES-256-GCM is given as in \<open>Accounts\<close>. The time an operation took is the argument \<open>elapsed\<close>.
  A panic is \<open>None\<close>.
\<close>

section \<open>Schemes and key pairs\<close>

record KEMScheme =
  kem_Name :: string
  kem_GenerateKeyPair :: "bytes \<Rightarrow> (bytes \<times> bytes) option"
  kem_MarshalPublicKey :: "bytes \<Rightarrow> bytes option"
  kem_MarshalPrivateKey :: "bytes \<Rightarrow> bytes option"
  kem_UnmarshalBinaryPublicKey :: "bytes \<Rightarrow> bytes option"
  kem_UnmarshalBinaryPrivateKey :: "bytes \<Rightarrow> bytes option"
  kem_Encapsulate :: "bytes \<Rightarrow> bytes \<Rightarrow> (bytes \<times> bytes) option"
  kem_Decapsulate :: "bytes \<Rightarrow> bytes \<Rightarrow> bytes option"

type_synonym kems = "int \<Rightarrow> KEMScheme"

definition KyberLevel512 :: int where "KyberLevel512 = 512"
definition KyberLevel768 :: int where "KyberLevel768 = 768"
definition KyberLevel1024 :: int where "KyberLevel1024 = 1024"

lemmas kyber_levels = KyberLevel512_def KyberLevel768_def KyberLevel1024_def

definition KyberSchemeFromLevel :: "kems \<Rightarrow> int \<Rightarrow> KEMScheme option" where
  "KyberSchemeFromLevel kems level =
     (if level = KyberLevel512 then Some (kems 512)
      else if level = KyberLevel768 then Some (kems 768)
      else if level = KyberLevel1024 then Some (kems 1024)
      else None)"

definition KyberLevelToBytes :: "int \<Rightarrow> int" where
  "KyberLevelToBytes level =
     (if level = KyberLevel512 then 16 else if level = KyberLevel768 then 24 else if level = KyberLevel1024 then 32 else 32)"

record KyberKeyPair =
  kk_PublicKey :: bytes
  kk_PrivateKey :: bytes

definition KyberKeyPair_Validate :: "KyberKeyPair option \<Rightarrow> crypto_error option" where
  "KyberKeyPair_Validate kpo =
     (case kpo of
        None \<Rightarrow> Some (CryptoErrNew ''nil key pair'')
      | Some kp \<Rightarrow>
          if length (kk_PublicKey kp) = 0 then Some (CryptoErrNew ''empty public key'')
          else if length (kk_PrivateKey kp) = 0 then Some (CryptoErrNew ''empty private key'')
          else None)"

text \<open>The serialized form has the same two fields as the key pair.\<close>

definition SerializeKyberKeyPair :: "KyberKeyPair option \<Rightarrow> crypto_error + KyberKeyPair" where
  "SerializeKyberKeyPair kpo =
     (case kpo of
        None \<Rightarrow> Inl (CryptoErrNew ''nil KyberKeyPair'')
      | Some kp \<Rightarrow>
          (case KyberKeyPair_Validate kpo of
             Some e \<Rightarrow> Inl (CryptoErrWrap ''invalid KyberKeyPair'' e)
           | None \<Rightarrow> Inr \<lparr>kk_PublicKey = kk_PublicKey kp, kk_PrivateKey = kk_PrivateKey kp\<rparr>))"

definition DeserializeKyberKeyPair :: "KyberKeyPair option \<Rightarrow> crypto_error + KyberKeyPair" where
  "DeserializeKyberKeyPair so =
     (case so of
        None \<Rightarrow> Inl (CryptoErrNew ''nil serialized KyberKeyPair'')
      | Some s \<Rightarrow>
          if length (kk_PublicKey s) = 0 then Inl (CryptoErrNew ''empty public key in serialized KyberKeyPair'')
          else if length (kk_PrivateKey s) = 0 then Inl (CryptoErrNew ''empty private key in serialized KyberKeyPair'')
          else let kp = \<lparr>kk_PublicKey = kk_PublicKey s, kk_PrivateKey = kk_PrivateKey s\<rparr> in
            (case KyberKeyPair_Validate (Some kp) of Some e \<Rightarrow> Inl e | None \<Rightarrow> Inr kp))"

section \<open>The wrapper\<close>

record KyberCrypto =
  kc_scheme :: "KEMScheme option"
  kc_securityBits :: int
  kc_keyGenCount :: uint64
  kc_encapsCount :: uint64
  kc_decapsCount :: uint64
  kc_avgKeyGenTime :: duration
  kc_avgEncapsTime :: duration
  kc_avgDecapsTime :: duration

text \<open>The moving average every counter of the two files keeps.\<close>

definition ema_time :: "duration \<Rightarrow> duration \<Rightarrow> duration" where
  "ema_time avg elapsed = (if avg = 0 then elapsed else go_div (i64 (i64 (avg * 9) + elapsed)) 10)"

text \<open>The constructor tests the scheme for nil and then asks it for its name all the same.\<close>

definition NewKyberCrypto :: "KEMScheme option \<Rightarrow> KyberCrypto option" where
  "NewKyberCrypto scheme =
     (case scheme of
        None \<Rightarrow> None
      | Some s \<Rightarrow>
          Some \<lparr>kc_scheme = scheme,
            kc_securityBits = (if kem_Name s = ''Kyber512'' then 128 else if kem_Name s = ''Kyber768'' then 192
                               else if kem_Name s = ''Kyber1024'' then 256 else 0),
            kc_keyGenCount = 0, kc_encapsCount = 0, kc_decapsCount = 0,
            kc_avgKeyGenTime = 0, kc_avgEncapsTime = 0, kc_avgDecapsTime = 0\<rparr>)"

definition KyberCrypto_GetSecurityLevel :: "KyberCrypto \<Rightarrow> int" where
  "KyberCrypto_GetSecurityLevel kc = kc_securityBits kc"

definition KyberCrypto_GenerateKeyPair :: "bytes \<Rightarrow> duration \<Rightarrow> KyberCrypto \<Rightarrow> (crypto_error + KyberKeyPair) \<times> KyberCrypto" where
  "KyberCrypto_GenerateKeyPair coins elapsed kc =
     (case kc_scheme kc of
        None \<Rightarrow> (Inl ErrNilKyberScheme, kc)
      | Some s \<Rightarrow>
          (case kem_GenerateKeyPair s coins of
             None \<Rightarrow> (Inl (CryptoErrNew ''kyber generate keypair''), kc)
           | Some (pub, priv) \<Rightarrow>
               (case kem_MarshalPublicKey s pub of
                  None \<Rightarrow> (Inl (CryptoErrNew ''kyber public key marshaling failed''), kc)
                | Some pubBytes \<Rightarrow>
                    (case kem_MarshalPrivateKey s priv of
                       None \<Rightarrow> (Inl (CryptoErrNew ''kyber private key marshaling failed''), kc)
                     | Some privBytes \<Rightarrow>
                         (Inr \<lparr>kk_PublicKey = pubBytes, kk_PrivateKey = privBytes\<rparr>,
                          kc\<lparr>kc_keyGenCount := kc_keyGenCount kc + 1, kc_avgKeyGenTime := ema_time (kc_avgKeyGenTime kc) elapsed\<rparr>)))))"

definition KyberCrypto_EncapsulateFromBytes ::
  "bytes \<Rightarrow> duration \<Rightarrow> bytes \<Rightarrow> KyberCrypto \<Rightarrow> (crypto_error + bytes \<times> bytes) \<times> KyberCrypto" where
  "KyberCrypto_EncapsulateFromBytes coins elapsed pubKeyBytes kc =
     (case kc_scheme kc of
        None \<Rightarrow> (Inl ErrNilKyberScheme, kc)
      | Some s \<Rightarrow>
          if length pubKeyBytes = 0 then (Inl ErrEmptyInput, kc)
          else case kem_UnmarshalBinaryPublicKey s pubKeyBytes of
            None \<Rightarrow> (Inl ErrUnmarshalPublicKey, kc)
          | Some pubKey \<Rightarrow>
              (case kem_Encapsulate s coins pubKey of
                 None \<Rightarrow> (Inl ErrEncapsulationFailed, kc)
               | Some (ct, ss) \<Rightarrow>
                   (Inr (ct, ss),
                    kc\<lparr>kc_encapsCount := kc_encapsCount kc + 1, kc_avgEncapsTime := ema_time (kc_avgEncapsTime kc) elapsed\<rparr>)))"

definition KyberCrypto_DecapsulateFromBytes ::
  "duration \<Rightarrow> bytes \<Rightarrow> bytes \<Rightarrow> KyberCrypto \<Rightarrow> (crypto_error + bytes) \<times> KyberCrypto" where
  "KyberCrypto_DecapsulateFromBytes elapsed privKeyBytes ciphertext kc =
     (case kc_scheme kc of
        None \<Rightarrow> (Inl ErrNilKyberScheme, kc)
      | Some s \<Rightarrow>
          if length privKeyBytes = 0 \<or> length ciphertext = 0 then (Inl ErrEmptyInput, kc)
          else case kem_UnmarshalBinaryPrivateKey s privKeyBytes of
            None \<Rightarrow> (Inl ErrUnmarshalPrivateKey, kc)
          | Some privKey \<Rightarrow>
              (case kem_Decapsulate s privKey ciphertext of
                 None \<Rightarrow> (Inl ErrDecapsulationFailed, kc)
               | Some ss \<Rightarrow>
                   (Inr ss,
                    kc\<lparr>kc_decapsCount := kc_decapsCount kc + 1, kc_avgDecapsTime := ema_time (kc_avgDecapsTime kc) elapsed\<rparr>)))"

record kyber_stats =
  ks_keyGenerations :: uint64
  ks_encapsulations :: uint64
  ks_decapsulations :: uint64
  ks_avgKeyGenTime :: duration
  ks_avgEncapsTime :: duration
  ks_avgDecapsTime :: duration
  ks_schemeName :: string
  ks_securityBits :: int

definition KyberCrypto_GetPerformanceStats :: "KyberCrypto \<Rightarrow> kyber_stats option" where
  "KyberCrypto_GetPerformanceStats kc =
     map_option (\<lambda>s. \<lparr>ks_keyGenerations = kc_keyGenCount kc, ks_encapsulations = kc_encapsCount kc, ks_decapsulations = kc_decapsCount kc,
        ks_avgKeyGenTime = kc_avgKeyGenTime kc, ks_avgEncapsTime = kc_avgEncapsTime kc, ks_avgDecapsTime = kc_avgDecapsTime kc,
        ks_schemeName = kem_Name s, ks_securityBits = kc_securityBits kc\<rparr>) (kc_scheme kc)"

section \<open>Encryption under a shared secret\<close>

text \<open>A nil key is \<open>None\<close>. The derived key has 32 bytes, so that \<open>aes.NewCipher\<close> and \<open>cipher.NewGCM\<close> cannot fail. \<open>gcm.NonceSize()\<close> is 12.\<close>

definition deriveSessionKey :: "bytes \<Rightarrow> bytes option" where
  "deriveSessionKey sharedSecret = (if length sharedSecret = 0 then None else Some (hash_bytes (sha256 sharedSecret)))"

definition EncryptWithShared :: "aead_seal \<Rightarrow> bytes option \<Rightarrow> bytes \<Rightarrow> bytes \<Rightarrow> crypto_error + bytes" where
  "EncryptWithShared seal rand plaintext sharedSecret =
     (if length plaintext = 0 \<or> length sharedSecret = 0 then Inl ErrEmptyInput
      else case deriveSessionKey sharedSecret of
        None \<Rightarrow> Inl (CryptoErrNew ''failed to derive session key'')
      | Some key \<Rightarrow>
          (case rand of
             None \<Rightarrow> Inl (CryptoErrNew ''nonce generation failed'')
           | Some nonce \<Rightarrow> Inr (nonce @ seal key nonce plaintext)))"

definition DecryptWithShared :: "aead_open \<Rightarrow> bytes \<Rightarrow> bytes \<Rightarrow> crypto_error + bytes" where
  "DecryptWithShared opn ciphertext sharedSecret =
     (if length ciphertext = 0 \<or> length sharedSecret = 0 then Inl ErrEmptyInput
      else case deriveSessionKey sharedSecret of
        None \<Rightarrow> Inl (CryptoErrNew ''failed to derive session key'')
      | Some key \<Rightarrow>
          if length ciphertext < 12 then Inl ErrInvalidCiphertext
          else case opn key (take 12 ciphertext) (drop 12 ciphertext) of
            None \<Rightarrow> Inl (CryptoErrNew ''AES-GCM decryption failed'')
          | Some plaintext \<Rightarrow> Inr plaintext)"

section \<open>Comparison and validation\<close>

fun compare_loop :: "byte \<Rightarrow> bytes \<Rightarrow> bytes \<Rightarrow> byte" where
  "compare_loop result (x # xs) (y # ys) = compare_loop (result OR (x XOR y)) xs ys"
| "compare_loop result _ _ = result"

definition compareByteSlices :: "bytes \<Rightarrow> bytes \<Rightarrow> bool" where
  "compareByteSlices a b = (if length a \<noteq> length b then False else compare_loop 0 a b = 0)"

definition ValidateKyberKeyPair :: "bytes \<Rightarrow> KEMScheme option \<Rightarrow> KyberKeyPair option \<Rightarrow> crypto_error option" where
  "ValidateKyberKeyPair coins scheme keyPair =
     (case scheme of
        None \<Rightarrow> Some ErrNilKyberScheme
      | Some s \<Rightarrow>
          (case KyberKeyPair_Validate keyPair of
             Some e \<Rightarrow> Some e
           | None \<Rightarrow>
               let kp = the keyPair in
               (case kem_UnmarshalBinaryPublicKey s (kk_PublicKey kp) of
                  None \<Rightarrow> Some (CryptoErrNew ''public key unmarshaling failed'')
                | Some pubKey \<Rightarrow>
                    (case kem_UnmarshalBinaryPrivateKey s (kk_PrivateKey kp) of
                       None \<Rightarrow> Some (CryptoErrNew ''private key unmarshaling failed'')
                     | Some privKey \<Rightarrow>
                         (case kem_Encapsulate s coins pubKey of
                            None \<Rightarrow> Some (CryptoErrNew ''encapsulation test failed'')
                          | Some (ct, ss1) \<Rightarrow>
                              (case kem_Decapsulate s privKey ct of
                                 None \<Rightarrow> Some (CryptoErrNew ''decapsulation test failed'')
                               | Some ss2 \<Rightarrow>
                                   if \<not> compareByteSlices ss1 ss2 then Some (CryptoErrNew ''shared secret mismatch in validation'')
                                   else None))))))"

section \<open>The crypto manager\<close>

record CryptoManager =
  cr_kyberLevel :: int
  cr_kyberCrypto :: KyberCrypto
  cr_dilithiumLevel :: int
  cr_encapsulationCount :: uint64
  cr_decapsulationCount :: uint64
  cr_signatureCount :: uint64
  cr_verificationCount :: uint64
  cr_lastKeyRotation :: int
  cr_avgEncapsulationTime :: duration
  cr_avgDecapsulationTime :: duration
  cr_avgSignTime :: duration
  cr_avgVerifyTime :: duration

definition NewCryptoManager :: "kems \<Rightarrow> int \<Rightarrow> int \<Rightarrow> int \<Rightarrow> (CryptoManager \<Rightarrow> CryptoManager) list \<Rightarrow> (crypto_error + CryptoManager) option" where
  "NewCryptoManager kems now kyberLevel dilLevel opts =
     (case KyberSchemeFromLevel kems kyberLevel of
        None \<Rightarrow> Some (Inl (ErrInvalidKyberLevel kyberLevel))
      | Some kyberScheme \<Rightarrow>
          if \<not> isValidDilithiumLevel dilLevel then Some (Inl (ErrInvalidDilithiumLevel dilLevel))
          else map_option (\<lambda>kyb. Inr (fold (\<lambda>opt cm. opt cm) opts
            \<lparr>cr_kyberLevel = kyberLevel, cr_kyberCrypto = kyb, cr_dilithiumLevel = dilLevel, cr_encapsulationCount = 0, cr_decapsulationCount = 0,
             cr_signatureCount = 0, cr_verificationCount = 0, cr_lastKeyRotation = now, cr_avgEncapsulationTime = 0, cr_avgDecapsulationTime = 0,
             cr_avgSignTime = 0, cr_avgVerifyTime = 0\<rparr>)) (NewKyberCrypto (Some kyberScheme)))"

text \<open>The two options change no field of the model: one sets the logger, the other is a placeholder.\<close>

definition WithCustomTimeouts :: "duration \<Rightarrow> CryptoManager \<Rightarrow> CryptoManager" where
  "WithCustomTimeouts signingTimeout cm = cm"

definition CryptoManager_GenerateKEMKeyPair :: "bytes \<Rightarrow> duration \<Rightarrow> CryptoManager \<Rightarrow> (crypto_error + KyberKeyPair) \<times> CryptoManager" where
  "CryptoManager_GenerateKEMKeyPair coins elapsed cm =
     (case KyberCrypto_GenerateKeyPair coins elapsed (cr_kyberCrypto cm) of
        (Inl e, kc) \<Rightarrow> (Inl (CryptoErrWrap ''failed to generate Kyber key pair'' e), cm\<lparr>cr_kyberCrypto := kc\<rparr>)
      | (Inr kp, kc) \<Rightarrow>
          (if length (kk_PublicKey kp) = 0 \<or> length (kk_PrivateKey kp) = 0 then Inl (CryptoErrNew ''generated key pair contains empty keys'') else Inr kp,
           cm\<lparr>cr_kyberCrypto := kc\<rparr>))"

definition CryptoManager_EncryptKEM :: "bytes \<Rightarrow> duration \<Rightarrow> bytes \<Rightarrow> CryptoManager \<Rightarrow> (crypto_error + bytes \<times> bytes) \<times> CryptoManager" where
  "CryptoManager_EncryptKEM coins elapsed pubKeyBytes cm =
     (if length pubKeyBytes = 0 then (Inl ErrEmptyInput, cm)
      else case KyberCrypto_EncapsulateFromBytes coins elapsed pubKeyBytes (cr_kyberCrypto cm) of
        (r, kc) \<Rightarrow>
          (case r of Inl e \<Rightarrow> Inl (CryptoErrWrap ''KEM encapsulation failed'' e) | Inr p \<Rightarrow> Inr p,
           cm\<lparr>cr_kyberCrypto := kc, cr_encapsulationCount := cr_encapsulationCount cm + 1,
              cr_avgEncapsulationTime := ema_time (cr_avgEncapsulationTime cm) elapsed\<rparr>))"

definition CryptoManager_DecryptKEM :: "duration \<Rightarrow> bytes \<Rightarrow> bytes \<Rightarrow> CryptoManager \<Rightarrow> (crypto_error + bytes) \<times> CryptoManager" where
  "CryptoManager_DecryptKEM elapsed privKeyBytes ciphertext cm =
     (if length privKeyBytes = 0 \<or> length ciphertext = 0 then (Inl ErrEmptyInput, cm)
      else case KyberCrypto_DecapsulateFromBytes elapsed privKeyBytes ciphertext (cr_kyberCrypto cm) of
        (r, kc) \<Rightarrow>
          (case r of Inl e \<Rightarrow> Inl (CryptoErrWrap ''KEM decapsulation failed'' e) | Inr ss \<Rightarrow> Inr ss,
           cm\<lparr>cr_kyberCrypto := kc, cr_decapsulationCount := cr_decapsulationCount cm + 1,
              cr_avgDecapsulationTime := ema_time (cr_avgDecapsulationTime cm) elapsed\<rparr>))"

definition CryptoManager_GenerateSignatureKeyPair :: "schemes \<Rightarrow> CryptoManager \<Rightarrow> crypto_error + DilithiumKeyPair" where
  "CryptoManager_GenerateSignatureKeyPair schemes cm =
     (case GenerateDilithiumKeyPair schemes (cr_dilithiumLevel cm) of
        Inl e \<Rightarrow> Inl (CryptoErrWrap ''failed to generate Dilithium key pair'' e)
      | Inr kp \<Rightarrow>
          if length (kp_PublicKey kp) = 0 \<or> length (kp_PrivateKey kp) = 0
            then Inl (CryptoErrNew ''generated Dilithium key pair contains empty keys'')
          else Inr kp)"

text \<open>Signing and verifying give the results of \<open>Dilithium\<close>; once the arguments are checked, the operation is counted, unless the context
  ends first.\<close>

definition sign_counted :: "schemes \<Rightarrow> bool \<Rightarrow> duration \<Rightarrow> DilithiumKeyPair option \<Rightarrow> bytes \<Rightarrow> CryptoManager \<Rightarrow> (crypto_error + bytes) \<times> CryptoManager" where
  "sign_counted schemes timedOut elapsed priv message cm =
     (CryptoManager_SignWithContext schemes (cr_dilithiumLevel cm) timedOut priv message,
      if priv = None \<or> length message = 0 \<or> length (kp_PrivateKey (the priv)) = 0 \<or> timedOut then cm
      else cm\<lparr>cr_signatureCount := cr_signatureCount cm + 1, cr_avgSignTime := ema_time (cr_avgSignTime cm) elapsed\<rparr>)"

text \<open>\<open>Sign\<close> uses the background context, which never ends.\<close>

definition CryptoManager_Sign :: "schemes \<Rightarrow> duration \<Rightarrow> DilithiumKeyPair option \<Rightarrow> bytes \<Rightarrow> CryptoManager \<Rightarrow> (crypto_error + bytes) \<times> CryptoManager" where
  "CryptoManager_Sign schemes elapsed priv message = sign_counted schemes False elapsed priv message"

definition verify_counted :: "schemes \<Rightarrow> duration \<Rightarrow> DilithiumKeyPair option \<Rightarrow> bytes \<Rightarrow> bytes \<Rightarrow> CryptoManager \<Rightarrow> (crypto_error + bool) \<times> CryptoManager" where
  "verify_counted schemes elapsed pub msg sig cm =
     (CryptoManager_Verify schemes (cr_dilithiumLevel cm) pub msg sig,
      if pub = None \<or> length msg = 0 \<or> length sig = 0 \<or> length (kp_PublicKey (the pub)) = 0 then cm
      else cm\<lparr>cr_verificationCount := cr_verificationCount cm + 1, cr_avgVerifyTime := ema_time (cr_avgVerifyTime cm) elapsed\<rparr>)"

text \<open>What one combined operation takes from its environment.\<close>

record combined_env =
  ce_coins :: bytes
  ce_nonce :: "bytes option"
  ce_timedOut :: bool
  ce_kemTime :: duration
  ce_sigTime :: duration

definition CryptoManager_CombinedEncryptAndSign ::
  "schemes \<Rightarrow> aead_seal \<Rightarrow> combined_env \<Rightarrow> bytes \<Rightarrow> DilithiumKeyPair option \<Rightarrow> bytes \<Rightarrow> CryptoManager \<Rightarrow>
   (crypto_error + bytes \<times> bytes \<times> bytes) \<times> CryptoManager" where
  "CryptoManager_CombinedEncryptAndSign schemes seal env pubKeyKEM dilPriv message cm =
     (if length pubKeyKEM = 0 \<or> dilPriv = None \<or> length message = 0 then (Inl ErrEmptyInput, cm)
      else case CryptoManager_EncryptKEM (ce_coins env) (ce_kemTime env) pubKeyKEM cm of
        (Inl e, cm1) \<Rightarrow> (Inl (CryptoErrWrap ''encapsulation error'' e), cm1)
      | (Inr (ct, ss), cm1) \<Rightarrow>
          (case EncryptWithShared seal (ce_nonce env) message ss of
             Inl e \<Rightarrow> (Inl (CryptoErrWrap ''AES encryption error'' e), cm1)
           | Inr enc \<Rightarrow>
               (case sign_counted schemes (ce_timedOut env) (ce_sigTime env) dilPriv message cm1 of
                  (Inl e, cm2) \<Rightarrow> (Inl (CryptoErrWrap ''dilithium sign error'' e), cm2)
                | (Inr sig, cm2) \<Rightarrow> (Inr (ct, enc, sig), cm2))))"

definition CryptoManager_CombinedDecryptAndVerify ::
  "schemes \<Rightarrow> aead_open \<Rightarrow> combined_env \<Rightarrow> bytes \<Rightarrow> DilithiumKeyPair option \<Rightarrow> bytes \<Rightarrow> bytes \<Rightarrow> bytes \<Rightarrow> CryptoManager \<Rightarrow>
   (crypto_error + bytes \<times> bool) \<times> CryptoManager" where
  "CryptoManager_CombinedDecryptAndVerify schemes opn env privKeyKEM dilPub ciphertext encData signature cm =
     (if length privKeyKEM = 0 \<or> dilPub = None \<or> length ciphertext = 0 \<or> length encData = 0 \<or> length signature = 0 then (Inl ErrEmptyInput, cm)
      else case CryptoManager_DecryptKEM (ce_kemTime env) privKeyKEM ciphertext cm of
        (Inl e, cm1) \<Rightarrow> (Inl (CryptoErrWrap ''decapsulation error'' e), cm1)
      | (Inr ss, cm1) \<Rightarrow>
          (case DecryptWithShared opn encData ss of
             Inl e \<Rightarrow> (Inl (CryptoErrWrap ''AES decryption error'' e), cm1)
           | Inr pt \<Rightarrow>
               (case verify_counted schemes (ce_sigTime env) dilPub pt signature cm1 of
                  (Inl e, cm2) \<Rightarrow> (Inl (CryptoErrWrap ''signature verification error'' e), cm2)
                | (Inr ok, cm2) \<Rightarrow> (Inr (pt, ok), cm2))))"

definition CryptoManager_GenerateRandomBytes :: "(nat \<Rightarrow> bytes option) \<Rightarrow> int \<Rightarrow> crypto_error + bytes" where
  "CryptoManager_GenerateRandomBytes rand n =
     (if n \<le> 0 then Inl (CryptoErrNew ''invalid length: must be positive'')
      else case rand (nat n) of None \<Rightarrow> Inl (CryptoErrNew ''random read failed'') | Some buf \<Rightarrow> Inr buf)"

text \<open>SHAKE256 is a parameter: \<open>shake seed length\<close>. Neither its \<open>Write\<close> nor its \<open>Read\<close> returns an error.\<close>

definition CryptoManager_DeriveKey :: "(bytes \<Rightarrow> nat \<Rightarrow> bytes) \<Rightarrow> bytes \<Rightarrow> int \<Rightarrow> crypto_error + bytes" where
  "CryptoManager_DeriveKey shake seed len =
     (if length seed = 0 then Inl ErrEmptyInput
      else if len \<le> 0 then Inl (CryptoErrNew ''invalid length: must be positive'')
      else Inr (shake seed (nat len)))"

definition CryptoManager_SerializeKyberPublicKey :: "bytes \<Rightarrow> crypto_error + bytes" where
  "CryptoManager_SerializeKyberPublicKey pub =
     (if length pub = 0 then Inl ErrEmptyInput
      else let sz = int (length pub) in
        Inr (word_of_int (drop_bit 24 sz) # word_of_int (drop_bit 16 sz) # word_of_int (drop_bit 8 sz) # word_of_int sz # pub))"

definition CryptoManager_DeserializeKyberPublicKey :: "bytes \<Rightarrow> crypto_error + bytes" where
  "CryptoManager_DeserializeKyberPublicKey data =
     (if length data < 4 then Inl (CryptoErrNew ''input too short for length prefix'')
      else let sz = push_bit 24 (uint (data ! 0)) OR push_bit 16 (uint (data ! 1)) OR push_bit 8 (uint (data ! 2)) OR uint (data ! 3) in
        if sz \<le> 0 \<or> int (length data) \<noteq> sz + 4 then Inl (CryptoErrNew ''invalid data format: size mismatch'')
        else Inr (drop 4 data))"

record crypto_metrics =
  xm_encapsulations :: uint64
  xm_decapsulations :: uint64
  xm_signatures :: uint64
  xm_verifications :: uint64
  xm_avgEncapsulationTime :: duration
  xm_avgDecapsulationTime :: duration
  xm_avgSignTime :: duration
  xm_avgVerifyTime :: duration
  xm_lastKeyRotation :: int
  xm_kyberLevel :: int
  xm_dilithiumLevel :: int

definition CryptoManager_GetMetrics :: "CryptoManager \<Rightarrow> crypto_metrics" where
  "CryptoManager_GetMetrics cm =
     \<lparr>xm_encapsulations = cr_encapsulationCount cm, xm_decapsulations = cr_decapsulationCount cm, xm_signatures = cr_signatureCount cm,
      xm_verifications = cr_verificationCount cm, xm_avgEncapsulationTime = cr_avgEncapsulationTime cm, xm_avgDecapsulationTime = cr_avgDecapsulationTime cm,
      xm_avgSignTime = cr_avgSignTime cm, xm_avgVerifyTime = cr_avgVerifyTime cm, xm_lastKeyRotation = cr_lastKeyRotation cm,
      xm_kyberLevel = cr_kyberLevel cm, xm_dilithiumLevel = cr_dilithiumLevel cm\<rparr>"

definition CryptoManager_RotateKeys :: "int \<Rightarrow> CryptoManager \<Rightarrow> CryptoManager" where
  "CryptoManager_RotateKeys now cm = cm\<lparr>cr_lastKeyRotation := now\<rparr>"

section \<open>Comparison in constant time\<close>

lemma compare_loop_zero:
  "length a = length b \<Longrightarrow> compare_loop r a b = 0 \<longleftrightarrow> r = 0 \<and> a = b"
proof (induction r a b rule: compare_loop.induct)
  case (1 result x xs y ys)
  have "result OR (x XOR y) = 0 \<longleftrightarrow> result = 0 \<and> x = y"
    by (auto simp: bit_eq_iff bit_simps)
  with 1 show ?case by auto
qed auto

text \<open>The comparison without early exit that the wrapper uses for shared secrets is equality of byte lists.\<close>

theorem compare_is_equality: "compareByteSlices a b \<longleftrightarrow> a = b"
  by (auto simp: compareByteSlices_def compare_loop_zero)

section \<open>Length prefixes\<close>

lemma or_bytes:
  fixes a b c d :: byte
  shows "push_bit 24 (uint a) OR push_bit 16 (uint b) OR push_bit 8 (uint c) OR uint d
    = uint a * 2 ^ 24 + uint b * 2 ^ 16 + uint c * 2 ^ 8 + uint d"
proof -
  have small: "0 \<le> uint w \<and> uint w < 256" for w :: byte using uint_range_size [of w] by (simp add: word_size)
  have join: "push_bit n x OR y = x * 2 ^ n + y" if "0 \<le> y" "y < 2 ^ n" for n :: nat and x y :: int
  proof -
    have y: "y = take_bit n y" using that by (simp add: take_bit_int_eq_self)
    have "push_bit n x AND y = 0" by (subst y) (auto simp: bit_eq_iff bit_simps)
    then have "push_bit n x OR y = push_bit n x + y" by (simp add: disjunctive_add_eq_or)
    then show ?thesis by (simp add: push_bit_eq_mult)
  qed
  show ?thesis
    using small [of a] small [of b] small [of c] small [of d] by (simp add: join)
qed

lemma prefix_bytes:
  fixes sz :: int
  assumes "0 \<le> sz" and "sz < 2 ^ 32"
  shows "uint (word_of_int (drop_bit 24 sz) :: byte) * 2 ^ 24 + uint (word_of_int (drop_bit 16 sz) :: byte) * 2 ^ 16
    + uint (word_of_int (drop_bit 8 sz) :: byte) * 2 ^ 8 + uint (word_of_int sz :: byte) = sz"
proof -
  define q1 q2 q3 where "q1 = sz div 256" and "q2 = q1 div 256" and "q3 = q2 div 256"
  have "sz div 65536 = q2" "sz div 16777216 = q3" by (simp_all add: q1_def q2_def q3_def div_mult2_eq [symmetric] flip: zdiv_zmult2_eq)
  then have d: "drop_bit 8 sz = q1" "drop_bit 16 sz = q2" "drop_bit 24 sz = q3" by (simp_all add: drop_bit_eq_div q1_def)
  have u: "uint (word_of_int x :: byte) = x mod 256" for x by (simp add: uint_word_of_int)
  have "sz = 256 * q1 + sz mod 256" "q1 = 256 * q2 + q1 mod 256" "q2 = 256 * q3 + q2 mod 256" by (simp_all add: q1_def q2_def q3_def)
  moreover have "q3 mod 256 = q3" using assms by (simp add: q1_def q2_def q3_def)
  ultimately show ?thesis unfolding d u by simp
qed

lemma prefix_digits:
  fixes a b c d :: byte
  defines "sz \<equiv> uint a * 2 ^ 24 + uint b * 2 ^ 16 + uint c * 2 ^ 8 + uint d"
  shows "word_of_int (drop_bit 24 sz) = a" "word_of_int (drop_bit 16 sz) = b" "word_of_int (drop_bit 8 sz) = c" "word_of_int sz = d" "sz < 2 ^ 32"
proof -
  have small: "0 \<le> uint w \<and> uint w < 256" for w :: byte using uint_range_size [of w] by (simp add: word_size)
  have eq: "word_of_int x = w" if "x mod 256 = uint w" for x and w :: byte
    using that by (simp add: word_uint_eq_iff uint_word_of_int)
  have split: "(x * 256 + uint w) div 256 = x" "(x * 256 + uint w) mod 256 = uint w" for x and w :: byte using small [of w] by auto
  have sz: "sz = ((uint a * 256 + uint b) * 256 + uint c) * 256 + uint d" by (simp add: sz_def)
  have d1: "sz div 256 = (uint a * 256 + uint b) * 256 + uint c" unfolding sz split ..
  have "sz div 65536 = sz div 256 div 256" using zdiv_zmult2_eq [of 256 sz 256] by simp
  then have d2: "sz div 65536 = uint a * 256 + uint b" unfolding d1 split .
  have "sz div 16777216 = sz div 65536 div 256" using zdiv_zmult2_eq [of 256 sz 65536] by simp
  then have d3: "sz div 16777216 = uint a" unfolding d2 split .
  have b: "drop_bit 24 sz = uint a" "drop_bit 16 sz = uint a * 256 + uint b" "drop_bit 8 sz = (uint a * 256 + uint b) * 256 + uint c"
    by (simp_all only: drop_bit_eq_div d1 d2 d3 power_numeral_reduce) (simp_all add: d1 d2 d3)
  show "word_of_int (drop_bit 24 sz) = a" by (simp add: b)
  show "word_of_int (drop_bit 16 sz) = b" "word_of_int (drop_bit 8 sz) = c" by (rule eq, simp only: b split)+
  show "word_of_int sz = d" by (rule eq, simp only: sz split)
  show "sz < 2 ^ 32" using small [of a] small [of b] small [of c] small [of d] by (simp add: sz_def)
qed

text \<open>C36: The parser of length-prefixed public keys accepts exactly the byte strings the serializer makes of keys shorter than \<open>2 ^ 32\<close> bytes, and
  returns the key: the two are inverse and the encoding of a key is unique.\<close>

theorem public_key_prefix:
  "CryptoManager_DeserializeKyberPublicKey data = Inr pub \<longleftrightarrow>
     length pub < 2 ^ 32 \<and> CryptoManager_SerializeKyberPublicKey pub = Inr data"
proof (cases "length data < 4")
  case True
  then show ?thesis by (auto simp: CryptoManager_DeserializeKyberPublicKey_def CryptoManager_SerializeKyberPublicKey_def Let_def)
next
  case False
  then obtain a b c d rest where data: "data = a # b # c # d # rest"
    by (metis (no_types, lifting) Suc_le_length_iff add_2_eq_Suc' not_less numeral_Bit0 numeral_code(1) plus_1_eq_Suc One_nat_def)
  let ?sz = "uint a * 2 ^ 24 + uint b * 2 ^ 16 + uint c * 2 ^ 8 + uint d"
  have des: "CryptoManager_DeserializeKyberPublicKey data = Inr pub \<longleftrightarrow> 0 < ?sz \<and> int (length rest) = ?sz \<and> pub = rest"
    using or_bytes [of a b c d] by (auto simp: data CryptoManager_DeserializeKyberPublicKey_def Let_def)
  show ?thesis
  proof
    assume "CryptoManager_DeserializeKyberPublicKey data = Inr pub"
    then have sz: "0 < ?sz" "int (length rest) = ?sz" and p: "pub = rest" using des by auto
    have "length pub \<noteq> 0" using sz p by auto
    moreover have "int (length pub) < 2 ^ 32" using prefix_digits(5) [of a b c d] sz p by simp
    ultimately show "length pub < 2 ^ 32 \<and> CryptoManager_SerializeKyberPublicKey pub = Inr data"
      using prefix_digits [of a b c d] sz(2) by (simp add: CryptoManager_SerializeKyberPublicKey_def p data)
  next
    assume s: "length pub < 2 ^ 32 \<and> CryptoManager_SerializeKyberPublicKey pub = Inr data"
    then have "0 < length pub" "rest = pub" by (auto simp: CryptoManager_SerializeKyberPublicKey_def data Let_def split: if_splits)
    moreover have "?sz = int (length pub)"
      using s prefix_bytes [of "int (length pub)"] by (auto simp: CryptoManager_SerializeKyberPublicKey_def data Let_def split: if_splits)
    ultimately show "CryptoManager_DeserializeKyberPublicKey data = Inr pub" using des by simp
  qed
qed

section \<open>What the manager guarantees\<close>

text \<open>What the documentation of circl states of a scheme, for the random bytes of one key pair and of one encapsulation: a generated key survives
  marshalling, and decapsulation gives the secret of the encapsulation.\<close>

definition sound_kem :: "KEMScheme \<Rightarrow> bytes \<Rightarrow> bytes \<Rightarrow> bool" where
  "sound_kem s coins coins1 \<longleftrightarrow>
     (\<exists>pub priv pb sb ct ss. kem_GenerateKeyPair s coins = Some (pub, priv) \<and>
        kem_MarshalPublicKey s pub = Some pb \<and> pb \<noteq> [] \<and> kem_UnmarshalBinaryPublicKey s pb = Some pub \<and>
        kem_MarshalPrivateKey s priv = Some sb \<and> sb \<noteq> [] \<and> kem_UnmarshalBinaryPrivateKey s sb = Some priv \<and>
        kem_Encapsulate s coins1 pub = Some (ct, ss) \<and> ct \<noteq> [] \<and> ss \<noteq> [] \<and> kem_Decapsulate s priv ct = Some ss)"

text \<open>What \<open>crypto/cipher\<close> states of an AEAD: opening undoes sealing.\<close>

definition sound_aead :: "aead_seal \<Rightarrow> aead_open \<Rightarrow> bool" where
  "sound_aead seal opn \<longleftrightarrow> (\<forall>key nonce plain. opn key nonce (seal key nonce plain) = Some plain)"

lemma shared_roundtrip:
  assumes "sound_aead seal opn" and "length nonce = 12" and "m \<noteq> []" and "ss \<noteq> []"
  shows "\<exists>enc. EncryptWithShared seal (Some nonce) m ss = Inr enc \<and> enc \<noteq> [] \<and> DecryptWithShared opn enc ss = Inr m"
  using assms by (auto simp: EncryptWithShared_def DecryptWithShared_def deriveSessionKey_def sound_aead_def)

lemma kem_roundtrip:
  assumes "sound_kem s coins coins1" and "kc_scheme (cr_kyberCrypto cm) = Some s"
    and "CryptoManager_GenerateKEMKeyPair coins t cm = (Inr kp, cm1)"
    and "kc_scheme (cr_kyberCrypto cm2) = Some s" and "kc_scheme (cr_kyberCrypto cm4) = Some s"
  obtains ct ss cm3 where "CryptoManager_EncryptKEM coins1 t1 (kk_PublicKey kp) cm2 = (Inr (ct, ss), cm3)" and "ct \<noteq> []" and "ss \<noteq> []"
    and "fst (CryptoManager_DecryptKEM t2 (kk_PrivateKey kp) ct cm4) = Inr ss"
    and "kk_PublicKey kp \<noteq> []" and "kk_PrivateKey kp \<noteq> []" and "cr_dilithiumLevel cm3 = cr_dilithiumLevel cm2"
  using assms
  by (auto simp: sound_kem_def CryptoManager_GenerateKEMKeyPair_def KyberCrypto_GenerateKeyPair_def CryptoManager_EncryptKEM_def
      KyberCrypto_EncapsulateFromBytes_def CryptoManager_DecryptKEM_def KyberCrypto_DecapsulateFromBytes_def)

text \<open>The managers a program can have: a new one, after any operations.\<close>

inductive crypto_reachable :: "kems \<Rightarrow> schemes \<Rightarrow> CryptoManager \<Rightarrow> bool" for kems schemes where
  new: "NewCryptoManager kems now kl dl [] = Some (Inr cm) \<Longrightarrow> crypto_reachable kems schemes cm"
| generate: "crypto_reachable kems schemes cm \<Longrightarrow> CryptoManager_GenerateKEMKeyPair coins t cm = (r, cm1) \<Longrightarrow> crypto_reachable kems schemes cm1"
| encrypt: "crypto_reachable kems schemes cm \<Longrightarrow> CryptoManager_EncryptKEM coins t pub cm = (r1, cm1) \<Longrightarrow> crypto_reachable kems schemes cm1"
| decrypt: "crypto_reachable kems schemes cm \<Longrightarrow> CryptoManager_DecryptKEM t priv ct cm = (r2, cm1) \<Longrightarrow> crypto_reachable kems schemes cm1"
| sign: "crypto_reachable kems schemes cm \<Longrightarrow> sign_counted schemes timedOut t key m cm = (r3, cm1) \<Longrightarrow> crypto_reachable kems schemes cm1"
| verify: "crypto_reachable kems schemes cm \<Longrightarrow> verify_counted schemes t key m sig cm = (r4, cm1) \<Longrightarrow> crypto_reachable kems schemes cm1"
| combine: "crypto_reachable kems schemes cm \<Longrightarrow> CryptoManager_CombinedEncryptAndSign schemes seal env pub key m cm = (r5, cm1) \<Longrightarrow>
    crypto_reachable kems schemes cm1"
| separate: "crypto_reachable kems schemes cm \<Longrightarrow> CryptoManager_CombinedDecryptAndVerify schemes opn env priv key ct enc sig cm = (r6, cm1) \<Longrightarrow>
    crypto_reachable kems schemes cm1"
| rotate: "crypto_reachable kems schemes cm \<Longrightarrow> crypto_reachable kems schemes (CryptoManager_RotateKeys now cm)"

text \<open>The configuration of a manager never changes.\<close>

definition cr_config :: "CryptoManager \<Rightarrow> int \<times> int \<times> KEMScheme option \<times> int" where
  "cr_config cm = (cr_kyberLevel cm, cr_dilithiumLevel cm, kc_scheme (cr_kyberCrypto cm), kc_securityBits (cr_kyberCrypto cm))"

lemma kem_config:
  "CryptoManager_GenerateKEMKeyPair coins t cm = (r, cm1) \<Longrightarrow> cr_config cm1 = cr_config cm"
  "CryptoManager_EncryptKEM coins t pub cm = (r1, cm1) \<Longrightarrow> cr_config cm1 = cr_config cm"
  "CryptoManager_DecryptKEM t priv ct cm = (r2, cm1) \<Longrightarrow> cr_config cm1 = cr_config cm"
  by (auto simp: cr_config_def CryptoManager_GenerateKEMKeyPair_def KyberCrypto_GenerateKeyPair_def CryptoManager_EncryptKEM_def
      KyberCrypto_EncapsulateFromBytes_def CryptoManager_DecryptKEM_def KyberCrypto_DecapsulateFromBytes_def
      split: option.splits prod.splits sum.splits if_splits)

lemma counted_config:
  "sign_counted schemes timedOut t key m cm = (r3, cm1) \<Longrightarrow> cr_config cm1 = cr_config cm"
  "verify_counted schemes t key m sig cm = (r4, cm1) \<Longrightarrow> cr_config cm1 = cr_config cm"
  by (auto simp: cr_config_def sign_counted_def verify_counted_def split: if_splits)

lemma combined_config:
  "CryptoManager_CombinedEncryptAndSign schemes seal env pub key m cm = (r5, cm1) \<Longrightarrow> cr_config cm1 = cr_config cm"
  "CryptoManager_CombinedDecryptAndVerify schemes opn env priv key ct enc sig cm = (r6, cm1) \<Longrightarrow> cr_config cm1 = cr_config cm"
  unfolding CryptoManager_CombinedEncryptAndSign_def CryptoManager_CombinedDecryptAndVerify_def
  by (auto dest!: kem_config counted_config split: prod.splits sum.splits if_splits)

definition manager_config :: "kems \<Rightarrow> CryptoManager \<Rightarrow> bool" where
  "manager_config kems cm \<longleftrightarrow> isValidDilithiumLevel (cr_dilithiumLevel cm) \<and> kc_scheme (cr_kyberCrypto cm) = Some (kems (cr_kyberLevel cm))"

lemma manager_config_cong: "cr_config cm1 = cr_config cm \<Longrightarrow> manager_config kems cm1 = manager_config kems cm"
  by (simp add: cr_config_def manager_config_def)

lemma crypto_reachable_config: "crypto_reachable kems schemes cm \<Longrightarrow> manager_config kems cm"
proof (induction rule: crypto_reachable.induct)
  case (new now kl dl cm)
  then show ?case
    by (auto simp: NewCryptoManager_def KyberSchemeFromLevel_def NewKyberCrypto_def manager_config_def kyber_levels split: if_splits option.splits)
next
  case (rotate cm now)
  then show ?case by (simp add: CryptoManager_RotateKeys_def manager_config_def)
qed (auto dest: kem_config counted_config combined_config manager_config_cong)

text \<open>C10: A message that one manager encrypts for another one's key and signs arrives: for a key pair the receiver generated and a signing pair the sender
  generated, encryption and signing succeed, and the receiver recovers the message and finds the signature valid, whatever the two managers did before.
  The two are configured alike, the library's schemes keep their contracts, random bytes are available and the signing is not timed out.\<close>

theorem combined_roundtrip:
  assumes "crypto_reachable kems schemes a" and "crypto_reachable kems schemes b"
    and "cr_kyberLevel a = cr_kyberLevel b" and "cr_dilithiumLevel a = cr_dilithiumLevel b"
    and "sound_kem (kems (cr_kyberLevel b)) coins (ce_coins env)" and "sound_scheme (schemes (cr_dilithiumLevel a))" and "sound_aead seal opn"
    and "CryptoManager_GenerateKEMKeyPair coins t b = (Inr kem, b1)" and "CryptoManager_GenerateSignatureKeyPair schemes a = Inr sk"
    and "kp_PublicKey pub = kp_PublicKey sk" and "ce_nonce env = Some nonce" and "length nonce = 12" and "\<not> ce_timedOut env" and "m \<noteq> []"
  shows "\<exists>ct enc sig a1.
    CryptoManager_CombinedEncryptAndSign schemes seal env (kk_PublicKey kem) (Some sk) m a = (Inr (ct, enc, sig), a1) \<and>
    fst (CryptoManager_CombinedDecryptAndVerify schemes opn env1 (kk_PrivateKey kem) (Some pub) ct enc sig b1) = Inr (m, True)"
proof -
  have sa: "kc_scheme (cr_kyberCrypto a) = Some (kems (cr_kyberLevel b))" and sb: "kc_scheme (cr_kyberCrypto b) = Some (kems (cr_kyberLevel b))"
    using crypto_reachable_config [OF assms(1)] crypto_reachable_config [OF assms(2)] assms(3) by (simp_all add: manager_config_def)
  have b1: "kc_scheme (cr_kyberCrypto b1) = Some (kems (cr_kyberLevel b))" "cr_dilithiumLevel b1 = cr_dilithiumLevel a"
    using kem_config(1) [OF assms(8)] sb assms(4) by (simp_all add: cr_config_def)
  have gen: "GenerateDilithiumKeyPair schemes (cr_dilithiumLevel a) = Inr sk"
    using assms(9) by (auto simp: CryptoManager_GenerateSignatureKeyPair_def split: sum.splits if_splits)
  note key = generated_key_verifies [OF assms(6) gen assms(14)]
  obtain ct ss a1 where k: "CryptoManager_EncryptKEM (ce_coins env) (ce_kemTime env) (kk_PublicKey kem) a = (Inr (ct, ss), a1)" "ct \<noteq> []" "ss \<noteq> []"
      "fst (CryptoManager_DecryptKEM (ce_kemTime env1) (kk_PrivateKey kem) ct b1) = Inr ss" "kk_PublicKey kem \<noteq> []" "kk_PrivateKey kem \<noteq> []"
      "cr_dilithiumLevel a1 = cr_dilithiumLevel a"
    by (rule kem_roundtrip [OF assms(5) sb assms(8) sa b1(1), of "ce_kemTime env" "ce_kemTime env1"])
  obtain b2 where d: "CryptoManager_DecryptKEM (ce_kemTime env1) (kk_PrivateKey kem) ct b1 = (Inr ss, b2)" using k(4) by (metis prod.collapse)
  have b2: "cr_dilithiumLevel b2 = cr_dilithiumLevel a" using kem_config(3) [OF d] b1(2) by (simp add: cr_config_def)
  obtain enc where e: "EncryptWithShared seal (Some nonce) m ss = Inr enc" "enc \<noteq> []" "DecryptWithShared opn enc ss = Inr m"
    using shared_roundtrip [OF assms(7,12,14) k(3)] by blast
  obtain sig where s: "SignDilithium schemes (cr_dilithiumLevel a) (kp_PrivateKey sk) m = Inr sig" "sig \<noteq> []"
      "VerifyDilithium schemes (cr_dilithiumLevel a) (kp_PublicKey sk) m sig = Inr True" using key(1) by blast
  have sc: "\<exists>cm2. sign_counted schemes (ce_timedOut env) t1 (Some sk) m a1 = (Inr sig, cm2)" for t1
    using s(1) key(5) assms(13,14) by (simp add: sign_counted_def CryptoManager_SignWithContext_def k(7))
  have vc: "\<exists>cm2. verify_counted schemes t1 (Some pub) m sig b2 = (Inr True, cm2)" for t1
    using s(2,3) key(4) assms(10,14) by (simp add: verify_counted_def CryptoManager_Verify_def b2)
  obtain cm2 where "sign_counted schemes (ce_timedOut env) (ce_sigTime env) (Some sk) m a1 = (Inr sig, cm2)" using sc by blast
  moreover obtain cm3 where "verify_counted schemes (ce_sigTime env1) (Some pub) m sig b2 = (Inr True, cm3)" using vc by blast
  ultimately show ?thesis
    using k(1,2,5,6) d e s(2) assms(11,14)
    by (simp add: CryptoManager_CombinedEncryptAndSign_def CryptoManager_CombinedDecryptAndVerify_def)
qed

definition tag_kem :: KEMScheme where
  "tag_kem = \<lparr>kem_Name = ''Kyber1024'', kem_GenerateKeyPair = (\<lambda>c. Some (1 # c, 2 # c)), kem_MarshalPublicKey = Some, kem_MarshalPrivateKey = Some,
     kem_UnmarshalBinaryPublicKey = Some, kem_UnmarshalBinaryPrivateKey = Some, kem_Encapsulate = (\<lambda>r pk. Some (7 # r, 9 # r @ tl pk)),
     kem_Decapsulate = (\<lambda>sk ct. Some (9 # tl ct @ tl sk))\<rparr>"

definition tag_manager :: CryptoManager where
  "tag_manager = the (map_option projr (NewCryptoManager (\<lambda>_. tag_kem) 0 1024 3 []))"

definition tag_env :: combined_env where
  "tag_env = \<lparr>ce_coins = [4, 5], ce_nonce = Some (replicate 12 0), ce_timedOut = False, ce_kemTime = 3, ce_sigTime = 4\<rparr>"

theorem combined_roundtrip_witness:
  "\<exists>ct enc sig a1.
    CryptoManager_CombinedEncryptAndSign (\<lambda>_. tag_scheme) (\<lambda>key nonce plain. rev plain) tag_env [1, 6] (Some \<lparr>kp_PublicKey = [1], kp_PrivateKey = [2], kp_Level = 3\<rparr>)
      [10, 20] tag_manager = (Inr (ct, enc, sig), a1) \<and>
    fst (CryptoManager_CombinedDecryptAndVerify (\<lambda>_. tag_scheme) (\<lambda>key nonce enc. Some (rev enc)) tag_env [2, 6]
      (Some \<lparr>kp_PublicKey = [1], kp_PrivateKey = [], kp_Level = 3\<rparr>) ct enc sig (snd (CryptoManager_GenerateKEMKeyPair [6] 1 tag_manager))) = Inr ([10, 20], True)"
proof -
  have new: "NewCryptoManager (\<lambda>_. tag_kem) 0 1024 3 [] = Some (Inr tag_manager)"
    by (simp add: tag_manager_def NewCryptoManager_def KyberSchemeFromLevel_def kyber_levels NewKyberCrypto_def level_defs tag_kem_def)
  then have r: "crypto_reachable (\<lambda>_. tag_kem) (\<lambda>_. tag_scheme) tag_manager" by (rule crypto_reachable.new)
  have lv: "cr_kyberLevel tag_manager = 1024" "cr_dilithiumLevel tag_manager = 3" "kc_scheme (cr_kyberCrypto tag_manager) = Some tag_kem"
    by (simp_all add: tag_manager_def NewCryptoManager_def KyberSchemeFromLevel_def kyber_levels NewKyberCrypto_def level_defs)
  obtain b1 where g: "CryptoManager_GenerateKEMKeyPair [6] 1 tag_manager = (Inr \<lparr>kk_PublicKey = [1, 6], kk_PrivateKey = [2, 6]\<rparr>, b1)"
    by (simp add: CryptoManager_GenerateKEMKeyPair_def KyberCrypto_GenerateKeyPair_def lv) (simp add: tag_kem_def)
  show ?thesis
    using combined_roundtrip [OF r r refl refl _ _ _ g, where env = tag_env and seal = "\<lambda>key nonce plain. rev plain" and opn = "\<lambda>key nonce enc. Some (rev enc)"
        and sk = "\<lparr>kp_PublicKey = [1], kp_PrivateKey = [2], kp_Level = 3\<rparr>" and pub = "\<lparr>kp_PublicKey = [1], kp_PrivateKey = [], kp_Level = 3\<rparr>"
        and nonce = "replicate 12 0" and m = "[10, 20]" and ?env1.0 = tag_env] g
    by (simp add: lv sound_kem_def sound_aead_def tag_kem_def tag_env_def sound_scheme_def tag_scheme_def
        CryptoManager_GenerateSignatureKeyPair_def GenerateDilithiumKeyPair_def getDilithiumScheme_def level_defs)
qed

end
