(* ===== verification/GoHeap.thy ===== *)
theory GoHeap
  imports Prelude "HOL-Library.Multiset"
begin

text \<open>
  Go's package \<open>container/heap\<close>, which the transaction pool uses through an implementation of
  \<open>heap.Interface\<close>. The package's functions are parametric in the interface's methods, as in Go;
  the state \<open>'h\<close> is whatever the methods read and write. The locale \<open>heap_interface\<close> states what
  a caller's methods have to promise, and its lemmas what the package then guarantees: every
  operation keeps the heap order and the elements, and \<open>Pop\<close> takes a least element.
\<close>

section \<open>Definitions\<close>

function heap_up :: "('h \<Rightarrow> nat \<Rightarrow> nat \<Rightarrow> bool) \<Rightarrow> (nat \<Rightarrow> nat \<Rightarrow> 'h \<Rightarrow> 'h) \<Rightarrow> nat \<Rightarrow> 'h \<Rightarrow> 'h" where
  "heap_up Less Swap j h =
     (let i = (j - 1) div 2 in
      if i = j \<or> \<not> Less h j i then h
      else heap_up Less Swap i (Swap i j h))"
  by pat_completeness auto
termination by (relation "measure (\<lambda>(_, _, j, _). j)") auto

text \<open>The child the loop of \<open>down\<close> compares with: the right one if it exists and is less.\<close>

definition heap_child :: "('h \<Rightarrow> nat \<Rightarrow> nat \<Rightarrow> bool) \<Rightarrow> nat \<Rightarrow> nat \<Rightarrow> 'h \<Rightarrow> nat" where
  "heap_child Less i n h = (if 2 * i + 2 < n \<and> Less h (2 * i + 2) (2 * i + 1) then 2 * i + 2 else 2 * i + 1)"

text \<open>\<open>heap_down\<close> returns the index at which the loop stopped; the package compares it with the
  index it started from.\<close>

function heap_down :: "('h \<Rightarrow> nat \<Rightarrow> nat \<Rightarrow> bool) \<Rightarrow> (nat \<Rightarrow> nat \<Rightarrow> 'h \<Rightarrow> 'h) \<Rightarrow> nat \<Rightarrow> nat \<Rightarrow> 'h \<Rightarrow> nat \<times> 'h" where
  "heap_down Less Swap n i h =
     (if 2 * i + 1 \<ge> n then (i, h)
      else let j = heap_child Less i n h in
        if \<not> Less h j i then (i, h)
        else heap_down Less Swap n j (Swap i j h))"
  by pat_completeness auto
termination
  by (relation "measure (\<lambda>(_, _, n, i, _). n - i)") (auto simp: heap_child_def split: if_splits)

definition heap_sift :: "('h \<Rightarrow> nat \<Rightarrow> nat \<Rightarrow> bool) \<Rightarrow> (nat \<Rightarrow> nat \<Rightarrow> 'h \<Rightarrow> 'h) \<Rightarrow> nat \<Rightarrow> nat \<Rightarrow> 'h \<Rightarrow> 'h" where
  "heap_sift Less Swap n i h =
     (let (j, h') = heap_down Less Swap n i h in if \<not> i < j then heap_up Less Swap i h' else h')"

definition heap_Push where
  "heap_Push len Less Swap push x h =
     (let h' = push x h in heap_up Less Swap (len h' - 1) h')"

definition heap_Pop where
  "heap_Pop len Less Swap pop h =
     (let n = len h - 1; (j, h') = heap_down Less Swap n 0 (Swap 0 n h) in pop h')"

definition heap_Remove where
  "heap_Remove len Less Swap pop i h =
     (let n = len h - 1 in pop (if n \<noteq> i then heap_sift Less Swap n i (Swap i n h) else h))"

definition heap_Fix where
  "heap_Fix len Less Swap i h = heap_sift Less Swap (len h) i h"

declare heap_up.simps [simp del] heap_down.simps [simp del]

section \<open>Heap order on a function of the indices\<close>

definition parent :: "nat \<Rightarrow> nat" where
  "parent i = (i - 1) div 2"

definition heap_order :: "(nat \<Rightarrow> 'k::linorder) \<Rightarrow> nat \<Rightarrow> bool" where
  "heap_order k n \<longleftrightarrow> (\<forall>m. 0 < m \<and> m < n \<longrightarrow> k (parent m) \<le> k m)"

text \<open>\<open>up_hole k n j\<close>: only the edge from \<open>j\<close> to its parent may be out of order.
  \<open>down_hole k n i\<close>: the edges from \<open>i\<close> to its children may be as well.\<close>

definition up_hole :: "(nat \<Rightarrow> 'k::linorder) \<Rightarrow> nat \<Rightarrow> nat \<Rightarrow> bool" where
  "up_hole k n j \<longleftrightarrow>
     (\<forall>m. 0 < m \<and> m < n \<and> m \<noteq> j \<longrightarrow> k (parent m) \<le> k m) \<and>
     (\<forall>m. 0 < m \<and> m < n \<and> parent m = j \<and> 0 < j \<longrightarrow> k (parent j) \<le> k m)"

definition down_hole :: "(nat \<Rightarrow> 'k::linorder) \<Rightarrow> nat \<Rightarrow> nat \<Rightarrow> bool" where
  "down_hole k n i \<longleftrightarrow>
     (\<forall>m. 0 < m \<and> m < n \<and> m \<noteq> i \<and> parent m \<noteq> i \<longrightarrow> k (parent m) \<le> k m) \<and>
     (\<forall>m. 0 < m \<and> m < n \<and> parent m = i \<and> 0 < i \<longrightarrow> k (parent i) \<le> k m)"

definition swapped :: "(nat \<Rightarrow> 'k) \<Rightarrow> nat \<Rightarrow> nat \<Rightarrow> nat \<Rightarrow> 'k" where
  "swapped k i j = (\<lambda>m. if m = i then k j else if m = j then k i else k m)"

lemma parent_less: "0 < m \<Longrightarrow> parent m < m"
  by (simp add: parent_def)

lemma parent_le: "parent m \<le> m"
  by (simp add: parent_def)

lemma parent_child: "parent m = i \<and> 0 < m \<longleftrightarrow> m = 2 * i + 1 \<or> m = 2 * i + 2"
  by (auto simp: parent_def)

lemma heap_order_root:
  assumes "heap_order k n" and "m < n"
  shows "k 0 \<le> k m"
  using assms(2)
proof (induction m rule: less_induct)
  case (less m)
  show ?case
  proof (cases "m = 0")
    case False
    with less.prems have "k 0 \<le> k (parent m)" using parent_less [of m] by (intro less.IH) auto
    also have "\<dots> \<le> k m" using assms(1) less.prems False by (simp add: heap_order_def)
    finally show ?thesis .
  qed simp
qed

lemma up_hole_done:
  "up_hole k n j \<Longrightarrow> j = 0 \<or> k (parent j) \<le> k j \<Longrightarrow> heap_order k n"
  by (auto simp: up_hole_def heap_order_def)

lemma up_hole_step:
  assumes hole: "up_hole k n j" and lt: "k j < k (parent j)" and j: "0 < j" "j < n"
  shows "up_hole (swapped k (parent j) j) n (parent j)"
proof -
  have pj: "parent j < j" using j by (simp add: parent_less)
  have edge: "swapped k (parent j) j (parent m) \<le> swapped k (parent j) j m"
    if "0 < m" "m < n" "m \<noteq> parent j" for m
  proof -
    consider "m = j" | "m \<noteq> j" "parent m = parent j" | "m \<noteq> j" "parent m = j"
      | "m \<noteq> j" "parent m \<noteq> parent j" "parent m \<noteq> j" by blast
    then show ?thesis
      using hole lt j pj that parent_less [of m]
      by cases (auto simp: up_hole_def swapped_def intro: less_imp_le dest: spec [of _ m]
          order.strict_trans2 [OF lt])
  qed
  moreover have "swapped k (parent j) j (parent (parent j)) \<le> swapped k (parent j) j m"
    if "0 < m" "m < n" "parent m = parent j" "0 < parent j" for m
  proof -
    have p: "parent (parent j) < parent j" using that by (simp add: parent_less)
    have "k (parent (parent j)) \<le> k (parent j)" using hole that pj j by (simp add: up_hole_def)
    moreover have "k (parent j) \<le> k m" if "m \<noteq> j"
      using hole that \<open>0 < m\<close> \<open>m < n\<close> \<open>parent m = parent j\<close> by (metis up_hole_def)
    ultimately show ?thesis
      using p pj that parent_less [of m] by (auto simp: swapped_def)
  qed
  ultimately show ?thesis by (auto simp: up_hole_def)
qed

lemma down_hole_done:
  assumes "down_hole k n i"
    and "\<And>m. 0 < m \<Longrightarrow> m < n \<Longrightarrow> parent m = i \<Longrightarrow> k i \<le> k m"
  shows "up_hole k n i"
  using assms by (auto simp: down_hole_def up_hole_def)

lemma down_hole_step:
  assumes hole: "down_hole k n i" and lt: "k j < k i" and j: "0 < j" "j < n" and pj: "parent j = i"
    and least: "\<And>m. 0 < m \<Longrightarrow> m < n \<Longrightarrow> parent m = i \<Longrightarrow> k j \<le> k m"
  shows "down_hole (swapped k i j) n j" and "swapped k i j (parent j) \<le> swapped k i j j"
proof -
  have ij: "i < j" using parent_less j pj by blast
  show "swapped k i j (parent j) \<le> swapped k i j j"
    using lt pj ij by (simp add: swapped_def)
  have "swapped k i j (parent m) \<le> swapped k i j m"
    if "0 < m" "m < n" "m \<noteq> j" "parent m \<noteq> j" for m
  proof -
    consider "m = i" | "m \<noteq> i" "parent m = i" | "m \<noteq> i" "parent m \<noteq> i" by blast
    then show ?thesis
    proof cases
      case 1
      then have "k (parent i) \<le> k j" using hole that j pj by (simp add: down_hole_def)
      then show ?thesis using 1 that ij parent_less [of i] by (auto simp: swapped_def)
    qed (use hole that least in \<open>auto simp: swapped_def down_hole_def\<close>)
  qed
  moreover have "swapped k i j (parent j) \<le> swapped k i j m" if "0 < m" "m < n" "parent m = j" for m
    using hole that ij pj parent_less [of m] by (auto simp: swapped_def down_hole_def)
  ultimately show "down_hole (swapped k i j) n j" by (auto simp: down_hole_def)
qed

lemma heap_order_cong:
  assumes "\<And>m. m < n \<Longrightarrow> k' m = k m" and "heap_order k n"
  shows "heap_order k' n"
  unfolding heap_order_def
proof (intro allI impI)
  fix m assume m: "0 < m \<and> m < n"
  then have "parent m < n" using parent_le [of m] by linarith
  with m assms show "k' (parent m) \<le> k' m" by (simp add: heap_order_def)
qed

lemma heap_order_append:
  assumes "heap_order k n" and "\<And>m. m < n \<Longrightarrow> k' m = k m"
  shows "up_hole k' (Suc n) n"
proof -
  have "heap_order k' n" using assms(2,1) by (rule heap_order_cong)
  then have "k' (parent m) \<le> k' m" if "0 < m" "m < Suc n" "m \<noteq> n" for m
    using that by (simp add: heap_order_def)
  moreover have "parent m \<noteq> n" if "0 < m" "m < Suc n" for m using that parent_less [of m] by linarith
  ultimately show ?thesis unfolding up_hole_def by blast
qed

lemma heap_order_hole:
  assumes "heap_order k n" and "\<And>m. m < n \<Longrightarrow> m \<noteq> i \<Longrightarrow> k' m = k m" and "i < n"
  shows "down_hole k' n i"
proof -
  have lt: "parent m < n" if "m < n" for m using that parent_le [of m] by linarith
  have "k' (parent m) \<le> k' m" if "0 < m" "m < n" "m \<noteq> i" "parent m \<noteq> i" for m
    using that assms lt by (simp add: heap_order_def)
  moreover have "k' (parent i) \<le> k' m" if "0 < m" "m < n" "parent m = i" "0 < i" for m
  proof -
    have ne: "parent i \<noteq> i" "m \<noteq> i" using that parent_less [of i] parent_less [of m] by auto
    have "k (parent i) \<le> k (parent m)" "k (parent m) \<le> k m"
      using assms(1,3) that unfolding heap_order_def by blast+
    then show ?thesis using assms(2) that ne lt [OF assms(3)] by simp
  qed
  ultimately show ?thesis by (auto simp: down_hole_def)
qed

section \<open>The interface\<close>

text \<open>
  What \<open>Len\<close>, \<open>Less\<close> and \<open>Swap\<close> of an implementation promise, over the list of the elements it
  holds and a key by which \<open>Less\<close> compares; \<open>inv\<close> is the implementation's own invariant.
\<close>

locale heap_interface =
  fixes len :: "'h \<Rightarrow> nat"
    and Less :: "'h \<Rightarrow> nat \<Rightarrow> nat \<Rightarrow> bool"
    and Swap :: "nat \<Rightarrow> nat \<Rightarrow> 'h \<Rightarrow> 'h"
    and contents :: "'h \<Rightarrow> 'e list"
    and key :: "'e \<Rightarrow> 'k::linorder"
    and inv :: "'h \<Rightarrow> bool"
  assumes len_contents: "len h = length (contents h)"
    and less_key: "i < len h \<Longrightarrow> j < len h \<Longrightarrow> Less h i j \<longleftrightarrow> key (contents h ! i) < key (contents h ! j)"
    and swap_contents: "inv h \<Longrightarrow> i < len h \<Longrightarrow> j < len h \<Longrightarrow>
          contents (Swap i j h) = (contents h)[i := contents h ! j, j := contents h ! i]"
    and swap_inv: "inv h \<Longrightarrow> i < len h \<Longrightarrow> j < len h \<Longrightarrow> inv (Swap i j h)"
begin

definition keys :: "'h \<Rightarrow> nat \<Rightarrow> 'k" where
  "keys h m = key (contents h ! m)"

text \<open>\<open>same n h h'\<close>: \<open>h'\<close> is \<open>h\<close> with the elements below \<open>n\<close> rearranged.\<close>

definition same :: "nat \<Rightarrow> 'h \<Rightarrow> 'h \<Rightarrow> bool" where
  "same n h h' \<longleftrightarrow> inv h' \<and> mset (contents h') = mset (contents h) \<and>
                   (\<forall>m. n \<le> m \<longrightarrow> contents h' ! m = contents h ! m)"

lemma same_refl: "inv h \<Longrightarrow> same n h h"
  by (simp add: same_def)

lemma same_trans: "same n h h' \<Longrightarrow> same n h' h'' \<Longrightarrow> same n h h''"
  by (simp add: same_def)

lemma same_len: "same n h h' \<Longrightarrow> len h' = len h"
  by (metis same_def len_contents size_mset)

lemma same_inv: "same n h h' \<Longrightarrow> inv h'"
  by (simp add: same_def)

lemma swap_keys: "inv h \<Longrightarrow> i < len h \<Longrightarrow> j < len h \<Longrightarrow> keys (Swap i j h) = swapped (keys h) i j"
  by (auto simp: keys_def swapped_def swap_contents len_contents nth_list_update fun_eq_iff)

lemma swap_mset:
  "inv h \<Longrightarrow> i < len h \<Longrightarrow> j < len h \<Longrightarrow> mset (contents (Swap i j h)) = mset (contents h)"
  by (simp add: swap_contents len_contents mset_swap)

lemma swap_same:
  "inv h \<Longrightarrow> i < n \<Longrightarrow> j < n \<Longrightarrow> n \<le> len h \<Longrightarrow> same n h (Swap i j h)"
  by (simp add: same_def swap_inv swap_mset) (simp add: swap_contents)

lemma less_keys: "i < len h \<Longrightarrow> j < len h \<Longrightarrow> Less h i j \<longleftrightarrow> keys h i < keys h j"
  by (simp add: keys_def less_key)

lemma up_correct:
  assumes "inv h" and "j < n" and "n \<le> len h" and "up_hole (keys h) n j"
  shows "same n h (heap_up Less Swap j h) \<and> heap_order (keys (heap_up Less Swap j h)) n"
  using assms
proof (induction j arbitrary: h rule: less_induct)
  case (less j)
  show ?case
  proof (cases "parent j = j \<or> \<not> Less h j (parent j)")
    case True
    then have "j = 0 \<or> keys h (parent j) \<le> keys h j"
      using less.prems parent_less [of j] parent_le [of j] by (auto simp: less_keys)
    with less.prems have "heap_order (keys h) n" by (auto intro: up_hole_done)
    moreover have "heap_up Less Swap j h = h"
      using True by (subst heap_up.simps) (simp add: parent_def Let_def)
    ultimately show ?thesis using less.prems by (simp add: same_refl)
  next
    case False
    then have j: "0 < j" by (cases j) (auto simp: parent_def)
    then have pj: "parent j < j" by (rule parent_less)
    have lt: "keys h j < keys h (parent j)" using False less.prems pj by (simp add: less_keys)
    let ?h = "Swap (parent j) j h"
    have s: "same n h ?h" using less.prems pj by (simp add: swap_same)
    have "up_hole (keys ?h) n (parent j)"
      using up_hole_step [OF less.prems(4) lt j less.prems(2)] less.prems pj by (simp add: swap_keys)
    then have "same n ?h (heap_up Less Swap (parent j) ?h) \<and> heap_order (keys (heap_up Less Swap (parent j) ?h)) n"
      using less.prems pj s by (intro less.IH) (auto simp: same_inv same_len)
    moreover have "heap_up Less Swap j h = heap_up Less Swap (parent j) ?h"
      using False by (subst heap_up.simps) (simp add: parent_def Let_def)
    ultimately show ?thesis using s by (auto intro: same_trans)
  qed
qed

lemma child_least:
  assumes "2 * i + 1 < n" and "n \<le> len h"
  shows "heap_child Less i n h < n" and "0 < heap_child Less i n h" and "parent (heap_child Less i n h) = i"
    and "0 < m \<Longrightarrow> m < n \<Longrightarrow> parent m = i \<Longrightarrow> keys h (heap_child Less i n h) \<le> keys h m"
proof -
  show "heap_child Less i n h < n" "0 < heap_child Less i n h" "parent (heap_child Less i n h) = i"
    using assms by (auto simp: heap_child_def parent_def)
  assume "0 < m" "m < n" "parent m = i"
  then consider "m = 2 * i + 1" | "m = 2 * i + 2" using parent_child by blast
  then show "keys h (heap_child Less i n h) \<le> keys h m"
    using assms \<open>m < n\<close> by cases (auto simp: heap_child_def less_keys)
qed

lemma down_correct:
  assumes "inv h" and "i < n" and "n \<le> len h" and "down_hole (keys h) n i"
  shows "case heap_down Less Swap n i h of (j, h') \<Rightarrow>
           same n h h' \<and> i \<le> j \<and> j < n \<and> up_hole (keys h') n j \<and>
           (i < j \<longrightarrow> keys h' (parent j) \<le> keys h' j) \<and> (j = i \<longrightarrow> h' = h)"
  using assms
proof (induction "n - i" arbitrary: i h rule: less_induct)
  case less
  let ?j = "heap_child Less i n h"
  show ?case
  proof (cases "2 * i + 1 \<ge> n \<or> \<not> Less h ?j i")
    case True
    have "keys h i \<le> keys h m" if "0 < m" "m < n" "parent m = i" for m
    proof -
      have "2 * i + 1 < n" using that parent_child [of m i] by auto
      note c = child_least [OF this less.prems(3)]
      have "keys h i \<le> keys h ?j"
        using True \<open>2 * i + 1 < n\<close> c(1) less.prems by (simp add: less_keys)
      also have "\<dots> \<le> keys h m" using that by (rule c(4))
      finally show ?thesis .
    qed
    with less.prems have "up_hole (keys h) n i" by (intro down_hole_done)
    moreover have "heap_down Less Swap n i h = (i, h)"
      using True by (subst heap_down.simps) (auto simp: Let_def)
    ultimately show ?thesis using less.prems by (simp add: same_refl)
  next
    case False
    then have n: "2 * i + 1 < n" by simp
    note c = child_least [OF this less.prems(3)]
    have lt: "keys h ?j < keys h i" using False c(1) less.prems by (simp add: less_keys)
    let ?h = "Swap i ?j h"
    have ij: "i < ?j" using parent_less [OF c(2)] c(3) by simp
    have s: "same n h ?h" using less.prems c(1) by (simp add: swap_same)
    have k: "keys ?h = swapped (keys h) i ?j" using less.prems c(1) by (intro swap_keys) auto
    note st = down_hole_step [OF less.prems(4) lt c(2,1,3,4), folded k]
    obtain j h' where d: "heap_down Less Swap n ?j ?h = (j, h')" by fastforce
    have "case heap_down Less Swap n ?j ?h of (j, h') \<Rightarrow>
           same n ?h h' \<and> ?j \<le> j \<and> j < n \<and> up_hole (keys h') n j \<and>
           (?j < j \<longrightarrow> keys h' (parent j) \<le> keys h' j) \<and> (j = ?j \<longrightarrow> h' = ?h)"
    proof (rule less.hyps [OF _ same_inv [OF s] c(1) _ st(1)])
      show "n - ?j < n - i" using ij c(1) by simp
      show "n \<le> len ?h" using same_len [OF s] less.prems(3) by simp
    qed
    then have r: "same n ?h h'" "?j \<le> j" "j < n" "up_hole (keys h') n j"
      "?j < j \<longrightarrow> keys h' (parent j) \<le> keys h' j" "j = ?j \<longrightarrow> h' = ?h"
      unfolding d by simp_all
    have "keys h' (parent j) \<le> keys h' j"
    proof (cases "j = ?j")
      case True
      with r(6) have "h' = ?h" by blast
      with True show ?thesis using st(2) by (simp only:)
    next
      case False
      with r(2) have "?j < j" by linarith
      with r(5) show ?thesis by blast
    qed
    moreover have "heap_down Less Swap n i h = (j, h')"
      using False by (subst heap_down.simps) (simp add: Let_def d)
    moreover have "i < j" using ij r(2) by linarith
    ultimately show ?thesis using r(3,4) same_trans [OF s r(1)] by simp
  qed
qed

lemma sift_correct:
  assumes "inv h" and "i < n" and "n \<le> len h" and "down_hole (keys h) n i"
  shows "same n h (heap_sift Less Swap n i h) \<and> heap_order (keys (heap_sift Less Swap n i h)) n"
proof -
  obtain j h' where d: "heap_down Less Swap n i h = (j, h')" by fastforce
  then have p: "same n h h'" "i \<le> j" "j < n" "up_hole (keys h') n j"
      "i < j \<longrightarrow> keys h' (parent j) \<le> keys h' j"
    using down_correct [OF assms] by auto
  show ?thesis
  proof (cases "i < j")
    case True
    then have "heap_sift Less Swap n i h = h'" and "heap_order (keys h') n"
      using d p(5) by (simp_all add: heap_sift_def up_hole_done [OF p(4)])
    then show ?thesis using p(1) by simp
  next
    case False
    with p have "j = i" by simp
    then have "same n h' (heap_up Less Swap i h') \<and> heap_order (keys (heap_up Less Swap i h')) n"
      using p assms same_len [OF p(1)] same_inv [OF p(1)] by (intro up_correct) auto
    moreover have "heap_sift Less Swap n i h = heap_up Less Swap i h'"
      using d False by (simp add: heap_sift_def)
    ultimately show ?thesis using same_trans [OF p(1)] by simp
  qed
qed

text \<open>\<open>heap.Fix\<close>: after the key of one element was changed.\<close>

lemma Fix_correct:
  assumes "inv h'" and "i < len h" and "len h' = len h" and "heap_order (keys h) (len h)"
    and "\<And>m. m < len h \<Longrightarrow> m \<noteq> i \<Longrightarrow> keys h' m = keys h m"
  shows "same (len h) h' (heap_Fix len Less Swap i h') \<and>
         heap_order (keys (heap_Fix len Less Swap i h')) (len h)"
  unfolding heap_Fix_def assms(3)
  using assms heap_order_hole [OF assms(4,5,2)] by (intro sift_correct) auto

end

text \<open>The interface with its \<open>Push\<close> and \<open>Pop\<close>; an element is pushed under the condition \<open>new\<close>.\<close>

locale heap_queue = heap_interface len Less Swap contents key inv
  for len :: "'h \<Rightarrow> nat"
    and Less :: "'h \<Rightarrow> nat \<Rightarrow> nat \<Rightarrow> bool"
    and Swap :: "nat \<Rightarrow> nat \<Rightarrow> 'h \<Rightarrow> 'h"
    and contents :: "'h \<Rightarrow> 'e list"
    and key :: "'e \<Rightarrow> 'k::linorder"
    and inv :: "'h \<Rightarrow> bool" +
  fixes push :: "'x \<Rightarrow> 'h \<Rightarrow> 'h"
    and pop :: "'h \<Rightarrow> 'x \<times> 'h"
    and new :: "'x \<Rightarrow> 'h \<Rightarrow> bool"
    and elem :: "'x \<Rightarrow> 'h \<Rightarrow> 'e"
    and ref :: "'e \<Rightarrow> 'x"
  assumes push_law: "inv h \<Longrightarrow> new x h \<Longrightarrow> inv (push x h) \<and> contents (push x h) = contents h @ [elem x h]"
    and pop_law: "inv h \<Longrightarrow> 0 < len h \<Longrightarrow> inv (snd (pop h)) \<and>
          contents (snd (pop h)) = butlast (contents h) \<and> fst (pop h) = ref (last (contents h))"
begin

definition ok :: "'h \<Rightarrow> bool" where
  "ok h \<longleftrightarrow> inv h \<and> heap_order (keys h) (len h)"

lemma Push_correct:
  assumes "ok h" and "new x h"
  shows "ok (heap_Push len Less Swap push x h) \<and>
         mset (contents (heap_Push len Less Swap push x h)) = add_mset (elem x h) (mset (contents h))"
proof -
  let ?h = "push x h"
  have inv: "inv ?h" and c: "contents ?h = contents h @ [elem x h]"
    using assms push_law by (auto simp: ok_def)
  then have l: "len ?h = Suc (len h)" by (simp add: len_contents)
  have "up_hole (keys ?h) (len ?h) (len h)"
    unfolding l using assms(1) c
    by (intro heap_order_append [of "keys h"]) (auto simp: ok_def keys_def nth_append len_contents)
  then show ?thesis
    using up_correct [of ?h "len h" "len ?h"] inv c l
    by (auto simp: heap_Push_def ok_def same_inv same_len) (auto simp: same_def)
qed

lemma pop_last:
  assumes "same n h0 h" and "n = len h0 - 1" and "0 < len h0" and "heap_order (keys h) n"
  shows "ok (snd (pop h)) \<and> fst (pop h) = ref (contents h0 ! n) \<and>
         mset (contents h0) = add_mset (contents h0 ! n) (mset (contents (snd (pop h))))"
proof -
  have l: "len h = len h0" using assms(1) by (rule same_len)
  have p: "inv (snd (pop h))" "contents (snd (pop h)) = butlast (contents h)"
      "fst (pop h) = ref (last (contents h))"
    using pop_law [of h] same_inv [OF assms(1)] l assms(3) by auto
  have ne: "contents h \<noteq> []" using l assms(3) by (auto simp: len_contents)
  then have last: "last (contents h) = contents h0 ! n"
    using assms l by (simp add: last_conv_nth same_def len_contents)
  have "mset (contents h) = add_mset (last (contents h)) (mset (butlast (contents h)))"
    using ne append_butlast_last_id [OF ne] by (metis add_mset_add_single mset.simps mset_append)
  moreover have "heap_order (keys (snd (pop h))) (len (snd (pop h)))"
  proof -
    have ln: "len (snd (pop h)) = n" using p(2) l assms(2) by (simp add: len_contents)
    have "keys (snd (pop h)) m = keys h m" if "m < n" for m
      using that ln p(2) by (simp add: keys_def nth_butlast len_contents)
    with assms(4) ln show ?thesis using heap_order_cong by metis
  qed
  ultimately show ?thesis using p last assms(1) by (simp add: ok_def same_def)
qed

text \<open>The element at \<open>i\<close> moves to the end and the others are put in order again.\<close>

lemma swap_last:
  assumes "ok h" and "i < n" and "Suc n = len h"
  shows "inv (Swap i n h) \<and> len (Swap i n h) = len h \<and> down_hole (keys (Swap i n h)) n i \<and>
         contents (Swap i n h) ! n = contents h ! i \<and> mset (contents (Swap i n h)) = mset (contents h)"
proof -
  have inv: "inv h" and i: "i < len h" and n: "n < len h" using assms by (auto simp: ok_def)
  have "heap_order (keys h) n" using assms by (simp add: ok_def heap_order_def)
  then have "down_hole (keys (Swap i n h)) n i"
    using assms(2) by (elim heap_order_hole) (simp_all add: swap_keys [OF inv i n] swapped_def)
  moreover have "contents (Swap i n h) ! n = contents h ! i"
    using i n by (simp add: swap_contents [OF inv i n] len_contents)
  moreover have "len (Swap i n h) = len h"
    by (simp add: swap_contents [OF inv i n] len_contents)
  ultimately show ?thesis using swap_inv [OF inv i n] swap_mset [OF inv i n] by simp
qed

lemma Remove_correct:
  assumes ok: "ok h" and i: "i < len h"
  shows "case heap_Remove len Less Swap pop i h of (x, h') \<Rightarrow>
           ok h' \<and> x = ref (contents h ! i) \<and> mset (contents h) = add_mset (contents h ! i) (mset (contents h'))"
proof (cases "i = len h - 1")
  case True
  have "heap_order (keys h) (len h - 1)" using ok by (auto simp: ok_def heap_order_def)
  then have "ok (snd (pop h)) \<and> fst (pop h) = ref (contents h ! (len h - 1)) \<and>
     mset (contents h) = add_mset (contents h ! (len h - 1)) (mset (contents (snd (pop h))))"
    using ok i by (intro pop_last) (auto simp: ok_def same_refl)
  then show ?thesis using True by (simp add: heap_Remove_def case_prod_beta)
next
  case False
  define n where "n = len h - 1"
  have n: "i < n" "Suc n = len h" using i False by (auto simp: n_def)
  let ?h = "Swap i n h" and ?s = "heap_sift Less Swap n i (Swap i n h)"
  note sw = swap_last [OF ok n]
  have s: "same n ?h ?s" "heap_order (keys ?s) n"
    using sift_correct [of ?h i n] sw n by auto
  have "ok (snd (pop ?s)) \<and> fst (pop ?s) = ref (contents ?h ! n) \<and>
     mset (contents ?h) = add_mset (contents ?h ! n) (mset (contents (snd (pop ?s))))"
    using s sw n by (intro pop_last) auto
  moreover have "heap_Remove len Less Swap pop i h = pop ?s"
    using False by (simp add: heap_Remove_def n_def Let_def)
  ultimately show ?thesis using sw by (simp add: case_prod_beta)
qed

lemma Pop_correct:
  assumes ok: "ok h" and ne: "0 < len h"
  shows "case heap_Pop len Less Swap pop h of (x, h') \<Rightarrow>
           ok h' \<and> x = ref (contents h ! 0) \<and> mset (contents h) = add_mset (contents h ! 0) (mset (contents h')) \<and>
           (\<forall>e \<in> set (contents h'). key (contents h ! 0) \<le> key e)"
proof -
  define n where "n = len h - 1"
  have n: "Suc n = len h" using ne by (simp add: n_def)
  let ?h = "Swap 0 n h"
  obtain j d where d: "heap_down Less Swap n 0 ?h = (j, d)" by fastforce
  have "same n ?h d \<and> heap_order (keys d) n \<and> len ?h = len h \<and> contents ?h ! n = contents h ! 0 \<and>
        mset (contents ?h) = mset (contents h)"
  proof (cases "n = 0")
    case True
    have "contents ?h = contents h" and "inv ?h"
      using True ok n swap_contents [of h 0 0] swap_inv [of h 0 0] by (auto simp: ok_def)
    moreover have "d = ?h" using d True by (subst (asm) heap_down.simps) simp
    ultimately show ?thesis using True by (simp add: same_refl heap_order_def len_contents)
  next
    case False
    note sw = swap_last [OF ok _ n, of 0]
    have "same n ?h d" "up_hole (keys d) n j" "0 < j \<longrightarrow> keys d (parent j) \<le> keys d j"
      using down_correct [of ?h 0 n] sw False n d by auto
    then show ?thesis using up_hole_done [of "keys d" n j] sw False by auto
  qed
  moreover from this have "ok (snd (pop d)) \<and> fst (pop d) = ref (contents ?h ! n) \<and>
     mset (contents ?h) = add_mset (contents ?h ! n) (mset (contents (snd (pop d))))"
    using n by (intro pop_last) auto
  moreover have "heap_Pop len Less Swap pop h = pop d"
    using d by (simp add: heap_Pop_def n_def)
  moreover have "key (contents h ! 0) \<le> key e" if "e \<in># mset (contents h)" for e
  proof -
    obtain m where "m < len h" "e = contents h ! m" using \<open>e \<in># mset (contents h)\<close> by (auto simp: in_set_conv_nth len_contents)
    then show ?thesis using heap_order_root [of "keys h" "len h" m] ok by (simp add: ok_def keys_def)
  qed
  ultimately show ?thesis by (auto simp: case_prod_beta) (metis insert_iff set_mset_add_mset_insert set_mset_mset)
qed

end

end
