(* ===== verification/TxPool.thy ===== *)
theory TxPool
  imports GoHeap GoTime Accounts Dilithium "HOL-Library.AList"
begin

text \<open>
  The transaction pool of \<open>transaction/transaction_pool.go\<close>.

  A pool item is shared by the priority queue and the transaction map, so items live in an
  explicit store: a reference is a natural number, the queue is a list of references and the map
  sends an ID to a reference. A panic (an index out of range, a division by zero) is the
  result \<open>None\<close>. What an operation reads from its surroundings (account table, signature schemes,
  network load, the conversion of a float64 that does not fit an integer, the successive readings
  of the clock) is the record \<open>PoolEnv\<close>.
\<close>

section \<open>Data\<close>

datatype pool_error =
    ErrPoolFull
  | ErrTxNotFound
  | ErrDuplicateTx
  | ErrTxExpired
  | ErrInvalidTx pool_error
  | PoolErrCommon common_error
  | PoolErrCrypto crypto_error
  | PoolErrFee float64 float64
  | PoolErrTooOld int
  | PoolErrNonce int int
  | PoolErrNew string

record TransactionItem =
  ti_tx :: Transaction
  ti_priority :: int
  ti_index :: int
  ti_insertTime :: int
  ti_size :: int

type_synonym item_store = "nat \<Rightarrow> TransactionItem"
type_synonym PriorityQueue = "nat list"

record PoolMetrics =
  pm_TotalTxs :: int
  pm_ExpiredTxs :: int
  pm_ValidTxs :: int
  pm_InvalidTxs :: int
  pm_TotalFees :: float64
  pm_LastCleanupTime :: int
  pm_LastOptimizationTime :: int
  pm_AvgTxSize :: int
  pm_MemoryUsage :: int
  pm_PriorityDistribution :: "string \<rightharpoonup> int"

record TransactionPool =
  tp_store :: item_store
  tp_next :: nat
  tp_pendingTxs :: PriorityQueue
  tp_txMap :: "string \<rightharpoonup> nat"
  tp_maxPoolSize :: int
  tp_txTimeout :: duration
  tp_minFee :: float64
  tp_maxFee :: float64
  tp_conflictResolutionEnabled :: bool
  tp_expirationDuration :: duration
  tp_poolMetrics :: PoolMetrics
  tp_keyManager :: bool
  tp_accountNonces :: "string \<rightharpoonup> int"
  tp_accountTxs :: "string \<rightharpoonup> string set"
  tp_lastCleanupTime :: int
  tp_totalAdded :: uint64
  tp_totalRemoved :: uint64
  tp_totalExpired :: uint64
  tp_totalEvicted :: uint64

record PoolEnv =
  pe_accounts :: accounts
  pe_schemes :: schemes
  pe_netLoad :: int
  pe_conv :: "float64 \<Rightarrow> int"
  pe_clock :: "nat \<Rightarrow> int"

section \<open>The methods of the priority queue\<close>

definition PriorityQueue_Len :: "item_store \<times> PriorityQueue \<Rightarrow> nat" where
  "PriorityQueue_Len h = length (snd h)"

definition PriorityQueue_Less :: "item_store \<times> PriorityQueue \<Rightarrow> nat \<Rightarrow> nat \<Rightarrow> bool" where
  "PriorityQueue_Less h i j = (case h of (s, pq) \<Rightarrow> ti_priority (s (pq ! i)) > ti_priority (s (pq ! j)))"

definition set_index :: "int \<Rightarrow> nat \<Rightarrow> item_store \<Rightarrow> item_store" where
  "set_index i r s = s(r := (s r)\<lparr>ti_index := i\<rparr>)"

definition PriorityQueue_Swap :: "nat \<Rightarrow> nat \<Rightarrow> item_store \<times> PriorityQueue \<Rightarrow> item_store \<times> PriorityQueue" where
  "PriorityQueue_Swap i j h =
     (case h of (s, pq) \<Rightarrow>
        let pq' = pq[i := pq ! j, j := pq ! i]
        in (set_index (int j) (pq' ! j) (set_index (int i) (pq' ! i) s), pq'))"

definition PriorityQueue_Push :: "nat \<Rightarrow> item_store \<times> PriorityQueue \<Rightarrow> item_store \<times> PriorityQueue" where
  "PriorityQueue_Push r h = (case h of (s, pq) \<Rightarrow> (set_index (int (length pq)) r s, pq @ [r]))"

definition PriorityQueue_Pop :: "item_store \<times> PriorityQueue \<Rightarrow> nat \<times> item_store \<times> PriorityQueue" where
  "PriorityQueue_Pop h =
     (case h of (s, pq) \<Rightarrow> (last pq, set_index (- 1) (last pq) s, butlast pq))"

text \<open>\<open>heap.Push\<close>, \<open>heap.Pop\<close> and \<open>heap.Remove\<close> on the queue. \<open>Remove\<close> panics when the index
  is not one of the queue, \<open>Pop\<close> when the queue is empty.\<close>

definition pq_Push :: "nat \<Rightarrow> item_store \<times> PriorityQueue \<Rightarrow> item_store \<times> PriorityQueue" where
  "pq_Push = heap_Push PriorityQueue_Len PriorityQueue_Less PriorityQueue_Swap PriorityQueue_Push"

definition pq_Pop :: "item_store \<times> PriorityQueue \<Rightarrow> (nat \<times> item_store \<times> PriorityQueue) option" where
  "pq_Pop h = (if PriorityQueue_Len h = 0 then None
               else Some (heap_Pop PriorityQueue_Len PriorityQueue_Less PriorityQueue_Swap PriorityQueue_Pop h))"

definition pq_Remove :: "int \<Rightarrow> item_store \<times> PriorityQueue \<Rightarrow> (nat \<times> item_store \<times> PriorityQueue) option" where
  "pq_Remove i h =
     (if 0 \<le> i \<and> i < int (PriorityQueue_Len h)
      then Some (heap_Remove PriorityQueue_Len PriorityQueue_Less PriorityQueue_Swap PriorityQueue_Pop (nat i) h)
      else None)"

text \<open>\<open>Update\<close> writes the priority and calls \<open>heap.Fix\<close>, which leaves the queue alone for the
  index of a removed item and panics on an index past the end.\<close>

definition PriorityQueue_Update :: "nat \<Rightarrow> int \<Rightarrow> item_store \<times> PriorityQueue \<Rightarrow> (item_store \<times> PriorityQueue) option" where
  "PriorityQueue_Update r priority h =
     (case h of (s, pq) \<Rightarrow>
        let s' = s(r := (s r)\<lparr>ti_priority := priority\<rparr>); i = ti_index (s' r) in
        if i = - 1 \<or> i = 0 \<and> pq = [] then Some (s', pq)
        else if 0 \<le> i \<and> i < int (length pq)
          then Some (heap_Fix PriorityQueue_Len PriorityQueue_Less PriorityQueue_Swap (nat i) (s', pq))
        else None)"

section \<open>Construction and queries\<close>

definition zero_PoolMetrics :: PoolMetrics where
  "zero_PoolMetrics =
     \<lparr>pm_TotalTxs = 0, pm_ExpiredTxs = 0, pm_ValidTxs = 0, pm_InvalidTxs = 0, pm_TotalFees = f64_0,
      pm_LastCleanupTime = 0, pm_LastOptimizationTime = 0, pm_AvgTxSize = 0, pm_MemoryUsage = 0,
      pm_PriorityDistribution = Map.empty\<rparr>"

text \<open>\<open>make\<close> panics for a negative capacity. An option is a function on the pool; the options of
  the package set the network health function (a field of the environment here), the key
  manager, the logger and the conflict resolution.\<close>

definition WithKeyManager :: "bool \<Rightarrow> TransactionPool \<Rightarrow> TransactionPool" where
  "WithKeyManager km tp = tp\<lparr>tp_keyManager := km\<rparr>"

definition WithConflictResolution :: "bool \<Rightarrow> TransactionPool \<Rightarrow> TransactionPool" where
  "WithConflictResolution enabled tp = tp\<lparr>tp_conflictResolutionEnabled := enabled\<rparr>"

definition NewTransactionPool ::
    "int \<Rightarrow> item_store \<Rightarrow> int \<Rightarrow> duration \<Rightarrow> float64 \<Rightarrow> float64 \<Rightarrow> duration \<Rightarrow>
     (TransactionPool \<Rightarrow> TransactionPool) list \<Rightarrow> TransactionPool option" where
  "NewTransactionPool now store0 maxPoolSize txTimeout minFee maxFee expirationDuration options =
     (if maxPoolSize < 0 then None
      else Some (fold (\<lambda>opt. opt) options
        \<lparr>tp_store = store0, tp_next = 0, tp_pendingTxs = [], tp_txMap = Map.empty, tp_maxPoolSize = maxPoolSize,
         tp_txTimeout = txTimeout, tp_minFee = minFee, tp_maxFee = maxFee, tp_conflictResolutionEnabled = False,
         tp_expirationDuration = expirationDuration, tp_poolMetrics = zero_PoolMetrics, tp_keyManager = False,
         tp_accountNonces = Map.empty, tp_accountTxs = Map.empty, tp_lastCleanupTime = now,
         tp_totalAdded = 0, tp_totalRemoved = 0, tp_totalExpired = 0, tp_totalEvicted = 0\<rparr>))"

definition TransactionPool_GetMaxPoolSize :: "TransactionPool \<Rightarrow> int" where
  "TransactionPool_GetMaxPoolSize tp = tp_maxPoolSize tp"

text \<open>The items in the order \<open>ids\<close> in which the range visits the map.\<close>

definition TransactionPool_GetAllTransactions :: "string list \<Rightarrow> TransactionPool \<Rightarrow> nat list" where
  "TransactionPool_GetAllTransactions ids tp = map (\<lambda>id. the (tp_txMap tp id)) ids"

definition TransactionPool_GetTransaction :: "string \<Rightarrow> TransactionPool \<Rightarrow> pool_error + Transaction" where
  "TransactionPool_GetTransaction txID tp =
     (case tp_txMap tp txID of
        None \<Rightarrow> Inl ErrTxNotFound
      | Some r \<Rightarrow> Inr (ti_tx (tp_store tp r)))"

definition TransactionPool_HasTransaction :: "string \<Rightarrow> TransactionPool \<Rightarrow> bool" where
  "TransactionPool_HasTransaction txID tp = (tp_txMap tp txID \<noteq> None)"

definition TransactionPool_GetAccountTransactions ::
    "string list \<Rightarrow> string \<Rightarrow> TransactionPool \<Rightarrow> pool_error + Transaction list" where
  "TransactionPool_GetAccountTransactions ids accountID tp =
     (if accountID = '''' then Inl (PoolErrNew ''account ID cannot be empty'')
      else case tp_accountTxs tp accountID of
        None \<Rightarrow> Inr []
      | Some txs \<Rightarrow>
          if txs = {} then Inr []
          else Inr (concat (map (\<lambda>txID. case tp_txMap tp txID of
                                   None \<Rightarrow> [] | Some r \<Rightarrow> [ti_tx (tp_store tp r)]) ids)))"

definition TransactionPool_PoolSize :: "TransactionPool \<Rightarrow> nat" where
  "TransactionPool_PoolSize tp = length (tp_pendingTxs tp)"

definition priority_band :: "int \<Rightarrow> string" where
  "priority_band p =
     (if p < 20 then ''veryLow'' else if p < 40 then ''low'' else if p < 60 then ''medium''
      else if p < 80 then ''high'' else ''veryHigh'')"

definition TransactionPool_getPriorityDistribution :: "string list \<Rightarrow> TransactionPool \<Rightarrow> (string \<rightharpoonup> int)" where
  "TransactionPool_getPriorityDistribution ids tp =
     fold (\<lambda>id m. map_modify (priority_band (ti_priority (tp_store tp (the (tp_txMap tp id))))) (\<lambda>n. i64 (n + 1)) m)
       ids [''veryLow'' \<mapsto> 0, ''low'' \<mapsto> 0, ''medium'' \<mapsto> 0, ''high'' \<mapsto> 0, ''veryHigh'' \<mapsto> 0]"

definition TransactionPool_GetMetrics :: "string list \<Rightarrow> TransactionPool \<Rightarrow> PoolMetrics" where
  "TransactionPool_GetMetrics ids tp =
     (let m = (tp_poolMetrics tp)\<lparr>pm_PriorityDistribution := TransactionPool_getPriorityDistribution ids tp\<rparr>
      in m\<lparr>pm_MemoryUsage := i64 (pm_TotalTxs m * pm_AvgTxSize m)\<rparr>)"

section \<open>Validation and priority\<close>

definition estimateTransactionSize :: "Transaction \<Rightarrow> int" where
  "estimateTransactionSize tx =
     200 + int (length (tx_Data tx)) + (\<Sum>k \<leftarrow> tx_Metadata tx. int (length k) + 50)"

definition TransactionPool_verifySignature :: "PoolEnv \<Rightarrow> Transaction \<Rightarrow> pool_error + bool" where
  "TransactionPool_verifySignature env tx =
     (case GetAccount (tx_Sender tx) (pe_accounts env) of
        None \<Rightarrow> Inl (PoolErrNew ''sender account not found'')
      | Some senderAcc \<Rightarrow>
          if length (acc_PublicKey senderAcc) = 0 then Inl (PoolErrNew ''sender account has no public key'')
          else case VerifySignature (pe_schemes env) (acc_PublicKey senderAcc) (string_bytes (tx_ID tx)) (tx_Signature tx) of
            Inl e \<Rightarrow> Inl (PoolErrCrypto e)
          | Inr valid \<Rightarrow> Inr valid)"

definition TransactionPool_validateTransaction ::
    "PoolEnv \<Rightarrow> Transaction \<Rightarrow> TransactionPool \<Rightarrow> pool_error option" where
  "TransactionPool_validateTransaction env tx tp =
     (case ValidateTransaction (unix (pe_clock env 1)) tx of
        Some e \<Rightarrow> Some (PoolErrCommon e)
      | None \<Rightarrow>
          if f64_lt (tx_Fee tx) (tp_minFee tp) then Some (PoolErrFee (tx_Fee tx) (tp_minFee tp))
          else let now = unix (pe_clock env 2) in
            if tx_ExpiryTime tx > 0 \<and> tx_ExpiryTime tx \<le> now then Some ErrTxExpired
            else if i64 (now - tx_Timestamp tx) > f64_to_int64 (pe_conv env) (duration_seconds (tp_expirationDuration tp))
              then Some (PoolErrTooOld (tx_Timestamp tx))
            else
              case (if tp_keyManager tp \<and> length (tx_Signature tx) > 0
                    then case TransactionPool_verifySignature env tx of
                           Inl e \<Rightarrow> Some e
                         | Inr isValid \<Rightarrow> if \<not> isValid then Some (PoolErrNew ''invalid transaction signature'') else None
                    else None) of
                Some e \<Rightarrow> Some e
              | None \<Rightarrow>
                  (case tp_accountNonces tp (tx_Sender tx) of
                     Some currentNonce \<Rightarrow>
                       if tx_Nonce tx \<le> currentNonce then Some (PoolErrNonce (tx_Nonce tx) currentNonce) else None
                   | None \<Rightarrow> None))"

definition TransactionPool_calculatePriority :: "PoolEnv \<Rightarrow> Transaction \<Rightarrow> int" where
  "TransactionPool_calculatePriority env tx =
     (let estimatedSize = (if length (tx_Data tx) > 0 then 1024 + int (length (tx_Data tx)) else 1024);
          feePerByte = f64_div (f64_mul (tx_Fee tx) (Fin 1024)) (f64_of_int estimatedSize);
          ageSeconds = i64 (unix (pe_clock env 3) - tx_Timestamp tx);
          age = f64_div (f64_of_int ageSeconds) (Fin 3600);
          ageFactor = (if f64_lt (Fin 10) age then Fin 10 else age);
          rawPriority = f64_add (f64_mul feePerByte (Fin 10)) ageFactor;
          scaledPriority = f64_to_int64 (pe_conv env) (f64_mul rawPriority (Fin 5));
          capped = (if scaledPriority > 100 then 100 else scaledPriority)
      in if capped < 0 then 0 else capped)"

definition TransactionPool_adjustFeesBasedOnLoad :: "int \<Rightarrow> TransactionPool \<Rightarrow> TransactionPool" where
  "TransactionPool_adjustFeesBasedOnLoad networkLoad tp =
     (let loadFactor = f64_div (f64_of_int networkLoad) (Fin 100);
          originalMinFee = tp_minFee tp;
          fee1 = (if networkLoad > 75 then f64_mul originalMinFee (f64_add (Fin 1) loadFactor)
                  else if networkLoad < 25
                    then f64_mul originalMinFee (f64_add (rnd (8 / 10)) (f64_mul (rnd (2 / 10)) loadFactor))
                  else f64_mul originalMinFee (f64_add (rnd (9 / 10)) (f64_mul (rnd (2 / 10)) loadFactor)));
          fee2 = (if f64_lt fee1 (f64_mul originalMinFee (Fin (1 / 2))) then f64_mul originalMinFee (Fin (1 / 2)) else fee1);
          fee3 = (if f64_lt (tp_maxFee tp) fee2 then tp_maxFee tp else fee2)
      in tp\<lparr>tp_minFee := fee3\<rparr>)"

section \<open>Operations that change the pool\<close>

text \<open>The bookkeeping of \<open>accountTxs\<close>: an ID is added under an account, or deleted together with the
  account's entry when that becomes empty.\<close>

definition add_accountTx :: "string \<Rightarrow> string \<Rightarrow> (string \<rightharpoonup> string set) \<Rightarrow> (string \<rightharpoonup> string set)" where
  "add_accountTx acc txID m = m(acc \<mapsto> insert txID (case m acc of None \<Rightarrow> {} | Some txs \<Rightarrow> txs))"

definition delete_accountTx :: "string \<Rightarrow> string \<Rightarrow> (string \<rightharpoonup> string set) \<Rightarrow> (string \<rightharpoonup> string set)" where
  "delete_accountTx acc txID m =
     (case m acc of
        None \<Rightarrow> m
      | Some txs \<Rightarrow> if txs - {txID} = {} then m(acc := None) else m(acc \<mapsto> txs - {txID}))"

fun evict_loop :: "nat \<Rightarrow> TransactionPool \<Rightarrow> TransactionPool option" where
  "evict_loop 0 tp = Some tp"
| "evict_loop (Suc k) tp =
     (if length (tp_pendingTxs tp) = 0 then Some tp
      else case pq_Pop (tp_store tp, tp_pendingTxs tp) of
        None \<Rightarrow> None
      | Some (r, s, pq) \<Rightarrow>
          let tx = ti_tx (s r) in
          evict_loop k
            (tp\<lparr>tp_store := s, tp_pendingTxs := pq, tp_txMap := (tp_txMap tp)(tx_ID tx := None),
                tp_accountTxs := delete_accountTx (tx_Sender tx) (tx_ID tx) (tp_accountTxs tp),
                tp_totalEvicted := tp_totalEvicted tp + 1\<rparr>))"

definition pool_target :: "(float64 \<Rightarrow> int) \<Rightarrow> int \<Rightarrow> int" where
  "pool_target conv maxPoolSize = f64_to_int64 conv (f64_mul (f64_of_int maxPoolSize) (rnd (8 / 10)))"

definition TransactionPool_optimizePool :: "PoolEnv \<Rightarrow> TransactionPool \<Rightarrow> TransactionPool option" where
  "TransactionPool_optimizePool env tp =
     (let currentSize = int (length (tp_pendingTxs tp));
          targetSize = pool_target (pe_conv env) (tp_maxPoolSize tp) in
      if currentSize \<le> targetSize then Some tp
      else
        case evict_loop (nat (currentSize - targetSize)) (TransactionPool_adjustFeesBasedOnLoad (pe_netLoad env) tp) of
          None \<Rightarrow> None
        | Some tp1 \<Rightarrow>
            Some (tp1\<lparr>tp_poolMetrics := (tp_poolMetrics tp1)\<lparr>pm_LastOptimizationTime := pe_clock env 0,
                        pm_TotalTxs := int (length (tp_pendingTxs tp1))\<rparr>\<rparr>))"

text \<open>Steps 4 to 10 of \<open>AddTransaction\<close>, after the transaction was accepted. The new average
  size divides by the number of transactions.\<close>

definition pool_insert :: "PoolEnv \<Rightarrow> Transaction \<Rightarrow> TransactionPool \<Rightarrow> TransactionPool option" where
  "pool_insert env tx tp =
     (let priority = TransactionPool_calculatePriority env tx;
          size = estimateTransactionSize tx;
          r = tp_next tp;
          item = \<lparr>ti_tx = tx, ti_priority = priority, ti_index = 0, ti_insertTime = pe_clock env 4, ti_size = size\<rparr>;
          (s, pq) = pq_Push r ((tp_store tp)(r := item), tp_pendingTxs tp);
          accountNonces = (case tp_accountNonces tp (tx_Sender tx) of
             None \<Rightarrow> (tp_accountNonces tp)(tx_Sender tx \<mapsto> tx_Nonce tx)
           | Some currentNonce \<Rightarrow>
               if tx_Nonce tx > currentNonce then (tp_accountNonces tp)(tx_Sender tx \<mapsto> tx_Nonce tx)
               else tp_accountNonces tp);
          accountTxs1 = add_accountTx (tx_Sender tx) (tx_ID tx) (tp_accountTxs tp);
          accountTxs2 = (if tx_SmartContractID tx \<noteq> '''' then add_accountTx (tx_SmartContractID tx) (tx_ID tx) accountTxs1
                         else accountTxs1);
          m = tp_poolMetrics tp;
          total = i64 (pm_TotalTxs m + 1) in
      if total = 0 then None
      else Some (tp\<lparr>tp_store := s, tp_next := r + 1, tp_pendingTxs := pq, tp_txMap := (tp_txMap tp)(tx_ID tx \<mapsto> r),
             tp_accountNonces := accountNonces, tp_accountTxs := accountTxs2,
             tp_poolMetrics := m\<lparr>pm_TotalTxs := total, pm_ValidTxs := i64 (pm_ValidTxs m + 1),
                 pm_TotalFees := f64_add (pm_TotalFees m) (tx_Fee tx),
                 pm_AvgTxSize := i64 (go_div (i64 (pm_AvgTxSize m * (total - 1) + size)) total)\<rparr>,
             tp_totalAdded := tp_totalAdded tp + 1\<rparr>))"

definition TransactionPool_AddTransaction ::
    "PoolEnv \<Rightarrow> Transaction \<Rightarrow> TransactionPool \<Rightarrow> (pool_error option \<times> TransactionPool) option" where
  "TransactionPool_AddTransaction env tx tp =
     (if tp_txMap tp (tx_ID tx) \<noteq> None then Some (Some ErrDuplicateTx, tp)
      else
        case (if int (length (tp_pendingTxs tp)) \<ge> tp_maxPoolSize tp then TransactionPool_optimizePool env tp
              else Some tp) of
          None \<Rightarrow> None
        | Some tp1 \<Rightarrow>
            if int (length (tp_pendingTxs tp)) \<ge> tp_maxPoolSize tp \<and> int (length (tp_pendingTxs tp1)) \<ge> tp_maxPoolSize tp1
              then Some (Some ErrPoolFull, tp1)
            else
              case TransactionPool_validateTransaction env tx tp1 of
                Some err \<Rightarrow>
                  Some (Some (ErrInvalidTx err),
                        tp1\<lparr>tp_poolMetrics := (tp_poolMetrics tp1)\<lparr>pm_InvalidTxs := i64 (pm_InvalidTxs (tp_poolMetrics tp1) + 1)\<rparr>\<rparr>)
              | None \<Rightarrow> map_option (\<lambda>tp2. (None, tp2)) (pool_insert env tx tp1))"

definition TransactionPool_RemoveTransaction ::
    "string \<Rightarrow> TransactionPool \<Rightarrow> (pool_error option \<times> TransactionPool) option" where
  "TransactionPool_RemoveTransaction txID tp =
     (case tp_txMap tp txID of
        None \<Rightarrow> Some (Some ErrTxNotFound, tp)
      | Some r \<Rightarrow>
          (case pq_Remove (ti_index (tp_store tp r)) (tp_store tp, tp_pendingTxs tp) of
             None \<Rightarrow> None
           | Some (_, s, pq) \<Rightarrow>
               let tx = ti_tx (tp_store tp r);
                   accountTxs1 = delete_accountTx (tx_Sender tx) txID (tp_accountTxs tp);
                   accountTxs2 = (if tx_SmartContractID tx \<noteq> ''''
                                  then delete_accountTx (tx_SmartContractID tx) txID accountTxs1 else accountTxs1);
                   m = tp_poolMetrics tp in
               Some (None, tp\<lparr>tp_store := s, tp_pendingTxs := pq, tp_txMap := (tp_txMap tp)(txID := None),
                       tp_accountTxs := accountTxs2,
                       tp_poolMetrics := m\<lparr>pm_TotalTxs := i64 (pm_TotalTxs m - 1),
                                           pm_TotalFees := f64_sub (pm_TotalFees m) (tx_Fee tx)\<rparr>,
                       tp_totalRemoved := tp_totalRemoved tp + 1\<rparr>)))"

text \<open>
  \<open>HandleConflicts\<close>. A conflict set is a list of IDs and items without repeated IDs, and the
  conflict map a list of such sets by key; \<open>ids\<close> is the order in which the pool's map is
  visited and \<open>visit\<close> the order in which a range visits one of the maps built on the way.
\<close>

definition conflict_key :: "Transaction \<Rightarrow> string" where
  "conflict_key tx = tx_Sender tx @ '':'' @ fmt_d (tx_Nonce tx)"

fun group_conflicts :: "TransactionPool \<Rightarrow> string list \<Rightarrow> (string \<times> (string \<times> nat) list) list \<Rightarrow> (string \<times> (string \<times> nat) list) list" where
  "group_conflicts tp [] conflicts = conflicts"
| "group_conflicts tp (txID # ids) conflicts =
     (let r = the (tp_txMap tp txID); tx = ti_tx (tp_store tp r); key = conflict_key tx;
          conflictSet = (case map_of conflicts key of None \<Rightarrow> [] | Some m \<Rightarrow> m)
      in group_conflicts tp ids (AList.update key (AList.update (tx_ID tx) r conflictSet) conflicts))"

fun highest_fee :: "item_store \<Rightarrow> (string \<times> nat) list \<Rightarrow> float64 \<Rightarrow> string \<Rightarrow> string" where
  "highest_fee s [] highestFee highestFeeID = highestFeeID"
| "highest_fee s ((txID, r) # rest) highestFee highestFeeID =
     (if f64_lt highestFee (tx_Fee (ti_tx (s r))) then highest_fee s rest (tx_Fee (ti_tx (s r))) txID
      else highest_fee s rest highestFee highestFeeID)"

fun conflict_removals ::
    "((string \<times> nat) list \<Rightarrow> (string \<times> nat) list) \<Rightarrow> item_store \<Rightarrow> (string \<times> (string \<times> nat) list) list \<Rightarrow> string list" where
  "conflict_removals visit s [] = []"
| "conflict_removals visit s ((key, conflictSet) # rest) =
     (if length conflictSet \<le> 1 then conflict_removals visit s rest
      else let highestFeeID = highest_fee s (visit conflictSet) f64_0 ''''
           in filter (\<lambda>txID. txID \<noteq> highestFeeID) (map fst (visit conflictSet)) @ conflict_removals visit s rest)"

fun remove_conflicting :: "string list \<Rightarrow> TransactionPool \<Rightarrow> TransactionPool option" where
  "remove_conflicting [] tp = Some tp"
| "remove_conflicting (txID # rest) tp =
     (case tp_txMap tp txID of
        None \<Rightarrow> remove_conflicting rest tp
      | Some r \<Rightarrow>
          (case pq_Remove (ti_index (tp_store tp r)) (tp_store tp, tp_pendingTxs tp) of
             None \<Rightarrow> None
           | Some (_, s, pq) \<Rightarrow>
               remove_conflicting rest
                 (tp\<lparr>tp_store := s, tp_pendingTxs := pq, tp_txMap := (tp_txMap tp)(txID := None)\<rparr>)))"

definition TransactionPool_HandleConflicts ::
    "string list \<Rightarrow> ((string \<times> (string \<times> nat) list) list \<Rightarrow> (string \<times> (string \<times> nat) list) list) \<Rightarrow>
     ((string \<times> nat) list \<Rightarrow> (string \<times> nat) list) \<Rightarrow> TransactionPool \<Rightarrow> TransactionPool option" where
  "TransactionPool_HandleConflicts ids visit_sets visit tp =
     (if \<not> tp_conflictResolutionEnabled tp then Some tp
      else remove_conflicting
             (conflict_removals visit (tp_store tp) (visit_sets (group_conflicts tp ids []))) tp)"

text \<open>\<open>RemoveExpiredTransactions\<close> reads the clock once for the cutoff, once for each item with an
  expiry time (\<open>now_of\<close>, by ID) and twice at the end.\<close>

definition expired_tx :: "int \<Rightarrow> int \<Rightarrow> Transaction \<Rightarrow> bool" where
  "expired_tx cutoffTime now tx \<longleftrightarrow>
     tx_ExpiryTime tx > 0 \<and> unix now > tx_ExpiryTime tx \<or> tx_Timestamp tx * second < cutoffTime"

fun remove_expired :: "string list \<Rightarrow> TransactionPool \<Rightarrow> TransactionPool option" where
  "remove_expired [] tp = Some tp"
| "remove_expired (txID # rest) tp =
     (case tp_txMap tp txID of
        None \<Rightarrow> remove_expired rest tp
      | Some r \<Rightarrow>
          (case pq_Remove (ti_index (tp_store tp r)) (tp_store tp, tp_pendingTxs tp) of
             None \<Rightarrow> None
           | Some (_, s, pq) \<Rightarrow>
               remove_expired rest
                 (tp\<lparr>tp_store := s, tp_pendingTxs := pq, tp_txMap := (tp_txMap tp)(txID := None),
                     tp_accountTxs := delete_accountTx (tx_Sender (ti_tx (tp_store tp r))) txID (tp_accountTxs tp)\<rparr>)))"

definition TransactionPool_RemoveExpiredTransactions ::
    "PoolEnv \<Rightarrow> (string \<Rightarrow> int) \<Rightarrow> string list \<Rightarrow> duration \<Rightarrow> TransactionPool \<Rightarrow> (int \<times> TransactionPool) option" where
  "TransactionPool_RemoveExpiredTransactions env now_of ids maxAge tp =
     (let cutoffTime = pe_clock env 0 - maxAge;
          toRemove = filter (\<lambda>id. expired_tx cutoffTime (now_of id) (ti_tx (tp_store tp (the (tp_txMap tp id))))) ids in
      case remove_expired toRemove tp of
        None \<Rightarrow> None
      | Some tp1 \<Rightarrow>
          Some (int (length toRemove),
            tp1\<lparr>tp_poolMetrics := (tp_poolMetrics tp1)\<lparr>
                  pm_ExpiredTxs := i64 (pm_ExpiredTxs (tp_poolMetrics tp1) + int (length toRemove)),
                  pm_LastCleanupTime := pe_clock env 1\<rparr>,
                tp_lastCleanupTime := pe_clock env 2,
                tp_totalExpired := tp_totalExpired tp1 + word_of_nat (length toRemove)\<rparr>))"

section \<open>The queue implements the heap interface\<close>

text \<open>\<open>pq_inv base\<close>: every item knows its index, and but for the index the items are those of \<open>base\<close>.\<close>

definition same_item :: "TransactionItem \<Rightarrow> TransactionItem \<Rightarrow> bool" where
  "same_item a b \<longleftrightarrow> a\<lparr>ti_index := 0\<rparr> = b\<lparr>ti_index := 0\<rparr>"

definition pq_inv :: "item_store \<Rightarrow> item_store \<times> PriorityQueue \<Rightarrow> bool" where
  "pq_inv base h \<longleftrightarrow>
     (case h of (s, pq) \<Rightarrow> distinct pq \<and> (\<forall>i < length pq. ti_index (s (pq ! i)) = int i) \<and>
                         (\<forall>r. same_item (s r) (base r)))"

definition pq_contents :: "item_store \<times> PriorityQueue \<Rightarrow> (int \<times> nat) list" where
  "pq_contents h = map (\<lambda>r. (ti_priority (fst h r), r)) (snd h)"

definition pq_elem :: "nat \<Rightarrow> item_store \<times> PriorityQueue \<Rightarrow> int \<times> nat" where
  "pq_elem r h = (ti_priority (fst h r), r)"

lemma same_item_refl [simp]: "same_item a a"
  by (simp add: same_item_def)

lemma same_item_trans: "same_item a b \<Longrightarrow> same_item b c \<Longrightarrow> same_item a c"
  by (simp add: same_item_def)

lemma same_item_fields: "same_item a b \<Longrightarrow> ti_tx a = ti_tx b \<and> ti_priority a = ti_priority b"
  by (cases a; cases b) (simp add: same_item_def)

lemma set_index_same [simp]: "same_item (set_index i r s x) b \<longleftrightarrow> same_item (s x) b"
  by (simp add: set_index_def same_item_def)

lemma set_index_simps [simp]:
  "ti_priority (set_index i r s x) = ti_priority (s x)" "ti_tx (set_index i r s x) = ti_tx (s x)"
  "ti_index (set_index i r s x) = (if x = r then i else ti_index (s x))"
  by (simp_all add: set_index_def)

lemma Swap_pq_inv:
  assumes "pq_inv base h" and "i < PriorityQueue_Len h" and "j < PriorityQueue_Len h"
  shows "pq_inv base (PriorityQueue_Swap i j h)"
proof -
  obtain s pq where h: "h = (s, pq)" by (cases h)
  let ?pq = "pq[i := pq ! j, j := pq ! i]"
  have d: "distinct pq" and l: "i < length pq" "j < length pq"
    and ix: "\<And>k. k < length pq \<Longrightarrow> ti_index (s (pq ! k)) = int k"
    using assms h by (auto simp: pq_inv_def PriorityQueue_Len_def)
  have d': "distinct ?pq" using d l by (simp add: distinct_swap)
  have "ti_index (set_index (int j) (?pq ! j) (set_index (int i) (?pq ! i) s) (?pq ! k)) = int k"
    if "k < length pq" for k
  proof -
    consider "k = j" | "k = i" "k \<noteq> j" | "k \<noteq> i" "k \<noteq> j" by blast
    then show ?thesis
      using d' l that ix [OF that] nth_eq_iff_index_eq [OF d', of k i] nth_eq_iff_index_eq [OF d', of k j]
      by cases simp_all
  qed
  then show ?thesis
    using assms(1) h d' by (simp add: PriorityQueue_Swap_def pq_inv_def Let_def)
qed

lemma Swap_contents:
  "i < PriorityQueue_Len h \<Longrightarrow> j < PriorityQueue_Len h \<Longrightarrow>
   pq_contents (PriorityQueue_Swap i j h) = (pq_contents h)[i := pq_contents h ! j, j := pq_contents h ! i]"
  by (cases h) (simp add: PriorityQueue_Swap_def pq_contents_def PriorityQueue_Len_def Let_def map_update)

lemma Push_law:
  "pq_inv base h \<Longrightarrow> r \<notin> set (snd h) \<Longrightarrow>
   pq_inv base (PriorityQueue_Push r h) \<and> pq_contents (PriorityQueue_Push r h) = pq_contents h @ [pq_elem r h]"
  by (cases h) (auto simp: PriorityQueue_Push_def pq_inv_def pq_contents_def pq_elem_def nth_append less_Suc_eq)

lemma Pop_law:
  assumes "pq_inv base h" and "0 < PriorityQueue_Len h"
  shows "pq_inv base (snd (PriorityQueue_Pop h)) \<and> pq_contents (snd (PriorityQueue_Pop h)) = butlast (pq_contents h) \<and>
         fst (PriorityQueue_Pop h) = snd (last (pq_contents h))"
proof -
  obtain s pq where h: "h = (s, pq)" by (cases h)
  with assms have ne: "pq \<noteq> []" and d: "distinct pq" by (auto simp: PriorityQueue_Len_def pq_inv_def)
  then have nl: "last pq \<notin> set (butlast pq)"
    by (metis append_butlast_last_id distinct_append disjoint_iff list.set_intros(1))
  have "pq ! k \<noteq> last pq" if "k < length pq - 1" for k
    using that d ne by (simp add: last_conv_nth nth_eq_iff_index_eq)
  then show ?thesis
    using assms h ne d nl
    by (auto simp: PriorityQueue_Pop_def pq_inv_def pq_contents_def nth_butlast distinct_butlast map_butlast last_map)
qed

interpretation pq: heap_queue PriorityQueue_Len PriorityQueue_Less PriorityQueue_Swap pq_contents "\<lambda>e. - fst e"
    "pq_inv base" PriorityQueue_Push PriorityQueue_Pop "\<lambda>r h. r \<notin> set (snd h)" pq_elem snd
  for base :: item_store
proof unfold_locales
  show "PriorityQueue_Len h = length (pq_contents h)" for h
    by (simp add: PriorityQueue_Len_def pq_contents_def)
  show "PriorityQueue_Less h i j = (- fst (pq_contents h ! i) < - fst (pq_contents h ! j))"
    if "i < PriorityQueue_Len h" "j < PriorityQueue_Len h" for i h j
    using that by (cases h) (simp add: PriorityQueue_Less_def PriorityQueue_Len_def pq_contents_def)
qed (use Swap_contents Swap_pq_inv Push_law Pop_law in blast)+

text \<open>The queue with its store: indices and heap order as they should be.\<close>

definition heap_ok :: "item_store \<Rightarrow> PriorityQueue \<Rightarrow> bool" where
  "heap_ok s q \<longleftrightarrow> pq.ok s (s, q)"

lemma heap_ok_base: "pq.ok base (s, q) \<Longrightarrow> heap_ok s q \<and> (\<forall>r. same_item (s r) (base r))"
  by (auto simp: heap_ok_def pq.ok_def pq_inv_def pq.keys_def)

lemma heap_ok_distinct: "heap_ok s q \<Longrightarrow> distinct q"
  by (simp add: heap_ok_def pq.ok_def pq_inv_def)

lemma heap_ok_index: "heap_ok s q \<Longrightarrow> r \<in> set q \<Longrightarrow> \<exists>i < length q. q ! i = r \<and> ti_index (s r) = int i"
  by (auto simp: heap_ok_def pq.ok_def pq_inv_def in_set_conv_nth)

lemma heap_ok_upd:
  assumes "heap_ok s q" and "r \<notin> set q"
  shows "heap_ok (s(r := x)) q"
proof -
  have ne: "q ! i \<noteq> r" if "i < length q" for i using assms(2) that by auto
  have "heap_order (pq.keys (s(r := x), q)) (length q)"
    by (rule heap_order_cong [of _ _ "pq.keys (s, q)"])
      (use assms ne in \<open>auto simp: heap_ok_def pq.ok_def pq.keys_def pq_contents_def PriorityQueue_Len_def\<close>)
  then show ?thesis
    using assms ne by (auto simp: heap_ok_def pq.ok_def pq_inv_def PriorityQueue_Len_def)
qed

lemma contents_mset:
  "mset (pq_contents (s, q)) = add_mset e (mset (pq_contents (s', q'))) \<Longrightarrow> mset q = add_mset (snd e) (mset q')"
proof -
  assume "mset (pq_contents (s, q)) = add_mset e (mset (pq_contents (s', q')))"
  then have "image_mset snd (mset (pq_contents (s, q))) = image_mset snd (add_mset e (mset (pq_contents (s', q'))))"
    by simp
  then show ?thesis by (simp add: pq_contents_def multiset.map_comp comp_def)
qed

lemma mset_remove_set:
  assumes "mset q = add_mset r (mset q')" and "distinct q"
  shows "set q' = set q - {r} \<and> r \<in> set q \<and> length q = Suc (length q')"
proof -
  have "distinct (r # q')" using assms by (metis distinct_count_atmost_1 mset.simps(2) mset_eq_imp_distinct_iff)
  moreover have "set q = insert r (set q')" using arg_cong [OF assms(1), of set_mset] by simp
  ultimately show ?thesis using arg_cong [OF assms(1), of size] by auto
qed

lemma pq_Push_ok:
  assumes "heap_ok s q" and "r \<notin> set q" and "pq_Push r (s, q) = (s', q')"
  shows "heap_ok s' q' \<and> set q' = insert r (set q) \<and> length q' = Suc (length q) \<and> (\<forall>x. same_item (s' x) (s x))"
proof -
  have "pq.ok s (s', q')" and m: "mset (pq_contents (s', q')) = add_mset (pq_elem r (s, q)) (mset (pq_contents (s, q)))"
    using pq.Push_correct [of s "(s, q)" r] assms by (auto simp: heap_ok_def pq_Push_def)
  moreover have "mset q' = add_mset r (mset q)"
    using contents_mset [OF m] by (simp add: pq_elem_def)
  then have "set q' = insert r (set q)" "length q' = Suc (length q)"
    by (metis set_mset_add_mset_insert set_mset_mset) (metis \<open>mset q' = _\<close> size_add_mset size_mset)
  ultimately show ?thesis using heap_ok_base by blast
qed

lemma pq_Remove_ok:
  assumes ok: "heap_ok s q" and r: "r \<in> set q"
  obtains s' q' where "pq_Remove (ti_index (s r)) (s, q) = Some (r, s', q')" and "heap_ok s' q'"
    and "set q' = set q - {r}" and "length q = Suc (length q')" and "\<And>x. same_item (s' x) (s x)"
proof -
  obtain i where i: "i < length q" "q ! i = r" "ti_index (s r) = int i" using heap_ok_index [OF ok r] by blast
  obtain x s' q' where rem: "heap_Remove PriorityQueue_Len PriorityQueue_Less PriorityQueue_Swap PriorityQueue_Pop i (s, q) = (x, s', q')"
    by (metis prod_cases3)
  have c: "pq_contents (s, q) ! i = (ti_priority (s r), r)" using i by (simp add: pq_contents_def)
  have p: "pq.ok s (s', q')" "x = r" "mset (pq_contents (s, q)) = add_mset (ti_priority (s r), r) (mset (pq_contents (s', q')))"
    using pq.Remove_correct [of s "(s, q)" i] ok i rem c by (auto simp: heap_ok_def PriorityQueue_Len_def)
  have "mset q = add_mset r (mset q')" using contents_mset [OF p(3)] by simp
  note q' = mset_remove_set [OF this heap_ok_distinct [OF ok]]
  show ?thesis
  proof (rule that)
    show "pq_Remove (ti_index (s r)) (s, q) = Some (r, s', q')"
      using i rem p(2) by (simp add: pq_Remove_def PriorityQueue_Len_def)
  qed (use heap_ok_base [OF p(1)] q' in auto)
qed

lemma pq_Pop_ok:
  assumes ok: "heap_ok s q" and ne: "q \<noteq> []"
  obtains r s' q' where "pq_Pop (s, q) = Some (r, s', q')" and "r \<in> set q" and "heap_ok s' q'"
    and "set q' = set q - {r}" and "length q = Suc (length q')" and "\<And>x. same_item (s' x) (s x)"
    and "\<And>x. x \<in> set q \<Longrightarrow> ti_priority (s x) \<le> ti_priority (s r)"
proof -
  obtain r s' q' where pop: "heap_Pop PriorityQueue_Len PriorityQueue_Less PriorityQueue_Swap PriorityQueue_Pop (s, q) = (r, s', q')"
    by (metis prod_cases3)
  have c: "pq_contents (s, q) ! 0 = (ti_priority (s (q ! 0)), q ! 0)" using ne by (simp add: pq_contents_def)
  have p: "pq.ok s (s', q')" "r = q ! 0"
    "mset (pq_contents (s, q)) = add_mset (ti_priority (s r), r) (mset (pq_contents (s', q')))"
    "\<And>e. e \<in> set (pq_contents (s', q')) \<Longrightarrow> fst e \<le> ti_priority (s r)"
    using pq.Pop_correct [of s "(s, q)"] ok ne pop c by (auto simp: heap_ok_def PriorityQueue_Len_def)
  have "mset q = add_mset r (mset q')" using contents_mset [OF p(3)] by simp
  note q' = mset_remove_set [OF this heap_ok_distinct [OF ok]]
  have same: "same_item (s' x) (s x)" for x using heap_ok_base [OF p(1)] by blast
  show ?thesis
  proof (rule that)
    show "pq_Pop (s, q) = Some (r, s', q')" using pop ne by (simp add: pq_Pop_def PriorityQueue_Len_def)
    show "ti_priority (s x) \<le> ti_priority (s r)" if "x \<in> set q" for x
    proof (cases "x = r")
      case False
      with that q' have "x \<in> set q'" by simp
      then have "(ti_priority (s' x), x) \<in> set (pq_contents (s', q'))" by (simp add: pq_contents_def)
      from p(4) [OF this] show ?thesis using same_item_fields [OF same] by simp
    qed simp
  qed (use heap_ok_base [OF p(1)] q' same in auto)
qed

section \<open>The invariant of the pool\<close>

abbreviation item_tx :: "TransactionPool \<Rightarrow> nat \<Rightarrow> Transaction" where
  "item_tx tp r \<equiv> ti_tx (tp_store tp r)"

text \<open>The queue and the map hold the same items, each found under its ID; an item's nonce is
  accounted for, its ID is listed under its sender, and no two items share sender and nonce.\<close>

definition item_ok :: "TransactionPool \<Rightarrow> nat \<Rightarrow> bool" where
  "item_ok tp r \<longleftrightarrow>
     tp_txMap tp (tx_ID (item_tx tp r)) = Some r \<and> r < tp_next tp \<and>
     0 \<le> ti_priority (tp_store tp r) \<and> ti_priority (tp_store tp r) \<le> 100 \<and>
     (\<exists>c. tp_accountNonces tp (tx_Sender (item_tx tp r)) = Some c \<and> tx_Nonce (item_tx tp r) \<le> c) \<and>
     (\<exists>S. tp_accountTxs tp (tx_Sender (item_tx tp r)) = Some S \<and> tx_ID (item_tx tp r) \<in> S)"

definition pool_inv :: "nat \<Rightarrow> TransactionPool \<Rightarrow> bool" where
  "pool_inv n tp \<longleftrightarrow>
     heap_ok (tp_store tp) (tp_pendingTxs tp) \<and>
     (\<forall>id r. tp_txMap tp id = Some r \<longrightarrow> r \<in> set (tp_pendingTxs tp) \<and> tx_ID (item_tx tp r) = id) \<and>
     (\<forall>r \<in> set (tp_pendingTxs tp). item_ok tp r) \<and>
     (\<forall>r \<in> set (tp_pendingTxs tp). \<forall>r' \<in> set (tp_pendingTxs tp).
        tx_Sender (item_tx tp r) = tx_Sender (item_tx tp r') \<and> tx_Nonce (item_tx tp r) = tx_Nonce (item_tx tp r') \<longrightarrow> r = r') \<and>
     int (length (tp_pendingTxs tp)) \<le> pm_TotalTxs (tp_poolMetrics tp) \<and> pm_TotalTxs (tp_poolMetrics tp) \<le> int n \<and>
     int (length (tp_pendingTxs tp)) \<le> max 0 (tp_maxPoolSize tp)"

text \<open>What taking one item out of the pool has to do to keep the invariant; the operations differ
  in what they do to \<open>accountTxs\<close> and the counters.\<close>

lemma pool_inv_remove:
  assumes inv: "pool_inv n tp" and r: "r \<in> set (tp_pendingTxs tp)"
    and st: "heap_ok (tp_store tp') (tp_pendingTxs tp')" "\<And>x. same_item (tp_store tp' x) (tp_store tp x)"
    and q: "set (tp_pendingTxs tp') = set (tp_pendingTxs tp) - {r}"
      "length (tp_pendingTxs tp) = Suc (length (tp_pendingTxs tp'))"
    and m: "tp_txMap tp' = (tp_txMap tp)(tx_ID (item_tx tp r) := None)"
    and acc: "\<And>a S x. tp_accountTxs tp a = Some S \<Longrightarrow> x \<in> S \<Longrightarrow> x \<noteq> tx_ID (item_tx tp r) \<Longrightarrow>
                \<exists>S'. tp_accountTxs tp' a = Some S' \<and> x \<in> S'"
    and rest: "tp_next tp' = tp_next tp" "tp_accountNonces tp' = tp_accountNonces tp"
      "tp_maxPoolSize tp' = tp_maxPoolSize tp"
    and tot: "int (length (tp_pendingTxs tp')) \<le> pm_TotalTxs (tp_poolMetrics tp')"
      "pm_TotalTxs (tp_poolMetrics tp') \<le> int n"
  shows "pool_inv n tp'"
proof -
  have tx: "item_tx tp' x = item_tx tp x" and pr: "ti_priority (tp_store tp' x) = ti_priority (tp_store tp x)" for x
    using same_item_fields [OF st(2)] by auto
  have id: "tx_ID (item_tx tp x) \<noteq> tx_ID (item_tx tp r)" if "x \<in> set (tp_pendingTxs tp')" for x
    using inv r that q unfolding pool_inv_def item_ok_def by (metis DiffD1 DiffD2 option.inject singletonI)
  have "item_ok tp' x" if x: "x \<in> set (tp_pendingTxs tp')" for x
  proof -
    have i: "item_ok tp x" using inv x q by (simp add: pool_inv_def)
    moreover obtain S where "tp_accountTxs tp (tx_Sender (item_tx tp x)) = Some S" "tx_ID (item_tx tp x) \<in> S"
      using i by (auto simp: item_ok_def)
    from acc [OF this id [OF x]] i show ?thesis
      using id [OF x] by (simp add: item_ok_def tx pr m rest)
  qed
  moreover have "x \<in> set (tp_pendingTxs tp') \<and> tx_ID (item_tx tp' x) = i" if "tp_txMap tp' i = Some x" for i x
    using that inv q m unfolding pool_inv_def by (auto simp: tx split: if_splits)
  ultimately show ?thesis
    using inv st q rest tot unfolding pool_inv_def by (simp add: tx)
qed

lemma delete_accountTx_keeps:
  "m a = Some S \<Longrightarrow> x \<in> S \<Longrightarrow> x \<noteq> i \<Longrightarrow> \<exists>S'. delete_accountTx b i m a = Some S' \<and> x \<in> S'"
  by (auto simp: delete_accountTx_def split: option.splits)

lemmas pool_inv_parts = pool_inv_def item_ok_def

lemma pool_inv_heap: "pool_inv n tp \<Longrightarrow> heap_ok (tp_store tp) (tp_pendingTxs tp)"
  by (simp add: pool_inv_def)

lemma pool_inv_txMap:
  "pool_inv n tp \<Longrightarrow> tp_txMap tp i = Some r \<Longrightarrow> r \<in> set (tp_pendingTxs tp) \<and> tx_ID (item_tx tp r) = i"
  by (simp add: pool_inv_def)

lemma pool_inv_total:
  "pool_inv n tp \<Longrightarrow> int (length (tp_pendingTxs tp)) \<le> pm_TotalTxs (tp_poolMetrics tp) \<and>
                     pm_TotalTxs (tp_poolMetrics tp) \<le> int n"
  by (simp add: pool_inv_def)

lemma evict_loop_inv:
  "pool_inv n tp \<Longrightarrow> \<exists>tp'. evict_loop k tp = Some tp' \<and> pool_inv n tp' \<and>
     length (tp_pendingTxs tp') = length (tp_pendingTxs tp) - k \<and> tp_maxPoolSize tp' = tp_maxPoolSize tp \<and>
     tp_poolMetrics tp' = tp_poolMetrics tp \<and> tp_accountNonces tp' = tp_accountNonces tp \<and>
     set (tp_pendingTxs tp') \<subseteq> set (tp_pendingTxs tp) \<and> (\<forall>x. same_item (tp_store tp' x) (tp_store tp x)) \<and>
     (\<forall>x \<in> set (tp_pendingTxs tp). \<forall>y \<in> set (tp_pendingTxs tp). x \<notin> set (tp_pendingTxs tp') \<and> y \<in> set (tp_pendingTxs tp') \<longrightarrow>
        ti_priority (tp_store tp y) \<le> ti_priority (tp_store tp x))"
proof (induction k arbitrary: tp)
  case (Suc k)
  show ?case
  proof (cases "tp_pendingTxs tp = []")
    case False
    obtain r s q where pop: "pq_Pop (tp_store tp, tp_pendingTxs tp) = Some (r, s, q)" and r: "r \<in> set (tp_pendingTxs tp)"
      and q: "heap_ok s q" "set q = set (tp_pendingTxs tp) - {r}" "length (tp_pendingTxs tp) = Suc (length q)"
      and s: "\<And>x. same_item (s x) (tp_store tp x)"
      and top: "\<And>x. x \<in> set (tp_pendingTxs tp) \<Longrightarrow> ti_priority (tp_store tp x) \<le> ti_priority (tp_store tp r)"
      using pq_Pop_ok [OF pool_inv_heap [OF Suc.prems] False] by blast
    have tx: "ti_tx (s x) = item_tx tp x" "ti_priority (s x) = ti_priority (tp_store tp x)" for x
      using same_item_fields [OF s] by auto
    define tp1 where "tp1 = tp\<lparr>tp_store := s, tp_pendingTxs := q,
        tp_txMap := (tp_txMap tp)(tx_ID (item_tx tp r) := None),
        tp_accountTxs := delete_accountTx (tx_Sender (item_tx tp r)) (tx_ID (item_tx tp r)) (tp_accountTxs tp),
        tp_totalEvicted := tp_totalEvicted tp + 1\<rparr>"
    have "pool_inv n tp1"
      by (rule pool_inv_remove [OF Suc.prems r])
        (use q s pool_inv_total [OF Suc.prems] delete_accountTx_keeps in \<open>auto simp: tp1_def\<close>)
    from Suc.IH [OF this] obtain tp' where tp': "evict_loop k tp1 = Some tp'" "pool_inv n tp'"
      "length (tp_pendingTxs tp') = length q - k" "tp_maxPoolSize tp' = tp_maxPoolSize tp"
      "tp_poolMetrics tp' = tp_poolMetrics tp" "tp_accountNonces tp' = tp_accountNonces tp" "set (tp_pendingTxs tp') \<subseteq> set q"
      "\<And>x. same_item (tp_store tp' x) (s x)"
      "\<And>x y. x \<in> set q \<Longrightarrow> y \<in> set q \<Longrightarrow> x \<notin> set (tp_pendingTxs tp') \<Longrightarrow> y \<in> set (tp_pendingTxs tp') \<Longrightarrow>
         ti_priority (tp_store tp y) \<le> ti_priority (tp_store tp x)"
      by (auto simp: tp1_def tx)
    have "evict_loop (Suc k) tp = Some tp'"
      using False pop tp'(1) by (simp add: tx tp1_def Let_def)
    moreover have "ti_priority (tp_store tp y) \<le> ti_priority (tp_store tp x)"
      if "x \<in> set (tp_pendingTxs tp)" "y \<in> set (tp_pendingTxs tp)" "x \<notin> set (tp_pendingTxs tp')" "y \<in> set (tp_pendingTxs tp')" for x y
      using that tp'(7,9) q(2) top [OF that(2)] by (cases "x = r") auto
    moreover have "same_item (tp_store tp' x) (tp_store tp x)" for x
      using tp'(8) s by (rule same_item_trans)
    ultimately show ?thesis using tp' q(2,3) by auto
  qed (use Suc.prems in auto)
qed auto

lemma adjustFees_frame [simp]:
  "tp_store (TransactionPool_adjustFeesBasedOnLoad l tp) = tp_store tp"
  "tp_pendingTxs (TransactionPool_adjustFeesBasedOnLoad l tp) = tp_pendingTxs tp"
  "tp_poolMetrics (TransactionPool_adjustFeesBasedOnLoad l tp) = tp_poolMetrics tp"
  "tp_maxPoolSize (TransactionPool_adjustFeesBasedOnLoad l tp) = tp_maxPoolSize tp"
  "tp_accountNonces (TransactionPool_adjustFeesBasedOnLoad l tp) = tp_accountNonces tp"
  by (simp_all add: TransactionPool_adjustFeesBasedOnLoad_def Let_def)

lemma adjustFees_inv: "pool_inv n (TransactionPool_adjustFeesBasedOnLoad l tp) = pool_inv n tp"
  by (simp add: pool_inv_parts TransactionPool_adjustFeesBasedOnLoad_def Let_def)

lemma optimizePool_inv:
  assumes "pool_inv n tp"
  shows "\<exists>tp'. TransactionPool_optimizePool env tp = Some tp' \<and> pool_inv n tp' \<and> tp_maxPoolSize tp' = tp_maxPoolSize tp \<and>
           tp_accountNonces tp' = tp_accountNonces tp \<and>
           length (tp_pendingTxs tp') =
             min (length (tp_pendingTxs tp)) (nat (pool_target (pe_conv env) (tp_maxPoolSize tp))) \<and>
           set (tp_pendingTxs tp') \<subseteq> set (tp_pendingTxs tp) \<and> (\<forall>x. same_item (tp_store tp' x) (tp_store tp x)) \<and>
           (\<forall>x \<in> set (tp_pendingTxs tp). \<forall>y \<in> set (tp_pendingTxs tp). x \<notin> set (tp_pendingTxs tp') \<and> y \<in> set (tp_pendingTxs tp') \<longrightarrow>
              ti_priority (tp_store tp y) \<le> ti_priority (tp_store tp x))"
proof (cases "int (length (tp_pendingTxs tp)) \<le> pool_target (pe_conv env) (tp_maxPoolSize tp)")
  case True
  then show ?thesis using assms by (auto simp: TransactionPool_optimizePool_def)
next
  case False
  define k where "k = nat (int (length (tp_pendingTxs tp)) - pool_target (pe_conv env) (tp_maxPoolSize tp))"
  obtain tp1 where e: "evict_loop k (TransactionPool_adjustFeesBasedOnLoad (pe_netLoad env) tp) = Some tp1"
    and inv: "pool_inv n tp1" and l: "length (tp_pendingTxs tp1) = length (tp_pendingTxs tp) - k"
    and m: "tp_maxPoolSize tp1 = tp_maxPoolSize tp" "tp_poolMetrics tp1 = tp_poolMetrics tp"
      "tp_accountNonces tp1 = tp_accountNonces tp"
    and s: "set (tp_pendingTxs tp1) \<subseteq> set (tp_pendingTxs tp)" "\<And>x. same_item (tp_store tp1 x) (tp_store tp x)"
      "\<And>x y. x \<in> set (tp_pendingTxs tp) \<Longrightarrow> y \<in> set (tp_pendingTxs tp) \<Longrightarrow> x \<notin> set (tp_pendingTxs tp1) \<Longrightarrow>
         y \<in> set (tp_pendingTxs tp1) \<Longrightarrow> ti_priority (tp_store tp y) \<le> ti_priority (tp_store tp x)"
    using evict_loop_inv [of n "TransactionPool_adjustFeesBasedOnLoad (pe_netLoad env) tp" k] assms
    by (auto simp: adjustFees_inv)
  let ?tp = "tp1\<lparr>tp_poolMetrics := (tp_poolMetrics tp1)\<lparr>pm_LastOptimizationTime := pe_clock env 0,
                        pm_TotalTxs := int (length (tp_pendingTxs tp1))\<rparr>\<rparr>"
  have "pool_inv n ?tp"
    using inv pool_inv_total [OF inv] by (simp add: pool_inv_parts)
  moreover have "TransactionPool_optimizePool env tp = Some ?tp"
    using False e by (simp add: TransactionPool_optimizePool_def Let_def k_def)
  moreover have "length (tp_pendingTxs tp1) = min (length (tp_pendingTxs tp)) (nat (pool_target (pe_conv env) (tp_maxPoolSize tp)))"
    using l False by (simp add: k_def)
  ultimately show ?thesis using m s by auto
qed

lemma calculatePriority_range:
  "0 \<le> TransactionPool_calculatePriority env tx \<and> TransactionPool_calculatePriority env tx \<le> 100"
  by (simp add: TransactionPool_calculatePriority_def Let_def)

lemma validateTransaction_nonce:
  "TransactionPool_validateTransaction env tx tp = None \<Longrightarrow> tp_accountNonces tp (tx_Sender tx) = Some c \<Longrightarrow> c < tx_Nonce tx"
  by (auto simp: TransactionPool_validateTransaction_def Let_def split: option.splits if_splits sum.splits)

lemma pool_insert_inv:
  assumes inv: "pool_inv n tp" and n: "int (Suc n) < 2 ^ 63" and new: "tp_txMap tp (tx_ID tx) = None"
    and valid: "TransactionPool_validateTransaction env tx tp = None"
    and room: "int (length (tp_pendingTxs tp)) < tp_maxPoolSize tp"
  shows "\<exists>tp'. pool_insert env tx tp = Some tp' \<and> pool_inv (Suc n) tp' \<and>
           (\<exists>r. tp_txMap tp' = (tp_txMap tp)(tx_ID tx \<mapsto> r) \<and> item_tx tp' r = tx) \<and>
           (\<forall>x \<in> set (tp_pendingTxs tp). item_tx tp' x = item_tx tp x) \<and>
           length (tp_pendingTxs tp') = Suc (length (tp_pendingTxs tp))"
proof -
  let ?r = "tp_next tp" and ?m = "tp_poolMetrics tp"
  let ?item = "\<lparr>ti_tx = tx, ti_priority = TransactionPool_calculatePriority env tx, ti_index = 0,
                 ti_insertTime = pe_clock env 4, ti_size = estimateTransactionSize tx\<rparr>"
  let ?s0 = "(tp_store tp)(?r := ?item)"
  obtain s q where push: "pq_Push ?r (?s0, tp_pendingTxs tp) = (s, q)" by fastforce
  have fresh: "?r \<notin> set (tp_pendingTxs tp)" using inv by (auto simp: pool_inv_def item_ok_def)
  then have "heap_ok ?s0 (tp_pendingTxs tp)" by (rule heap_ok_upd [OF pool_inv_heap [OF inv]])
  note p = pq_Push_ok [OF this fresh push]
  have tx: "ti_tx (s x) = (if x = ?r then tx else item_tx tp x)"
    and pr: "ti_priority (s x) = (if x = ?r then TransactionPool_calculatePriority env tx else ti_priority (tp_store tp x))" for x
    using p same_item_fields [of "s x" "?s0 x"] by (auto split: if_splits)
  have tot: "i64 (pm_TotalTxs ?m + 1) = pm_TotalTxs ?m + 1"
    using pool_inv_total [OF inv] n by (intro i64_id) auto
  then have nz: "i64 (pm_TotalTxs ?m + 1) \<noteq> 0" using pool_inv_total [OF inv] by auto
  let ?acc = "add_accountTx (tx_Sender tx) (tx_ID tx) (tp_accountTxs tp)"
  obtain tp' where ins: "pool_insert env tx tp = Some tp'"
    and f: "tp_store tp' = s" "tp_pendingTxs tp' = q" "tp_next tp' = Suc ?r" "tp_txMap tp' = (tp_txMap tp)(tx_ID tx \<mapsto> ?r)"
      "tp_maxPoolSize tp' = tp_maxPoolSize tp" "pm_TotalTxs (tp_poolMetrics tp') = pm_TotalTxs ?m + 1"
    and nonces: "tp_accountNonces tp' = (tp_accountNonces tp)(tx_Sender tx \<mapsto> tx_Nonce tx)"
    and txs: "tp_accountTxs tp' = (if tx_SmartContractID tx \<noteq> [] then add_accountTx (tx_SmartContractID tx) (tx_ID tx) ?acc else ?acc)"
    using nz push tot validateTransaction_nonce [OF valid]
    by (cases "tp_accountNonces tp (tx_Sender tx)") (simp_all add: pool_insert_def Let_def)
  have acc: "\<exists>S. tp_accountTxs tp' (tx_Sender tx) = Some S \<and> tx_ID tx \<in> S"
      "\<And>a S x. tp_accountTxs tp a = Some S \<Longrightarrow> x \<in> S \<Longrightarrow> \<exists>S'. tp_accountTxs tp' a = Some S' \<and> x \<in> S'"
    unfolding txs by (auto simp: add_accountTx_def split: option.splits)
  have old: "item_ok tp' x" if "x \<in> set (tp_pendingTxs tp)" for x
  proof -
    have x: "item_ok tp x" "x \<noteq> ?r" using inv that fresh by (auto simp: pool_inv_def)
    then have "tx_ID (item_tx tp x) \<noteq> tx_ID tx" using new by (auto simp: item_ok_def)
    moreover obtain S where "tp_accountTxs tp (tx_Sender (item_tx tp x)) = Some S" "tx_ID (item_tx tp x) \<in> S"
      using x by (auto simp: item_ok_def)
    note acc(2) [OF this]
    moreover have "\<exists>c. tp_accountNonces tp' (tx_Sender (item_tx tp x)) = Some c \<and> tx_Nonce (item_tx tp x) \<le> c"
      using x(1) validateTransaction_nonce [OF valid] by (force simp: item_ok_def nonces)
    ultimately show ?thesis using x by (simp add: item_ok_def f tx pr)
  qed
  have "item_ok tp' ?r"
    using acc(1) calculatePriority_range by (simp add: item_ok_def f tx pr nonces)
  then have items: "\<forall>x \<in> set q. item_ok tp' x" using old p by auto
  have less: "tx_Nonce (item_tx tp x) < tx_Nonce tx" if "x \<in> set (tp_pendingTxs tp)" "tx_Sender (item_tx tp x) = tx_Sender tx" for x
    using that inv validateTransaction_nonce [OF valid] by (force simp: pool_inv_def item_ok_def)
  have "pool_inv (Suc n) tp'"
    unfolding pool_inv_def f
  proof (intro conjI)
    show "heap_ok s q" using p by blast
    show "\<forall>id r. ((tp_txMap tp)(tx_ID tx \<mapsto> ?r)) id = Some r \<longrightarrow> r \<in> set q \<and> tx_ID (ti_tx (s r)) = id"
      using inv p fresh by (auto simp: tx pool_inv_def)
    show "\<forall>r\<in>set q. \<forall>r'\<in>set q. tx_Sender (ti_tx (s r)) = tx_Sender (ti_tx (s r')) \<and>
            tx_Nonce (ti_tx (s r)) = tx_Nonce (ti_tx (s r')) \<longrightarrow> r = r'"
    proof (intro ballI impI)
      fix x y assume xy: "x \<in> set q" "y \<in> set q" and same: "tx_Sender (ti_tx (s x)) = tx_Sender (ti_tx (s y)) \<and>
        tx_Nonce (ti_tx (s x)) = tx_Nonce (ti_tx (s y))"
      have uniq: "\<lbrakk>x \<in> set (tp_pendingTxs tp); y \<in> set (tp_pendingTxs tp);
          tx_Sender (item_tx tp x) = tx_Sender (item_tx tp y); tx_Nonce (item_tx tp x) = tx_Nonce (item_tx tp y)\<rbrakk> \<Longrightarrow> x = y"
        using inv unfolding pool_inv_def by blast
      show "x = y"
        using xy same p uniq less [of x] less [of y] fresh by (cases "x = ?r"; cases "y = ?r") (auto simp: tx)
    qed
  qed (use inv p items room in \<open>auto simp: pool_inv_def\<close>)
  then show ?thesis using ins f p fresh by (auto simp: tx)
qed

lemma pool_inv_Suc: "pool_inv n tp \<Longrightarrow> pool_inv (Suc n) tp"
  by (simp add: pool_inv_def)

lemma AddTransaction_inv:
  assumes inv: "pool_inv n tp" and n: "int (Suc n) < 2 ^ 63"
  shows "\<exists>e tp'. TransactionPool_AddTransaction env tx tp = Some (e, tp') \<and> pool_inv (Suc n) tp' \<and>
           (e = None \<longrightarrow> (\<exists>r. tp_txMap tp' (tx_ID tx) = Some r \<and> item_tx tp' r = tx)) \<and>
           (\<forall>i r. tp_txMap tp' i = Some r \<longrightarrow> e = None \<and> item_tx tp' r = tx \<or>
              tp_txMap tp i = Some r \<and> item_tx tp' r = item_tx tp r)"
proof (cases "tp_txMap tp (tx_ID tx)")
  case (Some r)
  then show ?thesis using pool_inv_Suc [OF inv] by (simp add: TransactionPool_AddTransaction_def)
next
  case new: None
  let ?full = "int (length (tp_pendingTxs tp)) \<ge> tp_maxPoolSize tp"
  obtain tp1 where tp1: "(if ?full then TransactionPool_optimizePool env tp else Some tp) = Some tp1"
    and inv1: "pool_inv n tp1" and max: "tp_maxPoolSize tp1 = tp_maxPoolSize tp"
    and sub: "set (tp_pendingTxs tp1) \<subseteq> set (tp_pendingTxs tp)" "\<And>x. same_item (tp_store tp1 x) (tp_store tp x)"
    using inv optimizePool_inv [OF inv, of env] by (cases ?full) auto
  have st: "tx_ID (item_tx tp1 x) \<noteq> tx_ID tx" if "x \<in> set (tp_pendingTxs tp1)" for x
  proof -
    have "item_ok tp x" using inv that sub(1) by (auto simp: pool_inv_def)
    then have "tp_txMap tp (tx_ID (item_tx tp x)) = Some x" by (simp add: item_ok_def)
    then show ?thesis using new same_item_fields [OF sub(2)] by auto
  qed
  have new1: "tp_txMap tp1 (tx_ID tx) = None"
    using pool_inv_txMap [OF inv1, of "tx_ID tx"] st by (cases "tp_txMap tp1 (tx_ID tx)") auto
  have old: "tp_txMap tp i = Some r \<and> item_tx tp1 r = item_tx tp r" if "tp_txMap tp1 i = Some r" for i r
  proof -
    have r: "r \<in> set (tp_pendingTxs tp1)" "tx_ID (item_tx tp1 r) = i" using pool_inv_txMap [OF inv1 that] by auto
    then have "item_ok tp r" using inv sub(1) by (auto simp: pool_inv_def)
    then show ?thesis using r(2) same_item_fields [OF sub(2)] by (simp add: item_ok_def)
  qed
  consider (full) "?full" "int (length (tp_pendingTxs tp1)) \<ge> tp_maxPoolSize tp1"
    | (bad) err where "\<not> (?full \<and> int (length (tp_pendingTxs tp1)) \<ge> tp_maxPoolSize tp1)"
        "TransactionPool_validateTransaction env tx tp1 = Some err"
    | (good) "\<not> (?full \<and> int (length (tp_pendingTxs tp1)) \<ge> tp_maxPoolSize tp1)"
        "TransactionPool_validateTransaction env tx tp1 = None" by (cases "TransactionPool_validateTransaction env tx tp1") auto
  then show ?thesis
  proof cases
    case full
    then show ?thesis using new tp1 pool_inv_Suc [OF inv1] old by (auto simp: TransactionPool_AddTransaction_def)
  next
    case bad
    let ?tp = "tp1\<lparr>tp_poolMetrics := (tp_poolMetrics tp1)\<lparr>pm_InvalidTxs := i64 (pm_InvalidTxs (tp_poolMetrics tp1) + 1)\<rparr>\<rparr>"
    have "pool_inv (Suc n) ?tp" using pool_inv_Suc [OF inv1] by (simp add: pool_inv_parts)
    moreover have "TransactionPool_AddTransaction env tx tp = Some (Some (ErrInvalidTx err), ?tp)"
      unfolding TransactionPool_AddTransaction_def using new tp1 bad by (simp only: simp_thms option.simps if_False not_not split: if_splits)
    ultimately show ?thesis using old by auto
  next
    case good
    then have "int (length (tp_pendingTxs tp1)) < tp_maxPoolSize tp1"
      using tp1 max by (auto split: if_splits)
    from pool_insert_inv [OF inv1 n new1 good(2) this] obtain tp2 r where
      "pool_insert env tx tp1 = Some tp2" "pool_inv (Suc n) tp2" "tp_txMap tp2 = (tp_txMap tp1)(tx_ID tx \<mapsto> r)" "item_tx tp2 r = tx"
      "\<And>x. x \<in> set (tp_pendingTxs tp1) \<Longrightarrow> item_tx tp2 x = item_tx tp1 x"
      by auto
    moreover have "TransactionPool_AddTransaction env tx tp = Some (None, tp2)"
      unfolding TransactionPool_AddTransaction_def using new tp1 good calculation(1) by (simp only: simp_thms option.simps if_False not_not split: if_splits)
    moreover have "item_tx tp2 x = tx \<or> tp_txMap tp i = Some x \<and> item_tx tp2 x = item_tx tp x" if "tp_txMap tp2 i = Some x" for i x
      using that calculation(3-5) old pool_inv_txMap [OF inv1] by (auto split: if_splits)
    ultimately show ?thesis by auto
  qed
qed

lemma AddTransaction_accepted:
  assumes inv: "pool_inv n tp" and add: "TransactionPool_AddTransaction env tx tp = Some (None, tp1)"
  shows "\<forall>c. tp_accountNonces tp (tx_Sender tx) = Some c \<longrightarrow> c < tx_Nonce tx" and "tx_Sender tx \<noteq> []"
proof -
  obtain tp0 where v: "TransactionPool_validateTransaction env tx tp0 = None"
    and nonces: "tp_accountNonces tp0 = tp_accountNonces tp"
    using add optimizePool_inv [OF inv, of env]
    by (auto simp: TransactionPool_AddTransaction_def split: if_splits option.splits)
  show "\<forall>c. tp_accountNonces tp (tx_Sender tx) = Some c \<longrightarrow> c < tx_Nonce tx"
    using validateTransaction_nonce [OF v] nonces by simp
  show "tx_Sender tx \<noteq> []"
    using v by (auto simp: TransactionPool_validateTransaction_def ValidateTransaction_def Transaction_Validate_def
        split: if_splits option.splits)
qed

text \<open>The common part of the operations that remove an item by its ID.\<close>

definition takes_out :: "string \<Rightarrow> TransactionPool \<Rightarrow> item_store \<Rightarrow> PriorityQueue \<Rightarrow> TransactionPool \<Rightarrow> bool" where
  "takes_out i tp s q tp' \<longleftrightarrow>
     tp_store tp' = s \<and> tp_pendingTxs tp' = q \<and> tp_txMap tp' = (tp_txMap tp)(i := None) \<and>
     (\<forall>a S x. tp_accountTxs tp a = Some S \<longrightarrow> x \<in> S \<longrightarrow> x \<noteq> i \<longrightarrow> (\<exists>S'. tp_accountTxs tp' a = Some S' \<and> x \<in> S')) \<and>
     tp_next tp' = tp_next tp \<and> tp_accountNonces tp' = tp_accountNonces tp \<and> tp_maxPoolSize tp' = tp_maxPoolSize tp"

lemma pool_remove_obtain:
  assumes inv: "pool_inv n tp" and i: "tp_txMap tp i = Some r"
  obtains s q x where "pq_Remove (ti_index (tp_store tp r)) (tp_store tp, tp_pendingTxs tp) = Some (x, s, q)"
    and "length (tp_pendingTxs tp) = Suc (length q)" and "\<And>x. same_item (s x) (tp_store tp x)"
    and "\<And>tp'. takes_out i tp s q tp' \<Longrightarrow> int (length q) \<le> pm_TotalTxs (tp_poolMetrics tp') \<Longrightarrow>
          pm_TotalTxs (tp_poolMetrics tp') \<le> int n \<Longrightarrow> pool_inv n tp'"
proof -
  have r: "r \<in> set (tp_pendingTxs tp)" and id: "tx_ID (item_tx tp r) = i"
    using pool_inv_txMap [OF inv i] by auto
  obtain s q where p: "pq_Remove (ti_index (tp_store tp r)) (tp_store tp, tp_pendingTxs tp) = Some (r, s, q)" "heap_ok s q"
    "set q = set (tp_pendingTxs tp) - {r}" "length (tp_pendingTxs tp) = Suc (length q)" "\<And>x. same_item (s x) (tp_store tp x)"
    using pq_Remove_ok [OF pool_inv_heap [OF inv] r] by metis
  show ?thesis
  proof (rule that [OF p(1,4,5)])
    fix tp' assume "takes_out i tp s q tp'"
      "int (length q) \<le> pm_TotalTxs (tp_poolMetrics tp')" "pm_TotalTxs (tp_poolMetrics tp') \<le> int n"
    then show "pool_inv n tp'"
      using p id by (intro pool_inv_remove [OF inv r]) (auto simp: takes_out_def)
  qed
qed

lemma RemoveTransaction_inv:
  assumes inv: "pool_inv n tp" and n: "int n < 2 ^ 63"
  shows "\<exists>e tp'. TransactionPool_RemoveTransaction i tp = Some (e, tp') \<and> pool_inv n tp' \<and>
           (\<forall>x. same_item (tp_store tp' x) (tp_store tp x)) \<and> tp_txMap tp' = (tp_txMap tp)(i := None) \<and>
           (e = None \<longleftrightarrow> tp_txMap tp i \<noteq> None)"
proof (cases "tp_txMap tp i")
  case None
  then show ?thesis using inv by (simp add: TransactionPool_RemoveTransaction_def fun_upd_idem)
next
  case (Some r)
  obtain s q x where
    rem: "pq_Remove (ti_index (tp_store tp r)) (tp_store tp, tp_pendingTxs tp) = Some (x, s, q)"
    and l: "length (tp_pendingTxs tp) = Suc (length q)" and same: "\<And>x. same_item (s x) (tp_store tp x)"
    and inv': "\<And>tp'. takes_out i tp s q tp' \<Longrightarrow> int (length q) \<le> pm_TotalTxs (tp_poolMetrics tp') \<Longrightarrow>
          pm_TotalTxs (tp_poolMetrics tp') \<le> int n \<Longrightarrow> pool_inv n tp'"
    by (rule pool_remove_obtain [OF inv Some]) (rule that)
  let ?m = "tp_poolMetrics tp" and ?tx = "item_tx tp r"
  have tot: "i64 (pm_TotalTxs ?m - 1) = pm_TotalTxs ?m - 1"
    using pool_inv_total [OF inv] n by (intro i64_id) auto
  define accs where "accs = (if tx_SmartContractID ?tx \<noteq> []
        then delete_accountTx (tx_SmartContractID ?tx) i (delete_accountTx (tx_Sender ?tx) i (tp_accountTxs tp))
        else delete_accountTx (tx_Sender ?tx) i (tp_accountTxs tp))"
  have keep: "\<exists>S'. accs a = Some S' \<and> x \<in> S'" if S: "tp_accountTxs tp a = Some S" "x \<in> S" "x \<noteq> i" for a S x
  proof -
    obtain S1 where S1: "delete_accountTx (tx_Sender ?tx) i (tp_accountTxs tp) a = Some S1" "x \<in> S1"
      using delete_accountTx_keeps [of "tp_accountTxs tp" a S x i "tx_Sender ?tx"] S by blast
    then show ?thesis
      using delete_accountTx_keeps [of "delete_accountTx (tx_Sender ?tx) i (tp_accountTxs tp)" a S1 x i "tx_SmartContractID ?tx"] S(3)
      by (simp add: accs_def)
  qed
  let ?tp = "tp\<lparr>tp_store := s, tp_pendingTxs := q, tp_txMap := (tp_txMap tp)(i := None), tp_accountTxs := accs,
      tp_poolMetrics := ?m\<lparr>pm_TotalTxs := i64 (pm_TotalTxs ?m - 1), pm_TotalFees := f64_sub (pm_TotalFees ?m) (tx_Fee ?tx)\<rparr>,
      tp_totalRemoved := tp_totalRemoved tp + 1\<rparr>"
  have "pool_inv n ?tp"
    using keep tot l pool_inv_total [OF inv] by (intro inv') (simp_all add: takes_out_def)
  moreover have "TransactionPool_RemoveTransaction i tp = Some (None, ?tp)"
    using Some rem by (simp add: TransactionPool_RemoveTransaction_def Let_def accs_def)
  ultimately show ?thesis using same Some by simp
qed

lemma remove_expired_inv:
  "pool_inv n tp \<Longrightarrow>
   \<exists>tp'. remove_expired ids tp = Some tp' \<and> pool_inv n tp' \<and>
     (\<forall>x. same_item (tp_store tp' x) (tp_store tp x)) \<and> tp_txMap tp' = tp_txMap tp |` (- set ids)"
proof (induction ids arbitrary: tp)
  case (Cons i ids)
  show ?case
  proof (cases "tp_txMap tp i")
    case None
    then have "tp_txMap tp |` (- set ids) = tp_txMap tp |` (- set (i # ids))"
      by (auto simp: restrict_map_def fun_eq_iff)
    then show ?thesis using Cons.IH [OF Cons.prems] None by auto
  next
    case (Some r)
    obtain s q x where
      rem: "pq_Remove (ti_index (tp_store tp r)) (tp_store tp, tp_pendingTxs tp) = Some (x, s, q)"
      and l: "length (tp_pendingTxs tp) = Suc (length q)" and same: "\<And>x. same_item (s x) (tp_store tp x)"
      and inv': "\<And>tp'. takes_out i tp s q tp' \<Longrightarrow> int (length q) \<le> pm_TotalTxs (tp_poolMetrics tp') \<Longrightarrow>
            pm_TotalTxs (tp_poolMetrics tp') \<le> int n \<Longrightarrow> pool_inv n tp'"
      by (rule pool_remove_obtain [OF Cons.prems Some]) (rule that)
    let ?tp = "tp\<lparr>tp_store := s, tp_pendingTxs := q, tp_txMap := (tp_txMap tp)(i := None),
        tp_accountTxs := delete_accountTx (tx_Sender (item_tx tp r)) i (tp_accountTxs tp)\<rparr>"
    have "pool_inv n ?tp"
      using l pool_inv_total [OF Cons.prems] delete_accountTx_keeps
      by (intro inv') (auto simp: takes_out_def)
    from Cons.IH [OF this] obtain tp' where tp': "remove_expired ids ?tp = Some tp'" "pool_inv n tp'"
      "\<forall>x. same_item (tp_store tp' x) (tp_store ?tp x)" "tp_txMap tp' = tp_txMap ?tp |` (- set ids)" by blast
    have "same_item (tp_store tp' x) (tp_store tp x)" for x
      using tp'(3) same [of x] same_item_trans by fastforce
    moreover have "(tp_txMap tp)(i := None) |` (- set ids) = tp_txMap tp |` (- set (i # ids))"
      by (auto simp: restrict_map_def fun_eq_iff)
    ultimately show ?thesis using Some rem tp' by simp
  qed
qed (auto simp: restrict_map_def fun_eq_iff)

section \<open>Conflicts cannot arise\<close>

lemma AList_update_new: "k \<notin> fst ` set xs \<Longrightarrow> AList.update k v xs = xs @ [(k, v)]"
  by (induction xs) auto

definition conflict_entry :: "TransactionPool \<Rightarrow> string \<Rightarrow> string \<times> (string \<times> nat) list" where
  "conflict_entry tp i =
     (let r = the (tp_txMap tp i) in (conflict_key (item_tx tp r), [(tx_ID (item_tx tp r), r)]))"

lemma conflict_key_inj:
  assumes inv: "pool_inv n tp" and "tp_txMap tp i = Some r" and "tp_txMap tp j = Some r'"
    and "conflict_key (item_tx tp r) = conflict_key (item_tx tp r')"
  shows "i = j"
proof -
  have "tx_Sender (item_tx tp r) = tx_Sender (item_tx tp r') \<and> tx_Nonce (item_tx tp r) = tx_Nonce (item_tx tp r')"
    using colon_key_inj assms(4) unfolding conflict_key_def by blast
  moreover have "r \<in> set (tp_pendingTxs tp)" "r' \<in> set (tp_pendingTxs tp)"
    "tx_ID (item_tx tp r) = i" "tx_ID (item_tx tp r') = j"
    using pool_inv_txMap [OF inv] assms(2,3) by blast+
  ultimately have "r = r'" using inv unfolding pool_inv_def by blast
  then show ?thesis using \<open>tx_ID (item_tx tp r) = i\<close> \<open>tx_ID (item_tx tp r') = j\<close> by simp
qed

lemma group_conflicts_single:
  "pool_inv n tp \<Longrightarrow> distinct (seen @ ids) \<Longrightarrow> set (seen @ ids) \<subseteq> dom (tp_txMap tp) \<Longrightarrow>
   group_conflicts tp ids (map (conflict_entry tp) seen) = map (conflict_entry tp) (seen @ ids)"
proof (induction ids arbitrary: seen)
  case (Cons i ids)
  obtain r where r: "tp_txMap tp i = Some r" using Cons.prems by auto
  let ?key = "conflict_key (item_tx tp r)"
  have fresh: "?key \<notin> fst ` set (map (conflict_entry tp) seen)"
  proof
    assume "?key \<in> fst ` set (map (conflict_entry tp) seen)"
    then obtain j where j: "j \<in> set seen" "?key = fst (conflict_entry tp j)" by auto
    then obtain r' where r': "tp_txMap tp j = Some r'" using Cons.prems(3) by auto
    have "i = j"
      using conflict_key_inj [OF Cons.prems(1) r r'] j(2) r' by (simp add: conflict_entry_def)
    with j Cons.prems(2) show False by auto
  qed
  then have "map_of (map (conflict_entry tp) seen) ?key = None" by (simp add: map_of_eq_None_iff)
  then have "group_conflicts tp (i # ids) (map (conflict_entry tp) seen) =
      group_conflicts tp ids (map (conflict_entry tp) (seen @ [i]))"
    using AList_update_new [OF fresh] r by (simp add: conflict_entry_def Let_def)
  also have "\<dots> = map (conflict_entry tp) ((seen @ [i]) @ ids)"
    using Cons.prems by (intro Cons.IH) auto
  finally show ?case by simp
qed simp

lemma conflict_removals_single:
  "(\<And>k c. (k, c) \<in> set sets \<Longrightarrow> length c \<le> 1) \<Longrightarrow> conflict_removals visit s sets = []"
  by (induction visit s sets rule: conflict_removals.induct) auto

lemma HandleConflicts_same:
  assumes inv: "pool_inv n tp" and ids: "range_order (tp_txMap tp) ids"
    and perm: "\<And>xs. set (visit_sets xs) = set xs"
  shows "TransactionPool_HandleConflicts ids visit_sets visit tp = Some tp"
proof -
  have "group_conflicts tp ids [] = map (conflict_entry tp) ids"
    using group_conflicts_single [OF inv, of "[]" ids] ids by (simp add: range_order_def)
  then have "conflict_removals visit (tp_store tp) (visit_sets (group_conflicts tp ids [])) = []"
    by (intro conflict_removals_single) (auto simp: perm conflict_entry_def Let_def)
  then show ?thesis by (simp add: TransactionPool_HandleConflicts_def)
qed

section \<open>Every history of the pool\<close>

text \<open>The pools the package's operations lead to; the index counts the additions tried.\<close>

inductive pool_reachable :: "nat \<Rightarrow> TransactionPool \<Rightarrow> bool" where
  new: "NewTransactionPool now s0 mx to minF maxF ed [WithKeyManager km, WithConflictResolution cr] = Some tp \<Longrightarrow>
     pool_reachable 0 tp"
| add: "pool_reachable n tp \<Longrightarrow> TransactionPool_AddTransaction env tx tp = Some (e, tp') \<Longrightarrow> pool_reachable (Suc n) tp'"
| remove: "pool_reachable n tp \<Longrightarrow> TransactionPool_RemoveTransaction i tp = Some (e, tp') \<Longrightarrow> pool_reachable n tp'"
| conflicts: "pool_reachable n tp \<Longrightarrow> range_order (tp_txMap tp) ids \<Longrightarrow> (\<And>xs. set (visit_sets xs) = set xs) \<Longrightarrow>
     TransactionPool_HandleConflicts ids visit_sets visit tp = Some tp' \<Longrightarrow> pool_reachable n tp'"
| expired: "pool_reachable n tp \<Longrightarrow> range_order (tp_txMap tp) ids \<Longrightarrow>
     TransactionPool_RemoveExpiredTransactions env now_of ids maxAge tp = Some (k, tp') \<Longrightarrow> pool_reachable n tp'"

lemma NewTransactionPool_inv:
  "NewTransactionPool now s0 mx to minF maxF ed [WithKeyManager km, WithConflictResolution cr] = Some tp \<Longrightarrow> pool_inv 0 tp"
  by (auto simp: NewTransactionPool_def WithKeyManager_def WithConflictResolution_def pool_inv_def heap_ok_def
      pq.ok_def pq_inv_def heap_order_def PriorityQueue_Len_def zero_PoolMetrics_def split: if_splits)

lemma RemoveExpired_inv:
  assumes "pool_inv n tp"
  shows "\<exists>k tp'. TransactionPool_RemoveExpiredTransactions env now_of ids maxAge tp = Some (k, tp') \<and> pool_inv n tp' \<and>
     (\<forall>x. same_item (tp_store tp' x) (tp_store tp x)) \<and>
     tp_txMap tp' = tp_txMap tp |` (- {i \<in> set ids. expired_tx (pe_clock env 0 - maxAge) (now_of i) (item_tx tp (the (tp_txMap tp i)))})"
proof -
  define rem where "rem = filter (\<lambda>i. expired_tx (pe_clock env 0 - maxAge) (now_of i) (item_tx tp (the (tp_txMap tp i)))) ids"
  obtain tp1 where "remove_expired rem tp = Some tp1" "pool_inv n tp1"
    "\<forall>x. same_item (tp_store tp1 x) (tp_store tp x)" "tp_txMap tp1 = tp_txMap tp |` (- set rem)"
    using remove_expired_inv [OF assms] by blast
  then show ?thesis
    by (simp add: TransactionPool_RemoveExpiredTransactions_def Let_def rem_def pool_inv_parts)
qed

lemma pool_reachable_inv: "pool_reachable n tp \<Longrightarrow> int n < 2 ^ 63 \<Longrightarrow> pool_inv n tp"
proof (induction rule: pool_reachable.induct)
  case (new now s0 mx to minF maxF ed km cr tp)
  then show ?case using NewTransactionPool_inv by blast
next
  case (add n tp env tx e tp')
  then show ?case using AddTransaction_inv [of n tp env tx] by auto
next
  case (remove n tp i e tp')
  then show ?case using RemoveTransaction_inv [of n tp i] by auto
next
  case (conflicts n tp ids visit_sets visit tp')
  then show ?case using HandleConflicts_same [of n tp ids visit_sets visit] by auto
next
  case (expired n tp ids env now_of maxAge k tp')
  then show ?case using RemoveExpired_inv [of n tp env now_of ids maxAge] by auto
qed

section \<open>Properties of the pool\<close>

text \<open>Concrete inputs for the witnesses below.\<close>

definition example_env :: PoolEnv where
  "example_env = \<lparr>pe_accounts = Map.empty, pe_schemes = (\<lambda>_. tag_scheme), pe_netLoad = 50, pe_conv = (\<lambda>_. 0),
                  pe_clock = (\<lambda>_. 0)\<rparr>"

definition example_tx :: "string \<Rightarrow> int \<Rightarrow> Transaction" where
  "example_tx i nonce =
     \<lparr>tx_ID = i, tx_Sender = ''alice'', tx_Receiver = ''bob'', tx_Amount = Fin 5, tx_Timestamp = 0, tx_Signature = [],
      tx_Priority = 0, tx_Fee = Fin 1, tx_ExpiryTime = 0, tx_SmartContractID = '''', tx_Metadata = [], tx_Data = [],
      tx_Nonce = nonce, tx_SignerID = '''', tx_BlockHeight = 0, tx_Status = ''''\<rparr>"

definition example_pool :: "int \<Rightarrow> TransactionPool" where
  "example_pool mx = the (NewTransactionPool 0
     (\<lambda>_. \<lparr>ti_tx = example_tx '''' 0, ti_priority = 0, ti_index = 0, ti_insertTime = 0, ti_size = 0\<rparr>)
     mx hour f64_0 (Fin 10) hour [WithKeyManager False, WithConflictResolution True])"

lemma example_pool_reachable: "0 \<le> mx \<Longrightarrow> pool_reachable 0 (example_pool mx)"
proof -
  assume "0 \<le> mx"
  then have "NewTransactionPool 0
     (\<lambda>_. \<lparr>ti_tx = example_tx [] 0, ti_priority = 0, ti_index = 0, ti_insertTime = 0, ti_size = 0\<rparr>)
     mx hour f64_0 (Fin 10) hour [WithKeyManager False, WithConflictResolution True] = Some (example_pool mx)"
    by (simp add: example_pool_def NewTransactionPool_def)
  then show ?thesis by (rule pool_reachable.new)
qed

lemma added_reachable:
  assumes "pool_reachable n tp" and "int (Suc n) < 2 ^ 63"
  shows "pool_reachable (Suc n) (snd (the (TransactionPool_AddTransaction env tx tp)))"
proof -
  have "pool_inv n tp" using assms by (intro pool_reachable_inv) auto
  from AddTransaction_inv [OF this assms(2)] obtain e tp' where
    "TransactionPool_AddTransaction env tx tp = Some (e, tp')" by blast
  then show ?thesis using pool_reachable.add [OF assms(1), of env tx] by simp
qed

text \<open>
  C2: However transactions are added, removed, expired and evicted, the priority queue and the
  transaction map hold the same items: an ID is in the map exactly when an item with that ID is in
  the queue, no item occurs twice, every item's index is its position, every item's priority is at
  most its parent's in the heap, priorities are between 0 and 100, and the pool never exceeds its
  maximum size.
\<close>

theorem pool_consistent:
  assumes "pool_reachable n tp" and "int n < 2 ^ 63"
  shows "(\<forall>i. TransactionPool_HasTransaction i tp \<longleftrightarrow>
             (\<exists>r \<in> set (tp_pendingTxs tp). tx_ID (ti_tx (tp_store tp r)) = i))
       \<and> distinct (tp_pendingTxs tp)
       \<and> (\<forall>k < length (tp_pendingTxs tp). ti_index (tp_store tp (tp_pendingTxs tp ! k)) = int k \<and>
            0 \<le> ti_priority (tp_store tp (tp_pendingTxs tp ! k)) \<and>
            ti_priority (tp_store tp (tp_pendingTxs tp ! k)) \<le> 100)
       \<and> (\<forall>k. 0 < k \<and> k < length (tp_pendingTxs tp) \<longrightarrow>
            ti_priority (tp_store tp (tp_pendingTxs tp ! k)) \<le>
            ti_priority (tp_store tp (tp_pendingTxs tp ! ((k - 1) div 2))))
       \<and> int (TransactionPool_PoolSize tp) \<le> max 0 (tp_maxPoolSize tp)"
proof (intro conjI)
  have inv: "pool_inv n tp" using assms by (rule pool_reachable_inv)
  have ok: "heap_ok (tp_store tp) (tp_pendingTxs tp)" using inv by (rule pool_inv_heap)
  show "\<forall>i. TransactionPool_HasTransaction i tp \<longleftrightarrow>
             (\<exists>r \<in> set (tp_pendingTxs tp). tx_ID (ti_tx (tp_store tp r)) = i)"
    using inv by (auto simp: TransactionPool_HasTransaction_def pool_inv_parts)
  show "distinct (tp_pendingTxs tp)" using ok by (rule heap_ok_distinct)
  show "\<forall>k < length (tp_pendingTxs tp). ti_index (tp_store tp (tp_pendingTxs tp ! k)) = int k \<and>
            0 \<le> ti_priority (tp_store tp (tp_pendingTxs tp ! k)) \<and>
            ti_priority (tp_store tp (tp_pendingTxs tp ! k)) \<le> 100"
    using inv ok by (auto simp: pool_inv_parts heap_ok_def pq.ok_def pq_inv_def)
  show "\<forall>k. 0 < k \<and> k < length (tp_pendingTxs tp) \<longrightarrow>
            ti_priority (tp_store tp (tp_pendingTxs tp ! k)) \<le>
            ti_priority (tp_store tp (tp_pendingTxs tp ! ((k - 1) div 2)))"
  proof (intro allI impI)
    fix k assume k: "0 < k \<and> k < length (tp_pendingTxs tp)"
    then have "parent k < length (tp_pendingTxs tp)" using parent_less [of k] by linarith
    then show "ti_priority (tp_store tp (tp_pendingTxs tp ! k)) \<le>
            ti_priority (tp_store tp (tp_pendingTxs tp ! ((k - 1) div 2)))"
      using ok k by (force simp: heap_ok_def pq.ok_def heap_order_def pq.keys_def pq_contents_def PriorityQueue_Len_def parent_def)
  qed
  show "int (TransactionPool_PoolSize tp) \<le> max 0 (tp_maxPoolSize tp)"
    using inv by (simp add: pool_inv_def TransactionPool_PoolSize_def)
qed

theorem pool_consistent_witness:
  "distinct (tp_pendingTxs (snd (the (TransactionPool_AddTransaction example_env (example_tx ''t'' 1) (example_pool 4)))))"
  using pool_consistent [OF added_reachable [OF example_pool_reachable [of 4]]] by simp

text \<open>No operation of the pool panics: in every reachable pool, whatever the transaction, the
  readings of the clock, the network load and the order in which maps are visited, adding,
  removing, resolving conflicts and expiring all return, and so does evicting (fewer than 2^63 - 1
  additions before).
\<close>

theorem pool_never_panics:
  assumes "pool_reachable n tp" and "int (Suc n) < 2 ^ 63" and "range_order (tp_txMap tp) ids"
    and "\<And>xs. set (visit_sets xs) = set xs"
  shows "TransactionPool_AddTransaction env tx tp \<noteq> None
       \<and> TransactionPool_RemoveTransaction i tp \<noteq> None
       \<and> TransactionPool_optimizePool env tp \<noteq> None
       \<and> TransactionPool_HandleConflicts ids visit_sets visit tp \<noteq> None
       \<and> TransactionPool_RemoveExpiredTransactions env now_of ids maxAge tp \<noteq> None"
proof -
  have inv: "pool_inv n tp" using assms by (intro pool_reachable_inv) auto
  show ?thesis
    using AddTransaction_inv [OF inv assms(2), of env tx] RemoveTransaction_inv [OF inv, of i] assms(2)
      optimizePool_inv [OF inv, of env] HandleConflicts_same [OF inv assms(3,4), of visit]
      RemoveExpired_inv [OF inv, of env now_of ids maxAge]
    by auto
qed

theorem pool_never_panics_witness:
  "TransactionPool_AddTransaction example_env (example_tx ''t'' 1) (example_pool 0) \<noteq> None"
  using pool_never_panics [OF example_pool_reachable [of 0], of "[]" "\<lambda>xs. xs" example_env "example_tx ''t'' 1"
      "''t''" "\<lambda>xs. xs" "\<lambda>_. 0" 0]
  by (simp add: range_order_def example_pool_def NewTransactionPool_def WithKeyManager_def WithConflictResolution_def)

text \<open>A transaction that \<open>AddTransaction\<close> accepts is found afterwards under its ID, is one of the
  transactions \<open>GetAccountTransactions\<close> returns for its sender, and had a nonce above every nonce
  the pool had seen from that sender; a transaction removed with \<open>RemoveTransaction\<close> is gone and
  every other one is as before.
\<close>

theorem pool_add_remove:
  assumes "pool_reachable n tp" and "int (Suc n) < 2 ^ 63"
    and "TransactionPool_AddTransaction env tx tp = Some (None, tp1)"
    and "TransactionPool_RemoveTransaction (tx_ID tx) tp1 = Some (e, tp2)"
  shows "TransactionPool_GetTransaction (tx_ID tx) tp1 = Inr tx
       \<and> (\<exists>txs. tp_accountTxs tp1 (tx_Sender tx) = Some txs \<and>
            (\<forall>ids. set ids = txs \<longrightarrow> (\<exists>result.
               TransactionPool_GetAccountTransactions ids (tx_Sender tx) tp1 = Inr result \<and> tx \<in> set result)))
       \<and> (\<forall>c. tp_accountNonces tp (tx_Sender tx) = Some c \<longrightarrow> c < tx_Nonce tx)
       \<and> e = None \<and> TransactionPool_GetTransaction (tx_ID tx) tp2 = Inl ErrTxNotFound
       \<and> (\<forall>j. j \<noteq> tx_ID tx \<longrightarrow> TransactionPool_GetTransaction j tp2 = TransactionPool_GetTransaction j tp1)"
proof -
  have inv: "pool_inv n tp" using assms by (intro pool_reachable_inv) auto
  obtain r where inv1: "pool_inv (Suc n) tp1" and r: "tp_txMap tp1 (tx_ID tx) = Some r" "item_tx tp1 r = tx"
    using AddTransaction_inv [OF inv assms(2), of env tx] assms(3) by auto
  have get: "TransactionPool_GetTransaction (tx_ID tx) tp1 = Inr tx"
    using r by (simp add: TransactionPool_GetTransaction_def)
  have "item_ok tp1 r" using inv1 pool_inv_txMap [OF inv1 r(1)] by (simp add: pool_inv_def)
  then obtain txs where txs: "tp_accountTxs tp1 (tx_Sender tx) = Some txs" "tx_ID tx \<in> txs"
    using r by (auto simp: item_ok_def)
  note added = AddTransaction_accepted [OF inv assms(3)]
  have acc: "\<exists>result. TransactionPool_GetAccountTransactions ids (tx_Sender tx) tp1 = Inr result \<and> tx \<in> set result"
    if "set ids = txs" for ids
    using that txs r added(2)
    by (auto simp: TransactionPool_GetAccountTransactions_def intro!: bexI [of _ "tx_ID tx"])
  have "e = None \<and> tp_txMap tp2 = (tp_txMap tp1)(tx_ID tx := None) \<and> (\<forall>x. same_item (tp_store tp2 x) (tp_store tp1 x))"
    using RemoveTransaction_inv [OF inv1, of "tx_ID tx"] assms(2,4) r by auto
  then have "e = None \<and> TransactionPool_GetTransaction (tx_ID tx) tp2 = Inl ErrTxNotFound \<and>
     (\<forall>j. j \<noteq> tx_ID tx \<longrightarrow> TransactionPool_GetTransaction j tp2 = TransactionPool_GetTransaction j tp1)"
    by (auto simp: TransactionPool_GetTransaction_def dest: same_item_fields split: option.splits)
  with get txs acc added(1) show ?thesis by blast
qed

lemma duration_seconds_hour: "duration_seconds hour = Fin 3600"
  using rnd_int [of 3600]
  by (simp add: duration_seconds_def hour_def minute_def second_def go_div_def go_mod_def f64_of_int_def)

lemmas example_pool_defs = example_pool_def NewTransactionPool_def WithKeyManager_def WithConflictResolution_def

lemma example_add:
  assumes "0 < mx"
  obtains tp1 where "TransactionPool_AddTransaction example_env (example_tx ''t'' 1) (example_pool mx) = Some (None, tp1)"
    and "pool_reachable 1 tp1" and "length (tp_pendingTxs tp1) = 1" and "dom (tp_txMap tp1) = {''t''}"
    and "tp_maxPoolSize tp1 = mx"
proof -
  have v: "TransactionPool_validateTransaction example_env (example_tx ''t'' 1) (example_pool mx) = None"
    using assms
    by (simp add: TransactionPool_validateTransaction_def example_env_def example_pool_defs
        example_tx_def ValidateTransaction_def Transaction_Validate_def unix_def i64_def duration_seconds_hour rat_trunc_def)
  have "pool_inv 0 (example_pool mx)" using example_pool_reachable [of mx] assms by (intro pool_reachable_inv) auto
  from pool_insert_inv [OF this _ _ v] obtain tp1 where
    ins: "pool_insert example_env (example_tx ''t'' 1) (example_pool mx) = Some tp1" "length (tp_pendingTxs tp1) = 1"
    using assms by (auto simp: example_pool_defs)
  then have add: "TransactionPool_AddTransaction example_env (example_tx ''t'' 1) (example_pool mx) = Some (None, tp1)"
    using v assms by (simp add: TransactionPool_AddTransaction_def) (simp add: example_pool_defs)
  moreover have "pool_reachable 1 tp1"
    using pool_reachable.add [OF example_pool_reachable add] assms by simp
  moreover have "dom (tp_txMap tp1) = {''t''} \<and> tp_maxPoolSize tp1 = mx"
    using ins(1) assms
    by (auto simp: pool_insert_def Let_def example_pool_defs example_tx_def split: if_splits option.splits prod.splits)
  ultimately show ?thesis using that ins(2) by blast
qed

theorem pool_add_remove_witness:
  "TransactionPool_GetTransaction ''t'' (snd (the (TransactionPool_AddTransaction example_env (example_tx ''t'' 1) (example_pool 4))))
     = Inr (example_tx ''t'' 1)"
proof -
  obtain tp1 where tp1: "TransactionPool_AddTransaction example_env (example_tx ''t'' 1) (example_pool 4) = Some (None, tp1)"
    and "pool_reachable 1 tp1" by (rule example_add [of 4]) simp
  then have "pool_inv 1 tp1" using pool_reachable_inv by simp
  from RemoveTransaction_inv [OF this, of "tx_ID (example_tx ''t'' 1)"] obtain e tp2 where
    rem: "TransactionPool_RemoveTransaction (tx_ID (example_tx ''t'' 1)) tp1 = Some (e, tp2)" by auto
  show ?thesis
    using pool_add_remove [OF example_pool_reachable [of 4] _ tp1 rem] tp1 by (simp add: example_tx_def)
qed

text \<open>Conflict resolution never removes anything: a pool that was only used through its operations
  holds no two transactions of one sender with one nonce, so \<open>HandleConflicts\<close> returns it unchanged
  for every order in which its maps are visited.
\<close>

theorem handle_conflicts_idle:
  assumes "pool_reachable n tp" and "int n < 2 ^ 63" and "range_order (tp_txMap tp) ids"
    and "\<And>xs. set (visit_sets xs) = set xs"
  shows "TransactionPool_HandleConflicts ids visit_sets visit tp = Some tp"
  using pool_reachable_inv [OF assms(1,2)] assms(3,4) by (rule HandleConflicts_same)

theorem handle_conflicts_idle_witness:
  "TransactionPool_HandleConflicts [''t''] rev rev
     (snd (the (TransactionPool_AddTransaction example_env (example_tx ''t'' 1) (example_pool 4)))) \<noteq> None"
proof -
  obtain tp1 where tp1: "TransactionPool_AddTransaction example_env (example_tx ''t'' 1) (example_pool 4) = Some (None, tp1)"
    and r: "pool_reachable 1 tp1" and "dom (tp_txMap tp1) = {''t''}" by (rule example_add [of 4]) simp
  then have "range_order (tp_txMap tp1) [''t'']" by (simp add: range_order_def)
  from handle_conflicts_idle [OF r _ this, of rev rev] show ?thesis using tp1 by simp
qed

text \<open>\<open>RemoveExpiredTransactions\<close> takes exactly the expired transactions out of the pool: a
  transaction stays if and only if it has neither passed its expiry time nor was created before
  the cutoff.
\<close>

theorem remove_expired_exact:
  assumes "pool_reachable n tp" and "int n < 2 ^ 63" and "range_order (tp_txMap tp) ids"
  shows "\<exists>k tp'. TransactionPool_RemoveExpiredTransactions env now_of ids maxAge tp = Some (k, tp') \<and>
           (\<forall>i tx. TransactionPool_GetTransaction i tp' = Inr tx \<longleftrightarrow>
              TransactionPool_GetTransaction i tp = Inr tx \<and>
              \<not> (tx_ExpiryTime tx > 0 \<and> unix (now_of i) > tx_ExpiryTime tx) \<and>
              \<not> tx_Timestamp tx * second < pe_clock env 0 - maxAge)"
proof -
  have inv: "pool_inv n tp" using assms by (intro pool_reachable_inv)
  have ids: "i \<in> set ids" if "tp_txMap tp i = Some r" for i r using assms(3) that by (auto simp: range_order_def)
  obtain k tp' where r: "TransactionPool_RemoveExpiredTransactions env now_of ids maxAge tp = Some (k, tp')"
    and s: "\<And>x. same_item (tp_store tp' x) (tp_store tp x)"
    and m: "tp_txMap tp' = tp_txMap tp |` (- {i \<in> set ids. expired_tx (pe_clock env 0 - maxAge) (now_of i) (item_tx tp (the (tp_txMap tp i)))})"
    using RemoveExpired_inv [OF inv] by metis
  have "TransactionPool_GetTransaction i tp' = Inr tx \<longleftrightarrow>
      TransactionPool_GetTransaction i tp = Inr tx \<and> \<not> expired_tx (pe_clock env 0 - maxAge) (now_of i) tx" for i tx
    using ids [of i] same_item_fields [OF s]
    by (cases "tp_txMap tp i") (auto simp: TransactionPool_GetTransaction_def m restrict_map_def)
  then show ?thesis using r by (auto simp: expired_tx_def)
qed

theorem remove_expired_exact_witness:
  "\<exists>k tp'. TransactionPool_RemoveExpiredTransactions example_env (\<lambda>_. 0) [] hour (example_pool 4) = Some (k, tp')"
proof -
  have "range_order (tp_txMap (example_pool 4)) []" by (simp add: range_order_def example_pool_defs)
  from remove_expired_exact [OF example_pool_reachable [of 4] _ this, of example_env "\<lambda>_. 0" hour]
  show ?thesis by auto
qed

lemma pool_target_bounds:
  assumes "0 < mx" and "mx \<le> 2 ^ 50"
  shows "0 \<le> pool_target conv mx \<and> pool_target conv mx < mx"
proof -
  have seven: "rnd (7 / 8) = Fin (7 / 8)" using rnd_exact [of 7 "- 3"] by (simp add: pow2_def)
  have "f64_le (rnd (8 / 10)) (rnd (7 / 8))" by (rule rnd_mono) simp
  moreover have "\<not> f64_lt (rnd (8 / 10)) (Fin 0)" by (rule rnd_nonneg) simp
  ultimately obtain c where c: "rnd (8 / 10) = Fin c" "0 \<le> c" "c \<le> 7 / 8"
    unfolding seven by (cases "rnd (8 / 10)") (auto simp: f64_le_def)
  have m: "f64_of_int mx = Fin (of_int mx)" using assms rnd_int [of mx] by (simp add: f64_of_int_def)
  have "rnd (of_int (7 * mx) * pow2 (- 3)) = Fin (of_int (7 * mx) * pow2 (- 3))"
    using assms by (intro rnd_exact) auto
  then have seven': "rnd (of_int mx * (7 / 8)) = Fin (of_int mx * (7 / 8))" by (simp add: pow2_def algebra_simps)
  have "f64_le (rnd (of_int mx * c)) (rnd (of_int mx * (7 / 8)))"
    using c assms by (intro rnd_mono mult_left_mono) auto
  moreover have "\<not> f64_lt (rnd (of_int mx * c)) (Fin 0)" using c assms by (intro rnd_nonneg) auto
  ultimately obtain d where d: "rnd (of_int mx * c) = Fin d" "0 \<le> d" "d \<le> of_int mx * (7 / 8)"
    unfolding seven' by (cases "rnd (of_int mx * c)") (auto simp: f64_le_def)
  have "of_int mx * (7 / 8) < (of_int mx :: rat)" using assms by simp
  with d have f: "0 \<le> \<lfloor>d\<rfloor>" "\<lfloor>d\<rfloor> < mx" by (auto simp: floor_less_iff)
  then show ?thesis unfolding pool_target_def m c(1) using d assms by (simp add: rat_trunc_def)
qed

text \<open>When the pool is full, \<open>optimizePool\<close> brings it down to its target size, below the maximum,
  so that the next addition is not refused for want of room; and the transactions it evicts are the
  ones with the highest priorities: no transaction that stays has a higher priority than one that goes.
\<close>

theorem optimize_evicts_highest_priority:
  assumes "pool_reachable n tp" and "int n < 2 ^ 63" and "0 < tp_maxPoolSize tp" and "tp_maxPoolSize tp \<le> 2 ^ 50"
    and "int (TransactionPool_PoolSize tp) = tp_maxPoolSize tp"
  shows "\<exists>tp'. TransactionPool_optimizePool env tp = Some tp'
       \<and> int (TransactionPool_PoolSize tp') = pool_target (pe_conv env) (tp_maxPoolSize tp)
       \<and> int (TransactionPool_PoolSize tp') < tp_maxPoolSize tp'
       \<and> (\<forall>gone \<in> set (tp_pendingTxs tp) - set (tp_pendingTxs tp'). \<forall>kept \<in> set (tp_pendingTxs tp').
            ti_priority (tp_store tp kept) \<le> ti_priority (tp_store tp gone))"
proof -
  have inv: "pool_inv n tp" using assms by (intro pool_reachable_inv)
  show ?thesis
    using optimizePool_inv [OF inv, of env] pool_target_bounds [OF assms(3,4), of "pe_conv env"] assms(5)
    by (auto simp: TransactionPool_PoolSize_def) fastforce
qed

theorem optimize_evicts_highest_priority_witness:
  "TransactionPool_optimizePool example_env
     (snd (the (TransactionPool_AddTransaction example_env (example_tx ''t'' 1) (example_pool 1)))) \<noteq> None"
proof -
  obtain tp1 where tp1: "TransactionPool_AddTransaction example_env (example_tx ''t'' 1) (example_pool 1) = Some (None, tp1)"
    and r: "pool_reachable 1 tp1" "length (tp_pendingTxs tp1) = 1" "tp_maxPoolSize tp1 = 1" by (rule example_add [of 1]) simp
  from optimize_evicts_highest_priority [OF r(1), of example_env] show ?thesis
    using tp1 r(2,3) by (auto simp: TransactionPool_PoolSize_def)
qed

end
