(* ===== verification/TxUtils.thy ===== *)
theory TxUtils
  imports TxPool "HOL-Library.Sublist"
begin

text \<open>
  Nonces, validation and fees: \<open>transaction/transaction_utils.go\<close>. The interface \<open>NonceTracker\<close> is
  the locale \<open>nonce_tracker\<close>, interpreted on the two trackers of the file; the functions that take
  the interface as an argument take the methods they call. The values that an error message only
  prints are left out of the error.
\<close>

section \<open>Data\<close>

datatype ValidationErrorCode =
    ErrCodeInsufficientFunds
  | ErrCodeInvalidAmount
  | ErrCodeInvalidFee
  | ErrCodeInvalidSender
  | ErrCodeInvalidReceiver
  | ErrCodeInvalidSignature
  | ErrCodeInvalidNonce
  | ErrCodeTransactionExpired

datatype tx_error =
    ErrNonceReuse int int
  | ErrNonceSequenceViolation int
  | ErrInvalidSignature
  | ErrMissingPublicKey
  | TransactionValidationError string ValidationErrorCode
  | TxErrInvalidNonce int int
  | TxErrCommon common_error
  | TxErrCrypto crypto_error
  | TxErrPool pool_error
  | TxErrNew string

definition NewValidationError :: "string \<Rightarrow> ValidationErrorCode \<Rightarrow> tx_error" where
  "NewValidationError message code = TransactionValidationError message code"

type_synonym DefaultNonceTracker = "string \<rightharpoonup> int"

text \<open>The persistent tracker embeds the default one; its ledger is stored and never read.\<close>

record PersistentNonceTracker =
  pnt_nonces :: DefaultNonceTracker
  pnt_initialized :: bool

section \<open>Nonce trackers\<close>

definition NewDefaultNonceTracker :: DefaultNonceTracker where
  "NewDefaultNonceTracker = Map.empty"

definition DefaultNonceTracker_GetNonce :: "string \<Rightarrow> DefaultNonceTracker \<Rightarrow> int" where
  "DefaultNonceTracker_GetNonce accountID nt = (case nt accountID of None \<Rightarrow> 0 | Some n \<Rightarrow> n)"

definition DefaultNonceTracker_SetNonce :: "string \<Rightarrow> int \<Rightarrow> DefaultNonceTracker \<Rightarrow> DefaultNonceTracker" where
  "DefaultNonceTracker_SetNonce accountID nonce nt = nt(accountID \<mapsto> nonce)"

definition DefaultNonceTracker_ValidateNonce :: "string \<Rightarrow> int \<Rightarrow> DefaultNonceTracker \<Rightarrow> tx_error option" where
  "DefaultNonceTracker_ValidateNonce accountID nonce nt =
     (case nt accountID of
        None \<Rightarrow> if nonce \<noteq> 1 then Some (ErrNonceSequenceViolation nonce) else None
      | Some currentNonce \<Rightarrow>
          if nonce \<le> currentNonce then Some (ErrNonceReuse nonce currentNonce)
          else if nonce > i64 (currentNonce + 1) then Some (ErrNonceSequenceViolation nonce)
          else None)"

definition DefaultNonceTracker_Reset :: "string \<Rightarrow> DefaultNonceTracker \<Rightarrow> DefaultNonceTracker" where
  "DefaultNonceTracker_Reset accountID nt = nt(accountID := None)"

definition DefaultNonceTracker_GetAllNonces :: "DefaultNonceTracker \<Rightarrow> (string \<rightharpoonup> int)" where
  "DefaultNonceTracker_GetAllNonces nt = nt"

definition NewPersistentNonceTracker :: PersistentNonceTracker where
  "NewPersistentNonceTracker = \<lparr>pnt_nonces = NewDefaultNonceTracker, pnt_initialized = False\<rparr>"

definition PersistentNonceTracker_lazyInitialize :: "PersistentNonceTracker \<Rightarrow> PersistentNonceTracker" where
  "PersistentNonceTracker_lazyInitialize nt =
     (if pnt_initialized nt then nt else nt\<lparr>pnt_initialized := True\<rparr>)"

definition PersistentNonceTracker_GetNonce :: "string \<Rightarrow> PersistentNonceTracker \<Rightarrow> int \<times> PersistentNonceTracker" where
  "PersistentNonceTracker_GetNonce accountID nt =
     (let nt' = PersistentNonceTracker_lazyInitialize nt
      in (DefaultNonceTracker_GetNonce accountID (pnt_nonces nt'), nt'))"

section \<open>Functions over the interface\<close>

text \<open>\<open>get\<close> and \<open>setn\<close> are the methods \<open>GetNonce\<close> and \<open>SetNonce\<close> of the tracker.\<close>

definition ReplayProtectionMiddleware ::
    "(string \<Rightarrow> 't \<Rightarrow> int \<times> 't) \<Rightarrow> (string \<Rightarrow> int \<Rightarrow> 't \<Rightarrow> 't) \<Rightarrow> Transaction \<Rightarrow> 't \<Rightarrow> tx_error option \<times> 't" where
  "ReplayProtectionMiddleware get setn tx tracker =
     (let (currentNonce, tracker1) = get (tx_Sender tx) tracker in
      if tx_Nonce tx \<noteq> i64 (currentNonce + 1)
        then (Some (TxErrInvalidNonce (i64 (currentNonce + 1)) (tx_Nonce tx)), tracker1)
      else (None, setn (tx_Sender tx) (tx_Nonce tx) tracker1))"

definition tx_ValidateTransaction ::
    "accounts \<Rightarrow> schemes \<Rightarrow> int \<Rightarrow> (string \<Rightarrow> int \<Rightarrow> tx_error option) \<Rightarrow> Transaction \<Rightarrow> float64 \<Rightarrow> tx_error option" where
  "tx_ValidateTransaction accs schemes now validateNonce tx minFee =
     (if f64_le (tx_Amount tx) f64_0
        then Some (NewValidationError ''transaction amount must be positive'' ErrCodeInvalidAmount)
      else if f64_lt (tx_Fee tx) minFee
        then Some (NewValidationError ''fee below minimum'' ErrCodeInvalidFee)
      else if tx_Sender tx = '''' \<or> tx_Receiver tx = ''''
        then Some (NewValidationError ''sender and receiver required'' ErrCodeInvalidSender)
      else if \<not> CheckAccountBalance (tx_Sender tx) (f64_add (tx_Amount tx) (tx_Fee tx)) accs
        then Some (NewValidationError ''insufficient funds for transaction'' ErrCodeInsufficientFunds)
      else if validateNonce (tx_Sender tx) (tx_Nonce tx) \<noteq> None
        then Some (NewValidationError ''invalid nonce'' ErrCodeInvalidNonce)
      else if tx_ExpiryTime tx > 0 \<and> tx_ExpiryTime tx < unix now
        then Some (NewValidationError ''transaction has expired'' ErrCodeTransactionExpired)
      else if length (tx_Signature tx) > 0 then
        (case GetPublicKey (tx_Sender tx) accs of
           Inl e \<Rightarrow> Some (NewValidationError ''sender public key not found'' ErrCodeInvalidSender)
         | Inr pubKey \<Rightarrow>
             if length pubKey = 0 then Some (NewValidationError ''empty public key for sender'' ErrCodeInvalidSender)
             else case VerifySignature schemes pubKey (string_bytes (tx_ID tx)) (tx_Signature tx) of
               Inl e \<Rightarrow> Some (NewValidationError ''signature verification error'' ErrCodeInvalidSignature)
             | Inr ok \<Rightarrow> if \<not> ok then Some (NewValidationError ''invalid signature'' ErrCodeInvalidSignature) else None)
      else None)"

definition GenerateTransactionID :: "int \<Rightarrow> int \<Rightarrow> string \<Rightarrow> string \<Rightarrow> float64 \<Rightarrow> string" where
  "GenerateTransactionID now1 now2 sender receiver amount =
     hex_encode (hash_bytes (sha256 (string_bytes
       (sender @ '':'' @ receiver @ '':'' @ fmt_f8 amount @ '':'' @ fmt_d now1 @ '':'' @ fmt_d now2))))"

definition VerifyTransactionSignature :: "accounts \<Rightarrow> schemes \<Rightarrow> Transaction option \<Rightarrow> tx_error + bool" where
  "VerifyTransactionSignature accs schemes txo =
     (case txo of
        None \<Rightarrow> Inl (TxErrNew ''transaction cannot be nil'')
      | Some tx \<Rightarrow>
          if length (tx_Signature tx) = 0 then Inl (TxErrNew ''transaction has no signature'')
          else case GetPublicKey (tx_Sender tx) accs of
            Inl e \<Rightarrow> Inl (TxErrCommon e)
          | Inr pubKey \<Rightarrow>
              if length pubKey = 0 then Inl ErrMissingPublicKey
              else case VerifySignature schemes pubKey (string_bytes (tx_ID tx)) (tx_Signature tx) of
                Inl e \<Rightarrow> Inl (TxErrCrypto e)
              | Inr ok \<Rightarrow> Inr ok)"

definition EstimateTransactionFee :: "Transaction \<Rightarrow> float64 \<Rightarrow> bool \<Rightarrow> float64" where
  "EstimateTransactionFee tx baseFee urgent =
     (let sizeEstimate = estimateTransactionSize tx;
          feePerKB = (if urgent then f64_mul baseFee (Fin (3 / 2)) else baseFee);
          fee1 = f64_div (f64_mul feePerKB (f64_of_int sizeEstimate)) (Fin 1024);
          fee2 = (if tx_SmartContractID tx \<noteq> '''' then f64_add fee1 (f64_mul baseFee (Fin (1 / 2))) else fee1)
      in if f64_lt fee2 baseFee then baseFee else fee2)"

text \<open>The loop of \<open>ValidateTransactionBatch\<close>: \<open>nows\<close> gives the clock reading of each round.\<close>

fun validate_batch ::
    "accounts \<Rightarrow> schemes \<Rightarrow> (nat \<Rightarrow> int) \<Rightarrow> float64 \<Rightarrow> nat \<Rightarrow> Transaction list \<Rightarrow> DefaultNonceTracker \<Rightarrow>
     (string \<rightharpoonup> tx_error) \<Rightarrow> Transaction list \<Rightarrow> (string \<rightharpoonup> tx_error) \<times> Transaction list" where
  "validate_batch accs schemes nows minFee k [] tempTracker results validTxs = (results, validTxs)"
| "validate_batch accs schemes nows minFee k (tx # txs) tempTracker results validTxs =
     (case tx_ValidateTransaction accs schemes (nows k) (\<lambda>a n. DefaultNonceTracker_ValidateNonce a n tempTracker) tx minFee of
        Some err \<Rightarrow> validate_batch accs schemes nows minFee (Suc k) txs tempTracker (results(tx_ID tx \<mapsto> err)) validTxs
      | None \<Rightarrow>
          validate_batch accs schemes nows minFee (Suc k) txs
            (DefaultNonceTracker_SetNonce (tx_Sender tx) (tx_Nonce tx) tempTracker) results (validTxs @ [tx]))"

text \<open>The temporary tracker is filled from \<open>allNonces\<close>, one account at a time.\<close>

definition ValidateTransactionBatch ::
    "accounts \<Rightarrow> schemes \<Rightarrow> (nat \<Rightarrow> int) \<Rightarrow> Transaction list \<Rightarrow> float64 \<Rightarrow> (string \<rightharpoonup> int) \<Rightarrow> string list \<Rightarrow>
     (string \<rightharpoonup> tx_error) \<times> Transaction list" where
  "ValidateTransactionBatch accs schemes nows txs minFee allNonces order =
     (if length txs = 0 then (Map.empty, [])
      else
        let tempTracker = fold (\<lambda>acc t. DefaultNonceTracker_SetNonce acc (the (allNonces acc)) t) order NewDefaultNonceTracker
        in validate_batch accs schemes nows minFee 0 txs tempTracker Map.empty [])"

definition SortTransactionsByPriority :: "Transaction list \<Rightarrow> Transaction list" where
  "SortTransactionsByPriority txs = txs"

definition IsValidTransactionID :: "string \<Rightarrow> bool" where
  "IsValidTransactionID i = (if length i \<noteq> 64 then False else hex_decode i \<noteq> None)"

section \<open>The interface of a nonce tracker\<close>

text \<open>The transactions a tracker's middleware lets through, in order.\<close>

fun replay_run ::
    "(string \<Rightarrow> 't \<Rightarrow> int \<times> 't) \<Rightarrow> (string \<Rightarrow> int \<Rightarrow> 't \<Rightarrow> 't) \<Rightarrow> Transaction list \<Rightarrow> 't \<Rightarrow> Transaction list \<times> 't" where
  "replay_run get setn [] t = ([], t)"
| "replay_run get setn (tx # txs) t =
     (case ReplayProtectionMiddleware get setn tx t of
        (Some e, t') \<Rightarrow> replay_run get setn txs t'
      | (None, t') \<Rightarrow> (let (acc, t'') = replay_run get setn txs t' in (tx # acc, t'')))"

definition nonces_of :: "string \<Rightarrow> Transaction list \<Rightarrow> int list" where
  "nonces_of s txs = map tx_Nonce (filter (\<lambda>tx. tx_Sender tx = s) txs)"

text \<open>\<open>consecutive c ns\<close>: the list is \<open>c + 1, c + 2, ...\<close>.\<close>

fun consecutive :: "int \<Rightarrow> int list \<Rightarrow> bool" where
  "consecutive c [] = True"
| "consecutive c (n # ns) = (n = c + 1 \<and> consecutive n ns)"

lemma consecutive_nth: "consecutive c ns \<Longrightarrow> k < length ns \<Longrightarrow> ns ! k = c + 1 + int k"
  by (induction c ns arbitrary: k rule: consecutive.induct) (auto simp: nth_Cons split: nat.splits)

lemma consecutive_snoc:
  "consecutive c ns \<Longrightarrow> n = c + int (length ns) + 1 \<Longrightarrow> consecutive c (ns @ [n])"
  by (induction c ns rule: consecutive.induct) auto

lemma nonces_of_simps [simp]:
  "nonces_of s [] = []"
  "nonces_of s (tx # txs) = (if tx_Sender tx = s then tx_Nonce tx # nonces_of s txs else nonces_of s txs)"
  "nonces_of s (xs @ ys) = nonces_of s xs @ nonces_of s ys"
  by (simp_all add: nonces_of_def)

locale nonce_tracker =
  fixes get :: "string \<Rightarrow> 't \<Rightarrow> int \<times> 't"
    and setn :: "string \<Rightarrow> int \<Rightarrow> 't \<Rightarrow> 't"
    and validate :: "string \<Rightarrow> int \<Rightarrow> 't \<Rightarrow> tx_error option"
    and reset :: "string \<Rightarrow> 't \<Rightarrow> 't"
    and all_nonces :: "'t \<Rightarrow> (string \<rightharpoonup> int)"
  assumes get_value: "fst (get a t) = (case all_nonces t a of None \<Rightarrow> 0 | Some n \<Rightarrow> n)"
    and get_keeps: "all_nonces (snd (get a t)) = all_nonces t"
    and set_nonces: "all_nonces (setn a n t) = (all_nonces t)(a \<mapsto> n)"
    and reset_nonces: "all_nonces (reset a t) = (all_nonces t)(a := None)"
    and validate_next: "- (2 ^ 63) \<le> fst (get a t) \<Longrightarrow> fst (get a t) < 2 ^ 63 - 1 \<Longrightarrow>
          validate a n t = None \<longleftrightarrow> n = fst (get a t) + 1"
begin

definition current :: "'t \<Rightarrow> string \<Rightarrow> int" where
  "current t a = fst (get a t)"

lemma current_get: "current (snd (get a t)) b = current t b"
  by (simp add: current_def get_value get_keeps)

lemma current_set: "current (setn a n t) b = (if b = a then n else current t b)"
  by (simp add: current_def get_value set_nonces)

text \<open>After a reset the first valid nonce is 1 again.\<close>

lemma validate_after_reset: "validate a n (reset a t) = None \<longleftrightarrow> n = 1"
  using validate_next [of a "reset a t"] by (simp add: get_value reset_nonces)

lemma middleware_cases:
  "ReplayProtectionMiddleware get setn tx t =
     (if tx_Nonce tx = i64 (current t (tx_Sender tx) + 1)
      then (None, setn (tx_Sender tx) (tx_Nonce tx) (snd (get (tx_Sender tx) t)))
      else (Some (TxErrInvalidNonce (i64 (current t (tx_Sender tx) + 1)) (tx_Nonce tx)), snd (get (tx_Sender tx) t)))"
  by (simp add: ReplayProtectionMiddleware_def current_def case_prod_beta)

lemma run_consecutive:
  assumes "\<And>s. - (2 ^ 63) \<le> current t s \<and> current t s + int (length txs) < 2 ^ 63"
  shows "consecutive (current t s) (nonces_of s (fst (replay_run get setn txs t))) \<and>
         current (snd (replay_run get setn txs t)) s =
           current t s + int (length (nonces_of s (fst (replay_run get setn txs t))))"
  using assms
proof (induction txs arbitrary: t)
  case (Cons tx txs)
  let ?a = "tx_Sender tx"
  have b: "i64 (current t ?a + 1) = current t ?a + 1"
    using Cons.prems [of ?a] by (intro i64_id) auto
  show ?case
  proof (cases "tx_Nonce tx = current t ?a + 1")
    case True
    let ?t = "setn ?a (tx_Nonce tx) (snd (get ?a t))"
    have c: "current ?t u = (if u = ?a then current t ?a + 1 else current t u)" for u
      using True by (simp add: current_set current_get)
    have "- (2 ^ 63) \<le> current ?t u \<and> current ?t u + int (length txs) < 2 ^ 63" for u
      using Cons.prems [of u] c [of u] by (auto split: if_splits)
    from Cons.IH [OF this] show ?thesis
      using True c [of s] by (auto simp: middleware_cases b case_prod_beta Let_def split: if_splits)
  next
    case False
    let ?t = "snd (get ?a t)"
    have c: "current ?t u = current t u" for u by (rule current_get)
    have "- (2 ^ 63) \<le> current ?t u \<and> current ?t u + int (length txs) < 2 ^ 63" for u
      using Cons.prems [of u] c [of u] by auto
    from Cons.IH [OF this] show ?thesis using False c by (simp add: middleware_cases b)
  qed
qed (simp add: current_def)

end

lemma ValidateNonce_next:
  assumes "- (2 ^ 63) \<le> DefaultNonceTracker_GetNonce a t" "DefaultNonceTracker_GetNonce a t < 2 ^ 63 - 1"
  shows "DefaultNonceTracker_ValidateNonce a n t = None \<longleftrightarrow> n = DefaultNonceTracker_GetNonce a t + 1"
proof (cases "t a")
  case (Some c)
  then have "i64 (c + 1) = c + 1"
    using assms by (intro i64_id) (auto simp: DefaultNonceTracker_GetNonce_def)
  then show ?thesis
    using Some by (auto simp: DefaultNonceTracker_ValidateNonce_def DefaultNonceTracker_GetNonce_def)
qed (auto simp: DefaultNonceTracker_ValidateNonce_def DefaultNonceTracker_GetNonce_def)

interpretation dnt: nonce_tracker "\<lambda>a t. (DefaultNonceTracker_GetNonce a t, t)" DefaultNonceTracker_SetNonce
    DefaultNonceTracker_ValidateNonce DefaultNonceTracker_Reset DefaultNonceTracker_GetAllNonces
  by unfold_locales
    (auto simp: DefaultNonceTracker_GetNonce_def DefaultNonceTracker_SetNonce_def DefaultNonceTracker_Reset_def
      DefaultNonceTracker_GetAllNonces_def ValidateNonce_next [unfolded DefaultNonceTracker_GetNonce_def])

lemma lazyInitialize_nonces: "pnt_nonces (PersistentNonceTracker_lazyInitialize t) = pnt_nonces t"
  by (simp add: PersistentNonceTracker_lazyInitialize_def)

text \<open>The persistent tracker has its own \<open>GetNonce\<close> and the other methods of the tracker it embeds.\<close>

interpretation pnt: nonce_tracker PersistentNonceTracker_GetNonce
    "\<lambda>a n t. t\<lparr>pnt_nonces := DefaultNonceTracker_SetNonce a n (pnt_nonces t)\<rparr>"
    "\<lambda>a n t. DefaultNonceTracker_ValidateNonce a n (pnt_nonces t)"
    "\<lambda>a t. t\<lparr>pnt_nonces := DefaultNonceTracker_Reset a (pnt_nonces t)\<rparr>"
    "\<lambda>t. DefaultNonceTracker_GetAllNonces (pnt_nonces t)"
  by unfold_locales
    (auto simp: PersistentNonceTracker_GetNonce_def lazyInitialize_nonces Let_def
      DefaultNonceTracker_GetNonce_def DefaultNonceTracker_SetNonce_def DefaultNonceTracker_Reset_def
      DefaultNonceTracker_GetAllNonces_def ValidateNonce_next [unfolded DefaultNonceTracker_GetNonce_def])

text \<open>
  C15: Whatever transactions arrive in whatever order, those the replay protection lets through have,
  for each sender, the nonces c + 1, c + 2, c + 3, ... without gap or repetition, where c is the
  nonce on record at the start (0 for a new account); both trackers behave so.
\<close>

theorem replay_protection:
  assumes "\<And>s. - (2 ^ 63) \<le> DefaultNonceTracker_GetNonce s nt"
    and "\<And>s. DefaultNonceTracker_GetNonce s nt + int (length txs) < 2 ^ 63"
  shows "consecutive (DefaultNonceTracker_GetNonce s nt)
           (nonces_of s (fst (replay_run (\<lambda>a t. (DefaultNonceTracker_GetNonce a t, t)) DefaultNonceTracker_SetNonce txs nt)))
       \<and> consecutive (DefaultNonceTracker_GetNonce s nt)
           (nonces_of s (fst (replay_run PersistentNonceTracker_GetNonce
              (\<lambda>a n t. t\<lparr>pnt_nonces := DefaultNonceTracker_SetNonce a n (pnt_nonces t)\<rparr>) txs
              \<lparr>pnt_nonces = nt, pnt_initialized = init\<rparr>)))"
proof -
  have c: "dnt.current nt u = DefaultNonceTracker_GetNonce u nt"
    "pnt.current \<lparr>pnt_nonces = nt, pnt_initialized = init\<rparr> u = DefaultNonceTracker_GetNonce u nt" for u
    by (simp_all add: dnt.current_def pnt.current_def PersistentNonceTracker_GetNonce_def
        PersistentNonceTracker_lazyInitialize_def Let_def)
  have b: "- (2 ^ 63) \<le> DefaultNonceTracker_GetNonce u nt \<and> DefaultNonceTracker_GetNonce u nt + int (length txs) < 2 ^ 63" for u
    using assms by blast
  show ?thesis
    using dnt.run_consecutive [of nt txs s, unfolded c, OF b]
      pnt.run_consecutive [of "\<lparr>pnt_nonces = nt, pnt_initialized = init\<rparr>" txs s, unfolded c, OF b] by blast
qed

theorem replay_protection_witness:
  "consecutive 0 (nonces_of ''alice'' (fst (replay_run (\<lambda>a t. (DefaultNonceTracker_GetNonce a t, t))
     DefaultNonceTracker_SetNonce [example_tx ''a'' 1, example_tx ''a'' 1, example_tx ''b'' 2] NewDefaultNonceTracker)))"
  using replay_protection [of NewDefaultNonceTracker "[example_tx ''a'' 1, example_tx ''a'' 1, example_tx ''b'' 2]" "''alice''"]
  by (simp add: DefaultNonceTracker_GetNonce_def NewDefaultNonceTracker_def)

section \<open>Batches\<close>

lemma tx_ValidateTransaction_nonce:
  "tx_ValidateTransaction accs schemes now validateNonce tx minFee = None \<Longrightarrow> validateNonce (tx_Sender tx) (tx_Nonce tx) = None"
  by (auto simp: tx_ValidateTransaction_def split: if_splits)

lemma tx_ValidateTransaction_balance:
  "tx_ValidateTransaction accs schemes now validateNonce tx minFee = None \<Longrightarrow>
   \<not> f64_le (tx_Amount tx) f64_0 \<and> \<not> f64_lt (tx_Fee tx) minFee \<and>
   CheckAccountBalance (tx_Sender tx) (f64_add (tx_Amount tx) (tx_Fee tx)) accs"
  by (auto simp: tx_ValidateTransaction_def split: if_splits)

lemma validate_batch_correct:
  assumes "\<And>s. - (2 ^ 63) \<le> DefaultNonceTracker_GetNonce s t \<and>
                DefaultNonceTracker_GetNonce s t + int (length txs) < 2 ^ 63"
    and "\<And>s. consecutive (c s) (nonces_of s valid) \<and> DefaultNonceTracker_GetNonce s t = c s + int (length (nonces_of s valid))"
    and "\<And>tx. tx \<in> set valid \<Longrightarrow> CheckAccountBalance (tx_Sender tx) (f64_add (tx_Amount tx) (tx_Fee tx)) accs"
    and "validate_batch accs schemes nows minFee k txs t results valid = (results', valid')"
  shows "consecutive (c s) (nonces_of s valid')
       \<and> (\<forall>tx \<in> set valid'. CheckAccountBalance (tx_Sender tx) (f64_add (tx_Amount tx) (tx_Fee tx)) accs)
       \<and> (\<exists>new. valid' = valid @ new \<and> subseq new txs)
       \<and> (\<forall>tx \<in> set txs. tx \<in> set valid' \<or> results' (tx_ID tx) \<noteq> None)
       \<and> dom results \<subseteq> dom results'"
  using assms
proof (induction txs arbitrary: k t results valid)
  case (Cons tx txs)
  let ?a = "tx_Sender tx" and ?n = "tx_Nonce tx"
  let ?v = "tx_ValidateTransaction accs schemes (nows k) (\<lambda>a n. DefaultNonceTracker_ValidateNonce a n t) tx minFee"
  show ?case
  proof (cases ?v)
    case None
    let ?t = "DefaultNonceTracker_SetNonce ?a ?n t"
    have n: "?n = DefaultNonceTracker_GetNonce ?a t + 1"
      using tx_ValidateTransaction_nonce [OF None] ValidateNonce_next [of ?a t ?n] Cons.prems(1) [of ?a] by auto
    have g: "DefaultNonceTracker_GetNonce u ?t = (if u = ?a then ?n else DefaultNonceTracker_GetNonce u t)" for u
      by (simp add: DefaultNonceTracker_GetNonce_def DefaultNonceTracker_SetNonce_def)
    have IH: "consecutive (c s) (nonces_of s valid')
       \<and> (\<forall>tx \<in> set valid'. CheckAccountBalance (tx_Sender tx) (f64_add (tx_Amount tx) (tx_Fee tx)) accs)
       \<and> (\<exists>new. valid' = (valid @ [tx]) @ new \<and> subseq new txs)
       \<and> (\<forall>tx \<in> set txs. tx \<in> set valid' \<or> results' (tx_ID tx) \<noteq> None) \<and> dom results \<subseteq> dom results'"
    proof (rule Cons.IH)
      show "- (2 ^ 63) \<le> DefaultNonceTracker_GetNonce u ?t \<and> DefaultNonceTracker_GetNonce u ?t + int (length txs) < 2 ^ 63" for u
        using Cons.prems(1) [of u] n g [of u] by (auto split: if_splits)
      show "consecutive (c u) (nonces_of u (valid @ [tx])) \<and>
          DefaultNonceTracker_GetNonce u ?t = c u + int (length (nonces_of u (valid @ [tx])))" for u
        using Cons.prems(2) [of u] n g [of u] by (auto intro: consecutive_snoc)
      show "CheckAccountBalance (tx_Sender x) (f64_add (tx_Amount x) (tx_Fee x)) accs" if "x \<in> set (valid @ [tx])" for x
        using that Cons.prems(3) tx_ValidateTransaction_balance [OF None] by auto
      show "validate_batch accs schemes nows minFee (Suc k) txs ?t results (valid @ [tx]) = (results', valid')"
        using Cons.prems(4) None by simp
    qed
    then obtain new where "valid' = valid @ tx # new" "subseq new txs" by auto
    with IH show ?thesis by auto
  next
    case (Some err)
    have "consecutive (c s) (nonces_of s valid')
       \<and> (\<forall>tx \<in> set valid'. CheckAccountBalance (tx_Sender tx) (f64_add (tx_Amount tx) (tx_Fee tx)) accs)
       \<and> (\<exists>new. valid' = valid @ new \<and> subseq new txs)
       \<and> (\<forall>tx \<in> set txs. tx \<in> set valid' \<or> results' (tx_ID tx) \<noteq> None)
       \<and> dom (results(tx_ID tx \<mapsto> err)) \<subseteq> dom results'"
    proof (rule Cons.IH)
      show "- (2 ^ 63) \<le> DefaultNonceTracker_GetNonce u t \<and> DefaultNonceTracker_GetNonce u t + int (length txs) < 2 ^ 63" for u
        using Cons.prems(1) [of u] by auto
      show "validate_batch accs schemes nows minFee (Suc k) txs t (results(tx_ID tx \<mapsto> err)) valid = (results', valid')"
        using Cons.prems(4) Some by simp
    qed (use Cons.prems(2,3) in auto)
    then show ?thesis by auto
  qed
qed auto

lemma fold_SetNonce:
  "distinct order \<Longrightarrow> fold (\<lambda>acc t. DefaultNonceTracker_SetNonce acc (the (m acc)) t) order t =
     (\<lambda>a. if a \<in> set order then Some (the (m a)) else t a)"
  by (induction order arbitrary: t) (auto simp: DefaultNonceTracker_SetNonce_def fun_eq_iff)

lemma range_order_SetNonce:
  "range_order m order \<Longrightarrow> fold (\<lambda>acc t. DefaultNonceTracker_SetNonce acc (the (m acc)) t) order NewDefaultNonceTracker = m"
  by (subst fold_SetNonce) (auto simp: range_order_def NewDefaultNonceTracker_def fun_eq_iff domIff)

text \<open>\<open>ValidateTransactionBatch\<close> returns a sub-sequence of the batch in which each sender's nonces
  follow on from the tracker's without a gap, every returned transaction is covered by its sender's
  balance when taken alone, and a transaction that is not returned has an error recorded under its ID.
\<close>

theorem batch_validation:
  assumes "range_order allNonces order"
    and "\<And>s. - (2 ^ 63) \<le> DefaultNonceTracker_GetNonce s allNonces \<and>
              DefaultNonceTracker_GetNonce s allNonces + int (length txs) < 2 ^ 63"
    and "ValidateTransactionBatch accs schemes nows txs minFee allNonces order = (results, validTxs)"
  shows "subseq validTxs txs
       \<and> consecutive (DefaultNonceTracker_GetNonce s allNonces) (nonces_of s validTxs)
       \<and> (\<forall>tx \<in> set validTxs. CheckAccountBalance (tx_Sender tx) (f64_add (tx_Amount tx) (tx_Fee tx)) accs)
       \<and> (\<forall>tx \<in> set txs. tx \<in> set validTxs \<or> results (tx_ID tx) \<noteq> None)"
proof (cases "txs = []")
  case False
  then have v: "validate_batch accs schemes nows minFee 0 txs allNonces Map.empty [] = (results, validTxs)"
    using assms(3) range_order_SetNonce [OF assms(1)] by (simp add: ValidateTransactionBatch_def)
  show ?thesis
    using validate_batch_correct [OF assms(2) _ _ v, of "\<lambda>s. DefaultNonceTracker_GetNonce s allNonces" s] by auto
qed (use assms in \<open>auto simp: ValidateTransactionBatch_def\<close>)

definition rich_accounts :: accounts where
  "rich_accounts = [''alice'' \<mapsto> zero_Account\<lparr>acc_ID := ''alice'', acc_Balance := Fin 10\<rparr>]"

lemma rich_example:
  "ValidateTransactionBatch rich_accounts (\<lambda>_. tag_scheme) (\<lambda>_. 0) [example_tx ''a'' 1, example_tx ''b'' 2] f64_0 Map.empty [] =
     (Map.empty, [example_tx ''a'' 1, example_tx ''b'' 2])"
proof -
  have "rnd 6 = Fin 6" using rnd_int [of 6] by simp
  then show ?thesis
    by (simp add: ValidateTransactionBatch_def tx_ValidateTransaction_def CheckAccountBalance_def rich_accounts_def
        example_tx_def DefaultNonceTracker_ValidateNonce_def DefaultNonceTracker_SetNonce_def NewDefaultNonceTracker_def i64_def)
qed

theorem batch_validation_witness:
  "consecutive 0 (nonces_of ''alice'' (snd (ValidateTransactionBatch rich_accounts (\<lambda>_. tag_scheme) (\<lambda>_. 0)
     [example_tx ''a'' 1, example_tx ''b'' 2] f64_0 Map.empty [])))"
  using batch_validation [OF _ _ rich_example, of "''alice''"] rich_example
  by (simp add: range_order_def DefaultNonceTracker_GetNonce_def)

text \<open>The two transactions of the example are both returned although together, at 6 tokens each with
  their fees, they spend more than the balance of 10: the balance is checked for each transaction alone.\<close>

theorem batch_overspends:
  "\<exists>txs. snd (ValidateTransactionBatch rich_accounts (\<lambda>_. tag_scheme) (\<lambda>_. 0) txs f64_0 Map.empty []) = txs \<and>
     \<not> CheckAccountBalance ''alice'' (f64_add (f64_add (tx_Amount (txs ! 0)) (tx_Fee (txs ! 0)))
          (f64_add (tx_Amount (txs ! 1)) (tx_Fee (txs ! 1)))) rich_accounts"
proof (intro exI conjI)
  show "snd (ValidateTransactionBatch rich_accounts (\<lambda>_. tag_scheme) (\<lambda>_. 0)
      [example_tx ''a'' 1, example_tx ''b'' 2] f64_0 Map.empty []) = [example_tx ''a'' 1, example_tx ''b'' 2]"
    by (simp add: rich_example)
  have "rnd 6 = Fin 6" "rnd 12 = Fin 12" using rnd_int [of 6] rnd_int [of 12] by simp_all
  then show "\<not> CheckAccountBalance ''alice'' (f64_add (f64_add (tx_Amount ([example_tx ''a'' 1, example_tx ''b'' 2] ! 0))
      (tx_Fee ([example_tx ''a'' 1, example_tx ''b'' 2] ! 0))) (f64_add (tx_Amount ([example_tx ''a'' 1, example_tx ''b'' 2] ! 1))
      (tx_Fee ([example_tx ''a'' 1, example_tx ''b'' 2] ! 1)))) rich_accounts"
    by (simp add: CheckAccountBalance_def rich_accounts_def example_tx_def)
qed

end
