(* ===== verification/TxManager.thy ===== *)
theory TxManager
  imports TxUtils TokenSupplyTheory
begin

text \<open>
  The transaction manager of \<open>transaction/transaction_manager.go\<close>: it creates transactions, puts
  them into the pool, and commits them to the ledger when consensus has finalized them. The ledger is
  an interface; its three methods the manager calls are a record and its state a type variable. What
  an operation reads from its surroundings is the record \<open>ManagerEnv\<close>, with the clock readings in
  the order in which the operation makes them. The background goroutines act at the ticks of a
  timer: one tick is one operation.
\<close>

section \<open>Data\<close>

datatype tm_error =
    ErrFeeTooLow
  | ErrNonceTooLow int int
  | ErrSigningFailed crypto_error
  | TmErrNew string
  | TmErrCommon common_error
  | TmErrTx tx_error
  | TmErrPool pool_error
  | TmErrWrap string tm_error

record TransactionStats =
  st_TotalProcessed :: uint64
  st_TotalRejected :: uint64
  st_TotalConfirmed :: uint64
  st_AvgProcessingTime :: duration
  st_MaxProcessingTime :: duration
  st_AvgConfirmationTime :: duration
  st_LastProcessedTime :: int

record TransactionManager =
  tm_pool :: TransactionPool
  tm_minFeeThreshold :: float64
  tm_nonceTracker :: DefaultNonceTracker
  tm_conflictResolutionEnabled :: bool
  tm_cryptoManager :: "int option"
  tm_stats :: TransactionStats
  tm_maxTxsPerBlock :: int
  tm_maxTxSize :: int
  tm_maxFutureNonce :: int
  tm_maxTxAge :: duration
  tm_isRunning :: bool
  tm_stopped :: bool

record 'l LedgerAPI =
  l_AddTransaction :: "Transaction \<Rightarrow> 'l \<Rightarrow> common_error option \<times> 'l"
  l_UpdateAccountBalance :: "string \<Rightarrow> float64 \<Rightarrow> 'l \<Rightarrow> common_error option \<times> 'l"
  l_IsTransactionCommitted :: "string \<Rightarrow> 'l \<Rightarrow> bool"

record ManagerEnv =
  me_pool :: PoolEnv
  me_clock :: "nat \<Rightarrow> int"
  me_encKey :: string
  me_open :: aead_open
  me_timedOut :: bool

section \<open>Construction, start and stop\<close>

definition zero_TransactionStats :: TransactionStats where
  "zero_TransactionStats =
     \<lparr>st_TotalProcessed = 0, st_TotalRejected = 0, st_TotalConfirmed = 0, st_AvgProcessingTime = 0,
      st_MaxProcessingTime = 0, st_AvgConfirmationTime = 0, st_LastProcessedTime = 0\<rparr>"

definition WithMaxTransactionsPerBlock :: "int \<Rightarrow> TransactionManager \<Rightarrow> TransactionManager" where
  "WithMaxTransactionsPerBlock mx tm = (if mx > 0 then tm\<lparr>tm_maxTxsPerBlock := mx\<rparr> else tm)"

definition WithMaxTransactionSize :: "int \<Rightarrow> TransactionManager \<Rightarrow> TransactionManager" where
  "WithMaxTransactionSize maxSize tm = (if maxSize > 0 then tm\<lparr>tm_maxTxSize := maxSize\<rparr> else tm)"

definition WithMaxFutureNonce :: "int \<Rightarrow> TransactionManager \<Rightarrow> TransactionManager" where
  "WithMaxFutureNonce mx tm = (if mx > 0 then tm\<lparr>tm_maxFutureNonce := mx\<rparr> else tm)"

definition WithMaxTransactionAge :: "duration \<Rightarrow> TransactionManager \<Rightarrow> TransactionManager" where
  "WithMaxTransactionAge maxAge tm = (if maxAge > 0 then tm\<lparr>tm_maxTxAge := maxAge\<rparr> else tm)"

definition WithCryptoManager :: "int option \<Rightarrow> TransactionManager \<Rightarrow> TransactionManager" where
  "WithCryptoManager cm tm = tm\<lparr>tm_cryptoManager := cm\<rparr>"

definition NewTransactionManager ::
    "TransactionPool \<Rightarrow> float64 \<Rightarrow> bool \<Rightarrow> (TransactionManager \<Rightarrow> TransactionManager) list \<Rightarrow> TransactionManager" where
  "NewTransactionManager txPool minFeeThreshold conflictResolutionEnabled options =
     fold (\<lambda>option. option) options
       \<lparr>tm_pool = txPool, tm_minFeeThreshold = minFeeThreshold, tm_nonceTracker = NewDefaultNonceTracker,
        tm_conflictResolutionEnabled = conflictResolutionEnabled, tm_cryptoManager = None,
        tm_stats = zero_TransactionStats, tm_maxTxsPerBlock = 5000, tm_maxTxSize = 1024 * 1024,
        tm_maxFutureNonce = 10, tm_maxTxAge = 24 * hour, tm_isRunning = False, tm_stopped = False\<rparr>"

definition TransactionManager_Start :: "TransactionManager \<Rightarrow> tm_error option \<times> TransactionManager" where
  "TransactionManager_Start tm =
     (if tm_isRunning tm then (Some (TmErrNew ''transaction manager is already running''), tm)
      else (None, tm\<lparr>tm_isRunning := True\<rparr>))"

text \<open>Closing the channel a second time panics: the outer \<open>None\<close>.\<close>

definition TransactionManager_Stop :: "TransactionManager \<Rightarrow> (tm_error option \<times> TransactionManager) option" where
  "TransactionManager_Stop tm =
     (if \<not> tm_isRunning tm then Some (Some (TmErrNew ''transaction manager is not running''), tm)
      else if tm_stopped tm then None
      else Some (None, tm\<lparr>tm_isRunning := False, tm_stopped := True\<rparr>))"

section \<open>Validation and signing\<close>

definition TransactionManager_ValidateTransaction ::
    "ManagerEnv \<Rightarrow> int \<Rightarrow> Transaction option \<Rightarrow> TransactionManager \<Rightarrow> tm_error option" where
  "TransactionManager_ValidateTransaction env clk txo tm =
     (case txo of
        None \<Rightarrow> Some (TmErrNew ''transaction cannot be nil'')
      | Some tx \<Rightarrow>
          let now = unix clk;
              currentNonce = DefaultNonceTracker_GetNonce (tx_Sender tx) (tm_nonceTracker tm) in
          if f64_le (tx_Amount tx) f64_0 then Some (TmErrNew ''transaction amount must be positive'')
          else if f64_lt (tx_Fee tx) (tm_minFeeThreshold tm) then Some ErrFeeTooLow
          else if tx_Sender tx = '''' \<or> tx_Receiver tx = '''' then Some (TmErrNew ''sender and receiver cannot be empty'')
          else if tx_Nonce tx \<le> 0 then Some (TmErrNew ''transaction nonce must be positive'')
          else if int (length (tx_Data tx)) > tm_maxTxSize tm then Some (TmErrNew ''transaction data exceeds maximum size'')
          else if tx_Timestamp tx > i64 (now + 300) then Some (TmErrNew ''transaction timestamp is in the future'')
          else if i64 (now - tx_Timestamp tx) > f64_to_int64 (pe_conv (me_pool env)) (duration_seconds (tm_maxTxAge tm))
            then Some (TmErrNew ''transaction is too old'')
          else if \<not> CheckAccountBalance (tx_Sender tx) (f64_add (tx_Amount tx) (tx_Fee tx)) (pe_accounts (me_pool env))
            then Some (TmErrCommon ErrInsufficientFunds)
          else if tx_Nonce tx \<le> currentNonce then Some (ErrNonceTooLow (tx_Nonce tx) currentNonce)
          else if tx_Nonce tx > i64 (currentNonce + tm_maxFutureNonce tm) then Some (TmErrNew ''nonce too high'')
          else if tx_SmartContractID tx \<noteq> '''' \<and> length (tx_Data tx) = 0
            then Some (TmErrNew ''smart contract transactions must include data'')
          else None)"

definition TransactionManager_signTransaction ::
    "ManagerEnv \<Rightarrow> Transaction \<Rightarrow> TransactionManager \<Rightarrow> tm_error + Transaction" where
  "TransactionManager_signTransaction env tx tm =
     (case GetAccount (tx_Sender tx) (pe_accounts (me_pool env)) of
        None \<Rightarrow> Inl (TmErrNew ''cannot sign transaction: sender account not found'')
      | Some acc \<Rightarrow>
          let message = string_bytes (tx_ID tx);
              dilithiumPair = \<lparr>kp_PublicKey = acc_PublicKey acc, kp_PrivateKey = [], kp_Level = 0\<rparr>;
              byManager = (case tm_cryptoManager tm of
                 None \<Rightarrow> None
               | Some level \<Rightarrow>
                   (case CryptoManager_SignWithContext (pe_schemes (me_pool env)) level (me_timedOut env) (Some dilithiumPair) message of
                      Inl e \<Rightarrow> None
                    | Inr signature \<Rightarrow> if length signature > 0 then Some signature else None)) in
          case byManager of
            Some signature \<Rightarrow> Inr (tx\<lparr>tx_Signature := signature\<rparr>)
          | None \<Rightarrow>
              if me_encKey env = '''' then Inl (TmErrNew ''missing encryption key for wallet access'')
              else case Account_GetDecryptedPrivateKey (me_open env) (me_encKey env) acc of
                Inl e \<Rightarrow> Inl (TmErrCommon e)
              | Inr privKey \<Rightarrow>
                  (case SignDataWithDilithium (pe_schemes (me_pool env)) privKey message of
                     Inl e \<Rightarrow> Inl (ErrSigningFailed e)
                   | Inr signature \<Rightarrow> Inr (tx\<lparr>tx_Signature := signature\<rparr>)))"

section \<open>Creating and processing transactions\<close>

definition TransactionManager_logRejection :: "TransactionManager \<Rightarrow> TransactionManager" where
  "TransactionManager_logRejection tm =
     tm\<lparr>tm_stats := (tm_stats tm)\<lparr>st_TotalRejected := st_TotalRejected (tm_stats tm) + 1\<rparr>\<rparr>"

text \<open>The moving average of the statistics: nine parts of the old value and one of the new.\<close>

definition moving_average :: "duration \<Rightarrow> duration \<Rightarrow> duration" where
  "moving_average avg d = (if avg = 0 then d else go_div (i64 (avg * 9 + d)) 10)"

definition TransactionManager_updateProcessingStats ::
    "int \<Rightarrow> int \<Rightarrow> int \<Rightarrow> TransactionManager \<Rightarrow> TransactionManager" where
  "TransactionManager_updateProcessingStats startTime now1 now2 tm =
     (let duration = now1 - startTime; s = tm_stats tm in
      tm\<lparr>tm_stats := s\<lparr>st_TotalProcessed := st_TotalProcessed s + 1,
           st_AvgProcessingTime := moving_average (st_AvgProcessingTime s) duration,
           st_MaxProcessingTime := (if duration > st_MaxProcessingTime s then duration else st_MaxProcessingTime s),
           st_LastProcessedTime := now2\<rparr>\<rparr>)"

definition TransactionManager_CreateTransaction ::
    "ManagerEnv \<Rightarrow> string \<Rightarrow> string \<Rightarrow> float64 \<Rightarrow> float64 \<Rightarrow> bytes \<Rightarrow> TransactionManager \<Rightarrow>
     ((tm_error + Transaction) \<times> TransactionManager) option" where
  "TransactionManager_CreateTransaction env sender receiver amount fee data tm =
     (if sender = '''' \<or> receiver = '''' then Some (Inl (TmErrNew ''sender and receiver cannot be empty''), tm)
      else if f64_le amount f64_0 then Some (Inl (TmErrNew ''amount must be positive''), tm)
      else if f64_lt fee (tm_minFeeThreshold tm) then Some (Inl ErrFeeTooLow, tm)
      else
        let startTime = me_clock env 0;
            txID = GenerateTransactionID (me_clock env 1) (me_clock env 2) sender receiver amount;
            timestamp = unix (me_clock env 3);
            currentNonce = DefaultNonceTracker_GetNonce sender (tm_nonceTracker tm);
            tx = \<lparr>tx_ID = txID, tx_Sender = sender, tx_Receiver = receiver, tx_Amount = amount,
                  tx_Timestamp = timestamp, tx_Signature = [], tx_Priority = 0, tx_Fee = fee, tx_ExpiryTime = 0,
                  tx_SmartContractID = '''', tx_Metadata = [], tx_Data = data, tx_Nonce = i64 (currentNonce + 1),
                  tx_SignerID = '''', tx_BlockHeight = 0, tx_Status = ''pending''\<rparr> in
        case TransactionManager_ValidateTransaction env (me_clock env 4) (Some tx) tm of
          Some err \<Rightarrow> Some (Inl (TmErrWrap ''validation error'' err), TransactionManager_logRejection tm)
        | None \<Rightarrow>
            (case TransactionManager_signTransaction env tx tm of
               Inl err \<Rightarrow> Some (Inl (TmErrWrap ''signing error'' err), TransactionManager_logRejection tm)
             | Inr tx1 \<Rightarrow>
                 (case TransactionPool_AddTransaction (me_pool env) tx1 (tm_pool tm) of
                    None \<Rightarrow> None
                  | Some (Some err, pool1) \<Rightarrow>
                      Some (Inl (TmErrWrap ''pool add error'' (TmErrPool err)), TransactionManager_logRejection (tm\<lparr>tm_pool := pool1\<rparr>))
                  | Some (None, pool1) \<Rightarrow>
                      Some (Inr tx1,
                        TransactionManager_updateProcessingStats startTime (me_clock env 5) (me_clock env 6)
                          (tm\<lparr>tm_pool := pool1,
                              tm_nonceTracker := DefaultNonceTracker_SetNonce sender (tx_Nonce tx1) (tm_nonceTracker tm)\<rparr>)))))"

definition TransactionManager_updateBalances ::
    "'l LedgerAPI \<Rightarrow> Transaction \<Rightarrow> 'l \<Rightarrow> tm_error option \<times> 'l" where
  "TransactionManager_updateBalances ledger tx l =
     (case l_UpdateAccountBalance ledger (tx_Sender tx) (f64_neg (f64_add (tx_Amount tx) (tx_Fee tx))) l of
        (Some err, l1) \<Rightarrow> (Some (TmErrWrap ''failed to update sender balance'' (TmErrCommon err)), l1)
      | (None, l1) \<Rightarrow>
          (case l_UpdateAccountBalance ledger (tx_Receiver tx) (tx_Amount tx) l1 of
             (Some err, l2) \<Rightarrow> (Some (TmErrWrap ''failed to update receiver balance'' (TmErrCommon err)), l2)
           | (None, l2) \<Rightarrow> (None, l2)))"

definition TransactionManager_ProcessTransaction ::
    "ManagerEnv \<Rightarrow> 'l LedgerAPI \<Rightarrow> string \<Rightarrow> TransactionManager \<times> 'l \<Rightarrow> (tm_error option \<times> TransactionManager \<times> 'l) option" where
  "TransactionManager_ProcessTransaction env ledger txID state =
     (let (tm, l) = state in
      case TransactionPool_GetTransaction txID (tm_pool tm) of
        Inl err \<Rightarrow> Some (Some (TmErrWrap ''transaction not found in pool'' (TmErrPool err)), tm, l)
      | Inr tx \<Rightarrow>
          (case ReplayProtectionMiddleware (\<lambda>a t. (DefaultNonceTracker_GetNonce a t, t)) DefaultNonceTracker_SetNonce tx (tm_nonceTracker tm) of
             (Some err, tracker) \<Rightarrow> Some (Some (TmErrWrap ''replay protection error'' (TmErrTx err)), tm\<lparr>tm_nonceTracker := tracker\<rparr>, l)
           | (None, tracker) \<Rightarrow>
               (case TransactionPool_RemoveTransaction (tx_ID tx) (tm_pool tm) of
                  None \<Rightarrow> None
                | Some (_, pool1) \<Rightarrow>
                    let tm1 = tm\<lparr>tm_nonceTracker := tracker, tm_pool := pool1\<rparr>;
                        tx1 = tx\<lparr>tx_Status := ''committed''\<rparr> in
                    case l_AddTransaction ledger tx1 l of
                      (Some err, l1) \<Rightarrow> Some (Some (TmErrWrap ''ledger commit error'' (TmErrCommon err)), tm1, l1)
                    | (None, l1) \<Rightarrow>
                        (case TransactionManager_updateBalances ledger tx1 l1 of
                           (Some err, l2) \<Rightarrow> Some (Some (TmErrWrap ''balance update error'' err), tm1, l2)
                         | (None, l2) \<Rightarrow>
                             let s = tm_stats tm1; duration = me_clock env 1 - me_clock env 0 in
                             Some (None,
                               tm1\<lparr>tm_stats := s\<lparr>st_TotalConfirmed := st_TotalConfirmed s + 1,
                                     st_AvgConfirmationTime := moving_average (st_AvgConfirmationTime s) duration\<rparr>\<rparr>, l2)))))"

section \<open>Background work and queries\<close>

definition TransactionManager_HandleTransactionConflicts ::
    "string list \<Rightarrow> ((string \<times> (string \<times> nat) list) list \<Rightarrow> (string \<times> (string \<times> nat) list) list) \<Rightarrow>
     ((string \<times> nat) list \<Rightarrow> (string \<times> nat) list) \<Rightarrow> TransactionManager \<Rightarrow> TransactionManager option" where
  "TransactionManager_HandleTransactionConflicts ids visit_sets visit tm =
     (if \<not> tm_conflictResolutionEnabled tm then Some tm
      else map_option (\<lambda>pool. tm\<lparr>tm_pool := pool\<rparr>) (TransactionPool_HandleConflicts ids visit_sets visit (tm_pool tm)))"

text \<open>One tick of \<open>cleanupExpiredTransactions\<close>.\<close>

definition TransactionManager_cleanupExpiredTransactions ::
    "ManagerEnv \<Rightarrow> (string \<Rightarrow> int) \<Rightarrow> string list \<Rightarrow> TransactionManager \<Rightarrow> TransactionManager option" where
  "TransactionManager_cleanupExpiredTransactions env now_of ids tm =
     map_option (\<lambda>(removed, pool). tm\<lparr>tm_pool := pool\<rparr>)
       (TransactionPool_RemoveExpiredTransactions (me_pool env) now_of ids (tm_maxTxAge tm) (tm_pool tm))"

text \<open>One tick of \<open>revalidatePendingTransactions\<close>: \<open>now_of\<close> gives the two clock readings made for
  an item.\<close>

fun revalidate_loop ::
    "ManagerEnv \<Rightarrow> (nat \<Rightarrow> int \<times> int) \<Rightarrow> nat list \<Rightarrow> TransactionManager \<Rightarrow> TransactionManager option" where
  "revalidate_loop env now_of [] tm = Some tm"
| "revalidate_loop env now_of (r # rs) tm =
     (let tx = ti_tx (tp_store (tm_pool tm) r) in
      if fst (now_of r) - tx_Timestamp tx * second < 5 * minute then revalidate_loop env now_of rs tm
      else case TransactionManager_ValidateTransaction env (snd (now_of r)) (Some tx) tm of
        None \<Rightarrow> revalidate_loop env now_of rs tm
      | Some err \<Rightarrow>
          (case TransactionPool_RemoveTransaction (tx_ID tx) (tm_pool tm) of
             None \<Rightarrow> None
           | Some (_, pool1) \<Rightarrow> revalidate_loop env now_of rs (tm\<lparr>tm_pool := pool1\<rparr>)))"

definition TransactionManager_revalidatePendingTransactions ::
    "ManagerEnv \<Rightarrow> (nat \<Rightarrow> int \<times> int) \<Rightarrow> string list \<Rightarrow> TransactionManager \<Rightarrow> TransactionManager option" where
  "TransactionManager_revalidatePendingTransactions env now_of ids tm =
     revalidate_loop env now_of (TransactionPool_GetAllTransactions ids (tm_pool tm)) tm"

definition TransactionManager_GetTransactionStatus ::
    "'l LedgerAPI \<Rightarrow> string \<Rightarrow> TransactionManager \<times> 'l \<Rightarrow> string \<times> tm_error option" where
  "TransactionManager_GetTransactionStatus ledger txID state =
     (if TransactionPool_HasTransaction txID (tm_pool (fst state)) then (''Pending'', None)
      else if l_IsTransactionCommitted ledger txID (snd state) then (''Committed'', None)
      else (''Unknown'', Some (TmErrNew ''transaction not found'')))"

definition TransactionManager_GetPendingTransactions :: "string list \<Rightarrow> TransactionManager \<Rightarrow> Transaction list" where
  "TransactionManager_GetPendingTransactions ids tm =
     map (\<lambda>r. ti_tx (tp_store (tm_pool tm) r)) (TransactionPool_GetAllTransactions ids (tm_pool tm))"

definition TransactionManager_GetPoolSize :: "TransactionManager \<Rightarrow> nat" where
  "TransactionManager_GetPoolSize tm = TransactionPool_PoolSize (tm_pool tm)"

definition TransactionManager_GetStats :: "TransactionManager \<Rightarrow> TransactionStats" where
  "TransactionManager_GetStats tm = tm_stats tm"

definition TransactionManager_GetPendingTransactionsByAccount ::
    "string list \<Rightarrow> string \<Rightarrow> TransactionManager \<Rightarrow> tm_error + Transaction list" where
  "TransactionManager_GetPendingTransactionsByAccount ids accountID tm =
     (if accountID = '''' then Inl (TmErrNew ''account ID cannot be empty'')
      else Inr (filter (\<lambda>tx. tx_Sender tx = accountID \<or> tx_Receiver tx = accountID)
                  (TransactionManager_GetPendingTransactions ids tm)))"

text \<open>The limit is not used, and an error gives the empty list.\<close>

definition TransactionManager_GetTransactionsByAccount ::
    "string list \<Rightarrow> string \<Rightarrow> int \<Rightarrow> TransactionManager \<Rightarrow> Transaction list" where
  "TransactionManager_GetTransactionsByAccount ids accountID limit tm =
     (case TransactionManager_GetPendingTransactionsByAccount ids accountID tm of Inl _ \<Rightarrow> [] | Inr txs \<Rightarrow> txs)"

definition TransactionManager_EstimateFee :: "TransactionManager \<Rightarrow> float64" where
  "TransactionManager_EstimateFee tm =
     (let size = TransactionPool_PoolSize (tm_pool tm);
          maxSize = TransactionPool_GetMaxPoolSize (tm_pool tm);
          utilization = f64_div (f64_of_int (int size)) (f64_of_int maxSize)
      in f64_mul (tm_minFeeThreshold tm) (f64_add (Fin 1) utilization))"

definition TransactionManager_SuggestNonce :: "string \<Rightarrow> TransactionManager \<Rightarrow> int" where
  "TransactionManager_SuggestNonce sender tm = i64 (DefaultNonceTracker_GetNonce sender (tm_nonceTracker tm) + 1)"

section \<open>What the manager's operations do\<close>

lemma stats_frame [simp]:
  "tm_pool (TransactionManager_logRejection tm) = tm_pool tm"
  "tm_nonceTracker (TransactionManager_logRejection tm) = tm_nonceTracker tm"
  "tm_pool (TransactionManager_updateProcessingStats a b c tm) = tm_pool tm"
  "tm_nonceTracker (TransactionManager_updateProcessingStats a b c tm) = tm_nonceTracker tm"
  by (simp_all add: TransactionManager_logRejection_def TransactionManager_updateProcessingStats_def Let_def)

lemma signTransaction_fields:
  "TransactionManager_signTransaction env tx tm = Inr tx1 \<Longrightarrow> \<exists>sig. tx1 = tx\<lparr>tx_Signature := sig\<rparr>"
  by (auto simp: TransactionManager_signTransaction_def Let_def split: option.splits sum.splits if_splits)

text \<open>The outcomes of \<open>CreateTransaction\<close>: refused before the pool is touched, refused by the pool,
  or accepted.\<close>

lemma CreateTransaction_cases:
  assumes "TransactionManager_CreateTransaction env sender receiver amount fee data tm = Some (res, tm')"
  obtains (refused) e where "res = Inl e" "tm_pool tm' = tm_pool tm" "tm_nonceTracker tm' = tm_nonceTracker tm"
    | (pool) tx e where "TransactionPool_AddTransaction (me_pool env) tx (tm_pool tm) = Some (Some e, tm_pool tm')"
        "res = Inl (TmErrWrap ''pool add error'' (TmErrPool e))" "tm_nonceTracker tm' = tm_nonceTracker tm"
    | (accepted) tx where "TransactionPool_AddTransaction (me_pool env) tx (tm_pool tm) = Some (None, tm_pool tm')"
        "res = Inr tx" "tx_Sender tx = sender" "tx_Receiver tx = receiver"
        "tx_Nonce tx = i64 (DefaultNonceTracker_GetNonce sender (tm_nonceTracker tm) + 1)"
        "tm_nonceTracker tm' = (tm_nonceTracker tm)(sender \<mapsto> tx_Nonce tx)"
        "CheckAccountBalance sender (f64_add amount fee) (pe_accounts (me_pool env))"
proof -
  define tx where "tx = \<lparr>tx_ID = GenerateTransactionID (me_clock env 1) (me_clock env 2) sender receiver amount,
      tx_Sender = sender, tx_Receiver = receiver, tx_Amount = amount,
      tx_Timestamp = unix (me_clock env 3), tx_Signature = [], tx_Priority = 0, tx_Fee = fee, tx_ExpiryTime = 0,
      tx_SmartContractID = [], tx_Metadata = [], tx_Data = data,
      tx_Nonce = i64 (DefaultNonceTracker_GetNonce sender (tm_nonceTracker tm) + 1),
      tx_SignerID = [], tx_BlockHeight = 0, tx_Status = ''pending''\<rparr>"
  note create = assms [unfolded TransactionManager_CreateTransaction_def Let_def, folded tx_def]
  let ?bad = "sender = [] \<or> receiver = [] \<or> f64_le amount f64_0 \<or> f64_lt fee (tm_minFeeThreshold tm)"
  let ?v = "TransactionManager_ValidateTransaction env (me_clock env 4) (Some tx) tm"
  let ?s = "TransactionManager_signTransaction env tx tm"
  consider (1) "?bad \<or> ?v \<noteq> None \<or> (\<exists>e. ?s = Inl e)"
    | (2) tx1 where "\<not> ?bad" "?v = None" "?s = Inr tx1" by (cases ?s) auto
  then show thesis
  proof cases
    case 1
    then show thesis
      using create refused by (auto split: if_splits option.splits)
  next
    case 2
    obtain sig where tx1: "tx1 = tx\<lparr>tx_Signature := sig\<rparr>" using signTransaction_fields [OF 2(3)] by blast
    have bal: "CheckAccountBalance sender (f64_add amount fee) (pe_accounts (me_pool env))"
      using 2(2) by (auto simp: TransactionManager_ValidateTransaction_def tx_def Let_def split: if_splits)
    have fields: "tx_Sender tx1 = sender" "tx_Receiver tx1 = receiver"
      "tx_Nonce tx1 = i64 (DefaultNonceTracker_GetNonce sender (tm_nonceTracker tm) + 1)"
      by (simp_all add: tx1 tx_def)
    obtain e pool1 where add: "TransactionPool_AddTransaction (me_pool env) tx1 (tm_pool tm) = Some (e, pool1)"
      using create 2 by (cases "TransactionPool_AddTransaction (me_pool env) tx1 (tm_pool tm)") auto
    show thesis
    proof (cases e)
      case None
      then show thesis
        using create 2 add fields bal accepted [of tx1] by (auto simp: DefaultNonceTracker_SetNonce_def)
    next
      case (Some err)
      then show thesis
        using create 2 add pool [of tx1 err] by auto
    qed
  qed
qed

section \<open>Every history of the manager\<close>

text \<open>The manager with a ledger, made with any of its options, used through its own operations on a pool that nothing else fills;
  the index counts the calls of \<open>CreateTransaction\<close>.\<close>

definition manager_options :: "(TransactionManager \<Rightarrow> TransactionManager) set" where
  "manager_options = range WithMaxTransactionsPerBlock \<union> range WithMaxTransactionSize \<union> range WithMaxFutureNonce \<union>
     range WithMaxTransactionAge \<union> range WithCryptoManager"

lemma manager_options_frame:
  "set opts \<subseteq> manager_options \<Longrightarrow> tm_pool (NewTransactionManager pool minFee cr opts) = pool \<and>
     tm_nonceTracker (NewTransactionManager pool minFee cr opts) = NewDefaultNonceTracker"
proof -
  have "set opts \<subseteq> manager_options \<Longrightarrow> tm_pool (fold (\<lambda>option. option) opts tm) = tm_pool tm \<and>
     tm_nonceTracker (fold (\<lambda>option. option) opts tm) = tm_nonceTracker tm" for tm
    by (induction opts arbitrary: tm)
       (auto simp: manager_options_def WithMaxTransactionsPerBlock_def WithMaxTransactionSize_def WithMaxFutureNonce_def
        WithMaxTransactionAge_def WithCryptoManager_def)
  then show "set opts \<subseteq> manager_options \<Longrightarrow> ?thesis" by (simp add: NewTransactionManager_def)
qed

inductive manager_reachable :: "'l LedgerAPI \<Rightarrow> nat \<Rightarrow> TransactionManager \<times> 'l \<Rightarrow> bool" for ledger :: "'l LedgerAPI" where
  new: "NewTransactionPool now s0 mx to minF maxF ed [WithKeyManager km, WithConflictResolution cr] = Some pool \<Longrightarrow>
     set opts \<subseteq> manager_options \<Longrightarrow> manager_reachable ledger 0 (NewTransactionManager pool minFee cr' opts, l)"
| create: "manager_reachable ledger n (tm, l) \<Longrightarrow>
     TransactionManager_CreateTransaction env sender receiver amount fee data tm = Some (res, tm') \<Longrightarrow>
     manager_reachable ledger (Suc n) (tm', l)"
| process: "manager_reachable ledger n st \<Longrightarrow>
     TransactionManager_ProcessTransaction env ledger i st = Some (e, st') \<Longrightarrow> manager_reachable ledger n st'"
| conflicts: "manager_reachable ledger n (tm, l) \<Longrightarrow> range_order (tp_txMap (tm_pool tm)) ids \<Longrightarrow>
     (\<And>xs. set (visit_sets xs) = set xs) \<Longrightarrow>
     TransactionManager_HandleTransactionConflicts ids visit_sets visit tm = Some tm' \<Longrightarrow>
     manager_reachable ledger n (tm', l)"
| cleanup: "manager_reachable ledger n (tm, l) \<Longrightarrow> range_order (tp_txMap (tm_pool tm)) ids \<Longrightarrow>
     TransactionManager_cleanupExpiredTransactions env now_of ids tm = Some tm' \<Longrightarrow> manager_reachable ledger n (tm', l)"
| revalidate: "manager_reachable ledger n (tm, l) \<Longrightarrow> range_order (tp_txMap (tm_pool tm)) ids \<Longrightarrow>
     TransactionManager_revalidatePendingTransactions env clocks ids tm = Some tm' \<Longrightarrow> manager_reachable ledger n (tm', l)"

definition manager_inv :: "nat \<Rightarrow> TransactionManager \<Rightarrow> bool" where
  "manager_inv n tm \<longleftrightarrow>
     pool_inv n (tm_pool tm) \<and>
     (\<forall>i r. tp_txMap (tm_pool tm) i = Some r \<longrightarrow>
        tx_Nonce (item_tx (tm_pool tm) r) \<le> DefaultNonceTracker_GetNonce (tx_Sender (item_tx (tm_pool tm) r)) (tm_nonceTracker tm)) \<and>
     (\<forall>s. 0 \<le> DefaultNonceTracker_GetNonce s (tm_nonceTracker tm) \<and> DefaultNonceTracker_GetNonce s (tm_nonceTracker tm) \<le> int n)"

lemma manager_inv_pool:
  assumes "manager_inv n tm" and "pool_inv n p"
    and "\<And>i r. tp_txMap p i = Some r \<Longrightarrow> tp_txMap (tm_pool tm) i = Some r \<and> item_tx p r = item_tx (tm_pool tm) r"
  shows "manager_inv n (tm\<lparr>tm_pool := p\<rparr>)"
  using assms by (fastforce simp: manager_inv_def)

lemma restrict_map_le: "m |` A \<subseteq>\<^sub>m m"
  by (auto simp: map_le_def restrict_map_def split: if_splits)

lemma Create_inv:
  assumes inv: "manager_inv n tm" and n: "int (Suc n) < 2 ^ 63"
    and "TransactionManager_CreateTransaction env sender receiver amount fee data tm = Some (res, tm')"
  shows "manager_inv (Suc n) tm'"
proof -
  have pool: "pool_inv n (tm_pool tm)" using inv by (simp add: manager_inv_def)
  let ?c = "\<lambda>s. DefaultNonceTracker_GetNonce s (tm_nonceTracker tm)"
  have c: "0 \<le> ?c s" "?c s \<le> int n" for s using inv by (simp_all add: manager_inv_def)
  show ?thesis
    using assms(3)
  proof (cases rule: CreateTransaction_cases)
    case (refused e)
    then show ?thesis using inv pool_inv_Suc by (auto simp: manager_inv_def intro: order_trans)
  next
    case (pool tx e)
    then have p: "pool_inv (Suc n) (tm_pool tm')"
      "\<And>i r. tp_txMap (tm_pool tm') i = Some r \<Longrightarrow> tp_txMap (tm_pool tm) i = Some r \<and> item_tx (tm_pool tm') r = item_tx (tm_pool tm) r"
      using AddTransaction_inv [OF \<open>pool_inv n (tm_pool tm)\<close> n, of "me_pool env" tx] by auto
    show ?thesis
      unfolding manager_inv_def pool(3)
    proof (intro conjI allI impI)
      show "tx_Nonce (item_tx (tm_pool tm') r) \<le> ?c (tx_Sender (item_tx (tm_pool tm') r))"
        if "tp_txMap (tm_pool tm') i = Some r" for i r
        using p(2) [OF that] inv by (auto simp: manager_inv_def)
      show "?c s \<le> int (Suc n)" for s using c(2) [of s] by simp
    qed (use p(1) c(1) in auto)
  next
    case (accepted tx)
    have tx: "tx_Nonce tx = ?c sender + 1" using accepted(5) c [of sender] n by (subst i64_id [symmetric]) auto
    have g: "DefaultNonceTracker_GetNonce s (tm_nonceTracker tm') = (if s = sender then ?c sender + 1 else ?c s)" for s
      using accepted(6) tx by (simp add: DefaultNonceTracker_GetNonce_def)
    have "tx_Nonce (item_tx (tm_pool tm') r) \<le> DefaultNonceTracker_GetNonce (tx_Sender (item_tx (tm_pool tm') r)) (tm_nonceTracker tm')"
      if ir: "tp_txMap (tm_pool tm') i = Some r" for i r
    proof -
      consider "item_tx (tm_pool tm') r = tx" | "tp_txMap (tm_pool tm) i = Some r" "item_tx (tm_pool tm') r = item_tx (tm_pool tm) r"
        using AddTransaction_inv [OF pool n, of "me_pool env" tx] accepted(1) ir by auto
      then show ?thesis
      proof cases
        case 2
        then have "tx_Nonce (item_tx (tm_pool tm) r) \<le> ?c (tx_Sender (item_tx (tm_pool tm) r))"
          using inv by (auto simp: manager_inv_def)
        then show ?thesis using 2 by (auto simp: g)
      qed (simp add: g tx accepted(3))
    qed
    moreover have "pool_inv (Suc n) (tm_pool tm')"
      using AddTransaction_inv [OF pool n, of "me_pool env" tx] accepted by auto
    moreover have "?c s \<le> 1 + int n" for s using c(2) [of s] by simp
    ultimately show ?thesis using c by (auto simp: manager_inv_def g)
  qed
qed

lemma Process_rejected:
  assumes inv: "manager_inv n tm" and n: "int (Suc n) < 2 ^ 63"
  shows "\<exists>err. TransactionManager_ProcessTransaction env ledger i (tm, l) = Some (Some err, tm, l)"
proof (cases "tp_txMap (tm_pool tm) i")
  case (Some r)
  let ?tx = "item_tx (tm_pool tm) r"
  let ?c = "DefaultNonceTracker_GetNonce (tx_Sender ?tx) (tm_nonceTracker tm)"
  have "0 \<le> ?c" "?c \<le> int n" using inv by (simp_all add: manager_inv_def)
  then have "i64 (?c + 1) = ?c + 1" using n by (intro i64_id) auto
  moreover have "tx_Nonce ?tx \<le> ?c" using inv Some by (auto simp: manager_inv_def)
  ultimately have "fst (ReplayProtectionMiddleware (\<lambda>a t. (DefaultNonceTracker_GetNonce a t, t)) DefaultNonceTracker_SetNonce ?tx (tm_nonceTracker tm)) \<noteq> None"
    and "snd (ReplayProtectionMiddleware (\<lambda>a t. (DefaultNonceTracker_GetNonce a t, t)) DefaultNonceTracker_SetNonce ?tx (tm_nonceTracker tm)) = tm_nonceTracker tm"
    by (simp_all add: ReplayProtectionMiddleware_def)
  then show ?thesis
    using Some
    by (auto simp: TransactionManager_ProcessTransaction_def TransactionPool_GetTransaction_def split: prod.splits)
qed (simp add: TransactionManager_ProcessTransaction_def TransactionPool_GetTransaction_def)

lemma ValidateTransaction_stale:
  "tx_Nonce tx \<le> DefaultNonceTracker_GetNonce (tx_Sender tx) (tm_nonceTracker tm) \<Longrightarrow>
   TransactionManager_ValidateTransaction env clk (Some tx) tm \<noteq> None"
  by (simp add: TransactionManager_ValidateTransaction_def Let_def)

lemma revalidate_loop_inv:
  assumes "manager_inv n tm" and "int n < 2 ^ 63"
    and "\<And>r. r \<in> set rs \<Longrightarrow> tx_Nonce (item_tx (tm_pool tm) r) \<le>
           DefaultNonceTracker_GetNonce (tx_Sender (item_tx (tm_pool tm) r)) (tm_nonceTracker tm)"
  shows "\<exists>p. revalidate_loop env clocks rs tm = Some (tm\<lparr>tm_pool := p\<rparr>) \<and> manager_inv n (tm\<lparr>tm_pool := p\<rparr>) \<and>
     (\<forall>x. item_tx p x = item_tx (tm_pool tm) x) \<and>
     tp_txMap p = tp_txMap (tm_pool tm) |`
       (- {tx_ID (item_tx (tm_pool tm) r) | r. r \<in> set rs \<and> \<not> fst (clocks r) - tx_Timestamp (item_tx (tm_pool tm) r) * second < 5 * minute})"
  using assms
proof (induction rs arbitrary: tm)
  case Nil
  then show ?case by (intro exI [of _ "tm_pool tm"]) (simp add: restrict_map_def fun_eq_iff)
next
  case (Cons r rs)
  let ?tx = "item_tx (tm_pool tm) r"
  let ?old = "\<lambda>rs. {tx_ID (item_tx (tm_pool tm) r) | r. r \<in> set rs \<and> \<not> fst (clocks r) - tx_Timestamp (item_tx (tm_pool tm) r) * second < 5 * minute}"
  show ?case
  proof (cases "fst (clocks r) - tx_Timestamp ?tx * second < 5 * minute")
    case True
    then have "?old (r # rs) = ?old rs" by auto
    moreover have "revalidate_loop env clocks (r # rs) tm = revalidate_loop env clocks rs tm" using True by simp
    ultimately show ?thesis using Cons.IH [OF Cons.prems(1,2)] Cons.prems(3) by auto
  next
    case False
    have pool: "pool_inv n (tm_pool tm)" using Cons.prems(1) by (simp add: manager_inv_def)
    obtain e p1 where rem: "TransactionPool_RemoveTransaction (tx_ID ?tx) (tm_pool tm) = Some (e, p1)" "pool_inv n p1"
      "\<And>x. same_item (tp_store p1 x) (tp_store (tm_pool tm) x)" "tp_txMap p1 = (tp_txMap (tm_pool tm))(tx_ID ?tx := None)"
      using RemoveTransaction_inv [OF pool Cons.prems(2)] by blast
    have tx: "item_tx p1 x = item_tx (tm_pool tm) x" for x using same_item_fields [OF rem(3)] by simp
    have inv1: "manager_inv n (tm\<lparr>tm_pool := p1\<rparr>)"
      using Cons.prems(1) rem(2) by (rule manager_inv_pool) (auto simp: rem(4) tx split: if_splits)
    have "revalidate_loop env clocks (r # rs) tm = revalidate_loop env clocks rs (tm\<lparr>tm_pool := p1\<rparr>)"
      using False ValidateTransaction_stale [OF Cons.prems(3) [of r], of env "snd (clocks r)"] rem(1)
      by (auto simp: Let_def split: option.splits)
    moreover obtain p where "revalidate_loop env clocks rs (tm\<lparr>tm_pool := p1\<rparr>) = Some (tm\<lparr>tm_pool := p\<rparr>)"
      "manager_inv n (tm\<lparr>tm_pool := p\<rparr>)" "\<forall>x. item_tx p x = item_tx (tm_pool tm) x"
      "tp_txMap p = tp_txMap p1 |` (- ?old rs)"
      using Cons.IH [OF inv1 Cons.prems(2)] Cons.prems(3) by (auto simp: tx)
    moreover have "tp_txMap p1 |` (- ?old rs) = tp_txMap (tm_pool tm) |` (- ?old (r # rs))"
      using False by (auto simp: rem(4) restrict_map_def fun_eq_iff)
    ultimately show ?thesis by auto
  qed
qed

lemma reachable_items_stale:
  assumes "manager_inv n tm" and "range_order (tp_txMap (tm_pool tm)) ids"
    and "r \<in> set (TransactionPool_GetAllTransactions ids (tm_pool tm))"
  shows "tx_Nonce (item_tx (tm_pool tm) r) \<le>
           DefaultNonceTracker_GetNonce (tx_Sender (item_tx (tm_pool tm) r)) (tm_nonceTracker tm)"
proof -
  obtain i where "i \<in> set ids" "r = the (tp_txMap (tm_pool tm) i)"
    using assms(3) by (auto simp: TransactionPool_GetAllTransactions_def)
  then have "tp_txMap (tm_pool tm) i = Some r" using assms(2) by (auto simp: range_order_def)
  then show ?thesis using assms(1) by (auto simp: manager_inv_def)
qed

lemma manager_reachable_inv:
  "manager_reachable ledger n st \<Longrightarrow> int (Suc n) < 2 ^ 63 \<Longrightarrow> manager_inv n (fst st)"
proof (induction rule: manager_reachable.induct)
  case (new now s0 mx to minF maxF ed km cr pool opts minFee cr' l)
  have "pool_inv 0 pool" using new(1) by (rule NewTransactionPool_inv)
  moreover have "tp_txMap pool = Map.empty"
    using new(1) by (auto simp: NewTransactionPool_def WithKeyManager_def WithConflictResolution_def split: if_splits)
  ultimately show ?case
    using manager_options_frame [OF new(2)]
    by (simp add: manager_inv_def NewDefaultNonceTracker_def DefaultNonceTracker_GetNonce_def)
next
  case (create n tm l env sender receiver amount fee data res tm')
  have "manager_inv n tm" using create.IH create.prems by simp
  then show ?case using Create_inv [OF _ _ create(2)] create.prems by simp
next
  case (process n st env i e st')
  then have "manager_inv n (fst st)" by simp
  from Process_rejected [OF this process.prems, of env ledger i "snd st"] process(2) show ?case
    using \<open>manager_inv n (fst st)\<close> by auto
next
  case (conflicts n tm l ids visit_sets visit tm')
  then have inv: "manager_inv n tm" by simp
  then have "TransactionPool_HandleConflicts ids visit_sets visit (tm_pool tm) = Some (tm_pool tm)"
    using conflicts by (intro HandleConflicts_same) (auto simp: manager_inv_def)
  then show ?case
    using inv conflicts(4) by (auto simp: TransactionManager_HandleTransactionConflicts_def split: if_splits)
next
  case (cleanup n tm l ids env now_of tm')
  then have inv: "manager_inv n tm" by simp
  then have "pool_inv n (tm_pool tm)" by (simp add: manager_inv_def)
  from RemoveExpired_inv [OF this, of "me_pool env" now_of ids "tm_maxTxAge tm"] obtain k p where
    p: "TransactionPool_RemoveExpiredTransactions (me_pool env) now_of ids (tm_maxTxAge tm) (tm_pool tm) = Some (k, p)" "pool_inv n p"
    "\<And>x. same_item (tp_store p x) (tp_store (tm_pool tm) x)"
    "tp_txMap p \<subseteq>\<^sub>m tp_txMap (tm_pool tm)"
    by (metis restrict_map_le)
  have "manager_inv n (tm\<lparr>tm_pool := p\<rparr>)"
    using inv p(2) by (rule manager_inv_pool) (use p(4) same_item_fields [OF p(3)] in \<open>auto simp: map_le_def dom_def\<close>)
  moreover have "tm' = tm\<lparr>tm_pool := p\<rparr>"
    using cleanup(3) p(1) by (simp add: TransactionManager_cleanupExpiredTransactions_def)
  ultimately show ?case by simp
next
  case (revalidate n tm l ids env clocks tm')
  then have inv: "manager_inv n tm" by simp
  from revalidate_loop_inv [OF inv _ reachable_items_stale [OF inv revalidate(2)], of "TransactionPool_GetAllTransactions ids (tm_pool tm)" env clocks] revalidate
  show ?case by (auto simp: TransactionManager_revalidatePendingTransactions_def)
qed

section \<open>Properties of the manager\<close>

text \<open>A concrete manager, with an account that can sign, and a transaction created by it.\<close>

definition example_key :: string where
  "example_key = hex_encode (replicate 32 7)"

definition example_accounts :: accounts where
  "example_accounts = [''alice'' \<mapsto> zero_Account\<lparr>acc_ID := ''alice'', acc_Balance := Fin 100,
     acc_EncryptedPrivateKey := replicate 13 2\<rparr>]"

definition example_menv :: ManagerEnv where
  "example_menv = \<lparr>me_pool = example_env\<lparr>pe_accounts := example_accounts\<rparr>, me_clock = (\<lambda>_. 0), me_encKey = example_key,
     me_open = (\<lambda>key nonce data. Some data), me_timedOut = False\<rparr>"

definition example_manager :: TransactionManager where
  "example_manager = NewTransactionManager (example_pool 4) f64_0 True [WithCryptoManager None, WithMaxTransactionAge hour]"

definition null_ledger :: "unit LedgerAPI" where
  "null_ledger = \<lparr>l_AddTransaction = (\<lambda>tx l. (None, l)), l_UpdateAccountBalance = (\<lambda>a x l. (None, l)),
     l_IsTransactionCommitted = (\<lambda>i l. False)\<rparr>"

lemma example_manager_reachable: "manager_reachable null_ledger 0 (example_manager, ())"
proof -
  have "NewTransactionPool 0
     (\<lambda>_. \<lparr>ti_tx = example_tx [] 0, ti_priority = 0, ti_index = 0, ti_insertTime = 0, ti_size = 0\<rparr>)
     4 hour f64_0 (Fin 10) hour [WithKeyManager False, WithConflictResolution True] = Some (example_pool 4)"
    by (simp add: example_pool_def NewTransactionPool_def)
  then show ?thesis unfolding example_manager_def by (rule manager_reachable.new) (simp add: manager_options_def)
qed

lemma example_sign:
  assumes "tx_Sender tx = ''alice''" and "tx_ID tx \<noteq> []"
  shows "TransactionManager_signTransaction example_menv tx example_manager =
    Inr (tx\<lparr>tx_Signature := 2 # string_bytes (tx_ID tx)\<rparr>)"
proof -
  have key: "hex_decode example_key = Some (replicate 32 7)" and ne: "example_key \<noteq> []"
    using hex_decode_encode [of "replicate 32 7"] length_hex_encode [of "replicate 32 7"]
    by (auto simp: example_key_def simp del: hex_encode.simps length_hex_encode)
  have "Account_GetDecryptedPrivateKey (\<lambda>key nonce data. Some data) example_key
      (zero_Account\<lparr>acc_ID := ''alice'', acc_Balance := Fin 100, acc_EncryptedPrivateKey := replicate 13 2\<rparr>) = Inr [2]"
    using key ne by (simp add: Account_GetDecryptedPrivateKey_def DecryptPrivateKey_def)
  moreover have "string_bytes (tx_ID tx) \<noteq> []" using assms by (simp add: string_bytes_def)
  ultimately show ?thesis
    using assms ne
    by (simp add: TransactionManager_signTransaction_def GetAccount_def example_menv_def example_env_def example_accounts_def
        example_manager_def NewTransactionManager_def WithCryptoManager_def WithMaxTransactionAge_def Let_def
        SignDataWithDilithium_def SignDilithium_def getDilithiumScheme_def level_defs tag_scheme_def)
qed

lemma example_create:
  obtains tx tm1 where
    "TransactionManager_CreateTransaction example_menv ''alice'' ''bob'' (Fin 5) (Fin 1) [] example_manager = Some (Inr tx, tm1)"
    and "manager_reachable null_ledger 1 (tm1, ())" and "dom (tp_txMap (tm_pool tm1)) = {tx_ID tx}"
proof -
  define i where "i = GenerateTransactionID 0 0 ''alice'' ''bob'' (Fin 5)"
  have ne: "i \<noteq> []"
  proof
    assume "i = []"
    then have "length i = 0" by simp
    then show False by (simp add: i_def GenerateTransactionID_def del: length_0_conv)
  qed
  define tx where "tx = (example_tx i 1)\<lparr>tx_Status := ''pending''\<rparr>"
  have n: "i64 1 = 1" by (rule i64_id) auto
  have six: "rnd 6 = Fin 6" using rnd_int [of 6] by simp
  note defs = example_menv_def example_env_def example_manager_def NewTransactionManager_def WithCryptoManager_def
    WithMaxTransactionAge_def NewDefaultNonceTracker_def DefaultNonceTracker_GetNonce_def
  have v: "TransactionManager_ValidateTransaction example_menv 0 (Some tx) example_manager = None"
    by (simp add: TransactionManager_ValidateTransaction_def tx_def example_tx_def Let_def defs unix_def i64_id
        duration_seconds_hour rat_trunc_def CheckAccountBalance_def example_accounts_def six)
      (simp add: hour_def minute_def second_def)
  let ?tx = "tx\<lparr>tx_Signature := 2 # string_bytes i\<rparr>"
  have s: "TransactionManager_signTransaction example_menv tx example_manager = Inr ?tx"
    using example_sign [of tx] ne by (simp add: tx_def example_tx_def)
  have pool: "tm_pool example_manager = example_pool 4"
    by (simp add: example_manager_def NewTransactionManager_def WithCryptoManager_def WithMaxTransactionAge_def)
  have pv: "TransactionPool_validateTransaction (me_pool example_menv) ?tx (example_pool 4) = None"
    by (simp add: TransactionPool_validateTransaction_def example_menv_def example_env_def example_pool_defs tx_def
        example_tx_def ValidateTransaction_def Transaction_Validate_def unix_def i64_id duration_seconds_hour rat_trunc_def)
  have "pool_inv 0 (example_pool 4)" using example_pool_reachable [of 4] by (intro pool_reachable_inv) auto
  from pool_insert_inv [OF this _ _ pv] obtain p where
    p: "pool_insert (me_pool example_menv) ?tx (example_pool 4) = Some p" "dom (tp_txMap p) = {tx_ID ?tx}"
    by (auto simp: example_pool_defs)
  have add: "TransactionPool_AddTransaction (me_pool example_menv) ?tx (example_pool 4) = Some (None, p)"
    using pv p(1) by (simp add: TransactionPool_AddTransaction_def) (simp add: example_pool_defs)
  have "\<exists>tm1. TransactionManager_CreateTransaction example_menv ''alice'' ''bob'' (Fin 5) (Fin 1) [] example_manager = Some (Inr ?tx, tm1)
      \<and> tm_pool tm1 = p"
  proof -
    have env: "me_clock example_menv k = 0" "tm_minFeeThreshold example_manager = f64_0"
      "DefaultNonceTracker_GetNonce a (tm_nonceTracker example_manager) = 0" for k a by (simp_all add: defs)
    have "\<lparr>tx_ID = GenerateTransactionID 0 0 ''alice'' ''bob'' (Fin 5), tx_Sender = ''alice'', tx_Receiver = ''bob'',
        tx_Amount = Fin 5, tx_Timestamp = unix 0, tx_Signature = [], tx_Priority = 0, tx_Fee = Fin 1, tx_ExpiryTime = 0,
        tx_SmartContractID = [], tx_Metadata = [], tx_Data = [], tx_Nonce = i64 (0 + 1), tx_SignerID = [],
        tx_BlockHeight = 0, tx_Status = ''pending''\<rparr> = tx"
      by (simp add: tx_def example_tx_def i_def unix_def n)
    then show ?thesis
      unfolding TransactionManager_CreateTransaction_def Let_def env using v s add pool by simp
  qed
  then obtain tm1 where tm1: "TransactionManager_CreateTransaction example_menv ''alice'' ''bob'' (Fin 5) (Fin 1) [] example_manager = Some (Inr ?tx, tm1)"
    "tm_pool tm1 = p" by blast
  have "manager_reachable null_ledger (Suc 0) (tm1, ())"
    using example_manager_reachable tm1(1) by (rule manager_reachable.create)
  then show thesis using that [OF tm1(1)] tm1(2) p(2) by simp
qed

text \<open>
  C40: No transaction the manager created is ever committed: \<open>CreateTransaction\<close> moves the sender's
  nonce on record up to the transaction's nonce, while \<open>ProcessTransaction\<close> demands a nonce one above
  the record. In every reachable state processing any transaction returns an error and changes
  neither the manager nor the ledger.
\<close>

theorem created_transactions_never_processed:
  assumes "manager_reachable ledger n (tm, l)" and "int (Suc n) < 2 ^ 63"
  shows "\<exists>err. TransactionManager_ProcessTransaction env ledger txID (tm, l) = Some (Some err, tm, l)"
  using manager_reachable_inv [OF assms] assms(2) by (intro Process_rejected) auto

theorem created_transactions_never_processed_witness:
  "\<exists>tx tm1 err. TransactionManager_CreateTransaction example_menv ''alice'' ''bob'' (Fin 5) (Fin 1) [] example_manager = Some (Inr tx, tm1) \<and>
     TransactionManager_ProcessTransaction example_menv null_ledger (tx_ID tx) (tm1, ()) = Some (Some err, tm1, ())"
proof -
  obtain tx tm1 where tx: "TransactionManager_CreateTransaction example_menv ''alice'' ''bob'' (Fin 5) (Fin 1) [] example_manager = Some (Inr tx, tm1)"
    "manager_reachable null_ledger 1 (tm1, ())" by (rule example_create)
  with created_transactions_never_processed [OF tx(2), of example_menv "tx_ID tx"] show ?thesis by auto
qed

text \<open>When the revalidation has run, no pending transaction is left that was created five minutes ago
  or earlier: the check for a nonce that is too low fails for every transaction the manager has
  created, so each is dropped as soon as it is old enough to be looked at.
\<close>

theorem revalidation_drops_all_old:
  assumes "manager_reachable ledger n (tm, l)" and "int (Suc n) < 2 ^ 63"
    and "range_order (tp_txMap (tm_pool tm)) ids"
  shows "\<exists>tm'. TransactionManager_revalidatePendingTransactions env clocks ids tm = Some tm' \<and>
           (\<forall>i r. tp_txMap (tm_pool tm') i = Some r \<longrightarrow>
              fst (clocks r) - tx_Timestamp (ti_tx (tp_store (tm_pool tm') r)) * second < 5 * minute)"
proof -
  have inv: "manager_inv n tm" using manager_reachable_inv [OF assms(1,2)] by simp
  then have pool: "pool_inv n (tm_pool tm)" by (simp add: manager_inv_def)
  let ?rs = "TransactionPool_GetAllTransactions ids (tm_pool tm)"
  obtain p where p: "revalidate_loop env clocks ?rs tm = Some (tm\<lparr>tm_pool := p\<rparr>)"
    "\<forall>x. item_tx p x = item_tx (tm_pool tm) x"
    "tp_txMap p = tp_txMap (tm_pool tm) |`
       (- {tx_ID (item_tx (tm_pool tm) r) | r. r \<in> set ?rs \<and> \<not> fst (clocks r) - tx_Timestamp (item_tx (tm_pool tm) r) * second < 5 * minute})"
    using revalidate_loop_inv [OF inv _ reachable_items_stale [OF inv assms(3)], of ?rs env clocks] assms(2) by auto
  have "fst (clocks r) - tx_Timestamp (item_tx p r) * second < 5 * minute" if "tp_txMap p i = Some r" for i r
  proof -
    have i: "tp_txMap (tm_pool tm) i = Some r" using that p(3) by (auto simp: restrict_map_def split: if_splits)
    then have "r \<in> set ?rs"
      using assms(3) by (force simp: TransactionPool_GetAllTransactions_def range_order_def)
    moreover have "tx_ID (item_tx (tm_pool tm) r) = i" using pool_inv_txMap [OF pool i] by simp
    ultimately show ?thesis using that p(2,3) by (auto simp: restrict_map_def split: if_splits)
  qed
  with p(1) show ?thesis by (simp add: TransactionManager_revalidatePendingTransactions_def)
qed

theorem revalidation_drops_all_old_witness:
  "\<exists>tx tm1 tm2. TransactionManager_CreateTransaction example_menv ''alice'' ''bob'' (Fin 5) (Fin 1) [] example_manager = Some (Inr tx, tm1) \<and>
     TransactionManager_revalidatePendingTransactions example_menv (\<lambda>r. (hour, hour)) [tx_ID tx] tm1 = Some tm2"
proof -
  obtain tx tm1 where tx: "TransactionManager_CreateTransaction example_menv ''alice'' ''bob'' (Fin 5) (Fin 1) [] example_manager = Some (Inr tx, tm1)"
    "manager_reachable null_ledger 1 (tm1, ())" "dom (tp_txMap (tm_pool tm1)) = {tx_ID tx}" by (rule example_create)
  then have "range_order (tp_txMap (tm_pool tm1)) [tx_ID tx]" by (simp add: range_order_def)
  from revalidation_drops_all_old [OF tx(2) _ this, of example_menv "\<lambda>r. (hour, hour)"] tx(1) show ?thesis by auto
qed

section \<open>Moving the money\<close>

text \<open>The account table of the package \<open>common\<close> as the ledger's accounts.\<close>

definition table_ledger :: "accounts LedgerAPI" where
  "table_ledger = \<lparr>l_AddTransaction = (\<lambda>tx l. (None, l)), l_UpdateAccountBalance = UpdateAccountBalance,
     l_IsTransactionCommitted = (\<lambda>i l. False)\<rparr>"

text \<open>On a table of whole balances, moving the money of a covered transaction between two accounts
  takes amount and fee from the sender, gives the amount to the receiver, and lowers the sum of all
  balances by exactly the fee; when the receiver does not exist an error is returned but the sender
  stays debited, so that amount and fee are both gone.
\<close>

theorem update_balances_effect:
  assumes "whole_table accs" and "accs (tx_Sender tx) = Some a" and "tx_Sender tx \<noteq> tx_Receiver tx"
    and "tx_Amount tx = Fin (of_int m)" and "tx_Fee tx = Fin (of_int f)"
    and "0 < m" and "0 \<le> f" and "m + f \<le> bal_int a"
  shows "(\<forall>b. accs (tx_Receiver tx) = Some b \<longrightarrow>
            TransactionManager_updateBalances table_ledger tx accs =
              (None, accs(tx_Sender tx \<mapsto> a\<lparr>acc_Balance := Fin (of_int (bal_int a - (m + f)))\<rparr>,
                          tx_Receiver tx \<mapsto> b\<lparr>acc_Balance := Fin (of_int (bal_int b + m))\<rparr>)) \<and>
            bal_sum (snd (TransactionManager_updateBalances table_ledger tx accs)) = bal_sum accs - f)
       \<and> (accs (tx_Receiver tx) = None \<longrightarrow>
            fst (TransactionManager_updateBalances table_ledger tx accs) \<noteq> None \<and>
            bal_sum (snd (TransactionManager_updateBalances table_ledger tx accs)) = bal_sum accs - (m + f))"
proof -
  let ?s = "tx_Sender tx" and ?r = "tx_Receiver tx"
  let ?a = "a\<lparr>acc_Balance := Fin (of_int (bal_int a - (m + f)))\<rparr>"
  let ?accs1 = "accs(?s \<mapsto> ?a)"
  have fin: "finite (dom accs)" using assms(1) by (simp add: whole_table_def)
  have le: "bal_int a \<le> 2 ^ 53"
    using whole_le_sum(2) [OF assms(1,2)] assms(1) by (simp add: whole_table_def)
  have "f64_add (Fin (of_int m)) (Fin (of_int f)) = Fin (of_int (m + f))"
    using assms le by (intro f64_add_int) auto
  then have neg: "f64_neg (f64_add (tx_Amount tx) (tx_Fee tx)) = Fin (of_int (- (m + f)))"
    using assms(4,5) by simp
  have debit: "UpdateAccountBalance ?s (Fin (of_int (- (m + f)))) accs = (None, ?accs1)"
    using transfer_steps(1) [OF assms(1,2), of "m + f" ?r] assms by simp
  have s1: "bal_sum ?accs1 = bal_sum accs - (m + f)"
    using bal_sum_update [OF fin assms(2), of ?a] by (simp del: of_int_diff of_int_add)
  have t1: "whole_table ?accs1"
    using assms s1 by (intro whole_table_upd) (auto simp: whole_table_def)
  have upd: "TransactionManager_updateBalances table_ledger tx accs =
      (case UpdateAccountBalance ?r (Fin (of_int m)) ?accs1 of
         (Some err, l2) \<Rightarrow> (Some (TmErrWrap ''failed to update receiver balance'' (TmErrCommon err)), l2)
       | (None, l2) \<Rightarrow> (None, l2))"
  proof -
    have l: "l_UpdateAccountBalance table_ledger = UpdateAccountBalance" by (simp add: table_ledger_def)
    show ?thesis
      unfolding TransactionManager_updateBalances_def l neg
      unfolding debit assms(4) by (simp only: prod.case option.case)
  qed
  show ?thesis
  proof (intro conjI allI impI)
    assume "accs ?r = None"
    then have "UpdateAccountBalance ?r (Fin (of_int m)) ?accs1 = (Some ErrAccountNotFound, ?accs1)"
      using assms(3) by (simp add: UpdateAccountBalance_def)
    then have r: "TransactionManager_updateBalances table_ledger tx accs =
        (Some (TmErrWrap ''failed to update receiver balance'' (TmErrCommon ErrAccountNotFound)), ?accs1)"
      by (simp add: upd del: of_int_diff of_int_add of_int_minus)
    show "fst (TransactionManager_updateBalances table_ledger tx accs) \<noteq> None" by (simp add: r)
    show "bal_sum (snd (TransactionManager_updateBalances table_ledger tx accs)) = bal_sum accs - (m + f)"
      unfolding r snd_conv by (rule s1)
  next
    fix b assume b: "accs ?r = Some b"
    then have b1: "?accs1 ?r = Some b" using assms(3) by simp
    have "bal_int b \<le> bal_sum ?accs1" using whole_le_sum(2) [of ?accs1 ?r b] t1 b1 by simp
    then have bb: "0 \<le> bal_int b" "bal_int b + m \<le> 2 ^ 53"
      using whole_le_sum(1) [OF assms(1) b] s1 assms by (auto simp: whole_table_def)
    have credit: "UpdateAccountBalance ?r (Fin (of_int m)) ?accs1 =
        (None, ?accs1(?r \<mapsto> b\<lparr>acc_Balance := Fin (of_int (bal_int b + m))\<rparr>))"
      using UpdateAccountBalance_whole [OF whole_tableD [OF assms(1) b], of ?accs1 ?r m] b1 bb assms(6) by simp
    then show r: "TransactionManager_updateBalances table_ledger tx accs =
        (None, ?accs1(?r \<mapsto> b\<lparr>acc_Balance := Fin (of_int (bal_int b + m))\<rparr>))"
      by (simp add: upd del: of_int_diff of_int_add of_int_minus)
    show "bal_sum (snd (TransactionManager_updateBalances table_ledger tx accs)) = bal_sum accs - f"
      unfolding r snd_conv
      using bal_sum_update [of ?accs1 ?r b "b\<lparr>acc_Balance := Fin (of_int (bal_int b + m))\<rparr>"] b1 t1 s1
      by (simp add: whole_table_def)
  qed
qed

theorem update_balances_effect_witness:
  "fst (TransactionManager_updateBalances table_ledger (example_tx ''t'' 1)
     [''alice'' \<mapsto> zero_Account\<lparr>acc_Balance := Fin 10\<rparr>]) \<noteq> None"
proof -
  let ?a = "zero_Account\<lparr>acc_Balance := Fin 10\<rparr>"
  have a: "bal_int ?a = 10" by (simp add: bal_int_def)
  have "whole_table [''alice'' \<mapsto> ?a]" by (simp add: whole_table_def whole_def bal_sum_def a)
  from update_balances_effect [of "[''alice'' \<mapsto> ?a]" "example_tx ''t'' 1" ?a 5 1] this show ?thesis
    by (simp add: example_tx_def a)
qed

end
