(* ===== verification/CheckpointTheory.thy ===== *)
theory CheckpointTheory
  imports GoTime "HOL-Library.Sublist"
begin

text \<open>
  The checkpoint manager of \<open>consensus/recovery/checkpoint_manager.go\<close>: it saves the states of the registered components to
  files, keeps a bounded number of checkpoints and restores the components from one of them.

  The manager works for any system state \<open>'s\<close>: a registered component is a pair of functions that read and write its part of the
  state (\<open>handler\<close>). Paths are lists of path elements, the disk is a map from paths to contents with the set of its directories, and
  the operating system decides which calls fail (\<open>io\<close>); a write that fails leaves a file in any condition and a removal that fails any of the files.
  The names of components are single path elements. \<open>encoding/json\<close> is a pair of functions \<open>marshal\<close> and \<open>unmarshal\<close>.
  The order of a \<open>range\<close> over the components is an argument; where the code sorts the keys, or takes their maximum, no order is needed.
  The map \<open>Metrics\<close> of the metadata is never filled and left out, as is log output.
\<close>

section \<open>The disk\<close>

type_synonym path = "string list"

record disk =
  dk_dirs :: "path \<Rightarrow> bool"
  dk_files :: "path \<rightharpoonup> bytes"

record io =
  io_mkdir :: "path \<Rightarrow> bool"
  io_write :: "path \<Rightarrow> bytes option option"
  io_read :: "path \<Rightarrow> bool"
  io_stat :: "path \<Rightarrow> bool"
  io_remove :: "path \<Rightarrow> (path \<Rightarrow> bool) option"

definition io_ok :: io where
  "io_ok = \<lparr>io_mkdir = (\<lambda>_. True), io_write = (\<lambda>_. None), io_read = (\<lambda>_. True), io_stat = (\<lambda>_. True), io_remove = (\<lambda>_. None)\<rparr>"

definition os_MkdirAll :: "io \<Rightarrow> path \<Rightarrow> disk \<Rightarrow> bool \<times> disk" where
  "os_MkdirAll io p dk = (if io_mkdir io p then (True, dk\<lparr>dk_dirs := (\<lambda>q. dk_dirs dk q \<or> prefix q p)\<rparr>) else (False, dk))"

definition os_WriteFile :: "io \<Rightarrow> path \<Rightarrow> bytes \<Rightarrow> disk \<Rightarrow> bool \<times> disk" where
  "os_WriteFile io p b dk =
     (if \<not> dk_dirs dk (butlast p) then (False, dk)
      else case io_write io p of
             None \<Rightarrow> (True, dk\<lparr>dk_files := (dk_files dk)(p \<mapsto> b)\<rparr>)
           | Some left \<Rightarrow> (False, dk\<lparr>dk_files := (dk_files dk)(p := left)\<rparr>))"

definition os_ReadFile :: "io \<Rightarrow> path \<Rightarrow> disk \<Rightarrow> bytes option" where
  "os_ReadFile io p dk = (if io_read io p then dk_files dk p else None)"

definition os_Stat :: "io \<Rightarrow> path \<Rightarrow> disk \<Rightarrow> bool" where
  "os_Stat io p dk = (io_stat io p \<and> (dk_files dk p \<noteq> None \<or> dk_dirs dk p))"

definition os_RemoveAll :: "io \<Rightarrow> path \<Rightarrow> disk \<Rightarrow> bool \<times> disk" where
  "os_RemoveAll io p dk =
     (let keep = (case io_remove io p of None \<Rightarrow> (\<lambda>_. False) | Some k \<Rightarrow> k) in
      (io_remove io p = None,
       \<lparr>dk_dirs = (\<lambda>q. dk_dirs dk q \<and> (\<not> prefix p q \<or> keep q)),
        dk_files = (\<lambda>q. if prefix p q \<and> \<not> keep q then None else dk_files dk q)\<rparr>))"

section \<open>Data\<close>

record CheckpointMetadata =
  md_Height :: uint64
  md_Timestamp :: int
  md_BlockHash :: string
  md_PreviousHash :: string
  md_StateSize :: int
  md_Components :: "string list"
  md_Version :: string

type_synonym CheckpointStatus = int

definition CheckpointPending :: CheckpointStatus where "CheckpointPending = 0"
definition CheckpointComplete :: CheckpointStatus where "CheckpointComplete = 1"
definition CheckpointCorrupted :: CheckpointStatus where "CheckpointCorrupted = 2"
definition CheckpointVerified :: CheckpointStatus where "CheckpointVerified = 3"

lemmas status_defs = CheckpointPending_def CheckpointComplete_def CheckpointCorrupted_def CheckpointVerified_def

definition CheckpointStatus_String :: "CheckpointStatus \<Rightarrow> string" where
  "CheckpointStatus_String s =
     (if s = CheckpointPending then ''Pending'' else if s = CheckpointComplete then ''Complete''
      else if s = CheckpointCorrupted then ''Corrupted'' else if s = CheckpointVerified then ''Verified'' else ''Unknown'')"

record DiskCheckpoint =
  ck_Metadata :: CheckpointMetadata
  ck_Status :: CheckpointStatus
  ck_Path :: path
  ck_ComponentStates :: "string \<rightharpoonup> bytes"

record 's handler =
  ch_name :: string
  ch_get :: "'s \<Rightarrow> string + bytes"
  ch_restore :: "bytes \<Rightarrow> 's \<Rightarrow> string option \<times> 's"

record 's CheckpointManager =
  cm_checkpointDir :: path
  cm_checkpointInterval :: uint64
  cm_maxCheckpoints :: int
  cm_compressionEnabled :: bool
  cm_autoVerify :: bool
  cm_checkpoints :: "uint64 \<rightharpoonup> DiskCheckpoint"
  cm_lastCheckpoint :: uint64
  cm_components :: "string \<rightharpoonup> 's handler"
  cm_pendingCheckpoint :: "DiskCheckpoint option"

record codec =
  marshal :: "CheckpointMetadata \<Rightarrow> bytes"
  unmarshal :: "bytes \<Rightarrow> CheckpointMetadata option"

datatype cm_error =
    CmErrMkdir
  | CmErrHeight
  | CmErrExists uint64
  | CmErrInProgress
  | CmErrNoPending
  | CmErrWrite
  | CmErrNotFound uint64
  | CmErrNone
  | CmErrNotComplete uint64
  | CmErrNoMetadata
  | CmErrNoState string
  | CmErrRemove
  | CmErrReadDir

section \<open>Options and registration\<close>

definition WithCheckpointDir :: "path \<Rightarrow> 's CheckpointManager \<Rightarrow> 's CheckpointManager" where
  "WithCheckpointDir dir cm = cm\<lparr>cm_checkpointDir := dir\<rparr>"

definition WithCheckpointInterval :: "uint64 \<Rightarrow> 's CheckpointManager \<Rightarrow> 's CheckpointManager" where
  "WithCheckpointInterval interval cm = (if interval > 0 then cm\<lparr>cm_checkpointInterval := interval\<rparr> else cm)"

definition WithMaxCheckpoints :: "int \<Rightarrow> 's CheckpointManager \<Rightarrow> 's CheckpointManager" where
  "WithMaxCheckpoints n cm = (if n > 0 then cm\<lparr>cm_maxCheckpoints := n\<rparr> else cm)"

definition WithCompressionEnabled :: "bool \<Rightarrow> 's CheckpointManager \<Rightarrow> 's CheckpointManager" where
  "WithCompressionEnabled enabled cm = cm\<lparr>cm_compressionEnabled := enabled\<rparr>"

definition WithAutoVerify :: "bool \<Rightarrow> 's CheckpointManager \<Rightarrow> 's CheckpointManager" where
  "WithAutoVerify enabled cm = cm\<lparr>cm_autoVerify := enabled\<rparr>"

definition default_manager :: "'s CheckpointManager" where
  "default_manager = \<lparr>cm_checkpointDir = [''checkpoints''], cm_checkpointInterval = 1000, cm_maxCheckpoints = 10, cm_compressionEnabled = True,
     cm_autoVerify = True, cm_checkpoints = Map.empty, cm_lastCheckpoint = 0, cm_components = Map.empty, cm_pendingCheckpoint = None\<rparr>"

definition CheckpointManager_RegisterComponent :: "'s handler \<Rightarrow> 's CheckpointManager \<Rightarrow> 's CheckpointManager" where
  "CheckpointManager_RegisterComponent component cm = cm\<lparr>cm_components := (cm_components cm)(ch_name component \<mapsto> component)\<rparr>"

definition CheckpointManager_UnregisterComponent :: "string \<Rightarrow> 's CheckpointManager \<Rightarrow> 's CheckpointManager" where
  "CheckpointManager_UnregisterComponent name cm = cm\<lparr>cm_components := (cm_components cm)(name := None)\<rparr>"

section \<open>Creating a checkpoint\<close>

text \<open>An interval of zero cannot be set, so the division does not panic.\<close>

definition CheckpointManager_ShouldCreateCheckpoint :: "uint64 \<Rightarrow> 's CheckpointManager \<Rightarrow> bool" where
  "CheckpointManager_ShouldCreateCheckpoint height cm =
     (if height mod cm_checkpointInterval cm \<noteq> 0 then False
      else if cm_checkpoints cm height \<noteq> None then False
      else if cm_pendingCheckpoint cm \<noteq> None then False
      else True)"

definition checkpoint_dir_name :: "uint64 \<Rightarrow> string" where
  "checkpoint_dir_name height = ''checkpoint_'' @ fmt_nat (unat height)"

definition state_file :: "path \<Rightarrow> string \<Rightarrow> path" where
  "state_file p name = p @ [name @ ''.state'']"

definition metadata_file :: "path \<Rightarrow> path" where
  "metadata_file p = p @ [''metadata.json'']"

definition CheckpointManager_CreateCheckpoint ::
  "io \<Rightarrow> int \<Rightarrow> uint64 \<Rightarrow> string \<Rightarrow> string \<Rightarrow> 's CheckpointManager \<times> disk \<Rightarrow> (cm_error + DiskCheckpoint) \<times> 's CheckpointManager \<times> disk" where
  "CheckpointManager_CreateCheckpoint io now height blockHash prevHash = (\<lambda>(cm, dk).
     if height = 0 then (Inl CmErrHeight, cm, dk)
     else if cm_checkpoints cm height \<noteq> None then (Inl (CmErrExists height), cm, dk)
     else if cm_pendingCheckpoint cm \<noteq> None then (Inl CmErrInProgress, cm, dk)
     else
       let p = cm_checkpointDir cm @ [checkpoint_dir_name height] in
       (case os_MkdirAll io p dk of
          (False, dk1) \<Rightarrow> (Inl CmErrMkdir, cm, dk1)
        | (True, dk1) \<Rightarrow>
            let checkpoint = \<lparr>ck_Metadata = \<lparr>md_Height = height, md_Timestamp = now, md_BlockHash = blockHash, md_PreviousHash = prevHash,
                    md_StateSize = 0, md_Components = [], md_Version = ''1.0''\<rparr>,
                  ck_Status = CheckpointPending, ck_Path = p, ck_ComponentStates = Map.empty\<rparr>
            in (Inr checkpoint, cm\<lparr>cm_pendingCheckpoint := Some checkpoint\<rparr>, dk1)))"

section \<open>Clean up\<close>

definition cm_heights :: "'s CheckpointManager \<Rightarrow> uint64 list" where
  "cm_heights cm = sorted_list_of_set (dom (cm_checkpoints cm))"

fun remove_checkpoints :: "io \<Rightarrow> uint64 list \<Rightarrow> 's CheckpointManager \<times> disk \<Rightarrow> 's CheckpointManager \<times> disk" where
  "remove_checkpoints io [] s = s"
| "remove_checkpoints io (height # heights) (cm, dk) =
     (case os_RemoveAll io (ck_Path (the (cm_checkpoints cm height))) dk of
        (False, dk1) \<Rightarrow> remove_checkpoints io heights (cm, dk1)
      | (True, dk1) \<Rightarrow> remove_checkpoints io heights (cm\<lparr>cm_checkpoints := (cm_checkpoints cm)(height := None)\<rparr>, dk1))"

definition CheckpointManager_cleanupOldCheckpoints :: "io \<Rightarrow> 's CheckpointManager \<times> disk \<Rightarrow> 's CheckpointManager \<times> disk" where
  "CheckpointManager_cleanupOldCheckpoints io = (\<lambda>(cm, dk).
     if int (length (cm_heights cm)) \<le> cm_maxCheckpoints cm then (cm, dk)
     else remove_checkpoints io (take (nat (int (length (cm_heights cm)) - cm_maxCheckpoints cm)) (cm_heights cm)) (cm, dk))"

section \<open>Finalizing a checkpoint\<close>

text \<open>A component whose state cannot be read is skipped; one whose file cannot be written is listed all the same.\<close>

fun collect_states :: "io \<Rightarrow> ('s \<Rightarrow> string \<Rightarrow> string + bytes) \<Rightarrow> 's \<Rightarrow> string list \<Rightarrow> DiskCheckpoint \<Rightarrow> int \<Rightarrow> disk \<Rightarrow> DiskCheckpoint \<times> int \<times> disk" where
  "collect_states io get s [] c tot dk = (c, tot, dk)"
| "collect_states io get s (name # names) c tot dk =
     (case get s name of
        Inl _ \<Rightarrow> collect_states io get s names c tot dk
      | Inr state \<Rightarrow>
          collect_states io get s names
            (c\<lparr>ck_ComponentStates := (ck_ComponentStates c)(name \<mapsto> state),
               ck_Metadata := (ck_Metadata c)\<lparr>md_Components := md_Components (ck_Metadata c) @ [name]\<rparr>\<rparr>)
            (i64 (tot + int (length state))) (snd (os_WriteFile io (state_file (ck_Path c) name) state dk)))"

definition get_state :: "'s CheckpointManager \<Rightarrow> 's \<Rightarrow> string \<Rightarrow> string + bytes" where
  "get_state cm s name = ch_get (the (cm_components cm name)) s"

definition CheckpointManager_FinalizeCheckpoint ::
  "codec \<Rightarrow> io \<Rightarrow> string list \<Rightarrow> 's \<Rightarrow> 's CheckpointManager \<times> disk \<Rightarrow> cm_error option \<times> 's CheckpointManager \<times> disk" where
  "CheckpointManager_FinalizeCheckpoint js io order s = (\<lambda>(cm, dk).
     case cm_pendingCheckpoint cm of
       None \<Rightarrow> (Some CmErrNoPending, cm, dk)
     | Some checkpoint \<Rightarrow>
         let (c1, tot, dk1) = collect_states io (get_state cm) s order (checkpoint\<lparr>ck_Status := CheckpointComplete\<rparr>) 0 dk;
             c2 = c1\<lparr>ck_Metadata := (ck_Metadata c1)\<lparr>md_StateSize := tot\<rparr>\<rparr>;
             (ok, dk2) = os_WriteFile io (metadata_file (ck_Path c2)) (marshal js (ck_Metadata c2)) dk1
         in if \<not> ok then (Some CmErrWrite, cm\<lparr>cm_pendingCheckpoint := Some c2\<rparr>, dk2)
            else (None, CheckpointManager_cleanupOldCheckpoints io
                   (cm\<lparr>cm_checkpoints := (cm_checkpoints cm)(md_Height (ck_Metadata c2) \<mapsto> c2),
                       cm_lastCheckpoint := md_Height (ck_Metadata c2), cm_pendingCheckpoint := None\<rparr>, dk2)))"

section \<open>Queries\<close>

definition CheckpointManager_GetCheckpoint :: "uint64 \<Rightarrow> 's CheckpointManager \<Rightarrow> cm_error + DiskCheckpoint" where
  "CheckpointManager_GetCheckpoint height cm =
     (case cm_checkpoints cm height of None \<Rightarrow> Inl (CmErrNotFound height) | Some c \<Rightarrow> Inr c)"

text \<open>The result is a nil pointer, \<open>Inr None\<close>, where the map has no entry for the last checkpoint.\<close>

definition CheckpointManager_GetLatestCheckpoint :: "'s CheckpointManager \<Rightarrow> cm_error + DiskCheckpoint option" where
  "CheckpointManager_GetLatestCheckpoint cm =
     (if cm_lastCheckpoint cm = 0 then Inl CmErrNone else Inr (cm_checkpoints cm (cm_lastCheckpoint cm)))"

definition CheckpointManager_GetCheckpointHeights :: "'s CheckpointManager \<Rightarrow> uint64 list" where
  "CheckpointManager_GetCheckpointHeights cm = cm_heights cm"

definition CheckpointManager_GetCheckpointInterval :: "'s CheckpointManager \<Rightarrow> uint64" where
  "CheckpointManager_GetCheckpointInterval cm = cm_checkpointInterval cm"

definition CheckpointManager_GetMaxCheckpoints :: "'s CheckpointManager \<Rightarrow> int" where
  "CheckpointManager_GetMaxCheckpoints cm = cm_maxCheckpoints cm"

definition CheckpointManager_GetLastCheckpointHeight :: "'s CheckpointManager \<Rightarrow> uint64" where
  "CheckpointManager_GetLastCheckpointHeight cm = cm_lastCheckpoint cm"

definition CheckpointManager_HasCheckpoint :: "uint64 \<Rightarrow> 's CheckpointManager \<Rightarrow> bool" where
  "CheckpointManager_HasCheckpoint height cm = (cm_checkpoints cm height \<noteq> None)"

definition CheckpointManager_GetCheckpointCount :: "'s CheckpointManager \<Rightarrow> nat" where
  "CheckpointManager_GetCheckpointCount cm = card (dom (cm_checkpoints cm))"

record CheckpointStats =
  cst_count :: nat
  cst_lastCheckpoint :: uint64
  cst_checkpointInterval :: uint64
  cst_maxCheckpoints :: int
  cst_compressionEnabled :: bool
  cst_autoVerify :: bool
  cst_heights :: "uint64 list"

definition CheckpointManager_GetCheckpointStats :: "'s CheckpointManager \<Rightarrow> CheckpointStats" where
  "CheckpointManager_GetCheckpointStats cm =
     \<lparr>cst_count = card (dom (cm_checkpoints cm)), cst_lastCheckpoint = cm_lastCheckpoint cm, cst_checkpointInterval = cm_checkpointInterval cm,
      cst_maxCheckpoints = cm_maxCheckpoints cm, cst_compressionEnabled = cm_compressionEnabled cm, cst_autoVerify = cm_autoVerify cm,
      cst_heights = cm_heights cm\<rparr>"

section \<open>Restoring, verifying and deleting\<close>

fun restore_loop :: "io \<Rightarrow> 's CheckpointManager \<Rightarrow> path \<Rightarrow> string list \<Rightarrow> disk \<Rightarrow> 's \<Rightarrow> 's" where
  "restore_loop io cm p [] dk s = s"
| "restore_loop io cm p (name # names) dk s =
     (case os_ReadFile io (state_file p name) dk of
        None \<Rightarrow> restore_loop io cm p names dk s
      | Some state \<Rightarrow> restore_loop io cm p names dk (snd (ch_restore (the (cm_components cm name)) state s)))"

definition CheckpointManager_RestoreFromCheckpoint ::
  "io \<Rightarrow> string list \<Rightarrow> uint64 \<Rightarrow> 's CheckpointManager \<Rightarrow> disk \<Rightarrow> 's \<Rightarrow> cm_error option \<times> 's" where
  "CheckpointManager_RestoreFromCheckpoint io order height cm dk s =
     (case cm_checkpoints cm height of
        None \<Rightarrow> (Some (CmErrNotFound height), s)
      | Some checkpoint \<Rightarrow>
          if ck_Status checkpoint \<noteq> CheckpointComplete \<and> ck_Status checkpoint \<noteq> CheckpointVerified
            then (Some (CmErrNotComplete height), s)
          else (None, restore_loop io cm (ck_Path checkpoint) order dk s))"

fun first_missing :: "io \<Rightarrow> path \<Rightarrow> disk \<Rightarrow> string list \<Rightarrow> string option" where
  "first_missing io p dk [] = None"
| "first_missing io p dk (name # names) =
     (if \<not> os_Stat io (state_file p name) dk then Some name else first_missing io p dk names)"

definition mark_checkpoint :: "uint64 \<Rightarrow> CheckpointStatus \<Rightarrow> 's CheckpointManager \<Rightarrow> 's CheckpointManager" where
  "mark_checkpoint height st cm = cm\<lparr>cm_checkpoints := map_modify height (\<lambda>c. c\<lparr>ck_Status := st\<rparr>) (cm_checkpoints cm)\<rparr>"

definition CheckpointManager_VerifyCheckpoint ::
  "io \<Rightarrow> uint64 \<Rightarrow> disk \<Rightarrow> 's CheckpointManager \<Rightarrow> cm_error option \<times> 's CheckpointManager" where
  "CheckpointManager_VerifyCheckpoint io height dk cm =
     (case cm_checkpoints cm height of
        None \<Rightarrow> (Some (CmErrNotFound height), cm)
      | Some checkpoint \<Rightarrow>
          if ck_Status checkpoint \<noteq> CheckpointComplete then (Some (CmErrNotComplete height), cm)
          else if \<not> os_Stat io (metadata_file (ck_Path checkpoint)) dk
            then (Some CmErrNoMetadata, mark_checkpoint height CheckpointCorrupted cm)
          else (case first_missing io (ck_Path checkpoint) dk (md_Components (ck_Metadata checkpoint)) of
                  Some name \<Rightarrow> (Some (CmErrNoState name), mark_checkpoint height CheckpointCorrupted cm)
                | None \<Rightarrow> (None, mark_checkpoint height CheckpointVerified cm)))"

definition highest_checkpoint :: "uint64 list \<Rightarrow> uint64" where
  "highest_checkpoint hs = foldl (\<lambda>newLast h. if h > newLast then h else newLast) 0 hs"

definition CheckpointManager_DeleteCheckpoint ::
  "io \<Rightarrow> uint64 \<Rightarrow> 's CheckpointManager \<times> disk \<Rightarrow> cm_error option \<times> 's CheckpointManager \<times> disk" where
  "CheckpointManager_DeleteCheckpoint io height = (\<lambda>(cm, dk).
     case cm_checkpoints cm height of
       None \<Rightarrow> (Some (CmErrNotFound height), cm, dk)
     | Some checkpoint \<Rightarrow>
         (case os_RemoveAll io (ck_Path checkpoint) dk of
            (False, dk1) \<Rightarrow> (Some CmErrRemove, cm, dk1)
          | (True, dk1) \<Rightarrow>
              let cm1 = cm\<lparr>cm_checkpoints := (cm_checkpoints cm)(height := None)\<rparr>
              in (None, if cm_lastCheckpoint cm1 = height then cm1\<lparr>cm_lastCheckpoint := highest_checkpoint (cm_heights cm1)\<rparr> else cm1, dk1)))"

definition CheckpointManager_SetCheckpointInterval :: "uint64 \<Rightarrow> 's CheckpointManager \<Rightarrow> 's CheckpointManager" where
  "CheckpointManager_SetCheckpointInterval interval cm = (if interval = 0 then cm else cm\<lparr>cm_checkpointInterval := interval\<rparr>)"

definition CheckpointManager_SetMaxCheckpoints :: "io \<Rightarrow> int \<Rightarrow> 's CheckpointManager \<times> disk \<Rightarrow> 's CheckpointManager \<times> disk" where
  "CheckpointManager_SetMaxCheckpoints io n = (\<lambda>(cm, dk).
     if n \<le> 0 then (cm, dk) else CheckpointManager_cleanupOldCheckpoints io (cm\<lparr>cm_maxCheckpoints := n\<rparr>, dk))"

section \<open>Loading\<close>

text \<open>\<open>fmt.Sscanf\<close> with the format \<open>checkpoint_%d\<close> into a \<open>uint64\<close>: the literal text, spaces, digits up to the first other character; a number that does
  not fit is an error, and what follows the digits is ignored.\<close>

definition scan_height :: "string \<Rightarrow> uint64 option" where
  "scan_height name =
     (if take 11 name \<noteq> ''checkpoint_'' then None
      else let ds = takeWhile digit (dropWhile (\<lambda>c. c = CHR '' '') (drop 11 name)) in
           if ds = [] \<or> digits_val ds \<ge> 2 ^ 64 then None else Some (of_nat (digits_val ds)))"

fun load_loop :: "codec \<Rightarrow> io \<Rightarrow> (string \<times> bool) list \<Rightarrow> disk \<Rightarrow> 's CheckpointManager \<Rightarrow> 's CheckpointManager" where
  "load_loop js io [] dk cm = cm"
| "load_loop js io ((name, isDir) # entries) dk cm =
     (if \<not> isDir then load_loop js io entries dk cm
      else case scan_height name of
        None \<Rightarrow> load_loop js io entries dk cm
      | Some height \<Rightarrow>
          (case os_ReadFile io (metadata_file (cm_checkpointDir cm @ [name])) dk of
             None \<Rightarrow> load_loop js io entries dk cm
           | Some b \<Rightarrow>
               (case unmarshal js b of
                  None \<Rightarrow> load_loop js io entries dk cm
                | Some metadata \<Rightarrow>
                    load_loop js io entries dk
                      (cm\<lparr>cm_checkpoints := (cm_checkpoints cm)(height \<mapsto> \<lparr>ck_Metadata = metadata, ck_Status = CheckpointComplete,
                             ck_Path = cm_checkpointDir cm @ [name], ck_ComponentStates = Map.empty\<rparr>),
                          cm_lastCheckpoint := (if height > cm_lastCheckpoint cm then height else cm_lastCheckpoint cm)\<rparr>))))"

text \<open>The listing of the directory is an argument; \<open>None\<close> is an error of \<open>os.ReadDir\<close>.\<close>

definition CheckpointManager_loadCheckpoints ::
  "codec \<Rightarrow> io \<Rightarrow> (string \<times> bool) list option \<Rightarrow> disk \<Rightarrow> 's CheckpointManager \<Rightarrow> cm_error option \<times> 's CheckpointManager" where
  "CheckpointManager_loadCheckpoints js io listing dk cm =
     (if \<not> dk_dirs dk (cm_checkpointDir cm) \<and> dk_files dk (cm_checkpointDir cm) = None then (None, cm)
      else case listing of
             None \<Rightarrow> (Some CmErrReadDir, cm)
           | Some entries \<Rightarrow> (None, load_loop js io entries dk cm))"

definition NewCheckpointManager ::
  "codec \<Rightarrow> io \<Rightarrow> (string \<times> bool) list option \<Rightarrow> ('s CheckpointManager \<Rightarrow> 's CheckpointManager) list \<Rightarrow> disk \<Rightarrow>
   (cm_error + 's CheckpointManager) \<times> disk" where
  "NewCheckpointManager js io listing options dk =
     (let cm = fold (\<lambda>opt cm. opt cm) options default_manager in
      case os_MkdirAll io (cm_checkpointDir cm) dk of
        (False, dk1) \<Rightarrow> (Inl CmErrMkdir, dk1)
      | (True, dk1) \<Rightarrow> (Inr (snd (CheckpointManager_loadCheckpoints js io listing dk1 cm)), dk1))"

section \<open>Clean up keeps the newest checkpoints\<close>

lemma remove_checkpoints_exact:
  assumes "\<And>p. io_remove io p = None"
  shows "\<exists>dk1. remove_checkpoints io hs (cm, dk) = (cm\<lparr>cm_checkpoints := cm_checkpoints cm |` (- set hs)\<rparr>, dk1)"
proof (induction hs arbitrary: cm dk)
  case (Cons h hs)
  let ?cm = "cm\<lparr>cm_checkpoints := (cm_checkpoints cm)(h := None)\<rparr>"
  obtain dk1 where r: "os_RemoveAll io (ck_Path (the (cm_checkpoints cm h))) dk = (True, dk1)" using assms by (simp add: os_RemoveAll_def)
  have e: "?cm\<lparr>cm_checkpoints := cm_checkpoints ?cm |` (- set hs)\<rparr> = cm\<lparr>cm_checkpoints := cm_checkpoints cm |` (- set (h # hs))\<rparr>"
    by (auto simp: restrict_map_def intro!: arg_cong [where f = "\<lambda>m. cm\<lparr>cm_checkpoints := m\<rparr>"])
  obtain dk2 where c: "remove_checkpoints io hs (?cm, dk1) = (?cm\<lparr>cm_checkpoints := cm_checkpoints ?cm |` (- set hs)\<rparr>, dk2)"
    using Cons [of ?cm dk1] by (elim exE)
  have "remove_checkpoints io (h # hs) (cm, dk) = remove_checkpoints io hs (?cm, dk1)" by (simp only: remove_checkpoints.simps r prod.case bool.case)
  then show ?case unfolding c e by (rule exI)
qed (simp add: restrict_map_def)

lemma take_drop_sorted:
  assumes "sorted xs" and "distinct xs" and "x \<in> set (take n xs)" and "y \<in> set (drop n xs)"
  shows "x < (y :: 'a::linorder)"
proof -
  have "sorted (take n xs @ drop n xs)" "distinct (take n xs @ drop n xs)" using assms(1,2) by simp_all
  then show ?thesis using assms(3,4) unfolding sorted_append distinct_append by (metis IntI empty_iff order_le_less)
qed

text \<open>The checkpoints that are left are the highest ones, at most \<open>maxCheckpoints\<close> of them.\<close>

lemma cleanup_exact:
  assumes "\<And>p. io_remove io p = None" and "0 < cm_maxCheckpoints cm"
  obtains dk1 A where "CheckpointManager_cleanupOldCheckpoints io (cm, dk) = (cm\<lparr>cm_checkpoints := cm_checkpoints cm |` (- A)\<rparr>, dk1)"
    and "int (card (dom (cm_checkpoints cm) - A)) \<le> cm_maxCheckpoints cm"
    and "\<forall>x\<in>A. \<forall>y\<in>dom (cm_checkpoints cm) - A. x < y" and "dom (cm_checkpoints cm) = {} \<or> dom (cm_checkpoints cm) - A \<noteq> {}"
proof (cases "int (length (cm_heights cm)) \<le> cm_maxCheckpoints cm")
  case True
  show ?thesis
    by (rule that [of "{}" dk]) (use True in \<open>simp_all add: CheckpointManager_cleanupOldCheckpoints_def restrict_map_def cm_heights_def\<close>)
next
  case False
  let ?hs = "cm_heights cm" and ?n = "nat (int (length (cm_heights cm)) - cm_maxCheckpoints cm)"
  have h: "set ?hs = dom (cm_checkpoints cm)" "distinct ?hs" "sorted ?hs" by (simp_all add: cm_heights_def)
  have u: "set (take ?n ?hs) \<union> set (drop ?n ?hs) = set ?hs" by (metis append_take_drop_id set_append)
  have "set (take ?n ?hs) \<inter> set (drop ?n ?hs) = {}" using set_take_disj_set_drop_if_distinct [OF h(2), of ?n ?n] by simp
  with u have d: "dom (cm_checkpoints cm) - set (take ?n ?hs) = set (drop ?n ?hs)" unfolding h(1) [symmetric] by blast
  obtain dk1 where c: "remove_checkpoints io (take ?n ?hs) (cm, dk) = (cm\<lparr>cm_checkpoints := cm_checkpoints cm |` (- set (take ?n ?hs))\<rparr>, dk1)"
    using remove_checkpoints_exact [OF assms(1)] by blast
  have k: "card (set (drop ?n ?hs)) = length ?hs - ?n" using distinct_card [OF distinct_drop [OF h(2)]] by simp
  show ?thesis
  proof (rule that [of "set (take ?n ?hs)" dk1])
    show "CheckpointManager_cleanupOldCheckpoints io (cm, dk) = (cm\<lparr>cm_checkpoints := cm_checkpoints cm |` (- set (take ?n ?hs))\<rparr>, dk1)"
      using False c by (simp add: CheckpointManager_cleanupOldCheckpoints_def)
    show "int (card (dom (cm_checkpoints cm) - set (take ?n ?hs))) \<le> cm_maxCheckpoints cm" using False assms(2) unfolding d k by simp
    show "\<forall>x\<in>set (take ?n ?hs). \<forall>y\<in>dom (cm_checkpoints cm) - set (take ?n ?hs). x < y"
      using take_drop_sorted [OF h(3,2)] unfolding d by blast
    have "?n < length ?hs" using False assms(2) by simp
    then show "dom (cm_checkpoints cm) = {} \<or> dom (cm_checkpoints cm) - set (take ?n ?hs) \<noteq> {}" unfolding d by simp
  qed
qed

section \<open>Reachable managers\<close>

definition removes :: "io \<Rightarrow> bool" where
  "removes io = (\<forall>p. io_remove io p = None)"

text \<open>A manager that starts without checkpoints and is used with increasing heights, on a disk from which directories can be removed.\<close>

inductive cm_reachable :: "'s CheckpointManager \<times> disk \<Rightarrow> bool" where
  new: "NewCheckpointManager js io (Some []) [WithCheckpointDir dir, WithCheckpointInterval i, WithMaxCheckpoints n] dk = (Inr cm, dk1) \<Longrightarrow>
    cm_reachable (cm, dk1)"
| create: "cm_reachable (cm, dk) \<Longrightarrow> cm_lastCheckpoint cm < height \<Longrightarrow>
    CheckpointManager_CreateCheckpoint io now height bh ph (cm, dk) = (r, cm1, dk1) \<Longrightarrow> cm_reachable (cm1, dk1)"
| finalize: "cm_reachable (cm, dk) \<Longrightarrow> removes io \<Longrightarrow>
    CheckpointManager_FinalizeCheckpoint js io order s (cm, dk) = (e, cm1, dk1) \<Longrightarrow> cm_reachable (cm1, dk1)"
| delete: "cm_reachable (cm, dk) \<Longrightarrow> removes io \<Longrightarrow> CheckpointManager_DeleteCheckpoint io height (cm, dk) = (e, cm1, dk1) \<Longrightarrow> cm_reachable (cm1, dk1)"
| set_max: "cm_reachable s \<Longrightarrow> removes io \<Longrightarrow> cm_reachable (CheckpointManager_SetMaxCheckpoints io n s)"
| set_interval: "cm_reachable (cm, dk) \<Longrightarrow> cm_reachable (CheckpointManager_SetCheckpointInterval i cm, dk)"
| verify: "cm_reachable (cm, dk) \<Longrightarrow> cm_reachable (snd (CheckpointManager_VerifyCheckpoint io height dk cm), dk)"
| register: "cm_reachable (cm, dk) \<Longrightarrow> cm_reachable (CheckpointManager_RegisterComponent c cm, dk)"
| unregister: "cm_reachable (cm, dk) \<Longrightarrow> cm_reachable (CheckpointManager_UnregisterComponent name cm, dk)"

definition last_is_max :: "'s CheckpointManager \<Rightarrow> bool" where
  "last_is_max cm = (if dom (cm_checkpoints cm) = {} then cm_lastCheckpoint cm = 0
     else cm_lastCheckpoint cm \<in> dom (cm_checkpoints cm) \<and> (\<forall>h\<in>dom (cm_checkpoints cm). h \<le> cm_lastCheckpoint cm))"

definition cm_inv :: "'s CheckpointManager \<Rightarrow> bool" where
  "cm_inv cm = (0 < cm_maxCheckpoints cm \<and> cm_checkpointInterval cm \<noteq> 0 \<and> int (card (dom (cm_checkpoints cm))) \<le> cm_maxCheckpoints cm \<and>
     cm_checkpoints cm 0 = None \<and> last_is_max cm \<and> (\<forall>c. cm_pendingCheckpoint cm = Some c \<longrightarrow> cm_lastCheckpoint cm < md_Height (ck_Metadata c)))"

lemma cleanup_inv:
  assumes "removes io" and "0 < cm_maxCheckpoints cm" and "last_is_max cm"
  obtains m dk1 where "CheckpointManager_cleanupOldCheckpoints io (cm, dk) = (cm\<lparr>cm_checkpoints := m\<rparr>, dk1)" and "last_is_max (cm\<lparr>cm_checkpoints := m\<rparr>)"
    and "int (card (dom m)) \<le> cm_maxCheckpoints cm" and "m \<subseteq>\<^sub>m cm_checkpoints cm"
proof -
  obtain A dk1 where c: "CheckpointManager_cleanupOldCheckpoints io (cm, dk) = (cm\<lparr>cm_checkpoints := cm_checkpoints cm |` (- A)\<rparr>, dk1)"
    "int (card (dom (cm_checkpoints cm) - A)) \<le> cm_maxCheckpoints cm" "\<forall>x\<in>A. \<forall>y\<in>dom (cm_checkpoints cm) - A. x < y"
    "dom (cm_checkpoints cm) = {} \<or> dom (cm_checkpoints cm) - A \<noteq> {}"
    by (rule cleanup_exact [where dk = dk, OF assms(1) [unfolded removes_def, rule_format] assms(2)])
  have d: "dom (cm_checkpoints cm |` (- A)) = dom (cm_checkpoints cm) - A" by auto
  show ?thesis
  proof (rule that [OF c(1)])
    show "int (card (dom (cm_checkpoints cm |` (- A)))) \<le> cm_maxCheckpoints cm" using c(2) by (simp only: d)
    show "cm_checkpoints cm |` (- A) \<subseteq>\<^sub>m cm_checkpoints cm" by (auto simp: map_le_def restrict_map_def split: if_splits)
    show "last_is_max (cm\<lparr>cm_checkpoints := cm_checkpoints cm |` (- A)\<rparr>)"
    proof (cases "dom (cm_checkpoints cm) = {}")
      case False
      with c(4) obtain y where y: "y \<in> dom (cm_checkpoints cm) - A" by blast
      from False assms(3) have l: "cm_lastCheckpoint cm \<in> dom (cm_checkpoints cm)" "\<forall>h\<in>dom (cm_checkpoints cm). h \<le> cm_lastCheckpoint cm"
        by (simp_all add: last_is_max_def)
      have "cm_lastCheckpoint cm \<notin> A" using y c(3) l(2) by (meson DiffD1 leD)
      with y l show ?thesis by (simp add: last_is_max_def d) blast
    qed (use assms(3) in \<open>auto simp: last_is_max_def d\<close>)
  qed
qed

lemma map_le_None: "n x = None \<Longrightarrow> m \<subseteq>\<^sub>m n \<Longrightarrow> m x = None"
  by (cases "m x") (auto simp: map_le_def dom_def)

lemma collect_states_keeps:
  "collect_states io get s names c tot dk = (c1, tot1, dk1) \<Longrightarrow>
   md_Height (ck_Metadata c1) = md_Height (ck_Metadata c) \<and> ck_Path c1 = ck_Path c \<and> ck_Status c1 = ck_Status c"
  by (induction names arbitrary: c tot dk) (auto split: sum.splits)

lemma highest_checkpoint_max: "last_is_max (cm\<lparr>cm_lastCheckpoint := highest_checkpoint (cm_heights cm)\<rparr>)"
proof -
  have "foldl (\<lambda>newLast h. if h > newLast then h else newLast) n hs = Max (insert n (set hs))" for n :: uint64 and hs
  proof (induction hs arbitrary: n)
    case (Cons h hs)
    have "Max (insert n (insert h (set hs))) = Max (insert (max n h) (set hs))" by (cases "hs = []") (auto simp: max.assoc)
    with Cons show ?case by (simp add: max_def)
  qed simp
  then have m: "highest_checkpoint (cm_heights cm) = Max (insert 0 (dom (cm_checkpoints cm)))" by (simp add: highest_checkpoint_def cm_heights_def)
  show ?thesis
  proof (cases "dom (cm_checkpoints cm) = {}")
    case False
    have "Max (insert 0 (dom (cm_checkpoints cm))) = Max (dom (cm_checkpoints cm))" using False by (subst Max_insert) (auto simp: max_def)
    then show ?thesis using False Max_in [of "dom (cm_checkpoints cm)"] by (simp add: last_is_max_def m)
  qed (simp add: last_is_max_def m)
qed

lemma new_inv:
  assumes "NewCheckpointManager js io (Some []) [WithCheckpointDir dir, WithCheckpointInterval i, WithMaxCheckpoints n] dk = (Inr cm, dk1)"
  shows "cm_inv cm"
  using assms by (auto simp: NewCheckpointManager_def CheckpointManager_loadCheckpoints_def WithCheckpointDir_def WithCheckpointInterval_def
      WithMaxCheckpoints_def default_manager_def cm_inv_def last_is_max_def Let_def split: prod.splits bool.splits if_splits)

lemma create_inv:
  assumes "cm_inv cm" and "cm_lastCheckpoint cm < height" and "CheckpointManager_CreateCheckpoint io now height bh ph (cm, dk) = (r, cm1, dk1)"
  shows "cm_inv cm1"
  using assms by (auto simp: CheckpointManager_CreateCheckpoint_def cm_inv_def last_is_max_def Let_def split: prod.splits bool.splits if_splits)

lemma finalize_inv:
  assumes "cm_inv cm" and "removes io" and "CheckpointManager_FinalizeCheckpoint js io order s (cm, dk) = (e, cm1, dk1)"
  shows "cm_inv cm1"
proof (cases "cm_pendingCheckpoint cm")
  case (Some c)
  let ?c = "c\<lparr>ck_Status := CheckpointComplete\<rparr>"
  obtain c1 tot dk2 where c1: "collect_states io (get_state cm) s order ?c 0 dk = (c1, tot, dk2)" by (metis prod_cases3)
  let ?c2 = "c1\<lparr>ck_Metadata := (ck_Metadata c1)\<lparr>md_StateSize := tot\<rparr>\<rparr>"
  obtain ok dk3 where w: "os_WriteFile io (metadata_file (ck_Path ?c2)) (marshal js (ck_Metadata ?c2)) dk2 = (ok, dk3)" by (metis surj_pair)
  have h: "md_Height (ck_Metadata c1) = md_Height (ck_Metadata c)" using collect_states_keeps [OF c1] by simp
  have lt: "cm_lastCheckpoint cm < md_Height (ck_Metadata c)" using assms(1) Some by (simp add: cm_inv_def)
  show ?thesis
  proof (cases ok)
    case False
    with assms(3) Some c1 w have "cm1 = cm\<lparr>cm_pendingCheckpoint := Some ?c2\<rparr>" by (simp add: CheckpointManager_FinalizeCheckpoint_def)
    then show ?thesis using assms(1) lt h by (simp add: cm_inv_def last_is_max_def)
  next
    case True
    let ?cm = "cm\<lparr>cm_checkpoints := (cm_checkpoints cm)(md_Height (ck_Metadata ?c2) \<mapsto> ?c2),
        cm_lastCheckpoint := md_Height (ck_Metadata ?c2), cm_pendingCheckpoint := None\<rparr>"
    have "\<forall>x\<in>dom (cm_checkpoints cm). x \<le> cm_lastCheckpoint cm" using assms(1) by (auto simp: cm_inv_def last_is_max_def split: if_splits)
    with lt have l: "last_is_max ?cm" by (auto simp: last_is_max_def h intro: order_trans order_less_imp_le)
    have "0 < cm_maxCheckpoints ?cm" using assms(1) by (simp add: cm_inv_def)
    from cleanup_inv [OF assms(2) this l, of dk3] obtain m dk4 where
      m: "CheckpointManager_cleanupOldCheckpoints io (?cm, dk3) = (?cm\<lparr>cm_checkpoints := m\<rparr>, dk4)" "last_is_max (?cm\<lparr>cm_checkpoints := m\<rparr>)"
        "int (card (dom m)) \<le> cm_maxCheckpoints ?cm" "m \<subseteq>\<^sub>m cm_checkpoints ?cm" .
    have cm1: "cm1 = ?cm\<lparr>cm_checkpoints := m\<rparr>"
      using assms(3) Some c1 w True m(1) by (simp add: CheckpointManager_FinalizeCheckpoint_def)
    have "cm_checkpoints ?cm 0 = None" using assms(1) lt by (auto simp: cm_inv_def h)
    then have "m 0 = None" using m(4) by (rule map_le_None)
    with cm1 m(2,3) assms(1) show ?thesis by (simp add: cm_inv_def)
  qed
qed (use assms in \<open>auto simp: CheckpointManager_FinalizeCheckpoint_def\<close>)

lemma delete_inv:
  assumes "cm_inv cm" and "CheckpointManager_DeleteCheckpoint io height (cm, dk) = (e, cm1, dk1)"
  shows "cm_inv cm1"
proof (cases "cm1 = cm")
  case False
  let ?cm = "cm\<lparr>cm_checkpoints := (cm_checkpoints cm)(height := None)\<rparr>"
  from False assms(2) have c: "cm1 = (if cm_lastCheckpoint cm = height then ?cm\<lparr>cm_lastCheckpoint := highest_checkpoint (cm_heights ?cm)\<rparr> else ?cm)"
      and h: "cm_checkpoints cm height \<noteq> None"
    by (auto simp: CheckpointManager_DeleteCheckpoint_def Let_def split: option.splits prod.splits bool.splits)
  have l: "cm_lastCheckpoint cm \<in> dom (cm_checkpoints cm)" "\<forall>x\<in>dom (cm_checkpoints cm). x \<le> cm_lastCheckpoint cm"
    using assms(1) h by (auto simp: cm_inv_def last_is_max_def split: if_splits)
  have "last_is_max cm1"
  proof (cases "cm_lastCheckpoint cm = height")
    case False
    with l have "cm_lastCheckpoint ?cm \<in> dom (cm_checkpoints ?cm)" "\<forall>x\<in>dom (cm_checkpoints ?cm). x \<le> cm_lastCheckpoint ?cm" by auto
    then show ?thesis using c False by (auto simp only: last_is_max_def if_False split: if_splits)
  qed (use highest_checkpoint_max [of ?cm] c in simp)
  moreover have "cm_lastCheckpoint cm1 \<le> cm_lastCheckpoint cm"
    using \<open>last_is_max cm1\<close> c l by (auto simp: last_is_max_def split: if_splits)
  moreover have "card (dom (cm_checkpoints cm1)) \<le> card (dom (cm_checkpoints cm))" using c by (auto intro!: card_mono)
  ultimately show ?thesis using assms(1) c by (auto simp: cm_inv_def split: if_splits)
qed (use assms(1) in simp)

lemma mark_checkpoint_inv: "cm_inv cm \<Longrightarrow> cm_inv (mark_checkpoint height st cm)"
proof -
  assume "cm_inv cm"
  moreover have "dom (cm_checkpoints (mark_checkpoint height st cm)) = dom (cm_checkpoints cm)"
    "cm_checkpoints (mark_checkpoint height st cm) 0 = None \<longleftrightarrow> cm_checkpoints cm 0 = None"
    by (simp_all add: mark_checkpoint_def map_modify_apply)
  ultimately show ?thesis unfolding cm_inv_def last_is_max_def by (simp add: mark_checkpoint_def del: dom_eq_empty_conv)
qed

lemma verify_inv: "cm_inv cm \<Longrightarrow> cm_inv (snd (CheckpointManager_VerifyCheckpoint io height dk cm))"
  by (auto simp: CheckpointManager_VerifyCheckpoint_def mark_checkpoint_inv split: option.splits if_splits)

lemma set_max_inv:
  assumes "cm_inv cm" and "removes io"
  shows "cm_inv (fst (CheckpointManager_SetMaxCheckpoints io n (cm, dk)))"
proof (cases "n \<le> 0")
  case False
  let ?cm = "cm\<lparr>cm_maxCheckpoints := n\<rparr>"
  have "0 < cm_maxCheckpoints ?cm" "last_is_max ?cm" using False assms(1) by (simp_all add: cm_inv_def last_is_max_def)
  from cleanup_inv [OF assms(2) this, of dk] obtain m dk1 where
    m: "CheckpointManager_cleanupOldCheckpoints io (?cm, dk) = (?cm\<lparr>cm_checkpoints := m\<rparr>, dk1)" "last_is_max (?cm\<lparr>cm_checkpoints := m\<rparr>)"
      "int (card (dom m)) \<le> cm_maxCheckpoints ?cm" "m \<subseteq>\<^sub>m cm_checkpoints ?cm" .
  have "cm_checkpoints ?cm 0 = None" using assms(1) by (simp add: cm_inv_def)
  then have "m 0 = None" using m(4) by (rule map_le_None)
  with m False assms(1) show ?thesis by (simp add: CheckpointManager_SetMaxCheckpoints_def cm_inv_def)
qed (use assms in \<open>simp add: CheckpointManager_SetMaxCheckpoints_def\<close>)

lemma cm_reachable_inv: "cm_reachable s \<Longrightarrow> cm_inv (fst s)"
proof (induction rule: cm_reachable.induct)
  case (set_max s io n)
  then show ?case using set_max_inv [of "fst s" io n "snd s"] by simp
qed (auto simp: new_inv CheckpointManager_SetCheckpointInterval_def CheckpointManager_RegisterComponent_def
    CheckpointManager_UnregisterComponent_def intro: create_inv finalize_inv delete_inv verify_inv, auto simp: cm_inv_def last_is_max_def)

section \<open>Properties\<close>

text \<open>C13: A checkpoint manager that starts empty and is used with increasing heights, on a disk from which directories can be removed,
  never keeps more than \<open>maxCheckpoints\<close> checkpoints, never one at height zero, and \<open>lastCheckpoint\<close> is the highest of them, zero when there is none:
  \<open>GetLatestCheckpoint\<close> returns the newest checkpoint that exists.\<close>

theorem checkpoints_bounded:
  assumes "cm_reachable (cm, dk)"
  shows "int (CheckpointManager_GetCheckpointCount cm) \<le> CheckpointManager_GetMaxCheckpoints cm \<and> \<not> CheckpointManager_HasCheckpoint 0 cm \<and>
    (case CheckpointManager_GetLatestCheckpoint cm of
       Inl e \<Rightarrow> CheckpointManager_GetCheckpointHeights cm = []
     | Inr c \<Rightarrow> c \<noteq> None \<and> cm_checkpoints cm (Max (set (CheckpointManager_GetCheckpointHeights cm))) = c)"
proof -
  have i: "cm_inv cm" using cm_reachable_inv [OF assms] by simp
  have "Max (dom (cm_checkpoints cm)) = cm_lastCheckpoint cm" if "dom (cm_checkpoints cm) \<noteq> {}"
    using i that by (intro Max_eqI) (auto simp: cm_inv_def last_is_max_def)
  with i show ?thesis
    by (auto simp: cm_inv_def last_is_max_def CheckpointManager_GetCheckpointCount_def CheckpointManager_GetMaxCheckpoints_def
        CheckpointManager_HasCheckpoint_def CheckpointManager_GetLatestCheckpoint_def CheckpointManager_GetCheckpointHeights_def cm_heights_def
        split: if_splits)
qed

section \<open>A checkpoint survives a restart\<close>

lemma scan_dir_name: "scan_height (checkpoint_dir_name h) = Some h"
proof -
  have n: "fmt_nat k \<noteq> []" for k by (simp add: fmt_nat.simps [of k])
  have d: "\<forall>c\<in>set (fmt_nat k). digit c" for k using fmt_nat_digits by blast
  have w: "dropWhile (\<lambda>c. c = CHR '' '') (fmt_nat k) = fmt_nat k" for k
    using d [of k] by (cases "fmt_nat k") (auto simp: digit_def)
  have t: "takeWhile digit (fmt_nat k) = fmt_nat k" for k using d [of k] by (simp add: takeWhile_eq_all_conv)
  have "unat h < 2 ^ 64" using unsigned_less [of h] by simp
  then show ?thesis by (simp add: scan_height_def checkpoint_dir_name_def digits_val_fmt n w t Let_def)
qed

lemma state_file_inj [simp]: "state_file p a = state_file p b \<longleftrightarrow> a = b"
  by (simp add: state_file_def)

lemma state_not_metadata [simp]: "state_file p a \<noteq> metadata_file p"
proof -
  have "a @ ''.state'' \<noteq> ''metadata.json''"
  proof
    assume "a @ ''.state'' = ''metadata.json''"
    then have "last (a @ ''.state'') = last ''metadata.json''" by simp
    then show False by simp
  qed
  then show ?thesis by (simp add: state_file_def metadata_file_def)
qed

lemma butlast_files [simp]: "butlast (state_file p a) = p" "butlast (metadata_file p) = p"
  by (simp_all add: state_file_def metadata_file_def butlast_append)

lemma collect_states_files:
  assumes "dk_dirs dk (ck_Path c)" and "distinct names"
    and "collect_states io_ok get s names c tot dk = (c1, tot1, dk1)"
  shows "dk_dirs dk1 = dk_dirs dk" and "dk_files dk1 (state_file (ck_Path c) name) =
      (if name \<in> set names then (case get s name of Inl _ \<Rightarrow> dk_files dk (state_file (ck_Path c) name) | Inr b \<Rightarrow> Some b)
       else dk_files dk (state_file (ck_Path c) name))"
proof -
  have "dk_dirs dk1 = dk_dirs dk \<and> (\<forall>name. dk_files dk1 (state_file (ck_Path c) name) =
      (if name \<in> set names then (case get s name of Inl _ \<Rightarrow> dk_files dk (state_file (ck_Path c) name) | Inr b \<Rightarrow> Some b)
       else dk_files dk (state_file (ck_Path c) name)))"
    using assms
  proof (induction names arbitrary: c tot dk)
    case (Cons n names)
    show ?case
    proof (cases "get s n")
      case (Inl e)
      with Cons.prems Cons.IH [OF Cons.prems(1)] show ?thesis by auto
    next
      case (Inr b)
      let ?c = "c\<lparr>ck_ComponentStates := (ck_ComponentStates c)(n \<mapsto> b), ck_Metadata := (ck_Metadata c)\<lparr>md_Components := md_Components (ck_Metadata c) @ [n]\<rparr>\<rparr>"
      let ?dk = "dk\<lparr>dk_files := (dk_files dk)(state_file (ck_Path c) n \<mapsto> b)\<rparr>"
      have "snd (os_WriteFile io_ok (state_file (ck_Path c) n) b dk) = ?dk" using Cons.prems(1) by (simp add: os_WriteFile_def io_ok_def)
      then have "collect_states io_ok get s names ?c (i64 (tot + int (length b))) ?dk = (c1, tot1, dk1)" using Cons.prems(3) Inr by simp
      from Cons.IH [OF _ _ this] Cons.prems(1,2) Inr show ?thesis by (auto split: sum.splits)
    qed
  qed simp
  then show "dk_dirs dk1 = dk_dirs dk" and "dk_files dk1 (state_file (ck_Path c) name) =
      (if name \<in> set names then (case get s name of Inl _ \<Rightarrow> dk_files dk (state_file (ck_Path c) name) | Inr b \<Rightarrow> Some b)
       else dk_files dk (state_file (ck_Path c) name))" by blast+
qed

lemma load_loop_keeps:
  "cm_checkpointDir (load_loop js io entries dk cm) = cm_checkpointDir cm \<and> cm_components (load_loop js io entries dk cm) = cm_components cm"
  by (induction entries arbitrary: cm) (auto split: option.splits)

lemma load_loop_other: "(\<And>n. (n, True) \<in> set entries \<Longrightarrow> scan_height n \<noteq> Some h) \<Longrightarrow>
    cm_checkpoints (load_loop js io entries dk cm) h = cm_checkpoints cm h"
  by (induction entries arbitrary: cm) (auto split: option.splits)

lemma load_loop_finds:
  fixes cm :: "'s CheckpointManager"
  assumes "(name, True) \<in> set entries" and "scan_height name = Some h" and "\<And>n. (n, True) \<in> set entries \<Longrightarrow> scan_height n = Some h \<Longrightarrow> n = name"
    and "os_ReadFile io (metadata_file (cm_checkpointDir cm @ [name])) dk = Some b" and "unmarshal js b = Some md"
  shows "cm_checkpoints (load_loop js io entries dk cm) h =
    Some \<lparr>ck_Metadata = md, ck_Status = CheckpointComplete, ck_Path = cm_checkpointDir cm @ [name], ck_ComponentStates = Map.empty\<rparr>"
  using assms
proof (induction entries arbitrary: cm)
  case (Cons e entries)
  obtain n d where e: "e = (n, d)" by (cases e)
  show ?case
  proof (cases "(name, True) \<in> set entries")
    case True
    have IH: "cm_checkpoints (load_loop js io entries dk cm1) h = Some \<lparr>ck_Metadata = md, ck_Status = CheckpointComplete,
        ck_Path = cm_checkpointDir cm @ [name], ck_ComponentStates = Map.empty\<rparr>" if "cm_checkpointDir cm1 = cm_checkpointDir cm" for cm1 :: "'s CheckpointManager"
      using Cons.IH [OF True Cons.prems(2), of cm1] Cons.prems(3-5) that by (simp add: e)
    show ?thesis by (auto simp: e IH split: option.splits)
  next
    case False
    then have "n = name" "d" "\<And>x. (x, True) \<in> set entries \<Longrightarrow> scan_height x \<noteq> Some h" using Cons.prems(1,3) by (auto simp: e)
    then show ?thesis using Cons.prems(2,4,5) by (simp add: e load_loop_other)
  qed
qed simp

text \<open>What a restore makes of a state \<open>s1\<close>: every component writes back what it had at the checkpoint, taken in state \<open>s\<close>.\<close>

definition restore_result :: "(string \<rightharpoonup> 's handler) \<Rightarrow> 's \<Rightarrow> string list \<Rightarrow> 's \<Rightarrow> 's" where
  "restore_result comps s names s1 =
     fold (\<lambda>name s1. case ch_get (the (comps name)) s of Inl _ \<Rightarrow> s1 | Inr b \<Rightarrow> snd (ch_restore (the (comps name)) b s1)) names s1"

lemma restore_loop_result:
  assumes "\<And>name. name \<in> set names \<Longrightarrow> dk_files dk (state_file p name) = (case ch_get (the (cm_components cm name)) s of Inl _ \<Rightarrow> None | Inr b \<Rightarrow> Some b)"
  shows "restore_loop io_ok cm p names dk s1 = restore_result (cm_components cm) s names s1"
  using assms
  by (induction names arbitrary: s1) (auto simp: restore_result_def os_ReadFile_def io_ok_def split: sum.splits)

lemma finalize_files:
  assumes "cm_pendingCheckpoint cm = Some c" and "dk_dirs dk (ck_Path c)" and "distinct order"
    and "int (card (insert (md_Height (ck_Metadata c)) (dom (cm_checkpoints cm)))) \<le> cm_maxCheckpoints cm"
  obtains c2 dk2 where "CheckpointManager_FinalizeCheckpoint js io_ok order s (cm, dk) =
      (None, cm\<lparr>cm_checkpoints := (cm_checkpoints cm)(md_Height (ck_Metadata c) \<mapsto> c2), cm_lastCheckpoint := md_Height (ck_Metadata c),
                cm_pendingCheckpoint := None\<rparr>, dk2)"
    and "ck_Path c2 = ck_Path c" and "ck_Status c2 = CheckpointComplete" and "md_Height (ck_Metadata c2) = md_Height (ck_Metadata c)"
    and "dk_dirs dk2 = dk_dirs dk" and "dk_files dk2 (metadata_file (ck_Path c)) = Some (marshal js (ck_Metadata c2))"
    and "\<forall>name. dk_files dk2 (state_file (ck_Path c) name) =
      (if name \<in> set order then (case get_state cm s name of Inl _ \<Rightarrow> dk_files dk (state_file (ck_Path c) name) | Inr b \<Rightarrow> Some b)
       else dk_files dk (state_file (ck_Path c) name))"
proof -
  let ?c = "c\<lparr>ck_Status := CheckpointComplete\<rparr>"
  obtain c1 tot dk1 where c1: "collect_states io_ok (get_state cm) s order ?c 0 dk = (c1, tot, dk1)" by (metis prod_cases3)
  let ?c2 = "c1\<lparr>ck_Metadata := (ck_Metadata c1)\<lparr>md_StateSize := tot\<rparr>\<rparr>"
  note k = collect_states_keeps [OF c1] and f = collect_states_files [OF _ assms(3) c1]
  let ?dk = "dk1\<lparr>dk_files := (dk_files dk1)(metadata_file (ck_Path c) \<mapsto> marshal js (ck_Metadata ?c2))\<rparr>"
  have w: "os_WriteFile io_ok (metadata_file (ck_Path ?c2)) (marshal js (ck_Metadata ?c2)) dk1 = (True, ?dk)"
    using f(1) k assms(2) by (simp add: os_WriteFile_def io_ok_def)
  let ?cm = "cm\<lparr>cm_checkpoints := (cm_checkpoints cm)(md_Height (ck_Metadata c) \<mapsto> ?c2), cm_lastCheckpoint := md_Height (ck_Metadata c),
      cm_pendingCheckpoint := None\<rparr>"
  have "int (length (cm_heights ?cm)) \<le> cm_maxCheckpoints ?cm" using assms(4) by (simp add: cm_heights_def card.insert_remove)
  then have "CheckpointManager_cleanupOldCheckpoints io_ok (?cm, ?dk) = (?cm, ?dk)" by (simp add: CheckpointManager_cleanupOldCheckpoints_def)
  then have "CheckpointManager_FinalizeCheckpoint js io_ok order s (cm, dk) = (None, ?cm, ?dk)"
    using assms(1) c1 w k by (simp add: CheckpointManager_FinalizeCheckpoint_def)
  then show ?thesis by (rule that) (use k f assms(2) in \<open>auto split: sum.splits\<close>)
qed

text \<open>C8: A checkpoint that was created and finalized survives a restart of the node: a new manager over the same directory finds it under its height, and
  restoring from it hands every component exactly the bytes the component had given when the checkpoint was finalized, in whatever order the components are visited.
  The disk works, the directory of the checkpoint was empty, there was room for it, no other directory carries the same number, and JSON round trips.\<close>

theorem checkpoint_survives_restart:
  fixes cm cm1 cm2 cm3 :: "'s CheckpointManager"
  assumes "CheckpointManager_CreateCheckpoint io_ok now h bh ph (cm, dk) = (Inr c, cm1, dk1)"
    and "CheckpointManager_FinalizeCheckpoint js io_ok order s (cm1, dk1) = (e, cm2, dk2)"
    and "range_order (cm_components cm) order" and "int (card (dom (cm_checkpoints cm))) < cm_maxCheckpoints cm"
    and "\<And>f. dk_files dk (cm_checkpointDir cm @ [checkpoint_dir_name h, f]) = None"
    and "NewCheckpointManager js io_ok (Some entries) [WithCheckpointDir (cm_checkpointDir cm)] dk2 = (Inr cm3, dk3)"
    and "(checkpoint_dir_name h, True) \<in> set entries" and "\<And>n. (n, True) \<in> set entries \<Longrightarrow> scan_height n = Some h \<Longrightarrow> n = checkpoint_dir_name h"
    and "\<And>m. map_option ck_Metadata (cm_checkpoints cm2 h) = Some m \<Longrightarrow> unmarshal js (marshal js m) = Some m"
    and "range_order (cm_components cm) order4"
  shows "e = None \<and> CheckpointManager_HasCheckpoint h cm3 \<and> map_option ck_Metadata (cm_checkpoints cm3 h) = map_option ck_Metadata (cm_checkpoints cm2 h) \<and>
    CheckpointManager_RestoreFromCheckpoint io_ok order4 h (cm3\<lparr>cm_components := cm_components cm\<rparr>) dk3 s1 =
      (None, restore_result (cm_components cm) s order4 s1)"
proof -
  let ?p = "cm_checkpointDir cm @ [checkpoint_dir_name h]"
  have c: "cm1 = cm\<lparr>cm_pendingCheckpoint := Some c\<rparr>" "dk1 = dk\<lparr>dk_dirs := (\<lambda>q. dk_dirs dk q \<or> prefix q ?p)\<rparr>" "ck_Path c = ?p"
      "md_Height (ck_Metadata c) = h"
    using assms(1) by (auto simp: CheckpointManager_CreateCheckpoint_def os_MkdirAll_def io_ok_def Let_def split: if_splits)
  have o: "distinct order" "set order4 = set order" "set order = dom (cm_components cm)" using assms(3,10) by (auto simp: range_order_def)
  have "int (card (insert (md_Height (ck_Metadata c)) (dom (cm_checkpoints cm1)))) \<le> cm_maxCheckpoints cm1"
    using assms(4) card_insert_le_m1 [of "card (dom (cm_checkpoints cm)) + 1" "dom (cm_checkpoints cm)" "md_Height (ck_Metadata c)"] by (simp add: c(1))
  note room = this
  have pend: "cm_pendingCheckpoint cm1 = Some c" and dirs: "dk_dirs dk1 (ck_Path c)" using c(1,2,3) by simp_all
  obtain c2 dk4 where f: "CheckpointManager_FinalizeCheckpoint js io_ok order s (cm1, dk1) =
      (None, cm1\<lparr>cm_checkpoints := (cm_checkpoints cm1)(md_Height (ck_Metadata c) \<mapsto> c2), cm_lastCheckpoint := md_Height (ck_Metadata c),
                cm_pendingCheckpoint := None\<rparr>, dk4)"
      and md: "dk_files dk4 (metadata_file (ck_Path c)) = Some (marshal js (ck_Metadata c2))"
      and st: "\<forall>name. dk_files dk4 (state_file (ck_Path c) name) =
        (if name \<in> set order then (case get_state cm1 s name of Inl _ \<Rightarrow> dk_files dk1 (state_file (ck_Path c) name) | Inr b \<Rightarrow> Some b)
         else dk_files dk1 (state_file (ck_Path c) name))"
    by (rule finalize_files [OF pend dirs o(1) room])
  have e: "e = None" "dk2 = dk4" "map_option ck_Metadata (cm_checkpoints cm2 h) = Some (ck_Metadata c2)"
    using assms(2) f c(4) by auto
  let ?cm = "WithCheckpointDir (cm_checkpointDir cm) (default_manager :: 's CheckpointManager)"
  have n: "cm3 = load_loop js io_ok entries dk3 ?cm" "dk_files dk3 = dk_files dk4" "cm_checkpointDir ?cm = cm_checkpointDir cm"
    using assms(6) e(2) by (auto simp: NewCheckpointManager_def os_MkdirAll_def io_ok_def CheckpointManager_loadCheckpoints_def
        WithCheckpointDir_def Let_def)
  have "os_ReadFile io_ok (metadata_file (cm_checkpointDir ?cm @ [checkpoint_dir_name h])) dk3 = Some (marshal js (ck_Metadata c2))"
    using md by (simp add: os_ReadFile_def io_ok_def n(2,3) c(3))
  from load_loop_finds [OF assms(7) scan_dir_name assms(8) this assms(9) [OF e(3)]]
  have l: "cm_checkpoints cm3 h = Some \<lparr>ck_Metadata = ck_Metadata c2, ck_Status = CheckpointComplete, ck_Path = ?p, ck_ComponentStates = Map.empty\<rparr>"
    by (simp add: n(1,3))
  have "dk_files dk (state_file ?p name) = None" for name using assms(5) [of "name @ ''.state''"] by (simp add: state_file_def)
  then have "dk_files dk3 (state_file ?p name) = (case ch_get (the (cm_components cm name)) s of Inl _ \<Rightarrow> None | Inr b \<Rightarrow> Some b)"
    if "name \<in> set order4" for name
    using st that o(2) by (simp add: n(2) c get_state_def split: sum.split)
  then have "restore_loop io_ok (cm3\<lparr>cm_components := cm_components cm\<rparr>) ?p order4 dk3 s1 = restore_result (cm_components cm) s order4 s1"
    using restore_loop_result [of order4 dk3 ?p "cm3\<lparr>cm_components := cm_components cm\<rparr>" s s1] by simp
  then show ?thesis using e(1) l by (simp add: e(3) CheckpointManager_HasCheckpoint_def CheckpointManager_RestoreFromCheckpoint_def del: map_option_eq_Some)
qed

text \<open>An example with one component, whose state is a byte.\<close>

definition byte_component :: "byte handler" where
  "byte_component = \<lparr>ch_name = ''a'', ch_get = (\<lambda>s. Inr [s]), ch_restore = (\<lambda>b s. (None, hd b))\<rparr>"

definition byte_manager :: "byte CheckpointManager" where
  "byte_manager = CheckpointManager_RegisterComponent byte_component default_manager"

definition byte_metadata :: CheckpointMetadata where
  "byte_metadata = \<lparr>md_Height = 1000, md_Timestamp = 0, md_BlockHash = ''h'', md_PreviousHash = ''p'', md_StateSize = 1,
     md_Components = [''a''], md_Version = ''1.0''\<rparr>"

definition byte_codec :: codec where
  "byte_codec = \<lparr>marshal = (\<lambda>_. []), unmarshal = (\<lambda>_. Some byte_metadata)\<rparr>"

definition empty_disk :: disk where
  "empty_disk = \<lparr>dk_dirs = (\<lambda>_. False), dk_files = Map.empty\<rparr>"

definition byte_saved :: "cm_error option \<times> byte CheckpointManager \<times> disk" where
  "byte_saved = CheckpointManager_FinalizeCheckpoint byte_codec io_ok [''a''] 7
     (snd (CheckpointManager_CreateCheckpoint io_ok 0 1000 ''h'' ''p'' (byte_manager, empty_disk)))"

lemma byte_manager_simps:
  "cm_components byte_manager = [''a'' \<mapsto> byte_component]" "cm_checkpoints byte_manager = Map.empty" "cm_maxCheckpoints byte_manager = 10"
  "cm_checkpointDir byte_manager = [''checkpoints'']" "cm_pendingCheckpoint byte_manager = None"
  by (simp_all add: byte_manager_def CheckpointManager_RegisterComponent_def default_manager_def byte_component_def)

lemma byte_create:
  "\<exists>c cm1 dk1. CheckpointManager_CreateCheckpoint io_ok 0 1000 ''h'' ''p'' (byte_manager, empty_disk) = (Inr c, cm1, dk1)"
  by (simp add: CheckpointManager_CreateCheckpoint_def byte_manager_simps os_MkdirAll_def io_ok_def Let_def)

lemma byte_saved_metadata: "map_option ck_Metadata (cm_checkpoints (fst (snd byte_saved)) 1000) = Some byte_metadata"
  by (simp add: byte_saved_def CheckpointManager_CreateCheckpoint_def byte_manager_simps os_MkdirAll_def io_ok_def Let_def
      CheckpointManager_FinalizeCheckpoint_def get_state_def byte_component_def os_WriteFile_def CheckpointManager_cleanupOldCheckpoints_def
      cm_heights_def byte_metadata_def i64_id)

theorem checkpoint_survives_restart_witness:
  "\<exists>cm3 dk3. NewCheckpointManager byte_codec io_ok (Some [(checkpoint_dir_name 1000, True)]) [WithCheckpointDir [''checkpoints'']] (snd (snd byte_saved)) =
       (Inr cm3, dk3) \<and>
     CheckpointManager_RestoreFromCheckpoint io_ok [''a''] 1000 (cm3\<lparr>cm_components := cm_components byte_manager\<rparr>) dk3 9 = (None, 7)"
proof -
  obtain c cm1 dk1 where c: "CheckpointManager_CreateCheckpoint io_ok 0 1000 ''h'' ''p'' (byte_manager, empty_disk) = (Inr c, cm1, dk1)"
    using byte_create by blast
  obtain e cm2 dk2 where f: "CheckpointManager_FinalizeCheckpoint byte_codec io_ok [''a''] 7 (cm1, dk1) = (e, cm2, dk2)" by (metis prod_cases3)
  obtain cm3 :: "byte CheckpointManager" and dk3 where n: "NewCheckpointManager byte_codec io_ok (Some [(checkpoint_dir_name 1000, True)])
      [WithCheckpointDir (cm_checkpointDir byte_manager)] dk2 = (Inr cm3, dk3)"
    by (simp add: NewCheckpointManager_def os_MkdirAll_def io_ok_def Let_def)
  have s: "byte_saved = (e, cm2, dk2)" using c f by (simp add: byte_saved_def)
  have sm: "map_option ck_Metadata (cm_checkpoints cm2 1000) = Some byte_metadata"
    using byte_saved_metadata by (simp add: s del: map_option_eq_Some)
  have r: "range_order (cm_components byte_manager) [''a'']" by (simp add: range_order_def byte_manager_simps)
  have "e = None \<and> CheckpointManager_HasCheckpoint 1000 cm3 \<and>
      map_option ck_Metadata (cm_checkpoints cm3 1000) = map_option ck_Metadata (cm_checkpoints cm2 1000) \<and>
      CheckpointManager_RestoreFromCheckpoint io_ok [''a''] 1000 (cm3\<lparr>cm_components := cm_components byte_manager\<rparr>) dk3 9 =
        (None, restore_result (cm_components byte_manager) 7 [''a''] 9)"
    by (rule checkpoint_survives_restart [OF c f r _ _ n _ _ _ r])
      (use sm in \<open>auto simp: byte_manager_simps empty_disk_def byte_codec_def\<close>)
  then show ?thesis using n by (simp add: s byte_manager_simps restore_result_def byte_component_def)
qed

theorem checkpoints_bounded_witness:
  "\<exists>cm :: byte CheckpointManager. CheckpointManager_HasCheckpoint 1000 cm \<and>
     int (CheckpointManager_GetCheckpointCount cm) \<le> CheckpointManager_GetMaxCheckpoints cm"
proof -
  have "NewCheckpointManager byte_codec io_ok (Some []) [WithCheckpointDir [''checkpoints''], WithCheckpointInterval 1000, WithMaxCheckpoints 10] empty_disk =
      (Inr default_manager, snd (os_MkdirAll io_ok [''checkpoints''] empty_disk))"
    by (simp add: NewCheckpointManager_def WithCheckpointDir_def WithCheckpointInterval_def WithMaxCheckpoints_def default_manager_def
        os_MkdirAll_def io_ok_def CheckpointManager_loadCheckpoints_def)
  from cm_reachable.register [OF cm_reachable.new [OF this], of byte_component]
  have 0: "cm_reachable (byte_manager, snd (os_MkdirAll io_ok [''checkpoints''] empty_disk))" by (simp add: byte_manager_def)
  obtain r cm1 dk1 where c: "CheckpointManager_CreateCheckpoint io_ok 0 1000 ''h'' ''p'' (byte_manager, snd (os_MkdirAll io_ok [''checkpoints''] empty_disk)) =
    (r, cm1, dk1)" by (metis prod_cases3)
  have "cm_lastCheckpoint byte_manager < 1000" by (simp add: byte_manager_def CheckpointManager_RegisterComponent_def default_manager_def)
  from cm_reachable.create [OF 0 this c] have 1: "cm_reachable (cm1, dk1)" .
  obtain e cm2 dk2 where f: "CheckpointManager_FinalizeCheckpoint byte_codec io_ok [''a''] 7 (cm1, dk1) = (e, cm2, dk2)" by (metis prod_cases3)
  have "removes io_ok" by (simp add: removes_def io_ok_def)
  from cm_reachable.finalize [OF 1 this f] have 2: "cm_reachable (cm2, dk2)" .
  have "CheckpointManager_HasCheckpoint 1000 cm2"
    using c f by (auto simp: CheckpointManager_CreateCheckpoint_def byte_manager_simps os_MkdirAll_def io_ok_def Let_def empty_disk_def
        CheckpointManager_FinalizeCheckpoint_def get_state_def byte_component_def os_WriteFile_def CheckpointManager_cleanupOldCheckpoints_def
        cm_heights_def CheckpointManager_HasCheckpoint_def)
  with checkpoints_bounded [OF 2] show ?thesis by blast
qed

section \<open>Weaknesses\<close>

text \<open>A checkpoint below all others, which a smaller interval or a rollback leads to, is removed by its own clean up once the manager is full,
  and \<open>lastCheckpoint\<close> points to it nevertheless: \<open>GetLatestCheckpoint\<close> returns a nil pointer and no error.\<close>

theorem latest_dangling:
  assumes "cm_pendingCheckpoint cm = Some c" and "md_Height (ck_Metadata c) = h" and "0 < h" and "dk_dirs dk (ck_Path c)" and "distinct order"
    and "int (card (dom (cm_checkpoints cm))) = cm_maxCheckpoints cm" and "0 < cm_maxCheckpoints cm" and "\<And>x. x \<in> dom (cm_checkpoints cm) \<Longrightarrow> h < x"
  shows "\<exists>cm1 dk1. CheckpointManager_FinalizeCheckpoint js io_ok order s (cm, dk) = (None, cm1, dk1) \<and>
    CheckpointManager_GetLatestCheckpoint cm1 = Inr None"
proof -
  let ?c = "c\<lparr>ck_Status := CheckpointComplete\<rparr>"
  obtain c1 tot dk1 where c1: "collect_states io_ok (get_state cm) s order ?c 0 dk = (c1, tot, dk1)" by (metis prod_cases3)
  let ?c2 = "c1\<lparr>ck_Metadata := (ck_Metadata c1)\<lparr>md_StateSize := tot\<rparr>\<rparr>"
  note k = collect_states_keeps [OF c1] and f = collect_states_files [OF _ assms(5) c1]
  let ?dk = "dk1\<lparr>dk_files := (dk_files dk1)(metadata_file (ck_Path c) \<mapsto> marshal js (ck_Metadata ?c2))\<rparr>"
  have w: "os_WriteFile io_ok (metadata_file (ck_Path ?c2)) (marshal js (ck_Metadata ?c2)) dk1 = (True, ?dk)"
    using f(1) k assms(4) by (simp add: os_WriteFile_def io_ok_def)
  let ?cm = "cm\<lparr>cm_checkpoints := (cm_checkpoints cm)(h \<mapsto> ?c2), cm_lastCheckpoint := h, cm_pendingCheckpoint := None\<rparr>"
  have h: "cm_heights ?cm = h # sorted_list_of_set (dom (cm_checkpoints cm))"
  proof -
    have "h \<notin> dom (cm_checkpoints cm)" "\<forall>x\<in>dom (cm_checkpoints cm). h \<le> x" using assms(8) by (blast, meson order_less_imp_le)
    then show ?thesis by (simp add: cm_heights_def insort_is_Cons)
  qed
  have "CheckpointManager_cleanupOldCheckpoints io_ok (?cm, ?dk) = remove_checkpoints io_ok [h] (?cm, ?dk)"
    using assms(6,7) by (simp add: CheckpointManager_cleanupOldCheckpoints_def h)
  moreover obtain dk2 where "remove_checkpoints io_ok [h] (?cm, ?dk) = (?cm\<lparr>cm_checkpoints := cm_checkpoints ?cm |` (- set [h])\<rparr>, dk2)"
    using remove_checkpoints_exact [of io_ok "[h]" ?cm ?dk] by (auto simp: io_ok_def)
  ultimately have "CheckpointManager_FinalizeCheckpoint js io_ok order s (cm, dk) = (None, ?cm\<lparr>cm_checkpoints := cm_checkpoints ?cm |` (- {h})\<rparr>, dk2)"
    using assms(1,2) c1 w k by (simp add: CheckpointManager_FinalizeCheckpoint_def)
  then show ?thesis using assms(3) by (intro exI conjI) (auto simp: CheckpointManager_GetLatestCheckpoint_def)
qed

end
