(* ===== verification/WalletTheory.thy ===== *)
theory WalletTheory
  imports KyberTheory TxManager CheckpointTheory
begin

text \<open>
  The wallet of \<open>wallet/wallet.go\<close>: it holds the two key pairs of a user, registers an account for them, signs, pays through the transaction manager and
  is written to and read from a file. The account table, the manager and the disk are the ones of \<open>Accounts\<close>, \<open>TxManager\<close> and \<open>CheckpointTheory\<close>; the clock and random
  bytes are arguments and \<open>encoding/json\<close> is a pair of functions. A nil pointer that is dereferenced is a panic, the outer \<open>None\<close>.
\<close>

section \<open>Definitions\<close>

text \<open>\<open>GenerateUniqueID\<close> of \<open>common/common.go\<close>, for the clock reading \<open>t\<close> in nanoseconds.\<close>

definition GenerateUniqueID :: "int \<Rightarrow> string" where
  "GenerateUniqueID t = hex_encode (take 16 (hash_bytes (sha256 (string_bytes (fmt_d t)))))"

record Wallet =
  w_ID :: string
  w_Nonce :: int
  w_KEMKeyPair :: "KyberKeyPair option"
  w_SigKeyPair :: "DilithiumKeyPair option"
  w_CryptoManager :: CryptoManager

record WalletFile =
  wf_ID :: string
  wf_Nonce :: int
  wf_KEMKeyPair :: "KyberKeyPair option"
  wf_SigKeyPair :: "DilithiumKeyPair option"

datatype wallet_error =
    WErrNew string
  | WErrCrypto string crypto_error
  | WErrCommon string common_error
  | WErrManager string tm_error
  | WErrAccount string

text \<open>What the creation of a wallet reads from its surroundings.\<close>

record wallet_env =
  we_kems :: kems
  we_schemes :: schemes
  we_logger :: bool
  we_now :: int
  we_coins :: bytes
  we_elapsed :: duration
  we_idTime :: int

text \<open>The crypto manager accepts a nil logger; the log line at the end does not.\<close>

definition NewWallet :: "wallet_env \<Rightarrow> (wallet_error + Wallet) option" where
  "NewWallet env =
     (case NewCryptoManager (we_kems env) (we_now env) KyberLevel1024 DilithiumLevel3 [] of
        None \<Rightarrow> None
      | Some (Inl e) \<Rightarrow> Some (Inl (WErrCrypto ''failed to create crypto manager'' e))
      | Some (Inr cm) \<Rightarrow>
          (case CryptoManager_GenerateKEMKeyPair (we_coins env) (we_elapsed env) cm of
             (Inl e, cm1) \<Rightarrow> Some (Inl (WErrCrypto ''failed to generate Kyber key pair'' e))
           | (Inr kemKP, cm1) \<Rightarrow>
               (case CryptoManager_GenerateSignatureKeyPair (we_schemes env) cm1 of
                  Inl e \<Rightarrow> Some (Inl (WErrCrypto ''failed to generate Dilithium key pair'' e))
                | Inr sigKP \<Rightarrow>
                    if \<not> we_logger env then None
                    else Some (Inr \<lparr>w_ID = GenerateUniqueID (we_idTime env), w_Nonce = 0, w_KEMKeyPair = Some kemKP, w_SigKeyPair = Some sigKP,
                                    w_CryptoManager = cm1\<rparr>))))"

definition Wallet_RegisterAccount ::
  "aead_seal \<Rightarrow> bytes option \<Rightarrow> string \<Rightarrow> Wallet \<Rightarrow> accounts \<Rightarrow> (wallet_error option \<times> accounts) option" where
  "Wallet_RegisterAccount seal rand encKey w accs =
     (if encKey = '''' then Some (Some (WErrNew ''DIAMANTE_WALLET_ENCRYPTION_KEY environment variable not set''), accs)
      else case hex_decode encKey of
        None \<Rightarrow> Some (Some (WErrNew ''failed to decode DIAMANTE_WALLET_ENCRYPTION_KEY''), accs)
      | Some keyBytes \<Rightarrow>
          if length keyBytes \<noteq> 32
            then Some (Some (WErrNew ''DIAMANTE_WALLET_ENCRYPTION_KEY must be 64 hex characters representing 32 bytes''), accs)
          else case w_SigKeyPair w of
            None \<Rightarrow> None
          | Some sig \<Rightarrow>
              (case Account_SetPrivateKey seal rand (kp_PrivateKey sig) encKey
                      (zero_Account\<lparr>acc_ID := w_ID w, acc_PublicKey := kp_PublicKey sig, acc_Balance := f64_0\<rparr>) of
                 (Some e, account) \<Rightarrow> Some (Some (WErrCommon ''failed to encrypt private key'' e), accs)
               | (None, account) \<Rightarrow>
                   (case RegisterAccount (Some account) accs of
                      (Some e, accs1) \<Rightarrow> Some (Some (WErrCommon ''failed to register account'' e), accs1)
                    | (None, accs1) \<Rightarrow> Some (None, accs1))))"

definition Wallet_GetBalance :: "Wallet \<Rightarrow> accounts \<Rightarrow> wallet_error + float64" where
  "Wallet_GetBalance w accs =
     (case GetAccount (w_ID w) accs of None \<Rightarrow> Inl (WErrAccount (w_ID w)) | Some account \<Rightarrow> Inr (acc_Balance account))"

definition Wallet_FundWallet :: "float64 \<Rightarrow> Wallet \<Rightarrow> accounts \<Rightarrow> common_error option \<times> accounts" where
  "Wallet_FundWallet amount w accs = UpdateAccountBalance (w_ID w) amount accs"

text \<open>The nonce is counted up before the signature is made, whether or not that succeeds.\<close>

definition Wallet_CreateTransaction ::
  "schemes \<Rightarrow> int \<Rightarrow> int \<Rightarrow> string \<Rightarrow> float64 \<Rightarrow> float64 \<Rightarrow> bytes \<Rightarrow> Wallet \<Rightarrow> ((wallet_error + Transaction) \<times> Wallet) option" where
  "Wallet_CreateTransaction schemes idTime now receiver amount fee data w =
     (let w1 = w\<lparr>w_Nonce := i64 (w_Nonce w + 1)\<rparr>;
          tx = \<lparr>tx_ID = GenerateUniqueID idTime, tx_Sender = w_ID w, tx_Receiver = receiver, tx_Amount = amount, tx_Timestamp = unix now,
                tx_Signature = [], tx_Priority = 0, tx_Fee = fee, tx_ExpiryTime = 0, tx_SmartContractID = '''', tx_Metadata = [], tx_Data = data,
                tx_Nonce = w_Nonce w1, tx_SignerID = '''', tx_BlockHeight = 0, tx_Status = ''''\<rparr> in
      case w_SigKeyPair w of
        None \<Rightarrow> None
      | Some sig \<Rightarrow>
          (case SignDataWithDilithium schemes (kp_PrivateKey sig) (string_bytes (tx_ID tx)) of
             Inl e \<Rightarrow> Some (Inl (WErrCrypto ''failed to sign transaction'' e), w1)
           | Inr s \<Rightarrow> Some (Inr (tx\<lparr>tx_Signature := s\<rparr>), w1)))"

definition Wallet_SubmitTransaction ::
  "int \<Rightarrow> int \<Rightarrow> ManagerEnv \<Rightarrow> string \<Rightarrow> float64 \<Rightarrow> float64 \<Rightarrow> bytes \<Rightarrow> Wallet \<times> TransactionManager \<Rightarrow>
   ((wallet_error + Transaction) \<times> Wallet \<times> TransactionManager) option" where
  "Wallet_SubmitTransaction idTime now env receiver amount fee data = (\<lambda>(w, tm).
     case Wallet_CreateTransaction (pe_schemes (me_pool env)) idTime now receiver amount fee data w of
       None \<Rightarrow> None
     | Some (Inl e, w1) \<Rightarrow> Some (Inl e, w1, tm)
     | Some (Inr tx, w1) \<Rightarrow>
         (case TransactionManager_CreateTransaction env (tx_Sender tx) (tx_Receiver tx) (tx_Amount tx) (tx_Fee tx) (tx_Data tx) tm of
            None \<Rightarrow> None
          | Some (Inl e, tm1) \<Rightarrow> Some (Inl (WErrManager ''failed to submit transaction via TransactionManager'' e), w1, tm1)
          | Some (Inr _, tm1) \<Rightarrow> Some (Inr tx, w1, tm1)))"

definition Wallet_SignMessage :: "schemes \<Rightarrow> string \<Rightarrow> Wallet \<Rightarrow> (crypto_error + bytes) option" where
  "Wallet_SignMessage schemes message w =
     map_option (\<lambda>sig. SignDataWithDilithium schemes (kp_PrivateKey sig) (string_bytes message)) (w_SigKeyPair w)"

definition Wallet_VerifySignature :: "schemes \<Rightarrow> string \<Rightarrow> bytes \<Rightarrow> Wallet \<Rightarrow> (crypto_error + bool) option" where
  "Wallet_VerifySignature schemes message signature w =
     map_option (\<lambda>sig. VerifySignature schemes (kp_PublicKey sig) (string_bytes message) signature) (w_SigKeyPair w)"

definition Wallet_GetPublicKeyHex :: "Wallet \<Rightarrow> string option" where
  "Wallet_GetPublicKeyHex w = map_option (\<lambda>sig. hex_encode (kp_PublicKey sig)) (w_SigKeyPair w)"

record wallet_json =
  wj_marshal :: "WalletFile \<Rightarrow> bytes"
  wj_unmarshal :: "bytes \<Rightarrow> WalletFile option"

definition Wallet_Export :: "wallet_json \<Rightarrow> io \<Rightarrow> path \<Rightarrow> Wallet \<Rightarrow> disk \<Rightarrow> wallet_error option \<times> disk" where
  "Wallet_Export js io filePath w dk =
     (case SerializeKyberKeyPair (w_KEMKeyPair w) of
        Inl e \<Rightarrow> (Some (WErrCrypto ''failed to serialize Kyber key pair'' e), dk)
      | Inr kemSerialized \<Rightarrow>
          (case SerializeDilithiumKeyPair (w_SigKeyPair w) of
             Inl e \<Rightarrow> (Some (WErrCrypto ''failed to serialize Dilithium key pair'' e), dk)
           | Inr sigSerialized \<Rightarrow>
               (case os_WriteFile io filePath
                       (wj_marshal js \<lparr>wf_ID = w_ID w, wf_Nonce = w_Nonce w, wf_KEMKeyPair = Some kemSerialized, wf_SigKeyPair = Some sigSerialized\<rparr>) dk of
                  (False, dk1) \<Rightarrow> (Some (WErrNew ''failed to write wallet file''), dk1)
                | (True, dk1) \<Rightarrow> (None, dk1))))"

definition ImportWallet :: "wallet_json \<Rightarrow> io \<Rightarrow> wallet_env \<Rightarrow> path \<Rightarrow> disk \<Rightarrow> (wallet_error + Wallet) option" where
  "ImportWallet js io env filePath dk =
     (case os_ReadFile io filePath dk of
        None \<Rightarrow> Some (Inl (WErrNew ''failed to read wallet file''))
      | Some data \<Rightarrow>
          (case wj_unmarshal js data of
             None \<Rightarrow> Some (Inl (WErrNew ''failed to unmarshal wallet JSON''))
           | Some file \<Rightarrow>
               (case NewCryptoManager (we_kems env) (we_now env) KyberLevel1024 DilithiumLevel3 [] of
                  None \<Rightarrow> None
                | Some (Inl e) \<Rightarrow> Some (Inl (WErrCrypto ''failed to re-create crypto manager'' e))
                | Some (Inr cm) \<Rightarrow>
                    (case DeserializeKyberKeyPair (wf_KEMKeyPair file) of
                       Inl e \<Rightarrow> Some (Inl (WErrCrypto ''failed to deserialize Kyber key pair'' e))
                     | Inr kemKP \<Rightarrow>
                         (case DeserializeDilithiumKeyPair (wf_SigKeyPair file) of
                            Inl e \<Rightarrow> Some (Inl (WErrCrypto ''failed to deserialize Dilithium key pair'' e))
                          | Inr sigKP \<Rightarrow>
                              if \<not> we_logger env then None
                              else Some (Inr \<lparr>w_ID = wf_ID file, w_Nonce = wf_Nonce file, w_KEMKeyPair = Some kemKP, w_SigKeyPair = Some sigKP,
                                              w_CryptoManager = cm\<rparr>))))))"

section \<open>Wallets of the program\<close>

inductive wallet_reachable :: "wallet_env \<Rightarrow> Wallet \<Rightarrow> bool" for env where
  new: "NewWallet env = Some (Inr w) \<Longrightarrow> wallet_reachable env w"
| create: "wallet_reachable env w \<Longrightarrow> Wallet_CreateTransaction schemes idTime now receiver amount fee data w = Some (r, w1) \<Longrightarrow> wallet_reachable env w1"

text \<open>The keys of a wallet are the generated ones, for ever.\<close>

definition wallet_keys :: "wallet_env \<Rightarrow> Wallet \<Rightarrow> bool" where
  "wallet_keys env w \<longleftrightarrow>
     (\<exists>kem sig. w_KEMKeyPair w = Some kem \<and> kk_PublicKey kem \<noteq> [] \<and> kk_PrivateKey kem \<noteq> [] \<and> w_SigKeyPair w = Some sig \<and>
        GenerateDilithiumKeyPair (we_schemes env) 3 = Inr sig \<and> kp_PublicKey sig \<noteq> [] \<and> kp_PrivateKey sig \<noteq> [] \<and> kp_Level sig = 3)"

lemma NewCryptoManager_level: "NewCryptoManager kems now kl dl [] = Some (Inr cm) \<Longrightarrow> cr_dilithiumLevel cm = dl"
  by (auto simp: NewCryptoManager_def split: option.splits if_splits)

lemma GenerateDilithiumKeyPair_level: "GenerateDilithiumKeyPair schemes level = Inr kp \<Longrightarrow> kp_Level kp = level"
  by (auto simp: GenerateDilithiumKeyPair_def split: if_splits sum.splits option.splits)

lemma wallet_reachable_keys: "wallet_reachable env w \<Longrightarrow> wallet_keys env w"
proof (induction rule: wallet_reachable.induct)
  case (new w)
  obtain cm kem cm1 sig where k: "NewCryptoManager (we_kems env) (we_now env) KyberLevel1024 DilithiumLevel3 [] = Some (Inr cm)"
      "CryptoManager_GenerateKEMKeyPair (we_coins env) (we_elapsed env) cm = (Inr kem, cm1)"
      "CryptoManager_GenerateSignatureKeyPair (we_schemes env) cm1 = Inr sig" "w_KEMKeyPair w = Some kem" "w_SigKeyPair w = Some sig"
    using new by (auto simp: NewWallet_def split: option.splits sum.splits prod.splits if_splits)
  have lv: "cr_dilithiumLevel cm1 = 3"
    using kem_config(1) [OF k(2)] NewCryptoManager_level [OF k(1)] by (simp add: cr_config_def DilithiumLevel3_def)
  have kem: "kk_PublicKey kem \<noteq> []" "kk_PrivateKey kem \<noteq> []"
    using k(2) by (auto simp: CryptoManager_GenerateKEMKeyPair_def split: sum.splits prod.splits if_splits)
  have sig: "GenerateDilithiumKeyPair (we_schemes env) 3 = Inr sig" "kp_PublicKey sig \<noteq> []" "kp_PrivateKey sig \<noteq> []"
    using k(3) lv by (auto simp: CryptoManager_GenerateSignatureKeyPair_def split: sum.splits if_splits)
  then show ?case using k(4,5) kem GenerateDilithiumKeyPair_level [OF sig(1)] by (simp add: wallet_keys_def)
next
  case (create w schemes idTime now receiver amount fee data r w1)
  then show ?case by (auto simp: wallet_keys_def Wallet_CreateTransaction_def Let_def split: option.splits sum.splits)
qed

section \<open>Files\<close>

definition wallet_file :: "Wallet \<Rightarrow> WalletFile" where
  "wallet_file w = \<lparr>wf_ID = w_ID w, wf_Nonce = w_Nonce w, wf_KEMKeyPair = w_KEMKeyPair w, wf_SigKeyPair = w_SigKeyPair w\<rparr>"

text \<open>C34: A wallet that was exported to a file can be imported again, with the same account, nonce and keys; only the crypto manager is a new one with the
  same configuration, its counters at zero. JSON is assumed to round trip on this wallet's file and the file to be readable.\<close>

theorem wallet_export_import:
  assumes "wallet_reachable env w" and "Wallet_Export js io p w dk = (None, dk1)"
    and "wj_unmarshal js (wj_marshal js (wallet_file w)) = Some (wallet_file w)" and "io_read io p" and "we_logger env1"
  shows "\<exists>cm. ImportWallet js io env1 p dk1 = Some (Inr (w\<lparr>w_CryptoManager := cm\<rparr>)) \<and>
    NewCryptoManager (we_kems env1) (we_now env1) KyberLevel1024 DilithiumLevel3 [] = Some (Inr cm)"
proof -
  obtain kem sig where k: "w_KEMKeyPair w = Some kem" "kk_PublicKey kem \<noteq> []" "kk_PrivateKey kem \<noteq> []" "w_SigKeyPair w = Some sig"
      "kp_PublicKey sig \<noteq> []" "kp_PrivateKey sig \<noteq> []" "kp_Level sig = 3"
    using wallet_reachable_keys [OF assms(1)] by (auto simp: wallet_keys_def)
  have ser: "SerializeKyberKeyPair (Some kem) = Inr kem" "DeserializeKyberKeyPair (Some kem) = Inr kem"
      "SerializeDilithiumKeyPair (Some sig) = Inr sig" "DeserializeDilithiumKeyPair (Some sig) = Inr sig"
    using k by (simp_all add: SerializeKyberKeyPair_def DeserializeKyberKeyPair_def KyberKeyPair_Validate_def
        SerializeDilithiumKeyPair_def DeserializeDilithiumKeyPair_def DilithiumKeyPair_Validate_def level_defs)
  let ?f = "\<lparr>wf_ID = w_ID w, wf_Nonce = w_Nonce w, wf_KEMKeyPair = Some kem, wf_SigKeyPair = Some sig\<rparr>"
  have "dk_files dk1 p = Some (wj_marshal js ?f)"
    using assms(2) by (auto simp: Wallet_Export_def k ser os_WriteFile_def split: prod.splits bool.splits if_splits option.splits)
  then have r: "os_ReadFile io p dk1 = Some (wj_marshal js ?f)" using assms(4) by (simp add: os_ReadFile_def)
  obtain cm where "NewCryptoManager (we_kems env1) (we_now env1) KyberLevel1024 DilithiumLevel3 [] = Some (Inr cm)"
    by (auto simp: NewCryptoManager_def KyberSchemeFromLevel_def kyber_levels level_defs NewKyberCrypto_def)
  then show ?thesis using assms(3,5) k(1,4) by (simp add: ImportWallet_def r ser wallet_file_def)
qed

section \<open>From the wallet to a signed transaction\<close>

lemma registered_account:
  assumes "Wallet_RegisterAccount seal (Some nonce) encKey w accs = Some (None, accs1)" and "w_SigKeyPair w = Some sig"
  obtains key where "encKey \<noteq> ''''" and "hex_decode encKey = Some key" and "length key = 32" and "accs1 = accs(w_ID w \<mapsto>
    zero_Account\<lparr>acc_ID := w_ID w, acc_PublicKey := kp_PublicKey sig, acc_EncryptedPrivateKey := nonce @ seal key nonce (kp_PrivateKey sig)\<rparr>)"
  using assms
  by (auto simp: Wallet_RegisterAccount_def Account_SetPrivateKey_def EncryptPrivateKey_def RegisterAccount_def zero_Account_def
      split: if_splits option.splits sum.splits)

text \<open>C11: A wallet that was registered and funded can pay. The account holds the amount, and the transaction manager, which reads the private key from the account with the same
  encryption key, signs every transaction of the wallet with a signature that both the wallet and the pool accept. The signature scheme and the
  AEAD keep their contracts.\<close>

theorem registered_wallet_pays:
  assumes "wallet_reachable wenv w" and "sound_scheme (we_schemes wenv 3)" and "sound_aead seal opn" and "length nonce = 12"
    and "Wallet_RegisterAccount seal (Some nonce) (me_encKey env) w accs = Some (None, accs1)"
    and "Wallet_FundWallet amount w accs1 = (None, accs2)"
    and "pe_accounts (me_pool env) = accs2" and "pe_schemes (me_pool env) = we_schemes wenv" and "me_open env = opn"
    and "tx_Sender tx = w_ID w" and "tx_ID tx \<noteq> ''''"
  shows "Wallet_GetBalance w accs2 = Inr (f64_add f64_0 amount) \<and>
    (\<exists>s. TransactionManager_signTransaction env tx tm = Inr (tx\<lparr>tx_Signature := s\<rparr>) \<and>
      Wallet_VerifySignature (we_schemes wenv) (tx_ID tx) s w = Some (Inr True) \<and>
      TransactionPool_verifySignature (me_pool env) (tx\<lparr>tx_Signature := s\<rparr>) = Inr True)"
proof -
  obtain sig where k: "w_SigKeyPair w = Some sig" "GenerateDilithiumKeyPair (we_schemes wenv) 3 = Inr sig"
    using wallet_reachable_keys [OF assms(1)] by (auto simp: wallet_keys_def)
  have m: "string_bytes (tx_ID tx) \<noteq> []" using assms(11) by (simp add: string_bytes_def)
  note g = generated_key_verifies [OF assms(2) k(2) m]
  obtain s where s: "SignDilithium (we_schemes wenv) 3 (kp_PrivateKey sig) (string_bytes (tx_ID tx)) = Inr s"
      "VerifyDilithium (we_schemes wenv) 3 (kp_PublicKey sig) (string_bytes (tx_ID tx)) s = Inr True" using g(1) by blast
  obtain key where key: "me_encKey env \<noteq> ''''" "hex_decode (me_encKey env) = Some key" "length key = 32" and a: "accs1 = accs(w_ID w \<mapsto>
      zero_Account\<lparr>acc_ID := w_ID w, acc_PublicKey := kp_PublicKey sig, acc_EncryptedPrivateKey := nonce @ seal key nonce (kp_PrivateKey sig)\<rparr>)"
    by (rule registered_account [OF assms(5) k(1)])
  define acc where "acc = zero_Account\<lparr>acc_ID := w_ID w, acc_PublicKey := kp_PublicKey sig,
      acc_EncryptedPrivateKey := nonce @ seal key nonce (kp_PrivateKey sig), acc_Balance := f64_add f64_0 amount\<rparr>"
  have acc: "accs2 (w_ID w) = Some acc"
    using assms(6) by (auto simp: Wallet_FundWallet_def UpdateAccountBalance_def a acc_def zero_Account_def split: if_splits)
  have dec: "Account_GetDecryptedPrivateKey opn (me_encKey env) acc = Inr (kp_PrivateKey sig)"
    using key assms(3,4) by (auto simp: Account_GetDecryptedPrivateKey_def DecryptPrivateKey_def acc_def sound_aead_def)
  have "CryptoManager_SignWithContext schemes level t (Some \<lparr>kp_PublicKey = acc_PublicKey acc, kp_PrivateKey = [], kp_Level = 0\<rparr>) x \<noteq> Inr y" for schemes level t x y
    by (simp add: CryptoManager_SignWithContext_def)
  then have "TransactionManager_signTransaction env tx tm = Inr (tx\<lparr>tx_Signature := s\<rparr>)"
    using acc dec s(1) key(1) assms(7-10)
    by (auto simp: TransactionManager_signTransaction_def GetAccount_def Let_def SignDataWithDilithium_def defaultDilithiumLevel_def DilithiumLevel3_def
        split: option.splits sum.splits)
  moreover have "TransactionPool_verifySignature (me_pool env) (tx\<lparr>tx_Signature := s\<rparr>) = Inr True"
    using acc s(2) g(4) assms(7,8,10)
    by (simp add: TransactionPool_verifySignature_def GetAccount_def VerifySignature_def defaultDilithiumLevel_def DilithiumLevel3_def acc_def)
  ultimately show ?thesis
    using acc s(2) k(1)
    by (intro conjI exI [of _ s])
      (simp_all add: Wallet_GetBalance_def GetAccount_def acc_def Wallet_VerifySignature_def VerifySignature_def defaultDilithiumLevel_def DilithiumLevel3_def)
qed

section \<open>Submitted transactions\<close>

lemma unique_id_length: "length (GenerateUniqueID t) = 32"
  by (simp add: GenerateUniqueID_def hash_bytes_def be_bytes_def le_bytes_def)

lemma created_id_length:
  "TransactionManager_CreateTransaction env sender receiver amount fee data tm = Some (Inr tx, tm1) \<Longrightarrow> length (tx_ID tx) = 64"
  by (auto simp: TransactionManager_CreateTransaction_def Let_def GenerateTransactionID_def hash_bytes_def be_bytes_def le_bytes_def
      split: if_splits option.splits sum.splits dest!: signTransaction_fields)

text \<open>Every transaction in the pool of a manager was made by the manager, so that its ID has 64 digits.\<close>

definition long_ids :: "TransactionPool \<Rightarrow> bool" where
  "long_ids tp \<longleftrightarrow> (\<forall>i \<in> dom (tp_txMap tp). length i = 64)"

lemma long_ids_sub: "long_ids tp \<Longrightarrow> dom (tp_txMap p) \<subseteq> dom (tp_txMap tp) \<Longrightarrow> long_ids p"
  unfolding long_ids_def by blast

lemma create_ids:
  assumes "manager_inv n tm" and "int (Suc n) < 2 ^ 63" and "long_ids (tm_pool tm)"
    and c: "TransactionManager_CreateTransaction env sender receiver amount fee data tm = Some (res, tm1)"
  shows "long_ids (tm_pool tm1)" and "case res of Inl _ \<Rightarrow> True | Inr tx \<Rightarrow> TransactionPool_HasTransaction (tx_ID tx) (tm_pool tm1)"
proof -
  have inv: "pool_inv n (tm_pool tm)" using assms(1) by (simp add: manager_inv_def)
  have grow: "dom (tp_txMap p) \<subseteq> insert (tx_ID tx) (dom (tp_txMap (tm_pool tm))) \<and> (e \<noteq> None \<or> tx_ID tx \<in> dom (tp_txMap p)) \<and>
      (e = None \<or> dom (tp_txMap p) \<subseteq> dom (tp_txMap (tm_pool tm)))"
    if a: "TransactionPool_AddTransaction (me_pool env) tx (tm_pool tm) = Some (e, p)" for tx e p
  proof -
    from AddTransaction_inv [OF inv assms(2), of "me_pool env" tx] a have
      p: "pool_inv (Suc n) p" "e = None \<longrightarrow> (\<exists>r. tp_txMap p (tx_ID tx) = Some r)"
         "\<forall>i r. tp_txMap p i = Some r \<longrightarrow> e = None \<and> item_tx p r = tx \<or> tp_txMap (tm_pool tm) i = Some r"
      by auto
    show ?thesis using p(2,3) pool_inv_txMap [OF p(1)] by (auto simp: dom_def) blast+
  qed
  from c show "long_ids (tm_pool tm1)"
    by (rule CreateTransaction_cases) (use assms(3) grow created_id_length c in \<open>fastforce simp: long_ids_def\<close>)+
  from c show "case res of Inl _ \<Rightarrow> True | Inr tx \<Rightarrow> TransactionPool_HasTransaction (tx_ID tx) (tm_pool tm1)"
    by (rule CreateTransaction_cases) (use grow in \<open>fastforce simp: TransactionPool_HasTransaction_def\<close>)+
qed


lemma manager_long_ids:
  "manager_reachable ledger n st \<Longrightarrow> int (Suc n) < 2 ^ 63 \<Longrightarrow> long_ids (tm_pool (fst st))"
proof (induction rule: manager_reachable.induct)
  case (new now s0 mx to minF maxF ed km cr pool opts minFee cr' l)
  then have "tp_txMap pool = Map.empty"
    by (auto simp: NewTransactionPool_def WithKeyManager_def WithConflictResolution_def split: if_splits)
  then show ?case using manager_options_frame [OF new(2)] by (simp add: long_ids_def)
next
  case (create n tm l env sender receiver amount fee data res tm')
  have "manager_inv n tm" using manager_reachable_inv [OF create(1)] create.prems by simp
  then show ?case using create_ids(1) [OF _ _ _ create(2)] create by simp
next
  case (process n st env i e st')
  have "manager_inv n (fst st)" using manager_reachable_inv [OF process(1)] process.prems by simp
  from Process_rejected [OF this process.prems, of env ledger i "snd st"] process show ?case by auto
next
  case (conflicts n tm l ids visit_sets visit tm')
  have "manager_inv n tm" using manager_reachable_inv [OF conflicts(1)] conflicts.prems by simp
  then have "TransactionPool_HandleConflicts ids visit_sets visit (tm_pool tm) = Some (tm_pool tm)"
    using conflicts by (intro HandleConflicts_same) (auto simp: manager_inv_def)
  then show ?case using conflicts by (auto simp: TransactionManager_HandleTransactionConflicts_def split: if_splits)
next
  case (cleanup n tm l ids env now_of tm')
  have "pool_inv n (tm_pool tm)" using manager_reachable_inv [OF cleanup(1)] cleanup.prems by (simp add: manager_inv_def)
  from RemoveExpired_inv [OF this, of "me_pool env" now_of ids "tm_maxTxAge tm"] obtain k p where
    p: "TransactionPool_RemoveExpiredTransactions (me_pool env) now_of ids (tm_maxTxAge tm) (tm_pool tm) = Some (k, p)" "pool_inv n p"
    "\<And>x. same_item (tp_store p x) (tp_store (tm_pool tm) x)"
    "tp_txMap p \<subseteq>\<^sub>m tp_txMap (tm_pool tm)"
    by (metis restrict_map_le)
  have "long_ids (tm_pool tm)" using cleanup by simp
  then have "long_ids p" using map_le_implies_dom_le [OF p(4)] by (rule long_ids_sub)
  then show ?case using cleanup(3) p(1) by (auto simp: TransactionManager_cleanupExpiredTransactions_def)
next
  case (revalidate n tm l ids env clocks tm')
  have inv: "manager_inv n tm" using manager_reachable_inv [OF revalidate(1)] revalidate.prems by simp
  from revalidate_loop_inv [OF inv _ reachable_items_stale [OF inv revalidate(2)], of "TransactionPool_GetAllTransactions ids (tm_pool tm)" env clocks]
  obtain p K where p: "revalidate_loop env clocks (TransactionPool_GetAllTransactions ids (tm_pool tm)) tm = Some (tm\<lparr>tm_pool := p\<rparr>)"
      "tp_txMap p = tp_txMap (tm_pool tm) |` K" using revalidate.prems by auto
  have "long_ids (tm_pool tm)" using revalidate by simp
  then have "long_ids p" by (rule long_ids_sub) (auto simp: p(2))
  then show ?case using revalidate(3) p(1) by (auto simp: TransactionManager_revalidatePendingTransactions_def)
qed

text \<open>C35: The transaction that \<open>SubmitTransaction\<close> returns is not the one it submits. The wallet signs a transaction of its own, passes only the receiver and the amounts to the
  manager, and the manager makes another transaction with another ID, of 64 digits instead of 32: for a payment that was accepted, the manager reports the ID the wallet
  returned as unknown, although there is a transaction of the wallet in the pool.\<close>

theorem submitted_not_found:
  assumes "manager_reachable ledger n (tm, l)" and "int (Suc (Suc n)) < 2 ^ 63"
    and "Wallet_SubmitTransaction idTime now env receiver amount fee data (w, tm) = Some (Inr tx, w1, tm1)"
    and "\<not> l_IsTransactionCommitted ledger (tx_ID tx) l"
  shows "TransactionManager_GetTransactionStatus ledger (tx_ID tx) (tm1, l) = (''Unknown'', Some (TmErrNew ''transaction not found'')) \<and>
    (\<exists>tx1 :: Transaction. tx_Sender tx1 = tx_Sender tx \<and> tx_Receiver tx1 = tx_Receiver tx \<and> tx_ID tx1 \<noteq> tx_ID tx \<and>
       TransactionManager_GetTransactionStatus ledger (tx_ID tx1) (tm1, l) = (''Pending'', None))"
proof -
  obtain w0 tx1 where c: "Wallet_CreateTransaction (pe_schemes (me_pool env)) idTime now receiver amount fee data w = Some (Inr tx, w0)"
      "TransactionManager_CreateTransaction env (tx_Sender tx) (tx_Receiver tx) (tx_Amount tx) (tx_Fee tx) (tx_Data tx) tm = Some (Inr tx1, tm1)"
    using assms(3) by (auto simp: Wallet_SubmitTransaction_def split: option.splits sum.splits prod.splits)
  have id: "length (tx_ID tx) = 32"
    using c(1) by (auto simp: Wallet_CreateTransaction_def Let_def unique_id_length split: option.splits sum.splits)
  have inv: "manager_inv n tm" "long_ids (tm_pool tm)"
    using manager_reachable_inv [OF assms(1)] manager_long_ids [OF assms(1)] assms(2) by auto
  note k = create_ids [OF inv(1) _ inv(2) c(2)]
  have "\<not> TransactionPool_HasTransaction (tx_ID tx) (tm_pool tm1)"
    using k(1) assms(2) id by (auto simp: TransactionPool_HasTransaction_def long_ids_def dom_def)
  moreover have "TransactionPool_HasTransaction (tx_ID tx1) (tm_pool tm1)" using k(2) assms(2) by simp
  moreover have "tx_Sender tx1 = tx_Sender tx" "tx_Receiver tx1 = tx_Receiver tx"
    using c(2) by (auto elim: CreateTransaction_cases)
  moreover have "tx_ID tx1 \<noteq> tx_ID tx" using id created_id_length [OF c(2)] by auto
  ultimately have "TransactionManager_GetTransactionStatus ledger (tx_ID tx) (tm1, l) = (''Unknown'', Some (TmErrNew ''transaction not found''))"
      "TransactionManager_GetTransactionStatus ledger (tx_ID tx1) (tm1, l) = (''Pending'', None)"
      "tx_Sender tx1 = tx_Sender tx" "tx_Receiver tx1 = tx_Receiver tx" "tx_ID tx1 \<noteq> tx_ID tx"
    using assms(4) by (simp_all add: TransactionManager_GetTransactionStatus_def)
  then show ?thesis by blast
qed

section \<open>A concrete wallet\<close>

definition tag_wenv :: wallet_env where
  "tag_wenv = \<lparr>we_kems = (\<lambda>_. tag_kem), we_schemes = (\<lambda>_. tag_scheme), we_logger = True, we_now = 0, we_coins = [6], we_elapsed = 1, we_idTime = 7\<rparr>"

definition tag_wallet :: Wallet where
  "tag_wallet = \<lparr>w_ID = GenerateUniqueID 7, w_Nonce = 0, w_KEMKeyPair = Some \<lparr>kk_PublicKey = [1, 6], kk_PrivateKey = [2, 6]\<rparr>,
     w_SigKeyPair = Some \<lparr>kp_PublicKey = [1], kp_PrivateKey = [2], kp_Level = 3\<rparr>,
     w_CryptoManager = snd (CryptoManager_GenerateKEMKeyPair [6] 1 tag_manager)\<rparr>"

lemma tag_wallet_new: "NewWallet tag_wenv = Some (Inr tag_wallet)"
proof -
  have new: "NewCryptoManager (\<lambda>_. tag_kem) 0 1024 3 [] = Some (Inr tag_manager)"
    by (simp add: tag_manager_def NewCryptoManager_def KyberSchemeFromLevel_def kyber_levels NewKyberCrypto_def level_defs tag_kem_def)
  have lv: "cr_dilithiumLevel tag_manager = 3" "kc_scheme (cr_kyberCrypto tag_manager) = Some tag_kem"
    by (simp_all add: tag_manager_def NewCryptoManager_def KyberSchemeFromLevel_def kyber_levels NewKyberCrypto_def level_defs)
  have g: "\<exists>cm1. CryptoManager_GenerateKEMKeyPair [6] 1 tag_manager = (Inr \<lparr>kk_PublicKey = [1, 6], kk_PrivateKey = [2, 6]\<rparr>, cm1) \<and> cr_dilithiumLevel cm1 = 3"
    by (simp add: CryptoManager_GenerateKEMKeyPair_def KyberCrypto_GenerateKeyPair_def lv) (simp add: tag_kem_def lv)
  then show ?thesis
    using new by (auto simp: NewWallet_def tag_wenv_def tag_wallet_def KyberLevel1024_def CryptoManager_GenerateSignatureKeyPair_def
        GenerateDilithiumKeyPair_def getDilithiumScheme_def level_defs tag_scheme_def)
qed

lemma tag_wallet_reachable: "wallet_reachable tag_wenv tag_wallet"
  using tag_wallet_new by (rule wallet_reachable.new)

theorem wallet_export_import_witness:
  "\<exists>cm. ImportWallet \<lparr>wj_marshal = (\<lambda>_. [5]), wj_unmarshal = (\<lambda>_. Some (wallet_file tag_wallet))\<rparr> io_ok tag_wenv [''wallet.json'']
      (snd (Wallet_Export \<lparr>wj_marshal = (\<lambda>_. [5]), wj_unmarshal = (\<lambda>_. Some (wallet_file tag_wallet))\<rparr> io_ok [''wallet.json''] tag_wallet
         \<lparr>dk_dirs = (\<lambda>p. p = []), dk_files = Map.empty\<rparr>)) = Some (Inr (tag_wallet\<lparr>w_CryptoManager := cm\<rparr>))"
proof -
  let ?js = "\<lparr>wj_marshal = (\<lambda>_. [5]), wj_unmarshal = (\<lambda>_. Some (wallet_file tag_wallet))\<rparr>"
  obtain dk1 where e: "Wallet_Export ?js io_ok [''wallet.json''] tag_wallet \<lparr>dk_dirs = (\<lambda>p. p = []), dk_files = Map.empty\<rparr> = (None, dk1)"
    by (simp add: Wallet_Export_def tag_wallet_def SerializeKyberKeyPair_def KyberKeyPair_Validate_def SerializeDilithiumKeyPair_def
        DilithiumKeyPair_Validate_def level_defs os_WriteFile_def io_ok_def)
  have "io_read io_ok [''wallet.json'']" by (simp add: io_ok_def)
  from wallet_export_import [OF tag_wallet_reachable e _ this, of tag_wenv] show ?thesis unfolding e by (auto simp: tag_wenv_def)
qed

definition tag_accounts :: accounts where
  "tag_accounts = [GenerateUniqueID 7 \<mapsto> zero_Account\<lparr>acc_ID := GenerateUniqueID 7, acc_PublicKey := [1],
     acc_EncryptedPrivateKey := replicate 12 0 @ [2], acc_Balance := Fin 100\<rparr>]"

definition tag_menv :: ManagerEnv where
  "tag_menv = \<lparr>me_pool = example_env\<lparr>pe_accounts := tag_accounts\<rparr>, me_clock = (\<lambda>_. 0), me_encKey = example_key,
     me_open = (\<lambda>key nonce data. Some (rev data)), me_timedOut = False\<rparr>"

lemma example_key_facts: "hex_decode example_key = Some (replicate 32 7)" "example_key \<noteq> []"
  using hex_decode_encode [of "replicate 32 7"] length_hex_encode [of "replicate 32 7"]
  by (auto simp: example_key_def simp del: hex_encode.simps length_hex_encode)

lemma tag_wallet_id: "GenerateUniqueID t \<noteq> []"
  using unique_id_length [of t] by auto

lemma tag_funded:
  "Wallet_RegisterAccount (\<lambda>key nonce plain. rev plain) (Some (replicate 12 0)) example_key tag_wallet Map.empty =
     Some (None, [GenerateUniqueID 7 \<mapsto> zero_Account\<lparr>acc_ID := GenerateUniqueID 7, acc_PublicKey := [1], acc_EncryptedPrivateKey := replicate 12 0 @ [2]\<rparr>])"
  "Wallet_FundWallet (Fin 100) tag_wallet
     [GenerateUniqueID 7 \<mapsto> zero_Account\<lparr>acc_ID := GenerateUniqueID 7, acc_PublicKey := [1], acc_EncryptedPrivateKey := replicate 12 0 @ [2]\<rparr>] = (None, tag_accounts)"
  using example_key_facts tag_wallet_id [of 7] rnd_int [of 100]
  by (simp_all add: Wallet_RegisterAccount_def tag_wallet_def Account_SetPrivateKey_def EncryptPrivateKey_def RegisterAccount_def zero_Account_def
      Wallet_FundWallet_def UpdateAccountBalance_def tag_accounts_def)

theorem registered_wallet_pays_witness:
  "Wallet_GetBalance tag_wallet tag_accounts = Inr (f64_add f64_0 (Fin 100)) \<and>
   (\<exists>s. TransactionManager_signTransaction tag_menv ((example_tx ''t'' 1)\<lparr>tx_Sender := GenerateUniqueID 7\<rparr>) example_manager =
          Inr ((example_tx ''t'' 1)\<lparr>tx_Sender := GenerateUniqueID 7, tx_Signature := s\<rparr>) \<and>
        Wallet_VerifySignature (\<lambda>_. tag_scheme) ''t'' s tag_wallet = Some (Inr True))"
proof -
  have k: "me_encKey tag_menv = example_key" by (simp add: tag_menv_def)
  show ?thesis
    using registered_wallet_pays [OF tag_wallet_reachable _ _ _ tag_funded(1) [folded k] tag_funded(2), where opn = "\<lambda>key nonce data. Some (rev data)"
        and tx = "(example_tx ''t'' 1)\<lparr>tx_Sender := GenerateUniqueID 7\<rparr>" and tm = example_manager]
    by (auto simp: tag_wenv_def sound_scheme_def tag_scheme_def sound_aead_def tag_menv_def example_env_def example_tx_def tag_wallet_def)
qed

theorem submitted_not_found_witness:
  "\<exists>tx w1 tm1. Wallet_SubmitTransaction 3 0 example_menv ''bob'' (Fin 5) (Fin 1) [] (tag_wallet\<lparr>w_ID := ''alice''\<rparr>, example_manager) = Some (Inr tx, w1, tm1) \<and>
     TransactionManager_GetTransactionStatus null_ledger (tx_ID tx) (tm1, ()) = (''Unknown'', Some (TmErrNew ''transaction not found''))"
proof -
  obtain tx1 tm1 where t: "TransactionManager_CreateTransaction example_menv ''alice'' ''bob'' (Fin 5) (Fin 1) [] example_manager = Some (Inr tx1, tm1)"
    by (rule example_create)
  have m: "string_bytes (GenerateUniqueID 3) \<noteq> []" using tag_wallet_id [of 3] by (simp add: string_bytes_def)
  have "pe_schemes (me_pool example_menv) = (\<lambda>_. tag_scheme)" by (simp add: example_menv_def example_env_def)
  then have "\<exists>tx w1. Wallet_SubmitTransaction 3 0 example_menv ''bob'' (Fin 5) (Fin 1) [] (tag_wallet\<lparr>w_ID := ''alice''\<rparr>, example_manager) = Some (Inr tx, w1, tm1)"
    using m t by (simp add: Wallet_SubmitTransaction_def Wallet_CreateTransaction_def tag_wallet_def Let_def SignDataWithDilithium_def SignDilithium_def
        getDilithiumScheme_def level_defs tag_scheme_def)
  then obtain tx w1 where s: "Wallet_SubmitTransaction 3 0 example_menv ''bob'' (Fin 5) (Fin 1) [] (tag_wallet\<lparr>w_ID := ''alice''\<rparr>, example_manager) = Some (Inr tx, w1, tm1)"
    by blast
  have "\<not> l_IsTransactionCommitted null_ledger (tx_ID tx) ()" by (simp add: null_ledger_def)
  from submitted_not_found [OF example_manager_reachable _ s this] s show ?thesis by auto
qed

end
