(* ===== verification/ConfigTheory.thy ===== *)
theory ConfigTheory
  imports KyberTheory GoTime
begin

text \<open>
  The configuration of \<open>config/config.go\<close>: its structures with their validation tags, the manager that loads and reloads it, and the levels the
  crypto manager is made with.

  The libraries are parameters. \<open>viper\<close> gives a configuration or an error for what the file holds at the time. The validator library is a function from the
  tagged fields to the violations it reports; the tags are written out from the source (\<open>config_fields\<close>), and \<open>tag_ok\<close> is what the library's documentation
  says of a tag. A change handler is a number; the calls of a notification are its result.
\<close>

section \<open>Data\<close>

record CryptoConfig =
  cc_DefaultAlgorithm :: string
  cc_KeyExpirationTime :: duration
  cc_KeyExchangeAlgorithm :: string
  cc_SignatureAlgorithm :: string
  cc_KyberSecurityLevel :: int
  cc_DilithiumSecurityLevel :: int
  cc_EnableKeyRotation :: bool
  cc_KeyRotationInterval :: duration
  cc_MinKeyGenerationTime :: duration
  cc_MaxKeyGenerationRetry :: int

definition NewDefaultCryptoConfig :: CryptoConfig where
  "NewDefaultCryptoConfig =
     \<lparr>cc_DefaultAlgorithm = ''Dilithium'', cc_KeyExpirationTime = 24 * hour, cc_KeyExchangeAlgorithm = ''Kyber1024'', cc_SignatureAlgorithm = ''Dilithium3'',
      cc_KyberSecurityLevel = 1024, cc_DilithiumSecurityLevel = 3, cc_EnableKeyRotation = True, cc_KeyRotationInterval = 6 * hour,
      cc_MinKeyGenerationTime = 100 * millisecond, cc_MaxKeyGenerationRetry = 3\<rparr>"

record CouchDBConfig =
  co_URL :: string
  co_Database :: string
  co_Username :: string
  co_Password :: string
  co_MaxConnections :: int
  co_Timeout :: duration
  co_RetryLimit :: int
  co_RetryDelay :: duration

record PostgresConfig =
  po_Host :: string
  po_Port :: int
  po_Database :: string
  po_Username :: string
  po_Password :: string
  po_MaxConnections :: int
  po_MaxIdleConns :: int
  po_ConnMaxLifetime :: duration
  po_SSLMode :: string

record DatabaseConfig =
  db_CouchDB :: CouchDBConfig
  db_Postgres :: PostgresConfig

record SyncConfig =
  sy_BatchSize :: int
  sy_SyncInterval :: duration
  sy_WorkerCount :: int
  sy_RetryLimit :: int
  sy_RetryDelay :: duration
  sy_ArchivalAge :: uint64
  sy_CheckpointSize :: uint64
  sy_CompressionLevel :: int

record CacheConfig =
  ca_Enabled :: bool
  ca_Type :: string
  ca_Size :: int
  ca_TTL :: duration
  ca_RedisURL :: string
  ca_RedisDB :: int
  ca_MaxRetries :: int
  ca_DialTimeout :: duration
  ca_ReadTimeout :: duration
  ca_WriteTimeout :: duration

record OptimizerConfig =
  oc_Enabled :: bool
  oc_MaxRead :: int
  oc_MaxWrite :: int
  oc_TargetUtil :: float64
  oc_RateLimiterEnabled :: bool
  oc_InitialLimit :: int
  oc_BurstLimit :: int
  oc_ScaleFactor :: float64
  oc_ShardingEnabled :: bool
  oc_ShardCount :: int
  oc_ReplicaSet :: int
  oc_ShardSize :: int
  oc_LoadFactor :: float64
  oc_HighAvailabilityEnabled :: bool
  oc_HeartbeatInterval :: duration
  oc_FailoverTimeout :: duration
  oc_MinReplicas :: int
  oc_LearningInterval :: duration
  oc_WindowSize :: int
  oc_Threshold :: float64
  oc_MaxAdjust :: float64

type_synonym handler_id = nat

record Config =
  c_Environment :: string
  c_Database :: DatabaseConfig
  c_Sync :: SyncConfig
  c_Cache :: CacheConfig
  c_Optimizer :: OptimizerConfig
  c_Crypto :: CryptoConfig
  c_changeHandlers :: "handler_id list"

section \<open>Tags\<close>

datatype field_value = VStr string | VInt int | VUint uint64 | VFloat float64

datatype tag =
    Required
  | RequiredIf bool
  | OneOf "string list"
  | OneOfInt "int list"
  | MinInt int
  | MaxInt int
  | MinFloat float64
  | MaxFloat float64
  | OmitEmpty
  | Url

type_synonym field = "string \<times> field_value \<times> tag list"

text \<open>A duration is an integer to the validator. The condition of a \<open>required_if\<close> tag is a sibling field, read here.\<close>

definition crypto_fields :: "CryptoConfig \<Rightarrow> field list" where
  "crypto_fields c =
     [(''DefaultAlgorithm'', VStr (cc_DefaultAlgorithm c), [OneOf [''Dilithium'', ''Kyber'']]),
      (''KeyExpirationTime'', VInt (cc_KeyExpirationTime c), [Required]),
      (''KeyExchangeAlgorithm'', VStr (cc_KeyExchangeAlgorithm c), [OneOf [''Kyber512'', ''Kyber768'', ''Kyber1024'']]),
      (''SignatureAlgorithm'', VStr (cc_SignatureAlgorithm c), [OneOf [''Dilithium2'', ''Dilithium3'', ''Dilithium5'']]),
      (''KyberSecurityLevel'', VInt (cc_KyberSecurityLevel c), [OneOfInt [512, 768, 1024]]),
      (''DilithiumSecurityLevel'', VInt (cc_DilithiumSecurityLevel c), [OneOfInt [2, 3, 5]]),
      (''KeyRotationInterval'', VInt (cc_KeyRotationInterval c), [Required]),
      (''MinKeyGenerationTime'', VInt (cc_MinKeyGenerationTime c), [Required]),
      (''MaxKeyGenerationRetry'', VInt (cc_MaxKeyGenerationRetry c), [MinInt 1, MaxInt 10])]"

definition database_fields :: "DatabaseConfig \<Rightarrow> field list" where
  "database_fields d =
     (let c = db_CouchDB d; p = db_Postgres d in
     [(''URL'', VStr (co_URL c), [Required, Url]), (''Database'', VStr (co_Database c), [Required]), (''Username'', VStr (co_Username c), [Required]),
      (''Password'', VStr (co_Password c), [Required]), (''MaxConnections'', VInt (co_MaxConnections c), [Required, MinInt 1]),
      (''Timeout'', VInt (co_Timeout c), [Required]), (''RetryLimit'', VInt (co_RetryLimit c), [Required, MinInt 1]),
      (''RetryDelay'', VInt (co_RetryDelay c), [Required]),
      (''Host'', VStr (po_Host p), [Required]), (''Port'', VInt (po_Port p), [Required, MinInt 1]), (''Database'', VStr (po_Database p), [Required]),
      (''Username'', VStr (po_Username p), [Required]), (''Password'', VStr (po_Password p), [Required]),
      (''MaxConnections'', VInt (po_MaxConnections p), [Required, MinInt 1]), (''MaxIdleConns'', VInt (po_MaxIdleConns p), [Required, MinInt 1]),
      (''ConnMaxLifetime'', VInt (po_ConnMaxLifetime p), [Required]),
      (''SSLMode'', VStr (po_SSLMode p), [OneOf [''disable'', ''require'', ''verify-full'']])])"

definition sync_fields :: "SyncConfig \<Rightarrow> field list" where
  "sync_fields s =
     [(''BatchSize'', VInt (sy_BatchSize s), [Required, MinInt 1]), (''SyncInterval'', VInt (sy_SyncInterval s), [Required]),
      (''WorkerCount'', VInt (sy_WorkerCount s), [Required, MinInt 1]), (''RetryLimit'', VInt (sy_RetryLimit s), [Required, MinInt 1]),
      (''RetryDelay'', VInt (sy_RetryDelay s), [Required]), (''ArchivalAge'', VUint (sy_ArchivalAge s), [Required, MinInt 1]),
      (''CheckpointSize'', VUint (sy_CheckpointSize s), [Required, MinInt 1]),
      (''CompressionLevel'', VInt (sy_CompressionLevel s), [MinInt 0, MaxInt 9])]"

definition cache_fields :: "CacheConfig \<Rightarrow> field list" where
  "cache_fields c =
     [(''Type'', VStr (ca_Type c), [OneOf [''memory'', ''redis'']]), (''Size'', VInt (ca_Size c), [RequiredIf (ca_Enabled c), MinInt 1]),
      (''TTL'', VInt (ca_TTL c), [RequiredIf (ca_Enabled c)]), (''RedisURL'', VStr (ca_RedisURL c), [RequiredIf (ca_Type c = ''redis''), OmitEmpty, Url]),
      (''RedisDB'', VInt (ca_RedisDB c), [MinInt 0]), (''MaxRetries'', VInt (ca_MaxRetries c), [Required, MinInt 1]),
      (''DialTimeout'', VInt (ca_DialTimeout c), [Required]), (''ReadTimeout'', VInt (ca_ReadTimeout c), [Required]),
      (''WriteTimeout'', VInt (ca_WriteTimeout c), [Required])]"

definition optimizer_fields :: "OptimizerConfig \<Rightarrow> field list" where
  "optimizer_fields c =
     [(''MaxRead'', VInt (oc_MaxRead c), [Required, MinInt 1]), (''MaxWrite'', VInt (oc_MaxWrite c), [Required, MinInt 1]),
      (''TargetUtil'', VFloat (oc_TargetUtil c), [Required, MinFloat f64_0, MaxFloat (Fin 1)]),
      (''InitialLimit'', VInt (oc_InitialLimit c), [Required, MinInt 1]), (''BurstLimit'', VInt (oc_BurstLimit c), [Required, MinInt 1]),
      (''ScaleFactor'', VFloat (oc_ScaleFactor c), [Required, MinFloat (rnd (1 / 10))]),
      (''ShardCount'', VInt (oc_ShardCount c), [RequiredIf (oc_ShardingEnabled c), MinInt 1]),
      (''ReplicaSet'', VInt (oc_ReplicaSet c), [RequiredIf (oc_ShardingEnabled c), MinInt 1]),
      (''ShardSize'', VInt (oc_ShardSize c), [RequiredIf (oc_ShardingEnabled c), MinInt 1]),
      (''LoadFactor'', VFloat (oc_LoadFactor c), [Required, MinFloat f64_0, MaxFloat (Fin 1)]),
      (''HeartbeatInterval'', VInt (oc_HeartbeatInterval c), [RequiredIf (oc_HighAvailabilityEnabled c)]),
      (''FailoverTimeout'', VInt (oc_FailoverTimeout c), [RequiredIf (oc_HighAvailabilityEnabled c)]),
      (''MinReplicas'', VInt (oc_MinReplicas c), [RequiredIf (oc_HighAvailabilityEnabled c), MinInt 1]),
      (''Interval'', VInt (oc_LearningInterval c), [Required]), (''WindowSize'', VInt (oc_WindowSize c), [Required, MinInt 1]),
      (''Threshold'', VFloat (oc_Threshold c), [Required, MinFloat f64_0, MaxFloat (Fin 1)]),
      (''MaxAdjust'', VFloat (oc_MaxAdjust c), [Required, MinFloat f64_0, MaxFloat (Fin 1)])]"

definition config_fields :: "Config \<Rightarrow> field list" where
  "config_fields c =
     (''Environment'', VStr (c_Environment c), [Required, OneOf [''development'', ''staging'', ''production'']]) #
     database_fields (c_Database c) @ sync_fields (c_Sync c) @ cache_fields (c_Cache c) @ optimizer_fields (c_Optimizer c) @ crypto_fields (c_Crypto c)"

section \<open>Validation\<close>

datatype config_error =
    CfgErrViolations "(string \<times> tag) list"
  | CfgErrNew string
  | CfgErrWrap string config_error

type_synonym validator = "field list \<Rightarrow> (string \<times> tag) list"

text \<open>The URL validation of the package replaces the one of the library.\<close>

definition validateURL :: "string \<Rightarrow> bool" where
  "validateURL url \<longleftrightarrow> length url > 0"

definition processValidationErrors :: "(string \<times> tag) list \<Rightarrow> config_error" where
  "processValidationErrors violations = CfgErrViolations violations"

definition validateOptimizer :: "OptimizerConfig \<Rightarrow> config_error option" where
  "validateOptimizer opt =
     (if f64_le (oc_TargetUtil opt) f64_0 \<or> f64_lt (Fin 1) (oc_TargetUtil opt)
        then Some (CfgErrNew ''IOPS target utilization must be between 0 and 1'')
      else if oc_RateLimiterEnabled opt \<and> oc_InitialLimit opt \<ge> oc_BurstLimit opt
        then Some (CfgErrNew ''rate limiter initial limit must be less than burst limit'')
      else if oc_ShardingEnabled opt \<and> f64_le (oc_LoadFactor opt) f64_0 then Some (CfgErrNew ''sharding load factor must be positive'')
      else if oc_HighAvailabilityEnabled opt \<and> oc_MinReplicas opt < 2 then Some (CfgErrNew ''high availability requires at least 2 replicas'')
      else None)"

definition performCustomValidations :: "Config \<Rightarrow> config_error option" where
  "performCustomValidations config =
     (if sy_BatchSize (c_Sync config) > 10000 then Some (CfgErrNew ''batch size cannot exceed 10000'')
      else if ca_Enabled (c_Cache config) \<and> ca_Type (c_Cache config) = ''redis'' \<and> ca_RedisURL (c_Cache config) = ''''
        then Some (CfgErrNew ''redis URL is required when redis cache is enabled'')
      else if oc_Enabled (c_Optimizer config)
        then (case validateOptimizer (c_Optimizer config) of
                Some err \<Rightarrow> Some (CfgErrWrap ''optimizer validation failed'' err) | None \<Rightarrow> None)
      else None)"

definition validateConfig :: "validator \<Rightarrow> Config \<Rightarrow> config_error option" where
  "validateConfig validate config =
     (if validate (config_fields config) \<noteq> [] then Some (processValidationErrors (validate (config_fields config)))
      else performCustomValidations config)"

section \<open>The manager\<close>

record Manager =
  m_config :: "Config option"
  m_configPath :: string

text \<open>\<open>ReadInConfig\<close> fails, or \<open>Unmarshal\<close> fails or fills the exported fields of a new configuration; its handlers are none.\<close>

datatype file_content = Unreadable | Undecodable | Decoded Config

definition Manager_load :: "validator \<Rightarrow> file_content \<Rightarrow> Manager \<Rightarrow> config_error option \<times> Manager" where
  "Manager_load validate file m =
     (case file of
        Unreadable \<Rightarrow> (Some (CfgErrNew ''failed to read config file''), m)
      | Undecodable \<Rightarrow> (Some (CfgErrNew ''failed to unmarshal config''), m)
      | Decoded c \<Rightarrow>
          let config = c\<lparr>c_changeHandlers := []\<rparr> in
          (case validateConfig validate config of
             Some err \<Rightarrow> (Some (CfgErrWrap ''config validation failed'' err), m)
           | None \<Rightarrow> (None, m\<lparr>m_config := Some config\<rparr>)))"

text \<open>A watcher that cannot be set up is only logged.\<close>

definition NewManager :: "validator \<Rightarrow> file_content \<Rightarrow> string \<Rightarrow> config_error + Manager" where
  "NewManager validate file configPath =
     (case Manager_load validate file \<lparr>m_config = None, m_configPath = configPath\<rparr> of
        (Some err, m) \<Rightarrow> Inl (CfgErrWrap ''failed to load config'' err)
      | (None, m) \<Rightarrow> Inr m)"

definition Manager_GetConfig :: "Manager \<Rightarrow> Config option" where
  "Manager_GetConfig m = m_config m"

definition Manager_RegisterChangeHandler :: "handler_id \<Rightarrow> Manager \<Rightarrow> Manager option" where
  "Manager_RegisterChangeHandler h m =
     map_option (\<lambda>c. m\<lparr>m_config := Some (c\<lparr>c_changeHandlers := c_changeHandlers c @ [h]\<rparr>)\<rparr>) (m_config m)"

definition Manager_notifyChangeHandlers :: "Manager \<Rightarrow> (handler_id \<times> Config) list option" where
  "Manager_notifyChangeHandlers m = map_option (\<lambda>c. map (\<lambda>h. (h, c)) (c_changeHandlers c)) (m_config m)"

text \<open>One event of the watcher: it reloads after a write, and notifies the handlers if that succeeds. Both the manager and the calls are the result.\<close>

definition Manager_watch :: "validator \<Rightarrow> bool \<Rightarrow> file_content \<Rightarrow> Manager \<Rightarrow> (Manager \<times> (handler_id \<times> Config) list) option" where
  "Manager_watch validate isWrite file m =
     (if \<not> isWrite then Some (m, [])
      else case Manager_load validate file m of
        (Some err, m1) \<Rightarrow> Some (m1, [])
      | (None, m1) \<Rightarrow> map_option (\<lambda>calls. (m1, calls)) (Manager_notifyChangeHandlers m1))"

text \<open>The getters dereference the configuration.\<close>

definition Manager_GetDatabaseConfig :: "Manager \<Rightarrow> DatabaseConfig option" where
  "Manager_GetDatabaseConfig m = map_option c_Database (m_config m)"

definition Manager_GetSyncConfig :: "Manager \<Rightarrow> SyncConfig option" where
  "Manager_GetSyncConfig m = map_option c_Sync (m_config m)"

definition Manager_GetCacheConfig :: "Manager \<Rightarrow> CacheConfig option" where
  "Manager_GetCacheConfig m = map_option c_Cache (m_config m)"

definition Manager_GetOptimizerConfig :: "Manager \<Rightarrow> OptimizerConfig option" where
  "Manager_GetOptimizerConfig m = map_option c_Optimizer (m_config m)"

definition Manager_GetEnvironment :: "Manager \<Rightarrow> string option" where
  "Manager_GetEnvironment m = map_option c_Environment (m_config m)"

section \<open>Cryptographic settings\<close>

definition CryptoConfig_GetKyberSecurityLevel :: "CryptoConfig \<Rightarrow> int" where
  "CryptoConfig_GetKyberSecurityLevel c =
     (if cc_KeyExchangeAlgorithm c = '''' then cc_KyberSecurityLevel c
      else if cc_KeyExchangeAlgorithm c = ''Kyber512'' then 512
      else if cc_KeyExchangeAlgorithm c = ''Kyber768'' then 768
      else if cc_KeyExchangeAlgorithm c = ''Kyber1024'' then 1024
      else 1024)"

definition CryptoConfig_GetDilithiumSecurityLevel :: "CryptoConfig \<Rightarrow> int" where
  "CryptoConfig_GetDilithiumSecurityLevel c =
     (if cc_SignatureAlgorithm c = '''' then cc_DilithiumSecurityLevel c
      else if cc_SignatureAlgorithm c = ''Dilithium2'' then 2
      else if cc_SignatureAlgorithm c = ''Dilithium3'' then 3
      else if cc_SignatureAlgorithm c = ''Dilithium5'' then 5
      else 3)"

definition CryptoConfig_GetKeyExpiration :: "CryptoConfig \<Rightarrow> duration" where
  "CryptoConfig_GetKeyExpiration c = cc_KeyExpirationTime c"

definition CryptoConfig_IsKeyRotationDue :: "int \<Rightarrow> int \<Rightarrow> CryptoConfig \<Rightarrow> bool" where
  "CryptoConfig_IsKeyRotationDue now lastRotation c =
     (if \<not> cc_EnableKeyRotation c then False else now - lastRotation \<ge> cc_KeyRotationInterval c)"

section \<open>What the tags mean\<close>

fun is_zero :: "field_value \<Rightarrow> bool" where
  "is_zero (VStr s) = (s = '''')"
| "is_zero (VInt i) = (i = 0)"
| "is_zero (VUint u) = (u = 0)"
| "is_zero (VFloat x) = (x = f64_0)"

fun tag_ok :: "tag \<Rightarrow> field_value \<Rightarrow> bool" where
  "tag_ok Required v = (\<not> is_zero v)"
| "tag_ok (RequiredIf b) v = (b \<longrightarrow> \<not> is_zero v)"
| "tag_ok (OneOf xs) (VStr s) = (s \<in> set xs)"
| "tag_ok (OneOfInt xs) (VInt i) = (i \<in> set xs)"
| "tag_ok (MinInt n) (VInt i) = (n \<le> i)"
| "tag_ok (MinInt n) (VUint u) = (n \<le> uint u)"
| "tag_ok (MaxInt n) (VInt i) = (i \<le> n)"
| "tag_ok (MinFloat y) (VFloat x) = f64_le y x"
| "tag_ok (MaxFloat y) (VFloat x) = f64_le x y"
| "tag_ok Url (VStr s) = validateURL s"
| "tag_ok OmitEmpty v = True"
| "tag_ok _ _ = False"

text \<open>Tags are tried in their order; \<open>omitempty\<close> ends the check of a field that has its zero value.\<close>

fun tags_ok :: "field_value \<Rightarrow> tag list \<Rightarrow> bool" where
  "tags_ok v [] = True"
| "tags_ok v (t # ts) = (if t = OmitEmpty \<and> is_zero v then True else tag_ok t v \<and> tags_ok v ts)"

definition documented_validator :: "validator \<Rightarrow> bool" where
  "documented_validator validate \<longleftrightarrow> (\<forall>fs. validate fs = [] \<longleftrightarrow> (\<forall>(_, v, ts) \<in> set fs. tags_ok v ts))"

lemma valid_sections:
  assumes "documented_validator validate" and "validate (config_fields c) = []"
  shows "\<forall>(_, v, ts) \<in> set (sync_fields (c_Sync c)). tags_ok v ts" "\<forall>(_, v, ts) \<in> set (cache_fields (c_Cache c)). tags_ok v ts"
    "\<forall>(_, v, ts) \<in> set (optimizer_fields (c_Optimizer c)). tags_ok v ts" "\<forall>(_, v, ts) \<in> set (crypto_fields (c_Crypto c)). tags_ok v ts"
  using assms unfolding documented_validator_def config_fields_def by auto

lemma valid_sync:
  "\<forall>(_, v, ts) \<in> set (sync_fields s). tags_ok v ts \<Longrightarrow> 1 \<le> sy_BatchSize s \<and> 1 \<le> sy_WorkerCount s \<and> 0 \<le> sy_CompressionLevel s \<and> sy_CompressionLevel s \<le> 9"
  by (simp add: sync_fields_def)

lemma valid_cache:
  "\<forall>(_, v, ts) \<in> set (cache_fields c). tags_ok v ts \<Longrightarrow> 1 \<le> ca_Size c \<and> (ca_Type c = ''redis'' \<longrightarrow> ca_RedisURL c \<noteq> '''')"
  by (simp add: cache_fields_def)

lemma unit_not_zero: "f64_le f64_0 x \<Longrightarrow> f64_le x (Fin 1) \<Longrightarrow> x \<noteq> f64_0 \<Longrightarrow> \<not> f64_le x f64_0 \<and> \<not> f64_lt (Fin 1) x"
  by (cases x) (auto simp: f64_le_def)

lemma valid_optimizer:
  assumes "\<forall>(_, v, ts) \<in> set (optimizer_fields c). tags_ok v ts"
  shows "\<not> f64_le (oc_TargetUtil c) f64_0" "\<not> f64_lt (Fin 1) (oc_TargetUtil c)" "\<not> f64_le (oc_LoadFactor c) f64_0"
  using assms unit_not_zero [of "oc_TargetUtil c"] unit_not_zero [of "oc_LoadFactor c"] by (auto simp: optimizer_fields_def)

lemma valid_crypto:
  assumes "\<forall>(_, v, ts) \<in> set (crypto_fields c). tags_ok v ts"
  shows "CryptoConfig_GetKyberSecurityLevel c \<in> {512, 768, 1024}" "isValidDilithiumLevel (CryptoConfig_GetDilithiumSecurityLevel c)"
    "1 \<le> cc_MaxKeyGenerationRetry c" "cc_MaxKeyGenerationRetry c \<le> 10"
  using assms
  by (auto simp: crypto_fields_def CryptoConfig_GetKyberSecurityLevel_def CryptoConfig_GetDilithiumSecurityLevel_def level_defs)

section \<open>Properties\<close>

text \<open>C38: Of the checks made after the validation of the tags, three can still fail: the upper bound of the batch size, the limits of the rate limiter and the
  number of replicas. The checks of the Redis URL, the target utilisation and the load factor repeat what the tags demand.\<close>

theorem custom_checks_reduced:
  assumes "documented_validator validate" and "validate (config_fields c) = []"
  shows "performCustomValidations c =
    (if sy_BatchSize (c_Sync c) > 10000 then Some (CfgErrNew ''batch size cannot exceed 10000'')
     else if oc_Enabled (c_Optimizer c) \<and> oc_RateLimiterEnabled (c_Optimizer c) \<and> oc_InitialLimit (c_Optimizer c) \<ge> oc_BurstLimit (c_Optimizer c)
       then Some (CfgErrWrap ''optimizer validation failed'' (CfgErrNew ''rate limiter initial limit must be less than burst limit''))
     else if oc_Enabled (c_Optimizer c) \<and> oc_HighAvailabilityEnabled (c_Optimizer c) \<and> oc_MinReplicas (c_Optimizer c) < 2
       then Some (CfgErrWrap ''optimizer validation failed'' (CfgErrNew ''high availability requires at least 2 replicas''))
     else None)"
  using valid_cache [OF valid_sections(2) [OF assms]] valid_optimizer [OF valid_sections(3) [OF assms]]
  by (auto simp: performCustomValidations_def validateOptimizer_def)

inductive config_reachable :: "validator \<Rightarrow> Manager \<Rightarrow> bool" for validate where
  new: "NewManager validate file path = Inr m \<Longrightarrow> config_reachable validate m"
| register: "config_reachable validate m \<Longrightarrow> Manager_RegisterChangeHandler h m = Some m1 \<Longrightarrow> config_reachable validate m1"
| watch: "config_reachable validate m \<Longrightarrow> Manager_watch validate isWrite file m = Some (m1, calls) \<Longrightarrow> config_reachable validate m1"

lemma validate_handlers: "validateConfig validate (c\<lparr>c_changeHandlers := hs\<rparr>) = validateConfig validate c"
  by (simp add: validateConfig_def config_fields_def performCustomValidations_def)

lemma load_valid:
  "Manager_load validate file m = (e, m1) \<Longrightarrow>
     (if e = None then \<exists>c. m_config m1 = Some c \<and> c_changeHandlers c = [] \<and> validateConfig validate c = None else m1 = m)"
  by (auto simp: Manager_load_def Let_def split: file_content.splits option.splits)

lemma config_reachable_valid: "config_reachable validate m \<Longrightarrow> \<exists>c. m_config m = Some c \<and> validateConfig validate c = None"
proof (induction rule: config_reachable.induct)
  case (new fc path m)
  then show ?case using load_valid by (fastforce simp: NewManager_def split: prod.splits option.splits)
next
  case (register m h m1)
  then show ?case by (auto simp: Manager_RegisterChangeHandler_def validate_handlers)
next
  case (watch m isWrite fc m1 calls)
  then show ?case using load_valid [of validate fc m]
    by (fastforce simp: Manager_watch_def split: if_splits prod.splits option.splits)
qed

lemma watch_replaces:
  "Manager_watch validate isWrite file m = Some
     (case file of
        Decoded d \<Rightarrow>
          if isWrite \<and> validateConfig validate (d\<lparr>c_changeHandlers := []\<rparr>) = None
          then m\<lparr>m_config := Some (d\<lparr>c_changeHandlers := []\<rparr>)\<rparr> else m
      | _ \<Rightarrow> m, [])"
  by (auto simp: Manager_watch_def Manager_load_def Manager_notifyChangeHandlers_def Let_def split: file_content.split option.split)

lemma optimizer_checked:
  assumes "performCustomValidations c = None" and "oc_Enabled (c_Optimizer c)"
  shows "\<not> f64_le (oc_TargetUtil (c_Optimizer c)) f64_0" "\<not> f64_lt (Fin 1) (oc_TargetUtil (c_Optimizer c))"
    "oc_RateLimiterEnabled (c_Optimizer c) \<longrightarrow> oc_InitialLimit (c_Optimizer c) < oc_BurstLimit (c_Optimizer c)"
    "oc_ShardingEnabled (c_Optimizer c) \<longrightarrow> \<not> f64_le (oc_LoadFactor (c_Optimizer c)) f64_0"
    "oc_HighAvailabilityEnabled (c_Optimizer c) \<longrightarrow> 2 \<le> oc_MinReplicas (c_Optimizer c)"
  using assms by (auto simp: performCustomValidations_def validateOptimizer_def split: if_splits)

text \<open>C21: The configuration the manager serves has passed validation, whatever the file held at the start and at each
  time it was read again. It breaks no tag, and it passes each of the custom checks: the batch size is between 1 and
  10000, there is a worker, a redis cache has a URL, and an optimizer that is enabled has a target utilisation in
  (0, 1], a rate limiter with its initial limit below its burst limit, a positive load factor if it shards, and two
  replicas if it is to be highly available. The crypto manager can be made with its levels. An event of the watcher puts
  another configuration in its place only if it is a write and the file decodes to one that passes validation; a file
  that is unreadable, does not decode or fails a check leaves the previous configuration as it is.\<close>

theorem served_config_valid:
  assumes "documented_validator validate" and "config_reachable validate m"
  shows "\<exists>c. Manager_GetConfig m = Some c \<and> validate (config_fields c) = [] \<and>
    1 \<le> sy_BatchSize (c_Sync c) \<and> sy_BatchSize (c_Sync c) \<le> 10000 \<and> 1 \<le> sy_WorkerCount (c_Sync c) \<and>
    (ca_Type (c_Cache c) \<noteq> ''redis'' \<or> ca_RedisURL (c_Cache c) \<noteq> '''') \<and>
    (oc_Enabled (c_Optimizer c) \<longrightarrow>
       \<not> f64_le (oc_TargetUtil (c_Optimizer c)) f64_0 \<and> \<not> f64_lt (Fin 1) (oc_TargetUtil (c_Optimizer c)) \<and>
       (oc_RateLimiterEnabled (c_Optimizer c) \<longrightarrow> oc_InitialLimit (c_Optimizer c) < oc_BurstLimit (c_Optimizer c)) \<and>
       (oc_ShardingEnabled (c_Optimizer c) \<longrightarrow> \<not> f64_le (oc_LoadFactor (c_Optimizer c)) f64_0) \<and>
       (oc_HighAvailabilityEnabled (c_Optimizer c) \<longrightarrow> 2 \<le> oc_MinReplicas (c_Optimizer c))) \<and>
    1 \<le> cc_MaxKeyGenerationRetry (c_Crypto c) \<and> cc_MaxKeyGenerationRetry (c_Crypto c) \<le> 10 \<and>
    (\<exists>cm. NewCryptoManager kems now (CryptoConfig_GetKyberSecurityLevel (c_Crypto c)) (CryptoConfig_GetDilithiumSecurityLevel (c_Crypto c)) [] = Some (Inr cm)) \<and>
    (\<exists>m1. Manager_watch validate isWrite file m = Some (m1, []) \<and>
       Manager_GetConfig m1 = (case file of
           Decoded d \<Rightarrow> if isWrite \<and> validateConfig validate (d\<lparr>c_changeHandlers := []\<rparr>) = None
                        then Some (d\<lparr>c_changeHandlers := []\<rparr>) else Some c
         | _ \<Rightarrow> Some c))"
proof -
  obtain c where c: "m_config m = Some c" "validateConfig validate c = None" using config_reachable_valid [OF assms(2)] by blast
  then have v: "validate (config_fields c) = []" "performCustomValidations c = None" by (auto simp: validateConfig_def split: if_splits)
  note s = valid_sections [OF assms(1) v(1)]
  have "\<exists>cm. NewCryptoManager kems now (CryptoConfig_GetKyberSecurityLevel (c_Crypto c)) (CryptoConfig_GetDilithiumSecurityLevel (c_Crypto c)) [] = Some (Inr cm)"
    using valid_crypto(1,2) [OF s(4)] by (auto simp: NewCryptoManager_def KyberSchemeFromLevel_def kyber_levels NewKyberCrypto_def)
  moreover have "sy_BatchSize (c_Sync c) \<le> 10000" using v(2) by (auto simp: performCustomValidations_def split: if_splits)
  moreover have "\<exists>m1. Manager_watch validate isWrite file m = Some (m1, []) \<and>
       Manager_GetConfig m1 = (case file of
           Decoded d \<Rightarrow> if isWrite \<and> validateConfig validate (d\<lparr>c_changeHandlers := []\<rparr>) = None
                        then Some (d\<lparr>c_changeHandlers := []\<rparr>) else Some c
         | _ \<Rightarrow> Some c)"
    using c(1) by (simp add: watch_replaces Manager_GetConfig_def split: file_content.split)
  ultimately show ?thesis
    using c(1) v(1) valid_sync [OF s(1)] valid_cache [OF s(2)] optimizer_checked [OF v(2)] valid_crypto(3,4) [OF s(4)]
    by (simp add: Manager_GetConfig_def)
qed

text \<open>Change handlers are lost before they are called: they are stored in the configuration that a reload replaces, so that the notification after a reload finds none.
  Whatever was registered before, no event of the watcher calls a handler, and after a successful reload no handler is registered.\<close>

theorem handlers_never_called:
  "\<exists>m1. Manager_watch validate isWrite file m = Some (m1, []) \<and>
    (if isWrite \<and> fst (Manager_load validate file m) = None then map_option c_changeHandlers (Manager_GetConfig m1) = Some [] else m1 = m)"
proof -
  obtain e m1 where l: "Manager_load validate file m = (e, m1)" by fastforce
  show ?thesis using load_valid [OF l] l
    by (cases e) (auto simp: Manager_watch_def Manager_notifyChangeHandlers_def Manager_GetConfig_def)
qed

text \<open>A disabled cache must have a size all the same: \<open>required_if\<close> passes, and \<open>min=1\<close> is tried next.\<close>

theorem disabled_cache_needs_size:
  assumes "documented_validator validate" and "ca_Size (c_Cache c) = 0"
  shows "validateConfig validate c \<noteq> None"
proof
  assume "validateConfig validate c = None"
  then have "validate (config_fields c) = []" by (auto simp: validateConfig_def split: if_splits)
  from valid_cache [OF valid_sections(2) [OF assms(1) this]] assms(2) show False by simp
qed

section \<open>A concrete configuration\<close>

definition first_violation :: validator where
  "first_violation fs = map (\<lambda>(n, v, ts). (n, hd ts)) (filter (\<lambda>(n, v, ts). \<not> tags_ok v ts) fs)"

lemma first_violation_documented: "documented_validator first_violation"
  by (auto simp: documented_validator_def first_violation_def filter_empty_conv)

definition example_config :: Config where
  "example_config =
     \<lparr>c_Environment = ''staging'',
      c_Database = \<lparr>db_CouchDB = \<lparr>co_URL = ''u'', co_Database = ''d'', co_Username = ''n'', co_Password = ''p'', co_MaxConnections = 4, co_Timeout = second,
          co_RetryLimit = 3, co_RetryDelay = second\<rparr>,
        db_Postgres = \<lparr>po_Host = ''h'', po_Port = 5432, po_Database = ''d'', po_Username = ''n'', po_Password = ''p'', po_MaxConnections = 4, po_MaxIdleConns = 2,
          po_ConnMaxLifetime = hour, po_SSLMode = ''require''\<rparr>\<rparr>,
      c_Sync = \<lparr>sy_BatchSize = 500, sy_SyncInterval = second, sy_WorkerCount = 2, sy_RetryLimit = 3, sy_RetryDelay = second, sy_ArchivalAge = 10,
        sy_CheckpointSize = 100, sy_CompressionLevel = 6\<rparr>,
      c_Cache = \<lparr>ca_Enabled = True, ca_Type = ''memory'', ca_Size = 64, ca_TTL = minute, ca_RedisURL = '''', ca_RedisDB = 0, ca_MaxRetries = 3,
        ca_DialTimeout = second, ca_ReadTimeout = second, ca_WriteTimeout = second\<rparr>,
      c_Optimizer = \<lparr>oc_Enabled = True, oc_MaxRead = 10, oc_MaxWrite = 10, oc_TargetUtil = Fin (1 / 2), oc_RateLimiterEnabled = True, oc_InitialLimit = 10,
        oc_BurstLimit = 20, oc_ScaleFactor = Fin 2, oc_ShardingEnabled = False, oc_ShardCount = 1, oc_ReplicaSet = 1, oc_ShardSize = 1, oc_LoadFactor = Fin (1 / 2),
        oc_HighAvailabilityEnabled = False, oc_HeartbeatInterval = 0, oc_FailoverTimeout = 0, oc_MinReplicas = 1, oc_LearningInterval = minute,
        oc_WindowSize = 10, oc_Threshold = Fin (1 / 2), oc_MaxAdjust = Fin (1 / 4)\<rparr>,
      c_Crypto = NewDefaultCryptoConfig, c_changeHandlers = []\<rparr>"

lemma tenth: "f64_le (rnd (1 / 10)) (Fin 2)"
proof -
  obtain r where "rnd (1 / 10) = Fin r" "r \<le> 1" using rnd_between [of 0 1 "1 / 10"] rnd_int [of 0] rnd_int [of 1] by auto
  then show ?thesis by (auto simp: f64_le_def)
qed

lemma example_config_fields: "first_violation (config_fields example_config) = []"
  using tenth
  by (simp add: first_violation_def config_fields_def database_fields_def sync_fields_def cache_fields_def optimizer_fields_def crypto_fields_def
      example_config_def NewDefaultCryptoConfig_def validateURL_def f64_le_def hour_def minute_def second_def millisecond_def)

lemma example_config_valid: "validateConfig first_violation example_config = None"
  by (simp add: validateConfig_def example_config_fields)
    (simp add: performCustomValidations_def validateOptimizer_def example_config_def f64_le_def)

theorem custom_checks_reduced_witness: "performCustomValidations example_config = None"
  using custom_checks_reduced [OF first_violation_documented example_config_fields] by (simp add: example_config_def)

theorem served_config_valid_witness:
  "\<exists>m c. NewManager first_violation (Decoded example_config) ''config.yaml'' = Inr m \<and> Manager_GetConfig m = Some c \<and>
     oc_Enabled (c_Optimizer c) \<and> oc_RateLimiterEnabled (c_Optimizer c) \<and> oc_InitialLimit (c_Optimizer c) < oc_BurstLimit (c_Optimizer c)"
proof -
  have h: "example_config\<lparr>c_changeHandlers := []\<rparr> = example_config" by (simp add: example_config_def)
  have m: "NewManager first_violation (Decoded example_config) ''config.yaml'' = Inr \<lparr>m_config = Some example_config, m_configPath = ''config.yaml''\<rparr>"
    by (simp add: NewManager_def Manager_load_def h example_config_valid)
  have "oc_Enabled (c_Optimizer example_config) \<and> oc_RateLimiterEnabled (c_Optimizer example_config)" by (simp add: example_config_def)
  with served_config_valid [OF first_violation_documented config_reachable.new [OF m]] m show ?thesis
    by (auto simp: Manager_GetConfig_def)
qed

end
