(* ===== verification/DPoSTheory.thy ===== *)
theory DPoSTheory
  imports Hex GoTime Sha256
begin

text \<open>
  Delegated proof of stake: \<open>consensus/diamantepos/diamantepos.go\<close>. The record \<open>DPoS\<close> keeps the map
  of all validators and the list of active ones. The list holds pointers to the objects of the map:
  an entry \<open>Live id\<close> is the object stored under \<open>id\<close>. A restore that fails half way replaces the map and
  leaves the list with the old objects, which are entries \<open>Detached v\<close>.

  A stake is a 64-bit word and the totals wrap as in Go. The sort of \<open>updateActiveValidators\<close> starts
  from the order in which a range visits the map and is not stable, so its outcome is an argument
  (\<open>srt\<close>) and \<open>sort_outcome\<close> says what Go's \<open>sort.Slice\<close> promises of it. \<open>math.Pow\<close>, which has no exact
  specification, is a parameter. A panic is \<open>None\<close>. The JSON text of the state is modelled as the
  struct that is encoded; a text that does not parse is \<open>None\<close>.
\<close>

section \<open>Data\<close>

record SlashEvent =
  se_ValidatorID :: hash32
  se_Amount :: uint64
  se_Reason :: string
  se_Timestamp :: int

record Validator =
  v_ID :: hash32
  v_Stake :: uint64
  v_Performance :: float64
  v_LastUpdateTime :: int
  v_BlocksProduced :: uint64
  v_MisbehaviorCount :: uint64
  v_IsActive :: bool

datatype active_entry = Live hash32 | Detached Validator

record DPoS =
  dp_validators :: "hash32 \<rightharpoonup> Validator"
  dp_activeValidators :: "active_entry list"
  dp_totalStake :: uint64
  dp_activeTotalStake :: uint64
  dp_lastBlockHeight :: uint64
  dp_epochDuration :: uint64
  dp_currentEpoch :: uint64
  dp_maxSetSize :: int
  dp_slashLog :: "SlashEvent list"

text \<open>\<open>types.Validator\<close>: identity and stake.\<close>

type_synonym types_Validator = "hash32 \<times> uint64"

datatype dpos_error =
    DposErrNew string
  | DposErrWrap string dpos_error

definition NewDPoS :: "int \<Rightarrow> uint64 \<Rightarrow> DPoS" where
  "NewDPoS maxSetSize epochDuration =
     \<lparr>dp_validators = Map.empty, dp_activeValidators = [], dp_totalStake = 0, dp_activeTotalStake = 0,
      dp_lastBlockHeight = 0, dp_epochDuration = epochDuration, dp_currentEpoch = 0, dp_maxSetSize = maxSetSize,
      dp_slashLog = []\<rparr>"

section \<open>The active set\<close>

text \<open>The object an entry of the active list points to, and a write to it.\<close>

definition active_obj :: "DPoS \<Rightarrow> active_entry \<Rightarrow> Validator" where
  "active_obj d e = (case e of Live i \<Rightarrow> the (dp_validators d i) | Detached v \<Rightarrow> v)"

definition score :: "Validator \<Rightarrow> float64" where
  "score v = f64_mul (f64_of_int (uint (v_Stake v))) (v_Performance v)"

definition sort_outcome :: "DPoS \<Rightarrow> hash32 list \<Rightarrow> bool" where
  "sort_outcome d srt \<longleftrightarrow> range_order (dp_validators d) srt \<and>
     sorted_wrt (\<lambda>i j. \<not> f64_lt (score (the (dp_validators d i))) (score (the (dp_validators d j)))) srt"

definition DPoS_updateActiveValidators :: "hash32 list \<Rightarrow> DPoS \<Rightarrow> DPoS option" where
  "DPoS_updateActiveValidators srt d =
     (let top = (if int (length srt) < dp_maxSetSize d then int (length srt) else dp_maxSetSize d) in
      if top < 0 then None
      else
        let active = take (nat top) srt;
            vals = (\<lambda>i. map_option (\<lambda>v. v\<lparr>v_IsActive := i \<in> set active\<rparr>) (dp_validators d i))
        in Some (d\<lparr>dp_activeValidators := map Live active, dp_validators := vals,
                   dp_activeTotalStake := sum_list (map (\<lambda>i. v_Stake (the (vals i))) active)\<rparr>))"

definition DPoS_AddValidator :: "int \<Rightarrow> hash32 list \<Rightarrow> hash32 \<Rightarrow> uint64 \<Rightarrow> DPoS \<Rightarrow> DPoS option" where
  "DPoS_AddValidator now srt i stake d =
     (let d1 = (case dp_validators d i of
          None \<Rightarrow> d\<lparr>dp_validators := (dp_validators d)(i \<mapsto>
                      \<lparr>v_ID = i, v_Stake = stake, v_Performance = f64_1, v_LastUpdateTime = now, v_BlocksProduced = 0,
                       v_MisbehaviorCount = 0, v_IsActive = False\<rparr>),
                    dp_totalStake := dp_totalStake d + stake\<rparr>
        | Some _ \<Rightarrow> d)
      in DPoS_updateActiveValidators srt d1)"

definition DPoS_UpdateStake :: "hash32 list \<Rightarrow> hash32 \<Rightarrow> uint64 \<Rightarrow> DPoS \<Rightarrow> DPoS option" where
  "DPoS_UpdateStake srt i newStake d =
     (case dp_validators d i of
        Some val \<Rightarrow>
          DPoS_updateActiveValidators srt
            (d\<lparr>dp_totalStake := dp_totalStake d - v_Stake val + newStake,
               dp_validators := (dp_validators d)(i \<mapsto> val\<lparr>v_Stake := newStake\<rparr>)\<rparr>)
      | None \<Rightarrow> Some d)"

definition uint64ToBytes :: "uint64 \<Rightarrow> bytes" where
  "uint64ToBytes i = be_bytes 8 i"

definition DPoS_GetNextValidator :: "uint64 \<Rightarrow> hash32 \<Rightarrow> DPoS \<Rightarrow> types_Validator option" where
  "DPoS_GetNextValidator blockNumber lastBlockHash d =
     (if length (dp_activeValidators d) = 0 then None
      else
        let seed = sha256 (hash_bytes lastBlockHash @ uint64ToBytes blockNumber);
            index = (of_be_bytes (take 8 (hash_bytes seed)) :: uint64) mod word_of_nat (length (dp_activeValidators d));
            selected = active_obj d (dp_activeValidators d ! unat index)
        in Some (v_ID selected, v_Stake selected))"

section \<open>Epochs\<close>

definition calculateTotalReward :: "uint64 \<Rightarrow> uint64" where
  "calculateTotalReward epoch = (if epoch \<le> 1 then 100 else 1000000 div (1 + epoch div 100))"

definition calculatePenalty :: "uint64 \<Rightarrow> uint64 \<Rightarrow> uint64" where
  "calculatePenalty stake misbehaviorCount = (stake div 100) * misbehaviorCount"

text \<open>One round of the loop of \<open>distributeRewards\<close>, on the k-th active entry.\<close>

definition add_stake :: "uint64 \<Rightarrow> Validator \<Rightarrow> Validator" where
  "add_stake reward v = v\<lparr>v_Stake := v_Stake v + reward\<rparr>"

definition reward_entry :: "uint64 \<Rightarrow> nat \<Rightarrow> DPoS \<Rightarrow> DPoS" where
  "reward_entry totalReward k d =
     (let e = dp_activeValidators d ! k;
          reward = (totalReward * v_Stake (active_obj d e)) div dp_activeTotalStake d;
          d1 = (case e of
             Live i \<Rightarrow> d\<lparr>dp_validators := map_modify i (add_stake reward) (dp_validators d)\<rparr>
           | Detached v \<Rightarrow> d\<lparr>dp_activeValidators := (dp_activeValidators d)[k := Detached (add_stake reward v)]\<rparr>)
      in d1\<lparr>dp_totalStake := dp_totalStake d + reward, dp_activeTotalStake := dp_activeTotalStake d + reward\<rparr>)"

text \<open>The division panics if the total has wrapped round to zero.\<close>

fun reward_loop :: "uint64 \<Rightarrow> nat list \<Rightarrow> DPoS \<Rightarrow> DPoS option" where
  "reward_loop totalReward [] d = Some d"
| "reward_loop totalReward (k # ks) d =
     (if dp_activeTotalStake d = 0 then None else reward_loop totalReward ks (reward_entry totalReward k d))"

definition DPoS_distributeRewards :: "DPoS \<Rightarrow> DPoS option" where
  "DPoS_distributeRewards d =
     (if dp_activeTotalStake d = 0 then Some d
      else reward_loop (calculateTotalReward (dp_currentEpoch d)) [0..<length (dp_activeValidators d)] d)"

text \<open>The loop of \<open>handleSlashingAndPenalties\<close>: \<open>order\<close> is the order of the range and \<open>nows\<close> the clock
  reading made when a validator is slashed.\<close>

fun slash_loop :: "(hash32 \<Rightarrow> int) \<Rightarrow> hash32 list \<Rightarrow> bool \<Rightarrow> DPoS \<Rightarrow> bool \<times> DPoS" where
  "slash_loop nows [] slashedAny d = (slashedAny, d)"
| "slash_loop nows (i # order) slashedAny d =
     (let val = the (dp_validators d i) in
      if v_MisbehaviorCount val > 0 then
        let penalty0 = calculatePenalty (v_Stake val) (v_MisbehaviorCount val);
            penalty = (if penalty0 > v_Stake val then v_Stake val else penalty0)
        in slash_loop nows order (slashedAny \<or> penalty > 0)
             (d\<lparr>dp_validators := (dp_validators d)(i \<mapsto> val\<lparr>v_Stake := v_Stake val - penalty, v_MisbehaviorCount := 0\<rparr>),
                dp_totalStake := dp_totalStake d - penalty,
                dp_activeTotalStake := (if v_IsActive val then dp_activeTotalStake d - penalty else dp_activeTotalStake d),
                dp_slashLog := dp_slashLog d @ [\<lparr>se_ValidatorID = v_ID val, se_Amount = penalty, se_Reason = ''Misbehavior'',
                                                 se_Timestamp = nows i\<rparr>]\<rparr>)
      else slash_loop nows order slashedAny d)"

definition DPoS_handleSlashingAndPenalties :: "(hash32 \<Rightarrow> int) \<Rightarrow> hash32 list \<Rightarrow> DPoS \<Rightarrow> bool \<times> DPoS" where
  "DPoS_handleSlashingAndPenalties nows order d = slash_loop nows order False d"

text \<open>\<open>Duration.Hours\<close> and the decay of a validator's performance.\<close>

definition duration_hours :: "duration \<Rightarrow> float64" where
  "duration_hours d =
     f64_add (f64_of_int (go_div d hour)) (f64_div (f64_of_int (go_mod d hour)) (Fin 3600000000000))"

definition decay :: "(float64 \<Rightarrow> float64 \<Rightarrow> float64) \<Rightarrow> int \<Rightarrow> Validator \<Rightarrow> Validator" where
  "decay pow now v =
     (let hoursDiff = duration_hours (now - v_LastUpdateTime v) in
      if f64_lt f64_0 hoursDiff
      then v\<lparr>v_Performance := f64_Max (rnd (1 / 10)) (f64_Min (f64_mul (v_Performance v) (pow (rnd (99 / 100)) hoursDiff)) f64_1),
             v_LastUpdateTime := now\<rparr>
      else v)"

definition DPoS_updatePerformance :: "(float64 \<Rightarrow> float64 \<Rightarrow> float64) \<Rightarrow> int \<Rightarrow> DPoS \<Rightarrow> DPoS" where
  "DPoS_updatePerformance pow now d = d\<lparr>dp_validators := (\<lambda>i. map_option (decay pow now) (dp_validators d i))\<rparr>"

definition DPoS_transitionToNextEpoch :: "DPoS \<Rightarrow> DPoS" where
  "DPoS_transitionToNextEpoch d = d\<lparr>dp_validators := (\<lambda>i. map_option (\<lambda>v. v\<lparr>v_BlocksProduced := 0\<rparr>) (dp_validators d i))\<rparr>"

text \<open>\<open>srt\<close> is the outcome of the sort, which sees the stakes after slashing.\<close>

definition DPoS_ProcessEpoch ::
    "(float64 \<Rightarrow> float64 \<Rightarrow> float64) \<Rightarrow> (hash32 \<Rightarrow> int) \<Rightarrow> int \<Rightarrow> hash32 list \<Rightarrow> hash32 list \<Rightarrow> uint64 \<Rightarrow> DPoS \<Rightarrow>
     (dpos_error option \<times> DPoS) option" where
  "DPoS_ProcessEpoch pow nows now order srt blockNumber d =
     (if dp_epochDuration d = 0 then Some (Some (DposErrNew ''epoch duration is zero''), d)
      else if blockNumber mod dp_epochDuration d \<noteq> 0 then Some (None, d)
      else
        let d1 = d\<lparr>dp_currentEpoch := dp_currentEpoch d + 1\<rparr>;
            (slashedAny, d2) = DPoS_handleSlashingAndPenalties nows order d1 in
        case DPoS_updateActiveValidators srt d2 of
          None \<Rightarrow> None
        | Some d3 \<Rightarrow>
            (case (if \<not> slashedAny then DPoS_distributeRewards d3 else Some d3) of
               None \<Rightarrow> None
             | Some d4 \<Rightarrow> Some (None, DPoS_transitionToNextEpoch (DPoS_updatePerformance pow now d4))))"

definition DPoS_RewardValidator :: "int \<Rightarrow> hash32 \<Rightarrow> DPoS \<Rightarrow> DPoS" where
  "DPoS_RewardValidator now i d =
     d\<lparr>dp_validators := map_modify i (\<lambda>v. v\<lparr>v_Performance := f64_Min (f64_mul (v_Performance v) (rnd (101 / 100))) f64_1,
                                            v_LastUpdateTime := now\<rparr>) (dp_validators d)\<rparr>"

section \<open>Queries and settings\<close>

definition DPoS_GetSlashLog :: "DPoS \<Rightarrow> SlashEvent list" where
  "DPoS_GetSlashLog d = dp_slashLog d"

definition DPoS_IsActiveValidator :: "hash32 \<Rightarrow> DPoS \<Rightarrow> bool" where
  "DPoS_IsActiveValidator i d = (case dp_validators d i of None \<Rightarrow> False | Some val \<Rightarrow> v_IsActive val)"

definition DPoS_GetValidators :: "hash32 list \<Rightarrow> DPoS \<Rightarrow> types_Validator list" where
  "DPoS_GetValidators order d =
     map (\<lambda>i. (v_ID (the (dp_validators d i)), v_Stake (the (dp_validators d i)))) order"

definition DPoS_GetActiveValidators :: "DPoS \<Rightarrow> types_Validator list" where
  "DPoS_GetActiveValidators d = map (\<lambda>e. (v_ID (active_obj d e), v_Stake (active_obj d e))) (dp_activeValidators d)"

definition DPoS_GetTotalStake :: "DPoS \<Rightarrow> uint64" where
  "DPoS_GetTotalStake d = dp_totalStake d"

definition DPoS_GetValidatorStake :: "hash32 \<Rightarrow> DPoS \<Rightarrow> uint64" where
  "DPoS_GetValidatorStake validatorID d =
     (case dp_validators d validatorID of
        None \<Rightarrow> 0
      | Some val \<Rightarrow>
          if \<not> v_IsActive val then 0
          else if length (dp_activeValidators d) = 0 then 0
          else dp_totalStake d div word_of_nat (length (dp_activeValidators d)))"

definition DPoS_GetSetSize :: "DPoS \<Rightarrow> int" where
  "DPoS_GetSetSize d = dp_maxSetSize d"

definition DPoS_SetSetSize :: "hash32 list \<Rightarrow> int \<Rightarrow> DPoS \<Rightarrow> DPoS option" where
  "DPoS_SetSetSize srt setSize d = DPoS_updateActiveValidators srt (d\<lparr>dp_maxSetSize := setSize\<rparr>)"

definition DPoS_GetEpochDuration :: "DPoS \<Rightarrow> uint64" where
  "DPoS_GetEpochDuration d = dp_epochDuration d"

definition DPoS_SetEpochDuration :: "uint64 \<Rightarrow> DPoS \<Rightarrow> DPoS" where
  "DPoS_SetEpochDuration duration d = (if duration = 0 then d else d\<lparr>dp_epochDuration := duration\<rparr>)"

definition DPoS_InjectMisbehaviorCount :: "hash32 \<Rightarrow> uint64 \<Rightarrow> DPoS \<Rightarrow> DPoS" where
  "DPoS_InjectMisbehaviorCount i count d =
     d\<lparr>dp_validators := map_modify i (\<lambda>v. v\<lparr>v_MisbehaviorCount := count\<rparr>) (dp_validators d)\<rparr>"

definition DPoS_InjectLastUpdateTime :: "hash32 \<Rightarrow> int \<Rightarrow> DPoS \<Rightarrow> DPoS" where
  "DPoS_InjectLastUpdateTime i t d =
     d\<lparr>dp_validators := map_modify i (\<lambda>v. v\<lparr>v_LastUpdateTime := t\<rparr>) (dp_validators d)\<rparr>"

definition DPoS_GetValidatorPerformance :: "hash32 \<Rightarrow> DPoS \<Rightarrow> float64" where
  "DPoS_GetValidatorPerformance i d = (case dp_validators d i of None \<Rightarrow> f64_0 | Some v \<Rightarrow> v_Performance v)"

section \<open>Saving and restoring the state\<close>

record serValidator =
  sv_ID :: string
  sv_Stake :: uint64
  sv_Performance :: float64
  sv_LastUpdateTime :: int
  sv_BlocksProduced :: uint64
  sv_MisbehaviorCount :: uint64

record DPoS_state =
  ds_Validators :: "(string \<times> serValidator) list"
  ds_ActiveValidators :: "string list"
  ds_LastBlockHeight :: uint64
  ds_EpochDuration :: uint64
  ds_CurrentEpoch :: uint64
  ds_MaxSetSize :: int

definition f64_finite :: "float64 \<Rightarrow> bool" where
  "f64_finite x = (case x of Fin q \<Rightarrow> True | _ \<Rightarrow> False)"

text \<open>The map of validators is listed in the order of the range; \<open>json.Marshal\<close> refuses a float that is
  not a finite number.\<close>

definition DPoS_GetState :: "hash32 list \<Rightarrow> DPoS \<Rightarrow> dpos_error + DPoS_state" where
  "DPoS_GetState order d =
     (let ser = (\<lambda>i. let v = the (dp_validators d i) in
             (byteArrayToString i,
              \<lparr>sv_ID = byteArrayToString (v_ID v), sv_Stake = v_Stake v, sv_Performance = v_Performance v,
               sv_LastUpdateTime = unix (v_LastUpdateTime v), sv_BlocksProduced = v_BlocksProduced v,
               sv_MisbehaviorCount = v_MisbehaviorCount v\<rparr>)) in
      if \<not> list_all (\<lambda>i. f64_finite (v_Performance (the (dp_validators d i)))) order
        then Inl (DposErrNew ''json: unsupported value'')
      else Inr \<lparr>ds_Validators = map ser order,
                ds_ActiveValidators = map (\<lambda>e. byteArrayToString (v_ID (active_obj d e))) (dp_activeValidators d),
                ds_LastBlockHeight = dp_lastBlockHeight d, ds_EpochDuration = dp_epochDuration d,
                ds_CurrentEpoch = dp_currentEpoch d, ds_MaxSetSize = dp_maxSetSize d\<rparr>)"

text \<open>The decoding of an ID, with the two errors of the source; \<open>what\<close> is the text of the first.\<close>

definition decode_id :: "string \<Rightarrow> string \<Rightarrow> dpos_error + hash32" where
  "decode_id what s =
     (case hex_decode s of
        None \<Rightarrow> Inl (DposErrNew what)
      | Some b \<Rightarrow> if length b \<noteq> 32 then Inl (DposErrNew ''invalid validator ID length'') else Inr (of_be_bytes b))"

fun restore_validators ::
    "(string \<times> serValidator) list \<Rightarrow> (hash32 \<rightharpoonup> Validator) \<Rightarrow> uint64 \<Rightarrow> dpos_error + ((hash32 \<rightharpoonup> Validator) \<times> uint64)" where
  "restore_validators [] newVals tot = Inr (newVals, tot)"
| "restore_validators ((idStr, s) # rest) newVals tot =
     (case decode_id ''failed to decode validator ID'' idStr of
        Inl e \<Rightarrow> Inl e
      | Inr i \<Rightarrow>
          restore_validators rest
            (newVals(i \<mapsto> \<lparr>v_ID = i, v_Stake = sv_Stake s, v_Performance = sv_Performance s,
                           v_LastUpdateTime = sv_LastUpdateTime s * second, v_BlocksProduced = sv_BlocksProduced s,
                           v_MisbehaviorCount = sv_MisbehaviorCount s, v_IsActive = False\<rparr>))
            (tot + sv_Stake s))"

fun restore_active ::
    "string list \<Rightarrow> (hash32 \<rightharpoonup> Validator) \<Rightarrow> active_entry list \<Rightarrow> uint64 \<Rightarrow>
     dpos_error option \<times> (hash32 \<rightharpoonup> Validator) \<times> active_entry list \<times> uint64" where
  "restore_active [] vals actives activeTotal = (None, vals, actives, activeTotal)"
| "restore_active (s # rest) vals actives activeTotal =
     (case decode_id ''failed to decode active validator ID'' s of
        Inl e \<Rightarrow> (Some e, vals, actives, activeTotal)
      | Inr i \<Rightarrow>
          (case vals i of
             None \<Rightarrow> (Some (DposErrNew ''active validator not found in validators map''), vals, actives, activeTotal)
           | Some vv \<Rightarrow>
               restore_active rest (vals(i \<mapsto> vv\<lparr>v_IsActive := True\<rparr>)) (actives @ [Live i]) (activeTotal + v_Stake vv)))"

text \<open>A decoding error of the first loop leaves everything as it was; in the second loop the map has
  been replaced already and the active list keeps the objects it had.\<close>

definition DPoS_RestoreState :: "DPoS_state option \<Rightarrow> DPoS \<Rightarrow> dpos_error option \<times> DPoS" where
  "DPoS_RestoreState stateData d =
     (case stateData of
        None \<Rightarrow> (Some (DposErrNew ''failed to unmarshal DPoS state''), d)
      | Some st \<Rightarrow>
          (case restore_validators (ds_Validators st) Map.empty 0 of
             Inl e \<Rightarrow> (Some e, d)
           | Inr (newVals, tot) \<Rightarrow>
               let d1 = d\<lparr>dp_validators := newVals, dp_lastBlockHeight := ds_LastBlockHeight st,
                          dp_epochDuration := ds_EpochDuration st, dp_currentEpoch := ds_CurrentEpoch st,
                          dp_maxSetSize := ds_MaxSetSize st\<rparr> in
               case restore_active (ds_ActiveValidators st) newVals [] 0 of
                 (Some e, vals, _, _) \<Rightarrow>
                   (Some e, d1\<lparr>dp_validators := vals,
                               dp_activeValidators := map (\<lambda>x. Detached (active_obj d x)) (dp_activeValidators d)\<rparr>)
               | (None, vals, actives, activeTotal) \<Rightarrow>
                   (None, d1\<lparr>dp_validators := vals, dp_activeValidators := actives, dp_totalStake := tot,
                             dp_activeTotalStake := activeTotal\<rparr>)))"

section \<open>Accounting of stakes\<close>

definition stake_sum :: "(hash32 \<rightharpoonup> Validator) \<Rightarrow> hash32 set \<Rightarrow> uint64" where
  "stake_sum m A = (\<Sum>i \<in> A. v_Stake (the (m i)))"

text \<open>What holds between any two operations: every validator is stored under its own ID, the totals are
  the sums of the stakes, and the active list names, without repetition, exactly the validators
  marked active, as many as the set size allows.\<close>

definition registry_ok :: "DPoS \<Rightarrow> bool" where
  "registry_ok d \<longleftrightarrow>
     finite (dom (dp_validators d)) \<and> (\<forall>i v. dp_validators d i = Some v \<longrightarrow> v_ID v = i) \<and>
     dp_totalStake d = stake_sum (dp_validators d) (dom (dp_validators d))"

definition active_ok :: "DPoS \<Rightarrow> hash32 list \<Rightarrow> bool" where
  "active_ok d ids \<longleftrightarrow>
     dp_activeValidators d = map Live ids \<and> distinct ids \<and> set ids \<subseteq> dom (dp_validators d) \<and>
     (\<forall>i v. dp_validators d i = Some v \<longrightarrow> v_IsActive v = (i \<in> set ids)) \<and>
     int (length ids) = min (int (card (dom (dp_validators d)))) (dp_maxSetSize d) \<and>
     dp_activeTotalStake d = stake_sum (dp_validators d) (set ids)"

definition dpos_inv :: "DPoS \<Rightarrow> bool" where
  "dpos_inv d \<longleftrightarrow> registry_ok d \<and> (\<exists>ids. active_ok d ids)"

lemma stake_sum_cong:
  "(\<And>i. i \<in> A \<Longrightarrow> v_Stake (the (m i)) = v_Stake (the (m' i))) \<Longrightarrow> stake_sum m A = stake_sum m' A"
  by (simp add: stake_sum_def cong: sum.cong)

lemma stake_sum_update:
  assumes "finite A" and "i \<in> A" and "m i = Some v"
  shows "stake_sum (m(i \<mapsto> v')) A = stake_sum m A - v_Stake v + v_Stake v'"
  using sum.remove [OF assms(1,2), of "\<lambda>j. v_Stake (the (m j))"] assms(3)
    sum.remove [OF assms(1,2), of "\<lambda>j. v_Stake (the ((m(i \<mapsto> v')) j))"]
  by (simp add: stake_sum_def)

lemma stake_sum_other: "i \<notin> A \<Longrightarrow> stake_sum (m(i \<mapsto> v')) A = stake_sum m A"
  by (rule stake_sum_cong) auto

lemma updateActive_inv:
  assumes reg: "registry_ok d" and r: "range_order (dp_validators d) srt"
    and u: "DPoS_updateActiveValidators srt d = Some d'"
  shows "dpos_inv d'" and "dp_maxSetSize d' = dp_maxSetSize d" and "dom (dp_validators d') = dom (dp_validators d)"
    and "active_ok d' (take (nat (dp_maxSetSize d)) srt)"
    and "0 \<le> dp_maxSetSize d \<or> srt = []"
proof -
  let ?n = "nat (min (int (length srt)) (dp_maxSetSize d))"
  let ?act = "take ?n srt"
  define vals where "vals = (\<lambda>i. map_option (\<lambda>v. v\<lparr>v_IsActive := i \<in> set ?act\<rparr>) (dp_validators d i))"
  have top: "0 \<le> min (int (length srt)) (dp_maxSetSize d)"
    using u by (auto simp: DPoS_updateActiveValidators_def Let_def min_def split: if_splits)
  have d': "d' = d\<lparr>dp_activeValidators := map Live ?act, dp_validators := vals,
                   dp_activeTotalStake := sum_list (map (\<lambda>i. v_Stake (the (vals i))) ?act)\<rparr>"
    using u top by (auto simp: DPoS_updateActiveValidators_def Let_def vals_def min_def split: if_splits)
  have act: "?act = take (nat (dp_maxSetSize d)) srt"
    using top by (cases "int (length srt) \<le> dp_maxSetSize d") (auto simp: min_def nat_le_iff)
  have dist: "distinct ?act" and srt: "distinct srt" "set srt = dom (dp_validators d)"
    using r by (auto simp: range_order_def)
  have dom: "dom vals = dom (dp_validators d)" by (auto simp: vals_def)
  have stakes: "v_Stake (the (vals i)) = v_Stake (the (dp_validators d i))" if "i \<in> dom (dp_validators d)" for i
    using that by (auto simp: vals_def)
  have "stake_sum vals (dom (dp_validators d)) = stake_sum (dp_validators d) (dom (dp_validators d))"
    using stakes by (rule stake_sum_cong)
  then have reg': "registry_ok d'" using reg by (auto simp: registry_ok_def d' dom) (auto simp: vals_def)
  have len: "int (length ?act) = min (int (card (dom (dp_validators d)))) (dp_maxSetSize d)"
    using top distinct_card [OF srt(1)] srt(2) by simp
  have "sum_list (map (\<lambda>i. v_Stake (the (vals i))) ?act) = stake_sum vals (set ?act)"
    unfolding stake_sum_def using dist by (rule sum_list_distinct_conv_sum_set)
  then show ao: "active_ok d' (take (nat (dp_maxSetSize d)) srt)"
    unfolding act [symmetric] using dist len srt(2)
    by (auto simp: active_ok_def d' dom dest: in_set_takeD) (auto simp: vals_def)
  then show "dpos_inv d'" using reg' by (auto simp: dpos_inv_def)
  show "dp_maxSetSize d' = dp_maxSetSize d" "dom (dp_validators d') = dom (dp_validators d)" by (simp_all add: d' dom)
  show "0 \<le> dp_maxSetSize d \<or> srt = []" using top by (auto simp: min_def split: if_splits)
qed

lemma registry_update:
  assumes "registry_ok d" and "dp_validators d i = Some v" and "v_ID v' = i"
  shows "registry_ok (d\<lparr>dp_validators := (dp_validators d)(i \<mapsto> v'),
           dp_totalStake := dp_totalStake d - v_Stake v + v_Stake v'\<rparr>)"
proof -
  have i: "i \<in> dom (dp_validators d)" using assms(2) by auto
  then have "dom ((dp_validators d)(i \<mapsto> v')) = dom (dp_validators d)" by auto
  then show ?thesis
    using assms stake_sum_update [of "dom (dp_validators d)" i "dp_validators d" v v'] i
    by (auto simp: registry_ok_def)
qed

lemma registry_cong:
  "registry_ok d \<Longrightarrow> dp_validators d' = dp_validators d \<Longrightarrow> dp_totalStake d' = dp_totalStake d \<Longrightarrow> registry_ok d'"
  by (simp add: registry_ok_def)

text \<open>Writes to fields other than ID, stake and activity change nothing in the accounts.\<close>

lemma dpos_inv_map:
  assumes "dpos_inv d" and "\<And>i v. v_ID (f i v) = v_ID v \<and> v_Stake (f i v) = v_Stake v \<and> v_IsActive (f i v) = v_IsActive v"
  shows "dpos_inv (d\<lparr>dp_validators := (\<lambda>i. map_option (f i) (dp_validators d i))\<rparr>)"
proof -
  let ?m = "\<lambda>i. map_option (f i) (dp_validators d i)"
  have dom: "dom ?m = dom (dp_validators d)" by auto
  have s: "A \<subseteq> dom (dp_validators d) \<Longrightarrow> stake_sum ?m A = stake_sum (dp_validators d) A" for A
    by (rule stake_sum_cong) (use assms(2) in auto)
  obtain ids where ids: "active_ok d ids" using assms(1) by (auto simp: dpos_inv_def)
  then have "set ids \<subseteq> dom (dp_validators d)" by (simp add: active_ok_def)
  then have "active_ok (d\<lparr>dp_validators := ?m\<rparr>) ids"
    using ids s [of "set ids"] assms(2) by (simp add: active_ok_def dom) auto
  moreover have "registry_ok (d\<lparr>dp_validators := ?m\<rparr>)"
    using assms s [of "dom (dp_validators d)"] by (simp add: dpos_inv_def registry_ok_def dom) auto
  ultimately show ?thesis by (auto simp: dpos_inv_def)
qed

lemma map_modify_as_map: "map_modify i f m = (\<lambda>j. map_option (if j = i then f else (\<lambda>v. v)) (m j))"
  by (auto simp: map_modify_def fun_eq_iff option.map_ident split: option.splits)

lemma dpos_inv_modify:
  assumes "dpos_inv d" and "\<And>v. v_ID (f v) = v_ID v \<and> v_Stake (f v) = v_Stake v \<and> v_IsActive (f v) = v_IsActive v"
  shows "dpos_inv (d\<lparr>dp_validators := map_modify i f (dp_validators d)\<rparr>)"
  unfolding map_modify_as_map using assms by (intro dpos_inv_map) auto

lemma reward_entry_inv:
  assumes "registry_ok d" and ok: "active_ok d ids" and k: "k < length ids"
  shows "registry_ok (reward_entry R k d) \<and> active_ok (reward_entry R k d) ids"
proof -
  let ?i = "ids ! k"
  obtain v where v: "dp_validators d ?i = Some v" using ok k by (force simp: active_ok_def)
  define reward where "reward = (R * v_Stake v) div dp_activeTotalStake d"
  have e: "dp_activeValidators d ! k = Live ?i" using ok k by (simp add: active_ok_def)
  define m where "m = (dp_validators d)(?i \<mapsto> add_stake reward v)"
  have r: "reward_entry R k d = d\<lparr>dp_validators := m, dp_totalStake := dp_totalStake d + reward,
      dp_activeTotalStake := dp_activeTotalStake d + reward\<rparr>"
    using e v by (simp add: reward_entry_def Let_def active_obj_def reward_def map_modify_def m_def)
  have i: "?i \<in> set ids" "?i \<in> dom (dp_validators d)" using ok k v by (auto simp: active_ok_def)
  then have dom: "dom m = dom (dp_validators d)" by (auto simp: m_def)
  have id: "v_ID (add_stake reward v) = ?i" using assms(1) v by (simp add: registry_ok_def add_stake_def)
  have reg: "registry_ok (reward_entry R k d)"
    by (rule registry_cong [OF registry_update [OF assms(1) v id]]) (simp_all add: r m_def add_stake_def)
  have s: "stake_sum m (set ids) = dp_activeTotalStake d + reward"
    using ok stake_sum_update [of "set ids" ?i "dp_validators d" v "add_stake reward v"] i(1) v
    by (simp add: active_ok_def add_stake_def m_def)
  have "v_IsActive w = (j \<in> set ids)" if "m j = Some w" for j w
    using that ok v i(1) by (cases "j = ?i") (auto simp: active_ok_def add_stake_def m_def)
  then have "active_ok (reward_entry R k d) ids"
    using ok s unfolding active_ok_def r by (simp add: dom)
  then show ?thesis using reg by blast
qed

lemma reward_loop_inv:
  "registry_ok d \<Longrightarrow> active_ok d ids \<Longrightarrow> set ks \<subseteq> {..<length ids} \<Longrightarrow> reward_loop R ks d = Some d' \<Longrightarrow>
   registry_ok d' \<and> active_ok d' ids"
  by (induction R ks d rule: reward_loop.induct) (auto simp: reward_entry_inv split: if_splits)

lemma distributeRewards_inv:
  assumes "dpos_inv d" and "DPoS_distributeRewards d = Some d'"
  shows "dpos_inv d'"
proof -
  obtain ids where ids: "registry_ok d" "active_ok d ids" using assms(1) by (auto simp: dpos_inv_def)
  have len: "length (dp_activeValidators d) = length ids" using ids by (simp add: active_ok_def)
  have "set [0..<length ids] \<subseteq> {..<length ids}" by auto
  from reward_loop_inv [OF ids this] show ?thesis
    using assms by (auto simp: DPoS_distributeRewards_def dpos_inv_def len split: if_splits)
qed

lemma slash_loop_inv:
  assumes "registry_ok d" and "distinct order" and "set order \<subseteq> dom (dp_validators d)"
    and "slash_loop nows order b d = (b', d')"
  shows "registry_ok d' \<and> dom (dp_validators d') = dom (dp_validators d) \<and> dp_maxSetSize d' = dp_maxSetSize d \<and>
         (\<forall>i v. dp_validators d i = Some v \<longrightarrow> (\<exists>v'. dp_validators d' i = Some v' \<and> v_Stake v' \<le> v_Stake v \<and>
            (i \<notin> set order \<longrightarrow> v' = v) \<and> (i \<in> set order \<longrightarrow> v_MisbehaviorCount v' = 0) \<and>
            (v_MisbehaviorCount v = 0 \<longrightarrow> v' = v)))"
  using assms
proof (induction order arbitrary: b d)
  case (Cons i order)
  obtain val where val: "dp_validators d i = Some val" using Cons.prems(3) by auto
  define p0 where "p0 = calculatePenalty (v_Stake val) (v_MisbehaviorCount val)"
  define p where "p = (if p0 > v_Stake val then v_Stake val else p0)"
  show ?case
  proof (cases "v_MisbehaviorCount val > 0")
    case True
    define v1 where "v1 = val\<lparr>v_Stake := v_Stake val - p, v_MisbehaviorCount := 0\<rparr>"
    define d1 where "d1 = d\<lparr>dp_validators := (dp_validators d)(i \<mapsto> v1), dp_totalStake := dp_totalStake d - p,
        dp_activeTotalStake := (if v_IsActive val then dp_activeTotalStake d - p else dp_activeTotalStake d),
        dp_slashLog := dp_slashLog d @ [\<lparr>se_ValidatorID = v_ID val, se_Amount = p, se_Reason = ''Misbehavior'', se_Timestamp = nows i\<rparr>]\<rparr>"
    have dom: "dom (dp_validators d1) = dom (dp_validators d)" using val by (auto simp: d1_def)
    have "v_ID v1 = i" using Cons.prems(1) val by (simp add: registry_ok_def v1_def)
    from registry_update [OF Cons.prems(1) val this] have reg: "registry_ok d1"
      by (rule registry_cong) (simp_all add: d1_def v1_def)
    have le: "v_Stake v1 \<le> v_Stake val" by (auto simp: v1_def p_def not_less intro: word_sub_le)
    have step: "slash_loop nows (i # order) b d = slash_loop nows order (b \<or> p > 0) d1"
      using True val by (simp add: Let_def p0_def p_def d1_def v1_def)
    note IH = Cons.IH [OF reg, of "b \<or> p > 0", folded step]
    have IH': "registry_ok d' \<and> dom (dp_validators d') = dom (dp_validators d1) \<and> dp_maxSetSize d' = dp_maxSetSize d1 \<and>
         (\<forall>j v. dp_validators d1 j = Some v \<longrightarrow> (\<exists>v'. dp_validators d' j = Some v' \<and> v_Stake v' \<le> v_Stake v \<and>
            (j \<notin> set order \<longrightarrow> v' = v) \<and> (j \<in> set order \<longrightarrow> v_MisbehaviorCount v' = 0) \<and>
            (v_MisbehaviorCount v = 0 \<longrightarrow> v' = v)))"
      using Cons.prems dom by (intro IH) auto
    have "dp_validators d1 i = Some v1" and "v_MisbehaviorCount v1 = 0" by (simp_all add: d1_def v1_def)
    then have at_i: "dp_validators d' i = Some v1" using IH' by blast
    have "\<exists>v'. dp_validators d' j = Some v' \<and> v_Stake v' \<le> v_Stake v \<and> (j \<notin> set (i # order) \<longrightarrow> v' = v) \<and>
        (j \<in> set (i # order) \<longrightarrow> v_MisbehaviorCount v' = 0) \<and> (v_MisbehaviorCount v = 0 \<longrightarrow> v' = v)"
      if v: "dp_validators d j = Some v" for j v
    proof (cases "j = i")
      case True
      then have "v = val" using v val by simp
      then show ?thesis using at_i le \<open>v_MisbehaviorCount val > 0\<close> True by (simp add: v1_def)
    next
      case False
      then have "dp_validators d1 j = Some v" using v by (simp add: d1_def)
      then show ?thesis using IH' False by auto
    qed
    then show ?thesis using IH' dom by (simp add: d1_def)
  next
    case False
    then have z: "v_MisbehaviorCount val = 0" by (simp add: word_neq_0_conv [symmetric])
    have step: "slash_loop nows (i # order) b d = slash_loop nows order b d"
      using False val by (simp add: Let_def)
    have IH: "registry_ok d' \<and> dom (dp_validators d') = dom (dp_validators d) \<and> dp_maxSetSize d' = dp_maxSetSize d \<and>
         (\<forall>j v. dp_validators d j = Some v \<longrightarrow> (\<exists>v'. dp_validators d' j = Some v' \<and> v_Stake v' \<le> v_Stake v \<and>
            (j \<notin> set order \<longrightarrow> v' = v) \<and> (j \<in> set order \<longrightarrow> v_MisbehaviorCount v' = 0) \<and>
            (v_MisbehaviorCount v = 0 \<longrightarrow> v' = v)))"
      using Cons.prems step by (intro Cons.IH [of d b]) auto
    then show ?thesis using z val by (metis (no_types, lifting) option.inject set_ConsD list.set_intros(2))
  qed
qed auto

section \<open>Restoring a saved state\<close>

lemma decode_id_inverse: "decode_id what (byteArrayToString i) = Inr i"
  by (simp add: decode_id_def byteArrayToString_def hex_decode_encode of_be_bytes_hash_bytes)

text \<open>What a save and a restore keep of a validator before the active flags are set again.\<close>

definition restored :: "Validator \<Rightarrow> Validator" where
  "restored v = v\<lparr>v_LastUpdateTime := unix (v_LastUpdateTime v) * second\<rparr>"

lemma restore_validators_saved:
  assumes "\<And>i. i \<in> set order \<Longrightarrow> \<exists>v. m i = Some v \<and> v_ID v = i" and "distinct order"
  shows "restore_validators (map (\<lambda>i. (byteArrayToString i,
       \<lparr>sv_ID = byteArrayToString (v_ID (the (m i))), sv_Stake = v_Stake (the (m i)), sv_Performance = v_Performance (the (m i)),
        sv_LastUpdateTime = unix (v_LastUpdateTime (the (m i))), sv_BlocksProduced = v_BlocksProduced (the (m i)),
        sv_MisbehaviorCount = v_MisbehaviorCount (the (m i))\<rparr>)) order) n t =
     Inr (\<lambda>i. if i \<in> set order then map_option (\<lambda>v. (restored v)\<lparr>v_IsActive := False\<rparr>) (m i) else n i,
          t + (\<Sum>i\<leftarrow>order. v_Stake (the (m i))))"
  using assms
proof (induction order arbitrary: n t)
  case (Cons i order)
  have "\<exists>v. m i = Some v \<and> v_ID v = i" by (rule Cons.prems(1)) simp
  then obtain v where v: "m i = Some v" "v_ID v = i" by blast
  have IH: "restore_validators (map (\<lambda>i. (byteArrayToString i,
       \<lparr>sv_ID = byteArrayToString (v_ID (the (m i))), sv_Stake = v_Stake (the (m i)), sv_Performance = v_Performance (the (m i)),
        sv_LastUpdateTime = unix (v_LastUpdateTime (the (m i))), sv_BlocksProduced = v_BlocksProduced (the (m i)),
        sv_MisbehaviorCount = v_MisbehaviorCount (the (m i))\<rparr>)) order) n t =
     Inr (\<lambda>i. if i \<in> set order then map_option (\<lambda>v. (restored v)\<lparr>v_IsActive := False\<rparr>) (m i) else n i,
          t + (\<Sum>i\<leftarrow>order. v_Stake (the (m i))))" for n t
    using Cons.prems by (intro Cons.IH) auto
  have i: "i \<notin> set order" using Cons.prems(2) by simp
  show ?case
    by (simp add: decode_id_inverse IH add.assoc v) (use v i in \<open>auto simp: fun_eq_iff restored_def\<close>)
qed simp

lemma restore_active_saved:
  assumes "set ids \<subseteq> dom n" and "distinct ids"
  shows "restore_active (map byteArrayToString ids) n acts t =
     (None, \<lambda>i. if i \<in> set ids then map_option (\<lambda>v. v\<lparr>v_IsActive := True\<rparr>) (n i) else n i, acts @ map Live ids,
      t + (\<Sum>i\<leftarrow>ids. v_Stake (the (n i))))"
  using assms
proof (induction ids arbitrary: n acts t)
  case (Cons i ids)
  then obtain v where v: "n i = Some v" by auto
  let ?n = "n(i \<mapsto> v\<lparr>v_IsActive := True\<rparr>)"
  have "set ids \<subseteq> dom ?n" "distinct ids" "i \<notin> set ids" using Cons.prems by auto
  moreover from this(3) have "(\<Sum>j\<leftarrow>ids. v_Stake (the (?n j))) = (\<Sum>j\<leftarrow>ids. v_Stake (the (n j)))"
    by (auto intro!: arg_cong [where f = sum_list])
  ultimately have "restore_active (map byteArrayToString ids) ?n (acts @ [Live i]) (t + v_Stake v) =
      (None, \<lambda>j. if j \<in> set ids then map_option (\<lambda>v. v\<lparr>v_IsActive := True\<rparr>) (?n j) else ?n j,
       (acts @ [Live i]) @ map Live ids, (t + v_Stake v) + (\<Sum>j\<leftarrow>ids. v_Stake (the (n j))))"
    using Cons.IH [of ?n "acts @ [Live i]" "t + v_Stake v"] by (simp only:)
  moreover have "(\<lambda>j. if j \<in> set ids then map_option (\<lambda>v. v\<lparr>v_IsActive := True\<rparr>) (?n j) else ?n j) =
      (\<lambda>j. if j \<in> set (i # ids) then map_option (\<lambda>v. v\<lparr>v_IsActive := True\<rparr>) (n j) else n j)"
    using v by (auto simp: fun_eq_iff)
  ultimately show ?case using v by (simp add: decode_id_inverse add.assoc)
qed simp

lemma dpos_restore_saved:
  assumes r: "dpos_inv d" and o: "range_order (dp_validators d) order" and g: "DPoS_GetState order d = Inr st"
  shows "DPoS_RestoreState (Some st) d0 =
     (None, d\<lparr>dp_validators := map_option restored \<circ> dp_validators d, dp_slashLog := dp_slashLog d0\<rparr>)"
proof -
  obtain ids where ok: "registry_ok d" "active_ok d ids" using r by (auto simp: dpos_inv_def)
  let ?m = "dp_validators d"
  have ids: "set ids \<subseteq> dom ?m" "distinct ids" "dp_activeValidators d = map Live ids"
    and flag: "\<And>i v. ?m i = Some v \<Longrightarrow> v_IsActive v = (i \<in> set ids)" using ok(2) by (auto simp: active_ok_def)
  have id: "\<exists>v. ?m i = Some v \<and> v_ID v = i" if "i \<in> dom ?m" for i using that ok(1) by (auto simp: registry_ok_def)
  have ord: "distinct order" "set order = dom ?m" using o by (auto simp: range_order_def)
  let ?n = "\<lambda>i. if i \<in> set order then map_option (\<lambda>v. (restored v)\<lparr>v_IsActive := False\<rparr>) (?m i) else None"
  have val: "restore_validators (ds_Validators st) Map.empty 0 = Inr (?n, \<Sum>i\<leftarrow>order. v_Stake (the (?m i)))"
    using g restore_validators_saved [of order ?m Map.empty 0] id ord
    by (auto simp: DPoS_GetState_def Let_def split: if_splits)
  have "map (\<lambda>e. byteArrayToString (v_ID (active_obj d e))) (map Live ids) = map byteArrayToString ids"
    using ids(1) id by (force simp: active_obj_def)
  then have "ds_ActiveValidators st = map byteArrayToString ids"
    using g ids(3) by (auto simp: DPoS_GetState_def Let_def split: if_splits)
  moreover have "set ids \<subseteq> dom ?n" using ids(1) ord(2) by (auto simp: dom_def)
  ultimately have act: "restore_active (ds_ActiveValidators st) ?n [] 0 =
      (None, \<lambda>i. if i \<in> set ids then map_option (\<lambda>v. v\<lparr>v_IsActive := True\<rparr>) (?n i) else ?n i, map Live ids,
       \<Sum>i\<leftarrow>ids. v_Stake (the (?n i)))"
    using restore_active_saved [of ids ?n "[]" 0] ids(2) by simp
  have "(\<lambda>i. if i \<in> set ids then map_option (\<lambda>v. v\<lparr>v_IsActive := True\<rparr>) (?n i) else ?n i) = map_option restored \<circ> ?m"
    using flag ord(2) ids(1) by (fastforce simp: fun_eq_iff restored_def dom_def split: option.splits)
  moreover have "(\<Sum>i\<leftarrow>order. v_Stake (the (?m i))) = dp_totalStake d"
    using ok(1) range_order_sum_list [OF o] by (simp add: registry_ok_def stake_sum_def)
  moreover have "(\<Sum>i\<leftarrow>ids. v_Stake (the (?n i))) = (\<Sum>i\<leftarrow>ids. v_Stake (the (?m i)))"
    using ids(1) ord(2) by (intro arg_cong [where f = sum_list] map_cong) (auto simp: restored_def)
  moreover have "\<dots> = dp_activeTotalStake d"
    using ok(2) sum_list_distinct_conv_sum_set [OF ids(2)] by (simp add: active_ok_def stake_sum_def)
  ultimately show ?thesis
    using val act g ids(3) by (auto simp: DPoS_RestoreState_def DPoS_GetState_def Let_def split: if_splits)
qed

section \<open>Every state the operations reach\<close>

inductive dpos_step :: "DPoS \<Rightarrow> DPoS \<Rightarrow> bool" where
  add: "range_order (if i \<in> dom (dp_validators d) then dp_validators d else (dp_validators d)(i \<mapsto> v)) srt \<Longrightarrow>
        DPoS_AddValidator now srt i stake d = Some d' \<Longrightarrow> dpos_step d d'"
| stake: "range_order (dp_validators d) srt \<Longrightarrow> DPoS_UpdateStake srt i newStake d = Some d' \<Longrightarrow> dpos_step d d'"
| epoch: "range_order (dp_validators d) order \<Longrightarrow> range_order (dp_validators d) srt \<Longrightarrow>
        DPoS_ProcessEpoch pow nows now order srt blockNumber d = Some (e, d') \<Longrightarrow> dpos_step d d'"
| reward: "dpos_step d (DPoS_RewardValidator now i d)"
| set_size: "range_order (dp_validators d) srt \<Longrightarrow> DPoS_SetSetSize srt n d = Some d' \<Longrightarrow> dpos_step d d'"
| set_epoch: "dpos_step d (DPoS_SetEpochDuration duration d)"
| misbehave: "dpos_step d (DPoS_InjectMisbehaviorCount i count d)"
| touch: "dpos_step d (DPoS_InjectLastUpdateTime i t d)"

text \<open>An instance may be restored from the state that any instance with such a history has saved, or from data that cannot be read. The theorems below do not speak
  of a state that was put together otherwise: \<open>RestoreState\<close> believes what it says of the validators and of the active list.\<close>

inductive dpos_reachable :: "DPoS \<Rightarrow> bool" where
  init: "0 \<le> n \<Longrightarrow> dpos_reachable (NewDPoS n epochDuration)"
| step: "dpos_reachable d \<Longrightarrow> dpos_step d d' \<Longrightarrow> dpos_reachable d'"
| restore: "dpos_reachable d \<Longrightarrow> dpos_reachable d0 \<Longrightarrow> range_order (dp_validators d0) order \<Longrightarrow> DPoS_GetState order d0 = Inr st \<Longrightarrow>
        DPoS_RestoreState (Some st) d = (e, d') \<Longrightarrow> dpos_reachable d'"
| unreadable: "dpos_reachable d \<Longrightarrow> DPoS_RestoreState None d = (e, d') \<Longrightarrow> dpos_reachable d'"

lemma registry_add:
  assumes "registry_ok d" and "dp_validators d i = None" and "v_ID v = i"
  shows "registry_ok (d\<lparr>dp_validators := (dp_validators d)(i \<mapsto> v), dp_totalStake := dp_totalStake d + v_Stake v\<rparr>)"
proof -
  have i: "i \<notin> dom (dp_validators d)" using assms(2) by auto
  have "stake_sum ((dp_validators d)(i \<mapsto> v)) (insert i (dom (dp_validators d)))
      = v_Stake v + stake_sum ((dp_validators d)(i \<mapsto> v)) (dom (dp_validators d))"
    using assms(1) i by (simp add: stake_sum_def registry_ok_def)
  then show ?thesis using assms i by (auto simp: registry_ok_def stake_sum_other)
qed

lemma dpos_inv_frame:
  "dpos_inv d \<Longrightarrow> dpos_inv (d\<lparr>dp_epochDuration := e\<rparr>)"
  "dpos_inv d \<Longrightarrow> dpos_inv (d\<lparr>dp_currentEpoch := e\<rparr>)"
  "dpos_inv d \<Longrightarrow> dpos_inv (d\<lparr>dp_slashLog := entries\<rparr>)"
  by (simp_all add: dpos_inv_def registry_ok_def active_ok_def)

text \<open>The stages of an epoch that is processed.\<close>

lemma ProcessEpoch_stages:
  assumes e: "DPoS_ProcessEpoch pow nows now order srt blockNumber d = Some (err, d')"
    and b: "dp_epochDuration d \<noteq> 0" "blockNumber mod dp_epochDuration d = 0"
  obtains slashedAny d2 d3 d4 where
    "slash_loop nows order False (d\<lparr>dp_currentEpoch := dp_currentEpoch d + 1\<rparr>) = (slashedAny, d2)"
    and "DPoS_updateActiveValidators srt d2 = Some d3"
    and "(if slashedAny then Some d3 else DPoS_distributeRewards d3) = Some d4"
    and "d' = DPoS_transitionToNextEpoch (DPoS_updatePerformance pow now d4)" and "err = None"
  using assms
  by (auto simp: DPoS_ProcessEpoch_def DPoS_handleSlashingAndPenalties_def Let_def
      split: prod.splits option.splits if_splits)

lemma ProcessEpoch_idle:
  "DPoS_ProcessEpoch pow nows now order srt blockNumber d = Some (e, d') \<Longrightarrow>
   dp_epochDuration d = 0 \<or> blockNumber mod dp_epochDuration d \<noteq> 0 \<Longrightarrow> d' = d"
  by (auto simp: DPoS_ProcessEpoch_def split: if_splits)

lemma decay_frame [frame_simps]:
  "v_ID (decay pow now v) = v_ID v" "v_Stake (decay pow now v) = v_Stake v"
  "v_IsActive (decay pow now v) = v_IsActive v" "v_MisbehaviorCount (decay pow now v) = v_MisbehaviorCount v"
  by (simp_all add: decay_def Let_def)

lemma epoch_inv:
  assumes inv: "dpos_inv d" and o: "range_order (dp_validators d) order" and s: "range_order (dp_validators d) srt"
    and e: "DPoS_ProcessEpoch pow nows now order srt blockNumber d = Some (err, d')"
  shows "dpos_inv d'"
proof (cases "dp_epochDuration d \<noteq> 0 \<and> blockNumber mod dp_epochDuration d = 0")
  case True
  let ?d1 = "d\<lparr>dp_currentEpoch := dp_currentEpoch d + 1\<rparr>"
  from True have b: "dp_epochDuration d \<noteq> 0" "blockNumber mod dp_epochDuration d = 0" by auto
  from e b obtain slashedAny d2 d3 d4 where
      sl: "slash_loop nows order False ?d1 = (slashedAny, d2)"
    and up: "DPoS_updateActiveValidators srt d2 = Some d3"
    and di: "(if slashedAny then Some d3 else DPoS_distributeRewards d3) = Some d4"
    and d': "d' = DPoS_transitionToNextEpoch (DPoS_updatePerformance pow now d4)"
    by (rule ProcessEpoch_stages)
  have "registry_ok ?d1" using inv by (simp add: dpos_inv_def registry_ok_def)
  from slash_loop_inv [OF this _ _ sl] o have d2: "registry_ok d2" "dom (dp_validators d2) = dom (dp_validators d)"
    by (auto simp: range_order_def)
  have "range_order (dp_validators d2) srt" using s d2(2) by (simp add: range_order_def)
  from updateActive_inv(1) [OF d2(1) this up] have "dpos_inv d3" .
  then have "dpos_inv d4" using di distributeRewards_inv by (auto split: if_splits)
  then have "dpos_inv (DPoS_updatePerformance pow now d4)"
    unfolding DPoS_updatePerformance_def by (rule dpos_inv_map) (simp add: frame_simps)
  then show ?thesis unfolding d' DPoS_transitionToNextEpoch_def by (rule dpos_inv_map) simp
next
  case False
  then show ?thesis using ProcessEpoch_idle [OF e] inv by auto
qed

lemma dpos_step_inv: "dpos_step d d' \<Longrightarrow> dpos_inv d \<Longrightarrow> dpos_inv d'"
proof (induction rule: dpos_step.induct)
  case (add i d v srt now stake d')
  define d1 where "d1 = (case dp_validators d i of
          None \<Rightarrow> d\<lparr>dp_validators := (dp_validators d)(i \<mapsto>
                      \<lparr>v_ID = i, v_Stake = stake, v_Performance = f64_1, v_LastUpdateTime = now, v_BlocksProduced = 0,
                       v_MisbehaviorCount = 0, v_IsActive = False\<rparr>),
                    dp_totalStake := dp_totalStake d + stake\<rparr>
        | Some _ \<Rightarrow> d)"
  let ?v = "\<lparr>v_ID = i, v_Stake = stake, v_Performance = f64_1, v_LastUpdateTime = now, v_BlocksProduced = 0,
      v_MisbehaviorCount = 0, v_IsActive = False\<rparr>"
  have u: "DPoS_updateActiveValidators srt d1 = Some d'"
    using add.hyps(2) by (simp add: DPoS_AddValidator_def d1_def)
  have "registry_ok d" using add.prems by (simp add: dpos_inv_def)
  then have "registry_ok d1"
    using registry_add [of d i ?v] by (auto simp: d1_def split: option.splits)
  moreover have "range_order (dp_validators d1) srt"
    using add.hyps(1) by (auto simp: d1_def range_order_def dom_def split: option.splits if_splits)
  ultimately show ?case using u by (rule updateActive_inv(1))
next
  case (stake d srt i newStake d')
  show ?case
  proof (cases "dp_validators d i")
    case (Some val)
    let ?d1 = "d\<lparr>dp_totalStake := dp_totalStake d - v_Stake val + newStake,
                 dp_validators := (dp_validators d)(i \<mapsto> val\<lparr>v_Stake := newStake\<rparr>)\<rparr>"
    have reg: "registry_ok d" using stake.prems by (simp add: dpos_inv_def)
    then have id: "v_ID (val\<lparr>v_Stake := newStake\<rparr>) = i" using Some by (simp add: registry_ok_def)
    have "registry_ok ?d1" by (rule registry_cong [OF registry_update [OF reg Some id]]) simp_all
    moreover have "range_order (dp_validators ?d1) srt"
      using stake.hyps(1) Some by (auto simp: range_order_def)
    moreover have "DPoS_updateActiveValidators srt ?d1 = Some d'"
      using stake.hyps(2) Some by (simp add: DPoS_UpdateStake_def)
    ultimately show ?thesis by (rule updateActive_inv(1))
  next
    case None
    then show ?thesis using stake by (simp add: DPoS_UpdateStake_def)
  qed
next
  case (epoch d order srt pow nows now blockNumber e d')
  show ?case by (rule epoch_inv [OF epoch.prems epoch.hyps])
next
  case (set_size d srt n d')
  have "registry_ok (d\<lparr>dp_maxSetSize := n\<rparr>)" using set_size.prems by (simp add: dpos_inv_def registry_ok_def)
  then show ?case
    using set_size.hyps by (intro updateActive_inv(1) [of "d\<lparr>dp_maxSetSize := n\<rparr>" srt]) (simp_all add: DPoS_SetSetSize_def)
next
  case (set_epoch d duration)
  then show ?case by (simp add: DPoS_SetEpochDuration_def dpos_inv_frame)
qed (simp_all add: dpos_inv_modify DPoS_RewardValidator_def DPoS_InjectMisbehaviorCount_def DPoS_InjectLastUpdateTime_def)

lemma reachable_inv: "dpos_reachable d \<Longrightarrow> dpos_inv d"
proof (induction rule: dpos_reachable.induct)
  case (init n epochDuration)
  then have "active_ok (NewDPoS n epochDuration) []" by (simp add: active_ok_def NewDPoS_def stake_sum_def)
  then show ?case by (auto simp: dpos_inv_def registry_ok_def NewDPoS_def stake_sum_def)
next
  case (step d d')
  then show ?case using dpos_step_inv by blast
next
  case (restore d d0 order st e d')
  have "dpos_inv (d0\<lparr>dp_validators := (\<lambda>i. map_option restored (dp_validators d0 i))\<rparr>)"
    using restore.IH(2) by (rule dpos_inv_map) (simp add: restored_def)
  then have "dpos_inv (d0\<lparr>dp_validators := (\<lambda>i. map_option restored (dp_validators d0 i)), dp_slashLog := dp_slashLog d\<rparr>)"
    by (rule dpos_inv_frame(3))
  moreover have "d' = d0\<lparr>dp_validators := map_option restored \<circ> dp_validators d0, dp_slashLog := dp_slashLog d\<rparr>"
    using dpos_restore_saved [OF restore.IH(2) restore.hyps(3,4), of d] restore.hyps(5) by simp
  ultimately show ?case by (simp only: comp_def)
next
  case (unreadable d e d')
  then show ?case by (simp add: DPoS_RestoreState_def)
qed

section \<open>Who is active, who is chosen, what an epoch pays\<close>

lemma active_ids: "active_ok d ids \<Longrightarrow> set ids = {i. DPoS_IsActiveValidator i d}"
  by (auto simp: active_ok_def DPoS_IsActiveValidator_def split: option.splits)

text \<open>C3: In every state the operations reach, starting from a non-negative set size, restores of a state that such an instance has saved included, the total stake is the
  sum (modulo 2^64) of the stakes of all validators, the active total that of the validators marked
  active, every validator is stored under its own ID, and the active list names without repetition the
  validators marked active, as many as the set size allows.\<close>

theorem dpos_accounting:
  assumes "dpos_reachable d"
  shows "dp_totalStake d = stake_sum (dp_validators d) (dom (dp_validators d)) \<and>
    dp_activeTotalStake d = stake_sum (dp_validators d) {i. DPoS_IsActiveValidator i d} \<and>
    (\<exists>ids. dp_activeValidators d = map Live ids \<and> distinct ids \<and> set ids = {i. DPoS_IsActiveValidator i d} \<and>
           int (length ids) = min (int (card (dom (dp_validators d)))) (dp_maxSetSize d)) \<and>
    (\<forall>i v. dp_validators d i = Some v \<longrightarrow> v_ID v = i)"
proof -
  obtain ids where ok: "registry_ok d" "active_ok d ids"
    using reachable_inv [OF assms] by (auto simp: dpos_inv_def)
  with active_ids [OF ok(2)] have "dp_activeTotalStake d = stake_sum (dp_validators d) {i. DPoS_IsActiveValidator i d}"
      "\<exists>ids. dp_activeValidators d = map Live ids \<and> distinct ids \<and> set ids = {i. DPoS_IsActiveValidator i d} \<and>
         int (length ids) = min (int (card (dom (dp_validators d)))) (dp_maxSetSize d)"
    by (auto simp: active_ok_def)
  with ok(1) show ?thesis unfolding registry_ok_def by blast
qed

definition v_example :: "hash32 \<Rightarrow> uint64 \<Rightarrow> bool \<Rightarrow> Validator" where
  "v_example i s b = \<lparr>v_ID = i, v_Stake = s, v_Performance = f64_1, v_LastUpdateTime = 0, v_BlocksProduced = 0,
     v_MisbehaviorCount = 0, v_IsActive = b\<rparr>"

definition dpos_example :: DPoS where
  "dpos_example = \<lparr>dp_validators = [7 \<mapsto> v_example 7 50 True], dp_activeValidators = [Live 7], dp_totalStake = 50,
     dp_activeTotalStake = 50, dp_lastBlockHeight = 0, dp_epochDuration = 5, dp_currentEpoch = 0, dp_maxSetSize = 3,
     dp_slashLog = []\<rparr>"

lemma dpos_example_add: "DPoS_AddValidator 0 [7] 7 50 (NewDPoS 3 5) = Some dpos_example"
  by (auto simp: DPoS_AddValidator_def NewDPoS_def DPoS_updateActiveValidators_def dpos_example_def v_example_def Let_def fun_eq_iff)

lemma dpos_example_reachable: "dpos_reachable dpos_example"
proof (rule dpos_reachable.step)
  show "dpos_reachable (NewDPoS 3 5)" by (rule dpos_reachable.init) simp
  show "dpos_step (NewDPoS 3 5) dpos_example"
    by (rule dpos_step.add [OF _ dpos_example_add]) (simp add: range_order_def NewDPoS_def)
qed

theorem dpos_accounting_witness:
  "dpos_reachable dpos_example \<and> dp_totalStake dpos_example = stake_sum (dp_validators dpos_example) (dom (dp_validators dpos_example))"
  using dpos_accounting [OF dpos_example_reachable] dpos_example_reachable by simp

text \<open>After the active set is rebuilt, no validator that was left out has a strictly higher score (stake
  times performance) than one that was taken in.\<close>

theorem active_set_is_top:
  assumes srt: "sort_outcome d srt" and u: "DPoS_updateActiveValidators srt d = Some d'"
    and a: "DPoS_IsActiveValidator i d'" and b: "dp_validators d' j = Some vj" "\<not> v_IsActive vj"
  shows "\<not> f64_lt (score (the (dp_validators d' i))) (score vj)"
proof -
  let ?n = "nat (min (int (length srt)) (dp_maxSetSize d))"
  let ?act = "take ?n srt"
  have top: "0 \<le> min (int (length srt)) (dp_maxSetSize d)"
    using u by (auto simp: DPoS_updateActiveValidators_def Let_def min_def split: if_splits)
  have v': "dp_validators d' = (\<lambda>i. map_option (\<lambda>v. v\<lparr>v_IsActive := i \<in> set ?act\<rparr>) (dp_validators d i))"
    using u top by (auto simp: DPoS_updateActiveValidators_def Let_def min_def split: if_splits)
  obtain w where w: "dp_validators d j = Some w" "vj = w\<lparr>v_IsActive := j \<in> set ?act\<rparr>" using b(1) by (auto simp: v')
  obtain u' where u': "dp_validators d i = Some u'" "i \<in> set ?act"
    using a by (auto simp: DPoS_IsActiveValidator_def v' split: option.splits)
  have "j \<in> set srt" "j \<notin> set ?act" using w b(2) srt by (auto simp: sort_outcome_def range_order_def)
  then have "j \<in> set (drop ?n srt)" by (metis Un_iff append_take_drop_id set_append)
  moreover have "sorted_wrt (\<lambda>i j. \<not> f64_lt (score (the (dp_validators d i))) (score (the (dp_validators d j)))) (?act @ drop ?n srt)"
    using srt by (simp add: sort_outcome_def)
  ultimately have "\<not> f64_lt (score (the (dp_validators d i))) (score (the (dp_validators d j)))"
    using u'(2) unfolding sorted_wrt_append by blast
  then show ?thesis using w u'(1) by (simp add: v' score_def)
qed

definition dpos_pair :: DPoS where
  "dpos_pair = dpos_example\<lparr>dp_validators := [7 \<mapsto> v_example 7 50 True, 8 \<mapsto> v_example 8 90 False], dp_maxSetSize := 1\<rparr>"

theorem active_set_is_top_witness:
  "case DPoS_updateActiveValidators [8, 7] dpos_pair of
     None \<Rightarrow> False
   | Some d' \<Rightarrow> DPoS_IsActiveValidator 8 d' \<and> \<not> DPoS_IsActiveValidator 7 d' \<and>
       \<not> f64_lt (score (the (dp_validators d' 8))) (score (the (dp_validators d' 7)))"
proof -
  have "score (v_example 8 90 False) = Fin 90" "score (v_example 7 50 True) = Fin 50"
    using rnd_int [of 90] rnd_int [of 50] by (simp_all add: score_def v_example_def f64_of_int_def)
  then have 1: "sort_outcome dpos_pair [8, 7]"
    by (auto simp: sort_outcome_def range_order_def dpos_pair_def)
  obtain d' where d': "DPoS_updateActiveValidators [8, 7] dpos_pair = Some d'"
    by (simp add: DPoS_updateActiveValidators_def dpos_pair_def Let_def)
  have 8: "DPoS_IsActiveValidator 8 d'" and 7: "dp_validators d' 7 = Some (v_example 7 50 False)"
    using d' by (auto simp: DPoS_updateActiveValidators_def dpos_pair_def dpos_example_def v_example_def DPoS_IsActiveValidator_def Let_def)
  then show ?thesis
    using active_set_is_top [OF 1 d' 8 7] d' by (simp add: v_example_def DPoS_IsActiveValidator_def)
qed

text \<open>While there is an active validator, the next block producer exists and is one of them, with its
  current stake; without one there is none.\<close>

theorem next_validator_active:
  assumes "dpos_reachable d" and "length (dp_activeValidators d) < 2 ^ 64"
  shows "case DPoS_GetNextValidator n h d of
           None \<Rightarrow> \<forall>i. \<not> DPoS_IsActiveValidator i d
         | Some (i, s) \<Rightarrow> DPoS_IsActiveValidator i d \<and> map_option v_Stake (dp_validators d i) = Some s"
proof -
  obtain ids where ok: "registry_ok d" "active_ok d ids"
    using reachable_inv [OF assms(1)] by (auto simp: dpos_inv_def)
  have act: "DPoS_IsActiveValidator i d \<longleftrightarrow> i \<in> set ids" for i using active_ids [OF ok(2)] by auto
  have len: "length (dp_activeValidators d) = length ids" using ok(2) by (simp add: active_ok_def)
  define k where "k = unat ((of_be_bytes (take 8 (hash_bytes (sha256 (hash_bytes h @ uint64ToBytes n)))) :: uint64)
      mod word_of_nat (length ids))"
  show ?thesis
  proof (cases "ids = []")
    case True
    then show ?thesis by (simp add: DPoS_GetNextValidator_def len act)
  next
    case False
    have "k < length ids"
      using assms(2) False by (simp add: k_def len unat_mod unsigned_of_nat take_bit_nat_eq_self)
    then have m: "ids ! k \<in> set ids" and e: "dp_activeValidators d ! k = Live (ids ! k)"
      using ok(2) by (simp_all add: active_ok_def)
    obtain v where v: "dp_validators d (ids ! k) = Some v" using m ok(2) by (force simp: active_ok_def)
    have "DPoS_GetNextValidator n h d = Some (v_ID v, v_Stake v)"
      using False e v by (simp add: DPoS_GetNextValidator_def Let_def len k_def [symmetric] active_obj_def)
    moreover have "v_ID v = ids ! k" using ok(1) v by (simp add: registry_ok_def)
    ultimately show ?thesis using m v by (simp add: act)
  qed
qed

theorem next_validator_active_witness:
  "case DPoS_GetNextValidator 9 0 dpos_example of
     None \<Rightarrow> \<forall>i. \<not> DPoS_IsActiveValidator i dpos_example
   | Some (i, s) \<Rightarrow> DPoS_IsActiveValidator i dpos_example \<and> map_option v_Stake (dp_validators dpos_example i) = Some s"
  by (rule next_validator_active [OF dpos_example_reachable]) (simp add: dpos_example_def)

subsection \<open>Slashing\<close>

text \<open>What the slashing of one validator takes.\<close>

definition slash_amount :: "Validator \<Rightarrow> uint64" where
  "slash_amount v = (if v_MisbehaviorCount v = 0 then 0
     else min (v_Stake v) (calculatePenalty (v_Stake v) (v_MisbehaviorCount v)))"

lemma slash_loop_exact:
  assumes "distinct order" and "set order \<subseteq> dom (dp_validators d)" and "slash_loop nows order b d = (b', d')"
  shows "(b' \<longleftrightarrow> b \<or> (\<exists>i\<in>set order. slash_amount (the (dp_validators d i)) > 0)) \<and>
         dp_validators d' = (\<lambda>i. if i \<in> set order then map_option (\<lambda>v. v\<lparr>v_Stake := v_Stake v - slash_amount v,
             v_MisbehaviorCount := 0\<rparr>) (dp_validators d i) else dp_validators d i) \<and>
         dp_currentEpoch d' = dp_currentEpoch d"
  using assms
proof (induction order arbitrary: b d)
  case (Cons i order)
  obtain val where val: "dp_validators d i = Some val" using Cons.prems(2) by auto
  show ?case
  proof (cases "v_MisbehaviorCount val > 0")
    case True
    let ?p = "slash_amount val"
    define v1 where "v1 = val\<lparr>v_Stake := v_Stake val - ?p, v_MisbehaviorCount := 0\<rparr>"
    define d1 where "d1 = d\<lparr>dp_validators := (dp_validators d)(i \<mapsto> v1), dp_totalStake := dp_totalStake d - ?p,
        dp_activeTotalStake := (if v_IsActive val then dp_activeTotalStake d - ?p else dp_activeTotalStake d),
        dp_slashLog := dp_slashLog d @ [\<lparr>se_ValidatorID = v_ID val, se_Amount = ?p, se_Reason = ''Misbehavior'', se_Timestamp = nows i\<rparr>]\<rparr>"
    let ?c = "calculatePenalty (v_Stake val) (v_MisbehaviorCount val)"
    have p: "?p = (if ?c > v_Stake val then v_Stake val else ?c)"
      using True by (auto simp: slash_amount_def min_def)
    have "slash_loop nows (i # order) b d = slash_loop nows order (b \<or> ?p > 0) d1"
      unfolding d1_def v1_def p using True val by (simp add: Let_def)
    with Cons.prems(3) have s: "slash_loop nows order (b \<or> ?p > 0) d1 = (b', d')" by simp
    have m: "dp_validators d1 = (dp_validators d)(i \<mapsto> v1)" "dp_currentEpoch d1 = dp_currentEpoch d"
      by (simp_all add: d1_def)
    have i: "i \<notin> set order" "distinct order" "set order \<subseteq> dom (dp_validators d1)"
      using Cons.prems(1,2) by (auto simp: m)
    have any: "(\<exists>j\<in>set order. slash_amount (the (dp_validators d1 j)) > 0) =
          (\<exists>j\<in>set order. slash_amount (the (dp_validators d j)) > 0)"
      using i(1) by (intro bex_cong) (auto simp: m)
    note IH = Cons.IH [OF i(2,3) s, unfolded any]
    have "dp_validators d' = (\<lambda>j. if j \<in> set (i # order) then map_option (\<lambda>v. v\<lparr>v_Stake := v_Stake v - slash_amount v,
             v_MisbehaviorCount := 0\<rparr>) (dp_validators d j) else dp_validators d j)"
      using IH i(1) val by (auto simp: fun_eq_iff m v1_def)
    then show ?thesis using IH val m(2) by auto
  next
    case False
    then have "v_MisbehaviorCount val = 0" by (simp add: word_neq_0_conv [symmetric])
    then have "slash_amount val = 0" "v_MisbehaviorCount val = 0" by (simp_all add: slash_amount_def)
    moreover have "slash_loop nows order b d = (b', d')" using Cons.prems(3) False val by (simp add: Let_def)
    ultimately show ?thesis
      using Cons.IH [of d b] Cons.prems(1,2) val by (auto simp: fun_eq_iff)
  qed
qed auto

lemma slash_amount_le: "slash_amount v \<le> v_Stake v"
  by (simp add: slash_amount_def)


subsection \<open>Rewards\<close>

lemma unat_sum:
  fixes f :: "'a \<Rightarrow> 'b::len word"
  assumes "finite A" and "(\<Sum>i\<in>A. unat (f i)) < 2 ^ LENGTH('b)"
  shows "unat (\<Sum>i\<in>A. f i) = (\<Sum>i\<in>A. unat (f i))"
  using assms
proof (induction A rule: finite_induct)
  case (insert x A)
  then have "unat (\<Sum>i\<in>A. f i) = (\<Sum>i\<in>A. unat (f i))" by simp
  then show ?case using insert by (simp add: unat_word_ariths)
qed simp

lemma calculateTotalReward_le: "unat (calculateTotalReward e) \<le> 1000000"
proof -
  have "unat (1000000 div (1 + e div 100) :: uint64) \<le> unat (1000000 :: uint64)"
    unfolding unat_div by (rule div_le_dividend)
  then show ?thesis by (simp add: calculateTotalReward_def)
qed

definition stake_at :: "DPoS \<Rightarrow> hash32 \<Rightarrow> nat" where
  "stake_at d i = unat (v_Stake (the (dp_validators d i)))"

text \<open>One round, when nothing overflows: the k-th validator gains the reward, nobody else changes.\<close>

lemma reward_entry_effect:
  assumes ok: "active_ok d ids" and k: "k < length ids"
    and s: "stake_at d (ids ! k) \<le> a0" and a0: "0 < a0" "a0 \<le> unat (dp_activeTotalStake d)"
    and R: "unat R * a0 < 2 ^ 64"
    and room: "unat (dp_activeTotalStake d) * a0 + unat R * stake_at d (ids ! k) < 2 ^ 64 * a0"
  obtains r where "r * a0 \<le> unat R * stake_at d (ids ! k)" and "unat R * stake_at d (ids ! k) < (r + 1) * unat (dp_activeTotalStake d)"
    and "unat (dp_activeTotalStake (reward_entry R k d)) = unat (dp_activeTotalStake d) + r"
    and "dp_validators (reward_entry R k d) = map_modify (ids ! k) (add_stake (word_of_nat r)) (dp_validators d)"
    and "dp_totalStake (reward_entry R k d) = dp_totalStake d + word_of_nat r"
    and "stake_at d (ids ! k) + r < 2 ^ 64"
proof -
  let ?A = "dp_activeTotalStake d" and ?i = "ids ! k"
  obtain v where v: "dp_validators d ?i = Some v" using ok k by (force simp: active_ok_def)
  have st: "stake_at d ?i = unat (v_Stake v)" by (simp add: stake_at_def v)
  define r where "r = (unat R * unat (v_Stake v)) div unat ?A"
  have "unat R * unat (v_Stake v) \<le> unat R * a0" using s by (simp add: st)
  then have lt: "unat R * unat (v_Stake v) < 2 ^ 64" using R by linarith
  then have "r < 2 ^ 64" using div_le_dividend [of "unat R * unat (v_Stake v)" "unat ?A"] by (simp only: r_def)
  then have fit: "take_bit 64 r = r" by (simp add: take_bit_nat_eq_self)
  from lt have mult: "unat (R * v_Stake v) = unat R * unat (v_Stake v)" by (simp add: unat_word_ariths)
  have rw: "(R * v_Stake v) div ?A = word_of_nat r"
    by (rule word_unat_eq_iff [THEN iffD2]) (simp add: unat_div mult r_def [symmetric] unsigned_of_nat fit)
  have e: "dp_activeValidators d ! k = Live ?i" using ok k by (simp add: active_ok_def)
  have "r * a0 \<le> r * unat ?A" using a0 by simp
  also have "\<dots> \<le> unat R * unat (v_Stake v)" by (simp add: r_def)
  finally have ra: "r * a0 \<le> unat R * stake_at d ?i" by (simp add: st)
  have "0 < unat ?A" using a0 by simp
  then have rl: "unat R * stake_at d ?i < (r + 1) * unat ?A"
    unfolding r_def st using dividend_less_div_times [of "unat ?A" "unat R * unat (v_Stake v)"] by (simp add: algebra_simps)
  have "(unat ?A + r) * a0 < 2 ^ 64 * a0" using ra room by (simp add: algebra_simps)
  then have fits: "unat ?A + r < 2 ^ 64" using a0(1) by simp
  show thesis
  proof (rule that [OF ra rl])
    show "unat (dp_activeTotalStake (reward_entry R k d)) = unat ?A + r"
      using fits by (simp add: reward_entry_def Let_def e active_obj_def v rw unat_word_ariths unsigned_of_nat take_bit_nat_eq_self)
    show "stake_at d ?i + r < 2 ^ 64" using fits s a0 by linarith
  qed (simp_all add: reward_entry_def Let_def e active_obj_def v rw)
qed

text \<open>The rounds together: \<open>r\<close> is what each validator gains. The total of the active stakes is at least \<open>a0\<close>, its value at the beginning, and grows by what was paid.\<close>

lemma reward_loop_budget:
  assumes "active_ok d ids" and "registry_ok d" and "distinct ks" and "set ks \<subseteq> {..<length ids}"
    and a0: "0 < a0" and "a0 \<le> unat (dp_activeTotalStake d)"
    and "(\<Sum>k\<leftarrow>ks. stake_at d (ids ! k)) \<le> a0"
    and R: "unat R * a0 < 2 ^ 64"
    and "unat (dp_activeTotalStake d) * a0 + unat R * (\<Sum>k\<leftarrow>ks. stake_at d (ids ! k)) < 2 ^ 64 * a0"
  shows "\<exists>d' r. reward_loop R ks d = Some d' \<and>
     dp_validators d' = (\<lambda>i. map_option (add_stake (word_of_nat (r i))) (dp_validators d i)) \<and>
     (\<forall>i. i \<notin> (!) ids ` set ks \<longrightarrow> r i = 0) \<and>
     (\<forall>i \<in> (!) ids ` set ks. r i * a0 \<le> unat R * stake_at d i \<and> unat R * stake_at d i < (r i + 1) * unat (dp_activeTotalStake d') \<and>
        stake_at d i + r i < 2 ^ 64) \<and>
     unat (dp_activeTotalStake d') = unat (dp_activeTotalStake d) + (\<Sum>k\<leftarrow>ks. r (ids ! k)) \<and>
     dp_totalStake d' = dp_totalStake d + word_of_nat (\<Sum>k\<leftarrow>ks. r (ids ! k))"
  using assms(1-4,6-7,9)
proof (induction ks arbitrary: d)
  case Nil
  have "map_option (add_stake 0) o' = o'" for o' by (cases o') (simp_all add: add_stake_def)
  then show ?case by (intro exI [of _ d] exI [of _ "\<lambda>_. 0"]) simp
next
  case (Cons k ks)
  let ?i = "ids ! k" and ?A = "unat (dp_activeTotalStake d)" and ?d1 = "reward_entry R k d"
  let ?T = "\<Sum>k\<leftarrow>ks. stake_at d (ids ! k)"
  have k: "k < length ids" "k \<notin> set ks" "distinct ks" "set ks \<subseteq> {..<length ids}" using Cons.prems(3,4) by auto
  have s: "stake_at d ?i \<le> a0" "?A * a0 + unat R * stake_at d ?i < 2 ^ 64 * a0"
    using Cons.prems(6,7) by (simp_all add: algebra_simps)
  from Cons.prems(1) k(1) s(1) a0 Cons.prems(5) R s(2) obtain r0 where
      r0: "r0 * a0 \<le> unat R * stake_at d ?i" "unat R * stake_at d ?i < (r0 + 1) * ?A" "unat (dp_activeTotalStake ?d1) = ?A + r0"
         "dp_validators ?d1 = map_modify ?i (add_stake (word_of_nat r0)) (dp_validators d)"
         "dp_totalStake ?d1 = dp_totalStake d + word_of_nat r0" "stake_at d ?i + r0 < 2 ^ 64"
    by (rule reward_entry_effect)
  have other: "ids ! j \<noteq> ?i" if "j \<in> set ks" for j
    using that k Cons.prems(1) by (auto simp: active_ok_def nth_eq_iff_index_eq)
  have st: "stake_at ?d1 i = stake_at d i" if "i \<noteq> ?i" for i using that by (simp add: stake_at_def r0(4) map_modify_apply)
  have T: "(\<Sum>k\<leftarrow>ks. stake_at ?d1 (ids ! k)) = ?T" using other st by (simp cong: map_cong)
  have ok: "registry_ok ?d1" "active_ok ?d1 ids" using reward_entry_inv [OF Cons.prems(2,1) k(1)] by auto
  have "unat (dp_activeTotalStake ?d1) * a0 + unat R * ?T < 2 ^ 64 * a0"
    using r0(1,3) Cons.prems(7) by (simp add: algebra_simps)
  moreover have "?T \<le> a0" using Cons.prems(6) by simp
  moreover have "a0 \<le> unat (dp_activeTotalStake ?d1)" using Cons.prems(5) r0(3) by simp
  ultimately obtain d' r where IH: "reward_loop R ks ?d1 = Some d'"
      "dp_validators d' = (\<lambda>i. map_option (add_stake (word_of_nat (r i))) (dp_validators ?d1 i))"
      "\<forall>i. i \<notin> (!) ids ` set ks \<longrightarrow> r i = 0"
      "\<forall>i \<in> (!) ids ` set ks. r i * a0 \<le> unat R * stake_at ?d1 i \<and> unat R * stake_at ?d1 i < (r i + 1) * unat (dp_activeTotalStake d') \<and>
         stake_at ?d1 i + r i < 2 ^ 64"
      "unat (dp_activeTotalStake d') = unat (dp_activeTotalStake ?d1) + (\<Sum>k\<leftarrow>ks. r (ids ! k))"
      "dp_totalStake d' = dp_totalStake ?d1 + word_of_nat (\<Sum>k\<leftarrow>ks. r (ids ! k))"
    using Cons.IH [OF ok(2,1) k(3,4)] unfolding T by blast
  let ?r = "r(?i := r0)"
  have "?i \<notin> (!) ids ` set ks" using other by force
  with IH(3) have ri: "r ?i = 0" by blast
  have id0: "map_option (add_stake 0) o' = o'" for o' by (cases o') (simp_all add: add_stake_def)
  have vals: "dp_validators d' = (\<lambda>i. map_option (add_stake (word_of_nat (?r i))) (dp_validators d i))"
    unfolding IH(2) r0(4) using ri by (auto simp: fun_eq_iff map_modify_apply id0)
  have sum: "(\<Sum>k\<leftarrow>ks. ?r (ids ! k)) = (\<Sum>k\<leftarrow>ks. r (ids ! k))" using other by (simp cong: map_cong)
  have A': "?A \<le> unat (dp_activeTotalStake d')" using IH(5) r0(3) by simp
  have "?r i * a0 \<le> unat R * stake_at d i \<and> unat R * stake_at d i < (?r i + 1) * unat (dp_activeTotalStake d') \<and> stake_at d i + ?r i < 2 ^ 64"
    if i: "i \<in> (!) ids ` set (k # ks)" for i
  proof (cases "i = ?i")
    case True
    have "(r0 + 1) * ?A \<le> (r0 + 1) * unat (dp_activeTotalStake d')" using A' by (rule mult_le_mono2)
    with r0(2) have "unat R * stake_at d ?i < (r0 + 1) * unat (dp_activeTotalStake d')" by (rule order_less_le_trans)
    with True r0(1,6) show ?thesis by simp
  next
    case False
    then have "i \<in> (!) ids ` set ks" using i by auto
    from IH(4) [rule_format, OF this] show ?thesis using False by (simp only: st [OF False] fun_upd_other not_False_eq_True)
  qed
  moreover have "reward_loop R (k # ks) d = Some d'" using IH(1) a0 Cons.prems(5) by auto
  moreover have "\<forall>i. i \<notin> (!) ids ` set (k # ks) \<longrightarrow> ?r i = 0" using IH(3) by auto
  ultimately show ?case
    using vals IH(5,6) r0(3,5) sum by (intro exI [of _ d'] exI [of _ ?r]) (simp add: ac_simps)
qed

text \<open>C30: While the stake of the active validators is small enough for the arithmetic not to overflow (their sum times a million fits in 64 bits), the distribution of
  rewards succeeds. What the validators gain adds up to what both totals grow by, at most the reward of the epoch; each active validator gains its share of the reward by
  stake, rounded down, measured against a total between the active stake before and after the distribution; no stake wraps, and a validator that is not active gains nothing.\<close>

theorem rewards_within_budget:
  assumes "dpos_reachable d" and "(\<Sum>i | DPoS_IsActiveValidator i d. stake_at d i) * 1000000 < 2 ^ 64"
  shows "\<exists>d' gain. DPoS_distributeRewards d = Some d' \<and>
     dp_validators d' = (\<lambda>i. map_option (add_stake (word_of_nat (gain i))) (dp_validators d i)) \<and>
     (let paid = (\<Sum>i | DPoS_IsActiveValidator i d. gain i); reward = unat (calculateTotalReward (dp_currentEpoch d)) in
        paid \<le> reward \<and> dp_totalStake d' = dp_totalStake d + word_of_nat paid \<and>
        unat (dp_activeTotalStake d') = unat (dp_activeTotalStake d) + paid \<and>
        (\<forall>i. if DPoS_IsActiveValidator i d
             then gain i * unat (dp_activeTotalStake d) \<le> reward * stake_at d i \<and>
                  (0 < unat (dp_activeTotalStake d) \<longrightarrow> reward * stake_at d i < (gain i + 1) * unat (dp_activeTotalStake d')) \<and>
                  stake_at d i + gain i < 2 ^ 64
             else gain i = 0))"
proof (cases "dp_activeTotalStake d = 0")
  case True
  have "map_option (add_stake 0) o' = o'" for o' by (cases o') (simp_all add: add_stake_def)
  moreover have "stake_at d i < 2 ^ 64" for i using unsigned_less [of "v_Stake (the (dp_validators d i))"] by (simp add: stake_at_def)
  ultimately show ?thesis
    using True by (intro exI [of _ d] exI [of _ "\<lambda>_. 0"]) (simp add: DPoS_distributeRewards_def)
next
  case False
  obtain ids where ok: "registry_ok d" "active_ok d ids"
    using reachable_inv [OF assms(1)] by (auto simp: dpos_inv_def)
  let ?R = "calculateTotalReward (dp_currentEpoch d)" and ?a = "unat (dp_activeTotalStake d)"
  have ids: "distinct ids" "length (dp_activeValidators d) = length ids" using ok(2) by (auto simp: active_ok_def)
  have act: "set ids = {i. DPoS_IsActiveValidator i d}" by (rule active_ids [OF ok(2)])
  have sum: "(\<Sum>i\<in>set ids. stake_at d i) * 1000000 < 2 ^ 64" using assms(2) act by simp
  then have "(\<Sum>i\<in>set ids. unat (v_Stake (the (dp_validators d i)))) < 2 ^ LENGTH(64)"
    by (simp add: stake_at_def)
  from unat_sum [OF _ this] have a: "?a = (\<Sum>i\<in>set ids. stake_at d i)"
    using ok(2) by (simp add: active_ok_def stake_sum_def stake_at_def)
  have over: "(\<Sum>k\<leftarrow>[0..<length ids]. f (ids ! k)) = (\<Sum>i\<in>set ids. f i)" for f :: "hash32 \<Rightarrow> nat"
    using ids(1) by (simp add: sum_list_distinct_conv_sum_set [symmetric] map_nth comp_def
        flip: map_map [of f "(!) ids", unfolded comp_def])
  have T: "(\<Sum>k\<leftarrow>[0..<length ids]. stake_at d (ids ! k)) = ?a" unfolding over a ..
  have a0: "0 < ?a" using False by (simp add: unat_gt_0)
  have R: "unat ?R \<le> 1000000" by (rule calculateTotalReward_le)
  then have "unat ?R * ?a \<le> ?a * 1000000" by (subst mult.commute) (rule mult_le_mono1)
  also have "\<dots> < 2 ^ 64" using sum unfolding a .
  finally have Ra: "unat ?R * ?a < 2 ^ 64" .
  have "?a + unat ?R < 2 ^ 64" using sum a R by simp
  then have room: "?a * ?a + unat ?R * ?a < 2 ^ 64 * ?a" using a0 by (simp add: distrib_right [symmetric])
  have "distinct [0..<length ids]" "set [0..<length ids] \<subseteq> {..<length ids}" by auto
  from reward_loop_budget [OF ok(2,1) this a0 order_refl _ Ra, unfolded T over, OF order_refl room]
  obtain d' r where L: "reward_loop ?R [0..<length ids] d = Some d'"
      "dp_validators d' = (\<lambda>i. map_option (add_stake (word_of_nat (r i))) (dp_validators d i))"
      "\<forall>i. i \<notin> (!) ids ` set [0..<length ids] \<longrightarrow> r i = 0"
      "\<forall>i \<in> (!) ids ` set [0..<length ids]. r i * ?a \<le> unat ?R * stake_at d i \<and>
         unat ?R * stake_at d i < (r i + 1) * unat (dp_activeTotalStake d') \<and> stake_at d i + r i < 2 ^ 64"
      "unat (dp_activeTotalStake d') = ?a + (\<Sum>i\<in>set ids. r i)" "dp_totalStake d' = dp_totalStake d + word_of_nat (\<Sum>i\<in>set ids. r i)"
    by blast
  have im: "(!) ids ` set [0..<length ids] = set ids" by (auto simp: set_conv_nth image_def)
  have "(\<Sum>i\<in>set ids. r i) * ?a \<le> (\<Sum>i\<in>set ids. unat ?R * stake_at d i)"
    unfolding sum_distrib_right using L(4) im by (intro sum_mono) blast
  also have "\<dots> = unat ?R * ?a" by (simp add: a sum_distrib_left)
  finally have paid: "(\<Sum>i\<in>set ids. r i) \<le> unat ?R" using a0 by simp
  moreover have "DPoS_distributeRewards d = Some d'" using L(1) False ids(2) by (simp add: DPoS_distributeRewards_def)
  moreover have "if DPoS_IsActiveValidator i d
             then r i * ?a \<le> unat ?R * stake_at d i \<and> (0 < ?a \<longrightarrow> unat ?R * stake_at d i < (r i + 1) * unat (dp_activeTotalStake d')) \<and>
                  stake_at d i + r i < 2 ^ 64
             else r i = 0" for i
    using L(3,4) unfolding im act by (cases "DPoS_IsActiveValidator i d") (simp only: if_True if_False mem_Collect_eq, blast)+
  ultimately show ?thesis
    using L(2,5,6) unfolding Let_def act by (intro exI [of _ d'] exI [of _ r]) blast
qed

theorem rewards_within_budget_witness:
  "\<exists>d' gain. DPoS_distributeRewards dpos_example = Some d' \<and> gain \<le> 100 \<and> 5000 < (gain + 1) * (50 + gain) \<and>
     dp_validators d' 7 = Some (add_stake (word_of_nat gain) (v_example 7 50 True)) \<and> dp_totalStake d' = 50 + word_of_nat gain"
proof -
  have act: "{i. DPoS_IsActiveValidator i dpos_example} = {7}"
    by (auto simp: DPoS_IsActiveValidator_def dpos_example_def v_example_def split: if_splits)
  then have "(\<Sum>i | DPoS_IsActiveValidator i dpos_example. stake_at dpos_example i) * 1000000 < 2 ^ 64"
    by (simp add: stake_at_def dpos_example_def v_example_def)
  from rewards_within_budget [OF dpos_example_reachable this] obtain d' gain where
      d: "DPoS_distributeRewards dpos_example = Some d'"
         "dp_validators d' = (\<lambda>i. map_option (add_stake (word_of_nat (gain i))) (dp_validators dpos_example i))"
      and t: "let paid = (\<Sum>i | DPoS_IsActiveValidator i dpos_example. gain i); reward = unat (calculateTotalReward (dp_currentEpoch dpos_example)) in
        paid \<le> reward \<and> dp_totalStake d' = dp_totalStake dpos_example + word_of_nat paid \<and>
        unat (dp_activeTotalStake d') = unat (dp_activeTotalStake dpos_example) + paid \<and>
        (\<forall>i. if DPoS_IsActiveValidator i dpos_example
             then gain i * unat (dp_activeTotalStake dpos_example) \<le> reward * stake_at dpos_example i \<and>
                  (0 < unat (dp_activeTotalStake dpos_example) \<longrightarrow> reward * stake_at dpos_example i < (gain i + 1) * unat (dp_activeTotalStake d')) \<and>
                  stake_at dpos_example i + gain i < 2 ^ 64
             else gain i = 0)" by blast
  have seven: "DPoS_IsActiveValidator 7 dpos_example" using act by blast
  have u: "unat (dp_activeTotalStake dpos_example) = 50" "dp_totalStake dpos_example = 50" "stake_at dpos_example 7 = 50"
      "unat (calculateTotalReward (dp_currentEpoch dpos_example)) = 100"
    by (simp_all add: dpos_example_def stake_at_def v_example_def calculateTotalReward_def)
  have "gain 7 \<le> 100" "dp_totalStake d' = 50 + word_of_nat (gain 7)" "unat (dp_activeTotalStake d') = 50 + gain 7"
    using t by (simp_all add: act u Let_def)
  moreover have "100 * 50 < (gain 7 + 1) * unat (dp_activeTotalStake d')"
    using t [unfolded Let_def u] seven by (metis (no_types, lifting) u(3) zero_less_numeral)
  moreover have "dp_validators d' 7 = Some (add_stake (word_of_nat (gain 7)) (v_example 7 50 True))" by (simp add: d(2) dpos_example_def)
  ultimately show ?thesis using d(1) by (intro exI [of _ d'] exI [of _ "gain 7"]) simp
qed

lemma reward_entry_keeps:
  "dp_validators d i = Some v \<Longrightarrow>
   \<exists>v'. dp_validators (reward_entry R k d) i = Some v' \<and> v_MisbehaviorCount v' = v_MisbehaviorCount v"
  by (auto simp: reward_entry_def Let_def map_modify_apply add_stake_def split: active_entry.splits)

lemma reward_loop_keeps:
  "reward_loop R ks d = Some d' \<Longrightarrow> dp_validators d i = Some v \<Longrightarrow>
   \<exists>v'. dp_validators d' i = Some v' \<and> v_MisbehaviorCount v' = v_MisbehaviorCount v"
proof (induction R ks d arbitrary: v rule: reward_loop.induct)
  case (2 R k ks d)
  from reward_entry_keeps [OF 2(3)] obtain v1 where
    v1: "dp_validators (reward_entry R k d) i = Some v1" "v_MisbehaviorCount v1 = v_MisbehaviorCount v" by blast
  have "dp_activeTotalStake d \<noteq> 0" and "reward_loop R ks (reward_entry R k d) = Some d'"
    using 2(2) by (simp_all split: if_splits)
  from 2(1) [OF this v1(1)] show ?case by (simp add: v1(2))
qed simp

lemma distribute_keeps:
  "DPoS_distributeRewards d = Some d' \<Longrightarrow> dp_validators d i = Some v \<Longrightarrow>
   \<exists>v'. dp_validators d' i = Some v' \<and> v_MisbehaviorCount v' = v_MisbehaviorCount v"
  by (auto simp: DPoS_distributeRewards_def intro: reward_loop_keeps split: if_splits)

text \<open>What one percent of the stake per misbehaviour comes to, in plain arithmetic: the percent is rounded down, the product is taken modulo 2^64 as in the code, and no
  more than the stake is lost.\<close>

definition percent_loss :: "Validator \<Rightarrow> nat" where
  "percent_loss v = min (unat (v_Stake v)) ((unat (v_Stake v) div 100 * unat (v_MisbehaviorCount v)) mod 2 ^ 64)"

lemma slash_amount_percent: "unat (slash_amount v) = percent_loss v"
proof (cases "v_MisbehaviorCount v = 0")
  case False
  have "unat (calculatePenalty (v_Stake v) (v_MisbehaviorCount v)) = (unat (v_Stake v) div 100 * unat (v_MisbehaviorCount v)) mod 2 ^ 64"
    by (simp add: calculatePenalty_def unat_word_ariths unat_div mod_mult_left_eq)
  then show ?thesis using False by (simp add: slash_amount_def percent_loss_def min_def word_le_nat_alt)
qed (simp add: slash_amount_def percent_loss_def)

lemma unat_after_slash: "unat (v_Stake v - slash_amount v) = unat (v_Stake v) - percent_loss v"
  using slash_amount_le [of v] by (simp add: unat_sub slash_amount_percent)

text \<open>C31: At an epoch boundary, when a validator has misbehaved so that it loses something, every validator's stake falls by exactly one percent of it, rounded down, for each of its
  misbehaviours, at most the stake itself (the product is taken modulo 2^64, as the code takes it), and nobody is rewarded. In every epoch the misbehaviours and the block
  counts of all validators are cleared. Away from a boundary nothing changes.\<close>

theorem epoch_slashing:
  assumes r: "dpos_reachable d" and o: "range_order (dp_validators d) order" and s: "range_order (dp_validators d) srt"
    and e: "DPoS_ProcessEpoch pow nows now order srt blockNumber d = Some (err, d')"
    and v: "dp_validators d i = Some v"
  shows "if dp_epochDuration d = 0 \<or> blockNumber mod dp_epochDuration d \<noteq> 0 then d' = d
         else err = None \<and>
           (\<exists>v'. dp_validators d' i = Some v' \<and> v_MisbehaviorCount v' = 0 \<and> v_BlocksProduced v' = 0 \<and>
              ((\<exists>j w. dp_validators d j = Some w \<and> 0 < percent_loss w) \<longrightarrow> unat (v_Stake v') = unat (v_Stake v) - percent_loss v))"
proof (cases "dp_epochDuration d \<noteq> 0 \<and> blockNumber mod dp_epochDuration d = 0")
  case True
  let ?d1 = "d\<lparr>dp_currentEpoch := dp_currentEpoch d + 1\<rparr>"
  from True have b: "dp_epochDuration d \<noteq> 0" "blockNumber mod dp_epochDuration d = 0" by auto
  from e b obtain slashedAny d2 d3 d4 where
      sl: "slash_loop nows order False ?d1 = (slashedAny, d2)"
    and up: "DPoS_updateActiveValidators srt d2 = Some d3"
    and di: "(if slashedAny then Some d3 else DPoS_distributeRewards d3) = Some d4"
    and d': "d' = DPoS_transitionToNextEpoch (DPoS_updatePerformance pow now d4)" and err: "err = None"
    by (rule ProcessEpoch_stages)
  have reg: "registry_ok ?d1" using reachable_inv [OF r] by (simp add: dpos_inv_def registry_ok_def)
  have ord: "distinct order" "set order = dom (dp_validators d)" using o by (auto simp: range_order_def)
  from slash_loop_exact [OF ord(1) _ sl] ord(2)
  have any: "slashedAny \<longleftrightarrow> (\<exists>j\<in>dom (dp_validators d). 0 < slash_amount (the (dp_validators d j)))"
    and v2: "dp_validators d2 i = Some (v\<lparr>v_Stake := v_Stake v - slash_amount v, v_MisbehaviorCount := 0\<rparr>)"
    using v by auto
  from slash_loop_inv [OF reg ord(1) _ sl] ord(2) have d2: "registry_ok d2" "dom (dp_validators d2) = dom (dp_validators d)"
    by auto
  have "range_order (dp_validators d2) srt" using s d2(2) by (simp add: range_order_def)
  then have inv3: "dpos_inv d3" using updateActive_inv(1) d2(1) up by blast
  obtain v3 where v3: "dp_validators d3 i = Some v3" "v_MisbehaviorCount v3 = 0" "v_Stake v3 = v_Stake v - slash_amount v"
    using up v2 by (auto simp: DPoS_updateActiveValidators_def Let_def split: if_splits)
  obtain v4 where v4: "dp_validators d4 i = Some v4" "v_MisbehaviorCount v4 = 0" "slashedAny \<longrightarrow> v_Stake v4 = v_Stake v - slash_amount v"
  proof (cases slashedAny)
    case True
    then show thesis using di v3 by (intro that) auto
  next
    case False
    then have "DPoS_distributeRewards d3 = Some d4" using di by simp
    then obtain v4 where "dp_validators d4 i = Some v4" "v_MisbehaviorCount v4 = 0"
      using distribute_keeps [OF _ v3(1)] v3(2) by metis
    then show thesis using False by (intro that) auto
  qed
  have pos: "0 < slash_amount w \<longleftrightarrow> 0 < percent_loss w" for w
    unfolding slash_amount_percent [symmetric] by (simp add: unat_gt_0 word_neq_0_conv)
  have "(\<exists>j w. dp_validators d j = Some w \<and> 0 < percent_loss w) \<longleftrightarrow> slashedAny" unfolding any pos [symmetric] by force
  then have "(\<exists>j w. dp_validators d j = Some w \<and> 0 < percent_loss w) \<longrightarrow> unat (v_Stake v4) = unat (v_Stake v) - percent_loss v"
    using v4(3) unat_after_slash by simp
  then show ?thesis using b v4(1,2) err
    by (simp add: d' DPoS_transitionToNextEpoch_def DPoS_updatePerformance_def frame_simps)
next
  case False
  then show ?thesis using ProcessEpoch_idle [OF e] by auto
qed

definition dpos_three_hundred :: DPoS where
  "dpos_three_hundred = dpos_example\<lparr>dp_validators := [7 \<mapsto> v_example 7 300 True], dp_totalStake := 300, dp_activeTotalStake := 300\<rparr>"

definition dpos_guilty :: DPoS where
  "dpos_guilty = DPoS_InjectMisbehaviorCount 7 3 dpos_three_hundred"

lemma dpos_guilty_reachable: "dpos_reachable dpos_guilty"
proof -
  have "DPoS_UpdateStake [7] 7 300 dpos_example = Some dpos_three_hundred"
    by (simp add: DPoS_UpdateStake_def DPoS_updateActiveValidators_def dpos_example_def dpos_three_hundred_def v_example_def Let_def fun_eq_iff)
  then have "dpos_reachable dpos_three_hundred"
    by (intro dpos_reachable.step [OF dpos_example_reachable] dpos_step.stake) (simp_all add: range_order_def dpos_example_def)
  then show ?thesis unfolding dpos_guilty_def by (rule dpos_reachable.step [OF _ dpos_step.misbehave])
qed

theorem epoch_slashing_witness:
  "\<exists>d'. DPoS_ProcessEpoch (\<lambda>x y. x) (\<lambda>i. 0) 0 [7] [7] 10 dpos_guilty = Some (None, d') \<and>
     (\<exists>v'. dp_validators d' 7 = Some v' \<and> v_MisbehaviorCount v' = 0 \<and> unat (v_Stake v') = 291)"
proof -
  have vals: "dp_validators dpos_guilty = [7 \<mapsto> (v_example 7 300 True)\<lparr>v_MisbehaviorCount := 3\<rparr>]"
    by (simp add: dpos_guilty_def DPoS_InjectMisbehaviorCount_def dpos_three_hundred_def map_modify_def)
  then have o: "range_order (dp_validators dpos_guilty) [7]" by (simp add: range_order_def)
  have dur: "dp_epochDuration dpos_guilty = 5" "dp_maxSetSize dpos_guilty = 3"
    by (simp_all add: dpos_guilty_def DPoS_InjectMisbehaviorCount_def dpos_three_hundred_def dpos_example_def)
  obtain err d' where e: "DPoS_ProcessEpoch (\<lambda>x y. x) (\<lambda>i. 0) 0 [7] [7] 10 dpos_guilty = Some (err, d')"
    by (auto simp: DPoS_ProcessEpoch_def DPoS_handleSlashingAndPenalties_def DPoS_updateActiveValidators_def
        DPoS_distributeRewards_def calculatePenalty_def vals v_example_def dur Let_def)
  show ?thesis
    using epoch_slashing [OF dpos_guilty_reachable o o e, of 7] e dur by (auto simp: vals percent_loss_def v_example_def split: if_splits)
qed

subsection \<open>Saving and restoring\<close>

text \<open>C32: Saving the state and restoring it, into any instance, gives the state back, with the times of the
  validators cut to whole seconds; the slash log is not part of the state and stays that of the instance.\<close>

theorem dpos_state_roundtrip:
  assumes r: "dpos_reachable d" and o: "range_order (dp_validators d) order" and g: "DPoS_GetState order d = Inr st"
  shows "DPoS_RestoreState (Some st) d0 =
     (None, d\<lparr>dp_validators := map_option restored \<circ> dp_validators d, dp_slashLog := dp_slashLog d0\<rparr>)"
  using dpos_restore_saved [OF reachable_inv [OF r] o g] .

theorem dpos_state_roundtrip_witness:
  "\<exists>st. DPoS_GetState [7] dpos_example = Inr st \<and>
     DPoS_RestoreState (Some st) (NewDPoS 9 9) = (None, dpos_example)"
proof -
  have o: "range_order (dp_validators dpos_example) [7]" by (simp add: range_order_def dpos_example_def)
  obtain st where st: "DPoS_GetState [7] dpos_example = Inr st"
    by (simp add: DPoS_GetState_def dpos_example_def v_example_def f64_finite_def Let_def)
  have "dpos_example\<lparr>dp_validators := map_option restored \<circ> dp_validators dpos_example, dp_slashLog := []\<rparr> = dpos_example"
    by (auto simp: dpos_example_def v_example_def restored_def unix_def fun_eq_iff)
  with dpos_state_roundtrip [OF dpos_example_reachable o st, of "NewDPoS 9 9"] st show ?thesis
    by (simp add: NewDPoS_def)
qed

text \<open>\<open>GetValidatorStake\<close> does not return the validator's stake: every active validator is given the same
  share of the total stake, and the stakes of inactive validators are part of it.\<close>

theorem validator_stake_is_uniform:
  assumes "dpos_reachable d" and "DPoS_IsActiveValidator i d"
  shows "DPoS_GetValidatorStake i d = dp_totalStake d div word_of_nat (length (dp_activeValidators d))"
proof -
  obtain ids where ok: "active_ok d ids" using reachable_inv [OF assms(1)] by (auto simp: dpos_inv_def)
  then have "dp_activeValidators d \<noteq> []" using active_ids [OF ok] assms(2) by (auto simp: active_ok_def)
  then show ?thesis using assms(2) by (auto simp: DPoS_GetValidatorStake_def DPoS_IsActiveValidator_def split: option.splits)
qed

theorem validator_stake_is_uniform_witness: "DPoS_GetValidatorStake 7 dpos_example = 50"
  using validator_stake_is_uniform [OF dpos_example_reachable, of 7]
  by (simp add: DPoS_IsActiveValidator_def dpos_example_def v_example_def)

end
