(* ===== verification/PoHTheory.thy ===== *)
theory PoHTheory
  imports Sha256 GoTime
begin

text \<open>
  Proof of history: \<open>consensus/diamantepoh/diamantepoh.go\<close>. The record \<open>PoH\<close> keeps the state of the
  hash chain, the number of steps made, the time of the last tick and the delay between ticks. A step
  hashes the state with the new count; a record hashes the state with the data.

  A reading of the clock is an argument. The two ways in which \<open>VerifyProof\<close> can be stopped in round \<open>i\<close> of
  its loop, a cancelled context and the time limit, are given by the predicates \<open>cancelled\<close> and \<open>late\<close>.
\<close>

section \<open>Data and construction\<close>

record PoH =
  poh_state :: hash32
  poh_count :: uint64
  poh_lastTick :: int
  poh_tickDelay :: duration

datatype poh_error =
    PohErrNew string
  | PohErrTooManyIterations
  | PohErrTimeout nat
  | PohErrCounts string uint64 uint64

definition MaxIterations :: uint64 where "MaxIterations = 1000000"

definition MaxBatchSize :: nat where "MaxBatchSize = 500"

definition NewPoH :: "int \<Rightarrow> hash32 \<Rightarrow> duration \<Rightarrow> PoH" where
  "NewPoH now initialState tickDelay =
     \<lparr>poh_state = (if initialState = 0 then sha256 (string_bytes ''Diamante Default Seed'') else initialState),
      poh_count = 0, poh_lastTick = now, poh_tickDelay = tickDelay\<rparr>"

section \<open>Advancing the chain\<close>

definition chain_step :: "hash32 \<Rightarrow> uint64 \<Rightarrow> hash32" where
  "chain_step s c = sha256 (hash_bytes s @ le_bytes 8 c)"

definition record_step :: "hash32 \<Rightarrow> bytes \<Rightarrow> hash32" where
  "record_step s data = sha256 (hash_bytes s @ data)"

fun advance_loop :: "nat \<Rightarrow> PoH \<Rightarrow> PoH" where
  "advance_loop 0 p = p"
| "advance_loop (Suc n) p =
     (let c = poh_count p + 1
      in advance_loop n (p\<lparr>poh_count := c, poh_state := chain_step (poh_state p) c\<rparr>))"

definition PoH_advanceState :: "uint64 \<Rightarrow> PoH \<Rightarrow> PoH" where
  "PoH_advanceState iterations p = advance_loop (unat iterations) p"

definition PoH_AdvanceState :: "uint64 \<Rightarrow> PoH \<Rightarrow> PoH" where
  "PoH_AdvanceState iterations p = PoH_advanceState iterations p"

definition PoH_tickLocked :: "int \<Rightarrow> PoH \<Rightarrow> PoH" where
  "PoH_tickLocked now p =
     (if now - poh_lastTick p \<ge> poh_tickDelay p then (PoH_advanceState 1 p)\<lparr>poh_lastTick := now\<rparr> else p)"

definition PoH_Tick :: "int \<Rightarrow> PoH \<Rightarrow> PoH" where
  "PoH_Tick now p = PoH_tickLocked now p"

definition PoH_GetTickDelay :: "PoH \<Rightarrow> duration" where
  "PoH_GetTickDelay p = poh_tickDelay p"

definition PoH_SetTickDelay :: "duration \<Rightarrow> PoH \<Rightarrow> poh_error option \<times> PoH" where
  "PoH_SetTickDelay delay p =
     (if delay \<le> 0 then (Some (PohErrNew ''tick delay must be positive''), p) else (None, p\<lparr>poh_tickDelay := delay\<rparr>))"

section \<open>Records\<close>

definition PoH_Record :: "int \<Rightarrow> bytes \<Rightarrow> PoH \<Rightarrow> hash32 \<times> PoH" where
  "PoH_Record now data p =
     (let p1 = PoH_tickLocked now p;
          proof = record_step (poh_state p1) data
      in (proof, p1\<lparr>poh_state := proof, poh_count := poh_count p1 + 1\<rparr>))"

definition PoH_Verify :: "hash32 \<Rightarrow> bytes \<Rightarrow> hash32 \<Rightarrow> uint64 \<Rightarrow> PoH \<Rightarrow> bool" where
  "PoH_Verify prevState data proof count p =
     (if length data > 1024 * 1024 then False
      else if count > poh_count p + 10000 then False
      else if prevState = 0 then False
      else if length data = 0 \<and> proof \<noteq> 0 then False
      else record_step prevState data = proof)"

text \<open>The loop of \<open>BatchRecord\<close>; \<open>now\<close> reads the clock once per record.\<close>

fun batch_loop :: "(nat \<Rightarrow> int) \<Rightarrow> nat \<Rightarrow> bytes list \<Rightarrow> PoH \<Rightarrow> hash32 list \<times> PoH" where
  "batch_loop now i [] p = ([], p)"
| "batch_loop now i (data # dataList) p =
     (let p1 = PoH_tickLocked (now i) p;
          hash = record_step (poh_state p1) data;
          (hashes, p2) = batch_loop now (Suc i) dataList (p1\<lparr>poh_state := hash, poh_count := poh_count p1 + 1\<rparr>)
      in (hash # hashes, p2))"

definition PoH_BatchRecord :: "(nat \<Rightarrow> int) \<Rightarrow> bytes list \<Rightarrow> PoH \<Rightarrow> hash32 list \<times> PoH" where
  "PoH_BatchRecord now dataList p =
     batch_loop now 0 (if length dataList > MaxBatchSize then take MaxBatchSize dataList else dataList) p"

section \<open>Queries\<close>

definition PoH_GetState :: "PoH \<Rightarrow> hash32" where
  "PoH_GetState p = poh_state p"

definition PoH_GetCount :: "PoH \<Rightarrow> uint64" where
  "PoH_GetCount p = poh_count p"

definition PoH_GetSnapshot :: "PoH \<Rightarrow> hash32 \<times> uint64" where
  "PoH_GetSnapshot p = (poh_state p, poh_count p)"

text \<open>The conversion to \<open>time.Duration\<close> and the product wrap at 64 bits.\<close>

definition PoH_EstimateTimeToCount :: "uint64 \<Rightarrow> PoH \<Rightarrow> duration" where
  "PoH_EstimateTimeToCount targetCount p =
     (if targetCount \<le> poh_count p then 0
      else i64 (sint (targetCount - poh_count p) * poh_tickDelay p))"

definition PoH_EstimateTime :: "uint64 \<Rightarrow> PoH \<Rightarrow> poh_error + duration" where
  "PoH_EstimateTime targetCount p =
     (if targetCount < poh_count p then Inl (PohErrNew ''target count is in the past'')
      else Inr (PoH_EstimateTimeToCount targetCount p))"

section \<open>Synchronisation and recovery\<close>

definition PoH_Synchronize :: "int \<Rightarrow> hash32 \<Rightarrow> uint64 \<Rightarrow> PoH \<Rightarrow> poh_error option \<times> PoH" where
  "PoH_Synchronize now targetState targetCount p =
     (if targetCount < poh_count p
        then (Some (PohErrCounts ''target count is less than current count'' targetCount (poh_count p)), p)
      else (None, p\<lparr>poh_state := targetState, poh_count := targetCount, poh_lastTick := now\<rparr>))"

definition PoH_RestoreSnapshot :: "int \<Rightarrow> hash32 \<Rightarrow> uint64 \<Rightarrow> PoH \<Rightarrow> poh_error option \<times> PoH" where
  "PoH_RestoreSnapshot now s c p =
     (if c > poh_count p then (Some (PohErrCounts ''cannot restore to a future state'' (poh_count p) c), p)
      else (None, p\<lparr>poh_state := s, poh_count := c, poh_lastTick := now\<rparr>))"

definition PoH_RecoverFromError :: "int \<Rightarrow> hash32 \<Rightarrow> uint64 \<Rightarrow> PoH \<Rightarrow> poh_error option \<times> PoH" where
  "PoH_RecoverFromError now lastKnownState lastKnownCount p =
     (if lastKnownCount > poh_count p
        then (Some (PohErrCounts ''invalid recovery state: future count'' (poh_count p) lastKnownCount), p)
      else (None, p\<lparr>poh_state := lastKnownState, poh_count := lastKnownCount, poh_lastTick := now\<rparr>))"

section \<open>Proofs over many steps\<close>

definition PoH_GenerateProof ::
    "bytes \<Rightarrow> uint64 \<Rightarrow> PoH \<Rightarrow> (poh_error + hash32 \<times> hash32 \<times> uint64) \<times> PoH" where
  "PoH_GenerateProof data iterations p =
     (if iterations > MaxIterations then (Inl PohErrTooManyIterations, p)
      else
        let p1 = advance_loop (unat iterations) p
        in (Inr (record_step (poh_state p1) data, poh_state p, poh_count p), p1))"

fun verify_loop ::
    "(nat \<Rightarrow> bool) \<Rightarrow> (nat \<Rightarrow> bool) \<Rightarrow> nat \<Rightarrow> nat \<Rightarrow> hash32 \<Rightarrow> uint64 \<Rightarrow> poh_error + hash32" where
  "verify_loop cancelled late i 0 s c = Inr s"
| "verify_loop cancelled late i (Suc n) s c =
     (if cancelled i then Inl (PohErrNew ''verification canceled'')
      else if late i then Inl (PohErrTimeout (Suc i))
      else verify_loop cancelled late (Suc i) n (chain_step s (c + 1)) (c + 1))"

definition PoH_VerifyProof ::
    "(nat \<Rightarrow> bool) \<Rightarrow> (nat \<Rightarrow> bool) \<Rightarrow> hash32 \<Rightarrow> bytes \<Rightarrow> hash32 \<Rightarrow> uint64 \<Rightarrow> uint64 \<Rightarrow> poh_error + bool" where
  "PoH_VerifyProof cancelled late startState data proof startCount iterations =
     (if iterations > MaxIterations then Inl PohErrTooManyIterations
      else case verify_loop cancelled late 0 (unat iterations) startState startCount of
        Inl e \<Rightarrow> Inl e
      | Inr s \<Rightarrow> Inr (record_step s data = proof))"

fun PoH_VerifyHashRange :: "hash32 \<Rightarrow> uint64 \<Rightarrow> hash32 list \<Rightarrow> bool" where
  "PoH_VerifyHashRange s c [] = True"
| "PoH_VerifyHashRange s c (h # hashes) =
     (if chain_step s (c + 1) \<noteq> h then False else PoH_VerifyHashRange h (c + 1) hashes)"

section \<open>The chain as a reference\<close>

text \<open>The state \<open>n\<close> steps after state \<open>s\<close> with count \<open>c\<close>.\<close>

primrec chain :: "hash32 \<Rightarrow> uint64 \<Rightarrow> nat \<Rightarrow> hash32" where
  "chain s c 0 = s"
| "chain s c (Suc n) = chain_step (chain s c n) (c + word_of_nat (Suc n))"

lemma chain_shift: "chain (chain_step s (c + 1)) (c + 1) n = chain s c (Suc n)"
  by (induction n) (simp_all add: algebra_simps)

lemma advance_loop_chain:
  "advance_loop n p = p\<lparr>poh_count := poh_count p + word_of_nat n, poh_state := chain (poh_state p) (poh_count p) n\<rparr>"
proof (induction n arbitrary: p)
  case (Suc n)
  show ?case unfolding advance_loop.simps Let_def Suc by (simp add: chain_shift del: chain.simps)
qed simp

lemma verify_loop_chain:
  "(\<And>j. j < i + n \<Longrightarrow> \<not> cancelled j \<and> \<not> late j) \<Longrightarrow> verify_loop cancelled late i n s c = Inr (chain s c n)"
proof (induction n arbitrary: i s c)
  case (Suc n)
  have "\<not> cancelled i \<and> \<not> late i" by (rule Suc.prems) simp
  moreover have "verify_loop cancelled late (Suc i) n (chain_step s (c + 1)) (c + 1) = Inr (chain (chain_step s (c + 1)) (c + 1) n)"
    by (rule Suc.IH) (rule Suc.prems, simp)
  ultimately show ?case by (simp add: chain_shift del: chain.simps)
qed simp

lemma VerifyHashRange_chain:
  "PoH_VerifyHashRange s c hs \<longleftrightarrow> hs = map (\<lambda>i. chain s c (Suc i)) [0..<length hs]"
proof (induction hs arbitrary: s c)
  case (Cons h hs)
  have "map (\<lambda>i. chain s c (Suc i)) [0..<length (h # hs)]
      = chain s c 1 # map (\<lambda>i. chain s c (Suc (Suc i))) [0..<length hs]"
    unfolding length_Cons upt_conv_Cons [OF zero_less_Suc] by (simp add: map_Suc_upt [symmetric] comp_def del: chain.simps upt_Suc)
  moreover have "chain s c 1 = chain_step s (c + 1)" by simp
  ultimately show ?case using Cons [of h "c + 1"] by (auto simp: chain_shift simp del: chain.simps upt_Suc)
qed simp

section \<open>What the operations guarantee\<close>

text \<open>A proof that \<open>GenerateProof\<close> returns, with the start state and count it returns, is accepted by
  \<open>VerifyProof\<close> for the same data and number of iterations, as long as the verification is neither cancelled
  nor out of time; another proof is rejected without an error.\<close>

theorem generated_proof_verifies:
  assumes "PoH_GenerateProof data iterations p = (Inr (prf, startState, startCount), p')"
    and "\<And>j. j < unat iterations \<Longrightarrow> \<not> cancelled j \<and> \<not> late j"
  shows "PoH_VerifyProof cancelled late startState data prf' startCount iterations = Inr (prf' = prf)"
  using assms verify_loop_chain [of 0 "unat iterations" cancelled late]
  by (auto simp: PoH_GenerateProof_def PoH_VerifyProof_def Let_def advance_loop_chain split: if_splits)

theorem generated_proof_verifies_witness:
  "PoH_VerifyProof (\<lambda>i. False) (\<lambda>i. False) 5 [1, 2] (record_step (chain 5 0 3) [1, 2]) 0 3 = Inr True"
proof -
  let ?p = "\<lparr>poh_state = 5, poh_count = 0, poh_lastTick = 0, poh_tickDelay = 1\<rparr>"
  have g: "PoH_GenerateProof [1, 2] 3 ?p =
      (Inr (record_step (chain 5 0 3) [1, 2], 5, 0), advance_loop (unat (3 :: uint64)) ?p)"
    by (simp add: PoH_GenerateProof_def Let_def MaxIterations_def advance_loop_chain del: chain.simps)
  show ?thesis by (subst generated_proof_verifies [OF g]) simp_all
qed

text \<open>\<open>VerifyHashRange\<close> accepts a list of hashes exactly if it is the list of the states of the chain that
  follow the start state, one step of \<open>advanceState\<close> each.\<close>

theorem hash_range_is_chain:
  assumes "length hs < 2 ^ 64"
  shows "PoH_VerifyHashRange s c hs \<longleftrightarrow>
    hs = map (\<lambda>i. poh_state (PoH_AdvanceState (word_of_nat (Suc i)) \<lparr>poh_state = s, poh_count = c, poh_lastTick = t, poh_tickDelay = d\<rparr>))
           [0..<length hs]"
proof -
  have "unat (word_of_nat (Suc i) :: uint64) = Suc i" if "i < length hs" for i
    using that assms by (simp add: unsigned_of_nat take_bit_nat_eq_self del: of_nat_Suc)
  then have "map (\<lambda>i. poh_state (PoH_AdvanceState (word_of_nat (Suc i)) \<lparr>poh_state = s, poh_count = c, poh_lastTick = t, poh_tickDelay = d\<rparr>))
          [0..<length hs] = map (\<lambda>i. chain s c (Suc i)) [0..<length hs]"
    by (intro map_cong refl) (simp add: PoH_AdvanceState_def PoH_advanceState_def advance_loop_chain del: chain.simps of_nat_Suc)
  then show ?thesis unfolding VerifyHashRange_chain [of s c hs] by (simp only:)
qed

theorem hash_range_is_chain_witness:
  "PoH_VerifyHashRange 5 0 [chain 5 0 1] \<longleftrightarrow>
   [chain 5 0 1] =
     map (\<lambda>i. poh_state (PoH_AdvanceState (word_of_nat (Suc i)) \<lparr>poh_state = 5, poh_count = 0, poh_lastTick = 0, poh_tickDelay = 1\<rparr>))
       [0..<length [chain 5 0 1]]"
  by (rule hash_range_is_chain) simp

text \<open>What \<open>Record\<close> returns passes \<open>Verify\<close> against the state before the record exactly if the data is not
  empty and at most a mebibyte and that state is not zero: an empty record can be made, but never be
  verified (unless its hash is zero). The counter must be ten thousand away from wrapping round.\<close>

theorem record_verifies:
  assumes "PoH_Record now data p = (prf, p')" and "unat (poh_count p') + 10000 < 2 ^ 64"
  shows "PoH_Verify (poh_state (PoH_Tick now p)) data prf (poh_count p') p' \<longleftrightarrow>
    (data \<noteq> [] \<or> prf = 0) \<and> length data \<le> 1024 * 1024 \<and> poh_state (PoH_Tick now p) \<noteq> 0"
proof -
  have "poh_count p' \<le> poh_count p' + 10000"
    using assms(2) by (simp add: word_le_nat_alt unat_word_ariths)
  then show ?thesis using assms(1) by (auto simp: PoH_Record_def PoH_Verify_def PoH_Tick_def Let_def)
qed

theorem record_verifies_witness:
  "\<exists>prf p'. PoH_Record 0 [7] (NewPoH 0 1 second) = (prf, p') \<and> PoH_Verify 1 [7] prf (poh_count p') p'"
proof -
  obtain h p' where r: "PoH_Record 0 [7] (NewPoH 0 1 second) = (h, p')" by fastforce
  have t: "PoH_Tick 0 (NewPoH 0 1 second) = NewPoH 0 1 second" "poh_state (NewPoH 0 1 second) = 1"
    by (simp_all add: PoH_Tick_def PoH_tickLocked_def NewPoH_def second_def)
  have "poh_count p' = 1"
    using r by (auto simp: PoH_Record_def PoH_tickLocked_def NewPoH_def second_def Let_def)
  then show ?thesis using record_verifies [OF r] r t by auto
qed

text \<open>Recording a list of data one after the other.\<close>

fun record_all :: "(nat \<Rightarrow> int) \<Rightarrow> nat \<Rightarrow> bytes list \<Rightarrow> PoH \<Rightarrow> hash32 list \<times> PoH" where
  "record_all now i [] p = ([], p)"
| "record_all now i (data # ds) p =
     (let (h, p1) = PoH_Record (now i) data p; (hs, p2) = record_all now (Suc i) ds p1 in (h # hs, p2))"

lemma batch_loop_records: "batch_loop now i ds p = record_all now i ds p"
  by (induction now i ds p rule: batch_loop.induct) (simp_all add: PoH_Record_def Let_def split: prod.splits)

text \<open>A batch is recorded as its records one after the other, each with its own reading of the clock, up to
  the first five hundred; what is beyond is dropped.\<close>

theorem batch_is_sequence: "PoH_BatchRecord now dataList p = record_all now 0 (take 500 dataList) p"
  by (simp add: PoH_BatchRecord_def MaxBatchSize_def batch_loop_records)

section \<open>Rolling back\<close>

text \<open>The operations that move the chain forward, with the number of steps they make.\<close>

inductive poh_forward :: "nat \<Rightarrow> PoH \<Rightarrow> PoH \<Rightarrow> bool" where
  refl: "poh_forward 0 p p"
| advance: "poh_forward n p p1 \<Longrightarrow> poh_forward (n + unat k) p (PoH_AdvanceState k p1)"
| tick: "poh_forward n p p1 \<Longrightarrow> poh_count (PoH_Tick now p1) = poh_count p1 + word_of_nat k \<Longrightarrow>
    k \<le> 1 \<Longrightarrow> poh_forward (n + k) p (PoH_Tick now p1)"
| rec: "poh_forward n p p1 \<Longrightarrow> poh_forward k p1 (PoH_Tick now p1) \<Longrightarrow> k \<le> 1 \<Longrightarrow>
    PoH_Record now data p1 = (h, p2) \<Longrightarrow> poh_forward (n + k + 1) p p2"
| proof_step: "poh_forward n p p1 \<Longrightarrow> PoH_GenerateProof data k p1 = (Inr r, p2) \<Longrightarrow> poh_forward (n + unat k) p p2"

lemma poh_forward_count:
  "poh_forward n p p' \<Longrightarrow> poh_count p' = poh_count p + word_of_nat n"
proof (induction rule: poh_forward.induct)
  case (rec n p p1 k now data h p2)
  then show ?case by (auto simp: PoH_Record_def PoH_Tick_def Let_def)
qed (auto simp: PoH_AdvanceState_def PoH_advanceState_def advance_loop_chain PoH_GenerateProof_def Let_def split: if_splits)

text \<open>A snapshot taken before any number of forward operations restores the state and count of that moment;
  synchronising to it is refused, because synchronisation never lowers the count.\<close>

theorem snapshot_rolls_back:
  assumes "poh_forward n p p'" and "unat (poh_count p) + n < 2 ^ 64"
  shows "(case PoH_GetSnapshot p of (s, c) \<Rightarrow>
      PoH_RestoreSnapshot now s c p' = (None, p'\<lparr>poh_state := poh_state p, poh_count := poh_count p, poh_lastTick := now\<rparr>) \<and>
      (0 < n \<longleftrightarrow> fst (PoH_Synchronize now s c p') \<noteq> None))"
proof -
  have "unat (poh_count p') = unat (poh_count p) + n"
    using poh_forward_count [OF assms(1)] assms(2) by (simp add: unat_word_ariths unsigned_of_nat take_bit_nat_eq_self)
  then show ?thesis
    by (auto simp: PoH_GetSnapshot_def PoH_RestoreSnapshot_def PoH_Synchronize_def word_less_nat_alt)
qed

theorem snapshot_rolls_back_witness:
  "PoH_RestoreSnapshot 9 5 0 (PoH_AdvanceState 4 \<lparr>poh_state = 5, poh_count = 0, poh_lastTick = 0, poh_tickDelay = 1\<rparr>) =
   (None, \<lparr>poh_state = 5, poh_count = 0, poh_lastTick = 9, poh_tickDelay = 1\<rparr>)"
proof -
  let ?p = "\<lparr>poh_state = 5, poh_count = 0, poh_lastTick = 0, poh_tickDelay = 1\<rparr>"
  have f: "poh_forward (0 + unat (4 :: uint64)) ?p (PoH_AdvanceState 4 ?p)" by (intro poh_forward.intros)
  show ?thesis
    using snapshot_rolls_back [OF f, of 9]
    by (simp add: PoH_GetSnapshot_def PoH_AdvanceState_def PoH_advanceState_def advance_loop_chain del: chain.simps)
qed

end
