(* ===== verification/DagTheory.thy ===== *)
theory DagTheory
  imports Hex GoTime Sha256
begin

text \<open>
  The event graph: \<open>consensus/diamantefinality/dag.go\<close>. Events are objects that the map of the graph, the
  nodes that created them, the finalizer and the queues of the consensus share by pointer, and whose
  \<open>Finalized\<close> flag is set through any of these pointers. So the model keeps a store of events: a pointer is a
  number, \<open>dag_store\<close> holds the object of each and \<open>dag_next\<close> is the first number not in use.

  \<open>NewEvent\<close> takes and releases its locks several times; it is modelled as one step. A range over a map is
  given by the order in which it visits the keys.
\<close>

section \<open>Data\<close>

record Event =
  ev_ID :: hash32
  ev_Creator :: hash32
  ev_ParentIDs :: "hash32 list"
  ev_Data :: bytes
  ev_Timestamp :: int
  ev_Height :: uint64
  ev_Finalized :: bool
  ev_PoHState :: hash32
  ev_PoHCount :: uint64
  ev_PoHProof :: hash32

type_synonym event_store = "nat \<Rightarrow> Event"

record Node =
  nd_ID :: hash32
  nd_Events :: "nat list"
  nd_Stake :: uint64
  nd_Active :: bool

record DAG =
  dag_Nodes :: "hash32 \<rightharpoonup> Node"
  dag_Events :: "hash32 \<rightharpoonup> nat"
  dag_MaxHeight :: uint64
  dag_store :: event_store
  dag_next :: nat

datatype dag_error =
    DagErrNew string
  | DagErrMissingCreator hash32 hash32
  | DagErrMissingParent hash32 hash32
  | DagErrZeroHeight hash32
  | DagErrHeight hash32 uint64 uint64
  | DagErrMaxHeight uint64 uint64

definition zero_Event :: Event where
  "zero_Event = \<lparr>ev_ID = 0, ev_Creator = 0, ev_ParentIDs = [], ev_Data = [], ev_Timestamp = 0, ev_Height = 0,
     ev_Finalized = False, ev_PoHState = 0, ev_PoHCount = 0, ev_PoHProof = 0\<rparr>"

definition NewDAG :: DAG where
  "NewDAG = \<lparr>dag_Nodes = Map.empty, dag_Events = Map.empty, dag_MaxHeight = 0, dag_store = (\<lambda>_. zero_Event), dag_next = 0\<rparr>"

section \<open>Nodes\<close>

definition DAG_AddNode :: "hash32 \<Rightarrow> uint64 \<Rightarrow> DAG \<Rightarrow> DAG" where
  "DAG_AddNode nodeID stake d =
     (case dag_Nodes d nodeID of
        Some node \<Rightarrow> d\<lparr>dag_Nodes := (dag_Nodes d)(nodeID \<mapsto> node\<lparr>nd_Stake := stake, nd_Active := True\<rparr>)\<rparr>
      | None \<Rightarrow> d\<lparr>dag_Nodes := (dag_Nodes d)(nodeID \<mapsto> \<lparr>nd_ID = nodeID, nd_Events = [], nd_Stake = stake, nd_Active = True\<rparr>)\<rparr>)"

definition DAG_UpdateNodeStake :: "hash32 \<Rightarrow> uint64 \<Rightarrow> DAG \<Rightarrow> dag_error option \<times> DAG" where
  "DAG_UpdateNodeStake nodeID newStake d =
     (case dag_Nodes d nodeID of
        None \<Rightarrow> (Some (DagErrNew ''UpdateNodeStake: node does not exist''), d)
      | Some node \<Rightarrow> (None, d\<lparr>dag_Nodes := (dag_Nodes d)(nodeID \<mapsto> node\<lparr>nd_Stake := newStake\<rparr>)\<rparr>))"

definition DAG_RemoveNode :: "hash32 \<Rightarrow> DAG \<Rightarrow> dag_error option \<times> DAG" where
  "DAG_RemoveNode nodeID d =
     (case dag_Nodes d nodeID of
        None \<Rightarrow> (Some (DagErrNew ''RemoveNode: node does not exist''), d)
      | Some node \<Rightarrow> (None, d\<lparr>dag_Nodes := (dag_Nodes d)(nodeID \<mapsto> node\<lparr>nd_Active := False\<rparr>)\<rparr>))"

definition DAG_GetActiveNodes :: "hash32 list \<Rightarrow> DAG \<Rightarrow> hash32 list" where
  "DAG_GetActiveNodes order d = filter (\<lambda>i. nd_Active (the (dag_Nodes d i))) order"

definition DAG_GetNodeStake :: "hash32 \<Rightarrow> DAG \<Rightarrow> dag_error + uint64" where
  "DAG_GetNodeStake nodeID d =
     (case dag_Nodes d nodeID of None \<Rightarrow> Inl (DagErrNew ''GetNodeStake: node not found'') | Some node \<Rightarrow> Inr (nd_Stake node))"

definition DAG_GetTotalStake :: "hash32 list \<Rightarrow> DAG \<Rightarrow> uint64" where
  "DAG_GetTotalStake order d =
     sum_list (map (\<lambda>i. let node = the (dag_Nodes d i) in if nd_Active node then nd_Stake node else 0) order)"

definition DAG_IsActiveValidator :: "hash32 \<Rightarrow> DAG \<Rightarrow> bool" where
  "DAG_IsActiveValidator nodeID d = (case dag_Nodes d nodeID of None \<Rightarrow> False | Some node \<Rightarrow> nd_Active node)"

section \<open>Events\<close>

definition dag_event :: "DAG \<Rightarrow> hash32 \<Rightarrow> Event option" where
  "dag_event d i = map_option (dag_store d) (dag_Events d i)"

text \<open>The loop over the parents starts from height 1; the final \<open>height++\<close> wraps at 64 bits.\<close>

fun parent_height :: "DAG \<Rightarrow> hash32 list \<Rightarrow> uint64 \<Rightarrow> uint64" where
  "parent_height d [] height = height"
| "parent_height d (pid # pids) height =
     parent_height d pids
       (case dag_event d pid of
          Some p \<Rightarrow> if ev_Height p \<ge> height then ev_Height p else height
        | None \<Rightarrow> height)"

definition event_height :: "DAG \<Rightarrow> hash32 list \<Rightarrow> uint64" where
  "event_height d parentIDs = (if length parentIDs > 0 then parent_height d parentIDs 1 + 1 else 1)"

text \<open>\<open>n\<close> is the number of events in the graph.\<close>

definition event_id :: "int \<Rightarrow> hash32 \<Rightarrow> nat \<Rightarrow> bytes \<Rightarrow> hash32" where
  "event_id now creator n data =
     sha256 (be_bytes 8 (word_of_int now :: 64 word) @ hash_bytes creator @ be_bytes 8 (word_of_nat (n + 1) :: 64 word) @ data)"

definition DAG_NewEvent ::
    "int \<Rightarrow> hash32 \<Rightarrow> hash32 list \<Rightarrow> bytes \<Rightarrow> DAG \<Rightarrow> (dag_error + nat) \<times> DAG" where
  "DAG_NewEvent now creator parentIDs data d =
     (case dag_Nodes d creator of
        None \<Rightarrow> (Inl (DagErrNew ''NewEvent: creator node does not exist''), d)
      | Some creatorNode \<Rightarrow>
          if \<not> nd_Active creatorNode then (Inl (DagErrNew ''NewEvent: creator node is inactive''), d)
          else
            let height = event_height d parentIDs;
                i = event_id now creator (card (dom (dag_Events d))) data;
                event = zero_Event\<lparr>ev_ID := i, ev_ParentIDs := parentIDs, ev_Timestamp := now, ev_Data := data,
                          ev_Creator := creator, ev_Height := height, ev_Finalized := False\<rparr>;
                r = dag_next d
            in (Inr r, d\<lparr>dag_store := (dag_store d)(r := event), dag_next := Suc r,
                 dag_Events := (dag_Events d)(i \<mapsto> r),
                 dag_Nodes := (dag_Nodes d)(creator \<mapsto> creatorNode\<lparr>nd_Events := nd_Events creatorNode @ [r]\<rparr>),
                 dag_MaxHeight := (if height > dag_MaxHeight d then height else dag_MaxHeight d)\<rparr>))"

definition DAG_GetEvent :: "hash32 \<Rightarrow> DAG \<Rightarrow> dag_error + nat" where
  "DAG_GetEvent i d =
     (case dag_Events d i of None \<Rightarrow> Inl (DagErrNew ''GetEvent: event not found'') | Some r \<Rightarrow> Inr r)"

definition DAG_GetEvents :: "DAG \<Rightarrow> hash32 \<rightharpoonup> nat" where
  "DAG_GetEvents d = dag_Events d"

definition DAG_GetUnfinalizedEvents :: "hash32 list \<Rightarrow> DAG \<Rightarrow> nat list" where
  "DAG_GetUnfinalizedEvents order d =
     filter (\<lambda>r. \<not> ev_Finalized (dag_store d r)) (map (\<lambda>i. the (dag_Events d i)) order)"

section \<open>Checking and repairing the graph\<close>

text \<open>The four checks of \<open>VerifyConsistency\<close>, each a loop that stops at the first offender.\<close>

fun check_creators :: "DAG \<Rightarrow> hash32 list \<Rightarrow> dag_error option" where
  "check_creators d [] = None"
| "check_creators d (i # order) =
     (let event = the (dag_event d i) in
      if dag_Nodes d (ev_Creator event) = None then Some (DagErrMissingCreator i (ev_Creator event))
      else check_creators d order)"

fun missing_parent :: "DAG \<Rightarrow> hash32 list \<Rightarrow> hash32 option" where
  "missing_parent d [] = None"
| "missing_parent d (pid # pids) = (if dag_Events d pid = None then Some pid else missing_parent d pids)"

fun check_parents :: "DAG \<Rightarrow> hash32 list \<Rightarrow> dag_error option" where
  "check_parents d [] = None"
| "check_parents d (i # order) =
     (case missing_parent d (ev_ParentIDs (the (dag_event d i))) of
        Some pid \<Rightarrow> Some (DagErrMissingParent i pid)
      | None \<Rightarrow> check_parents d order)"

fun max_height :: "DAG \<Rightarrow> hash32 list \<Rightarrow> uint64 \<Rightarrow> uint64" where
  "max_height d [] m = m"
| "max_height d (i # order) m =
     (let h = ev_Height (the (dag_event d i)) in max_height d order (if h > m then h else m))"

fun check_heights :: "DAG \<Rightarrow> hash32 list \<Rightarrow> dag_error option" where
  "check_heights d [] = None"
| "check_heights d (i # order) =
     (let event = the (dag_event d i) in
      if ev_Height event = 0 then Some (DagErrZeroHeight i)
      else if length (ev_ParentIDs event) > 0 \<and> ev_Height event \<le> max_height d (ev_ParentIDs event) 0
        then Some (DagErrHeight i (ev_Height event) (max_height d (ev_ParentIDs event) 0))
      else check_heights d order)"

definition DAG_VerifyConsistency ::
    "hash32 list \<Rightarrow> hash32 list \<Rightarrow> hash32 list \<Rightarrow> hash32 list \<Rightarrow> DAG \<Rightarrow> dag_error option" where
  "DAG_VerifyConsistency order1 order2 order3 order4 d =
     (case check_creators d order1 of
        Some e \<Rightarrow> Some e
      | None \<Rightarrow>
          (case check_parents d order2 of
             Some e \<Rightarrow> Some e
           | None \<Rightarrow>
               (case check_heights d order3 of
                  Some e \<Rightarrow> Some e
                | None \<Rightarrow>
                    let actualMaxHeight = max_height d order4 0 in
                    if dag_MaxHeight d \<noteq> actualMaxHeight then Some (DagErrMaxHeight (dag_MaxHeight d) actualMaxHeight)
                    else None)))"

text \<open>Each pass collects the events to remove before it removes them; \<open>order2\<close> and \<open>order3\<close> visit what the
  passes before have left.\<close>

definition orphans :: "DAG \<Rightarrow> hash32 list \<Rightarrow> hash32 list" where
  "orphans d order = filter (\<lambda>i. dag_Nodes d (ev_Creator (the (dag_event d i))) = None) order"

definition dangling :: "DAG \<Rightarrow> hash32 list \<Rightarrow> hash32 list" where
  "dangling d order = filter (\<lambda>i. missing_parent d (ev_ParentIDs (the (dag_event d i))) \<noteq> None) order"

definition delete_events :: "hash32 list \<Rightarrow> DAG \<Rightarrow> DAG" where
  "delete_events ids d = d\<lparr>dag_Events := dag_Events d |` (- set ids)\<rparr>"

definition DAG_RepairConsistency :: "hash32 list \<Rightarrow> hash32 list \<Rightarrow> hash32 list \<Rightarrow> DAG \<Rightarrow> bool \<times> DAG" where
  "DAG_RepairConsistency order1 order2 order3 d =
     (let rem1 = orphans d order1;
          d1 = delete_events rem1 d;
          rem2 = dangling d1 order2;
          d2 = delete_events rem2 d1;
          actualMaxHeight = max_height d2 order3 0
      in (rem1 \<noteq> [] \<or> rem2 \<noteq> [] \<or> dag_MaxHeight d2 \<noteq> actualMaxHeight, d2\<lparr>dag_MaxHeight := actualMaxHeight\<rparr>))"

section \<open>Saving and restoring\<close>

text \<open>What \<open>json.Marshal\<close> writes: nodes and events by value. A text that does not parse is \<open>None\<close>.\<close>

record NodeJSON =
  nj_ID :: hash32
  nj_Events :: "Event list"
  nj_Stake :: uint64
  nj_Active :: bool

record DAGJSON =
  dj_nodes :: "(string \<times> NodeJSON) list"
  dj_events :: "(string \<times> Event) list"
  dj_max_height :: uint64

definition node_json :: "event_store \<Rightarrow> Node \<Rightarrow> NodeJSON" where
  "node_json s n = \<lparr>nj_ID = nd_ID n, nj_Events = map s (nd_Events n), nj_Stake = nd_Stake n, nj_Active = nd_Active n\<rparr>"

definition DAG_GetState :: "hash32 list \<Rightarrow> hash32 list \<Rightarrow> DAG \<Rightarrow> DAGJSON" where
  "DAG_GetState order1 order2 d =
     \<lparr>dj_nodes = map (\<lambda>i. (byteArrayToString i, node_json (dag_store d) (the (dag_Nodes d i)))) order1,
      dj_events = map (\<lambda>i. (byteArrayToString i, the (dag_event d i))) order2,
      dj_max_height = dag_MaxHeight d\<rparr>"

text \<open>Decoding allocates a new object for every event of every node and for every event of the graph.\<close>

fun alloc_events :: "Event list \<Rightarrow> DAG \<Rightarrow> nat list \<times> DAG" where
  "alloc_events [] d = ([], d)"
| "alloc_events (e # es) d =
     (let r = dag_next d;
          (rs, d') = alloc_events es (d\<lparr>dag_store := (dag_store d)(r := e), dag_next := Suc r\<rparr>)
      in (r # rs, d'))"

fun restore_nodes :: "(string \<times> NodeJSON) list \<Rightarrow> DAG \<Rightarrow> dag_error option \<times> DAG" where
  "restore_nodes [] d = (None, d)"
| "restore_nodes ((s, nj) # rest) d =
     (case stringToByteArray s of
        None \<Rightarrow> (Some (DagErrNew ''RestoreState: failed to parse node ID''), d)
      | Some i \<Rightarrow>
          let (rs, d1) = alloc_events (nj_Events nj) d
          in restore_nodes rest (d1\<lparr>dag_Nodes := (dag_Nodes d1)(i \<mapsto>
               \<lparr>nd_ID = nj_ID nj, nd_Events = rs, nd_Stake = nj_Stake nj, nd_Active = nj_Active nj\<rparr>)\<rparr>))"

fun restore_events :: "(string \<times> Event) list \<Rightarrow> DAG \<Rightarrow> dag_error option \<times> DAG" where
  "restore_events [] d = (None, d)"
| "restore_events ((s, e) # rest) d =
     (case stringToByteArray s of
        None \<Rightarrow> (Some (DagErrNew ''RestoreState: failed to parse event ID''), d)
      | Some i \<Rightarrow>
          let r = dag_next d
          in restore_events rest (d\<lparr>dag_store := (dag_store d)(r := e), dag_next := Suc r, dag_Events := (dag_Events d)(i \<mapsto> r)\<rparr>))"

definition DAG_RestoreState :: "DAGJSON option \<Rightarrow> DAG \<Rightarrow> dag_error option \<times> DAG" where
  "DAG_RestoreState stateData d =
     (case stateData of
        None \<Rightarrow> (Some (DagErrNew ''RestoreState: failed to unmarshal state data''), d)
      | Some st \<Rightarrow>
          (case restore_nodes (dj_nodes st) (d\<lparr>dag_Nodes := Map.empty\<rparr>) of
             (Some e, d1) \<Rightarrow> (Some e, d1)
           | (None, d1) \<Rightarrow>
               (case restore_events (dj_events st) (d1\<lparr>dag_Events := Map.empty\<rparr>) of
                  (Some e, d2) \<Rightarrow> (Some e, d2)
                | (None, d2) \<Rightarrow> (None, d2\<lparr>dag_MaxHeight := dj_max_height st\<rparr>))))"

section \<open>What the checks mean\<close>

definition dag_consistent :: "DAG \<Rightarrow> bool" where
  "dag_consistent d \<longleftrightarrow>
     (\<forall>i e. dag_event d i = Some e \<longrightarrow>
        ev_Creator e \<in> dom (dag_Nodes d) \<and> set (ev_ParentIDs e) \<subseteq> dom (dag_Events d) \<and> ev_Height e \<noteq> 0 \<and>
        (\<forall>p\<in>set (ev_ParentIDs e). ev_Height (the (dag_event d p)) < ev_Height e) \<and> ev_Height e \<le> dag_MaxHeight d) \<and>
     (dag_MaxHeight d = 0 \<or> (\<exists>i e. dag_event d i = Some e \<and> ev_Height e = dag_MaxHeight d))"

lemma dag_event_dom [simp]: "dom (dag_event d) = dom (dag_Events d)"
  by (auto simp: dag_event_def)

lemma all_dom_iff: "(\<forall>i e. m i = Some e \<longrightarrow> P i e) \<longleftrightarrow> (\<forall>i\<in>dom m. P i (the (m i)))"
  by force

lemma dag_event_in_dom: "i \<in> dom (dag_Events d) \<Longrightarrow> dag_event d i = Some (the (dag_event d i))"
  by (auto simp: dag_event_def)

lemma max_height_ge:
  "m \<le> max_height d order m" "i \<in> set order \<Longrightarrow> ev_Height (the (dag_event d i)) \<le> max_height d order m"
proof -
  have *: "m \<le> max_height d order m \<and> (\<forall>i\<in>set order. ev_Height (the (dag_event d i)) \<le> max_height d order m)"
  proof (induction d order m rule: max_height.induct)
    case (2 d i order m)
    let ?h = "ev_Height (the (dag_event d i))"
    define m' where "m' = (if ?h > m then ?h else m)"
    have le: "m \<le> m'" "?h \<le> m'" by (auto simp: m'_def)
    have IH: "m' \<le> max_height d order m'" "\<forall>j\<in>set order. ev_Height (the (dag_event d j)) \<le> max_height d order m'"
      using 2 [OF refl] by (auto simp: m'_def)
    note le [THEN order.trans, OF IH(1)]
    moreover have "max_height d (i # order) m = max_height d order m'" by (simp add: m'_def Let_def)
    ultimately show ?case using IH(2) by simp
  qed simp
  then show "m \<le> max_height d order m"
    "i \<in> set order \<Longrightarrow> ev_Height (the (dag_event d i)) \<le> max_height d order m" by auto
qed

lemma max_height_attained:
  "max_height d order m = m \<or> (\<exists>i\<in>set order. max_height d order m = ev_Height (the (dag_event d i)))"
  by (induction d order m rule: max_height.induct) (auto simp: Let_def split: if_splits)

lemma max_height_less:
  assumes "0 < h"
  shows "max_height d order 0 < h \<longleftrightarrow> (\<forall>i\<in>set order. ev_Height (the (dag_event d i)) < h)"
proof
  assume "max_height d order 0 < h"
  then show "\<forall>i\<in>set order. ev_Height (the (dag_event d i)) < h"
    using max_height_ge(2) [THEN order.strict_trans1] by blast
next
  assume *: "\<forall>i\<in>set order. ev_Height (the (dag_event d i)) < h"
  show "max_height d order 0 < h"
    using max_height_attained [of d order 0]
  proof
    assume "\<exists>i\<in>set order. max_height d order 0 = ev_Height (the (dag_event d i))"
    then show ?thesis using * by auto
  qed (simp add: assms)
qed

lemma missing_parent_None: "missing_parent d pids = None \<longleftrightarrow> set pids \<subseteq> dom (dag_Events d)"
  by (induction d pids rule: missing_parent.induct) auto

lemma check_creators_None:
  "check_creators d order = None \<longleftrightarrow> (\<forall>i\<in>set order. ev_Creator (the (dag_event d i)) \<in> dom (dag_Nodes d))"
  by (induction d order rule: check_creators.induct) (auto simp: Let_def)

lemma check_parents_None:
  "check_parents d order = None \<longleftrightarrow> (\<forall>i\<in>set order. set (ev_ParentIDs (the (dag_event d i))) \<subseteq> dom (dag_Events d))"
  by (induction d order rule: check_parents.induct) (auto simp: missing_parent_None [symmetric] split: option.splits)

lemma check_heights_None:
  "check_heights d order = None \<longleftrightarrow>
     (\<forall>i\<in>set order. ev_Height (the (dag_event d i)) \<noteq> 0 \<and>
        (\<forall>p\<in>set (ev_ParentIDs (the (dag_event d i))). ev_Height (the (dag_event d p)) < ev_Height (the (dag_event d i))))"
proof (induction d order rule: check_heights.induct)
  case (2 d i order)
  let ?e = "the (dag_event d i)"
  show ?case
  proof (cases "ev_Height ?e = 0")
    case False
    then have "max_height d (ev_ParentIDs ?e) 0 < ev_Height ?e \<longleftrightarrow>
        (\<forall>p\<in>set (ev_ParentIDs ?e). ev_Height (the (dag_event d p)) < ev_Height ?e)"
      by (intro max_height_less) (simp add: word_neq_0_conv)
    then have "(length (ev_ParentIDs ?e) > 0 \<and> ev_Height ?e \<le> max_height d (ev_ParentIDs ?e) 0) \<longleftrightarrow>
        \<not> (\<forall>p\<in>set (ev_ParentIDs ?e). ev_Height (the (dag_event d p)) < ev_Height ?e)"
      unfolding not_less [symmetric] by (cases "ev_ParentIDs ?e = []") simp_all
    with 2 [OF refl] False show ?thesis by (simp only: check_heights.simps Let_def if_False list.set ball_simps) auto
  qed (simp add: Let_def)
qed simp

lemma max_height_eq:
  assumes "range_order (dag_Events d) order"
  shows "dag_MaxHeight d = max_height d order 0 \<longleftrightarrow>
    (\<forall>i e. dag_event d i = Some e \<longrightarrow> ev_Height e \<le> dag_MaxHeight d) \<and>
    (dag_MaxHeight d = 0 \<or> (\<exists>i e. dag_event d i = Some e \<and> ev_Height e = dag_MaxHeight d))"
proof -
  have dom: "set order = dom (dag_Events d)" using assms by (simp add: range_order_def)
  have ev: "i \<in> set order \<longleftrightarrow> (\<exists>e. dag_event d i = Some e)" for i
    unfolding dom dag_event_dom [symmetric] by blast
  let ?m = "max_height d order 0"
  have ge: "ev_Height e \<le> ?m" if "dag_event d i = Some e" for i e
    using max_height_ge(2) [of i order d 0] that ev [of i] by auto
  have att: "?m = 0 \<or> (\<exists>i e. dag_event d i = Some e \<and> ev_Height e = ?m)"
    using max_height_attained [of d order 0] ev by (metis option.sel)
  show ?thesis
  proof
    assume "dag_MaxHeight d = ?m"
    then show "(\<forall>i e. dag_event d i = Some e \<longrightarrow> ev_Height e \<le> dag_MaxHeight d) \<and>
      (dag_MaxHeight d = 0 \<or> (\<exists>i e. dag_event d i = Some e \<and> ev_Height e = dag_MaxHeight d))"
      using ge att by auto
  next
    assume a: "(\<forall>i e. dag_event d i = Some e \<longrightarrow> ev_Height e \<le> dag_MaxHeight d) \<and>
      (dag_MaxHeight d = 0 \<or> (\<exists>i e. dag_event d i = Some e \<and> ev_Height e = dag_MaxHeight d))"
    from att have "?m \<le> dag_MaxHeight d"
    proof
      assume "\<exists>i e. dag_event d i = Some e \<and> ev_Height e = ?m"
      then show ?thesis using a by metis
    qed simp
    moreover have "dag_MaxHeight d \<le> ?m" using a ge by (metis word_zero_le)
    ultimately show "dag_MaxHeight d = ?m" by simp
  qed
qed

lemma VerifyConsistency_iff:
  assumes "range_order (dag_Events d) order1" "range_order (dag_Events d) order2"
    "range_order (dag_Events d) order3" "range_order (dag_Events d) order4"
  shows "DAG_VerifyConsistency order1 order2 order3 order4 d = None \<longleftrightarrow> dag_consistent d"
proof -
  have sets: "set order1 = dom (dag_event d)" "set order2 = dom (dag_event d)" "set order3 = dom (dag_event d)"
    using assms by (simp_all add: range_order_def)
  have "DAG_VerifyConsistency order1 order2 order3 order4 d = None \<longleftrightarrow>
      check_creators d order1 = None \<and> check_parents d order2 = None \<and> check_heights d order3 = None \<and>
      dag_MaxHeight d = max_height d order4 0"
    by (auto simp: DAG_VerifyConsistency_def Let_def split: option.splits)
  also have "\<dots> \<longleftrightarrow> dag_consistent d"
    unfolding check_creators_None check_parents_None check_heights_None max_height_eq [OF assms(4)] sets dag_consistent_def
      all_dom_iff [of "dag_event d"] by blast
  finally show ?thesis .
qed

text \<open>C25: A graph that \<open>VerifyConsistency\<close> accepts has no cycle: no event is its own ancestor, since every
  step to a parent lowers the height.\<close>

theorem verified_dag_acyclic:
  assumes "range_order (dag_Events d) order1" "range_order (dag_Events d) order2"
    and "range_order (dag_Events d) order3" "range_order (dag_Events d) order4"
    and "DAG_VerifyConsistency order1 order2 order3 order4 d = None"
  shows "acyclic {(p, i). \<exists>e. dag_event d i = Some e \<and> p \<in> set (ev_ParentIDs e)}"
proof -
  have c: "dag_consistent d" using assms VerifyConsistency_iff by blast
  let ?h = "\<lambda>i. unat (ev_Height (the (dag_event d i)))"
  have "{(p, i). \<exists>e. dag_event d i = Some e \<and> p \<in> set (ev_ParentIDs e)} \<subseteq> measure ?h"
  proof clarify
    fix p i e assume e: "dag_event d i = Some e" "p \<in> set (ev_ParentIDs e)"
    then have "ev_Height (the (dag_event d p)) < ev_Height e" using c unfolding dag_consistent_def by blast
    then show "(p, i) \<in> measure ?h" using e by (simp add: word_less_nat_alt)
  qed
  then show ?thesis by (intro wf_acyclic wf_subset [OF wf_measure])
qed

section \<open>Graphs the operations build\<close>

text \<open>Pointers stay inside the store and an event is filed under its own ID.\<close>

definition dag_wf :: "DAG \<Rightarrow> bool" where
  "dag_wf d \<longleftrightarrow>
     finite (dom (dag_Events d)) \<and> (\<forall>i r. dag_Events d i = Some r \<longrightarrow> r < dag_next d \<and> ev_ID (dag_store d r) = i) \<and>
     (\<forall>i n. dag_Nodes d i = Some n \<longrightarrow> (\<forall>r\<in>set (nd_Events n). r < dag_next d))"

inductive dag_built :: "DAG \<Rightarrow> bool" where
  init: "dag_built NewDAG"
| node: "dag_built d \<Longrightarrow> dag_built (DAG_AddNode i stake d)"
| stake: "dag_built d \<Longrightarrow> dag_built (snd (DAG_UpdateNodeStake i stake d))"
| remove: "dag_built d \<Longrightarrow> dag_built (snd (DAG_RemoveNode i d))"
| event: "dag_built d \<Longrightarrow> set parents \<subseteq> dom (dag_Events d) \<Longrightarrow>
    event_id now creator (card (dom (dag_Events d))) data \<notin> dom (dag_Events d) \<Longrightarrow>
    unat (dag_MaxHeight d) + 1 < 2 ^ 64 \<Longrightarrow> dag_built (snd (DAG_NewEvent now creator parents data d))"

lemma dag_event_AddNode [frame_simps]:
  "dag_event (DAG_AddNode i s d) = dag_event d" "dag_MaxHeight (DAG_AddNode i s d) = dag_MaxHeight d"
  "dag_Events (DAG_AddNode i s d) = dag_Events d" "dom (dag_Nodes (DAG_AddNode i s d)) = insert i (dom (dag_Nodes d))"
  by (auto simp: DAG_AddNode_def dag_event_def fun_eq_iff split: option.splits)

lemma dag_event_UpdateNodeStake [frame_simps]:
  "dag_event (snd (DAG_UpdateNodeStake i s d)) = dag_event d"
  "dag_MaxHeight (snd (DAG_UpdateNodeStake i s d)) = dag_MaxHeight d"
  "dag_Events (snd (DAG_UpdateNodeStake i s d)) = dag_Events d"
  "dom (dag_Nodes (snd (DAG_UpdateNodeStake i s d))) = dom (dag_Nodes d)"
  by (auto simp: DAG_UpdateNodeStake_def dag_event_def fun_eq_iff split: option.splits)

lemma dag_event_RemoveNode [frame_simps]:
  "dag_event (snd (DAG_RemoveNode i d)) = dag_event d" "dag_MaxHeight (snd (DAG_RemoveNode i d)) = dag_MaxHeight d"
  "dag_Events (snd (DAG_RemoveNode i d)) = dag_Events d"
  "dom (dag_Nodes (snd (DAG_RemoveNode i d))) = dom (dag_Nodes d)"
  by (auto simp: DAG_RemoveNode_def dag_event_def fun_eq_iff split: option.splits)

lemma parent_height_bounds:
  "h \<le> parent_height d pids h \<and> (\<forall>p\<in>set pids. \<forall>e. dag_event d p = Some e \<longrightarrow> ev_Height e \<le> parent_height d pids h)"
proof (induction d pids h rule: parent_height.induct)
  case (2 d pid pids h)
  define h' where "h' = (case dag_event d pid of Some p \<Rightarrow> if ev_Height p \<ge> h then ev_Height p else h | None \<Rightarrow> h)"
  have le: "h \<le> h'" "\<And>e. dag_event d pid = Some e \<Longrightarrow> ev_Height e \<le> h'"
    by (auto simp: h'_def split: option.splits)
  have IH: "h' \<le> parent_height d pids h'"
    "\<forall>p\<in>set pids. \<forall>e. dag_event d p = Some e \<longrightarrow> ev_Height e \<le> parent_height d pids h'" using 2 by (auto simp: h'_def)
  have "parent_height d (pid # pids) h = parent_height d pids h'" by (simp add: h'_def)
  then show ?case using IH(2) le(1) [THEN order.trans, OF IH(1)] le(2) [THEN order.trans, OF _ IH(1)] by simp
qed simp

lemma parent_height_le:
  "h \<le> m \<Longrightarrow> (\<And>i e. dag_event d i = Some e \<Longrightarrow> ev_Height e \<le> m) \<Longrightarrow> parent_height d pids h \<le> m"
  by (induction d pids h rule: parent_height.induct) (auto split: option.splits)

text \<open>The effect of a successful \<open>NewEvent\<close>.\<close>

lemma NewEvent_effect:
  assumes "DAG_NewEvent now creator parents data d = (Inr r, d')" and wf: "dag_wf d"
  obtains e where "dag_event d' = (dag_event d)(ev_ID e \<mapsto> e)" and "ev_ID e = event_id now creator (card (dom (dag_Events d))) data"
    and "ev_Creator e = creator" and "ev_ParentIDs e = parents" and "ev_Height e = event_height d parents"
    and "ev_Data e = data" and "\<not> ev_Finalized e"
    and "dag_MaxHeight d' = max (dag_MaxHeight d) (ev_Height e)" and "dom (dag_Nodes d') = dom (dag_Nodes d)"
    and "dag_Events d' = (dag_Events d)(ev_ID e \<mapsto> r)" and "creator \<in> dom (dag_Nodes d)" and "dag_wf d'"
proof -
  let ?i = "event_id now creator (card (dom (dag_Events d))) data"
  let ?e = "zero_Event\<lparr>ev_ID := ?i, ev_ParentIDs := parents, ev_Timestamp := now, ev_Data := data,
      ev_Creator := creator, ev_Height := event_height d parents, ev_Finalized := False\<rparr>"
  obtain n where n: "dag_Nodes d creator = Some n" "nd_Active n" "r = dag_next d"
    and d': "d' = d\<lparr>dag_store := (dag_store d)(r := ?e), dag_next := Suc r, dag_Events := (dag_Events d)(?i \<mapsto> r),
        dag_Nodes := (dag_Nodes d)(creator \<mapsto> n\<lparr>nd_Events := nd_Events n @ [r]\<rparr>),
        dag_MaxHeight := (if event_height d parents > dag_MaxHeight d then event_height d parents else dag_MaxHeight d)\<rparr>"
    using assms(1) by (auto simp: DAG_NewEvent_def Let_def split: option.splits if_splits)
  have old: "s < dag_next d" if "dag_Events d j = Some s" for j s using wf that by (simp add: dag_wf_def)
  have "dag_event d' j = ((dag_event d)(?i \<mapsto> ?e)) j" for j
    using old [of j] n(3) by (cases "dag_Events d j") (auto simp: dag_event_def d')
  then have ev: "dag_event d' = (dag_event d)(ev_ID ?e \<mapsto> ?e)" by (auto simp: fun_eq_iff)
  have "dag_wf d'"
    unfolding dag_wf_def
  proof (intro conjI allI impI ballI)
    show "finite (dom (dag_Events d'))" using wf by (simp add: d' dag_wf_def)
    show "s < dag_next d'" "ev_ID (dag_store d' s) = j" if "dag_Events d' j = Some s" for j s
      using that wf n(3) by (auto simp: d' dag_wf_def less_Suc_eq split: if_splits)
    show "s < dag_next d'" if "dag_Nodes d' j = Some m" "s \<in> set (nd_Events m)" for j m s
      using that wf n by (auto simp: d' dag_wf_def less_Suc_eq split: if_splits)
  qed
  moreover have "dom (dag_Nodes d') = dom (dag_Nodes d)" using n(1) by (auto simp: d')
  moreover have "dag_MaxHeight d' = max (dag_MaxHeight d) (event_height d parents)" by (auto simp: d' max_def)
  ultimately show thesis using n(1) by (intro that [OF ev]) (auto simp: d')
qed

lemma event_height_props:
  assumes c: "dag_consistent d" and p: "set parents \<subseteq> dom (dag_Events d)" and m: "unat (dag_MaxHeight d) + 1 < 2 ^ 64"
  shows "event_height d parents \<noteq> 0"
    and "q \<in> set parents \<Longrightarrow> ev_Height (the (dag_event d q)) < event_height d parents"
proof -
  let ?h = "parent_height d parents 1"
  have "?h \<le> max 1 (dag_MaxHeight d)"
    using c by (intro parent_height_le) (auto simp: dag_consistent_def intro: max.coboundedI2)
  then have "unat ?h + 1 < 2 ^ 64"
    using m by (auto simp: word_le_nat_alt max_def split: if_splits)
  then have h: "unat (?h + 1) = unat ?h + 1" by (simp add: unat_word_ariths)
  then have "?h + 1 \<noteq> 0" by (metis Suc_eq_plus1 nat.distinct(1) unat_0)
  then show "event_height d parents \<noteq> 0" by (simp add: event_height_def)
  assume q: "q \<in> set parents"
  then obtain e where e: "dag_event d q = Some e" using p dag_event_in_dom by blast
  then have "ev_Height e \<le> ?h" using parent_height_bounds [of 1 d parents] q by auto
  then show "ev_Height (the (dag_event d q)) < event_height d parents"
    using e h q by (auto simp: event_height_def word_less_nat_alt word_le_nat_alt)
qed

lemma NewEvent_consistent:
  assumes c: "dag_consistent d" and wf: "dag_wf d" and p: "set parents \<subseteq> dom (dag_Events d)"
    and fresh: "event_id now creator (card (dom (dag_Events d))) data \<notin> dom (dag_Events d)"
    and m: "unat (dag_MaxHeight d) + 1 < 2 ^ 64"
    and n: "DAG_NewEvent now creator parents data d = (Inr r, d')"
  shows "dag_consistent d' \<and> dag_wf d'"
proof -
  from n wf obtain e where ev: "dag_event d' = (dag_event d)(ev_ID e \<mapsto> e)"
    and e: "ev_ID e = event_id now creator (card (dom (dag_Events d))) data" "ev_Creator e = creator" "ev_ParentIDs e = parents"
      "ev_Height e = event_height d parents"
    and d': "dag_MaxHeight d' = max (dag_MaxHeight d) (ev_Height e)" "dom (dag_Nodes d') = dom (dag_Nodes d)"
      "dag_Events d' = (dag_Events d)(ev_ID e \<mapsto> r)" "creator \<in> dom (dag_Nodes d)" "dag_wf d'"
    by (rule NewEvent_effect)
  have new: "ev_ID e \<notin> dom (dag_Events d)" using fresh e(1) by simp
  have old: "dag_event d' q = dag_event d q" if "q \<in> dom (dag_Events d)" for q
    using that new by (auto simp: ev)
  have dom: "dom (dag_Events d') = insert (ev_ID e) (dom (dag_Events d))" by (simp add: d'(3))
  note hp = event_height_props [OF c p m]
  have "ev_Creator x \<in> dom (dag_Nodes d') \<and> set (ev_ParentIDs x) \<subseteq> dom (dag_Events d') \<and> ev_Height x \<noteq> 0 \<and>
      (\<forall>q\<in>set (ev_ParentIDs x). ev_Height (the (dag_event d' q)) < ev_Height x) \<and> ev_Height x \<le> dag_MaxHeight d'"
    if x: "dag_event d' j = Some x" for j x
  proof (cases "j = ev_ID e")
    case True
    then have "x = e" using x by (simp add: ev)
    then show ?thesis using hp p d' e old dom by (auto simp: subset_iff)
  next
    case False
    then have "dag_event d j = Some x" using x by (simp add: ev)
    then have *: "ev_Creator x \<in> dom (dag_Nodes d)" "set (ev_ParentIDs x) \<subseteq> dom (dag_Events d)" "ev_Height x \<noteq> 0"
      "\<forall>q\<in>set (ev_ParentIDs x). ev_Height (the (dag_event d q)) < ev_Height x" "ev_Height x \<le> dag_MaxHeight d"
      using c by (auto simp: dag_consistent_def)
    moreover have "ev_Height x \<le> dag_MaxHeight d'" using *(5) d'(1) by (simp add: max.coboundedI1)
    moreover have "\<forall>q\<in>set (ev_ParentIDs x). dag_event d' q = dag_event d q" using *(2) old by blast
    ultimately show ?thesis using d'(2) dom by auto
  qed
  moreover have "\<exists>i x. dag_event d' i = Some x \<and> ev_Height x = dag_MaxHeight d'"
  proof (cases "ev_Height e \<ge> dag_MaxHeight d")
    case True
    then show ?thesis using d'(1) ev by (intro exI [of _ "ev_ID e"] exI [of _ e]) simp
  next
    case False
    then have lt: "ev_Height e < dag_MaxHeight d" by simp
    then have "dag_MaxHeight d \<noteq> 0" by auto
    then obtain i x where "dag_event d i = Some x" "ev_Height x = dag_MaxHeight d" using c by (auto simp: dag_consistent_def)
    moreover from this have "dag_event d' i = dag_event d i" by (intro old) (auto simp: dag_event_def)
    moreover have "dag_MaxHeight d' = dag_MaxHeight d" using d'(1) lt by (simp add: max.absorb1)
    ultimately show ?thesis by auto
  qed
  ultimately show ?thesis using d'(5) unfolding dag_consistent_def by blast
qed

lemma NewEvent_error: "DAG_NewEvent now creator parents data d = (Inl e, d') \<Longrightarrow> d' = d"
  by (auto simp: DAG_NewEvent_def Let_def split: option.splits if_splits)

lemma dag_consistent_nodes:
  "dag_consistent d \<Longrightarrow> dag_event d' = dag_event d \<Longrightarrow> dag_MaxHeight d' = dag_MaxHeight d \<Longrightarrow>
   dag_Events d' = dag_Events d \<Longrightarrow> dom (dag_Nodes d) \<subseteq> dom (dag_Nodes d') \<Longrightarrow> dag_consistent d'"
  unfolding dag_consistent_def by (simp only:) (meson subsetD)

lemma dag_consistent_ops:
  "dag_consistent d \<Longrightarrow> dag_consistent (DAG_AddNode i s d)"
  "dag_consistent d \<Longrightarrow> dag_consistent (snd (DAG_UpdateNodeStake i s d))"
  "dag_consistent d \<Longrightarrow> dag_consistent (snd (DAG_RemoveNode i d))"
  by (erule dag_consistent_nodes; auto simp: frame_simps)+

lemma dag_wf_nodes:
  "dag_wf d \<Longrightarrow> dag_wf (DAG_AddNode i s d)" "dag_wf d \<Longrightarrow> dag_wf (snd (DAG_UpdateNodeStake i s d))"
  "dag_wf d \<Longrightarrow> dag_wf (snd (DAG_RemoveNode i d))"
  by (auto simp: dag_wf_def DAG_AddNode_def DAG_UpdateNodeStake_def DAG_RemoveNode_def split: option.splits)

lemma dag_built_ok: "dag_built d \<Longrightarrow> dag_consistent d \<and> dag_wf d"
proof (induction rule: dag_built.induct)
  case (event d parents now creator data)
  then show ?case
  proof (cases "DAG_NewEvent now creator parents data d")
    case (Pair x d')
    then show ?thesis
      using event NewEvent_error [of now creator parents data d] NewEvent_consistent [of d parents now creator data _ d']
      by (cases x) auto
  qed
next
  case init
  then show ?case by (simp add: dag_consistent_def dag_wf_def NewDAG_def dag_event_def)
qed (simp_all add: dag_consistent_ops dag_wf_nodes)

text \<open>C19: Every graph that is built by adding, restaking and deactivating nodes and by \<open>NewEvent\<close> with parents
  that are in the graph passes \<open>VerifyConsistency\<close>, in whatever order its loops visit the events: creators and
  parents exist, heights grow from parents to children and \<open>MaxHeight\<close> is the greatest height. Assumed of the
  steps are that no two events get the same hash and that the height does not reach 2^64.\<close>

theorem built_dag_verifies:
  assumes "dag_built d" and "range_order (dag_Events d) order1" "range_order (dag_Events d) order2"
    "range_order (dag_Events d) order3" "range_order (dag_Events d) order4"
  shows "DAG_VerifyConsistency order1 order2 order3 order4 d = None"
  using assms dag_built_ok VerifyConsistency_iff by blast

definition dag_example :: DAG where
  "dag_example = snd (DAG_NewEvent 0 1 [] [] (DAG_AddNode 1 10 NewDAG))"

lemma dag_example_built: "dag_built dag_example"
  unfolding dag_example_def
  by (intro dag_built.intros) (simp_all add: DAG_AddNode_def NewDAG_def)

lemma dag_example_events: "dag_Events dag_example = [event_id 0 1 0 [] \<mapsto> 0]"
  by (simp add: dag_example_def DAG_NewEvent_def DAG_AddNode_def NewDAG_def Let_def)

lemma dag_example_order: "range_order (dag_Events dag_example) [event_id 0 1 0 []]"
  by (simp add: range_order_def dag_example_events)

theorem built_dag_verifies_witness:
  "DAG_VerifyConsistency [event_id 0 1 0 []] [event_id 0 1 0 []] [event_id 0 1 0 []] [event_id 0 1 0 []] dag_example = None"
  by (rule built_dag_verifies [OF dag_example_built]) (rule dag_example_order)+

lemma dag_example_verified:
  "DAG_VerifyConsistency [event_id 0 1 0 []] [event_id 0 1 0 []] [event_id 0 1 0 []] [event_id 0 1 0 []] dag_example = None"
  using VerifyConsistency_iff [OF dag_example_order dag_example_order dag_example_order dag_example_order]
    dag_built_ok [OF dag_example_built] by simp

theorem verified_dag_acyclic_witness:
  "acyclic {(p, i). \<exists>e. dag_event dag_example i = Some e \<and> p \<in> set (ev_ParentIDs e)}"
  by (rule verified_dag_acyclic [OF dag_example_order dag_example_order dag_example_order dag_example_order dag_example_verified])

section \<open>Repair\<close>

text \<open>\<open>RepairConsistency\<close> reports no change exactly if every creator and every parent exists and \<open>MaxHeight\<close> is
  the greatest height, and then it leaves the graph as it is.\<close>

theorem repair_verdict:
  assumes o: "range_order (dag_Events d) order1"
    and "DAG_RepairConsistency order1 order2 order3 d = (changed, d')"
    and "range_order (dag_Events (delete_events (orphans d order1) d)) order2"
    and "range_order (dag_Events d') order3"
  shows "(\<not> changed \<longleftrightarrow>
      check_creators d order1 = None \<and> check_parents d order1 = None \<and>
      (\<forall>i e. dag_event d i = Some e \<longrightarrow> ev_Height e \<le> dag_MaxHeight d) \<and>
      (dag_MaxHeight d = 0 \<or> (\<exists>i e. dag_event d i = Some e \<and> ev_Height e = dag_MaxHeight d))) \<and>
    (\<not> changed \<longrightarrow> d' = d)" (is "(_ \<longleftrightarrow> ?ok) \<and> _")
proof -
  have del: "delete_events [] x = x" for x by (simp add: delete_events_def restrict_map_def)
  define d1 where "d1 = delete_events (orphans d order1) d"
  define d2 where "d2 = delete_events (dangling d1 order2) d1"
  have ch: "changed \<longleftrightarrow> orphans d order1 \<noteq> [] \<or> dangling d1 order2 \<noteq> [] \<or> dag_MaxHeight d2 \<noteq> max_height d2 order3 0"
    and d': "d' = d2\<lparr>dag_MaxHeight := max_height d2 order3 0\<rparr>"
    using assms(2) by (auto simp: DAG_RepairConsistency_def Let_def d1_def d2_def)
  have c: "orphans d order1 = [] \<longleftrightarrow> check_creators d order1 = None"
    by (auto simp: orphans_def filter_empty_conv check_creators_None dom_def)
  have p: "dangling d order2 = [] \<longleftrightarrow> check_parents d order1 = None" if "orphans d order1 = []"
    using o assms(3) that del [of d]
    by (auto simp: dangling_def filter_empty_conv missing_parent_None check_parents_None range_order_def)
  have m: "dag_MaxHeight d = max_height d order3 0 \<longleftrightarrow>
      (\<forall>i e. dag_event d i = Some e \<longrightarrow> ev_Height e \<le> dag_MaxHeight d) \<and>
      (dag_MaxHeight d = 0 \<or> (\<exists>i e. dag_event d i = Some e \<and> ev_Height e = dag_MaxHeight d))"
    if "orphans d order1 = []" "dangling d order2 = []"
    using assms(4) that by (intro max_height_eq) (simp add: d' d2_def d1_def del)
  have "\<not> changed \<longleftrightarrow> ?ok" using c p m del unfolding ch d2_def d1_def by (metis (no_types, lifting))
  moreover have "d' = d" if "\<not> changed"
  proof -
    have "orphans d order1 = []" using that ch by simp
    then have "d1 = d" by (simp add: d1_def del)
    moreover from this have "d2 = d" using that ch by (simp add: d2_def del)
    ultimately show ?thesis using that ch d' by simp
  qed
  ultimately show ?thesis by blast
qed

theorem repair_verdict_witness:
  "DAG_RepairConsistency [event_id 0 1 0 []] [event_id 0 1 0 []] [event_id 0 1 0 []] dag_example = (False, dag_example)"
proof -
  let ?o = "[event_id 0 1 0 []]"
  obtain changed d' where r: "DAG_RepairConsistency ?o ?o ?o dag_example = (changed, d')" by fastforce
  have c: "dag_consistent dag_example" using dag_built_ok dag_example_built by blast
  have ok: "check_creators dag_example ?o = None" "check_parents dag_example ?o = None"
    using dag_example_verified by (auto simp: DAG_VerifyConsistency_def split: option.splits)
  then have none: "orphans dag_example ?o = []" "dangling dag_example ?o = []"
    unfolding orphans_def dangling_def filter_empty_conv check_creators_None check_parents_None missing_parent_None
    by (auto simp: dom_def)
  have del: "delete_events [] dag_example = dag_example" by (simp add: delete_events_def restrict_map_def)
  have o3: "range_order (dag_Events d') ?o"
    using r dag_example_order by (auto simp: DAG_RepairConsistency_def Let_def none del)
  have o2: "range_order (dag_Events (delete_events (orphans dag_example ?o) dag_example)) ?o"
    unfolding none del by (rule dag_example_order)
  note v = repair_verdict [OF dag_example_order r o2 o3]
  have "\<not> changed" using v ok c unfolding dag_consistent_def by blast
  then show ?thesis using v r by simp
qed

text \<open>One call does not repair everything: the second pass looks for missing parents before it removes any
  event, so the children of the events it removes are left without a parent.\<close>

definition dag_broken :: DAG where
  "dag_broken = NewDAG\<lparr>dag_Nodes := [2 \<mapsto> \<lparr>nd_ID = 2, nd_Events = [1, 2], nd_Stake = 5, nd_Active = True\<rparr>],
     dag_Events := [10 \<mapsto> 0, 11 \<mapsto> 1, 12 \<mapsto> 2], dag_MaxHeight := 3, dag_next := 3,
     dag_store := (\<lambda>r. if r = 0 then zero_Event\<lparr>ev_ID := 10, ev_Creator := 1, ev_Height := 1\<rparr>
       else if r = 1 then zero_Event\<lparr>ev_ID := 11, ev_Creator := 2, ev_ParentIDs := [10], ev_Height := 2\<rparr>
       else zero_Event\<lparr>ev_ID := 12, ev_Creator := 2, ev_ParentIDs := [11], ev_Height := 3\<rparr>)\<rparr>"

text \<open>\<open>RepairConsistency\<close> may leave a graph that \<open>VerifyConsistency\<close> rejects for a missing parent.\<close>

theorem repair_single_pass:
  "case DAG_RepairConsistency [10, 11, 12] [11, 12] [12] dag_broken of
     (changed, d') \<Rightarrow> changed \<and> DAG_VerifyConsistency [12] [12] [12] [12] d' = Some (DagErrMissingParent 12 11)"
  by (simp add: DAG_RepairConsistency_def DAG_VerifyConsistency_def dag_broken_def orphans_def dangling_def delete_events_def
      dag_event_def NewDAG_def zero_Event_def restrict_map_def Let_def)

section \<open>Restoring gives the saved graph\<close>

lemma alloc_events_ok:
  "alloc_events es d = (rs, d') \<Longrightarrow>
   map (dag_store d') rs = es \<and> (\<forall>r<dag_next d. dag_store d' r = dag_store d r) \<and> dag_next d \<le> dag_next d' \<and>
   (\<forall>r\<in>set rs. r < dag_next d') \<and> dag_Nodes d' = dag_Nodes d \<and> dag_Events d' = dag_Events d \<and> dag_MaxHeight d' = dag_MaxHeight d"
proof (induction es arbitrary: d rs)
  case (Cons e es)
  let ?d1 = "d\<lparr>dag_store := (dag_store d)(dag_next d := e), dag_next := Suc (dag_next d)\<rparr>"
  obtain rs' where r: "alloc_events es ?d1 = (rs', d')" "rs = dag_next d # rs'"
    using Cons.prems by (auto simp: Let_def split: prod.splits)
  show ?case using Cons.IH [OF r(1)] r(2) by auto
qed auto

lemma node_json_cong: "(\<And>r. r \<in> set (nd_Events n) \<Longrightarrow> s r = s' r) \<Longrightarrow> node_json s n = node_json s' n"
  by (simp add: node_json_def)

lemma restore_nodes_ok:
  assumes "distinct order" and "\<And>i n r. dag_Nodes d i = Some n \<Longrightarrow> r \<in> set (nd_Events n) \<Longrightarrow> r < dag_next d"
  shows "\<exists>d'. restore_nodes (map (\<lambda>i. (byteArrayToString i, nj i)) order) d = (None, d') \<and>
    (\<forall>i. map_option (node_json (dag_store d')) (dag_Nodes d' i) =
         (if i \<in> set order then Some (nj i) else map_option (node_json (dag_store d)) (dag_Nodes d i))) \<and>
    (\<forall>i n. dag_Nodes d' i = Some n \<longrightarrow> (\<forall>r\<in>set (nd_Events n). r < dag_next d')) \<and> dag_MaxHeight d' = dag_MaxHeight d"
  using assms
proof (induction order arbitrary: d)
  case (Cons i order)
  obtain rs d1 where a: "alloc_events (nj_Events (nj i)) d = (rs, d1)" by fastforce
  note A = alloc_events_ok [OF a]
  let ?n = "\<lparr>nd_ID = nj_ID (nj i), nd_Events = rs, nd_Stake = nj_Stake (nj i), nd_Active = nj_Active (nj i)\<rparr>"
  let ?d2 = "d1\<lparr>dag_Nodes := (dag_Nodes d1)(i \<mapsto> ?n)\<rparr>"
  have step: "restore_nodes (map (\<lambda>i. (byteArrayToString i, nj i)) (i # order)) d =
      restore_nodes (map (\<lambda>i. (byteArrayToString i, nj i)) order) ?d2"
    by (simp add: stringToByteArray_inverse a)
  have n: "node_json (dag_store d1) ?n = nj i" using A by (simp add: node_json_def)
  have old: "node_json (dag_store d1) m = node_json (dag_store d) m" if "dag_Nodes d j = Some m" for j m
    using Cons.prems(2) [OF that] A by (intro node_json_cong) auto
  have r2: "r < dag_next ?d2" if "dag_Nodes ?d2 j = Some m" "r \<in> set (nd_Events m)" for j m r
    using that A Cons.prems(2) [of j m r] by (auto split: if_splits)
  have "distinct order" using Cons.prems(1) by simp
  then have "\<exists>d'. restore_nodes (map (\<lambda>i. (byteArrayToString i, nj i)) order) ?d2 = (None, d') \<and>
      (\<forall>j. map_option (node_json (dag_store d')) (dag_Nodes d' j) =
         (if j \<in> set order then Some (nj j) else map_option (node_json (dag_store ?d2)) (dag_Nodes ?d2 j))) \<and>
      (\<forall>i n. dag_Nodes d' i = Some n \<longrightarrow> (\<forall>r\<in>set (nd_Events n). r < dag_next d')) \<and> dag_MaxHeight d' = dag_MaxHeight ?d2"
    by (rule Cons.IH) (erule (1) r2)
  then obtain d' where
    IH: "restore_nodes (map (\<lambda>i. (byteArrayToString i, nj i)) order) ?d2 = (None, d')"
      "\<forall>j. map_option (node_json (dag_store d')) (dag_Nodes d' j) =
         (if j \<in> set order then Some (nj j) else map_option (node_json (dag_store ?d2)) (dag_Nodes ?d2 j))"
      "\<forall>i n. dag_Nodes d' i = Some n \<longrightarrow> (\<forall>r\<in>set (nd_Events n). r < dag_next d')" "dag_MaxHeight d' = dag_MaxHeight ?d2"
    by (elim exE conjE) (rule that)
  have at: "map_option (node_json (dag_store ?d2)) (dag_Nodes ?d2 j) =
      (if j = i then Some (nj i) else map_option (node_json (dag_store d)) (dag_Nodes d j))" for j
    using n old A by (cases "dag_Nodes d j") auto
  have "map_option (node_json (dag_store d')) (dag_Nodes d' j) =
      (if j \<in> set (i # order) then Some (nj j) else map_option (node_json (dag_store d)) (dag_Nodes d j))" for j
    unfolding IH(2) [rule_format, of j] at by auto
  moreover have "dag_MaxHeight d' = dag_MaxHeight d" using IH(4) A by simp
  ultimately show ?case unfolding step using IH(1,3) by blast
qed auto

lemma restore_events_ok:
  assumes "distinct order" and "\<And>i r. dag_Events d i = Some r \<Longrightarrow> r < dag_next d"
    and "\<And>i n r. dag_Nodes d i = Some n \<Longrightarrow> r \<in> set (nd_Events n) \<Longrightarrow> r < dag_next d"
  shows "\<exists>d'. restore_events (map (\<lambda>i. (byteArrayToString i, ev i)) order) d = (None, d') \<and>
    (\<forall>i. dag_event d' i = (if i \<in> set order then Some (ev i) else dag_event d i)) \<and>
    (\<forall>i. map_option (node_json (dag_store d')) (dag_Nodes d' i) = map_option (node_json (dag_store d)) (dag_Nodes d i))"
  using assms
proof (induction order arbitrary: d)
  case (Cons i order)
  let ?d1 = "d\<lparr>dag_store := (dag_store d)(dag_next d := ev i), dag_next := Suc (dag_next d), dag_Events := (dag_Events d)(i \<mapsto> dag_next d)\<rparr>"
  have step: "restore_events (map (\<lambda>i. (byteArrayToString i, ev i)) (i # order)) d =
      restore_events (map (\<lambda>i. (byteArrayToString i, ev i)) order) ?d1"
    by (simp add: stringToByteArray_inverse Let_def)
  have r1: "r < dag_next ?d1" if "dag_Events ?d1 j = Some r" for j r
    using that Cons.prems(2) [of j r] by (auto split: if_splits)
  have r2: "r < dag_next ?d1" if "dag_Nodes ?d1 j = Some m" "r \<in> set (nd_Events m)" for j m r
    using that Cons.prems(3) [of j m r] by auto
  have "distinct order" using Cons.prems(1) by simp
  then have "\<exists>d'. restore_events (map (\<lambda>i. (byteArrayToString i, ev i)) order) ?d1 = (None, d') \<and>
      (\<forall>j. dag_event d' j = (if j \<in> set order then Some (ev j) else dag_event ?d1 j)) \<and>
      (\<forall>j. map_option (node_json (dag_store d')) (dag_Nodes d' j) = map_option (node_json (dag_store ?d1)) (dag_Nodes ?d1 j))"
    by (rule Cons.IH) (erule r1, erule (1) r2)
  then obtain d' where
    IH: "restore_events (map (\<lambda>i. (byteArrayToString i, ev i)) order) ?d1 = (None, d')"
      "\<forall>j. dag_event d' j = (if j \<in> set order then Some (ev j) else dag_event ?d1 j)"
      "\<forall>j. map_option (node_json (dag_store d')) (dag_Nodes d' j) = map_option (node_json (dag_store ?d1)) (dag_Nodes ?d1 j)"
    by (elim exE conjE) (rule that)
  have "dag_event ?d1 j = (if j = i then Some (ev i) else dag_event d j)" for j
    using Cons.prems(2) [of j] by (cases "dag_Events d j") (auto simp: dag_event_def)
  moreover have "map_option (node_json (dag_store ?d1)) (dag_Nodes ?d1 j) = map_option (node_json (dag_store d)) (dag_Nodes d j)" for j
  proof (cases "dag_Nodes d j")
    case (Some m)
    have "node_json (dag_store ?d1) m = node_json (dag_store d) m"
      using Cons.prems(3) [OF Some] by (intro node_json_cong) auto
    then show ?thesis using Some by simp
  qed simp
  ultimately have "\<forall>j. dag_event d' j = (if j \<in> set (i # order) then Some (ev j) else dag_event d j)"
      "\<forall>j. map_option (node_json (dag_store d')) (dag_Nodes d' j) = map_option (node_json (dag_store d)) (dag_Nodes d j)"
    using IH(2,3) by auto
  then show ?case unfolding step using IH(1) by blast
qed simp

text \<open>Saving a graph and restoring it, into any instance, gives the same events, the same nodes with the same
  events, and the same \<open>MaxHeight\<close>; only the objects are new.\<close>

theorem dag_state_roundtrip:
  assumes o1: "range_order (dag_Nodes d) order1" and o2: "range_order (dag_Events d) order2"
  shows "\<exists>d'. DAG_RestoreState (Some (DAG_GetState order1 order2 d)) d0 = (None, d') \<and>
    dag_event d' = dag_event d \<and> dag_MaxHeight d' = dag_MaxHeight d \<and>
    (\<forall>i. map_option (node_json (dag_store d')) (dag_Nodes d' i) = map_option (node_json (dag_store d)) (dag_Nodes d i))"
proof -
  let ?nj = "\<lambda>i. node_json (dag_store d) (the (dag_Nodes d i))" and ?ev = "\<lambda>i. the (dag_event d i)"
  let ?d0 = "d0\<lparr>dag_Nodes := Map.empty\<rparr>"
  have dist: "distinct order1" "distinct order2" and dom: "set order1 = dom (dag_Nodes d)" "set order2 = dom (dag_Events d)"
    using o1 o2 by (auto simp: range_order_def)
  obtain d1 where d1: "restore_nodes (map (\<lambda>i. (byteArrayToString i, ?nj i)) order1) ?d0 = (None, d1)"
      "\<forall>i. map_option (node_json (dag_store d1)) (dag_Nodes d1 i) = (if i \<in> set order1 then Some (?nj i) else None)"
      "\<forall>i n. dag_Nodes d1 i = Some n \<longrightarrow> (\<forall>r\<in>set (nd_Events n). r < dag_next d1)"
    using restore_nodes_ok [OF dist(1), of ?d0 ?nj] by auto
  let ?d2 = "d1\<lparr>dag_Events := Map.empty\<rparr>"
  obtain d2 where d2: "restore_events (map (\<lambda>i. (byteArrayToString i, ?ev i)) order2) ?d2 = (None, d2)"
      "\<forall>i. dag_event d2 i = (if i \<in> set order2 then Some (?ev i) else None)"
      "\<forall>i. map_option (node_json (dag_store d2)) (dag_Nodes d2 i) = map_option (node_json (dag_store d1)) (dag_Nodes d1 i)"
    using restore_events_ok [OF dist(2), of ?d2 ?ev] d1(3) by (auto simp: dag_event_def)
  let ?d' = "d2\<lparr>dag_MaxHeight := dag_MaxHeight d\<rparr>"
  have "DAG_RestoreState (Some (DAG_GetState order1 order2 d)) d0 = (None, ?d')"
    using d1(1) d2(1) by (simp add: DAG_RestoreState_def DAG_GetState_def)
  moreover have "dag_event ?d' i = dag_event d i" for i
    using d2(2) dom(2) dag_event_in_dom [of i d] by (cases "i \<in> dom (dag_Events d)") (auto simp: dag_event_def)
  moreover have "map_option (node_json (dag_store ?d')) (dag_Nodes ?d' i) = map_option (node_json (dag_store d)) (dag_Nodes d i)" for i
    using d1(2) d2(3) dom(1) by (cases "dag_Nodes d i") auto
  ultimately show ?thesis by (intro exI [of _ ?d']) (auto simp: fun_eq_iff)
qed

theorem dag_state_roundtrip_witness:
  "\<exists>d'. DAG_RestoreState (Some (DAG_GetState [1] [event_id 0 1 0 []] dag_example)) NewDAG = (None, d') \<and>
    dag_event d' = dag_event dag_example"
proof -
  have "range_order (dag_Nodes dag_example) [1]"
    by (auto simp: range_order_def dag_example_def DAG_NewEvent_def DAG_AddNode_def NewDAG_def Let_def)
  from dag_state_roundtrip [OF this dag_example_order] show ?thesis by blast
qed

end
