(* ===== verification/VotingTheory.thy ===== *)
theory VotingTheory
  imports DagTheory Float64
begin

text \<open>
  Virtual voting: \<open>consensus/diamantefinality/voting.go\<close>. \<open>HasSeen\<close> searches the ancestors of an event for one
  created by a validator; \<open>Vote\<close> adds up, in floating point, the stake of the creator and of the active nodes
  found that way and compares it with a fraction of the total active stake. A pointer to an event is a number of
  the store of the graph (\<open>DagTheory\<close>). Log output, and with it the result of \<open>detectSuspiciousVoting\<close>, which is
  only logged, does not change the outcome of a vote.
\<close>

section \<open>Definitions\<close>

record VirtualVoting =
  vv_threshold :: float64

datatype voting_error = ErrInvalidThreshold | ErrNilDAG | VotingErrNew string

definition NewVirtualVoting :: VirtualVoting where
  "NewVirtualVoting = \<lparr>vv_threshold = rnd (66 / 100)\<rparr>"

definition VirtualVoting_SetThreshold :: "float64 \<Rightarrow> VirtualVoting \<Rightarrow> VirtualVoting" where
  "VirtualVoting_SetThreshold threshold v =
     (if f64_le threshold f64_0 \<or> f64_lt f64_1 threshold then v else v\<lparr>vv_threshold := threshold\<rparr>)"

definition VirtualVoting_GetThreshold :: "VirtualVoting \<Rightarrow> float64" where
  "VirtualVoting_GetThreshold v = vv_threshold v"

text \<open>The breadth-first loop of \<open>HasSeen\<close>. It ends because every round either shortens the queue or marks one
  more of the finitely many 32-byte IDs.\<close>

function seen_loop :: "DAG \<Rightarrow> hash32 \<Rightarrow> hash32 set \<Rightarrow> nat list \<Rightarrow> bool" where
  "seen_loop d validatorID seen [] = False"
| "seen_loop d validatorID seen (r # queue) =
     (if ev_ID (dag_store d r) \<in> seen then seen_loop d validatorID seen queue
      else if ev_Creator (dag_store d r) = validatorID then True
      else seen_loop d validatorID (insert (ev_ID (dag_store d r)) seen)
             (queue @ List.map_filter (dag_Events d) (ev_ParentIDs (dag_store d r))))"
  by pat_completeness auto
termination
proof (relation "measures [\<lambda>(d, v, seen, queue). card (- seen), \<lambda>(d, v, seen, queue). length queue]")
  fix d :: DAG and seen :: "hash32 set" and r
  assume "ev_ID (dag_store d r) \<notin> seen"
  then have "card (- insert (ev_ID (dag_store d r)) seen) < card (- seen)"
    by (intro psubset_card_mono) auto
  then show "((d, v, insert (ev_ID (dag_store d r)) seen, queue'), (d, v, seen, r # queue))
      \<in> measures [\<lambda>(d, v, seen, queue). card (- seen), \<lambda>(d, v, seen, queue). length queue]" for v queue queue'
    by simp
qed auto

definition VirtualVoting_HasSeen :: "DAG \<Rightarrow> hash32 \<Rightarrow> nat option \<Rightarrow> bool" where
  "VirtualVoting_HasSeen d validatorID event =
     (case event of
        None \<Rightarrow> False
      | Some r \<Rightarrow> if ev_Creator (dag_store d r) = validatorID then True else seen_loop d validatorID {} [r])"

text \<open>The loop of \<open>Vote\<close> over the active nodes.\<close>

fun vote_loop :: "DAG \<Rightarrow> nat \<Rightarrow> float64 \<Rightarrow> float64 \<Rightarrow> hash32 list \<Rightarrow> bool" where
  "vote_loop d r requiredStake accumulatedStake [] = False"
| "vote_loop d r requiredStake accumulatedStake (nodeID # nodes) =
     (if nodeID = ev_Creator (dag_store d r) then vote_loop d r requiredStake accumulatedStake nodes
      else if VirtualVoting_HasSeen d nodeID (Some r) then
        (case DAG_GetNodeStake nodeID d of
           Inl _ \<Rightarrow> vote_loop d r requiredStake accumulatedStake nodes
         | Inr stake \<Rightarrow>
             let acc = f64_add accumulatedStake (f64_of_int (uint stake)) in
             if f64_le requiredStake acc then True else vote_loop d r requiredStake acc nodes)
      else vote_loop d r requiredStake accumulatedStake nodes)"

definition VirtualVoting_Vote ::
    "hash32 list \<Rightarrow> hash32 list \<Rightarrow> DAG option \<Rightarrow> nat option \<Rightarrow> VirtualVoting \<Rightarrow> bool" where
  "VirtualVoting_Vote order1 order2 dag event v =
     (case (event, dag) of
        (Some r, Some d) \<Rightarrow>
          let threshold = vv_threshold v; totalStake = DAG_GetTotalStake order1 d in
          if totalStake = 0 then False
          else
            let requiredStake = f64_mul (f64_of_int (uint totalStake)) threshold in
            if f64_le threshold f64_0 then True
            else
              let activeNodes = DAG_GetActiveNodes order2 d in
              if length activeNodes = 0 then False
              else
                (case DAG_GetNodeStake (ev_Creator (dag_store d r)) d of
                   Inl _ \<Rightarrow> vote_loop d r requiredStake f64_0 activeNodes
                 | Inr creatorStake \<Rightarrow>
                     let acc = f64_add f64_0 (f64_of_int (uint creatorStake)) in
                     if f64_le requiredStake acc then True else vote_loop d r requiredStake acc activeNodes)
      | _ \<Rightarrow> False)"

definition calculateGiniCoefficient :: "uint64 list \<Rightarrow> float64" where
  "calculateGiniCoefficient values =
     (let n = length values in
      if n \<le> 1 then f64_0
      else
        let sumAbsDiff = (\<Sum>x\<leftarrow>values. \<Sum>y\<leftarrow>values. if x > y then x - y else y - x);
            mean = f64_div (f64_of_int (uint (sum_list values))) (f64_of_int (int n))
        in f64_div (f64_of_int (uint sumAbsDiff)) (f64_mul (f64_mul (Fin 2) (f64_of_int (int (n * n)))) mean))"

text \<open>\<open>votes\<close> and \<open>stakes\<close> are the two maps, listed in the order of the range.\<close>

definition VirtualVoting_detectSuspiciousVoting :: "(hash32 \<times> bool) list \<Rightarrow> (hash32 \<times> uint64) list \<Rightarrow> bool" where
  "VirtualVoting_detectSuspiciousVoting votes stakes =
     (if length votes < 4 then False
      else if card (snd ` set votes) = 1 \<and> length votes > 10 then True
      else f64_lt (rnd (9 / 10)) (calculateGiniCoefficient (sort (map snd stakes))))"

definition VirtualVoting_RecalculateWeights :: "VirtualVoting \<Rightarrow> VirtualVoting" where
  "VirtualVoting_RecalculateWeights v = v"

definition VirtualVoting_GetConsensusEvents ::
    "hash32 list \<Rightarrow> hash32 list \<Rightarrow> hash32 list \<Rightarrow> uint64 \<Rightarrow> DAG option \<Rightarrow> VirtualVoting \<Rightarrow> nat list" where
  "VirtualVoting_GetConsensusEvents order order1 order2 height dag v =
     (case dag of
        None \<Rightarrow> []
      | Some d \<Rightarrow> filter (\<lambda>r. ev_Height (dag_store d r) = height \<and> VirtualVoting_Vote order1 order2 dag (Some r) v)
                    (map (\<lambda>i. the (DAG_GetEvents d i)) order))"

definition VirtualVoting_GetState :: "VirtualVoting \<Rightarrow> voting_error + float64" where
  "VirtualVoting_GetState v =
     (case vv_threshold v of Fin q \<Rightarrow> Inr (Fin q) | _ \<Rightarrow> Inl (VotingErrNew ''failed to marshal voting state''))"

text \<open>\<open>None\<close> is empty or malformed data.\<close>

definition VirtualVoting_RestoreState :: "float64 option \<Rightarrow> VirtualVoting \<Rightarrow> voting_error option \<times> VirtualVoting" where
  "VirtualVoting_RestoreState state v =
     (case state of
        None \<Rightarrow> (Some (VotingErrNew ''failed to unmarshal voting state''), v)
      | Some threshold \<Rightarrow>
          if f64_le threshold f64_0 \<or> f64_lt f64_1 threshold then (Some ErrInvalidThreshold, v)
          else (None, v\<lparr>vv_threshold := threshold\<rparr>))"

definition VirtualVoting_Validate :: "DAG option \<Rightarrow> VirtualVoting \<Rightarrow> voting_error option" where
  "VirtualVoting_Validate dag v =
     (if dag = None then Some ErrNilDAG
      else if f64_le (vv_threshold v) f64_0 \<or> f64_lt f64_1 (vv_threshold v) then Some ErrInvalidThreshold
      else None)"

section \<open>The search finds exactly the ancestors\<close>

definition parent_rel :: "DAG \<Rightarrow> (nat \<times> nat) set" where
  "parent_rel d = {(r, r'). \<exists>p\<in>set (ev_ParentIDs (dag_store d r)). dag_Events d p = Some r'}"

definition in_dag :: "DAG \<Rightarrow> nat \<Rightarrow> bool" where
  "in_dag d r \<longleftrightarrow> dag_Events d (ev_ID (dag_store d r)) = Some r"

lemma parents_set: "set (List.map_filter (dag_Events d) (ev_ParentIDs (dag_store d r))) = {r'. (r, r') \<in> parent_rel d}"
  by (force simp: parent_rel_def List.map_filter_def)

lemma parent_in_dag: "dag_wf d \<Longrightarrow> (r, r') \<in> parent_rel d \<Longrightarrow> in_dag d r'"
  by (auto simp: parent_rel_def in_dag_def dag_wf_def)

text \<open>What has been seen holds nothing of the validator, and its parents are seen or queued.\<close>

definition search_inv :: "DAG \<Rightarrow> hash32 \<Rightarrow> hash32 set \<Rightarrow> nat list \<Rightarrow> bool" where
  "search_inv d v seen queue \<longleftrightarrow>
     (\<forall>r\<in>set queue. in_dag d r) \<and>
     (\<forall>r. in_dag d r \<longrightarrow> ev_ID (dag_store d r) \<in> seen \<longrightarrow>
        ev_Creator (dag_store d r) \<noteq> v \<and>
        (\<forall>r'. (r, r') \<in> parent_rel d \<longrightarrow> r' \<in> set queue \<or> ev_ID (dag_store d r') \<in> seen))"

lemma leave_seen:
  assumes "(r, r') \<in> (parent_rel d)\<^sup>*" and "search_inv d v seen queue" and "dag_wf d"
    and "in_dag d r" and "ev_ID (dag_store d r) \<in> seen" and "ev_Creator (dag_store d r') = v"
  shows "\<exists>q\<in>set queue. (q, r') \<in> (parent_rel d)\<^sup>*"
  using assms
proof (induction rule: converse_rtrancl_induct)
  case base
  then show ?case by (auto simp: search_inv_def)
next
  case (step x y)
  then have "in_dag d y" by (blast intro: parent_in_dag)
  moreover have "y \<in> set queue \<or> ev_ID (dag_store d y) \<in> seen" using step by (auto simp: search_inv_def)
  ultimately show ?case using step by blast
qed

lemma in_dag_inj: "in_dag d r \<Longrightarrow> in_dag d s \<Longrightarrow> ev_ID (dag_store d r) = ev_ID (dag_store d s) \<Longrightarrow> r = s"
  by (simp add: in_dag_def)

lemma seen_loop_correct:
  "dag_wf d \<Longrightarrow> search_inv d v seen queue \<Longrightarrow>
   seen_loop d v seen queue \<longleftrightarrow> (\<exists>q\<in>set queue. \<exists>r'. (q, r') \<in> (parent_rel d)\<^sup>* \<and> ev_Creator (dag_store d r') = v)"
proof (induction d v seen queue rule: seen_loop.induct)
  case (2 d v seen r queue)
  have r: "in_dag d r" using 2(4) by (simp add: search_inv_def)
  consider (seen) "ev_ID (dag_store d r) \<in> seen" | (found) "ev_ID (dag_store d r) \<notin> seen" "ev_Creator (dag_store d r) = v"
    | (new) "ev_ID (dag_store d r) \<notin> seen" "ev_Creator (dag_store d r) \<noteq> v" by blast
  then show ?case
  proof cases
    case seen
    then have inv: "search_inv d v seen queue" using 2(4) by (auto simp: search_inv_def)
    have "(\<exists>q\<in>set (r # queue). \<exists>r'. (q, r') \<in> (parent_rel d)\<^sup>* \<and> ev_Creator (dag_store d r') = v) \<longleftrightarrow>
          (\<exists>q\<in>set queue. \<exists>r'. (q, r') \<in> (parent_rel d)\<^sup>* \<and> ev_Creator (dag_store d r') = v)"
      using leave_seen [OF _ inv 2(3) r seen] by auto
    then show ?thesis using 2(1) [OF seen 2(3) inv] seen by simp
  next
    case found
    then show ?thesis by auto
  next
    case new
    let ?seen = "insert (ev_ID (dag_store d r)) seen"
    let ?queue = "queue @ List.map_filter (dag_Events d) (ev_ParentIDs (dag_store d r))"
    have inv: "search_inv d v ?seen ?queue"
      unfolding search_inv_def set_append parents_set
    proof (intro conjI ballI allI impI)
      show "in_dag d x" if "x \<in> set queue \<union> {r'. (r, r') \<in> parent_rel d}" for x
        using that 2(3,4) parent_in_dag by (auto simp: search_inv_def)
      show "ev_Creator (dag_store d x) \<noteq> v" if "in_dag d x" "ev_ID (dag_store d x) \<in> ?seen" for x
        using that 2(4) new(2) in_dag_inj [OF _ r] by (auto simp: search_inv_def)
      show "y \<in> set queue \<union> {r'. (r, r') \<in> parent_rel d} \<or> ev_ID (dag_store d y) \<in> ?seen"
        if "in_dag d x" "ev_ID (dag_store d x) \<in> ?seen" "(x, y) \<in> parent_rel d" for x y
        using that 2(4) in_dag_inj [OF _ r] by (auto simp: search_inv_def)
    qed
    have "(\<exists>q\<in>set ?queue. \<exists>r'. (q, r') \<in> (parent_rel d)\<^sup>* \<and> ev_Creator (dag_store d r') = v) \<longleftrightarrow>
          (\<exists>q\<in>set (r # queue). \<exists>r'. (q, r') \<in> (parent_rel d)\<^sup>* \<and> ev_Creator (dag_store d r') = v)"
      unfolding set_append parents_set
      using new(2) by (auto intro: converse_rtrancl_into_rtrancl elim: converse_rtranclE)
    then show ?thesis using 2(2) [OF new 2(3) inv] new by simp
  qed
qed simp

lemma HasSeen_iff:
  assumes "dag_wf d" and "in_dag d r"
  shows "VirtualVoting_HasSeen d v (Some r) \<longleftrightarrow> (\<exists>r'. (r, r') \<in> (parent_rel d)\<^sup>* \<and> ev_Creator (dag_store d r') = v)"
proof -
  have "search_inv d v {} [r]" using assms by (simp add: search_inv_def)
  from seen_loop_correct [OF assms(1) this] show ?thesis by (auto simp: VirtualVoting_HasSeen_def)
qed

text \<open>C39: For an event of the graph, \<open>HasSeen\<close> answers whether the event or one of its ancestors was created by
  the validator; in particular the search always ends.\<close>

theorem has_seen_ancestor:
  assumes "dag_built d" and "dag_Events d i = Some r"
  shows "VirtualVoting_HasSeen d v (Some r) \<longleftrightarrow> (\<exists>r'. (r, r') \<in> (parent_rel d)\<^sup>* \<and> ev_Creator (dag_store d r') = v)"
  using assms dag_built_ok [OF assms(1)] by (intro HasSeen_iff) (auto simp: in_dag_def dag_wf_def)

theorem has_seen_ancestor_witness:
  "VirtualVoting_HasSeen dag_example 1 (Some 0) \<longleftrightarrow>
   (\<exists>r'. (0, r') \<in> (parent_rel dag_example)\<^sup>* \<and> ev_Creator (dag_store dag_example r') = 1)"
  by (rule has_seen_ancestor [OF dag_example_built]) (simp add: dag_example_events)

section \<open>Votes and quorums\<close>

definition stake_of :: "DAG \<Rightarrow> hash32 \<Rightarrow> nat" where
  "stake_of d i = (case dag_Nodes d i of None \<Rightarrow> 0 | Some n \<Rightarrow> unat (nd_Stake n))"

definition active_set :: "DAG \<Rightarrow> hash32 set" where
  "active_set d = {i. DAG_IsActiveValidator i d}"

text \<open>The nodes whose stake \<open>Vote\<close> counts for an event.\<close>

definition counted :: "DAG \<Rightarrow> nat \<Rightarrow> hash32 set" where
  "counted d r = {i \<in> dom (dag_Nodes d). i = ev_Creator (dag_store d r) \<or> nd_Active (the (dag_Nodes d i)) \<and> VirtualVoting_HasSeen d i (Some r)}"

lemma f64_of_int_exact: "0 \<le> m \<Longrightarrow> m \<le> 2 ^ 53 \<Longrightarrow> f64_of_int m = Fin (of_int m)"
  by (simp add: f64_of_int_def rnd_int)

lemma f64_le_mono_Fin: "f64_le q (Fin a) \<Longrightarrow> a \<le> b \<Longrightarrow> f64_le q (Fin b)"
  by (rule f64_le_trans) auto

lemma stake_float:
  assumes "dag_Nodes d i = Some n" and "stake_of d i \<le> 2 ^ 53"
  shows "f64_of_int (uint (nd_Stake n)) = Fin (of_nat (stake_of d i))"
proof -
  have "uint (nd_Stake n) = int (stake_of d i)" by (simp add: stake_of_def assms(1))
  then show ?thesis using f64_of_int_exact [of "int (stake_of d i)"] assms(2) by (simp only:) simp
qed

lemma f64_add_nat: "a + b \<le> 2 ^ 53 \<Longrightarrow> f64_add (Fin (of_nat a)) (Fin (of_nat b)) = Fin (of_nat (a + b))"
  using f64_add_int [of "int a" "int b"] by simp

text \<open>As long as sums stay below 2^53, the additions are exact and the early exits do not matter.\<close>

lemma vote_loop_exact:
  assumes "distinct nodes" and "set nodes \<subseteq> dom (dag_Nodes d)"
    and "a + (\<Sum>i\<leftarrow>filter (\<lambda>i. i \<noteq> ev_Creator (dag_store d r) \<and> VirtualVoting_HasSeen d i (Some r)) nodes. stake_of d i) \<le> 2 ^ 53"
    and "\<not> f64_le q (Fin (of_nat a))"
  shows "vote_loop d r q (Fin (of_nat a)) nodes \<longleftrightarrow>
    f64_le q (Fin (of_nat (a + (\<Sum>i\<leftarrow>filter (\<lambda>i. i \<noteq> ev_Creator (dag_store d r) \<and> VirtualVoting_HasSeen d i (Some r)) nodes. stake_of d i))))"
  using assms
proof (induction nodes arbitrary: a)
  case (Cons i nodes)
  obtain n where n: "dag_Nodes d i = Some n" using Cons.prems(2) by auto
  have st: "stake_of d i = unat (nd_Stake n)" "DAG_GetNodeStake i d = Inr (nd_Stake n)"
    by (simp_all add: stake_of_def DAG_GetNodeStake_def n)
  have nodes: "distinct nodes" "set nodes \<subseteq> dom (dag_Nodes d)" using Cons.prems(1,2) by auto
  show ?case
  proof (cases "i \<noteq> ev_Creator (dag_store d r) \<and> VirtualVoting_HasSeen d i (Some r)")
    case False
    then have "vote_loop d r q (Fin (of_nat a)) (i # nodes) = vote_loop d r q (Fin (of_nat a)) nodes" by auto
    moreover have "filter (\<lambda>i. i \<noteq> ev_Creator (dag_store d r) \<and> VirtualVoting_HasSeen d i (Some r)) (i # nodes) =
        filter (\<lambda>i. i \<noteq> ev_Creator (dag_store d r) \<and> VirtualVoting_HasSeen d i (Some r)) nodes"
      using False by auto
    ultimately show ?thesis using Cons.IH [OF nodes _ Cons.prems(4)] Cons.prems(3) by (simp only:)
  next
    case True
    let ?S = "\<Sum>i\<leftarrow>filter (\<lambda>i. i \<noteq> ev_Creator (dag_store d r) \<and> VirtualVoting_HasSeen d i (Some r)) nodes. stake_of d i"
    have rest: "(\<Sum>i\<leftarrow>filter (\<lambda>i. i \<noteq> ev_Creator (dag_store d r) \<and> VirtualVoting_HasSeen d i (Some r)) (i # nodes). stake_of d i)
        = stake_of d i + ?S" using True by simp
    have bound: "a + stake_of d i \<le> 2 ^ 53" "a + stake_of d i + ?S \<le> 2 ^ 53"
      using Cons.prems(3) unfolding rest by simp_all
    then have acc: "f64_add (Fin (of_nat a)) (f64_of_int (uint (nd_Stake n))) = Fin (of_nat (a + stake_of d i))"
      using stake_float [OF n] f64_add_nat by simp
    have step: "vote_loop d r q (Fin (of_nat a)) (i # nodes) \<longleftrightarrow>
        f64_le q (Fin (of_nat (a + stake_of d i))) \<or> vote_loop d r q (Fin (of_nat (a + stake_of d i))) nodes"
      using True st(2) acc by (simp add: Let_def del: of_nat_add)
    show ?thesis
    proof (cases "f64_le q (Fin (of_nat (a + stake_of d i)))")
      case True
      then have "f64_le q (Fin (of_nat (a + (stake_of d i + ?S))))" by (rule f64_le_mono_Fin) simp
      then show ?thesis unfolding step rest using True by simp
    next
      case False
      from Cons.IH [OF nodes bound(2) False] False show ?thesis
        unfolding step rest by (simp add: add.assoc del: of_nat_add)
    qed
  qed
qed simp

definition total_active :: "DAG \<Rightarrow> nat" where
  "total_active d = (\<Sum>i\<in>active_set d. stake_of d i)"

definition weight :: "DAG \<Rightarrow> hash32 set \<Rightarrow> nat" where
  "weight d A = (\<Sum>i\<in>A. stake_of d i)"

lemma active_order: "range_order (dag_Nodes d) order \<Longrightarrow>
    distinct (DAG_GetActiveNodes order d) \<and> set (DAG_GetActiveNodes order d) = active_set d"
  by (auto simp: DAG_GetActiveNodes_def range_order_def active_set_def DAG_IsActiveValidator_def dom_def split: option.splits)

lemma active_sub: "active_set d \<subseteq> dom (dag_Nodes d)"
  by (auto simp: active_set_def DAG_IsActiveValidator_def split: option.splits)

lemma GetTotalStake_exact:
  assumes o: "range_order (dag_Nodes d) order" and b: "weight d (dom (dag_Nodes d)) < 2 ^ 64"
  shows "unat (DAG_GetTotalStake order d) = total_active d"
proof -
  have fin: "finite (dom (dag_Nodes d))" using o by (rule range_order_finite)
  let ?f = "\<lambda>i. let node = the (dag_Nodes d i) in if nd_Active node then nd_Stake node else 0"
  have "DAG_GetTotalStake order d = sum ?f (dom (dag_Nodes d))"
    using range_order_sum_list [OF o, of ?f] by (simp add: DAG_GetTotalStake_def)
  also have "\<dots> = (\<Sum>i\<in>active_set d. word_of_nat (stake_of d i))"
    using active_sub fin
    by (intro sum.mono_neutral_cong_right)
       (auto simp: active_set_def DAG_IsActiveValidator_def stake_of_def split: option.splits if_splits)
  finally have "DAG_GetTotalStake order d = word_of_nat (total_active d)" by (simp add: total_active_def)
  moreover have "total_active d \<le> weight d (dom (dag_Nodes d))"
    unfolding total_active_def weight_def using active_sub fin by (intro sum_mono2) auto
  ultimately show ?thesis using b by (simp add: unsigned_of_nat take_bit_nat_eq_self)
qed

lemma counted_split:
  assumes "finite (dom (dag_Nodes d))" and "ev_Creator (dag_store d r) \<in> dom (dag_Nodes d)"
  shows "weight d (counted d r) = stake_of d (ev_Creator (dag_store d r)) +
     weight d {i \<in> active_set d. i \<noteq> ev_Creator (dag_store d r) \<and> VirtualVoting_HasSeen d i (Some r)}"
proof -
  let ?A = "{i \<in> active_set d. i \<noteq> ev_Creator (dag_store d r) \<and> VirtualVoting_HasSeen d i (Some r)}"
  have "counted d r = insert (ev_Creator (dag_store d r)) ?A"
    using assms(2) by (auto simp: counted_def active_set_def DAG_IsActiveValidator_def split: option.splits)
  moreover have "finite ?A" by (rule finite_subset [OF _ assms(1)]) (use active_sub [of d] in auto)
  ultimately show ?thesis by (simp add: weight_def)
qed

text \<open>The vote as a comparison of one sum with the threshold.\<close>

lemma vote_iff:
  assumes o: "range_order (dag_Nodes d) order1" "range_order (dag_Nodes d) order2"
    and b: "weight d (dom (dag_Nodes d)) \<le> 2 ^ 53" and c: "ev_Creator (dag_store d r) \<in> dom (dag_Nodes d)"
    and t: "vv_threshold v = Fin t" "0 < t" and pos: "0 < total_active d"
  shows "VirtualVoting_Vote order1 order2 (Some d) (Some r) v \<longleftrightarrow>
    f64_le (rnd (of_nat (total_active d) * t)) (Fin (of_nat (weight d (counted d r))))"
proof -
  have fin: "finite (dom (dag_Nodes d))" using o(1) by (rule range_order_finite)
  have sub: "total_active d \<le> weight d (dom (dag_Nodes d))"
    unfolding total_active_def weight_def using active_sub fin by (intro sum_mono2) auto
  have tot: "unat (DAG_GetTotalStake order1 d) = total_active d" using o(1) b by (intro GetTotalStake_exact) simp_all
  then have nz: "DAG_GetTotalStake order1 d \<noteq> 0" using pos by auto
  have "uint (DAG_GetTotalStake order1 d) = int (total_active d)" using tot by (metis uint_nat)
  then have req: "f64_mul (f64_of_int (uint (DAG_GetTotalStake order1 d))) (vv_threshold v) = rnd (of_nat (total_active d) * t)"
    using sub b t f64_of_int_exact [of "int (total_active d)"] by simp
  let ?q = "rnd (of_nat (total_active d) * t)" and ?c = "ev_Creator (dag_store d r)"
  obtain n where n: "dag_Nodes d ?c = Some n" using c by auto
  note act = active_order [OF o(2)]
  have "active_set d \<noteq> {}" using pos by (auto simp: total_active_def)
  then have ne: "DAG_GetActiveNodes order2 d \<noteq> []" using act by auto
  have sc: "stake_of d ?c = unat (nd_Stake n)" "DAG_GetNodeStake ?c d = Inr (nd_Stake n)"
    by (simp_all add: stake_of_def DAG_GetNodeStake_def n)
  have "stake_of d ?c \<le> weight d (dom (dag_Nodes d))"
    unfolding weight_def using c fin by (intro member_le_sum) auto
  then have le: "stake_of d ?c \<le> 2 ^ 53" using b by simp
  then have acc: "f64_add f64_0 (f64_of_int (uint (nd_Stake n))) = Fin (of_nat (stake_of d ?c))"
    using stake_float [OF n] f64_add_nat [of 0 "stake_of d ?c"] by simp
  have "f64_le f64_0 (Fin t)" "\<not> f64_le (Fin t) f64_0" using t by auto
  then have vote: "VirtualVoting_Vote order1 order2 (Some d) (Some r) v \<longleftrightarrow>
      f64_le ?q (Fin (of_nat (stake_of d ?c))) \<or> vote_loop d r ?q (Fin (of_nat (stake_of d ?c))) (DAG_GetActiveNodes order2 d)"
    using nz ne sc(2) acc t(1) req by (simp add: VirtualVoting_Vote_def Let_def)
  show ?thesis
  proof (cases "f64_le ?q (Fin (of_nat (stake_of d ?c)))")
    case True
    then have "f64_le ?q (Fin (of_nat (weight d (counted d r))))"
      unfolding counted_split [OF fin c] by (rule f64_le_mono_Fin) simp
    then show ?thesis using vote True by simp
  next
    case False
    let ?P = "\<lambda>i. i \<noteq> ?c \<and> VirtualVoting_HasSeen d i (Some r)"
    have sum: "(\<Sum>i\<leftarrow>filter ?P (DAG_GetActiveNodes order2 d). stake_of d i) = weight d {i \<in> active_set d. ?P i}"
      using act by (simp add: sum_list_distinct_conv_sum_set weight_def)
    have "counted d r \<subseteq> dom (dag_Nodes d)" by (auto simp: counted_def)
    then have "weight d (counted d r) \<le> 2 ^ 53"
      using b fin unfolding weight_def by (meson order.trans sum_mono2 zero_le)
    then have w: "stake_of d ?c + (\<Sum>i\<leftarrow>filter ?P (DAG_GetActiveNodes order2 d). stake_of d i) \<le> 2 ^ 53"
      unfolding sum counted_split [OF fin c] by simp
    have "set (DAG_GetActiveNodes order2 d) \<subseteq> dom (dag_Nodes d)" using act active_sub by blast
    from vote_loop_exact [OF conjunct1 [OF act] this w False] show ?thesis
      using vote False unfolding sum counted_split [OF fin c] by simp
  qed
qed

text \<open>While all stakes together stay below 2^53, \<open>Vote\<close> is exact: for an event whose creator is a node, it
  passes if and only if the stake of the creator and of the active nodes that have an ancestor of the event
  reaches the rounded product of the total active stake and the threshold.\<close>

theorem vote_exact:
  assumes o: "range_order (dag_Nodes d) order1" "range_order (dag_Nodes d) order2"
    and b: "weight d (dom (dag_Nodes d)) \<le> 2 ^ 53" and c: "ev_Creator (dag_store d r) \<in> dom (dag_Nodes d)"
    and t: "vv_threshold v = Fin t" "0 < t" and pos: "0 < total_active d"
  shows "VirtualVoting_Vote order1 order2 (Some d) (Some r) v \<longleftrightarrow>
    f64_le (rnd (of_nat (total_active d) * t)) (Fin (of_nat (weight d (counted d r))))"
  by (rule vote_iff [OF o b c t pos])

lemma default_threshold: "\<exists>t. vv_threshold NewVirtualVoting = Fin t \<and> 5 / 8 \<le> t \<and> t \<le> 1"
proof -
  have "f64_le (rnd (5 / 8)) (rnd (66 / 100))" "f64_le (rnd (66 / 100)) (rnd 1)" by (rule rnd_mono; simp)+
  moreover have "rnd (5 / 8) = Fin (5 / 8)" using rnd_exact [of 5 "-3"] by (simp add: pow2_def)
  moreover have "rnd 1 = Fin 1" using rnd_int [of 1] by simp
  ultimately show ?thesis by (cases "rnd (66 / 100)") (auto simp: NewVirtualVoting_def f64_le_def)
qed

text \<open>At the default threshold a vote needs at least five eighths of the active stake.\<close>

lemma vote_needs_quorum:
  assumes o: "range_order (dag_Nodes d) order1" "range_order (dag_Nodes d) order2"
    and b: "weight d (dom (dag_Nodes d)) * 8 \<le> 2 ^ 53" and c: "ev_Creator (dag_store d r) \<in> dom (dag_Nodes d)"
    and v: "VirtualVoting_Vote order1 order2 (Some d) (Some r) NewVirtualVoting"
  shows "0 < total_active d \<and> 5 * total_active d \<le> 8 * weight d (counted d r)"
proof -
  have fin: "finite (dom (dag_Nodes d))" using o(1) by (rule range_order_finite)
  obtain t where t: "vv_threshold NewVirtualVoting = Fin t" "5 / 8 \<le> t" using default_threshold by blast
  let ?T = "total_active d"
  have sub: "?T \<le> weight d (dom (dag_Nodes d))"
    unfolding total_active_def weight_def using active_sub fin by (intro sum_mono2) auto
  have "unat (DAG_GetTotalStake order1 d) = ?T" using o(1) b by (intro GetTotalStake_exact) simp_all
  moreover have "DAG_GetTotalStake order1 d \<noteq> 0" using v by (auto simp: VirtualVoting_Vote_def Let_def)
  ultimately have pos: "0 < ?T" by (metis unat_gt_0)
  have "f64_le (rnd (of_nat ?T * t)) (Fin (of_nat (weight d (counted d r))))"
    using vote_iff [OF o _ c t(1) _ pos] v t(2) b by simp
  moreover have "of_nat ?T * (5 / 8) \<le> (of_nat ?T * t :: rat)" using t(2) by (intro mult_left_mono) auto
  then have "f64_le (rnd (of_nat ?T * (5 / 8))) (rnd (of_nat ?T * t))" by (rule rnd_mono)
  moreover have "rnd (of_nat ?T * (5 / 8)) = Fin (of_nat ?T * (5 / 8))"
    using rnd_exact [of "int (5 * ?T)" "-3"] sub b by (simp add: pow2_def mult.commute)
  ultimately have "f64_le (Fin (of_nat ?T * (5 / 8))) (Fin (of_nat (weight d (counted d r))))" by (metis f64_le_trans)
  then have "of_nat (5 * ?T) \<le> (of_nat (8 * weight d (counted d r)) :: rat)" by simp
  then show ?thesis using pos by (simp only: of_nat_le_iff)
qed

text \<open>C17: Any two events that pass the vote on one graph at the default threshold, both created by active nodes,
  are supported by common nodes that hold at least a quarter of the active stake. (The stakes together must be
  below 2^50, so that the floating-point sums are exact.)\<close>

theorem quorums_intersect:
  assumes o: "range_order (dag_Nodes d) order1" "range_order (dag_Nodes d) order2"
    and b: "weight d (dom (dag_Nodes d)) * 8 \<le> 2 ^ 53"
    and c: "DAG_IsActiveValidator (ev_Creator (dag_store d r1)) d" "DAG_IsActiveValidator (ev_Creator (dag_store d r2)) d"
    and v: "VirtualVoting_Vote order1 order2 (Some d) (Some r1) NewVirtualVoting"
           "VirtualVoting_Vote order1 order2 (Some d) (Some r2) NewVirtualVoting"
  shows "0 < total_active d \<and> total_active d \<le> 4 * weight d (counted d r1 \<inter> counted d r2)"
proof -
  have fin: "finite (active_set d)" using range_order_finite [OF o(1)] active_sub by (rule finite_subset [rotated])
  have dom: "ev_Creator (dag_store d r1) \<in> dom (dag_Nodes d)" "ev_Creator (dag_store d r2) \<in> dom (dag_Nodes d)"
    using c active_sub by (auto simp: active_set_def)
  have sub: "counted d r1 \<subseteq> active_set d" "counted d r2 \<subseteq> active_set d"
    using c by (auto simp: counted_def active_set_def DAG_IsActiveValidator_def)
  have "weight d (counted d r1) + weight d (counted d r2) =
      weight d (counted d r1 \<union> counted d r2) + weight d (counted d r1 \<inter> counted d r2)"
    unfolding weight_def using fin sub by (intro sum.union_inter [symmetric]) (auto intro: finite_subset)
  moreover have "weight d (counted d r1 \<union> counted d r2) \<le> total_active d"
    unfolding weight_def total_active_def using fin sub by (intro sum_mono2) auto
  ultimately show ?thesis
    using vote_needs_quorum [OF o b dom(1) v(1)] vote_needs_quorum [OF o b dom(2) v(2)] by linarith
qed

lemma dag_example_nodes: "range_order (dag_Nodes dag_example) [1]"
  by (auto simp: range_order_def dag_example_def DAG_NewEvent_def DAG_AddNode_def NewDAG_def Let_def)

lemma dag_example_event: "ev_Creator (dag_store dag_example 0) = 1" "DAG_IsActiveValidator 1 dag_example"
    "dom (dag_Nodes dag_example) = {1}" "stake_of dag_example 1 = 10" "active_set dag_example = {1}"
  by (auto simp: dag_example_def DAG_NewEvent_def DAG_AddNode_def NewDAG_def Let_def DAG_IsActiveValidator_def stake_of_def
      active_set_def split: if_splits)

lemma dag_example_total: "total_active dag_example = 10" "weight dag_example (dom (dag_Nodes dag_example)) = 10"
    "weight dag_example (counted dag_example 0) = 10"
proof -
  show "total_active dag_example = 10" "weight dag_example (dom (dag_Nodes dag_example)) = 10"
    using dag_example_event by (simp_all add: total_active_def weight_def)
  have "counted dag_example 0 = {1}" using dag_example_event by (auto simp: counted_def)
  then show "weight dag_example (counted dag_example 0) = 10" using dag_example_event by (simp add: weight_def)
qed

lemma dag_example_required: "vv_threshold NewVirtualVoting = Fin t \<Longrightarrow> f64_le (rnd (10 * t)) (Fin 10)"
proof -
  assume "vv_threshold NewVirtualVoting = Fin t"
  then have "10 * t \<le> 10" using default_threshold by auto
  then have "f64_le (rnd (10 * t)) (rnd 10)" by (rule rnd_mono)
  then show ?thesis using rnd_int [of 10] by simp
qed

theorem vote_exact_witness: "VirtualVoting_Vote [1] [1] (Some dag_example) (Some 0) NewVirtualVoting"
proof -
  obtain t where t: "vv_threshold NewVirtualVoting = Fin t" "5 / 8 \<le> t" using default_threshold by blast
  have "VirtualVoting_Vote [1] [1] (Some dag_example) (Some 0) NewVirtualVoting \<longleftrightarrow>
      f64_le (rnd (of_nat (total_active dag_example) * t)) (Fin (of_nat (weight dag_example (counted dag_example 0))))"
    using t dag_example_event dag_example_total
    by (intro vote_exact [OF dag_example_nodes dag_example_nodes]) auto
  then show ?thesis using dag_example_required [OF t(1)] dag_example_total by simp
qed

lemma dag_example_vote: "VirtualVoting_Vote [1] [1] (Some dag_example) (Some 0) NewVirtualVoting"
proof -
  obtain t where t: "vv_threshold NewVirtualVoting = Fin t" "5 / 8 \<le> t" using default_threshold by blast
  have "f64_add f64_0 (f64_of_int 10) = Fin 10" "f64_of_int 10 = Fin 10"
    using f64_add_nat [of 0 10] f64_of_int_exact [of 10] by simp_all
  then show ?thesis
    using t dag_example_required [OF t(1)]
    by (simp add: VirtualVoting_Vote_def DAG_GetTotalStake_def DAG_GetActiveNodes_def DAG_GetNodeStake_def
        dag_example_def DAG_NewEvent_def DAG_AddNode_def NewDAG_def Let_def)
qed

theorem quorums_intersect_witness:
  "total_active dag_example \<le> 4 * weight dag_example (counted dag_example 0 \<inter> counted dag_example 0)"
  using quorums_intersect [OF dag_example_nodes dag_example_nodes _ _ _ dag_example_vote dag_example_vote]
    dag_example_event dag_example_total by simp

section \<open>The threshold\<close>

inductive voting_reachable :: "VirtualVoting \<Rightarrow> bool" where
  init: "voting_reachable NewVirtualVoting"
| set: "voting_reachable v \<Longrightarrow> voting_reachable (VirtualVoting_SetThreshold t v)"
| restore: "voting_reachable v \<Longrightarrow> voting_reachable (snd (VirtualVoting_RestoreState st v))"

text \<open>However it is set or restored, the threshold stays in (0, 1] or is not a number, so \<open>Validate\<close> never
  reports an invalid threshold; and what \<open>GetState\<close> saves, \<open>RestoreState\<close> accepts and gives back.\<close>

theorem threshold_valid:
  assumes "voting_reachable v"
  shows "VirtualVoting_Validate (Some d) v = None \<and>
    (case VirtualVoting_GetState v of
       Inl _ \<Rightarrow> vv_threshold v = NaN
     | Inr st \<Rightarrow> VirtualVoting_RestoreState (Some st) w = (None, v))"
proof -
  have "\<not> f64_le (vv_threshold v) f64_0 \<and> \<not> f64_lt f64_1 (vv_threshold v)"
    using assms
  proof induction
    case init
    then show ?case using default_threshold by auto
  qed (auto simp: VirtualVoting_SetThreshold_def VirtualVoting_RestoreState_def split: option.splits)
  then show ?thesis
    by (cases "vv_threshold v")
       (auto simp: VirtualVoting_Validate_def VirtualVoting_GetState_def VirtualVoting_RestoreState_def f64_le_def)
qed

theorem threshold_valid_witness: "VirtualVoting_Validate (Some NewDAG) (VirtualVoting_SetThreshold (Fin 7) NewVirtualVoting) = None"
  using threshold_valid [OF voting_reachable.set [OF voting_reachable.init], of NewDAG "Fin 7"] by blast

end
