(* ===== verification/Finalization.thy ===== *)
theory Finalization
  imports VotingTheory "HOL-Library.Multiset"
begin

text \<open>
  The finalizer and the gossip protocol: \<open>consensus/diamantefinality/finalize.go\<close> and \<open>gossip.go\<close>.

  The finalizer reaches the voting only through the interface \<open>Voting\<close>, which here is an argument \<open>vote\<close>; the
  locale \<open>voting_interface\<close> states what the finalizer needs of it, and \<open>VirtualVoting\<close> satisfies it.
  \<open>FinalizeEvents\<close> runs one goroutine per event: the order in which they get the lock is an argument.

  A channel of the gossip protocol is the list of the events in it, at most a thousand; a closed channel has
  been taken out of the map. The goroutine of \<open>StartGossiping\<close> is modelled by what one round of its loop does.
\<close>

section \<open>The finalizer\<close>

record Finalizer =
  fz_finalized :: "hash32 \<rightharpoonup> bool"
  fz_checkpoints :: "uint64 \<rightharpoonup> nat"

datatype final_error = ErrVoteFailed | FinalErrNew string

definition NewFinalizer :: Finalizer where
  "NewFinalizer = \<lparr>fz_finalized = Map.empty, fz_checkpoints = Map.empty\<rparr>"

definition Finalizer_IsFinalized :: "hash32 \<Rightarrow> Finalizer \<Rightarrow> bool" where
  "Finalizer_IsFinalized eventID f = (fz_finalized f eventID = Some True)"

definition Finalizer_updateCheckpoints :: "nat \<Rightarrow> uint64 \<Rightarrow> Finalizer \<Rightarrow> Finalizer" where
  "Finalizer_updateCheckpoints r height f =
     (if height mod 1000 = 0 then f\<lparr>fz_checkpoints := (fz_checkpoints f)(height \<mapsto> r)\<rparr> else f)"

definition set_finalized :: "nat \<Rightarrow> DAG \<Rightarrow> DAG" where
  "set_finalized r d = d\<lparr>dag_store := (dag_store d)(r := (dag_store d r)\<lparr>ev_Finalized := True\<rparr>)\<rparr>"

definition Finalizer_Finalize ::
    "(DAG \<Rightarrow> nat \<Rightarrow> bool) \<Rightarrow> nat \<Rightarrow> Finalizer \<times> DAG \<Rightarrow> (bool \<times> final_error option) \<times> Finalizer \<times> DAG" where
  "Finalizer_Finalize vote r st =
     (case st of (f, d) \<Rightarrow>
        let i = ev_ID (dag_store d r) in
        if Finalizer_IsFinalized i f then ((True, None), f, d)
        else if vote d r then
          ((True, None),
           Finalizer_updateCheckpoints r (ev_Height (dag_store d r)) (f\<lparr>fz_finalized := (fz_finalized f)(i \<mapsto> True)\<rparr>),
           set_finalized r d)
        else ((False, Some ErrVoteFailed), f, d))"

fun latest_loop :: "(uint64 \<rightharpoonup> nat) \<Rightarrow> uint64 list \<Rightarrow> uint64 \<Rightarrow> nat option \<Rightarrow> nat option" where
  "latest_loop cps [] latestHeight latest = latest"
| "latest_loop cps (h # order) latestHeight latest =
     (if h > latestHeight then latest_loop cps order h (cps h) else latest_loop cps order latestHeight latest)"

definition Finalizer_GetLatestCheckpoint :: "uint64 list \<Rightarrow> Finalizer \<Rightarrow> nat option" where
  "Finalizer_GetLatestCheckpoint order f = latest_loop (fz_checkpoints f) order 0 None"

text \<open>The saved state: the finalized map with hexadecimal keys, the checkpoints with the events by value.\<close>

record FinalizerJSON =
  fj_finalized :: "(string \<times> bool) list"
  fj_checkpoints :: "(uint64 \<times> Event) list"

definition Finalizer_GetState :: "hash32 list \<Rightarrow> uint64 list \<Rightarrow> Finalizer \<times> DAG \<Rightarrow> FinalizerJSON" where
  "Finalizer_GetState order1 order2 st =
     (case st of (f, d) \<Rightarrow>
        \<lparr>fj_finalized = map (\<lambda>i. (byteArrayToString i, the (fz_finalized f i))) order1,
         fj_checkpoints = map (\<lambda>h. (h, dag_store d (the (fz_checkpoints f h)))) order2\<rparr>)"

fun restore_finalized :: "(string \<times> bool) list \<Rightarrow> (hash32 \<rightharpoonup> bool) \<Rightarrow> (hash32 \<rightharpoonup> bool) option" where
  "restore_finalized [] newFin = Some newFin"
| "restore_finalized ((s, b) # rest) newFin =
     (case stringToByteArray s of
        None \<Rightarrow> None
      | Some i \<Rightarrow> restore_finalized rest (newFin(i \<mapsto> b)))"

fun restore_checkpoints :: "(uint64 \<times> Event) list \<Rightarrow> (uint64 \<rightharpoonup> nat) \<Rightarrow> DAG \<Rightarrow> (uint64 \<rightharpoonup> nat) \<times> DAG" where
  "restore_checkpoints [] newCP d = (newCP, d)"
| "restore_checkpoints ((h, e) # rest) newCP d =
     (let r = dag_next d
      in restore_checkpoints rest (newCP(h \<mapsto> r)) (d\<lparr>dag_store := (dag_store d)(r := e), dag_next := Suc r\<rparr>))"

definition Finalizer_RestoreState :: "FinalizerJSON option \<Rightarrow> Finalizer \<times> DAG \<Rightarrow> final_error option \<times> Finalizer \<times> DAG" where
  "Finalizer_RestoreState data st =
     (case st of (f, d) \<Rightarrow>
        (case data of
           None \<Rightarrow> (Some (FinalErrNew ''failed to unmarshal Finalizer state''), f, d)
         | Some j \<Rightarrow>
             (case restore_finalized (fj_finalized j) Map.empty of
                None \<Rightarrow> (Some (FinalErrNew ''invalid ID in finalize restore''), f, d)
              | Some newFin \<Rightarrow>
                  (case restore_checkpoints (fj_checkpoints j) Map.empty d of
                     (newCP, d') \<Rightarrow> (None, f\<lparr>fz_finalized := newFin, fz_checkpoints := newCP\<rparr>, d')))))"

text \<open>The goroutines of \<open>FinalizeEvents\<close>, in the order in which they run.\<close>

fun finalize_all ::
    "(DAG \<Rightarrow> nat \<Rightarrow> bool) \<Rightarrow> nat list \<Rightarrow> Finalizer \<times> DAG \<Rightarrow> final_error list \<times> Finalizer \<times> DAG" where
  "finalize_all vote [] st = ([], st)"
| "finalize_all vote (r # rs) st =
     (case Finalizer_Finalize vote r st of
        ((success, err), st1) \<Rightarrow>
          (case finalize_all vote rs st1 of
             (errs, st2) \<Rightarrow>
               ((case err of
                   Some e \<Rightarrow> e # errs
                 | None \<Rightarrow> if \<not> success then FinalErrNew ''could not finalize event (vote returned false)'' # errs else errs),
                st2)))"

definition Finalizer_FinalizeEvents ::
    "(DAG \<Rightarrow> nat \<Rightarrow> bool) \<Rightarrow> nat list \<Rightarrow> Finalizer \<times> DAG \<Rightarrow> final_error list option \<times> Finalizer \<times> DAG" where
  "Finalizer_FinalizeEvents vote events st =
     (case finalize_all vote events st of (errs, st') \<Rightarrow> (if length errs > 0 then Some errs else None, st'))"

section \<open>The gossip protocol\<close>

record GossipProtocol =
  g_peers :: "hash32 \<rightharpoonup> nat list"
  g_stopChannels :: "hash32 set"
  g_baseDelay :: duration
  g_currentDelay :: duration
  g_networkLoad :: float64
  g_cancelled :: bool

definition NewGossipProtocol :: "duration \<Rightarrow> GossipProtocol" where
  "NewGossipProtocol baseDelay =
     \<lparr>g_peers = Map.empty, g_stopChannels = {}, g_baseDelay = baseDelay, g_currentDelay = baseDelay,
      g_networkLoad = f64_0, g_cancelled = False\<rparr>"

definition GossipProtocol_AddPeer :: "hash32 \<Rightarrow> GossipProtocol \<Rightarrow> GossipProtocol" where
  "GossipProtocol_AddPeer nodeID g =
     (if g_peers g nodeID = None
      then g\<lparr>g_peers := (g_peers g)(nodeID \<mapsto> []), g_stopChannels := insert nodeID (g_stopChannels g)\<rparr>
      else g)"

definition GossipProtocol_RemovePeer :: "hash32 \<Rightarrow> GossipProtocol \<Rightarrow> GossipProtocol" where
  "GossipProtocol_RemovePeer nodeID g =
     g\<lparr>g_peers := (g_peers g)(nodeID := None), g_stopChannels := g_stopChannels g - {nodeID}\<rparr>"

definition channel_capacity :: nat where "channel_capacity = 1000"

definition GossipProtocol_BroadcastEvent :: "nat \<Rightarrow> hash32 \<Rightarrow> GossipProtocol \<Rightarrow> GossipProtocol" where
  "GossipProtocol_BroadcastEvent event excludeNodeID g =
     g\<lparr>g_peers := (\<lambda>peerID. case g_peers g peerID of
          None \<Rightarrow> None
        | Some ch \<Rightarrow> Some (if peerID = excludeNodeID then ch
                          else if length ch < channel_capacity then ch @ [event] else ch))\<rparr>"

definition GossipProtocol_GetNetworkLoad :: "GossipProtocol \<Rightarrow> float64" where
  "GossipProtocol_GetNetworkLoad g = g_networkLoad g"

text \<open>\<open>conv\<close> is the conversion to \<open>int64\<close> of a float that is out of range, which the language leaves open.\<close>

definition GossipProtocol_adjustGossipRateLocked :: "(float64 \<Rightarrow> int) \<Rightarrow> GossipProtocol \<Rightarrow> GossipProtocol" where
  "GossipProtocol_adjustGossipRateLocked conv g =
     g\<lparr>g_currentDelay := f64_to_int64 conv (f64_mul (f64_of_int (g_baseDelay g)) (f64_add f64_1 (g_networkLoad g)))\<rparr>"

definition GossipProtocol_adjustGossipRate :: "(float64 \<Rightarrow> int) \<Rightarrow> GossipProtocol \<Rightarrow> GossipProtocol" where
  "GossipProtocol_adjustGossipRate conv g = GossipProtocol_adjustGossipRateLocked conv g"

definition GossipProtocol_UpdateNetworkLoad :: "(float64 \<Rightarrow> int) \<Rightarrow> float64 \<Rightarrow> GossipProtocol \<Rightarrow> GossipProtocol" where
  "GossipProtocol_UpdateNetworkLoad conv load g =
     GossipProtocol_adjustGossipRate conv (g\<lparr>g_networkLoad := f64_Max f64_0 (f64_Min f64_1 load)\<rparr>)"

definition GossipProtocol_SetBaseDelay :: "(float64 \<Rightarrow> int) \<Rightarrow> duration \<Rightarrow> GossipProtocol \<Rightarrow> GossipProtocol" where
  "GossipProtocol_SetBaseDelay conv delay g = GossipProtocol_adjustGossipRateLocked conv (g\<lparr>g_baseDelay := delay\<rparr>)"

definition GossipProtocol_getCurrentDelay :: "GossipProtocol \<Rightarrow> duration" where
  "GossipProtocol_getCurrentDelay g = g_currentDelay g"

definition GossipProtocol_GetCurrentDelay :: "GossipProtocol \<Rightarrow> duration" where
  "GossipProtocol_GetCurrentDelay g = g_currentDelay g"

definition GossipProtocol_processReceivedEvent ::
    "(float64 \<Rightarrow> int) \<Rightarrow> int \<Rightarrow> hash32 \<Rightarrow> nat option \<Rightarrow> GossipProtocol \<times> DAG \<Rightarrow> GossipProtocol \<times> DAG" where
  "GossipProtocol_processReceivedEvent conv now nodeID event st =
     (case (event, st) of
        (None, st) \<Rightarrow> st
      | (Some r, g, d) \<Rightarrow>
          let e = dag_store d r in
          case DAG_GetEvent (ev_ID e) d of
            Inr _ \<Rightarrow> (g, d)
          | Inl _ \<Rightarrow>
              let d1 = (if \<not> DAG_IsActiveValidator nodeID d then DAG_AddNode nodeID 1 d else d) in
              case DAG_NewEvent now nodeID (ev_ParentIDs e) (ev_Data e) d1 of
                (Inl _, d2) \<Rightarrow> (g, d2)
              | (Inr _, d2) \<Rightarrow>
                  let g1 = GossipProtocol_BroadcastEvent r nodeID g in
                  (GossipProtocol_UpdateNetworkLoad conv (f64_add (GossipProtocol_GetNetworkLoad g1) (rnd (1 / 100))) g1, d2))"

text \<open>One round of the goroutine of a peer. When its channel holds an event and the ticker is ready too, the
  \<open>select\<close> may take either: \<open>take_event\<close> says which. The result says whether the goroutine goes on.\<close>

definition GossipProtocol_StartGossiping ::
    "(float64 \<Rightarrow> int) \<Rightarrow> int \<Rightarrow> bool \<Rightarrow> hash32 \<Rightarrow> GossipProtocol \<times> DAG \<Rightarrow> bool \<times> GossipProtocol \<times> DAG" where
  "GossipProtocol_StartGossiping conv now take_event nodeID st =
     (case st of (g, d) \<Rightarrow>
        if g_cancelled g then (False, g, d)
        else case g_peers g nodeID of
          None \<Rightarrow> (False, g, d)
        | Some ch \<Rightarrow>
            if nodeID \<notin> g_stopChannels g then (False, g, d)
            else (case ch of
                [] \<Rightarrow> (True, g, d)
              | r # rest \<Rightarrow>
                  if \<not> take_event then (True, g, d)
                  else (True, GossipProtocol_processReceivedEvent conv now nodeID (Some r)
                           (g\<lparr>g_peers := (g_peers g)(nodeID \<mapsto> rest)\<rparr>, d))))"

definition GossipProtocol_ForceSyncAll :: "hash32 list \<Rightarrow> GossipProtocol \<times> DAG \<Rightarrow> GossipProtocol" where
  "GossipProtocol_ForceSyncAll order st =
     (case st of (g, d) \<Rightarrow> fold (\<lambda>i. GossipProtocol_BroadcastEvent (the (DAG_GetEvents d i)) 0) order g)"

definition GossipProtocol_GetPeers :: "hash32 list \<Rightarrow> GossipProtocol \<Rightarrow> hash32 list" where
  "GossipProtocol_GetPeers order g = order"

record GossipJSON =
  gj_peers :: "string list"
  gj_base_delay :: duration
  gj_current_delay :: duration
  gj_network_load :: float64

definition GossipProtocol_GetState :: "hash32 list \<Rightarrow> GossipProtocol \<Rightarrow> final_error + GossipJSON" where
  "GossipProtocol_GetState order g =
     (case g_networkLoad g of
        Fin q \<Rightarrow> Inr \<lparr>gj_peers = map byteArrayToString order, gj_base_delay = g_baseDelay g,
                      gj_current_delay = g_currentDelay g, gj_network_load = Fin q\<rparr>
      | _ \<Rightarrow> Inl (FinalErrNew ''json: unsupported value''))"

fun restore_peers :: "string list \<Rightarrow> (hash32 \<rightharpoonup> nat list) \<Rightarrow> (hash32 \<rightharpoonup> nat list) option" where
  "restore_peers [] newPeers = Some newPeers"
| "restore_peers (s # rest) newPeers =
     (case stringToByteArray s of None \<Rightarrow> None | Some i \<Rightarrow> restore_peers rest (newPeers(i \<mapsto> [])))"

definition GossipProtocol_RestoreState :: "GossipJSON option \<Rightarrow> GossipProtocol \<Rightarrow> final_error option \<times> GossipProtocol" where
  "GossipProtocol_RestoreState data g =
     (case data of
        None \<Rightarrow> (Some (FinalErrNew ''unmarshal error''), g)
      | Some j \<Rightarrow>
          (case restore_peers (gj_peers j) Map.empty of
             None \<Rightarrow> (Some (FinalErrNew ''failed to parse peer ID''), g)
           | Some newPeers \<Rightarrow>
               (None, g\<lparr>g_peers := newPeers, g_stopChannels := dom newPeers, g_baseDelay := gj_base_delay j,
                        g_currentDelay := gj_current_delay j, g_networkLoad := gj_network_load j\<rparr>)))"

text \<open>\<open>Start\<close> spawns the goroutines of the peers and changes no state.\<close>

definition GossipProtocol_Start :: "GossipProtocol \<Rightarrow> hash32 set" where
  "GossipProtocol_Start g = dom (g_peers g)"

definition GossipProtocol_Stop :: "GossipProtocol \<Rightarrow> GossipProtocol" where
  "GossipProtocol_Stop g = g\<lparr>g_stopChannels := {}, g_cancelled := True\<rparr>"

section \<open>Finalizing in any order\<close>

lemma set_finalized_frame [frame_simps]:
  "ev_ID (dag_store (set_finalized s d) r) = ev_ID (dag_store d r)"
  "ev_Creator (dag_store (set_finalized s d) r) = ev_Creator (dag_store d r)"
  "ev_ParentIDs (dag_store (set_finalized s d) r) = ev_ParentIDs (dag_store d r)"
  "ev_Height (dag_store (set_finalized s d) r) = ev_Height (dag_store d r)"
  "dag_Events (set_finalized s d) = dag_Events d" "dag_Nodes (set_finalized s d) = dag_Nodes d"
  "dag_MaxHeight (set_finalized s d) = dag_MaxHeight d" "dag_next (set_finalized s d) = dag_next d"
  "ev_Finalized (dag_store (set_finalized s d) r) \<longleftrightarrow> r = s \<or> ev_Finalized (dag_store d r)"
  by (simp_all add: set_finalized_def)

lemma IsFinalized_checkpoints [simp]:
  "Finalizer_IsFinalized i (Finalizer_updateCheckpoints r h f) = Finalizer_IsFinalized i f"
  by (simp add: Finalizer_IsFinalized_def Finalizer_updateCheckpoints_def)

text \<open>The finalizer needs of the voting that a vote does not depend on which events are marked as final.\<close>

locale voting_interface =
  fixes vote :: "DAG \<Rightarrow> nat \<Rightarrow> bool"
  assumes vote_frame: "vote (set_finalized s d) r = vote d r"
begin

lemma Finalize_effect:
  assumes "Finalizer_Finalize vote r (f, d) = ((b, err), f', d')"
  shows "b = (Finalizer_IsFinalized (ev_ID (dag_store d r)) f \<or> vote d r)" and "err = None \<longleftrightarrow> b"
    and "Finalizer_IsFinalized i f' \<longleftrightarrow> Finalizer_IsFinalized i f \<or> i = ev_ID (dag_store d r) \<and> vote d r"
    and "d' = (if \<not> Finalizer_IsFinalized (ev_ID (dag_store d r)) f \<and> vote d r then set_finalized r d else d)"
    and "vote d' s = vote d s" and "ev_ID (dag_store d' s) = ev_ID (dag_store d s)"
  using assms
  by (auto simp: Finalizer_Finalize_def Let_def vote_frame frame_simps split: if_splits)
     (auto simp: Finalizer_IsFinalized_def Finalizer_updateCheckpoints_def split: if_splits)

lemma finalize_all_effect:
  assumes "finalize_all vote rs (f, d) = (errs, f', d')" and "distinct (map (\<lambda>r. ev_ID (dag_store d r)) rs)"
  shows "Finalizer_IsFinalized i f' \<longleftrightarrow>
      Finalizer_IsFinalized i f \<or> (\<exists>r\<in>set rs. i = ev_ID (dag_store d r) \<and> vote d r)"
    and "errs = [] \<longleftrightarrow> (\<forall>r\<in>set rs. Finalizer_IsFinalized (ev_ID (dag_store d r)) f \<or> vote d r)"
    and "ev_Finalized (dag_store d' s) \<longleftrightarrow> ev_Finalized (dag_store d s) \<or>
      s \<in> set rs \<and> \<not> Finalizer_IsFinalized (ev_ID (dag_store d s)) f \<and> vote d s"
proof -
  have "(\<forall>i. Finalizer_IsFinalized i f' \<longleftrightarrow>
      Finalizer_IsFinalized i f \<or> (\<exists>r\<in>set rs. i = ev_ID (dag_store d r) \<and> vote d r)) \<and>
    (errs = [] \<longleftrightarrow> (\<forall>r\<in>set rs. Finalizer_IsFinalized (ev_ID (dag_store d r)) f \<or> vote d r)) \<and>
    (\<forall>s. ev_Finalized (dag_store d' s) \<longleftrightarrow> ev_Finalized (dag_store d s) \<or>
      s \<in> set rs \<and> \<not> Finalizer_IsFinalized (ev_ID (dag_store d s)) f \<and> vote d s)"
    using assms
  proof (induction rs arbitrary: f d errs)
    case (Cons r rs)
    obtain b err f1 d1 where F: "Finalizer_Finalize vote r (f, d) = ((b, err), f1, d1)" by (metis surj_pair)
    obtain errs1 where A: "finalize_all vote rs (f1, d1) = (errs1, f', d')"
      and errs: "errs = [] \<longleftrightarrow> err = None \<and> b \<and> errs1 = []"
      using Cons.prems(1) F by (auto split: prod.splits option.splits if_splits)
    note E = Finalize_effect [OF F]
    have dist: "distinct (map (\<lambda>r. ev_ID (dag_store d1 r)) rs)" "\<forall>s\<in>set rs. ev_ID (dag_store d s) \<noteq> ev_ID (dag_store d r)"
      using Cons.prems(2) by (simp add: E(6)) (use Cons.prems(2) in \<open>auto simp: image_iff\<close>)
    note IH = Cons.IH [OF A dist(1), unfolded E(3,5,6)]
    have fin: "ev_Finalized (dag_store d1 s) \<longleftrightarrow> ev_Finalized (dag_store d s) \<or>
        s = r \<and> \<not> Finalizer_IsFinalized (ev_ID (dag_store d r)) f \<and> vote d r" for s
      using E(4) by (auto simp: frame_simps)
    show ?case using IH dist(2) E(1,2) errs fin by auto
  qed simp
  then show "Finalizer_IsFinalized i f' \<longleftrightarrow>
      Finalizer_IsFinalized i f \<or> (\<exists>r\<in>set rs. i = ev_ID (dag_store d r) \<and> vote d r)"
    "errs = [] \<longleftrightarrow> (\<forall>r\<in>set rs. Finalizer_IsFinalized (ev_ID (dag_store d r)) f \<or> vote d r)"
    "ev_Finalized (dag_store d' s) \<longleftrightarrow> ev_Finalized (dag_store d s) \<or>
      s \<in> set rs \<and> \<not> Finalizer_IsFinalized (ev_ID (dag_store d s)) f \<and> vote d s" by blast+
qed

end

lemma seen_loop_frame: "seen_loop (set_finalized s d) v seen queue = seen_loop d v seen queue"
  by (induction d v seen queue rule: seen_loop.induct) (simp_all add: frame_simps)

lemma HasSeen_frame [frame_simps]: "VirtualVoting_HasSeen (set_finalized s d) v r = VirtualVoting_HasSeen d v r"
  by (simp add: VirtualVoting_HasSeen_def seen_loop_frame frame_simps split: option.splits)

lemma nodes_frame [frame_simps]:
  "DAG_GetNodeStake i (set_finalized s d) = DAG_GetNodeStake i d"
  "DAG_GetTotalStake order (set_finalized s d) = DAG_GetTotalStake order d"
  "DAG_GetActiveNodes order (set_finalized s d) = DAG_GetActiveNodes order d"
  "DAG_IsActiveValidator i (set_finalized s d) = DAG_IsActiveValidator i d"
  by (simp_all add: DAG_GetNodeStake_def DAG_GetTotalStake_def DAG_GetActiveNodes_def DAG_IsActiveValidator_def frame_simps)

lemma vote_loop_frame [frame_simps]: "vote_loop (set_finalized s d) r q a nodes = vote_loop d r q a nodes"
  by (induction d r q a nodes rule: vote_loop.induct) (simp_all add: frame_simps Let_def split: sum.splits)

lemma Vote_frame [frame_simps]:
  "VirtualVoting_Vote order1 order2 (Some (set_finalized s d)) (Some r) v = VirtualVoting_Vote order1 order2 (Some d) (Some r) v"
  by (simp add: VirtualVoting_Vote_def frame_simps Let_def split: sum.splits)

interpretation vv: voting_interface "\<lambda>d r. VirtualVoting_Vote order1 order2 (Some d) (Some r) v" for order1 order2 v
  by unfold_locales (rule Vote_frame)

text \<open>Whatever the order in which the goroutines of \<open>FinalizeEvents\<close> run, with the voting of this node and
  events with different IDs: exactly the events that pass the vote are added to the finalized ones, exactly
  those that were not final before get their flag, and the call reports no error if and only if every event was
  final before or passes the vote.\<close>

theorem finalize_events_any_order:
  assumes "Finalizer_FinalizeEvents (\<lambda>d r. VirtualVoting_Vote order1 order2 (Some d) (Some r) v) rs (f, d) = (errs, f', d')"
    and "distinct (map (\<lambda>r. ev_ID (dag_store d r)) events)" and "mset rs = mset events"
  shows "(Finalizer_IsFinalized i f' \<longleftrightarrow> Finalizer_IsFinalized i f \<or>
        (\<exists>r\<in>set events. i = ev_ID (dag_store d r) \<and> VirtualVoting_Vote order1 order2 (Some d) (Some r) v)) \<and>
    (ev_Finalized (dag_store d' s) \<longleftrightarrow> ev_Finalized (dag_store d s) \<or>
        s \<in> set events \<and> \<not> Finalizer_IsFinalized (ev_ID (dag_store d s)) f \<and> VirtualVoting_Vote order1 order2 (Some d) (Some s) v) \<and>
    (errs = None \<longleftrightarrow> (\<forall>r\<in>set events. Finalizer_IsFinalized (ev_ID (dag_store d r)) f \<or>
        VirtualVoting_Vote order1 order2 (Some d) (Some r) v))"
proof -
  let ?vote = "\<lambda>d r. VirtualVoting_Vote order1 order2 (Some d) (Some r) v"
  obtain es where A: "finalize_all ?vote rs (f, d) = (es, f', d')" and errs: "errs = None \<longleftrightarrow> es = []"
    using assms(1) by (auto simp: Finalizer_FinalizeEvents_def split: prod.splits if_splits)
  have "mset (map (\<lambda>r. ev_ID (dag_store d r)) rs) = mset (map (\<lambda>r. ev_ID (dag_store d r)) events)"
    using assms(3) by simp
  then have dist: "distinct (map (\<lambda>r. ev_ID (dag_store d r)) rs)" using assms(2) mset_eq_imp_distinct_iff by blast
  have set: "set rs = set events" using assms(3) by (rule mset_eq_setD)
  show ?thesis using vv.finalize_all_effect [OF A dist] unfolding errs set by blast
qed

theorem finalize_events_any_order_witness:
  "case Finalizer_FinalizeEvents (\<lambda>d r. VirtualVoting_Vote [1] [1] (Some d) (Some r) NewVirtualVoting) [0] (NewFinalizer, dag_example) of
     (errs, f', d') \<Rightarrow> errs = None \<and> Finalizer_IsFinalized (event_id 0 1 0 []) f'"
proof -
  obtain errs f' d' where F: "Finalizer_FinalizeEvents (\<lambda>d r. VirtualVoting_Vote [1] [1] (Some d) (Some r) NewVirtualVoting)
      [0] (NewFinalizer, dag_example) = (errs, f', d')" by (metis surj_pair)
  have "ev_ID (dag_store dag_example 0) = event_id 0 1 0 []"
    using dag_built_ok [OF dag_example_built] by (auto simp: dag_wf_def dag_example_events)
  then show ?thesis
    using finalize_events_any_order [OF F, of "[0]" "event_id 0 1 0 []" 0] dag_example_vote F by simp
qed

section \<open>Checkpoints\<close>

lemma latest_loop_max:
  assumes "set order \<subseteq> dom cps" and "case latest of None \<Rightarrow> m = 0 | Some r \<Rightarrow> 0 < m \<and> cps m = Some r"
  shows "case latest_loop cps order m latest of
      None \<Rightarrow> m = 0 \<and> set order \<subseteq> {0}
    | Some r \<Rightarrow> \<exists>h. cps h = Some r \<and> 0 < h \<and> m \<le> h \<and> (\<forall>k\<in>set order. k \<le> h)"
  using assms
proof (induction cps order m latest rule: latest_loop.induct)
  case (1 cps m latest)
  then show ?case by (auto split: option.splits)
next
  case (2 cps h order m latest)
  show ?case
  proof (cases "h > m")
    case True
    have h0: "0 < h" using True by (rule order.strict_trans1 [OF word_zero_le])
    obtain r where r: "cps h = Some r" using 2(3) by auto
    have "case latest_loop cps order h (cps h) of
        None \<Rightarrow> h = 0 \<and> set order \<subseteq> {0}
      | Some r \<Rightarrow> \<exists>h'. cps h' = Some r \<and> 0 < h' \<and> h \<le> h' \<and> (\<forall>k\<in>set order. k \<le> h')"
      using 2(3) r h0 by (intro 2(1) [OF True]) auto
    then show ?thesis using True h0 by (auto split: option.splits intro: order.trans [OF less_imp_le])
  next
    case False
    then have le: "h \<le> m" by simp
    have "case latest_loop cps order m latest of
        None \<Rightarrow> m = 0 \<and> set order \<subseteq> {0}
      | Some r \<Rightarrow> \<exists>h'. cps h' = Some r \<and> 0 < h' \<and> m \<le> h' \<and> (\<forall>k\<in>set order. k \<le> h')"
      using 2(3,4) by (intro 2(2) [OF False]) auto
    then show ?thesis using False le by (auto split: option.splits intro: order.trans)
  qed
qed

text \<open>\<open>GetLatestCheckpoint\<close> returns the checkpoint with the greatest height, in whatever order the map is
  visited; a checkpoint at height zero is never returned.\<close>

theorem latest_checkpoint:
  assumes "range_order (fz_checkpoints f) order"
  shows "case Finalizer_GetLatestCheckpoint order f of
      None \<Rightarrow> dom (fz_checkpoints f) \<subseteq> {0}
    | Some r \<Rightarrow> \<exists>h. fz_checkpoints f h = Some r \<and> 0 < h \<and> (\<forall>k\<in>dom (fz_checkpoints f). k \<le> h)"
proof -
  have "set order = dom (fz_checkpoints f)" using assms by (simp add: range_order_def)
  then show ?thesis
    using latest_loop_max [where order = order and cps = "fz_checkpoints f" and latest = None and m = 0]
    by (auto simp: Finalizer_GetLatestCheckpoint_def split: option.splits)
qed

theorem latest_checkpoint_witness:
  "case Finalizer_GetLatestCheckpoint [2000, 1000] \<lparr>fz_finalized = Map.empty, fz_checkpoints = [1000 \<mapsto> 4, 2000 \<mapsto> 7]\<rparr> of
     None \<Rightarrow> False | Some r \<Rightarrow> r = 7"
proof -
  let ?f = "\<lparr>fz_finalized = Map.empty, fz_checkpoints = [1000 \<mapsto> 4, 2000 \<mapsto> 7 :: nat]\<rparr>"
  have "range_order (fz_checkpoints ?f) [2000, 1000]" by (auto simp: range_order_def)
  from latest_checkpoint [OF this] show ?thesis by (auto split: option.splits if_splits)
qed

lemma restore_finalized_saved:
  "distinct order \<Longrightarrow> restore_finalized (map (\<lambda>i. (byteArrayToString i, g i)) order) m =
     Some (\<lambda>i. if i \<in> set order then Some (g i) else m i)"
  by (induction order arbitrary: m) (auto simp: stringToByteArray_inverse fun_eq_iff)

lemma restore_checkpoints_saved:
  assumes "distinct order" and "\<And>h r. m h = Some r \<Longrightarrow> r < dag_next d"
    and "restore_checkpoints (map (\<lambda>h. (h, e h)) order) m d = (m', d')"
  shows "map_option (dag_store d') (m' h) = (if h \<in> set order then Some (e h) else map_option (dag_store d) (m h))"
    and "r < dag_next d \<Longrightarrow> dag_store d' r = dag_store d r"
proof -
  have "(\<forall>h. map_option (dag_store d') (m' h) = (if h \<in> set order then Some (e h) else map_option (dag_store d) (m h))) \<and>
      (\<forall>r<dag_next d. dag_store d' r = dag_store d r)"
    using assms
  proof (induction order arbitrary: m d)
    case (Cons h order)
    let ?m = "m(h \<mapsto> dag_next d)" and ?d = "d\<lparr>dag_store := (dag_store d)(dag_next d := e h), dag_next := Suc (dag_next d)\<rparr>"
    have "restore_checkpoints (map (\<lambda>h. (h, e h)) order) ?m ?d = (m', d')" using Cons.prems(3) by (simp add: Let_def)
    moreover have "r < dag_next ?d" if "?m k = Some r" for k r
      using that Cons.prems(2) [of k r] by (auto split: if_splits)
    ultimately have IH: "\<forall>k. map_option (dag_store d') (m' k) = (if k \<in> set order then Some (e k) else map_option (dag_store ?d) (?m k))"
        "\<forall>r<dag_next ?d. dag_store d' r = dag_store ?d r"
      using Cons.IH [of ?m ?d] Cons.prems(1) by (simp_all only: distinct.simps) blast+
    have at: "map_option (dag_store ?d) (?m k) = (if k = h then Some (e h) else map_option (dag_store d) (m k))" for k
      using Cons.prems(2) [of k] by (cases "m k") auto
    have "dag_store d' r = dag_store d r" if "r < dag_next d" for r using IH(2) that by simp
    then show ?case using IH(1) unfolding at by auto
  qed simp
  then show "map_option (dag_store d') (m' h) = (if h \<in> set order then Some (e h) else map_option (dag_store d) (m h))"
    "r < dag_next d \<Longrightarrow> dag_store d' r = dag_store d r" by blast+
qed

text \<open>Saving and restoring the finalizer gives back the same finalized IDs and, at the same heights, the same
  checkpoint events, as new objects.\<close>

theorem finalizer_state_roundtrip:
  assumes o: "range_order (fz_finalized f) order1" "range_order (fz_checkpoints f) order2"
  shows "case Finalizer_RestoreState (Some (Finalizer_GetState order1 order2 (f, d))) (f0, d0) of
    (err, f', d') \<Rightarrow> err = None \<and> fz_finalized f' = fz_finalized f \<and>
      map_option (dag_store d') (fz_checkpoints f' h) = map_option (dag_store d) (fz_checkpoints f h)"
proof -
  let ?e = "\<lambda>h. dag_store d (the (fz_checkpoints f h))"
  have dist: "distinct order1" "distinct order2" "set order1 = dom (fz_finalized f)" "set order2 = dom (fz_checkpoints f)"
    using o by (auto simp: range_order_def)
  obtain m' d' where R: "restore_checkpoints (map (\<lambda>h. (h, ?e h)) order2) Map.empty d0 = (m', d')" by fastforce
  have "restore_finalized (map (\<lambda>i. (byteArrayToString i, the (fz_finalized f i))) order1) Map.empty = Some (fz_finalized f)"
    unfolding restore_finalized_saved [OF dist(1)] using dist(3) by (auto simp: fun_eq_iff)
  moreover have "map_option (dag_store d') (m' h) = map_option (dag_store d) (fz_checkpoints f h)"
    using restore_checkpoints_saved(1) [OF dist(2) _ R, of h] dist(4) by (cases "fz_checkpoints f h") auto
  ultimately show ?thesis using R by (simp add: Finalizer_RestoreState_def Finalizer_GetState_def)
qed

theorem finalizer_state_roundtrip_witness:
  "case Finalizer_RestoreState (Some (Finalizer_GetState [5] [] (NewFinalizer\<lparr>fz_finalized := [5 \<mapsto> True]\<rparr>, NewDAG))) (NewFinalizer, NewDAG) of
    (err, f', d') \<Rightarrow> err = None \<and> Finalizer_IsFinalized 5 f'"
proof -
  let ?f = "NewFinalizer\<lparr>fz_finalized := [5 \<mapsto> True]\<rparr>"
  have "range_order (fz_finalized ?f) [5]" "range_order (fz_checkpoints ?f) []"
    by (simp_all add: range_order_def NewFinalizer_def)
  from finalizer_state_roundtrip [OF this, where d = NewDAG and ?f0.0 = NewFinalizer and ?d0.0 = NewDAG] show ?thesis
    by (auto simp: Finalizer_IsFinalized_def split: prod.splits)
qed

section \<open>Gossip\<close>

definition load_ok :: "float64 \<Rightarrow> bool" where
  "load_ok x \<longleftrightarrow> x = NaN \<or> f64_le f64_0 x \<and> f64_le x f64_1"

definition gossip_ok :: "GossipProtocol \<Rightarrow> bool" where
  "gossip_ok g \<longleftrightarrow> (\<forall>p ch. g_peers g p = Some ch \<longrightarrow> length ch \<le> 1000) \<and> g_stopChannels g \<subseteq> dom (g_peers g) \<and> load_ok (g_networkLoad g)"

inductive gossip_reachable :: "GossipProtocol \<times> DAG \<Rightarrow> bool" where
  init: "gossip_reachable (NewGossipProtocol delay, d)"
| add: "gossip_reachable (g, d) \<Longrightarrow> gossip_reachable (GossipProtocol_AddPeer i g, d)"
| remove: "gossip_reachable (g, d) \<Longrightarrow> gossip_reachable (GossipProtocol_RemovePeer i g, d)"
| broadcast: "gossip_reachable (g, d) \<Longrightarrow> gossip_reachable (GossipProtocol_BroadcastEvent r i g, d)"
| load: "gossip_reachable (g, d) \<Longrightarrow> gossip_reachable (GossipProtocol_UpdateNetworkLoad conv l g, d)"
| delay: "gossip_reachable (g, d) \<Longrightarrow> gossip_reachable (GossipProtocol_SetBaseDelay conv t g, d)"
| round: "gossip_reachable st \<Longrightarrow> gossip_reachable (snd (GossipProtocol_StartGossiping conv now b i st))"
| sync: "gossip_reachable (g, d) \<Longrightarrow> gossip_reachable (GossipProtocol_ForceSyncAll order (g, d), d)"
| stop: "gossip_reachable (g, d) \<Longrightarrow> gossip_reachable (GossipProtocol_Stop g, d)"
| dag: "gossip_reachable (g, d) \<Longrightarrow> gossip_reachable (g, d')"

lemma clamp_load: "load_ok (f64_Max f64_0 (f64_Min f64_1 x))"
  by (cases x) (auto simp: load_ok_def f64_Max_def f64_Min_def f64_le_def)

lemma broadcast_ok: "gossip_ok g \<Longrightarrow> gossip_ok (GossipProtocol_BroadcastEvent r i g)"
  unfolding gossip_ok_def GossipProtocol_BroadcastEvent_def
  by (auto simp: channel_capacity_def dom_def split: option.splits if_splits)

lemma load_update_ok: "gossip_ok g \<Longrightarrow> gossip_ok (GossipProtocol_UpdateNetworkLoad conv l g)"
  by (auto simp: gossip_ok_def GossipProtocol_UpdateNetworkLoad_def GossipProtocol_adjustGossipRate_def
      GossipProtocol_adjustGossipRateLocked_def clamp_load)

lemma processReceived_ok:
  "gossip_ok g \<Longrightarrow> gossip_ok (fst (GossipProtocol_processReceivedEvent conv now i ev (g, d)))"
  by (auto simp: GossipProtocol_processReceivedEvent_def Let_def broadcast_ok load_update_ok
      split: option.splits sum.splits prod.splits)

lemma round_ok: "gossip_ok (fst st) \<Longrightarrow> gossip_ok (fst (snd (GossipProtocol_StartGossiping conv now b i st)))"
proof -
  assume "gossip_ok (fst st)"
  moreover obtain g d where st: "st = (g, d)" by fastforce
  ultimately have g: "gossip_ok g" by simp
  have "gossip_ok (g\<lparr>g_peers := (g_peers g)(i \<mapsto> rest)\<rparr>)" if "g_peers g i = Some (r # rest)" for r rest
    using g that unfolding gossip_ok_def by (auto simp: Suc_le_eq dest!: spec [of _ i])
  then show ?thesis
    using g processReceived_ok
    by (auto simp: st GossipProtocol_StartGossiping_def split: option.splits list.splits if_splits)
qed

lemma sync_ok: "gossip_ok g \<Longrightarrow> gossip_ok (GossipProtocol_ForceSyncAll order (g, d))"
proof -
  have "gossip_ok g \<Longrightarrow> gossip_ok (fold (\<lambda>i. GossipProtocol_BroadcastEvent (the (DAG_GetEvents d i)) 0) order g)" for g
    by (induction order arbitrary: g) (simp_all add: broadcast_ok)
  then show "gossip_ok g \<Longrightarrow> gossip_ok (GossipProtocol_ForceSyncAll order (g, d))"
    by (simp add: GossipProtocol_ForceSyncAll_def)
qed

text \<open>However events, peers, loads and delays come in, no channel of the gossip protocol ever holds more than a
  thousand events, every stop channel belongs to a peer, and the network load stays between 0 and 1 (or is not a
  number, if it was set to that).\<close>

theorem gossip_bounded:
  assumes "gossip_reachable (g, d)"
  shows "(\<forall>p ch. g_peers g p = Some ch \<longrightarrow> length ch \<le> 1000) \<and> g_stopChannels g \<subseteq> dom (g_peers g) \<and> load_ok (g_networkLoad g)"
proof -
  have "gossip_ok (fst st)" if "gossip_reachable st" for st
    using that
  proof (induction rule: gossip_reachable.induct)
    case (round st conv now b i)
    then show ?case by (rule_tac round_ok)
  next
    case (add g d i)
    then show ?case by (auto simp: gossip_ok_def GossipProtocol_AddPeer_def)
  qed (auto simp: broadcast_ok load_update_ok sync_ok, auto simp: gossip_ok_def load_ok_def NewGossipProtocol_def
        GossipProtocol_RemovePeer_def GossipProtocol_SetBaseDelay_def GossipProtocol_adjustGossipRateLocked_def GossipProtocol_Stop_def)
  from this [OF assms] show ?thesis by (simp add: gossip_ok_def)
qed

theorem gossip_bounded_witness:
  "length (the (g_peers (GossipProtocol_BroadcastEvent 0 1 (GossipProtocol_AddPeer 3 (NewGossipProtocol 5))) 3)) \<le> 1000"
proof -
  have "gossip_reachable (GossipProtocol_BroadcastEvent 0 1 (GossipProtocol_AddPeer 3 (NewGossipProtocol 5)), NewDAG)"
    by (intro gossip_reachable.intros)
  from gossip_bounded [OF this] show ?thesis
    by (auto simp: GossipProtocol_BroadcastEvent_def GossipProtocol_AddPeer_def NewGossipProtocol_def split: if_splits)
qed

text \<open>An unknown event that is received is put into the graph under a new ID and with the peer it came from as
  its creator; the ID of the event itself stays unknown, so when the event comes again the check for known
  events does not stop it and it is put into the graph again.\<close>

theorem gossip_duplicates:
  assumes wf: "dag_wf d" and act: "DAG_IsActiveValidator i d"
    and new: "ev_ID (dag_store d r) \<notin> dom (dag_Events d)"
    and hash: "event_id now i (card (dom (dag_Events d))) (ev_Data (dag_store d r)) \<notin> insert (ev_ID (dag_store d r)) (dom (dag_Events d))"
  shows "case GossipProtocol_processReceivedEvent conv now i (Some r) (g, d) of
    (g', d') \<Rightarrow> ev_ID (dag_store d r) \<notin> dom (dag_Events d') \<and> card (dom (dag_Events d')) = card (dom (dag_Events d)) + 1 \<and>
      (\<exists>j e. dag_event d' j = Some e \<and> j \<notin> dom (dag_Events d) \<and> ev_Creator e = i \<and>
         ev_ParentIDs e = ev_ParentIDs (dag_store d r) \<and> ev_Data e = ev_Data (dag_store d r))"
proof -
  let ?e = "dag_store d r" and ?n = "card (dom (dag_Events d))"
  obtain nd where nd: "dag_Nodes d i = Some nd" "nd_Active nd" using act by (auto simp: DAG_IsActiveValidator_def split: option.splits)
  obtain d' where n: "DAG_NewEvent now i (ev_ParentIDs ?e) (ev_Data ?e) d = (Inr (dag_next d), d')"
    using nd by (simp add: DAG_NewEvent_def Let_def)
  then have p: "snd (GossipProtocol_processReceivedEvent conv now i (Some r) (g, d)) = d'"
    using act new by (auto simp: GossipProtocol_processReceivedEvent_def DAG_GetEvent_def Let_def dom_def split: option.splits)
  from n wf obtain e where e: "dag_event d' = (dag_event d)(ev_ID e \<mapsto> e)" "ev_ID e = event_id now i ?n (ev_Data ?e)"
      "ev_Creator e = i" "ev_ParentIDs e = ev_ParentIDs ?e" "ev_Data e = ev_Data ?e" "dag_Events d' = (dag_Events d)(ev_ID e \<mapsto> dag_next d)"
    by (rule NewEvent_effect)
  have "finite (dom (dag_Events d))" using wf by (simp add: dag_wf_def)
  moreover have fresh: "ev_ID e \<notin> dom (dag_Events d)" "ev_ID e \<noteq> ev_ID ?e" using hash unfolding e(2) by auto
  ultimately have "card (dom (dag_Events d')) = ?n + 1" unfolding e(6) by simp
  moreover have "ev_ID ?e \<notin> dom (dag_Events d')" using new fresh unfolding e(6) by simp
  moreover have "dag_event d' (ev_ID e) = Some e" using e(1) by simp
  ultimately show ?thesis using p fresh(1) e(3-5) by (simp add: case_prod_beta) blast
qed

definition stray_event :: Event where
  "stray_event = zero_Event\<lparr>ev_ID := event_id 0 1 0 [] + 1, ev_Creator := 9\<rparr>"

definition dag_stray :: DAG where
  "dag_stray = (DAG_AddNode 1 10 NewDAG)\<lparr>dag_store := (\<lambda>_. stray_event), dag_next := 1\<rparr>"

theorem gossip_duplicates_witness:
  "case GossipProtocol_processReceivedEvent (\<lambda>_. 0) 0 1 (Some 0) (NewGossipProtocol 5, dag_stray) of
    (g', d') \<Rightarrow> event_id 0 1 0 [] + 1 \<notin> dom (dag_Events d') \<and> card (dom (dag_Events d')) = 1"
proof -
  have d: "dag_wf dag_stray" "DAG_IsActiveValidator 1 dag_stray" "dag_Events dag_stray = Map.empty" "dag_store dag_stray 0 = stray_event"
    by (auto simp: dag_stray_def DAG_AddNode_def NewDAG_def dag_wf_def DAG_IsActiveValidator_def split: if_splits)
  from gossip_duplicates [OF d(1,2), of 0 0 "\<lambda>_. 0" "NewGossipProtocol 5"] d(3,4) show ?thesis
    by (auto simp: stray_event_def zero_Event_def split: prod.splits)
qed

end
