(* ===== verification/LachesisTheory.thy ===== *)
theory LachesisTheory
  imports Finalization "HOL-Library.Sublist"
begin

text \<open>
  The DAG consensus: \<open>consensus/diamantefinality/lachesis.go\<close>. \<open>Lachesis\<close> owns the event graph, the gossip
  protocol, the voting and the finalizer (\<open>DagTheory\<close>, \<open>VotingTheory\<close>, \<open>Finalization\<close>), a buffer of pending
  events and the lists of finalized events by height.

  \<open>CreateEvent\<close> starts a goroutine that calls \<open>ProcessEvent\<close>; the two are separate steps here. The ticker loop
  \<open>runConsensus\<close> is modelled by one round, \<open>processEvents\<close>. Ranges over maps take their orders as arguments.
\<close>

section \<open>Data and settings\<close>

record Lachesis =
  l_DAG :: DAG
  l_GossipProtocol :: GossipProtocol
  l_VirtualVoting :: VirtualVoting
  l_Finalizer :: Finalizer
  l_gossipDelay :: duration
  l_votingThreshold :: float64
  l_networkLoad :: float64
  l_pendingEvents :: "nat list"
  l_finalizedEvents :: "uint64 \<rightharpoonup> nat list"
  l_running :: bool
  l_activeProposals :: "hash32 \<rightharpoonup> string"

datatype lachesis_error =
    LachErrNew string
  | LachErrDAG dag_error
  | LachErrGossip final_error
  | LachErrVoting voting_error

definition NewLachesis :: "duration \<Rightarrow> Lachesis" where
  "NewLachesis gossipDelay =
     \<lparr>l_DAG = NewDAG, l_GossipProtocol = NewGossipProtocol gossipDelay, l_VirtualVoting = NewVirtualVoting,
      l_Finalizer = NewFinalizer, l_gossipDelay = gossipDelay, l_votingThreshold = rnd (66 / 100), l_networkLoad = f64_0,
      l_pendingEvents = [], l_finalizedEvents = Map.empty, l_running = False, l_activeProposals = Map.empty\<rparr>"

definition Lachesis_GetGossipDelay :: "Lachesis \<Rightarrow> duration" where
  "Lachesis_GetGossipDelay l = l_gossipDelay l"

definition Lachesis_SetGossipDelay :: "(float64 \<Rightarrow> int) \<Rightarrow> duration \<Rightarrow> Lachesis \<Rightarrow> Lachesis" where
  "Lachesis_SetGossipDelay conv delay l =
     l\<lparr>l_gossipDelay := delay, l_GossipProtocol := GossipProtocol_SetBaseDelay conv delay (l_GossipProtocol l)\<rparr>"

definition Lachesis_AdjustNetworkLoad :: "(float64 \<Rightarrow> int) \<Rightarrow> float64 \<Rightarrow> Lachesis \<Rightarrow> Lachesis" where
  "Lachesis_AdjustNetworkLoad conv adjustment l =
     (let load = f64_Max f64_0 (f64_Min f64_1 (f64_add (l_networkLoad l) adjustment))
      in l\<lparr>l_networkLoad := load, l_GossipProtocol := GossipProtocol_UpdateNetworkLoad conv load (l_GossipProtocol l)\<rparr>)"

definition Lachesis_GetNetworkLoad :: "Lachesis \<Rightarrow> float64" where
  "Lachesis_GetNetworkLoad l = l_networkLoad l"

definition Lachesis_GetVotingThreshold :: "Lachesis \<Rightarrow> float64" where
  "Lachesis_GetVotingThreshold l = l_votingThreshold l"

definition Lachesis_SetVotingThreshold :: "float64 \<Rightarrow> Lachesis \<Rightarrow> Lachesis" where
  "Lachesis_SetVotingThreshold threshold l =
     l\<lparr>l_votingThreshold := threshold, l_VirtualVoting := VirtualVoting_SetThreshold threshold (l_VirtualVoting l)\<rparr>"

section \<open>Nodes and events\<close>

definition Lachesis_AddNode :: "hash32 \<Rightarrow> uint64 \<Rightarrow> Lachesis \<Rightarrow> Lachesis" where
  "Lachesis_AddNode nodeID stake l =
     l\<lparr>l_DAG := DAG_AddNode nodeID stake (l_DAG l), l_GossipProtocol := GossipProtocol_AddPeer nodeID (l_GossipProtocol l)\<rparr>"

definition Lachesis_UpdateNodeStake :: "hash32 \<Rightarrow> uint64 \<Rightarrow> Lachesis \<Rightarrow> Lachesis" where
  "Lachesis_UpdateNodeStake nodeID newStake l =
     l\<lparr>l_DAG := snd (DAG_UpdateNodeStake nodeID newStake (l_DAG l)),
       l_VirtualVoting := VirtualVoting_RecalculateWeights (l_VirtualVoting l)\<rparr>"

definition Lachesis_GetDAGState :: "Lachesis \<Rightarrow> hash32 \<rightharpoonup> nat" where
  "Lachesis_GetDAGState l = DAG_GetEvents (l_DAG l)"

definition Lachesis_GetActiveNodes :: "hash32 list \<Rightarrow> Lachesis \<Rightarrow> hash32 list" where
  "Lachesis_GetActiveNodes order l = DAG_GetActiveNodes order (l_DAG l)"

definition Lachesis_CreateEvent ::
    "int \<Rightarrow> hash32 \<Rightarrow> hash32 list \<Rightarrow> bytes \<Rightarrow> Lachesis \<Rightarrow> nat option \<times> Lachesis" where
  "Lachesis_CreateEvent now creator parentIDs data l =
     (case DAG_NewEvent now creator parentIDs data (l_DAG l) of
        (Inl _, d) \<Rightarrow> (None, l\<lparr>l_DAG := d\<rparr>)
      | (Inr r, d) \<Rightarrow> (Some r, l\<lparr>l_DAG := d, l_pendingEvents := l_pendingEvents l @ [r]\<rparr>))"

definition Lachesis_addFinalizedEvent :: "nat \<Rightarrow> Lachesis \<Rightarrow> Lachesis" where
  "Lachesis_addFinalizedEvent r l =
     (let h = ev_Height (dag_store (l_DAG l) r);
          evs = (case l_finalizedEvents l h of None \<Rightarrow> [] | Some evs \<Rightarrow> evs)
      in l\<lparr>l_finalizedEvents := (l_finalizedEvents l)(h \<mapsto> evs @ [r])\<rparr>)"

definition Lachesis_ProcessEvent :: "hash32 list \<Rightarrow> hash32 list \<Rightarrow> nat \<Rightarrow> Lachesis \<Rightarrow> bool \<times> Lachesis" where
  "Lachesis_ProcessEvent order1 order2 r l =
     (if \<not> DAG_IsActiveValidator (ev_Creator (dag_store (l_DAG l) r)) (l_DAG l) then (False, l)
      else if \<not> VirtualVoting_Vote order1 order2 (Some (l_DAG l)) (Some r) (l_VirtualVoting l) then (False, l)
      else
        (case Finalizer_Finalize (\<lambda>d s. VirtualVoting_Vote order1 order2 (Some d) (Some s) (l_VirtualVoting l)) r
                (l_Finalizer l, l_DAG l) of
           ((finalized, err), f, d) \<Rightarrow>
             let l1 = l\<lparr>l_Finalizer := f, l_DAG := d\<rparr> in
             if err \<noteq> None \<or> \<not> finalized then (False, l1)
             else (True, Lachesis_addFinalizedEvent r l1)))"

section \<open>Proposals\<close>

definition proposal_transitions :: "(string \<times> string list) list" where
  "proposal_transitions =
     [(''pending'', [''active'']), (''active'', [''passed'', ''rejected'']), (''passed'', [''executed'']),
      (''rejected'', []), (''executed'', [])]"

definition isValidStateTransition :: "string \<Rightarrow> string \<Rightarrow> bool" where
  "isValidStateTransition current new =
     (case map_of proposal_transitions current of None \<Rightarrow> False | Some allowed \<Rightarrow> new \<in> set allowed)"

definition Lachesis_UpdateProposalState ::
    "hash32 \<Rightarrow> string \<Rightarrow> string \<Rightarrow> Lachesis \<Rightarrow> lachesis_error option \<times> Lachesis" where
  "Lachesis_UpdateProposalState proposalID currentState newState l =
     (if \<not> isValidStateTransition currentState newState then (Some (LachErrNew ''invalid state transition''), l)
      else (None, l\<lparr>l_activeProposals := (l_activeProposals l)(proposalID \<mapsto> newState)\<rparr>))"

section \<open>Finalized and pending events\<close>

text \<open>The loop of \<open>GetFinalizedEvents\<close> counts a 64-bit height up to \<open>toHeight\<close> inclusive. If that is the greatest
  height there is, the counter wraps round and the loop does not end: its value is then \<open>None\<close>.\<close>

partial_function (option) finalized_loop ::
    "(uint64 \<rightharpoonup> nat list) \<Rightarrow> uint64 \<Rightarrow> uint64 \<Rightarrow> nat list \<Rightarrow> nat list option" where
  "finalized_loop m toHeight h result =
     (if h \<le> toHeight
      then finalized_loop m toHeight (h + 1) (result @ (case m h of None \<Rightarrow> [] | Some evs \<Rightarrow> evs))
      else Some result)"

declare finalized_loop.simps [code]

definition Lachesis_GetFinalizedEvents :: "uint64 \<Rightarrow> uint64 \<Rightarrow> Lachesis \<Rightarrow> nat list option" where
  "Lachesis_GetFinalizedEvents fromHeight toHeight l = finalized_loop (l_finalizedEvents l) toHeight fromHeight []"

fun finality_loop :: "DAG \<Rightarrow> nat \<Rightarrow> float64 \<Rightarrow> float64 \<Rightarrow> float64 \<Rightarrow> hash32 list \<Rightarrow> bool" where
  "finality_loop d r requiredWeight totalWeight remainingStake [] = False"
| "finality_loop d r requiredWeight totalWeight remainingStake (nid # nodes) =
     (case dag_Nodes d nid of
        None \<Rightarrow> finality_loop d r requiredWeight totalWeight remainingStake nodes
      | Some node \<Rightarrow>
          if \<not> nd_Active node then finality_loop d r requiredWeight totalWeight remainingStake nodes
          else
            let stk = f64_of_int (uint (nd_Stake node)); remaining = f64_sub remainingStake stk;
                seen = VirtualVoting_HasSeen d nid (Some r);
                tot = (if seen then f64_add totalWeight stk else totalWeight)
            in if seen \<and> f64_le requiredWeight tot then True
               else if f64_lt (f64_add tot remaining) requiredWeight then False
               else finality_loop d r requiredWeight tot remaining nodes)"

definition Lachesis_detectFinality :: "hash32 list \<Rightarrow> hash32 list \<Rightarrow> nat \<Rightarrow> Lachesis \<Rightarrow> bool" where
  "Lachesis_detectFinality order1 order2 r l =
     (let d = l_DAG l; activeNodes = DAG_GetActiveNodes order1 d; totalStake = DAG_GetTotalStake order2 d;
          requiredWeight = f64_mul (f64_of_int (uint totalStake)) (l_votingThreshold l)
      in finality_loop d r requiredWeight f64_0 (f64_of_int (uint totalStake)) activeNodes)"

definition Lachesis_AddPendingEvent :: "nat \<Rightarrow> Lachesis \<Rightarrow> Lachesis" where
  "Lachesis_AddPendingEvent r l = l\<lparr>l_pendingEvents := l_pendingEvents l @ [r]\<rparr>"

definition Lachesis_GetPendingEvents :: "Lachesis \<Rightarrow> nat list" where
  "Lachesis_GetPendingEvents l = l_pendingEvents l"

definition Lachesis_ClearPendingEvents :: "Lachesis \<Rightarrow> Lachesis" where
  "Lachesis_ClearPendingEvents l = l\<lparr>l_pendingEvents := []\<rparr>"

section \<open>Life cycle\<close>

definition Lachesis_Start :: "Lachesis \<Rightarrow> lachesis_error option \<times> Lachesis" where
  "Lachesis_Start l =
     (if l_running l then (Some (LachErrNew ''Lachesis is already running''), l)
      else (None, l\<lparr>l_running := True, l_activeProposals := Map.empty\<rparr>))"

definition Lachesis_Stop :: "Lachesis \<Rightarrow> lachesis_error option \<times> Lachesis" where
  "Lachesis_Stop l =
     (if \<not> l_running l then (Some (LachErrNew ''Lachesis is not running''), l)
      else (None, l\<lparr>l_running := False, l_GossipProtocol := GossipProtocol_Stop (l_GossipProtocol l)\<rparr>))"

fun process_loop :: "(nat \<Rightarrow> hash32 list) \<Rightarrow> (nat \<Rightarrow> hash32 list) \<Rightarrow> nat list \<Rightarrow> Lachesis \<Rightarrow> Lachesis" where
  "process_loop ord1 ord2 [] l = l"
| "process_loop ord1 ord2 (r # rs) l =
     process_loop ord1 ord2 rs
       (if Lachesis_detectFinality (ord1 r) (ord2 r) r l
        then let l1 = Lachesis_addFinalizedEvent r l in l1\<lparr>l_DAG := set_finalized r (l_DAG l1)\<rparr>
        else l)"

definition Lachesis_processEvents ::
    "(nat \<Rightarrow> hash32 list) \<Rightarrow> (nat \<Rightarrow> hash32 list) \<Rightarrow> hash32 list \<Rightarrow> Lachesis \<Rightarrow> Lachesis" where
  "Lachesis_processEvents ord1 ord2 order l = process_loop ord1 ord2 (DAG_GetUnfinalizedEvents order (l_DAG l)) l"

definition Lachesis_ForceSync :: "hash32 list \<Rightarrow> Lachesis \<Rightarrow> Lachesis" where
  "Lachesis_ForceSync order l = l\<lparr>l_GossipProtocol := GossipProtocol_ForceSyncAll order (l_GossipProtocol l, l_DAG l)\<rparr>"

section \<open>Saving and restoring\<close>

record LachesisJSON =
  lj_DAGState :: "DAGJSON option"
  lj_GossipState :: "GossipJSON option"
  lj_VotingState :: "float64 option"
  lj_FinalizerState :: "FinalizerJSON option"
  lj_FinalizedEvents :: "(uint64 \<times> string list) list"

text \<open>The orders of the ranges over the six maps.\<close>

record SaveOrders =
  so_heights :: "uint64 list"
  so_nodes :: "hash32 list"
  so_events :: "hash32 list"
  so_peers :: "hash32 list"
  so_finalized :: "hash32 list"
  so_checkpoints :: "uint64 list"

definition Lachesis_GetState :: "SaveOrders \<Rightarrow> Lachesis \<Rightarrow> lachesis_error + LachesisJSON" where
  "Lachesis_GetState so l =
     (let d = l_DAG l;
          finalizedCopy = map (\<lambda>h. (h, map (\<lambda>r. byteArrayToString (ev_ID (dag_store d r))) (the (l_finalizedEvents l h)))) (so_heights so)
      in case GossipProtocol_GetState (so_peers so) (l_GossipProtocol l) of
           Inl e \<Rightarrow> Inl (LachErrGossip e)
         | Inr gs \<Rightarrow>
             (case VirtualVoting_GetState (l_VirtualVoting l) of
                Inl e \<Rightarrow> Inl (LachErrVoting e)
              | Inr vs \<Rightarrow>
                  Inr \<lparr>lj_DAGState = Some (DAG_GetState (so_nodes so) (so_events so) d), lj_GossipState = Some gs,
                       lj_VotingState = Some vs,
                       lj_FinalizerState = Some (Finalizer_GetState (so_finalized so) (so_checkpoints so) (l_Finalizer l, d)),
                       lj_FinalizedEvents = finalizedCopy\<rparr>))"

fun restore_height :: "DAG \<Rightarrow> string list \<Rightarrow> nat list \<Rightarrow> lachesis_error option \<times> nat list" where
  "restore_height d [] evs = (None, evs)"
| "restore_height d (s # ss) evs =
     (case stringToByteArray s of
        None \<Rightarrow> (Some (LachErrNew ''invalid event ID''), evs)
      | Some i \<Rightarrow>
          (case DAG_GetEvent i d of
             Inl _ \<Rightarrow> (Some (LachErrNew ''DAG missing event ID''), evs)
           | Inr r \<Rightarrow> restore_height d ss (evs @ [r])))"

text \<open>The entry of a height appears in the map with its first event.\<close>

fun restore_heights ::
    "DAG \<Rightarrow> (uint64 \<times> string list) list \<Rightarrow> (uint64 \<rightharpoonup> nat list) \<Rightarrow> lachesis_error option \<times> (uint64 \<rightharpoonup> nat list)" where
  "restore_heights d [] m = (None, m)"
| "restore_heights d ((h, ids) # rest) m =
     (case restore_height d ids [] of
        (Some e, evs) \<Rightarrow> (Some e, if evs = [] then m else m(h \<mapsto> evs))
      | (None, evs) \<Rightarrow> restore_heights d rest (if evs = [] then m else m(h \<mapsto> evs)))"

definition Lachesis_RestoreState :: "LachesisJSON option \<Rightarrow> Lachesis \<Rightarrow> lachesis_error option \<times> Lachesis" where
  "Lachesis_RestoreState stateData l =
     (case stateData of
        None \<Rightarrow> (Some (LachErrNew ''unmarshal error''), l)
      | Some s \<Rightarrow>
          (case DAG_RestoreState (lj_DAGState s) (l_DAG l) of
             (Some e, d) \<Rightarrow> (Some (LachErrDAG e), l\<lparr>l_DAG := d\<rparr>)
           | (None, d) \<Rightarrow>
               (case GossipProtocol_RestoreState (lj_GossipState s) (l_GossipProtocol l) of
                  (Some e, g) \<Rightarrow> (Some (LachErrGossip e), l\<lparr>l_DAG := d, l_GossipProtocol := g\<rparr>)
                | (None, g) \<Rightarrow>
                    (case VirtualVoting_RestoreState (lj_VotingState s) (l_VirtualVoting l) of
                       (Some e, v) \<Rightarrow> (Some (LachErrVoting e), l\<lparr>l_DAG := d, l_GossipProtocol := g, l_VirtualVoting := v\<rparr>)
                     | (None, v) \<Rightarrow>
                         (case Finalizer_RestoreState (lj_FinalizerState s) (l_Finalizer l, d) of
                            (Some e, f, d1) \<Rightarrow>
                              (Some (LachErrGossip e), l\<lparr>l_DAG := d1, l_GossipProtocol := g, l_VirtualVoting := v, l_Finalizer := f\<rparr>)
                          | (None, f, d1) \<Rightarrow>
                              (case restore_heights d1 (lj_FinalizedEvents s) Map.empty of
                                 (err, m) \<Rightarrow>
                                   (err, l\<lparr>l_DAG := d1, l_GossipProtocol := g, l_VirtualVoting := v, l_Finalizer := f,
                                           l_finalizedEvents := m\<rparr>)))))))"

section \<open>The periodic check agrees with the vote\<close>

lemma f64_sub_nat: "b \<le> a \<Longrightarrow> a \<le> 2 ^ 53 \<Longrightarrow> f64_sub (Fin (of_nat a)) (Fin (of_nat b)) = Fin (of_nat (a - b))"
  using rnd_int [of "int (a - b)"] by (simp add: f64_sub_def of_nat_diff)

text \<open>While the sums are exact, the early exits of \<open>detectFinality\<close> do not change its answer: the stake of the
  nodes that have seen the event is compared with the required weight.\<close>

lemma finality_loop_exact:
  assumes "distinct nodes" and "set nodes \<subseteq> active_set d" and "a + (\<Sum>i\<leftarrow>nodes. stake_of d i) \<le> 2 ^ 53"
  shows "finality_loop d r q (Fin (of_nat a)) (Fin (of_nat (\<Sum>i\<leftarrow>nodes. stake_of d i))) nodes \<longleftrightarrow>
    (\<exists>i\<in>set nodes. VirtualVoting_HasSeen d i (Some r)) \<and>
    f64_le q (Fin (of_nat (a + (\<Sum>i\<leftarrow>filter (\<lambda>i. VirtualVoting_HasSeen d i (Some r)) nodes. stake_of d i))))"
  using assms
proof (induction nodes arbitrary: a)
  case (Cons i nodes)
  let ?P = "\<lambda>i. VirtualVoting_HasSeen d i (Some r)"
  let ?R = "\<Sum>i\<leftarrow>nodes. stake_of d i" and ?S = "\<Sum>i\<leftarrow>filter ?P nodes. stake_of d i"
  obtain n where n: "dag_Nodes d i = Some n" "nd_Active n"
    using Cons.prems(2) by (auto simp: active_set_def DAG_IsActiveValidator_def split: option.splits)
  have b: "a + stake_of d i + ?R \<le> 2 ^ 53" using Cons.prems(3) by simp
  have stk: "f64_of_int (uint (nd_Stake n)) = Fin (of_nat (stake_of d i))" using stake_float [OF n(1)] b by simp
  have rem: "f64_sub (Fin (of_nat (\<Sum>i\<leftarrow>i # nodes. stake_of d i))) (Fin (of_nat (stake_of d i))) = Fin (of_nat ?R)"
    using f64_sub_nat [of "stake_of d i" "stake_of d i + ?R"] b by simp
  define a' where "a' = (if ?P i then a + stake_of d i else a)"
  have tot: "(if ?P i then f64_add (Fin (of_nat a)) (Fin (of_nat (stake_of d i))) else Fin (of_nat a)) = Fin (of_nat a')"
    using f64_add_nat [of a "stake_of d i"] b by (simp add: a'_def)
  have sum: "f64_add (Fin (of_nat a')) (Fin (of_nat ?R)) = Fin (of_nat (a' + ?R))"
    using f64_add_nat [of a' ?R] b by (simp add: a'_def split: if_splits)
  have step: "finality_loop d r q (Fin (of_nat a)) (Fin (of_nat (\<Sum>i\<leftarrow>i # nodes. stake_of d i))) (i # nodes) \<longleftrightarrow>
      ?P i \<and> f64_le q (Fin (of_nat a')) \<or>
      \<not> f64_lt (Fin (of_nat (a' + ?R))) q \<and> finality_loop d r q (Fin (of_nat a')) (Fin (of_nat ?R)) nodes"
    unfolding finality_loop.simps n(1) option.case Let_def stk rem tot sum using n(2) by auto
  have IH: "finality_loop d r q (Fin (of_nat a')) (Fin (of_nat ?R)) nodes \<longleftrightarrow>
      (\<exists>i\<in>set nodes. ?P i) \<and> f64_le q (Fin (of_nat (a' + ?S)))"
    using Cons.prems b by (intro Cons.IH) (auto simp: a'_def)
  have S: "a + (\<Sum>i\<leftarrow>filter ?P (i # nodes). stake_of d i) = a' + ?S" by (simp add: a'_def)
  have SR: "?S \<le> ?R" by (induction nodes) auto
  have short: "f64_le q (Fin (of_nat (a' + ?S))) \<Longrightarrow> \<not> f64_lt (Fin (of_nat (a' + ?R))) q"
  proof -
    assume "f64_le q (Fin (of_nat (a' + ?S)))"
    then have le: "f64_le q (Fin (of_nat (a' + ?R)))" by (rule f64_le_mono_Fin) (use SR in simp)
    moreover from this have "q \<noteq> NaN" by (auto simp: f64_le_def)
    ultimately show ?thesis using f64_not_lt [of "Fin (of_nat (a' + ?R))" q] by simp
  qed
  have up: "f64_le q (Fin (of_nat a')) \<Longrightarrow> f64_le q (Fin (of_nat (a' + ?S)))" by (erule f64_le_mono_Fin) simp
  have none: "(\<forall>i\<in>set nodes. \<not> ?P i) \<Longrightarrow> ?S = 0" by (simp add: filter_empty_conv [THEN iffD2])
  show ?case unfolding step IH S using short up none by (cases "\<exists>i\<in>set nodes. ?P i") auto
qed simp

lemma HasSeen_creator: "VirtualVoting_HasSeen d (ev_Creator (dag_store d r)) (Some r)"
  by (simp add: VirtualVoting_HasSeen_def)

lemma detect_iff:
  assumes o: "range_order (dag_Nodes (l_DAG l)) order1" "range_order (dag_Nodes (l_DAG l)) order2"
    and b: "weight (l_DAG l) (dom (dag_Nodes (l_DAG l))) \<le> 2 ^ 53" and t: "l_votingThreshold l = Fin t"
  shows "Lachesis_detectFinality order1 order2 r l \<longleftrightarrow>
    (\<exists>i\<in>active_set (l_DAG l). VirtualVoting_HasSeen (l_DAG l) i (Some r)) \<and>
    f64_le (rnd (of_nat (total_active (l_DAG l)) * t))
      (Fin (of_nat (weight (l_DAG l) {i \<in> active_set (l_DAG l). VirtualVoting_HasSeen (l_DAG l) i (Some r)})))"
proof -
  let ?d = "l_DAG l" and ?ns = "DAG_GetActiveNodes order1 (l_DAG l)"
  have fin: "finite (dom (dag_Nodes ?d))" using o(1) by (rule range_order_finite)
  have sub: "total_active ?d \<le> weight ?d (dom (dag_Nodes ?d))"
    unfolding total_active_def weight_def using active_sub fin by (intro sum_mono2) auto
  have "unat (DAG_GetTotalStake order2 ?d) = total_active ?d" using o(2) b by (intro GetTotalStake_exact) simp_all
  then have tot: "f64_of_int (uint (DAG_GetTotalStake order2 ?d)) = Fin (of_nat (total_active ?d))"
    using sub b f64_of_int_exact [of "int (total_active ?d)"] by (simp add: uint_nat)
  note act = active_order [OF o(1)]
  have sums: "(\<Sum>i\<leftarrow>?ns. stake_of ?d i) = total_active ?d"
    "(\<Sum>i\<leftarrow>filter (\<lambda>i. VirtualVoting_HasSeen ?d i (Some r)) ?ns. stake_of ?d i) =
      weight ?d {i \<in> active_set ?d. VirtualVoting_HasSeen ?d i (Some r)}"
    using act by (simp_all add: sum_list_distinct_conv_sum_set total_active_def weight_def)
  have "finality_loop ?d r (rnd (of_nat (total_active ?d) * t)) (Fin (of_nat 0)) (Fin (of_nat (total_active ?d))) ?ns \<longleftrightarrow>
    (\<exists>i\<in>active_set ?d. VirtualVoting_HasSeen ?d i (Some r)) \<and>
    f64_le (rnd (of_nat (total_active ?d) * t))
      (Fin (of_nat (0 + weight ?d {i \<in> active_set ?d. VirtualVoting_HasSeen ?d i (Some r)})))"
    using finality_loop_exact [of ?ns ?d 0 r] act sub b unfolding sums by simp
  then show ?thesis by (simp add: Lachesis_detectFinality_def Let_def tot t)
qed

text \<open>C18: The periodic check \<open>detectFinality\<close> and \<open>Vote\<close> are two implementations of one test, with different loops and early exits. For an event of an active creator, if
  both use one threshold above zero and the stakes together stay below 2^53, they give the same answer as long as some active node has a stake, whatever the orders in which the
  maps are visited. When no active node has any, they differ on every such event: the periodic check accepts it and the vote refuses it.\<close>

theorem detect_agrees_with_vote:
  assumes o: "range_order (dag_Nodes (l_DAG l)) order1" "range_order (dag_Nodes (l_DAG l)) order2"
      "range_order (dag_Nodes (l_DAG l)) order3" "range_order (dag_Nodes (l_DAG l)) order4"
    and b: "weight (l_DAG l) (dom (dag_Nodes (l_DAG l))) \<le> 2 ^ 53"
    and c: "DAG_IsActiveValidator (ev_Creator (dag_store (l_DAG l) r)) (l_DAG l)"    and t: "l_votingThreshold l = Fin t" "vv_threshold (l_VirtualVoting l) = Fin t" "0 < t"
  shows "if 0 < total_active (l_DAG l)
    then Lachesis_detectFinality order1 order2 r l \<longleftrightarrow> VirtualVoting_Vote order3 order4 (Some (l_DAG l)) (Some r) (l_VirtualVoting l)
    else Lachesis_detectFinality order1 order2 r l \<and> \<not> VirtualVoting_Vote order3 order4 (Some (l_DAG l)) (Some r) (l_VirtualVoting l)"
proof -
  let ?d = "l_DAG l" and ?c = "ev_Creator (dag_store (l_DAG l) r)"
  have act: "?c \<in> active_set ?d" using c by (simp add: active_set_def)
  then have "counted ?d r = {i \<in> active_set ?d. VirtualVoting_HasSeen ?d i (Some r)}"
    using active_sub HasSeen_creator [of ?d r]
    by (auto simp: counted_def active_set_def DAG_IsActiveValidator_def split: option.splits)
  moreover have "?c \<in> dom (dag_Nodes ?d)" using act active_sub by blast
  ultimately have "Lachesis_detectFinality order1 order2 r l \<longleftrightarrow> VirtualVoting_Vote order3 order4 (Some ?d) (Some r) (l_VirtualVoting l)"
    if "0 < total_active ?d"
    unfolding vote_iff [OF o(3,4) b \<open>?c \<in> dom (dag_Nodes ?d)\<close> t(2,3) that] detect_iff [OF o(1,2) b t(1)]
    using act HasSeen_creator [of ?d r] by auto
  moreover have "Lachesis_detectFinality order1 order2 r l" if "total_active ?d = 0"
    unfolding detect_iff [OF o(1,2) b t(1)] using act HasSeen_creator [of ?d r] that by (auto simp: f64_le_def)
  moreover have "\<not> VirtualVoting_Vote order3 order4 (Some ?d) (Some r) (l_VirtualVoting l)" if "total_active ?d = 0"
  proof -
    have "unat (DAG_GetTotalStake order3 ?d) = 0" using o(3) b that by (subst GetTotalStake_exact) simp_all
    then have "DAG_GetTotalStake order3 ?d = 0" by (simp add: unat_eq_zero)
    then show ?thesis by (simp add: VirtualVoting_Vote_def Let_def)
  qed
  ultimately show ?thesis by simp
qed

definition lachesis_example :: Lachesis where
  "lachesis_example = (NewLachesis 100)\<lparr>l_DAG := dag_example\<rparr>"

lemma lachesis_example_simps:
  "l_DAG lachesis_example = dag_example" "l_VirtualVoting lachesis_example = NewVirtualVoting"
  "l_votingThreshold lachesis_example = vv_threshold NewVirtualVoting" "l_Finalizer lachesis_example = NewFinalizer"
  "l_finalizedEvents lachesis_example = Map.empty"
  by (simp_all add: lachesis_example_def NewLachesis_def NewVirtualVoting_def)

theorem detect_agrees_with_vote_witness: "Lachesis_detectFinality [1] [1] 0 lachesis_example"
proof -
  obtain t where t: "vv_threshold NewVirtualVoting = Fin t" "5 / 8 \<le> t" using default_threshold by blast
  have "if 0 < total_active (l_DAG lachesis_example)
    then Lachesis_detectFinality [1] [1] 0 lachesis_example \<longleftrightarrow>
      VirtualVoting_Vote [1] [1] (Some (l_DAG lachesis_example)) (Some 0) (l_VirtualVoting lachesis_example)
    else Lachesis_detectFinality [1] [1] 0 lachesis_example \<and>
      \<not> VirtualVoting_Vote [1] [1] (Some (l_DAG lachesis_example)) (Some 0) (l_VirtualVoting lachesis_example)"
    using t dag_example_nodes dag_example_event dag_example_total
    by (intro detect_agrees_with_vote [of _ _ _ _ _ _ t]) (auto simp: lachesis_example_simps)
  then show ?thesis using dag_example_vote by (simp add: lachesis_example_simps split: if_splits)
qed

section \<open>Queries by height\<close>

definition finalized_at :: "Lachesis \<Rightarrow> uint64 \<Rightarrow> nat list" where
  "finalized_at l h = (case l_finalizedEvents l h of None \<Rightarrow> [] | Some evs \<Rightarrow> evs)"

lemma finalized_loop_up:
  assumes "toHeight \<noteq> - 1"
  shows "finalized_loop m toHeight h res =
    Some (res @ concat (map (\<lambda>k. case m (word_of_nat k) of None \<Rightarrow> [] | Some evs \<Rightarrow> evs) [unat h..<Suc (unat toHeight)]))"
proof (induction "Suc (unat toHeight) - unat h" arbitrary: h res)
  case 0
  then have "\<not> h \<le> toHeight" by (simp add: word_le_nat_alt)
  then show ?case using 0 by (subst finalized_loop.simps) simp
next
  case (Suc n)
  then have le: "h \<le> toHeight" by (simp add: word_le_nat_alt)
  then have "h \<noteq> - 1" using assms by (metis word_order.extremum_uniqueI)
  then have s: "unat (h + 1) = Suc (unat h)" by (metis add.commute add_0 add_diff_cancel_right' unatSuc diff_0)
  have "[unat h..<Suc (unat toHeight)] = unat h # [unat (h + 1)..<Suc (unat toHeight)]"
    unfolding s using le by (simp add: upt_rec word_le_nat_alt)
  then show ?case using Suc.hyps(1) [of "h + 1"] Suc.hyps(2) le by (subst finalized_loop.simps) (simp add: s)
qed

lemma finalized_loop_no_return: "finalized_loop m toHeight h res = Some y \<Longrightarrow> toHeight \<noteq> - 1"
  by (erule finalized_loop.raw_induct [rotated]) (auto split: if_splits)

text \<open>\<open>GetFinalizedEvents\<close> returns the events of the heights from the first to the last one, in this order, unless
  the last height is the greatest 64-bit number: then the loop counter wraps round and the call never returns.\<close>

theorem finalized_range:
  "Lachesis_GetFinalizedEvents fromHeight toHeight l =
     (if toHeight = - 1 then None
      else Some (concat (map (\<lambda>k. finalized_at l (word_of_nat k)) [unat fromHeight..<Suc (unat toHeight)])))"
proof (cases "toHeight = - 1")
  case True
  then show ?thesis
    using finalized_loop_no_return [of "l_finalizedEvents l" toHeight fromHeight "[]"]
    by (cases "Lachesis_GetFinalizedEvents fromHeight toHeight l") (auto simp: Lachesis_GetFinalizedEvents_def)
next
  case False
  then show ?thesis
    using finalized_loop_up [OF False] by (simp add: Lachesis_GetFinalizedEvents_def finalized_at_def)
qed

section \<open>What gets finalized\<close>

lemma addFinalized_at [simp]:
  "finalized_at (Lachesis_addFinalizedEvent r l) h =
     finalized_at l h @ (if h = ev_Height (dag_store (l_DAG l) r) then [r] else [])"
  by (simp add: Lachesis_addFinalizedEvent_def finalized_at_def Let_def)

lemma addFinalized_frame [frame_simps]:
  "l_DAG (Lachesis_addFinalizedEvent r l) = l_DAG l" "l_Finalizer (Lachesis_addFinalizedEvent r l) = l_Finalizer l"
  "l_VirtualVoting (Lachesis_addFinalizedEvent r l) = l_VirtualVoting l"
  "l_votingThreshold (Lachesis_addFinalizedEvent r l) = l_votingThreshold l"
  by (simp_all add: Lachesis_addFinalizedEvent_def Let_def)

lemma finalized_at_update [simp]:
  "finalized_at (l\<lparr>l_DAG := d\<rparr>) h = finalized_at l h" "finalized_at (l\<lparr>l_Finalizer := f\<rparr>) h = finalized_at l h"
  by (simp_all add: finalized_at_def)

text \<open>The one place where an event becomes final by \<open>ProcessEvent\<close>.\<close>

lemma ProcessEvent_effect:
  fixes l r order1 order2
  defines "d \<equiv> l_DAG l"
  assumes "Lachesis_ProcessEvent order1 order2 r l = (ok, l')"
  shows "ok \<longleftrightarrow> DAG_IsActiveValidator (ev_Creator (dag_store d r)) d \<and>
      VirtualVoting_Vote order1 order2 (Some d) (Some r) (l_VirtualVoting l)"
    and "\<not> ok \<Longrightarrow> l' = l"
    and "finalized_at l' h = finalized_at l h @ (if ok \<and> h = ev_Height (dag_store d r) then [r] else [])"
    and "Finalizer_IsFinalized i (l_Finalizer l') \<longleftrightarrow>
      Finalizer_IsFinalized i (l_Finalizer l) \<or> ok \<and> i = ev_ID (dag_store d r)"
    and "l_DAG l' = (if ok \<and> \<not> Finalizer_IsFinalized (ev_ID (dag_store d r)) (l_Finalizer l) then set_finalized r d else d)"
proof -
  let ?vote = "\<lambda>d s. VirtualVoting_Vote order1 order2 (Some d) (Some s) (l_VirtualVoting l)"
  obtain b err f1 d1 where F: "Finalizer_Finalize ?vote r (l_Finalizer l, d) = ((b, err), f1, d1)" by (metis surj_pair)
  note E = vv.Finalize_effect [OF F]
  let ?c = "DAG_IsActiveValidator (ev_Creator (dag_store d r)) d \<and> ?vote d r"
  have P: "Lachesis_ProcessEvent order1 order2 r l =
      (if ?c then (True, Lachesis_addFinalizedEvent r (l\<lparr>l_Finalizer := f1, l_DAG := d1\<rparr>)) else (False, l))"
    using E(1,2) F by (cases "?vote d r") (auto simp add: Lachesis_ProcessEvent_def d_def [symmetric] Let_def)
  have h: "ev_Height (dag_store d1 r) = ev_Height (dag_store d r)" using E(4) by (simp add: frame_simps)
  show ok: "ok \<longleftrightarrow> ?c" and "\<not> ok \<Longrightarrow> l' = l" using assms(2) unfolding P by (simp_all split: if_splits)
  let ?l1 = "Lachesis_addFinalizedEvent r (l\<lparr>l_Finalizer := f1, l_DAG := d1\<rparr>)"
  have l': "l' = (if ok then ?l1 else l)" using assms(2) unfolding P by (auto split: if_splits)
  show "finalized_at l' h = finalized_at l h @ (if ok \<and> h = ev_Height (dag_store d r) then [r] else [])"
    unfolding l' by (simp add: h)
  show "Finalizer_IsFinalized i (l_Finalizer l') \<longleftrightarrow>
      Finalizer_IsFinalized i (l_Finalizer l) \<or> ok \<and> i = ev_ID (dag_store d r)"
    using E(3) ok unfolding l' by (auto simp: addFinalized_frame)
  show "l_DAG l' = (if ok \<and> \<not> Finalizer_IsFinalized (ev_ID (dag_store d r)) (l_Finalizer l) then set_finalized r d else d)"
    using E(4) ok unfolding l' by (auto simp: addFinalized_frame d_def)
qed

lemma finality_loop_frame [frame_simps]:
  "finality_loop (set_finalized s d) r q a b nodes = finality_loop d r q a b nodes"
  by (induction nodes arbitrary: a b) (simp_all add: frame_simps Let_def split: option.splits)

lemma detectFinality_frame [frame_simps]:
  "l_DAG l' = set_finalized s (l_DAG l) \<Longrightarrow> l_votingThreshold l' = l_votingThreshold l \<Longrightarrow>
   Lachesis_detectFinality order1 order2 r l' = Lachesis_detectFinality order1 order2 r l"
  by (simp add: Lachesis_detectFinality_def frame_simps Let_def)

text \<open>A round of the periodic check lists exactly the unfinalized events that pass it, judged in the state before
  the round, each once and under its height.\<close>

lemma process_loop_effect:
  "finalized_at (process_loop ord1 ord2 rs l) h = finalized_at l h @
     filter (\<lambda>r. Lachesis_detectFinality (ord1 r) (ord2 r) r l \<and> ev_Height (dag_store (l_DAG l) r) = h) rs \<and>
   l_Finalizer (process_loop ord1 ord2 rs l) = l_Finalizer l \<and>
   (ev_Finalized (dag_store (l_DAG (process_loop ord1 ord2 rs l)) s) \<longleftrightarrow> ev_Finalized (dag_store (l_DAG l) s) \<or>
     s \<in> set rs \<and> Lachesis_detectFinality (ord1 s) (ord2 s) s l)"
proof (induction rs arbitrary: l)
  case (Cons r rs)
  show ?case
  proof (cases "Lachesis_detectFinality (ord1 r) (ord2 r) r l")
    case True
    define l1 where "l1 = (Lachesis_addFinalizedEvent r l)\<lparr>l_DAG := set_finalized r (l_DAG l)\<rparr>"
    have step: "process_loop ord1 ord2 (r # rs) l = process_loop ord1 ord2 rs l1"
      using True by (simp add: l1_def Let_def frame_simps)
    have same: "Lachesis_detectFinality o1 o2 s l1 = Lachesis_detectFinality o1 o2 s l" for o1 o2 s
      by (rule detectFinality_frame) (simp_all add: l1_def frame_simps)
    have at: "finalized_at l1 h = finalized_at l h @ (if h = ev_Height (dag_store (l_DAG l) r) then [r] else [])"
      by (simp add: l1_def)
    have dag: "l_DAG l1 = set_finalized r (l_DAG l)" "l_Finalizer l1 = l_Finalizer l"
      by (simp_all add: l1_def frame_simps)
    show ?thesis unfolding step using Cons.IH [of l1] True by (auto simp: same at dag frame_simps)
  qed (use Cons.IH [of l] in auto)
qed simp

text \<open>The operations of an instance but for \<open>RestoreState\<close>, which replaces the graph and the lists by those of the data; the property below starts from any state, also
  one that was just restored. A range over a map visits each of its keys once.\<close>

inductive lachesis_step :: "Lachesis \<Rightarrow> Lachesis \<Rightarrow> bool" where
  node: "lachesis_step l (Lachesis_AddNode i stake l)"
| stake: "lachesis_step l (Lachesis_UpdateNodeStake i stake l)"
| create: "lachesis_step l (snd (Lachesis_CreateEvent now creator parents data l))"
| process: "range_order (dag_Nodes (l_DAG l)) order1 \<Longrightarrow> range_order (dag_Nodes (l_DAG l)) order2 \<Longrightarrow>
    lachesis_step l (snd (Lachesis_ProcessEvent order1 order2 r l))"
| round: "(\<And>r. range_order (dag_Nodes (l_DAG l)) (ord1 r)) \<Longrightarrow> (\<And>r. range_order (dag_Nodes (l_DAG l)) (ord2 r)) \<Longrightarrow>
    range_order (dag_Events (l_DAG l)) order \<Longrightarrow> lachesis_step l (Lachesis_processEvents ord1 ord2 order l)"
| delay: "lachesis_step l (Lachesis_SetGossipDelay conv delay l)"
| load: "lachesis_step l (Lachesis_AdjustNetworkLoad conv adj l)"
| threshold: "lachesis_step l (Lachesis_SetVotingThreshold t l)"
| proposal: "lachesis_step l (snd (Lachesis_UpdateProposalState i cur new l))"
| pending: "lachesis_step l (Lachesis_AddPendingEvent r l)"
| clear: "lachesis_step l (Lachesis_ClearPendingEvents l)"
| sync: "range_order (dag_Events (l_DAG l)) order \<Longrightarrow> lachesis_step l (Lachesis_ForceSync order l)"
| start: "lachesis_step l (snd (Lachesis_Start l))"
| stop: "lachesis_step l (snd (Lachesis_Stop l))"

text \<open>The operations that do not decide on finality leave the lists and the finalizer as they are.\<close>

lemma finality_unchanged:
  "finalized_at (Lachesis_AddNode i stake l) h = finalized_at l h"
  "finalized_at (Lachesis_UpdateNodeStake i stake l) h = finalized_at l h"
  "finalized_at (snd (Lachesis_CreateEvent now creator parents data l)) h = finalized_at l h"
  "finalized_at (Lachesis_SetGossipDelay conv delay l) h = finalized_at l h"
  "finalized_at (Lachesis_AdjustNetworkLoad conv adj l) h = finalized_at l h"
  "finalized_at (Lachesis_SetVotingThreshold t l) h = finalized_at l h"
  "finalized_at (snd (Lachesis_UpdateProposalState j cur new l)) h = finalized_at l h"
  "finalized_at (Lachesis_AddPendingEvent r l) h = finalized_at l h"
  "finalized_at (Lachesis_ClearPendingEvents l) h = finalized_at l h"
  "finalized_at (Lachesis_ForceSync order l) h = finalized_at l h"
  "finalized_at (snd (Lachesis_Start l)) h = finalized_at l h"
  "finalized_at (snd (Lachesis_Stop l)) h = finalized_at l h"
  by (simp_all add: finalized_at_def Lachesis_AddNode_def Lachesis_UpdateNodeStake_def Lachesis_CreateEvent_def
      Lachesis_SetGossipDelay_def Lachesis_AdjustNetworkLoad_def Lachesis_SetVotingThreshold_def Let_def
      Lachesis_UpdateProposalState_def Lachesis_AddPendingEvent_def Lachesis_ClearPendingEvents_def
      Lachesis_ForceSync_def Lachesis_Start_def Lachesis_Stop_def split: prod.splits sum.splits)

text \<open>What justifies that an event is listed: it passed the periodic check, or its creator is active and it passed the vote, on the graph of that moment, with ranges that
  visit every node.\<close>

definition justified :: "Lachesis \<Rightarrow> nat \<Rightarrow> bool" where
  "justified l r \<longleftrightarrow>
     (\<exists>order1 order2. range_order (dag_Nodes (l_DAG l)) order1 \<and> range_order (dag_Nodes (l_DAG l)) order2 \<and>
        (Lachesis_detectFinality order1 order2 r l \<or>
         DAG_IsActiveValidator (ev_Creator (dag_store (l_DAG l) r)) (l_DAG l) \<and>
           VirtualVoting_Vote order1 order2 (Some (l_DAG l)) (Some r) (l_VirtualVoting l)))"

lemma step_appends:
  assumes "lachesis_step l l'"
  shows "\<exists>new. finalized_at l' h = finalized_at l h @ new \<and>
    (\<forall>r\<in>set new. justified l r \<and> ev_Height (dag_store (l_DAG l) r) = h)"
  using assms
proof cases
  case (process order1 order2 r)
  obtain ok l1 where P: "Lachesis_ProcessEvent order1 order2 r l = (ok, l1)" by (metis surj_pair)
  note E = ProcessEvent_effect [OF P]
  show ?thesis
    using E(1,3) process P
    by (intro exI [of _ "if ok \<and> h = ev_Height (dag_store (l_DAG l) r) then [r] else []"]) (simp add: justified_def, blast)
next
  case (round ord1 ord2 order)
  show ?thesis
    unfolding round Lachesis_processEvents_def using process_loop_effect [of ord1 ord2 _ l h]
    by (intro exI conjI, blast) (use round in \<open>simp add: justified_def, blast\<close>)
qed (simp_all add: finality_unchanged)

text \<open>C16: Finality is justified and never revoked. From any state of an instance on, a new one or one that was just restored, and along any sequence of its operations other than
  another restore, the list of finalized events of a height only grows at its end, and every event that was added was, in some state on the way, at that height and accepted
  by the vote (with an active creator) or by the periodic check, counted over all nodes of the graph of that state.\<close>

theorem finalized_justified:
  assumes "lachesis_step\<^sup>*\<^sup>* l0 l"
  shows "\<exists>new. finalized_at l h = finalized_at l0 h @ new \<and>
    (\<forall>r \<in> set new. \<exists>l1. lachesis_step\<^sup>*\<^sup>* l0 l1 \<and> lachesis_step\<^sup>*\<^sup>* l1 l \<and> justified l1 r \<and> ev_Height (dag_store (l_DAG l1) r) = h)"
  using assms
proof (induction rule: rtranclp_induct)
  case base
  then show ?case by simp
next
  case (step l1 l2)
  obtain old where old: "finalized_at l1 h = finalized_at l0 h @ old"
    "\<forall>r \<in> set old. \<exists>l'. lachesis_step\<^sup>*\<^sup>* l0 l' \<and> lachesis_step\<^sup>*\<^sup>* l' l1 \<and> justified l' r \<and> ev_Height (dag_store (l_DAG l') r) = h"
    using step(3) by blast
  obtain new where new: "finalized_at l2 h = finalized_at l1 h @ new"
    "\<forall>r\<in>set new. justified l1 r \<and> ev_Height (dag_store (l_DAG l1) r) = h" using step_appends [OF step(2)] by blast
  have l2: "lachesis_step\<^sup>*\<^sup>* l1 l2" using step(2) by (rule r_into_rtranclp)
  have "\<forall>r \<in> set (old @ new). \<exists>l'. lachesis_step\<^sup>*\<^sup>* l0 l' \<and> lachesis_step\<^sup>*\<^sup>* l' l2 \<and> justified l' r \<and> ev_Height (dag_store (l_DAG l') r) = h"
    using old(2) new(2) step(1) l2 rtranclp_trans [of lachesis_step _ l1 l2] by (metis Un_iff set_append)
  then show ?case using old(1) new(1) by (intro exI [of _ "old @ new"]) simp
qed

definition lachesis_run :: Lachesis where
  "lachesis_run = snd (Lachesis_CreateEvent 0 1 [] [] (Lachesis_AddNode 1 10 (NewLachesis 100)))"

lemma lachesis_run_reachable: "lachesis_step\<^sup>*\<^sup>* (NewLachesis 100) lachesis_run"
  unfolding lachesis_run_def
  by (rule rtranclp.rtrancl_into_rtrancl [OF r_into_rtranclp [of lachesis_step, OF lachesis_step.node] lachesis_step.create])

lemma lachesis_run_simps: "l_DAG lachesis_run = dag_example" "l_VirtualVoting lachesis_run = NewVirtualVoting"
    "l_finalizedEvents lachesis_run = Map.empty"
  by (simp_all add: lachesis_run_def Lachesis_CreateEvent_def Lachesis_AddNode_def NewLachesis_def dag_example_def
      DAG_NewEvent_def DAG_AddNode_def NewDAG_def Let_def)

lemma dag_example_height: "ev_Height (dag_store dag_example 0) = 1"
  by (simp add: dag_example_def DAG_NewEvent_def DAG_AddNode_def NewDAG_def Let_def event_height_def)

lemma lachesis_run_processed:
  "finalized_at (snd (Lachesis_ProcessEvent [1] [1] 0 lachesis_run)) 1 = [0]"
proof -
  obtain ok l' where P: "Lachesis_ProcessEvent [1] [1] 0 lachesis_run = (ok, l')" by (metis surj_pair)
  from ProcessEvent_effect(1) [OF P] ProcessEvent_effect(3) [OF P, of 1] P show ?thesis
    using dag_example_vote dag_example_event
    by (simp add: lachesis_run_simps dag_example_height finalized_at_def)
qed

theorem finalized_justified_witness:
  "\<exists>l1. lachesis_step\<^sup>*\<^sup>* (NewLachesis 100) l1 \<and> justified l1 0 \<and> ev_Height (dag_store (l_DAG l1) 0) = 1"
proof -
  have "lachesis_step\<^sup>*\<^sup>* (NewLachesis 100) (snd (Lachesis_ProcessEvent [1] [1] 0 lachesis_run))"
    using dag_example_nodes
    by (intro rtranclp.rtrancl_into_rtrancl [OF lachesis_run_reachable] lachesis_step.process) (simp_all add: lachesis_run_simps)
  from finalized_justified [OF this, of 1] show ?thesis
    unfolding lachesis_run_processed by (auto simp: finalized_at_def NewLachesis_def)
qed

text \<open>An event that was processed can be processed again, and is then listed twice: neither \<open>ProcessEvent\<close> nor
  \<open>addFinalizedEvent\<close> looks whether it is final already.\<close>

theorem processed_twice_listed_twice:
  assumes "Lachesis_ProcessEvent order1 order2 r l = (True, l1)" and "l_VirtualVoting l1 = l_VirtualVoting l"
    and "Lachesis_ProcessEvent order1 order2 r l1 = (ok, l2)"
  shows "ok \<and> finalized_at l2 (ev_Height (dag_store (l_DAG l) r)) = finalized_at l (ev_Height (dag_store (l_DAG l) r)) @ [r, r]"
proof -
  note E1 = ProcessEvent_effect [OF assms(1)] and E2 = ProcessEvent_effect [OF assms(3)]
  have "l_DAG l1 = l_DAG l \<or> l_DAG l1 = set_finalized r (l_DAG l)" using E1(5) by auto
  then show ?thesis using E1(1,3) E2(1,3) assms(2) by (auto simp: frame_simps)
qed

text \<open>\<open>SetVotingThreshold\<close> stores an invalid threshold that the voting refuses, and the periodic check then works with
  it: at threshold zero every event with an active creator passes \<open>detectFinality\<close>, whatever stake supports it,
  while the vote still uses the old threshold.\<close>

theorem invalid_threshold_finalizes:
  assumes o: "range_order (dag_Nodes (l_DAG l)) order1" "range_order (dag_Nodes (l_DAG l)) order2"
    and b: "weight (l_DAG l) (dom (dag_Nodes (l_DAG l))) \<le> 2 ^ 53"
    and c: "DAG_IsActiveValidator (ev_Creator (dag_store (l_DAG l) r)) (l_DAG l)"
  shows "Lachesis_detectFinality order1 order2 r (Lachesis_SetVotingThreshold f64_0 l) \<and>
    l_VirtualVoting (Lachesis_SetVotingThreshold f64_0 l) = l_VirtualVoting l"
proof -
  let ?l = "Lachesis_SetVotingThreshold f64_0 l"
  have l: "l_DAG ?l = l_DAG l" "l_votingThreshold ?l = Fin 0" "l_VirtualVoting ?l = l_VirtualVoting l"
    by (simp_all add: Lachesis_SetVotingThreshold_def VirtualVoting_SetThreshold_def)
  have "Lachesis_detectFinality order1 order2 r ?l"
    using detect_iff [of ?l order1 order2 0 r] o b c HasSeen_creator [of "l_DAG l" r] by (auto simp: l active_set_def)
  then show ?thesis using l(3) by simp
qed

theorem invalid_threshold_finalizes_witness:
  "Lachesis_detectFinality [1] [1] 0 (Lachesis_SetVotingThreshold f64_0 lachesis_run)"
  using invalid_threshold_finalizes [of lachesis_run "[1]" "[1]" 0] dag_example_nodes dag_example_event dag_example_total
  by (simp add: lachesis_run_simps)

text \<open>A proposal takes whatever state the caller's own idea of the current state allows: the stored state is not
  read, so an executed proposal becomes active again.\<close>

theorem proposal_state_unchecked:
  assumes "Lachesis_UpdateProposalState i ''passed'' ''executed'' l = (None, l1)"
  shows "\<exists>l2. Lachesis_UpdateProposalState i ''pending'' ''active'' l1 = (None, l2) \<and> l_activeProposals l2 i = Some ''active''"
  by (simp add: Lachesis_UpdateProposalState_def isValidStateTransition_def proposal_transitions_def)


section \<open>Restoring gives the saved state back\<close>

text \<open>A restored graph refers to allocated objects only.\<close>

definition nodes_bounded :: "DAG \<Rightarrow> bool" where
  "nodes_bounded d \<longleftrightarrow> (\<forall>i n. dag_Nodes d i = Some n \<longrightarrow> (\<forall>r\<in>set (nd_Events n). r < dag_next d))"

definition events_bounded :: "DAG \<Rightarrow> bool" where
  "events_bounded d \<longleftrightarrow> (\<forall>i r. dag_Events d i = Some r \<longrightarrow> r < dag_next d)"

lemma restore_nodes_bounded: "nodes_bounded d \<Longrightarrow> nodes_bounded (snd (restore_nodes ns d))"
proof (induction ns d rule: restore_nodes.induct)
  case (2 s nj rest d)
  show ?case
  proof (cases "stringToByteArray s")
    case (Some i)
    obtain rs d1 where a: "alloc_events (nj_Events nj) d = (rs, d1)" by fastforce
    have "nodes_bounded (d1\<lparr>dag_Nodes := (dag_Nodes d1)(i \<mapsto> \<lparr>nd_ID = nj_ID nj, nd_Events = rs, nd_Stake = nj_Stake nj, nd_Active = nj_Active nj\<rparr>)\<rparr>)"
      using 2(2) alloc_events_ok [OF a] unfolding nodes_bounded_def by (auto intro: less_le_trans)
    from 2(1) [OF Some a [symmetric] HOL.refl this] show ?thesis by (simp add: Some a)
  qed (use 2(2) in simp)
qed simp

lemma restore_events_bounded:
  "nodes_bounded d \<Longrightarrow> events_bounded d \<Longrightarrow> nodes_bounded (snd (restore_events es d)) \<and> events_bounded (snd (restore_events es d))"
proof (induction es d rule: restore_events.induct)
  case (2 s e rest d)
  show ?case
  proof (cases "stringToByteArray s")
    case (Some i)
    let ?d = "d\<lparr>dag_store := (dag_store d)(dag_next d := e), dag_next := Suc (dag_next d), dag_Events := (dag_Events d)(i \<mapsto> dag_next d)\<rparr>"
    have "nodes_bounded ?d" "events_bounded ?d" using 2(2,3) by (auto simp: nodes_bounded_def events_bounded_def less_Suc_eq)
    from 2(1) [OF Some HOL.refl this] show ?thesis by (simp add: Some Let_def)
  qed (use 2(2,3) in simp)
qed simp

lemma DAG_RestoreState_bounded:
  assumes "DAG_RestoreState (Some st) d = (None, d')"
  shows "nodes_bounded d' \<and> events_bounded d'"
proof -
  obtain d1 d2 where r: "restore_nodes (dj_nodes st) (d\<lparr>dag_Nodes := Map.empty\<rparr>) = (None, d1)"
      "restore_events (dj_events st) (d1\<lparr>dag_Events := Map.empty\<rparr>) = (None, d2)" "d' = d2\<lparr>dag_MaxHeight := dj_max_height st\<rparr>"
    using assms by (auto simp: DAG_RestoreState_def split: prod.splits option.splits)
  have "nodes_bounded d1" using restore_nodes_bounded [of "d\<lparr>dag_Nodes := Map.empty\<rparr>" "dj_nodes st"] r(1) by (simp add: nodes_bounded_def)
  then have "nodes_bounded (d1\<lparr>dag_Events := Map.empty\<rparr>)" by (simp add: nodes_bounded_def)
  with restore_events_bounded [OF this, of "dj_events st"] r(2,3) show ?thesis by (simp add: events_bounded_def nodes_bounded_def)
qed

text \<open>The orders of the ranges of \<open>GetState\<close> visit every key once.\<close>

definition save_orders :: "SaveOrders \<Rightarrow> Lachesis \<Rightarrow> bool" where
  "save_orders so l \<longleftrightarrow>
     range_order (l_finalizedEvents l) (so_heights so) \<and> range_order (dag_Nodes (l_DAG l)) (so_nodes so) \<and>
     range_order (dag_Events (l_DAG l)) (so_events so) \<and> range_order (g_peers (l_GossipProtocol l)) (so_peers so) \<and>
     range_order (fz_finalized (l_Finalizer l)) (so_finalized so) \<and> range_order (fz_checkpoints (l_Finalizer l)) (so_checkpoints so)"

text \<open>The events listed as finalized are events of the graph.\<close>

definition lists_known :: "Lachesis \<Rightarrow> bool" where
  "lists_known l \<longleftrightarrow> (\<forall>h. \<forall>r\<in>set (finalized_at l h). dag_event (l_DAG l) (ev_ID (dag_store (l_DAG l) r)) = Some (dag_store (l_DAG l) r))"

text \<open>What can be seen of the saved state: the events and the nodes of the graph by value, its greatest height, the peers, the delays and the load of the
  gossip protocol, the threshold of the vote, the finalized IDs and the checkpoints by value, and the finalized events of every height by value.\<close>

record LachesisView =
  lv_events :: "hash32 \<rightharpoonup> Event"
  lv_nodes :: "hash32 \<rightharpoonup> NodeJSON"
  lv_maxHeight :: uint64
  lv_peers :: "hash32 set"
  lv_delays :: "duration \<times> duration"
  lv_load :: float64
  lv_vote :: VirtualVoting
  lv_finalized :: "hash32 \<rightharpoonup> bool"
  lv_checkpoints :: "uint64 \<rightharpoonup> Event"
  lv_lists :: "uint64 \<Rightarrow> Event list"

definition lachesis_view :: "Lachesis \<Rightarrow> LachesisView" where
  "lachesis_view l =
     (let d = l_DAG l; g = l_GossipProtocol l; f = l_Finalizer l in
      \<lparr>lv_events = dag_event d, lv_nodes = (\<lambda>i. map_option (node_json (dag_store d)) (dag_Nodes d i)), lv_maxHeight = dag_MaxHeight d,
       lv_peers = dom (g_peers g), lv_delays = (g_baseDelay g, g_currentDelay g), lv_load = g_networkLoad g, lv_vote = l_VirtualVoting l,
       lv_finalized = fz_finalized f, lv_checkpoints = (\<lambda>h. map_option (dag_store d) (fz_checkpoints f h)),
       lv_lists = (\<lambda>h. map (dag_store d) (finalized_at l h))\<rparr>)"

text \<open>The fields that \<open>RestoreState\<close> does not touch.\<close>

definition lachesis_unsaved :: "Lachesis \<Rightarrow> duration \<times> float64 \<times> float64 \<times> nat list \<times> bool \<times> (hash32 \<rightharpoonup> string)" where
  "lachesis_unsaved l = (l_gossipDelay l, l_votingThreshold l, l_networkLoad l, l_pendingEvents l, l_running l, l_activeProposals l)"

lemma restore_unsaved: "lachesis_unsaved (snd (Lachesis_RestoreState s l)) = lachesis_unsaved l"
  by (simp add: Lachesis_RestoreState_def lachesis_unsaved_def split: option.split prod.split)

lemma restore_peers_saved:
  "restore_peers (map byteArrayToString order) m = Some (\<lambda>i. if i \<in> set order then Some [] else m i)"
  by (induction order arbitrary: m) (auto simp: stringToByteArray_inverse fun_eq_iff)

lemma gossip_restore_saved:
  assumes "range_order (g_peers g) order" and "GossipProtocol_GetState order g = Inr j"
  shows "\<exists>g1. GossipProtocol_RestoreState (Some j) g0 = (None, g1) \<and> dom (g_peers g1) = dom (g_peers g) \<and>
    g_baseDelay g1 = g_baseDelay g \<and> g_currentDelay g1 = g_currentDelay g \<and> g_networkLoad g1 = g_networkLoad g"
  using assms
  by (auto simp: GossipProtocol_GetState_def GossipProtocol_RestoreState_def restore_peers_saved range_order_def dom_def split: float64.splits)

lemma restore_height_saved:
  assumes "\<And>e. e \<in> set es \<Longrightarrow> dag_event d (ev_ID e) = Some e"
  shows "\<exists>rs. restore_height d (map (\<lambda>e. byteArrayToString (ev_ID e)) es) evs = (None, evs @ rs) \<and> map (dag_store d) rs = es"
  using assms
proof (induction es arbitrary: evs)
  case (Cons e es)
  obtain r where r: "dag_Events d (ev_ID e) = Some r" "dag_store d r = e" using Cons.prems [of e] by (auto simp: dag_event_def)
  obtain rs where "restore_height d (map (\<lambda>e. byteArrayToString (ev_ID e)) es) (evs @ [r]) = (None, (evs @ [r]) @ rs)" "map (dag_store d) rs = es"
    using Cons by (metis list.set_intros(2))
  then show ?case using r by (intro exI [of _ "r # rs"]) (simp add: stringToByteArray_inverse DAG_GetEvent_def)
qed simp

lemma restore_heights_saved:
  assumes "distinct order" and "\<And>h e. e \<in> set (es h) \<Longrightarrow> dag_event d (ev_ID e) = Some e"
  shows "\<exists>m'. restore_heights d (map (\<lambda>h. (h, map (\<lambda>e. byteArrayToString (ev_ID e)) (es h))) order) m = (None, m') \<and>
    (\<forall>h. map (dag_store d) (case m' h of None \<Rightarrow> [] | Some rs \<Rightarrow> rs) =
       (if h \<in> set order \<and> es h \<noteq> [] then es h else map (dag_store d) (case m h of None \<Rightarrow> [] | Some rs \<Rightarrow> rs)))"
  using assms(1)
proof (induction order arbitrary: m)
  case (Cons h order)
  obtain rs where rs: "restore_height d (map (\<lambda>e. byteArrayToString (ev_ID e)) (es h)) [] = (None, rs)" "map (dag_store d) rs = es h"
    using restore_height_saved [of "es h" d "[]"] assms(2) by auto
  let ?m = "if rs = [] then m else m(h \<mapsto> rs)"
  obtain m' where m': "restore_heights d (map (\<lambda>h. (h, map (\<lambda>e. byteArrayToString (ev_ID e)) (es h))) order) ?m = (None, m')"
    "\<forall>k. map (dag_store d) (case m' k of None \<Rightarrow> [] | Some rs \<Rightarrow> rs) =
       (if k \<in> set order \<and> es k \<noteq> [] then es k else map (dag_store d) (case ?m k of None \<Rightarrow> [] | Some rs \<Rightarrow> rs))"
    using Cons.IH [of ?m] Cons.prems by auto
  have "map (dag_store d) (case m' k of None \<Rightarrow> [] | Some rs \<Rightarrow> rs) =
       (if k \<in> set (h # order) \<and> es k \<noteq> [] then es k else map (dag_store d) (case m k of None \<Rightarrow> [] | Some rs \<Rightarrow> rs))" for k
    using m'(2) [rule_format, of k] rs(2) Cons.prems by auto
  then show ?case using m'(1) rs(1) by simp
qed simp


lemma finalizer_restore_frame:
  assumes "Finalizer_RestoreState s (f, d) = (e, f1, d1)" and "nodes_bounded d" and "events_bounded d"
  shows "dag_event d1 = dag_event d \<and> dag_Events d1 = dag_Events d \<and> dag_MaxHeight d1 = dag_MaxHeight d \<and>
    (\<forall>i. map_option (node_json (dag_store d1)) (dag_Nodes d1 i) = map_option (node_json (dag_store d)) (dag_Nodes d i))"
proof -
  have *: "dag_Nodes d' = dag_Nodes d \<and> dag_Events d' = dag_Events d \<and> dag_MaxHeight d' = dag_MaxHeight d \<and> (\<forall>r<dag_next d. dag_store d' r = dag_store d r)"
    if "restore_checkpoints cps m d = (m', d')" for cps m m' d'
  proof -
    have "snd (restore_checkpoints cps m d) = d' \<Longrightarrow> dag_Nodes d' = dag_Nodes d \<and> dag_Events d' = dag_Events d \<and> dag_MaxHeight d' = dag_MaxHeight d \<and>
        (\<forall>r<dag_next d. dag_store d' r = dag_store d r)" for d d'
    proof (induction cps m d rule: restore_checkpoints.induct)
      case (2 h e rest newCP d)
      let ?d = "d\<lparr>dag_store := (dag_store d)(dag_next d := e), dag_next := Suc (dag_next d)\<rparr>"
      have "snd (restore_checkpoints rest (newCP(h \<mapsto> dag_next d)) ?d) = d'" using 2(2) by (simp add: Let_def)
      from 2(1) [OF HOL.refl this] show ?case by (auto simp: less_Suc_eq)
    qed simp
    from this [of d d'] show ?thesis using that by simp
  qed
  consider "d1 = d" | cps m m' where "restore_checkpoints cps m d = (m', d1)"
    using assms(1) by (auto simp: Finalizer_RestoreState_def split: option.splits prod.splits)
  then have f: "dag_Nodes d1 = dag_Nodes d \<and> dag_Events d1 = dag_Events d \<and> dag_MaxHeight d1 = dag_MaxHeight d \<and> (\<forall>r<dag_next d. dag_store d1 r = dag_store d r)"
    by cases (auto dest: *)
  then have "dag_event d1 i = dag_event d i" for i using assms(3) by (cases "dag_Events d i") (auto simp: dag_event_def events_bounded_def)
  moreover have "map_option (node_json (dag_store d1)) (dag_Nodes d1 i) = map_option (node_json (dag_store d)) (dag_Nodes d i)" for i
  proof (cases "dag_Nodes d i")
    case (Some n)
    then have "node_json (dag_store d1) n = node_json (dag_store d) n" using f assms(2) by (intro node_json_cong) (auto simp: nodes_bounded_def)
    then show ?thesis using f Some by simp
  qed (use f in simp)
  ultimately show ?thesis using f by auto
qed

text \<open>Whatever an instance holds, restoring a saved state makes it look like the one that was saved.\<close>

lemma lachesis_restore_saved:
  assumes o: "save_orders so l" and k: "lists_known l" and v: "voting_reachable (l_VirtualVoting l)" and s: "Lachesis_GetState so l = Inr st"
  shows "\<exists>l1. Lachesis_RestoreState (Some st) l0 = (None, l1) \<and> lachesis_view l1 = lachesis_view l \<and> lachesis_unsaved l1 = lachesis_unsaved l0"
proof -
  let ?d = "l_DAG l" and ?es = "\<lambda>h. map (dag_store (l_DAG l)) (finalized_at l h)"
  obtain gs vs where g: "GossipProtocol_GetState (so_peers so) (l_GossipProtocol l) = Inr gs" and vs: "VirtualVoting_GetState (l_VirtualVoting l) = Inr vs"
      and st: "lj_DAGState st = Some (DAG_GetState (so_nodes so) (so_events so) ?d)" "lj_GossipState st = Some gs" "lj_VotingState st = Some vs"
        "lj_FinalizerState st = Some (Finalizer_GetState (so_finalized so) (so_checkpoints so) (l_Finalizer l, ?d))"
        "lj_FinalizedEvents st = map (\<lambda>h. (h, map (\<lambda>r. byteArrayToString (ev_ID (dag_store ?d r))) (the (l_finalizedEvents l h)))) (so_heights so)"
    using s by (auto simp: Lachesis_GetState_def Let_def split: sum.splits)
  obtain d1 where d1: "DAG_RestoreState (lj_DAGState st) (l_DAG l0) = (None, d1)" "dag_event d1 = dag_event ?d" "dag_MaxHeight d1 = dag_MaxHeight ?d"
      "\<forall>i. map_option (node_json (dag_store d1)) (dag_Nodes d1 i) = map_option (node_json (dag_store ?d)) (dag_Nodes ?d i)"
    using dag_state_roundtrip [of ?d "so_nodes so" "so_events so" "l_DAG l0"] o unfolding st(1) save_orders_def by blast
  have b: "nodes_bounded d1" "events_bounded d1" using DAG_RestoreState_bounded d1(1) unfolding st(1) by blast+
  obtain g1 where g1: "GossipProtocol_RestoreState (lj_GossipState st) (l_GossipProtocol l0) = (None, g1)" "dom (g_peers g1) = dom (g_peers (l_GossipProtocol l))"
      "g_baseDelay g1 = g_baseDelay (l_GossipProtocol l)" "g_currentDelay g1 = g_currentDelay (l_GossipProtocol l)"
      "g_networkLoad g1 = g_networkLoad (l_GossipProtocol l)"
    using gossip_restore_saved [OF _ g, of "l_GossipProtocol l0"] o unfolding st(2) save_orders_def by blast
  have v1: "VirtualVoting_RestoreState (lj_VotingState st) (l_VirtualVoting l0) = (None, l_VirtualVoting l)"
    using threshold_valid [OF v, of NewDAG "l_VirtualVoting l0"] vs unfolding st(3) by simp
  obtain e f1 d2 where f: "Finalizer_RestoreState (lj_FinalizerState st) (l_Finalizer l0, d1) = (e, f1, d2)" by (metis prod_cases3)
  have f1: "e = None" "fz_finalized f1 = fz_finalized (l_Finalizer l)"
      "map_option (dag_store d2) (fz_checkpoints f1 h) = map_option (dag_store ?d) (fz_checkpoints (l_Finalizer l) h)" for h
    using finalizer_state_roundtrip [where f = "l_Finalizer l" and ?order1.0 = "so_finalized so" and ?order2.0 = "so_checkpoints so" and d = ?d and
      ?f0.0 = "l_Finalizer l0" and ?d0.0 = d1 and h = h] o f
    unfolding st(4) save_orders_def by auto
  note d2 = finalizer_restore_frame [OF f b]
  have "dag_event d2 (ev_ID e) = Some e" if "e \<in> set (?es h)" for h e using that k d1(2) d2 by (auto simp: lists_known_def)
  moreover have dist: "distinct (so_heights so)" "set (so_heights so) = dom (l_finalizedEvents l)" using o by (auto simp: save_orders_def range_order_def)
  ultimately obtain m where m: "restore_heights d2 (map (\<lambda>h. (h, map (\<lambda>e. byteArrayToString (ev_ID e)) (?es h))) (so_heights so)) Map.empty = (None, m)"
    "\<forall>h. map (dag_store d2) (case m h of None \<Rightarrow> [] | Some rs \<Rightarrow> rs) = (if h \<in> set (so_heights so) \<and> ?es h \<noteq> [] then ?es h else [])"
    using restore_heights_saved [of "so_heights so" ?es d2 Map.empty] by auto
  have "lj_FinalizedEvents st = map (\<lambda>h. (h, map (\<lambda>e. byteArrayToString (ev_ID e)) (?es h))) (so_heights so)"
    unfolding st(5) using dist(2) by (intro map_cong) (auto simp: finalized_at_def)
  then have m': "restore_heights d2 (lj_FinalizedEvents st) Map.empty = (None, m)" using m(1) by (simp only:)
  have lists: "map (dag_store d2) (case m h of None \<Rightarrow> [] | Some rs \<Rightarrow> rs) = ?es h" for h
    using m(2) dist(2) by (cases "l_finalizedEvents l h") (auto simp: finalized_at_def dom_def)
  let ?l1 = "l0\<lparr>l_DAG := d2, l_GossipProtocol := g1, l_VirtualVoting := l_VirtualVoting l, l_Finalizer := f1, l_finalizedEvents := m\<rparr>"
  have "Lachesis_RestoreState (Some st) l0 = (None, ?l1)" using d1(1) g1(1) v1 f f1(1) m' by (simp add: Lachesis_RestoreState_def)
  moreover have "lachesis_view ?l1 = lachesis_view l"
    using d1(2-4) d2 g1(2-5) f1(2,3) lists by (simp add: lachesis_view_def Let_def finalized_at_def fun_eq_iff)
  moreover have "lachesis_unsaved ?l1 = lachesis_unsaved l0" by (simp add: lachesis_unsaved_def)
  ultimately show ?thesis by blast
qed

end
