(* ===== verification/GovernanceTheory.thy ===== *)
theory GovernanceTheory
  imports DPoSTheory LachesisTheory "HOL-Library.AList"
begin

text \<open>
  On-chain governance: \<open>consensus/governance/governance.go\<close>. Validators vote on proposals that change the settings of
  the consensus. The object of a proposal lives in the map of proposals; \<open>Adapter\<close> is what governance sees of the
  consensus through the interface \<open>ConsensusAdapter\<close>: the stake module of \<open>DPoSTheory\<close>, the event module of
  \<open>LachesisTheory\<close> and the current height.

  The JSON decoders of the three kinds of proposal data are fields of \<open>GovEnv\<close> (\<open>None\<close> where \<open>json.Unmarshal\<close>
  fails), with the conversion of floats to durations and the sorting of the validators that the stake module
  needs. Ranges over maps take their orders as arguments. The ticker loop \<open>Run\<close> is modelled by one tick.
\<close>

section \<open>Data\<close>

datatype ProposalStatus = Pending | Active | Passed | Rejected | Executed

fun ProposalStatus_String :: "ProposalStatus \<Rightarrow> string" where
  "ProposalStatus_String Pending = ''Pending''"
| "ProposalStatus_String Active = ''Active''"
| "ProposalStatus_String Passed = ''Passed''"
| "ProposalStatus_String Rejected = ''Rejected''"
| "ProposalStatus_String Executed = ''Executed''"

text \<open>The kind of a proposal is an integer that any caller may choose.\<close>

type_synonym ProposalType = int

definition ConsensusChange :: ProposalType where "ConsensusChange = 0"
definition ParameterChange :: ProposalType where "ParameterChange = 1"
definition UpgradeProposal :: ProposalType where "UpgradeProposal = 2"

record Proposal =
  p_ID :: hash32
  p_Type :: ProposalType
  p_Description :: string
  p_StartTime :: int
  p_EndTime :: int
  p_Status :: ProposalStatus
  p_Votes :: "hash32 \<rightharpoonup> bool"
  p_Data :: bytes
  p_Creator :: hash32

record ConsensusChangeData =
  ccd_NewGossipDelay :: duration
  ccd_NewVotingThreshold :: float64
  ccd_NewMaxSetSize :: int

record ParameterChangeData =
  pcd_NewEpochDuration :: uint64
  pcd_NewMinStake :: uint64

record UpgradeProposalData =
  upd_NewVersion :: string
  upd_UpgradeHeight :: uint64

record Adapter =
  ad_dpos :: DPoS
  ad_lachesis :: Lachesis
  ad_height :: uint64

record GovEnv =
  ge_consensusChange :: "bytes \<Rightarrow> ConsensusChangeData option"
  ge_parameterChange :: "bytes \<Rightarrow> ParameterChangeData option"
  ge_upgrade :: "bytes \<Rightarrow> UpgradeProposalData option"
  ge_conv :: "float64 \<Rightarrow> int"
  ge_sort :: "DPoS \<Rightarrow> hash32 list"

record Governance =
  gv_proposals :: "hash32 \<rightharpoonup> Proposal"
  gv_votingDuration :: duration
  gv_superValidators :: "hash32 set"

datatype gov_error = GovErrNew string | GovErrWrap string gov_error

definition majorityFraction :: float64 where "majorityFraction = rnd (66 / 100)"

section \<open>Proposals and votes\<close>

definition NewGovernance :: "duration \<Rightarrow> Governance" where
  "NewGovernance votingDuration =
     \<lparr>gv_proposals = Map.empty, gv_votingDuration = votingDuration, gv_superValidators = {}\<rparr>"

definition Governance_AddSuperValidator :: "hash32 \<Rightarrow> Governance \<Rightarrow> Governance" where
  "Governance_AddSuperValidator validatorID g = g\<lparr>gv_superValidators := insert validatorID (gv_superValidators g)\<rparr>"

definition Governance_RemoveSuperValidator :: "hash32 \<Rightarrow> Governance \<Rightarrow> Governance" where
  "Governance_RemoveSuperValidator validatorID g = g\<lparr>gv_superValidators := gv_superValidators g - {validatorID}\<rparr>"

definition proposal_id :: "int \<Rightarrow> string \<Rightarrow> bytes \<Rightarrow> hash32 \<Rightarrow> hash32" where
  "proposal_id startTime description data creatorID =
     sha256 (be_bytes 8 (word_of_int startTime :: uint64) @ string_bytes description @ data @ hash_bytes creatorID)"

definition Governance_CreateProposal ::
    "int \<Rightarrow> ProposalType \<Rightarrow> string \<Rightarrow> bytes \<Rightarrow> hash32 \<Rightarrow> Governance \<Rightarrow> hash32 \<times> Governance" where
  "Governance_CreateProposal now proposalType description data creatorID g =
     (let startTime = now - 10 * millisecond;
          i = proposal_id startTime description data creatorID;
          prop = \<lparr>p_ID = i, p_Type = proposalType, p_Description = description, p_StartTime = startTime,
                  p_EndTime = startTime + gv_votingDuration g, p_Status = Pending, p_Votes = Map.empty,
                  p_Data = data, p_Creator = creatorID\<rparr>
      in (i, g\<lparr>gv_proposals := (gv_proposals g)(i \<mapsto> prop)\<rparr>))"

definition Governance_CancelProposal :: "hash32 \<Rightarrow> hash32 \<Rightarrow> Governance \<Rightarrow> gov_error option \<times> Governance" where
  "Governance_CancelProposal proposalID cancelerID g =
     (case gv_proposals g proposalID of
        None \<Rightarrow> (Some (GovErrNew ''proposal not found''), g)
      | Some prop \<Rightarrow>
          if p_Status prop \<noteq> Pending \<and> p_Status prop \<noteq> Active
          then (Some (GovErrNew ''proposal cannot be canceled in its current state''), g)
          else if p_Creator prop \<noteq> cancelerID \<and> cancelerID \<notin> gv_superValidators g
          then (Some (GovErrNew ''not authorized to cancel this proposal''), g)
          else (None, g\<lparr>gv_proposals := (gv_proposals g)(proposalID := None)\<rparr>))"

definition Governance_Vote ::
    "int \<Rightarrow> Adapter \<Rightarrow> hash32 \<Rightarrow> hash32 \<Rightarrow> bool \<Rightarrow> Governance \<Rightarrow> gov_error option \<times> Governance" where
  "Governance_Vote now ad proposalID validatorID vote g =
     (case gv_proposals g proposalID of
        None \<Rightarrow> (Some (GovErrNew ''proposal not found''), g)
      | Some prop \<Rightarrow>
          if p_Status prop \<noteq> Active then (Some (GovErrNew ''proposal is not active''), g)
          else if now > p_EndTime prop then (Some (GovErrNew ''voting period has ended''), g)
          else if \<not> DPoS_IsActiveValidator validatorID (ad_dpos ad) then (Some (GovErrNew ''not an active validator''), g)
          else (None, g\<lparr>gv_proposals := (gv_proposals g)(proposalID \<mapsto> prop\<lparr>p_Votes := (p_Votes prop)(validatorID \<mapsto> vote)\<rparr>)\<rparr>))"

section \<open>Execution\<close>

text \<open>\<open>HybridConsensus.ScheduleUpgrade\<close> writes a line to the log and nothing else.\<close>

definition HybridConsensus_ScheduleUpgrade :: "string \<Rightarrow> uint64 \<Rightarrow> Adapter \<Rightarrow> gov_error option \<times> Adapter" where
  "HybridConsensus_ScheduleUpgrade version height ad = (None, ad)"

text \<open>The result is \<open>None\<close> if the stake module panics.\<close>

definition Governance_executeConsensusChange ::
    "GovEnv \<Rightarrow> Proposal \<Rightarrow> Adapter \<Rightarrow> (gov_error option \<times> Adapter) option" where
  "Governance_executeConsensusChange env proposal ad =
     (case ge_consensusChange env (p_Data proposal) of
        None \<Rightarrow> Some (Some (GovErrNew ''failed to unmarshal consensus change data''), ad)
      | Some changeData \<Rightarrow>
          let l1 = (if ccd_NewGossipDelay changeData > 0
                    then Lachesis_SetGossipDelay (ge_conv env) (ccd_NewGossipDelay changeData) (ad_lachesis ad) else ad_lachesis ad);
              l2 = (if f64_lt f64_0 (ccd_NewVotingThreshold changeData) \<and> f64_le (ccd_NewVotingThreshold changeData) f64_1
                    then Lachesis_SetVotingThreshold (ccd_NewVotingThreshold changeData) l1 else l1)
          in if ccd_NewMaxSetSize changeData > 0
             then (case DPoS_SetSetSize (ge_sort env (ad_dpos ad)) (ccd_NewMaxSetSize changeData) (ad_dpos ad) of
                     None \<Rightarrow> None
                   | Some d \<Rightarrow> Some (None, ad\<lparr>ad_lachesis := l2, ad_dpos := d\<rparr>))
             else Some (None, ad\<lparr>ad_lachesis := l2\<rparr>))"

definition Governance_executeParameterChange :: "GovEnv \<Rightarrow> Proposal \<Rightarrow> Adapter \<Rightarrow> gov_error option \<times> Adapter" where
  "Governance_executeParameterChange env proposal ad =
     (case ge_parameterChange env (p_Data proposal) of
        None \<Rightarrow> (Some (GovErrNew ''failed to unmarshal parameter change data''), ad)
      | Some changeData \<Rightarrow>
          (None, if pcd_NewEpochDuration changeData > 0
                 then ad\<lparr>ad_dpos := DPoS_SetEpochDuration (pcd_NewEpochDuration changeData) (ad_dpos ad)\<rparr> else ad))"

definition Governance_executeUpgradeProposal :: "GovEnv \<Rightarrow> Proposal \<Rightarrow> Adapter \<Rightarrow> gov_error option \<times> Adapter" where
  "Governance_executeUpgradeProposal env proposal ad =
     (case ge_upgrade env (p_Data proposal) of
        None \<Rightarrow> (Some (GovErrNew ''failed to unmarshal upgrade proposal data''), ad)
      | Some upgrade \<Rightarrow>
          if upd_NewVersion upgrade = '''' then (Some (GovErrNew ''missing new version for upgrade''), ad)
          else if upd_UpgradeHeight upgrade \<le> ad_height ad
          then (Some (GovErrNew ''upgrade height must be in the future''), ad)
          else (case HybridConsensus_ScheduleUpgrade (upd_NewVersion upgrade) (upd_UpgradeHeight upgrade) ad of
                  (Some e, ad1) \<Rightarrow> (Some (GovErrWrap ''failed to schedule upgrade'' e), ad1)
                | (None, ad1) \<Rightarrow> (None, ad1)))"

definition Governance_executeProposal ::
    "GovEnv \<Rightarrow> Proposal \<Rightarrow> Adapter \<Rightarrow> (gov_error option \<times> Adapter) option" where
  "Governance_executeProposal env proposal ad =
     (if p_Type proposal = ConsensusChange
      then if p_Data proposal = [] then Some (None, ad) else Governance_executeConsensusChange env proposal ad
      else if p_Type proposal = ParameterChange then Some (Governance_executeParameterChange env proposal ad)
      else if p_Type proposal = UpgradeProposal then Some (Governance_executeUpgradeProposal env proposal ad)
      else Some (Some (GovErrNew ''unknown proposal type''), ad))"

definition set_status :: "hash32 \<Rightarrow> ProposalStatus \<Rightarrow> Governance \<Rightarrow> Governance" where
  "set_status i st g = g\<lparr>gv_proposals := map_modify i (\<lambda>p. p\<lparr>p_Status := st\<rparr>) (gv_proposals g)\<rparr>"

definition Governance_ExecuteProposal ::
    "GovEnv \<Rightarrow> hash32 \<Rightarrow> Governance \<times> Adapter \<Rightarrow> (gov_error option \<times> Governance \<times> Adapter) option" where
  "Governance_ExecuteProposal env proposalID = (\<lambda>(g, ad).
     case gv_proposals g proposalID of
       None \<Rightarrow> Some (Some (GovErrNew ''proposal not found''), g, ad)
     | Some prop \<Rightarrow>
         if p_Status prop \<noteq> Passed then Some (Some (GovErrNew ''proposal has not passed''), g, ad)
         else (case Governance_executeProposal env prop ad of
                 None \<Rightarrow> None
               | Some (Some e, ad1) \<Rightarrow> Some (Some (GovErrWrap ''failed to execute proposal'' e), g, ad1)
               | Some (None, ad1) \<Rightarrow> Some (None, set_status proposalID Executed g, ad1)))"

fun execute_loop ::
    "GovEnv \<Rightarrow> hash32 list \<Rightarrow> Governance \<times> Adapter \<Rightarrow> (gov_error list \<times> Governance \<times> Adapter) option" where
  "execute_loop env [] st = Some ([], st)"
| "execute_loop env (i # is) (g, ad) =
     (let prop = the (gv_proposals g i) in
      if p_Status prop \<noteq> Passed then execute_loop env is (g, ad)
      else (case Governance_executeProposal env prop ad of
              None \<Rightarrow> None
            | Some (Some e, ad1) \<Rightarrow>
                (case execute_loop env is (g, ad1) of None \<Rightarrow> None | Some (errs, st) \<Rightarrow> Some (e # errs, st))
            | Some (None, ad1) \<Rightarrow> execute_loop env is (set_status i Executed g, ad1)))"

definition Governance_ExecutePassedProposals ::
    "GovEnv \<Rightarrow> hash32 list \<Rightarrow> Governance \<times> Adapter \<Rightarrow> (gov_error list \<times> Governance \<times> Adapter) option" where
  "Governance_ExecutePassedProposals env order st = execute_loop env order st"

section \<open>Counting\<close>

fun tally :: "DPoS \<Rightarrow> (hash32 \<rightharpoonup> bool) \<Rightarrow> hash32 list \<Rightarrow> uint64 \<times> uint64 \<Rightarrow> uint64 \<times> uint64" where
  "tally d votes [] acc = acc"
| "tally d votes (vid # vids) (yesStake, noStake) =
     (let st = DPoS_GetValidatorStake vid d in
      tally d votes vids (if the (votes vid) then (yesStake + st, noStake) else (yesStake, noStake + st)))"

definition finalize_status :: "hash32 list \<Rightarrow> Adapter \<Rightarrow> Proposal \<Rightarrow> ProposalStatus" where
  "finalize_status voters ad prop =
     (let (yesStake, noStake) = tally (ad_dpos ad) (p_Votes prop) voters (0, 0) in
      if f64_le (f64_mul (f64_of_int (uint (DPoS_GetTotalStake (ad_dpos ad)))) majorityFraction) (f64_of_int (uint yesStake))
      then Passed else Rejected)"

definition Governance_finalizeProposal :: "(hash32 \<Rightarrow> hash32 list) \<Rightarrow> Adapter \<Rightarrow> hash32 \<Rightarrow> Governance \<Rightarrow> Governance" where
  "Governance_finalizeProposal voters ad i g =
     set_status i (finalize_status (voters i) ad (the (gv_proposals g i))) g"

fun process_proposals :: "int \<Rightarrow> (hash32 \<Rightarrow> hash32 list) \<Rightarrow> Adapter \<Rightarrow> hash32 list \<Rightarrow> Governance \<Rightarrow> Governance" where
  "process_proposals now voters ad [] g = g"
| "process_proposals now voters ad (i # is) g =
     process_proposals now voters ad is
       (let prop = the (gv_proposals g i) in
        case p_Status prop of
          Pending \<Rightarrow> if now > p_StartTime prop then set_status i Active g else g
        | Active \<Rightarrow> if now > p_EndTime prop then Governance_finalizeProposal voters ad i g else g
        | _ \<Rightarrow> g)"

definition Governance_ProcessProposals ::
    "int \<Rightarrow> hash32 list \<Rightarrow> (hash32 \<Rightarrow> hash32 list) \<Rightarrow> Adapter \<Rightarrow> Governance \<Rightarrow> Governance" where
  "Governance_ProcessProposals now order voters ad g = process_proposals now voters ad order g"

text \<open>One tick of \<open>Run\<close>. In test mode the active proposals with votes are finalized at once; if there was one, every
  passed proposal is executed and marked as executed, whatever the execution returns.\<close>

fun force_finalize :: "(hash32 \<Rightarrow> hash32 list) \<Rightarrow> Adapter \<Rightarrow> hash32 list \<Rightarrow> Governance \<Rightarrow> bool \<times> Governance" where
  "force_finalize voters ad [] g = (False, g)"
| "force_finalize voters ad (i # is) g =
     (let prop = the (gv_proposals g i) in
      if p_Status prop = Active \<and> p_Votes prop \<noteq> Map.empty
      then (True, snd (force_finalize voters ad is (Governance_finalizeProposal voters ad i g)))
      else force_finalize voters ad is g)"

fun force_execute :: "GovEnv \<Rightarrow> hash32 list \<Rightarrow> Governance \<times> Adapter \<Rightarrow> (Governance \<times> Adapter) option" where
  "force_execute env [] st = Some st"
| "force_execute env (i # is) (g, ad) =
     (let prop = the (gv_proposals g i) in
      if p_Status prop \<noteq> Passed then force_execute env is (g, ad)
      else (case Governance_executeProposal env prop ad of
              None \<Rightarrow> None
            | Some (err, ad1) \<Rightarrow> force_execute env is (set_status i Executed g, ad1)))"

record TickOrders =
  to_process :: "hash32 list"
  to_finalize :: "hash32 list"
  to_execute :: "hash32 list"
  to_voters1 :: "hash32 \<Rightarrow> hash32 list"
  to_voters2 :: "hash32 \<Rightarrow> hash32 list"

definition Governance_Run ::
    "GovEnv \<Rightarrow> bool \<Rightarrow> int \<Rightarrow> TickOrders \<Rightarrow> Governance \<times> Adapter \<Rightarrow> (Governance \<times> Adapter) option" where
  "Governance_Run env isTestMode now to = (\<lambda>(g, ad).
     let g1 = Governance_ProcessProposals now (to_process to) (to_voters1 to) ad g in
     if \<not> isTestMode then Some (g1, ad)
     else (case force_finalize (to_voters2 to) ad (to_finalize to) g1 of
             (any, g2) \<Rightarrow> if any then force_execute env (to_execute to) (g2, ad) else Some (g2, ad)))"

section \<open>Queries and housekeeping\<close>

definition Governance_GetProposal :: "hash32 \<Rightarrow> Governance \<Rightarrow> gov_error + Proposal" where
  "Governance_GetProposal proposalID g =
     (case gv_proposals g proposalID of None \<Rightarrow> Inl (GovErrNew ''proposal not found'') | Some prop \<Rightarrow> Inr prop)"

definition Governance_GetProposalStats :: "hash32 list \<Rightarrow> Governance \<Rightarrow> (string \<times> int) list" where
  "Governance_GetProposalStats order g =
     fold (\<lambda>i stats. let k = ProposalStatus_String (p_Status (the (gv_proposals g i))) in
             AList.update k ((case map_of stats k of None \<Rightarrow> 0 | Some n \<Rightarrow> n) + 1) stats) order []"

definition Governance_GetVotingResults ::
    "hash32 list \<Rightarrow> Adapter \<Rightarrow> hash32 \<Rightarrow> Governance \<Rightarrow> gov_error + (string \<times> uint64) list" where
  "Governance_GetVotingResults voters ad proposalID g =
     (case gv_proposals g proposalID of
        None \<Rightarrow> Inl (GovErrNew ''proposal not found'')
      | Some prop \<Rightarrow>
          let (yes, no) = tally (ad_dpos ad) (p_Votes prop) voters (0, 0)
          in Inr [(''yes'', yes), (''no'', no), (''total'', DPoS_GetTotalStake (ad_dpos ad))])"

definition Governance_ChangeVotingDuration :: "duration \<Rightarrow> Governance \<Rightarrow> gov_error option \<times> Governance" where
  "Governance_ChangeVotingDuration newDuration g =
     (if newDuration < 30 * minute \<or> newDuration \<ge> 7 * 24 * hour
      then (Some (GovErrNew ''invalid voting duration (must be between 30 minutes and < 1 week)''), g)
      else (None, g\<lparr>gv_votingDuration := newDuration\<rparr>))"

definition Governance_GetActiveProposals :: "hash32 list \<Rightarrow> Governance \<Rightarrow> Proposal list" where
  "Governance_GetActiveProposals order g = filter (\<lambda>p. p_Status p = Active) (map (\<lambda>i. the (gv_proposals g i)) order)"

definition Governance_HasVoted :: "hash32 \<Rightarrow> hash32 \<Rightarrow> Governance \<Rightarrow> gov_error + bool \<times> bool" where
  "Governance_HasVoted proposalID validatorID g =
     (case gv_proposals g proposalID of
        None \<Rightarrow> Inl (GovErrNew ''proposal not found'')
      | Some prop \<Rightarrow> Inr (case p_Votes prop validatorID of None \<Rightarrow> (False, False) | Some vote \<Rightarrow> (True, vote)))"

definition Governance_GetVoterCount :: "hash32 \<Rightarrow> Governance \<Rightarrow> gov_error + nat" where
  "Governance_GetVoterCount proposalID g =
     (case gv_proposals g proposalID of
        None \<Rightarrow> Inl (GovErrNew ''proposal not found'')
      | Some prop \<Rightarrow> Inr (card (dom (p_Votes prop))))"

fun cleanup_loop :: "int \<Rightarrow> hash32 list \<Rightarrow> Governance \<Rightarrow> int \<Rightarrow> int \<times> Governance" where
  "cleanup_loop now [] g removed = (removed, g)"
| "cleanup_loop now (i # is) g removed =
     (let prop = the (gv_proposals g i) in
      if (p_Status prop = Rejected \<or> p_Status prop = Executed) \<and> now - p_EndTime prop \<ge> minute
      then cleanup_loop now is (g\<lparr>gv_proposals := (gv_proposals g)(i := None)\<rparr>) (removed + 1)
      else cleanup_loop now is g removed)"

definition Governance_CleanupOldProposals :: "int \<Rightarrow> hash32 list \<Rightarrow> duration \<Rightarrow> Governance \<Rightarrow> int \<times> Governance" where
  "Governance_CleanupOldProposals now order age g = (if age < minute then (0, g) else cleanup_loop now order g 0)"

section \<open>The life of a proposal\<close>

text \<open>\<open>Pending \<rightarrow> Active \<rightarrow> Passed \<rightarrow> Executed\<close>, or \<open>Active \<rightarrow> Rejected\<close>.\<close>

inductive lifecycle :: "ProposalStatus \<Rightarrow> ProposalStatus \<Rightarrow> bool" where
  activate: "lifecycle Pending Active"
| pass: "lifecycle Active Passed"
| reject: "lifecycle Active Rejected"
| execute: "lifecycle Passed Executed"

inductive_cases lifecycle_Rejected: "lifecycle Rejected s"
inductive_cases lifecycle_Executed: "lifecycle Executed s"

text \<open>Only the status changes, along the life cycle.\<close>

definition evolves :: "Proposal \<Rightarrow> Proposal \<Rightarrow> bool" where
  "evolves p p' \<longleftrightarrow> p' = p\<lparr>p_Status := p_Status p'\<rparr> \<and> lifecycle\<^sup>*\<^sup>* (p_Status p) (p_Status p')"

definition all_evolve :: "Governance \<Rightarrow> Governance \<Rightarrow> bool" where
  "all_evolve g g' \<longleftrightarrow> (\<forall>i. rel_option evolves (gv_proposals g i) (gv_proposals g' i)) \<and>
     gv_superValidators g' = gv_superValidators g \<and> gv_votingDuration g' = gv_votingDuration g"

lemma evolves_refl [simp]: "evolves p p"
  by (simp add: evolves_def)

lemma evolves_trans: "evolves p q \<Longrightarrow> evolves q r \<Longrightarrow> evolves p r"
  unfolding evolves_def by (metis (no_types, lifting) Proposal.surjective Proposal.update_convs(6) rtranclp_trans)

lemma rel_option_evolves_trans: "rel_option evolves a b \<Longrightarrow> rel_option evolves b c \<Longrightarrow> rel_option evolves a c"
  by (cases a; cases b; cases c) (auto intro: evolves_trans)

lemma all_evolve_refl [simp]: "all_evolve g g"
  by (simp add: all_evolve_def option.rel_refl)

lemma all_evolve_trans: "all_evolve g g1 \<Longrightarrow> all_evolve g1 g2 \<Longrightarrow> all_evolve g g2"
proof -
  assume 1: "all_evolve g g1" and 2: "all_evolve g1 g2"
  have "rel_option evolves (gv_proposals g i) (gv_proposals g2 i)" for i
    using 1 2 rel_option_evolves_trans [of "gv_proposals g i" "gv_proposals g1 i"] by (simp add: all_evolve_def)
  then show ?thesis using 1 2 by (simp add: all_evolve_def)
qed

lemma set_status_evolve:
  assumes "\<And>p. gv_proposals g i = Some p \<Longrightarrow> lifecycle (p_Status p) s"
  shows "all_evolve g (set_status i s g)"
  using assms
  by (auto simp: all_evolve_def set_status_def map_modify_apply option.rel_sel evolves_def option.map_sel)

lemma finalize_status_cases: "finalize_status voters ad p = Passed \<or> finalize_status voters ad p = Rejected"
  by (simp add: finalize_status_def split: prod.splits)

lemma finalizeProposal_evolve:
  assumes "\<And>p. gv_proposals g i = Some p \<Longrightarrow> p_Status p = Active"
  shows "all_evolve g (Governance_finalizeProposal voters ad i g)"
  unfolding Governance_finalizeProposal_def using assms finalize_status_cases
  by (intro set_status_evolve) (metis lifecycle.pass lifecycle.reject)

lemma process_proposals_evolve: "all_evolve g (process_proposals now voters ad order g)"
proof (induction order arbitrary: g)
  case (Cons i ids)
  let ?g1 = "let prop = the (gv_proposals g i) in
        case p_Status prop of
          Pending \<Rightarrow> if now > p_StartTime prop then set_status i Active g else g
        | Active \<Rightarrow> if now > p_EndTime prop then Governance_finalizeProposal voters ad i g else g
        | _ \<Rightarrow> g"
  have "all_evolve g ?g1"
    by (cases "p_Status (the (gv_proposals g i))")
       (auto simp: Let_def intro!: set_status_evolve finalizeProposal_evolve lifecycle.activate)
  then show ?case using Cons.IH [of ?g1] by (auto intro: all_evolve_trans)
qed simp

lemma execute_loop_evolve: "execute_loop env order (g, ad) = Some (errs, g', ad') \<Longrightarrow> all_evolve g g'"
proof (induction order arbitrary: g ad errs)
  case (Cons i ids)
  have "all_evolve g (set_status i Executed g)" if "p_Status (the (gv_proposals g i)) = Passed"
    using that by (intro set_status_evolve) (simp add: lifecycle.execute)
  then show ?case
    using Cons.prems by (auto simp: Let_def split: if_splits option.splits prod.splits dest!: Cons.IH intro: all_evolve_trans)
qed simp

lemma force_finalize_evolve: "all_evolve g (snd (force_finalize voters ad order g))"
proof (induction order arbitrary: g)
  case (Cons i ids)
  have "all_evolve g (Governance_finalizeProposal voters ad i g)" if "p_Status (the (gv_proposals g i)) = Active"
    using that by (intro finalizeProposal_evolve) simp
  then show ?case using Cons.IH by (auto simp: Let_def intro: all_evolve_trans)
qed simp

lemma force_execute_evolve: "force_execute env order (g, ad) = Some (g', ad') \<Longrightarrow> all_evolve g g'"
proof (induction order arbitrary: g ad)
  case (Cons i ids)
  have "all_evolve g (set_status i Executed g)" if "p_Status (the (gv_proposals g i)) = Passed"
    using that by (intro set_status_evolve) (simp add: lifecycle.execute)
  then show ?case
    using Cons.prems by (auto simp: Let_def split: if_splits option.splits prod.splits dest!: Cons.IH intro: all_evolve_trans)
qed simp

lemma Run_evolve: "Governance_Run env test now to (g, ad) = Some (g', ad') \<Longrightarrow> all_evolve g g'"
  using process_proposals_evolve [of g now "to_voters1 to" ad "to_process to"]
  by (auto simp: Governance_Run_def Governance_ProcessProposals_def Let_def split: if_splits prod.splits
      dest!: force_execute_evolve intro: all_evolve_trans)
     (metis all_evolve_trans force_finalize_evolve snd_conv)+

lemma ExecuteProposal_evolve: "Governance_ExecuteProposal env i (g, ad) = Some (e, g', ad') \<Longrightarrow> all_evolve g g'"
  by (auto simp: Governance_ExecuteProposal_def lifecycle.execute split: option.splits if_splits prod.splits intro!: set_status_evolve)

lemma cleanup_loop_None: "gv_proposals g i = None \<Longrightarrow> gv_proposals (snd (cleanup_loop now order g n)) i = None"
  by (induction now order g n rule: cleanup_loop.induct) (auto simp: Let_def)

lemma cleanup_loop_deletes:
  "gv_proposals g i = Some p \<Longrightarrow> gv_proposals (snd (cleanup_loop now order g n)) i = Some p \<or>
     gv_proposals (snd (cleanup_loop now order g n)) i = None \<and>
     (p_Status p = Rejected \<or> p_Status p = Executed) \<and> now - p_EndTime p \<ge> minute"
proof (induction now order g n rule: cleanup_loop.induct)
  case (2 now j js g removed)
  then show ?case by (cases "i = j") (auto simp: Let_def cleanup_loop_None)
qed simp

text \<open>Every operation of governance is a step; between two of them anything may happen to the consensus.\<close>

inductive gov_step :: "GovEnv \<Rightarrow> Governance \<times> Adapter \<Rightarrow> Governance \<times> Adapter \<Rightarrow> bool" for env where
  consensus: "gov_step env (g, ad) (g, ad')"
| create: "gov_step env (g, ad) (snd (Governance_CreateProposal now ty desc data c g), ad)"
| cancel: "gov_step env (g, ad) (snd (Governance_CancelProposal i c g), ad)"
| vote: "gov_step env (g, ad) (snd (Governance_Vote now ad i v b g), ad)"
| execute: "Governance_ExecuteProposal env i (g, ad) = Some (e, g', ad') \<Longrightarrow> gov_step env (g, ad) (g', ad')"
| execute_passed: "Governance_ExecutePassedProposals env order (g, ad) = Some (errs, g', ad') \<Longrightarrow> gov_step env (g, ad) (g', ad')"
| process: "gov_step env (g, ad) (Governance_ProcessProposals now order voters ad g, ad)"
| tick: "Governance_Run env test now to (g, ad) = Some (g', ad') \<Longrightarrow> gov_step env (g, ad) (g', ad')"
| add_super: "gov_step env (g, ad) (Governance_AddSuperValidator v g, ad)"
| remove_super: "gov_step env (g, ad) (Governance_RemoveSuperValidator v g, ad)"
| duration: "gov_step env (g, ad) (snd (Governance_ChangeVotingDuration dur g), ad)"
| cleanup: "gov_step env (g, ad) (snd (Governance_CleanupOldProposals now order age g), ad)"

text \<open>What one step may do to an entry of the proposals. A proposal is fresh when it is as \<open>CreateProposal\<close> makes it: it is
  pending, nobody has voted, its ID is the hash of its own start time, description, data and creator, and it ends one
  voting duration after its start.\<close>

definition fresh_proposal :: "Governance \<Rightarrow> hash32 \<Rightarrow> Proposal \<Rightarrow> bool" where
  "fresh_proposal g i p \<longleftrightarrow>
     p_Status p = Pending \<and> p_Votes p = Map.empty \<and> p_EndTime p = p_StartTime p + gv_votingDuration g \<and>
     p_ID p = i \<and> i = proposal_id (p_StartTime p) (p_Description p) (p_Data p) (p_Creator p)"

definition entry_step :: "Governance \<Rightarrow> hash32 \<Rightarrow> Adapter \<Rightarrow> Proposal option \<Rightarrow> Proposal option \<Rightarrow> bool" where
  "entry_step g i ad e e' \<longleftrightarrow>
     (case (e, e') of
        (None, None) \<Rightarrow> True
      | (None, Some p') \<Rightarrow> fresh_proposal g i p'
      | (Some p, None) \<Rightarrow> p_Status p \<noteq> Passed
      | (Some p, Some p') \<Rightarrow> evolves p p' \<or> fresh_proposal g i p' \<or>
          p_Status p = Active \<and> (\<exists>v b. DPoS_IsActiveValidator v (ad_dpos ad) \<and> p' = p\<lparr>p_Votes := (p_Votes p)(v \<mapsto> b)\<rparr>))"

lemma entry_step_refl [simp]: "entry_step g i ad e e"
  by (simp add: entry_step_def split: option.splits)

lemma entry_step_new: "fresh_proposal g i p \<Longrightarrow> entry_step g i ad e (Some p)"
  by (simp add: entry_step_def split: option.split)

lemma entry_step_evolve: "all_evolve g g' \<Longrightarrow> entry_step g i ad (gv_proposals g i) (gv_proposals g' i)"
  by (auto simp: entry_step_def all_evolve_def option.rel_sel split: option.splits)

lemma entry_step_cancel: "p_Status p \<noteq> Passed \<Longrightarrow> entry_step g i ad (Some p) None"
  by (simp add: entry_step_def)

lemma entry_step_vote:
  "p_Status p = Active \<Longrightarrow> DPoS_IsActiveValidator v (ad_dpos ad) \<Longrightarrow> entry_step g i ad (Some p) (Some (p\<lparr>p_Votes := (p_Votes p)(v \<mapsto> b)\<rparr>))"
  by (auto simp: entry_step_def)

lemma CreateProposal_entry:
  "entry_step g i ad (gv_proposals g i) (gv_proposals (snd (Governance_CreateProposal now ty desc data c g)) i)"
  by (auto simp: Governance_CreateProposal_def Let_def fresh_proposal_def intro!: entry_step_new)

lemma CancelProposal_entry: "entry_step g i ad (gv_proposals g i) (gv_proposals (snd (Governance_CancelProposal j c g)) i)"
  by (auto simp: Governance_CancelProposal_def entry_step_cancel split: option.split)

lemma Vote_entry: "entry_step g i ad (gv_proposals g i) (gv_proposals (snd (Governance_Vote now ad j v b g)) i)"
  by (auto simp: Governance_Vote_def entry_step_vote split: option.split)

lemma Cleanup_entry:
  "entry_step g i ad (gv_proposals g i) (gv_proposals (snd (Governance_CleanupOldProposals now order age g)) i)"
proof (cases "gv_proposals g i")
  case None
  then show ?thesis by (simp add: Governance_CleanupOldProposals_def cleanup_loop_None)
next
  case (Some p)
  from cleanup_loop_deletes [OF this, of now order 0] show ?thesis
    by (auto simp: Governance_CleanupOldProposals_def Some entry_step_cancel)
qed

lemma gov_step_entry:
  assumes "gov_step env (g, ad) (g', ad')"
  shows "entry_step g i ad (gv_proposals g i) (gv_proposals g' i)"
  using assms
  by cases
     (auto simp: CreateProposal_entry CancelProposal_entry Vote_entry Cleanup_entry Governance_ExecutePassedProposals_def
      Governance_ProcessProposals_def Governance_AddSuperValidator_def Governance_RemoveSuperValidator_def
      Governance_ChangeVotingDuration_def
      dest: ExecuteProposal_evolve execute_loop_evolve Run_evolve intro: entry_step_evolve process_proposals_evolve)

text \<open>C26: The life of a proposal. In one step of governance, of whatever kind, an entry of the proposals changes in one
  of these ways only. A proposal that has passed is not deleted. A proposal that stays keeps all its fields except that
  its status moves forward along \<open>Pending \<rightarrow> Active \<rightarrow> Passed \<rightarrow> Executed\<close> or \<open>Active \<rightarrow> Rejected\<close>, or that, while it is
  active, one vote of a validator active at that moment is entered. The one exception is a proposal that
  \<open>CreateProposal\<close> replaces, in whatever state it is, because a new one has the same ID: as the code does not look
  whether the ID is taken, this case is part of the step relation and of the conclusion. What \<open>CreateProposal\<close> stores,
  in an empty place or in a taken one, is pending, has no votes, ends one voting duration after its start, and is stored
  under the hash of its own start time, description, data and creator.\<close>

theorem proposal_lifecycle:
  assumes "gov_step env (g, ad) (g', ad')"
  shows "(case (gv_proposals g i, gv_proposals g' i) of
        (None, None) \<Rightarrow> True
      | (None, Some p') \<Rightarrow> fresh_proposal g i p'
      | (Some p, None) \<Rightarrow> p_Status p \<noteq> Passed
      | (Some p, Some p') \<Rightarrow> evolves p p' \<or> fresh_proposal g i p' \<or>
          p_Status p = Active \<and> (\<exists>v b. DPoS_IsActiveValidator v (ad_dpos ad) \<and> p' = p\<lparr>p_Votes := (p_Votes p)(v \<mapsto> b)\<rparr>))"
  using gov_step_entry [OF assms] by (simp only: entry_step_def)

definition gov_example_env :: GovEnv where
  "gov_example_env = \<lparr>ge_consensusChange = (\<lambda>_. None), ge_parameterChange = (\<lambda>_. None), ge_upgrade = (\<lambda>_. None),
     ge_conv = (\<lambda>_. 0), ge_sort = (\<lambda>d. sorted_list_of_set (dom (dp_validators d)))\<rparr>"

definition gov_example_ad :: Adapter where
  "gov_example_ad = \<lparr>ad_dpos = dpos_example, ad_lachesis = NewLachesis 100, ad_height = 5\<rparr>"

definition gov_example_prop :: "ProposalStatus \<Rightarrow> Proposal" where
  "gov_example_prop s = \<lparr>p_ID = 3, p_Type = 0, p_Description = ''d'', p_StartTime = 0, p_EndTime = 10, p_Status = s,
     p_Votes = [7 \<mapsto> True], p_Data = [], p_Creator = 7\<rparr>"

definition gov_example :: Governance where
  "gov_example = \<lparr>gv_proposals = [3 \<mapsto> gov_example_prop Active], gv_votingDuration = 10, gv_superValidators = {}\<rparr>"

theorem proposal_lifecycle_witness:
  "evolves (gov_example_prop Active)
     (the (gv_proposals (Governance_ProcessProposals 20 [3] (\<lambda>_. [7]) gov_example_ad gov_example) 3))"
proof -
  let ?g = "Governance_ProcessProposals 20 [3] (\<lambda>_. [7]) gov_example_ad gov_example"
  have p: "gv_proposals gov_example 3 = Some (gov_example_prop Active)" by (simp add: gov_example_def)
  have p': "\<exists>s. gv_proposals ?g 3 = Some (gov_example_prop s)"
    by (simp add: Governance_ProcessProposals_def Governance_finalizeProposal_def set_status_def map_modify_apply
        gov_example_def gov_example_prop_def Let_def)
  have "gov_step gov_example_env (gov_example, gov_example_ad) (?g, gov_example_ad)" by (rule gov_step.process)
  from proposal_lifecycle [OF this, of 3] p p' show ?thesis
    by (auto simp: gov_example_prop_def fresh_proposal_def fun_eq_iff split: if_splits)
qed

section \<open>What a majority is\<close>

lemma tally_sums:
  "tally d votes vids (y, n) =
     (y + (\<Sum>v\<leftarrow>filter (\<lambda>v. the (votes v)) vids. DPoS_GetValidatorStake v d),
      n + (\<Sum>v\<leftarrow>filter (\<lambda>v. \<not> the (votes v)) vids. DPoS_GetValidatorStake v d))"
  by (induction vids arbitrary: y n) (simp_all add: Let_def add.assoc)

definition yes_voters :: "DPoS \<Rightarrow> (hash32 \<rightharpoonup> bool) \<Rightarrow> hash32 set" where
  "yes_voters d votes = {v. votes v = Some True \<and> DPoS_IsActiveValidator v d}"

text \<open>Every active validator counts the same, whatever its stake: the total stake divided by the number of active
  validators.\<close>

lemma yes_stake:
  assumes ok: "active_ok d ids" and r: "range_order votes voters"
  shows "fst (tally d votes voters (0, 0)) =
    word_of_nat (card (yes_voters d votes)) * (dp_totalStake d div word_of_nat (length ids))"
proof -
  let ?q = "dp_totalStake d div word_of_nat (length ids)" and ?vs = "filter (\<lambda>v. the (votes v)) voters"
  have act: "set ids = {i. DPoS_IsActiveValidator i d}" using ok by (rule active_ids)
  have st: "DPoS_GetValidatorStake v d = (if DPoS_IsActiveValidator v d then ?q else 0)" for v
    using ok act by (auto simp: DPoS_GetValidatorStake_def DPoS_IsActiveValidator_def active_ok_def split: option.splits)
  have yes: "{v \<in> set ?vs. DPoS_IsActiveValidator v d} = yes_voters d votes"
    using r by (auto simp: yes_voters_def range_order_def dom_def)
  have "(\<Sum>v\<leftarrow>?vs. DPoS_GetValidatorStake v d) = (\<Sum>v\<in>set ?vs. if DPoS_IsActiveValidator v d then ?q else 0)"
    using r unfolding st by (intro sum_list_distinct_conv_sum_set) (simp add: range_order_def)
  also have "\<dots> = (\<Sum>v\<in>yes_voters d votes. ?q)" unfolding yes [symmetric]
    by (rule sum.inter_filter [symmetric]) simp
  finally show ?thesis by (simp add: tally_sums)
qed

lemma f64_of_uint: "unat (w :: uint64) \<le> 2 ^ 53 \<Longrightarrow> f64_of_int (uint w) = Fin (of_nat (unat w))"
proof -
  assume "unat w \<le> 2 ^ 53"
  then have "int (unat w) \<le> int (2 ^ 53)" by (simp only: of_nat_le_iff)
  then show ?thesis using f64_of_int_exact [of "uint w"] by simp
qed

lemma five_eighths_le:
  assumes "n * 8 \<le> 2 ^ 53" and "5 / 8 \<le> t" and "f64_le (rnd (of_nat n * t)) (Fin (of_nat m))"
  shows "5 * n \<le> 8 * m"
proof -
  have "rnd (of_nat n * (5 / 8)) = Fin (of_nat n * (5 / 8))"
    using rnd_exact [of "int (5 * n)" "-3"] assms(1) by (simp add: pow2_def mult.commute)
  moreover have "f64_le (rnd (of_nat n * (5 / 8))) (rnd (of_nat n * t))"
    using assms(2) by (intro rnd_mono mult_left_mono) simp_all
  ultimately have "f64_le (Fin (of_nat n * (5 / 8))) (Fin (of_nat m))" using f64_le_trans [OF _ assms(3)] by (simp only:)
  then have "of_nat (5 * n) \<le> (of_nat (8 * m) :: rat)" by simp
  then show ?thesis by (simp only: of_nat_le_iff)
qed

lemma unat_yes_stake:
  assumes ok: "active_ok d ids" and r: "range_order votes voters" and n: "length ids < 2 ^ 64"
  shows "unat (fst (tally d votes voters (0, 0))) = card (yes_voters d votes) * (unat (dp_totalStake d) div length ids)"
    and "card (yes_voters d votes) \<le> length ids"
proof -
  have "yes_voters d votes \<subseteq> set ids" using active_ids [OF ok] by (auto simp: yes_voters_def)
  then show k: "card (yes_voters d votes) \<le> length ids"
    using ok card_mono [of "set ids" "yes_voters d votes"] by (simp add: active_ok_def distinct_card)
  let ?k = "card (yes_voters d votes)" and ?T = "unat (dp_totalStake d)"
  have u: "unat (word_of_nat m :: uint64) = m" if "m < 2 ^ 64" for m
    using that by (simp add: unsigned_of_nat take_bit_nat_eq_self)
  have "?k * (?T div length ids) \<le> length ids * (?T div length ids)" using k by (rule mult_le_mono1)
  also have "\<dots> \<le> ?T" by simp
  also have "\<dots> < 2 ^ 64" using unsigned_less [of "dp_totalStake d"] by simp
  finally show "unat (fst (tally d votes voters (0, 0))) = ?k * (?T div length ids)"
    unfolding yes_stake [OF ok r] using u [OF n] u [of ?k] k n by (simp add: unat_mult_lem [THEN iffD1] unat_div)
qed

text \<open>A proposal passes only with the votes of at least five eighths of the validators that are active when it is
  finalized, however the stake is spread among them (if there is stake at all, and less than 2^50 of it, so that
  the comparison in floating point is exact).\<close>

theorem majority_is_headcount:
  assumes d: "dpos_reachable (ad_dpos ad)" and r: "range_order (p_Votes prop) voters"
    and T: "0 < dp_totalStake (ad_dpos ad)" "unat (dp_totalStake (ad_dpos ad)) * 8 \<le> 2 ^ 53"
    and n: "card {v. DPoS_IsActiveValidator v (ad_dpos ad)} < 2 ^ 64"
    and p: "finalize_status voters ad prop = Passed"
  shows "5 * card {v. DPoS_IsActiveValidator v (ad_dpos ad)} \<le>
    8 * card {v. p_Votes prop v = Some True \<and> DPoS_IsActiveValidator v (ad_dpos ad)}"
proof -
  let ?d = "ad_dpos ad" and ?T = "unat (dp_totalStake (ad_dpos ad))"
  obtain ids where ok: "active_ok ?d ids" using reachable_inv [OF d] by (auto simp: dpos_inv_def)
  have ids: "card {v. DPoS_IsActiveValidator v ?d} = length ids"
    using ok by (simp add: active_ids [OF ok, symmetric] active_ok_def distinct_card)
  let ?k = "card (yes_voters ?d (p_Votes prop))" and ?q = "?T div length ids"
  have y: "unat (fst (tally ?d (p_Votes prop) voters (0, 0))) = ?k * ?q" "?k \<le> length ids"
    using unat_yes_stake [OF ok r] n by (simp_all add: ids)
  have kq: "?k * ?q \<le> ?T" using mult_le_mono1 [OF y(2), of ?q] by (rule order.trans) simp
  obtain t where t: "majorityFraction = Fin t" "5 / 8 \<le> t"
    using default_threshold by (auto simp: NewVirtualVoting_def majorityFraction_def)
  have "f64_of_int (uint (dp_totalStake ?d)) = Fin (of_nat ?T)" using T(2) by (intro f64_of_uint) simp
  then have "f64_le (rnd (of_nat ?T * t)) (f64_of_int (uint (fst (tally ?d (p_Votes prop) voters (0, 0)))))"
    using p by (simp add: t(1) finalize_status_def Let_def DPoS_GetTotalStake_def split: prod.splits if_splits)
  then have le: "f64_le (rnd (of_nat ?T * t)) (Fin (of_nat (?k * ?q)))"
    using f64_of_int_exact [of "int (?k * ?q)"] kq T(2) unfolding uint_nat y(1) by (simp del: of_nat_mult)
  have main: "5 * ?T \<le> 8 * (?k * ?q)" by (rule five_eighths_le [OF T(2) t(2) le])
  have "0 < ?T" using T(1) by (simp add: word_less_nat_alt)
  with main have q: "0 < ?q" by (metis gr0I leD mult_0_right mult_pos_pos zero_less_numeral)
  have "5 * (length ids * ?q) \<le> 5 * ?T" by simp
  with main have "(5 * length ids) * ?q \<le> (8 * ?k) * ?q" by (simp only: mult.assoc)
  then show ?thesis using q unfolding ids yes_voters_def by simp
qed

text \<open>With no stake at all a proposal passes without a single vote.\<close>

theorem no_stake_passes: "dp_totalStake (ad_dpos ad) = 0 \<Longrightarrow> p_Votes prop = Map.empty \<Longrightarrow> finalize_status [] ad prop = Passed"
  using default_threshold
  by (auto simp: finalize_status_def DPoS_GetTotalStake_def f64_of_int_def majorityFraction_def NewVirtualVoting_def)

lemma gov_example_dpos:
  "{v. DPoS_IsActiveValidator v dpos_example} = {7}" "dp_totalStake dpos_example = 50"
  by (auto simp: dpos_example_def DPoS_IsActiveValidator_def v_example_def split: if_splits)

lemma gov_example_passed: "finalize_status [7] gov_example_ad (gov_example_prop Active) = Passed"
proof -
  obtain t where t: "majorityFraction = Fin t" "t \<le> 1"
    using default_threshold by (auto simp: NewVirtualVoting_def majorityFraction_def)
  have "f64_le (rnd (50 * t)) (rnd (of_int 50))" using t(2) by (intro rnd_mono) simp
  then have "f64_le (rnd (50 * t)) (Fin 50)" using rnd_int [of 50] by simp
  moreover have "f64_of_int 50 = Fin 50" using f64_of_int_exact [of 50] by simp
  moreover have "DPoS_GetValidatorStake 7 dpos_example = 50"
    by (simp add: DPoS_GetValidatorStake_def dpos_example_def v_example_def)
  ultimately show ?thesis
    by (simp add: finalize_status_def t(1) gov_example_ad_def gov_example_prop_def DPoS_GetTotalStake_def gov_example_dpos Let_def)
qed

theorem majority_is_headcount_witness:
  "5 * card {v. DPoS_IsActiveValidator v dpos_example} \<le>
   8 * card {v. [7 \<mapsto> True] v = Some True \<and> DPoS_IsActiveValidator v dpos_example}"
proof -
  have ad: "ad_dpos gov_example_ad = dpos_example" "p_Votes (gov_example_prop Active) = [7 \<mapsto> True]"
    by (simp_all add: gov_example_ad_def gov_example_prop_def)
  show ?thesis
    using majority_is_headcount [OF _ _ _ _ _ gov_example_passed] dpos_example_reachable
    unfolding ad by (simp add: gov_example_dpos range_order_def)
qed

section \<open>Executing proposals\<close>

text \<open>The stake module is in a state its operations reach, and the event module and its voting share one valid
  threshold.\<close>

definition consensus_sound :: "Adapter \<Rightarrow> bool" where
  "consensus_sound ad \<longleftrightarrow> dpos_reachable (ad_dpos ad) \<and>
     l_votingThreshold (ad_lachesis ad) = vv_threshold (l_VirtualVoting (ad_lachesis ad)) \<and>
     f64_lt f64_0 (l_votingThreshold (ad_lachesis ad)) \<and> f64_le (l_votingThreshold (ad_lachesis ad)) f64_1"

lemma SetVotingThreshold_sound:
  assumes "f64_lt f64_0 t" and "f64_le t f64_1"
  shows "l_votingThreshold (Lachesis_SetVotingThreshold t l) = t" "vv_threshold (l_VirtualVoting (Lachesis_SetVotingThreshold t l)) = t"
proof -
  have "\<not> f64_le t f64_0" "\<not> f64_lt f64_1 t" using assms f64_not_lt [of f64_0 t] f64_not_lt [of f64_1 t]
    by (cases t; auto simp: f64_le_def)+
  then show "l_votingThreshold (Lachesis_SetVotingThreshold t l) = t" "vv_threshold (l_VirtualVoting (Lachesis_SetVotingThreshold t l)) = t"
    by (simp_all add: Lachesis_SetVotingThreshold_def VirtualVoting_SetThreshold_def)
qed

lemma SetSetSize_reachable:
  assumes "dpos_reachable d" and "range_order (dp_validators d) srt" and "0 < n"
  shows "\<exists>d'. DPoS_SetSetSize srt n d = Some d' \<and> dpos_reachable d'"
proof -
  have "DPoS_SetSetSize srt n d \<noteq> None"
    using assms(3) by (simp add: DPoS_SetSetSize_def DPoS_updateActiveValidators_def Let_def)
  then show ?thesis using dpos_reachable.step [OF assms(1) dpos_step.set_size [OF assms(2)]] by blast
qed

lemma executeProposal_sound:
  assumes ad: "consensus_sound ad" and srt: "\<And>d. dpos_reachable d \<Longrightarrow> range_order (dp_validators d) (ge_sort env d)"
  shows "\<exists>e ad'. Governance_executeProposal env p ad = Some (e, ad') \<and> consensus_sound ad'"
proof -
  have d: "dpos_reachable (ad_dpos ad)" using ad by (simp add: consensus_sound_def)
  have l1: "consensus_sound (ad\<lparr>ad_lachesis := if 0 < x then Lachesis_SetGossipDelay c x (ad_lachesis ad) else ad_lachesis ad\<rparr>)" for x c
    using ad by (auto simp: consensus_sound_def Lachesis_SetGossipDelay_def)
  have l2: "consensus_sound (ad\<lparr>ad_lachesis := if f64_lt f64_0 t \<and> f64_le t f64_1 then Lachesis_SetVotingThreshold t l else l\<rparr>)"
    if "consensus_sound (ad\<lparr>ad_lachesis := l\<rparr>)" for t l
    using that SetVotingThreshold_sound by (auto simp: consensus_sound_def)
  have d2: "consensus_sound (ad\<lparr>ad_lachesis := l, ad_dpos := d'\<rparr>)"
    if "consensus_sound (ad\<lparr>ad_lachesis := l\<rparr>)" "dpos_reachable d'" for l d'
    using that by (auto simp: consensus_sound_def)
  have "\<exists>e ad'. Governance_executeConsensusChange env p ad = Some (e, ad') \<and> consensus_sound ad'"
  proof (cases "ge_consensusChange env (p_Data p)")
    case (Some c)
    note l = l2 [OF l1 [of "ccd_NewGossipDelay c" "ge_conv env"], of "ccd_NewVotingThreshold c"]
    show ?thesis
    proof (cases "ccd_NewMaxSetSize c > 0")
      case True
      from SetSetSize_reachable [OF d srt [OF d] True] obtain d'
        where d': "DPoS_SetSetSize (ge_sort env (ad_dpos ad)) (ccd_NewMaxSetSize c) (ad_dpos ad) = Some d'" "dpos_reachable d'" by blast
      show ?thesis using True d2 [OF l d'(2)] by (simp add: Governance_executeConsensusChange_def Some Let_def d'(1))
    qed (use l in \<open>simp add: Governance_executeConsensusChange_def Some Let_def\<close>)
  qed (use ad in \<open>simp add: Governance_executeConsensusChange_def\<close>)
  moreover have "consensus_sound (snd (Governance_executeParameterChange env p ad))"
    using ad dpos_reachable.step [OF d dpos_step.set_epoch]
    by (auto simp: Governance_executeParameterChange_def consensus_sound_def split: option.splits)
  moreover have "consensus_sound (snd (Governance_executeUpgradeProposal env p ad))"
    using ad by (auto simp: Governance_executeUpgradeProposal_def HybridConsensus_ScheduleUpgrade_def split: option.splits)
  ultimately show ?thesis using ad by (auto simp: Governance_executeProposal_def prod_eq_iff)
qed

lemma execute_loop_sound:
  assumes "consensus_sound ad" and srt: "\<And>d. dpos_reachable d \<Longrightarrow> range_order (dp_validators d) (ge_sort env d)"
    and "set order \<subseteq> dom (gv_proposals g)" and "distinct order"
  shows "\<exists>errs g' ad'. execute_loop env order (g, ad) = Some (errs, g', ad') \<and> consensus_sound ad' \<and>
    (\<forall>j. j \<notin> set order \<longrightarrow> gv_proposals g' j = gv_proposals g j) \<and>
    length errs = card {i \<in> set order. p_Status (the (gv_proposals g i)) = Passed \<and> p_Status (the (gv_proposals g' i)) = Passed}"
  using assms(1,3,4)
proof (induction order arbitrary: g ad)
  case (Cons i ids)
  let ?p = "the (gv_proposals g i)"
  let ?still = "\<lambda>g g' A. {i \<in> A. p_Status (the (gv_proposals g i)) = Passed \<and> p_Status (the (gv_proposals g' i)) = Passed}"
  have i: "i \<notin> set ids" "gv_proposals g i = Some ?p" using Cons.prems by auto
  show ?case
  proof (cases "p_Status ?p = Passed")
    case False
    then have eq: "?still g g' (set (i # ids)) = ?still g g' (set ids)" for g' by auto
    obtain errs g' ad' where "execute_loop env ids (g, ad) = Some (errs, g', ad')" "consensus_sound ad'"
      "\<forall>j. j \<notin> set ids \<longrightarrow> gv_proposals g' j = gv_proposals g j" "length errs = card (?still g g' (set ids))"
      using Cons.IH [of ad g] Cons.prems by auto
    then show ?thesis unfolding eq using False by (simp add: Let_def)
  next
    case True
    obtain e ad1 where ex: "Governance_executeProposal env ?p ad = Some (e, ad1)" "consensus_sound ad1"
      using executeProposal_sound [OF Cons.prems(1) srt] by blast
    define g1 where "g1 = (if e = None then set_status i Executed g else g)"
    have g1: "gv_proposals g1 j = gv_proposals g j" if "j \<noteq> i" for j
      using that by (simp add: g1_def set_status_def map_modify_apply)
    obtain p where p: "gv_proposals g i = Some p" using i(2) by blast
    then have g1i: "p_Status (the (gv_proposals g1 i)) = Passed \<longleftrightarrow> e \<noteq> None"
      using True by (auto simp: g1_def set_status_def map_modify_apply)
    have "set ids \<subseteq> dom (gv_proposals g1)" using Cons.prems(2) i(1) g1 by (force simp: dom_def)
    then obtain errs g' ad' where IH: "execute_loop env ids (g1, ad1) = Some (errs, g', ad')" "consensus_sound ad'"
      "\<forall>j. j \<notin> set ids \<longrightarrow> gv_proposals g' j = gv_proposals g1 j" "length errs = card (?still g1 g' (set ids))"
      using Cons.IH [OF ex(2), of g1] Cons.prems(3) by auto
    have same: "?still g1 g' (set ids) = ?still g g' (set ids)" using g1 i(1) by (metis (lifting))
    have "gv_proposals g' i = gv_proposals g1 i" using IH(3) i(1) by blast
    then have "?still g g' (set (i # ids)) = (if e = None then {} else {i}) \<union> ?still g g' (set ids)"
      using True g1i by auto
    then have "card (?still g g' (set (i # ids))) = (if e = None then 0 else 1) + length errs"
      using IH(4) i(1) unfolding same by (simp add: card_insert_if)
    moreover have "execute_loop env (i # ids) (g, ad) = Some ((case e of None \<Rightarrow> [] | Some e' \<Rightarrow> [e']) @ errs, g', ad')"
      using True ex(1) IH(1) by (cases e) (simp_all add: Let_def g1_def)
    moreover have "\<forall>j. j \<notin> set (i # ids) \<longrightarrow> gv_proposals g' j = gv_proposals g j" using IH(3) g1 by simp
    ultimately show ?thesis using IH(2)
      by (intro exI [of _ "(case e of None \<Rightarrow> [] | Some e' \<Rightarrow> [e']) @ errs"] exI [of _ g'] exI [of _ ad'])
         (simp split: option.split)
  qed
qed simp

text \<open>C27: Executing the passed proposals, in whatever order and whatever their data, does not panic and leaves the
  consensus sound: the stake module stays in a state its own operations reach, and the threshold of the event
  module stays in (0, 1] and equal to that of its voting. There is one error for every proposal that remains
  unexecuted.\<close>

theorem execution_keeps_consensus:
  assumes "consensus_sound ad" and "\<And>d. dpos_reachable d \<Longrightarrow> range_order (dp_validators d) (ge_sort env d)"
    and "range_order (gv_proposals g) order"
  shows "\<exists>errs g' ad'. Governance_ExecutePassedProposals env order (g, ad) = Some (errs, g', ad') \<and> consensus_sound ad' \<and>
    length errs = card {i \<in> dom (gv_proposals g). p_Status (the (gv_proposals g i)) = Passed \<and> p_Status (the (gv_proposals g' i)) = Passed}"
  using execute_loop_sound [OF assms(1,2), of order g] assms(3)
  by (auto simp: Governance_ExecutePassedProposals_def range_order_def)

theorem execution_keeps_consensus_witness:
  "\<exists>errs g' ad'. Governance_ExecutePassedProposals gov_example_env [3] (gov_example, gov_example_ad) = Some (errs, g', ad') \<and>
     consensus_sound ad'"
proof -
  have "range_order (dp_validators d) (ge_sort gov_example_env d)" if "dpos_reachable d" for d
    using reachable_inv [OF that] by (auto simp: gov_example_env_def range_order_def dpos_inv_def registry_ok_def)
  moreover have "range_order (gv_proposals gov_example) [3]" by (simp add: gov_example_def range_order_def)
  moreover obtain t where "rnd (66 / 100) = Fin t" "5 / 8 \<le> t" "t \<le> 1"
    using default_threshold by (auto simp: NewVirtualVoting_def)
  then have "consensus_sound gov_example_ad"
    using dpos_example_reachable by (simp add: consensus_sound_def gov_example_ad_def NewLachesis_def NewVirtualVoting_def)
  ultimately show ?thesis using execution_keeps_consensus [of gov_example_ad gov_example_env gov_example "[3]"] by blast
qed

text \<open>Findings. The \<open>age\<close> given to \<open>CleanupOldProposals\<close> is only compared with a minute; an upgrade that is executed
  leaves no trace in the consensus; and two proposals of one creator at one moment share an ID if their
  descriptions and data are the same when concatenated.\<close>

theorem cleanup_ignores_age:
  "minute \<le> age \<Longrightarrow> Governance_CleanupOldProposals now order age g = Governance_CleanupOldProposals now order minute g"
  by (simp add: Governance_CleanupOldProposals_def)

theorem upgrade_has_no_effect: "Governance_executeUpgradeProposal env p ad = (e, ad') \<Longrightarrow> ad' = ad"
  by (auto simp: Governance_executeUpgradeProposal_def HybridConsensus_ScheduleUpgrade_def split: option.splits if_splits)

theorem proposal_ids_collide:
  "proposal_id t ''ab'' (string_bytes ''c'') creator = proposal_id t ''a'' (string_bytes ''bc'') creator"
  by (simp add: proposal_id_def string_bytes_def)

end
