(* ===== verification/ErrorsTheory.thy ===== *)
theory ErrorsTheory
  imports GoTime
begin

text \<open>
  The structured errors of the consensus: \<open>consensus/errors.go\<close>. Categories and codes are integers, so any number may
  stand for one; \<open>String\<close> names the known ones. A value of type \<open>error\<close> is a \<open>ConsensusError\<close> or an error of another
  kind, of which only the message matters. The context holds values of any type; \<open>ctx_value\<close> has the ones the code
  stores.
\<close>

section \<open>Categories and codes\<close>

type_synonym ErrorCategory = int
type_synonym ConsensusErrorCode = int

definition ErrorCategoryTemporary :: ErrorCategory where "ErrorCategoryTemporary = 0"
definition ErrorCategoryPermanent :: ErrorCategory where "ErrorCategoryPermanent = 1"
definition ErrorCategoryByzantine :: ErrorCategory where "ErrorCategoryByzantine = 2"
definition ErrorCategoryNetwork :: ErrorCategory where "ErrorCategoryNetwork = 3"
definition ErrorCategoryState :: ErrorCategory where "ErrorCategoryState = 4"
definition ErrorCategoryConfiguration :: ErrorCategory where "ErrorCategoryConfiguration = 5"

definition ErrUnknown :: ConsensusErrorCode where "ErrUnknown = 0"
definition ErrTimeout :: ConsensusErrorCode where "ErrTimeout = 1"
definition ErrCanceled :: ConsensusErrorCode where "ErrCanceled = 2"
definition ErrInvalidValidator :: ConsensusErrorCode where "ErrInvalidValidator = 3"
definition ErrValidatorNotFound :: ConsensusErrorCode where "ErrValidatorNotFound = 4"
definition ErrInsufficientStake :: ConsensusErrorCode where "ErrInsufficientStake = 5"
definition ErrValidatorSetInconsistency :: ConsensusErrorCode where "ErrValidatorSetInconsistency = 6"
definition ErrEventCreationFailed :: ConsensusErrorCode where "ErrEventCreationFailed = 7"
definition ErrEventValidationFailed :: ConsensusErrorCode where "ErrEventValidationFailed = 8"
definition ErrEventFinalizationFailed :: ConsensusErrorCode where "ErrEventFinalizationFailed = 9"
definition ErrEventDuplicate :: ConsensusErrorCode where "ErrEventDuplicate = 10"
definition ErrEventTimeout :: ConsensusErrorCode where "ErrEventTimeout = 11"
definition ErrEventRejected :: ConsensusErrorCode where "ErrEventRejected = 12"
definition ErrBlockCreationFailed :: ConsensusErrorCode where "ErrBlockCreationFailed = 13"
definition ErrBlockValidationFailed :: ConsensusErrorCode where "ErrBlockValidationFailed = 14"
definition ErrBlockFinalizationFailed :: ConsensusErrorCode where "ErrBlockFinalizationFailed = 15"
definition ErrInvalidBlockNumber :: ConsensusErrorCode where "ErrInvalidBlockNumber = 16"
definition ErrInvalidBlockProducer :: ConsensusErrorCode where "ErrInvalidBlockProducer = 17"
definition ErrPoHVerificationFailed :: ConsensusErrorCode where "ErrPoHVerificationFailed = 18"
definition ErrPoHDriftExceeded :: ConsensusErrorCode where "ErrPoHDriftExceeded = 19"
definition ErrPoHSynchronizationFailed :: ConsensusErrorCode where "ErrPoHSynchronizationFailed = 20"
definition ErrStateCorruption :: ConsensusErrorCode where "ErrStateCorruption = 21"
definition ErrStateInconsistency :: ConsensusErrorCode where "ErrStateInconsistency = 22"
definition ErrStateSynchronizationFailed :: ConsensusErrorCode where "ErrStateSynchronizationFailed = 23"
definition ErrCheckpointCreationFailed :: ConsensusErrorCode where "ErrCheckpointCreationFailed = 24"
definition ErrCheckpointRestorationFailed :: ConsensusErrorCode where "ErrCheckpointRestorationFailed = 25"
definition ErrCheckpointNotFound :: ConsensusErrorCode where "ErrCheckpointNotFound = 26"
definition ErrInvalidCheckpoint :: ConsensusErrorCode where "ErrInvalidCheckpoint = 27"
definition ErrNetworkPartition :: ConsensusErrorCode where "ErrNetworkPartition = 28"
definition ErrNetworkOverload :: ConsensusErrorCode where "ErrNetworkOverload = 29"
definition ErrMessagePropagationFailed :: ConsensusErrorCode where "ErrMessagePropagationFailed = 30"
definition ErrInvalidConfiguration :: ConsensusErrorCode where "ErrInvalidConfiguration = 31"
definition ErrIncompatibleConfiguration :: ConsensusErrorCode where "ErrIncompatibleConfiguration = 32"

lemmas category_defs =
  ErrorCategoryTemporary_def ErrorCategoryPermanent_def ErrorCategoryByzantine_def ErrorCategoryNetwork_def ErrorCategoryState_def ErrorCategoryConfiguration_def

lemmas code_defs =
  ErrUnknown_def ErrTimeout_def ErrCanceled_def ErrInvalidValidator_def ErrValidatorNotFound_def ErrInsufficientStake_def
  ErrValidatorSetInconsistency_def ErrEventCreationFailed_def ErrEventValidationFailed_def ErrEventFinalizationFailed_def
  ErrEventDuplicate_def ErrEventTimeout_def ErrEventRejected_def ErrBlockCreationFailed_def ErrBlockValidationFailed_def
  ErrBlockFinalizationFailed_def ErrInvalidBlockNumber_def ErrInvalidBlockProducer_def ErrPoHVerificationFailed_def
  ErrPoHDriftExceeded_def ErrPoHSynchronizationFailed_def ErrStateCorruption_def ErrStateInconsistency_def
  ErrStateSynchronizationFailed_def ErrCheckpointCreationFailed_def ErrCheckpointRestorationFailed_def
  ErrCheckpointNotFound_def ErrInvalidCheckpoint_def ErrNetworkPartition_def ErrNetworkOverload_def ErrMessagePropagationFailed_def
  ErrInvalidConfiguration_def ErrIncompatibleConfiguration_def

definition category_names :: "(ErrorCategory \<times> string) list" where
  "category_names =
     [(ErrorCategoryTemporary, ''Temporary''),
      (ErrorCategoryPermanent, ''Permanent''),
      (ErrorCategoryByzantine, ''Byzantine''),
      (ErrorCategoryNetwork, ''Network''),
      (ErrorCategoryState, ''State''),
      (ErrorCategoryConfiguration, ''Configuration'')]"

definition ErrorCategory_String :: "ErrorCategory \<Rightarrow> string" where
  "ErrorCategory_String c = (case map_of category_names c of Some s \<Rightarrow> s | None \<Rightarrow> ''Unknown'')"

definition code_names :: "(ConsensusErrorCode \<times> string) list" where
  "code_names =
     [(ErrUnknown, ''UnknownError''),
      (ErrTimeout, ''Timeout''),
      (ErrCanceled, ''Canceled''),
      (ErrInvalidValidator, ''InvalidValidator''),
      (ErrValidatorNotFound, ''ValidatorNotFound''),
      (ErrInsufficientStake, ''InsufficientStake''),
      (ErrValidatorSetInconsistency, ''ValidatorSetInconsistency''),
      (ErrEventCreationFailed, ''EventCreationFailed''),
      (ErrEventValidationFailed, ''EventValidationFailed''),
      (ErrEventFinalizationFailed, ''EventFinalizationFailed''),
      (ErrEventDuplicate, ''EventDuplicate''),
      (ErrEventTimeout, ''EventTimeout''),
      (ErrEventRejected, ''EventRejected''),
      (ErrBlockCreationFailed, ''BlockCreationFailed''),
      (ErrBlockValidationFailed, ''BlockValidationFailed''),
      (ErrBlockFinalizationFailed, ''BlockFinalizationFailed''),
      (ErrInvalidBlockNumber, ''InvalidBlockNumber''),
      (ErrInvalidBlockProducer, ''InvalidBlockProducer''),
      (ErrPoHVerificationFailed, ''PoHVerificationFailed''),
      (ErrPoHDriftExceeded, ''PoHDriftExceeded''),
      (ErrPoHSynchronizationFailed, ''PoHSynchronizationFailed''),
      (ErrStateCorruption, ''StateCorruption''),
      (ErrStateInconsistency, ''StateInconsistency''),
      (ErrStateSynchronizationFailed, ''StateSynchronizationFailed''),
      (ErrCheckpointCreationFailed, ''CheckpointCreationFailed''),
      (ErrCheckpointRestorationFailed, ''CheckpointRestorationFailed''),
      (ErrCheckpointNotFound, ''CheckpointNotFound''),
      (ErrInvalidCheckpoint, ''InvalidCheckpoint''),
      (ErrNetworkPartition, ''NetworkPartition''),
      (ErrNetworkOverload, ''NetworkOverload''),
      (ErrMessagePropagationFailed, ''MessagePropagationFailed''),
      (ErrInvalidConfiguration, ''InvalidConfiguration''),
      (ErrIncompatibleConfiguration, ''IncompatibleConfiguration'')]"

definition ConsensusErrorCode_String :: "ConsensusErrorCode \<Rightarrow> string" where
  "ConsensusErrorCode_String c =
     (case map_of code_names c of Some s \<Rightarrow> s | None \<Rightarrow> ''UnknownErrorCode('' @ fmt_d c @ '')'')"

section \<open>Durations in messages\<close>

text \<open>\<open>Duration.String\<close>: below a second in the largest unit that keeps the number at least one, else in hours, minutes
  and seconds; trailing zeros of the fraction are left out. The sign of a micro unit is the two bytes of its UTF-8 form.\<close>

definition fmt_frac :: "nat \<Rightarrow> nat \<Rightarrow> string" where
  "fmt_frac v prec =
     (let digits = rev (dropWhile (\<lambda>c. c = CHR ''0'') (rev (fmt_pad prec (fmt_nat (v mod 10 ^ prec)))))
      in fmt_nat (v div 10 ^ prec) @ (if prec = 0 \<or> digits = [] then [] else ''.'' @ digits))"

definition micro_sign :: string where "micro_sign = [char_of (194 :: nat), char_of (181 :: nat)]"

definition Duration_String :: "duration \<Rightarrow> string" where
  "Duration_String d =
     (if d = 0 then ''0s''
      else
        let u = nat \<bar>d\<bar>;
            body =
              (if u < 1000 then fmt_frac u 0 @ ''ns''
               else if u < 1000000 then fmt_frac u 3 @ micro_sign @ ''s''
               else if u < 1000000000 then fmt_frac u 6 @ ''ms''
               else
                 let secs = u div 1000000000; frac = u mod 1000000000;
                     s = fmt_frac ((secs mod 60) * 1000000000 + frac) 9 @ ''s'';
                     mins = secs div 60; hours = mins div 60
                 in (if hours > 0 then fmt_nat hours @ ''h'' else []) @
                    (if mins > 0 then fmt_nat (mins mod 60) @ ''m'' else []) @ s)
        in (if d < 0 then ''-'' else []) @ body)"

section \<open>Errors\<close>

datatype ctx_value = CtxString string | CtxUint uint64 | CtxInt int | CtxFloat float64 | CtxBytes bytes

datatype ConsensusError =
  ConsensusError
    (ce_Code: ConsensusErrorCode) (ce_Category: ErrorCategory) (ce_Message: string) (ce_Cause: "go_error option")
    (ce_BlockNumber: uint64) (ce_EventID: hash32) (ce_ValidatorID: hash32) (ce_Timestamp: int)
    (ce_Retryable: bool) (ce_RetryAfter: duration) (ce_RecoveryAction: string) (ce_Context: "string \<rightharpoonup> ctx_value")
and go_error = CErr ConsensusError | PlainErr string

fun ConsensusError_Error :: "ConsensusError \<Rightarrow> string" and go_error_Error :: "go_error \<Rightarrow> string" where
  "ConsensusError_Error (ConsensusError code cat msg cause blk ev val ts retry aft act ctx) =
     ''['' @ ErrorCategory_String cat @ '':'' @ ConsensusErrorCode_String code @ ''] '' @ msg @
     (case cause of None \<Rightarrow> [] | Some c \<Rightarrow> '' (caused by: '' @ go_error_Error c @ '')'') @
     (if blk > 0 then '' [block='' @ fmt_nat (unat blk) @ '']'' else []) @
     (if retry then if aft > 0 then '' (retryable after '' @ Duration_String aft @ '')'' else '' (retryable)'' else [])"
| "go_error_Error (CErr e) = ConsensusError_Error e"
| "go_error_Error (PlainErr s) = s"

definition ConsensusError_Unwrap :: "ConsensusError \<Rightarrow> go_error option" where
  "ConsensusError_Unwrap e = ce_Cause e"

fun ConsensusError_WithContext :: "string \<Rightarrow> ctx_value \<Rightarrow> ConsensusError \<Rightarrow> ConsensusError" where
  "ConsensusError_WithContext key v (ConsensusError code cat msg cause blk ev val ts retry aft act ctx) =
     ConsensusError code cat msg cause blk ev val ts retry aft act (ctx(key \<mapsto> v))"

fun ConsensusError_WithBlockNumber :: "uint64 \<Rightarrow> ConsensusError \<Rightarrow> ConsensusError" where
  "ConsensusError_WithBlockNumber b (ConsensusError code cat msg cause blk ev val ts retry aft act ctx) =
     ConsensusError code cat msg cause b ev val ts retry aft act ctx"

fun ConsensusError_WithEventID :: "hash32 \<Rightarrow> ConsensusError \<Rightarrow> ConsensusError" where
  "ConsensusError_WithEventID i (ConsensusError code cat msg cause blk ev val ts retry aft act ctx) =
     ConsensusError code cat msg cause blk i val ts retry aft act ctx"

fun ConsensusError_WithValidatorID :: "hash32 \<Rightarrow> ConsensusError \<Rightarrow> ConsensusError" where
  "ConsensusError_WithValidatorID i (ConsensusError code cat msg cause blk ev val ts retry aft act ctx) =
     ConsensusError code cat msg cause blk ev i ts retry aft act ctx"

fun ConsensusError_WithRetryInfo :: "bool \<Rightarrow> duration \<Rightarrow> ConsensusError \<Rightarrow> ConsensusError" where
  "ConsensusError_WithRetryInfo retryable retryAfter (ConsensusError code cat msg cause blk ev val ts retry aft act ctx) =
     ConsensusError code cat msg cause blk ev val ts retryable retryAfter act ctx"

fun ConsensusError_WithRecoveryAction :: "string \<Rightarrow> ConsensusError \<Rightarrow> ConsensusError" where
  "ConsensusError_WithRecoveryAction a (ConsensusError code cat msg cause blk ev val ts retry aft act ctx) =
     ConsensusError code cat msg cause blk ev val ts retry aft a ctx"

definition NewConsensusError :: "int \<Rightarrow> ConsensusErrorCode \<Rightarrow> ErrorCategory \<Rightarrow> string \<Rightarrow> ConsensusError" where
  "NewConsensusError now code category message =
     ConsensusError code category message None 0 0 0 now False 0 [] Map.empty"

definition WrapError :: "int \<Rightarrow> go_error option \<Rightarrow> ConsensusErrorCode \<Rightarrow> ErrorCategory \<Rightarrow> string \<Rightarrow> ConsensusError" where
  "WrapError now err code category message =
     ConsensusError code category message err 0 0 0 now False 0 [] Map.empty"

section \<open>Classification\<close>

text \<open>The functions look at the dynamic type of the error itself, not at what it wraps; \<open>None\<close> is the error \<open>nil\<close>.\<close>

definition as_consensus :: "go_error option \<Rightarrow> ConsensusError option" where
  "as_consensus err = (case err of Some (CErr e) \<Rightarrow> Some e | _ \<Rightarrow> None)"

definition IsTemporary :: "go_error option \<Rightarrow> bool" where
  "IsTemporary err =
     (case as_consensus err of Some e \<Rightarrow> ce_Category e = ErrorCategoryTemporary \<or> ce_Retryable e | None \<Rightarrow> False)"

definition IsPermanent :: "go_error option \<Rightarrow> bool" where
  "IsPermanent err =
     (case as_consensus err of Some e \<Rightarrow> ce_Category e = ErrorCategoryPermanent \<and> \<not> ce_Retryable e | None \<Rightarrow> False)"

definition IsByzantine :: "go_error option \<Rightarrow> bool" where
  "IsByzantine err = (case as_consensus err of Some e \<Rightarrow> ce_Category e = ErrorCategoryByzantine | None \<Rightarrow> False)"

definition IsNetworkError :: "go_error option \<Rightarrow> bool" where
  "IsNetworkError err = (case as_consensus err of Some e \<Rightarrow> ce_Category e = ErrorCategoryNetwork | None \<Rightarrow> False)"

definition IsStateError :: "go_error option \<Rightarrow> bool" where
  "IsStateError err = (case as_consensus err of Some e \<Rightarrow> ce_Category e = ErrorCategoryState | None \<Rightarrow> False)"

definition IsConfigurationError :: "go_error option \<Rightarrow> bool" where
  "IsConfigurationError err = (case as_consensus err of Some e \<Rightarrow> ce_Category e = ErrorCategoryConfiguration | None \<Rightarrow> False)"

definition GetErrorCode :: "go_error option \<Rightarrow> ConsensusErrorCode" where
  "GetErrorCode err = (case as_consensus err of Some e \<Rightarrow> ce_Code e | None \<Rightarrow> ErrUnknown)"

definition GetErrorCategory :: "go_error option \<Rightarrow> ErrorCategory" where
  "GetErrorCategory err = (case as_consensus err of Some e \<Rightarrow> ce_Category e | None \<Rightarrow> ErrorCategoryTemporary)"

definition GetRecoveryAction :: "go_error option \<Rightarrow> string" where
  "GetRecoveryAction err = (case as_consensus err of Some e \<Rightarrow> ce_RecoveryAction e | None \<Rightarrow> [])"

definition ShouldRetry :: "go_error option \<Rightarrow> bool \<times> duration" where
  "ShouldRetry err = (case as_consensus err of Some e \<Rightarrow> (ce_Retryable e, ce_RetryAfter e) | None \<Rightarrow> (False, 0))"

definition GetErrorContext :: "go_error option \<Rightarrow> (string \<rightharpoonup> ctx_value) option" where
  "GetErrorContext err = (case as_consensus err of Some e \<Rightarrow> Some (ce_Context e) | None \<Rightarrow> None)"

section \<open>Names are unambiguous\<close>

lemma names_known: "list_all (\<lambda>p. take 13 (snd p) \<noteq> ''UnknownErrorC'') code_names"
  by (simp add: code_names_def)

lemma unknown_not_named: "map_of code_names c = Some s \<Longrightarrow> s \<noteq> ''UnknownErrorCode('' @ t"
  using names_known by (auto simp: list_all_iff dest!: map_of_SomeD)

lemma names_distinct: "distinct (map snd code_names)"
  by code_simp

text \<open>Two error codes, known or not, are printed alike only if they are the same.\<close>

theorem error_code_names: "ConsensusErrorCode_String c = ConsensusErrorCode_String c' \<longleftrightarrow> c = c'"
proof
  assume eq: "ConsensusErrorCode_String c = ConsensusErrorCode_String c'"
  show "c = c'"
  proof (cases "map_of code_names c"; cases "map_of code_names c'")
    fix s s'
    assume "map_of code_names c = Some s" and "map_of code_names c' = Some s'"
    then have "(c, s) \<in> set code_names" "(c', s) \<in> set code_names"
      using eq by (auto simp: ConsensusErrorCode_String_def dest: map_of_SomeD)
    moreover have "inj_on snd (set code_names)" using names_distinct by (simp add: distinct_map)
    ultimately show ?thesis by (metis inj_onD fst_conv snd_conv)
  qed (use eq unknown_not_named fmt_d_inj in \<open>auto simp: ConsensusErrorCode_String_def\<close>)
qed simp

text \<open>Every error is in one of the classes, in at most one if it is not marked as retryable, and a temporary error
  is never permanent.\<close>

theorem classes_exclusive:
  "\<not> (IsTemporary e \<and> IsPermanent e) \<and> \<not> (IsByzantine e \<and> IsPermanent e) \<and> \<not> (IsNetworkError e \<and> IsStateError e) \<and>
   (\<not> fst (ShouldRetry e) \<longrightarrow> \<not> (IsTemporary e \<and> (IsByzantine e \<or> IsNetworkError e \<or> IsStateError e \<or> IsConfigurationError e)))"
  by (auto simp: IsTemporary_def IsPermanent_def IsByzantine_def IsNetworkError_def IsStateError_def IsConfigurationError_def
      ShouldRetry_def category_defs split: option.splits)

text \<open>A new error of the category \<open>Temporary\<close>, which is documented as one that can be retried, is temporary but is not to
  be retried.\<close>

theorem temporary_not_retried:
  "IsTemporary (Some (CErr (NewConsensusError now code ErrorCategoryTemporary msg))) \<and>
   ShouldRetry (Some (CErr (NewConsensusError now code ErrorCategoryTemporary msg))) = (False, 0)"
  by (simp add: IsTemporary_def ShouldRetry_def as_consensus_def NewConsensusError_def)

end
