(* ===== verification/ValidatorManagerTheory.thy ===== *)
theory ValidatorManagerTheory
  imports ErrorsTheory DPoSTheory LachesisTheory
begin

text \<open>
  The validator manager: \<open>consensus/validator_manager.go\<close>. It keeps the registry of validators with their status and
  forwards stakes to the stake module (\<open>DPoSTheory\<close>) and the event module (\<open>LachesisTheory\<close>) of the hybrid consensus;
  \<open>vm_state\<close> holds the three.

  The list of active validators holds pointers to the objects of the registry: \<open>VLive i\<close> is the object filed under
  \<open>i\<close>, \<open>VGone v\<close> an object that is in the list but no longer in the registry, which a failed restore leaves behind.
  \<open>VMEnv\<close> has the readings of the clock, the orders of the ranges over maps, the outcome of the sort inside the stake
  module, \<open>math.Pow\<close>, and the conversion of floats that fit no integer. A panic is the result \<open>None\<close>.
\<close>

section \<open>Data\<close>

type_synonym ValidatorStatus = int

definition ValidatorStatusActive :: ValidatorStatus where "ValidatorStatusActive = 0"
definition ValidatorStatusInactive :: ValidatorStatus where "ValidatorStatusInactive = 1"
definition ValidatorStatusSlashed :: ValidatorStatus where "ValidatorStatusSlashed = 2"
definition ValidatorStatusJailed :: ValidatorStatus where "ValidatorStatusJailed = 3"

lemmas status_defs = ValidatorStatusActive_def ValidatorStatusInactive_def ValidatorStatusSlashed_def ValidatorStatusJailed_def

record ValidatorInfo =
  vi_ID :: hash32
  vi_Stake :: uint64
  vi_Status :: ValidatorStatus
  vi_Performance :: float64
  vi_BlocksProduced :: uint64
  vi_EventsFinalized :: uint64
  vi_LastRewardTime :: int
  vi_JoinTime :: int
  vi_MisbehaviorCount :: uint64

datatype vm_entry = VLive hash32 | VGone ValidatorInfo

record ValidatorManager =
  vm_validators :: "hash32 \<rightharpoonup> ValidatorInfo"
  vm_activeValidators :: "vm_entry list"
  vm_totalStake :: uint64
  vm_activeTotalStake :: uint64
  vm_performanceDecayRate :: float64
  vm_minPerformance :: float64
  vm_maxPerformance :: float64
  vm_blockRewardWeight :: float64
  vm_eventRewardWeight :: float64
  vm_lastRewardHeight :: uint64

record vm_state =
  st_vm :: ValidatorManager
  st_dpos :: DPoS
  st_lachesis :: Lachesis

record VMEnv =
  ve_now :: int
  ve_lastReward :: int
  ve_join :: int
  ve_dposNow :: int
  ve_order :: "hash32 list"
  ve_srt :: "hash32 list"
  ve_pow :: "float64 \<Rightarrow> float64 \<Rightarrow> float64"
  ve_conv :: "float64 \<Rightarrow> uint64"

definition NewValidatorManager :: ValidatorManager where
  "NewValidatorManager =
     \<lparr>vm_validators = Map.empty, vm_activeValidators = [], vm_totalStake = 0, vm_activeTotalStake = 0,
      vm_performanceDecayRate = rnd (99 / 100), vm_minPerformance = rnd (1 / 10), vm_maxPerformance = f64_1,
      vm_blockRewardWeight = rnd (6 / 10), vm_eventRewardWeight = rnd (4 / 10), vm_lastRewardHeight = 0\<rparr>"

definition vm_obj :: "ValidatorManager \<Rightarrow> vm_entry \<Rightarrow> ValidatorInfo" where
  "vm_obj vm e = (case e of VLive i \<Rightarrow> the (vm_validators vm i) | VGone v \<Rightarrow> v)"

definition vm_modify :: "hash32 \<Rightarrow> (ValidatorInfo \<Rightarrow> ValidatorInfo) \<Rightarrow> ValidatorManager \<Rightarrow> ValidatorManager" where
  "vm_modify i f vm = vm\<lparr>vm_validators := map_modify i f (vm_validators vm)\<rparr>"

section \<open>The active set\<close>

text \<open>The exchange sort of \<open>sortValidatorsByScore\<close>, on the list of pointers.\<close>

function sort_inner :: "('a \<Rightarrow> float64) \<Rightarrow> nat \<Rightarrow> nat \<Rightarrow> 'a list \<Rightarrow> 'a list" where
  "sort_inner sc i j xs =
     (if j < length xs
      then sort_inner sc i (Suc j) (if f64_lt (sc (xs ! i)) (sc (xs ! j)) then xs[i := xs ! j, j := xs ! i] else xs)
      else xs)"
  by pat_completeness auto
termination by (relation "measure (\<lambda>(sc, i, j, xs). length xs - j)") auto

declare sort_inner.simps [simp del]

lemma length_sort_inner [simp]: "length (sort_inner sc i j xs) = length xs"
proof (induction sc i j xs rule: sort_inner.induct)
  case (1 sc i j xs)
  then show ?case by (subst sort_inner.simps) auto
qed

function sort_outer :: "('a \<Rightarrow> float64) \<Rightarrow> nat \<Rightarrow> 'a list \<Rightarrow> 'a list" where
  "sort_outer sc i xs = (if i < length xs then sort_outer sc (Suc i) (sort_inner sc i (Suc i) xs) else xs)"
  by pat_completeness auto
termination by (relation "measure (\<lambda>(sc, i, xs). length xs - i)") auto

declare sort_outer.simps [simp del]

definition sortValidatorsByScore :: "('a \<Rightarrow> float64) \<Rightarrow> 'a list \<Rightarrow> 'a list" where
  "sortValidatorsByScore sc xs = sort_outer sc 0 xs"

definition vi_score :: "ValidatorInfo \<Rightarrow> float64" where
  "vi_score v = f64_mul (f64_of_int (uint (vi_Stake v))) (vi_Performance v)"

definition ValidatorManager_updateActiveValidators :: "hash32 list \<Rightarrow> int \<Rightarrow> ValidatorManager \<Rightarrow> ValidatorManager option" where
  "ValidatorManager_updateActiveValidators order maxSetSize vm =
     (let active = filter (\<lambda>i. vi_Status (the (vm_validators vm i)) = ValidatorStatusActive) order;
          stake = (\<lambda>i. vi_Stake (the (vm_validators vm i)));
          sorted = sortValidatorsByScore (\<lambda>i. vi_score (the (vm_validators vm i))) active
      in if int (length sorted) > maxSetSize
         then if maxSetSize < 0 then None
              else let top = take (nat maxSetSize) sorted
                   in Some (vm\<lparr>vm_activeValidators := map VLive top, vm_activeTotalStake := sum_list (map stake top)\<rparr>)
         else Some (vm\<lparr>vm_activeValidators := map VLive sorted, vm_activeTotalStake := sum_list (map stake active)\<rparr>))"

definition update_active :: "VMEnv \<Rightarrow> vm_state \<Rightarrow> vm_state option" where
  "update_active env st =
     (case ValidatorManager_updateActiveValidators (ve_order env) (DPoS_GetSetSize (st_dpos st)) (st_vm st) of
        None \<Rightarrow> None
      | Some vm \<Rightarrow> Some (st\<lparr>st_vm := vm\<rparr>))"

section \<open>Registration, stakes and status\<close>

definition vm_error :: "VMEnv \<Rightarrow> ConsensusErrorCode \<Rightarrow> string \<Rightarrow> hash32 \<Rightarrow> ConsensusError" where
  "vm_error env code msg i = ConsensusError_WithValidatorID i (NewConsensusError (ve_now env) code ErrorCategoryTemporary msg)"

definition err_not_found :: "VMEnv \<Rightarrow> hash32 \<Rightarrow> ConsensusError" where
  "err_not_found env i = vm_error env ErrValidatorNotFound (''validator '' @ byteArrayToString i @ '' not found'') i"

definition err_zero_stake :: "VMEnv \<Rightarrow> hash32 \<Rightarrow> ConsensusError" where
  "err_zero_stake env i = vm_error env ErrInsufficientStake ''validator stake cannot be zero'' i"

definition err_invalid :: "VMEnv \<Rightarrow> string \<Rightarrow> string \<Rightarrow> ctx_value \<Rightarrow> hash32 \<Rightarrow> ConsensusError" where
  "err_invalid env what key v i =
     ConsensusError_WithContext key v
       (vm_error env ErrInvalidValidator (''validator '' @ byteArrayToString i @ what) i)"

type_synonym vm_result = "(ConsensusError option \<times> vm_state) option"

definition vm_done :: "vm_state option \<Rightarrow> vm_result" where
  "vm_done r = map_option (\<lambda>st. (None, st)) r"

definition ValidatorManager_AddValidator :: "VMEnv \<Rightarrow> hash32 \<Rightarrow> uint64 \<Rightarrow> vm_state \<Rightarrow> vm_result" where
  "ValidatorManager_AddValidator env i stake st =
     (let vm = st_vm st in
      if vm_validators vm i \<noteq> None then Some (Some (err_invalid env '' already exists'' ''stake'' (CtxUint stake) i), st)
      else if stake = 0 then Some (Some (err_zero_stake env i), st)
      else
        let validator = \<lparr>vi_ID = i, vi_Stake = stake, vi_Status = ValidatorStatusInactive, vi_Performance = f64_1,
                         vi_BlocksProduced = 0, vi_EventsFinalized = 0, vi_LastRewardTime = ve_lastReward env,
                         vi_JoinTime = ve_join env, vi_MisbehaviorCount = 0\<rparr>;
            vm1 = vm\<lparr>vm_validators := (vm_validators vm)(i \<mapsto> validator), vm_totalStake := vm_totalStake vm + stake\<rparr>
        in case DPoS_AddValidator (ve_dposNow env) (ve_srt env) i stake (st_dpos st) of
             None \<Rightarrow> None
           | Some d \<Rightarrow> vm_done (update_active env
               \<lparr>st_vm = vm1, st_dpos = d, st_lachesis = Lachesis_AddNode i stake (st_lachesis st)\<rparr>))"

definition ValidatorManager_UpdateStake :: "VMEnv \<Rightarrow> hash32 \<Rightarrow> uint64 \<Rightarrow> vm_state \<Rightarrow> vm_result" where
  "ValidatorManager_UpdateStake env i newStake st =
     (let vm = st_vm st in
      case vm_validators vm i of
        None \<Rightarrow> Some (Some (err_not_found env i), st)
      | Some v \<Rightarrow>
          if newStake = 0 then Some (Some (err_zero_stake env i), st)
          else
            let vm1 = vm\<lparr>vm_totalStake := vm_totalStake vm - vi_Stake v + newStake\<rparr>;
                vm2 = (if vi_Status v = ValidatorStatusActive
                       then vm1\<lparr>vm_activeTotalStake := vm_activeTotalStake vm1 - vi_Stake v + newStake\<rparr> else vm1);
                vm3 = vm_modify i (\<lambda>v. v\<lparr>vi_Stake := newStake\<rparr>) vm2
            in case DPoS_UpdateStake (ve_srt env) i newStake (st_dpos st) of
                 None \<Rightarrow> None
               | Some d \<Rightarrow> vm_done (update_active env
                   \<lparr>st_vm = vm3, st_dpos = d, st_lachesis = Lachesis_UpdateNodeStake i newStake (st_lachesis st)\<rparr>))"

definition set_vi_status :: "hash32 \<Rightarrow> ValidatorStatus \<Rightarrow> vm_state \<Rightarrow> vm_state" where
  "set_vi_status i s st = st\<lparr>st_vm := vm_modify i (\<lambda>v. v\<lparr>vi_Status := s\<rparr>) (st_vm st)\<rparr>"

definition ValidatorManager_ActivateValidator :: "VMEnv \<Rightarrow> hash32 \<Rightarrow> vm_state \<Rightarrow> vm_result" where
  "ValidatorManager_ActivateValidator env i st =
     (case vm_validators (st_vm st) i of
        None \<Rightarrow> Some (Some (err_not_found env i), st)
      | Some v \<Rightarrow>
          if vi_Status v = ValidatorStatusActive then Some (None, st)
          else if vi_Status v = ValidatorStatusJailed
          then Some (Some (err_invalid env '' is jailed'' ''status'' (CtxString ''jailed'') i), st)
          else if vi_Status v = ValidatorStatusSlashed
          then Some (Some (err_invalid env '' is slashed'' ''status'' (CtxString ''slashed'') i), st)
          else vm_done (update_active env (set_vi_status i ValidatorStatusActive st)))"

definition ValidatorManager_DeactivateValidator :: "VMEnv \<Rightarrow> hash32 \<Rightarrow> vm_state \<Rightarrow> vm_result" where
  "ValidatorManager_DeactivateValidator env i st =
     (case vm_validators (st_vm st) i of
        None \<Rightarrow> Some (Some (err_not_found env i), st)
      | Some v \<Rightarrow>
          if vi_Status v = ValidatorStatusInactive then Some (None, st)
          else vm_done (update_active env (set_vi_status i ValidatorStatusInactive st)))"

definition ValidatorManager_SlashValidator :: "VMEnv \<Rightarrow> hash32 \<Rightarrow> uint64 \<Rightarrow> vm_state \<Rightarrow> vm_result" where
  "ValidatorManager_SlashValidator env i slashAmount st =
     (let vm = st_vm st in
      case vm_validators vm i of
        None \<Rightarrow> Some (Some (err_not_found env i), st)
      | Some v \<Rightarrow>
          let amount = (if slashAmount > vi_Stake v then vi_Stake v else slashAmount);
              v1 = v\<lparr>vi_Stake := vi_Stake v - amount, vi_Status := ValidatorStatusSlashed,
                     vi_MisbehaviorCount := vi_MisbehaviorCount v + 1\<rparr>;
              vm1 = vm\<lparr>vm_validators := (vm_validators vm)(i \<mapsto> v1), vm_totalStake := vm_totalStake vm - amount\<rparr>;
              vm2 = (if vi_Status v1 = ValidatorStatusActive
                     then vm1\<lparr>vm_activeTotalStake := vm_activeTotalStake vm1 - amount\<rparr> else vm1)
          in case DPoS_UpdateStake (ve_srt env) i (vi_Stake v1) (st_dpos st) of
               None \<Rightarrow> None
             | Some d \<Rightarrow> vm_done (update_active env
                 \<lparr>st_vm = vm2, st_dpos = d, st_lachesis = Lachesis_UpdateNodeStake i (vi_Stake v1) (st_lachesis st)\<rparr>))"

definition ValidatorManager_JailValidator :: "VMEnv \<Rightarrow> hash32 \<Rightarrow> vm_state \<Rightarrow> vm_result" where
  "ValidatorManager_JailValidator env i st =
     (case vm_validators (st_vm st) i of
        None \<Rightarrow> Some (Some (err_not_found env i), st)
      | Some v \<Rightarrow>
          if vi_Status v = ValidatorStatusJailed then Some (None, st)
          else vm_done (update_active env
            (st\<lparr>st_vm := vm_modify i (\<lambda>v. v\<lparr>vi_Status := ValidatorStatusJailed,
                                          vi_MisbehaviorCount := vi_MisbehaviorCount v + 1\<rparr>) (st_vm st)\<rparr>)))"

definition ValidatorManager_UnjailValidator :: "VMEnv \<Rightarrow> hash32 \<Rightarrow> vm_state \<Rightarrow> vm_result" where
  "ValidatorManager_UnjailValidator env i st =
     (case vm_validators (st_vm st) i of
        None \<Rightarrow> Some (Some (err_not_found env i), st)
      | Some v \<Rightarrow>
          if vi_Status v \<noteq> ValidatorStatusJailed
          then Some (Some (err_invalid env '' is not jailed'' ''status'' (CtxInt (vi_Status v)) i), st)
          else Some (None, set_vi_status i ValidatorStatusInactive st))"

section \<open>Rewards and performance\<close>

definition ValidatorManager_updateValidatorPerformance :: "VMEnv \<Rightarrow> ValidatorManager \<Rightarrow> ValidatorInfo \<Rightarrow> ValidatorInfo" where
  "ValidatorManager_updateValidatorPerformance env vm v =
     (let hoursSinceLastUpdate = duration_hours (ve_now env - vi_LastRewardTime v);
          p1 = (if f64_lt f64_0 hoursSinceLastUpdate
                then f64_mul (vi_Performance v) (ve_pow env (vm_performanceDecayRate vm) hoursSinceLastUpdate)
                else vi_Performance v);
          p2 = f64_mul p1 (rnd (101 / 100))
      in v\<lparr>vi_Performance := f64_Max (vm_minPerformance vm) (f64_Min p2 (vm_maxPerformance vm)), vi_LastRewardTime := ve_now env\<rparr>)"

definition ValidatorManager_RewardBlockProduction :: "VMEnv \<Rightarrow> hash32 \<Rightarrow> uint64 \<Rightarrow> vm_state \<Rightarrow> ConsensusError option \<times> vm_state" where
  "ValidatorManager_RewardBlockProduction env i blockHeight st =
     (case vm_validators (st_vm st) i of
        None \<Rightarrow> (Some (ConsensusError_WithContext ''blockHeight'' (CtxUint blockHeight) (err_not_found env i)), st)
      | Some v \<Rightarrow>
          (None, st\<lparr>st_vm := vm_modify i (\<lambda>v. ValidatorManager_updateValidatorPerformance env (st_vm st)
                                (v\<lparr>vi_BlocksProduced := vi_BlocksProduced v + 1\<rparr>)) (st_vm st),
                    st_dpos := DPoS_RewardValidator (ve_dposNow env) i (st_dpos st)\<rparr>))"

definition ValidatorManager_RewardEventFinalization :: "VMEnv \<Rightarrow> hash32 \<Rightarrow> uint64 \<Rightarrow> vm_state \<Rightarrow> ConsensusError option \<times> vm_state" where
  "ValidatorManager_RewardEventFinalization env i eventHeight st =
     (case vm_validators (st_vm st) i of
        None \<Rightarrow> (Some (ConsensusError_WithContext ''eventHeight'' (CtxUint eventHeight) (err_not_found env i)), st)
      | Some v \<Rightarrow>
          (None, st\<lparr>st_vm := vm_modify i (\<lambda>v. ValidatorManager_updateValidatorPerformance env (st_vm st)
                                (v\<lparr>vi_EventsFinalized := vi_EventsFinalized v + 1\<rparr>)) (st_vm st)\<rparr>))"

text \<open>The conversion \<open>uint64(x)\<close> of a float; what does not fit is left to the implementation.\<close>

fun f64_to_uint64 :: "(float64 \<Rightarrow> uint64) \<Rightarrow> float64 \<Rightarrow> uint64" where
  "f64_to_uint64 impl (Fin q) =
     (if 0 \<le> rat_trunc q \<and> rat_trunc q < 2 ^ 64 then word_of_int (rat_trunc q) else impl (Fin q))"
| "f64_to_uint64 impl x = impl x"

definition calculateEpochReward :: "VMEnv \<Rightarrow> uint64 \<Rightarrow> uint64" where
  "calculateEpochReward env epoch =
     (let decayFactor = (if epoch > 0 then ve_pow env (rnd (9999 / 10000)) (f64_of_int (uint epoch)) else f64_1)
      in f64_to_uint64 (ve_conv env) (f64_mul (Fin 1000000) decayFactor))"

definition entry_modify :: "nat \<Rightarrow> (ValidatorInfo \<Rightarrow> ValidatorInfo) \<Rightarrow> ValidatorManager \<Rightarrow> ValidatorManager" where
  "entry_modify k f vm =
     (case vm_activeValidators vm ! k of
        VLive i \<Rightarrow> vm_modify i f vm
      | VGone v \<Rightarrow> vm\<lparr>vm_activeValidators := (vm_activeValidators vm)[k := VGone (f v)]\<rparr>)"

definition epoch_reward :: "VMEnv \<Rightarrow> uint64 \<Rightarrow> ValidatorManager \<Rightarrow> ValidatorInfo \<Rightarrow> uint64" where
  "epoch_reward env totalReward vm v =
     (let stakeRatio = f64_div (f64_of_int (uint (vi_Stake v))) (f64_of_int (uint (vm_activeTotalStake vm)));
          blockComponent = f64_mul (f64_mul (vm_blockRewardWeight vm) stakeRatio) (f64_of_int (uint (vi_BlocksProduced v)));
          eventComponent = f64_mul (f64_mul (vm_eventRewardWeight vm) stakeRatio) (f64_of_int (uint (vi_EventsFinalized v)));
          validatorRewardRatio = f64_div (f64_add blockComponent eventComponent)
                                   (f64_of_int (int (length (vm_activeValidators vm))))
      in f64_to_uint64 (ve_conv env) (f64_mul (f64_of_int (uint totalReward)) validatorRewardRatio))"

fun vm_reward_loop :: "VMEnv \<Rightarrow> uint64 \<Rightarrow> nat list \<Rightarrow> ValidatorManager \<Rightarrow> ValidatorManager" where
  "vm_reward_loop env totalReward [] vm = vm"
| "vm_reward_loop env totalReward (k # ks) vm =
     (let v = vm_obj vm (vm_activeValidators vm ! k);
          reward = epoch_reward env totalReward vm v;
          vm1 = entry_modify k (\<lambda>v. v\<lparr>vi_Stake := vi_Stake v + reward, vi_BlocksProduced := 0, vi_EventsFinalized := 0\<rparr>) vm
      in vm_reward_loop env totalReward ks
           (vm1\<lparr>vm_totalStake := vm_totalStake vm1 + reward, vm_activeTotalStake := vm_activeTotalStake vm1 + reward\<rparr>))"

definition ValidatorManager_distributeEpochRewards :: "VMEnv \<Rightarrow> uint64 \<Rightarrow> ValidatorManager \<Rightarrow> ValidatorManager" where
  "ValidatorManager_distributeEpochRewards env epoch vm =
     (if vm_activeTotalStake vm = 0 then vm
      else vm_reward_loop env (calculateEpochReward env epoch) [0..<length (vm_activeValidators vm)] vm)"

definition vm_decay :: "VMEnv \<Rightarrow> ValidatorManager \<Rightarrow> ValidatorInfo \<Rightarrow> ValidatorInfo" where
  "vm_decay env vm v =
     (let hoursSinceLastUpdate = duration_hours (ve_now env - vi_LastRewardTime v) in
      if f64_lt f64_0 hoursSinceLastUpdate
      then v\<lparr>vi_Performance := f64_Max (vm_minPerformance vm)
                (f64_Min (f64_mul (vi_Performance v) (ve_pow env (vm_performanceDecayRate vm) hoursSinceLastUpdate)) (vm_maxPerformance vm)),
             vi_LastRewardTime := ve_now env\<rparr>
      else v)"

definition ValidatorManager_decayAllValidatorPerformance :: "VMEnv \<Rightarrow> ValidatorManager \<Rightarrow> ValidatorManager" where
  "ValidatorManager_decayAllValidatorPerformance env vm =
     vm\<lparr>vm_validators := (\<lambda>i. map_option (vm_decay env vm) (vm_validators vm i))\<rparr>"

definition ValidatorManager_ProcessEpoch :: "VMEnv \<Rightarrow> uint64 \<Rightarrow> vm_state \<Rightarrow> vm_result" where
  "ValidatorManager_ProcessEpoch env blockHeight st =
     (let epochDuration = DPoS_GetEpochDuration (st_dpos st) in
      if epochDuration = 0 then None
      else if blockHeight mod epochDuration \<noteq> 0 then Some (None, st)
      else
        let vm1 = ValidatorManager_distributeEpochRewards env (blockHeight div epochDuration) (st_vm st);
            vm2 = ValidatorManager_decayAllValidatorPerformance env vm1
        in case update_active env (st\<lparr>st_vm := vm2\<rparr>) of
             None \<Rightarrow> None
           | Some st1 \<Rightarrow> Some (None, st1\<lparr>st_vm := (st_vm st1)\<lparr>vm_lastRewardHeight := blockHeight\<rparr>\<rparr>))"

section \<open>Queries\<close>

definition ValidatorManager_IsActiveValidator :: "hash32 \<Rightarrow> ValidatorManager \<Rightarrow> bool" where
  "ValidatorManager_IsActiveValidator i vm =
     (case vm_validators vm i of None \<Rightarrow> False | Some v \<Rightarrow> vi_Status v = ValidatorStatusActive)"

definition ValidatorManager_GetValidators :: "hash32 list \<Rightarrow> ValidatorManager \<Rightarrow> types_Validator list" where
  "ValidatorManager_GetValidators order vm =
     map (\<lambda>i. (vi_ID (the (vm_validators vm i)), vi_Stake (the (vm_validators vm i)))) order"

definition ValidatorManager_GetActiveValidators :: "ValidatorManager \<Rightarrow> types_Validator list" where
  "ValidatorManager_GetActiveValidators vm =
     map (\<lambda>e. (vi_ID (vm_obj vm e), vi_Stake (vm_obj vm e))) (vm_activeValidators vm)"

definition ValidatorManager_GetTotalStake :: "ValidatorManager \<Rightarrow> uint64" where
  "ValidatorManager_GetTotalStake vm = vm_totalStake vm"

definition ValidatorManager_GetActiveTotalStake :: "ValidatorManager \<Rightarrow> uint64" where
  "ValidatorManager_GetActiveTotalStake vm = vm_activeTotalStake vm"

definition ValidatorManager_GetNextValidator :: "uint64 \<Rightarrow> hash32 \<Rightarrow> vm_state \<Rightarrow> types_Validator option" where
  "ValidatorManager_GetNextValidator blockNumber lastBlockHash st = DPoS_GetNextValidator blockNumber lastBlockHash (st_dpos st)"

section \<open>Saving and restoring\<close>

record validatorState =
  vs_ID :: string
  vs_Stake :: uint64
  vs_Status :: int
  vs_Performance :: float64
  vs_BlocksProduced :: uint64
  vs_EventsFinalized :: uint64
  vs_LastRewardTime :: int
  vs_JoinTime :: int
  vs_MisbehaviorCount :: uint64

record VMJSON =
  vj_Validators :: "(string \<times> validatorState) list"
  vj_ActiveValidators :: "string list"
  vj_TotalStake :: uint64
  vj_ActiveTotalStake :: uint64
  vj_PerformanceDecayRate :: float64
  vj_MinPerformance :: float64
  vj_MaxPerformance :: float64
  vj_BlockRewardWeight :: float64
  vj_EventRewardWeight :: float64
  vj_LastRewardHeight :: uint64

definition vm_json :: "hash32 list \<Rightarrow> ValidatorManager \<Rightarrow> VMJSON" where
  "vm_json order vm =
     \<lparr>vj_Validators = map (\<lambda>i. let v = the (vm_validators vm i); idStr = byteArrayToString i in
        (idStr, \<lparr>vs_ID = idStr, vs_Stake = vi_Stake v, vs_Status = vi_Status v, vs_Performance = vi_Performance v,
                 vs_BlocksProduced = vi_BlocksProduced v, vs_EventsFinalized = vi_EventsFinalized v,
                 vs_LastRewardTime = unix (vi_LastRewardTime v), vs_JoinTime = unix (vi_JoinTime v),
                 vs_MisbehaviorCount = vi_MisbehaviorCount v\<rparr>)) order,
      vj_ActiveValidators = map (\<lambda>e. byteArrayToString (vi_ID (vm_obj vm e))) (vm_activeValidators vm),
      vj_TotalStake = vm_totalStake vm, vj_ActiveTotalStake = vm_activeTotalStake vm,
      vj_PerformanceDecayRate = vm_performanceDecayRate vm, vj_MinPerformance = vm_minPerformance vm,
      vj_MaxPerformance = vm_maxPerformance vm, vj_BlockRewardWeight = vm_blockRewardWeight vm,
      vj_EventRewardWeight = vm_eventRewardWeight vm, vj_LastRewardHeight = vm_lastRewardHeight vm\<rparr>"

text \<open>\<open>json.Marshal\<close> refuses floats that are not finite.\<close>

definition json_floats_ok :: "VMJSON \<Rightarrow> bool" where
  "json_floats_ok s \<longleftrightarrow>
     (\<forall>x\<in>set ([vj_PerformanceDecayRate s, vj_MinPerformance s, vj_MaxPerformance s, vj_BlockRewardWeight s, vj_EventRewardWeight s] @
                map (\<lambda>(_, v). vs_Performance v) (vj_Validators s)). x \<noteq> NaN \<and> x \<noteq> PInf \<and> x \<noteq> NInf)"

definition ValidatorManager_GetState :: "hash32 list \<Rightarrow> ValidatorManager \<Rightarrow> string + VMJSON" where
  "ValidatorManager_GetState order vm =
     (if json_floats_ok (vm_json order vm) then Inr (vm_json order vm) else Inl ''json: unsupported value'')"

text \<open>\<open>fmt.Sscanf(s, "%x", &id)\<close> with an array \<open>id\<close>: the scanner of package \<open>fmt\<close> stores into booleans, numbers, strings and
  byte slices; for any other type, an array included, it returns the error \<open>can't scan type\<close>.\<close>

definition Sscanf_x_array :: "string \<Rightarrow> string + hash32" where
  "Sscanf_x_array s = Inl ''can't scan type: *[32]uint8''"

definition err_restore :: "VMEnv \<Rightarrow> string \<Rightarrow> string \<Rightarrow> ConsensusError" where
  "err_restore env msg err =
     ConsensusError_WithContext ''error'' (CtxString err) (NewConsensusError (ve_now env) ErrStateInconsistency ErrorCategoryState msg)"

fun restore_vms ::
    "VMEnv \<Rightarrow> (string \<times> validatorState) list \<Rightarrow> (hash32 \<rightharpoonup> ValidatorInfo) \<Rightarrow> ConsensusError option \<times> (hash32 \<rightharpoonup> ValidatorInfo)" where
  "restore_vms env [] m = (None, m)"
| "restore_vms env ((idStr, v) # rest) m =
     (case Sscanf_x_array idStr of
        Inl err \<Rightarrow> (Some (err_restore env (''failed to parse validator ID '' @ idStr) err), m)
      | Inr i \<Rightarrow> restore_vms env rest (m(i \<mapsto>
          \<lparr>vi_ID = i, vi_Stake = vs_Stake v, vi_Status = vs_Status v, vi_Performance = vs_Performance v,
           vi_BlocksProduced = vs_BlocksProduced v, vi_EventsFinalized = vs_EventsFinalized v,
           vi_LastRewardTime = vs_LastRewardTime v * second, vi_JoinTime = vs_JoinTime v * second,
           vi_MisbehaviorCount = vs_MisbehaviorCount v\<rparr>)))"

fun restore_vm_active ::
    "VMEnv \<Rightarrow> (hash32 \<rightharpoonup> ValidatorInfo) \<Rightarrow> string list \<Rightarrow> vm_entry list \<Rightarrow> ConsensusError option \<times> vm_entry list" where
  "restore_vm_active env m [] act = (None, act)"
| "restore_vm_active env m (idStr # rest) act =
     (case Sscanf_x_array idStr of
        Inl err \<Rightarrow> (Some (err_restore env (''failed to parse active validator ID '' @ idStr) err), act)
      | Inr i \<Rightarrow> restore_vm_active env m rest (if m i = None then act else act @ [VLive i]))"

definition ValidatorManager_RestoreState :: "VMEnv \<Rightarrow> (string + VMJSON) \<Rightarrow> ValidatorManager \<Rightarrow> ConsensusError option \<times> ValidatorManager" where
  "ValidatorManager_RestoreState env data vm =
     (case data of
        Inl err \<Rightarrow> (Some (err_restore env ''failed to unmarshal validator manager state'' err), vm)
      | Inr s \<Rightarrow>
          let vm1 = vm\<lparr>vm_activeValidators := map (\<lambda>e. VGone (vm_obj vm e)) (vm_activeValidators vm)\<rparr> in
          (case restore_vms env (vj_Validators s) Map.empty of
             (Some e, m) \<Rightarrow> (Some e, vm1\<lparr>vm_validators := m\<rparr>)
           | (None, m) \<Rightarrow>
               (case restore_vm_active env m (vj_ActiveValidators s) [] of
                  (Some e, act) \<Rightarrow> (Some e, vm1\<lparr>vm_validators := m, vm_activeValidators := act\<rparr>)
                | (None, act) \<Rightarrow>
                    (None, \<lparr>vm_validators = m, vm_activeValidators = act, vm_totalStake = vj_TotalStake s,
                            vm_activeTotalStake = vj_ActiveTotalStake s, vm_performanceDecayRate = vj_PerformanceDecayRate s,
                            vm_minPerformance = vj_MinPerformance s, vm_maxPerformance = vj_MaxPerformance s,
                            vm_blockRewardWeight = vj_BlockRewardWeight s, vm_eventRewardWeight = vj_EventRewardWeight s,
                            vm_lastRewardHeight = vj_LastRewardHeight s\<rparr>))))"

section \<open>The sort\<close>

text \<open>Scores that are numbers are totally ordered.\<close>

lemma f64_lt_not_le: "a \<noteq> NaN \<Longrightarrow> b \<noteq> NaN \<Longrightarrow> c \<noteq> NaN \<Longrightarrow> f64_lt a b \<Longrightarrow> \<not> f64_lt a c \<Longrightarrow> \<not> f64_lt b c"
  using f64_lt_trans by blast

lemma mset_swap_nth: "i < length xs \<Longrightarrow> j < length xs \<Longrightarrow> mset (xs[i := xs ! j, j := xs ! i]) = mset xs"
  by (rule mset_swap)

lemma sort_inner_spec:
  assumes "i < j" and "i < length xs" and "\<forall>x\<in>set xs. sc x \<noteq> NaN"
    and "\<forall>k. i < k \<and> k < j \<and> k < length xs \<longrightarrow> \<not> f64_lt (sc (xs ! i)) (sc (xs ! k))"
  shows "mset (sort_inner sc i j xs) = mset xs \<and> (\<forall>k<i. sort_inner sc i j xs ! k = xs ! k) \<and>
    (\<forall>k. i < k \<and> k < length xs \<longrightarrow> \<not> f64_lt (sc (sort_inner sc i j xs ! i)) (sc (sort_inner sc i j xs ! k)))"
  using assms
proof (induction sc i j xs rule: sort_inner.induct)
  case (1 sc i j xs)
  show ?case
  proof (cases "j < length xs")
    case False
    then show ?thesis using 1(5) by (simp add: sort_inner.simps [of sc i j xs])
  next
    case True
    define ys where "ys = (if f64_lt (sc (xs ! i)) (sc (xs ! j)) then xs[i := xs ! j, j := xs ! i] else xs)"
    have step: "sort_inner sc i j xs = sort_inner sc i (Suc j) ys" using True by (simp add: sort_inner.simps [of sc i j xs] ys_def)
    have ms: "mset ys = mset xs" using True 1(2,3) by (simp add: ys_def mset_swap_nth)
    then have "set ys = set xs" by (rule mset_eq_setD)
    then have nan: "\<forall>x\<in>set ys. sc x \<noteq> NaN" using 1(4) by simp
    have xi: "sc (xs ! i) \<noteq> NaN" "sc (xs ! j) \<noteq> NaN" using 1(3,4) True by auto
    have len: "length ys = length xs" by (simp add: ys_def)
    have mx: "\<forall>k. i < k \<and> k < Suc j \<and> k < length ys \<longrightarrow> \<not> f64_lt (sc (ys ! i)) (sc (ys ! k))"
    proof (intro allI impI)
      fix k
      assume k: "i < k \<and> k < Suc j \<and> k < length ys"
      then have kn: "sc (xs ! k) \<noteq> NaN" using 1(4) len by auto
      show "\<not> f64_lt (sc (ys ! i)) (sc (ys ! k))"
      proof (cases "f64_lt (sc (xs ! i)) (sc (xs ! j))")
        case False
        then show ?thesis using k 1(5) len by (cases "k = j") (simp_all add: ys_def)
      next
        case lt: True
        have ij: "ys ! i = xs ! j" using lt 1(2,3) True by (simp add: ys_def)
        show ?thesis
        proof (cases "k = j")
          case True
          then have "ys ! k = xs ! i" using lt \<open>j < length xs\<close> by (simp add: ys_def)
          then show ?thesis unfolding ij using f64_lt_trans [OF lt, of "sc (xs ! i)"] by auto
        next
          case False
          then have "ys ! k = xs ! k" "\<not> f64_lt (sc (xs ! i)) (sc (xs ! k))" using lt k 1(5) len by (simp_all add: ys_def)
          then show ?thesis unfolding ij using f64_lt_not_le [OF xi kn lt] by simp
        qed
      qed
    qed
    have keep: "\<forall>k<i. ys ! k = xs ! k" using 1(2) by (simp add: ys_def)
    have "mset (sort_inner sc i (Suc j) ys) = mset ys \<and> (\<forall>k<i. sort_inner sc i (Suc j) ys ! k = ys ! k) \<and>
      (\<forall>k. i < k \<and> k < length ys \<longrightarrow> \<not> f64_lt (sc (sort_inner sc i (Suc j) ys ! i)) (sc (sort_inner sc i (Suc j) ys ! k)))"
      using 1(1) [OF True, folded ys_def] 1(2,3) nan mx len by simp
    then show ?thesis unfolding step using ms keep len by simp
  qed
qed

lemma sort_outer_spec:
  assumes "\<forall>x\<in>set xs. sc x \<noteq> NaN"
    and "\<forall>a b. a < b \<and> b < length xs \<and> a < i \<longrightarrow> \<not> f64_lt (sc (xs ! a)) (sc (xs ! b))"
  shows "mset (sort_outer sc i xs) = mset xs \<and>
    (\<forall>a b. a < b \<and> b < length xs \<longrightarrow> \<not> f64_lt (sc (sort_outer sc i xs ! a)) (sc (sort_outer sc i xs ! b)))"
  using assms
proof (induction sc i xs rule: sort_outer.induct)
  case (1 sc i xs)
  show ?case
  proof (cases "i < length xs")
    case False
    then show ?thesis using 1(3) by (simp add: sort_outer.simps [of sc i xs])
  next
    case True
    define ys where "ys = sort_inner sc i (Suc i) xs"
    have "\<forall>k. i < k \<and> k < Suc i \<and> k < length xs \<longrightarrow> \<not> f64_lt (sc (xs ! i)) (sc (xs ! k))" by auto
    note inner = sort_inner_spec [OF _ True 1(2) this]
    have S: "mset ys = mset xs" "\<forall>k<i. ys ! k = xs ! k"
      "\<forall>k. i < k \<and> k < length xs \<longrightarrow> \<not> f64_lt (sc (ys ! i)) (sc (ys ! k))"
      unfolding ys_def using inner by simp_all
    have step: "sort_outer sc i xs = sort_outer sc (Suc i) ys" using True by (simp add: sort_outer.simps [of sc i xs] ys_def)
    have set: "set ys = set xs" and len: "length ys = length xs" using S(1) by (auto dest: mset_eq_setD mset_eq_length)
    have tail: "set (drop i ys) = set (drop i xs)"
    proof -
      have "take i ys = take i xs" using S(2) len True by (intro nth_take_lemma) auto
      then have "mset (drop i ys) = mset (drop i xs)" using S(1)
        by (metis add_left_cancel append_take_drop_id mset_append)
      then show ?thesis by (rule mset_eq_setD)
    qed
    have inv: "\<forall>a b. a < b \<and> b < length ys \<and> a < Suc i \<longrightarrow> \<not> f64_lt (sc (ys ! a)) (sc (ys ! b))"
    proof (intro allI impI)
      fix a b
      assume ab: "a < b \<and> b < length ys \<and> a < Suc i"
      consider "a = i" | "a < i" "b < i" | "a < i" "i \<le> b" using ab by linarith
      then show "\<not> f64_lt (sc (ys ! a)) (sc (ys ! b))"
      proof cases
        case 3
        then have "ys ! b \<in> set (drop i xs)" using ab unfolding tail [symmetric] by (auto simp: in_set_conv_nth intro!: exI [of _ "b - i"])
        then obtain m where "m < length xs - i" "xs ! (i + m) = ys ! b" by (auto simp: in_set_conv_nth)
        then have "\<not> f64_lt (sc (xs ! a)) (sc (ys ! b))" using 3(1) 1(3) [rule_format, of a "i + m"] by simp
        then show ?thesis using 3(1) S(2) by simp
      qed (use ab S 1(3) len in auto)
    qed
    have "mset (sort_outer sc (Suc i) ys) = mset ys \<and>
      (\<forall>a b. a < b \<and> b < length ys \<longrightarrow> \<not> f64_lt (sc (sort_outer sc (Suc i) ys ! a)) (sc (sort_outer sc (Suc i) ys ! b)))"
      using 1(1) [OF True, folded ys_def] inv 1(2) set by simp
    then show ?thesis unfolding step using S(1) len by simp
  qed
qed

lemma sort_inner_mset: "i < length xs \<Longrightarrow> mset (sort_inner sc i j xs) = mset xs"
proof (induction sc i j xs rule: sort_inner.induct)
  case (1 sc i j xs)
  then show ?case by (subst sort_inner.simps) (auto simp: mset_swap_nth)
qed

text \<open>Whatever the scores, the sort permutes the list.\<close>

lemma sort_mset [simp]: "mset (sortValidatorsByScore sc xs) = mset xs"
proof -
  have "mset (sort_outer sc i xs) = mset xs" for i
  proof (induction sc i xs rule: sort_outer.induct)
    case (1 sc i xs)
    then show ?case by (subst sort_outer.simps) (simp add: sort_inner_mset)
  qed
  then show ?thesis by (simp add: sortValidatorsByScore_def)
qed

lemma set_sort [simp]: "set (sortValidatorsByScore sc xs) = set xs"
  using sort_mset by (rule mset_eq_setD)

lemma distinct_sort [simp]: "distinct (sortValidatorsByScore sc xs) = distinct xs"
  using sort_mset by (rule mset_eq_imp_distinct_iff)

lemma length_sort [simp]: "length (sortValidatorsByScore sc xs) = length xs"
  using sort_mset by (rule mset_eq_length)

lemma sort_sorted:
  assumes "\<forall>x\<in>set xs. sc x \<noteq> NaN"
  shows "sorted_wrt (\<lambda>x y. \<not> f64_lt (sc x) (sc y)) (sortValidatorsByScore sc xs)"
  using sort_outer_spec [OF assms, of 0] length_sort [of sc xs]
  by (simp add: sorted_wrt_iff_nth_less sortValidatorsByScore_def)

section \<open>Every state the operations reach\<close>

definition vm_stakes :: "(hash32 \<rightharpoonup> ValidatorInfo) \<Rightarrow> hash32 set \<Rightarrow> uint64" where
  "vm_stakes m A = (\<Sum>i\<in>A. vi_Stake (the (m i)))"

definition vm_registry :: "ValidatorManager \<Rightarrow> bool" where
  "vm_registry vm \<longleftrightarrow>
     finite (dom (vm_validators vm)) \<and> (\<forall>i v. vm_validators vm i = Some v \<longrightarrow> vi_ID v = i) \<and>
     vm_totalStake vm = vm_stakes (vm_validators vm) (dom (vm_validators vm))"

definition vm_active :: "ValidatorManager \<Rightarrow> hash32 list \<Rightarrow> bool" where
  "vm_active vm ids \<longleftrightarrow>
     vm_activeValidators vm = map VLive ids \<and> distinct ids \<and> (\<forall>i\<in>set ids. ValidatorManager_IsActiveValidator i vm) \<and>
     vm_activeTotalStake vm = vm_stakes (vm_validators vm) (set ids)"

definition vm_inv :: "ValidatorManager \<Rightarrow> bool" where
  "vm_inv vm \<longleftrightarrow> vm_registry vm \<and> (\<exists>ids. vm_active vm ids)"

lemma vm_inv_registry: "vm_inv vm \<Longrightarrow> vm_registry vm"
  by (simp add: vm_inv_def)

lemma vm_stakes_update:
  assumes "finite A" and "i \<in> A" and "m i = Some v"
  shows "vm_stakes (m(i \<mapsto> v')) A = vm_stakes m A - vi_Stake v + vi_Stake v'"
  using sum.remove [OF assms(1,2), of "\<lambda>j. vi_Stake (the (m j))"] assms(3)
    sum.remove [OF assms(1,2), of "\<lambda>j. vi_Stake (the ((m(i \<mapsto> v')) j))"]
  by (simp add: vm_stakes_def)

lemma vm_stakes_other: "i \<notin> A \<Longrightarrow> vm_stakes (m(i \<mapsto> v')) A = vm_stakes m A"
  unfolding vm_stakes_def by (intro sum.cong) auto

lemma vm_stakes_cong: "(\<And>i. i \<in> A \<Longrightarrow> vi_Stake (the (m i)) = vi_Stake (the (m' i))) \<Longrightarrow> vm_stakes m A = vm_stakes m' A"
  unfolding vm_stakes_def by (intro sum.cong) auto

lemma updateActive_vm:
  assumes r: "range_order (vm_validators vm) order" and reg: "vm_registry vm"
    and u: "ValidatorManager_updateActiveValidators order n vm = Some vm'"
  shows "vm_inv vm'" and "vm_validators vm' = vm_validators vm"
proof -
  let ?act = "filter (\<lambda>i. vi_Status (the (vm_validators vm i)) = ValidatorStatusActive) order"
  let ?srt = "sortValidatorsByScore (\<lambda>i. vi_score (the (vm_validators vm i))) ?act"
  let ?stake = "\<lambda>i. vi_Stake (the (vm_validators vm i))"
  have dist: "distinct ?srt" using r by (simp add: range_order_def)
  have "mset (map ?stake ?act) = mset (map ?stake ?srt)" by simp
  then have sum: "sum_list (map ?stake ?act) = sum_list (map ?stake ?srt)" by (metis sum_mset_sum_list)
  define ids where "ids = (if int (length ?srt) > n then take (nat n) ?srt else ?srt)"
  have "vm' = vm\<lparr>vm_activeValidators := map VLive ids, vm_activeTotalStake := sum_list (map ?stake ids)\<rparr>"
    using u unfolding ids_def ValidatorManager_updateActiveValidators_def Let_def sum by (simp split: if_splits)
  moreover have "set ids \<subseteq> set ?act" using set_take_subset [of "nat n" ?srt] by (simp add: ids_def)
  moreover have "distinct ids" using dist by (simp add: ids_def)
  ultimately have "\<exists>ids. distinct ids \<and> set ids \<subseteq> set ?act \<and>
      vm' = vm\<lparr>vm_activeValidators := map VLive ids, vm_activeTotalStake := sum_list (map ?stake ids)\<rparr>" by blast
  then obtain ids where ids: "distinct ids" "set ids \<subseteq> set ?act"
    and vm': "vm' = vm\<lparr>vm_activeValidators := map VLive ids, vm_activeTotalStake := sum_list (map ?stake ids)\<rparr>" by blast
  then show "vm_validators vm' = vm_validators vm" by simp
  have "\<forall>i\<in>set ids. ValidatorManager_IsActiveValidator i vm"
    using ids(2) r by (auto simp: ValidatorManager_IsActiveValidator_def range_order_def split: option.splits)
  then have "vm_active vm' ids"
    using ids(1) by (simp add: vm_active_def vm' ValidatorManager_IsActiveValidator_def vm_stakes_def sum_list_distinct_conv_sum_set)
  then show "vm_inv vm'" using reg by (auto simp: vm_inv_def vm' vm_registry_def)
qed

text \<open>An operation that ends with \<open>updateActiveValidators\<close> only has to keep the registry.\<close>

lemma update_active_ok:
  assumes "update_active env st1 = Some st'" and "vm_registry (st_vm st1)"
    and "range_order (vm_validators (st_vm st')) (ve_order env)"
  shows "vm_inv (st_vm st')"
proof -
  obtain vm where u: "ValidatorManager_updateActiveValidators (ve_order env) (DPoS_GetSetSize (st_dpos st1)) (st_vm st1) = Some vm"
    and st': "st' = st1\<lparr>st_vm := vm\<rparr>" using assms(1) by (auto simp: update_active_def split: option.splits)
  have same: "vm_validators vm = vm_validators (st_vm st1)"
    using u by (auto simp: ValidatorManager_updateActiveValidators_def Let_def split: if_splits)
  then have "range_order (vm_validators (st_vm st1)) (ve_order env)" using assms(3) st' by simp
  from updateActive_vm(1) [OF this assms(2) u] show ?thesis using st' by simp
qed

lemma vm_done_ok:
  "vm_done (update_active env st1) = Some (e, st') \<Longrightarrow> vm_registry (st_vm st1) \<Longrightarrow>
   range_order (vm_validators (st_vm st')) (ve_order env) \<Longrightarrow> vm_inv (st_vm st')"
  by (auto simp: vm_done_def intro: update_active_ok)

lemma registry_new:
  assumes "vm_registry vm" and "vm_validators vm i = None" and "vi_ID v = i"
    and "vm_totalStake vm' = vm_totalStake vm + vi_Stake v" and "vm_validators vm' = (vm_validators vm)(i \<mapsto> v)"
  shows "vm_registry vm'"
proof -
  have i: "i \<notin> dom (vm_validators vm)" using assms(2) by auto
  have "vm_stakes ((vm_validators vm)(i \<mapsto> v)) (insert i (dom (vm_validators vm))) =
      vi_Stake v + vm_stakes ((vm_validators vm)(i \<mapsto> v)) (dom (vm_validators vm))"
    using assms(1) i by (simp add: vm_stakes_def vm_registry_def)
  then show ?thesis using assms i by (auto simp: vm_registry_def vm_stakes_other)
qed

lemma registry_set:
  assumes "vm_registry vm" and "vm_validators vm i = Some v" and "vm_validators vm' = (vm_validators vm)(i \<mapsto> v')"
    and "vi_ID v' = vi_ID v" and "vm_totalStake vm' = vm_totalStake vm - vi_Stake v + vi_Stake v'"
  shows "vm_registry vm'"
proof -
  have i: "i \<in> dom (vm_validators vm)" using assms(2) by auto
  then have dom: "dom (vm_validators vm') = dom (vm_validators vm)" by (auto simp: assms(3))
  have "vm_stakes (vm_validators vm') (dom (vm_validators vm)) = vm_totalStake vm - vi_Stake v + vi_Stake v'"
    using vm_stakes_update [of "dom (vm_validators vm)" i _ v v'] assms(1,2) i by (simp add: vm_registry_def assms(3))
  then have total: "vm_totalStake vm' = vm_stakes (vm_validators vm') (dom (vm_validators vm))" using assms(5) by simp
  have ids: "vi_ID w = j" if "vm_validators vm' j = Some w" for j w
  proof (cases "j = i")
    case True
    then have "w = v'" using that assms(3) by simp
    moreover have "vi_ID v = i" using assms(1,2) unfolding vm_registry_def by blast
    ultimately show ?thesis using True assms(4) by simp
  next
    case False
    then have "vm_validators vm j = Some w" using that assms(3) by simp
    then show ?thesis using assms(1) unfolding vm_registry_def by blast
  qed
  have fin: "finite (dom (vm_validators vm))" using assms(1) unfolding vm_registry_def by blast
  show ?thesis unfolding vm_registry_def dom using fin ids total by blast
qed

lemma vm_modify_validators: "vm_validators vm i = Some v \<Longrightarrow> vm_validators (vm_modify i f vm) = (vm_validators vm)(i \<mapsto> f v)"
  by (simp add: vm_modify_def map_modify_def)

lemma vm_modify_fields [simp]:
  "vm_totalStake (vm_modify i f vm) = vm_totalStake vm" "vm_activeTotalStake (vm_modify i f vm) = vm_activeTotalStake vm"
  "vm_activeValidators (vm_modify i f vm) = vm_activeValidators vm"
  by (simp_all add: vm_modify_def)

lemma registry_modify:
  assumes "vm_registry vm" and "vm_validators vm i = Some v" and "vi_ID (f v) = vi_ID v" and "vi_Stake (f v) = vi_Stake v"
  shows "vm_registry (vm_modify i f vm)"
  by (rule registry_set [OF assms(1,2) vm_modify_validators [OF assms(2)]]) (simp_all add: assms(3,4))

text \<open>Changes that leave ID, stake and status alone keep the invariant.\<close>

lemma vm_inv_map:
  assumes "vm_inv vm" and "\<And>i v. vi_ID (f i v) = vi_ID v \<and> vi_Stake (f i v) = vi_Stake v \<and> vi_Status (f i v) = vi_Status v"
    and "vm_validators vm' = (\<lambda>i. map_option (f i) (vm_validators vm i))" and "vm_activeValidators vm' = vm_activeValidators vm"
    and "vm_totalStake vm' = vm_totalStake vm" "vm_activeTotalStake vm' = vm_activeTotalStake vm"
  shows "vm_inv vm'"
proof -
  obtain ids where reg: "vm_registry vm" and ids: "vm_active vm ids" using assms(1) by (auto simp: vm_inv_def)
  have dom: "dom (vm_validators vm') = dom (vm_validators vm)" by (auto simp: assms(3))
  have act: "ValidatorManager_IsActiveValidator i vm' = ValidatorManager_IsActiveValidator i vm" for i
    using assms(2) by (simp add: ValidatorManager_IsActiveValidator_def assms(3) split: option.splits)
  have "vm_stakes (vm_validators vm') A = vm_stakes (vm_validators vm) A" if "A \<subseteq> dom (vm_validators vm)" for A
    using that assms(2) by (intro vm_stakes_cong) (auto simp: assms(3))
  moreover have "set ids \<subseteq> dom (vm_validators vm)"
    using ids by (auto simp: vm_active_def ValidatorManager_IsActiveValidator_def split: option.splits)
  ultimately have "vm_active vm' ids" "vm_registry vm'"
    using ids reg assms(2,4-6) by (auto simp: vm_active_def act vm_registry_def dom) (auto simp: assms(3))
  then show ?thesis by (auto simp: vm_inv_def)
qed

lemma vm_inv_modify:
  assumes "vm_inv vm" and "\<And>v. vi_ID (f v) = vi_ID v \<and> vi_Stake (f v) = vi_Stake v \<and> vi_Status (f v) = vi_Status v"
  shows "vm_inv (vm_modify i f vm)"
proof (rule vm_inv_map [OF assms(1)])
  show "vi_ID ((if j = i then f else id) v) = vi_ID v \<and> vi_Stake ((if j = i then f else id) v) = vi_Stake v \<and>
      vi_Status ((if j = i then f else id) v) = vi_Status v" for j v using assms(2) by simp
  show "vm_validators (vm_modify i f vm) = (\<lambda>j. map_option (if j = i then f else id) (vm_validators vm j))"
    by (auto simp: vm_modify_def map_modify_apply option.map_id)
qed simp_all

lemma performance_frame [simp]:
  "vi_ID (ValidatorManager_updateValidatorPerformance env vm v) = vi_ID v"
  "vi_Stake (ValidatorManager_updateValidatorPerformance env vm v) = vi_Stake v"
  "vi_Status (ValidatorManager_updateValidatorPerformance env vm v) = vi_Status v"
  by (simp_all add: ValidatorManager_updateValidatorPerformance_def Let_def)

lemma vm_decay_frame [simp]:
  "vi_ID (vm_decay env vm v) = vi_ID v" "vi_Stake (vm_decay env vm v) = vi_Stake v" "vi_Status (vm_decay env vm v) = vi_Status v"
  by (simp_all add: vm_decay_def Let_def)

lemma reward_entry_vm:
  assumes reg: "vm_registry vm" and act: "vm_active vm ids" and k: "k < length ids"
    and vm1: "vm1 = entry_modify k (\<lambda>v. v\<lparr>vi_Stake := vi_Stake v + r, vi_BlocksProduced := 0, vi_EventsFinalized := 0\<rparr>) vm"
  shows "vm_registry (vm1\<lparr>vm_totalStake := vm_totalStake vm1 + r, vm_activeTotalStake := vm_activeTotalStake vm1 + r\<rparr>) \<and>
    vm_active (vm1\<lparr>vm_totalStake := vm_totalStake vm1 + r, vm_activeTotalStake := vm_activeTotalStake vm1 + r\<rparr>) ids"
proof -
  let ?i = "ids ! k" and ?vm2 = "vm1\<lparr>vm_totalStake := vm_totalStake vm1 + r, vm_activeTotalStake := vm_activeTotalStake vm1 + r\<rparr>"
  have "ValidatorManager_IsActiveValidator ?i vm" using act k by (simp add: vm_active_def)
  then obtain v where v: "vm_validators vm ?i = Some v" "vi_Status v = ValidatorStatusActive"
    by (auto simp: ValidatorManager_IsActiveValidator_def split: option.splits)
  let ?v = "v\<lparr>vi_Stake := vi_Stake v + r, vi_BlocksProduced := 0, vi_EventsFinalized := 0\<rparr>"
  have f: "vm_validators vm1 = (vm_validators vm)(?i \<mapsto> ?v)" "vm_activeValidators vm1 = vm_activeValidators vm"
    "vm_totalStake vm1 = vm_totalStake vm" "vm_activeTotalStake vm1 = vm_activeTotalStake vm"
    using act k v(1) by (simp_all add: vm1 entry_modify_def vm_active_def vm_modify_validators)
  have "vm_registry ?vm2" by (rule registry_set [OF reg v(1), where v' = ?v]) (simp_all add: f)
  moreover have "vm_active ?vm2 ids"
    using act k v vm_stakes_update [of "set ids" ?i "vm_validators vm" v ?v]
    by (auto simp: vm_active_def f ValidatorManager_IsActiveValidator_def)
  ultimately show ?thesis by blast
qed

lemma reward_loop_vm:
  "vm_registry vm \<Longrightarrow> vm_active vm ids \<Longrightarrow> set ks \<subseteq> {..<length ids} \<Longrightarrow>
   vm_registry (vm_reward_loop env tr ks vm) \<and> vm_active (vm_reward_loop env tr ks vm) ids"
proof (induction ks arbitrary: vm)
  case (Cons k ks)
  show ?case using reward_entry_vm [OF Cons.prems(1,2), of k, OF _ refl] Cons.prems(3) Cons.IH by (simp add: Let_def)
qed simp

lemma distribute_inv: "vm_inv vm \<Longrightarrow> vm_inv (ValidatorManager_distributeEpochRewards env epoch vm)"
proof -
  assume inv: "vm_inv vm"
  then obtain ids where ids: "vm_active vm ids" by (auto simp: vm_inv_def)
  then have "set [0..<length (vm_activeValidators vm)] \<subseteq> {..<length ids}" by (auto simp: vm_active_def)
  from reward_loop_vm [OF vm_inv_registry [OF inv] ids this] inv show ?thesis
    by (auto simp: vm_inv_def ValidatorManager_distributeEpochRewards_def)
qed

text \<open>Every operation with its result; a range over the registry after an operation visits each entry once. What
  happens to the other modules in between is arbitrary.\<close>

text \<open>The operations that write the manager, but for \<open>RestoreState\<close>, and changes of the two other modules behind its back.\<close>

inductive vm_step :: "vm_state \<Rightarrow> vm_state \<Rightarrow> bool" where
  call: "op \<in> {ValidatorManager_AddValidator env i stake, ValidatorManager_UpdateStake env i stake,
      ValidatorManager_ActivateValidator env i, ValidatorManager_DeactivateValidator env i,
      ValidatorManager_SlashValidator env i stake, ValidatorManager_JailValidator env i,
      ValidatorManager_UnjailValidator env i, ValidatorManager_ProcessEpoch env blockHeight} \<Longrightarrow>
    op st = Some (e, st') \<Longrightarrow> range_order (vm_validators (st_vm st')) (ve_order env) \<Longrightarrow> vm_step st st'"
| block: "vm_step st (snd (ValidatorManager_RewardBlockProduction env i h st))"
| event: "vm_step st (snd (ValidatorManager_RewardEventFinalization env i h st))"
| others: "vm_step st (st\<lparr>st_dpos := d, st_lachesis := l\<rparr>)"

lemma slash_total: "(t :: uint64) - a = t - s + (s - a)"
  by simp

lemma unjail_inv:
  assumes "vm_inv (st_vm st)" and "vm_validators (st_vm st) i = Some v" and "vi_Status v = ValidatorStatusJailed"
  shows "vm_inv (st_vm (set_vi_status i ValidatorStatusInactive st))"
proof -
  let ?vm = "vm_modify i (\<lambda>v. v\<lparr>vi_Status := ValidatorStatusInactive\<rparr>) (st_vm st)"
  obtain ids where ids: "vm_active (st_vm st) ids" using assms(1) by (auto simp: vm_inv_def)
  then have i: "i \<notin> set ids" using assms(2,3) by (auto simp: vm_active_def ValidatorManager_IsActiveValidator_def status_defs)
  have vals: "vm_validators ?vm = (vm_validators (st_vm st))(i \<mapsto> v\<lparr>vi_Status := ValidatorStatusInactive\<rparr>)"
    using assms(2) by (rule vm_modify_validators)
  have "ValidatorManager_IsActiveValidator j ?vm" if "j \<in> set ids" for j
    using that ids i by (auto simp: vm_active_def ValidatorManager_IsActiveValidator_def vals)
  then have "vm_active ?vm ids" using ids i by (auto simp: vm_active_def vals vm_stakes_other)
  moreover have "vm_registry ?vm" using vm_inv_registry [OF assms(1)] assms(2) by (rule registry_modify) simp_all
  ultimately show ?thesis by (auto simp: vm_inv_def set_vi_status_def)
qed

lemma epoch_vm_inv:
  assumes e: "ValidatorManager_ProcessEpoch env h st = Some (err, st')"
    and r: "range_order (vm_validators (st_vm st')) (ve_order env)" and inv: "vm_inv (st_vm st)"
  shows "vm_inv (st_vm st')"
proof (cases "h mod DPoS_GetEpochDuration (st_dpos st) = 0")
  case False
  then show ?thesis using e inv by (simp add: ValidatorManager_ProcessEpoch_def Let_def split: if_splits)
next
  case True
  let ?vm1 = "ValidatorManager_distributeEpochRewards env (h div DPoS_GetEpochDuration (st_dpos st)) (st_vm st)"
  let ?vm2 = "ValidatorManager_decayAllValidatorPerformance env ?vm1"
  obtain st1 where st1: "update_active env (st\<lparr>st_vm := ?vm2\<rparr>) = Some st1"
    and st': "st' = st1\<lparr>st_vm := (st_vm st1)\<lparr>vm_lastRewardHeight := h\<rparr>\<rparr>"
    using e True by (auto simp: ValidatorManager_ProcessEpoch_def Let_def split: if_splits option.splits)
  have "vm_inv ?vm2"
    by (rule vm_inv_map [OF distribute_inv [OF inv], where f = "\<lambda>_. vm_decay env ?vm1"])
       (simp_all add: ValidatorManager_decayAllValidatorPerformance_def)
  then have "vm_inv (st_vm st1)" using update_active_ok [OF st1] r by (simp add: st' vm_inv_registry)
  then show ?thesis
    by (simp add: st' vm_inv_def vm_registry_def vm_active_def ValidatorManager_IsActiveValidator_def)
qed

lemma vm_step_inv:
  assumes "vm_step st st'" and inv: "vm_inv (st_vm st)"
  shows "vm_inv (st_vm st')"
  using assms(1)
proof cases
  case (call op env i stake blockHeight e)
  note reg = vm_inv_registry [OF inv]
  consider "op = ValidatorManager_AddValidator env i stake" | "op = ValidatorManager_UpdateStake env i stake"
    | "op = ValidatorManager_ActivateValidator env i" | "op = ValidatorManager_DeactivateValidator env i"
    | "op = ValidatorManager_SlashValidator env i stake" | "op = ValidatorManager_JailValidator env i"
    | "op = ValidatorManager_UnjailValidator env i" | "op = ValidatorManager_ProcessEpoch env blockHeight"
    using call(1) by blast
  then show ?thesis
  proof cases
    case 1
    then show ?thesis using call(2,3) inv
      by (auto simp: ValidatorManager_AddValidator_def Let_def split: if_splits option.splits
          intro!: registry_new [OF reg] elim!: vm_done_ok)
  next
    case 2
    then show ?thesis using call(2,3) inv
      by (auto simp: ValidatorManager_UpdateStake_def Let_def vm_modify_def map_modify_def split: if_splits option.splits
          intro!: registry_set [OF reg] elim!: vm_done_ok)
  next
    case 3
    then show ?thesis using call(2,3) inv
      by (auto simp: ValidatorManager_ActivateValidator_def set_vi_status_def split: if_splits option.splits
          intro!: registry_modify [OF reg] elim!: vm_done_ok)
  next
    case 4
    then show ?thesis using call(2,3) inv
      by (auto simp: ValidatorManager_DeactivateValidator_def set_vi_status_def split: if_splits option.splits
          intro!: registry_modify [OF reg] elim!: vm_done_ok)
  next
    case 5
    then show ?thesis using call(2,3) inv
      by (auto simp: ValidatorManager_SlashValidator_def Let_def status_defs slash_total split: if_splits option.splits
          intro!: registry_set [OF reg] elim!: vm_done_ok)
  next
    case 6
    then show ?thesis using call(2,3) inv
      by (auto simp: ValidatorManager_JailValidator_def split: if_splits option.splits
          intro!: registry_modify [OF reg] elim!: vm_done_ok)
  next
    case 7
    then show ?thesis using call(2) inv unjail_inv [OF inv]
      by (auto simp: ValidatorManager_UnjailValidator_def split: if_splits option.splits)
  next
    case 8
    then show ?thesis using epoch_vm_inv [OF _ call(3) inv] call(2) by blast
  qed
next
  case (block env i h)
  then show ?thesis using inv
    by (auto simp: ValidatorManager_RewardBlockProduction_def split: option.splits intro!: vm_inv_modify)
next
  case (event env i h)
  then show ?thesis using inv
    by (auto simp: ValidatorManager_RewardEventFinalization_def split: option.splits intro!: vm_inv_modify)
qed (use inv in simp)

lemma new_vm_inv: "vm_inv NewValidatorManager"
  by (auto simp: vm_inv_def vm_registry_def vm_active_def NewValidatorManager_def vm_stakes_def intro!: exI [of _ "[]"])

lemma vm_steps_inv: "vm_step\<^sup>*\<^sup>* st st' \<Longrightarrow> vm_inv (st_vm st) \<Longrightarrow> vm_inv (st_vm st')"
  by (induction rule: rtranclp_induct) (auto intro: vm_step_inv)

text \<open>C28: In every state a new manager reaches by its operations other than \<open>RestoreState\<close>, whatever happens to the other modules, each validator is filed under its own ID,
  the total stake is the sum (modulo 2^64) of all stakes, the active list names without repetition validators that are registered with the status active, so no jailed, slashed
  or inactive one, and the active total is the sum of their stakes. \<open>RestoreState\<close> is left out because the statement fails after it: it does not add up what it reads.\<close>

theorem validators_accounted:
  assumes "vm_step\<^sup>*\<^sup>* (st\<lparr>st_vm := NewValidatorManager\<rparr>) st'"
  defines "vm \<equiv> st_vm st'"
  shows "(\<forall>i v. vm_validators vm i = Some v \<longrightarrow> vi_ID v = i) \<and>
    vm_totalStake vm = (\<Sum>i\<in>dom (vm_validators vm). vi_Stake (the (vm_validators vm i))) \<and>
    (\<exists>ids. vm_activeValidators vm = map VLive ids \<and> distinct ids \<and>
      (\<forall>i\<in>set ids. \<exists>v. vm_validators vm i = Some v \<and> vi_Status v = ValidatorStatusActive) \<and>
      vm_activeTotalStake vm = (\<Sum>i\<in>set ids. vi_Stake (the (vm_validators vm i))))"
proof -
  have "vm_inv vm" unfolding vm_def by (rule vm_steps_inv [OF assms(1)]) (simp add: new_vm_inv)
  then obtain ids where "vm_registry vm" "vm_active vm ids" by (auto simp: vm_inv_def)
  then show ?thesis
    by (auto simp: vm_registry_def vm_active_def vm_stakes_def ValidatorManager_IsActiveValidator_def split: option.splits
        intro!: exI [of _ ids])
qed

definition vm_env :: "hash32 list \<Rightarrow> VMEnv" where
  "vm_env order = \<lparr>ve_now = 0, ve_lastReward = 0, ve_join = 0, ve_dposNow = 0, ve_order = order, ve_srt = order,
     ve_pow = (\<lambda>_ _. f64_1), ve_conv = (\<lambda>_. 0)\<rparr>"

definition vm_start :: vm_state where
  "vm_start = \<lparr>st_vm = NewValidatorManager, st_dpos = NewDPoS 3 5, st_lachesis = NewLachesis 100\<rparr>"

definition vm_one :: vm_state where
  "vm_one = snd (the (ValidatorManager_AddValidator (vm_env [7]) 7 50 vm_start))"

lemma vm_one_add: "ValidatorManager_AddValidator (vm_env [7]) 7 50 vm_start = Some (None, vm_one)"
  using dpos_example_add
  by (simp add: vm_one_def ValidatorManager_AddValidator_def vm_start_def vm_env_def NewValidatorManager_def Let_def
      vm_done_def update_active_def ValidatorManager_updateActiveValidators_def DPoS_GetSetSize_def dpos_example_def
      sortValidatorsByScore_def sort_outer.simps status_defs)

lemma vm_one_fields:
  "vm_validators (st_vm vm_one) = [7 \<mapsto> \<lparr>vi_ID = 7, vi_Stake = 50, vi_Status = ValidatorStatusInactive, vi_Performance = f64_1,
     vi_BlocksProduced = 0, vi_EventsFinalized = 0, vi_LastRewardTime = 0, vi_JoinTime = 0, vi_MisbehaviorCount = 0\<rparr>]"
  "st_dpos vm_one = dpos_example" "vm_totalStake (st_vm vm_one) = 50"
  using dpos_example_add
  by (simp_all add: vm_one_def ValidatorManager_AddValidator_def vm_start_def vm_env_def NewValidatorManager_def Let_def
      vm_done_def update_active_def ValidatorManager_updateActiveValidators_def DPoS_GetSetSize_def dpos_example_def
      sortValidatorsByScore_def sort_outer.simps status_defs)

lemma vm_one_config:
  "vm_performanceDecayRate (st_vm vm_one) = vm_performanceDecayRate NewValidatorManager"
  "vm_minPerformance (st_vm vm_one) = vm_minPerformance NewValidatorManager"
  "vm_maxPerformance (st_vm vm_one) = vm_maxPerformance NewValidatorManager"
  "vm_blockRewardWeight (st_vm vm_one) = vm_blockRewardWeight NewValidatorManager"
  "vm_eventRewardWeight (st_vm vm_one) = vm_eventRewardWeight NewValidatorManager"
  using dpos_example_add
  by (simp_all add: vm_one_def ValidatorManager_AddValidator_def vm_start_def vm_env_def Let_def NewValidatorManager_def
      vm_done_def update_active_def ValidatorManager_updateActiveValidators_def DPoS_GetSetSize_def dpos_example_def
      sortValidatorsByScore_def sort_outer.simps status_defs)

lemma vm_one_reachable: "vm_step vm_start vm_one"
  by (rule vm_step.call [of "ValidatorManager_AddValidator (vm_env [7]) 7 50" "vm_env [7]" 7 50 0, OF _ vm_one_add])
     (simp_all add: vm_one_fields vm_env_def range_order_def)

theorem validators_accounted_witness:
  "vm_totalStake (st_vm vm_one) = (\<Sum>i\<in>dom (vm_validators (st_vm vm_one)). vi_Stake (the (vm_validators (st_vm vm_one) i)))"
proof -
  have "vm_start\<lparr>st_vm := NewValidatorManager\<rparr> = vm_start" by (simp add: vm_start_def)
  then show ?thesis using validators_accounted [of vm_start vm_one] vm_one_reachable by auto
qed

section \<open>The three registries agree\<close>

text \<open>The stake of a validator in the manager, in the stake module and in the event module.\<close>

definition stakes_agree :: "vm_state \<Rightarrow> bool" where
  "stakes_agree st \<longleftrightarrow>
     (\<forall>i. map_option v_Stake (dp_validators (st_dpos st) i) = map_option vi_Stake (vm_validators (st_vm st) i) \<and>
          map_option nd_Stake (dag_Nodes (l_DAG (st_lachesis st)) i) = map_option vi_Stake (vm_validators (st_vm st) i))"

inductive vm_op :: "vm_state \<Rightarrow> vm_state \<Rightarrow> bool" where
  call: "op \<in> {ValidatorManager_AddValidator env i stake, ValidatorManager_UpdateStake env i stake,
      ValidatorManager_ActivateValidator env i, ValidatorManager_DeactivateValidator env i,
      ValidatorManager_SlashValidator env i stake, ValidatorManager_JailValidator env i,
      ValidatorManager_UnjailValidator env i} \<Longrightarrow>
    op st = Some (e, st') \<Longrightarrow> vm_op st st'"
| block: "vm_op st (snd (ValidatorManager_RewardBlockProduction env i h st))"
| event: "vm_op st (snd (ValidatorManager_RewardEventFinalization env i h st))"

lemma update_active_frame:
  "update_active env st = Some st' \<Longrightarrow> st_dpos st' = st_dpos st \<and> st_lachesis st' = st_lachesis st \<and>
     vm_validators (st_vm st') = vm_validators (st_vm st)"
  by (auto simp: update_active_def ValidatorManager_updateActiveValidators_def Let_def split: option.splits if_splits)

lemma dpos_update_stakes:
  "DPoS_updateActiveValidators srt d = Some d' \<Longrightarrow> map_option v_Stake (dp_validators d' i) = map_option v_Stake (dp_validators d i)"
  by (auto simp: DPoS_updateActiveValidators_def Let_def option.map_comp comp_def split: if_splits)

lemma stakes_agree_done:
  assumes "vm_done (update_active env st1) = Some (e, st')" and "stakes_agree st1"
  shows "stakes_agree st'"
proof -
  have "update_active env st1 = Some st'" using assms(1) by (auto simp: vm_done_def)
  from update_active_frame [OF this] assms(2) show ?thesis by (simp add: stakes_agree_def)
qed

lemma add_stakes:
  assumes "stakes_agree st" and "vm_validators (st_vm st) i = None"
    and "DPoS_AddValidator now srt i s (st_dpos st) = Some d" and "vi_Stake v = s"
    and "vm_validators vm1 = (vm_validators (st_vm st))(i \<mapsto> v)"
  shows "stakes_agree \<lparr>st_vm = vm1, st_dpos = d, st_lachesis = Lachesis_AddNode i s (st_lachesis st)\<rparr>"
proof -
  have none: "dp_validators (st_dpos st) i = None" "dag_Nodes (l_DAG (st_lachesis st)) i = None"
    using assms(1,2) by (auto simp: stakes_agree_def dest: spec [of _ i])
  have "map_option v_Stake (dp_validators d j) = (if j = i then Some s else map_option v_Stake (dp_validators (st_dpos st) j))" for j
    using dpos_update_stakes [of srt _ d j] assms(3) none(1) by (simp add: DPoS_AddValidator_def Let_def)
  moreover have "map_option nd_Stake (dag_Nodes (l_DAG (Lachesis_AddNode i s (st_lachesis st))) j) =
      (if j = i then Some s else map_option nd_Stake (dag_Nodes (l_DAG (st_lachesis st)) j))" for j
    using none(2) by (simp add: Lachesis_AddNode_def DAG_AddNode_def)
  ultimately show ?thesis using assms(1,4,5) by (simp add: stakes_agree_def)
qed

lemma set_stakes:
  assumes "stakes_agree st" and "vm_validators (st_vm st) i = Some v"
    and "DPoS_UpdateStake srt i s (st_dpos st) = Some d" and "vm_validators vm1 = (vm_validators (st_vm st))(i \<mapsto> v')"
    and "vi_Stake v' = s"
  shows "stakes_agree \<lparr>st_vm = vm1, st_dpos = d, st_lachesis = Lachesis_UpdateNodeStake i s (st_lachesis st)\<rparr>"
proof -
  obtain w n where some: "dp_validators (st_dpos st) i = Some w" "dag_Nodes (l_DAG (st_lachesis st)) i = Some n"
    using assms(1,2) unfolding stakes_agree_def by (metis (no_types, lifting) map_option_eq_Some option.simps(9))
  have "map_option v_Stake (dp_validators d j) = (if j = i then Some s else map_option v_Stake (dp_validators (st_dpos st) j))" for j
    using dpos_update_stakes [of srt _ d j] assms(3) some(1) by (simp add: DPoS_UpdateStake_def)
  moreover have "map_option nd_Stake (dag_Nodes (l_DAG (Lachesis_UpdateNodeStake i s (st_lachesis st))) j) =
      (if j = i then Some s else map_option nd_Stake (dag_Nodes (l_DAG (st_lachesis st)) j))" for j
    using some(2) by (simp add: Lachesis_UpdateNodeStake_def DAG_UpdateNodeStake_def)
  ultimately show ?thesis using assms(1,4,5) by (simp add: stakes_agree_def)
qed

lemma same_stakes:
  assumes "stakes_agree st" and "\<And>v. vi_Stake (f v) = vi_Stake v"
    and "\<And>j. map_option v_Stake (dp_validators d j) = map_option v_Stake (dp_validators (st_dpos st) j)"
  shows "stakes_agree (st\<lparr>st_vm := vm_modify i f (st_vm st), st_dpos := d\<rparr>)"
  using assms by (auto simp: stakes_agree_def vm_modify_def map_modify_apply option.map_comp comp_def)

lemma same_stakes_vm:
  assumes "stakes_agree st" and "\<And>v. vi_Stake (f v) = vi_Stake v"
  shows "stakes_agree (st\<lparr>st_vm := vm_modify i f (st_vm st)\<rparr>)"
  using same_stakes [OF assms, of "st_dpos st" i] by simp

lemma reward_dpos_stakes: "map_option v_Stake (dp_validators (DPoS_RewardValidator now i d) j) = map_option v_Stake (dp_validators d j)"
  by (simp add: DPoS_RewardValidator_def map_modify_apply option.map_comp comp_def)

lemma vm_op_agree:
  assumes "vm_op st st'" and a: "stakes_agree st"
  shows "stakes_agree st'"
  using assms(1)
proof cases
  case (call op env i s e)
  consider "op = ValidatorManager_AddValidator env i s" | "op = ValidatorManager_UpdateStake env i s"
    | "op = ValidatorManager_SlashValidator env i s"
    | "op \<in> {ValidatorManager_ActivateValidator env i, ValidatorManager_DeactivateValidator env i,
        ValidatorManager_JailValidator env i, ValidatorManager_UnjailValidator env i}"
    using call(1) by blast
  then show ?thesis
  proof cases
    case 1
    then show ?thesis using call(2) a
      by (auto simp: ValidatorManager_AddValidator_def Let_def split: if_splits option.splits intro!: add_stakes elim!: stakes_agree_done)
  next
    case 2
    then show ?thesis using call(2) a
      by (auto simp: ValidatorManager_UpdateStake_def Let_def vm_modify_def map_modify_def split: if_splits option.splits
          intro!: set_stakes elim!: stakes_agree_done)
  next
    case 3
    then show ?thesis using call(2) a
      by (auto simp: ValidatorManager_SlashValidator_def Let_def split: if_splits option.splits
          intro!: set_stakes elim!: stakes_agree_done)
  next
    case 4
    then show ?thesis using call(2) a
      by (auto simp: ValidatorManager_ActivateValidator_def ValidatorManager_DeactivateValidator_def
          ValidatorManager_JailValidator_def ValidatorManager_UnjailValidator_def set_vi_status_def
          split: if_splits option.splits intro!: same_stakes_vm elim!: stakes_agree_done)
  qed
next
  case (block env i h)
  then show ?thesis using a
    by (auto simp: ValidatorManager_RewardBlockProduction_def reward_dpos_stakes split: option.splits intro!: same_stakes)
next
  case (event env i h)
  then show ?thesis using a
    by (auto simp: ValidatorManager_RewardEventFinalization_def split: option.splits intro!: same_stakes_vm)
qed

text \<open>C29: Along any sequence of registrations, stake changes, slashings, changes of status and single rewards, started on
  new modules, the manager, the stake module and the event module hold the same validators with the same stakes.\<close>

theorem registries_agree:
  assumes "vm_op\<^sup>*\<^sup>* \<lparr>st_vm = NewValidatorManager, st_dpos = NewDPoS n dur, st_lachesis = NewLachesis delay\<rparr> st"
  shows "map_option v_Stake (dp_validators (st_dpos st) i) = map_option vi_Stake (vm_validators (st_vm st) i) \<and>
    map_option nd_Stake (dag_Nodes (l_DAG (st_lachesis st)) i) = map_option vi_Stake (vm_validators (st_vm st) i)"
proof -
  have "stakes_agree st"
    using assms
  proof (induction rule: rtranclp_induct)
    case base
    then show ?case by (simp add: stakes_agree_def NewValidatorManager_def NewDPoS_def NewLachesis_def NewDAG_def)
  qed (rule vm_op_agree)
  then show ?thesis by (simp add: stakes_agree_def)
qed

theorem registries_agree_witness: "map_option nd_Stake (dag_Nodes (l_DAG (st_lachesis vm_one)) 7) = Some 50"
proof -
  have "vm_op vm_start vm_one" by (rule vm_op.call [of "ValidatorManager_AddValidator (vm_env [7]) 7 50" "vm_env [7]" 7 50, OF _ vm_one_add]) simp
  then have "vm_op\<^sup>*\<^sup>* \<lparr>st_vm = NewValidatorManager, st_dpos = NewDPoS 3 5, st_lachesis = NewLachesis 100\<rparr> vm_one"
    unfolding vm_start_def by (rule r_into_rtranclp)
  from registries_agree [OF this, of 7] show ?thesis by (simp add: vm_one_fields)
qed

text \<open>The rewards of an epoch are credited in the manager only, so they end the agreement.\<close>

theorem epoch_rewards_not_forwarded:
  "ValidatorManager_ProcessEpoch env h st = Some (e, st') \<Longrightarrow> st_dpos st' = st_dpos st \<and> st_lachesis st' = st_lachesis st"
  by (auto simp: ValidatorManager_ProcessEpoch_def Let_def split: if_splits option.splits dest!: update_active_frame)

section \<open>Jail, slashing and restoring\<close>

lemma update_active_some: "0 \<le> dp_maxSetSize (st_dpos st) \<Longrightarrow> \<exists>st'. update_active env st = Some st'"
  by (auto simp: update_active_def ValidatorManager_updateActiveValidators_def Let_def DPoS_GetSetSize_def split: option.splits if_splits)

text \<open>A jailed or slashed validator cannot be activated, but it can be deactivated, which replaces its status, and then
  activated: two calls undo a jail or a slashing without \<open>UnjailValidator\<close>.\<close>

theorem jail_escape:
  assumes v: "vm_validators (st_vm st) i = Some v" and s: "vi_Status v = ValidatorStatusJailed \<or> vi_Status v = ValidatorStatusSlashed"
    and n: "0 \<le> dp_maxSetSize (st_dpos st)"
  shows "(\<exists>e. ValidatorManager_ActivateValidator env i st = Some (Some e, st)) \<and>
    (\<exists>st1 st2. ValidatorManager_DeactivateValidator env i st = Some (None, st1) \<and>
       ValidatorManager_ActivateValidator env i st1 = Some (None, st2) \<and> ValidatorManager_IsActiveValidator i (st_vm st2))"
proof -
  obtain st1 where st1: "update_active env (set_vi_status i ValidatorStatusInactive st) = Some st1"
    using update_active_some [of "set_vi_status i ValidatorStatusInactive st"] n by (auto simp: set_vi_status_def)
  note f1 = update_active_frame [OF st1]
  have v1: "vm_validators (st_vm st1) i = Some (v\<lparr>vi_Status := ValidatorStatusInactive\<rparr>)"
    using f1 v by (simp add: set_vi_status_def vm_modify_validators)
  obtain st2 where st2: "update_active env (set_vi_status i ValidatorStatusActive st1) = Some st2"
    using update_active_some [of "set_vi_status i ValidatorStatusActive st1"] n f1 by (auto simp: set_vi_status_def)
  have "vm_validators (st_vm st2) i = Some (v\<lparr>vi_Status := ValidatorStatusActive\<rparr>)"
    using update_active_frame [OF st2] v1 by (simp add: set_vi_status_def vm_modify_validators)
  then have "ValidatorManager_IsActiveValidator i (st_vm st2)" by (simp add: ValidatorManager_IsActiveValidator_def)
  moreover have "ValidatorManager_DeactivateValidator env i st = Some (None, st1)"
    using v s st1 by (auto simp: ValidatorManager_DeactivateValidator_def vm_done_def status_defs)
  moreover have "ValidatorManager_ActivateValidator env i st1 = Some (None, st2)"
    using v1 st2 by (simp add: ValidatorManager_ActivateValidator_def vm_done_def status_defs)
  moreover have "\<exists>e. ValidatorManager_ActivateValidator env i st = Some (Some e, st)"
    using v s by (auto simp: ValidatorManager_ActivateValidator_def status_defs)
  ultimately show ?thesis by blast
qed

theorem jail_escape_witness:
  "\<exists>st1 st2. ValidatorManager_DeactivateValidator (vm_env [7]) 7 (set_vi_status 7 ValidatorStatusJailed vm_one) = Some (None, st1) \<and>
     ValidatorManager_ActivateValidator (vm_env [7]) 7 st1 = Some (None, st2) \<and> ValidatorManager_IsActiveValidator 7 (st_vm st2)"
proof -
  obtain v where "vm_validators (st_vm vm_one) 7 = Some v" by (simp add: vm_one_fields)
  then have "vm_validators (st_vm (set_vi_status 7 ValidatorStatusJailed vm_one)) 7 = Some (v\<lparr>vi_Status := ValidatorStatusJailed\<rparr>)"
    by (simp add: set_vi_status_def vm_modify_validators)
  moreover have "0 \<le> dp_maxSetSize (st_dpos (set_vi_status 7 ValidatorStatusJailed vm_one))"
    by (simp add: set_vi_status_def vm_one_fields dpos_example_def)
  ultimately show ?thesis using jail_escape [of "set_vi_status 7 ValidatorStatusJailed vm_one" 7] by simp
qed

text \<open>What \<open>GetState\<close> saves cannot be restored once there is a validator: the IDs are scanned into arrays, which
  \<open>Sscanf\<close> refuses, so \<open>RestoreState\<close> fails; and it has by then replaced the registry by an empty one.\<close>

theorem restore_loses_registry:
  assumes "range_order (vm_validators vm) order" and "vm_validators vm \<noteq> Map.empty" and "ValidatorManager_GetState order vm = Inr s"
  shows "\<exists>e vm''. ValidatorManager_RestoreState env (Inr s) vm' = (Some e, vm'') \<and>
    vm_validators vm'' = Map.empty \<and> vm_totalStake vm'' = vm_totalStake vm'"
proof -
  obtain i ids where "order = i # ids" using assms by (cases order) (auto simp: range_order_def)
  then show ?thesis using assms(3)
    by (auto simp: ValidatorManager_RestoreState_def ValidatorManager_GetState_def vm_json_def Sscanf_x_array_def Let_def split: if_splits)
qed

theorem restore_loses_registry_witness:
  "\<exists>s e vm''. ValidatorManager_GetState [7] (st_vm vm_one) = Inr s \<and>
     ValidatorManager_RestoreState (vm_env []) (Inr s) (st_vm vm_one) = (Some e, vm'') \<and> vm_validators vm'' = Map.empty"
proof -
  have num: "rnd q = Fin (f64_round q)" if "0 \<le> q" "q \<le> 1" for q
    using that rnd_mono [of 0 q] rnd_mono [of q 1] rnd_int [of 1] by (cases "rnd q") (auto simp: rnd_def Let_def f64_le_def split: if_splits)
  obtain s where s: "ValidatorManager_GetState [7] (st_vm vm_one) = Inr s"
    using vm_one_config
    by (simp add: ValidatorManager_GetState_def json_floats_ok_def vm_json_def vm_one_fields NewValidatorManager_def num Let_def)
  then show ?thesis
    using restore_loses_registry [of "st_vm vm_one" "[7]" s "vm_env []" "st_vm vm_one"] by (auto simp: vm_one_fields range_order_def)
qed

section \<open>Who is active, and what an epoch pays\<close>

text \<open>If the scores are numbers, the active list is sorted by descending score, has as many entries as the set size
  allows, and no validator with the status active that is left out has a greater score than one on the list. (The
  exchange sort of the code is thereby shown to sort.)\<close>

theorem manager_active_top:
  assumes r: "range_order (vm_validators vm) order" and u: "ValidatorManager_updateActiveValidators order n vm = Some vm'"
    and nan: "\<forall>i v. vm_validators vm i = Some v \<longrightarrow> vi_score v \<noteq> NaN"
  defines "sc \<equiv> \<lambda>i. vi_score (the (vm_validators vm i))" and "A \<equiv> {i. ValidatorManager_IsActiveValidator i vm}"
  shows "\<exists>ids. vm_activeValidators vm' = map VLive ids \<and> distinct ids \<and> set ids \<subseteq> A \<and> int (length ids) = min (int (card A)) n \<and>
    sorted_wrt (\<lambda>i j. \<not> f64_lt (sc i) (sc j)) ids \<and> (\<forall>i\<in>set ids. \<forall>j\<in>A - set ids. \<not> f64_lt (sc i) (sc j))"
proof -
  let ?act = "filter (\<lambda>i. vi_Status (the (vm_validators vm i)) = ValidatorStatusActive) order"
  define srt where "srt = sortValidatorsByScore sc ?act"
  have dist: "distinct srt" and set: "set srt = A"
    using r by (auto simp: srt_def range_order_def A_def ValidatorManager_IsActiveValidator_def dom_def split: option.splits)
  have srtd: "sorted_wrt (\<lambda>i j. \<not> f64_lt (sc i) (sc j)) srt"
    unfolding srt_def using nan r by (intro sort_sorted) (auto simp: sc_def range_order_def)
  have len: "length srt = card A" using dist set distinct_card by metis
  define m where "m = (if int (length srt) > n then nat n else length srt)"
  have n: "int (length srt) > n \<Longrightarrow> 0 \<le> n" and ids: "vm_activeValidators vm' = map VLive (take m srt)"
    using u unfolding ValidatorManager_updateActiveValidators_def Let_def sc_def [symmetric] srt_def [symmetric] m_def
    by (auto split: if_splits)
  have "\<not> f64_lt (sc i) (sc j)" if "i \<in> set (take m srt)" "j \<in> A - set (take m srt)" for i j
  proof -
    have "j \<in> set (drop m srt)" using that(2) set by (metis DiffE UnE append_take_drop_id set_append)
    moreover have "sorted_wrt (\<lambda>i j. \<not> f64_lt (sc i) (sc j)) (take m srt @ drop m srt)" using srtd by simp
    ultimately show ?thesis using that(1) unfolding sorted_wrt_append by blast
  qed
  moreover have "int (length (take m srt)) = min (int (card A)) n" using n len by (auto simp: m_def)
  moreover have "set (take m srt) \<subseteq> A" using set by (auto dest: in_set_takeD)
  moreover have "sorted_wrt (\<lambda>i j. \<not> f64_lt (sc i) (sc j)) (take m srt)" using srtd by (rule sorted_wrt_take)
  ultimately show ?thesis using ids dist by (intro exI [of _ "take m srt"]) auto
qed

theorem manager_active_top_witness:
  "\<exists>vm'. ValidatorManager_updateActiveValidators [7] 3 (st_vm (set_vi_status 7 ValidatorStatusActive vm_one)) = Some vm' \<and>
     vm_activeValidators vm' = [VLive 7]"
proof -
  let ?vm = "st_vm (set_vi_status 7 ValidatorStatusActive vm_one)"
  have "ValidatorManager_updateActiveValidators [7] 3 ?vm \<noteq> None"
    by (simp add: ValidatorManager_updateActiveValidators_def Let_def)
  then obtain vm' where u: "ValidatorManager_updateActiveValidators [7] 3 ?vm = Some vm'" by blast
  have vals: "vm_validators ?vm = (vm_validators (st_vm vm_one))(7 \<mapsto> (the (vm_validators (st_vm vm_one) 7))\<lparr>vi_Status := ValidatorStatusActive\<rparr>)"
    by (simp add: set_vi_status_def vm_modify_def map_modify_def vm_one_fields)
  have A: "{i. ValidatorManager_IsActiveValidator i ?vm} = {7}"
    by (auto simp: ValidatorManager_IsActiveValidator_def vals vm_one_fields split: if_splits)
  have "\<forall>i v. vm_validators ?vm i = Some v \<longrightarrow> vi_score v \<noteq> NaN"
    by (auto simp: vals vm_one_fields vi_score_def f64_of_int_exact split: if_splits)
  moreover have "range_order (vm_validators ?vm) [7]" by (auto simp: vals vm_one_fields range_order_def split: if_splits)
  ultimately obtain ids where ids: "vm_activeValidators vm' = map VLive ids" "set ids \<subseteq> {7}" "int (length ids) = min 1 3"
    using manager_active_top [OF _ u] unfolding A by auto
  then have "ids = [7]" by (cases ids; cases "tl ids") auto
  then show ?thesis using u ids(1) by simp
qed

lemma rnd_between_int:
  assumes "of_int a \<le> q" and "q \<le> of_int b" and "\<bar>a\<bar> \<le> 2 ^ 53" and "\<bar>b\<bar> \<le> 2 ^ 53"
  shows "\<exists>w. rnd q = Fin w \<and> of_int a \<le> w \<and> w \<le> of_int b \<and> rnd w = Fin w"
  using rnd_between [OF rnd_int [OF assms(3)] rnd_int [OF assms(4)] assms(1,2)] f64_ok_rnd [of q] by (cases "rnd q") auto

text \<open>The reward of a validator grows with the number of its blocks without a limit: a validator that is alone and has
  produced ten blocks is paid at least five times the reward of the epoch.\<close>

theorem epoch_overpays:
  assumes s: "vi_Stake v = s" "vm_activeTotalStake vm = s" "0 < s" "unat s \<le> 2 ^ 53" and n: "length (vm_activeValidators vm) = 1"
    and w: "vm_blockRewardWeight vm = rnd (6 / 10)" "vm_eventRewardWeight vm = rnd (4 / 10)"
    and c: "vi_BlocksProduced v = 10" "vi_EventsFinalized v = 0"
  shows "5 * 1000000 \<le> uint (epoch_reward env 1000000 vm v)"
proof -
  have "int (unat s) \<le> int (2 ^ 53)" using s(4) by (simp only: of_nat_le_iff)
  moreover define k where "k = uint s"
  ultimately have "0 < k" "k \<le> 2 ^ 53" using s(3) by (simp_all add: word_less_def)
  then have ratio: "f64_div (f64_of_int (uint s)) (f64_of_int (uint s)) = Fin 1"
    unfolding k_def [symmetric] using f64_of_int_exact [of k] rnd_int [of 1] by simp
  obtain b where b: "rnd (6 / 10) = Fin b" "rnd b = Fin b" using rnd_between_int [of 0 "6 / 10" 1] by auto
  have "f64_le (rnd (1 / 2)) (rnd (6 / 10))" "f64_le (rnd (6 / 10)) (rnd 1)" by (rule rnd_mono; simp)+
  moreover have "rnd (1 / 2) = Fin (1 / 2)" using rnd_exact [of 1 "-1"] by (simp add: pow2_def)
  ultimately have bb: "1 / 2 \<le> b" "b \<le> 1" using b rnd_int [of 1] by auto
  obtain e where e: "rnd (4 / 10) = Fin e" "rnd e = Fin e" using rnd_between_int [of 0 "4 / 10" 1] by auto
  obtain x where x: "rnd (b * 10) = Fin x" "5 \<le> x" "x \<le> 10" "rnd x = Fin x" using rnd_between_int [of 5 "b * 10" 10] bb by auto
  obtain y where y: "rnd (1000000 * x) = Fin y" "5000000 \<le> y" "y \<le> 10000000"
    using rnd_between_int [of 5000000 "1000000 * x" 10000000] x by auto
  have ints: "f64_of_int 10 = Fin 10" "f64_of_int 0 = Fin 0" "f64_of_int 1 = Fin 1" "f64_of_int 1000000 = Fin 1000000"
    using f64_of_int_exact [of 10] f64_of_int_exact [of 0] f64_of_int_exact [of 1] f64_of_int_exact [of 1000000] by simp_all
  have "epoch_reward env 1000000 vm v = f64_to_uint64 (ve_conv env) (Fin y)"
    using b e x y(1) n by (simp add: epoch_reward_def s(1,2) ratio w c Let_def ints)
  moreover have t: "5000000 \<le> rat_trunc y" "rat_trunc y \<le> 10000000" using y by (simp_all add: rat_trunc_def le_floor_iff floor_le_iff)
  ultimately show ?thesis by (simp add: uint_word_of_int take_bit_int_eq_self)
qed

end
