(* ===== verification/LockTheory.thy ===== *)
theory LockTheory
  imports GoTime
begin

text \<open>
  Locks and their watchdog: \<open>consensus/deadlock_detector.go\<close>. The detector keeps one entry per lock name with the
  time of the last acquisition; a periodic check reports entries that are too old. The wrapped mutexes tell the
  detector about every lock and unlock; a read-write mutex uses the names \<open>m.write\<close> and \<open>m.read\<close>. The number of the
  goroutine and its stack trace, which only decorate the log, are left out; what a check logs is its result.

  The second part is a small model of goroutines that take and release exclusive locks, which the components use to
  study in which order their operations lock.
\<close>

section \<open>The detector\<close>

record lockInfo =
  li_lockName :: string
  li_acquiredAt :: int
  li_warningLogged :: bool
  li_errorLogged :: bool

record DeadlockDetector =
  dd_enabled :: bool
  dd_warningThreshold :: duration
  dd_errorThreshold :: duration
  dd_activeLocks :: "string \<rightharpoonup> lockInfo"

definition NewDeadlockDetector :: "bool \<Rightarrow> duration \<Rightarrow> duration \<Rightarrow> DeadlockDetector" where
  "NewDeadlockDetector enabled warningThreshold errorThreshold =
     \<lparr>dd_enabled = enabled, dd_warningThreshold = warningThreshold, dd_errorThreshold = errorThreshold,
      dd_activeLocks = Map.empty\<rparr>"

definition DeadlockDetector_LockAcquired :: "int \<Rightarrow> string \<Rightarrow> DeadlockDetector \<Rightarrow> DeadlockDetector" where
  "DeadlockDetector_LockAcquired now lockName dd =
     (if \<not> dd_enabled dd then dd
      else dd\<lparr>dd_activeLocks := (dd_activeLocks dd)(lockName \<mapsto>
             \<lparr>li_lockName = lockName, li_acquiredAt = now, li_warningLogged = False, li_errorLogged = False\<rparr>)\<rparr>)"

definition DeadlockDetector_LockReleased :: "string \<Rightarrow> DeadlockDetector \<Rightarrow> DeadlockDetector" where
  "DeadlockDetector_LockReleased lockName dd =
     (if \<not> dd_enabled dd then dd else dd\<lparr>dd_activeLocks := (dd_activeLocks dd)(lockName := None)\<rparr>)"

text \<open>One entry of \<open>checkLocks\<close>: what is logged for it, if anything, and the entry with its flags.\<close>

datatype lock_report = PotentialDeadlock string | HeldLong string

definition check_lock :: "int \<Rightarrow> DeadlockDetector \<Rightarrow> lockInfo \<Rightarrow> lock_report option \<times> lockInfo" where
  "check_lock now dd lock =
     (let heldDuration = now - li_acquiredAt lock in
      if heldDuration > dd_errorThreshold dd \<and> \<not> li_errorLogged lock
      then (Some (PotentialDeadlock (li_lockName lock)), lock\<lparr>li_errorLogged := True\<rparr>)
      else if heldDuration > dd_warningThreshold dd \<and> \<not> li_warningLogged lock
      then (Some (HeldLong (li_lockName lock)), lock\<lparr>li_warningLogged := True\<rparr>)
      else (None, lock))"

fun check_loop :: "int \<Rightarrow> string list \<Rightarrow> DeadlockDetector \<Rightarrow> lock_report list \<times> DeadlockDetector" where
  "check_loop now [] dd = ([], dd)"
| "check_loop now (n # order) dd =
     (let (rep, lock) = check_lock now dd (the (dd_activeLocks dd n));
          (reps, dd') = check_loop now order (dd\<lparr>dd_activeLocks := (dd_activeLocks dd)(n \<mapsto> lock)\<rparr>)
      in ((case rep of None \<Rightarrow> [] | Some r \<Rightarrow> [r]) @ reps, dd'))"

definition DeadlockDetector_checkLocks :: "int \<Rightarrow> string list \<Rightarrow> DeadlockDetector \<Rightarrow> lock_report list \<times> DeadlockDetector" where
  "DeadlockDetector_checkLocks now order dd = check_loop now order dd"

section \<open>Wrapped mutexes\<close>

text \<open>\<open>mutex_state\<close> is Go's \<open>sync.RWMutex\<close> (an exclusive mutex never has readers). An operation that has to wait is
  \<open>None\<close>, and so is an unlock of a mutex that is not locked, which is a fatal error in Go.\<close>

record mutex_state =
  mx_writer :: bool
  mx_readers :: nat

record RWMutexWithDeadlockDetection =
  rw_mu :: mutex_state
  rw_name :: string

definition free_mutex :: mutex_state where
  "free_mutex = \<lparr>mx_writer = False, mx_readers = 0\<rparr>"

definition NewRWMutexWithDeadlockDetection :: "string \<Rightarrow> RWMutexWithDeadlockDetection" where
  "NewRWMutexWithDeadlockDetection name = \<lparr>rw_mu = free_mutex, rw_name = name\<rparr>"

type_synonym watched = "RWMutexWithDeadlockDetection \<times> DeadlockDetector"

definition RWMutex_Lock :: "int \<Rightarrow> watched \<Rightarrow> watched option" where
  "RWMutex_Lock now = (\<lambda>(m, dd).
     if mx_writer (rw_mu m) \<or> mx_readers (rw_mu m) > 0 then None
     else Some (m\<lparr>rw_mu := (rw_mu m)\<lparr>mx_writer := True\<rparr>\<rparr>, DeadlockDetector_LockAcquired now (rw_name m @ ''.write'') dd))"

definition RWMutex_Unlock :: "watched \<Rightarrow> watched option" where
  "RWMutex_Unlock = (\<lambda>(m, dd).
     if \<not> mx_writer (rw_mu m) then None
     else Some (m\<lparr>rw_mu := (rw_mu m)\<lparr>mx_writer := False\<rparr>\<rparr>, DeadlockDetector_LockReleased (rw_name m @ ''.write'') dd))"

definition RWMutex_RLock :: "int \<Rightarrow> watched \<Rightarrow> watched option" where
  "RWMutex_RLock now = (\<lambda>(m, dd).
     if mx_writer (rw_mu m) then None
     else Some (m\<lparr>rw_mu := (rw_mu m)\<lparr>mx_readers := Suc (mx_readers (rw_mu m))\<rparr>\<rparr>,
                DeadlockDetector_LockAcquired now (rw_name m @ ''.read'') dd))"

definition RWMutex_RUnlock :: "watched \<Rightarrow> watched option" where
  "RWMutex_RUnlock = (\<lambda>(m, dd).
     if mx_readers (rw_mu m) = 0 then None
     else Some (m\<lparr>rw_mu := (rw_mu m)\<lparr>mx_readers := mx_readers (rw_mu m) - 1\<rparr>\<rparr>,
                DeadlockDetector_LockReleased (rw_name m @ ''.read'') dd))"

text \<open>The exclusive variant uses its bare name.\<close>

definition NewMutexWithDeadlockDetection :: "string \<Rightarrow> RWMutexWithDeadlockDetection" where
  "NewMutexWithDeadlockDetection name = \<lparr>rw_mu = free_mutex, rw_name = name\<rparr>"

definition Mutex_Lock :: "int \<Rightarrow> watched \<Rightarrow> watched option" where
  "Mutex_Lock now = (\<lambda>(m, dd).
     if mx_writer (rw_mu m) then None
     else Some (m\<lparr>rw_mu := (rw_mu m)\<lparr>mx_writer := True\<rparr>\<rparr>, DeadlockDetector_LockAcquired now (rw_name m) dd))"

definition Mutex_Unlock :: "watched \<Rightarrow> watched option" where
  "Mutex_Unlock = (\<lambda>(m, dd).
     if \<not> mx_writer (rw_mu m) then None
     else Some (m\<lparr>rw_mu := (rw_mu m)\<lparr>mx_writer := False\<rparr>\<rparr>, DeadlockDetector_LockReleased (rw_name m) dd))"

section \<open>What the detector sees\<close>

text \<open>The states of one read-write mutex and its detector that calls of the wrappers reach; periodic checks run in
  between.\<close>

inductive watched_reachable :: "string \<Rightarrow> duration \<Rightarrow> duration \<Rightarrow> watched \<Rightarrow> bool" for name wt et where
  start: "watched_reachable name wt et (NewRWMutexWithDeadlockDetection name, NewDeadlockDetector True wt et)"
| lock: "watched_reachable name wt et w \<Longrightarrow> RWMutex_Lock now w = Some w' \<Longrightarrow> watched_reachable name wt et w'"
| unlock: "watched_reachable name wt et w \<Longrightarrow> RWMutex_Unlock w = Some w' \<Longrightarrow> watched_reachable name wt et w'"
| rlock: "watched_reachable name wt et w \<Longrightarrow> RWMutex_RLock now w = Some w' \<Longrightarrow> watched_reachable name wt et w'"
| runlock: "watched_reachable name wt et w \<Longrightarrow> RWMutex_RUnlock w = Some w' \<Longrightarrow> watched_reachable name wt et w'"
| check: "watched_reachable name wt et (m, dd) \<Longrightarrow> range_order (dd_activeLocks dd) order \<Longrightarrow>
    watched_reachable name wt et (m, snd (DeadlockDetector_checkLocks now order dd))"

lemma check_lock_thresholds [simp]: "check_lock now (dd\<lparr>dd_activeLocks := m\<rparr>) l = check_lock now dd l"
  by (auto simp: check_lock_def Let_def)

text \<open>The reports and the flags of one check, entry by entry.\<close>

lemma check_loop_spec:
  assumes "distinct order" and "set order \<subseteq> dom (dd_activeLocks dd)"
  shows "set (fst (check_loop now order dd)) =
      {r. \<exists>n\<in>set order. fst (check_lock now dd (the (dd_activeLocks dd n))) = Some r} \<and>
    snd (check_loop now order dd) = dd\<lparr>dd_activeLocks := (\<lambda>n. if n \<in> set order
      then Some (snd (check_lock now dd (the (dd_activeLocks dd n)))) else dd_activeLocks dd n)\<rparr>"
  using assms
proof (induction order arbitrary: dd)
  case (Cons n order)
  define dd1 where "dd1 = dd\<lparr>dd_activeLocks := (dd_activeLocks dd)(n \<mapsto> snd (check_lock now dd (the (dd_activeLocks dd n))))\<rparr>"
  have prems: "distinct order" "set order \<subseteq> dom (dd_activeLocks dd1)" "n \<notin> set order" using Cons.prems by (auto simp: dd1_def)
  have same: "dd_activeLocks dd1 k = dd_activeLocks dd k" if "k \<in> set order" for k using that prems(3) by (auto simp: dd1_def)
  have chk: "check_lock now dd1 l = check_lock now dd l" for l by (simp add: dd1_def)
  have step: "fst (check_loop now (n # order) dd) =
      (case fst (check_lock now dd (the (dd_activeLocks dd n))) of None \<Rightarrow> [] | Some r \<Rightarrow> [r]) @ fst (check_loop now order dd1)"
    "snd (check_loop now (n # order) dd) = snd (check_loop now order dd1)"
    by (simp_all add: Let_def case_prod_beta dd1_def)
  note IH = Cons.IH [OF prems(1,2), unfolded chk]
  have "set (fst (check_loop now (n # order) dd)) =
      {r. \<exists>k\<in>set (n # order). fst (check_lock now dd (the (dd_activeLocks dd k))) = Some r}"
    unfolding step(1) using IH same by (auto split: option.splits)
  moreover have "snd (check_loop now (n # order) dd) = dd\<lparr>dd_activeLocks := (\<lambda>k. if k \<in> set (n # order)
      then Some (snd (check_lock now dd (the (dd_activeLocks dd k)))) else dd_activeLocks dd k)\<rparr>"
    unfolding step(2) using IH same prems(3) by (auto simp: dd1_def fun_eq_iff)
  ultimately show ?case by blast
qed simp

lemma check_dom: "range_order (dd_activeLocks dd) order \<Longrightarrow>
    dom (dd_activeLocks (snd (DeadlockDetector_checkLocks now order dd))) = dom (dd_activeLocks dd) \<and>
    dd_enabled (snd (DeadlockDetector_checkLocks now order dd)) = dd_enabled dd"
  by (auto simp: DeadlockDetector_checkLocks_def range_order_def check_loop_spec split: if_splits)

lemma watched_inv:
  "watched_reachable name wt et w \<Longrightarrow> rw_name (fst w) = name \<and> dd_enabled (snd w) \<and>
   (name @ ''.write'' \<in> dom (dd_activeLocks (snd w)) \<longleftrightarrow> mx_writer (rw_mu (fst w))) \<and>
   (name @ ''.read'' \<in> dom (dd_activeLocks (snd w)) \<longrightarrow> mx_readers (rw_mu (fst w)) > 0)"
proof (induction rule: watched_reachable.induct)
  case (check m dd order now)
  then show ?case using check_dom [OF check(2), of now] by simp
qed (auto simp: NewRWMutexWithDeadlockDetection_def NewDeadlockDetector_def free_mutex_def RWMutex_Lock_def RWMutex_Unlock_def
      RWMutex_RLock_def RWMutex_RUnlock_def DeadlockDetector_LockAcquired_def DeadlockDetector_LockReleased_def split: prod.splits if_splits)

text \<open>The watchdog never loses sight of a writer: in every state that locks, unlocks and checks reach, the write
  lock of a read-write mutex has an entry exactly while it is held, and a check reports a potential deadlock exactly
  for the entries that are older than the error threshold and not reported before.\<close>

theorem writer_watched:
  assumes "watched_reachable name wt et (m, dd)" and o: "range_order (dd_activeLocks dd) order"
  shows "(name @ ''.write'' \<in> dom (dd_activeLocks dd) \<longleftrightarrow> mx_writer (rw_mu m)) \<and>
    {n. PotentialDeadlock n \<in> set (fst (DeadlockDetector_checkLocks now order dd))} =
    {li_lockName l |l. l \<in> ran (dd_activeLocks dd) \<and> now - li_acquiredAt l > dd_errorThreshold dd \<and> \<not> li_errorLogged l}"
proof -
  have "PotentialDeadlock n \<in> set (fst (DeadlockDetector_checkLocks now order dd)) \<longleftrightarrow>
      (\<exists>l\<in>ran (dd_activeLocks dd). fst (check_lock now dd l) = Some (PotentialDeadlock n))" for n
  proof -
    have "ran (dd_activeLocks dd) = (\<lambda>k. the (dd_activeLocks dd k)) ` set order" using o
      by (force simp: range_order_def ran_def image_iff)
    then show ?thesis using o by (auto simp: DeadlockDetector_checkLocks_def check_loop_spec range_order_def)
  qed
  moreover have "fst (check_lock now dd l) = Some (PotentialDeadlock n) \<longleftrightarrow>
      li_lockName l = n \<and> now - li_acquiredAt l > dd_errorThreshold dd \<and> \<not> li_errorLogged l" for l n
    by (auto simp: check_lock_def Let_def)
  ultimately show ?thesis using watched_inv [OF assms(1)] by auto
qed

definition locked_once :: watched where
  "locked_once = the (RWMutex_Lock 0 (NewRWMutexWithDeadlockDetection ''m'', NewDeadlockDetector True 5 20))"

lemma locked_once_reachable: "watched_reachable ''m'' 5 20 locked_once"
  by (rule watched_reachable.lock [OF watched_reachable.start, where now = 0])
    (simp add: locked_once_def RWMutex_Lock_def NewRWMutexWithDeadlockDetection_def free_mutex_def)

lemma locked_once_simps:
  "dd_activeLocks (snd locked_once) =
     [''m.write'' \<mapsto> \<lparr>li_lockName = ''m.write'', li_acquiredAt = 0, li_warningLogged = False, li_errorLogged = False\<rparr>]"
  "dd_errorThreshold (snd locked_once) = 20" "mx_writer (rw_mu (fst locked_once))"
  by (simp_all add: locked_once_def RWMutex_Lock_def NewRWMutexWithDeadlockDetection_def free_mutex_def
      DeadlockDetector_LockAcquired_def NewDeadlockDetector_def)

theorem writer_watched_witness:
  "{n. PotentialDeadlock n \<in> set (fst (DeadlockDetector_checkLocks 30 [''m.write''] (snd locked_once)))} = {''m.write''}"
proof -
  have "range_order (dd_activeLocks (snd locked_once)) [''m.write'']" by (simp add: locked_once_simps range_order_def)
  from writer_watched [of "''m''" 5 20 "fst locked_once" "snd locked_once" _ 30, OF _ this] locked_once_reachable
  show ?thesis by (simp add: locked_once_simps)
qed

text \<open>Readers share one entry: when one of two readers leaves, the detector forgets the other.\<close>

theorem reader_forgotten:
  assumes "dd_enabled dd" and "\<not> mx_writer (rw_mu m)"
    and "RWMutex_RLock t1 (m, dd) = Some w1" and "RWMutex_RLock t2 w1 = Some w2" and "RWMutex_RUnlock w2 = Some (m', dd')"
  shows "mx_readers (rw_mu m') > 0 \<and> dd_activeLocks dd' (rw_name m @ ''.read'') = None"
  using assms
  by (auto simp: RWMutex_RLock_def RWMutex_RUnlock_def DeadlockDetector_LockAcquired_def DeadlockDetector_LockReleased_def)

section \<open>Goroutines and exclusive locks\<close>

text \<open>A goroutine is the list of lock operations it still has to do; \<open>held\<close> says who holds a lock. Acquiring waits for
  a free lock, also when the goroutine itself is the holder: Go's mutexes are not reentrant.\<close>

datatype 'l lock_op = Acq 'l | Rel 'l

record ('t, 'l) lock_state =
  ls_held :: "'l \<rightharpoonup> 't"
  ls_todo :: "'t \<Rightarrow> 'l lock_op list"

inductive lock_step :: "('t, 'l) lock_state \<Rightarrow> ('t, 'l) lock_state \<Rightarrow> bool" where
  acquire: "ls_todo s t = Acq l # ops \<Longrightarrow> ls_held s l = None \<Longrightarrow>
    lock_step s (s\<lparr>ls_held := (ls_held s)(l \<mapsto> t), ls_todo := (ls_todo s)(t := ops)\<rparr>)"
| release: "ls_todo s t = Rel l # ops \<Longrightarrow> ls_held s l = Some t \<Longrightarrow>
    lock_step s (s\<lparr>ls_held := (ls_held s)(l := None), ls_todo := (ls_todo s)(t := ops)\<rparr>)"

text \<open>A deadlock: some goroutine is not done, and none can go on.\<close>

definition deadlock :: "('t, 'l) lock_state \<Rightarrow> bool" where
  "deadlock s \<longleftrightarrow> (\<exists>t. ls_todo s t \<noteq> []) \<and> (\<forall>s'. \<not> lock_step s s')"

definition lock_start :: "('t \<Rightarrow> 'l lock_op list) \<Rightarrow> ('t, 'l) lock_state" where
  "lock_start progs = \<lparr>ls_held = Map.empty, ls_todo = progs\<rparr>"

lemma waiting_deadlock:
  assumes "ls_todo s t \<noteq> []"
    and "\<And>u. ls_todo s u \<noteq> [] \<Longrightarrow> \<exists>l ops. ls_todo s u = Acq l # ops \<and> ls_held s l \<noteq> None"
  shows "deadlock s"
proof -
  have "\<not> lock_step s s'" for s'
  proof
    assume "lock_step s s'"
    then show False
    proof cases
      case (acquire t l ops)
      then show False using assms(2) [of t] by auto
    next
      case (release t l ops)
      then show False using assms(2) [of t] by auto
    qed
  qed
  then show ?thesis using assms(1) by (auto simp: deadlock_def)
qed

text \<open>Two goroutines that take two locks in opposite order can block each other.\<close>

lemma opposite_orders_deadlock:
  assumes "progs t = Acq a # Acq b # p" and "progs u = Acq b # Acq a # q" and "t \<noteq> u" and "a \<noteq> b"
    and "\<And>v. v \<noteq> t \<Longrightarrow> v \<noteq> u \<Longrightarrow> progs v = []"
  shows "\<exists>s. lock_step\<^sup>*\<^sup>* (lock_start progs) s \<and> deadlock s"
proof -
  let ?s1 = "(lock_start progs)\<lparr>ls_held := [a \<mapsto> t], ls_todo := progs(t := Acq b # p)\<rparr>"
  let ?s2 = "?s1\<lparr>ls_held := [a \<mapsto> t, b \<mapsto> u], ls_todo := progs(t := Acq b # p, u := Acq a # q)\<rparr>"
  have "lock_step (lock_start progs) ?s1"
    using lock_step.acquire [of "lock_start progs" t a "Acq b # p"] assms(1) by (simp add: lock_start_def)
  moreover have "lock_step ?s1 ?s2" using lock_step.acquire [of ?s1 u b "Acq a # q"] assms(2-4) by simp
  moreover have "deadlock ?s2" by (rule waiting_deadlock [of _ t]) (use assms(3-5) in \<open>auto split: if_splits\<close>)
  ultimately show ?thesis by (meson converse_rtranclp_into_rtranclp rtranclp.rtrancl_refl)
qed

text \<open>A goroutine that takes a lock it holds never goes on, and nobody else gets the lock.\<close>

lemma relock_blocks:
  assumes "ls_todo s t = Acq l # ops" and "ls_held s l = Some t"
  shows "lock_step\<^sup>*\<^sup>* s s' \<Longrightarrow> ls_todo s' t = Acq l # ops \<and> ls_held s' l = Some t"
proof (induction rule: rtranclp_induct)
  case (step s1 s2)
  from step(2) step(3) show ?case by cases auto
qed (use assms in simp)

end
