(* ===== verification/BatchTheory.thy ===== *)
theory BatchTheory
  imports LockTheory GoHeap DagTheory
begin

text \<open>
  The batch processor: \<open>consensus/batch_processor.go\<close>. Events wait in a list, an index by ID, queues by creator and a
  heap by height; a tick or a full list starts the processing of a batch. An event is a pointer into the event store
  of \<open>DagTheory\<close>, which the operations read; the items of the heap are shared with nobody and are kept by value.

  \<open>sort.Slice\<close> is not stable and its outcome is not specified further, so the operations that sort take it as an
  argument \<open>srt\<close>; the theorems assume \<open>slice_sorted\<close>. A range over the queues takes its order as an argument. The loops
  that wait for ticks are modelled by one tick. A result sent over the channel to \<open>handleResults\<close>, which only logs it, is
  part of the result of the operation.
\<close>

section \<open>Sorting and splitting\<close>

definition slice_sorted :: "('a \<Rightarrow> 'k::linorder) \<Rightarrow> ('a list \<Rightarrow> 'a list) \<Rightarrow> bool" where
  "slice_sorted key srt \<longleftrightarrow> (\<forall>xs. mset (srt xs) = mset xs \<and> sorted (map key (srt xs)))"

text \<open>The loop \<open>for i := 0; i < len(xs); i += n\<close> over the slices \<open>xs[i:end]\<close>. A step that is not positive makes the loop
  run for ever or panic: the result is \<open>None\<close>.\<close>

function chunks :: "int \<Rightarrow> 'a list \<Rightarrow> 'a list list option" where
  "chunks n xs =
     (if xs = [] then Some [] else if n \<le> 0 then None
      else map_option (\<lambda>cs. take (nat n) xs # cs) (chunks n (drop (nat n) xs)))"
  by pat_completeness auto
termination by (relation "measure (\<lambda>(n, xs). length xs)") auto

declare chunks.simps [simp del]

section \<open>Data\<close>

record BatchProcessorConfig =
  bc_BatchSize :: int
  bc_MaxBatchDelay :: duration
  bc_MaxBatchBytes :: int
  bc_GroupByCreator :: bool
  bc_ParallelProcessing :: bool
  bc_MaxParallelBatches :: int
  bc_AdaptiveBatchSize :: bool

record BatchMetrics =
  bm_TotalBatches :: int
  bm_TotalEventsInBatch :: int
  bm_AvgBatchSize :: float64
  bm_MaxBatchSize :: int
  bm_AvgProcessingTime :: duration
  bm_MaxProcessingTime :: duration
  bm_LastBatchTime :: int
  bm_BatchSizeHistory :: "int list"

record BatchResult =
  br_Events :: "nat list"
  br_ProcessedCount :: int
  br_SuccessCount :: int
  br_FailureCount :: int
  br_ProcessingTime :: duration
  br_Errors :: "string list"
  br_BatchIdentifier :: string

record EventWithPriority =
  ep_Event :: nat
  ep_Priority :: uint64
  ep_Index :: int

type_synonym EventPriorityQueue = "EventWithPriority list"

record BatchProcessor =
  bp_config :: BatchProcessorConfig
  bp_pendingEvents :: "nat list"
  bp_pendingEventsByID :: "hash32 \<rightharpoonup> nat"
  bp_creatorQueues :: "hash32 \<rightharpoonup> nat list"
  bp_priorityQueue :: EventPriorityQueue
  bp_isProcessing :: bool
  bp_metrics :: BatchMetrics
  bp_lastAdapted :: int

definition MinBatchSize :: int where "MinBatchSize = 10"
definition DefaultBatchSize :: int where "DefaultBatchSize = 100"
definition bp_MaxBatchSize :: int where "bp_MaxBatchSize = 1000"

lemmas batch_size_defs = MinBatchSize_def DefaultBatchSize_def bp_MaxBatchSize_def

definition DefaultBatchProcessorConfig :: BatchProcessorConfig where
  "DefaultBatchProcessorConfig =
     \<lparr>bc_BatchSize = DefaultBatchSize, bc_MaxBatchDelay = 100 * millisecond, bc_MaxBatchBytes = 1024 * 1024,
      bc_GroupByCreator = True, bc_ParallelProcessing = True, bc_MaxParallelBatches = 4, bc_AdaptiveBatchSize = True\<rparr>"

definition zero_BatchMetrics :: BatchMetrics where
  "zero_BatchMetrics =
     \<lparr>bm_TotalBatches = 0, bm_TotalEventsInBatch = 0, bm_AvgBatchSize = f64_0, bm_MaxBatchSize = 0, bm_AvgProcessingTime = 0,
      bm_MaxProcessingTime = 0, bm_LastBatchTime = 0, bm_BatchSizeHistory = []\<rparr>"

text \<open>The zero \<open>time.Time\<close> of \<open>lastAdapted\<close> lies long before every reading of the clock; \<open>zero_time\<close> is the distance
  from year 1 to 1970.\<close>

definition zero_time :: int where "zero_time = - 62135596800 * second"

definition NewBatchProcessor :: "BatchProcessorConfig option \<Rightarrow> BatchProcessor" where
  "NewBatchProcessor config =
     (let c = (case config of None \<Rightarrow> DefaultBatchProcessorConfig | Some c \<Rightarrow> c);
          c1 = (if bc_BatchSize c < MinBatchSize then c\<lparr>bc_BatchSize := MinBatchSize\<rparr>
                else if bc_BatchSize c > bp_MaxBatchSize then c\<lparr>bc_BatchSize := bp_MaxBatchSize\<rparr> else c)
      in \<lparr>bp_config = c1, bp_pendingEvents = [], bp_pendingEventsByID = Map.empty, bp_creatorQueues = Map.empty,
          bp_priorityQueue = [], bp_isProcessing = False, bp_metrics = zero_BatchMetrics, bp_lastAdapted = zero_time\<rparr>)"

section \<open>The methods of the event queue\<close>

definition EventPriorityQueue_Len :: "EventPriorityQueue \<Rightarrow> nat" where
  "EventPriorityQueue_Len pq = length pq"

definition EventPriorityQueue_Less :: "EventPriorityQueue \<Rightarrow> nat \<Rightarrow> nat \<Rightarrow> bool" where
  "EventPriorityQueue_Less pq i j = (ep_Priority (pq ! i) < ep_Priority (pq ! j))"

definition EventPriorityQueue_Swap :: "nat \<Rightarrow> nat \<Rightarrow> EventPriorityQueue \<Rightarrow> EventPriorityQueue" where
  "EventPriorityQueue_Swap i j pq =
     (let pq1 = pq[i := pq ! j, j := pq ! i]; pq2 = pq1[i := (pq1 ! i)\<lparr>ep_Index := int i\<rparr>]
      in pq2[j := (pq2 ! j)\<lparr>ep_Index := int j\<rparr>])"

definition EventPriorityQueue_Push :: "EventWithPriority \<Rightarrow> EventPriorityQueue \<Rightarrow> EventPriorityQueue" where
  "EventPriorityQueue_Push item pq = pq @ [item\<lparr>ep_Index := int (length pq)\<rparr>]"

definition EventPriorityQueue_Pop :: "EventPriorityQueue \<Rightarrow> EventWithPriority \<times> EventPriorityQueue" where
  "EventPriorityQueue_Pop pq = ((last pq)\<lparr>ep_Index := - 1\<rparr>, butlast pq)"

section \<open>Life cycle and new events\<close>

definition BatchProcessor_Start :: "BatchProcessor \<Rightarrow> string option \<times> BatchProcessor" where
  "BatchProcessor_Start bp =
     (if bp_isProcessing bp then (Some ''batch processor is already running'', bp)
      else (None, bp\<lparr>bp_isProcessing := True\<rparr>))"

definition BatchProcessor_Stop :: "BatchProcessor \<Rightarrow> string option \<times> BatchProcessor" where
  "BatchProcessor_Stop bp =
     (if \<not> bp_isProcessing bp then (Some ''batch processor is not running'', bp)
      else (None, bp\<lparr>bp_isProcessing := False\<rparr>))"

definition BatchProcessor_addToCreatorQueue :: "event_store \<Rightarrow> nat \<Rightarrow> BatchProcessor \<Rightarrow> BatchProcessor" where
  "BatchProcessor_addToCreatorQueue s r bp =
     (let c = ev_Creator (s r); q = (case bp_creatorQueues bp c of None \<Rightarrow> [] | Some q \<Rightarrow> q)
      in bp\<lparr>bp_creatorQueues := (bp_creatorQueues bp)(c \<mapsto> q @ [r])\<rparr>)"

definition BatchProcessor_addToPriorityQueue :: "event_store \<Rightarrow> nat \<Rightarrow> BatchProcessor \<Rightarrow> BatchProcessor" where
  "BatchProcessor_addToPriorityQueue s r bp =
     bp\<lparr>bp_priorityQueue := heap_Push EventPriorityQueue_Len EventPriorityQueue_Less EventPriorityQueue_Swap EventPriorityQueue_Push
          \<lparr>ep_Event = r, ep_Priority = ev_Height (s r), ep_Index = 0\<rparr> (bp_priorityQueue bp)\<rparr>"

text \<open>The flag says whether a goroutine \<open>triggerProcessing\<close> is started.\<close>

definition BatchProcessor_AddEvent :: "event_store \<Rightarrow> nat option \<Rightarrow> BatchProcessor \<Rightarrow> bool \<times> BatchProcessor" where
  "BatchProcessor_AddEvent s event bp =
     (case event of
        None \<Rightarrow> (False, bp)
      | Some r \<Rightarrow>
          if bp_pendingEventsByID bp (ev_ID (s r)) \<noteq> None then (False, bp)
          else
            let bp1 = bp\<lparr>bp_pendingEvents := bp_pendingEvents bp @ [r],
                         bp_pendingEventsByID := (bp_pendingEventsByID bp)(ev_ID (s r) \<mapsto> r)\<rparr>;
                bp2 = (if bc_GroupByCreator (bp_config bp1) then BatchProcessor_addToCreatorQueue s r bp1 else bp1);
                bp3 = BatchProcessor_addToPriorityQueue s r bp2
            in (int (length (bp_pendingEvents bp3)) \<ge> bc_BatchSize (bp_config bp3), bp3))"

text \<open>Whether a goroutine \<open>processBatch\<close> is started.\<close>

definition BatchProcessor_triggerProcessing :: "BatchProcessor \<Rightarrow> bool" where
  "BatchProcessor_triggerProcessing bp =
     (bp_isProcessing bp \<and> int (length (bp_pendingEvents bp)) \<ge> bc_BatchSize (bp_config bp))"

section \<open>Batches\<close>

definition BatchProcessor_removeEvent :: "event_store \<Rightarrow> nat \<Rightarrow> BatchProcessor \<Rightarrow> BatchProcessor" where
  "BatchProcessor_removeEvent s r bp = bp\<lparr>bp_pendingEventsByID := (bp_pendingEventsByID bp)(ev_ID (s r) := None)\<rparr>"

fun creator_loop ::
    "event_store \<Rightarrow> (nat list \<Rightarrow> nat list) \<Rightarrow> int \<Rightarrow> hash32 list \<Rightarrow> BatchProcessor \<Rightarrow> (nat list list \<times> BatchProcessor) option" where
  "creator_loop s srt batchSize [] bp = Some ([], bp)"
| "creator_loop s srt batchSize (creator # order) bp =
     (let queue = the (bp_creatorQueues bp creator) in
      if queue = [] then creator_loop s srt batchSize order bp
      else
        let events = srt queue in
        case chunks batchSize events of
          None \<Rightarrow> None
        | Some batches \<Rightarrow>
            let bp1 = fold (BatchProcessor_removeEvent s) (concat batches) bp;
                bp2 = bp1\<lparr>bp_creatorQueues := (if int (length events) \<le> batchSize then (bp_creatorQueues bp1)(creator := None)
                          else (bp_creatorQueues bp1)(creator \<mapsto> drop (nat batchSize) events))\<rparr>
            in map_option (\<lambda>(bs, bp3). (batches @ bs, bp3)) (creator_loop s srt batchSize order bp2))"

definition BatchProcessor_createCreatorBasedBatches ::
    "event_store \<Rightarrow> (nat list \<Rightarrow> nat list) \<Rightarrow> hash32 list \<Rightarrow> BatchProcessor \<Rightarrow> (nat list list \<times> BatchProcessor) option" where
  "BatchProcessor_createCreatorBasedBatches s srt order bp = creator_loop s srt (bc_BatchSize (bp_config bp)) order bp"

definition BatchProcessor_createHeightBasedBatches ::
    "event_store \<Rightarrow> (nat list \<Rightarrow> nat list) \<Rightarrow> BatchProcessor \<Rightarrow> (nat list list \<times> BatchProcessor) option" where
  "BatchProcessor_createHeightBasedBatches s srt bp =
     (if bp_pendingEvents bp = [] then Some ([], bp)
      else
        let batchSize = bc_BatchSize (bp_config bp); pending = srt (bp_pendingEvents bp) in
        case chunks batchSize pending of
          None \<Rightarrow> None
        | Some batches \<Rightarrow>
            let total = int (length batches) * batchSize;
                totalProcessed = (if total > int (length pending) then int (length pending) else total);
                bp1 = bp\<lparr>bp_pendingEvents := drop (nat totalProcessed) pending\<rparr>
            in Some (batches, fold (BatchProcessor_removeEvent s) (concat batches) bp1))"

text \<open>Processing a batch only counts its events: every one of them is a success.\<close>

definition BatchProcessor_processSingleBatch :: "duration \<Rightarrow> nat list \<Rightarrow> string \<Rightarrow> BatchResult" where
  "BatchProcessor_processSingleBatch elapsed events batchID =
     \<lparr>br_Events = events, br_ProcessedCount = int (length events), br_SuccessCount = int (length events), br_FailureCount = 0,
      br_ProcessingTime = elapsed, br_Errors = [], br_BatchIdentifier = batchID\<rparr>"

text \<open>\<open>processSequentially\<close> and \<open>processInParallel\<close> produce the same results, the second in any order.\<close>

definition BatchProcessor_processSequentially :: "(nat \<Rightarrow> duration) \<Rightarrow> nat list list \<Rightarrow> BatchResult list" where
  "BatchProcessor_processSequentially elapsed batches =
     map (\<lambda>(i, batch). BatchProcessor_processSingleBatch (elapsed i) batch (''batch-'' @ fmt_nat i)) (enumerate 0 batches)"

definition BatchProcessor_updateMetrics :: "int \<Rightarrow> int \<Rightarrow> duration \<Rightarrow> BatchProcessor \<Rightarrow> BatchProcessor" where
  "BatchProcessor_updateMetrics now batchCount dur bp =
     (let m = bp_metrics bp;
          m1 = m\<lparr>bm_TotalBatches := bm_TotalBatches m + batchCount, bm_LastBatchTime := now\<rparr>;
          m2 = (if bm_MaxProcessingTime m1 < dur then m1\<lparr>bm_MaxProcessingTime := dur\<rparr> else m1);
          m3 = (if bm_AvgProcessingTime m2 = 0 then m2\<lparr>bm_AvgProcessingTime := dur\<rparr>
                else m2\<lparr>bm_AvgProcessingTime := go_div (i64 (bm_AvgProcessingTime m2 * 9 + dur)) 10\<rparr>);
          h = (if length (bm_BatchSizeHistory m3) \<ge> 10 then tl (bm_BatchSizeHistory m3) else bm_BatchSizeHistory m3)
      in bp\<lparr>bp_metrics := m3\<lparr>bm_BatchSizeHistory := h @ [bc_BatchSize (bp_config bp)]\<rparr>\<rparr>)"

record BatchEnv =
  be_sort :: "nat list \<Rightarrow> nat list"
  be_creators :: "hash32 list"
  be_elapsed :: "nat \<Rightarrow> duration"
  be_now :: int
  be_duration :: duration

definition BatchProcessor_processBatch ::
    "event_store \<Rightarrow> BatchEnv \<Rightarrow> BatchProcessor \<Rightarrow> (BatchResult list \<times> BatchProcessor) option" where
  "BatchProcessor_processBatch s env bp =
     (if \<not> bp_isProcessing bp then Some ([], bp)
      else
        case (if bc_GroupByCreator (bp_config bp) then BatchProcessor_createCreatorBasedBatches s (be_sort env) (be_creators env) bp
              else BatchProcessor_createHeightBasedBatches s (be_sort env) bp) of
          None \<Rightarrow> None
        | Some (batches, bp1) \<Rightarrow>
            Some (BatchProcessor_processSequentially (be_elapsed env) batches,
                  BatchProcessor_updateMetrics (be_now env) (int (length batches)) (be_duration env) bp1))"

definition BatchProcessor_adaptBatchSize :: "int \<Rightarrow> BatchProcessor \<Rightarrow> BatchProcessor" where
  "BatchProcessor_adaptBatchSize now bp =
     (let bp1 = bp\<lparr>bp_lastAdapted := now\<rparr>; c = bp_config bp; m = bp_metrics bp in
      if length (bm_BatchSizeHistory m) < 3 then bp1
      else if bm_AvgProcessingTime m > i64 (bc_MaxBatchDelay c * 2) then
        let newSize = go_div (bc_BatchSize c * 3) 4
        in bp1\<lparr>bp_config := c\<lparr>bc_BatchSize := (if newSize < MinBatchSize then MinBatchSize else newSize)\<rparr>\<rparr>
      else if bm_AvgProcessingTime m < go_div (bc_MaxBatchDelay c) 2 then
        let newSize = go_div (bc_BatchSize c * 5) 4
        in bp1\<lparr>bp_config := c\<lparr>bc_BatchSize := (if newSize > bp_MaxBatchSize then bp_MaxBatchSize else newSize)\<rparr>\<rparr>
      else bp1)"

text \<open>One tick of \<open>processingLoop\<close>: whether it starts a goroutine \<open>processBatch\<close>, and the adapted processor.\<close>

definition BatchProcessor_processingLoop :: "int \<Rightarrow> BatchProcessor \<Rightarrow> bool \<times> BatchProcessor" where
  "BatchProcessor_processingLoop now bp =
     (bp_pendingEvents bp \<noteq> [],
      if bc_AdaptiveBatchSize (bp_config bp) \<and> now - bp_lastAdapted bp > 30 * second
      then BatchProcessor_adaptBatchSize now bp else bp)"

definition BatchProcessor_GetMetrics :: "BatchProcessor \<Rightarrow> BatchMetrics" where
  "BatchProcessor_GetMetrics bp = bp_metrics bp"

definition BatchProcessor_GetPendingCount :: "BatchProcessor \<Rightarrow> nat" where
  "BatchProcessor_GetPendingCount bp = length (bp_pendingEvents bp)"

section \<open>The event queue is a heap\<close>

definition epq_contents :: "EventPriorityQueue \<Rightarrow> (uint64 \<times> nat) list" where
  "epq_contents pq = map (\<lambda>x. (ep_Priority x, ep_Event x)) pq"

definition epq_inv :: "EventPriorityQueue \<Rightarrow> bool" where
  "epq_inv pq \<longleftrightarrow> (\<forall>i<length pq. ep_Index (pq ! i) = int i)"

lemma epq_Swap_nth:
  assumes "i < length pq" and "j < length pq" and "k < length pq"
  shows "EventPriorityQueue_Swap i j pq ! k =
    (if k = j then (pq ! i)\<lparr>ep_Index := int j\<rparr> else if k = i then (pq ! j)\<lparr>ep_Index := int i\<rparr> else pq ! k)"
  using assms by (auto simp: EventPriorityQueue_Swap_def Let_def nth_list_update)

lemma epq_Swap_length [simp]: "length (EventPriorityQueue_Swap i j pq) = length pq"
  by (simp add: EventPriorityQueue_Swap_def Let_def)

interpretation epq: heap_queue EventPriorityQueue_Len EventPriorityQueue_Less EventPriorityQueue_Swap epq_contents fst epq_inv
    EventPriorityQueue_Push EventPriorityQueue_Pop "\<lambda>_ _. True" "\<lambda>x _. (ep_Priority x, ep_Event x)"
    "\<lambda>(p, e). \<lparr>ep_Event = e, ep_Priority = p, ep_Index = - 1\<rparr>"
proof unfold_locales
  show "EventPriorityQueue_Len h = length (epq_contents h)" for h by (simp add: EventPriorityQueue_Len_def epq_contents_def)
  show "EventPriorityQueue_Less h i j = (fst (epq_contents h ! i) < fst (epq_contents h ! j))"
    if "i < EventPriorityQueue_Len h" "j < EventPriorityQueue_Len h" for i h j
    using that by (simp add: EventPriorityQueue_Less_def EventPriorityQueue_Len_def epq_contents_def)
  show "epq_contents (EventPriorityQueue_Swap i j h) = (epq_contents h)[i := epq_contents h ! j, j := epq_contents h ! i]"
    if "i < EventPriorityQueue_Len h" "j < EventPriorityQueue_Len h" for h i j
    using that by (intro nth_equalityI)
      (auto simp: epq_contents_def EventPriorityQueue_Len_def nth_list_update epq_Swap_nth)
  show "epq_inv (EventPriorityQueue_Swap i j h)"
    if "epq_inv h" "i < EventPriorityQueue_Len h" "j < EventPriorityQueue_Len h" for h i j
    using that by (auto simp: epq_inv_def EventPriorityQueue_Len_def epq_Swap_nth)
  show "epq_inv (EventPriorityQueue_Push x h) \<and> epq_contents (EventPriorityQueue_Push x h) = epq_contents h @ [(ep_Priority x, ep_Event x)]"
    if "epq_inv h" for h x
    using that by (auto simp: epq_inv_def EventPriorityQueue_Push_def epq_contents_def nth_append less_Suc_eq)
  show "epq_inv (snd (EventPriorityQueue_Pop h)) \<and> epq_contents (snd (EventPriorityQueue_Pop h)) = butlast (epq_contents h) \<and>
      fst (EventPriorityQueue_Pop h) = (case last (epq_contents h) of (p, e) \<Rightarrow> \<lparr>ep_Event = e, ep_Priority = p, ep_Index = - 1\<rparr>)"
    if "epq_inv h" "0 < EventPriorityQueue_Len h" for h
    using that by (auto simp: epq_inv_def EventPriorityQueue_Pop_def epq_contents_def EventPriorityQueue_Len_def nth_butlast map_butlast last_map)
qed

section \<open>Splitting loses nothing\<close>

lemma chunks_Nil [simp]: "chunks n [] = Some []"
  by (simp add: chunks.simps)

lemma chunks_ok:
  assumes "0 < n"
  shows "\<exists>cs. chunks n xs = Some cs \<and> concat cs = xs \<and> (\<forall>c\<in>set cs. c \<noteq> [] \<and> int (length c) \<le> n)"
proof (induction "length xs" arbitrary: xs rule: less_induct)
  case less
  show ?case
  proof (cases "xs = []")
    case False
    then have "length (drop (nat n) xs) < length xs" using assms by simp
    from less [OF this] obtain cs where cs: "chunks n (drop (nat n) xs) = Some cs" "concat cs = drop (nat n) xs"
      "\<forall>c\<in>set cs. c \<noteq> [] \<and> int (length c) \<le> n" by blast
    have "chunks n xs = Some (take (nat n) xs # cs)" using cs(1) False assms by (subst chunks.simps) simp
    then show ?thesis using cs(2,3) assms False by auto
  qed simp
qed

text \<open>Splitting what fits gives one chunk.\<close>

lemma chunks_fits: "0 < n \<Longrightarrow> xs \<noteq> [] \<Longrightarrow> int (length xs) \<le> n \<Longrightarrow> chunks n xs = Some [xs]"
  by (subst chunks.simps) auto

lemma remove_fold [simp]:
  "fold (BatchProcessor_removeEvent s) rs bp = bp\<lparr>bp_pendingEventsByID := (\<lambda>i. if i \<in> (\<lambda>r. ev_ID (s r)) ` set rs then None
     else bp_pendingEventsByID bp i)\<rparr>"
  by (induction rs arbitrary: bp) (auto simp: BatchProcessor_removeEvent_def fun_eq_iff)

section \<open>Invariant\<close>

text \<open>\<open>s\<close> is the store of events, of which the processor reads the ID, the creator and the height; these never change.\<close>

definition bp_inv :: "event_store \<Rightarrow> BatchProcessor \<Rightarrow> bool" where
  "bp_inv s bp \<longleftrightarrow>
     MinBatchSize \<le> bc_BatchSize (bp_config bp) \<and> bc_BatchSize (bp_config bp) \<le> bp_MaxBatchSize \<and>
     epq.ok (bp_priorityQueue bp) \<and>
     (\<forall>i r. bp_pendingEventsByID bp i = Some r \<longrightarrow> ev_ID (s r) = i \<and> r \<in> set (bp_pendingEvents bp) \<and>
        (bc_GroupByCreator (bp_config bp) \<longrightarrow> (\<exists>q. bp_creatorQueues bp (ev_Creator (s r)) = Some q \<and> r \<in> set q))) \<and>
     (\<forall>c q. bp_creatorQueues bp c = Some q \<longrightarrow> (\<forall>r\<in>set q. ev_Creator (s r) = c))"

lemma bp_invI:
  assumes "MinBatchSize \<le> bc_BatchSize (bp_config bp)" and "bc_BatchSize (bp_config bp) \<le> bp_MaxBatchSize" and "epq.ok (bp_priorityQueue bp)"
    and "\<And>i r. bp_pendingEventsByID bp i = Some r \<Longrightarrow> ev_ID (s r) = i \<and> r \<in> set (bp_pendingEvents bp)"
    and "\<And>i r. bp_pendingEventsByID bp i = Some r \<Longrightarrow> bc_GroupByCreator (bp_config bp) \<Longrightarrow>
      \<exists>q. bp_creatorQueues bp (ev_Creator (s r)) = Some q \<and> r \<in> set q"
    and "\<And>c q r. bp_creatorQueues bp c = Some q \<Longrightarrow> r \<in> set q \<Longrightarrow> ev_Creator (s r) = c"
  shows "bp_inv s bp"
  using assms unfolding bp_inv_def by blast

lemma bp_inv_size: "bp_inv s bp \<Longrightarrow> 0 < bc_BatchSize (bp_config bp)"
  by (simp add: bp_inv_def MinBatchSize_def)

inductive bp_step :: "event_store \<Rightarrow> BatchProcessor \<Rightarrow> BatchProcessor \<Rightarrow> bool" for s where
  start: "bp_step s bp (snd (BatchProcessor_Start bp))"
| stop: "bp_step s bp (snd (BatchProcessor_Stop bp))"
| add: "bp_step s bp (snd (BatchProcessor_AddEvent s e bp))"
| process: "BatchProcessor_processBatch s env bp = Some (rs, bp') \<Longrightarrow> slice_sorted (\<lambda>r. ev_Height (s r)) (be_sort env) \<Longrightarrow>
    range_order (bp_creatorQueues bp) (be_creators env) \<Longrightarrow> bp_step s bp bp'"
| tick: "bp_step s bp (snd (BatchProcessor_processingLoop now bp))"

lemma new_bp_inv: "bp_inv s (NewBatchProcessor config)"
proof -
  have "epq.ok []" by (simp add: epq.ok_def epq_inv_def heap_order_def EventPriorityQueue_Len_def)
  then show ?thesis
    by (cases config) (auto simp: bp_inv_def NewBatchProcessor_def Let_def batch_size_defs DefaultBatchProcessorConfig_def)
qed

lemma add_bp_inv:
  assumes "bp_inv s bp"
  shows "bp_inv s (snd (BatchProcessor_AddEvent s e bp))"
proof (cases "\<exists>r. e = Some r \<and> bp_pendingEventsByID bp (ev_ID (s r)) = None")
  case False
  then show ?thesis using assms by (auto simp: BatchProcessor_AddEvent_def split: option.splits)
next
  case True
  then obtain r where r: "e = Some r" "bp_pendingEventsByID bp (ev_ID (s r)) = None" by blast
  let ?x = "\<lparr>ep_Event = r, ep_Priority = ev_Height (s r), ep_Index = 0\<rparr>"
  let ?bp = "snd (BatchProcessor_AddEvent s e bp)"
  let ?q = "case bp_creatorQueues bp (ev_Creator (s r)) of None \<Rightarrow> [] | Some q \<Rightarrow> q"
  have f: "bp_config ?bp = bp_config bp" "bp_pendingEvents ?bp = bp_pendingEvents bp @ [r]"
    "bp_pendingEventsByID ?bp = (bp_pendingEventsByID bp)(ev_ID (s r) \<mapsto> r)"
    "bp_priorityQueue ?bp = heap_Push EventPriorityQueue_Len EventPriorityQueue_Less EventPriorityQueue_Swap EventPriorityQueue_Push ?x (bp_priorityQueue bp)"
    "bp_creatorQueues ?bp = (if bc_GroupByCreator (bp_config bp) then (bp_creatorQueues bp)(ev_Creator (s r) \<mapsto> ?q @ [r]) else bp_creatorQueues bp)"
    using r by (auto simp: BatchProcessor_AddEvent_def Let_def BatchProcessor_addToPriorityQueue_def BatchProcessor_addToCreatorQueue_def)
  have ok: "epq.ok (bp_priorityQueue ?bp)" unfolding f using assms epq.Push_correct [of "bp_priorityQueue bp" ?x] by (simp add: bp_inv_def)
  have qs: "bp_pendingEventsByID bp i = Some r' \<Longrightarrow> bc_GroupByCreator (bp_config bp) \<Longrightarrow>
      \<exists>q. bp_creatorQueues bp (ev_Creator (s r')) = Some q \<and> r' \<in> set q"
    "bp_creatorQueues bp c = Some q \<Longrightarrow> r' \<in> set q \<Longrightarrow> ev_Creator (s r') = c" for i r' c q
    using assms unfolding bp_inv_def by blast+
  show ?thesis
  proof (rule bp_invI)
    show "ev_ID (s r') = i \<and> r' \<in> set (bp_pendingEvents ?bp)" if "bp_pendingEventsByID ?bp i = Some r'" for i r'
      using that assms unfolding f bp_inv_def by (auto split: if_splits)
    show "\<exists>q. bp_creatorQueues ?bp (ev_Creator (s r')) = Some q \<and> r' \<in> set q"
      if "bp_pendingEventsByID ?bp i = Some r'" "bc_GroupByCreator (bp_config ?bp)" for i r'
      using that qs(1) [of i r'] by (auto simp: f split: if_splits)
    show "ev_Creator (s r') = c" if "bp_creatorQueues ?bp c = Some q" "r' \<in> set q" for c q r'
      using that qs(2) by (auto simp: f split: if_splits option.splits)
  qed (use assms ok in \<open>auto simp: f bp_inv_def\<close>)
qed

text \<open>One run over the queues of the creators. \<open>left\<close> is what stays in a queue.\<close>

definition left :: "(nat list \<Rightarrow> nat list) \<Rightarrow> int \<Rightarrow> nat list \<Rightarrow> nat list option" where
  "left srt n q = (if q = [] then Some [] else if int (length (srt q)) \<le> n then None else Some (drop (nat n) (srt q)))"

lemma slice_sorted_set [simp]: "slice_sorted key srt \<Longrightarrow> set (srt xs) = set xs"
  unfolding slice_sorted_def by (meson mset_eq_setD)

lemma slice_sorted_length [simp]: "slice_sorted key srt \<Longrightarrow> length (srt xs) = length xs"
  unfolding slice_sorted_def by (meson mset_eq_length)

lemma sorted_concat_part: "sorted (map f (concat cs)) \<Longrightarrow> c \<in> set cs \<Longrightarrow> sorted (map f c)"
  by (induction cs) (auto simp: sorted_append)

lemma creator_loop_ok:
  assumes n: "0 < n" and srt: "slice_sorted (\<lambda>r. ev_Height (s r)) srt"
    and "distinct order" and "set order \<subseteq> dom (bp_creatorQueues bp)"
  shows "\<exists>bs. creator_loop s srt n order bp = Some (bs, bp\<lparr>
      bp_pendingEventsByID := (\<lambda>i. if \<exists>c\<in>set order. i \<in> (\<lambda>r. ev_ID (s r)) ` set (the (bp_creatorQueues bp c)) then None
        else bp_pendingEventsByID bp i),
      bp_creatorQueues := (\<lambda>c. if c \<in> set order then left srt n (the (bp_creatorQueues bp c)) else bp_creatorQueues bp c)\<rparr>) \<and>
    mset (concat bs) = (\<Sum>c\<leftarrow>order. mset (the (bp_creatorQueues bp c))) \<and>
    (\<forall>b\<in>set bs. b \<noteq> [] \<and> int (length b) \<le> n \<and> sorted (map (\<lambda>r. ev_Height (s r)) b) \<and>
       (\<exists>c\<in>set order. set b \<subseteq> set (the (bp_creatorQueues bp c))))"
  using assms(3,4)
proof (induction order arbitrary: bp)
  case (Cons c order)
  obtain q where q: "bp_creatorQueues bp c = Some q" using Cons.prems(2) by auto
  have d: "distinct order" "c \<notin> set order" using Cons.prems(1) by auto
  show ?case
  proof (cases "q = []")
    case True
    have "set order \<subseteq> dom (bp_creatorQueues bp)" using Cons.prems(2) by simp
    from Cons.IH [OF d(1) this] obtain bs where bs:
      "creator_loop s srt n order bp = Some (bs, bp\<lparr>
        bp_pendingEventsByID := (\<lambda>i. if \<exists>c\<in>set order. i \<in> (\<lambda>r. ev_ID (s r)) ` set (the (bp_creatorQueues bp c)) then None
          else bp_pendingEventsByID bp i),
        bp_creatorQueues := (\<lambda>c. if c \<in> set order then left srt n (the (bp_creatorQueues bp c)) else bp_creatorQueues bp c)\<rparr>)"
      "mset (concat bs) = (\<Sum>c\<leftarrow>order. mset (the (bp_creatorQueues bp c)))"
      "\<forall>b\<in>set bs. b \<noteq> [] \<and> int (length b) \<le> n \<and> sorted (map (\<lambda>r. ev_Height (s r)) b) \<and>
         (\<exists>c\<in>set order. set b \<subseteq> set (the (bp_creatorQueues bp c)))" by blast
    have eqs: "(\<lambda>k. if k \<in> set (c # order) then left srt n (the (bp_creatorQueues bp k)) else bp_creatorQueues bp k) =
        (\<lambda>k. if k \<in> set order then left srt n (the (bp_creatorQueues bp k)) else bp_creatorQueues bp k)"
      "(\<exists>k\<in>set (c # order). i \<in> (\<lambda>r. ev_ID (s r)) ` set (the (bp_creatorQueues bp k))) =
        (\<exists>k\<in>set order. i \<in> (\<lambda>r. ev_ID (s r)) ` set (the (bp_creatorQueues bp k)))" for i
      using True q d(2) by (auto simp: left_def)
    have "creator_loop s srt n (c # order) bp = creator_loop s srt n order bp" using True q by simp
    then show ?thesis unfolding eqs using bs True q by (intro exI [of _ bs]) auto
  next
    case False
    obtain cs where cs: "chunks n (srt q) = Some cs" "concat cs = srt q" "\<forall>b\<in>set cs. b \<noteq> [] \<and> int (length b) \<le> n"
      using chunks_ok [OF n] by blast
    have st: "sorted (map (\<lambda>r. ev_Height (s r)) (concat cs))" using srt unfolding cs(2) slice_sorted_def by blast
    define bp1 where "bp1 = bp\<lparr>bp_pendingEventsByID := (\<lambda>i. if i \<in> (\<lambda>r. ev_ID (s r)) ` set q then None else bp_pendingEventsByID bp i),
      bp_creatorQueues := (bp_creatorQueues bp)(c := left srt n q)\<rparr>"
    have dom: "set order \<subseteq> dom (bp_creatorQueues bp1)" using Cons.prems(2) d(2) by (auto simp: bp1_def)
    have same: "bp_creatorQueues bp1 k = bp_creatorQueues bp k" if "k \<in> set order" for k using that d(2) by (auto simp: bp1_def)
    from Cons.IH [OF d(1) dom] obtain bs where bs:
      "creator_loop s srt n order bp1 = Some (bs, bp1\<lparr>
        bp_pendingEventsByID := (\<lambda>i. if \<exists>c\<in>set order. i \<in> (\<lambda>r. ev_ID (s r)) ` set (the (bp_creatorQueues bp1 c)) then None
          else bp_pendingEventsByID bp1 i),
        bp_creatorQueues := (\<lambda>c. if c \<in> set order then left srt n (the (bp_creatorQueues bp1 c)) else bp_creatorQueues bp1 c)\<rparr>)"
      "mset (concat bs) = (\<Sum>c\<leftarrow>order. mset (the (bp_creatorQueues bp1 c)))"
      "\<forall>b\<in>set bs. b \<noteq> [] \<and> int (length b) \<le> n \<and> sorted (map (\<lambda>r. ev_Height (s r)) b) \<and>
         (\<exists>c\<in>set order. set b \<subseteq> set (the (bp_creatorQueues bp1 c)))" by blast
    have step: "creator_loop s srt n (c # order) bp = map_option (\<lambda>(bs, bp3). (cs @ bs, bp3)) (creator_loop s srt n order bp1)"
      using False q cs(1) srt by (simp add: Let_def cs(2) bp1_def left_def)
    have res: "creator_loop s srt n (c # order) bp = Some (cs @ bs, bp\<lparr>
      bp_pendingEventsByID := (\<lambda>i. if \<exists>c\<in>set (c # order). i \<in> (\<lambda>r. ev_ID (s r)) ` set (the (bp_creatorQueues bp c)) then None
        else bp_pendingEventsByID bp i),
      bp_creatorQueues := (\<lambda>k. if k \<in> set (c # order) then left srt n (the (bp_creatorQueues bp k)) else bp_creatorQueues bp k)\<rparr>)"
    proof -
      have "(\<lambda>k. if k \<in> set order then left srt n (the (bp_creatorQueues bp1 k)) else bp_creatorQueues bp1 k) =
          (\<lambda>k. if k \<in> set (c # order) then left srt n (the (bp_creatorQueues bp k)) else bp_creatorQueues bp k)"
        using same q d(2) by (auto simp: bp1_def fun_eq_iff)
      moreover have "(\<lambda>i. if \<exists>c\<in>set order. i \<in> (\<lambda>r. ev_ID (s r)) ` set (the (bp_creatorQueues bp1 c)) then None
          else bp_pendingEventsByID bp1 i) =
        (\<lambda>i. if \<exists>c\<in>set (c # order). i \<in> (\<lambda>r. ev_ID (s r)) ` set (the (bp_creatorQueues bp c)) then None
          else bp_pendingEventsByID bp i)"
        using same q by (auto simp: bp1_def fun_eq_iff)
      ultimately show ?thesis unfolding step bs(1) by (simp add: bp1_def)
    qed
    have m: "mset (concat (cs @ bs)) = (\<Sum>c\<leftarrow>c # order. mset (the (bp_creatorQueues bp c)))"
    proof -
      have "(\<Sum>c\<leftarrow>order. mset (the (bp_creatorQueues bp1 c))) = (\<Sum>c\<leftarrow>order. mset (the (bp_creatorQueues bp c)))"
        using same by (intro arg_cong [where f = sum_list] map_cong) auto
      moreover have "mset (srt q) = mset q" using srt by (simp add: slice_sorted_def)
      ultimately show ?thesis using bs(2) q by (simp add: cs(2))
    qed
    have "\<forall>b\<in>set cs. set b \<subseteq> set q"
    proof
      fix b assume "b \<in> set cs"
      then have "set b \<subseteq> set (concat cs)" by auto
      then show "set b \<subseteq> set q" unfolding cs(2) slice_sorted_set [OF srt] .
    qed
    then have all: "\<forall>b\<in>set (cs @ bs). b \<noteq> [] \<and> int (length b) \<le> n \<and> sorted (map (\<lambda>r. ev_Height (s r)) b) \<and>
       (\<exists>c\<in>set (c # order). set b \<subseteq> set (the (bp_creatorQueues bp c)))"
      using cs(3) bs(3) same q sorted_concat_part [OF st] by auto
    show ?thesis using res m all by blast
  qed
qed simp

lemma updateMetrics_frame [frame_simps]:
  "bp_config (BatchProcessor_updateMetrics now n dur bp) = bp_config bp"
  "bp_pendingEvents (BatchProcessor_updateMetrics now n dur bp) = bp_pendingEvents bp"
  "bp_pendingEventsByID (BatchProcessor_updateMetrics now n dur bp) = bp_pendingEventsByID bp"
  "bp_creatorQueues (BatchProcessor_updateMetrics now n dur bp) = bp_creatorQueues bp"
  "bp_priorityQueue (BatchProcessor_updateMetrics now n dur bp) = bp_priorityQueue bp"
  by (simp_all add: BatchProcessor_updateMetrics_def Let_def)

lemma sequential_events [simp]:
  "map br_Events (BatchProcessor_processSequentially elapsed batches) = batches"
  by (simp add: BatchProcessor_processSequentially_def BatchProcessor_processSingleBatch_def comp_def case_prod_beta)

lemma sum_mset_set: "set_mset (\<Sum>c\<leftarrow>xs. mset (f c)) = (\<Union>c\<in>set xs. set (f c))"
  by (induction xs) auto

text \<open>What \<open>processBatch\<close> does while it groups by creator.\<close>

lemma process_creator:
  assumes inv: "bp_inv s bp" and run: "bp_isProcessing bp" and g: "bc_GroupByCreator (bp_config bp)"
    and srt: "slice_sorted (\<lambda>r. ev_Height (s r)) (be_sort env)" and ord: "range_order (bp_creatorQueues bp) (be_creators env)"
  obtains rs bp' where "BatchProcessor_processBatch s env bp = Some (rs, bp')"
    and "bp_config bp' = bp_config bp" and "bp_pendingEvents bp' = bp_pendingEvents bp" and "bp_pendingEventsByID bp' = Map.empty"
    and "bp_priorityQueue bp' = bp_priorityQueue bp"
    and "bp_creatorQueues bp' = (\<lambda>c. case bp_creatorQueues bp c of None \<Rightarrow> None
           | Some q \<Rightarrow> left (be_sort env) (bc_BatchSize (bp_config bp)) q)"
    and "set (concat (map br_Events rs)) = (\<Union>q\<in>ran (bp_creatorQueues bp). set q)"
    and "\<forall>b\<in>set (map br_Events rs). b \<noteq> [] \<and> int (length b) \<le> bc_BatchSize (bp_config bp) \<and>
       sorted (map (\<lambda>r. ev_Height (s r)) b) \<and> (\<exists>c. set b \<subseteq> set (the (bp_creatorQueues bp c)) \<and> c \<in> dom (bp_creatorQueues bp))"
proof -
  let ?n = "bc_BatchSize (bp_config bp)" and ?order = "be_creators env"
  have o: "distinct ?order" "set ?order = dom (bp_creatorQueues bp)" using ord by (simp_all add: range_order_def)
  from creator_loop_ok [OF bp_inv_size [OF inv] srt o(1), of bp] o(2) obtain bs where bs:
    "creator_loop s (be_sort env) ?n ?order bp = Some (bs, bp\<lparr>
      bp_pendingEventsByID := (\<lambda>i. if \<exists>c\<in>set ?order. i \<in> (\<lambda>r. ev_ID (s r)) ` set (the (bp_creatorQueues bp c)) then None
        else bp_pendingEventsByID bp i),
      bp_creatorQueues := (\<lambda>c. if c \<in> set ?order then left (be_sort env) ?n (the (bp_creatorQueues bp c)) else bp_creatorQueues bp c)\<rparr>)"
    "mset (concat bs) = (\<Sum>c\<leftarrow>?order. mset (the (bp_creatorQueues bp c)))"
    "\<forall>b\<in>set bs. b \<noteq> [] \<and> int (length b) \<le> ?n \<and> sorted (map (\<lambda>r. ev_Height (s r)) b) \<and>
       (\<exists>c\<in>set ?order. set b \<subseteq> set (the (bp_creatorQueues bp c)))" by blast
  have none: "(\<lambda>i. if \<exists>c\<in>set ?order. i \<in> (\<lambda>r. ev_ID (s r)) ` set (the (bp_creatorQueues bp c)) then None
      else bp_pendingEventsByID bp i) = Map.empty"
  proof
    fix i
    show "(if \<exists>c\<in>set ?order. i \<in> (\<lambda>r. ev_ID (s r)) ` set (the (bp_creatorQueues bp c)) then None
      else bp_pendingEventsByID bp i) = None"
    proof (cases "bp_pendingEventsByID bp i")
      case (Some r)
      then have "ev_ID (s r) = i" "\<exists>q. bp_creatorQueues bp (ev_Creator (s r)) = Some q \<and> r \<in> set q"
        using inv g unfolding bp_inv_def by blast+
      then have "\<exists>c\<in>set ?order. i \<in> (\<lambda>r. ev_ID (s r)) ` set (the (bp_creatorQueues bp c))"
        using o(2) by (auto intro!: bexI [of _ "ev_Creator (s r)"])
      then show ?thesis by simp
    qed simp
  qed
  have queues: "(\<lambda>c. if c \<in> set ?order then left (be_sort env) ?n (the (bp_creatorQueues bp c)) else bp_creatorQueues bp c) =
      (\<lambda>c. case bp_creatorQueues bp c of None \<Rightarrow> None | Some q \<Rightarrow> left (be_sort env) ?n q)"
    using o(2) by (auto simp: fun_eq_iff split: option.splits)
  let ?bp1 = "bp\<lparr>bp_pendingEventsByID := Map.empty, bp_creatorQueues := (\<lambda>c. case bp_creatorQueues bp c of None \<Rightarrow> None
    | Some q \<Rightarrow> left (be_sort env) ?n q)\<rparr>"
  let ?bp' = "BatchProcessor_updateMetrics (be_now env) (int (length bs)) (be_duration env) ?bp1"
  have "BatchProcessor_processBatch s env bp = Some (BatchProcessor_processSequentially (be_elapsed env) bs, ?bp')"
    using run g bs(1) unfolding BatchProcessor_processBatch_def BatchProcessor_createCreatorBasedBatches_def none queues by simp
  moreover have "set (concat bs) = (\<Union>q\<in>ran (bp_creatorQueues bp). set q)"
  proof -
    have "set_mset (mset (concat bs)) = (\<Union>c\<in>set ?order. set (the (bp_creatorQueues bp c)))" unfolding bs(2) sum_mset_set ..
    then show ?thesis unfolding o(2) by (auto simp: ran_def dom_def)
  qed
  moreover have "\<forall>b\<in>set bs. b \<noteq> [] \<and> int (length b) \<le> ?n \<and> sorted (map (\<lambda>r. ev_Height (s r)) b) \<and>
       (\<exists>c. set b \<subseteq> set (the (bp_creatorQueues bp c)) \<and> c \<in> dom (bp_creatorQueues bp))"
    using bs(3) o(2) by blast
  ultimately show ?thesis
    by (intro that [of "BatchProcessor_processSequentially (be_elapsed env) bs" ?bp']) (simp_all only: sequential_events, simp_all add: frame_simps)
qed

text \<open>The same for \<open>createHeightBasedBatches\<close>: everything that waits is put into batches.\<close>

lemma process_height:
  assumes inv: "bp_inv s bp" and run: "bp_isProcessing bp" and g: "\<not> bc_GroupByCreator (bp_config bp)"
    and srt: "slice_sorted (\<lambda>r. ev_Height (s r)) (be_sort env)"
  obtains rs bp' where "BatchProcessor_processBatch s env bp = Some (rs, bp')"
    and "bp_config bp' = bp_config bp" and "bp_pendingEvents bp' = []" and "bp_pendingEventsByID bp' = Map.empty"
    and "bp_priorityQueue bp' = bp_priorityQueue bp" and "bp_creatorQueues bp' = bp_creatorQueues bp"
    and "mset (concat (map br_Events rs)) = mset (bp_pendingEvents bp)"
    and "\<forall>b\<in>set (map br_Events rs). b \<noteq> [] \<and> int (length b) \<le> bc_BatchSize (bp_config bp) \<and> sorted (map (\<lambda>r. ev_Height (s r)) b)"
proof (cases "bp_pendingEvents bp = []")
  case True
  have "bp_pendingEventsByID bp = Map.empty" using inv True by (fastforce simp: bp_inv_def fun_eq_iff)
  then show ?thesis using that [of "[]" "BatchProcessor_updateMetrics (be_now env) 0 (be_duration env) bp"] run g True
    by (simp add: BatchProcessor_processBatch_def BatchProcessor_createHeightBasedBatches_def BatchProcessor_processSequentially_def frame_simps)
next
  case False
  let ?n = "bc_BatchSize (bp_config bp)" and ?p = "be_sort env (bp_pendingEvents bp)"
  obtain cs where cs: "chunks ?n ?p = Some cs" "concat cs = ?p" "\<forall>b\<in>set cs. b \<noteq> [] \<and> int (length b) \<le> ?n"
    using chunks_ok [OF bp_inv_size [OF inv]] by blast
  have st: "sorted (map (\<lambda>r. ev_Height (s r)) (concat cs))" using srt unfolding cs(2) slice_sorted_def by blast
  have len: "length ?p \<le> nat (int (length cs) * ?n)"
  proof -
    have "int (length (concat cs)) \<le> int (length cs) * ?n" using cs(3)
      by (induction cs) (auto simp: algebra_simps)
    then show ?thesis by (simp add: cs(2))
  qed
  let ?bp1 = "bp\<lparr>bp_pendingEvents := [], bp_pendingEventsByID := Map.empty\<rparr>"
  have all: "(\<lambda>i. if i \<in> (\<lambda>r. ev_ID (s r)) ` set (concat cs) then None else bp_pendingEventsByID bp i) = Map.empty"
  proof
    fix i
    show "(if i \<in> (\<lambda>r. ev_ID (s r)) ` set (concat cs) then None else bp_pendingEventsByID bp i) = None"
    proof (cases "bp_pendingEventsByID bp i")
      case (Some r)
      then have "ev_ID (s r) = i" "r \<in> set (bp_pendingEvents bp)" using inv unfolding bp_inv_def by blast+
      then show ?thesis unfolding cs(2) slice_sorted_set [OF srt] by auto
    qed simp
  qed
  have "BatchProcessor_createHeightBasedBatches s (be_sort env) bp = Some (cs, ?bp1)"
    unfolding BatchProcessor_createHeightBasedBatches_def Let_def cs(1) remove_fold using False len all by (simp cong: if_cong)
  then have "BatchProcessor_processBatch s env bp = Some (BatchProcessor_processSequentially (be_elapsed env) cs,
      BatchProcessor_updateMetrics (be_now env) (int (length cs)) (be_duration env) ?bp1)"
    using run g by (simp add: BatchProcessor_processBatch_def)
  moreover have "mset ?p = mset (bp_pendingEvents bp)" using srt by (simp add: slice_sorted_def)
  then have "mset (concat cs) = mset (bp_pendingEvents bp)" unfolding cs(2) .
  moreover have "\<forall>b\<in>set cs. b \<noteq> [] \<and> int (length b) \<le> ?n \<and> sorted (map (\<lambda>r. ev_Height (s r)) b)"
    using cs(3) sorted_concat_part [OF st] by blast
  ultimately show ?thesis
    by (intro that [of "BatchProcessor_processSequentially (be_elapsed env) cs"
        "BatchProcessor_updateMetrics (be_now env) (int (length cs)) (be_duration env) ?bp1"]) (simp_all only: sequential_events, simp_all add: frame_simps)
qed

lemma left_props:
  assumes "slice_sorted key srt" and "left srt n q = Some q'"
  shows "set q' \<subseteq> set q"
proof -
  have "set (srt q) = set q" using assms(1) by simp
  then show ?thesis using assms(2) set_drop_subset [of "nat n" "srt q"] by (auto simp: left_def split: if_splits)
qed

lemma bp_inv_config:
  "bp_inv s bp \<Longrightarrow> MinBatchSize \<le> n \<Longrightarrow> n \<le> bp_MaxBatchSize \<Longrightarrow>
   bp_inv s (bp\<lparr>bp_lastAdapted := now, bp_config := (bp_config bp)\<lparr>bc_BatchSize := n\<rparr>\<rparr>)"
  by (auto simp: bp_inv_def)

lemma adapt_size:
  assumes "bp_inv s bp"
  obtains n where "BatchProcessor_adaptBatchSize now bp = bp\<lparr>bp_lastAdapted := now, bp_config := (bp_config bp)\<lparr>bc_BatchSize := n\<rparr>\<rparr>"
    and "MinBatchSize \<le> n" and "n \<le> bp_MaxBatchSize"
proof -
  let ?b = "bc_BatchSize (bp_config bp)"
  have b: "MinBatchSize \<le> ?b" "?b \<le> bp_MaxBatchSize" using assms by (simp_all add: bp_inv_def)
  then have d: "go_div (?b * 3) 4 = ?b * 3 div 4" "go_div (?b * 5) 4 = ?b * 5 div 4"
    by (simp_all add: go_div_nonneg MinBatchSize_def)
  define lo hi where "lo = (if ?b * 3 div 4 < MinBatchSize then MinBatchSize else ?b * 3 div 4)"
    and "hi = (if ?b * 5 div 4 > bp_MaxBatchSize then bp_MaxBatchSize else ?b * 5 div 4)"
  have r: "MinBatchSize \<le> lo" "lo \<le> bp_MaxBatchSize" "MinBatchSize \<le> hi" "hi \<le> bp_MaxBatchSize"
    using b unfolding lo_def hi_def batch_size_defs by (simp_all split: if_split) linarith+
  have eq: "\<exists>A B C. BatchProcessor_adaptBatchSize now bp = (if A then bp\<lparr>bp_lastAdapted := now\<rparr>
      else if B then bp\<lparr>bp_lastAdapted := now, bp_config := (bp_config bp)\<lparr>bc_BatchSize := lo\<rparr>\<rparr>
      else if C then bp\<lparr>bp_lastAdapted := now, bp_config := (bp_config bp)\<lparr>bc_BatchSize := hi\<rparr>\<rparr> else bp\<lparr>bp_lastAdapted := now\<rparr>)"
    unfolding BatchProcessor_adaptBatchSize_def Let_def d lo_def [symmetric] hi_def [symmetric] by blast
  consider "BatchProcessor_adaptBatchSize now bp = bp\<lparr>bp_lastAdapted := now\<rparr>"
    | "BatchProcessor_adaptBatchSize now bp = bp\<lparr>bp_lastAdapted := now, bp_config := (bp_config bp)\<lparr>bc_BatchSize := lo\<rparr>\<rparr>"
    | "BatchProcessor_adaptBatchSize now bp = bp\<lparr>bp_lastAdapted := now, bp_config := (bp_config bp)\<lparr>bc_BatchSize := hi\<rparr>\<rparr>"
    using eq by metis
  then show ?thesis
  proof cases
    case 1
    then show ?thesis using that [of ?b] b by simp
  qed (use that r in blast)+
qed

lemma adapt_bp_inv: "bp_inv s bp \<Longrightarrow> bp_inv s (BatchProcessor_adaptBatchSize now bp)"
  by (metis adapt_size bp_inv_config)

lemma bp_step_inv: "bp_step s bp bp' \<Longrightarrow> bp_inv s bp \<Longrightarrow> bp_inv s bp'"
proof (induction rule: bp_step.induct)
  case (process env bp rs bp')
  show ?case
  proof (cases "bp_isProcessing bp")
    case False
    then show ?thesis using process by (simp add: BatchProcessor_processBatch_def)
  next
    case run: True
    show ?thesis
    proof (cases "bc_GroupByCreator (bp_config bp)")
      case True
      obtain rs1 bp1 where r: "BatchProcessor_processBatch s env bp = Some (rs1, bp1)"
        "bp_config bp1 = bp_config bp" "bp_pendingEventsByID bp1 = Map.empty" "bp_priorityQueue bp1 = bp_priorityQueue bp"
        "bp_creatorQueues bp1 = (\<lambda>c. case bp_creatorQueues bp c of None \<Rightarrow> None | Some q \<Rightarrow> left (be_sort env) (bc_BatchSize (bp_config bp)) q)"
        by (rule process_creator [OF process(4) run True process(2,3)], rule that)
      then have eq: "bp' = bp1" using process(1) by simp
      have "ev_Creator (s r) = c" if "bp_creatorQueues bp' c = Some q" "r \<in> set q" for c q r
      proof -
        have "\<exists>q0. bp_creatorQueues bp c = Some q0 \<and> set q \<subseteq> set q0"
          using that(1) left_props [OF process(2)] unfolding eq r(5) by (cases "bp_creatorQueues bp c") simp_all
        then obtain q0 where "bp_creatorQueues bp c = Some q0" "set q \<subseteq> set q0" by blast
        then show ?thesis using process(4) that(2) unfolding bp_inv_def by blast
      qed
      then show ?thesis using process(4) by (intro bp_invI) (auto simp: eq r bp_inv_def)
    next
      case False
      obtain rs1 bp1 where r: "BatchProcessor_processBatch s env bp = Some (rs1, bp1)"
        "bp_config bp1 = bp_config bp" "bp_pendingEventsByID bp1 = Map.empty" "bp_priorityQueue bp1 = bp_priorityQueue bp"
        "bp_creatorQueues bp1 = bp_creatorQueues bp"
        by (rule process_height [OF process(4) run False process(2)], rule that)
      then have eq: "bp' = bp1" using process(1) by simp
      then show ?thesis using process(4) by (intro bp_invI) (auto simp: r bp_inv_def)
    qed
  qed
next
  case (add bp e)
  then show ?case by (rule add_bp_inv)
next
  case (tick bp now)
  then show ?case using adapt_bp_inv by (simp add: BatchProcessor_processingLoop_def)
qed (auto simp: BatchProcessor_Start_def BatchProcessor_Stop_def bp_inv_def)

lemma bp_steps_inv: "(bp_step s)\<^sup>*\<^sup>* bp bp' \<Longrightarrow> bp_inv s bp \<Longrightarrow> bp_inv s bp'"
  by (induction rule: rtranclp_induct) (auto intro: bp_step_inv)

text \<open>What a run over the batches leaves of the index and the heap.\<close>

lemma process_frame:
  assumes inv: "bp_inv s bp" and p: "BatchProcessor_processBatch s env bp = Some (rs, bp')"
    and srt: "slice_sorted (\<lambda>r. ev_Height (s r)) (be_sort env)" and ord: "range_order (bp_creatorQueues bp) (be_creators env)"
  shows "bp_priorityQueue bp' = bp_priorityQueue bp \<and> (bp_pendingEventsByID bp' = bp_pendingEventsByID bp \<or> bp_pendingEventsByID bp' = Map.empty)"
proof (cases "bp_isProcessing bp")
  case False
  then show ?thesis using p by (simp add: BatchProcessor_processBatch_def)
next
  case run: True
  show ?thesis
  proof (cases "bc_GroupByCreator (bp_config bp)")
    case True
    obtain rs1 bp1 where "BatchProcessor_processBatch s env bp = Some (rs1, bp1)" "bp_pendingEventsByID bp1 = Map.empty"
      "bp_priorityQueue bp1 = bp_priorityQueue bp"
      by (rule process_creator [OF inv run True srt ord], rule that)
    then show ?thesis using p by simp
  next
    case False
    obtain rs1 bp1 where "BatchProcessor_processBatch s env bp = Some (rs1, bp1)" "bp_pendingEventsByID bp1 = Map.empty"
      "bp_priorityQueue bp1 = bp_priorityQueue bp"
      by (rule process_height [OF inv run False srt], rule that)
    then show ?thesis using p by simp
  qed
qed

text \<open>The entries of the heap carry the heights of their events, and every event of the index has an entry.\<close>

definition heap_faithful :: "event_store \<Rightarrow> BatchProcessor \<Rightarrow> bool" where
  "heap_faithful s bp \<longleftrightarrow> (\<forall>(p, e) \<in> set (epq_contents (bp_priorityQueue bp)). p = ev_Height (s e)) \<and>
     ran (bp_pendingEventsByID bp) \<subseteq> snd ` set (epq_contents (bp_priorityQueue bp))"

lemma heap_faithful_frame:
  "heap_faithful s bp \<Longrightarrow> bp_priorityQueue bp' = bp_priorityQueue bp \<Longrightarrow>
   bp_pendingEventsByID bp' = bp_pendingEventsByID bp \<or> bp_pendingEventsByID bp' = Map.empty \<Longrightarrow> heap_faithful s bp'"
  by (auto simp: heap_faithful_def)

lemma add_heap_faithful:
  assumes inv: "bp_inv s bp" and h: "heap_faithful s bp"
  shows "heap_faithful s (snd (BatchProcessor_AddEvent s e bp))"
proof (cases "\<exists>r. e = Some r \<and> bp_pendingEventsByID bp (ev_ID (s r)) = None")
  case False
  then show ?thesis using h by (auto simp: BatchProcessor_AddEvent_def split: option.splits)
next
  case True
  then obtain r where r: "e = Some r" "bp_pendingEventsByID bp (ev_ID (s r)) = None" by blast
  let ?x = "\<lparr>ep_Event = r, ep_Priority = ev_Height (s r), ep_Index = 0\<rparr>" and ?bp = "snd (BatchProcessor_AddEvent s e bp)"
  have f: "bp_pendingEventsByID ?bp = (bp_pendingEventsByID bp)(ev_ID (s r) \<mapsto> r)"
    "bp_priorityQueue ?bp = heap_Push EventPriorityQueue_Len EventPriorityQueue_Less EventPriorityQueue_Swap EventPriorityQueue_Push ?x (bp_priorityQueue bp)"
    using r by (auto simp: BatchProcessor_AddEvent_def Let_def BatchProcessor_addToPriorityQueue_def BatchProcessor_addToCreatorQueue_def)
  have "epq.ok (bp_priorityQueue bp)" using inv by (simp add: bp_inv_def)
  from epq.Push_correct [OF this, of ?x]
  have "mset (epq_contents (bp_priorityQueue ?bp)) = add_mset (ev_Height (s r), r) (mset (epq_contents (bp_priorityQueue bp)))"
    unfolding f by simp
  from arg_cong [OF this, of set_mset]
  have "set (epq_contents (bp_priorityQueue ?bp)) = insert (ev_Height (s r), r) (set (epq_contents (bp_priorityQueue bp)))" by simp
  then show ?thesis using h r(2) by (auto simp: heap_faithful_def f(1) ran_def)
qed

lemma bp_step_heap: "bp_step s bp bp' \<Longrightarrow> bp_inv s bp \<Longrightarrow> heap_faithful s bp \<Longrightarrow> heap_faithful s bp'"
proof (induction rule: bp_step.induct)
  case (add bp e)
  then show ?case by (rule add_heap_faithful)
next
  case (process env bp rs bp')
  then show ?case using process_frame [OF process(4,1,2,3)] by (blast intro: heap_faithful_frame)
qed (auto elim!: heap_faithful_frame simp: BatchProcessor_Start_def BatchProcessor_Stop_def BatchProcessor_processingLoop_def
    BatchProcessor_adaptBatchSize_def Let_def)

lemma bp_reachable_heap: "(bp_step s)\<^sup>*\<^sup>* (NewBatchProcessor config) bp \<Longrightarrow> heap_faithful s bp"
proof (induction rule: rtranclp_induct)
  case base
  show ?case by (cases config) (simp_all add: heap_faithful_def NewBatchProcessor_def Let_def epq_contents_def)
next
  case (step bp bp')
  then show ?case using bp_steps_inv [OF step(1) new_bp_inv] by (blast intro: bp_step_heap)
qed

section \<open>Properties\<close>

text \<open>C20: Whatever configuration the processor is created with and whatever happens to it, its batch size stays between 10 and 1000; the heap has an event on top whose height
  is least among the events in the heap, and every entry carries the height of its event; every event of the index has an entry in the heap and is in the list of pending events,
  under its own ID; and a creator's queue holds only events of that creator.\<close>

theorem batch_processor_consistent:
  assumes "(bp_step s)\<^sup>*\<^sup>* (NewBatchProcessor config) bp"
  shows "10 \<le> bc_BatchSize (bp_config bp) \<and> bc_BatchSize (bp_config bp) \<le> 1000 \<and>
    (\<forall>x\<in>set (bp_priorityQueue bp). ep_Priority x = ev_Height (s (ep_Event x)) \<and>
       ev_Height (s (ep_Event (bp_priorityQueue bp ! 0))) \<le> ev_Height (s (ep_Event x))) \<and>
    (\<forall>i r. bp_pendingEventsByID bp i = Some r \<longrightarrow> ev_ID (s r) = i \<and> r \<in> set (bp_pendingEvents bp) \<and> r \<in> ep_Event ` set (bp_priorityQueue bp)) \<and>
    (\<forall>c q r. bp_creatorQueues bp c = Some q \<and> r \<in> set q \<longrightarrow> ev_Creator (s r) = c)"
proof -
  have inv: "bp_inv s bp" using bp_steps_inv [OF assms new_bp_inv] .
  let ?q = "bp_priorityQueue bp"
  have "heap_order (epq.keys ?q) (length ?q)" using inv by (simp add: bp_inv_def epq.ok_def EventPriorityQueue_Len_def)
  then have "ep_Priority (?q ! 0) \<le> ep_Priority (?q ! k)" if "k < length ?q" for k
    using heap_order_root [of "epq.keys ?q" "length ?q" k] that
    by (cases k; cases ?q) (auto simp: epq.keys_def epq_contents_def)
  then have top: "\<forall>x\<in>set ?q. ep_Priority (?q ! 0) \<le> ep_Priority x" by (metis in_set_conv_nth)
  have h: "heap_faithful s bp" by (rule bp_reachable_heap [OF assms])
  then have height: "\<forall>x\<in>set ?q. ep_Priority x = ev_Height (s (ep_Event x))" by (auto simp: heap_faithful_def epq_contents_def)
  then have least: "\<forall>x\<in>set ?q. ev_Height (s (ep_Event (?q ! 0))) \<le> ev_Height (s (ep_Event x))"
    using top by (metis nth_mem length_pos_if_in_set)
  have "\<forall>i r. bp_pendingEventsByID bp i = Some r \<longrightarrow> r \<in> ep_Event ` set ?q"
    using h by (force simp: heap_faithful_def epq_contents_def ran_def image_iff)
  then show ?thesis using inv height least unfolding bp_inv_def batch_size_defs by blast
qed

definition two_events :: event_store where
  "two_events r = zero_Event\<lparr>ev_ID := word_of_nat r, ev_Creator := 3, ev_Height := (if r = 1 then 7 else 5)\<rparr>"

definition bp_two :: BatchProcessor where
  "bp_two = snd (BatchProcessor_Start (snd (BatchProcessor_AddEvent two_events (Some 2)
     (snd (BatchProcessor_AddEvent two_events (Some 1) (NewBatchProcessor None))))))"

lemma bp_two_reachable: "(bp_step two_events)\<^sup>*\<^sup>* (NewBatchProcessor None) bp_two"
  unfolding bp_two_def by (meson bp_step.intros rtranclp.rtrancl_into_rtrancl rtranclp.rtrancl_refl)

lemma bp_two_simps:
  "bp_pendingEvents bp_two = [1, 2]" "bp_pendingEventsByID bp_two = [1 \<mapsto> 1, 2 \<mapsto> 2]" "bp_creatorQueues bp_two = [3 \<mapsto> [1, 2]]"
  "bp_isProcessing bp_two" "bc_GroupByCreator (bp_config bp_two)" "bc_BatchSize (bp_config bp_two) = 100"
  by (simp_all add: bp_two_def BatchProcessor_Start_def BatchProcessor_AddEvent_def NewBatchProcessor_def DefaultBatchProcessorConfig_def
      BatchProcessor_addToCreatorQueue_def BatchProcessor_addToPriorityQueue_def two_events_def Let_def zero_Event_def batch_size_defs)

lemma bp_two_queue: "map ep_Event (bp_priorityQueue bp_two) = [2, 1]" "map ep_Priority (bp_priorityQueue bp_two) = [5, 7]"
  by (simp_all add: bp_two_def BatchProcessor_Start_def BatchProcessor_AddEvent_def NewBatchProcessor_def DefaultBatchProcessorConfig_def
      BatchProcessor_addToCreatorQueue_def BatchProcessor_addToPriorityQueue_def two_events_def Let_def zero_Event_def batch_size_defs
      heap_Push_def EventPriorityQueue_Len_def EventPriorityQueue_Push_def heap_up.simps EventPriorityQueue_Less_def EventPriorityQueue_Swap_def)

theorem batch_processor_consistent_witness:
  "10 \<le> bc_BatchSize (bp_config bp_two) \<and> 1 \<in> set (bp_pendingEvents bp_two) \<and>
   ev_Height (two_events (ep_Event (bp_priorityQueue bp_two ! 0))) \<le> 7 \<and> 1 \<in> ep_Event ` set (bp_priorityQueue bp_two)"
proof -
  have "1 \<in> set (map ep_Event (bp_priorityQueue bp_two))" unfolding bp_two_queue by simp
  then obtain x where x: "x \<in> set (bp_priorityQueue bp_two)" "ep_Event x = 1" by auto
  have "ev_Height (two_events 1) = 7" by (simp add: two_events_def)
  moreover have "bp_pendingEventsByID bp_two 1 = Some 1" by (simp add: bp_two_simps)
  ultimately show ?thesis using batch_processor_consistent [OF bp_two_reachable] x by metis
qed

text \<open>A run of a started processor ends, and no event that waits is left out: every event of the index is in one of
  the batches, batches respect the batch size and are sorted by height, every event of a batch is counted as a success,
  and the index is empty afterwards.\<close>

theorem waiting_events_batched:
  assumes "(bp_step s)\<^sup>*\<^sup>* (NewBatchProcessor config) bp" and run: "bp_isProcessing bp"
    and srt: "slice_sorted (\<lambda>r. ev_Height (s r)) (be_sort env)" and ord: "range_order (bp_creatorQueues bp) (be_creators env)"
  shows "\<exists>rs bp'. BatchProcessor_processBatch s env bp = Some (rs, bp') \<and> bp_pendingEventsByID bp' = Map.empty \<and>
    ran (bp_pendingEventsByID bp) \<subseteq> set (concat (map br_Events rs)) \<and>
    (\<forall>x\<in>set rs. 0 < length (br_Events x) \<and> int (length (br_Events x)) \<le> bc_BatchSize (bp_config bp) \<and>
       sorted (map (\<lambda>r. ev_Height (s r)) (br_Events x)) \<and> br_SuccessCount x = int (length (br_Events x)))"
proof -
  have inv: "bp_inv s bp" using bp_steps_inv [OF assms(1) new_bp_inv] .
  have succ: "\<forall>x\<in>set rs. br_SuccessCount x = int (length (br_Events x))"
    if "BatchProcessor_processBatch s env bp = Some (rs, bp')" for rs bp'
    using that run by (auto simp: BatchProcessor_processBatch_def BatchProcessor_processSequentially_def
        BatchProcessor_processSingleBatch_def split: option.splits)
  show ?thesis
  proof (cases "bc_GroupByCreator (bp_config bp)")
    case True
    obtain rs bp' where r: "BatchProcessor_processBatch s env bp = Some (rs, bp')" "bp_pendingEventsByID bp' = Map.empty"
      "set (concat (map br_Events rs)) = (\<Union>q\<in>ran (bp_creatorQueues bp). set q)"
      "\<forall>b\<in>set (map br_Events rs). b \<noteq> [] \<and> int (length b) \<le> bc_BatchSize (bp_config bp) \<and>
       sorted (map (\<lambda>r. ev_Height (s r)) b) \<and> (\<exists>c. set b \<subseteq> set (the (bp_creatorQueues bp c)) \<and> c \<in> dom (bp_creatorQueues bp))"
      by (rule process_creator [OF inv run True srt ord], rule that)
    have "ran (bp_pendingEventsByID bp) \<subseteq> (\<Union>q\<in>ran (bp_creatorQueues bp). set q)"
    proof
      fix r assume "r \<in> ran (bp_pendingEventsByID bp)"
      then have "\<exists>q. bp_creatorQueues bp (ev_Creator (s r)) = Some q \<and> r \<in> set q" using inv True unfolding bp_inv_def ran_def by blast
      then show "r \<in> (\<Union>q\<in>ran (bp_creatorQueues bp). set q)" by (auto intro: ranI)
    qed
    then show ?thesis using r succ [OF r(1)] by auto
  next
    case False
    obtain rs bp' where r: "BatchProcessor_processBatch s env bp = Some (rs, bp')" "bp_pendingEventsByID bp' = Map.empty"
      "mset (concat (map br_Events rs)) = mset (bp_pendingEvents bp)"
      "\<forall>b\<in>set (map br_Events rs). b \<noteq> [] \<and> int (length b) \<le> bc_BatchSize (bp_config bp) \<and> sorted (map (\<lambda>r. ev_Height (s r)) b)"
      by (rule process_height [OF inv run False srt], rule that)
    have "ran (bp_pendingEventsByID bp) \<subseteq> set (bp_pendingEvents bp)" using inv unfolding bp_inv_def ran_def by blast
    then have "ran (bp_pendingEventsByID bp) \<subseteq> set (concat (map br_Events rs))" using mset_eq_setD [OF r(3)] by simp
    then show ?thesis using r(1,2,4) succ [OF r(1)] by auto
  qed
qed

definition batch_env_two :: BatchEnv where
  "batch_env_two = \<lparr>be_sort = sort_key (\<lambda>r. ev_Height (two_events r)), be_creators = [3], be_elapsed = (\<lambda>_. 1), be_now = 9, be_duration = 2\<rparr>"

theorem waiting_events_batched_witness:
  "\<exists>rs bp'. BatchProcessor_processBatch two_events batch_env_two bp_two = Some (rs, bp') \<and> {1, 2} \<subseteq> set (concat (map br_Events rs))"
proof -
  have "slice_sorted (\<lambda>r. ev_Height (two_events r)) (be_sort batch_env_two)" "range_order (bp_creatorQueues bp_two) (be_creators batch_env_two)"
    by (simp_all add: slice_sorted_def batch_env_two_def range_order_def bp_two_simps)
  from waiting_events_batched [OF bp_two_reachable bp_two_simps(4) this]
  have "\<exists>rs bp'. BatchProcessor_processBatch two_events batch_env_two bp_two = Some (rs, bp') \<and>
      ran (bp_pendingEventsByID bp_two) \<subseteq> set (concat (map br_Events rs))" by blast
  moreover have "ran (bp_pendingEventsByID bp_two) = {1, 2}" by (auto simp: bp_two_simps ran_def intro: exI [of _ 2])
  ultimately show ?thesis by simp
qed

text \<open>All events of a queue are put into batches, but only the first batch is taken off the queue: what lies beyond the
  batch size stays queued and is processed again.\<close>

theorem long_queue_processed_again:
  assumes "bp_inv s bp" and "bp_isProcessing bp" and "bc_GroupByCreator (bp_config bp)"
    and "slice_sorted (\<lambda>r. ev_Height (s r)) (be_sort env)" and "range_order (bp_creatorQueues bp) (be_creators env)"
    and q: "bp_creatorQueues bp c = Some q" "int (length q) > bc_BatchSize (bp_config bp)"
  shows "\<exists>rs bp' q'. BatchProcessor_processBatch s env bp = Some (rs, bp') \<and> bp_creatorQueues bp' c = Some q' \<and>
    int (length q') = int (length q) - bc_BatchSize (bp_config bp) \<and> set q' \<subseteq> set (concat (map br_Events rs))"
proof -
  obtain rs bp' where r: "BatchProcessor_processBatch s env bp = Some (rs, bp')"
      "bp_creatorQueues bp' = (\<lambda>c. case bp_creatorQueues bp c of None \<Rightarrow> None
           | Some q \<Rightarrow> left (be_sort env) (bc_BatchSize (bp_config bp)) q)"
      "set (concat (map br_Events rs)) = (\<Union>q\<in>ran (bp_creatorQueues bp). set q)"
    by (rule process_creator [OF assms(1-5)], rule that)
  let ?q = "drop (nat (bc_BatchSize (bp_config bp))) (be_sort env q)"
  have n: "0 < bc_BatchSize (bp_config bp)" by (rule bp_inv_size [OF assms(1)])
  have len: "length (be_sort env q) = length q" and set: "set (be_sort env q) = set q" using assms(4) by simp_all
  have "bp_creatorQueues bp' c = Some ?q" using q n len by (auto simp: r(2) left_def)
  moreover have "set ?q \<subseteq> set (concat (map br_Events rs))"
    unfolding r(3) using set_drop_subset [of "nat (bc_BatchSize (bp_config bp))" "be_sort env q"] q(1) set by (auto intro: ranI)
  ultimately show ?thesis using r(1) q n len by auto
qed

text \<open>While events are grouped by creator, which is the default, nothing ever leaves the list of pending events; and in
  both modes nothing ever leaves the heap.\<close>

theorem pending_never_shrinks:
  assumes "bp_step s bp bp'" and "bp_inv s bp"
  shows "(bc_GroupByCreator (bp_config bp) \<longrightarrow> set (bp_pendingEvents bp) \<subseteq> set (bp_pendingEvents bp')) \<and>
    length (bp_priorityQueue bp) \<le> length (bp_priorityQueue bp')"
  using assms
proof (induction rule: bp_step.induct)
  case (add bp e)
  have ok: "epq.ok (bp_priorityQueue bp)" using add by (simp add: bp_inv_def)
  have len: "length (heap_Push EventPriorityQueue_Len EventPriorityQueue_Less EventPriorityQueue_Swap EventPriorityQueue_Push x (bp_priorityQueue bp)) =
      Suc (length (bp_priorityQueue bp))" for x
    using arg_cong [OF conjunct2 [OF epq.Push_correct [OF ok, of x]], of size] by (simp add: epq_contents_def)
  show ?case
    by (auto simp: BatchProcessor_AddEvent_def BatchProcessor_addToPriorityQueue_def BatchProcessor_addToCreatorQueue_def Let_def len split: option.splits)
next
  case (process env bp rs bp')
  show ?case
  proof (cases "bp_isProcessing bp")
    case False
    then show ?thesis using process by (simp add: BatchProcessor_processBatch_def)
  next
    case run: True
    show ?thesis
    proof (cases "bc_GroupByCreator (bp_config bp)")
      case True
      obtain rs1 bp1 where "BatchProcessor_processBatch s env bp = Some (rs1, bp1)" "bp_pendingEvents bp1 = bp_pendingEvents bp"
        "bp_priorityQueue bp1 = bp_priorityQueue bp"
        by (rule process_creator [OF process(4) run True process(2,3)], rule that)
      then show ?thesis using process(1) by simp
    next
      case False
      obtain rs1 bp1 where "BatchProcessor_processBatch s env bp = Some (rs1, bp1)" "bp_priorityQueue bp1 = bp_priorityQueue bp"
        by (rule process_height [OF process(4) run False process(2)], rule that)
      then show ?thesis using process(1) False by simp
    qed
  qed
qed (auto simp: BatchProcessor_Start_def BatchProcessor_Stop_def BatchProcessor_processingLoop_def BatchProcessor_adaptBatchSize_def Let_def)

section \<open>The order of locks\<close>

text \<open>The lock operations of \<open>AddEvent\<close> for a new event and of \<open>createCreatorBasedBatches\<close> for one event, when events
  are grouped by creator.\<close>

datatype bp_lock = pendingEventsMu | creatorQueuesMu | priorityQueueMu

definition AddEvent_locks :: "bp_lock lock_op list" where
  "AddEvent_locks = [Acq pendingEventsMu, Acq creatorQueuesMu, Rel creatorQueuesMu, Acq priorityQueueMu, Rel priorityQueueMu, Rel pendingEventsMu]"

definition createCreatorBasedBatches_locks :: "bp_lock lock_op list" where
  "createCreatorBasedBatches_locks = [Acq creatorQueuesMu, Acq pendingEventsMu, Rel pendingEventsMu, Rel creatorQueuesMu]"

text \<open>Adding an event locks the pending events and then the queues, building batches locks them the other way round;
  a goroutine that adds an event and one that builds batches can block each other for ever.\<close>

theorem batch_locks_deadlock:
  "\<exists>st. lock_step\<^sup>*\<^sup>* (lock_start (\<lambda>adder. if adder then AddEvent_locks else createCreatorBasedBatches_locks)) st \<and> deadlock st"
  by (rule opposite_orders_deadlock [of _ True pendingEventsMu creatorQueuesMu _ False])
    (simp_all add: AddEvent_locks_def createCreatorBasedBatches_locks_def)

end
