(* ===== verification/HybridState.thy ===== *)
theory HybridState
  imports ValidatorManagerTheory PoHTheory GovernanceTheory BatchTheory
begin

text \<open>
  The state of the hybrid consensus and the finalization of one event: \<open>consensus/diamantehybrid.go\<close>.

  \<open>HybridConsensus\<close> owns every module: \<open>hc_vm\<close> holds the validator manager with the stake and the event modules it
  writes to, and the events themselves live in the store of the event graph. The records of the event flow manager and
  of the recovery manager, whose operations call back into the consensus, are declared here; their operations are in
  \<open>EventFlowTheory\<close> and \<open>RecoveryTheory\<close>. What the optimizer does to this state is in \<open>OptimizerTheory\<close>; the profiler and the deadlock detector do not change it.

  \<open>sync.Once\<close> is a flag that says whether it has run. Every other mutex of the consensus is released before the operation that
  locked it calls anything else, so only \<open>checkpointsMu\<close> is part of the state: \<open>hc_checkpointsLocked\<close> says that a goroutine holds it for
  writing. Between operations it is free, unless a goroutine that holds it waits for that mutex itself (\<open>HybridTheory\<close>).
\<close>

section \<open>Configuration\<close>

datatype HybridMode = ProductionMode | TestMode

record HybridConsensusConfig =
  cfg_Mode :: HybridMode
  cfg_GossipDelay :: duration
  cfg_PoHTickDelay :: duration
  cfg_DPoSSetSize :: int
  cfg_DPoSEpoch :: uint64
  cfg_VotingDuration :: duration
  cfg_PoHDriftTolerance :: uint64
  cfg_CheckpointInterval :: uint64
  cfg_VotingThreshold :: float64

definition DefaultHybridConfig :: HybridConsensusConfig where
  "DefaultHybridConfig =
     \<lparr>cfg_Mode = ProductionMode, cfg_GossipDelay = 1 * second, cfg_PoHTickDelay = 1 * second, cfg_DPoSSetSize = 21,
      cfg_DPoSEpoch = 1000, cfg_VotingDuration = 2 * minute, cfg_PoHDriftTolerance = 0, cfg_CheckpointInterval = 1000,
      cfg_VotingThreshold = rnd (66 / 100)\<rparr>"

definition TestHybridConfig :: HybridConsensusConfig where
  "TestHybridConfig =
     \<lparr>cfg_Mode = TestMode, cfg_GossipDelay = 50 * millisecond, cfg_PoHTickDelay = 200 * millisecond, cfg_DPoSSetSize = 21,
      cfg_DPoSEpoch = 100, cfg_VotingDuration = 5 * second, cfg_PoHDriftTolerance = 15, cfg_CheckpointInterval = 5,
      cfg_VotingThreshold = rnd (5 / 100)\<rparr>"

definition CheckpointInterval :: uint64 where "CheckpointInterval = 1000"
definition MaxPendingEvents :: int where "MaxPendingEvents = 10000"
definition minPoHDelay :: duration where "minPoHDelay = 1 * millisecond"
definition maxPoHDelay :: duration where "maxPoHDelay = 5 * second"
definition testMaxBlocks :: uint64 where "testMaxBlocks = 200"

definition clampDuration :: "duration \<Rightarrow> duration \<Rightarrow> duration \<Rightarrow> duration" where
  "clampDuration d lower upper = (if d < lower then lower else if d > upper then upper else d)"

section \<open>Managers\<close>

record EventFlowManager =
  ef_pendingEvents :: "hash32 \<rightharpoonup> nat"
  ef_finalizedEvents :: "hash32 \<rightharpoonup> nat"
  ef_eventsByHeight :: "uint64 \<rightharpoonup> nat list"
  ef_eventCreationTime :: "hash32 \<rightharpoonup> int"
  ef_eventRetryCount :: "hash32 \<rightharpoonup> int"
  ef_totalEventsCreated :: uint64
  ef_totalEventsFinalized :: uint64
  ef_avgFinalizationTime :: duration
  ef_maxFinalizationTime :: duration
  ef_finalizationTimeouts :: uint64
  ef_eventDuplicateCount :: uint64
  ef_eventValidationErrors :: uint64
  ef_eventPropagationErrors :: uint64
  ef_eventRetries :: uint64
  ef_batchProcessingTime :: duration
  ef_lastBatchSize :: int
  ef_successRate :: float64
  ef_finalizationTimeout :: duration
  ef_maxPendingEvents :: int
  ef_batchSize :: int
  ef_enableDeduplication :: bool
  ef_enableValidation :: bool
  ef_maxRetries :: int
  ef_adaptiveBatching :: bool
  ef_finalizationWg :: "nat list"
  ef_cancelled :: bool

text \<open>\<open>ef_finalizationWg\<close> lists the events whose goroutine \<open>finalizeEvent\<close> has been started and has not finished; the wait
  group of the source counts them. \<open>ef_cancelled\<close> says that the context has been cancelled.\<close>

definition NewEventFlowManager :: EventFlowManager where
  "NewEventFlowManager =
     \<lparr>ef_pendingEvents = Map.empty, ef_finalizedEvents = Map.empty, ef_eventsByHeight = Map.empty,
      ef_eventCreationTime = Map.empty, ef_eventRetryCount = Map.empty, ef_totalEventsCreated = 0, ef_totalEventsFinalized = 0,
      ef_avgFinalizationTime = 0, ef_maxFinalizationTime = 0, ef_finalizationTimeouts = 0, ef_eventDuplicateCount = 0,
      ef_eventValidationErrors = 0, ef_eventPropagationErrors = 0, ef_eventRetries = 0, ef_batchProcessingTime = 0,
      ef_lastBatchSize = 0, ef_successRate = f64_1, ef_finalizationTimeout = 5 * second, ef_maxPendingEvents = 10000,
      ef_batchSize = 100, ef_enableDeduplication = True, ef_enableValidation = True, ef_maxRetries = 3,
      ef_adaptiveBatching = True, ef_finalizationWg = [], ef_cancelled = False\<rparr>"

type_synonym RecoveryStrategy = int

record RecoveryManager =
  rm_recoveryAttempts :: "ConsensusErrorCode \<rightharpoonup> int"
  rm_circuitBreakers :: "ConsensusErrorCode \<rightharpoonup> int"
  rm_maxRecoveryAttempts :: int
  rm_recoveryBackoff :: duration
  rm_circuitBreakerDuration :: duration
  rm_enableAutomaticRecovery :: bool
  rm_recoveryStrategies :: "ConsensusErrorCode \<rightharpoonup> RecoveryStrategy"

definition RecoveryStrategyNone :: RecoveryStrategy where "RecoveryStrategyNone = 0"
definition RecoveryStrategyRetry :: RecoveryStrategy where "RecoveryStrategyRetry = 1"
definition RecoveryStrategyCheckpoint :: RecoveryStrategy where "RecoveryStrategyCheckpoint = 2"
definition RecoveryStrategyReset :: RecoveryStrategy where "RecoveryStrategyReset = 3"
definition RecoveryStrategyRestart :: RecoveryStrategy where "RecoveryStrategyRestart = 4"
definition RecoveryStrategyManual :: RecoveryStrategy where "RecoveryStrategyManual = 5"

lemmas strategy_defs = RecoveryStrategyNone_def RecoveryStrategyRetry_def RecoveryStrategyCheckpoint_def RecoveryStrategyReset_def
  RecoveryStrategyRestart_def RecoveryStrategyManual_def

definition RecoveryStrategy_String :: "RecoveryStrategy \<Rightarrow> string" where
  "RecoveryStrategy_String s =
     (if s = RecoveryStrategyNone then ''None'' else if s = RecoveryStrategyRetry then ''Retry''
      else if s = RecoveryStrategyCheckpoint then ''Checkpoint'' else if s = RecoveryStrategyReset then ''Reset''
      else if s = RecoveryStrategyRestart then ''Restart'' else if s = RecoveryStrategyManual then ''Manual''
      else ''Unknown('' @ fmt_d s @ '')'')"

definition initDefaultRecoveryStrategies :: "ConsensusErrorCode \<rightharpoonup> RecoveryStrategy" where
  "initDefaultRecoveryStrategies = map_of
     [(ErrTimeout, RecoveryStrategyRetry), (ErrCanceled, RecoveryStrategyNone),
      (ErrInvalidValidator, RecoveryStrategyNone), (ErrValidatorNotFound, RecoveryStrategyNone),
      (ErrInsufficientStake, RecoveryStrategyNone), (ErrValidatorSetInconsistency, RecoveryStrategyCheckpoint),
      (ErrEventCreationFailed, RecoveryStrategyRetry), (ErrEventValidationFailed, RecoveryStrategyNone),
      (ErrEventFinalizationFailed, RecoveryStrategyRetry), (ErrEventDuplicate, RecoveryStrategyNone),
      (ErrEventTimeout, RecoveryStrategyRetry), (ErrEventRejected, RecoveryStrategyNone),
      (ErrBlockCreationFailed, RecoveryStrategyRetry), (ErrBlockValidationFailed, RecoveryStrategyNone),
      (ErrBlockFinalizationFailed, RecoveryStrategyRetry), (ErrInvalidBlockNumber, RecoveryStrategyCheckpoint),
      (ErrInvalidBlockProducer, RecoveryStrategyNone),
      (ErrPoHVerificationFailed, RecoveryStrategyNone), (ErrPoHDriftExceeded, RecoveryStrategyCheckpoint),
      (ErrPoHSynchronizationFailed, RecoveryStrategyCheckpoint),
      (ErrStateCorruption, RecoveryStrategyCheckpoint), (ErrStateInconsistency, RecoveryStrategyCheckpoint),
      (ErrStateSynchronizationFailed, RecoveryStrategyCheckpoint),
      (ErrCheckpointCreationFailed, RecoveryStrategyRetry), (ErrCheckpointRestorationFailed, RecoveryStrategyManual),
      (ErrCheckpointNotFound, RecoveryStrategyManual), (ErrInvalidCheckpoint, RecoveryStrategyManual),
      (ErrNetworkPartition, RecoveryStrategyRetry), (ErrNetworkOverload, RecoveryStrategyRetry),
      (ErrMessagePropagationFailed, RecoveryStrategyRetry),
      (ErrInvalidConfiguration, RecoveryStrategyManual), (ErrIncompatibleConfiguration, RecoveryStrategyManual)]"

definition NewRecoveryManager :: RecoveryManager where
  "NewRecoveryManager =
     \<lparr>rm_recoveryAttempts = Map.empty, rm_circuitBreakers = Map.empty, rm_maxRecoveryAttempts = 3,
      rm_recoveryBackoff = 5 * second, rm_circuitBreakerDuration = 5 * minute, rm_enableAutomaticRecovery = True,
      rm_recoveryStrategies = initDefaultRecoveryStrategies\<rparr>"

section \<open>The consensus\<close>

record HybridBlock =
  blk_Number :: uint64
  blk_Timestamp :: int
  blk_Producer :: string
  blk_Events :: "nat list"
  blk_PoHHash :: string
  blk_CreatedAt :: int

text \<open>The states a checkpoint stores are kept as what \<open>json.Unmarshal\<close> reads back from them.\<close>

record Checkpoint =
  ck_BlockNumber :: uint64
  ck_LachesisState :: LachesisJSON
  ck_DPoSState :: DPoS_state
  ck_PoHState :: hash32
  ck_PoHCount :: uint64
  ck_CreatedAt :: int
  ck_StateHashes :: "string \<rightharpoonup> string"

record HybridConsensus =
  hc_vm :: vm_state
  hc_poh :: PoH
  hc_governance :: Governance
  hc_eventFlow :: EventFlowManager
  hc_recoveryManager :: RecoveryManager
  hc_batchProcessor :: BatchProcessor
  hc_cfg :: HybridConsensusConfig
  hc_driftTolerance :: uint64
  hc_lastBlockHeight :: uint64
  hc_lastBlockHash :: hash32
  hc_pendingEvents :: "nat list"
  hc_finalizedEvents :: "uint64 \<rightharpoonup> nat list"
  hc_lastFinalizedHeight :: uint64
  hc_checkpoints :: "uint64 \<rightharpoonup> Checkpoint"
  hc_lastCheckpoint :: uint64
  hc_checkpointInterval :: uint64
  hc_checkpointsLocked :: bool
  hc_running :: bool
  hc_startOnce :: bool
  hc_stopOnce :: bool
  hc_lastError :: "ConsensusError option"
  hc_errorCount :: "ConsensusErrorCode \<rightharpoonup> int"

abbreviation hc_lachesis :: "HybridConsensus \<Rightarrow> Lachesis" where
  "hc_lachesis hc \<equiv> st_lachesis (hc_vm hc)"

abbreviation hc_dpos :: "HybridConsensus \<Rightarrow> DPoS" where
  "hc_dpos hc \<equiv> st_dpos (hc_vm hc)"

abbreviation hc_validators :: "HybridConsensus \<Rightarrow> ValidatorManager" where
  "hc_validators hc \<equiv> st_vm (hc_vm hc)"

abbreviation hc_store :: "HybridConsensus \<Rightarrow> event_store" where
  "hc_store hc \<equiv> dag_store (l_DAG (hc_lachesis hc))"

definition set_lachesis :: "Lachesis \<Rightarrow> HybridConsensus \<Rightarrow> HybridConsensus" where
  "set_lachesis l hc = hc\<lparr>hc_vm := (hc_vm hc)\<lparr>st_lachesis := l\<rparr>\<rparr>"

text \<open>A write through a pointer to an event.\<close>

definition update_event :: "nat \<Rightarrow> (Event \<Rightarrow> Event) \<Rightarrow> HybridConsensus \<Rightarrow> HybridConsensus" where
  "update_event r f hc =
     (let l = hc_lachesis hc; d = l_DAG l
      in set_lachesis (l\<lparr>l_DAG := d\<lparr>dag_store := (dag_store d)(r := f (dag_store d r))\<rparr>\<rparr>) hc)"

definition update_ef :: "(EventFlowManager \<Rightarrow> EventFlowManager) \<Rightarrow> HybridConsensus \<Rightarrow> HybridConsensus" where
  "update_ef f hc = hc\<lparr>hc_eventFlow := f (hc_eventFlow hc)\<rparr>"

definition update_rm :: "(RecoveryManager \<Rightarrow> RecoveryManager) \<Rightarrow> HybridConsensus \<Rightarrow> HybridConsensus" where
  "update_rm f hc = hc\<lparr>hc_recoveryManager := f (hc_recoveryManager hc)\<rparr>"

definition initial_state :: hash32 where
  "initial_state = sha256 (string_bytes ''Diamante Initial State'')"

definition valid_threshold :: "HybridConsensusConfig \<Rightarrow> HybridConsensusConfig" where
  "valid_threshold cfg =
     (if f64_le (cfg_VotingThreshold cfg) f64_0 \<or> f64_lt f64_1 (cfg_VotingThreshold cfg)
      then cfg\<lparr>cfg_VotingThreshold := (if cfg_Mode cfg = TestMode then rnd (5 / 100) else rnd (66 / 100))\<rparr> else cfg)"

definition NewHybridConsensusWithConfig :: "int \<Rightarrow> HybridConsensusConfig \<Rightarrow> HybridConsensus" where
  "NewHybridConsensusWithConfig now cfg0 =
     (let cfg = valid_threshold cfg0;
          lachesis = Lachesis_SetVotingThreshold (cfg_VotingThreshold cfg) (NewLachesis (cfg_GossipDelay cfg))
      in \<lparr>hc_vm = \<lparr>st_vm = NewValidatorManager, st_dpos = NewDPoS (cfg_DPoSSetSize cfg) (cfg_DPoSEpoch cfg), st_lachesis = lachesis\<rparr>,
          hc_poh = NewPoH now initial_state (cfg_PoHTickDelay cfg), hc_governance = NewGovernance (cfg_VotingDuration cfg),
          hc_eventFlow = NewEventFlowManager, hc_recoveryManager = NewRecoveryManager,
          hc_batchProcessor = NewBatchProcessor (Some (DefaultBatchProcessorConfig
            \<lparr>bc_BatchSize := (if cfg_Mode cfg = TestMode then 20 else 100)\<rparr>)),
          hc_cfg = cfg, hc_driftTolerance = cfg_PoHDriftTolerance cfg, hc_lastBlockHeight = 0, hc_lastBlockHash = initial_state,
          hc_pendingEvents = [], hc_finalizedEvents = Map.empty, hc_lastFinalizedHeight = 0, hc_checkpoints = Map.empty,
          hc_lastCheckpoint = 0, hc_checkpointInterval = cfg_CheckpointInterval cfg, hc_checkpointsLocked = False,
          hc_running = False, hc_startOnce = False, hc_stopOnce = False, hc_lastError = None, hc_errorCount = Map.empty\<rparr>)"

text \<open>The old constructor leaves the interval of checkpoints and the threshold at zero.\<close>

definition NewHybridConsensus :: "int \<Rightarrow> duration \<Rightarrow> duration \<Rightarrow> int \<Rightarrow> uint64 \<Rightarrow> duration \<Rightarrow> HybridConsensus" where
  "NewHybridConsensus now gossipDelay pohTickDelay dposSetSize dposEpochDuration votingDuration =
     NewHybridConsensusWithConfig now
       \<lparr>cfg_Mode = ProductionMode, cfg_GossipDelay = gossipDelay, cfg_PoHTickDelay = pohTickDelay, cfg_DPoSSetSize = dposSetSize,
        cfg_DPoSEpoch = dposEpochDuration, cfg_VotingDuration = votingDuration, cfg_PoHDriftTolerance = 0, cfg_CheckpointInterval = 0,
        cfg_VotingThreshold = f64_0\<rparr>"

section \<open>Errors and simple queries\<close>

definition HybridConsensus_trackError :: "go_error option \<Rightarrow> HybridConsensus \<Rightarrow> HybridConsensus" where
  "HybridConsensus_trackError err hc =
     (case as_consensus err of
        None \<Rightarrow> hc
      | Some e \<Rightarrow> hc\<lparr>hc_lastError := Some e, hc_errorCount := (hc_errorCount hc)(ce_Code e \<mapsto>
          (case hc_errorCount hc (ce_Code e) of None \<Rightarrow> 0 | Some n \<Rightarrow> n) + 1)\<rparr>)"

definition HybridConsensus_IsTestMode :: "HybridConsensus \<Rightarrow> bool" where
  "HybridConsensus_IsTestMode hc = (cfg_Mode (hc_cfg hc) = TestMode)"

definition HybridConsensus_GetLastBlockHeight :: "HybridConsensus \<Rightarrow> uint64" where
  "HybridConsensus_GetLastBlockHeight hc = hc_lastBlockHeight hc"

definition HybridConsensus_SetLastBlockHeight :: "uint64 \<Rightarrow> HybridConsensus \<Rightarrow> HybridConsensus" where
  "HybridConsensus_SetLastBlockHeight h hc = hc\<lparr>hc_lastBlockHeight := h\<rparr>"

definition HybridConsensus_GetLastBlockHash :: "HybridConsensus \<Rightarrow> hash32" where
  "HybridConsensus_GetLastBlockHash hc = hc_lastBlockHash hc"

definition HybridConsensus_SetLastBlockHash :: "hash32 \<Rightarrow> HybridConsensus \<Rightarrow> HybridConsensus" where
  "HybridConsensus_SetLastBlockHash h hc = hc\<lparr>hc_lastBlockHash := h\<rparr>"

definition HybridConsensus_IsRunning :: "HybridConsensus \<Rightarrow> bool" where
  "HybridConsensus_IsRunning hc = hc_running hc"

definition HybridConsensus_SetRunning :: "bool \<Rightarrow> HybridConsensus \<Rightarrow> HybridConsensus" where
  "HybridConsensus_SetRunning r hc = hc\<lparr>hc_running := r\<rparr>"

definition HybridConsensus_GetNetworkLoad :: "HybridConsensus \<Rightarrow> float64" where
  "HybridConsensus_GetNetworkLoad hc = Lachesis_GetNetworkLoad (hc_lachesis hc)"

definition HybridConsensus_GetCurrentHeight :: "HybridConsensus \<Rightarrow> uint64" where
  "HybridConsensus_GetCurrentHeight hc = hc_lastFinalizedHeight hc"

section \<open>Finalization of one event\<close>

text \<open>In test mode the difference of the counts is a signed 64-bit number, in production the sum of the current count and
  the tolerance wraps.\<close>

definition HybridConsensus_verifyPoHWithDrift :: "hash32 \<Rightarrow> bytes \<Rightarrow> hash32 \<Rightarrow> uint64 \<Rightarrow> HybridConsensus \<Rightarrow> bool" where
  "HybridConsensus_verifyPoHWithDrift state data proof cnt hc =
     (let currentCount = PoH_GetCount (hc_poh hc) in
      if cfg_Mode (hc_cfg hc) = TestMode
      then let diff = i64 (sint cnt - sint currentCount); diff1 = (if diff < 0 then i64 (- diff) else diff)
           in if diff1 > sint (hc_driftTolerance hc) then False else PoH_Verify state data proof cnt (hc_poh hc)
      else if cnt > currentCount + hc_driftTolerance hc then False
      else PoH_Verify state data proof cnt (hc_poh hc))"

text \<open>What one finalization reads from outside: the clock, the orders in which the votes range over the nodes, and
  what the validator manager needs.\<close>

record FinEnv =
  fe_now :: int
  fe_order1 :: "hash32 list"
  fe_order2 :: "hash32 list"
  fe_vm :: VMEnv

definition err_nil_event :: "FinEnv \<Rightarrow> ConsensusError" where
  "err_nil_event env = NewConsensusError (fe_now env) ErrEventValidationFailed ErrorCategoryTemporary ''nil event''"

definition err_poh :: "FinEnv \<Rightarrow> Event \<Rightarrow> uint64 \<Rightarrow> ConsensusError" where
  "err_poh env ev current =
     ConsensusError_WithContext ''currentPohCount'' (CtxUint current)
       (ConsensusError_WithContext ''pohCount'' (CtxUint (ev_PoHCount ev))
         (ConsensusError_WithContext ''creator'' (CtxString (byteArrayToString (ev_Creator ev)))
           (ConsensusError_WithEventID (ev_ID ev)
             (NewConsensusError (fe_now env) ErrPoHVerificationFailed ErrorCategoryByzantine ''PoH verification failed (with drift check)''))))"

definition err_reward :: "FinEnv \<Rightarrow> Event \<Rightarrow> ConsensusError \<Rightarrow> ConsensusError" where
  "err_reward env ev e =
     ConsensusError_WithValidatorID (ev_Creator ev)
       (ConsensusError_WithEventID (ev_ID ev)
         (WrapError (fe_now env) (Some (CErr e)) ErrStateInconsistency ErrorCategoryTemporary ''failed to reward validator for event finalization''))"

definition HybridConsensus_FinalizeEvent ::
    "FinEnv \<Rightarrow> nat option \<Rightarrow> HybridConsensus \<Rightarrow> (bool \<times> ConsensusError option) \<times> HybridConsensus" where
  "HybridConsensus_FinalizeEvent env event hc =
     (case event of
        None \<Rightarrow> ((False, Some (err_nil_event env)), HybridConsensus_trackError (Some (CErr (err_nil_event env))) hc)
      | Some r \<Rightarrow>
          let ev = hc_store hc r in
          if ev_Finalized ev then ((True, None), hc)
          else if \<not> HybridConsensus_verifyPoHWithDrift (ev_PoHState ev) (ev_Data ev) (ev_PoHProof ev) (ev_PoHCount ev) hc \<and>
                  cfg_Mode (hc_cfg hc) \<noteq> TestMode
          then let e = err_poh env ev (PoH_GetCount (hc_poh hc))
               in ((False, Some e), HybridConsensus_trackError (Some (CErr e)) hc)
          else
            case Lachesis_ProcessEvent (fe_order1 env) (fe_order2 env) r (hc_lachesis hc) of
              (False, l) \<Rightarrow> ((False, None), set_lachesis l hc)
            | (True, l) \<Rightarrow>
                let hc1 = set_lachesis l hc;
                    h = HybridConsensus_GetLastBlockHeight hc1;
                    hc2 = hc1\<lparr>hc_finalizedEvents := (hc_finalizedEvents hc1)(h \<mapsto>
                                (case hc_finalizedEvents hc1 h of None \<Rightarrow> [] | Some evs \<Rightarrow> evs) @ [r]),
                              hc_lastFinalizedHeight := ev_Height ev\<rparr>;
                    hc3 = update_event r (\<lambda>e. e\<lparr>ev_Finalized := True\<rparr>) hc2
                in (case ValidatorManager_RewardEventFinalization (fe_vm env) (ev_Creator ev) (ev_Height ev) (hc_vm hc3) of
                      (None, st) \<Rightarrow> ((True, None), hc3\<lparr>hc_vm := st\<rparr>)
                    | (Some e, st) \<Rightarrow> ((True, None),
                        HybridConsensus_trackError (Some (CErr (err_reward env ev e))) (hc3\<lparr>hc_vm := st\<rparr>))))"

section \<open>What a finalization does\<close>

definition poh_accepts :: "HybridConsensus \<Rightarrow> Event \<Rightarrow> bool" where
  "poh_accepts hc ev \<longleftrightarrow> cfg_Mode (hc_cfg hc) = TestMode \<or>
     HybridConsensus_verifyPoHWithDrift (ev_PoHState ev) (ev_Data ev) (ev_PoHProof ev) (ev_PoHCount ev) hc"

definition accepted :: "FinEnv \<Rightarrow> nat \<Rightarrow> HybridConsensus \<Rightarrow> bool" where
  "accepted env r hc \<longleftrightarrow>
     poh_accepts hc (hc_store hc r) \<and> DAG_IsActiveValidator (ev_Creator (hc_store hc r)) (l_DAG (hc_lachesis hc)) \<and>
     VirtualVoting_Vote (fe_order1 env) (fe_order2 env) (Some (l_DAG (hc_lachesis hc))) (Some r) (l_VirtualVoting (hc_lachesis hc))"

definition count_finalized :: "VMEnv \<Rightarrow> hash32 \<Rightarrow> ValidatorManager \<Rightarrow> ValidatorManager" where
  "count_finalized env i vm =
     vm_modify i (\<lambda>v. ValidatorManager_updateValidatorPerformance env vm (v\<lparr>vi_EventsFinalized := vi_EventsFinalized v + 1\<rparr>)) vm"

lemma reward_event:
  "snd (ValidatorManager_RewardEventFinalization env i h st) = st\<lparr>st_vm := count_finalized env i (st_vm st)\<rparr>"
  by (auto simp: ValidatorManager_RewardEventFinalization_def count_finalized_def vm_modify_def map_modify_def split: option.splits)

lemma set_finalized_twice: "set_finalized r (set_finalized r d) = set_finalized r d"
  by (simp add: set_finalized_def)

lemma set_finalized_done: "ev_Finalized (dag_store d r) \<Longrightarrow> set_finalized r d = d"
proof -
  assume "ev_Finalized (dag_store d r)"
  then have "(dag_store d r)\<lparr>ev_Finalized := True\<rparr> = dag_store d r" by simp
  then show ?thesis unfolding set_finalized_def by simp
qed

text \<open>Two states that differ at most in the validators, in what is recorded as final and in the errors.\<close>

definition hc_frame :: "HybridConsensus \<Rightarrow> HybridConsensus \<Rightarrow> bool" where
  "hc_frame hc hc' \<longleftrightarrow>
     hc_poh hc' = hc_poh hc \<and> hc_governance hc' = hc_governance hc \<and>
     hc_eventFlow hc' = hc_eventFlow hc \<and> hc_recoveryManager hc' = hc_recoveryManager hc \<and>
     hc_batchProcessor hc' = hc_batchProcessor hc \<and> hc_cfg hc' = hc_cfg hc \<and>
     hc_driftTolerance hc' = hc_driftTolerance hc \<and> hc_lastBlockHeight hc' = hc_lastBlockHeight hc \<and>
     hc_lastBlockHash hc' = hc_lastBlockHash hc \<and> hc_pendingEvents hc' = hc_pendingEvents hc \<and>
     hc_checkpoints hc' = hc_checkpoints hc \<and> hc_lastCheckpoint hc' = hc_lastCheckpoint hc \<and>
     hc_checkpointInterval hc' = hc_checkpointInterval hc \<and>
     hc_checkpointsLocked hc' = hc_checkpointsLocked hc \<and> hc_running hc' = hc_running hc \<and>
     hc_startOnce hc' = hc_startOnce hc \<and> hc_stopOnce hc' = hc_stopOnce hc"

lemma hc_frame_refl [simp]: "hc_frame hc hc"
  by (simp add: hc_frame_def)

lemma hc_frame_trans: "hc_frame hc hc1 \<Longrightarrow> hc_frame hc1 hc2 \<Longrightarrow> hc_frame hc hc2"
  by (simp add: hc_frame_def)

lemma hc_frame_fields:
  assumes "hc_frame hc hc'"
  shows
    "hc_poh hc' = hc_poh hc" "hc_governance hc' = hc_governance hc" "hc_eventFlow hc' = hc_eventFlow hc"
    "hc_recoveryManager hc' = hc_recoveryManager hc" "hc_batchProcessor hc' = hc_batchProcessor hc"
    "hc_cfg hc' = hc_cfg hc" "hc_driftTolerance hc' = hc_driftTolerance hc"
    "hc_lastBlockHeight hc' = hc_lastBlockHeight hc" "hc_lastBlockHash hc' = hc_lastBlockHash hc"
    "hc_pendingEvents hc' = hc_pendingEvents hc" "hc_checkpoints hc' = hc_checkpoints hc"
    "hc_lastCheckpoint hc' = hc_lastCheckpoint hc" "hc_checkpointInterval hc' = hc_checkpointInterval hc"
    "hc_checkpointsLocked hc' = hc_checkpointsLocked hc" "hc_running hc' = hc_running hc"
    "hc_startOnce hc' = hc_startOnce hc" "hc_stopOnce hc' = hc_stopOnce hc"
  using assms by (simp_all add: hc_frame_def)

lemma trackError_frame: "hc_frame hc (HybridConsensus_trackError err hc)"
  by (simp add: HybridConsensus_trackError_def hc_frame_def split: option.splits)

lemma trackError_vm [simp]: "hc_vm (HybridConsensus_trackError err hc) = hc_vm hc"
  "hc_finalizedEvents (HybridConsensus_trackError err hc) = hc_finalizedEvents hc"
  "hc_lastFinalizedHeight (HybridConsensus_trackError err hc) = hc_lastFinalizedHeight hc"
  by (simp_all add: HybridConsensus_trackError_def split: option.splits)

lemma FinalizeEvent_effect:
  fixes hc r env
  defines "d \<equiv> l_DAG (hc_lachesis hc)" and "ev \<equiv> hc_store hc r"
  assumes F: "HybridConsensus_FinalizeEvent env (Some r) hc = ((ok, err), hc')"
  shows "ok \<longleftrightarrow> ev_Finalized ev \<or> accepted env r hc"
    and "err \<noteq> None \<longleftrightarrow> \<not> ev_Finalized ev \<and> \<not> poh_accepts hc ev"
    and "l_DAG (hc_lachesis hc') = (if ok then set_finalized r d else d)"
    and "hc_validators hc' = (if ok \<and> \<not> ev_Finalized ev then count_finalized (fe_vm env) (ev_Creator ev) (hc_validators hc) else hc_validators hc)"
    and "hc_frame hc hc'" and "\<not> ok \<Longrightarrow> hc_vm hc' = hc_vm hc" and "hc_dpos hc' = hc_dpos hc"
    and "l_VirtualVoting (hc_lachesis hc') = l_VirtualVoting (hc_lachesis hc)"
proof -
  obtain b l where P: "Lachesis_ProcessEvent (fe_order1 env) (fe_order2 env) r (hc_lachesis hc) = (b, l)" by (metis surj_pair)
  note E = ProcessEvent_effect [OF P]
  have vv: "l_VirtualVoting l = l_VirtualVoting (hc_lachesis hc)"
    using P by (auto simp: Lachesis_ProcessEvent_def Let_def frame_simps split: if_splits prod.splits)
  define hc3 where "hc3 = update_event r (\<lambda>e. e\<lparr>ev_Finalized := True\<rparr>) ((set_lachesis l hc)\<lparr>hc_finalizedEvents :=
      (hc_finalizedEvents hc)(hc_lastBlockHeight hc \<mapsto> (case hc_finalizedEvents hc (hc_lastBlockHeight hc) of None \<Rightarrow> [] | Some evs \<Rightarrow> evs) @ [r]),
      hc_lastFinalizedHeight := ev_Height ev\<rparr>)"
  define hc4 where "hc4 = hc3\<lparr>hc_vm := (hc_vm hc3)\<lparr>st_vm := count_finalized (fe_vm env) (ev_Creator ev) (hc_validators hc)\<rparr>\<rparr>"
  have vm3: "hc_validators hc3 = hc_validators hc" "hc_dpos hc3 = hc_dpos hc" "l_VirtualVoting (hc_lachesis hc3) = l_VirtualVoting l"
    "l_DAG (hc_lachesis hc3) = set_finalized r (l_DAG l)"
    by (simp_all add: hc3_def update_event_def set_lachesis_def Let_def set_finalized_def)
  have fr3: "hc_frame hc hc3" "hc_frame hc hc4"
    by (simp_all add: hc3_def hc4_def update_event_def set_lachesis_def Let_def hc_frame_def)
  have cases: "ev_Finalized ev \<and> ok \<and> err = None \<and> hc' = hc \<or>
      (\<exists>e. \<not> ev_Finalized ev \<and> \<not> poh_accepts hc ev \<and> \<not> ok \<and> err \<noteq> None \<and> hc' = HybridConsensus_trackError e hc) \<or>
      \<not> ev_Finalized ev \<and> poh_accepts hc ev \<and> \<not> b \<and> \<not> ok \<and> err = None \<and> hc' = set_lachesis l hc \<or>
      \<not> ev_Finalized ev \<and> poh_accepts hc ev \<and> b \<and> ok \<and> err = None \<and> (hc' = hc4 \<or> (\<exists>e. hc' = HybridConsensus_trackError e hc4))"
  proof -
    obtain e st where R: "ValidatorManager_RewardEventFinalization (fe_vm env) (ev_Creator ev) (ev_Height ev) (hc_vm hc3) = (e, st)" by (metis surj_pair)
    then have st: "hc3\<lparr>hc_vm := st\<rparr> = hc4"
      using reward_event [of "fe_vm env" "ev_Creator ev" "ev_Height ev" "hc_vm hc3"] vm3(1) by (simp add: hc4_def)
    show ?thesis
    proof (cases "ev_Finalized ev")
      case True
      then show ?thesis using F by (simp add: HybridConsensus_FinalizeEvent_def ev_def Let_def)
    next
      case nf: False
      show ?thesis
      proof (cases "poh_accepts hc ev")
        case False
        then show ?thesis using F nf by (auto simp: HybridConsensus_FinalizeEvent_def ev_def Let_def poh_accepts_def)
      next
        case True
        then have "HybridConsensus_FinalizeEvent env (Some r) hc = (if \<not> b then ((False, None), set_lachesis l hc)
            else case (e, st) of (None, st) \<Rightarrow> ((True, None), hc3\<lparr>hc_vm := st\<rparr>)
              | (Some e, st) \<Rightarrow> ((True, None), HybridConsensus_trackError (Some (CErr (err_reward env ev e))) (hc3\<lparr>hc_vm := st\<rparr>)))"
          using nf P R unfolding HybridConsensus_FinalizeEvent_def option.case Let_def ev_def [symmetric] P
          by (cases e) (auto simp: poh_accepts_def hc3_def HybridConsensus_GetLastBlockHeight_def set_lachesis_def)
        then show ?thesis using F nf True st by (auto split: if_splits option.splits)
      qed
    qed
  qed
  have acc: "accepted env r hc \<longleftrightarrow> poh_accepts hc ev \<and> b" using E(1) by (auto simp: accepted_def ev_def)
  show "ok \<longleftrightarrow> ev_Finalized ev \<or> accepted env r hc" using cases by (auto simp: acc)
  show "err \<noteq> None \<longleftrightarrow> \<not> ev_Finalized ev \<and> \<not> poh_accepts hc ev" using cases by auto
  have l: "\<not> b \<Longrightarrow> l = hc_lachesis hc" using E(2) by simp
  show "l_DAG (hc_lachesis hc') = (if ok then set_finalized r d else d)"
    using cases by (auto simp: vm3 hc4_def d_def E(5) set_finalized_twice set_finalized_done ev_def set_lachesis_def dest: l)
  show "hc_validators hc' = (if ok \<and> \<not> ev_Finalized ev then count_finalized (fe_vm env) (ev_Creator ev) (hc_validators hc) else hc_validators hc)"
    using cases by (auto simp: hc4_def set_lachesis_def)
  show "hc_frame hc hc'"
    using cases fr3 by (auto intro: trackError_frame hc_frame_trans simp: set_lachesis_def dest: l)
  show "\<not> ok \<Longrightarrow> hc_vm hc' = hc_vm hc" using cases by (auto simp: set_lachesis_def dest: l)
  show "hc_dpos hc' = hc_dpos hc" using cases by (auto simp: hc4_def vm3 set_lachesis_def)
  show "l_VirtualVoting (hc_lachesis hc') = l_VirtualVoting (hc_lachesis hc)"
    using cases by (auto simp: hc4_def vm3 vv set_lachesis_def)
qed

end
