(* ===== verification/EventFlowTheory.thy ===== *)
theory EventFlowTheory
  imports HybridState
begin

text \<open>
  The event flow manager: \<open>consensus/event_flow.go\<close>. It creates events through the event module, stamps them with the
  proof of history, tracks them as pending and final, and tries to finalize them: once in a goroutine of their own and
  then in every round of a worker.

  \<open>CreateEvent\<close> and \<open>HandleNetworkPartition\<close> start a goroutine \<open>finalizeEvent\<close> per event; here they put the event on
  \<open>ef_finalizationWg\<close>, and \<open>EventFlowManager_finalizeEvent\<close> is the goroutine. Its time limit is an argument; the call of
  \<open>FinalizeEvent\<close> that a goroutine has given up waiting for still happens and is a step of its own. The tickers of the
  workers are modelled by one round. \<open>logMetrics\<close> and \<open>GetEventMetrics\<close> only format numbers and are left out, as is the
  warning on unknown parents.
\<close>

section \<open>Metrics\<close>

definition EventFlowManager_incrementMetric :: "string \<Rightarrow> EventFlowManager \<Rightarrow> EventFlowManager" where
  "EventFlowManager_incrementMetric name ef =
     (if name = ''totalEventsCreated'' then ef\<lparr>ef_totalEventsCreated := ef_totalEventsCreated ef + 1\<rparr>
      else if name = ''totalEventsFinalized'' then ef\<lparr>ef_totalEventsFinalized := ef_totalEventsFinalized ef + 1\<rparr>
      else if name = ''finalizationTimeouts'' then ef\<lparr>ef_finalizationTimeouts := ef_finalizationTimeouts ef + 1\<rparr>
      else if name = ''eventDuplicateCount'' then ef\<lparr>ef_eventDuplicateCount := ef_eventDuplicateCount ef + 1\<rparr>
      else if name = ''eventValidationErrors'' then ef\<lparr>ef_eventValidationErrors := ef_eventValidationErrors ef + 1\<rparr>
      else if name = ''eventPropagationErrors'' then ef\<lparr>ef_eventPropagationErrors := ef_eventPropagationErrors ef + 1\<rparr>
      else if name = ''eventRetries'' then ef\<lparr>ef_eventRetries := ef_eventRetries ef + 1\<rparr>
      else ef)"

section \<open>Validation\<close>

definition flow_error :: "int \<Rightarrow> Event \<Rightarrow> ConsensusErrorCode \<Rightarrow> ErrorCategory \<Rightarrow> string \<Rightarrow> ConsensusError" where
  "flow_error now ev code category msg =
     ConsensusError_WithContext ''height'' (CtxUint (ev_Height ev))
       (ConsensusError_WithValidatorID (ev_Creator ev)
         (ConsensusError_WithEventID (ev_ID ev) (NewConsensusError now code category msg)))"

definition err_duplicate :: "int \<Rightarrow> Event \<Rightarrow> string \<Rightarrow> uint64 \<Rightarrow> ConsensusError" where
  "err_duplicate now ev info h =
     ConsensusError_WithContext ''duplicateHeight'' (CtxUint h)
       (ConsensusError_WithContext ''duplicateStatus'' (CtxString info)
         (flow_error now ev ErrEventDuplicate ErrorCategoryTemporary
           (''duplicate event: '' @ info @ '' event at height '' @ fmt_nat (unat h))))"

definition EventFlowManager_ValidateEvent :: "int \<Rightarrow> nat option \<Rightarrow> HybridConsensus \<Rightarrow> ConsensusError option \<times> HybridConsensus" where
  "EventFlowManager_ValidateEvent now event hc =
     (case event of
        None \<Rightarrow> (Some (NewConsensusError now ErrEventValidationFailed ErrorCategoryTemporary ''event is nil''), hc)
      | Some r \<Rightarrow>
          let ev = hc_store hc r; ef = hc_eventFlow hc in
          if \<not> ValidatorManager_IsActiveValidator (ev_Creator ev) (hc_validators hc)
          then (Some (flow_error now ev ErrInvalidValidator ErrorCategoryTemporary ''creator is not an active validator''), hc)
          else if \<not> HybridConsensus_verifyPoHWithDrift (ev_PoHState ev) (ev_Data ev) (ev_PoHProof ev) (ev_PoHCount ev) hc
          then (Some (ConsensusError_WithContext ''currentPohCount'' (CtxUint (PoH_GetCount (hc_poh hc)))
                  (ConsensusError_WithContext ''pohCount'' (CtxUint (ev_PoHCount ev))
                    (flow_error now ev ErrPoHVerificationFailed ErrorCategoryByzantine ''PoH verification failed''))), hc)
          else
            (case (ef_pendingEvents ef (ev_ID ev), ef_finalizedEvents ef (ev_ID ev)) of
               (Some p, _) \<Rightarrow> (Some (err_duplicate now ev ''pending'' (ev_Height (hc_store hc p))),
                               update_ef (EventFlowManager_incrementMetric ''eventDuplicateCount'') hc)
             | (None, Some f) \<Rightarrow> (Some (err_duplicate now ev ''finalized'' (ev_Height (hc_store hc f))),
                               update_ef (EventFlowManager_incrementMetric ''eventDuplicateCount'') hc)
             | (None, None) \<Rightarrow>
                 if ev_Timestamp ev = zero_time
                 then (Some (flow_error now ev ErrEventValidationFailed ErrorCategoryTemporary ''event has zero timestamp''), hc)
                 else if ev_Timestamp ev > now + 5 * second
                 then (Some (ConsensusError_WithContext ''currentTime'' (CtxInt now)
                         (ConsensusError_WithContext ''timestamp'' (CtxInt (ev_Timestamp ev))
                           (flow_error now ev ErrEventValidationFailed ErrorCategoryTemporary ''event timestamp is too far in the future''))), hc)
                 else (None, hc)))"

section \<open>Creation\<close>

definition track_event :: "int \<Rightarrow> nat \<Rightarrow> Event \<Rightarrow> EventFlowManager \<Rightarrow> EventFlowManager" where
  "track_event now r ev ef =
     ef\<lparr>ef_pendingEvents := (ef_pendingEvents ef)(ev_ID ev \<mapsto> r), ef_eventCreationTime := (ef_eventCreationTime ef)(ev_ID ev \<mapsto> now),
        ef_eventsByHeight := (ef_eventsByHeight ef)(ev_Height ev \<mapsto>
          (case ef_eventsByHeight ef (ev_Height ev) of None \<Rightarrow> [] | Some evs \<Rightarrow> evs) @ [r]),
        ef_eventRetryCount := (ef_eventRetryCount ef)(ev_ID ev \<mapsto> 0)\<rparr>"

definition start_finalize :: "nat \<Rightarrow> EventFlowManager \<Rightarrow> EventFlowManager" where
  "start_finalize r ef = ef\<lparr>ef_finalizationWg := ef_finalizationWg ef @ [r]\<rparr>"

text \<open>The readings of the clock: for the new event, for the proof of history, for the validation and for the tracking.\<close>

record CreateEnv =
  cn_event :: int
  cn_poh :: int
  cn_check :: int
  cn_track :: int

definition stamp_event :: "nat \<Rightarrow> bytes \<Rightarrow> int \<Rightarrow> HybridConsensus \<Rightarrow> HybridConsensus" where
  "stamp_event r data now hc =
     (case PoH_Record now data (hc_poh hc) of
        (pohHash, poh) \<Rightarrow>
          update_event r (\<lambda>e. e\<lparr>ev_PoHState := PoH_GetState (hc_poh hc), ev_PoHCount := PoH_GetCount (hc_poh hc), ev_PoHProof := pohHash\<rparr>)
            (hc\<lparr>hc_poh := poh\<rparr>))"

definition EventFlowManager_CreateEvent ::
    "CreateEnv \<Rightarrow> hash32 \<Rightarrow> hash32 list \<Rightarrow> bytes \<Rightarrow> HybridConsensus \<Rightarrow> (go_error + nat) \<times> HybridConsensus" where
  "EventFlowManager_CreateEvent env creator parentIDs data hc =
     (let ef = hc_eventFlow hc in
      if \<not> ValidatorManager_IsActiveValidator creator (hc_validators hc) then (Inl (PlainErr ''creator is not an active validator''), hc)
      else if int (card (dom (ef_pendingEvents ef))) \<ge> ef_maxPendingEvents ef
      then (Inl (PlainErr (''too many pending events ('' @ fmt_nat (card (dom (ef_pendingEvents ef))) @ '' >= '' @
              fmt_d (ef_maxPendingEvents ef) @ '')'')), hc)
      else
        case Lachesis_CreateEvent (cn_event env) creator parentIDs data (hc_lachesis hc) of
          (None, l) \<Rightarrow> (Inl (PlainErr ''failed to create event''),
             update_ef (EventFlowManager_incrementMetric ''eventCreationErrors'') (set_lachesis l hc))
        | (Some r, l) \<Rightarrow>
            let hc1 = stamp_event r data (cn_poh env) (set_lachesis l hc);
                ev = hc_store hc1 r;
                add = (\<lambda>hc2. (Inr r, update_ef (\<lambda>ef. start_finalize r (EventFlowManager_incrementMetric ''totalEventsCreated''
                        (track_event (cn_track env) r ev ef))) hc2)) in
            if ef_enableValidation (hc_eventFlow hc1)
            then (case EventFlowManager_ValidateEvent (cn_check env) (Some r) hc1 of
                    (None, hc2) \<Rightarrow> add hc2
                  | (Some e, hc2) \<Rightarrow>
                      let existing = (case ef_pendingEvents (hc_eventFlow hc2) (ev_ID ev) of
                             Some p \<Rightarrow> Some p | None \<Rightarrow> ef_finalizedEvents (hc_eventFlow hc2) (ev_ID ev)) in
                      if ConsensusError_Error e = ''duplicate event'' \<and> existing \<noteq> None then (Inr (the existing), hc2)
                      else (Inl (PlainErr (''event validation failed: '' @ ConsensusError_Error e)),
                            update_ef (EventFlowManager_incrementMetric ''eventValidationErrors'') hc2))
            else add hc1)"

section \<open>Finalization\<close>

definition retry_count :: "EventFlowManager \<Rightarrow> hash32 \<Rightarrow> int" where
  "retry_count ef i = (case ef_eventRetryCount ef i of None \<Rightarrow> 0 | Some n \<Rightarrow> n)"

text \<open>\<open>now\<close> is the clock when the duration since the creation is taken.\<close>

definition move_finalized :: "int \<Rightarrow> nat \<Rightarrow> hash32 \<Rightarrow> EventFlowManager \<Rightarrow> EventFlowManager" where
  "move_finalized now r i ef =
     (let ef1 = ef\<lparr>ef_pendingEvents := (ef_pendingEvents ef)(i := None), ef_eventCreationTime := (ef_eventCreationTime ef)(i := None),
                   ef_eventRetryCount := (ef_eventRetryCount ef)(i := None), ef_finalizedEvents := (ef_finalizedEvents ef)(i \<mapsto> r)\<rparr>
      in case ef_eventCreationTime ef i of
           None \<Rightarrow> ef1
         | Some t \<Rightarrow>
             let finalizationTime = now - t;
                 ef2 = ef1\<lparr>ef_avgFinalizationTime := (if ef_avgFinalizationTime ef1 = 0 then finalizationTime
                             else go_div (i64 (ef_avgFinalizationTime ef1 * 9 + finalizationTime)) 10)\<rparr>
             in if finalizationTime > ef_maxFinalizationTime ef2 then ef2\<lparr>ef_maxFinalizationTime := finalizationTime\<rparr> else ef2)"

record FlowEnv =
  fl_fin :: FinEnv
  fl_now :: int
  fl_vm :: VMEnv

definition EventFlowManager_handleFinalizedEvent :: "FlowEnv \<Rightarrow> nat \<Rightarrow> HybridConsensus \<Rightarrow> HybridConsensus" where
  "EventFlowManager_handleFinalizedEvent env r hc =
     (let ev = hc_store hc r;
          hc1 = update_ef (\<lambda>ef. EventFlowManager_incrementMetric ''totalEventsFinalized'' (move_finalized (fl_now env) r (ev_ID ev) ef)) hc
      in hc1\<lparr>hc_vm := snd (ValidatorManager_RewardEventFinalization (fl_vm env) (ev_Creator ev) (ev_Height ev) (hc_vm hc1))\<rparr>)"

definition bump_retry :: "hash32 \<Rightarrow> EventFlowManager \<Rightarrow> EventFlowManager" where
  "bump_retry i ef = ef\<lparr>ef_eventRetryCount := (ef_eventRetryCount ef)(i \<mapsto> retry_count ef i + 1)\<rparr>"

definition finish_finalize :: "nat \<Rightarrow> EventFlowManager \<Rightarrow> EventFlowManager" where
  "finish_finalize r ef = ef\<lparr>ef_finalizationWg := remove1 r (ef_finalizationWg ef)\<rparr>"

text \<open>The goroutine of one event. If the time is up first, only the counters change.\<close>

definition EventFlowManager_finalizeEvent :: "bool \<Rightarrow> FlowEnv \<Rightarrow> nat \<Rightarrow> HybridConsensus \<Rightarrow> HybridConsensus" where
  "EventFlowManager_finalizeEvent timedOut env r hc =
     update_ef (finish_finalize r)
       (let i = ev_ID (hc_store hc r) in
        if timedOut
        then update_ef (\<lambda>ef. bump_retry i (EventFlowManager_incrementMetric ''finalizationTimeouts'' ef)) hc
        else case HybridConsensus_FinalizeEvent (fl_fin env) (Some r) hc of
               ((True, _), hc1) \<Rightarrow> EventFlowManager_handleFinalizedEvent env r hc1
             | ((False, _), hc1) \<Rightarrow> update_ef (\<lambda>ef. EventFlowManager_incrementMetric ''eventRetries'' (bump_retry i ef)) hc1)"

fun flow_loop :: "(nat \<Rightarrow> FlowEnv) \<Rightarrow> nat list \<Rightarrow> int \<times> int \<Rightarrow> HybridConsensus \<Rightarrow> (int \<times> int) \<times> HybridConsensus" where
  "flow_loop env [] acc hc = (acc, hc)"
| "flow_loop env (r # rs) (totalProcessed, totalFinalized) hc =
     (let ev = hc_store hc r in
      if ev_Finalized ev then flow_loop env rs (totalProcessed, totalFinalized) hc
      else if retry_count (hc_eventFlow hc) (ev_ID ev) \<ge> ef_maxRetries (hc_eventFlow hc)
      then flow_loop env rs (totalProcessed, totalFinalized) hc
      else case HybridConsensus_FinalizeEvent (fl_fin (env r)) (Some r) hc of
             ((True, _), hc1) \<Rightarrow> flow_loop env rs (totalProcessed + 1, totalFinalized + 1) (EventFlowManager_handleFinalizedEvent (env r) r hc1)
           | ((False, _), hc1) \<Rightarrow> flow_loop env rs (totalProcessed + 1, totalFinalized) hc1)"

text \<open>The worker: the order of the range over the pending events, the outcome of the sort by height, what each
  finalization reads, and the time the round takes.\<close>

record WorkEnv =
  wk_order :: "hash32 list"
  wk_sort :: "nat list \<Rightarrow> nat list"
  wk_event :: "nat \<Rightarrow> FlowEnv"
  wk_elapsed :: duration

definition EventFlowManager_GetPendingEvents :: "hash32 list \<Rightarrow> EventFlowManager \<Rightarrow> nat list" where
  "EventFlowManager_GetPendingEvents order ef = map (\<lambda>i. the (ef_pendingEvents ef i)) order"

definition update_flow_metrics :: "duration \<Rightarrow> int \<Rightarrow> int \<Rightarrow> int \<Rightarrow> EventFlowManager \<Rightarrow> EventFlowManager" where
  "update_flow_metrics processingTime pendingCount totalProcessed totalFinalized ef =
     (let successRate = (if totalProcessed > 0 then f64_div (f64_of_int totalFinalized) (f64_of_int totalProcessed) else f64_0)
      in ef\<lparr>ef_batchProcessingTime := (if ef_batchProcessingTime ef = 0 then processingTime
               else go_div (i64 (ef_batchProcessingTime ef * 9 + processingTime)) 10),
            ef_lastBatchSize := pendingCount,
            ef_successRate := f64_div (f64_add (f64_mul (ef_successRate ef) (Fin 9)) successRate) (Fin 10)\<rparr>)"

text \<open>A batch size that is not positive makes the loop over the batches run for ever or panic.\<close>

definition EventFlowManager_processPendingEvents :: "WorkEnv \<Rightarrow> HybridConsensus \<Rightarrow> HybridConsensus option" where
  "EventFlowManager_processPendingEvents env hc =
     (let pending = wk_sort env (EventFlowManager_GetPendingEvents (wk_order env) (hc_eventFlow hc)) in
      case chunks (ef_batchSize (hc_eventFlow hc)) pending of
        None \<Rightarrow> None
      | Some batches \<Rightarrow>
          (case flow_loop (wk_event env) (concat batches) (0, 0) hc of
             ((processed, finalized), hc1) \<Rightarrow>
               Some (update_ef (update_flow_metrics (wk_elapsed env) (int (length pending)) processed finalized) hc1)))"

definition EventFlowManager_adjustBatchSize :: "(float64 \<Rightarrow> int) \<Rightarrow> EventFlowManager \<Rightarrow> EventFlowManager" where
  "EventFlowManager_adjustBatchSize conv ef =
     (let avgTime = ef_batchProcessingTime ef; successRate = ef_successRate ef; current = f64_of_int (ef_batchSize ef) in
      if avgTime > 500 * millisecond \<or> f64_lt successRate (rnd (7 / 10))
      then let newBatchSize = f64_to_int64 conv (f64_mul current (rnd (8 / 10)))
           in ef\<lparr>ef_batchSize := (if newBatchSize < 10 then 10 else newBatchSize)\<rparr>
      else if avgTime < 100 * millisecond \<and> f64_lt (rnd (9 / 10)) successRate
      then let newBatchSize = f64_to_int64 conv (f64_mul current (rnd (12 / 10)))
           in ef\<lparr>ef_batchSize := (if newBatchSize > 500 then 500 else newBatchSize)\<rparr>
      else ef)"

section \<open>Events from other nodes\<close>

text \<open>\<open>nows\<close> gives the readings of the clock for the validation and for the tracking of an event.\<close>

fun partition_loop :: "(nat \<Rightarrow> int \<times> int) \<Rightarrow> nat list \<Rightarrow> HybridConsensus \<Rightarrow> HybridConsensus" where
  "partition_loop nows [] hc = hc"
| "partition_loop nows (r # rs) hc =
     (let ev = hc_store hc r; add = (\<lambda>hc1. update_ef (\<lambda>ef. start_finalize r (track_event (snd (nows r)) r ev ef)) hc1) in
      if ev_Finalized ev then partition_loop nows rs hc
      else if ef_enableValidation (hc_eventFlow hc)
      then (case EventFlowManager_ValidateEvent (fst (nows r)) (Some r) hc of
              (None, hc1) \<Rightarrow> partition_loop nows rs (add hc1)
            | (Some e, hc1) \<Rightarrow>
                if ConsensusError_Error e = ''duplicate event'' then partition_loop nows rs hc1
                else partition_loop nows rs (update_ef (EventFlowManager_incrementMetric ''eventValidationErrors'') hc1))
      else partition_loop nows rs (add hc))"

definition EventFlowManager_HandleNetworkPartition ::
    "(nat \<Rightarrow> int \<times> int) \<Rightarrow> (nat list \<Rightarrow> nat list) \<Rightarrow> nat list \<Rightarrow> HybridConsensus \<Rightarrow> HybridConsensus" where
  "EventFlowManager_HandleNetworkPartition nows srt events hc =
     (if events = [] then hc else partition_loop nows (srt events) hc)"

section \<open>Queries and housekeeping\<close>

datatype flow_query_error = InvalidHeightRange

text \<open>The loop over the heights is the one of \<open>Lachesis.GetFinalizedEvents\<close>: it does not end if the upper height is the
  greatest one there is.\<close>

definition EventFlowManager_GetFinalizedEvents ::
    "(nat list \<Rightarrow> nat list) \<Rightarrow> uint64 \<Rightarrow> uint64 \<Rightarrow> HybridConsensus \<Rightarrow> (flow_query_error + nat list) option" where
  "EventFlowManager_GetFinalizedEvents srt fromHeight toHeight hc =
     (if fromHeight > toHeight then Some (Inl InvalidHeightRange)
      else map_option (\<lambda>evs. Inr (srt evs))
             (finalized_loop (\<lambda>h. map_option (filter (\<lambda>r. ev_Finalized (hc_store hc r))) (ef_eventsByHeight (hc_eventFlow hc) h))
                toHeight fromHeight []))"

definition EventFlowManager_GetEventByID :: "hash32 \<Rightarrow> EventFlowManager \<Rightarrow> nat option" where
  "EventFlowManager_GetEventByID i ef =
     (case ef_pendingEvents ef i of Some r \<Rightarrow> Some r | None \<Rightarrow> ef_finalizedEvents ef i)"

definition EventFlowManager_GetEventsByHeight :: "uint64 \<Rightarrow> EventFlowManager \<Rightarrow> nat list" where
  "EventFlowManager_GetEventsByHeight h ef = (case ef_eventsByHeight ef h of None \<Rightarrow> [] | Some evs \<Rightarrow> evs)"

definition cleanup_event :: "event_store \<Rightarrow> nat \<Rightarrow> int \<times> EventFlowManager \<Rightarrow> int \<times> EventFlowManager" where
  "cleanup_event s r = (\<lambda>(removed, ef).
     if ev_Finalized (s r)
     then let i = ev_ID (s r)
          in (removed + 1, ef\<lparr>ef_finalizedEvents := (ef_finalizedEvents ef)(i := None), ef_eventCreationTime := (ef_eventCreationTime ef)(i := None),
                              ef_eventRetryCount := (ef_eventRetryCount ef)(i := None)\<rparr>)
     else (removed, ef))"

definition cleanup_height :: "event_store \<Rightarrow> uint64 \<Rightarrow> int \<times> EventFlowManager \<Rightarrow> int \<times> EventFlowManager" where
  "cleanup_height s h st =
     (case ef_eventsByHeight (snd st) h of
        None \<Rightarrow> st
      | Some events \<Rightarrow>
          (case fold (cleanup_event s) events st of
             (removed, ef) \<Rightarrow> (removed, ef\<lparr>ef_eventsByHeight := (ef_eventsByHeight ef)(h := None)\<rparr>)))"

definition EventFlowManager_CleanupOldEvents :: "uint64 \<Rightarrow> HybridConsensus \<Rightarrow> int \<times> HybridConsensus" where
  "EventFlowManager_CleanupOldEvents maxHeight hc =
     (case fold (cleanup_height (hc_store hc)) (map word_of_nat [0..<unat maxHeight]) (0, hc_eventFlow hc) of
        (removed, ef) \<Rightarrow> (removed, hc\<lparr>hc_eventFlow := ef\<rparr>))"

section \<open>Life cycle and settings\<close>

text \<open>\<open>Start\<close> starts the workers and changes no state. \<open>Stop\<close> cancels the context and returns when the goroutines of
  \<open>ef_finalizationWg\<close> are done.\<close>

definition EventFlowManager_Start :: "EventFlowManager \<Rightarrow> string option \<times> EventFlowManager" where
  "EventFlowManager_Start ef = (None, ef)"

definition EventFlowManager_Stop :: "EventFlowManager \<Rightarrow> string option \<times> EventFlowManager" where
  "EventFlowManager_Stop ef = (None, ef\<lparr>ef_cancelled := True\<rparr>)"

definition EventFlowManager_SetFinalizationTimeout :: "duration \<Rightarrow> EventFlowManager \<Rightarrow> EventFlowManager" where
  "EventFlowManager_SetFinalizationTimeout timeout ef = (if timeout > 0 then ef\<lparr>ef_finalizationTimeout := timeout\<rparr> else ef)"

definition EventFlowManager_SetMaxPendingEvents :: "int \<Rightarrow> EventFlowManager \<Rightarrow> EventFlowManager" where
  "EventFlowManager_SetMaxPendingEvents n ef = (if n > 0 then ef\<lparr>ef_maxPendingEvents := n\<rparr> else ef)"

definition EventFlowManager_SetBatchSize :: "int \<Rightarrow> EventFlowManager \<Rightarrow> EventFlowManager" where
  "EventFlowManager_SetBatchSize n ef = (if n > 0 then ef\<lparr>ef_batchSize := n\<rparr> else ef)"

definition EventFlowManager_EnableDeduplication :: "bool \<Rightarrow> EventFlowManager \<Rightarrow> EventFlowManager" where
  "EventFlowManager_EnableDeduplication enable ef = ef\<lparr>ef_enableDeduplication := enable\<rparr>"

definition EventFlowManager_EnableValidation :: "bool \<Rightarrow> EventFlowManager \<Rightarrow> EventFlowManager" where
  "EventFlowManager_EnableValidation enable ef = ef\<lparr>ef_enableValidation := enable\<rparr>"

definition EventFlowManager_SetMaxRetries :: "int \<Rightarrow> EventFlowManager \<Rightarrow> EventFlowManager" where
  "EventFlowManager_SetMaxRetries n ef = (if n > 0 then ef\<lparr>ef_maxRetries := n\<rparr> else ef)"

text \<open>The result says whether the worker that adapts the batch size is started.\<close>

definition EventFlowManager_EnableAdaptiveBatching :: "bool \<Rightarrow> EventFlowManager \<Rightarrow> bool \<times> EventFlowManager" where
  "EventFlowManager_EnableAdaptiveBatching enable ef =
     (let ef1 = ef\<lparr>ef_adaptiveBatching := enable\<rparr> in (enable \<and> \<not> ef_adaptiveBatching ef1, ef1))"

section \<open>Small steps\<close>

lemma increment_frame [simp]:
  "ef_pendingEvents (EventFlowManager_incrementMetric n ef) = ef_pendingEvents ef"
  "ef_finalizedEvents (EventFlowManager_incrementMetric n ef) = ef_finalizedEvents ef"
  "ef_eventsByHeight (EventFlowManager_incrementMetric n ef) = ef_eventsByHeight ef"
  "ef_eventCreationTime (EventFlowManager_incrementMetric n ef) = ef_eventCreationTime ef"
  "ef_eventRetryCount (EventFlowManager_incrementMetric n ef) = ef_eventRetryCount ef"
  "ef_batchSize (EventFlowManager_incrementMetric n ef) = ef_batchSize ef"
  "ef_maxRetries (EventFlowManager_incrementMetric n ef) = ef_maxRetries ef"
  "ef_maxPendingEvents (EventFlowManager_incrementMetric n ef) = ef_maxPendingEvents ef"
  "ef_enableValidation (EventFlowManager_incrementMetric n ef) = ef_enableValidation ef"
  "ef_finalizationWg (EventFlowManager_incrementMetric n ef) = ef_finalizationWg ef"
  by (simp_all add: EventFlowManager_incrementMetric_def)

lemma move_frame [simp]:
  "ef_pendingEvents (move_finalized now r i ef) = (ef_pendingEvents ef)(i := None)"
  "ef_finalizedEvents (move_finalized now r i ef) = (ef_finalizedEvents ef)(i \<mapsto> r)"
  "ef_eventRetryCount (move_finalized now r i ef) = (ef_eventRetryCount ef)(i := None)"
  "ef_eventsByHeight (move_finalized now r i ef) = ef_eventsByHeight ef"
  "ef_batchSize (move_finalized now r i ef) = ef_batchSize ef"
  "ef_maxRetries (move_finalized now r i ef) = ef_maxRetries ef"
  "ef_enableValidation (move_finalized now r i ef) = ef_enableValidation ef"
  "ef_finalizationWg (move_finalized now r i ef) = ef_finalizationWg ef"
  by (simp_all add: move_finalized_def Let_def split: option.splits)

lemma update_ef_fields [simp]:
  "hc_eventFlow (update_ef f hc) = f (hc_eventFlow hc)" "hc_vm (update_ef f hc) = hc_vm hc" "hc_poh (update_ef f hc) = hc_poh hc"
  "hc_cfg (update_ef f hc) = hc_cfg hc" "hc_driftTolerance (update_ef f hc) = hc_driftTolerance hc"
  "hc_pendingEvents (update_ef f hc) = hc_pendingEvents hc"
  by (simp_all add: update_ef_def)

lemma set_lachesis_fields [simp]:
  "hc_eventFlow (set_lachesis l hc) = hc_eventFlow hc" "hc_lachesis (set_lachesis l hc) = l" "hc_poh (set_lachesis l hc) = hc_poh hc"
  "hc_cfg (set_lachesis l hc) = hc_cfg hc" "hc_driftTolerance (set_lachesis l hc) = hc_driftTolerance hc"
  "hc_validators (set_lachesis l hc) = hc_validators hc" "hc_dpos (set_lachesis l hc) = hc_dpos hc"
  "hc_pendingEvents (set_lachesis l hc) = hc_pendingEvents hc"
  by (simp_all add: set_lachesis_def)

lemma update_event_fields [simp]:
  "hc_eventFlow (update_event r f hc) = hc_eventFlow hc" "hc_poh (update_event r f hc) = hc_poh hc"
  "hc_cfg (update_event r f hc) = hc_cfg hc" "hc_driftTolerance (update_event r f hc) = hc_driftTolerance hc"
  "hc_validators (update_event r f hc) = hc_validators hc" "hc_store (update_event r f hc) = (hc_store hc)(r := f (hc_store hc r))"
  "dag_Nodes (l_DAG (hc_lachesis (update_event r f hc))) = dag_Nodes (l_DAG (hc_lachesis hc))"
  "dag_Events (l_DAG (hc_lachesis (update_event r f hc))) = dag_Events (l_DAG (hc_lachesis hc))"
  "dag_next (l_DAG (hc_lachesis (update_event r f hc))) = dag_next (l_DAG (hc_lachesis hc))"
  "hc_pendingEvents (update_event r f hc) = hc_pendingEvents hc"
  by (simp_all add: update_event_def Let_def set_lachesis_def)

lemma handle_fields:
  fixes hc env r
  defines "hc' \<equiv> EventFlowManager_handleFinalizedEvent env r hc"
  shows "hc_lachesis hc' = hc_lachesis hc" "hc_poh hc' = hc_poh hc" "hc_cfg hc' = hc_cfg hc" "hc_driftTolerance hc' = hc_driftTolerance hc"
    "hc_eventFlow hc' = EventFlowManager_incrementMetric ''totalEventsFinalized'' (move_finalized (fl_now env) r (ev_ID (hc_store hc r)) (hc_eventFlow hc))"
    "hc_validators hc' = count_finalized (fl_vm env) (ev_Creator (hc_store hc r)) (hc_validators hc)"
    "hc_pendingEvents hc' = hc_pendingEvents hc"
  by (simp_all add: hc'_def EventFlowManager_handleFinalizedEvent_def Let_def reward_event)

section \<open>Duplicates\<close>

text \<open>The text of a structured error starts with its category in brackets.\<close>

lemma Error_bracket: "\<exists>t. ConsensusError_Error e = CHR ''['' # t"
  by (cases e) simp

text \<open>Duplicates are never recognised as such: the code compares the text of the error with \<open>duplicate event\<close>, but no
  structured error has that text. So \<open>CreateEvent\<close> never returns the event it already has: when validation fails, it returns
  an error and counts a validation error, whatever the reason.\<close>

theorem duplicates_not_recognised:
  assumes "ef_enableValidation (hc_eventFlow hc)" and "Lachesis_CreateEvent (cn_event env) creator parents data (hc_lachesis hc) = (Some r, l)"
    and "ValidatorManager_IsActiveValidator creator (hc_validators hc)"
    and "int (card (dom (ef_pendingEvents (hc_eventFlow hc)))) < ef_maxPendingEvents (hc_eventFlow hc)"
    and v: "EventFlowManager_ValidateEvent (cn_check env) (Some r) (stamp_event r data (cn_poh env) (set_lachesis l hc)) = (Some e, hc1)"
  shows "\<exists>msg hc'. EventFlowManager_CreateEvent env creator parents data hc = (Inl (PlainErr msg), hc') \<and>
    ef_eventValidationErrors (hc_eventFlow hc') = ef_eventValidationErrors (hc_eventFlow hc1) + 1"
proof -
  have "ConsensusError_Error e \<noteq> ''duplicate event''" using Error_bracket [of e] by auto
  moreover have "ef_enableValidation (hc_eventFlow (stamp_event r data (cn_poh env) (set_lachesis l hc)))"
    using assms(1) by (simp add: stamp_event_def split: prod.splits)
  ultimately show ?thesis using assms
    by (simp add: EventFlowManager_CreateEvent_def Let_def EventFlowManager_incrementMetric_def)
qed

section \<open>Creating an event\<close>

lemma Lachesis_CreateEvent_ok:
  assumes "dag_Nodes (l_DAG l) creator = Some n" and "nd_Active n"
  obtains l' where "Lachesis_CreateEvent now creator parents data l = (Some (dag_next (l_DAG l)), l')"
    and "dag_store (l_DAG l') = (dag_store (l_DAG l))(dag_next (l_DAG l) := zero_Event\<lparr>ev_ID := event_id now creator (card (dom (dag_Events (l_DAG l)))) data,
       ev_ParentIDs := parents, ev_Timestamp := now, ev_Data := data, ev_Creator := creator, ev_Height := event_height (l_DAG l) parents, ev_Finalized := False\<rparr>)"
    and "dag_Events (l_DAG l') = (dag_Events (l_DAG l))(event_id now creator (card (dom (dag_Events (l_DAG l)))) data \<mapsto> dag_next (l_DAG l))"
    and "dag_next (l_DAG l') = Suc (dag_next (l_DAG l))"
  using assms by (simp add: Lachesis_CreateEvent_def DAG_NewEvent_def Let_def)

lemma stamp_fields:
  fixes hc r data now
  defines "hc' \<equiv> stamp_event r data now hc"
  shows "hc_eventFlow hc' = hc_eventFlow hc" "hc_cfg hc' = hc_cfg hc" "hc_driftTolerance hc' = hc_driftTolerance hc"
    "hc_validators hc' = hc_validators hc" "hc_poh hc' = snd (PoH_Record now data (hc_poh hc))"
    "hc_store hc' = (hc_store hc)(r := (hc_store hc r)\<lparr>ev_PoHState := poh_state (hc_poh hc), ev_PoHCount := poh_count (hc_poh hc),
       ev_PoHProof := fst (PoH_Record now data (hc_poh hc))\<rparr>)"
    "dag_Events (l_DAG (hc_lachesis hc')) = dag_Events (l_DAG (hc_lachesis hc))"
    "dag_next (l_DAG (hc_lachesis hc')) = dag_next (l_DAG (hc_lachesis hc))"
    "hc_pendingEvents hc' = hc_pendingEvents hc"
  by (simp_all add: hc'_def stamp_event_def PoH_GetState_def PoH_GetCount_def split: prod.splits)

text \<open>A proof that has just been recorded passes the drift check, if the counters are far from their limits.\<close>

lemma fresh_proof_drift:
  assumes c: "unat c + 1 + unat (hc_driftTolerance hc) < 2 ^ 63" and cur: "poh_count (hc_poh hc) = c + 1"
    and t: "cfg_Mode (hc_cfg hc) = TestMode \<Longrightarrow> hc_driftTolerance hc \<noteq> 0"
  shows "HybridConsensus_verifyPoHWithDrift st data proof c hc = PoH_Verify st data proof c (hc_poh hc)"
proof -
  let ?t = "hc_driftTolerance hc"
  have u: "unat (c + 1) = unat c + 1" "unat (c + 1 + ?t) = unat c + 1 + unat ?t" using c by (simp_all add: unat_word_ariths)
  have s: "sint x = int (unat x)" if "unat x < 2 ^ 63" for x :: uint64
  proof -
    have "signed_take_bit 63 (int n) = int n" if "n < 2 ^ 63" for n :: nat
      using that by (intro signed_take_bit_int_eq_self) simp_all
    from this [OF that] show ?thesis by (simp add: sint_uint)
  qed
  show ?thesis
  proof (cases "cfg_Mode (hc_cfg hc) = TestMode")
    case True
    have "sint c - sint (c + 1) = - 1" using s [of c] s [of "c + 1"] u(1) c by simp
    then have "i64 (sint c - sint (c + 1)) = - 1" by (simp add: i64_id)
    moreover have "unat ?t < 2 ^ 63" using c by linarith
    then have "sint ?t = int (unat ?t)" by (rule s)
    moreover have "unat ?t \<noteq> 0" using t [OF True] by (simp add: unat_eq_zero)
    then have "1 \<le> int (unat ?t)" by linarith
    ultimately show ?thesis using True
      by (simp add: HybridConsensus_verifyPoHWithDrift_def Let_def PoH_GetCount_def cur i64_id)
  next
    case False
    have "\<not> c > c + 1 + ?t" using u(2) by (simp add: word_less_nat_alt)
    then show ?thesis using False by (simp add: HybridConsensus_verifyPoHWithDrift_def Let_def PoH_GetCount_def cur)
  qed
qed

text \<open>What the creation of an event needs from the state, apart from the clock of the hash chain.\<close>

definition can_create :: "CreateEnv \<Rightarrow> hash32 \<Rightarrow> bytes \<Rightarrow> HybridConsensus \<Rightarrow> bool" where
  "can_create env creator data hc \<longleftrightarrow>
     (let d = l_DAG (hc_lachesis hc); ef = hc_eventFlow hc; i = event_id (cn_event env) creator (card (dom (dag_Events d))) data in
      ValidatorManager_IsActiveValidator creator (hc_validators hc) \<and> DAG_IsActiveValidator creator d \<and>
      int (card (dom (ef_pendingEvents ef))) < ef_maxPendingEvents ef \<and> ef_enableValidation ef \<and>
      ef_pendingEvents ef i = None \<and> ef_finalizedEvents ef i = None \<and>
      data \<noteq> [] \<and> length data \<le> 1024 * 1024 \<and> poh_state (hc_poh hc) \<noteq> 0 \<and>
      unat (poh_count (hc_poh hc)) + 1 + unat (hc_driftTolerance hc) < 2 ^ 63 \<and>
      (cfg_Mode (hc_cfg hc) = TestMode \<longrightarrow> hc_driftTolerance hc \<noteq> 0) \<and>
      cn_event env \<noteq> zero_time \<and> cn_event env \<le> cn_check env + 5 * second)"

lemma verify_small:
  assumes "unat c + 1 < 2 ^ 63" and "poh_count p = c + 1"
  shows "\<not> c > poh_count p + 10000"
proof -
  have "unat (c + 1 + 10000) = unat c + 1 + 10000" using assms(1) by (simp add: unat_word_ariths)
  then have "c \<le> c + 1 + 10000" by (simp add: word_le_nat_alt)
  then show ?thesis unfolding assms(2) by simp
qed

text \<open>C9: If the node may create an event and no tick of the hash chain is due, \<open>CreateEvent\<close> succeeds: it returns a new event
  with the given data that carries the state and the count of the chain and the proof of its data, tracks it as pending
  under its ID and starts its finalization.\<close>

theorem create_event_succeeds:
  assumes can: "can_create env creator data hc"
    and tick: "cn_poh env - poh_lastTick (hc_poh hc) < poh_tickDelay (hc_poh hc)"
  shows "\<exists>hc'. let r = dag_next (l_DAG (hc_lachesis hc)); ev = hc_store hc' r; ef = hc_eventFlow hc; ef' = hc_eventFlow hc' in
    EventFlowManager_CreateEvent env creator parents data hc = (Inr r, hc') \<and>
    ev_Creator ev = creator \<and> ev_ParentIDs ev = parents \<and> ev_Data ev = data \<and>
    ev_PoHState ev = poh_state (hc_poh hc) \<and> ev_PoHCount ev = poh_count (hc_poh hc) \<and>
    ev_PoHProof ev = record_step (poh_state (hc_poh hc)) data \<and> poh_state (hc_poh hc') = ev_PoHProof ev \<and>
    ef_pendingEvents ef' = (ef_pendingEvents ef)(ev_ID ev \<mapsto> r) \<and> ef_finalizationWg ef' = ef_finalizationWg ef @ [r]"
proof -
  let ?l = "hc_lachesis hc" and ?p = "hc_poh hc" and ?c = "poh_count (hc_poh hc)"
  let ?i = "event_id (cn_event env) creator (card (dom (dag_Events (l_DAG (hc_lachesis hc))))) data" and ?r = "dag_next (l_DAG (hc_lachesis hc))"
  obtain n where n: "dag_Nodes (l_DAG ?l) creator = Some n" "nd_Active n"
    using can by (auto simp: can_create_def Let_def DAG_IsActiveValidator_def split: option.splits)
  obtain l where L: "Lachesis_CreateEvent (cn_event env) creator parents data ?l = (Some ?r, l)"
    "dag_store (l_DAG l) = (dag_store (l_DAG ?l))(?r := zero_Event\<lparr>ev_ID := ?i, ev_ParentIDs := parents, ev_Timestamp := cn_event env,
       ev_Data := data, ev_Creator := creator, ev_Height := event_height (l_DAG ?l) parents, ev_Finalized := False\<rparr>)"
    by (rule Lachesis_CreateEvent_ok [OF n], rule that)
  let ?hc1 = "stamp_event ?r data (cn_poh env) (set_lachesis l hc)"
  have rec: "PoH_Record (cn_poh env) data ?p = (record_step (poh_state ?p) data, ?p\<lparr>poh_state := record_step (poh_state ?p) data, poh_count := ?c + 1\<rparr>)"
    using tick by (simp add: PoH_Record_def PoH_tickLocked_def Let_def)
  note F = stamp_fields [of ?r data "cn_poh env" "set_lachesis l hc", unfolded set_lachesis_fields rec fst_conv snd_conv]
  have ev: "hc_store ?hc1 ?r = zero_Event\<lparr>ev_ID := ?i, ev_ParentIDs := parents, ev_Timestamp := cn_event env, ev_Data := data, ev_Creator := creator,
      ev_Height := event_height (l_DAG ?l) parents, ev_Finalized := False, ev_PoHState := poh_state ?p, ev_PoHCount := ?c,
      ev_PoHProof := record_step (poh_state ?p) data\<rparr>" using F(6) L(2) by simp
  have b: "unat ?c + 1 + unat (hc_driftTolerance hc) < 2 ^ 63" "cfg_Mode (hc_cfg hc) = TestMode \<Longrightarrow> hc_driftTolerance hc \<noteq> 0"
    using can by (auto simp: can_create_def Let_def)
  then have "unat ?c + 1 < 2 ^ 63" by linarith
  then have "HybridConsensus_verifyPoHWithDrift (poh_state ?p) data (record_step (poh_state ?p) data) ?c ?hc1"
    using fresh_proof_drift [of ?c ?hc1] b can verify_small [of ?c "hc_poh ?hc1"] by (simp add: F PoH_Verify_def can_create_def Let_def)
  then have valid: "EventFlowManager_ValidateEvent (cn_check env) (Some ?r) ?hc1 = (None, ?hc1)"
    using can unfolding EventFlowManager_ValidateEvent_def option.case ev Let_def
    by (simp add: F can_create_def Let_def)
  let ?f = "\<lambda>ef. start_finalize ?r (EventFlowManager_incrementMetric ''totalEventsCreated'' (track_event (cn_track env) ?r (hc_store ?hc1 ?r) ef))"
  have "EventFlowManager_CreateEvent env creator parents data hc = (Inr ?r, update_ef ?f ?hc1)"
    using can valid L(1) by (simp add: EventFlowManager_CreateEvent_def Let_def can_create_def F)
  then show ?thesis
    by (intro exI [of _ "update_ef ?f ?hc1"]) (simp add: Let_def ev, simp add: F start_finalize_def track_event_def)
qed

text \<open>An example: a node with one active validator.\<close>

definition validator_7 :: ValidatorInfo where
  "validator_7 = \<lparr>vi_ID = 7, vi_Stake = 50, vi_Status = ValidatorStatusActive, vi_Performance = f64_1, vi_BlocksProduced = 0,
     vi_EventsFinalized = 0, vi_LastRewardTime = 0, vi_JoinTime = 0, vi_MisbehaviorCount = 0\<rparr>"

definition hybrid_example :: HybridConsensus where
  "hybrid_example = (NewHybridConsensusWithConfig 0 DefaultHybridConfig)
     \<lparr>hc_vm := \<lparr>st_vm = NewValidatorManager\<lparr>vm_validators := [7 \<mapsto> validator_7]\<rparr>, st_dpos = NewDPoS 21 1000,
                st_lachesis = Lachesis_AddNode 7 50 (NewLachesis 100)\<rparr>,
      hc_poh := \<lparr>poh_state = 1, poh_count = 5, poh_lastTick = 0, poh_tickDelay = second\<rparr>\<rparr>"

definition create_env :: "int \<Rightarrow> CreateEnv" where
  "create_env t = \<lparr>cn_event = t, cn_poh = t, cn_check = t, cn_track = t\<rparr>"

lemma DefaultConfig_valid: "valid_threshold DefaultHybridConfig = DefaultHybridConfig"
proof -
  obtain t where t: "rnd (66 / 100) = Fin t" "5 / 8 \<le> t" using default_threshold by (auto simp: NewVirtualVoting_def)
  have "f64_le (rnd (66 / 100)) (rnd 1)" by (rule rnd_mono) simp
  moreover have "rnd 1 = f64_1" using rnd_int [of 1] by simp
  ultimately have "\<not> f64_lt f64_1 (Fin t)" using t by (simp add: f64_le_def) (auto split: if_splits)
  then show ?thesis using t by (simp add: valid_threshold_def DefaultHybridConfig_def f64_le_def)
qed

lemma hybrid_example_simps:
  "hc_poh hybrid_example = \<lparr>poh_state = 1, poh_count = 5, poh_lastTick = 0, poh_tickDelay = second\<rparr>"
  "hc_validators hybrid_example = NewValidatorManager\<lparr>vm_validators := [7 \<mapsto> validator_7]\<rparr>"
  "hc_lachesis hybrid_example = Lachesis_AddNode 7 50 (NewLachesis 100)" "hc_eventFlow hybrid_example = NewEventFlowManager"
  "hc_cfg hybrid_example = DefaultHybridConfig" "hc_driftTolerance hybrid_example = 0" "hc_dpos hybrid_example = NewDPoS 21 1000"
  "hc_pendingEvents hybrid_example = []" "hc_finalizedEvents hybrid_example = Map.empty"
  unfolding hybrid_example_def NewHybridConsensusWithConfig_def DefaultConfig_valid
  by (simp_all add: Let_def DefaultHybridConfig_def)

lemma example_dag:
  "l_DAG (hc_lachesis hybrid_example) = \<lparr>dag_Nodes = [7 \<mapsto> \<lparr>nd_ID = 7, nd_Events = [], nd_Stake = 50, nd_Active = True\<rparr>],
     dag_Events = Map.empty, dag_MaxHeight = 0, dag_store = (\<lambda>_. zero_Event), dag_next = 0\<rparr>"
  by (simp add: hybrid_example_simps Lachesis_AddNode_def NewLachesis_def DAG_AddNode_def NewDAG_def)

lemma example_can_create: "0 \<le> t \<Longrightarrow> can_create (create_env t) 7 [9] hybrid_example"
  by (simp add: can_create_def Let_def hybrid_example_simps(1,2,4-6) example_dag DAG_IsActiveValidator_def ValidatorManager_IsActiveValidator_def
      validator_7_def NewEventFlowManager_def create_env_def DefaultHybridConfig_def zero_time_def second_def)

theorem create_event_succeeds_witness:
  "\<exists>hc'. EventFlowManager_CreateEvent (create_env 1) 7 [] [9] hybrid_example = (Inr 0, hc') \<and> ev_PoHCount (hc_store hc' 0) = 5"
  using create_event_succeeds [OF example_can_create [of 1], of "[]"]
  by (simp add: hybrid_example_simps(1) create_env_def second_def Let_def example_dag) blast

text \<open>If a tick of the hash chain is due when the event is created, recording the event first advances the chain, and
  the proof no longer belongs to the state the event carries: unless the two hashes collide, \<open>CreateEvent\<close> fails, although
  the event is already in the event graph.\<close>

theorem tick_spoils_event:
  assumes can: "can_create env creator data hc"
    and tick: "cn_poh env - poh_lastTick (hc_poh hc) \<ge> poh_tickDelay (hc_poh hc)"
  shows "(\<exists>msg hc'. EventFlowManager_CreateEvent env creator parents data hc = (Inl (PlainErr msg), hc') \<and>
      event_id (cn_event env) creator (card (dom (dag_Events (l_DAG (hc_lachesis hc))))) data \<in> dom (dag_Events (l_DAG (hc_lachesis hc'))) \<and>
      ef_pendingEvents (hc_eventFlow hc') = ef_pendingEvents (hc_eventFlow hc)) \<or>
    record_step (chain_step (poh_state (hc_poh hc)) (poh_count (hc_poh hc) + 1)) data = record_step (poh_state (hc_poh hc)) data"
proof (cases "record_step (chain_step (poh_state (hc_poh hc)) (poh_count (hc_poh hc) + 1)) data = record_step (poh_state (hc_poh hc)) data")
  case differ: False
  let ?l = "hc_lachesis hc" and ?p = "hc_poh hc" and ?c = "poh_count (hc_poh hc)"
  let ?i = "event_id (cn_event env) creator (card (dom (dag_Events (l_DAG (hc_lachesis hc))))) data" and ?r = "dag_next (l_DAG (hc_lachesis hc))"
  let ?s = "chain_step (poh_state ?p) (?c + 1)"
  obtain n where n: "dag_Nodes (l_DAG ?l) creator = Some n" "nd_Active n"
    using can by (auto simp: can_create_def Let_def DAG_IsActiveValidator_def split: option.splits)
  obtain l where L: "Lachesis_CreateEvent (cn_event env) creator parents data ?l = (Some ?r, l)"
    "dag_store (l_DAG l) = (dag_store (l_DAG ?l))(?r := zero_Event\<lparr>ev_ID := ?i, ev_ParentIDs := parents, ev_Timestamp := cn_event env,
       ev_Data := data, ev_Creator := creator, ev_Height := event_height (l_DAG ?l) parents, ev_Finalized := False\<rparr>)"
    "dag_Events (l_DAG l) = (dag_Events (l_DAG ?l))(?i \<mapsto> ?r)"
    by (rule Lachesis_CreateEvent_ok [OF n], rule that)
  let ?hc1 = "stamp_event ?r data (cn_poh env) (set_lachesis l hc)"
  have rec: "fst (PoH_Record (cn_poh env) data ?p) = record_step ?s data"
    using tick by (simp add: PoH_Record_def PoH_tickLocked_def Let_def PoH_advanceState_def)
  note F = stamp_fields [of ?r data "cn_poh env" "set_lachesis l hc", unfolded set_lachesis_fields rec]
  have ev: "ev_Creator (hc_store ?hc1 ?r) = creator" "ev_PoHState (hc_store ?hc1 ?r) = poh_state ?p" "ev_Data (hc_store ?hc1 ?r) = data"
    "ev_PoHProof (hc_store ?hc1 ?r) = record_step ?s data" using L(2) by (simp_all add: F)
  have "\<not> PoH_Verify (poh_state ?p) data (record_step ?s data) k q" for k q using differ by (simp add: PoH_Verify_def)
  then have "\<not> HybridConsensus_verifyPoHWithDrift (poh_state ?p) data (record_step ?s data) k ?hc1" for k
    by (simp add: HybridConsensus_verifyPoHWithDrift_def Let_def)
  moreover have "ValidatorManager_IsActiveValidator creator (hc_validators ?hc1)" using can by (simp add: F can_create_def Let_def)
  ultimately obtain e where V: "EventFlowManager_ValidateEvent (cn_check env) (Some ?r) ?hc1 = (Some e, ?hc1)"
    by (simp add: EventFlowManager_ValidateEvent_def Let_def ev)
  have "ConsensusError_Error e \<noteq> ''duplicate event''" using Error_bracket [of e] by auto
  then have C: "EventFlowManager_CreateEvent env creator parents data hc = (Inl (PlainErr (''event validation failed: '' @ ConsensusError_Error e)),
      update_ef (EventFlowManager_incrementMetric ''eventValidationErrors'') ?hc1)"
    using can L(1) V by (simp add: EventFlowManager_CreateEvent_def Let_def can_create_def F)
  show ?thesis by (intro disjI1 exI, rule conjI, rule C) (simp add: F L(3))
qed simp

theorem tick_spoils_event_witness:
  "(\<exists>msg hc'. EventFlowManager_CreateEvent (create_env (2 * second)) 7 [] [9] hybrid_example = (Inl (PlainErr msg), hc')) \<or>
   record_step (chain_step 1 6) [9] = record_step 1 [9]"
  using tick_spoils_event [OF example_can_create [of "2 * second"], of "[]"]
  by (auto simp: hybrid_example_simps(1) create_env_def second_def)

end
