(* ===== verification/EventFlowRuns.thy ===== *)
theory EventFlowRuns
  imports EventFlowTheory
begin

text \<open>
  What the goroutines of the event flow manager (\<open>consensus/event_flow.go\<close>) achieve: the exact effect of one round of the
  worker, the reward for an event, the events a round never reaches, and the adaptation of the batch size.
\<close>

section \<open>One event\<close>

definition due :: "(nat \<Rightarrow> FlowEnv) \<Rightarrow> HybridConsensus \<Rightarrow> nat \<Rightarrow> bool" where
  "due env hc r \<longleftrightarrow>
     \<not> ev_Finalized (hc_store hc r) \<and> retry_count (hc_eventFlow hc) (ev_ID (hc_store hc r)) < ef_maxRetries (hc_eventFlow hc) \<and>
     accepted (fl_fin (env r)) r hc"

lemma accepted_frame:
  assumes "hc_poh hc' = hc_poh hc" "hc_cfg hc' = hc_cfg hc" "hc_driftTolerance hc' = hc_driftTolerance hc"
    "l_VirtualVoting (hc_lachesis hc') = l_VirtualVoting (hc_lachesis hc)"
    "l_DAG (hc_lachesis hc') = (if b then set_finalized s (l_DAG (hc_lachesis hc)) else l_DAG (hc_lachesis hc))"
  shows "accepted env r hc' = accepted env r hc"
proof -
  have "dag_store (set_finalized s (l_DAG (hc_lachesis hc))) r =
      (if r = s then (hc_store hc r)\<lparr>ev_Finalized := True\<rparr> else hc_store hc r)" by (simp add: set_finalized_def)
  then show ?thesis using assms
    by (cases b) (simp_all add: accepted_def poh_accepts_def HybridConsensus_verifyPoHWithDrift_def Let_def frame_simps)
qed

text \<open>What one successful finalization does to the state of the event flow manager and to the events.\<close>

lemma finalized_event:
  assumes F: "HybridConsensus_FinalizeEvent (fl_fin env) (Some r) hc = ((True, err), hc1)"
  defines "hc2 \<equiv> EventFlowManager_handleFinalizedEvent env r hc1" and "i \<equiv> ev_ID (hc_store hc r)"
  shows "ef_pendingEvents (hc_eventFlow hc2) = (ef_pendingEvents (hc_eventFlow hc))(i := None)"
    and "ef_finalizedEvents (hc_eventFlow hc2) = (ef_finalizedEvents (hc_eventFlow hc))(i \<mapsto> r)"
    and "ef_eventRetryCount (hc_eventFlow hc2) = (ef_eventRetryCount (hc_eventFlow hc))(i := None)"
    and "ef_maxRetries (hc_eventFlow hc2) = ef_maxRetries (hc_eventFlow hc)"
    and "ef_batchSize (hc_eventFlow hc2) = ef_batchSize (hc_eventFlow hc)"
    and "ef_eventsByHeight (hc_eventFlow hc2) = ef_eventsByHeight (hc_eventFlow hc)"
    and "l_DAG (hc_lachesis hc2) = set_finalized r (l_DAG (hc_lachesis hc))"
    and "accepted e s hc2 = accepted e s hc"
    and "\<not> ev_Finalized (hc_store hc r) \<Longrightarrow> hc_validators hc2 = count_finalized (fl_vm env) (ev_Creator (hc_store hc r))
           (count_finalized (fe_vm (fl_fin env)) (ev_Creator (hc_store hc r)) (hc_validators hc))"
proof -
  note E = FinalizeEvent_effect [OF F] and H = handle_fields [of env r hc1]
  have d: "l_DAG (hc_lachesis hc1) = set_finalized r (l_DAG (hc_lachesis hc))" using E(3) by simp
  have id: "ev_ID (hc_store hc1 r) = i" "ev_Creator (hc_store hc1 r) = ev_Creator (hc_store hc r)"
    unfolding d i_def by (simp_all add: frame_simps)
  have ef: "hc_eventFlow hc1 = hc_eventFlow hc" using E(5) by (rule hc_frame_fields)
  show "ef_pendingEvents (hc_eventFlow hc2) = (ef_pendingEvents (hc_eventFlow hc))(i := None)"
    "ef_finalizedEvents (hc_eventFlow hc2) = (ef_finalizedEvents (hc_eventFlow hc))(i \<mapsto> r)"
    "ef_eventRetryCount (hc_eventFlow hc2) = (ef_eventRetryCount (hc_eventFlow hc))(i := None)"
    "ef_maxRetries (hc_eventFlow hc2) = ef_maxRetries (hc_eventFlow hc)"
    "ef_batchSize (hc_eventFlow hc2) = ef_batchSize (hc_eventFlow hc)"
    "ef_eventsByHeight (hc_eventFlow hc2) = ef_eventsByHeight (hc_eventFlow hc)"
    unfolding hc2_def H(5) id ef by simp_all
  show "l_DAG (hc_lachesis hc2) = set_finalized r (l_DAG (hc_lachesis hc))" by (simp add: hc2_def H(1) d)
  show "accepted e s hc2 = accepted e s hc"
    by (rule accepted_frame [where b = True and s = r])
       (simp_all add: hc2_def H(1-4) d E(8) hc_frame_fields [OF E(5)])
  show "hc_validators hc2 = count_finalized (fl_vm env) (ev_Creator (hc_store hc r))
      (count_finalized (fe_vm (fl_fin env)) (ev_Creator (hc_store hc r)) (hc_validators hc))" if "\<not> ev_Finalized (hc_store hc r)"
    unfolding hc2_def H(6) id(2) using E(4) that by simp
qed

section \<open>The reward\<close>

lemma count_finalized_value:
  assumes "vm_validators vm i = Some v"
  shows "\<exists>v'. vm_validators (count_finalized env i vm) i = Some v' \<and> vi_EventsFinalized v' = vi_EventsFinalized v + 1"
  using assms by (simp add: count_finalized_def vm_modify_def map_modify_def ValidatorManager_updateValidatorPerformance_def Let_def)

text \<open>An event is rewarded twice: \<open>FinalizeEvent\<close> rewards its creator and then \<open>handleFinalizedEvent\<close> rewards it again, so
  the goroutine of one event raises the creator's number of finalized events by two. It also moves the event from the
  pending to the final ones.\<close>

theorem event_rewarded_twice:
  assumes "vm_validators (hc_validators hc) (ev_Creator (hc_store hc r)) = Some v"
    and "\<not> ev_Finalized (hc_store hc r)" and "accepted (fl_fin env) r hc"
  shows "\<exists>v'. let hc' = EventFlowManager_finalizeEvent False env r hc; ef = hc_eventFlow hc'; i = ev_ID (hc_store hc r) in
    vm_validators (hc_validators hc') (ev_Creator (hc_store hc r)) = Some v' \<and> vi_EventsFinalized v' = vi_EventsFinalized v + 2 \<and>
    ef_pendingEvents ef i = None \<and> ef_finalizedEvents ef i = Some r \<and> ev_Finalized (hc_store hc' r)"
proof -
  let ?c = "ev_Creator (hc_store hc r)"
  obtain ok err hc1 where F0: "HybridConsensus_FinalizeEvent (fl_fin env) (Some r) hc = ((ok, err), hc1)" by (metis surj_pair)
  then have F: "HybridConsensus_FinalizeEvent (fl_fin env) (Some r) hc = ((True, err), hc1)"
    using FinalizeEvent_effect(1) [OF F0] assms(3) by simp
  note E = finalized_event [OF F]
  obtain v1 where v1: "vm_validators (count_finalized (fe_vm (fl_fin env)) ?c (hc_validators hc)) ?c = Some v1"
    "vi_EventsFinalized v1 = vi_EventsFinalized v + 1" using count_finalized_value [OF assms(1)] by blast
  obtain v2 where v2: "vm_validators (count_finalized (fl_vm env) ?c (count_finalized (fe_vm (fl_fin env)) ?c (hc_validators hc))) ?c = Some v2"
    "vi_EventsFinalized v2 = vi_EventsFinalized v1 + 1" using count_finalized_value [OF v1(1)] by blast
  show ?thesis unfolding EventFlowManager_finalizeEvent_def F Let_def
    using v1(2) v2 E(9) [OF assms(2)] by (simp add: E(1,2,7) finish_finalize_def frame_simps)
qed

text \<open>A node in test mode with one active validator and one event that is waiting.\<close>

definition flow_example :: HybridConsensus where
  "flow_example = hybrid_example
     \<lparr>hc_vm := \<lparr>st_vm = NewValidatorManager\<lparr>vm_validators := [1 \<mapsto> validator_7]\<rparr>, st_dpos = NewDPoS 21 1000, st_lachesis = lachesis_example\<rparr>,
      hc_cfg := TestHybridConfig,
      hc_eventFlow := NewEventFlowManager\<lparr>ef_pendingEvents := [ev_ID (dag_store dag_example 0) \<mapsto> 0]\<rparr>\<rparr>"

definition flow_env :: "int \<Rightarrow> FlowEnv" where
  "flow_env t = (let vm = \<lparr>ve_now = t, ve_lastReward = t, ve_join = t, ve_dposNow = t, ve_order = [1], ve_srt = [1], ve_pow = (\<lambda>_ _. f64_1), ve_conv = (\<lambda>_. 0)\<rparr>
     in \<lparr>fl_fin = \<lparr>fe_now = t, fe_order1 = [1], fe_order2 = [1], fe_vm = vm\<rparr>, fl_now = t, fl_vm = vm\<rparr>)"

lemma flow_example_simps:
  "hc_validators flow_example = NewValidatorManager\<lparr>vm_validators := [1 \<mapsto> validator_7]\<rparr>"
  "hc_lachesis flow_example = lachesis_example" "hc_cfg flow_example = TestHybridConfig"
  "hc_eventFlow flow_example = NewEventFlowManager\<lparr>ef_pendingEvents := [ev_ID (dag_store dag_example 0) \<mapsto> 0]\<rparr>"
  by (simp_all add: flow_example_def)

lemma dag_example_pending: "\<not> ev_Finalized (dag_store dag_example 0)"
  by (simp add: dag_example_def DAG_NewEvent_def DAG_AddNode_def NewDAG_def Let_def)

lemma flow_example_accepted: "accepted (fl_fin (flow_env t)) 0 flow_example"
  using dag_example_event dag_example_vote
  by (simp add: accepted_def poh_accepts_def flow_example_simps lachesis_example_simps TestHybridConfig_def flow_env_def Let_def)

theorem event_rewarded_twice_witness:
  "\<exists>v'. vm_validators (hc_validators (EventFlowManager_finalizeEvent False (flow_env 5) 0 flow_example)) 1 = Some v' \<and>
     vi_EventsFinalized v' = 2"
  using event_rewarded_twice [of flow_example 0 validator_7 "flow_env 5"] flow_example_accepted dag_example_pending dag_example_event(1)
  by (auto simp: flow_example_simps lachesis_example_simps Let_def validator_7_def)

section \<open>A round of the worker\<close>

lemma not_due_step:
  assumes "\<not> due env hc r"
  obtains p f hc1 where "flow_loop env (r # rs) (a, b) hc = flow_loop env rs (p, f) hc1" and "hc_vm hc1 = hc_vm hc" and "hc_frame hc hc1"
    and "f = b" and "a \<le> p" and "p \<le> a + 1"
proof -
  let ?ev = "hc_store hc r"
  obtain ok err hc1 where F: "HybridConsensus_FinalizeEvent (fl_fin (env r)) (Some r) hc = ((ok, err), hc1)" by (metis surj_pair)
  note E = FinalizeEvent_effect [OF F]
  consider "ev_Finalized ?ev" | "retry_count (hc_eventFlow hc) (ev_ID ?ev) \<ge> ef_maxRetries (hc_eventFlow hc)"
    | "\<not> ev_Finalized ?ev" "\<not> retry_count (hc_eventFlow hc) (ev_ID ?ev) \<ge> ef_maxRetries (hc_eventFlow hc)" "\<not> ok"
    using assms E(1) by (meson due_def not_le)
  then show ?thesis
  proof cases
    case 1
    then show ?thesis by (intro that [of a b hc]) (simp_all add: Let_def)
  next
    case 2
    then show ?thesis by (intro that [of a b hc]) (simp_all add: Let_def)
  next
    case 3
    then have "\<not> ok" by simp
    note fr = E(5) and vm = E(6) [OF this]
    have "flow_loop env (r # rs) (a, b) hc = flow_loop env rs (a + 1, b) hc1" using 3 F by (simp add: Let_def)
    then show ?thesis using fr vm by (intro that [of "a + 1" b hc1]) simp_all
  qed
qed

lemma due_step:
  assumes "due env hc r"
  obtains err hc1 where "HybridConsensus_FinalizeEvent (fl_fin (env r)) (Some r) hc = ((True, err), hc1)"
    and "flow_loop env (r # rs) (a, b) hc = flow_loop env rs (a + 1, b + 1) (EventFlowManager_handleFinalizedEvent (env r) r hc1)"
proof -
  obtain ok err hc1 where F: "HybridConsensus_FinalizeEvent (fl_fin (env r)) (Some r) hc = ((ok, err), hc1)" by (metis surj_pair)
  with assms have "ok" using FinalizeEvent_effect(1) [OF F] by (simp add: due_def)
  then show ?thesis using F assms by (intro that [of err hc1]) (auto simp: due_def Let_def)
qed

lemma due_frame:
  assumes "hc_vm hc1 = hc_vm hc" and "hc_frame hc hc1"
  shows "due env hc1 s = due env hc s"
  using accepted_frame [of hc1 hc False 0] assms(1) hc_frame_fields [OF assms(2)] by (simp add: due_def)

text \<open>The events of a list have different IDs.\<close>

definition ids_differ :: "HybridConsensus \<Rightarrow> nat list \<Rightarrow> bool" where
  "ids_differ hc rs \<longleftrightarrow> distinct (map (\<lambda>r. ev_ID (hc_store hc r)) rs)"

lemma flow_loop_exact:
  assumes "flow_loop env rs (a, b) hc = ((p, f), hc')" and "ids_differ hc rs"
  shows "ef_pendingEvents (hc_eventFlow hc') =
      (\<lambda>i. if \<exists>r\<in>set rs. due env hc r \<and> ev_ID (hc_store hc r) = i then None else ef_pendingEvents (hc_eventFlow hc) i) \<and>
    (\<forall>r\<in>set rs. due env hc r \<longrightarrow> ef_finalizedEvents (hc_eventFlow hc') (ev_ID (hc_store hc r)) = Some r) \<and>
    (\<forall>i. (\<forall>r\<in>set rs. due env hc r \<longrightarrow> ev_ID (hc_store hc r) \<noteq> i) \<longrightarrow>
      ef_finalizedEvents (hc_eventFlow hc') i = ef_finalizedEvents (hc_eventFlow hc) i) \<and>
    (\<forall>s. ev_Finalized (hc_store hc' s) \<longleftrightarrow> ev_Finalized (hc_store hc s) \<or> s \<in> set rs \<and> due env hc s) \<and>
    f = b + int (length (filter (due env hc) rs)) \<and> f - b \<le> p - a \<and> ef_batchSize (hc_eventFlow hc') = ef_batchSize (hc_eventFlow hc)"
  using assms
proof (induction rs arbitrary: a b hc)
  case Nil
  then show ?case by auto
next
  case (Cons r rs)
  let ?i = "ev_ID (hc_store hc r)"
  show ?case
  proof (cases "due env hc r")
    case False
    then obtain p1 f1 hc1 where S: "flow_loop env (r # rs) (a, b) hc = flow_loop env rs (p1, f1) hc1" "hc_vm hc1 = hc_vm hc" "hc_frame hc hc1"
      "f1 = b" "a \<le> p1" "p1 \<le> a + 1" by (rule not_due_step)
    have "ids_differ hc1 rs" using Cons.prems(2) by (simp add: ids_differ_def S(2))
    note IH = Cons.IH [OF Cons.prems(1) [unfolded S(1)] this, unfolded due_frame [OF S(2,3)] S(2) hc_frame_fields(3) [OF S(3)] S(4)]
    show ?thesis using IH False S(5) by auto
  next
    case True
    obtain err hc1 where S: "HybridConsensus_FinalizeEvent (fl_fin (env r)) (Some r) hc = ((True, err), hc1)"
      "flow_loop env (r # rs) (a, b) hc = flow_loop env rs (a + 1, b + 1) (EventFlowManager_handleFinalizedEvent (env r) r hc1)"
      by (rule due_step [OF True], rule that)
    define hc2 where "hc2 = EventFlowManager_handleFinalizedEvent (env r) r hc1"
    note E = finalized_event [OF S(1), folded hc2_def]
    have id: "ev_ID (hc_store hc2 s) = ev_ID (hc_store hc s)" for s by (simp add: E(7) frame_simps)
    have fin: "ev_Finalized (hc_store hc2 s) \<longleftrightarrow> s = r \<or> ev_Finalized (hc_store hc s)" for s by (simp add: E(7) frame_simps)
    have other: "?i \<noteq> ev_ID (hc_store hc s)" "r \<noteq> s" if "s \<in> set rs" for s using Cons.prems(2) that by (auto simp: ids_differ_def)
    have d: "due env hc2 s = due env hc s" if "s \<in> set rs" for s
      using other [OF that] by (simp add: due_def fin id E(3,4,8) retry_count_def)
    then have flt: "filter (due env hc2) rs = filter (due env hc) rs" by (rule filter_cong [OF HOL.refl])
    have "ids_differ hc2 rs" using Cons.prems(2) by (simp add: ids_differ_def id)
    note IH = Cons.IH [OF Cons.prems(1) [unfolded S(2) hc2_def [symmetric]] this, unfolded id fin E(1,2,5) flt]
    show ?thesis
    proof (intro conjI)
      show "ef_pendingEvents (hc_eventFlow hc') = (\<lambda>i. if \<exists>s\<in>set (r # rs). due env hc s \<and> ev_ID (hc_store hc s) = i then None
          else ef_pendingEvents (hc_eventFlow hc) i)" using IH True d by (auto simp: fun_eq_iff)
      have "\<forall>s\<in>set rs. due env hc2 s \<longrightarrow> ev_ID (hc_store hc s) \<noteq> ?i" using other(1) by metis
      then have "ef_finalizedEvents (hc_eventFlow hc') ?i = Some r" using IH by simp
      then show "\<forall>s\<in>set (r # rs). due env hc s \<longrightarrow> ef_finalizedEvents (hc_eventFlow hc') (ev_ID (hc_store hc s)) = Some s"
        using IH d by auto
      show "\<forall>i. (\<forall>s\<in>set (r # rs). due env hc s \<longrightarrow> ev_ID (hc_store hc s) \<noteq> i) \<longrightarrow>
          ef_finalizedEvents (hc_eventFlow hc') i = ef_finalizedEvents (hc_eventFlow hc) i" using IH True d by auto
      show "\<forall>s. ev_Finalized (hc_store hc' s) \<longleftrightarrow> ev_Finalized (hc_store hc s) \<or> s \<in> set (r # rs) \<and> due env hc s"
        using IH True d by auto
    qed (use IH True in auto)
  qed
qed

text \<open>The order of a range over the pending events, which are found under their IDs.\<close>

definition flow_ids :: "HybridConsensus \<Rightarrow> bool" where
  "flow_ids hc \<longleftrightarrow> (\<forall>i r. ef_pendingEvents (hc_eventFlow hc) i = Some r \<longrightarrow> ev_ID (hc_store hc r) = i)"

lemma pending_differ:
  assumes "flow_ids hc" and "range_order (ef_pendingEvents (hc_eventFlow hc)) order" and "mset rs = mset (EventFlowManager_GetPendingEvents order (hc_eventFlow hc))"
  shows "ids_differ hc rs" and "r \<in> set rs \<longleftrightarrow> (\<exists>i. ef_pendingEvents (hc_eventFlow hc) i = Some r)"
proof -
  let ?m = "ef_pendingEvents (hc_eventFlow hc)"
  have o: "distinct order" "set order = dom ?m" using assms(2) by (auto simp: range_order_def)
  have "map (\<lambda>r. ev_ID (hc_store hc r)) (map (\<lambda>i. the (?m i)) order) = map (\<lambda>i. i) order"
    using o(2) assms(1) unfolding map_map by (intro map_cong) (auto simp: flow_ids_def)
  moreover have "mset (map (\<lambda>r. ev_ID (hc_store hc r)) rs) = mset (map (\<lambda>r. ev_ID (hc_store hc r)) (map (\<lambda>i. the (?m i)) order))"
    unfolding mset_map [of "\<lambda>r. ev_ID (hc_store hc r)"] assms(3) EventFlowManager_GetPendingEvents_def ..
  ultimately show "ids_differ hc rs" using o(1) unfolding ids_differ_def by (metis list.map_ident mset_eq_imp_distinct_iff)
  have "set rs = (\<lambda>i. the (?m i)) ` dom ?m" using mset_eq_setD [OF assms(3)] o(2) by (simp add: EventFlowManager_GetPendingEvents_def)
  then show "r \<in> set rs \<longleftrightarrow> (\<exists>i. ?m i = Some r)" by (auto simp: image_iff dom_def)
qed

text \<open>C6: A round of the worker does exactly what it should: it always ends, and it moves to the final events those and only those
  pending events that are not yet flagged as final, have retries left and are accepted by the proof of history and by the
  votes; every other pending event stays pending, and in particular an event that something else has flagged as final is
  never moved.\<close>

theorem worker_finalizes:
  assumes "flow_ids hc" and "range_order (ef_pendingEvents (hc_eventFlow hc)) (wk_order env)"
    and "slice_sorted (\<lambda>r. ev_Height (hc_store hc r)) (wk_sort env)" and "0 < ef_batchSize (hc_eventFlow hc)"
  shows "\<exists>hc'. EventFlowManager_processPendingEvents env hc = Some hc' \<and>
    (\<forall>i r. ef_pendingEvents (hc_eventFlow hc) i = Some r \<longrightarrow>
       (if due (wk_event env) hc r
        then ef_pendingEvents (hc_eventFlow hc') i = None \<and> ef_finalizedEvents (hc_eventFlow hc') i = Some r \<and> ev_Finalized (hc_store hc' r)
        else ef_pendingEvents (hc_eventFlow hc') i = Some r \<and> ef_finalizedEvents (hc_eventFlow hc') i = ef_finalizedEvents (hc_eventFlow hc) i))"
proof -
  let ?ef = "hc_eventFlow hc" and ?pending = "wk_sort env (EventFlowManager_GetPendingEvents (wk_order env) (hc_eventFlow hc))"
  have m: "mset ?pending = mset (EventFlowManager_GetPendingEvents (wk_order env) ?ef)" using assms(3) by (simp add: slice_sorted_def)
  note P = pending_differ [OF assms(1,2) m]
  obtain cs where cs: "chunks (ef_batchSize ?ef) ?pending = Some cs" "concat cs = ?pending" using chunks_ok [OF assms(4)] by blast
  obtain p f hc1 where L: "flow_loop (wk_event env) ?pending (0, 0) hc = ((p, f), hc1)" by (metis surj_pair)
  note E = flow_loop_exact [OF L P(1)]
  define hc' where "hc' = update_ef (update_flow_metrics (wk_elapsed env) (int (length ?pending)) p f) hc1"
  have eq: "EventFlowManager_processPendingEvents env hc = Some hc'"
    using cs L by (simp add: EventFlowManager_processPendingEvents_def Let_def hc'_def)
  have f: "ef_pendingEvents (hc_eventFlow hc') = ef_pendingEvents (hc_eventFlow hc1)" "hc_store hc' = hc_store hc1"
    "ef_finalizedEvents (hc_eventFlow hc') = ef_finalizedEvents (hc_eventFlow hc1)"
    by (simp_all add: hc'_def update_flow_metrics_def Let_def)
  have "if due (wk_event env) hc r
      then ef_pendingEvents (hc_eventFlow hc') i = None \<and> ef_finalizedEvents (hc_eventFlow hc') i = Some r \<and> ev_Finalized (hc_store hc' r)
      else ef_pendingEvents (hc_eventFlow hc') i = Some r \<and> ef_finalizedEvents (hc_eventFlow hc') i = ef_finalizedEvents ?ef i"
    if pen: "ef_pendingEvents ?ef i = Some r" for i r
  proof -
    have r: "r \<in> set ?pending" "ev_ID (hc_store hc r) = i" using P(2) [of r] pen assms(1) by (auto simp: flow_ids_def)
    have uniq: "s = r" if "s \<in> set ?pending" "ev_ID (hc_store hc s) = i" for s
      using P(2) [of s] that pen assms(1) by (auto simp: flow_ids_def)
    show ?thesis
    proof (cases "due (wk_event env) hc r")
      case True
      then show ?thesis using E r by (auto simp: f)
    next
      case False
      then have "\<forall>s\<in>set ?pending. due (wk_event env) hc s \<longrightarrow> ev_ID (hc_store hc s) \<noteq> i" using uniq by blast
      then show ?thesis using E False pen by (auto simp: f)
    qed
  qed
  then show ?thesis using eq by blast
qed

definition work_env :: WorkEnv where
  "work_env = \<lparr>wk_order = [ev_ID (dag_store dag_example 0)], wk_sort = sort_key (\<lambda>r. ev_Height (dag_store dag_example r)), wk_event = (\<lambda>_. flow_env 5), wk_elapsed = 1\<rparr>"

theorem worker_finalizes_witness:
  "\<exists>hc'. EventFlowManager_processPendingEvents work_env flow_example = Some hc' \<and>
     ef_pendingEvents (hc_eventFlow hc') (ev_ID (dag_store dag_example 0)) = None \<and> ev_Finalized (hc_store hc' 0)"
proof -
  have d: "due (wk_event work_env) flow_example 0"
    using flow_example_accepted dag_example_pending
    by (simp add: due_def work_env_def flow_example_simps lachesis_example_simps NewEventFlowManager_def retry_count_def)
  have "slice_sorted (\<lambda>r. ev_Height (hc_store flow_example r)) (wk_sort work_env)"
    by (simp add: slice_sorted_def work_env_def flow_example_simps lachesis_example_simps)
  moreover have "flow_ids flow_example" "range_order (ef_pendingEvents (hc_eventFlow flow_example)) (wk_order work_env)"
    "0 < ef_batchSize (hc_eventFlow flow_example)"
    "ef_pendingEvents (hc_eventFlow flow_example) (ev_ID (dag_store dag_example 0)) = Some 0"
    by (auto simp: flow_ids_def flow_example_simps lachesis_example_simps range_order_def work_env_def NewEventFlowManager_def)
  ultimately obtain hc' where "EventFlowManager_processPendingEvents work_env flow_example = Some hc'"
    "ef_pendingEvents (hc_eventFlow hc') (ev_ID (dag_store dag_example 0)) = None" "ev_Finalized (hc_store hc' 0)"
    using worker_finalizes [of flow_example work_env] d by (metis (full_types))
  then show ?thesis by blast
qed

section \<open>The batch size of an idle node\<close>

lemma rnd_64: "\<bar>m\<bar> \<le> 2 ^ 53 \<Longrightarrow> rnd (of_int m / 64) = Fin (of_int m / 64)"
  using rnd_exact [of m "- 6"] by (simp add: pow2_def)

text \<open>A round that finds nothing to do counts as a round without success.\<close>

definition idle_rate :: "float64 \<Rightarrow> float64" where
  "idle_rate x = f64_div (f64_add (f64_mul x (Fin 9)) f64_0) (Fin 10)"

lemma idle_rate_step:
  assumes "x = Fin q" "0 \<le> q" "q \<le> of_int a / 64" and "0 \<le> a" "a \<le> 64" "9 * a \<le> 10 * b" "b \<le> 64"
  shows "\<exists>t. idle_rate x = Fin t \<and> 0 \<le> t \<and> t \<le> of_int b / 64"
proof -
  have e: "rnd (of_int (9 * a) / 64) = Fin (of_int (9 * a) / 64)" "rnd (of_int b / 64) = Fin (of_int b / 64)"
    by (rule rnd_64, use assms(4-7) in simp)+
  have "9 * q \<le> of_int (9 * a) / 64" using assms(3) by simp
  with rnd_between [OF rnd_0 e(1), of "q * 9"] assms(2) obtain y where y: "rnd (q * 9) = Fin y" "0 \<le> y" "y \<le> of_int (9 * a) / 64"
    by (auto simp: mult.commute)
  from rnd_between [OF rnd_0 e(1) y(2,3)] obtain z where z: "rnd y = Fin z" "0 \<le> z" "z \<le> of_int (9 * a) / 64" by auto
  have "of_int (9 * a) \<le> (of_int (10 * b) :: rat)" using assms(6) by (simp only: of_int_le_iff)
  then have "z / 10 \<le> of_int b / 64" using z(3) by simp
  from rnd_between [OF rnd_0 e(2) _ this] z(2) show ?thesis using assms(1) y z by (auto simp: idle_rate_def)
qed

lemma idle_round:
  assumes "ef_pendingEvents (hc_eventFlow hc) = Map.empty" and "range_order (ef_pendingEvents (hc_eventFlow hc)) (wk_order env)"
    and "slice_sorted key (wk_sort env)"
  shows "EventFlowManager_processPendingEvents env hc = Some (update_ef (update_flow_metrics (wk_elapsed env) 0 0 0) hc)"
proof -
  have o: "wk_order env = []" using assms(1,2) by (simp add: range_order_def)
  have "wk_sort env [] = []" using assms(3) by (metis slice_sorted_length length_0_conv)
  then show ?thesis by (simp add: EventFlowManager_processPendingEvents_def EventFlowManager_GetPendingEvents_def o Let_def)
qed

lemma idle_metrics [simp]:
  "ef_successRate (update_flow_metrics t n 0 0 ef) = idle_rate (ef_successRate ef)"
  "ef_batchSize (update_flow_metrics t n p f ef) = ef_batchSize ef" "ef_pendingEvents (update_flow_metrics t n p f ef) = ef_pendingEvents ef"
  by (simp_all add: update_flow_metrics_def idle_rate_def Let_def)

definition low_rate :: "float64 \<Rightarrow> bool" where
  "low_rate x \<longleftrightarrow> (\<exists>q. x = Fin q \<and> 0 \<le> q \<and> q \<le> 44 / 64)"

lemma low_rate_idle: "low_rate x \<Longrightarrow> low_rate (idle_rate x)"
  using idle_rate_step [of x _ 44 44] by (auto simp: low_rate_def)

lemma four_idle_rounds:
  assumes "x = Fin q" "0 \<le> q" "q \<le> 1"
  shows "low_rate (idle_rate (idle_rate (idle_rate (idle_rate x))))"
proof -
  obtain q1 where 1: "idle_rate x = Fin q1" "0 \<le> q1" "q1 \<le> of_int 58 / 64" using idle_rate_step [OF assms(1,2), of 64 58] assms(3) by auto
  obtain q2 where 2: "idle_rate (idle_rate x) = Fin q2" "0 \<le> q2" "q2 \<le> of_int 53 / 64" using idle_rate_step [OF 1, of 53] by auto
  obtain q3 where 3: "idle_rate (idle_rate (idle_rate x)) = Fin q3" "0 \<le> q3" "q3 \<le> of_int 48 / 64" using idle_rate_step [OF 2, of 48] by auto
  show ?thesis using idle_rate_step [OF 3, of 44] by (auto simp: low_rate_def)
qed

lemma low_rate_low: "low_rate x \<Longrightarrow> f64_lt x (rnd (7 / 10))"
proof -
  assume "low_rate x"
  then obtain q where q: "x = Fin q" "q \<le> 44 / 64" by (auto simp: low_rate_def)
  have "\<exists>t. rnd (7 / 10) = Fin t \<and> of_int 44 / 64 < t"
  proof -
    obtain t where "rnd (7 / 10) = Fin t" "of_int 1433 / 2048 \<le> t"
      using rnd_between [of "of_int 1433 / 2048" 1 "7 / 10"] rnd_exact [of 1433 "- 11"] rnd_int [of 1] by (auto simp: pow2_def)
    then show ?thesis by auto
  qed
  then show ?thesis using q by auto
qed

lemma shrink_size:
  assumes "0 < n" "n \<le> 2 ^ 53"
  shows "f64_to_int64 conv (f64_mul (f64_of_int n) (rnd (8 / 10))) \<le> max 9 (n - 1)"
    and "0 \<le> f64_to_int64 conv (f64_mul (f64_of_int n) (rnd (8 / 10)))"
proof -
  obtain c where c: "rnd (8 / 10) = Fin c" "0 \<le> c" "c \<le> 7 / 8"
    using rnd_between [of 0 "of_int 56 / 64" "8 / 10"] rnd_64 [of 56] by auto
  have n: "f64_of_int n = Fin (of_int n)" using assms by (simp add: f64_of_int_def rnd_int)
  have "of_int n * c \<le> of_int n * (7 / 8)" using c(3) assms(1) by (intro mult_left_mono) simp_all
  also have "\<dots> \<le> of_int (max 9 (n - 1))"
  proof (cases "n \<le> 8")
    case False
    then have "7 * n \<le> 8 * max 9 (n - 1)" by (simp add: max_def)
    then have "(of_int (7 * n) :: rat) \<le> of_int (8 * max 9 (n - 1))" by (simp only: of_int_le_iff)
    then show ?thesis by (simp del: of_int_max)
  qed (use assms(1) in \<open>simp add: max_def\<close>)
  finally have le: "of_int n * c \<le> of_int (max 9 (n - 1))" .
  have "rnd (of_int (max 9 (n - 1))) = Fin (of_int (max 9 (n - 1)))" using assms(2) by (intro rnd_int) auto
  from rnd_between [OF rnd_0 this _ le] c(2) assms(1) obtain t where t: "rnd (of_int n * c) = Fin t" "0 \<le> t" "t \<le> of_int (max 9 (n - 1))" by auto
  have "\<lfloor>t\<rfloor> \<le> max 9 (n - 1)" using t(3) by linarith
  moreover have "0 \<le> \<lfloor>t\<rfloor>" using t(2) by simp
  moreover from calculation(1) have "\<lfloor>t\<rfloor> < 2 ^ 63" by (rule le_less_trans) (use assms(2) in simp)
  ultimately show "f64_to_int64 conv (f64_mul (f64_of_int n) (rnd (8 / 10))) \<le> max 9 (n - 1)"
    "0 \<le> f64_to_int64 conv (f64_mul (f64_of_int n) (rnd (8 / 10)))"
    using t(2) unfolding n c(1) f64_mul.simps t(1) by (simp_all add: rat_trunc_def)
qed

lemma adjust_low:
  fixes conv
  assumes "low_rate (ef_successRate ef)" "0 < ef_batchSize ef" "ef_batchSize ef \<le> 2 ^ 53"
  defines "ef' \<equiv> EventFlowManager_adjustBatchSize conv ef"
  shows "ef_successRate ef' = ef_successRate ef" "10 \<le> ef_batchSize ef'" "ef_batchSize ef' \<le> max 10 (ef_batchSize ef - 1)"
  using low_rate_low [OF assms(1)] shrink_size [OF assms(2,3), of conv]
  by (auto simp: ef'_def EventFlowManager_adjustBatchSize_def Let_def)

lemma adjust_low_iter:
  assumes "low_rate (ef_successRate ef)" "0 < ef_batchSize ef" "ef_batchSize ef \<le> 2 ^ 53"
  shows "low_rate (ef_successRate ((EventFlowManager_adjustBatchSize conv ^^ k) ef)) \<and>
    0 < ef_batchSize ((EventFlowManager_adjustBatchSize conv ^^ k) ef) \<and>
    (0 < k \<longrightarrow> 10 \<le> ef_batchSize ((EventFlowManager_adjustBatchSize conv ^^ k) ef)) \<and>
    ef_batchSize ((EventFlowManager_adjustBatchSize conv ^^ k) ef) \<le> max 10 (ef_batchSize ef - int k)"
proof (induction k)
  case (Suc k)
  then have "ef_batchSize ((EventFlowManager_adjustBatchSize conv ^^ k) ef) \<le> 2 ^ 53" using assms(3) by auto
  from adjust_low [OF _ _ this, of conv] Suc show ?case by auto
qed (use assms in auto)

lemma idle_rounds_low:
  assumes "ef_successRate ef = Fin q" "0 \<le> q" "q \<le> 1" "4 \<le> n"
  shows "low_rate (ef_successRate ((update_flow_metrics t 0 0 0 ^^ n) ef))"
proof -
  have "low_rate (ef_successRate ((update_flow_metrics t 0 0 0 ^^ (4 + k)) ef))" for k
    by (induction k) (use four_idle_rounds [OF assms(1-3)] in \<open>simp_all add: numeral_eq_Suc low_rate_idle\<close>)
  from this [of "n - 4"] show ?thesis using assms(4) by simp
qed

text \<open>A node with nothing to do ends up with the smallest batches: the worker counts a round without pending events as a
  round in which no event was finalized, so after four idle rounds the success rate is below 0.7, and from then on the
  adaptation shrinks the batch size in every step until it is ten, where it stays.\<close>

theorem idle_node_shrinks_batches:
  assumes "ef_successRate ef = Fin q" "0 \<le> q" "q \<le> 1" and "0 < ef_batchSize ef" "ef_batchSize ef \<le> 2 ^ 53"
    and "4 \<le> n" and "ef_batchSize ef \<le> int k"
  shows "ef_batchSize ((EventFlowManager_adjustBatchSize conv ^^ k) ((update_flow_metrics t 0 0 0 ^^ n) ef)) = 10"
proof -
  have b: "ef_batchSize ((update_flow_metrics t 0 0 0 ^^ m) ef) = ef_batchSize ef" for m by (induction m) simp_all
  show ?thesis using adjust_low_iter [OF idle_rounds_low [OF assms(1-3,6), of t], where conv = conv and k = k] assms(4,5,7) unfolding b by auto
qed

theorem idle_node_shrinks_batches_witness:
  "ef_batchSize ((EventFlowManager_adjustBatchSize (\<lambda>_. 0) ^^ 100) ((update_flow_metrics 1 0 0 0 ^^ 4) NewEventFlowManager)) = 10"
  by (rule idle_node_shrinks_batches [of _ 1]) (simp_all add: NewEventFlowManager_def)

section \<open>Housekeeping\<close>

lemma cleanup_event_fields:
  "ef_pendingEvents (snd (cleanup_event s r st)) = ef_pendingEvents (snd st)"
  "ef_eventsByHeight (snd (cleanup_event s r st)) = ef_eventsByHeight (snd st)"
  by (simp_all add: cleanup_event_def Let_def split: prod.splits)

lemma cleanup_events_fields:
  "ef_pendingEvents (snd (fold (cleanup_event s) rs st)) = ef_pendingEvents (snd st)"
  "ef_eventsByHeight (snd (fold (cleanup_event s) rs st)) = ef_eventsByHeight (snd st)"
  by (induction rs arbitrary: st) (simp_all add: cleanup_event_fields)

lemma cleanup_height_fields:
  "ef_pendingEvents (snd (cleanup_height s h st)) = ef_pendingEvents (snd st)"
  "ef_eventsByHeight (snd (cleanup_height s h st)) = (ef_eventsByHeight (snd st))(h := None)"
  using cleanup_events_fields [of s "the (ef_eventsByHeight (snd st) h)" st]
  by (auto simp: cleanup_height_def split: option.splits prod.splits)

text \<open>\<open>CleanupOldEvents\<close> removes whole heights from the index, with the events that are still pending there: they stay
  pending, but no query by height finds them any more.\<close>

lemma cleanup_forgets_pending:
  fixes hc m
  defines "hc' \<equiv> snd (EventFlowManager_CleanupOldEvents m hc)"
  shows "ef_pendingEvents (hc_eventFlow hc') = ef_pendingEvents (hc_eventFlow hc)"
    and "EventFlowManager_GetEventsByHeight h (hc_eventFlow hc') = (if h < m then [] else EventFlowManager_GetEventsByHeight h (hc_eventFlow hc))"
proof -
  have f: "ef_pendingEvents (snd (fold (cleanup_height s) hs st)) = ef_pendingEvents (snd st) \<and>
      ef_eventsByHeight (snd (fold (cleanup_height s) hs st)) h = (if h \<in> set hs then None else ef_eventsByHeight (snd st) h)" for s hs st h
    by (induction hs arbitrary: st) (auto simp: cleanup_height_fields)
  have "h \<in> set (map word_of_nat [0..<unat m]) \<longleftrightarrow> h < m"
  proof
    assume "h < m"
    then have "unat h \<in> set [0..<unat m]" "h = word_of_nat (unat h)" by (simp_all add: word_less_nat_alt)
    then show "h \<in> set (map word_of_nat [0..<unat m])" unfolding set_map by (rule rev_image_eqI)
  next
    assume "h \<in> set (map word_of_nat [0..<unat m])"
    then obtain k where "h = word_of_nat k" "k < unat m" by auto
    then show "h < m" by (simp add: word_less_nat_alt unsigned_of_nat) (meson le_less_trans take_bit_nat_less_eq_self)
  qed
  with f [of "hc_store hc" "map word_of_nat [0..<unat m]" "(0, hc_eventFlow hc)"]
  show "ef_pendingEvents (hc_eventFlow hc') = ef_pendingEvents (hc_eventFlow hc)"
    "EventFlowManager_GetEventsByHeight h (hc_eventFlow hc') = (if h < m then [] else EventFlowManager_GetEventsByHeight h (hc_eventFlow hc))"
    by (auto simp: hc'_def EventFlowManager_CleanupOldEvents_def EventFlowManager_GetEventsByHeight_def split: prod.splits)
qed

text \<open>\<open>EnableAdaptiveBatching\<close> stores the new value before it looks at the old one, so it never starts the worker.\<close>

lemma adaptive_worker_never_started: "\<not> fst (EventFlowManager_EnableAdaptiveBatching enable ef)"
  by (simp add: EventFlowManager_EnableAdaptiveBatching_def Let_def)

end
