(* ===== verification/RecoveryTheory.thy ===== *)
theory RecoveryTheory
  imports EventFlowRuns
begin

text \<open>
  Recovery: \<open>consensus/recovery_manager.go\<close> and the operations of \<open>consensus/diamantehybrid.go\<close> it calls, which are \<open>Start\<close>,
  \<open>Stop\<close>, \<open>getLastCheckpoint\<close>, \<open>recoverFromError\<close> and \<open>verifySystemConsistency\<close>.

  An operation of the consensus may return, panic, or wait for ever for a mutex that is never released: \<open>outcome\<close>. Errors that
  are only logged are values of small datatypes that say where they came from. \<open>Start\<close> says with its result whether it has started the
  goroutines of the consensus. \<open>time.Sleep\<close>, the log and \<open>collectMetrics\<close>, which only logs, are left out, and the profiler,
  which cannot fail to start as the consensus configures it.
\<close>

section \<open>Outcomes\<close>

datatype 'a outcome = Returns 'a HybridConsensus | Panics | Blocks HybridConsensus

fun obind :: "'a outcome \<Rightarrow> ('a \<Rightarrow> HybridConsensus \<Rightarrow> 'b outcome) \<Rightarrow> 'b outcome" where
  "obind (Returns x hc) f = f x hc"
| "obind Panics f = Panics"
| "obind (Blocks hc) f = Blocks hc"

section \<open>Settings and counters\<close>

definition RecoveryManager_SetRecoveryStrategy :: "ConsensusErrorCode \<Rightarrow> RecoveryStrategy \<Rightarrow> RecoveryManager \<Rightarrow> RecoveryManager" where
  "RecoveryManager_SetRecoveryStrategy code strategy rm = rm\<lparr>rm_recoveryStrategies := (rm_recoveryStrategies rm)(code \<mapsto> strategy)\<rparr>"

definition RecoveryManager_GetRecoveryStrategy :: "ConsensusErrorCode \<Rightarrow> RecoveryManager \<Rightarrow> RecoveryStrategy" where
  "RecoveryManager_GetRecoveryStrategy code rm =
     (case rm_recoveryStrategies rm code of Some strategy \<Rightarrow> strategy | None \<Rightarrow> RecoveryStrategyNone)"

definition RecoveryManager_SetMaxRecoveryAttempts :: "int \<Rightarrow> RecoveryManager \<Rightarrow> RecoveryManager" where
  "RecoveryManager_SetMaxRecoveryAttempts n rm = (if n > 0 then rm\<lparr>rm_maxRecoveryAttempts := n\<rparr> else rm)"

definition RecoveryManager_SetRecoveryBackoff :: "duration \<Rightarrow> RecoveryManager \<Rightarrow> RecoveryManager" where
  "RecoveryManager_SetRecoveryBackoff backoff rm = (if backoff > 0 then rm\<lparr>rm_recoveryBackoff := backoff\<rparr> else rm)"

definition RecoveryManager_SetCircuitBreakerDuration :: "duration \<Rightarrow> RecoveryManager \<Rightarrow> RecoveryManager" where
  "RecoveryManager_SetCircuitBreakerDuration d rm = (if d > 0 then rm\<lparr>rm_circuitBreakerDuration := d\<rparr> else rm)"

definition RecoveryManager_EnableAutomaticRecovery :: "bool \<Rightarrow> RecoveryManager \<Rightarrow> RecoveryManager" where
  "RecoveryManager_EnableAutomaticRecovery enable rm = rm\<lparr>rm_enableAutomaticRecovery := enable\<rparr>"

definition RecoveryManager_isCircuitBreakerActive :: "int \<Rightarrow> ConsensusErrorCode \<Rightarrow> RecoveryManager \<Rightarrow> bool \<times> RecoveryManager" where
  "RecoveryManager_isCircuitBreakerActive now code rm =
     (case rm_circuitBreakers rm code of
        Some openTime \<Rightarrow>
          if now - openTime < rm_circuitBreakerDuration rm then (True, rm)
          else (False, rm\<lparr>rm_circuitBreakers := (rm_circuitBreakers rm)(code := None)\<rparr>)
      | None \<Rightarrow> (False, rm))"

definition RecoveryManager_activateCircuitBreaker :: "int \<Rightarrow> ConsensusErrorCode \<Rightarrow> RecoveryManager \<Rightarrow> RecoveryManager" where
  "RecoveryManager_activateCircuitBreaker now code rm = rm\<lparr>rm_circuitBreakers := (rm_circuitBreakers rm)(code \<mapsto> now)\<rparr>"

definition RecoveryManager_getRecoveryAttempts :: "ConsensusErrorCode \<Rightarrow> RecoveryManager \<Rightarrow> int" where
  "RecoveryManager_getRecoveryAttempts code rm = (case rm_recoveryAttempts rm code of None \<Rightarrow> 0 | Some n \<Rightarrow> n)"

definition RecoveryManager_incrementRecoveryAttempts :: "ConsensusErrorCode \<Rightarrow> RecoveryManager \<Rightarrow> RecoveryManager" where
  "RecoveryManager_incrementRecoveryAttempts code rm =
     rm\<lparr>rm_recoveryAttempts := (rm_recoveryAttempts rm)(code \<mapsto> RecoveryManager_getRecoveryAttempts code rm + 1)\<rparr>"

definition RecoveryManager_resetRecoveryAttempts :: "ConsensusErrorCode \<Rightarrow> RecoveryManager \<Rightarrow> RecoveryManager" where
  "RecoveryManager_resetRecoveryAttempts code rm = rm\<lparr>rm_recoveryAttempts := (rm_recoveryAttempts rm)(code := None)\<rparr>"

definition RecoveryManager_ResetCircuitBreakers :: "RecoveryManager \<Rightarrow> RecoveryManager" where
  "RecoveryManager_ResetCircuitBreakers rm = rm\<lparr>rm_circuitBreakers := Map.empty\<rparr>"

definition RecoveryManager_ResetRecoveryAttempts :: "RecoveryManager \<Rightarrow> RecoveryManager" where
  "RecoveryManager_ResetRecoveryAttempts rm = rm\<lparr>rm_recoveryAttempts := Map.empty\<rparr>"

text \<open>The status of a breaker that is active: when it was opened and the text of the time that remains. \<open>now\<close> is the clock
  when the status of a code is read, \<open>order\<close> the order of the range.\<close>

definition RecoveryManager_GetCircuitBreakerStatus ::
    "(ConsensusErrorCode \<Rightarrow> int) \<Rightarrow> ConsensusErrorCode list \<Rightarrow> RecoveryManager \<Rightarrow> string \<rightharpoonup> int \<times> string" where
  "RecoveryManager_GetCircuitBreakerStatus now order rm =
     fold (\<lambda>code status.
         let openTime = the (rm_circuitBreakers rm code); timeRemaining = rm_circuitBreakerDuration rm - (now code - openTime)
         in if timeRemaining > 0 then status(ConsensusErrorCode_String code \<mapsto> (openTime, Duration_String timeRemaining)) else status)
       order Map.empty"

definition RecoveryManager_GetRecoveryAttemptStatus :: "ConsensusErrorCode list \<Rightarrow> RecoveryManager \<Rightarrow> string \<rightharpoonup> int" where
  "RecoveryManager_GetRecoveryAttemptStatus order rm =
     fold (\<lambda>code status. status(ConsensusErrorCode_String code \<mapsto> the (rm_recoveryAttempts rm code))) order Map.empty"

section \<open>Start and stop\<close>

datatype start_error = AlreadyRunning | StartLachesis lachesis_error | StartEventFlow string | StartBatchProcessor string

definition start_modules :: "HybridConsensus \<Rightarrow> start_error option \<times> HybridConsensus" where
  "start_modules hc =
     (case Lachesis_Start (hc_lachesis hc) of
        (Some e, l) \<Rightarrow> (Some (StartLachesis e), set_lachesis l hc)
      | (None, l) \<Rightarrow>
          (let hc1 = set_lachesis l hc in
           case EventFlowManager_Start (hc_eventFlow hc1) of
             (Some e, ef) \<Rightarrow> (Some (StartEventFlow e), hc1\<lparr>hc_eventFlow := ef\<rparr>)
           | (None, ef) \<Rightarrow>
               (let hc2 = hc1\<lparr>hc_eventFlow := ef\<rparr> in
                case BatchProcessor_Start (hc_batchProcessor hc2) of
                  (Some e, bp) \<Rightarrow> (Some (StartBatchProcessor e), hc2\<lparr>hc_batchProcessor := bp\<rparr>)
                | (None, bp) \<Rightarrow> (None, hc2\<lparr>hc_batchProcessor := bp\<rparr>))))"

definition HybridConsensus_Start :: "HybridConsensus \<Rightarrow> (start_error option \<times> bool) \<times> HybridConsensus" where
  "HybridConsensus_Start hc =
     (if hc_running hc then ((Some AlreadyRunning, False), hc)
      else
        let hc1 = hc\<lparr>hc_running := True\<rparr> in
        if hc_startOnce hc1 then ((None, False), hc1)
        else (case start_modules (hc1\<lparr>hc_startOnce := True\<rparr>) of (err, hc2) \<Rightarrow> ((err, err = None), hc2)))"

datatype stop_error = NotRunning | StopTimeout

text \<open>The errors of the modules are only logged. \<open>timedOut\<close> says that the goroutines did not stop in time.\<close>

definition HybridConsensus_Stop :: "bool \<Rightarrow> HybridConsensus \<Rightarrow> stop_error option \<times> HybridConsensus" where
  "HybridConsensus_Stop timedOut hc =
     (if \<not> hc_running hc then (Some NotRunning, hc)
      else if hc_stopOnce hc then (None, hc)
      else
        let hc1 = hc\<lparr>hc_stopOnce := True, hc_running := False\<rparr>;
            hc2 = set_lachesis (snd (Lachesis_Stop (hc_lachesis hc1))) hc1;
            hc3 = hc2\<lparr>hc_eventFlow := snd (EventFlowManager_Stop (hc_eventFlow hc2))\<rparr>;
            hc4 = hc3\<lparr>hc_batchProcessor := snd (BatchProcessor_Stop (hc_batchProcessor hc3))\<rparr>
        in (if timedOut then Some StopTimeout else None, hc4))"

section \<open>Recovery from a checkpoint\<close>

definition HybridConsensus_getLastCheckpoint :: "HybridConsensus \<Rightarrow> Checkpoint option outcome" where
  "HybridConsensus_getLastCheckpoint hc =
     (if hc_checkpointsLocked hc then Blocks hc else Returns (hc_checkpoints hc (hc_lastCheckpoint hc)) hc)"

datatype consistency_error = CountBehindHeight uint64 uint64 | ValidatorSetMismatch nat nat | NothingFinalized

text \<open>The difference of the two lengths is compared with one as a float; the conversion of a whole number to a float does not
  change the answer. \<open>order\<close> is the order of the range over the nodes. The check of the last checkpoint only logs.\<close>

definition HybridConsensus_verifySystemConsistency :: "hash32 list \<Rightarrow> HybridConsensus \<Rightarrow> consistency_error option" where
  "HybridConsensus_verifySystemConsistency order hc =
     (let blockHeight = HybridConsensus_GetLastBlockHeight hc; pohCount = PoH_GetCount (hc_poh hc);
          vals = length (ValidatorManager_GetActiveValidators (hc_validators hc)); nodes = length (Lachesis_GetActiveNodes order (hc_lachesis hc)) in
      if pohCount < blockHeight then Some (CountBehindHeight pohCount blockHeight)
      else if \<bar>int vals - int nodes\<bar> > 1 then Some (ValidatorSetMismatch vals nodes)
      else if blockHeight > 0 \<and> hc_lastFinalizedHeight hc = 0 then Some NothingFinalized
      else None)"

datatype recover_error =
  NoCheckpoint | RestoreLachesisFailed lachesis_error | RestoreDPoSFailed dpos_error | SynchronizeFailed poh_error
| Inconsistent consistency_error

text \<open>What a recovery reads: the orders of the ranges while the current state is saved, the readings of the clock for the two
  synchronizations, and the order of the range over the nodes.\<close>

record RecoverEnv =
  re_save :: SaveOrders
  re_dpos :: "hash32 list"
  re_sync :: int
  re_rollback :: int
  re_nodes :: "hash32 list"

definition set_dpos :: "DPoS \<Rightarrow> HybridConsensus \<Rightarrow> HybridConsensus" where
  "set_dpos d hc = hc\<lparr>hc_vm := (hc_vm hc)\<lparr>st_dpos := d\<rparr>\<rparr>"

definition restore_modules :: "RecoverEnv \<Rightarrow> Checkpoint \<Rightarrow> HybridConsensus \<Rightarrow> recover_error option \<times> HybridConsensus" where
  "restore_modules env ck hc =
     (case Lachesis_RestoreState (Some (ck_LachesisState ck)) (hc_lachesis hc) of
        (Some e, l) \<Rightarrow> (Some (RestoreLachesisFailed e), set_lachesis l hc)
      | (None, l) \<Rightarrow>
          (let hc1 = set_lachesis l hc in
           case DPoS_RestoreState (Some (ck_DPoSState ck)) (hc_dpos hc1) of
             (Some e, d) \<Rightarrow> (Some (RestoreDPoSFailed e), set_dpos d hc1)
           | (None, d) \<Rightarrow>
               (let hc2 = set_dpos d hc1 in
                case PoH_Synchronize (re_sync env) (ck_PoHState ck) (ck_PoHCount ck) (hc_poh hc2) of
                  (Some e, p) \<Rightarrow> (Some (SynchronizeFailed e), hc2\<lparr>hc_poh := p\<rparr>)
                | (None, p) \<Rightarrow> (None, hc2\<lparr>hc_poh := p\<rparr>))))"

definition rollback_modules ::
    "RecoverEnv \<Rightarrow> lachesis_error + LachesisJSON \<Rightarrow> dpos_error + DPoS_state \<Rightarrow> hash32 \<Rightarrow> uint64 \<Rightarrow> HybridConsensus \<Rightarrow> HybridConsensus" where
  "rollback_modules env lachState dposState pohState pohCount hc =
     (let hc1 = (case lachState of Inl _ \<Rightarrow> hc | Inr s \<Rightarrow> set_lachesis (snd (Lachesis_RestoreState (Some s) (hc_lachesis hc))) hc);
          hc2 = (case dposState of Inl _ \<Rightarrow> hc1 | Inr s \<Rightarrow> set_dpos (snd (DPoS_RestoreState (Some s) (hc_dpos hc1))) hc1)
      in hc2\<lparr>hc_poh := snd (PoH_Synchronize (re_rollback env) pohState pohCount (hc_poh hc2))\<rparr>)"

definition HybridConsensus_recoverFromError :: "RecoverEnv \<Rightarrow> HybridConsensus \<Rightarrow> recover_error option outcome" where
  "HybridConsensus_recoverFromError env hc =
     obind (HybridConsensus_getLastCheckpoint hc) (\<lambda>ck hc.
       case ck of
         None \<Rightarrow> Returns (Some NoCheckpoint) hc
       | Some ck \<Rightarrow>
           let lachState = Lachesis_GetState (re_save env) (hc_lachesis hc); dposState = DPoS_GetState (re_dpos env) (hc_dpos hc);
               pohState = PoH_GetState (hc_poh hc); pohCount = PoH_GetCount (hc_poh hc) in
           case restore_modules env ck hc of
             (Some e, hc1) \<Rightarrow> Returns (Some e) (rollback_modules env lachState dposState pohState pohCount hc1)
           | (None, hc1) \<Rightarrow>
               let hc2 = HybridConsensus_SetLastBlockHeight (ck_BlockNumber ck) hc1
               in Returns (map_option Inconsistent (HybridConsensus_verifySystemConsistency (re_nodes env) hc2)) hc2)"

section \<open>Strategies\<close>

datatype recovery_failure =
  NoCheckpointYet | RecoverFailed recover_error | StopFailed stop_error | StartFailed start_error | ManualIntervention
| UnknownStrategy RecoveryStrategy

text \<open>What \<open>HandleError\<close> reads: the clock for a wrapped error, for the check of the breaker and for its activation, and what the
  strategies need.\<close>

record HandleEnv =
  hn_wrap :: int
  hn_check :: int
  hn_activate :: int
  hn_recover :: RecoverEnv
  hn_timedOut :: bool

definition RecoveryManager_applyRetryStrategy :: "HybridConsensus \<Rightarrow> recovery_failure option outcome" where
  "RecoveryManager_applyRetryStrategy hc = Returns None hc"

definition RecoveryManager_applyCheckpointStrategy :: "HandleEnv \<Rightarrow> HybridConsensus \<Rightarrow> recovery_failure option outcome" where
  "RecoveryManager_applyCheckpointStrategy env hc =
     (if hc_lastCheckpoint hc = 0 then Returns (Some NoCheckpointYet) hc
      else obind (HybridConsensus_recoverFromError (hn_recover env) hc) (\<lambda>err hc. Returns (map_option RecoverFailed err) hc))"

definition RecoveryManager_applyResetStrategy :: "HandleEnv \<Rightarrow> HybridConsensus \<Rightarrow> recovery_failure option outcome" where
  "RecoveryManager_applyResetStrategy env hc =
     (case HybridConsensus_Stop (hn_timedOut env) hc of
        (Some e, hc1) \<Rightarrow> Returns (Some (StopFailed e)) hc1
      | (None, hc1) \<Rightarrow>
          (case HybridConsensus_Start (hc1\<lparr>hc_lastBlockHeight := 0, hc_lastFinalizedHeight := 0\<rparr>) of
             ((err, _), hc2) \<Rightarrow> Returns (map_option StartFailed err) hc2))"

definition RecoveryManager_applyRestartStrategy :: "HandleEnv \<Rightarrow> HybridConsensus \<Rightarrow> recovery_failure option outcome" where
  "RecoveryManager_applyRestartStrategy env hc =
     (case HybridConsensus_Stop (hn_timedOut env) hc of
        (Some e, hc1) \<Rightarrow> Returns (Some (StopFailed e)) hc1
      | (None, hc1) \<Rightarrow> (case HybridConsensus_Start hc1 of ((err, _), hc2) \<Rightarrow> Returns (map_option StartFailed err) hc2))"

definition RecoveryManager_applyManualStrategy :: "HybridConsensus \<Rightarrow> recovery_failure option outcome" where
  "RecoveryManager_applyManualStrategy hc = Returns (Some ManualIntervention) hc"

definition apply_strategy :: "HandleEnv \<Rightarrow> RecoveryStrategy \<Rightarrow> HybridConsensus \<Rightarrow> recovery_failure option outcome" where
  "apply_strategy env strategy hc =
     (if strategy = RecoveryStrategyRetry then RecoveryManager_applyRetryStrategy hc
      else if strategy = RecoveryStrategyCheckpoint then RecoveryManager_applyCheckpointStrategy env hc
      else if strategy = RecoveryStrategyReset then RecoveryManager_applyResetStrategy env hc
      else if strategy = RecoveryStrategyRestart then RecoveryManager_applyRestartStrategy env hc
      else if strategy = RecoveryStrategyManual then RecoveryManager_applyManualStrategy hc
      else Returns (Some (UnknownStrategy strategy)) hc)"

text \<open>The result is the error if it was not recovered from.\<close>

definition RecoveryManager_HandleError :: "HandleEnv \<Rightarrow> go_error option \<Rightarrow> HybridConsensus \<Rightarrow> ConsensusError option outcome" where
  "RecoveryManager_HandleError env err hc =
     (case err of
        None \<Rightarrow> Returns None hc
      | Some ge \<Rightarrow>
          let cerr = (case ge of CErr e \<Rightarrow> e | PlainErr _ \<Rightarrow> WrapError (hn_wrap env) err ErrUnknown ErrorCategoryTemporary ''Unknown error'');
              code = ce_Code cerr in
          case RecoveryManager_isCircuitBreakerActive (hn_check env) code (hc_recoveryManager hc) of
            (True, rm) \<Rightarrow> Returns (Some cerr) (hc\<lparr>hc_recoveryManager := rm\<rparr>)
          | (False, rm) \<Rightarrow>
              let hc1 = hc\<lparr>hc_recoveryManager := rm\<rparr>; strategy = RecoveryManager_GetRecoveryStrategy code rm in
              if strategy = RecoveryStrategyNone \<or> \<not> rm_enableAutomaticRecovery rm then Returns (Some cerr) hc1
              else if RecoveryManager_getRecoveryAttempts code rm \<ge> rm_maxRecoveryAttempts rm
              then Returns (Some cerr) (update_rm (RecoveryManager_activateCircuitBreaker (hn_activate env) code) hc1)
              else obind (apply_strategy env strategy (update_rm (RecoveryManager_incrementRecoveryAttempts code) hc1))
                     (\<lambda>failure hc2. Returns (if failure = None then None else Some cerr) hc2))"

section \<open>A restarted consensus does nothing\<close>

lemma stop_fields:
  assumes "hc_running hc" and "\<not> hc_stopOnce hc"
  shows "HybridConsensus_Stop t hc = (if t then Some StopTimeout else None, hc\<lparr>hc_stopOnce := True, hc_running := False,
    hc_vm := (hc_vm hc)\<lparr>st_lachesis := snd (Lachesis_Stop (hc_lachesis hc))\<rparr>, hc_eventFlow := (hc_eventFlow hc)\<lparr>ef_cancelled := True\<rparr>,
    hc_batchProcessor := snd (BatchProcessor_Stop (hc_batchProcessor hc))\<rparr>)"
  using assms by (simp add: HybridConsensus_Stop_def Let_def set_lachesis_def EventFlowManager_Stop_def)

text \<open>A consensus that has been started and stopped cannot be started again. \<open>Start\<close> then reports success and the consensus
  says that it is running, but no goroutine is started, the event module and the batch processor stay stopped and the event
  flow stays cancelled; and a second \<open>Stop\<close> reports success and changes nothing, so the consensus says for ever that it is running.\<close>

theorem restart_is_dead:
  assumes "hc_running hc" and "hc_startOnce hc" and "\<not> hc_stopOnce hc"
  shows "\<exists>hc1 hc2. HybridConsensus_Stop False hc = (None, hc1) \<and> HybridConsensus_Start hc1 = ((None, False), hc2) \<and>
    HybridConsensus_IsRunning hc2 \<and> \<not> l_running (hc_lachesis hc2) \<and> \<not> bp_isProcessing (hc_batchProcessor hc2) \<and>
    ef_cancelled (hc_eventFlow hc2) \<and> (\<forall>t. HybridConsensus_Stop t hc2 = (None, hc2))"
proof -
  have l: "\<not> l_running (snd (Lachesis_Stop l))" for l by (simp add: Lachesis_Stop_def)
  have b: "\<not> bp_isProcessing (snd (BatchProcessor_Stop bp))" for bp by (simp add: BatchProcessor_Stop_def)
  obtain hc1 where S: "HybridConsensus_Stop False hc = (None, hc1)" and f: "hc_stopOnce hc1" "\<not> hc_running hc1" "hc_startOnce hc1"
      "\<not> l_running (hc_lachesis hc1)" "\<not> bp_isProcessing (hc_batchProcessor hc1)" "ef_cancelled (hc_eventFlow hc1)"
    using assms(2) l b by (simp add: stop_fields [OF assms(1,3)])
  have "HybridConsensus_Start hc1 = ((None, False), hc1\<lparr>hc_running := True\<rparr>)" using f(2,3) by (simp add: HybridConsensus_Start_def Let_def)
  then show ?thesis using S f by (intro exI conjI) (assumption | simp add: HybridConsensus_IsRunning_def HybridConsensus_Stop_def)+
qed

definition started_example :: HybridConsensus where
  "started_example = snd (HybridConsensus_Start hybrid_example)"

lemma hybrid_example_flags:
  "\<not> hc_running hybrid_example" "\<not> hc_startOnce hybrid_example" "\<not> hc_stopOnce hybrid_example" "hc_lastBlockHeight hybrid_example = 0"
  "\<not> hc_checkpointsLocked hybrid_example" "hc_recoveryManager hybrid_example = NewRecoveryManager" "hc_lastFinalizedHeight hybrid_example = 0"
  unfolding hybrid_example_def NewHybridConsensusWithConfig_def DefaultConfig_valid by (simp_all add: Let_def)

theorem restart_is_dead_witness:
  "\<exists>hc1 hc2. HybridConsensus_Stop False started_example = (None, hc1) \<and> HybridConsensus_Start hc1 = ((None, False), hc2) \<and>
     HybridConsensus_IsRunning hc2"
proof -
  have "hc_running started_example" "hc_startOnce started_example" "\<not> hc_stopOnce started_example"
    using hybrid_example_flags
    by (simp_all add: started_example_def HybridConsensus_Start_def start_modules_def Let_def set_lachesis_def split: prod.splits option.splits)
  from restart_is_dead [OF this] show ?thesis by blast
qed

section \<open>Recovery from a checkpoint\<close>

lemma restore_frame:
  assumes "restore_modules env ck hc = (e, hc')"
  shows "hc_validators hc' = hc_validators hc" "hc_lastBlockHeight hc' = hc_lastBlockHeight hc" "hc_eventFlow hc' = hc_eventFlow hc"
    "hc_pendingEvents hc' = hc_pendingEvents hc" "hc_checkpoints hc' = hc_checkpoints hc" "hc_running hc' = hc_running hc"
    "hc_recoveryManager hc' = hc_recoveryManager hc" "hc_checkpointsLocked hc' = hc_checkpointsLocked hc"
    "hc_cfg hc' = hc_cfg hc" "hc_finalizedEvents hc' = hc_finalizedEvents hc" "hc_batchProcessor hc' = hc_batchProcessor hc"
    "hc_lastCheckpoint hc' = hc_lastCheckpoint hc" "hc_checkpointInterval hc' = hc_checkpointInterval hc"
  using assms by (auto simp: restore_modules_def Let_def set_lachesis_def set_dpos_def split: prod.splits option.splits)

lemma restore_poh:
  assumes "restore_modules env ck hc = (e, hc')" and "ck_PoHCount ck < poh_count (hc_poh hc)"
  shows "e \<noteq> None" "hc_poh hc' = hc_poh hc"
  using assms by (auto simp: restore_modules_def Let_def set_lachesis_def set_dpos_def PoH_Synchronize_def split: prod.splits option.splits)

lemma rollback_frame:
  fixes env l d s c hc
  defines "hc' \<equiv> rollback_modules env l d s c hc"
  shows "hc_validators hc' = hc_validators hc" "hc_lastBlockHeight hc' = hc_lastBlockHeight hc" "hc_eventFlow hc' = hc_eventFlow hc"
    "hc_pendingEvents hc' = hc_pendingEvents hc" "hc_checkpoints hc' = hc_checkpoints hc" "hc_running hc' = hc_running hc"
    "hc_recoveryManager hc' = hc_recoveryManager hc" "hc_checkpointsLocked hc' = hc_checkpointsLocked hc"
    "hc_cfg hc' = hc_cfg hc" "hc_finalizedEvents hc' = hc_finalizedEvents hc" "hc_batchProcessor hc' = hc_batchProcessor hc"
    "hc_lastCheckpoint hc' = hc_lastCheckpoint hc" "hc_checkpointInterval hc' = hc_checkpointInterval hc"
    "hc_poh hc' = snd (PoH_Synchronize (re_rollback env) s c (hc_poh hc))"
  by (simp_all add: hc'_def rollback_modules_def Let_def set_lachesis_def set_dpos_def split: sum.splits)

lemma restore_slash_log: "dp_slashLog (snd (DPoS_RestoreState s d)) = dp_slashLog d"
  by (simp add: DPoS_RestoreState_def Let_def split: option.split sum.split prod.split)

text \<open>A restore that fails has put other states into Lachesis and DPoS, whole or in part; the parts that a restore never touches are as before.\<close>

lemma restore_untouched:
  assumes "restore_modules env ck hc = (e, hc')"
  shows "lachesis_unsaved (hc_lachesis hc') = lachesis_unsaved (hc_lachesis hc)" "dp_slashLog (hc_dpos hc') = dp_slashLog (hc_dpos hc)"
proof -
  obtain e1 l where l: "Lachesis_RestoreState (Some (ck_LachesisState ck)) (hc_lachesis hc) = (e1, l)" by (metis surj_pair)
  obtain e2 d where d: "DPoS_RestoreState (Some (ck_DPoSState ck)) (hc_dpos hc) = (e2, d)" by (metis surj_pair)
  have "lachesis_unsaved l = lachesis_unsaved (hc_lachesis hc)" "dp_slashLog d = dp_slashLog (hc_dpos hc)"
    using restore_unsaved [of "Some (ck_LachesisState ck)" "hc_lachesis hc"] restore_slash_log [of "Some (ck_DPoSState ck)" "hc_dpos hc"] l d by simp_all
  then show "lachesis_unsaved (hc_lachesis hc') = lachesis_unsaved (hc_lachesis hc)" "dp_slashLog (hc_dpos hc') = dp_slashLog (hc_dpos hc)"
    using assms l d by (auto simp: restore_modules_def Let_def set_lachesis_def set_dpos_def split: prod.splits option.splits)
qed

text \<open>Rolling back to the states saved before the restore brings both modules back.\<close>

lemma rollback_restores:
  assumes l: "save_orders so (hc_lachesis hc)" "lists_known (hc_lachesis hc)" "voting_reachable (l_VirtualVoting (hc_lachesis hc))"
      "Lachesis_GetState so (hc_lachesis hc) = Inr ls" "lachesis_unsaved (hc_lachesis hc1) = lachesis_unsaved (hc_lachesis hc)"
    and d: "dpos_reachable (hc_dpos hc)" "range_order (dp_validators (hc_dpos hc)) order" "DPoS_GetState order (hc_dpos hc) = Inr ds"
      "dp_slashLog (hc_dpos hc1) = dp_slashLog (hc_dpos hc)"
  shows "lachesis_view (hc_lachesis (rollback_modules env (Inr ls) (Inr ds) s c hc1)) = lachesis_view (hc_lachesis hc)"
    and "lachesis_unsaved (hc_lachesis (rollback_modules env (Inr ls) (Inr ds) s c hc1)) = lachesis_unsaved (hc_lachesis hc)"
    and "hc_dpos (rollback_modules env (Inr ls) (Inr ds) s c hc1) =
      (hc_dpos hc)\<lparr>dp_validators := map_option restored \<circ> dp_validators (hc_dpos hc)\<rparr>"
proof -
  obtain l1 where l1: "Lachesis_RestoreState (Some ls) (hc_lachesis hc1) = (None, l1)" "lachesis_view l1 = lachesis_view (hc_lachesis hc)"
      "lachesis_unsaved l1 = lachesis_unsaved (hc_lachesis hc)"
    using lachesis_restore_saved [OF l(1-4), of "hc_lachesis hc1"] l(5) by auto
  have d1: "DPoS_RestoreState (Some ds) (hc_dpos hc1) = (None, (hc_dpos hc)\<lparr>dp_validators := map_option restored \<circ> dp_validators (hc_dpos hc)\<rparr>)"
    using dpos_restore_saved [OF reachable_inv [OF d(1)] d(2,3), of "hc_dpos hc1"] d(4) by simp
  show "lachesis_view (hc_lachesis (rollback_modules env (Inr ls) (Inr ds) s c hc1)) = lachesis_view (hc_lachesis hc)"
    "lachesis_unsaved (hc_lachesis (rollback_modules env (Inr ls) (Inr ds) s c hc1)) = lachesis_unsaved (hc_lachesis hc)"
    "hc_dpos (rollback_modules env (Inr ls) (Inr ds) s c hc1) = (hc_dpos hc)\<lparr>dp_validators := map_option restored \<circ> dp_validators (hc_dpos hc)\<rparr>"
    using l1 d1 by (simp_all add: rollback_modules_def Let_def set_lachesis_def set_dpos_def)
qed

text \<open>C22: Recovery works only while the clock stands still: the hash chain refuses to go back to a smaller count, so as soon as the
  proof of history has advanced since the last checkpoint, \<open>recoverFromError\<close> fails. By then it has restored Lachesis and DPoS to the checkpoint, or in part if
  one of them refused; it fails safely all the same. The count and the state of the chain, the height of the last block, the validators, the checkpoints
  and the pending events are as before; DPoS has its registry, active list, totals, epoch and slash log back, with the times of the validators cut to whole
  seconds; and Lachesis has back, by value, its events and nodes, the peers, delays and load of its gossip, the threshold of its vote, the finalized IDs, the
  checkpoints and the finalized events of every height, and its own threshold, delay, load, pending list, flag and proposals are untouched. This holds for
  whatever the checkpoint contains. It is assumed that the current states of both modules can be saved (else they are not rolled back at all), that
  ranges over maps visit every key once, that DPoS was used through its operations, and that every event listed as finalized is in the graph.\<close>

theorem recovery_fails_after_progress:
  assumes "\<not> hc_checkpointsLocked hc" and "hc_checkpoints hc (hc_lastCheckpoint hc) = Some ck"
    and "ck_PoHCount ck < poh_count (hc_poh hc)"
    and l: "save_orders (re_save env) (hc_lachesis hc)" "lists_known (hc_lachesis hc)" "voting_reachable (l_VirtualVoting (hc_lachesis hc))"
      "Lachesis_GetState (re_save env) (hc_lachesis hc) = Inr ls"
    and d: "dpos_reachable (hc_dpos hc)" "range_order (dp_validators (hc_dpos hc)) (re_dpos env)" "DPoS_GetState (re_dpos env) (hc_dpos hc) = Inr ds"
  shows "\<exists>e hc'. HybridConsensus_recoverFromError env hc = Returns (Some e) hc' \<and>
    poh_state (hc_poh hc') = poh_state (hc_poh hc) \<and> poh_count (hc_poh hc') = poh_count (hc_poh hc) \<and>
    hc_lastBlockHeight hc' = hc_lastBlockHeight hc \<and> hc_validators hc' = hc_validators hc \<and> hc_checkpoints hc' = hc_checkpoints hc \<and>
    hc_pendingEvents hc' = hc_pendingEvents hc \<and>
    hc_dpos hc' = (hc_dpos hc)\<lparr>dp_validators := map_option restored \<circ> dp_validators (hc_dpos hc)\<rparr> \<and>
    lachesis_view (hc_lachesis hc') = lachesis_view (hc_lachesis hc) \<and> lachesis_unsaved (hc_lachesis hc') = lachesis_unsaved (hc_lachesis hc)"
proof -
  obtain r hc1 where R: "restore_modules env ck hc = (r, hc1)" by (metis surj_pair)
  obtain e where e: "r = Some e" using restore_poh(1) [OF R assms(3)] by blast
  note restored_back = rollback_restores [OF l restore_untouched(1) [OF R] d restore_untouched(2) [OF R]]
  let ?hc' = "rollback_modules env (Lachesis_GetState (re_save env) (hc_lachesis hc)) (DPoS_GetState (re_dpos env) (hc_dpos hc))
    (PoH_GetState (hc_poh hc)) (PoH_GetCount (hc_poh hc)) hc1"
  have "HybridConsensus_recoverFromError env hc = Returns (Some e) ?hc'"
    using assms(1,2) R e by (simp add: HybridConsensus_recoverFromError_def HybridConsensus_getLastCheckpoint_def Let_def)
  then show ?thesis
    by (intro exI [of _ e] exI [of _ ?hc'] conjI) (simp_all add: rollback_frame restore_frame [OF R] restore_poh(2) [OF R assms(3)] restored_back l(4) d(3)
        PoH_Synchronize_def PoH_GetState_def PoH_GetCount_def)
qed

definition empty_LachesisJSON :: LachesisJSON where
  "empty_LachesisJSON = \<lparr>lj_DAGState = None, lj_GossipState = None, lj_VotingState = None, lj_FinalizerState = None, lj_FinalizedEvents = []\<rparr>"

text \<open>A checkpoint of block 1000 at count 3, in a node whose chain is at count 5.\<close>

definition checkpoint_example :: "DPoS_state \<Rightarrow> Checkpoint" where
  "checkpoint_example d = \<lparr>ck_BlockNumber = 1000, ck_LachesisState = empty_LachesisJSON, ck_DPoSState = d, ck_PoHState = 1, ck_PoHCount = 3,
     ck_CreatedAt = 0, ck_StateHashes = Map.empty\<rparr>"

definition behind_example :: "DPoS_state \<Rightarrow> HybridConsensus" where
  "behind_example d = hybrid_example\<lparr>hc_checkpoints := [1000 \<mapsto> checkpoint_example d], hc_lastCheckpoint := 1000\<rparr>"

definition recover_example :: RecoverEnv where
  "recover_example = \<lparr>re_save = \<lparr>so_heights = [], so_nodes = [7], so_events = [], so_peers = [7], so_finalized = [], so_checkpoints = []\<rparr>,
     re_dpos = [], re_sync = 0, re_rollback = 0, re_nodes = [7]\<rparr>"

theorem recovery_fails_after_progress_witness:
  "\<forall>d. \<exists>e hc'. HybridConsensus_recoverFromError recover_example (behind_example d) = Returns (Some e) hc' \<and> poh_count (hc_poh hc') = 5 \<and>
     lv_nodes (lachesis_view (hc_lachesis hc')) 7 = Some \<lparr>nj_ID = 7, nj_Events = [], nj_Stake = 50, nj_Active = True\<rparr>"
proof
  fix d
  let ?hc = "behind_example d" and ?l = "Lachesis_AddNode 7 50 (NewLachesis 100)"
  have b: "hc_lachesis ?hc = ?l" "hc_dpos ?hc = NewDPoS 21 1000" "poh_count (hc_poh ?hc) = 5"
    by (simp_all add: behind_example_def hybrid_example_simps)
  have l: "dag_Nodes (l_DAG ?l) = [7 \<mapsto> \<lparr>nd_ID = 7, nd_Events = [], nd_Stake = 50, nd_Active = True\<rparr>] \<and> dag_Events (l_DAG ?l) = Map.empty"
      "l_VirtualVoting ?l = NewVirtualVoting" "dom (g_peers (l_GossipProtocol ?l)) = {7}" "g_networkLoad (l_GossipProtocol ?l) = f64_0"
      "l_finalizedEvents ?l = Map.empty" "l_Finalizer ?l = NewFinalizer"
    by (simp_all add: Lachesis_AddNode_def NewLachesis_def DAG_AddNode_def NewDAG_def GossipProtocol_AddPeer_def NewGossipProtocol_def)
  have "save_orders (re_save recover_example) ?l"
    by (simp add: save_orders_def recover_example_def range_order_def l NewFinalizer_def)
  moreover have "lists_known ?l" by (simp add: lists_known_def finalized_at_def l(5))
  moreover obtain ls where "Lachesis_GetState (re_save recover_example) ?l = Inr ls"
    using default_threshold by (auto simp: Lachesis_GetState_def GossipProtocol_GetState_def VirtualVoting_GetState_def l(2,4) Let_def)
  moreover obtain ds where "DPoS_GetState (re_dpos recover_example) (NewDPoS 21 1000) = Inr ds"
    by (simp add: DPoS_GetState_def NewDPoS_def recover_example_def Let_def)
  moreover have "dpos_reachable (NewDPoS 21 1000)" by (rule dpos_reachable.intros) simp
  moreover have "range_order (dp_validators (NewDPoS 21 1000)) (re_dpos recover_example)" by (simp add: range_order_def NewDPoS_def recover_example_def)
  ultimately obtain e hc' where "HybridConsensus_recoverFromError recover_example ?hc = Returns (Some e) hc'" "poh_count (hc_poh hc') = 5"
      "lachesis_view (hc_lachesis hc') = lachesis_view ?l"
    using recovery_fails_after_progress [of ?hc "checkpoint_example d" recover_example ls ds] hybrid_example_flags(5) voting_reachable.init
    by (simp add: b l(2)) (simp add: behind_example_def checkpoint_example_def hybrid_example_simps(1), blast)
  moreover have "lv_nodes (lachesis_view ?l) 7 = Some \<lparr>nj_ID = 7, nj_Events = [], nj_Stake = 50, nj_Active = True\<rparr>"
    by (simp add: lachesis_view_def Let_def node_json_def l(1))
  ultimately show "\<exists>e hc'. HybridConsensus_recoverFromError recover_example (behind_example d) = Returns (Some e) hc' \<and> poh_count (hc_poh hc') = 5 \<and>
     lv_nodes (lachesis_view (hc_lachesis hc')) 7 = Some \<lparr>nj_ID = 7, nj_Events = [], nj_Stake = 50, nj_Active = True\<rparr>" by auto
qed

section \<open>Attempts are never given back\<close>

text \<open>The same error handled again and again.\<close>

fun handle_all :: "HandleEnv list \<Rightarrow> ConsensusError \<Rightarrow> HybridConsensus \<Rightarrow> ConsensusError option list outcome" where
  "handle_all [] e hc = Returns [] hc"
| "handle_all (env # envs) e hc =
     obind (RecoveryManager_HandleError env (Some (CErr e)) hc) (\<lambda>r hc1.
       obind (handle_all envs e hc1) (\<lambda>rs hc2. Returns (r # rs) hc2))"

lemma breaker_cases:
  obtains b rm where "RecoveryManager_isCircuitBreakerActive now code (hc_recoveryManager hc) = (b, rm)"
    and "rm_recoveryAttempts rm = rm_recoveryAttempts (hc_recoveryManager hc)"
    and "rm_maxRecoveryAttempts rm = rm_maxRecoveryAttempts (hc_recoveryManager hc)"
  by (cases "rm_circuitBreakers (hc_recoveryManager hc) code") (fastforce simp: RecoveryManager_isCircuitBreakerActive_def intro: that)+

lemma handle_off:
  assumes "rm_maxRecoveryAttempts (hc_recoveryManager hc) \<le> RecoveryManager_getRecoveryAttempts (ce_Code e) (hc_recoveryManager hc)"
  shows "\<exists>rm. RecoveryManager_HandleError env (Some (CErr e)) hc = Returns (Some e) (hc\<lparr>hc_recoveryManager := rm\<rparr>) \<and>
    rm_maxRecoveryAttempts rm \<le> RecoveryManager_getRecoveryAttempts (ce_Code e) rm"
proof -
  obtain b rm where B: "RecoveryManager_isCircuitBreakerActive (hn_check env) (ce_Code e) (hc_recoveryManager hc) = (b, rm)"
    "rm_recoveryAttempts rm = rm_recoveryAttempts (hc_recoveryManager hc)" "rm_maxRecoveryAttempts rm = rm_maxRecoveryAttempts (hc_recoveryManager hc)"
    by (rule breaker_cases)
  have off: "rm_maxRecoveryAttempts rm \<le> RecoveryManager_getRecoveryAttempts (ce_Code e) rm"
    using assms B(2,3) by (simp add: RecoveryManager_getRecoveryAttempts_def)
  show ?thesis
  proof (cases "b \<or> RecoveryManager_GetRecoveryStrategy (ce_Code e) rm = RecoveryStrategyNone \<or> \<not> rm_enableAutomaticRecovery rm")
    case True
    then show ?thesis using off B(1) by (intro exI [of _ rm]) (auto simp: RecoveryManager_HandleError_def Let_def split: bool.splits)
  next
    case False
    then show ?thesis using off B(1)
      by (intro exI [of _ "RecoveryManager_activateCircuitBreaker (hn_activate env) (ce_Code e) rm"])
         (simp add: RecoveryManager_HandleError_def Let_def update_rm_def RecoveryManager_activateCircuitBreaker_def RecoveryManager_getRecoveryAttempts_def)
  qed
qed

lemma handle_all_off:
  assumes "rm_maxRecoveryAttempts (hc_recoveryManager hc) \<le> RecoveryManager_getRecoveryAttempts (ce_Code e) (hc_recoveryManager hc)"
  shows "\<exists>rm. handle_all envs e hc = Returns (replicate (length envs) (Some e)) (hc\<lparr>hc_recoveryManager := rm\<rparr>)"
  using assms
proof (induction envs arbitrary: hc)
  case Nil
  then show ?case by (auto intro: exI [of _ "hc_recoveryManager hc"])
next
  case (Cons env envs)
  obtain rm where H: "RecoveryManager_HandleError env (Some (CErr e)) hc = Returns (Some e) (hc\<lparr>hc_recoveryManager := rm\<rparr>)"
    "rm_maxRecoveryAttempts rm \<le> RecoveryManager_getRecoveryAttempts (ce_Code e) rm" using handle_off [OF Cons.prems] by blast
  then obtain rm' where "handle_all envs e (hc\<lparr>hc_recoveryManager := rm\<rparr>) = Returns (replicate (length envs) (Some e)) (hc\<lparr>hc_recoveryManager := rm'\<rparr>)"
    using Cons.IH [of "hc\<lparr>hc_recoveryManager := rm\<rparr>"] by auto
  then show ?case using H(1) by auto
qed

lemma handle_retry:
  fixes hc
  defines "rm \<equiv> hc_recoveryManager hc"
  assumes "RecoveryManager_GetRecoveryStrategy (ce_Code e) rm = RecoveryStrategyRetry" and "rm_enableAutomaticRecovery rm"
    and "rm_circuitBreakers rm (ce_Code e) = None" and "RecoveryManager_getRecoveryAttempts (ce_Code e) rm < rm_maxRecoveryAttempts rm"
  shows "RecoveryManager_HandleError env (Some (CErr e)) hc =
    Returns None (hc\<lparr>hc_recoveryManager := RecoveryManager_incrementRecoveryAttempts (ce_Code e) rm\<rparr>)"
  using assms by (simp add: RecoveryManager_HandleError_def RecoveryManager_isCircuitBreakerActive_def Let_def apply_strategy_def
      RecoveryManager_applyRetryStrategy_def update_rm_def strategy_defs)

text \<open>The attempts for one kind of error are a budget until somebody calls \<open>ResetRecoveryAttempts\<close>: when one error is handled again and again, every
  retry succeeds, yet only as many times as attempts are allowed; from then on the error is returned to the caller, however much time
  passes between the calls, because a success does not reset the count and an expired breaker does not either.\<close>

theorem retries_run_out:
  assumes "RecoveryManager_GetRecoveryStrategy (ce_Code e) (hc_recoveryManager hc) = RecoveryStrategyRetry"
    and "rm_enableAutomaticRecovery (hc_recoveryManager hc)" and "rm_circuitBreakers (hc_recoveryManager hc) (ce_Code e) = None"
    and "RecoveryManager_getRecoveryAttempts (ce_Code e) (hc_recoveryManager hc) + int k = rm_maxRecoveryAttempts (hc_recoveryManager hc)"
    and "k \<le> length envs"
  shows "\<exists>rm. handle_all envs e hc = Returns (replicate k None @ replicate (length envs - k) (Some e)) (hc\<lparr>hc_recoveryManager := rm\<rparr>)"
  using assms
proof (induction k arbitrary: hc envs)
  case 0
  then show ?case using handle_all_off [of hc e envs] by simp
next
  case (Suc k)
  obtain env envs' where [simp]: "envs = env # envs'" using Suc.prems(5) by (cases envs) auto
  let ?rm = "RecoveryManager_incrementRecoveryAttempts (ce_Code e) (hc_recoveryManager hc)"
  have H: "RecoveryManager_HandleError env (Some (CErr e)) hc = Returns None (hc\<lparr>hc_recoveryManager := ?rm\<rparr>)"
    by (rule handle_retry) (use Suc.prems in simp_all)
  have "\<exists>rm. handle_all envs' e (hc\<lparr>hc_recoveryManager := ?rm\<rparr>) =
      Returns (replicate k None @ replicate (length envs' - k) (Some e)) (hc\<lparr>hc_recoveryManager := ?rm, hc_recoveryManager := rm\<rparr>)"
    by (rule Suc.IH) (use Suc.prems in \<open>simp_all add: RecoveryManager_incrementRecoveryAttempts_def RecoveryManager_GetRecoveryStrategy_def
      RecoveryManager_getRecoveryAttempts_def\<close>)
  then show ?case using H by auto
qed

theorem retries_run_out_witness:
  "\<forall>env. \<exists>hc'. handle_all (replicate 5 env) (NewConsensusError 0 ErrTimeout ErrorCategoryTemporary ''late'') hybrid_example =
     Returns ([None, None, None] @ replicate 2 (Some (NewConsensusError 0 ErrTimeout ErrorCategoryTemporary ''late''))) hc'"
proof
  fix env
  let ?e = "NewConsensusError 0 ErrTimeout ErrorCategoryTemporary ''late''"
  have "RecoveryManager_GetRecoveryStrategy (ce_Code ?e) NewRecoveryManager = RecoveryStrategyRetry"
    by (simp add: RecoveryManager_GetRecoveryStrategy_def NewRecoveryManager_def initDefaultRecoveryStrategies_def NewConsensusError_def)
  then have "\<exists>rm. handle_all (replicate 5 env) ?e hybrid_example =
      Returns (replicate 3 None @ replicate (length (replicate 5 env) - 3) (Some ?e)) (hybrid_example\<lparr>hc_recoveryManager := rm\<rparr>)"
    by (intro retries_run_out)
       (simp_all add: hybrid_example_flags(6) NewRecoveryManager_def RecoveryManager_getRecoveryAttempts_def)
  then show "\<exists>hc'. handle_all (replicate 5 env) ?e hybrid_example = Returns ([None, None, None] @ replicate 2 (Some ?e)) hc'"
    by (simp add: numeral_eq_Suc) blast
qed

end
