(* ===== verification/HybridTheory.thy ===== *)
theory HybridTheory
  imports RecoveryTheory "HOL-Library.Sublist"
begin

text \<open>
  The hybrid consensus: the rest of \<open>consensus/diamantehybrid.go\<close>. Blocks are produced, validated and applied, checkpoints are
  created, the state is synchronized, and the goroutines of the consensus call these operations.

  The encodings of events, blocks and states with \<open>json.Marshal\<close> are functions in the arguments. The clock and the orders
  of the ranges over maps are arguments too. A ticker loop is modelled by one tick. \<open>hc_checkpointsLocked\<close> is the mutex
  \<open>checkpointsMu\<close>: an operation that locks it while it is held never returns. An operation that loops for ever is a \<open>Blocks\<close> as
  well.

  Not modelled: \<open>createTestCheckpoint\<close>, which only tests call, the logger, and \<open>collectMetrics\<close>, which only logs.
\<close>

section \<open>Block processing errors\<close>

type_synonym BlockProcessingErrorType = int

record BlockProcessingError =
  bpe_Type :: BlockProcessingErrorType
  bpe_Err :: "go_error option"
  bpe_BlockNumber :: uint64
  bpe_Retryable :: bool
  bpe_Context :: "string \<rightharpoonup> ctx_value"

definition BlockProcessingError_Error :: "BlockProcessingError \<Rightarrow> string" where
  "BlockProcessingError_Error e =
     ''block '' @ fmt_nat (unat (bpe_BlockNumber e)) @ '' processing error: '' @
     (case bpe_Err e of None \<Rightarrow> ''<nil>'' | Some err \<Rightarrow> go_error_Error err) @ '' (type: '' @ fmt_d (bpe_Type e) @
     '', retryable: '' @ (if bpe_Retryable e then ''true'' else ''false'') @ '')''"

definition BlockProcessingError_Unwrap :: "BlockProcessingError \<Rightarrow> go_error option" where
  "BlockProcessingError_Unwrap e = bpe_Err e"

definition shouldAttemptRecovery :: "go_error option \<Rightarrow> bool" where
  "shouldAttemptRecovery err =
     (case err of
        None \<Rightarrow> False
      | Some e \<Rightarrow>
          let s = go_error_Error e in
          sublist ''state corruption'' s \<or> sublist ''synchronization failed'' s \<or> sublist ''checkpoint not found'' s \<or>
          sublist ''consensus state mismatch'' s \<or> sublist ''database corruption'' s \<or> sublist ''validator set inconsistency'' s)"

section \<open>Validators and queries\<close>

text \<open>The error is only logged.\<close>

definition HybridConsensus_AddValidator :: "VMEnv \<Rightarrow> hash32 \<Rightarrow> uint64 \<Rightarrow> HybridConsensus \<Rightarrow> unit outcome" where
  "HybridConsensus_AddValidator env i stake hc =
     (case ValidatorManager_AddValidator env i stake (hc_vm hc) of None \<Rightarrow> Panics | Some (_, st) \<Rightarrow> Returns () (hc\<lparr>hc_vm := st\<rparr>))"

definition HybridConsensus_UpdateStake :: "VMEnv \<Rightarrow> hash32 \<Rightarrow> uint64 \<Rightarrow> HybridConsensus \<Rightarrow> unit outcome" where
  "HybridConsensus_UpdateStake env i newStake hc =
     (case ValidatorManager_UpdateStake env i newStake (hc_vm hc) of None \<Rightarrow> Panics | Some (_, st) \<Rightarrow> Returns () (hc\<lparr>hc_vm := st\<rparr>))"

definition HybridConsensus_GetValidators :: "hash32 list \<Rightarrow> HybridConsensus \<Rightarrow> types_Validator list" where
  "HybridConsensus_GetValidators order hc = ValidatorManager_GetValidators order (hc_validators hc)"

definition HybridConsensus_GetActiveValidators :: "HybridConsensus \<Rightarrow> types_Validator list" where
  "HybridConsensus_GetActiveValidators hc = ValidatorManager_GetActiveValidators (hc_validators hc)"

definition HybridConsensus_HasCheckpoint :: "uint64 \<Rightarrow> HybridConsensus \<Rightarrow> bool outcome" where
  "HybridConsensus_HasCheckpoint blockNum hc =
     (if hc_checkpointsLocked hc then Blocks hc else Returns (hc_checkpoints hc blockNum \<noteq> None) hc)"

definition HybridConsensus_GetPendingEvents :: "hash32 list \<Rightarrow> HybridConsensus \<Rightarrow> nat list" where
  "HybridConsensus_GetPendingEvents order hc = EventFlowManager_GetPendingEvents order (hc_eventFlow hc)"

definition HybridConsensus_GetFinalizedEvents ::
    "(nat list \<Rightarrow> nat list) \<Rightarrow> uint64 \<Rightarrow> uint64 \<Rightarrow> HybridConsensus \<Rightarrow> (flow_query_error + nat list) option" where
  "HybridConsensus_GetFinalizedEvents srt fromHeight toHeight hc = EventFlowManager_GetFinalizedEvents srt fromHeight toHeight hc"

section \<open>Events\<close>

text \<open>\<open>now\<close> is the clock for an error of this operation.\<close>

definition err_creator :: "int \<Rightarrow> hash32 \<Rightarrow> ConsensusError" where
  "err_creator now creator =
     ConsensusError_WithContext ''creator'' (CtxString (byteArrayToString creator))
       (NewConsensusError now ErrInvalidValidator ErrorCategoryTemporary ''creator is not an active validator'')"

definition err_create :: "int \<Rightarrow> hash32 \<Rightarrow> go_error \<Rightarrow> ConsensusError" where
  "err_create now creator e =
     ConsensusError_WithRetryInfo True (1 * second)
       (ConsensusError_WithContext ''creator'' (CtxString (byteArrayToString creator))
         (WrapError now (Some e) ErrEventCreationFailed ErrorCategoryTemporary ''failed to create event''))"

definition add_to_batch :: "nat \<Rightarrow> HybridConsensus \<Rightarrow> HybridConsensus" where
  "add_to_batch r hc = hc\<lparr>hc_batchProcessor := snd (BatchProcessor_AddEvent (hc_store hc) (Some r) (hc_batchProcessor hc))\<rparr>"

definition HybridConsensus_CreateEvent ::
    "int \<Rightarrow> CreateEnv \<Rightarrow> hash32 \<Rightarrow> hash32 list \<Rightarrow> bytes \<Rightarrow> HybridConsensus \<Rightarrow> nat option \<times> HybridConsensus" where
  "HybridConsensus_CreateEvent now env creator parentIDs data hc =
     (if \<not> ValidatorManager_IsActiveValidator creator (hc_validators hc)
      then (None, HybridConsensus_trackError (Some (CErr (err_creator now creator))) hc)
      else
        case EventFlowManager_CreateEvent env creator parentIDs data hc of
          (Inl e, hc1) \<Rightarrow> (None, HybridConsensus_trackError (Some (CErr (err_create now creator e))) hc1)
        | (Inr r, hc1) \<Rightarrow> (Some r, add_to_batch r hc1))"

definition HybridConsensus_HandleNetworkPartition ::
    "(nat \<Rightarrow> int \<times> int) \<Rightarrow> (nat list \<Rightarrow> nat list) \<Rightarrow> (nat list \<Rightarrow> nat list) \<Rightarrow> nat list \<Rightarrow> HybridConsensus \<Rightarrow> HybridConsensus" where
  "HybridConsensus_HandleNetworkPartition nows srt1 srt2 events hc = EventFlowManager_HandleNetworkPartition nows srt2 (srt1 events) hc"

text \<open>The worker of the event flow manager, called from here: a batch size of zero makes it loop for ever, a negative one makes it panic.\<close>

definition run_flow_worker :: "WorkEnv \<Rightarrow> HybridConsensus \<Rightarrow> unit outcome" where
  "run_flow_worker env hc =
     (case EventFlowManager_processPendingEvents env hc of
        Some hc1 \<Rightarrow> Returns () hc1
      | None \<Rightarrow> if ef_batchSize (hc_eventFlow hc) = 0 then Blocks hc else Panics)"

definition HybridConsensus_processPendingEvents :: "hash32 list \<Rightarrow> WorkEnv \<Rightarrow> HybridConsensus \<Rightarrow> unit outcome" where
  "HybridConsensus_processPendingEvents order env hc =
     run_flow_worker env (fold add_to_batch (EventFlowManager_GetPendingEvents order (hc_eventFlow hc)) hc)"

section \<open>Checkpoints\<close>

datatype checkpoint_error = NotDivisible uint64 uint64 | LachesisStateError lachesis_error | DPoSStateError dpos_error | EmptyState

record CheckpointEnv =
  ce_save :: SaveOrders
  ce_dpos :: "hash32 list"
  ce_lachBytes :: "LachesisJSON \<Rightarrow> bytes"
  ce_dposBytes :: "DPoS_state \<Rightarrow> bytes"
  ce_created :: int

text \<open>\<open>cleanOldCheckpoints\<close> locks the mutex again that its only caller holds.\<close>

definition HybridConsensus_cleanOldCheckpoints :: "uint64 \<Rightarrow> HybridConsensus \<Rightarrow> unit outcome" where
  "HybridConsensus_cleanOldCheckpoints current hc =
     (if current \<le> hc_checkpointInterval hc * 2 then Returns () hc
      else if hc_checkpointsLocked hc then Blocks hc
      else Returns () (hc\<lparr>hc_checkpoints := (\<lambda>bn. if bn < current - hc_checkpointInterval hc * 2 then None else hc_checkpoints hc bn)\<rparr>))"

definition new_checkpoint :: "CheckpointEnv \<Rightarrow> uint64 \<Rightarrow> LachesisJSON \<Rightarrow> DPoS_state \<Rightarrow> HybridConsensus \<Rightarrow> Checkpoint" where
  "new_checkpoint env blockNumber lachState dposState hc =
     (let pohSt = PoH_GetState (hc_poh hc)
      in \<lparr>ck_BlockNumber = blockNumber, ck_LachesisState = lachState, ck_DPoSState = dposState, ck_PoHState = pohSt,
          ck_PoHCount = PoH_GetCount (hc_poh hc), ck_CreatedAt = ce_created env,
          ck_StateHashes = [''lachesis'' \<mapsto> byteArrayToString (sha256 (ce_lachBytes env lachState)),
                            ''dpos'' \<mapsto> byteArrayToString (sha256 (ce_dposBytes env dposState)), ''poh'' \<mapsto> byteArrayToString pohSt]\<rparr>)"

definition HybridConsensus_createCheckpoint :: "CheckpointEnv \<Rightarrow> uint64 \<Rightarrow> HybridConsensus \<Rightarrow> checkpoint_error option outcome" where
  "HybridConsensus_createCheckpoint env blockNumber hc =
     (if hc_checkpointInterval hc = 0 then Panics
      else if blockNumber mod hc_checkpointInterval hc \<noteq> 0 then Returns (Some (NotDivisible blockNumber (hc_checkpointInterval hc))) hc
      else
        case Lachesis_GetState (ce_save env) (hc_lachesis hc) of
          Inl e \<Rightarrow> Returns (Some (LachesisStateError e)) hc
        | Inr lachState \<Rightarrow>
            (case DPoS_GetState (ce_dpos env) (hc_dpos hc) of
               Inl e \<Rightarrow> Returns (Some (DPoSStateError e)) hc
             | Inr dposState \<Rightarrow>
                 if ce_lachBytes env lachState = [] \<or> ce_dposBytes env dposState = [] then Returns (Some EmptyState) hc
                 else if hc_checkpointsLocked hc then Blocks hc
                 else obind (HybridConsensus_cleanOldCheckpoints blockNumber
                        (hc\<lparr>hc_checkpointsLocked := True, hc_checkpoints := (hc_checkpoints hc)(blockNumber \<mapsto>
                            new_checkpoint env blockNumber lachState dposState hc), hc_lastCheckpoint := blockNumber\<rparr>))
                        (\<lambda>_ hc1. Returns None (hc1\<lparr>hc_checkpointsLocked := False\<rparr>))))"

section \<open>Blocks\<close>

text \<open>What the processing of one block reads from outside. The encoders see the objects of the events and return the text of their
  error where they fail. \<open>bk_checkpointText\<close> gives the text of an error of \<open>createCheckpoint\<close>.\<close>

record DPoSEnv =
  de_pow :: "float64 \<Rightarrow> float64 \<Rightarrow> float64"
  de_nows :: "hash32 \<Rightarrow> int"
  de_now :: int
  de_order :: "hash32 list"
  de_srt :: "hash32 list"

record ProduceEnv =
  pe_events :: "event_store \<Rightarrow> nat list \<Rightarrow> string + bytes"
  pe_record :: int
  pe_time :: int

record ApplyEnv =
  ap_fin :: "nat \<Rightarrow> FinEnv"
  ap_pending :: "hash32 list"
  ap_work :: WorkEnv
  ap_reward :: VMEnv

record BlockEnv =
  bk_now :: int
  bk_gap :: HandleEnv
  bk_vm :: VMEnv
  bk_epoch :: HandleEnv
  bk_dpos :: DPoSEnv
  bk_produce :: ProduceEnv
  bk_retry :: HandleEnv
  bk_produce2 :: ProduceEnv
  bk_apply :: ApplyEnv
  bk_block :: "event_store \<Rightarrow> HybridBlock \<Rightarrow> string + bytes"
  bk_checkpoint :: CheckpointEnv
  bk_checkpointText :: "checkpoint_error \<Rightarrow> string"

definition HybridConsensus_collectPendingEvents :: "HybridConsensus \<Rightarrow> nat list \<times> HybridConsensus" where
  "HybridConsensus_collectPendingEvents hc = (hc_pendingEvents hc, hc\<lparr>hc_pendingEvents := []\<rparr>)"

definition HybridConsensus_produceBlock :: "ProduceEnv \<Rightarrow> uint64 \<Rightarrow> hash32 \<Rightarrow> HybridConsensus \<Rightarrow> (go_error + HybridBlock) \<times> HybridConsensus" where
  "HybridConsensus_produceBlock env blockNumber producerID hc =
     (case HybridConsensus_collectPendingEvents hc of
        (events, hc1) \<Rightarrow>
          (case pe_events env (hc_store hc1) events of
             Inl e \<Rightarrow> (Inl (PlainErr (''failed to serialize events: '' @ e)), hc1)
           | Inr data \<Rightarrow>
               (case PoH_Record (pe_record env) (hash_bytes (sha256 data)) (hc_poh hc1) of
                  (pohHash, p) \<Rightarrow>
                    (Inr \<lparr>blk_Number = blockNumber, blk_Timestamp = pe_time env, blk_Producer = byteArrayToString producerID,
                           blk_Events = events, blk_PoHHash = byteArrayToString pohHash, blk_CreatedAt = zero_time\<rparr>,
                     hc1\<lparr>hc_poh := p\<rparr>))))"

datatype block_error = BlockIsNil | InvalidBlockNumber uint64 uint64

definition HybridConsensus_validateBlock :: "HybridBlock option \<Rightarrow> HybridConsensus \<Rightarrow> block_error option" where
  "HybridConsensus_validateBlock block hc =
     (case block of
        None \<Rightarrow> Some BlockIsNil
      | Some b \<Rightarrow>
          let expected = HybridConsensus_GetLastBlockHeight hc + 1 in
          if blk_Number b \<noteq> expected
          then if cfg_Mode (hc_cfg hc) = TestMode \<and> blk_Number b > 0 then None
               else Some (InvalidBlockNumber expected (blk_Number b))
          else None)"

datatype apply_error = FinalizeFailed ConsensusError | BadProducer

fun apply_events :: "(nat \<Rightarrow> FinEnv) \<Rightarrow> nat list \<Rightarrow> HybridConsensus \<Rightarrow> ConsensusError option \<times> HybridConsensus" where
  "apply_events env [] hc = (None, hc)"
| "apply_events env (r # rs) hc =
     (case HybridConsensus_FinalizeEvent (env r) (Some r) hc of
        ((_, Some e), hc1) \<Rightarrow> (Some e, hc1)
      | ((True, None), hc1) \<Rightarrow> apply_events env rs hc1
      | ((False, None), hc1) \<Rightarrow> apply_events env rs (hc1\<lparr>hc_pendingEvents := hc_pendingEvents hc1 @ [r]\<rparr>))"

text \<open>\<open>copy(pid[:], producerBytes)\<close>: the first 32 bytes, with zeros after them if there are fewer.\<close>

definition producer_id :: "bytes \<Rightarrow> hash32" where
  "producer_id bs = of_be_bytes (take 32 (bs @ replicate 32 0))"

definition HybridConsensus_applyBlock :: "ApplyEnv \<Rightarrow> HybridBlock \<Rightarrow> HybridConsensus \<Rightarrow> apply_error option outcome" where
  "HybridConsensus_applyBlock env block hc =
     (case apply_events (ap_fin env) (blk_Events block) hc of
        (Some e, hc1) \<Rightarrow> Returns (Some (FinalizeFailed e)) hc1
      | (None, hc1) \<Rightarrow>
          obind (HybridConsensus_processPendingEvents (ap_pending env) (ap_work env) hc1) (\<lambda>_ hc2.
            let hc3 = hc2\<lparr>hc_finalizedEvents := (hc_finalizedEvents hc2)(blk_Number block \<mapsto> blk_Events block)\<rparr> in
            case hex_decode (blk_Producer block) of
              None \<Rightarrow> Returns (Some BadProducer) hc3
            | Some bs \<Rightarrow> Returns None (hc3\<lparr>hc_vm :=
                snd (ValidatorManager_RewardBlockProduction (ap_reward env) (producer_id bs) (blk_Number block) (hc_vm hc3))\<rparr>)))"

section \<open>Processing one block\<close>

definition block_err :: "BlockEnv \<Rightarrow> ConsensusErrorCode \<Rightarrow> ErrorCategory \<Rightarrow> string \<Rightarrow> uint64 \<Rightarrow> bool \<Rightarrow> duration \<Rightarrow> ConsensusError" where
  "block_err env code category msg blockNumber retry after =
     ConsensusError_WithRetryInfo retry after (ConsensusError_WithBlockNumber blockNumber (NewConsensusError (bk_now env) code category msg))"

definition wrap_err ::
    "BlockEnv \<Rightarrow> go_error \<Rightarrow> ConsensusErrorCode \<Rightarrow> ErrorCategory \<Rightarrow> string \<Rightarrow> uint64 \<Rightarrow> hash32 \<Rightarrow> bool \<Rightarrow> duration \<Rightarrow> ConsensusError" where
  "wrap_err env e code category msg blockNumber validator retry after =
     ConsensusError_WithRetryInfo retry after (ConsensusError_WithValidatorID validator
       (ConsensusError_WithBlockNumber blockNumber (WrapError (bk_now env) (Some e) code category msg)))"

text \<open>The error is tracked and returned.\<close>

definition fail :: "ConsensusError \<Rightarrow> HybridConsensus \<Rightarrow> (ConsensusError + 'a) outcome" where
  "fail e hc = Returns (Inl e) (HybridConsensus_trackError (Some (CErr e)) hc)"

text \<open>The recovery manager is asked; if it does not recover, its error is tracked and returned.\<close>

definition try_recover :: "HandleEnv \<Rightarrow> ConsensusError \<Rightarrow> HybridConsensus \<Rightarrow> (ConsensusError + unit) outcome" where
  "try_recover env e hc =
     obind (RecoveryManager_HandleError env (Some (CErr e)) hc) (\<lambda>r hc1. case r of None \<Rightarrow> Returns (Inr ()) hc1 | Some e1 \<Rightarrow> fail e1 hc1)"

text \<open>Sequencing of the stages: an error ends the processing.\<close>

definition ebind ::
    "(ConsensusError + 'a) outcome \<Rightarrow> ('a \<Rightarrow> HybridConsensus \<Rightarrow> (ConsensusError + 'b) outcome) \<Rightarrow> (ConsensusError + 'b) outcome" where
  "ebind m f = obind m (\<lambda>r hc. case r of Inl e \<Rightarrow> Returns (Inl e) hc | Inr x \<Rightarrow> f x hc)"

definition check_gap :: "BlockEnv \<Rightarrow> uint64 \<Rightarrow> HybridConsensus \<Rightarrow> (ConsensusError + unit) outcome" where
  "check_gap env blockNumber hc =
     (if blockNumber > HybridConsensus_GetLastBlockHeight hc + 1
      then obind (HybridConsensus_HasCheckpoint (blockNumber - 1) hc) (\<lambda>has hc.
             if \<not> has
             then fail (ConsensusError_WithContext ''expectedCheckpoint'' (CtxUint (blockNumber - 1))
                    (block_err env ErrCheckpointNotFound ErrorCategoryPermanent (''missing checkpoint for block '' @ fmt_nat (unat (blockNumber - 1)))
                      blockNumber False 0)) hc
             else try_recover (bk_gap env)
                    (ConsensusError_WithContext ''lastHeight'' (CtxUint (HybridConsensus_GetLastBlockHeight hc))
                      (ConsensusError_WithBlockNumber blockNumber
                        (NewConsensusError (bk_now env) ErrStateInconsistency ErrorCategoryState ''block number gap detected''))) hc)
      else Returns (Inr ()) hc)"

definition process_epochs :: "BlockEnv \<Rightarrow> uint64 \<Rightarrow> HybridConsensus \<Rightarrow> (ConsensusError + unit) outcome" where
  "process_epochs env blockNumber hc =
     (case ValidatorManager_ProcessEpoch (bk_vm env) blockNumber (hc_vm hc) of
        None \<Rightarrow> Panics
      | Some (err, st) \<Rightarrow>
          ebind (case err of
                   None \<Rightarrow> Returns (Inr ()) (hc\<lparr>hc_vm := st\<rparr>)
                 | Some e \<Rightarrow> try_recover (bk_epoch env) (ConsensusError_WithRetryInfo True (2 * second) (ConsensusError_WithBlockNumber blockNumber
                     (WrapError (bk_now env) (Some (CErr e)) ErrStateInconsistency ErrorCategoryState ''failed to process epoch''))) (hc\<lparr>hc_vm := st\<rparr>))
            (\<lambda>_ hc1.
               let de = bk_dpos env in
               case DPoS_ProcessEpoch (de_pow de) (de_nows de) (de_now de) (de_order de) (de_srt de) blockNumber (hc_dpos hc1) of
                 None \<Rightarrow> Panics
               | Some (_, d) \<Rightarrow> Returns (Inr ()) (set_dpos d hc1)))"

definition make_block :: "BlockEnv \<Rightarrow> uint64 \<Rightarrow> hash32 \<Rightarrow> HybridConsensus \<Rightarrow> (ConsensusError + HybridBlock) outcome" where
  "make_block env blockNumber validator hc =
     (case HybridConsensus_produceBlock (bk_produce env) blockNumber validator hc of
        (Inr block, hc1) \<Rightarrow> Returns (Inr block) hc1
      | (Inl e, hc1) \<Rightarrow>
          ebind (try_recover (bk_retry env) (wrap_err env e ErrBlockCreationFailed ErrorCategoryTemporary ''failed to produce block''
                   blockNumber validator True (2 * second)) hc1)
            (\<lambda>_ hc2. case HybridConsensus_produceBlock (bk_produce2 env) blockNumber validator hc2 of
               (Inr block, hc3) \<Rightarrow> Returns (Inr block) hc3
             | (Inl e2, hc3) \<Rightarrow> fail (wrap_err env e2 ErrBlockCreationFailed ErrorCategoryPermanent ''failed to produce block after recovery''
                   blockNumber validator False 0) hc3))"

text \<open>The texts of the errors of \<open>validateBlock\<close> and \<open>applyBlock\<close>.\<close>

definition block_error_text :: "block_error \<Rightarrow> string" where
  "block_error_text e =
     (case e of BlockIsNil \<Rightarrow> ''block is nil''
      | InvalidBlockNumber n m \<Rightarrow> ''invalid block number: expected '' @ fmt_nat (unat n) @ '', got '' @ fmt_nat (unat m))"

definition apply_error_text :: "apply_error \<Rightarrow> string" where
  "apply_error_text e =
     (case e of FinalizeFailed c \<Rightarrow> ''failed to finalize event: '' @ ConsensusError_Error c | BadProducer \<Rightarrow> ''failed to decode producer ID'')"

definition use_block :: "BlockEnv \<Rightarrow> uint64 \<Rightarrow> hash32 \<Rightarrow> HybridBlock \<Rightarrow> HybridConsensus \<Rightarrow> (ConsensusError + unit) outcome" where
  "use_block env blockNumber validator block hc =
     (case HybridConsensus_validateBlock (Some block) hc of
        Some e \<Rightarrow> fail (wrap_err env (PlainErr (block_error_text e)) ErrBlockValidationFailed ErrorCategoryTemporary ''block validation failed''
                   blockNumber validator True (1 * second)) hc
      | None \<Rightarrow>
          obind (HybridConsensus_applyBlock (bk_apply env) block hc) (\<lambda>err hc1.
            case err of
              Some e \<Rightarrow> fail (wrap_err env (PlainErr (apply_error_text e)) ErrBlockFinalizationFailed ErrorCategoryTemporary ''failed to apply block''
                         blockNumber validator True (1 * second)) hc1
            | None \<Rightarrow> Returns (Inr ()) hc1))"

definition finish_block :: "BlockEnv \<Rightarrow> uint64 \<Rightarrow> HybridBlock \<Rightarrow> HybridConsensus \<Rightarrow> (ConsensusError + unit) outcome" where
  "finish_block env blockNumber block hc =
     (case bk_block env (hc_store hc) block of
        Inl e \<Rightarrow> fail (ConsensusError_WithRetryInfo True (1 * second) (ConsensusError_WithBlockNumber blockNumber
                   (WrapError (bk_now env) (Some (PlainErr e)) ErrStateInconsistency ErrorCategoryTemporary ''failed to serialize block''))) hc
      | Inr blockData \<Rightarrow>
          let hc1 = HybridConsensus_SetLastBlockHeight blockNumber (HybridConsensus_SetLastBlockHash (sha256 blockData) hc) in
          obind (if blockNumber mod CheckpointInterval = 0
                 then obind (HybridConsensus_createCheckpoint (bk_checkpoint env) blockNumber hc1) (\<lambda>err hc2.
                        case err of
                          None \<Rightarrow> Returns () hc2
                        | Some e \<Rightarrow> Returns () (HybridConsensus_trackError (Some (CErr (ConsensusError_WithRetryInfo True (5 * second)
                            (ConsensusError_WithBlockNumber blockNumber (WrapError (bk_now env) (Some (PlainErr (bk_checkpointText env e)))
                               ErrCheckpointCreationFailed ErrorCategoryTemporary ''failed to create checkpoint''))))) hc2))
                 else Returns () hc1)
            (\<lambda>_ hc2. Returns (Inr ()) (if blk_Events block \<noteq> []
               then hc2\<lparr>hc_lastFinalizedHeight := ev_Height (hc_store hc2 (last (blk_Events block)))\<rparr> else hc2)))"

definition HybridConsensus_ProcessBlock :: "BlockEnv \<Rightarrow> uint64 \<Rightarrow> HybridConsensus \<Rightarrow> (ConsensusError + unit) outcome" where
  "HybridConsensus_ProcessBlock env blockNumber hc =
     (if \<not> HybridConsensus_IsRunning hc
      then fail (ConsensusError_WithContext ''state'' (CtxString ''stopped'')
             (block_err env ErrStateInconsistency ErrorCategoryTemporary ''consensus is not running'' blockNumber True (1 * second))) hc
      else
        ebind (check_gap env blockNumber hc) (\<lambda>_ hc.
        ebind (process_epochs env blockNumber hc) (\<lambda>_ hc.
          case ValidatorManager_GetNextValidator blockNumber (HybridConsensus_GetLastBlockHash hc) (hc_vm hc) of
            None \<Rightarrow> fail (block_err env ErrValidatorNotFound ErrorCategoryTemporary ''no validator available for block creation''
                       blockNumber True (1 * second)) hc
          | Some validator \<Rightarrow>
              ebind (make_block env blockNumber (fst validator) hc) (\<lambda>block hc.
              ebind (use_block env blockNumber (fst validator) block hc) (\<lambda>_ hc. finish_block env blockNumber block hc)))))"

section \<open>State synchronization\<close>

text \<open>The range over the checkpoints keeps the newest one that is not ahead of the target.\<close>

fun newest_checkpoint :: "(uint64 \<rightharpoonup> Checkpoint) \<Rightarrow> uint64 \<Rightarrow> uint64 list \<Rightarrow> Checkpoint option \<Rightarrow> Checkpoint option" where
  "newest_checkpoint cks targetCount [] latest = latest"
| "newest_checkpoint cks targetCount (bn # bns) latest =
     (let c = the (cks bn) in
      if ck_PoHCount c \<le> targetCount \<and> (case latest of None \<Rightarrow> True | Some l \<Rightarrow> bn > ck_BlockNumber l)
      then newest_checkpoint cks targetCount bns (Some c) else newest_checkpoint cks targetCount bns latest)"

fun replay_events :: "(nat \<Rightarrow> FinEnv) \<Rightarrow> nat list \<Rightarrow> HybridConsensus \<Rightarrow> ConsensusError option \<times> HybridConsensus" where
  "replay_events env [] hc = (None, hc)"
| "replay_events env (r # rs) hc =
     (case HybridConsensus_FinalizeEvent (env r) (Some r) hc of
        ((_, Some e), hc1) \<Rightarrow> (Some e, hc1)
      | ((_, None), hc1) \<Rightarrow> replay_events env rs hc1)"

datatype sync_error =
  SyncPoHFailed poh_error | NoValidCheckpoint | SyncLachesisFailed lachesis_error | SyncDPoSFailed dpos_error
| SyncQueryFailed flow_query_error | ReplayFailed ConsensusError

record SyncEnv =
  sy_now :: int
  sy_order :: "uint64 list"
  sy_sort :: "nat list \<Rightarrow> nat list"
  sy_fin :: "nat \<Rightarrow> FinEnv"

definition restore_checkpoint :: "Checkpoint \<Rightarrow> HybridConsensus \<Rightarrow> sync_error option \<times> HybridConsensus" where
  "restore_checkpoint ck hc =
     (case Lachesis_RestoreState (Some (ck_LachesisState ck)) (hc_lachesis hc) of
        (Some e, l) \<Rightarrow> (Some (SyncLachesisFailed e), set_lachesis l hc)
      | (None, l) \<Rightarrow>
          (let hc1 = set_lachesis l hc in
           case DPoS_RestoreState (Some (ck_DPoSState ck)) (hc_dpos hc1) of
             (Some e, d) \<Rightarrow> (Some (SyncDPoSFailed e), set_dpos d hc1)
           | (None, d) \<Rightarrow> (None, set_dpos d hc1)))"

definition HybridConsensus_SynchronizeState :: "SyncEnv \<Rightarrow> hash32 \<Rightarrow> uint64 \<Rightarrow> HybridConsensus \<Rightarrow> sync_error option outcome" where
  "HybridConsensus_SynchronizeState env targetState targetCount hc =
     (case PoH_Synchronize (sy_now env) targetState targetCount (hc_poh hc) of
        (Some e, p) \<Rightarrow> Returns (Some (SyncPoHFailed e)) (hc\<lparr>hc_poh := p\<rparr>)
      | (None, p) \<Rightarrow>
          (let hc1 = hc\<lparr>hc_poh := p\<rparr> in
           if hc_checkpointsLocked hc1 then Blocks hc1
           else case newest_checkpoint (hc_checkpoints hc1) targetCount (sy_order env) None of
             None \<Rightarrow> Returns (Some NoValidCheckpoint) hc1
           | Some ck \<Rightarrow>
               (case restore_checkpoint ck hc1 of
                  (Some e, hc2) \<Rightarrow> Returns (Some e) hc2
                | (None, hc2) \<Rightarrow>
                    (case HybridConsensus_GetFinalizedEvents (sy_sort env) (ck_BlockNumber ck) (HybridConsensus_GetLastBlockHeight hc2) hc2 of
                       None \<Rightarrow> Blocks hc2
                     | Some (Inl e) \<Rightarrow> Returns (Some (SyncQueryFailed e)) hc2
                     | Some (Inr evs) \<Rightarrow>
                         (case replay_events (sy_fin env) evs hc2 of (err, hc3) \<Rightarrow> Returns (map_option ReplayFailed err) hc3)))))"

section \<open>Governance\<close>

definition hc_adapter :: "HybridConsensus \<Rightarrow> Adapter" where
  "hc_adapter hc = \<lparr>ad_dpos = hc_dpos hc, ad_lachesis = hc_lachesis hc, ad_height = HybridConsensus_GetCurrentHeight hc\<rparr>"

definition set_adapter :: "Adapter \<Rightarrow> HybridConsensus \<Rightarrow> HybridConsensus" where
  "set_adapter ad hc = set_dpos (ad_dpos ad) (set_lachesis (ad_lachesis ad) hc)"

definition HybridConsensus_ProposeGovernanceChange ::
    "int \<Rightarrow> ProposalType \<Rightarrow> string \<Rightarrow> bytes \<Rightarrow> hash32 \<Rightarrow> HybridConsensus \<Rightarrow> hash32 \<times> HybridConsensus" where
  "HybridConsensus_ProposeGovernanceChange now propType desc data creatorID hc =
     (case Governance_CreateProposal now propType desc data creatorID (hc_governance hc) of (i, g) \<Rightarrow> (i, hc\<lparr>hc_governance := g\<rparr>))"

definition HybridConsensus_VoteOnProposal ::
    "int \<Rightarrow> hash32 \<Rightarrow> hash32 \<Rightarrow> bool \<Rightarrow> HybridConsensus \<Rightarrow> gov_error option \<times> HybridConsensus" where
  "HybridConsensus_VoteOnProposal now propID valID vote hc =
     (case Governance_Vote now (hc_adapter hc) propID valID vote (hc_governance hc) of (e, g) \<Rightarrow> (e, hc\<lparr>hc_governance := g\<rparr>))"

definition HybridConsensus_ExecuteProposal :: "GovEnv \<Rightarrow> hash32 \<Rightarrow> HybridConsensus \<Rightarrow> gov_error option outcome" where
  "HybridConsensus_ExecuteProposal env propID hc =
     (case Governance_ExecuteProposal env propID (hc_governance hc, hc_adapter hc) of
        None \<Rightarrow> Panics
      | Some (e, g, ad) \<Rightarrow> Returns e (set_adapter ad (hc\<lparr>hc_governance := g\<rparr>)))"

section \<open>Goroutines\<close>

text \<open>One tick of \<open>startPoH\<close>; the tick delay is clamped before. An error of \<open>SetTickDelay\<close> is ignored.\<close>

definition HybridConsensus_startPoH :: "int \<Rightarrow> HybridConsensus \<Rightarrow> HybridConsensus" where
  "HybridConsensus_startPoH now hc =
     (let d = clampDuration (PoH_GetTickDelay (hc_poh hc)) minPoHDelay maxPoHDelay
      in hc\<lparr>hc_poh := PoH_Tick now (snd (PoH_SetTickDelay d (hc_poh hc)))\<rparr>)"

definition HybridConsensus_startGovernance :: "GovEnv \<Rightarrow> int \<Rightarrow> TickOrders \<Rightarrow> HybridConsensus \<Rightarrow> unit outcome" where
  "HybridConsensus_startGovernance env now to hc =
     (case Governance_Run env (HybridConsensus_IsTestMode hc) now to (hc_governance hc, hc_adapter hc) of
        None \<Rightarrow> Panics
      | Some (g, ad) \<Rightarrow> Returns () (set_adapter ad (hc\<lparr>hc_governance := g\<rparr>)))"

text \<open>The wait before a block after \<open>n\<close> errors in a row, of which \<open>n\<close> is positive. \<open>math.Pow(2, k)\<close> is exact.\<close>

definition backoffDuration :: "(float64 \<Rightarrow> int) \<Rightarrow> int \<Rightarrow> duration" where
  "backoffDuration conv n =
     f64_to_int64 conv (f64_Min (f64_of_int (30 * second)) (f64_mul (f64_of_int (2 * second)) (rnd (2 ^ nat (n - 1)))))"

text \<open>One tick of the block production: the loop ends, it ends and stops the consensus, or it goes on with a number of
  errors in a row and the time it waited. If the time is up first, the goroutine that processes the block goes on alone; a goroutine
  that never returns is such a case.\<close>

datatype production = ProductionEnds | ProductionStops | ProductionGoesOn int duration

definition count_error :: "RecoverEnv \<Rightarrow> duration \<Rightarrow> int \<Rightarrow> HybridConsensus \<Rightarrow> production outcome" where
  "count_error env waited n hc =
     (if n \<ge> 5 then obind (HybridConsensus_recoverFromError env hc) (\<lambda>_ hc1. Returns (ProductionGoesOn n waited) hc1)
      else Returns (ProductionGoesOn n waited) hc)"

definition HybridConsensus_startBlockProduction ::
    "(float64 \<Rightarrow> int) \<Rightarrow> BlockEnv \<Rightarrow> RecoverEnv \<Rightarrow> bool \<Rightarrow> int \<Rightarrow> HybridConsensus \<Rightarrow> production outcome" where
  "HybridConsensus_startBlockProduction conv env renv timedOut consecutiveErrors hc =
     (if \<not> HybridConsensus_IsRunning hc then Returns ProductionEnds hc
      else if cfg_Mode (hc_cfg hc) = TestMode \<and> HybridConsensus_GetLastBlockHeight hc \<ge> testMaxBlocks then Returns ProductionStops hc
      else
        let waited = (if consecutiveErrors > 0 then backoffDuration conv consecutiveErrors else 0);
            bnum = HybridConsensus_GetLastBlockHeight hc + 1 in
        if timedOut then Returns (ProductionGoesOn (consecutiveErrors + 1) waited) hc
        else case HybridConsensus_ProcessBlock env bnum hc of
          Panics \<Rightarrow> Panics
        | Blocks hc1 \<Rightarrow> Returns (ProductionGoesOn (consecutiveErrors + 1) waited) hc1
        | Returns (Inr _) hc1 \<Rightarrow> Returns (ProductionGoesOn 0 waited) hc1
        | Returns (Inl _) hc1 \<Rightarrow> count_error renv waited (consecutiveErrors + 1) hc1)"

datatype health_warning = PoHBehind | ManyPending | OldCheckpoint

definition HybridConsensus_performHealthCheck :: "hash32 list \<Rightarrow> HybridConsensus \<Rightarrow> health_warning list" where
  "HybridConsensus_performHealthCheck order hc =
     (let pohCount = PoH_GetCount (hc_poh hc); blockHeight = HybridConsensus_GetLastBlockHeight hc;
          pendingEvents = int (length (HybridConsensus_GetPendingEvents order hc)) in
      (if blockHeight > 0 \<and> pohCount < blockHeight then [PoHBehind] else []) @
      (if pendingEvents > go_div MaxPendingEvents 2 then [ManyPending] else []) @
      (if blockHeight > CheckpointInterval \<and> hc_lastCheckpoint hc < blockHeight - 2 * CheckpointInterval then [OldCheckpoint] else []))"

definition HybridConsensus_cleanupGoroutines :: "HybridConsensus \<Rightarrow> HybridConsensus" where
  "HybridConsensus_cleanupGoroutines hc = hc\<lparr>hc_pendingEvents := []\<rparr>"

end
