(* ===== verification/HybridProperties.thy ===== *)
theory HybridProperties
  imports HybridTheory
begin

text \<open>
  What holds of the hybrid consensus as a whole (\<open>consensus/diamantehybrid.go\<close>): what its blocks contain, that a node with an active
  validator produces the next block, and where the production of blocks ends.
\<close>

section \<open>What no operation changes\<close>

text \<open>The events a block would contain, and the size of the batches of the event flow manager.\<close>

definition key :: "HybridConsensus \<Rightarrow> nat list \<times> int" where
  "key hc = (hc_pendingEvents hc, ef_batchSize (hc_eventFlow hc))"

fun keeps :: "nat list \<times> int \<Rightarrow> 'a outcome \<Rightarrow> bool" where
  "keeps k (Returns x hc) = (key hc = k)"
| "keeps k Panics = True"
| "keeps k (Blocks hc) = (key hc = k)"

lemma keeps_obind: "keeps k m \<Longrightarrow> (\<And>x hc. key hc = k \<Longrightarrow> keeps k (f x hc)) \<Longrightarrow> keeps k (obind m f)"
  by (cases m) auto

lemma keeps_ebind: "keeps k m \<Longrightarrow> (\<And>x hc. key hc = k \<Longrightarrow> keeps k (f x hc)) \<Longrightarrow> keeps k (ebind m f)"
  unfolding ebind_def by (erule keeps_obind) (auto split: sum.splits)

lemma key_update [simp]:
  "key (hc\<lparr>hc_vm := st\<rparr>) = key hc" "key (hc\<lparr>hc_poh := p\<rparr>) = key hc" "key (hc\<lparr>hc_governance := g\<rparr>) = key hc"
  "key (hc\<lparr>hc_recoveryManager := rm\<rparr>) = key hc" "key (hc\<lparr>hc_batchProcessor := bp\<rparr>) = key hc" "key (hc\<lparr>hc_running := b\<rparr>) = key hc"
  "key (hc\<lparr>hc_startOnce := b\<rparr>) = key hc" "key (hc\<lparr>hc_stopOnce := b\<rparr>) = key hc" "key (hc\<lparr>hc_lastBlockHeight := n\<rparr>) = key hc"
  "key (hc\<lparr>hc_lastFinalizedHeight := n\<rparr>) = key hc" "key (hc\<lparr>hc_finalizedEvents := fe\<rparr>) = key hc" "key (hc\<lparr>hc_lastBlockHash := h\<rparr>) = key hc"
  "key (hc\<lparr>hc_checkpoints := cks\<rparr>) = key hc" "key (hc\<lparr>hc_lastCheckpoint := n\<rparr>) = key hc" "key (hc\<lparr>hc_checkpointsLocked := b\<rparr>) = key hc"
  "key (set_lachesis l hc) = key hc" "key (set_dpos d hc) = key hc" "key (set_adapter ad hc) = key hc" "key (update_rm f hc) = key hc"
  "key (add_to_batch r hc) = key hc" "key (HybridConsensus_SetLastBlockHeight n hc) = key hc" "key (HybridConsensus_SetLastBlockHash h hc) = key hc"
  by (simp_all add: key_def set_lachesis_def set_dpos_def set_adapter_def update_rm_def add_to_batch_def HybridConsensus_SetLastBlockHeight_def
      HybridConsensus_SetLastBlockHash_def)

lemma key_trackError [simp]: "key (HybridConsensus_trackError e hc) = key hc"
  by (simp add: key_def hc_frame_fields [OF trackError_frame])

lemma key_finalize: "HybridConsensus_FinalizeEvent env (Some r) hc = ((b, e), hc') \<Longrightarrow> key hc' = key hc"
  using FinalizeEvent_effect(5) by (fastforce simp: key_def dest: hc_frame_fields)

lemma key_handle [simp]: "key (EventFlowManager_handleFinalizedEvent env r hc) = key hc"
  by (simp add: key_def handle_fields)

lemma key_finish [simp]: "ef_batchSize (finish_finalize r ef) = ef_batchSize ef" "ef_batchSize (bump_retry i ef) = ef_batchSize ef"
    "ef_batchSize (start_finalize r ef) = ef_batchSize ef" "ef_batchSize (track_event now r ev ef) = ef_batchSize ef"
  by (simp_all add: finish_finalize_def bump_retry_def start_finalize_def track_event_def)

lemma key_update_ef: "(\<And>ef. ef_batchSize (f ef) = ef_batchSize ef) \<Longrightarrow> key (update_ef f hc) = key hc"
  by (simp add: key_def)

lemma key_finalizeEvent: "key (EventFlowManager_finalizeEvent t env r hc) = key hc"
proof -
  obtain b e hc1 where F: "HybridConsensus_FinalizeEvent (fl_fin env) (Some r) hc = ((b, e), hc1)" by (metis surj_pair)
  note K = key_finalize [OF F]
  have u: "key (update_ef (finish_finalize r) hc2) = key hc2" for hc2 by (rule key_update_ef) simp
  have v: "key (update_ef (\<lambda>ef. bump_retry i (EventFlowManager_incrementMetric m ef)) hc2) = key hc2"
    "key (update_ef (\<lambda>ef. EventFlowManager_incrementMetric m (bump_retry i ef)) hc2) = key hc2" for i m hc2
    by (rule key_update_ef, simp)+
  show ?thesis unfolding EventFlowManager_finalizeEvent_def Let_def F u
    by (cases t; cases b) (simp_all only: if_True if_False prod.case bool.case v key_handle K)
qed

lemma key_flow_loop: "flow_loop env rs (a, b) hc = (acc', hc') \<Longrightarrow> key hc' = key hc"
proof (induction rs arbitrary: a b hc)
  case (Cons r rs)
  show ?case
  proof (cases "due env hc r")
    case False
    then obtain p f hc1 where S: "flow_loop env (r # rs) (a, b) hc = flow_loop env rs (p, f) hc1" "hc_frame hc hc1" by (rule not_due_step)
    then show ?thesis using Cons hc_frame_fields [OF S(2)] by (simp add: key_def)
  next
    case True
    obtain err hc1 where S: "HybridConsensus_FinalizeEvent (fl_fin (env r)) (Some r) hc = ((True, err), hc1)"
      "flow_loop env (r # rs) (a, b) hc = flow_loop env rs (a + 1, b + 1) (EventFlowManager_handleFinalizedEvent (env r) r hc1)"
      by (rule due_step [OF True], rule that)
    then show ?thesis using Cons.IH Cons.prems key_finalize [OF S(1)] by (metis key_handle)
  qed
qed simp

lemma key_processPending: "EventFlowManager_processPendingEvents env hc = Some hc' \<Longrightarrow> key hc' = key hc"
  by (auto simp: EventFlowManager_processPendingEvents_def Let_def key_update_ef dest!: key_flow_loop split: option.splits prod.splits)

lemma key_validate: "EventFlowManager_ValidateEvent now r hc = (e, hc') \<Longrightarrow> key hc' = key hc"
  by (auto simp: EventFlowManager_ValidateEvent_def Let_def key_update_ef split: option.splits if_splits)

lemma key_stamp [simp]: "key (stamp_event r data now hc) = key hc"
  by (simp add: key_def stamp_fields)

lemma key_flow_create: "EventFlowManager_CreateEvent env creator ps data hc = (r, hc') \<Longrightarrow> key hc' = key hc"
  by (auto simp: EventFlowManager_CreateEvent_def Let_def key_update_ef dest!: key_validate split: option.splits if_splits prod.splits)

lemma key_create: "HybridConsensus_CreateEvent now env creator ps data hc = (r, hc') \<Longrightarrow> key hc' = key hc"
  by (auto simp: HybridConsensus_CreateEvent_def dest!: key_flow_create split: if_splits prod.splits sum.splits)

lemma key_partition: "key (partition_loop nows rs hc) = key hc"
proof (induction rs arbitrary: hc)
  case (Cons r rs)
  obtain e hc1 where V: "EventFlowManager_ValidateEvent (fst (nows r)) (Some r) hc = (e, hc1)" by (metis surj_pair)
  show ?case using Cons.IH key_validate [OF V] V by (cases e) (simp_all add: Let_def key_update_ef)
qed simp

lemma key_start: "HybridConsensus_Start hc = (r, hc') \<Longrightarrow> key hc' = key hc"
  by (auto simp: HybridConsensus_Start_def start_modules_def EventFlowManager_Start_def Let_def key_def set_lachesis_def
      split: if_splits prod.splits option.splits)

lemma key_stop: "HybridConsensus_Stop t hc = (r, hc') \<Longrightarrow> key hc' = key hc"
  by (auto simp: HybridConsensus_Stop_def EventFlowManager_Stop_def Let_def key_def set_lachesis_def split: if_splits)

lemma key_restore: "restore_modules env ck hc = (e, hc') \<Longrightarrow> key hc' = key hc"
  by (simp add: key_def restore_frame)

lemma key_rollback [simp]: "key (rollback_modules env l d s c hc) = key hc"
  by (simp add: key_def rollback_frame)

lemma keeps_recover: "keeps (key hc) (HybridConsensus_recoverFromError env hc)"
  unfolding HybridConsensus_recoverFromError_def
  by (rule keeps_obind) (auto simp: HybridConsensus_getLastCheckpoint_def Let_def dest!: key_restore split: option.splits prod.splits)

lemma keeps_strategy: "keeps (key hc) (apply_strategy env strategy hc)"
proof -
  have "keeps (key hc) (RecoveryManager_applyCheckpointStrategy env hc)"
    unfolding RecoveryManager_applyCheckpointStrategy_def by (auto intro!: keeps_obind keeps_recover)
  moreover have "keeps (key hc) (RecoveryManager_applyResetStrategy env hc)" "keeps (key hc) (RecoveryManager_applyRestartStrategy env hc)"
    unfolding RecoveryManager_applyResetStrategy_def RecoveryManager_applyRestartStrategy_def
    by (auto dest!: key_stop key_start split: prod.splits option.splits)
  ultimately show ?thesis
    by (simp add: apply_strategy_def RecoveryManager_applyRetryStrategy_def RecoveryManager_applyManualStrategy_def)
qed

lemma keeps_handle: "keeps (key hc) (RecoveryManager_HandleError env err hc)"
proof -
  have "keeps (key hc) (obind (apply_strategy env s (update_rm f (hc\<lparr>hc_recoveryManager := rm\<rparr>))) (\<lambda>x hc. Returns (g x) hc))" for s f rm g
    by (rule keeps_obind) (use keeps_strategy [of "update_rm f (hc\<lparr>hc_recoveryManager := rm\<rparr>)"] in simp_all)
  then show ?thesis by (auto simp: RecoveryManager_HandleError_def Let_def split: option.splits prod.splits bool.splits)
qed

lemma keeps_clean: "keeps (key hc) (HybridConsensus_cleanOldCheckpoints n hc)"
  by (simp add: HybridConsensus_cleanOldCheckpoints_def)

lemma keeps_checkpoint: "keeps (key hc) (HybridConsensus_createCheckpoint env n hc)"
proof -
  have "keeps (key hc) (obind (HybridConsensus_cleanOldCheckpoints n (hc\<lparr>hc_checkpointsLocked := True, hc_checkpoints := cks, hc_lastCheckpoint := n\<rparr>))
      (\<lambda>_ hc1. Returns None (hc1\<lparr>hc_checkpointsLocked := False\<rparr>)))" for cks
    by (rule keeps_obind) (use keeps_clean [of "hc\<lparr>hc_checkpointsLocked := True, hc_checkpoints := cks, hc_lastCheckpoint := n\<rparr>" n] in simp_all)
  then show ?thesis by (auto simp: HybridConsensus_createCheckpoint_def split: sum.splits)
qed

lemma keeps_fail [simp]: "keeps k (fail e hc) \<longleftrightarrow> key hc = k"
  by (simp add: fail_def)

lemma keeps_try: "keeps (key hc) (try_recover env e hc)"
  unfolding try_recover_def by (rule keeps_obind, rule keeps_handle) (simp split: option.split)

lemma keeps_gap: "keeps (key hc) (check_gap env n hc)"
proof (cases "n > HybridConsensus_GetLastBlockHeight hc + 1")
  case True
  have g: "keeps (key hc) (try_recover env' e hc1)" if "key hc1 = key hc" for env' e hc1 using keeps_try [of hc1] that by simp
  show ?thesis unfolding check_gap_def
    using True by (simp, intro keeps_obind) (auto simp: HybridConsensus_HasCheckpoint_def g)
qed (simp add: check_gap_def)

lemma keeps_epochs: "keeps (key hc) (process_epochs env n hc)"
proof (cases "ValidatorManager_ProcessEpoch (bk_vm env) n (hc_vm hc)")
  case (Some es)
  obtain e st where es: "es = (e, st)" by fastforce
  have t: "keeps (key hc) (try_recover env' e' (hc\<lparr>hc_vm := st\<rparr>))" for env' e' using keeps_try [of "hc\<lparr>hc_vm := st\<rparr>"] by simp
  show ?thesis unfolding process_epochs_def Some es option.case prod.case
    by (rule keeps_ebind) (simp_all add: t Let_def split: option.split)
qed (simp add: process_epochs_def)

section \<open>Blocks are empty\<close>

lemma produce_empty:
  assumes "HybridConsensus_produceBlock env n v hc = (r, hc')" and "key hc = ([], m)"
  shows "key hc' = ([], m)" and "r = Inr block \<Longrightarrow> blk_Events block = [] \<and> blk_Number block = n \<and> blk_Producer block = byteArrayToString v"
  using assms by (auto simp: HybridConsensus_produceBlock_def HybridConsensus_collectPendingEvents_def key_def split: sum.splits prod.splits)

text \<open>A stage that gives a block without events.\<close>

fun gives_empty :: "nat list \<times> int \<Rightarrow> (ConsensusError + HybridBlock) outcome \<Rightarrow> bool" where
  "gives_empty k (Returns (Inr b) hc) = (key hc = k \<and> blk_Events b = [])"
| "gives_empty k m = keeps k m"

lemma gives_empty_ebind: "gives_empty k m \<Longrightarrow> (\<And>b hc. key hc = k \<Longrightarrow> blk_Events b = [] \<Longrightarrow> keeps k (f b hc)) \<Longrightarrow> keeps k (ebind m f)"
  by (cases "(k, m)" rule: gives_empty.cases) (auto simp: ebind_def)

lemma make_empty:
  assumes "key hc = ([], m)"
  shows "gives_empty ([], m) (make_block env n v hc)"
proof -
  obtain r hc1 where P: "HybridConsensus_produceBlock (bk_produce env) n v hc = (r, hc1)" by (metis surj_pair)
  note P' = produce_empty [OF P assms]
  have r: "gives_empty ([], m) (case HybridConsensus_produceBlock env' n v hc2 of
      (Inr block, hc3) \<Rightarrow> Returns (Inr block) hc3 | (Inl e2, hc3) \<Rightarrow> fail (g e2) hc3)" if "key hc2 = ([], m)" for env' hc2 g
  proof -
    obtain r hc3 where Q: "HybridConsensus_produceBlock env' n v hc2 = (r, hc3)" by (metis surj_pair)
    show ?thesis using produce_empty [OF Q that] by (cases r) (simp_all add: Q fail_def)
  qed
  have e: "gives_empty k (ebind q f)" if "keeps k q" "\<And>x hc. key hc = k \<Longrightarrow> gives_empty k (f x hc)" for k and q :: "(ConsensusError + unit) outcome" and f
    using that by (cases q) (auto simp: ebind_def split: sum.splits)
  show ?thesis
  proof (cases r)
    case (Inl x)
    have t: "keeps ([], m) (try_recover env' e' hc1)" for env' e' using keeps_try [of hc1] P'(1) by simp
    show ?thesis unfolding make_block_def P Inl prod.case sum.case by (rule e [OF t], rule r)
  next
    case (Inr b)
    then show ?thesis using P' by (simp add: make_block_def P)
  qed
qed

lemma keeps_pending: "keeps (key hc) (HybridConsensus_processPendingEvents order env hc)"
proof -
  have "key (fold add_to_batch rs hc) = key hc" for rs by (induction rs arbitrary: hc) simp_all
  then show ?thesis
    by (auto simp: HybridConsensus_processPendingEvents_def run_flow_worker_def split: option.splits dest!: key_processPending)
qed

lemma keeps_apply:
  assumes "blk_Events block = []"
  shows "keeps (key hc) (HybridConsensus_applyBlock env block hc)"
  unfolding HybridConsensus_applyBlock_def using assms
  by (simp, intro keeps_obind) (auto simp: keeps_pending Let_def split: option.split)

lemma keeps_use: "blk_Events block = [] \<Longrightarrow> keeps (key hc) (use_block env n v block hc)"
  unfolding use_block_def by (auto intro!: keeps_obind keeps_apply split: option.splits)

lemma keeps_finish:
  assumes "blk_Events block = []"
  shows "keeps (key hc) (finish_block env n block hc)"
proof (cases "bk_block env (hc_store hc) block")
  case (Inr data)
  let ?hc1 = "HybridConsensus_SetLastBlockHeight n (HybridConsensus_SetLastBlockHash (sha256 data) hc)"
  have c: "keeps (key hc) (HybridConsensus_createCheckpoint cenv n ?hc1)" for cenv using keeps_checkpoint [of ?hc1] by simp
  have "keeps (key hc) (if n mod CheckpointInterval = 0
      then obind (HybridConsensus_createCheckpoint cenv n ?hc1) (\<lambda>err hc2. case err of None \<Rightarrow> Returns () hc2
        | Some e \<Rightarrow> Returns () (HybridConsensus_trackError (g e) hc2)) else Returns () ?hc1)" for cenv g
    by (auto intro!: keeps_obind c split: option.splits)
  then show ?thesis unfolding finish_block_def Inr sum.case Let_def using assms by (intro keeps_obind) simp_all
qed (simp add: finish_block_def)

lemma keeps_process:
  assumes "key hc = ([], m)"
  shows "keeps ([], m) (HybridConsensus_ProcessBlock env n hc)"
proof -
  have "keeps ([], m) (check_gap env n hc1)" "keeps ([], m) (process_epochs env n hc1)"
    "blk_Events b = [] \<Longrightarrow> keeps ([], m) (use_block env n v b hc1)" "blk_Events b = [] \<Longrightarrow> keeps ([], m) (finish_block env n b hc1)"
    if "key hc1 = ([], m)" for hc1 v b
    using keeps_gap [of hc1] keeps_epochs [of hc1] keeps_use [of b hc1] keeps_finish [of b hc1] that by simp_all
  then show ?thesis using assms unfolding HybridConsensus_ProcessBlock_def
    by (auto intro!: keeps_ebind gives_empty_ebind make_empty split: option.splits)
qed

lemma key_replay: "replay_events env rs hc = (e, hc') \<Longrightarrow> key hc' = key hc"
proof (induction rs arbitrary: hc)
  case (Cons r rs)
  obtain b e1 hc1 where F: "HybridConsensus_FinalizeEvent (env r) (Some r) hc = ((b, e1), hc1)" by (metis surj_pair)
  show ?case using Cons key_finalize [OF F] F by (cases e1) auto
qed simp

lemma key_restore_checkpoint: "restore_checkpoint ck hc = (e, hc') \<Longrightarrow> key hc' = key hc"
  by (auto simp: restore_checkpoint_def Let_def split: prod.splits option.splits)

lemma keeps_sync: "keeps (key hc) (HybridConsensus_SynchronizeState env s c hc)"
  unfolding HybridConsensus_SynchronizeState_def Let_def
  by (auto dest!: key_replay key_restore_checkpoint split: prod.split option.split sum.split)

lemma key_cleanup: "key (snd (EventFlowManager_CleanupOldEvents m hc)) = key hc"
proof -
  have e: "ef_batchSize (snd (fold (cleanup_event s) rs st)) = ef_batchSize (snd st)" for s rs st
    by (induction rs arbitrary: st) (simp_all add: cleanup_event_def Let_def split: prod.splits)
  have "ef_batchSize (snd (cleanup_height s h st)) = ef_batchSize (snd st)" for s h st
    using e [of s "the (ef_eventsByHeight (snd st) h)" st] by (auto simp: cleanup_height_def split: option.splits prod.splits)
  then have "ef_batchSize (snd (fold (cleanup_height s) hs st)) = ef_batchSize (snd st)" for s hs st
    by (induction hs arbitrary: st) simp_all
  from this [of "hc_store hc" "map word_of_nat [0..<unat m]" "(0, hc_eventFlow hc)"] show ?thesis
    by (auto simp: EventFlowManager_CleanupOldEvents_def key_def split: prod.splits)
qed

lemma grow_size:
  assumes "0 < n" "n \<le> 2 ^ 53"
  shows "n \<le> f64_to_int64 conv (f64_mul (f64_of_int n) (rnd (12 / 10)))"
proof -
  obtain c where c: "rnd (12 / 10) = Fin c" "1 \<le> c" "c \<le> 2"
    using rnd_between [of 1 2 "12 / 10"] rnd_int [of 1] rnd_int [of 2] by auto
  have n: "f64_of_int n = Fin (of_int n)" using assms by (simp add: f64_of_int_def rnd_int)
  have two: "rnd (of_int n * 2) = Fin (of_int n * 2)"
  proof -
    have "f64_round (of_int n * pow2 1) = of_int n * pow2 1" using assms by (intro f64_round_exact) simp_all
    moreover have "(of_int n :: rat) * 2 < 2 ^ 1024"
    proof -
      have "(of_int n :: rat) \<le> of_int (2 ^ 53)" using assms(2) by (simp only: of_int_le_iff)
      then show ?thesis by simp
    qed
    moreover have "0 \<le> (of_int n :: rat) * 2" using assms(1) by simp
    ultimately show ?thesis by (simp add: rnd_def pow2_def Let_def)
  qed
  have le: "of_int n \<le> of_int n * c" "of_int n * c \<le> of_int n * 2" using c assms(1) by (simp_all add: mult_left_mono)
  have "rnd (of_int n) = Fin (of_int n)" using assms by (intro rnd_int) simp
  from rnd_between [OF this two le] obtain t where t: "rnd (of_int n * c) = Fin t" "of_int n \<le> t" "t \<le> of_int n * 2" by auto
  have f: "n \<le> \<lfloor>t\<rfloor>" using t(2) by (simp add: le_floor_iff)
  have "t \<le> of_int (2 * n)" using t(3) by simp
  then have "\<lfloor>t\<rfloor> \<le> 2 * n" by linarith
  also have "\<dots> < 2 ^ 63" using assms(2) by simp
  finally have "\<lfloor>t\<rfloor> < 2 ^ 63" .
  moreover have "0 \<le> t" using t(2) assms(1) by (meson dual_order.trans of_int_0_le_iff order_less_imp_le)
  ultimately show ?thesis using f assms(1) unfolding n c(1) f64_mul.simps t(1) by (simp add: rat_trunc_def)
qed

text \<open>A batch size that a consensus may have.\<close>

definition sized :: "int \<Rightarrow> bool" where
  "sized n \<longleftrightarrow> 0 < n \<and> n \<le> 2 ^ 53"

lemma adjust_sized:
  assumes "sized (ef_batchSize ef)"
  shows "sized (ef_batchSize (EventFlowManager_adjustBatchSize conv ef))"
proof -
  have n: "0 < ef_batchSize ef" "ef_batchSize ef \<le> 2 ^ 53" using assms by (simp_all add: sized_def)
  show ?thesis using n shrink_size [OF n, of conv] grow_size [OF n, of conv]
    by (auto simp: EventFlowManager_adjustBatchSize_def Let_def sized_def)
qed

section \<open>Runs of the consensus\<close>

fun reaches :: "'a outcome \<Rightarrow> HybridConsensus \<Rightarrow> bool" where
  "reaches (Returns x hc) hc' = (hc' = hc)"
| "reaches Panics hc' = False"
| "reaches (Blocks hc) hc' = (hc' = hc)"

lemma keeps_reaches: "keeps k m \<Longrightarrow> reaches m hc' \<Longrightarrow> key hc' = k"
  by (cases m) auto

text \<open>The steps of a running node. The first rule stands for every operation of the modules that the consensus does not call itself: the validator
  manager, the event and the stake modules, the proof of history, governance, the recovery manager and the batch processor keep
  their state apart from the rest, so they are allowed to do anything to it.\<close>

inductive hybrid_step :: "HybridConsensus \<Rightarrow> HybridConsensus \<Rightarrow> bool" where
  modules: "hybrid_step hc (hc\<lparr>hc_vm := st, hc_poh := p, hc_governance := g, hc_recoveryManager := rm, hc_batchProcessor := bp\<rparr>)"
| add_validator: "reaches (HybridConsensus_AddValidator venv i stake hc) hc' \<Longrightarrow> hybrid_step hc hc'"
| update_stake: "reaches (HybridConsensus_UpdateStake venv i stake hc) hc' \<Longrightarrow> hybrid_step hc hc'"
| create_event: "HybridConsensus_CreateEvent now cenv creator ps data hc = (r, hc') \<Longrightarrow> hybrid_step hc hc'"
| finalize_event: "HybridConsensus_FinalizeEvent fenv (Some r) hc = (res, hc') \<Longrightarrow> hybrid_step hc hc'"
| finalize_goroutine: "hybrid_step hc (EventFlowManager_finalizeEvent timedOut flenv r hc)"
| worker: "EventFlowManager_processPendingEvents wenv hc = Some hc' \<Longrightarrow> hybrid_step hc hc'"
| adapt: "hybrid_step hc (update_ef (EventFlowManager_adjustBatchSize conv) hc)"
| partition: "hybrid_step hc (HybridConsensus_HandleNetworkPartition nows srt1 srt2 events hc)"
| cleanup: "hybrid_step hc (snd (EventFlowManager_CleanupOldEvents m hc))"
| set_batch_size: "n \<le> 2 ^ 53 \<Longrightarrow> hybrid_step hc (update_ef (EventFlowManager_SetBatchSize n) hc)"
| process_block: "reaches (HybridConsensus_ProcessBlock benv n hc) hc' \<Longrightarrow> hybrid_step hc hc'"
| handle_error: "reaches (RecoveryManager_HandleError henv err hc) hc' \<Longrightarrow> hybrid_step hc hc'"
| recover: "reaches (HybridConsensus_recoverFromError renv hc) hc' \<Longrightarrow> hybrid_step hc hc'"
| synchronize: "reaches (HybridConsensus_SynchronizeState senv s c hc) hc' \<Longrightarrow> hybrid_step hc hc'"
| execute: "reaches (HybridConsensus_ExecuteProposal genv i hc) hc' \<Longrightarrow> hybrid_step hc hc'"
| govern: "reaches (HybridConsensus_startGovernance genv now tord hc) hc' \<Longrightarrow> hybrid_step hc hc'"
| tick: "hybrid_step hc (HybridConsensus_startPoH now hc)"
| produce: "reaches (HybridConsensus_startBlockProduction conv benv renv timedOut errors hc) hc' \<Longrightarrow> hybrid_step hc hc'"
| start: "HybridConsensus_Start hc = (res, hc') \<Longrightarrow> hybrid_step hc hc'"
| stop: "HybridConsensus_Stop timedOut hc = (res, hc') \<Longrightarrow> hybrid_step hc hc'"
| clear: "hybrid_step hc (HybridConsensus_cleanupGoroutines hc)"

inductive hybrid_reachable :: "HybridConsensus \<Rightarrow> bool" where
  init: "hybrid_reachable (NewHybridConsensusWithConfig now cfg)"
| step: "hybrid_reachable hc \<Longrightarrow> hybrid_step hc hc' \<Longrightarrow> hybrid_reachable hc'"

definition hybrid_inv :: "HybridConsensus \<Rightarrow> bool" where
  "hybrid_inv hc \<longleftrightarrow> hc_pendingEvents hc = [] \<and> sized (ef_batchSize (hc_eventFlow hc))"

lemma inv_key: "key hc' = key hc \<Longrightarrow> hybrid_inv hc \<Longrightarrow> hybrid_inv hc'"
  by (simp add: hybrid_inv_def key_def)

lemma inv_keeps: "keeps (key hc) m \<Longrightarrow> reaches m hc' \<Longrightarrow> hybrid_inv hc \<Longrightarrow> hybrid_inv hc'"
  by (metis inv_key keeps_reaches)

lemma keeps_production:
  assumes "key hc = ([], m)"
  shows "keeps ([], m) (HybridConsensus_startBlockProduction conv env renv t n hc)"
proof -
  note P = keeps_process [OF assms]
  have c: "keeps (key hc1) (count_error renv w k hc1)" for w k hc1
    unfolding count_error_def by (auto intro!: keeps_obind keeps_recover)
  show ?thesis
  proof (cases "HybridConsensus_ProcessBlock env (HybridConsensus_GetLastBlockHeight hc + 1) hc")
    case (Returns r hc1)
    have "key hc1 = ([], m)" using P [of env "HybridConsensus_GetLastBlockHeight hc + 1"] Returns by simp
    then show ?thesis using assms Returns c [of hc1] by (cases r) (simp_all add: HybridConsensus_startBlockProduction_def Let_def)
  next
    case Panics
    then show ?thesis using assms by (simp add: HybridConsensus_startBlockProduction_def Let_def)
  next
    case (Blocks hc1)
    have "key hc1 = ([], m)" using P [of env "HybridConsensus_GetLastBlockHeight hc + 1"] Blocks by simp
    then show ?thesis using assms Blocks by (simp add: HybridConsensus_startBlockProduction_def Let_def)
  qed
qed

lemma hybrid_step_inv:
  assumes "hybrid_step hc hc'" and inv: "hybrid_inv hc"
  shows "hybrid_inv hc'"
  using assms(1)
proof cases
  case (process_block benv n)
  have "key hc = ([], ef_batchSize (hc_eventFlow hc))" using inv by (simp add: hybrid_inv_def key_def)
  from keeps_reaches [OF keeps_process [OF this] process_block] inv show ?thesis by (simp add: hybrid_inv_def key_def)
next
  case (produce conv benv renv t e)
  have "key hc = ([], ef_batchSize (hc_eventFlow hc))" using inv by (simp add: hybrid_inv_def key_def)
  from keeps_reaches [OF keeps_production [OF this] produce] inv show ?thesis by (simp add: hybrid_inv_def key_def)
next
  case (finalize_event fenv r res)
  then show ?thesis using key_finalize [of fenv r hc "fst res" "snd res" hc'] inv by (auto intro: inv_key)
next
  case (adapt conv)
  then show ?thesis using inv adjust_sized [of "hc_eventFlow hc" conv] by (simp add: hybrid_inv_def)
next
  case (set_batch_size n)
  then show ?thesis using inv by (simp add: hybrid_inv_def EventFlowManager_SetBatchSize_def sized_def)
next
  case clear
  then show ?thesis using inv by (simp add: hybrid_inv_def HybridConsensus_cleanupGoroutines_def)
next
  case (partition nows srt1 srt2 events)
  then show ?thesis using inv
    by (auto simp: HybridConsensus_HandleNetworkPartition_def EventFlowManager_HandleNetworkPartition_def key_partition intro: inv_key)
next
  case (tick now)
  then show ?thesis using inv by (auto simp: HybridConsensus_startPoH_def Let_def intro: inv_key)
next
  case (execute genv i)
  then show ?thesis using inv by (auto simp: HybridConsensus_ExecuteProposal_def split: option.splits intro: inv_key)
next
  case (govern genv now tord)
  then show ?thesis using inv by (auto simp: HybridConsensus_startGovernance_def split: option.splits intro: inv_key)
next
  case (add_validator venv i stake)
  then show ?thesis using inv by (auto simp: HybridConsensus_AddValidator_def split: option.splits intro: inv_key)
next
  case (update_stake venv i stake)
  then show ?thesis using inv by (auto simp: HybridConsensus_UpdateStake_def split: option.splits intro: inv_key)
next
  case (modules st p g rm bp)
  then show ?thesis using inv by (simp add: hybrid_inv_def)
qed (use inv in \<open>auto intro: inv_key inv_keeps keeps_handle keeps_recover keeps_sync simp: key_finalizeEvent key_cleanup
  dest: key_create key_processPending key_start key_stop\<close>)

lemma hybrid_reachable_inv: "hybrid_reachable hc \<Longrightarrow> hybrid_inv hc"
proof (induction rule: hybrid_reachable.induct)
  case (init now cfg)
  then show ?case by (simp add: hybrid_inv_def NewHybridConsensusWithConfig_def Let_def NewEventFlowManager_def sized_def)
next
  case (step hc hc')
  then show ?case by (blast intro: hybrid_step_inv)
qed

text \<open>C4: No block ever contains an event: the list of pending events that \<open>produceBlock\<close> puts into a block is filled only with events
  of earlier blocks, while new events go to the event flow manager. So in every state that a node can reach, whatever the order of its goroutines, the
  block it produces is empty. The finalization worker of that node always ends a round.\<close>

theorem blocks_always_empty:
  assumes "hybrid_reachable hc"
  shows "(case HybridConsensus_produceBlock env n v hc of (Inr block, _) \<Rightarrow> blk_Events block = [] \<and> blk_Number block = n | (Inl _, _) \<Rightarrow> True) \<and>
    EventFlowManager_processPendingEvents wenv hc \<noteq> None"
proof -
  note inv = hybrid_reachable_inv [OF assms]
  obtain r hc' where P: "HybridConsensus_produceBlock env n v hc = (r, hc')" by (metis surj_pair)
  have k: "key hc = ([], ef_batchSize (hc_eventFlow hc))" using inv by (simp add: hybrid_inv_def key_def)
  have "0 < ef_batchSize (hc_eventFlow hc)" using inv by (simp add: hybrid_inv_def sized_def)
  from chunks_ok [OF this] have "EventFlowManager_processPendingEvents wenv hc \<noteq> None"
    by (auto simp: EventFlowManager_processPendingEvents_def Let_def split: option.splits prod.splits)
  then show ?thesis using produce_empty [OF P k] unfolding P by (auto split: sum.split)
qed

theorem blocks_always_empty_witness:
  "\<forall>env wenv. (case HybridConsensus_produceBlock env 1 7 (NewHybridConsensusWithConfig 0 TestHybridConfig) of
     (Inr block, _) \<Rightarrow> blk_Events block = [] | (Inl _, _) \<Rightarrow> True) \<and>
   EventFlowManager_processPendingEvents wenv (NewHybridConsensusWithConfig 0 TestHybridConfig) \<noteq> None"
proof (intro allI)
  fix env wenv
  show "(case HybridConsensus_produceBlock env 1 7 (NewHybridConsensusWithConfig 0 TestHybridConfig) of
     (Inr block, _) \<Rightarrow> blk_Events block = [] | (Inl _, _) \<Rightarrow> True) \<and>
   EventFlowManager_processPendingEvents wenv (NewHybridConsensusWithConfig 0 TestHybridConfig) \<noteq> None"
    using blocks_always_empty [OF hybrid_reachable.init [of 0 TestHybridConfig], where env = env and n = 1 and v = 7 and wenv = wenv] by (auto split: prod.splits sum.splits)
qed

section \<open>The next block\<close>

text \<open>What the finalization of events leaves as it is.\<close>

definition node_frame :: "HybridConsensus \<Rightarrow> HybridConsensus \<Rightarrow> bool" where
  "node_frame hc hc' \<longleftrightarrow>
     hc_poh hc' = hc_poh hc \<and> hc_cfg hc' = hc_cfg hc \<and> hc_lastBlockHeight hc' = hc_lastBlockHeight hc \<and>
     hc_checkpoints hc' = hc_checkpoints hc \<and> hc_lastCheckpoint hc' = hc_lastCheckpoint hc \<and>
     hc_checkpointInterval hc' = hc_checkpointInterval hc \<and> hc_checkpointsLocked hc' = hc_checkpointsLocked hc \<and>
     hc_running hc' = hc_running hc"

lemma node_frame_refl [simp]: "node_frame hc hc"
  by (simp add: node_frame_def)

lemma node_frame_trans: "node_frame hc hc1 \<Longrightarrow> node_frame hc1 hc2 \<Longrightarrow> node_frame hc hc2"
  by (simp add: node_frame_def)

lemma hc_frame_node: "hc_frame hc hc' \<Longrightarrow> node_frame hc hc'"
  by (simp add: hc_frame_def node_frame_def)

lemma handle_node: "node_frame hc (EventFlowManager_handleFinalizedEvent env r hc)"
  by (simp add: EventFlowManager_handleFinalizedEvent_def Let_def node_frame_def update_ef_def)

lemma flow_loop_node: "flow_loop env rs (a, b) hc = (acc', hc') \<Longrightarrow> node_frame hc hc'"
proof (induction rs arbitrary: a b hc)
  case (Cons r rs)
  show ?case
  proof (cases "due env hc r")
    case False
    then obtain p f hc1 where S: "flow_loop env (r # rs) (a, b) hc = flow_loop env rs (p, f) hc1" "hc_frame hc hc1" by (rule not_due_step)
    then show ?thesis using Cons hc_frame_node node_frame_trans by metis
  next
    case True
    obtain err hc1 where S: "HybridConsensus_FinalizeEvent (fl_fin (env r)) (Some r) hc = ((True, err), hc1)"
      "flow_loop env (r # rs) (a, b) hc = flow_loop env rs (a + 1, b + 1) (EventFlowManager_handleFinalizedEvent (env r) r hc1)"
      by (rule due_step [OF True], rule that)
    from hc_frame_node [OF FinalizeEvent_effect(5) [OF S(1)]] have "node_frame hc (EventFlowManager_handleFinalizedEvent (env r) r hc1)"
      using handle_node node_frame_trans by blast
    then show ?thesis using Cons.IH Cons.prems S(2) node_frame_trans by metis
  qed
qed simp

lemma pending_returns:
  assumes "sized (ef_batchSize (hc_eventFlow hc))"
  shows "\<exists>hc'. HybridConsensus_processPendingEvents order env hc = Returns () hc' \<and> node_frame hc hc'"
proof -
  let ?hc1 = "fold add_to_batch (EventFlowManager_GetPendingEvents order (hc_eventFlow hc)) hc"
  have f: "node_frame hc (fold add_to_batch rs hc) \<and> hc_eventFlow (fold add_to_batch rs hc) = hc_eventFlow hc" for rs
    by (induction rs arbitrary: hc) (auto simp: node_frame_def add_to_batch_def)
  have "0 < ef_batchSize (hc_eventFlow ?hc1)" using assms f by (simp add: sized_def)
  let ?pending = "wk_sort env (EventFlowManager_GetPendingEvents (wk_order env) (hc_eventFlow ?hc1))"
  from chunks_ok [OF \<open>0 < ef_batchSize (hc_eventFlow ?hc1)\<close>] obtain cs where cs: "chunks (ef_batchSize (hc_eventFlow ?hc1)) ?pending = Some cs" by blast
  obtain p q hc2 where L: "flow_loop (wk_event env) (concat cs) (0, 0) ?hc1 = ((p, q), hc2)" by (metis surj_pair)
  have "node_frame hc hc2" using flow_loop_node [OF L] f node_frame_trans by blast
  then show ?thesis
    using cs L by (auto simp: HybridConsensus_processPendingEvents_def run_flow_worker_def EventFlowManager_processPendingEvents_def Let_def
        node_frame_def update_ef_def)
qed

lemma apply_returns:
  assumes "sized (ef_batchSize (hc_eventFlow hc))" and "blk_Events block = []" and "blk_Producer block = byteArrayToString v"
  shows "\<exists>hc'. HybridConsensus_applyBlock env block hc = Returns None hc' \<and> node_frame hc hc' \<and> hc_finalizedEvents hc' (blk_Number block) = Some []"
proof -
  obtain hc1 where P: "HybridConsensus_processPendingEvents (ap_pending env) (ap_work env) hc = Returns () hc1" "node_frame hc hc1"
    using pending_returns [OF assms(1)] by blast
  have "hex_decode (blk_Producer block) = Some (hash_bytes v)" by (simp add: assms(3) byteArrayToString_def hex_decode_encode)
  then show ?thesis using P assms(2) by (simp add: HybridConsensus_applyBlock_def Let_def node_frame_def)
qed

text \<open>What a node needs to produce its next block, if the block is neither the end of an epoch nor a checkpoint.\<close>

definition can_produce :: "BlockEnv \<Rightarrow> HybridConsensus \<Rightarrow> bool" where
  "can_produce env hc \<longleftrightarrow>
     (let n = hc_lastBlockHeight hc + 1; e = dp_epochDuration (hc_dpos hc) in
      hc_running hc \<and> e \<noteq> 0 \<and> n mod e \<noteq> 0 \<and> dp_activeValidators (hc_dpos hc) \<noteq> [] \<and>
      length (dp_activeValidators (hc_dpos hc)) < 2 ^ 64)"

text \<open>The encoders of \<open>json.Marshal\<close> do not fail on the data of a block without events.\<close>

definition encodes :: "BlockEnv \<Rightarrow> bool" where
  "encodes env \<longleftrightarrow> (\<forall>s. isl (pe_events (bk_produce env) s []) = False) \<and> (\<forall>s b. isl (bk_block env s b) = False)"

lemma next_block_stages:
  assumes inv: "hybrid_inv hc" and can: "can_produce env hc" and enc: "encodes env"
  defines "n \<equiv> hc_lastBlockHeight hc + 1"
  obtains v data block hc1 where "HybridConsensus_ProcessBlock env n hc = finish_block env n block hc1"
    and "pe_events (bk_produce env) (hc_store hc) [] = Inr data"
    and "blk_Events block = []" "blk_Number block = n" "blk_Producer block = byteArrayToString v"
    and "v \<in> (\<lambda>e. v_ID (active_obj (hc_dpos hc) e)) ` set (dp_activeValidators (hc_dpos hc))"
    and "node_frame (hc\<lparr>hc_poh := snd (PoH_Record (pe_record (bk_produce env)) (hash_bytes (sha256 data)) (hc_poh hc))\<rparr>) hc1"
    and "hc_finalizedEvents hc1 n = Some []"
proof -
  let ?d = "hc_dpos hc"
  have run: "hc_running hc" and act: "dp_activeValidators ?d \<noteq> []" and e: "dp_epochDuration ?d \<noteq> 0" "n mod dp_epochDuration ?d \<noteq> 0"
    using can by (simp_all add: can_produce_def Let_def n_def)
  have gap: "check_gap env n hc = Returns (Inr ()) hc" by (simp add: check_gap_def HybridConsensus_GetLastBlockHeight_def n_def)
  have epoch: "process_epochs env n hc = Returns (Inr ()) hc"
    using e by (simp add: process_epochs_def ValidatorManager_ProcessEpoch_def DPoS_GetEpochDuration_def DPoS_ProcessEpoch_def Let_def ebind_def
        set_dpos_def)
  obtain v st where v: "ValidatorManager_GetNextValidator n (HybridConsensus_GetLastBlockHash hc) (hc_vm hc) = Some (v, st)"
    "v \<in> (\<lambda>e. v_ID (active_obj ?d e)) ` set (dp_activeValidators ?d)"
  proof -
    define k where "k = unat ((of_be_bytes (take 8 (hash_bytes (sha256 (hash_bytes (HybridConsensus_GetLastBlockHash hc) @ uint64ToBytes n)))) :: uint64)
      mod word_of_nat (length (dp_activeValidators ?d)))"
    have "k < length (dp_activeValidators ?d)"
      using can act by (simp add: k_def can_produce_def Let_def unat_mod unsigned_of_nat take_bit_nat_eq_self)
    then show ?thesis using act by (intro that) (auto simp: ValidatorManager_GetNextValidator_def DPoS_GetNextValidator_def Let_def k_def)
  qed
  obtain data where data: "pe_events (bk_produce env) (hc_store hc) [] = Inr data" using enc by (metis encodes_def isl_def old.sum.exhaust)
  let ?p = "PoH_Record (pe_record (bk_produce env)) (hash_bytes (sha256 data)) (hc_poh hc)" and ?hc1 = "hc\<lparr>hc_poh := snd (PoH_Record
    (pe_record (bk_produce env)) (hash_bytes (sha256 data)) (hc_poh hc))\<rparr>"
  define block where "block = \<lparr>blk_Number = n, blk_Timestamp = pe_time (bk_produce env), blk_Producer = byteArrayToString v, blk_Events = [],
    blk_PoHHash = byteArrayToString (fst ?p), blk_CreatedAt = zero_time\<rparr>"
  have pend: "hc_pendingEvents hc = []" using inv by (simp add: hybrid_inv_def)
  then have [simp]: "hc\<lparr>hc_pendingEvents := []\<rparr> = hc" by (metis (no_types) HybridConsensus.surjective HybridConsensus.update_convs(11))
  have make: "make_block env n v hc = Returns (Inr block) ?hc1"
    using data by (simp add: make_block_def HybridConsensus_produceBlock_def HybridConsensus_collectPendingEvents_def pend block_def
        split: prod.splits)
  obtain hc2 where A: "HybridConsensus_applyBlock (bk_apply env) block ?hc1 = Returns None hc2" "node_frame ?hc1 hc2" "hc_finalizedEvents hc2 n = Some []"
    using apply_returns [of ?hc1 block v "bk_apply env"] inv by (auto simp: block_def hybrid_inv_def)
  have use: "use_block env n v block ?hc1 = Returns (Inr ()) hc2"
    using A(1) by (simp add: use_block_def HybridConsensus_validateBlock_def HybridConsensus_GetLastBlockHeight_def block_def n_def)
  have "HybridConsensus_ProcessBlock env n hc = finish_block env n block hc2"
    using run v(1) by (simp add: HybridConsensus_ProcessBlock_def HybridConsensus_IsRunning_def gap epoch ebind_def make use)
  then show thesis using that data v(2) A(2,3) by (simp add: block_def)
qed

text \<open>C5: A running node with an active validator produces its next block: unless the block ends an epoch or is a checkpoint, \<open>ProcessBlock\<close>
  returns without an error, the height goes up by one and the hash is that of the new block, whose producer is one of the active
  validators; the proof of history has advanced.\<close>

theorem next_block_produced:
  assumes "hybrid_reachable hc" and "can_produce env hc" and "encodes env" and "(hc_lastBlockHeight hc + 1) mod CheckpointInterval \<noteq> 0"
  shows "\<exists>hc' s block data. HybridConsensus_ProcessBlock env (hc_lastBlockHeight hc + 1) hc = Returns (Inr ()) hc' \<and>
    hc_lastBlockHeight hc' = hc_lastBlockHeight hc + 1 \<and> bk_block env s block = Inr data \<and> hc_lastBlockHash hc' = sha256 data \<and>
    blk_Number block = hc_lastBlockHeight hc' \<and>
    blk_Producer block \<in> (\<lambda>e. byteArrayToString (v_ID (active_obj (hc_dpos hc) e))) ` set (dp_activeValidators (hc_dpos hc)) \<and>
    poh_count (hc_poh hc') \<in> {poh_count (hc_poh hc) + 1, poh_count (hc_poh hc) + 2}"
proof -
  let ?n = "hc_lastBlockHeight hc + 1"
  obtain v d block hc1 where S: "HybridConsensus_ProcessBlock env ?n hc = finish_block env ?n block hc1"
    "blk_Events block = []" "blk_Number block = ?n" "blk_Producer block = byteArrayToString v"
    "v \<in> (\<lambda>e. v_ID (active_obj (hc_dpos hc) e)) ` set (dp_activeValidators (hc_dpos hc))"
    "node_frame (hc\<lparr>hc_poh := snd (PoH_Record (pe_record (bk_produce env)) (hash_bytes (sha256 d)) (hc_poh hc))\<rparr>) hc1"
    by (rule next_block_stages [OF hybrid_reachable_inv [OF assms(1)] assms(2,3)], rule that)
  obtain data where D: "bk_block env (hc_store hc1) block = Inr data" using assms(3) by (metis encodes_def isl_def old.sum.exhaust)
  let ?hc' = "HybridConsensus_SetLastBlockHeight ?n (HybridConsensus_SetLastBlockHash (sha256 data) hc1)"
  have "finish_block env ?n block hc1 = Returns (Inr ()) ?hc'" using D S(2) assms(4) by (simp add: finish_block_def Let_def)
  moreover have "poh_count (snd (PoH_Record t bs p)) \<in> {poh_count p + 1, poh_count p + 2}" for t bs p
    by (simp add: PoH_Record_def PoH_tickLocked_def PoH_advanceState_def Let_def)
  then have "poh_count (hc_poh ?hc') \<in> {poh_count (hc_poh hc) + 1, poh_count (hc_poh hc) + 2}"
    using S(6) by (simp add: node_frame_def HybridConsensus_SetLastBlockHeight_def HybridConsensus_SetLastBlockHash_def)
  ultimately show ?thesis using S(1,3-5) D
    by (intro exI [of _ ?hc'] exI [of _ "hc_store hc1"] exI [of _ block] exI [of _ data])
       (auto simp: HybridConsensus_SetLastBlockHeight_def HybridConsensus_SetLastBlockHash_def)
qed

text \<open>A node in production mode with one active validator.\<close>

definition handle_example :: HandleEnv where
  "handle_example = \<lparr>hn_wrap = 0, hn_check = 0, hn_activate = 0,
     hn_recover = \<lparr>re_save = \<lparr>so_heights = [], so_nodes = [], so_events = [], so_peers = [], so_finalized = [], so_checkpoints = []\<rparr>,
       re_dpos = [7], re_sync = 0, re_rollback = 0, re_nodes = []\<rparr>, hn_timedOut = False\<rparr>"

definition block_env :: BlockEnv where
  "block_env = \<lparr>bk_now = 0, bk_gap = handle_example, bk_vm = fl_vm (flow_env 0), bk_epoch = handle_example,
     bk_dpos = \<lparr>de_pow = (\<lambda>_ _. f64_1), de_nows = (\<lambda>_. 0), de_now = 0, de_order = [7], de_srt = [7]\<rparr>,
     bk_produce = \<lparr>pe_events = (\<lambda>_ _. Inr [1]), pe_record = 0, pe_time = 0\<rparr>, bk_retry = handle_example,
     bk_produce2 = \<lparr>pe_events = (\<lambda>_ _. Inr [1]), pe_record = 0, pe_time = 0\<rparr>,
     bk_apply = \<lparr>ap_fin = (\<lambda>_. fl_fin (flow_env 0)), ap_pending = [], ap_work = work_env, ap_reward = fl_vm (flow_env 0)\<rparr>,
     bk_block = (\<lambda>_ _. Inr [2]),
     bk_checkpoint = \<lparr>ce_save = re_save (hn_recover handle_example), ce_dpos = [7], ce_lachBytes = (\<lambda>_. [1]), ce_dposBytes = (\<lambda>_. [1]), ce_created = 0\<rparr>,
     bk_checkpointText = (\<lambda>_. ''error'')\<rparr>"

definition node_example :: HybridConsensus where
  "node_example = snd (HybridConsensus_Start ((NewHybridConsensusWithConfig 0 DefaultHybridConfig)
     \<lparr>hc_vm := \<lparr>st_vm = NewValidatorManager, st_dpos = dpos_example, st_lachesis = NewLachesis 100\<rparr>\<rparr>))"

lemma node_example_reachable: "hybrid_reachable node_example"
proof -
  let ?n = "NewHybridConsensusWithConfig 0 DefaultHybridConfig"
  let ?m = "?n\<lparr>hc_vm := \<lparr>st_vm = NewValidatorManager, st_dpos = dpos_example, st_lachesis = NewLachesis 100\<rparr>\<rparr>"
  have "hybrid_step ?n ?m"
    using hybrid_step.modules [where hc = ?n and st = "hc_vm ?m" and p = "hc_poh ?n" and g = "hc_governance ?n"
      and rm = "hc_recoveryManager ?n" and bp = "hc_batchProcessor ?n"] by simp
  moreover obtain r where "HybridConsensus_Start ?m = (r, node_example)" unfolding node_example_def by (metis prod.collapse)
  ultimately show ?thesis using hybrid_reachable.init hybrid_reachable.step hybrid_step.start by meson
qed

lemma node_example_simps:
  "hc_running node_example" "hc_lastBlockHeight node_example = 0" "hc_dpos node_example = dpos_example" "hc_checkpointInterval node_example = 1000"
  "\<not> hc_checkpointsLocked node_example" "hc_lachesis node_example = snd (Lachesis_Start (NewLachesis 100))"
  unfolding node_example_def NewHybridConsensusWithConfig_def DefaultConfig_valid
  by (simp_all add: HybridConsensus_Start_def start_modules_def EventFlowManager_Start_def Let_def set_lachesis_def DefaultHybridConfig_def
      split: prod.split option.split)

theorem next_block_produced_witness:
  "\<exists>hc'. HybridConsensus_ProcessBlock block_env 1 node_example = Returns (Inr ()) hc' \<and> hc_lastBlockHeight hc' = 1"
proof -
  have "can_produce block_env node_example" "encodes block_env" "(hc_lastBlockHeight node_example + 1) mod CheckpointInterval \<noteq> 0"
    by (simp_all add: can_produce_def encodes_def node_example_simps block_env_def CheckpointInterval_def dpos_example_def)
  from next_block_produced [OF node_example_reachable this] show ?thesis unfolding node_example_simps by auto
qed

section \<open>Where the production of blocks ends\<close>

text \<open>C12: The first checkpoint after two checkpoint intervals stops the node's checkpoints for ever: \<open>createCheckpoint\<close> holds the mutex of
  the checkpoints while \<open>cleanOldCheckpoints\<close> locks it again, so the goroutine that finishes the block never returns and never releases the
  mutex; from then on every look at a checkpoint and every recovery blocks as well.\<close>

theorem checkpoint_deadlock:
  assumes "bk_block env (hc_store hc) block = Inr data" and "n mod CheckpointInterval = 0"
    and "hc_checkpointInterval hc \<noteq> 0" "n mod hc_checkpointInterval hc = 0" "hc_checkpointInterval hc * 2 < n"
    and "\<not> hc_checkpointsLocked hc"
    and "Lachesis_GetState (ce_save (bk_checkpoint env)) (hc_lachesis hc) = Inr ls" "DPoS_GetState (ce_dpos (bk_checkpoint env)) (hc_dpos hc) = Inr ds"
    and "ce_lachBytes (bk_checkpoint env) ls \<noteq> []" "ce_dposBytes (bk_checkpoint env) ds \<noteq> []"
  shows "\<exists>hc'. finish_block env n block hc = Blocks hc' \<and> hc_lastBlockHeight hc' = n \<and> hc_checkpointsLocked hc' \<and>
    (\<forall>m. HybridConsensus_HasCheckpoint m hc' = Blocks hc') \<and> (\<forall>renv. HybridConsensus_recoverFromError renv hc' = Blocks hc')"
  using assms
  by (simp add: finish_block_def Let_def HybridConsensus_createCheckpoint_def HybridConsensus_cleanOldCheckpoints_def HybridConsensus_SetLastBlockHeight_def
      HybridConsensus_SetLastBlockHash_def HybridConsensus_HasCheckpoint_def HybridConsensus_recoverFromError_def HybridConsensus_getLastCheckpoint_def
      not_le)

theorem checkpoint_deadlock_witness:
  "\<forall>block. \<exists>hc'. finish_block block_env 3000 block node_example = Blocks hc' \<and> hc_checkpointsLocked hc'"
proof
  fix block
  obtain t where t: "vv_threshold NewVirtualVoting = Fin t" using default_threshold by blast
  have l: "l_GossipProtocol (hc_lachesis node_example) = NewGossipProtocol 100" "l_VirtualVoting (hc_lachesis node_example) = NewVirtualVoting"
    by (simp_all add: node_example_simps Lachesis_Start_def NewLachesis_def)
  obtain ls where ls: "Lachesis_GetState (ce_save (bk_checkpoint block_env)) (hc_lachesis node_example) = Inr ls"
    using t by (simp add: Lachesis_GetState_def l GossipProtocol_GetState_def NewGossipProtocol_def VirtualVoting_GetState_def Let_def)
  obtain ds where ds: "DPoS_GetState (ce_dpos (bk_checkpoint block_env)) (hc_dpos node_example) = Inr ds"
    by (simp add: node_example_simps block_env_def DPoS_GetState_def dpos_example_def v_example_def f64_finite_def Let_def)
  have e: "bk_block block_env (hc_store node_example) block = Inr [2]" "(3000 :: uint64) mod CheckpointInterval = 0"
    "ce_lachBytes (bk_checkpoint block_env) ls \<noteq> []" "ce_dposBytes (bk_checkpoint block_env) ds \<noteq> []"
    by (simp_all add: block_env_def CheckpointInterval_def)
  show "\<exists>hc'. finish_block block_env 3000 block node_example = Blocks hc' \<and> hc_checkpointsLocked hc'"
    using checkpoint_deadlock [OF e(1,2) _ _ _ node_example_simps(5) ls ds e(3,4)] by (auto simp: node_example_simps(4))
qed

text \<open>The constructor \<open>NewHybridConsensus\<close> leaves the interval at zero, so the first checkpoint divides by zero.\<close>

lemma zero_interval_panics: "HybridConsensus_createCheckpoint env n (NewHybridConsensus now g t s e v) = Panics"
  by (simp add: HybridConsensus_createCheckpoint_def NewHybridConsensus_def NewHybridConsensusWithConfig_def Let_def valid_threshold_def)

section \<open>Waiting after errors\<close>

lemma backoff_small:
  assumes "1 \<le> n" "n \<le> 4"
  shows "backoffDuration conv n = 2 * second * 2 ^ nat (n - 1)"
proof -
  have i: "rnd (of_int m) = Fin (of_int m)" if "\<bar>m\<bar> \<le> 2 ^ 53" for m using that by (rule rnd_int)
  consider "n = 1" | "n = 2" | "n = 3" | "n = 4" using assms by linarith
  then show ?thesis
    using i [of 1] i [of 2] i [of 4] i [of 8] i [of 30000000000] i [of 2000000000] i [of 4000000000] i [of 8000000000] i [of 16000000000]
    by cases (simp_all add: backoffDuration_def f64_of_int_def second_def f64_Min_def rat_trunc_def)
qed

lemma backoff_large:
  assumes "5 \<le> n"
  shows "backoffDuration conv n = 30 * second"
proof -
  have i: "rnd (of_int m) = Fin (of_int m)" if "\<bar>m\<bar> \<le> 2 ^ 53" for m using that by (rule rnd_int)
  have p: "(16 :: rat) \<le> 2 ^ nat (n - 1)" using power_increasing [of 4 "nat (n - 1)" "2 :: rat"] assms by simp
  have "f64_le (Fin 16) (rnd (2 ^ nat (n - 1)))" using rnd_mono [OF p] i [of 16] by simp
  then consider "rnd (2 ^ nat (n - 1)) = PInf" | q where "rnd (2 ^ nat (n - 1)) = Fin q" "16 \<le> q"
    by (cases "rnd (2 ^ nat (n - 1))") (auto simp: f64_le_def)
  then have "f64_le (Fin 32000000000) (f64_mul (Fin 2000000000) (rnd (2 ^ nat (n - 1))))"
  proof cases
    case 1
    then show ?thesis by (simp add: f64_le_def f64_inf_def)
  next
    case (2 q)
    then have "32000000000 \<le> 2000000000 * q" by simp
    from rnd_mono [OF this] i [of 32000000000] 2(1) show ?thesis by simp
  qed
  then have "f64_Min (Fin 30000000000) (f64_mul (Fin 2000000000) (rnd (2 ^ nat (n - 1)))) = Fin 30000000000"
    by (cases "f64_mul (Fin 2000000000) (rnd (2 ^ nat (n - 1)))") (auto simp: f64_Min_def f64_le_def)
  then show ?thesis using i [of 30000000000] i [of 2000000000] by (simp add: backoffDuration_def f64_of_int_def second_def rat_trunc_def)
qed

text \<open>The wait before the next block doubles with every error in a row, from two seconds to sixteen, and is thirty seconds from the
  fifth error on, however many errors follow.\<close>

theorem backoff_exact:
  assumes "1 \<le> n"
  shows "backoffDuration conv n = (if n \<le> 4 then 2 * second * 2 ^ nat (n - 1) else 30 * second)"
  using assms backoff_small backoff_large by (cases "n \<le> 4") simp_all

theorem backoff_exact_witness: "backoffDuration (\<lambda>_. 0) 3 = 8 * second \<and> backoffDuration (\<lambda>_. 0) 5000 = 30 * second"
  using backoff_exact [of 3 "\<lambda>_. 0"] backoff_exact [of 5000 "\<lambda>_. 0"] by simp_all

section \<open>Health and synchronization\<close>

text \<open>Between the heights 1000 and 2000 the health check computes the height minus two intervals, which wraps, and warns that
  a checkpoint is too old, although the checkpoint at 1000 is the newest there can be.\<close>

lemma spurious_checkpoint_warning:
  assumes "hc_lastBlockHeight hc = h" "1000 < h" "h < 2000" "hc_lastCheckpoint hc = 1000"
  shows "OldCheckpoint \<in> set (HybridConsensus_performHealthCheck order hc)"
proof -
  have "unat h < 2000" "1000 < unat h" using assms(2,3) by (simp_all add: word_less_nat_alt)
  then have "unat (h - 2000) = 2 ^ 64 + unat h - 2000" by (simp add: unat_sub_if')
  then have "1000 < h - 2000" using \<open>1000 < unat h\<close> by (simp add: word_less_nat_alt)
  then show ?thesis using assms by (simp add: HybridConsensus_performHealthCheck_def Let_def HybridConsensus_GetLastBlockHeight_def CheckpointInterval_def)
qed

text \<open>The replay at the end of \<open>SynchronizeState\<close> does nothing: it replays the final events, and \<open>FinalizeEvent\<close> returns at
  once for an event that is final.\<close>

theorem replay_does_nothing:
  assumes "HybridConsensus_GetFinalizedEvents srt fromHeight toHeight hc = Some (Inr evs)" and "slice_sorted ordkey srt"
  shows "replay_events env evs hc = (None, hc)"
proof -
  have "\<forall>r\<in>set evs. ev_Finalized (hc_store hc r)"
  proof (cases "toHeight = - 1")
    case False
    then show ?thesis using assms
      by (auto simp: HybridConsensus_GetFinalizedEvents_def EventFlowManager_GetFinalizedEvents_def finalized_loop_up split: if_splits option.splits)
  next
    case True
    then show ?thesis using assms
      by (auto simp: HybridConsensus_GetFinalizedEvents_def EventFlowManager_GetFinalizedEvents_def split: if_splits dest: finalized_loop_no_return)
  qed
  then show ?thesis by (induction evs) (simp_all add: HybridConsensus_FinalizeEvent_def Let_def)
qed

theorem replay_does_nothing_witness: "\<forall>env. replay_events env [] hybrid_example = (None, hybrid_example)"
proof
  fix env
  have "HybridConsensus_GetFinalizedEvents (\<lambda>xs. sort_key (\<lambda>r. r) xs) 0 0 hybrid_example = Some (Inr [])"
    by (simp add: HybridConsensus_GetFinalizedEvents_def EventFlowManager_GetFinalizedEvents_def finalized_loop_up hybrid_example_simps(4)
        NewEventFlowManager_def)
  then show "replay_events env [] hybrid_example = (None, hybrid_example)"
    by (rule replay_does_nothing [where ordkey = "\<lambda>r. r"]) (simp add: slice_sorted_def)
qed

text \<open>A validator that has just been registered cannot create events: it is inactive until somebody activates it, which nothing in the consensus
  does.\<close>

lemma new_validator_cannot_create:
  assumes "vm_validators (hc_validators hc) i = None" and "HybridConsensus_AddValidator venv i stake hc = Returns () hc'"
  shows "fst (HybridConsensus_CreateEvent now env i ps data hc') = None"
proof -
  obtain e st where A: "ValidatorManager_AddValidator venv i stake (hc_vm hc) = Some (e, st)" "hc' = hc\<lparr>hc_vm := st\<rparr>"
    using assms(2) by (auto simp: HybridConsensus_AddValidator_def split: option.splits)
  have "\<not> ValidatorManager_IsActiveValidator i (st_vm st)"
    using A(1) assms(1) by (auto simp: ValidatorManager_AddValidator_def ValidatorManager_IsActiveValidator_def Let_def update_active_def
        ValidatorManager_updateActiveValidators_def vm_done_def ValidatorStatusInactive_def ValidatorStatusActive_def split: if_splits option.splits)
  then show ?thesis by (simp add: HybridConsensus_CreateEvent_def A(2))
qed

end
