(* ===== verification/OptimizerTheory.thy ===== *)
theory OptimizerTheory
  imports HybridTheory
begin

text \<open>
  The parameter optimizer of \<open>consensus/aiopt/optimizer.go\<close>. Once a second it samples the load of the network and the
  time since its last sample, predicts the load and changes the gossip delay, the voting threshold, the size of the active set
  and the tick delay of the other modules.

  The optimizer knows the consensus through the interface \<open>types.Consensus\<close>: the record \<open>Consensus\<close> holds what its getters
  return. A module behind an interface is \<open>NilIface\<close> (the interface is nil), \<open>NilPtr\<close> (it holds a nil pointer, which
  \<open>== nil\<close> does not see and reflection does) or \<open>Ptr\<close>. A panic is \<open>None\<close>. \<open>math.Pow\<close>, the conversion of a float that does not fit an
  integer and the outcome of the sort of the validators (\<open>DPoSTheory\<close>) are arguments. \<open>as_consensus_iface\<close> and \<open>with_consensus\<close> give the interface
  of the hybrid consensus and write the modules back to it.
\<close>

section \<open>Data\<close>

datatype 'a iface = NilIface | NilPtr | Ptr 'a

record Consensus =
  cs_lachesis :: "Lachesis iface"
  cs_dpos :: "DPoS iface"
  cs_poh :: "PoH iface"
  cs_networkLoad :: float64
  cs_IsTestMode :: "bool option"

record Optimizer =
  o_consensus :: "Consensus option"
  o_samples :: "float64 list"
  o_blockTimes :: "duration list"
  o_lastBlockTime :: int
  o_ema :: float64
  o_logger :: bool

record PerformanceMetrics =
  pm_averageBlockTime :: duration
  pm_tps :: float64
  pm_networkLoad :: float64

definition targetBlockTime :: duration where "targetBlockTime = 5 * second"
definition opt_sampleSize :: nat where "opt_sampleSize = 100"
definition alpha :: float64 where "alpha = rnd (2 / 10)"
definition one_minus_alpha :: float64 where "one_minus_alpha = rnd (8 / 10)"

definition maxInt :: "int \<Rightarrow> int \<Rightarrow> int" where
  "maxInt a b = (if a > b then a else b)"

definition minInt :: "int \<Rightarrow> int \<Rightarrow> int" where
  "minInt a b = (if a < b then a else b)"

definition NewOptimizer :: "int \<Rightarrow> Consensus option \<Rightarrow> bool \<Rightarrow> Optimizer" where
  "NewOptimizer now c logger =
     \<lparr>o_consensus = c, o_samples = [], o_blockTimes = [], o_lastBlockTime = now, o_ema = f64_0, o_logger = logger\<rparr>"

section \<open>Sampling and prediction\<close>

text \<open>Keep the last \<open>sampleSize\<close> entries: the code appends and then drops the first entry of a list that is too long.\<close>

definition append_sample :: "'a \<Rightarrow> 'a list \<Rightarrow> 'a list" where
  "append_sample x xs = (let ys = xs @ [x] in if length ys > opt_sampleSize then tl ys else ys)"

definition Optimizer_CollectSample :: "int \<Rightarrow> Optimizer \<Rightarrow> Optimizer" where
  "Optimizer_CollectSample now opt =
     (case o_consensus opt of
        None \<Rightarrow> opt
      | Some c \<Rightarrow>
          let load = cs_networkLoad c;
              samples = append_sample load (o_samples opt)
          in opt\<lparr>o_samples := samples,
                 o_ema := (if length samples = 1 then load else f64_add (f64_mul alpha load) (f64_mul one_minus_alpha (o_ema opt))),
                 o_blockTimes := append_sample (now - o_lastBlockTime opt) (o_blockTimes opt),
                 o_lastBlockTime := now\<rparr>)"

definition Optimizer_PredictLoad :: "Optimizer \<Rightarrow> float64" where
  "Optimizer_PredictLoad opt =
     (if length (o_samples opt) < 10 then Fin (1 / 2)
      else let trend = f64_div (f64_sub (last (o_samples opt)) (hd (o_samples opt))) (f64_of_int (int (length (o_samples opt))))
           in f64_Max f64_0 (f64_Min f64_1 (f64_add (o_ema opt) trend)))"

definition Optimizer_collectPerformanceMetrics :: "Optimizer \<Rightarrow> PerformanceMetrics" where
  "Optimizer_collectPerformanceMetrics opt =
     (let total = i64 (sum_list (o_blockTimes opt)) in
      \<lparr>pm_averageBlockTime = (if length (o_blockTimes opt) > 0 then go_div total (int (length (o_blockTimes opt))) else targetBlockTime),
       pm_tps = (if f64_lt f64_0 (duration_seconds total)
                 then f64_div (f64_of_int (int (length (o_blockTimes opt)))) (duration_seconds total) else f64_0),
       pm_networkLoad = (case o_consensus opt of None \<Rightarrow> f64_0 | Some c \<Rightarrow> cs_networkLoad c)\<rparr>)"

section \<open>Adjusting the modules\<close>

text \<open>Writes of the four parameters through the pointers; the error of \<open>SetTickDelay\<close> is dropped, and \<open>SetSetSize\<close> panics on a negative size.\<close>

definition set_modules :: "Lachesis \<Rightarrow> DPoS \<Rightarrow> PoH \<Rightarrow> Optimizer \<Rightarrow> Optimizer" where
  "set_modules l d p opt =
     opt\<lparr>o_consensus := map_option (\<lambda>c. c\<lparr>cs_lachesis := Ptr l, cs_dpos := Ptr d, cs_poh := Ptr p\<rparr>) (o_consensus opt)\<rparr>"

definition Optimizer_adaptParameters ::
  "(float64 \<Rightarrow> float64 \<Rightarrow> float64) \<Rightarrow> (float64 \<Rightarrow> int) \<Rightarrow> hash32 list \<Rightarrow> float64 \<Rightarrow> Optimizer \<Rightarrow> Optimizer option" where
  "Optimizer_adaptParameters pow conv srt predictedLoad opt =
     (case o_consensus opt of
        None \<Rightarrow> Some opt
      | Some c \<Rightarrow>
          (case (cs_lachesis c, cs_dpos c, cs_poh c) of
             (Ptr lachesis, Ptr dpos, Ptr poh) \<Rightarrow>
               let isTestMode = (case cs_IsTestMode c of None \<Rightarrow> False | Some b \<Rightarrow> b);
                   x = f64_sub predictedLoad (Fin (1 / 2));
                   l1 = Lachesis_SetGossipDelay conv (scaled conv (Lachesis_GetGossipDelay lachesis) (pow (Fin 2) x)) lachesis;
                   newVotingThreshold = f64_Max (rnd (66 / 100))
                     (f64_Min (f64_mul (Lachesis_GetVotingThreshold l1) (pow (rnd (11 / 10)) x)) (rnd (9 / 10)));
                   l2 = (if isTestMode then l1 else Lachesis_SetVotingThreshold newVotingThreshold l1);
                   newSetSize = maxInt 4 (minInt (scaled conv (DPoS_GetSetSize dpos) (pow (rnd (12 / 10)) x)) 100)
               in (case DPoS_SetSetSize srt newSetSize dpos of
                     None \<Rightarrow> None
                   | Some d1 \<Rightarrow>
                       let p1 = snd (PoH_SetTickDelay (scaled conv (PoH_GetTickDelay poh) (pow (rnd (11 / 10)) x)) poh)
                       in Some (set_modules l2 d1 p1 opt))
           | _ \<Rightarrow> Some opt))"

text \<open>The two corrections test the interfaces with \<open>== nil\<close> only: a nil pointer passes and its first method panics.\<close>

definition live_modules :: "Consensus option \<Rightarrow> (Lachesis \<times> DPoS \<times> PoH) option option" where
  "live_modules c =
     (case c of
        None \<Rightarrow> None
      | Some c \<Rightarrow>
          if cs_lachesis c = NilIface \<or> cs_dpos c = NilIface \<or> cs_poh c = NilIface then Some None
          else (case (cs_lachesis c, cs_dpos c, cs_poh c) of
                  (Ptr l, Ptr d, Ptr p) \<Rightarrow> Some (Some (l, d, p))
                | _ \<Rightarrow> None))"

definition Optimizer_adjustForSlowPerformance :: "(float64 \<Rightarrow> int) \<Rightarrow> hash32 list \<Rightarrow> Optimizer \<Rightarrow> Optimizer option" where
  "Optimizer_adjustForSlowPerformance conv srt opt =
     (case live_modules (o_consensus opt) of
        None \<Rightarrow> None
      | Some None \<Rightarrow> Some opt
      | Some (Some (lachesis, dpos, poh)) \<Rightarrow>
          let l1 = Lachesis_SetGossipDelay conv (scaled conv (Lachesis_GetGossipDelay lachesis) (rnd (9 / 10))) lachesis in
          (case DPoS_SetSetSize srt (maxInt 4 (i64 (DPoS_GetSetSize dpos - 1))) dpos of
             None \<Rightarrow> None
           | Some d1 \<Rightarrow> Some (set_modules l1 d1 (snd (PoH_SetTickDelay (scaled conv (PoH_GetTickDelay poh) (rnd (9 / 10))) poh)) opt)))"

definition Optimizer_adjustForFastPerformance :: "(float64 \<Rightarrow> int) \<Rightarrow> hash32 list \<Rightarrow> Optimizer \<Rightarrow> Optimizer option" where
  "Optimizer_adjustForFastPerformance conv srt opt =
     (case live_modules (o_consensus opt) of
        None \<Rightarrow> None
      | Some None \<Rightarrow> Some opt
      | Some (Some (lachesis, dpos, poh)) \<Rightarrow>
          let l1 = Lachesis_SetGossipDelay conv (scaled conv (Lachesis_GetGossipDelay lachesis) (rnd (11 / 10))) lachesis in
          (case DPoS_SetSetSize srt (minInt 100 (i64 (DPoS_GetSetSize dpos + 1))) dpos of
             None \<Rightarrow> None
           | Some d1 \<Rightarrow> Some (set_modules l1 d1 (snd (PoH_SetTickDelay (scaled conv (PoH_GetTickDelay poh) (rnd (11 / 10))) poh)) opt)))"

definition Optimizer_finetunePerformance ::
  "(float64 \<Rightarrow> int) \<Rightarrow> hash32 list \<Rightarrow> float64 \<Rightarrow> float64 \<Rightarrow> Optimizer \<Rightarrow> Optimizer option" where
  "Optimizer_finetunePerformance conv srt actualTime targetTime opt =
     (case o_consensus opt of
        None \<Rightarrow> None
      | Some c \<Rightarrow>
          (case (cs_lachesis c, cs_dpos c, cs_poh c) of
             (Ptr lachesis, Ptr dpos, Ptr poh) \<Rightarrow>
               let deviation = f64_div (f64_sub actualTime targetTime) targetTime;
                   factor = f64_sub f64_1 (f64_mul (rnd (1 / 10)) deviation);
                   l1 = Lachesis_SetGossipDelay conv (scaled conv (Lachesis_GetGossipDelay lachesis) factor) lachesis
               in (case DPoS_SetSetSize srt (scaled conv (DPoS_GetSetSize dpos) factor) dpos of
                     None \<Rightarrow> None
                   | Some d1 \<Rightarrow> Some (set_modules l1 d1 (snd (PoH_SetTickDelay (scaled conv (PoH_GetTickDelay poh) factor) poh)) opt))
           | _ \<Rightarrow> Some opt))"

text \<open>\<open>monitorPerformance\<close> and \<open>OptimizeConsensus\<close> write to the logger without a test: a missing logger panics, except in the branch of
  \<open>monitorPerformance\<close> that logs nothing itself.\<close>

definition Optimizer_monitorPerformance :: "(float64 \<Rightarrow> int) \<Rightarrow> hash32 list \<Rightarrow> Optimizer \<Rightarrow> Optimizer option" where
  "Optimizer_monitorPerformance conv srt opt =
     (let targetTimeSeconds = duration_seconds targetBlockTime;
          actualTimeSeconds = duration_seconds (pm_averageBlockTime (Optimizer_collectPerformanceMetrics opt)) in
      if f64_lt (f64_mul targetTimeSeconds (rnd (12 / 10))) actualTimeSeconds
        then (if o_logger opt then Optimizer_adjustForSlowPerformance conv srt opt else None)
      else if f64_lt actualTimeSeconds (f64_mul targetTimeSeconds (rnd (8 / 10)))
        then (if o_logger opt then Optimizer_adjustForFastPerformance conv srt opt else None)
      else Optimizer_finetunePerformance conv srt actualTimeSeconds targetTimeSeconds opt)"

definition Optimizer_OptimizeConsensus ::
  "(float64 \<Rightarrow> float64 \<Rightarrow> float64) \<Rightarrow> (float64 \<Rightarrow> int) \<Rightarrow> hash32 list \<Rightarrow> hash32 list \<Rightarrow> Optimizer \<Rightarrow> Optimizer option" where
  "Optimizer_OptimizeConsensus pow conv srt1 srt2 opt =
     (if \<not> o_logger opt then None
      else case Optimizer_adaptParameters pow conv srt1 (Optimizer_PredictLoad opt) opt of
             None \<Rightarrow> None
           | Some opt1 \<Rightarrow> Optimizer_monitorPerformance conv srt2 opt1)"

section \<open>The loop\<close>

text \<open>One tick of the ticker: the time, what the other goroutines have done to the consensus since the last tick, and
  the outcomes of the two sorts of the validators.\<close>

record opt_tick =
  ot_now :: int
  ot_others :: "Consensus \<Rightarrow> Consensus"
  ot_srt1 :: "hash32 list"
  ot_srt2 :: "hash32 list"

definition run_tick :: "(float64 \<Rightarrow> float64 \<Rightarrow> float64) \<Rightarrow> (float64 \<Rightarrow> int) \<Rightarrow> opt_tick \<Rightarrow> Optimizer \<Rightarrow> Optimizer option" where
  "run_tick pow conv t opt =
     Optimizer_OptimizeConsensus pow conv (ot_srt1 t) (ot_srt2 t)
       (Optimizer_CollectSample (ot_now t) (opt\<lparr>o_consensus := map_option (ot_others t) (o_consensus opt)\<rparr>))"

fun run_ticks :: "(float64 \<Rightarrow> float64 \<Rightarrow> float64) \<Rightarrow> (float64 \<Rightarrow> int) \<Rightarrow> opt_tick list \<Rightarrow> Optimizer \<Rightarrow> Optimizer option" where
  "run_ticks pow conv [] opt = Some opt"
| "run_ticks pow conv (t # ts) opt =
     (case run_tick pow conv t opt of None \<Rightarrow> None | Some opt1 \<Rightarrow> run_ticks pow conv ts opt1)"

definition Optimizer_Run ::
  "(float64 \<Rightarrow> float64 \<Rightarrow> float64) \<Rightarrow> (float64 \<Rightarrow> int) \<Rightarrow> int \<Rightarrow> opt_tick list \<Rightarrow> Optimizer \<Rightarrow> Optimizer option" where
  "Optimizer_Run pow conv start ts opt = run_ticks pow conv ts (Optimizer_CollectSample start opt)"

section \<open>Queries and reset\<close>

record optimization_stats =
  os_current_load :: float64
  os_predicted_load :: float64
  os_sample_count :: nat
  os_average_block_time :: duration
  os_tps :: float64
  os_network_load :: float64
  os_lachesis :: "(duration \<times> float64) option"
  os_dpos :: "(int \<times> uint64) option"
  os_poh :: "duration option"

text \<open>The entries of a module are absent where its interface is nil; a nil pointer panics.\<close>

fun iface_entry :: "('a \<Rightarrow> 'b) \<Rightarrow> 'a iface \<Rightarrow> 'b option option" where
  "iface_entry f NilIface = Some None"
| "iface_entry f NilPtr = None"
| "iface_entry f (Ptr x) = Some (Some (f x))"

definition Optimizer_GetOptimizationStats :: "Optimizer \<Rightarrow> optimization_stats option" where
  "Optimizer_GetOptimizationStats opt =
     (let metrics = Optimizer_collectPerformanceMetrics opt;
          stats = (\<lambda>l d p. \<lparr>os_current_load = (if length (o_samples opt) > 0 then last (o_samples opt) else Fin (1 / 2)),
             os_predicted_load = Optimizer_PredictLoad opt, os_sample_count = length (o_samples opt),
             os_average_block_time = pm_averageBlockTime metrics, os_tps = pm_tps metrics, os_network_load = pm_networkLoad metrics,
             os_lachesis = l, os_dpos = d, os_poh = p\<rparr>)
      in case o_consensus opt of
           None \<Rightarrow> Some (stats None None None)
         | Some c \<Rightarrow>
             (case (iface_entry (\<lambda>l. (Lachesis_GetGossipDelay l, Lachesis_GetVotingThreshold l)) (cs_lachesis c),
                    iface_entry (\<lambda>d. (DPoS_GetSetSize d, DPoS_GetEpochDuration d)) (cs_dpos c),
                    iface_entry PoH_GetTickDelay (cs_poh c)) of
                (Some l, Some d, Some p) \<Rightarrow> Some (stats l d p)
              | _ \<Rightarrow> None))"

definition Optimizer_ResetOptimization :: "(float64 \<Rightarrow> int) \<Rightarrow> int \<Rightarrow> hash32 list \<Rightarrow> Optimizer \<Rightarrow> Optimizer option" where
  "Optimizer_ResetOptimization conv now srt opt =
     (let opt1 = opt\<lparr>o_samples := [], o_blockTimes := [], o_lastBlockTime := now, o_ema := f64_0\<rparr> in
      if o_consensus opt = None then Some opt1
      else case live_modules (o_consensus opt) of
        None \<Rightarrow> None
      | Some None \<Rightarrow> Some opt1
      | Some (Some (lachesis, dpos, poh)) \<Rightarrow>
          let l1 = Lachesis_SetVotingThreshold (rnd (66 / 100)) (Lachesis_SetGossipDelay conv (100 * millisecond) lachesis) in
          (case DPoS_SetSetSize srt 21 dpos of
             None \<Rightarrow> None
           | Some d1 \<Rightarrow> Some (set_modules l1 (DPoS_SetEpochDuration 100 d1) (snd (PoH_SetTickDelay (50 * millisecond) poh)) opt1)))"

section \<open>The optimizer of the node\<close>

definition as_consensus_iface :: "HybridConsensus \<Rightarrow> Consensus" where
  "as_consensus_iface hc =
     \<lparr>cs_lachesis = Ptr (hc_lachesis hc), cs_dpos = Ptr (hc_dpos hc), cs_poh = Ptr (hc_poh hc),
      cs_networkLoad = HybridConsensus_GetNetworkLoad hc, cs_IsTestMode = Some (HybridConsensus_IsTestMode hc)\<rparr>"

definition with_consensus :: "Consensus option \<Rightarrow> HybridConsensus \<Rightarrow> HybridConsensus" where
  "with_consensus c hc =
     (case c of
        Some c \<Rightarrow>
          (case (cs_lachesis c, cs_dpos c, cs_poh c) of
             (Ptr l, Ptr d, Ptr p) \<Rightarrow> hc\<lparr>hc_vm := (hc_vm hc)\<lparr>st_lachesis := l, st_dpos := d\<rparr>, hc_poh := p\<rparr>
           | _ \<Rightarrow> hc)
      | None \<Rightarrow> hc)"

text \<open>A tick of the optimizer goroutine of \<open>startOptimizer\<close>, on the state of the node.\<close>

definition HybridConsensus_optimizerTick ::
  "(float64 \<Rightarrow> float64 \<Rightarrow> float64) \<Rightarrow> (float64 \<Rightarrow> int) \<Rightarrow> int \<Rightarrow> hash32 list \<Rightarrow> hash32 list \<Rightarrow> Optimizer \<times> HybridConsensus \<Rightarrow>
   (Optimizer \<times> HybridConsensus) option" where
  "HybridConsensus_optimizerTick pow conv now srt1 srt2 = (\<lambda>(opt, hc).
     map_option (\<lambda>opt1. (opt1, with_consensus (o_consensus opt1) hc))
       (run_tick pow conv \<lparr>ot_now = now, ot_others = (\<lambda>_. as_consensus_iface hc), ot_srt1 = srt1, ot_srt2 = srt2\<rparr> opt))"

section \<open>The window of samples\<close>

definition unit_load :: "float64 \<Rightarrow> bool" where
  "unit_load x = (f64_le f64_0 x \<and> f64_le x f64_1)"

lemma unit_load_Fin [simp]: "unit_load (Fin q) \<longleftrightarrow> 0 \<le> q \<and> q \<le> 1"
  by (simp add: unit_load_def)

lemma unit_loadE: "unit_load x \<Longrightarrow> (\<And>q. x = Fin q \<Longrightarrow> 0 \<le> q \<Longrightarrow> q \<le> 1 \<Longrightarrow> P) \<Longrightarrow> P"
  by (cases x) (auto simp: unit_load_def f64_le_def)

lemma length_append_sample: "length xs \<le> opt_sampleSize \<Longrightarrow> length (append_sample x xs) \<le> opt_sampleSize"
  by (auto simp: append_sample_def Let_def)

lemma append_sample_nonempty [simp]: "append_sample x xs \<noteq> []"
  by (cases xs) (auto simp: append_sample_def Let_def opt_sampleSize_def)

lemma set_append_sample: "set (append_sample x xs) \<subseteq> insert x (set xs)"
  by (cases xs) (auto simp: append_sample_def Let_def)

lemma in_append_sample [simp]: "x \<in> set (append_sample x xs)"
  by (cases xs) (auto simp: append_sample_def Let_def opt_sampleSize_def)

lemma alpha_val: "alpha = Fin (3602879701896397 / 18014398509481984)"
  unfolding alpha_def using rnd_eqI [of "- 3" "2 / 10" 7205759403792794] by (simp add: pow2_def)

lemma one_minus_alpha_val: "one_minus_alpha = Fin (3602879701896397 / 4503599627370496)"
  unfolding one_minus_alpha_def using rnd_eqI [of "- 1" "8 / 10" 7205759403792794] by (simp add: pow2_def)

lemma ema_unit:
  assumes "unit_load x" and "unit_load y"
  shows "unit_load (f64_add (f64_mul alpha x) (f64_mul one_minus_alpha y))"
proof -
  let ?a = "3602879701896397 / 18014398509481984 :: rat" and ?b = "3602879701896397 / 4503599627370496 :: rat"
  from assms obtain p q where x: "x = Fin p" "0 \<le> p" "p \<le> 1" and y: "y = Fin q" "0 \<le> q" "q \<le> 1" by (metis unit_loadE)
  have "rnd ?a = Fin ?a" "rnd ?b = Fin ?b"
    using rnd_exact [of 3602879701896397 "- 54"] rnd_exact [of 3602879701896397 "- 52"] by (simp_all add: pow2_def)
  with rnd_between [OF rnd_0, of ?a "?a * p"] rnd_between [OF rnd_0, of ?b "?b * q"] x y
  obtain u v where u: "rnd (?a * p) = Fin u" "0 \<le> u" "u \<le> ?a" and v: "rnd (?b * q) = Fin v" "0 \<le> v" "v \<le> ?b" by auto
  have one: "rnd (?a + ?b) = Fin 1" using rnd_eqI [of 0 "?a + ?b" 4503599627370496] by (simp add: pow2_def)
  have "f64_le (rnd 0) (rnd (u + v))" "f64_le (rnd (u + v)) (rnd (?a + ?b))" using u v by (intro rnd_mono; simp)+
  then show ?thesis using x y u v one by (simp add: alpha_val one_minus_alpha_val unit_load_def)
qed

definition opt_inv :: "Optimizer \<Rightarrow> bool" where
  "opt_inv opt = (length (o_samples opt) \<le> opt_sampleSize \<and> length (o_blockTimes opt) \<le> opt_sampleSize \<and>
     (\<forall>x\<in>set (o_samples opt). unit_load x) \<and> unit_load (o_ema opt))"

lemma collect_inv:
  assumes "opt_inv opt" and "\<And>c. o_consensus opt = Some c \<Longrightarrow> unit_load (cs_networkLoad c)"
  shows "opt_inv (Optimizer_CollectSample now opt)"
  using assms set_append_sample [of _ "o_samples opt"]
  by (auto simp: Optimizer_CollectSample_def opt_inv_def Let_def length_append_sample split: option.splits intro: ema_unit)

lemma clamp_unit: "x \<noteq> NaN \<Longrightarrow> unit_load (f64_Max f64_0 (f64_Min f64_1 x))"
  by (cases x) (auto simp: f64_Max_def f64_Min_def)

lemma predict_unit:
  assumes "opt_inv opt"
  shows "unit_load (Optimizer_PredictLoad opt)"
proof (cases "length (o_samples opt) < 10")
  case False
  then have ne: "o_samples opt \<noteq> []" by auto
  with assms have "unit_load (last (o_samples opt))" "unit_load (hd (o_samples opt))" "unit_load (o_ema opt)"
    by (auto simp: opt_inv_def)
  then obtain a b e where v: "last (o_samples opt) = Fin a" "hd (o_samples opt) = Fin b" "o_ema opt = Fin e"
      and le: "0 \<le> a" "a \<le> 1" "0 \<le> b" "b \<le> 1" "0 \<le> e" "e \<le> 1"
    by (metis unit_loadE)
  have n: "f64_of_int (int (length (o_samples opt))) = Fin (of_nat (length (o_samples opt)))"
    using rnd_int [of "int (length (o_samples opt))"] assms by (simp add: f64_of_int_def opt_inv_def opt_sampleSize_def)
  obtain d where d: "rnd (a + - b) = Fin d" "- 1 \<le> d" "d \<le> 1"
    using rnd_between [of "- 1" 1 "a + - b"] rnd_int [of 1] rnd_int [of "- 1"] le by auto
  have pos: "1 \<le> (of_nat (length (o_samples opt)) :: rat)" using ne by (cases "o_samples opt") auto
  have "- 1 \<le> d / of_nat (length (o_samples opt))" "d / of_nat (length (o_samples opt)) \<le> 1"
    using d pos divide_right_mono [of "- of_nat (length (o_samples opt))" d "of_nat (length (o_samples opt))"]
      divide_right_mono [of d "of_nat (length (o_samples opt))" "of_nat (length (o_samples opt))"] ne by simp_all
  then obtain t where t: "rnd (d / of_nat (length (o_samples opt))) = Fin t"
    using rnd_between [of "- 1" 1 "d / of_nat (length (o_samples opt))"] rnd_int [of 1] rnd_int [of "- 1"] by auto
  have "Optimizer_PredictLoad opt = f64_Max f64_0 (f64_Min f64_1 (rnd (e + t)))"
    using False v n d t pos ne by (simp add: Optimizer_PredictLoad_def Let_def f64_sub_def)
  then show ?thesis using clamp_unit [of "rnd (e + t)"] by simp
qed (simp add: Optimizer_PredictLoad_def)

section \<open>What an optimization changes\<close>

definition o_rest :: "Optimizer \<Rightarrow> float64 list \<times> duration list \<times> int \<times> float64 \<times> bool \<times> (float64 \<times> bool option) option" where
  "o_rest opt = (o_samples opt, o_blockTimes opt, o_lastBlockTime opt, o_ema opt, o_logger opt,
     map_option (\<lambda>c. (cs_networkLoad c, cs_IsTestMode c)) (o_consensus opt))"

lemma o_rest_set_modules [simp]: "o_rest (set_modules l d p opt) = o_rest opt"
  by (simp add: o_rest_def set_modules_def option.map_comp comp_def)

lemma adjust_rest:
  "Optimizer_adaptParameters pow conv srt x opt = Some opt1 \<Longrightarrow> o_rest opt1 = o_rest opt"
  "Optimizer_adjustForSlowPerformance conv srt opt = Some opt1 \<Longrightarrow> o_rest opt1 = o_rest opt"
  "Optimizer_adjustForFastPerformance conv srt opt = Some opt1 \<Longrightarrow> o_rest opt1 = o_rest opt"
  "Optimizer_finetunePerformance conv srt a t opt = Some opt1 \<Longrightarrow> o_rest opt1 = o_rest opt"
  by (auto simp: Optimizer_adaptParameters_def Optimizer_adjustForSlowPerformance_def Optimizer_adjustForFastPerformance_def
      Optimizer_finetunePerformance_def Let_def split: option.splits iface.splits prod.splits)

lemma monitor_rest: "Optimizer_monitorPerformance conv srt opt = Some opt1 \<Longrightarrow> o_rest opt1 = o_rest opt"
  by (auto simp: Optimizer_monitorPerformance_def Let_def adjust_rest split: if_splits)

lemma optimize_rest: "Optimizer_OptimizeConsensus pow conv srt1 srt2 opt = Some opt1 \<Longrightarrow> o_rest opt1 = o_rest opt"
  by (auto simp: Optimizer_OptimizeConsensus_def monitor_rest adjust_rest split: if_splits option.splits)

lemma opt_inv_rest: "o_rest opt1 = o_rest opt \<Longrightarrow> opt_inv opt1 = opt_inv opt"
  by (simp add: o_rest_def opt_inv_def)

lemma average_rest: "o_rest opt1 = o_rest opt \<Longrightarrow> pm_averageBlockTime (Optimizer_collectPerformanceMetrics opt1) =
    pm_averageBlockTime (Optimizer_collectPerformanceMetrics opt)"
  by (simp add: o_rest_def Optimizer_collectPerformanceMetrics_def Let_def)

lemma collect_simps [simp]:
  "o_consensus (Optimizer_CollectSample now opt) = o_consensus opt"
  "o_logger (Optimizer_CollectSample now opt) = o_logger opt"
  by (auto simp: Optimizer_CollectSample_def Let_def split: option.splits)

section \<open>The bounds of the parameters\<close>

lemma set_size_some:
  "0 \<le> n \<Longrightarrow> \<exists>d1. DPoS_SetSetSize srt n d = Some d1 \<and> dp_maxSetSize d1 = n"
  by (auto simp: DPoS_SetSetSize_def DPoS_updateActiveValidators_def Let_def)

lemma clamp_size: "4 \<le> maxInt 4 (minInt n 100)" "maxInt 4 (minInt n 100) \<le> 100"
  by (auto simp: maxInt_def minInt_def)

lemma tick_delay_positive: "0 < poh_tickDelay p \<Longrightarrow> 0 < poh_tickDelay (snd (PoH_SetTickDelay delay p))"
  by (simp add: PoH_SetTickDelay_def)

text \<open>The state of the modules behind an optimizer.\<close>

definition modules :: "Optimizer \<Rightarrow> Lachesis \<Rightarrow> DPoS \<Rightarrow> PoH \<Rightarrow> bool" where
  "modules opt l d p = (\<exists>c. o_consensus opt = Some c \<and> cs_lachesis c = Ptr l \<and> cs_dpos c = Ptr d \<and> cs_poh c = Ptr p)"

lemma modules_set [simp]: "modules opt l0 d0 p0 \<Longrightarrow> modules (set_modules l d p opt) l d p"
  by (auto simp: modules_def set_modules_def)

lemma modules_live: "modules opt l d p \<Longrightarrow> live_modules (o_consensus opt) = Some (Some (l, d, p))"
  by (auto simp: modules_def live_modules_def)

definition adapted_threshold :: "(float64 \<Rightarrow> float64 \<Rightarrow> float64) \<Rightarrow> float64 \<Rightarrow> Lachesis \<Rightarrow> float64" where
  "adapted_threshold pow x l = f64_Max (rnd (66 / 100))
     (f64_Min (f64_mul (l_votingThreshold l) (pow (rnd (11 / 10)) (f64_sub x (Fin (1 / 2))))) (rnd (9 / 10)))"

lemma adapt_modules:
  assumes "modules opt l d p"
  obtains l1 d1 p1 opt1 where "Optimizer_adaptParameters pow conv srt x opt = Some opt1" and "modules opt1 l1 d1 p1"
    and "4 \<le> dp_maxSetSize d1" and "dp_maxSetSize d1 \<le> 100" and "0 < poh_tickDelay p \<longrightarrow> 0 < poh_tickDelay p1"
    and "l_gossipDelay l1 = scaled conv (l_gossipDelay l) (pow (Fin 2) (f64_sub x (Fin (1 / 2))))"
    and "l_networkLoad l1 = l_networkLoad l"
    and "\<exists>c. o_consensus opt = Some c \<and> (if cs_IsTestMode c = Some True
      then l_votingThreshold l1 = l_votingThreshold l \<and> l_VirtualVoting l1 = l_VirtualVoting l
      else l_votingThreshold l1 = adapted_threshold pow x l \<and>
           l_VirtualVoting l1 = VirtualVoting_SetThreshold (adapted_threshold pow x l) (l_VirtualVoting l))"
proof -
  obtain c where c: "o_consensus opt = Some c" "cs_lachesis c = Ptr l" "cs_dpos c = Ptr d" "cs_poh c = Ptr p"
    using assms by (auto simp: modules_def)
  let ?x = "f64_sub x (Fin (1 / 2))"
  let ?size = "maxInt 4 (minInt (scaled conv (DPoS_GetSetSize d) (pow (rnd (12 / 10)) ?x)) 100)"
  let ?l = "Lachesis_SetGossipDelay conv (scaled conv (Lachesis_GetGossipDelay l) (pow (Fin 2) ?x)) l"
  let ?t = "f64_Max (rnd (66 / 100)) (f64_Min (f64_mul (Lachesis_GetVotingThreshold ?l) (pow (rnd (11 / 10)) ?x)) (rnd (9 / 10)))"
  let ?l2 = "if cs_IsTestMode c = Some True then ?l else Lachesis_SetVotingThreshold ?t ?l"
  let ?p = "snd (PoH_SetTickDelay (scaled conv (PoH_GetTickDelay p) (pow (rnd (11 / 10)) ?x)) p)"
  obtain d1 where d: "DPoS_SetSetSize srt ?size d = Some d1" "dp_maxSetSize d1 = ?size"
    using set_size_some [OF order_trans [OF zero_le_numeral clamp_size(1)]] by blast
  have a: "Optimizer_adaptParameters pow conv srt x opt = Some (set_modules ?l2 d1 ?p opt)"
    using c d(1) by (auto simp: Optimizer_adaptParameters_def Let_def split: option.splits)
  show ?thesis
  proof (rule that [OF a modules_set [OF assms]])
    show "4 \<le> dp_maxSetSize d1" "dp_maxSetSize d1 \<le> 100" unfolding d(2) by (rule clamp_size)+
    show "0 < poh_tickDelay p \<longrightarrow> 0 < poh_tickDelay ?p" by (simp add: tick_delay_positive)
  qed (use c in \<open>auto simp: Lachesis_SetVotingThreshold_def Lachesis_SetGossipDelay_def Lachesis_GetVotingThreshold_def
      Lachesis_GetGossipDelay_def adapted_threshold_def\<close>)
qed

lemma adapted_bounds:
  assumes "l_votingThreshold l \<noteq> NaN" and "pow (rnd (11 / 10)) (f64_sub x (Fin (1 / 2))) = Fin r" and "0 < r"
  shows "f64_le (rnd (66 / 100)) (adapted_threshold pow x l)" and "f64_le (adapted_threshold pow x l) (rnd (9 / 10))"
    and "vv_threshold (VirtualVoting_SetThreshold (adapted_threshold pow x l) v) = adapted_threshold pow x l"
proof -
  have y: "f64_mul (l_votingThreshold l) (Fin r) \<noteq> NaN"
    using assms(1,3) by (cases "l_votingThreshold l") (auto simp: f64_inf_def)
  obtain a where a: "rnd (66 / 100) = Fin a" "5 / 8 \<le> a"
    using rnd_between [of "5 / 8" 1 "66 / 100"] rnd_exact [of 5 "- 3"] rnd_int [of 1] by (auto simp: pow2_def)
  obtain b where b: "rnd (9 / 10) = Fin b" "b \<le> 1"
    using rnd_between [of 0 1 "9 / 10"] rnd_int [of 1] by auto
  have "a \<le> b" using rnd_mono [of "66 / 100" "9 / 10"] a b by simp
  then show *: "f64_le (rnd (66 / 100)) (adapted_threshold pow x l)" "f64_le (adapted_threshold pow x l) (rnd (9 / 10))"
    using y assms(2) a(1) b(1) by (cases "f64_mul (l_votingThreshold l) (Fin r)"; auto simp: adapted_threshold_def f64_Max_def f64_Min_def)+
  from * a b obtain t where "adapted_threshold pow x l = Fin t" "5 / 8 \<le> t" "t \<le> 1"
    by (cases "adapted_threshold pow x l") (auto simp: f64_le_def)
  then show "vv_threshold (VirtualVoting_SetThreshold (adapted_threshold pow x l) v) = adapted_threshold pow x l"
    by (simp add: VirtualVoting_SetThreshold_def)
qed

lemma adapted_NaN:
  assumes "l_votingThreshold l = NaN"
  shows "adapted_threshold pow x l = NaN" and "vv_threshold (VirtualVoting_SetThreshold (adapted_threshold pow x l) v) = NaN"
proof -
  obtain a where a: "rnd (66 / 100) = Fin a" using rnd_between [of "5 / 8" 1 "66 / 100"] rnd_exact [of 5 "- 3"] rnd_int [of 1] by (auto simp: pow2_def)
  obtain b where b: "rnd (9 / 10) = Fin b" using rnd_between [of 0 1 "9 / 10"] rnd_int [of 1] by auto
  show *: "adapted_threshold pow x l = NaN" unfolding adapted_threshold_def assms a b by (simp add: f64_Max_def f64_Min_def)
  show "vv_threshold (VirtualVoting_SetThreshold (adapted_threshold pow x l) v) = NaN"
    unfolding * by (simp add: VirtualVoting_SetThreshold_def f64_le_def)
qed

lemma go_mod_second: "\<bar>go_mod d second\<bar> < second"
proof -
  have "go_mod d second = (if 0 \<le> d then d mod second else - ((- d) mod second))"
    by (auto simp: go_mod_def go_div_def second_def minus_mult_div_eq_mod [symmetric] sgn_if)
  then show ?thesis by (auto simp: second_def)
qed

lemma seconds_not_NaN: "duration_seconds d \<noteq> NaN"
proof -
  have "f64_of_int (go_mod d second) = Fin (of_int (go_mod d second))"
    using go_mod_second [of d] by (auto simp: f64_of_int_def second_def intro!: rnd_int)
  moreover obtain y where "rnd (of_int (go_mod d second) / 1000000000) = Fin y"
    using rnd_between [of "- 1" 1 "of_int (go_mod d second) / 1000000000"] rnd_int [of 1] rnd_int [of "- 1"] go_mod_second [of d]
    by (auto simp: second_def abs_less_iff of_int_le_iff [of "- 1000000000", where 'a = rat, simplified])
  ultimately show ?thesis
    by (cases "f64_of_int (go_div d second)") (auto simp: duration_seconds_def f64_of_int_def)
qed

text \<open>A correction of a rate between four and six seconds is at most about two percent.\<close>

lemma finetune_factor:
  assumes "4 \<le> q" and "q \<le> 6"
  obtains f where "f64_sub f64_1 (f64_mul (rnd (1 / 10)) (f64_div (f64_sub (Fin q) (Fin 5)) (Fin 5))) = Fin f"
    and "1003 / 1024 \<le> f" and "f \<le> 1045 / 1024"
proof -
  have e: "rnd (of_int m / 1024) = Fin (of_int m / 1024)" if "\<bar>m\<bar> \<le> 2 ^ 53" for m
    using rnd_exact [OF that, of "- 10"] by (simp add: pow2_def)
  obtain u where u: "rnd (q + - 5) = Fin u" "- 1 \<le> u" "u \<le> 1"
    using rnd_between [of "- 1" 1 "q + - 5"] rnd_int [of 1] rnd_int [of "- 1"] assms by auto
  obtain v where v: "rnd (u / 5) = Fin v" "- 205 / 1024 \<le> v" "v \<le> 205 / 1024"
    using rnd_between [OF e [of "- 205"] e [of 205], of "u / 5"] u by auto
  obtain c where c: "rnd (1 / 10) = Fin c" "0 \<le> c" "c \<le> 103 / 1024"
    using rnd_between [OF rnd_0 e [of 103], of "1 / 10"] by auto
  have "\<bar>v\<bar> \<le> 205 / 1024" using v by (simp add: abs_le_iff)
  with mult_mono [of c "103 / 1024" "\<bar>v\<bar>" "205 / 1024"] c have "\<bar>c * v\<bar> \<le> 103 / 1024 * (205 / 1024)" by (simp add: abs_mult)
  then have "c * v \<le> 103 / 1024 * (205 / 1024)" "103 / 1024 * (- 205 / 1024) \<le> c * v" by (simp_all add: abs_le_iff)
  then obtain w where w: "rnd (c * v) = Fin w" "- 21 / 1024 \<le> w" "w \<le> 21 / 1024"
    using rnd_between [OF e [of "- 21"] e [of 21], of "c * v"] by auto
  obtain f where f: "rnd (1 + - w) = Fin f" "1003 / 1024 \<le> f" "f \<le> 1045 / 1024"
    using rnd_between [OF e [of 1003] e [of 1045], of "1 + - w"] w by auto
  show ?thesis by (rule that [OF _ f(2,3)]) (use u v c w f in \<open>simp add: f64_sub_def\<close>)
qed

lemma target_times:
  "duration_seconds targetBlockTime = Fin 5" "f64_mul (Fin 5) (rnd (12 / 10)) = Fin 6" "f64_mul (Fin 5) (rnd (8 / 10)) = Fin 4"
proof -
  show "duration_seconds targetBlockTime = Fin 5"
    using rnd_int [of 5] by (simp add: duration_seconds_def targetBlockTime_def second_def go_div_def go_mod_def f64_of_int_def)
  have "rnd (12 / 10) = Fin (5404319552844595 / 4503599627370496)"
    using rnd_eqI [of 0 "12 / 10" 5404319552844595] by (simp add: pow2_def)
  then show "f64_mul (Fin 5) (rnd (12 / 10)) = Fin 6"
    using rnd_eqI [of 2 "5 * (5404319552844595 / 4503599627370496)" 6755399441055744] by (simp add: pow2_def)
  show "f64_mul (Fin 5) (rnd (8 / 10)) = Fin 4"
    using rnd_eqI [of 2 "5 * (3602879701896397 / 4503599627370496)" 4503599627370496] one_minus_alpha_val
    by (simp add: one_minus_alpha_def pow2_def)
qed

definition corrected :: "(float64 \<Rightarrow> int) \<Rightarrow> hash32 list \<Rightarrow> duration \<Rightarrow> int \<Rightarrow> duration \<Rightarrow> Lachesis \<Rightarrow> DPoS \<Rightarrow> PoH \<Rightarrow> Optimizer \<Rightarrow> Optimizer option" where
  "corrected conv srt g n t l d p opt =
     (case DPoS_SetSetSize srt n d of
        None \<Rightarrow> None
      | Some d1 \<Rightarrow> Some (set_modules (Lachesis_SetGossipDelay conv g l) d1 (snd (PoH_SetTickDelay t p)) opt))"

lemma monitor_eq:
  "Optimizer_monitorPerformance conv srt opt =
     (let a = duration_seconds (pm_averageBlockTime (Optimizer_collectPerformanceMetrics opt)) in
      if f64_lt (Fin 6) a then (if o_logger opt then Optimizer_adjustForSlowPerformance conv srt opt else None)
      else if f64_lt a (Fin 4) then (if o_logger opt then Optimizer_adjustForFastPerformance conv srt opt else None)
      else Optimizer_finetunePerformance conv srt a (Fin 5) opt)"
  unfolding Optimizer_monitorPerformance_def Let_def target_times by (rule HOL.refl)

lemma monitor_cases:
  assumes m: "modules opt l d p" and "o_logger opt" and s: "4 \<le> dp_maxSetSize d" "dp_maxSetSize d \<le> 100"
  shows "\<exists>g n t. Optimizer_monitorPerformance conv srt opt = corrected conv srt g n t l d p opt \<and> 3 \<le> n \<and> n \<le> 102"
proof -
  obtain c where c: "o_consensus opt = Some c" "cs_lachesis c = Ptr l" "cs_dpos c = Ptr d" "cs_poh c = Ptr p"
    using m by (auto simp: modules_def)
  define a where "a = duration_seconds (pm_averageBlockTime (Optimizer_collectPerformanceMetrics opt))"
  note monitor = monitor_eq Let_def corrected_def a_def [symmetric] DPoS_GetSetSize_def
  have i: "i64 (dp_maxSetSize d + 1) = dp_maxSetSize d + 1" "i64 (dp_maxSetSize d - 1) = dp_maxSetSize d - 1"
    using s by (auto intro!: i64_id)
  consider "f64_lt (Fin 6) a" | "\<not> f64_lt (Fin 6) a" "f64_lt a (Fin 4)" | q where "a = Fin q" "4 \<le> q" "q \<le> 6"
    using seconds_not_NaN [of "pm_averageBlockTime (Optimizer_collectPerformanceMetrics opt)"]
    unfolding a_def [symmetric] by (cases a) (auto, force)
  then show ?thesis
  proof cases
    case 1
    have "Optimizer_monitorPerformance conv srt opt = corrected conv srt (scaled conv (Lachesis_GetGossipDelay l) (rnd (9 / 10)))
        (maxInt 4 (i64 (dp_maxSetSize d - 1))) (scaled conv (PoH_GetTickDelay p) (rnd (9 / 10))) l d p opt"
      by (simp add: monitor 1 assms(2) Optimizer_adjustForSlowPerformance_def modules_live [OF m])
    moreover have "3 \<le> maxInt 4 (i64 (dp_maxSetSize d - 1))" "maxInt 4 (i64 (dp_maxSetSize d - 1)) \<le> 102"
      using s i by (auto simp: maxInt_def)
    ultimately show ?thesis by blast
  next
    case 2
    have "Optimizer_monitorPerformance conv srt opt = corrected conv srt (scaled conv (Lachesis_GetGossipDelay l) (rnd (11 / 10)))
        (minInt 100 (i64 (dp_maxSetSize d + 1))) (scaled conv (PoH_GetTickDelay p) (rnd (11 / 10))) l d p opt"
      by (simp add: monitor 2 assms(2) Optimizer_adjustForFastPerformance_def modules_live [OF m])
    moreover have "3 \<le> minInt 100 (i64 (dp_maxSetSize d + 1))" "minInt 100 (i64 (dp_maxSetSize d + 1)) \<le> 102"
      using s i by (auto simp: minInt_def)
    ultimately show ?thesis by blast
  next
    case 3
    obtain f where f: "f64_sub f64_1 (f64_mul (rnd (1 / 10)) (f64_div (f64_sub (Fin q) (Fin 5)) (Fin 5))) = Fin f"
      "1003 / 1024 \<le> f" "f \<le> 1045 / 1024" using finetune_factor [OF 3(2,3)] .
    have "of_int (4 * 1003) / 1024 \<le> of_int (dp_maxSetSize d) * f" "of_int (dp_maxSetSize d) * f \<le> of_int (100 * 1045) / 1024"
      using mult_mono [of 4 "of_int (dp_maxSetSize d)" "1003 / 1024" f] mult_mono [of "of_int (dp_maxSetSize d)" 100 f "1045 / 1024"] s f
      by simp_all
    then have n: "3 \<le> scaled conv (dp_maxSetSize d) (Fin f)" "scaled conv (dp_maxSetSize d) (Fin f) \<le> 102"
      using scaled_bounds [of "dp_maxSetSize d" "4 * 1003" "100 * 1045" f conv] s by simp_all
    have "Optimizer_monitorPerformance conv srt opt = corrected conv srt (scaled conv (Lachesis_GetGossipDelay l) (Fin f))
        (scaled conv (dp_maxSetSize d) (Fin f)) (scaled conv (PoH_GetTickDelay p) (Fin f)) l d p opt"
      using 3 by (simp add: monitor f(1) c Optimizer_finetunePerformance_def split: option.split)
    with n show ?thesis by blast
  qed
qed

lemma corrected_modules:
  assumes "modules opt l d p" and "0 \<le> n"
  obtains l1 d1 p1 opt1 where "corrected conv srt g n t l d p opt = Some opt1" and "modules opt1 l1 d1 p1"
    and "dp_maxSetSize d1 = n" and "0 < poh_tickDelay p \<longrightarrow> 0 < poh_tickDelay p1" and "l_gossipDelay l1 = g"
    and "l_networkLoad l1 = l_networkLoad l"
    and "l_votingThreshold l1 = l_votingThreshold l" and "l_VirtualVoting l1 = l_VirtualVoting l"
proof -
  obtain d1 where d: "DPoS_SetSetSize srt n d = Some d1" "dp_maxSetSize d1 = n" using set_size_some [OF assms(2)] by blast
  have "corrected conv srt g n t l d p opt =
      Some (set_modules (Lachesis_SetGossipDelay conv g l) d1 (snd (PoH_SetTickDelay t p)) opt)" by (simp add: corrected_def d)
  from that [OF this modules_set [OF assms(1)] d(2)] show ?thesis by (simp add: tick_delay_positive Lachesis_SetGossipDelay_def)
qed

section \<open>Reachable states of the optimizer in a node\<close>

text \<open>The optimizer starts with a sample, then ticks; between ticks the other goroutines may change the node in any way that
  keeps the reported load between zero and one, which \<open>AdjustNetworkLoad\<close> sees to.\<close>

inductive optimizer_reachable ::
  "(float64 \<Rightarrow> float64 \<Rightarrow> float64) \<Rightarrow> (float64 \<Rightarrow> int) \<Rightarrow> Optimizer \<times> HybridConsensus \<Rightarrow> bool" for pow conv where
  start: "unit_load (HybridConsensus_GetNetworkLoad hc) \<Longrightarrow>
    optimizer_reachable pow conv (Optimizer_CollectSample t (NewOptimizer now (Some (as_consensus_iface hc)) True), hc)"
| tick: "optimizer_reachable pow conv s \<Longrightarrow> HybridConsensus_optimizerTick pow conv now srt1 srt2 s = Some s' \<Longrightarrow>
    optimizer_reachable pow conv s'"
| others: "optimizer_reachable pow conv (opt, hc) \<Longrightarrow> unit_load (HybridConsensus_GetNetworkLoad hc') \<Longrightarrow>
    optimizer_reachable pow conv (opt, hc')"

definition node_inv :: "Optimizer \<times> HybridConsensus \<Rightarrow> bool" where
  "node_inv = (\<lambda>(opt, hc). opt_inv opt \<and> o_logger opt \<and> o_consensus opt \<noteq> None \<and> unit_load (HybridConsensus_GetNetworkLoad hc))"

definition sampled :: "int \<Rightarrow> HybridConsensus \<Rightarrow> Optimizer \<Rightarrow> Optimizer" where
  "sampled now hc opt = Optimizer_CollectSample now (opt\<lparr>o_consensus := Some (as_consensus_iface hc)\<rparr>)"

lemma tick_eq:
  "o_consensus opt \<noteq> None \<Longrightarrow> HybridConsensus_optimizerTick pow conv now srt1 srt2 (opt, hc) =
     map_option (\<lambda>opt1. (opt1, with_consensus (o_consensus opt1) hc))
       (Optimizer_OptimizeConsensus pow conv srt1 srt2 (sampled now hc opt))"
  by (auto simp: HybridConsensus_optimizerTick_def run_tick_def sampled_def)

lemma sampled_modules: "modules (sampled now hc opt) (hc_lachesis hc) (hc_dpos hc) (hc_poh hc)"
  by (simp add: modules_def sampled_def as_consensus_iface_def)

lemma sampled_inv:
  "node_inv (opt, hc) \<Longrightarrow> opt_inv (sampled now hc opt) \<and> o_logger (sampled now hc opt)"
  by (auto simp: sampled_def node_inv_def as_consensus_iface_def opt_inv_def intro!: collect_inv [unfolded opt_inv_def])

lemma with_modules:
  "modules opt l d p \<Longrightarrow> with_consensus (o_consensus opt) hc = hc\<lparr>hc_vm := (hc_vm hc)\<lparr>st_lachesis := l, st_dpos := d\<rparr>, hc_poh := p\<rparr>"
  by (auto simp: modules_def with_consensus_def)

text \<open>One tick: the prediction changes the modules, then the correction does.\<close>

lemma tick_modules:
  assumes "node_inv (opt, hc)"
  obtains l2 d2 p2 opt2 where "HybridConsensus_optimizerTick pow conv now srt1 srt2 (opt, hc) =
      Some (opt2, hc\<lparr>hc_vm := (hc_vm hc)\<lparr>st_lachesis := l2, st_dpos := d2\<rparr>, hc_poh := p2\<rparr>)"
    and "modules opt2 l2 d2 p2" and "o_rest opt2 = o_rest (sampled now hc opt)"
    and "3 \<le> dp_maxSetSize d2" and "dp_maxSetSize d2 \<le> 102" and "0 < poh_tickDelay (hc_poh hc) \<longrightarrow> 0 < poh_tickDelay p2"
    and "l_networkLoad l2 = l_networkLoad (hc_lachesis hc)"
    and "if HybridConsensus_IsTestMode hc
      then l_votingThreshold l2 = l_votingThreshold (hc_lachesis hc) \<and> l_VirtualVoting l2 = l_VirtualVoting (hc_lachesis hc)
      else l_votingThreshold l2 = adapted_threshold pow (Optimizer_PredictLoad (sampled now hc opt)) (hc_lachesis hc) \<and>
           l_VirtualVoting l2 = VirtualVoting_SetThreshold
             (adapted_threshold pow (Optimizer_PredictLoad (sampled now hc opt)) (hc_lachesis hc)) (l_VirtualVoting (hc_lachesis hc))"
proof -
  let ?s = "sampled now hc opt"
  have o: "o_logger ?s" "o_consensus opt \<noteq> None" "o_consensus ?s = Some (as_consensus_iface hc)"
    using sampled_inv [OF assms] assms by (auto simp: node_inv_def sampled_def)
  obtain l1 d1 p1 opt1 where a: "Optimizer_adaptParameters pow conv srt1 (Optimizer_PredictLoad ?s) ?s = Some opt1"
    and m1: "modules opt1 l1 d1 p1" and b1: "4 \<le> dp_maxSetSize d1" "dp_maxSetSize d1 \<le> 100"
    and t1: "0 < poh_tickDelay (hc_poh hc) \<longrightarrow> 0 < poh_tickDelay p1" and n1: "l_networkLoad l1 = l_networkLoad (hc_lachesis hc)"
    and v1: "\<exists>c. o_consensus ?s = Some c \<and> (if cs_IsTestMode c = Some True
      then l_votingThreshold l1 = l_votingThreshold (hc_lachesis hc) \<and> l_VirtualVoting l1 = l_VirtualVoting (hc_lachesis hc)
      else l_votingThreshold l1 = adapted_threshold pow (Optimizer_PredictLoad ?s) (hc_lachesis hc) \<and>
           l_VirtualVoting l1 = VirtualVoting_SetThreshold
             (adapted_threshold pow (Optimizer_PredictLoad ?s) (hc_lachesis hc)) (l_VirtualVoting (hc_lachesis hc)))"
    by (rule adapt_modules [OF sampled_modules])
  have r1: "o_rest opt1 = o_rest ?s" using adjust_rest(1) [OF a] .
  then have "o_logger opt1" using o(1) by (simp add: o_rest_def)
  from monitor_cases [OF m1 this b1] obtain g n t where
    c: "Optimizer_monitorPerformance conv srt2 opt1 = corrected conv srt2 g n t l1 d1 p1 opt1" "3 \<le> n" "n \<le> 102" by blast
  from c(2) have "0 \<le> n" by simp
  from corrected_modules [OF m1 this] obtain l2 d2 p2 opt2 where m2: "corrected conv srt2 g n t l1 d1 p1 opt1 = Some opt2"
    "modules opt2 l2 d2 p2" "dp_maxSetSize d2 = n" "0 < poh_tickDelay p1 \<longrightarrow> 0 < poh_tickDelay p2"
    "l_networkLoad l2 = l_networkLoad l1" "l_votingThreshold l2 = l_votingThreshold l1" "l_VirtualVoting l2 = l_VirtualVoting l1" .
  have opt: "Optimizer_OptimizeConsensus pow conv srt1 srt2 ?s = Some opt2"
    using o(1) a c(1) m2(1) by (simp add: Optimizer_OptimizeConsensus_def)
  have t: "HybridConsensus_optimizerTick pow conv now srt1 srt2 (opt, hc) =
      Some (opt2, hc\<lparr>hc_vm := (hc_vm hc)\<lparr>st_lachesis := l2, st_dpos := d2\<rparr>, hc_poh := p2\<rparr>)"
    using tick_eq [OF o(2)] opt with_modules [OF m2(2)] by simp
  show ?thesis
    by (rule that [OF t m2(2) optimize_rest [OF opt]])
      (use o m2(3,4,5) c(2,3) t1 n1 v1 in \<open>simp_all add: m2(6,7) as_consensus_iface_def\<close>)
qed

lemma node_inv_rest:
  "node_inv (opt, hc) \<Longrightarrow> o_rest opt1 = o_rest (sampled now hc opt) \<Longrightarrow> HybridConsensus_GetNetworkLoad hc1 = HybridConsensus_GetNetworkLoad hc \<Longrightarrow>
   node_inv (opt1, hc1)"
  using sampled_inv [of opt hc now] opt_inv_rest [of opt1 "sampled now hc opt"]
  by (auto simp: node_inv_def o_rest_def sampled_def)

lemma node_reachable_inv: "optimizer_reachable pow conv s \<Longrightarrow> node_inv s"
proof (induction rule: optimizer_reachable.induct)
  case (start hc t now)
  have "opt_inv (NewOptimizer now (Some (as_consensus_iface hc)) True)" by (simp add: opt_inv_def NewOptimizer_def)
  from collect_inv [OF this] start show ?case by (simp add: node_inv_def NewOptimizer_def as_consensus_iface_def)
next
  case (tick s now srt1 srt2 s')
  obtain opt hc where s: "s = (opt, hc)" by (cases s)
  from tick.IH have n: "node_inv (opt, hc)" by (simp add: s)
  obtain opt2 l2 d2 p2 where "HybridConsensus_optimizerTick pow conv now srt1 srt2 (opt, hc) =
      Some (opt2, hc\<lparr>hc_vm := (hc_vm hc)\<lparr>st_lachesis := l2, st_dpos := d2\<rparr>, hc_poh := p2\<rparr>)"
    "o_rest opt2 = o_rest (sampled now hc opt)" "l_networkLoad l2 = l_networkLoad (hc_lachesis hc)"
    by (rule tick_modules [OF n])
  with tick.hyps(2) node_inv_rest [OF n] show ?case
    by (auto simp: s HybridConsensus_GetNetworkLoad_def Lachesis_GetNetworkLoad_def)
qed (auto simp: node_inv_def)

section \<open>Properties\<close>

definition pow_positive :: "(float64 \<Rightarrow> float64 \<Rightarrow> float64) \<Rightarrow> bool" where
  "pow_positive pow = (\<forall>q. \<bar>q\<bar> \<le> 1 / 2 \<longrightarrow> (\<exists>r>0. pow (rnd (11 / 10)) (Fin q) = Fin r))"

lemma pow_positiveE:
  assumes "pow_positive pow" and "unit_load x"
  obtains r where "pow (rnd (11 / 10)) (f64_sub x (Fin (1 / 2))) = Fin r" and "0 < r"
proof -
  from assms(2) obtain q where q: "x = Fin q" "0 \<le> q" "q \<le> 1" by (rule unit_loadE)
  obtain u where u: "rnd (q + - (1 / 2)) = Fin u" "- 1 / 2 \<le> u" "u \<le> 1 / 2"
    using rnd_between [of "- 1 / 2" "1 / 2" "q + - (1 / 2)"] rnd_exact [of 1 "- 1"] rnd_exact [of "- 1" "- 1"] q
    by (auto simp: pow2_def)
  then have "\<bar>u\<bar> \<le> 1 / 2" by (simp add: abs_le_iff)
  with assms(1) u q show ?thesis using that by (auto simp: pow_positive_def f64_sub_def)
qed

text \<open>C14: Whatever the other goroutines do, a tick of the optimizer never panics, its windows hold at most a hundred entries and its prediction is a number
  between zero and one. After the tick the active set has a size between 3 and 102, a positive tick delay is still positive, and outside test mode the voting
  threshold, of Lachesis and of its virtual voting alike, lies between 0.66 and 0.9 whatever number the configuration or governance had set, the infinities
  included. A threshold that is not a number passes the comparisons that guard it and is never repaired: it stays not a number in both.
  \<open>math.Pow\<close> is assumed to be positive for a positive base.\<close>

theorem optimizer_safe:
  assumes "optimizer_reachable pow conv (opt, hc)" and "pow_positive pow"
  shows "unit_load (Optimizer_PredictLoad opt) \<and> length (o_samples opt) \<le> 100 \<and> length (o_blockTimes opt) \<le> 100 \<and>
    (\<exists>opt1 hc1. HybridConsensus_optimizerTick pow conv now srt1 srt2 (opt, hc) = Some (opt1, hc1) \<and>
       3 \<le> DPoS_GetSetSize (hc_dpos hc1) \<and> DPoS_GetSetSize (hc_dpos hc1) \<le> 102 \<and>
       (PoH_GetTickDelay (hc_poh hc) \<le> 0 \<or> 0 < PoH_GetTickDelay (hc_poh hc1)) \<and>
       (if HybridConsensus_IsTestMode hc
        then Lachesis_GetVotingThreshold (hc_lachesis hc1) = Lachesis_GetVotingThreshold (hc_lachesis hc)
        else if Lachesis_GetVotingThreshold (hc_lachesis hc) = NaN
        then Lachesis_GetVotingThreshold (hc_lachesis hc1) = NaN \<and> VirtualVoting_GetThreshold (l_VirtualVoting (hc_lachesis hc1)) = NaN
        else f64_le (rnd (66 / 100)) (Lachesis_GetVotingThreshold (hc_lachesis hc1)) \<and>
             f64_le (Lachesis_GetVotingThreshold (hc_lachesis hc1)) (rnd (9 / 10)) \<and>
             VirtualVoting_GetThreshold (l_VirtualVoting (hc_lachesis hc1)) = Lachesis_GetVotingThreshold (hc_lachesis hc1)))"
proof -
  have n: "node_inv (opt, hc)" using node_reachable_inv [OF assms(1)] .
  then have inv: "opt_inv opt" by (simp add: node_inv_def)
  obtain r where r: "pow (rnd (11 / 10)) (f64_sub (Optimizer_PredictLoad (sampled now hc opt)) (Fin (1 / 2))) = Fin r" "0 < r"
    using pow_positiveE [OF assms(2) predict_unit] sampled_inv [OF n] by blast
  note b = adapted_bounds [where pow = pow, OF _ r] and nan = adapted_NaN [where pow = pow and l = "hc_lachesis hc"]
  obtain l2 d2 p2 opt2 where t: "HybridConsensus_optimizerTick pow conv now srt1 srt2 (opt, hc) =
      Some (opt2, hc\<lparr>hc_vm := (hc_vm hc)\<lparr>st_lachesis := l2, st_dpos := d2\<rparr>, hc_poh := p2\<rparr>)"
    and d: "3 \<le> dp_maxSetSize d2" "dp_maxSetSize d2 \<le> 102" "0 < poh_tickDelay (hc_poh hc) \<longrightarrow> 0 < poh_tickDelay p2"
    and v: "if HybridConsensus_IsTestMode hc
      then l_votingThreshold l2 = l_votingThreshold (hc_lachesis hc) \<and> l_VirtualVoting l2 = l_VirtualVoting (hc_lachesis hc)
      else l_votingThreshold l2 = adapted_threshold pow (Optimizer_PredictLoad (sampled now hc opt)) (hc_lachesis hc) \<and>
           l_VirtualVoting l2 = VirtualVoting_SetThreshold
             (adapted_threshold pow (Optimizer_PredictLoad (sampled now hc opt)) (hc_lachesis hc)) (l_VirtualVoting (hc_lachesis hc))"
    by (rule tick_modules [OF n])
  from predict_unit [OF inv] inv d v b nan show ?thesis unfolding t
    by (auto simp: opt_inv_def opt_sampleSize_def DPoS_GetSetSize_def PoH_GetTickDelay_def Lachesis_GetVotingThreshold_def
        VirtualVoting_GetThreshold_def simp del: One_nat_def split: if_splits)
qed

text \<open>The node of the default configuration, with \<open>math.Pow\<close> replaced by a constant.\<close>

definition fresh_node :: HybridConsensus where
  "fresh_node = NewHybridConsensusWithConfig 0 DefaultHybridConfig"

definition fresh_optimizer :: Optimizer where
  "fresh_optimizer = Optimizer_CollectSample 0 (NewOptimizer 0 (Some (as_consensus_iface fresh_node)) True)"

lemma fresh_node_simps:
  "l_networkLoad (hc_lachesis fresh_node) = f64_0" "l_gossipDelay (hc_lachesis fresh_node) = second"
  "l_votingThreshold (hc_lachesis fresh_node) = rnd (66 / 100)" "hc_cfg fresh_node = DefaultHybridConfig"
  unfolding fresh_node_def NewHybridConsensusWithConfig_def DefaultConfig_valid
  by (simp_all add: Let_def DefaultHybridConfig_def NewLachesis_def Lachesis_SetVotingThreshold_def)

lemma fresh_load: "HybridConsensus_GetNetworkLoad fresh_node = f64_0"
  by (simp add: HybridConsensus_GetNetworkLoad_def Lachesis_GetNetworkLoad_def fresh_node_simps)

lemma fresh_reachable: "optimizer_reachable pow conv (fresh_optimizer, fresh_node)"
  unfolding fresh_optimizer_def by (rule optimizer_reachable.start) (simp add: fresh_load)

theorem optimizer_safe_witness:
  "\<exists>opt1 hc1. HybridConsensus_optimizerTick (\<lambda>b x. Fin 1) (\<lambda>_. 0) second [] [] (fresh_optimizer, fresh_node) = Some (opt1, hc1) \<and>
     f64_le (rnd (66 / 100)) (Lachesis_GetVotingThreshold (hc_lachesis hc1))"
proof -
  have "pow_positive (\<lambda>b x. Fin 1)" by (auto simp: pow_positive_def)
  moreover have "Lachesis_GetVotingThreshold (hc_lachesis fresh_node) \<noteq> NaN"
    unfolding Lachesis_GetVotingThreshold_def fresh_node_simps
    using rnd_between [of "5 / 8" 1 "66 / 100"] rnd_exact [of 5 "- 3"] rnd_int [of 1] by (auto simp: pow2_def)
  ultimately show ?thesis using optimizer_safe [OF fresh_reachable, of "\<lambda>b x. Fin 1" "\<lambda>_. 0" second "[]" "[]"]
    by (auto simp: fresh_node_simps HybridConsensus_IsTestMode_def DefaultHybridConfig_def)
qed

section \<open>An idle node loses its gossip delay\<close>

lemma seconds_below_four:
  assumes "0 \<le> d" and "d < 4 * second"
  shows "f64_lt (duration_seconds d) (Fin 4)"
proof -
  have e: "rnd (of_int m / 2 ^ 30) = Fin (of_int m / 2 ^ 30)" if "\<bar>m\<bar> \<le> 2 ^ 53" for m
    using rnd_exact [OF that, of "- 30"] by (simp add: pow2_def)
  have g: "go_div d second = d div second" "go_mod d second = d mod second"
    using assms by (simp_all add: go_mod_def go_div_nonneg second_def minus_mult_div_eq_mod)
  have b: "0 \<le> d div second" "d div second \<le> 3" "0 \<le> d mod second" "d mod second \<le> 999999999"
    using assms by (auto simp: second_def div_less_iff_less_mult)
  have i: "f64_of_int (d div second) = Fin (of_int (d div second))" "f64_of_int (d mod second) = Fin (of_int (d mod second))"
    using b by (auto simp: f64_of_int_def intro!: rnd_int)
  have "(of_int (d mod second) :: rat) \<le> of_int 999999999" using b(4) by (simp only: of_int_le_iff)
  then obtain y where y: "rnd (of_int (d mod second) / 1000000000) = Fin y" "y \<le> of_int (2 ^ 30 - 1) / 2 ^ 30"
    using rnd_between [OF rnd_0 e [of "2 ^ 30 - 1"], of "of_int (d mod second) / 1000000000"] b(3) by auto
  have "(of_int (d div second) :: rat) \<le> of_int 3" using b(2) by (simp only: of_int_le_iff)
  with y have "of_int (d div second) + y \<le> of_int (2 ^ 32 - 1) / 2 ^ 30" by simp
  from rnd_mono [OF this] e [of "2 ^ 32 - 1"] have "f64_lt (rnd (of_int (d div second) + y)) (Fin 4)"
    by (cases "rnd (of_int (d div second) + y)") (auto simp: f64_le_def)
  then show ?thesis using i y by (simp add: duration_seconds_def g)
qed

lemma average_below_four:
  assumes "o_blockTimes opt \<noteq> []" and "length (o_blockTimes opt) \<le> 100" and "\<forall>b\<in>set (o_blockTimes opt). 0 \<le> b \<and> b < 4 * second"
  shows "f64_lt (duration_seconds (pm_averageBlockTime (Optimizer_collectPerformanceMetrics opt))) (Fin 4)"
proof (rule seconds_below_four)
  let ?n = "int (length (o_blockTimes opt))" and ?s = "sum_list (o_blockTimes opt)"
  have "0 \<le> sum_list bs \<and> sum_list bs \<le> int (length bs) * (4 * second - 1)" if "\<forall>b\<in>set bs. 0 \<le> b \<and> b < 4 * second" for bs :: "int list"
    using that by (induction bs) (auto simp: algebra_simps)
  from this [OF assms(3)] have s: "0 \<le> ?s" "?s \<le> ?n * (4 * second - 1)" by auto
  have n: "1 \<le> ?n" "?n \<le> 100" using assms(1,2) by (auto simp: Suc_le_eq)
  have "?n * (4 * second - 1) \<le> 100 * (4 * second - 1)" using n(2) by (intro mult_right_mono) (auto simp: second_def)
  then have i: "i64 ?s = ?s" using s by (intro i64_id) (auto simp: second_def)
  have "pm_averageBlockTime (Optimizer_collectPerformanceMetrics opt) = ?s div ?n"
    using assms(1) i s(1) by (simp add: Optimizer_collectPerformanceMetrics_def Let_def go_div_nonneg)
  moreover have "?s div ?n < 4 * second"
  proof -
    have "?s < 4 * second * ?n" using s(2) n(1) by (simp add: algebra_simps)
    moreover have "?n * (?s div ?n) \<le> ?s"
      using mult_div_mod_eq [of ?n ?s] pos_mod_sign [of ?n ?s] n(1) by linarith
    ultimately show ?thesis using n(1) mult_left_mono [of "4 * second" "?s div ?n" ?n] by (fastforce simp: mult.commute)
  qed
  moreover have "0 \<le> ?s div ?n" using s(1) n(1) pos_imp_zdiv_nonneg_iff [of ?n ?s] by linarith
  ultimately show "0 \<le> pm_averageBlockTime (Optimizer_collectPerformanceMetrics opt)"
    "pm_averageBlockTime (Optimizer_collectPerformanceMetrics opt) < 4 * second" by simp_all
qed

lemma monitor_fast:
  assumes m: "modules opt l d p" and "o_logger opt"
    and f: "f64_lt (duration_seconds (pm_averageBlockTime (Optimizer_collectPerformanceMetrics opt))) (Fin 4)"
  shows "Optimizer_monitorPerformance conv srt opt = corrected conv srt (scaled conv (l_gossipDelay l) (rnd (11 / 10)))
        (minInt 100 (i64 (dp_maxSetSize d + 1))) (scaled conv (PoH_GetTickDelay p) (rnd (11 / 10))) l d p opt"
proof -
  have "\<not> f64_lt (Fin 6) (duration_seconds (pm_averageBlockTime (Optimizer_collectPerformanceMetrics opt)))"
    using f by (cases "duration_seconds (pm_averageBlockTime (Optimizer_collectPerformanceMetrics opt))") auto
  then show ?thesis
    using f assms(2) by (simp add: monitor_eq Let_def Optimizer_adjustForFastPerformance_def modules_live [OF m] corrected_def
        DPoS_GetSetSize_def Lachesis_GetGossipDelay_def)
qed

definition idle :: "Optimizer \<Rightarrow> bool" where
  "idle opt = (o_consensus opt \<noteq> None \<and> o_logger opt \<and> 9 \<le> length (o_samples opt) \<and> length (o_samples opt) \<le> 100 \<and>
     set (o_samples opt) = {f64_0} \<and> o_ema opt = f64_0 \<and> length (o_blockTimes opt) \<le> 100 \<and>
     (\<forall>b\<in>set (o_blockTimes opt). 0 \<le> b \<and> b < 4 * second))"

lemma idle_sampled:
  assumes "idle opt" and "HybridConsensus_GetNetworkLoad hc = f64_0" and "0 \<le> now - o_lastBlockTime opt" and "now - o_lastBlockTime opt < 4 * second"
  shows "idle (sampled now hc opt)" and "Optimizer_PredictLoad (sampled now hc opt) = f64_0"
    and "o_blockTimes (sampled now hc opt) \<noteq> []" and "o_lastBlockTime (sampled now hc opt) = now"
proof -
  have len: "length (append_sample x xs) = min 100 (length xs + 1)" if "length xs \<le> 100" for x :: 'a and xs
    using that by (auto simp: append_sample_def Let_def opt_sampleSize_def)
  have *: "idle (sampled now hc opt) \<and> 10 \<le> length (o_samples (sampled now hc opt)) \<and> o_blockTimes (sampled now hc opt) \<noteq> [] \<and>
      o_lastBlockTime (sampled now hc opt) = now"
    using assms set_append_sample [of f64_0 "o_samples opt"] set_append_sample [of "now - o_lastBlockTime opt" "o_blockTimes opt"]
    by (auto simp: idle_def sampled_def Optimizer_CollectSample_def as_consensus_iface_def Let_def len alpha_val one_minus_alpha_val)
  have "last xs = f64_0 \<and> hd xs = f64_0" if "set xs = {f64_0}" for xs
    using that by (metis empty_iff empty_set hd_in_set insert_not_empty last_in_set singletonD)
  moreover have "f64_of_int (int (length (o_samples (sampled now hc opt)))) = Fin (of_nat (length (o_samples (sampled now hc opt))))"
    using rnd_int [of "int (length (o_samples (sampled now hc opt)))"] * by (simp add: f64_of_int_def idle_def)
  ultimately show "idle (sampled now hc opt)" "Optimizer_PredictLoad (sampled now hc opt) = f64_0"
    "o_blockTimes (sampled now hc opt) \<noteq> []" "o_lastBlockTime (sampled now hc opt) = now"
    using * by (auto simp: idle_def Optimizer_PredictLoad_def Let_def f64_sub_def f64_Max_def f64_Min_def)
qed

text \<open>One tick of an idle node multiplies the gossip delay by at most 27/32.\<close>

lemma gossip_shrinks:
  assumes "0 \<le> r" and "r \<le> 3 / 4" and "0 \<le> g" and "g \<le> 2 ^ 42"
  shows "0 \<le> scaled conv (scaled conv g (Fin r)) (rnd (11 / 10))" and "32 * scaled conv (scaled conv g (Fin r)) (rnd (11 / 10)) \<le> 27 * g"
proof -
  let ?e = "scaled conv g (Fin r)"
  have "of_int g * r \<le> of_int g * (3 / 4)" using assms(2,3) by (intro mult_left_mono) auto
  with scaled_bounds [of g 0 "768 * g" r conv] assms have e: "0 \<le> ?e" "?e \<le> 768 * g div 1024" by simp_all
  obtain c where c: "rnd (11 / 10) = Fin c" "0 \<le> c" "c \<le> 1152 / 1024"
    using rnd_between [OF rnd_0, of "9 / 8" "11 / 10"] rnd_exact [of 9 "- 3"] by (auto simp: pow2_def)
  have e2: "4 * ?e \<le> 3 * g" using e by linarith
  have "of_int ?e * c \<le> of_int ?e * (1152 / 1024)" using c(3) e(1) by (intro mult_left_mono) auto
  with scaled_bounds [of ?e 0 "1152 * ?e" c conv] e(1) e2 c(2) assms(4)
  have "0 \<le> scaled conv ?e (Fin c)" "scaled conv ?e (Fin c) \<le> 1152 * ?e div 1024" by simp_all
  with e2 show "0 \<le> scaled conv ?e (rnd (11 / 10))" "32 * scaled conv ?e (rnd (11 / 10)) \<le> 27 * g" unfolding c(1) by linarith+
qed

lemma idle_tick:
  assumes "idle opt" and "HybridConsensus_GetNetworkLoad hc = f64_0" and "0 \<le> now - o_lastBlockTime opt" and "now - o_lastBlockTime opt < 4 * second"
    and r: "pow (Fin 2) (Fin (- 1 / 2)) = Fin r" "0 \<le> r" "r \<le> 3 / 4"
    and g: "0 \<le> l_gossipDelay (hc_lachesis hc)" "l_gossipDelay (hc_lachesis hc) \<le> 2 ^ 42"
  obtains opt1 hc1 where "HybridConsensus_optimizerTick pow conv now srt1 srt2 (opt, hc) = Some (opt1, hc1)"
    and "idle opt1" and "o_lastBlockTime opt1 = now" and "HybridConsensus_GetNetworkLoad hc1 = f64_0"
    and "0 \<le> l_gossipDelay (hc_lachesis hc1)" and "32 * l_gossipDelay (hc_lachesis hc1) \<le> 27 * l_gossipDelay (hc_lachesis hc)"
proof -
  let ?s = "sampled now hc opt" and ?g = "l_gossipDelay (hc_lachesis hc)"
  note i = idle_sampled [OF assms(1-4)]
  have o: "o_logger ?s" "o_consensus opt \<noteq> None" using assms(1) by (auto simp: idle_def sampled_def)
  obtain l1 d1 p1 opt1 where a: "Optimizer_adaptParameters pow conv srt1 (Optimizer_PredictLoad ?s) ?s = Some opt1"
    and m1: "modules opt1 l1 d1 p1" and b1: "4 \<le> dp_maxSetSize d1" "dp_maxSetSize d1 \<le> 100"
    and n1: "l_networkLoad l1 = l_networkLoad (hc_lachesis hc)"
    and g1: "l_gossipDelay l1 = scaled conv ?g (pow (Fin 2) (f64_sub (Optimizer_PredictLoad ?s) (Fin (1 / 2))))"
    by (rule adapt_modules [OF sampled_modules])
  have "rnd (- 1 / 2) = Fin (- 1 / 2)" using rnd_exact [of "- 1" "- 1"] by (simp add: pow2_def)
  then have g1': "l_gossipDelay l1 = scaled conv ?g (Fin r)" using g1 r(1) by (simp add: i(2) f64_sub_def)
  have r1: "o_rest opt1 = o_rest ?s" using adjust_rest(1) [OF a] .
  then have l: "o_logger opt1" using o(1) by (simp add: o_rest_def)
  have "f64_lt (duration_seconds (pm_averageBlockTime (Optimizer_collectPerformanceMetrics opt1))) (Fin 4)"
    using average_below_four [of ?s] i(1,3) by (simp add: average_rest [OF r1] idle_def)
  note c = monitor_fast [OF m1 l this]
  have "0 \<le> minInt 100 (i64 (dp_maxSetSize d1 + 1))" using b1 i64_id [of "dp_maxSetSize d1 + 1"] by (simp add: minInt_def)
  from corrected_modules [OF m1 this] obtain l2 d2 p2 opt2 where
    m2: "corrected conv srt2 (scaled conv (l_gossipDelay l1) (rnd (11 / 10))) (minInt 100 (i64 (dp_maxSetSize d1 + 1)))
        (scaled conv (PoH_GetTickDelay p1) (rnd (11 / 10))) l1 d1 p1 opt1 = Some opt2"
      "modules opt2 l2 d2 p2" "l_gossipDelay l2 = scaled conv (l_gossipDelay l1) (rnd (11 / 10))" "l_networkLoad l2 = l_networkLoad l1" .
  have opt: "Optimizer_OptimizeConsensus pow conv srt1 srt2 ?s = Some opt2"
    using o(1) a c m2(1) by (simp add: Optimizer_OptimizeConsensus_def)
  have t: "HybridConsensus_optimizerTick pow conv now srt1 srt2 (opt, hc) =
      Some (opt2, hc\<lparr>hc_vm := (hc_vm hc)\<lparr>st_lachesis := l2, st_dpos := d2\<rparr>, hc_poh := p2\<rparr>)"
    using tick_eq [OF o(2)] opt with_modules [OF m2(2)] by simp
  have "idle opt2" "o_lastBlockTime opt2 = now"
    using optimize_rest [OF opt] i(1,4) m2(2) by (auto simp: o_rest_def idle_def modules_def)
  from that [OF t this] show thesis
    using gossip_shrinks [OF r(2,3) g] m2(3,4) n1 assms(2)
    by (simp add: g1' HybridConsensus_GetNetworkLoad_def Lachesis_GetNetworkLoad_def)
qed

fun optimizer_ticks ::
  "(float64 \<Rightarrow> float64 \<Rightarrow> float64) \<Rightarrow> (float64 \<Rightarrow> int) \<Rightarrow> (int \<times> hash32 list \<times> hash32 list) list \<Rightarrow> Optimizer \<times> HybridConsensus \<Rightarrow>
   (Optimizer \<times> HybridConsensus) option" where
  "optimizer_ticks pow conv [] s = Some s"
| "optimizer_ticks pow conv ((now, srt1, srt2) # ts) s =
     (case HybridConsensus_optimizerTick pow conv now srt1 srt2 s of None \<Rightarrow> None | Some s1 \<Rightarrow> optimizer_ticks pow conv ts s1)"

fun regular :: "int \<Rightarrow> (int \<times> 'a) list \<Rightarrow> bool" where
  "regular t [] = True"
| "regular t ((now, _) # ts) = (0 \<le> now - t \<and> now - t < 4 * second \<and> regular now ts)"

lemma idle_run:
  assumes "idle opt" and "HybridConsensus_GetNetworkLoad hc = f64_0" and "regular (o_lastBlockTime opt) ts"
    and r: "pow (Fin 2) (Fin (- 1 / 2)) = Fin r" "0 \<le> r" "r \<le> 3 / 4"
    and g: "0 \<le> l_gossipDelay (hc_lachesis hc)" "l_gossipDelay (hc_lachesis hc) \<le> 2 ^ 42"
  shows "\<exists>d. d 0 = l_gossipDelay (hc_lachesis hc) \<and>
      (\<forall>k\<le>length ts. \<exists>opt1 hc1. optimizer_ticks pow conv (take k ts) (opt, hc) = Some (opt1, hc1) \<and> l_gossipDelay (hc_lachesis hc1) = d k) \<and>
      (\<forall>k<length ts. 0 \<le> d (Suc k) \<and> 32 * d (Suc k) \<le> 27 * d k)"
  using assms
proof (induction ts arbitrary: opt hc)
  case Nil
  then show ?case by (intro exI [of _ "\<lambda>_. l_gossipDelay (hc_lachesis hc)"]) simp
next
  case (Cons t ts)
  obtain now srt1 srt2 where t: "t = (now, srt1, srt2)" by (metis prod_cases3)
  from Cons.prems(3) have n: "0 \<le> now - o_lastBlockTime opt" "now - o_lastBlockTime opt < 4 * second" "regular now ts" by (simp_all add: t)
  obtain opt1 hc1 where k: "HybridConsensus_optimizerTick pow conv now srt1 srt2 (opt, hc) = Some (opt1, hc1)" "idle opt1"
      "o_lastBlockTime opt1 = now" "HybridConsensus_GetNetworkLoad hc1 = f64_0" "0 \<le> l_gossipDelay (hc_lachesis hc1)"
      "32 * l_gossipDelay (hc_lachesis hc1) \<le> 27 * l_gossipDelay (hc_lachesis hc)"
    by (rule idle_tick [where pow = pow, OF Cons.prems(1,2) n(1,2) Cons.prems(4-8)])
  have "l_gossipDelay (hc_lachesis hc1) \<le> 2 ^ 42" using k(5,6) Cons.prems(7,8) by linarith
  from Cons.IH [OF k(2,4) _ Cons.prems(4-6) k(5) this] n(3) k(3) obtain d where
    d: "d 0 = l_gossipDelay (hc_lachesis hc1)" "\<forall>k<length ts. 0 \<le> d (Suc k) \<and> 32 * d (Suc k) \<le> 27 * d k"
      "\<forall>k\<le>length ts. \<exists>opt2 hc2. optimizer_ticks pow conv (take k ts) (opt1, hc1) = Some (opt2, hc2) \<and> l_gossipDelay (hc_lachesis hc2) = d k" by auto
  let ?d = "case_nat (l_gossipDelay (hc_lachesis hc)) d"
  have "\<exists>opt2 hc2. optimizer_ticks pow conv (take m (t # ts)) (opt, hc) = Some (opt2, hc2) \<and> l_gossipDelay (hc_lachesis hc2) = ?d m"
    if "m \<le> length (t # ts)" for m
    using that d(3) by (cases m) (simp_all add: t k(1))
  moreover have "0 \<le> ?d (Suc m) \<and> 32 * ?d (Suc m) \<le> 27 * ?d m" if "m < length (t # ts)" for m
    using that d(1,2) k(5,6) by (cases m) simp_all
  ultimately show ?case by (intro exI [of _ ?d]) simp
qed

lemma falls_to:
  assumes "\<forall>k<n. 32 * d (Suc k) \<le> 27 * (d k :: int)"
  shows "(of_int (d n) :: rat) \<le> (27 / 32) ^ n * of_int (d 0)"
  using assms
proof (induction n)
  case (Suc n)
  have "of_int (32 * d (Suc n)) \<le> (of_int (27 * d n) :: rat)" using Suc.prems by (simp only: of_int_le_iff)
  then have "(of_int (d (Suc n)) :: rat) \<le> 27 / 32 * of_int (d n)" by simp
  also have "\<dots> \<le> 27 / 32 * ((27 / 32) ^ n * of_int (d 0))" using Suc by (intro mult_left_mono) simp_all
  finally show ?case by simp
qed simp

text \<open>C24: The optimizer takes the time between two of its own samples, one second, for the time between two blocks, so it always finds
  the blocks too fast, and it scales the gossip delay by \<open>2 ^ (load - 0.5)\<close>. Take a node whose optimizer has been idle for a while: it has at least
  nine samples, all of them zero, as every node reports (nothing in the program calls \<open>AdjustNetworkLoad\<close>), and has seen no gap of four seconds; and
  whose gossip delay is at most 2^42 nanoseconds, about 73 minutes. (Before that many samples are there the prediction is 0.5 and the delay still grows.)
  Then along every run of ticks that are less than four seconds apart, no tick panics, and each one leaves at most 27/32 of the delay it found; once
  \<open>(27/32)^n\<close> times the first delay is below a nanosecond, the delay after \<open>n\<close> ticks is zero. All that is assumed of \<open>math.Pow\<close> is that
  \<open>2 ^ (-0.5)\<close> lies between 0 and 3/4.\<close>

theorem gossip_delay_vanishes:
  assumes "idle opt" and "HybridConsensus_GetNetworkLoad hc = f64_0" and "regular (o_lastBlockTime opt) ts"
    and "pow (Fin 2) (Fin (- 1 / 2)) = Fin r" and "0 \<le> r" and "r \<le> 3 / 4"
    and "0 \<le> Lachesis_GetGossipDelay (hc_lachesis hc)" and "Lachesis_GetGossipDelay (hc_lachesis hc) \<le> 2 ^ 42"
  shows "\<exists>d. d 0 = Lachesis_GetGossipDelay (hc_lachesis hc) \<and>
    (\<forall>k\<le>length ts. \<exists>opt1 hc1. optimizer_ticks pow conv (take k ts) (opt, hc) = Some (opt1, hc1) \<and> Lachesis_GetGossipDelay (hc_lachesis hc1) = d k) \<and>
    (\<forall>k<length ts. 0 \<le> d (Suc k) \<and> 32 * d (Suc k) \<le> 27 * d k) \<and>
    ((27 / 32) ^ length ts * (of_int (d 0) :: rat) < 1 \<longrightarrow> d (length ts) = 0)"
proof -
  obtain d where d: "d 0 = l_gossipDelay (hc_lachesis hc)" "\<forall>k<length ts. 0 \<le> d (Suc k) \<and> 32 * d (Suc k) \<le> 27 * d k"
      "\<forall>k\<le>length ts. \<exists>opt1 hc1. optimizer_ticks pow conv (take k ts) (opt, hc) = Some (opt1, hc1) \<and> l_gossipDelay (hc_lachesis hc1) = d k"
    using idle_run [where pow = pow, OF assms(1-6), of conv] assms(7,8) by (auto simp: Lachesis_GetGossipDelay_def)
  have "d (length ts) = 0" if n: "(27 / 32) ^ length ts * (of_int (d 0) :: rat) < 1"
  proof -
    have "(of_int (d (length ts)) :: rat) < of_int 1" using falls_to [of "length ts" d] d(2) n by simp
    then have "d (length ts) < 1" by (simp only: of_int_less_iff)
    moreover have "0 \<le> d (length ts)" using d(1,2) assms(7) by (cases "length ts") (auto simp: Lachesis_GetGossipDelay_def)
    ultimately show ?thesis by simp
  qed
  with d show ?thesis by (intro exI [of _ d]) (simp add: Lachesis_GetGossipDelay_def)
qed

lemma regular_seconds: "regular (int k * second) (map (\<lambda>i. (int i * second, x)) [Suc k..<Suc k + n])"
proof (induction n arbitrary: k)
  case (Suc n)
  have "[Suc k..<Suc k + Suc n] = Suc k # [Suc (Suc k)..<Suc (Suc k) + n]" by (simp add: upt_rec)
  then show ?case using Suc.IH [of "Suc k"] by (simp add: algebra_simps second_def)
qed simp

definition idle_optimizer :: Optimizer where
  "idle_optimizer = \<lparr>o_consensus = Some (as_consensus_iface fresh_node), o_samples = replicate 9 f64_0, o_blockTimes = replicate 9 second,
     o_lastBlockTime = 0, o_ema = f64_0, o_logger = True\<rparr>"

text \<open>The delay of one second of the default configuration is lost in about two minutes.\<close>

theorem gossip_delay_vanishes_witness:
  "\<exists>opt1 hc1. optimizer_ticks (\<lambda>b x. Fin (45 / 64)) (\<lambda>_. 0) (map (\<lambda>i. (int i * second, [], [])) [1..<123]) (idle_optimizer, fresh_node) =
     Some (opt1, hc1) \<and> Lachesis_GetGossipDelay (hc_lachesis hc1) = 0"
proof -
  let ?ts = "map (\<lambda>i. (int i * second, [], [])) [1..<123] :: (int \<times> hash32 list \<times> hash32 list) list"
  have g: "Lachesis_GetGossipDelay (hc_lachesis fresh_node) = second" by (simp add: Lachesis_GetGossipDelay_def fresh_node_simps)
  have "regular (o_lastBlockTime idle_optimizer) ?ts"
    using regular_seconds [of 0 "([], [])" 122] by (simp add: idle_optimizer_def)
  moreover have "idle idle_optimizer" by (simp add: idle_def idle_optimizer_def second_def)
  ultimately obtain d where d: "d 0 = second" "((27 / 32) ^ length ?ts * (of_int (d 0) :: rat) < 1 \<longrightarrow> d (length ?ts) = 0)"
      "\<forall>k\<le>length ?ts. \<exists>opt1 hc1. optimizer_ticks (\<lambda>b x. Fin (45 / 64)) (\<lambda>_. 0) (take k ?ts) (idle_optimizer, fresh_node) = Some (opt1, hc1) \<and>
         Lachesis_GetGossipDelay (hc_lachesis hc1) = d k"
    using gossip_delay_vanishes [of idle_optimizer fresh_node ?ts "\<lambda>b x. Fin (45 / 64)" "45 / 64" "\<lambda>_. 0"] fresh_load g by (auto simp: second_def)
  have "d (length ?ts) = 0" using d(1,2) by (simp add: second_def power_divide)
  with d(3) [rule_format, of "length ?ts"] show ?thesis by simp
qed

end
