(* ===== verification/ProfilerTheory.thy ===== *)
theory ProfilerTheory
  imports GoTime "HOL-Library.Multiset"
begin

text \<open>
  The performance profiler of \<open>consensus/performance_profiler.go\<close>: per kind of operation it keeps the number, the total, the
  extremes and the percentiles of the durations, and it can switch the profile of the processor on and off.

  A panic is \<open>None\<close>. The outcome of \<open>os.Create\<close> is an argument. \<open>runtime/pprof\<close> has one profile per process: the field
  \<open>pp_pprof\<close> says that it is running, and \<open>StartCPUProfile\<close> fails while it does. Log output and the memory profile, a file that nothing reads,
  are left out.
\<close>

section \<open>Data\<close>

type_synonym OperationType = string

record OperationMetrics =
  om_Count :: int
  om_TotalDuration :: duration
  om_MinDuration :: duration
  om_MaxDuration :: duration
  om_AvgDuration :: duration
  om_P50Duration :: duration
  om_P90Duration :: duration
  om_P99Duration :: duration
  om_RecentDurations :: "duration list"
  om_LastUpdated :: int

record PerformanceProfiler =
  pp_enabled :: bool
  pp_cpuProfilingEnabled :: bool
  pp_memProfilingEnabled :: bool
  pp_sampleSize :: int
  pp_logFrequency :: duration
  pp_metrics :: "OperationType \<rightharpoonup> OperationMetrics"
  pp_cpuProfileFile :: bool
  pp_bottleneckThreshold :: duration
  pp_stopped :: bool
  pp_pprof :: bool

definition NewPerformanceProfiler :: "bool \<Rightarrow> PerformanceProfiler" where
  "NewPerformanceProfiler pprof =
     \<lparr>pp_enabled = True, pp_cpuProfilingEnabled = False, pp_memProfilingEnabled = False, pp_sampleSize = 100,
      pp_logFrequency = 30 * second, pp_metrics = Map.empty, pp_cpuProfileFile = False, pp_bottleneckThreshold = 100 * millisecond,
      pp_stopped = False, pp_pprof = pprof\<rparr>"

section \<open>Recording\<close>

definition zero_metrics :: "duration \<Rightarrow> int \<Rightarrow> OperationMetrics" where
  "zero_metrics duration now =
     \<lparr>om_Count = 0, om_TotalDuration = 0, om_MinDuration = duration, om_MaxDuration = duration, om_AvgDuration = 0,
      om_P50Duration = 0, om_P90Duration = 0, om_P99Duration = 0, om_RecentDurations = [], om_LastUpdated = now\<rparr>"

text \<open>The position of a percentile in a list of \<open>n\<close> durations.\<close>

definition percentile_idx :: "(float64 \<Rightarrow> int) \<Rightarrow> rat \<Rightarrow> nat \<Rightarrow> int" where
  "percentile_idx conv q n = scaled conv (int n) (rnd q)"

definition percentile :: "(float64 \<Rightarrow> int) \<Rightarrow> rat \<Rightarrow> duration list \<Rightarrow> duration \<Rightarrow> duration option" where
  "percentile conv q durations old =
     (let i = percentile_idx conv q (length durations) in
      if i < int (length durations) then (if i < 0 then None else Some (durations ! nat i)) else Some old)"

text \<open>\<open>s[1:]\<close> of an empty slice is out of range.\<close>

definition drop_oldest :: "int \<Rightarrow> 'a list \<Rightarrow> 'a list option" where
  "drop_oldest n xs = (if int (length xs) \<ge> n then (if xs = [] then None else Some (tl xs)) else Some xs)"

definition update_percentiles :: "(float64 \<Rightarrow> int) \<Rightarrow> OperationMetrics \<Rightarrow> OperationMetrics option" where
  "update_percentiles conv m =
     (let durations = sort (om_RecentDurations m) in
      case (percentile conv (1 / 2) durations (om_P50Duration m), percentile conv (9 / 10) durations (om_P90Duration m),
            percentile conv (99 / 100) durations (om_P99Duration m)) of
        (Some p50, Some p90, Some p99) \<Rightarrow> Some (m\<lparr>om_P50Duration := p50, om_P90Duration := p90, om_P99Duration := p99\<rparr>)
      | _ \<Rightarrow> None)"

text \<open>A new entry is made with room for \<open>sampleSize\<close> durations, which panics when that is negative.\<close>

definition PerformanceProfiler_RecordOperation ::
  "(float64 \<Rightarrow> int) \<Rightarrow> int \<Rightarrow> OperationType \<Rightarrow> duration \<Rightarrow> PerformanceProfiler \<Rightarrow> PerformanceProfiler option" where
  "PerformanceProfiler_RecordOperation conv now opType duration p =
     (if \<not> pp_enabled p then Some p
      else if pp_metrics p opType = None \<and> pp_sampleSize p < 0 then None
      else
        let m = (case pp_metrics p opType of None \<Rightarrow> zero_metrics duration now | Some m \<Rightarrow> m);
            count = i64 (om_Count m + 1);
            total = i64 (om_TotalDuration m + duration) in
        if count = 0 then None
        else
          (case drop_oldest (pp_sampleSize p) (om_RecentDurations m) of
             None \<Rightarrow> None
           | Some recent \<Rightarrow>
               (case update_percentiles conv
                   (m\<lparr>om_Count := count, om_TotalDuration := total, om_AvgDuration := i64 (go_div total count),
                      om_MinDuration := (if duration < om_MinDuration m then duration else om_MinDuration m),
                      om_MaxDuration := (if duration > om_MaxDuration m then duration else om_MaxDuration m),
                      om_RecentDurations := recent @ [duration]\<rparr>) of
                  None \<Rightarrow> None
                | Some m1 \<Rightarrow> Some (p\<lparr>pp_metrics := (pp_metrics p)(opType \<mapsto> m1\<lparr>om_LastUpdated := now\<rparr>)\<rparr>))))"

text \<open>\<open>StartOperation\<close> returns the function that stops the clock; whether it records was decided when it was made.\<close>

definition PerformanceProfiler_StartOperation ::
  "int \<Rightarrow> OperationType \<Rightarrow> PerformanceProfiler \<Rightarrow> (float64 \<Rightarrow> int) \<Rightarrow> int \<Rightarrow> int \<Rightarrow> PerformanceProfiler \<Rightarrow> PerformanceProfiler option" where
  "PerformanceProfiler_StartOperation startTime opType p =
     (if \<not> pp_enabled p then (\<lambda>conv stop now q. Some q)
      else (\<lambda>conv stop now q. PerformanceProfiler_RecordOperation conv now opType (stop - startTime) q))"

section \<open>Queries\<close>

definition PerformanceProfiler_GetMetrics :: "PerformanceProfiler \<Rightarrow> (OperationType \<rightharpoonup> OperationMetrics) option" where
  "PerformanceProfiler_GetMetrics p = (if \<not> pp_enabled p then None else Some (pp_metrics p))"

definition PerformanceProfiler_detectBottlenecks :: "OperationType list \<Rightarrow> PerformanceProfiler \<Rightarrow> (OperationType \<times> duration) list" where
  "PerformanceProfiler_detectBottlenecks order p =
     map (\<lambda>t. (t, om_P90Duration (the (pp_metrics p t))))
       (filter (\<lambda>t. om_P90Duration (the (pp_metrics p t)) > pp_bottleneckThreshold p) order)"

definition PerformanceProfiler_GetOperationCount :: "OperationType \<Rightarrow> PerformanceProfiler \<Rightarrow> int" where
  "PerformanceProfiler_GetOperationCount opType p = (case pp_metrics p opType of Some m \<Rightarrow> om_Count m | None \<Rightarrow> 0)"

definition PerformanceProfiler_GetOperationAvgDuration :: "OperationType \<Rightarrow> PerformanceProfiler \<Rightarrow> duration" where
  "PerformanceProfiler_GetOperationAvgDuration opType p = (case pp_metrics p opType of Some m \<Rightarrow> om_AvgDuration m | None \<Rightarrow> 0)"

definition PerformanceProfiler_GetOperationP90Duration :: "OperationType \<Rightarrow> PerformanceProfiler \<Rightarrow> duration" where
  "PerformanceProfiler_GetOperationP90Duration opType p = (case pp_metrics p opType of Some m \<Rightarrow> om_P90Duration m | None \<Rightarrow> 0)"

section \<open>Configuration and life cycle\<close>

definition PerformanceProfiler_SetSampleSize :: "int \<Rightarrow> PerformanceProfiler \<Rightarrow> PerformanceProfiler" where
  "PerformanceProfiler_SetSampleSize n p = p\<lparr>pp_sampleSize := n\<rparr>"

definition PerformanceProfiler_SetLogFrequency :: "duration \<Rightarrow> PerformanceProfiler \<Rightarrow> PerformanceProfiler" where
  "PerformanceProfiler_SetLogFrequency frequency p = p\<lparr>pp_logFrequency := frequency\<rparr>"

definition PerformanceProfiler_SetBottleneckThreshold :: "duration \<Rightarrow> PerformanceProfiler \<Rightarrow> PerformanceProfiler" where
  "PerformanceProfiler_SetBottleneckThreshold threshold p = p\<lparr>pp_bottleneckThreshold := threshold\<rparr>"

definition PerformanceProfiler_EnableMemoryProfiling :: "bool \<Rightarrow> PerformanceProfiler \<Rightarrow> PerformanceProfiler" where
  "PerformanceProfiler_EnableMemoryProfiling enable p = p\<lparr>pp_memProfilingEnabled := enable\<rparr>"

definition PerformanceProfiler_ResetMetrics :: "PerformanceProfiler \<Rightarrow> PerformanceProfiler" where
  "PerformanceProfiler_ResetMetrics p = p\<lparr>pp_metrics := Map.empty\<rparr>"

datatype profile_error = CreateFailed | AlreadyProfiling

text \<open>The field of the file is written before the error is looked at: after a failed \<open>os.Create\<close> it is nil, after a failed
  \<open>StartCPUProfile\<close> it holds the closed file. The goroutine that logs is started last; a frequency that is not positive makes its ticker panic.\<close>

definition PerformanceProfiler_Start :: "bool \<Rightarrow> PerformanceProfiler \<Rightarrow> (profile_error option \<times> PerformanceProfiler) option" where
  "PerformanceProfiler_Start created p =
     (if \<not> pp_enabled p then Some (None, p)
      else if pp_cpuProfilingEnabled p \<and> \<not> created then Some (Some CreateFailed, p\<lparr>pp_cpuProfileFile := False\<rparr>)
      else if pp_cpuProfilingEnabled p \<and> pp_pprof p then Some (Some AlreadyProfiling, p\<lparr>pp_cpuProfileFile := True\<rparr>)
      else if pp_logFrequency p \<le> 0 then None
      else Some (None, if pp_cpuProfilingEnabled p then p\<lparr>pp_cpuProfileFile := True, pp_pprof := True\<rparr> else p))"

text \<open>Closing the channel a second time panics.\<close>

definition PerformanceProfiler_Stop :: "PerformanceProfiler \<Rightarrow> PerformanceProfiler option" where
  "PerformanceProfiler_Stop p =
     (if \<not> pp_enabled p then Some p
      else if pp_stopped p then None
      else if pp_cpuProfilingEnabled p \<and> pp_cpuProfileFile p
        then Some (p\<lparr>pp_stopped := True, pp_cpuProfileFile := False, pp_pprof := False\<rparr>)
      else Some (p\<lparr>pp_stopped := True\<rparr>))"

definition PerformanceProfiler_EnableCPUProfiling :: "bool \<Rightarrow> bool \<Rightarrow> PerformanceProfiler \<Rightarrow> PerformanceProfiler" where
  "PerformanceProfiler_EnableCPUProfiling created enable p0 =
     (let p = p0\<lparr>pp_cpuProfilingEnabled := enable\<rparr> in
      if enable \<and> \<not> pp_cpuProfileFile p \<and> pp_enabled p
        then (if \<not> created then p
              else if pp_pprof p then p
              else p\<lparr>pp_cpuProfileFile := True, pp_pprof := True\<rparr>)
      else if \<not> enable \<and> pp_cpuProfileFile p then p\<lparr>pp_cpuProfileFile := False, pp_pprof := False\<rparr>
      else p)"

section \<open>Percentiles\<close>

lemma percentile_factor:
  assumes "0 \<le> q" and "q \<le> 1023 / 1024"
  obtains c where "rnd q = Fin c" and "0 \<le> c" and "c \<le> 1023 / 1024"
  using rnd_between [OF rnd_0 _ assms, of] rnd_exact [of 1023 "- 10"] by (auto simp: pow2_def)

lemma percentile_idx_bounds:
  assumes "0 \<le> q" and "q \<le> 1023 / 1024" and "0 < n" and "n \<le> 2 ^ 40"
  shows "0 \<le> percentile_idx conv q n" and "percentile_idx conv q n < int n"
proof -
  obtain c where c: "rnd q = Fin c" "0 \<le> c" "c \<le> 1023 / 1024" using percentile_factor [OF assms(1,2)] .
  have "of_int (int n) * c \<le> of_int (int n) * (1023 / 1024)" using c(3) by (intro mult_left_mono) auto
  with scaled_bounds [of "int n" 0 "1023 * int n" c conv] c(2) assms(4)
  have "0 \<le> scaled conv (int n) (Fin c)" "scaled conv (int n) (Fin c) \<le> 1023 * int n div 1024" by simp_all
  then show "0 \<le> percentile_idx conv q n" "percentile_idx conv q n < int n"
    using assms(3) by (simp_all add: percentile_idx_def c(1))
qed

lemma scaled_trunc:
  assumes "0 \<le> f" and "f \<le> 1023 / 1024" and "0 \<le> n" and "n \<le> 2 ^ 40"
  obtains t where "rnd (of_int n * f) = Fin t" and "scaled conv n (Fin f) = \<lfloor>t\<rfloor>"
proof -
  have i: "rnd (of_int n) = Fin (of_int n)" using assms(3,4) by (intro rnd_int) simp
  have "of_int n * f \<le> of_int n * 1" using assms(2,3) by (intro mult_left_mono) auto
  then obtain t where t: "rnd (of_int n * f) = Fin t" "0 \<le> t" "t \<le> of_int n"
    using rnd_between [OF rnd_0 i, of "of_int n * f"] assms by auto
  then have "0 \<le> \<lfloor>t\<rfloor>" "\<lfloor>t\<rfloor> \<le> n" by (simp_all add: floor_le_iff)
  then have "scaled conv n (Fin f) = \<lfloor>t\<rfloor>" using t i assms(4) by (simp add: scaled_def f64_of_int_def rat_trunc_def del: zero_le_floor)
  with t(1) show ?thesis by (rule that)
qed

lemma percentile_idx_mono:
  assumes "0 \<le> p" and "p \<le> q" and "q \<le> 1023 / 1024" and "n \<le> 2 ^ 40"
  shows "percentile_idx conv p n \<le> percentile_idx conv q n"
proof -
  obtain c where c: "rnd p = Fin c" "0 \<le> c" "c \<le> 1023 / 1024"
    using percentile_factor [OF assms(1) order_trans [OF assms(2,3)]] .
  obtain d where d: "rnd q = Fin d" "0 \<le> d" "d \<le> 1023 / 1024"
    using percentile_factor [OF order_trans [OF assms(1,2)] assms(3)] .
  have n: "0 \<le> int n" "int n \<le> 2 ^ 40" using assms(4) by auto
  obtain t where t: "rnd (of_int (int n) * c) = Fin t" "scaled conv (int n) (Fin c) = \<lfloor>t\<rfloor>" using scaled_trunc [OF c(2,3) n] .
  obtain u where u: "rnd (of_int (int n) * d) = Fin u" "scaled conv (int n) (Fin d) = \<lfloor>u\<rfloor>" using scaled_trunc [OF d(2,3) n] .
  have "c \<le> d" using rnd_mono [OF assms(2)] c(1) d(1) by simp
  then have "of_int (int n) * c \<le> of_int (int n) * d" by (intro mult_left_mono) auto
  from rnd_mono [OF this] t(1) u(1) have "t \<le> u" by simp
  then show ?thesis using t(2) u(2) by (simp add: percentile_idx_def c(1) d(1) floor_mono)
qed

lemma percentile_in_window:
  assumes "xs \<noteq> []" and "length xs \<le> 2 ^ 40" and "0 \<le> q" and "q \<le> 1023 / 1024"
  shows "percentile conv q xs old = Some (xs ! nat (percentile_idx conv q (length xs)))"
    and "nat (percentile_idx conv q (length xs)) < length xs"
  using percentile_idx_bounds [of q "length xs" conv] assms by (auto simp: percentile_def Let_def)

section \<open>A profile summarises what was recorded\<close>

fun record_durations :: "(float64 \<Rightarrow> int) \<Rightarrow> OperationType \<Rightarrow> (int \<times> duration) list \<Rightarrow> PerformanceProfiler \<Rightarrow> PerformanceProfiler option" where
  "record_durations conv opType [] p = Some p"
| "record_durations conv opType ((now, d) # ds) p =
     (case PerformanceProfiler_RecordOperation conv now opType d p of None \<Rightarrow> None | Some p1 \<Rightarrow> record_durations conv opType ds p1)"

definition window :: "int \<Rightarrow> 'a list \<Rightarrow> 'a list" where
  "window n ds = drop (length ds - nat n) ds"

definition summary :: "(float64 \<Rightarrow> int) \<Rightarrow> int \<Rightarrow> duration list \<Rightarrow> OperationMetrics \<Rightarrow> bool" where
  "summary conv n ds m =
     (let w = sort (window n ds); k = length w in
      om_Count m = int (length ds) \<and> om_TotalDuration m = sum_list ds \<and> om_AvgDuration m = sum_list ds div int (length ds) \<and>
      om_MinDuration m = Min (set ds) \<and> om_MaxDuration m = Max (set ds) \<and> om_RecentDurations m = window n ds \<and>
      om_P50Duration m = w ! nat (percentile_idx conv (1 / 2) k) \<and> om_P90Duration m = w ! nat (percentile_idx conv (9 / 10) k) \<and>
      om_P99Duration m = w ! nat (percentile_idx conv (99 / 100) k))"

lemma window_snoc:
  assumes "0 < n"
  shows "(\<exists>r. drop_oldest n (window n ds) = Some r \<and> r @ [d] = window n (ds @ [d]))"
proof (cases "nat n \<le> length ds")
  case True
  have "drop (length ds - nat n) ds \<noteq> []" using True assms by auto
  moreover have "tl (drop (length ds - nat n) ds) @ [d] = drop (Suc (length ds) - nat n) (ds @ [d])"
    using True assms by (simp add: tl_drop drop_Suc Suc_diff_le)
  ultimately show ?thesis using True assms by (auto simp: drop_oldest_def window_def)
qed (use assms in \<open>auto simp: drop_oldest_def window_def\<close>)

lemma window_length: "length (window n ds) = min (nat n) (length ds)"
  by (simp add: window_def)

lemma update_percentiles_some:
  assumes "om_RecentDurations m \<noteq> []" and "length (om_RecentDurations m) \<le> 2 ^ 40"
  shows "update_percentiles conv m = Some (let w = sort (om_RecentDurations m); k = length w in
    m\<lparr>om_P50Duration := w ! nat (percentile_idx conv (1 / 2) k), om_P90Duration := w ! nat (percentile_idx conv (9 / 10) k),
      om_P99Duration := w ! nat (percentile_idx conv (99 / 100) k)\<rparr>)"
proof -
  have w: "sort (om_RecentDurations m) \<noteq> []" "length (sort (om_RecentDurations m)) \<le> 2 ^ 40"
    using assms by (metis length_0_conv length_sort, simp)
  show ?thesis using percentile_in_window(1) [OF w] by (simp add: update_percentiles_def Let_def)
qed

lemma record_summary:
  assumes p: "pp_enabled p" "0 < pp_sampleSize p" "pp_sampleSize p \<le> 2 ^ 40"
    and s: "if ds = [] then pp_metrics p opType = None else \<exists>m. pp_metrics p opType = Some m \<and> summary conv (pp_sampleSize p) ds m"
    and d: "\<forall>x\<in>set (ds @ [d]). 0 \<le> x" "sum_list (ds @ [d]) < 2 ^ 63" "int (length (ds @ [d])) < 2 ^ 63"
  obtains m where "PerformanceProfiler_RecordOperation conv now opType d p = Some (p\<lparr>pp_metrics := (pp_metrics p)(opType \<mapsto> m)\<rparr>)"
    and "summary conv (pp_sampleSize p) (ds @ [d]) m"
proof -
  let ?n = "pp_sampleSize p"
  define m0 where "m0 = (case pp_metrics p opType of None \<Rightarrow> zero_metrics d now | Some m \<Rightarrow> m)"
  have m0: "om_Count m0 = int (length ds)" "om_TotalDuration m0 = sum_list ds" "om_RecentDurations m0 = window ?n ds"
      "ds = [] \<longrightarrow> om_MinDuration m0 = d \<and> om_MaxDuration m0 = d"
      "ds \<noteq> [] \<longrightarrow> om_MinDuration m0 = Min (set ds) \<and> om_MaxDuration m0 = Max (set ds)"
    using s by (auto simp: m0_def summary_def Let_def zero_metrics_def window_def split: if_splits)
  have t: "0 \<le> sum_list ds" "0 \<le> sum_list (ds @ [d])" using d(1) by (intro sum_list_nonneg; auto)+
  have i: "i64 (int (length ds) + 1) = int (length (ds @ [d]))" "i64 (sum_list ds + d) = sum_list (ds @ [d])"
    using d t by (auto simp: i64_id)
  have av: "i64 (go_div (sum_list (ds @ [d])) (int (length (ds @ [d])))) = sum_list (ds @ [d]) div int (length (ds @ [d]))" (is "i64 ?a = ?b")
  proof -
    have "0 \<le> ?b" "?b \<le> sum_list (ds @ [d])"
      using pos_imp_zdiv_nonneg_iff [of "int (length (ds @ [d]))" "sum_list (ds @ [d])"]
        zdiv_mono2 [OF t(2), of 1 "int (length (ds @ [d]))"] t(2) by simp_all
    then have "i64 ?b = ?b" using d(2) by (intro i64_id) linarith+
    then show ?thesis by (subst go_div_nonneg [OF t(2)]) simp_all
  qed
  obtain r where r: "drop_oldest ?n (window ?n ds) = Some r" "r @ [d] = window ?n (ds @ [d])" using window_snoc [OF p(2), of ds d] by (elim exE conjE)
  let ?m1 = "m0\<lparr>om_Count := int (length (ds @ [d])), om_TotalDuration := sum_list (ds @ [d]), om_AvgDuration := ?b,
      om_MinDuration := Min (set (ds @ [d])), om_MaxDuration := Max (set (ds @ [d])), om_RecentDurations := window ?n (ds @ [d])\<rparr>"
  have mm: "(if d < om_MinDuration m0 then d else om_MinDuration m0) = Min (set (ds @ [d]))"
    "(if d > om_MaxDuration m0 then d else om_MaxDuration m0) = Max (set (ds @ [d]))"
  proof -
    have "Min (set (ds @ [d])) = min d (om_MinDuration m0)" "Max (set (ds @ [d])) = max d (om_MaxDuration m0)"
      using m0(4,5) by (cases "ds = []"; simp)+
    then show "(if d < om_MinDuration m0 then d else om_MinDuration m0) = Min (set (ds @ [d]))"
      "(if d > om_MaxDuration m0 then d else om_MaxDuration m0) = Max (set (ds @ [d]))" by (simp_all add: min_def max_def)
  qed
  have ne: "om_RecentDurations ?m1 \<noteq> []" "length (om_RecentDurations ?m1) \<le> 2 ^ 40"
    using p(2,3) window_length [of ?n "ds @ [d]"] by (auto simp flip: r(2))
  have "PerformanceProfiler_RecordOperation conv now opType d p =
      map_option (\<lambda>m. p\<lparr>pp_metrics := (pp_metrics p)(opType \<mapsto> m\<lparr>om_LastUpdated := now\<rparr>)\<rparr>) (update_percentiles conv ?m1)"
    unfolding PerformanceProfiler_RecordOperation_def Let_def m0_def [symmetric] m0(1-3) i av mm r option.case
    using p(1,2) by (auto split: option.splits)
  moreover have "summary conv ?n (ds @ [d]) (the (update_percentiles conv ?m1)\<lparr>om_LastUpdated := now\<rparr>)"
    unfolding update_percentiles_some [OF ne] summary_def Let_def option.sel by simp
  ultimately show thesis using that unfolding update_percentiles_some [OF ne] option.sel option.map by blast
qed

lemma record_durations_summary:
  assumes "pp_enabled p" and "0 < pp_sampleSize p" and "pp_sampleSize p \<le> 2 ^ 40"
    and "if ds = [] then pp_metrics p opType = None else \<exists>m. pp_metrics p opType = Some m \<and> summary conv (pp_sampleSize p) ds m"
    and "\<forall>x\<in>set (ds @ map snd ts). 0 \<le> x" and "sum_list (ds @ map snd ts) < 2 ^ 63" and "int (length (ds @ map snd ts)) < 2 ^ 63" and "ds \<noteq> [] \<or> ts \<noteq> []"
  shows "\<exists>m p1. record_durations conv opType ts p = Some p1 \<and> pp_metrics p1 opType = Some m \<and>
     summary conv (pp_sampleSize p) (ds @ map snd ts) m \<and> (\<forall>t. t \<noteq> opType \<longrightarrow> pp_metrics p1 t = pp_metrics p t)"
  using assms
proof (induction ts arbitrary: p ds)
  case (Cons t ts)
  obtain now d where t: "t = (now, d)" by (cases t)
  have nn: "0 \<le> sum_list (map snd ts)" using Cons.prems(5) by (intro sum_list_nonneg) auto
  have d: "\<forall>x\<in>set (ds @ [d]). 0 \<le> x" "sum_list (ds @ [d]) < 2 ^ 63" "int (length (ds @ [d])) < 2 ^ 63"
    using Cons.prems(5-7) nn by (auto simp: t)
  obtain m where m: "PerformanceProfiler_RecordOperation conv now opType d p = Some (p\<lparr>pp_metrics := (pp_metrics p)(opType \<mapsto> m)\<rparr>)"
    "summary conv (pp_sampleSize p) (ds @ [d]) m" using record_summary [OF Cons.prems(1-4) d] .
  let ?p1 = "p\<lparr>pp_metrics := (pp_metrics p)(opType \<mapsto> m)\<rparr>"
  have "\<exists>m p1. record_durations conv opType ts ?p1 = Some p1 \<and> pp_metrics p1 opType = Some m \<and>
     summary conv (pp_sampleSize ?p1) ((ds @ [d]) @ map snd ts) m \<and> (\<forall>t. t \<noteq> opType \<longrightarrow> pp_metrics p1 t = pp_metrics ?p1 t)"
    by (rule Cons.IH) (use Cons.prems m(2) in \<open>simp_all add: t\<close>)
  with m(1) show ?case by (auto simp: t)
qed auto

lemma summary_percentiles:
  assumes "summary conv n ds m" and "ds \<noteq> []" and "0 < n" and "n \<le> 2 ^ 40"
  shows "om_MinDuration m \<le> om_P50Duration m" "om_P50Duration m \<le> om_P90Duration m" "om_P90Duration m \<le> om_P99Duration m"
    "om_P99Duration m \<le> om_MaxDuration m"
proof -
  define w where "w = sort (window n ds)"
  have l: "length w = min (nat n) (length ds)" by (simp add: w_def window_length)
  then have k: "0 < length w" "length w \<le> 2 ^ 40" using assms(2-4) by (auto simp: nat_le_iff min_def)
  have sub: "set w \<subseteq> set ds" by (simp add: w_def window_def set_drop_subset)
  note b = percentile_idx_bounds [OF _ _ k, of _ conv] and mono = percentile_idx_mono [OF _ _ _ k(2), of _ _ conv]
  have s: "om_P50Duration m = w ! nat (percentile_idx conv (1 / 2) (length w))" "om_P90Duration m = w ! nat (percentile_idx conv (9 / 10) (length w))"
    "om_P99Duration m = w ! nat (percentile_idx conv (99 / 100) (length w))" "om_MinDuration m = Min (set ds)" "om_MaxDuration m = Max (set ds)"
    using assms(1) by (simp_all add: summary_def Let_def w_def)
  have lt: "nat (percentile_idx conv q (length w)) < length w" if "0 \<le> q" "q \<le> 1023 / 1024" for q
    using b [OF that] by simp
  have i: "w ! nat (percentile_idx conv p (length w)) \<le> w ! nat (percentile_idx conv q (length w))" if "0 \<le> p" "p \<le> q" "q \<le> 1023 / 1024" for p q
    using sorted_nth_mono [of w "nat (percentile_idx conv p (length w))" "nat (percentile_idx conv q (length w))"] mono [OF that] lt [of q] that
    by (simp add: w_def)
  show "om_P50Duration m \<le> om_P90Duration m" "om_P90Duration m \<le> om_P99Duration m" unfolding s by (rule i; simp)+
  have "w ! nat (percentile_idx conv q (length w)) \<in> set ds" if "0 \<le> q" "q \<le> 1023 / 1024" for q
    using nth_mem [OF lt [OF that]] sub by blast
  then show "om_MinDuration m \<le> om_P50Duration m" "om_P99Duration m \<le> om_MaxDuration m"
    unfolding s by simp_all
qed

section \<open>Properties\<close>

text \<open>C37: What the profiler reports of an operation is a summary of the durations that were recorded: after recording the durations of a
  list for an operation not seen before, the count, the sum, the average and the extremes are those of the whole list, the window holds its last
  \<open>sampleSize\<close> durations, the percentiles are members of the sorted window and ordered between the extremes, and the metrics of the other operations are as before.
  The durations are not negative and their sum fits 64 bits.\<close>

theorem profile_summary:
  assumes "pp_enabled p" and "0 < pp_sampleSize p" and "pp_sampleSize p \<le> 2 ^ 40" and "pp_metrics p opType = None"
    and "ts \<noteq> []" and "\<forall>x\<in>set (map snd ts). 0 \<le> x" and "sum_list (map snd ts) < 2 ^ 63" and "int (length ts) < 2 ^ 63"
  shows "\<exists>m p1. record_durations conv opType ts p = Some p1 \<and> pp_metrics p1 = (pp_metrics p)(opType \<mapsto> m) \<and>
     summary conv (pp_sampleSize p) (map snd ts) m \<and> om_MinDuration m \<le> om_P50Duration m \<and> om_P50Duration m \<le> om_P90Duration m \<and>
     om_P90Duration m \<le> om_P99Duration m \<and> om_P99Duration m \<le> om_MaxDuration m"
proof -
  obtain m p1 where r: "record_durations conv opType ts p = Some p1" "pp_metrics p1 opType = Some m" "summary conv (pp_sampleSize p) (map snd ts) m"
    "\<forall>t. t \<noteq> opType \<longrightarrow> pp_metrics p1 t = pp_metrics p t"
    using record_durations_summary [of p "[]" opType conv ts] assms by auto
  have "pp_metrics p1 = (pp_metrics p)(opType \<mapsto> m)" using r(2,4) by (intro ext) auto
  moreover note summary_percentiles [OF r(3) _ assms(2,3)]
  ultimately show ?thesis using r(1,3) assms(5) by auto
qed

theorem profile_summary_witness:
  "\<exists>m p1. record_durations (\<lambda>_. 0) ''poh_tick'' [(1, 40), (2, 10), (3, 20)] (NewPerformanceProfiler False) = Some p1 \<and> om_AvgDuration m = 23 \<and>
     pp_metrics p1 = [''poh_tick'' \<mapsto> m]"
  using profile_summary [of "NewPerformanceProfiler False" "''poh_tick''" "[(1, 40), (2, 10), (3, 20)]" "\<lambda>_. 0"]
  by (auto simp: NewPerformanceProfiler_def summary_def Let_def)

text \<open>The window never shrinks: after \<open>SetSampleSize\<close> with a smaller size every record drops one duration and adds one. With size zero the
  first record of an operation panics.\<close>

theorem sample_size_kept:
  assumes "pp_enabled p" and "pp_metrics p opType = Some m" and "0 < int (length (om_RecentDurations m))" and "n \<le> int (length (om_RecentDurations m))"
    and "PerformanceProfiler_RecordOperation conv now opType d (PerformanceProfiler_SetSampleSize n p) = Some p1"
  shows "\<exists>m1. pp_metrics p1 opType = Some m1 \<and> length (om_RecentDurations m1) = length (om_RecentDurations m)"
  using assms
  by (auto simp: PerformanceProfiler_RecordOperation_def PerformanceProfiler_SetSampleSize_def Let_def drop_oldest_def update_percentiles_def
      split: if_splits option.splits)

theorem zero_sample_size_panics:
  "pp_enabled p \<Longrightarrow> pp_metrics p opType = None \<Longrightarrow>
   PerformanceProfiler_RecordOperation conv now opType d (PerformanceProfiler_SetSampleSize 0 p) = None"
  using i64_id [of 1]
  by (simp add: PerformanceProfiler_RecordOperation_def PerformanceProfiler_SetSampleSize_def Let_def drop_oldest_def zero_metrics_def)

text \<open>Enabling the profile of the processor before the start makes the start fail: the profile is already running.\<close>

theorem enabled_profile_blocks_start:
  "PerformanceProfiler_Start True (PerformanceProfiler_EnableCPUProfiling True True (NewPerformanceProfiler False)) =
     Some (Some AlreadyProfiling, PerformanceProfiler_EnableCPUProfiling True True (NewPerformanceProfiler False))"
  by (simp add: PerformanceProfiler_Start_def PerformanceProfiler_EnableCPUProfiling_def NewPerformanceProfiler_def Let_def)

end
