(* ===== verification/RecoveryAdapterTheory.thy ===== *)
theory RecoveryAdapterTheory
  imports HybridTheory CheckpointTheory
begin

text \<open>
  The recovery package: the recovery manager of \<open>consensus/recovery/recovery_manager.go\<close> and the adapter of
  \<open>consensus/recovery/hybrid_consensus_recovery.go\<close>, which puts the checkpoint manager (\<open>CheckpointTheory\<close>) around a node.

  The names carry the prefix \<open>rec\<close> where the package \<open>consensus\<close> has a type of the same name (\<open>RecoveryTheory\<close>). The errors of
  other packages are their texts. The callbacks of the recovery manager are functions of their arguments: those of the adapter only write to the log.
  The JSON texts of the states of the modules are given by a pair of functions each (\<open>node_codec\<close>), and \<open>node_env\<close> holds the orders in which the
  modules are visited when they are saved, and the time. A panic is \<open>None\<close>.
\<close>

section \<open>The recovery manager\<close>

datatype RecoveryState = Idle | Recovering | Failed | Succeeded

fun RecoveryState_String :: "RecoveryState \<Rightarrow> string" where
  "RecoveryState_String Idle = ''Idle''"
| "RecoveryState_String Recovering = ''Recovering''"
| "RecoveryState_String Failed = ''Failed''"
| "RecoveryState_String Succeeded = ''Succeeded''"

text \<open>A severity or a strategy is a number; the switch statements leave an unknown one alone, and the strategy then keeps its zero value.\<close>

type_synonym ErrorSeverity = int

definition Minor :: ErrorSeverity where "Minor = 0"
definition Moderate :: ErrorSeverity where "Moderate = 1"
definition Severe :: ErrorSeverity where "Severe = 2"
definition Critical :: ErrorSeverity where "Critical = 3"

lemmas severity_defs = Minor_def Moderate_def Severe_def Critical_def

definition ErrorSeverity_String :: "ErrorSeverity \<Rightarrow> string" where
  "ErrorSeverity_String s = (if s = Minor then ''Minor'' else if s = Moderate then ''Moderate'' else if s = Severe then ''Severe''
     else if s = Critical then ''Critical'' else ''Unknown'')"

datatype rec_Strategy = StateRollback | StateResync | Restart | Manual

fun rec_Strategy_String :: "rec_Strategy \<Rightarrow> string" where
  "rec_Strategy_String StateRollback = ''StateRollback''"
| "rec_Strategy_String StateResync = ''StateResync''"
| "rec_Strategy_String Restart = ''Restart''"
| "rec_Strategy_String Manual = ''Manual''"

record RecoveryError =
  re_Err :: string
  re_Severity :: ErrorSeverity
  re_Strategy :: rec_Strategy
  re_Component :: string
  re_Timestamp :: int

record rec_Manager =
  rr_maxRetries :: int
  rr_retryDelay :: duration
  rr_checkpointEnabled :: bool
  rr_autoRecovery :: bool
  rr_state :: RecoveryState
  rr_lastError :: "RecoveryError option"
  rr_recoveryCount :: "string \<rightharpoonup> int"
  rr_lastRecovery :: int
  rr_onRecoveryStart :: "(string \<Rightarrow> string \<Rightarrow> string option) option"
  rr_onRecoveryComplete :: "(string \<Rightarrow> bool \<Rightarrow> string option) option"
  rr_cancelled :: bool

definition WithMaxRetries :: "int \<Rightarrow> rec_Manager \<Rightarrow> rec_Manager" where
  "WithMaxRetries n rm = (if n > 0 then rm\<lparr>rr_maxRetries := n\<rparr> else rm)"

definition WithRetryDelay :: "duration \<Rightarrow> rec_Manager \<Rightarrow> rec_Manager" where
  "WithRetryDelay delay rm = (if delay > 0 then rm\<lparr>rr_retryDelay := delay\<rparr> else rm)"

definition WithCheckpointEnabled :: "bool \<Rightarrow> rec_Manager \<Rightarrow> rec_Manager" where
  "WithCheckpointEnabled enabled rm = rm\<lparr>rr_checkpointEnabled := enabled\<rparr>"

definition WithAutoRecovery :: "bool \<Rightarrow> rec_Manager \<Rightarrow> rec_Manager" where
  "WithAutoRecovery enabled rm = rm\<lparr>rr_autoRecovery := enabled\<rparr>"

definition WithOnRecoveryStart :: "(string \<Rightarrow> string \<Rightarrow> string option) \<Rightarrow> rec_Manager \<Rightarrow> rec_Manager" where
  "WithOnRecoveryStart callback rm = rm\<lparr>rr_onRecoveryStart := Some callback\<rparr>"

definition WithOnRecoveryComplete :: "(string \<Rightarrow> bool \<Rightarrow> string option) \<Rightarrow> rec_Manager \<Rightarrow> rec_Manager" where
  "WithOnRecoveryComplete callback rm = rm\<lparr>rr_onRecoveryComplete := Some callback\<rparr>"

text \<open>\<open>lastRecovery\<close> starts as the zero time.\<close>

definition rec_NewRecoveryManager :: "(rec_Manager \<Rightarrow> rec_Manager) list \<Rightarrow> rec_Manager" where
  "rec_NewRecoveryManager options = fold (\<lambda>option rm. option rm) options
     \<lparr>rr_maxRetries = 3, rr_retryDelay = 5 * second, rr_checkpointEnabled = True, rr_autoRecovery = True, rr_state = Idle, rr_lastError = None,
      rr_recoveryCount = Map.empty, rr_lastRecovery = zero_time, rr_onRecoveryStart = None, rr_onRecoveryComplete = None, rr_cancelled = False\<rparr>"

definition rec_GetState :: "rec_Manager \<Rightarrow> RecoveryState" where
  "rec_GetState rm = rr_state rm"

definition rec_GetLastError :: "rec_Manager \<Rightarrow> RecoveryError option" where
  "rec_GetLastError rm = rr_lastError rm"

definition strategy_of :: "ErrorSeverity \<Rightarrow> rec_Strategy" where
  "strategy_of severity = (if severity = Minor then StateRollback else if severity = Moderate then StateResync
     else if severity = Severe then Restart else if severity = Critical then Manual else StateRollback)"

datatype rec_error =
    RecErrExceeded string string
  | RecErrDisabled string
  | RecErrCallback string
  | RecErrFailed string

text \<open>The three strategies are placeholders: each sleeps for \<open>retryDelay\<close> and returns no error.\<close>

definition rec_performStateRollback :: "string \<Rightarrow> rec_Manager \<Rightarrow> string option" where
  "rec_performStateRollback component rm = None"

definition rec_performStateResync :: "string \<Rightarrow> rec_Manager \<Rightarrow> string option" where
  "rec_performStateResync component rm = None"

definition rec_performRestart :: "string \<Rightarrow> rec_Manager \<Rightarrow> string option" where
  "rec_performRestart component rm = None"

fun perform :: "rec_Strategy \<Rightarrow> string \<Rightarrow> rec_Manager \<Rightarrow> string option" where
  "perform StateRollback component rm = rec_performStateRollback component rm"
| "perform StateResync component rm = rec_performStateResync component rm"
| "perform Restart component rm = rec_performRestart component rm"
| "perform Manual component rm = Some ''manual intervention required''"

definition rec_RecoverFromError ::
  "int \<Rightarrow> int \<Rightarrow> string \<Rightarrow> string option \<Rightarrow> ErrorSeverity \<Rightarrow> rec_Manager \<Rightarrow> rec_error option \<times> rec_Manager" where
  "rec_RecoverFromError now1 now2 component err severity rm =
     (case err of
        None \<Rightarrow> (None, rm)
      | Some e \<Rightarrow>
          let strategy = strategy_of severity;
              recoveryErr = \<lparr>re_Err = e, re_Severity = severity, re_Strategy = strategy, re_Component = component, re_Timestamp = now1\<rparr>;
              n = (case rr_recoveryCount rm component of None \<Rightarrow> 0 | Some n \<Rightarrow> n) + 1;
              rm1 = rm\<lparr>rr_state := Recovering, rr_lastError := Some recoveryErr,
                       rr_recoveryCount := (rr_recoveryCount rm)(component \<mapsto> n), rr_lastRecovery := now2\<rparr> in
          if n > rr_maxRetries rm then (Some (RecErrExceeded component e), rm1\<lparr>rr_state := Failed\<rparr>)
          else if \<not> rr_autoRecovery rm then (Some (RecErrDisabled e), rm1)
          else
            (case (case rr_onRecoveryStart rm of None \<Rightarrow> None | Some callback \<Rightarrow> callback component e) of
               Some c \<Rightarrow> (Some (RecErrCallback c), rm1)
             | None \<Rightarrow>
                 (case perform strategy component rm1 of
                    Some e2 \<Rightarrow> (Some (RecErrFailed e2), rm1\<lparr>rr_state := Failed\<rparr>)
                  | None \<Rightarrow> (None, rm1\<lparr>rr_state := Succeeded\<rparr>))))"

definition rec_ResetRecoveryCount :: "string \<Rightarrow> rec_Manager \<Rightarrow> rec_Manager" where
  "rec_ResetRecoveryCount component rm = rm\<lparr>rr_recoveryCount := (rr_recoveryCount rm)(component \<mapsto> 0)\<rparr>"

definition rec_Close :: "rec_Manager \<Rightarrow> rec_Manager" where
  "rec_Close rm = rm\<lparr>rr_cancelled := True\<rparr>"

definition rec_IsRecovering :: "rec_Manager \<Rightarrow> bool" where
  "rec_IsRecovering rm = (rr_state rm = Recovering)"

record RecoveryStats =
  rst_state :: string
  rst_recoveryCount :: "string \<rightharpoonup> int"
  rst_lastRecovery :: int
  rst_lastError :: "(string \<times> string \<times> string \<times> string \<times> int) option"

definition rec_GetRecoveryStats :: "rec_Manager \<Rightarrow> RecoveryStats" where
  "rec_GetRecoveryStats rm =
     \<lparr>rst_state = RecoveryState_String (rr_state rm), rst_recoveryCount = rr_recoveryCount rm, rst_lastRecovery = rr_lastRecovery rm,
      rst_lastError = map_option (\<lambda>e. (re_Component e, ErrorSeverity_String (re_Severity e), rec_Strategy_String (re_Strategy e), re_Err e,
        re_Timestamp e)) (rr_lastError rm)\<rparr>"

section \<open>The components of a node\<close>

record node_codec =
  nc_metadata :: codec
  nc_lachesis :: "LachesisJSON \<Rightarrow> bytes"
  nc_lachesis_of :: "bytes \<Rightarrow> LachesisJSON option"
  nc_dpos :: "DPoS_state \<Rightarrow> bytes"
  nc_dpos_of :: "bytes \<Rightarrow> DPoS_state option"
  nc_poh :: "hash32 \<times> uint64 \<Rightarrow> bytes"
  nc_poh_of :: "bytes \<Rightarrow> (hash32 \<times> uint64) option"
  nc_consensus :: "uint64 \<times> hash32 \<times> int \<Rightarrow> bytes"

record node_env =
  ne_save :: SaveOrders
  ne_dpos :: "hash32 list"
  ne_now :: int

definition lachesis_component :: "node_codec \<Rightarrow> node_env \<Rightarrow> HybridConsensus handler" where
  "lachesis_component js env = \<lparr>ch_name = ''lachesis'',
     ch_get = (\<lambda>hc. case Lachesis_GetState (ne_save env) (hc_lachesis hc) of Inl e \<Rightarrow> Inl ''lachesis'' | Inr st \<Rightarrow> Inr (nc_lachesis js st)),
     ch_restore = (\<lambda>b hc. case Lachesis_RestoreState (nc_lachesis_of js b) (hc_lachesis hc) of
        (e, l) \<Rightarrow> (map_option (\<lambda>_. ''lachesis'') e, set_lachesis l hc))\<rparr>"

definition dpos_component :: "node_codec \<Rightarrow> node_env \<Rightarrow> HybridConsensus handler" where
  "dpos_component js env = \<lparr>ch_name = ''dpos'',
     ch_get = (\<lambda>hc. case DPoS_GetState (ne_dpos env) (hc_dpos hc) of Inl e \<Rightarrow> Inl ''dpos'' | Inr st \<Rightarrow> Inr (nc_dpos js st)),
     ch_restore = (\<lambda>b hc. case DPoS_RestoreState (nc_dpos_of js b) (hc_dpos hc) of (e, d) \<Rightarrow> (map_option (\<lambda>_. ''dpos'') e, set_dpos d hc))\<rparr>"

definition pohComponentAdapter_GetCheckpointState :: "node_codec \<Rightarrow> HybridConsensus \<Rightarrow> string + bytes" where
  "pohComponentAdapter_GetCheckpointState js hc = Inr (nc_poh js (PoH_GetState (hc_poh hc), PoH_GetCount (hc_poh hc)))"

definition pohComponentAdapter_RestoreFromCheckpoint ::
  "node_codec \<Rightarrow> node_env \<Rightarrow> bytes \<Rightarrow> HybridConsensus \<Rightarrow> string option \<times> HybridConsensus" where
  "pohComponentAdapter_RestoreFromCheckpoint js env b hc =
     (case nc_poh_of js b of
        None \<Rightarrow> (Some ''failed to unmarshal PoH state'', hc)
      | Some (st, cnt) \<Rightarrow>
          (case PoH_Synchronize (ne_now env) st cnt (hc_poh hc) of
             (e, p) \<Rightarrow> (map_option (\<lambda>_. ''poh'') e, hc\<lparr>hc_poh := p\<rparr>)))"

definition poh_component :: "node_codec \<Rightarrow> node_env \<Rightarrow> HybridConsensus handler" where
  "poh_component js env = \<lparr>ch_name = ''poh'', ch_get = pohComponentAdapter_GetCheckpointState js,
     ch_restore = pohComponentAdapter_RestoreFromCheckpoint js env\<rparr>"

text \<open>The restore function of the main component is a placeholder.\<close>

definition consensus_component :: "node_codec \<Rightarrow> node_env \<Rightarrow> HybridConsensus handler" where
  "consensus_component js env = \<lparr>ch_name = ''consensus'',
     ch_get = (\<lambda>hc. Inr (nc_consensus js (HybridConsensus_GetLastBlockHeight hc, HybridConsensus_GetLastBlockHash hc, ne_now env))),
     ch_restore = (\<lambda>b hc. (None, hc))\<rparr>"

section \<open>The adapter\<close>

record RecoveryAdapter =
  ra_recovery :: rec_Manager
  ra_checkpoints :: "HybridConsensus CheckpointManager"
  ra_disk :: disk

definition RecoveryAdapter_registerComponents :: "node_codec \<Rightarrow> node_env \<Rightarrow> HybridConsensus CheckpointManager \<Rightarrow> HybridConsensus CheckpointManager" where
  "RecoveryAdapter_registerComponents js env cm =
     CheckpointManager_RegisterComponent (consensus_component js env) (CheckpointManager_RegisterComponent (poh_component js env)
       (CheckpointManager_RegisterComponent (dpos_component js env) (CheckpointManager_RegisterComponent (lachesis_component js env) cm)))"

datatype adapter_error =
    AdErrNilConsensus
  | AdErrManager cm_error
  | AdErrCreate cm_error
  | AdErrFinalize cm_error
  | AdErrNotFound uint64
  | AdErrRestore cm_error
  | AdErrLatest cm_error

text \<open>The managers that were passed as options, or new ones. \<open>hc\<close> is \<open>None\<close> for a nil consensus.\<close>

definition NewHybridConsensusRecoveryAdapter ::
  "node_codec \<Rightarrow> node_env \<Rightarrow> io \<Rightarrow> (string \<times> bool) list option \<Rightarrow> HybridConsensus option \<Rightarrow> rec_Manager option \<Rightarrow> HybridConsensus CheckpointManager option \<Rightarrow>
   disk \<Rightarrow> adapter_error + RecoveryAdapter" where
  "NewHybridConsensusRecoveryAdapter js env io listing hc rmo cmo dk =
     (case hc of
        None \<Rightarrow> Inl AdErrNilConsensus
      | Some _ \<Rightarrow>
          let rm = (case rmo of Some rm \<Rightarrow> rm
                    | None \<Rightarrow> rec_NewRecoveryManager [WithOnRecoveryStart (\<lambda>_ _. None), WithOnRecoveryComplete (\<lambda>_ _. None)]) in
          (case (case cmo of Some cm \<Rightarrow> (Inr cm, dk) | None \<Rightarrow> NewCheckpointManager (nc_metadata js) io listing [] dk) of
             (Inl e, dk1) \<Rightarrow> Inl (AdErrManager e)
           | (Inr cm, dk1) \<Rightarrow> Inr \<lparr>ra_recovery = rm, ra_checkpoints = RecoveryAdapter_registerComponents js env cm, ra_disk = dk1\<rparr>))"

definition RecoveryAdapter_RecoverFromError ::
  "int \<Rightarrow> int \<Rightarrow> string \<Rightarrow> string option \<Rightarrow> ErrorSeverity \<Rightarrow> RecoveryAdapter \<Rightarrow> rec_error option \<times> RecoveryAdapter" where
  "RecoveryAdapter_RecoverFromError now1 now2 component err severity ra =
     (case rec_RecoverFromError now1 now2 component err severity (ra_recovery ra) of (e, rm) \<Rightarrow> (e, ra\<lparr>ra_recovery := rm\<rparr>))"

definition RecoveryAdapter_CreateCheckpoint ::
  "node_codec \<Rightarrow> io \<Rightarrow> int \<Rightarrow> string list \<Rightarrow> uint64 \<Rightarrow> string \<Rightarrow> string \<Rightarrow> HybridConsensus \<Rightarrow> RecoveryAdapter \<Rightarrow> adapter_error option \<times> RecoveryAdapter" where
  "RecoveryAdapter_CreateCheckpoint js io now order height blockHash prevHash hc ra =
     (if \<not> CheckpointManager_ShouldCreateCheckpoint height (ra_checkpoints ra) then (None, ra)
      else case CheckpointManager_CreateCheckpoint io now height blockHash prevHash (ra_checkpoints ra, ra_disk ra) of
        (Inl e, cm, dk) \<Rightarrow> (Some (AdErrCreate e), ra\<lparr>ra_checkpoints := cm, ra_disk := dk\<rparr>)
      | (Inr cp, cm, dk) \<Rightarrow>
          (case CheckpointManager_FinalizeCheckpoint (nc_metadata js) io order hc (cm, dk) of
             (e, cm1, dk1) \<Rightarrow> (map_option AdErrFinalize e, ra\<lparr>ra_checkpoints := cm1, ra_disk := dk1\<rparr>)))"

definition RecoveryAdapter_RestoreFromCheckpoint ::
  "io \<Rightarrow> string list \<Rightarrow> uint64 \<Rightarrow> RecoveryAdapter \<Rightarrow> HybridConsensus \<Rightarrow> adapter_error option \<times> HybridConsensus" where
  "RecoveryAdapter_RestoreFromCheckpoint io order height ra hc =
     (if \<not> CheckpointManager_HasCheckpoint height (ra_checkpoints ra) then (Some (AdErrNotFound height), hc)
      else case CheckpointManager_RestoreFromCheckpoint io order height (ra_checkpoints ra) (ra_disk ra) hc of
             (e, hc1) \<Rightarrow> (map_option AdErrRestore e, hc1))"

definition RecoveryAdapter_RestoreFromLatestCheckpoint ::
  "io \<Rightarrow> string list \<Rightarrow> RecoveryAdapter \<Rightarrow> HybridConsensus \<Rightarrow> (adapter_error option \<times> HybridConsensus) option" where
  "RecoveryAdapter_RestoreFromLatestCheckpoint io order ra hc =
     (case CheckpointManager_GetLatestCheckpoint (ra_checkpoints ra) of
        Inl e \<Rightarrow> Some (Some (AdErrLatest e), hc)
      | Inr None \<Rightarrow> None
      | Inr (Some cp) \<Rightarrow>
          (case CheckpointManager_RestoreFromCheckpoint io order (md_Height (ck_Metadata cp)) (ra_checkpoints ra) (ra_disk ra) hc of
             (e, hc1) \<Rightarrow> Some (map_option AdErrRestore e, hc1)))"

definition RecoveryAdapter_GetCheckpointHeights :: "RecoveryAdapter \<Rightarrow> uint64 list" where
  "RecoveryAdapter_GetCheckpointHeights ra = CheckpointManager_GetCheckpointHeights (ra_checkpoints ra)"

definition RecoveryAdapter_GetLastCheckpointHeight :: "RecoveryAdapter \<Rightarrow> uint64" where
  "RecoveryAdapter_GetLastCheckpointHeight ra = CheckpointManager_GetLastCheckpointHeight (ra_checkpoints ra)"

definition RecoveryAdapter_IsRecovering :: "RecoveryAdapter \<Rightarrow> bool" where
  "RecoveryAdapter_IsRecovering ra = rec_IsRecovering (ra_recovery ra)"

definition RecoveryAdapter_VerifyCheckpoint :: "io \<Rightarrow> uint64 \<Rightarrow> RecoveryAdapter \<Rightarrow> cm_error option \<times> RecoveryAdapter" where
  "RecoveryAdapter_VerifyCheckpoint io height ra =
     (case CheckpointManager_VerifyCheckpoint io height (ra_disk ra) (ra_checkpoints ra) of (e, cm) \<Rightarrow> (e, ra\<lparr>ra_checkpoints := cm\<rparr>))"

definition RecoveryAdapter_DeleteCheckpoint :: "io \<Rightarrow> uint64 \<Rightarrow> RecoveryAdapter \<Rightarrow> cm_error option \<times> RecoveryAdapter" where
  "RecoveryAdapter_DeleteCheckpoint io height ra =
     (case CheckpointManager_DeleteCheckpoint io height (ra_checkpoints ra, ra_disk ra) of
        (e, cm, dk) \<Rightarrow> (e, ra\<lparr>ra_checkpoints := cm, ra_disk := dk\<rparr>))"

definition RecoveryAdapter_SetCheckpointInterval :: "uint64 \<Rightarrow> RecoveryAdapter \<Rightarrow> RecoveryAdapter" where
  "RecoveryAdapter_SetCheckpointInterval interval ra = ra\<lparr>ra_checkpoints := CheckpointManager_SetCheckpointInterval interval (ra_checkpoints ra)\<rparr>"

definition RecoveryAdapter_SetMaxCheckpoints :: "io \<Rightarrow> int \<Rightarrow> RecoveryAdapter \<Rightarrow> RecoveryAdapter" where
  "RecoveryAdapter_SetMaxCheckpoints io n ra =
     (case CheckpointManager_SetMaxCheckpoints io n (ra_checkpoints ra, ra_disk ra) of (cm, dk) \<Rightarrow> ra\<lparr>ra_checkpoints := cm, ra_disk := dk\<rparr>)"

section \<open>The health check\<close>

datatype health_status = HealthOK | HealthWarning | HealthRecovering

datatype adapter_warning = WarnPoHBehind uint64 uint64 | WarnOldCheckpoint uint64 uint64

record adapter_health =
  ah_status :: health_status
  ah_blockHeight :: uint64
  ah_finalizedHeight :: uint64
  ah_pohCount :: uint64
  ah_lastBlockHash :: hash32
  ah_lastCheckpoint :: uint64
  ah_checkpointCount :: nat
  ah_recoveryState :: string
  ah_recoveryCount :: "string \<rightharpoonup> int"
  ah_lastRecovery :: int
  ah_activeValidators :: nat
  ah_timestamp :: int
  ah_warnings :: "adapter_warning list"
  ah_lastError :: "(string \<times> string \<times> string \<times> string \<times> int) option"

definition RecoveryAdapter_PerformHealthCheck :: "int \<Rightarrow> RecoveryAdapter \<Rightarrow> HybridConsensus \<Rightarrow> adapter_health" where
  "RecoveryAdapter_PerformHealthCheck now ra hc =
     (let pohCount = PoH_GetCount (hc_poh hc); blockHeight = HybridConsensus_GetLastBlockHeight hc;
          lastCheckpoint = RecoveryAdapter_GetLastCheckpointHeight ra;
          stats = rec_GetRecoveryStats (ra_recovery ra);
          interval = CheckpointManager_GetCheckpointInterval (ra_checkpoints ra);
          w1 = (if blockHeight > 0 \<and> pohCount < blockHeight then [WarnPoHBehind pohCount blockHeight] else []);
          w2 = (if blockHeight > interval \<and> lastCheckpoint < blockHeight - 2 * interval then [WarnOldCheckpoint lastCheckpoint blockHeight] else [])
      in \<lparr>ah_status = (if RecoveryAdapter_IsRecovering ra then HealthRecovering else if w1 @ w2 = [] then HealthOK else HealthWarning),
          ah_blockHeight = blockHeight, ah_finalizedHeight = HybridConsensus_GetCurrentHeight hc, ah_pohCount = pohCount,
          ah_lastBlockHash = HybridConsensus_GetLastBlockHash hc, ah_lastCheckpoint = lastCheckpoint,
          ah_checkpointCount = cst_count (CheckpointManager_GetCheckpointStats (ra_checkpoints ra)), ah_recoveryState = rst_state stats,
          ah_recoveryCount = rst_recoveryCount stats, ah_lastRecovery = rst_lastRecovery stats,
          ah_activeValidators = length (HybridConsensus_GetActiveValidators hc), ah_timestamp = now, ah_warnings = w1 @ w2,
          ah_lastError = (if RecoveryAdapter_IsRecovering ra then rst_lastError stats else None)\<rparr>)"

section \<open>The budget of recoveries\<close>

fun recover_all :: "string \<Rightarrow> (int \<times> int \<times> string \<times> ErrorSeverity) list \<Rightarrow> rec_Manager \<Rightarrow> rec_error option list \<times> rec_Manager" where
  "recover_all component [] rm = ([], rm)"
| "recover_all component ((now1, now2, e, severity) # es) rm =
     (case rec_RecoverFromError now1 now2 component (Some e) severity rm of
        (r, rm1) \<Rightarrow> (case recover_all component es rm1 of (rs, rm2) \<Rightarrow> (r # rs, rm2)))"

definition recoveries :: "string \<Rightarrow> rec_Manager \<Rightarrow> int" where
  "recoveries component rm = (case rr_recoveryCount rm component of None \<Rightarrow> 0 | Some n \<Rightarrow> n)"

text \<open>The callback at the start, if there is one, does not fail.\<close>

definition quiet :: "string \<Rightarrow> rec_Manager \<Rightarrow> bool" where
  "quiet component rm = (case rr_onRecoveryStart rm of None \<Rightarrow> True | Some f \<Rightarrow> \<forall>e. f component e = None)"

lemma recover_one:
  assumes "rr_autoRecovery rm" and "quiet component rm" and "severity \<noteq> Critical"
    and "rec_RecoverFromError now1 now2 component (Some e) severity rm = (r, rm1)"
  shows "r = (if recoveries component rm < rr_maxRetries rm then None else Some (RecErrExceeded component e))"
    and "rr_state rm1 = (if recoveries component rm < rr_maxRetries rm then Succeeded else Failed)"
    and "recoveries component rm1 = recoveries component rm + 1" and "rr_maxRetries rm1 = rr_maxRetries rm"
    and "rr_autoRecovery rm1 = rr_autoRecovery rm" and "rr_onRecoveryStart rm1 = rr_onRecoveryStart rm"
proof -
  have p: "perform (strategy_of severity) component x = None" for x
    using assms(3) by (auto simp: strategy_of_def severity_defs rec_performStateRollback_def rec_performStateResync_def rec_performRestart_def)
  have c: "(case rr_onRecoveryStart rm of None \<Rightarrow> None | Some callback \<Rightarrow> callback component e) = None"
    using assms(2) by (auto simp: quiet_def split: option.splits)
  show "r = (if recoveries component rm < rr_maxRetries rm then None else Some (RecErrExceeded component e))"
    "rr_state rm1 = (if recoveries component rm < rr_maxRetries rm then Succeeded else Failed)"
    "recoveries component rm1 = recoveries component rm + 1" "rr_maxRetries rm1 = rr_maxRetries rm"
    "rr_autoRecovery rm1 = rr_autoRecovery rm" "rr_onRecoveryStart rm1 = rr_onRecoveryStart rm"
    using assms(1,4) by (auto simp: rec_RecoverFromError_def Let_def p c recoveries_def split: if_splits)
qed

lemma recover_all_results:
  assumes "rr_autoRecovery rm" and "quiet component rm" and "\<forall>(_, _, _, severity)\<in>set es. severity \<noteq> Critical"
  shows "fst (recover_all component es rm) = map (\<lambda>i. if recoveries component rm + int i < rr_maxRetries rm then None
      else Some (RecErrExceeded component (fst (snd (snd (es ! i)))))) [0..<length es]"
  using assms
proof (induction es arbitrary: rm)
  case (Cons x es)
  obtain now1 now2 e severity where x: "x = (now1, now2, e, severity)" by (metis prod_cases4)
  obtain r rm1 where r: "rec_RecoverFromError now1 now2 component (Some e) severity rm = (r, rm1)" by (metis surj_pair)
  note k = recover_one [OF Cons.prems(1) Cons.prems(2) _ r]
  have "fst (recover_all component es rm1) = map (\<lambda>i. if recoveries component rm1 + int i < rr_maxRetries rm1 then None
      else Some (RecErrExceeded component (fst (snd (snd (es ! i)))))) [0..<length es]"
    by (rule Cons.IH) (use Cons.prems k in \<open>auto simp: x quiet_def\<close>)
  moreover have "recoveries component rm1 = recoveries component rm + 1" "rr_maxRetries rm1 = rr_maxRetries rm"
    "r = (if recoveries component rm < rr_maxRetries rm then None else Some (RecErrExceeded component e))" using k Cons.prems(3) by (auto simp: x)
  moreover have "[0..<length (x # es)] = 0 # map Suc [0..<length es]" by (simp add: map_Suc_upt upt_conv_Cons del: upt_Suc)
  ultimately show ?case by (auto simp: x r split: prod.splits simp del: upt_Suc)
qed simp

text \<open>The number of recoveries of a component is limited over the whole life of the manager, successful ones included: of any sequence of errors that are not
  critical, the first \<open>maxRetries\<close> are reported as recovered, although nothing is done for them, and every later one fails, until someone resets the count,
  which nothing in the program does.\<close>

theorem recovery_budget:
  assumes "rr_autoRecovery rm" and "quiet component rm" and "\<forall>(_, _, _, severity)\<in>set es. severity \<noteq> Critical"
    and "rr_recoveryCount rm component = None" and "0 \<le> rr_maxRetries rm"
  shows "map (\<lambda>r. r = None) (fst (recover_all component es rm)) =
    replicate (min (nat (rr_maxRetries rm)) (length es)) True @ replicate (length es - nat (rr_maxRetries rm)) False"
proof -
  have "recoveries component rm = 0" using assms(4) by (simp add: recoveries_def)
  with recover_all_results [OF assms(1-3)] assms(5)
  have "map (\<lambda>r. r = None) (fst (recover_all component es rm)) = map (\<lambda>i. i < nat (rr_maxRetries rm)) [0..<length es]"
    by (auto simp: zless_nat_eq_int_zless)
  also have "\<dots> = replicate (min (nat (rr_maxRetries rm)) (length es)) True @ replicate (length es - nat (rr_maxRetries rm)) False"
    by (rule nth_equalityI) (auto simp: nth_append)
  finally show ?thesis .
qed

theorem recovery_budget_witness:
  "map (\<lambda>r. r = None) (fst (recover_all ''dpos'' (replicate 5 (0, 0, ''e'', Minor)) (rec_NewRecoveryManager []))) = [True, True, True, False, False]"
  using recovery_budget [of "rec_NewRecoveryManager []" "''dpos''" "replicate 5 (0, 0, ''e'', Minor)"]
  by (auto simp: rec_NewRecoveryManager_def quiet_def severity_defs eval_nat_numeral)

text \<open>With automatic recovery switched off the manager reports an error and stays in the state \<open>Recovering\<close> for good.\<close>

lemma recovering_stuck:
  assumes "\<not> rr_autoRecovery rm" and "recoveries component rm < rr_maxRetries rm"
  shows "rec_IsRecovering (snd (rec_RecoverFromError now1 now2 component (Some e) severity rm))"
  using assms by (simp add: rec_RecoverFromError_def Let_def rec_IsRecovering_def recoveries_def)

section \<open>What a component promises\<close>

text \<open>The components other than \<open>name\<close> leave a view of the state alone, and what \<open>can\<close> looks at.\<close>

definition framed :: "string \<Rightarrow> ('s \<Rightarrow> 'v) \<Rightarrow> ('s \<Rightarrow> 's \<Rightarrow> bool) \<Rightarrow> (string \<rightharpoonup> 's handler) \<Rightarrow> string list \<Rightarrow> bool" where
  "framed name view can comps names = (\<forall>n\<in>set names. n \<noteq> name \<longrightarrow> (\<forall>b s s1. view (snd (ch_restore (the (comps n)) b s1)) = view s1 \<and>
     (can s s1 \<longrightarrow> can s (snd (ch_restore (the (comps n)) b s1)))))"

text \<open>The contract between the checkpoint manager and a component: restoring the saved bytes succeeds and brings back what the component shows of the
  state, \<open>view\<close>, in every state \<open>s1\<close> in which it \<open>can\<close> restore what was saved in \<open>s\<close>.\<close>

locale checkpointed =
  fixes name :: string and get :: "'s \<Rightarrow> string + bytes" and restore :: "bytes \<Rightarrow> 's \<Rightarrow> string option \<times> 's"
    and view :: "'s \<Rightarrow> 'v" and can :: "'s \<Rightarrow> 's \<Rightarrow> bool"
  assumes restores: "get s = Inr b \<Longrightarrow> can s s1 \<Longrightarrow> fst (restore b s1) = None \<and> view (snd (restore b s1)) = view s"
begin

lemma others_keep:
  assumes "framed name view can comps names" and "name \<notin> set names"
  shows "view (restore_result comps s names s1) = view s1" and "can s s1 \<Longrightarrow> can s (restore_result comps s names s1)"
  using assms by (induction names arbitrary: s1) (auto simp: restore_result_def framed_def split: sum.split)

lemma restore_view:
  assumes "framed name view can comps names" and "distinct names" and "name \<in> set names" and "comps name = Some h" and "ch_get h = get" and "ch_restore h = restore"
    and "get s = Inr b" and "can s s1"
  shows "view (restore_result comps s names s1) = view s"
proof -
  obtain xs ys where n: "names = xs @ name # ys" "name \<notin> set xs" "name \<notin> set ys" using assms(2,3) by (auto simp: in_set_conv_decomp)
  let ?s = "restore_result comps s xs s1"
  have f: "framed name view can comps xs" "framed name view can comps ys" using assms(1) by (auto simp: framed_def n(1))
  have "can s ?s" using others_keep(2) [OF f(1) n(2) assms(8)] .
  from restores [OF assms(7) this] have "view (snd (restore b ?s)) = view s" by simp
  moreover have "restore_result comps s names s1 = restore_result comps s ys (snd (restore b ?s))"
    using assms(4-7) by (simp add: restore_result_def n(1))
  ultimately show ?thesis using others_keep(1) [OF f(2) n(3)] by simp
qed

end

text \<open>The hash chain can only be restored to a state that is not behind its own.\<close>

definition can_poh :: "node_codec \<Rightarrow> HybridConsensus \<Rightarrow> HybridConsensus \<Rightarrow> bool" where
  "can_poh js hc hc1 = (nc_poh_of js (nc_poh js (PoH_GetSnapshot (hc_poh hc))) = Some (PoH_GetSnapshot (hc_poh hc)) \<and>
     PoH_GetCount (hc_poh hc1) \<le> PoH_GetCount (hc_poh hc))"

interpretation poh_cp: checkpointed "''poh''" "ch_get (poh_component js env)" "ch_restore (poh_component js env)"
    "\<lambda>hc. PoH_GetSnapshot (hc_poh hc)" "can_poh js" for js env
  by unfold_locales (auto simp: poh_component_def pohComponentAdapter_GetCheckpointState_def pohComponentAdapter_RestoreFromCheckpoint_def can_poh_def
      PoH_Synchronize_def PoH_GetSnapshot_def PoH_GetState_def PoH_GetCount_def)

text \<open>The stake module brings back its registry, up to fractions of seconds.\<close>

definition dpos_view :: "DPoS \<Rightarrow> uint64 \<times> uint64 \<times> active_entry list \<times> uint64 \<times> int \<times> (hash32 \<Rightarrow> uint64 option)" where
  "dpos_view d = (dp_totalStake d, dp_activeTotalStake d, dp_activeValidators d, dp_currentEpoch d, dp_maxSetSize d,
     (\<lambda>i. map_option v_Stake (dp_validators d i)))"

definition can_dpos :: "node_codec \<Rightarrow> node_env \<Rightarrow> HybridConsensus \<Rightarrow> HybridConsensus \<Rightarrow> bool" where
  "can_dpos js env hc hc1 = (dpos_reachable (hc_dpos hc) \<and> range_order (dp_validators (hc_dpos hc)) (ne_dpos env) \<and>
     (\<forall>st. DPoS_GetState (ne_dpos env) (hc_dpos hc) = Inr st \<longrightarrow> nc_dpos_of js (nc_dpos js st) = Some st))"

interpretation dpos_cp: checkpointed "''dpos''" "ch_get (dpos_component js env)" "ch_restore (dpos_component js env)"
    "\<lambda>hc. dpos_view (hc_dpos hc)" "can_dpos js env" for js env
proof unfold_locales
  fix s s1 b
  assume g: "ch_get (dpos_component js env) s = Inr b" and c: "can_dpos js env s s1"
  from g obtain st where st: "DPoS_GetState (ne_dpos env) (hc_dpos s) = Inr st" "b = nc_dpos js st"
    by (auto simp: dpos_component_def split: sum.splits)
  have "DPoS_RestoreState (Some st) (hc_dpos s1) = (None, (hc_dpos s)\<lparr>dp_validators := map_option DPoSTheory.restored \<circ> dp_validators (hc_dpos s),
      dp_slashLog := dp_slashLog (hc_dpos s1)\<rparr>)" using dpos_restore_saved [OF reachable_inv _ st(1)] c by (auto simp: can_dpos_def)
  moreover have "nc_dpos_of js b = Some st" using c st by (simp add: can_dpos_def)
  ultimately show "fst (ch_restore (dpos_component js env) b s1) = None \<and>
      dpos_view (hc_dpos (snd (ch_restore (dpos_component js env) b s1))) = dpos_view (hc_dpos s)"
    by (simp add: dpos_component_def set_dpos_def dpos_view_def option.map_comp comp_def DPoSTheory.restored_def)
qed

section \<open>Restoring a node\<close>

definition node_components :: "node_codec \<Rightarrow> node_env \<Rightarrow> string \<rightharpoonup> HybridConsensus handler" where
  "node_components js env = [''lachesis'' \<mapsto> lachesis_component js env, ''dpos'' \<mapsto> dpos_component js env, ''poh'' \<mapsto> poh_component js env,
     ''consensus'' \<mapsto> consensus_component js env]"

lemma register_components: "cm_components cm = Map.empty \<Longrightarrow> cm_components (RecoveryAdapter_registerComponents js env cm) = node_components js env"
  by (simp add: RecoveryAdapter_registerComponents_def CheckpointManager_RegisterComponent_def node_components_def lachesis_component_def dpos_component_def
      poh_component_def consensus_component_def)

lemma node_components_cases [consumes 1, case_names lachesis dpos poh consensus]:
  assumes "n \<in> dom (node_components js env)"
  obtains "n = ''lachesis''" | "n = ''dpos''" | "n = ''poh''" | "n = ''consensus''"
  using assms by (auto simp: node_components_def split: if_splits)

text \<open>Each component writes to its own module.\<close>

lemma component_frame [simp]:
  "hc_dpos (snd (ch_restore (lachesis_component js env) b hc)) = hc_dpos hc" "hc_poh (snd (ch_restore (lachesis_component js env) b hc)) = hc_poh hc"
  "hc_lastBlockHeight (snd (ch_restore (lachesis_component js env) b hc)) = hc_lastBlockHeight hc"
  "hc_poh (snd (ch_restore (dpos_component js env) b hc)) = hc_poh hc"
  "hc_lastBlockHeight (snd (ch_restore (dpos_component js env) b hc)) = hc_lastBlockHeight hc"
  "hc_dpos (snd (ch_restore (poh_component js env) b hc)) = hc_dpos hc"
  "hc_lastBlockHeight (snd (ch_restore (poh_component js env) b hc)) = hc_lastBlockHeight hc"
  "snd (ch_restore (consensus_component js env) b hc) = hc"
  by (simp_all add: lachesis_component_def dpos_component_def poh_component_def pohComponentAdapter_RestoreFromCheckpoint_def consensus_component_def
      set_lachesis_def set_dpos_def split: prod.split option.split)

lemma node_components_simps [simp]:
  "node_components js env ''lachesis'' = Some (lachesis_component js env)" "node_components js env ''dpos'' = Some (dpos_component js env)"
  "node_components js env ''poh'' = Some (poh_component js env)" "node_components js env ''consensus'' = Some (consensus_component js env)"
  by (simp_all add: node_components_def)

lemma dpos_framed:
  assumes "set names \<subseteq> dom (node_components js env)"
  shows "framed ''dpos'' (\<lambda>hc. dpos_view (hc_dpos hc)) (can_dpos js env) (node_components js env) names"
  unfolding framed_def
proof (intro ballI impI allI)
  fix n b s s1
  assume "n \<in> set names" "n \<noteq> ''dpos''"
  with assms have "n \<in> dom (node_components js env)" by blast
  then show "dpos_view (hc_dpos (snd (ch_restore (the (node_components js env n)) b s1))) = dpos_view (hc_dpos s1) \<and>
      (can_dpos js env s s1 \<longrightarrow> can_dpos js env s (snd (ch_restore (the (node_components js env n)) b s1)))"
    using \<open>n \<noteq> ''dpos''\<close>
    by (cases rule: node_components_cases) (simp_all add: can_dpos_def)
qed

lemma restore_result_keeps:
  assumes "\<And>n b s1. n \<in> set names \<Longrightarrow> ch_get (the (comps n)) s = Inr b \<Longrightarrow> P s1 \<Longrightarrow> P (snd (ch_restore (the (comps n)) b s1))" and "P s1"
  shows "P (restore_result comps s names s1)"
  using assms by (induction names arbitrary: s1) (auto simp: restore_result_def split: sum.split)

text \<open>The hash chain of a node that has moved on, and its last block, are not restored.\<close>

lemma poh_not_restored:
  assumes "set names \<subseteq> dom (node_components js env)" and "PoH_GetCount (hc_poh hc) < PoH_GetCount (hc_poh hc1)"
    and "nc_poh_of js (nc_poh js (PoH_GetSnapshot (hc_poh hc))) = Some (PoH_GetSnapshot (hc_poh hc))"
  shows "hc_poh (restore_result (node_components js env) hc names hc1) = hc_poh hc1 \<and>
    hc_lastBlockHeight (restore_result (node_components js env) hc names hc1) = hc_lastBlockHeight hc1"
proof (rule restore_result_keeps [where P = "\<lambda>x. hc_poh x = hc_poh hc1 \<and> hc_lastBlockHeight x = hc_lastBlockHeight hc1"])
  fix n b and s1 :: HybridConsensus
  assume "n \<in> set names" and g: "ch_get (the (node_components js env n)) hc = Inr b"
    and p: "hc_poh s1 = hc_poh hc1 \<and> hc_lastBlockHeight s1 = hc_lastBlockHeight hc1"
  with assms(1) have "n \<in> dom (node_components js env)" by blast
  then show "hc_poh (snd (ch_restore (the (node_components js env n)) b s1)) = hc_poh hc1 \<and>
      hc_lastBlockHeight (snd (ch_restore (the (node_components js env n)) b s1)) = hc_lastBlockHeight hc1"
  proof (cases rule: node_components_cases)
    case poh
    with g have "b = nc_poh js (PoH_GetSnapshot (hc_poh hc))"
      by (simp add: poh_component_def pohComponentAdapter_GetCheckpointState_def PoH_GetSnapshot_def PoH_GetState_def PoH_GetCount_def)
    then show ?thesis using poh p assms(2,3)
      by (simp add: poh_component_def pohComponentAdapter_RestoreFromCheckpoint_def PoH_GetSnapshot_def PoH_Synchronize_def PoH_GetCount_def)
  qed (use p in simp_all)
qed simp

lemma create_ok:
  assumes "h \<noteq> 0" and "cm_checkpoints cm h = None" and "cm_pendingCheckpoint cm = None"
  shows "\<exists>cp dk1. CheckpointManager_CreateCheckpoint io_ok now h bh ph (cm, dk) = (Inr cp, cm\<lparr>cm_pendingCheckpoint := Some cp\<rparr>, dk1) \<and>
    ck_Path cp = cm_checkpointDir cm @ [checkpoint_dir_name h] \<and> md_Height (ck_Metadata cp) = h \<and> dk_files dk1 = dk_files dk \<and>
    dk_dirs dk1 (cm_checkpointDir cm @ [checkpoint_dir_name h])"
  using assms by (simp add: CheckpointManager_CreateCheckpoint_def os_MkdirAll_def io_ok_def Let_def)

text \<open>C7: Going back to a checkpoint restores a node in part. If the hash chain has moved on since the checkpoint, as it does all the time, the adapter reports
  success, the stakes, the active validators and the epoch are those of the checkpoint, but the hash chain and the height of the last block are still those of the present:
  \<open>Synchronize\<close> refuses a count below its own, the error is only logged, and restoring the block height is not implemented.\<close>

theorem rollback_is_partial:
  assumes c: "cm_components (ra_checkpoints ra) = node_components js env"
    and should: "CheckpointManager_ShouldCreateCheckpoint h (ra_checkpoints ra)" "0 < h"
    and room: "int (card (dom (cm_checkpoints (ra_checkpoints ra)))) < cm_maxCheckpoints (ra_checkpoints ra)"
    and fresh: "\<And>f. dk_files (ra_disk ra) (cm_checkpointDir (ra_checkpoints ra) @ [checkpoint_dir_name h, f]) = None"
    and o: "range_order (node_components js env) order" "range_order (node_components js env) order1"
    and create: "RecoveryAdapter_CreateCheckpoint js io_ok now order h bh ph hc ra = (e, ra1)"
    and poh: "PoH_GetCount (hc_poh hc) < PoH_GetCount (hc_poh hc1)"
      "nc_poh_of js (nc_poh js (PoH_GetSnapshot (hc_poh hc))) = Some (PoH_GetSnapshot (hc_poh hc))"
    and dpos: "can_dpos js env hc hc1" "DPoS_GetState (ne_dpos env) (hc_dpos hc) = Inr st"
  shows "e = None \<and> (\<exists>hc2. RecoveryAdapter_RestoreFromCheckpoint io_ok order1 h ra1 hc1 = (None, hc2) \<and> dpos_view (hc_dpos hc2) = dpos_view (hc_dpos hc) \<and>
    hc_poh hc2 = hc_poh hc1 \<and> HybridConsensus_GetLastBlockHeight hc2 = HybridConsensus_GetLastBlockHeight hc1)"
proof -
  let ?cm = "ra_checkpoints ra" and ?dk = "ra_disk ra" and ?p = "cm_checkpointDir (ra_checkpoints ra) @ [checkpoint_dir_name h]"
  have "cm_checkpoints ?cm h = None" "cm_pendingCheckpoint ?cm = None" using should(1) by (auto simp: CheckpointManager_ShouldCreateCheckpoint_def split: if_splits)
  from create_ok [OF _ this, of now bh ph ?dk] should(2) obtain cp dk1 where
    k: "CheckpointManager_CreateCheckpoint io_ok now h bh ph (?cm, ?dk) = (Inr cp, ?cm\<lparr>cm_pendingCheckpoint := Some cp\<rparr>, dk1)"
      "ck_Path cp = ?p" "md_Height (ck_Metadata cp) = h" "dk_files dk1 = dk_files ?dk" "dk_dirs dk1 ?p" by auto
  let ?cm1 = "?cm\<lparr>cm_pendingCheckpoint := Some cp\<rparr>"
  have d: "distinct order" "distinct order1" "set order1 = set order" "set order = dom (node_components js env)" using o by (auto simp: range_order_def)
  have "int (card (insert (md_Height (ck_Metadata cp)) (dom (cm_checkpoints ?cm1)))) \<le> cm_maxCheckpoints ?cm1"
    using room card_insert_le_m1 [of "card (dom (cm_checkpoints ?cm)) + 1" "dom (cm_checkpoints ?cm)" "md_Height (ck_Metadata cp)"] by simp
  note room1 = this
  have pend: "cm_pendingCheckpoint ?cm1 = Some cp" and dirs: "dk_dirs dk1 (ck_Path cp)" using k by simp_all
  obtain c2 dk2 where f: "CheckpointManager_FinalizeCheckpoint (nc_metadata js) io_ok order hc (?cm1, dk1) =
      (None, ?cm1\<lparr>cm_checkpoints := (cm_checkpoints ?cm1)(md_Height (ck_Metadata cp) \<mapsto> c2), cm_lastCheckpoint := md_Height (ck_Metadata cp),
                cm_pendingCheckpoint := None\<rparr>, dk2)" "ck_Path c2 = ck_Path cp" "ck_Status c2 = CheckpointComplete"
      "\<forall>name. dk_files dk2 (state_file (ck_Path cp) name) =
        (if name \<in> set order then (case get_state ?cm1 hc name of Inl _ \<Rightarrow> dk_files dk1 (state_file (ck_Path cp) name) | Inr b \<Rightarrow> Some b)
         else dk_files dk1 (state_file (ck_Path cp) name))"
    by (rule finalize_files [OF pend dirs d(1) room1])
  let ?cm2 = "?cm\<lparr>cm_checkpoints := (cm_checkpoints ?cm)(h \<mapsto> c2), cm_lastCheckpoint := h, cm_pendingCheckpoint := None\<rparr>"
  have ra1: "e = None" "ra_checkpoints ra1 = ?cm2" "ra_disk ra1 = dk2"
    using create should(1) k(1,3) f(1) by (auto simp: RecoveryAdapter_CreateCheckpoint_def)
  have "dk_files dk1 (state_file ?p name) = None" for name using fresh [of "name @ ''.state''"] k(4) by (simp add: state_file_def)
  then have "dk_files dk2 (state_file ?p name) = (case ch_get (the (cm_components ?cm2 name)) hc of Inl _ \<Rightarrow> None | Inr b \<Rightarrow> Some b)"
    if "name \<in> set order1" for name using f(4) that d(3) k(2) by (simp add: get_state_def split: sum.split)
  from restore_loop_result [OF this, of order1 hc1]
  have r: "restore_loop io_ok ?cm2 ?p order1 dk2 hc1 = restore_result (node_components js env) hc order1 hc1" by (simp add: c)
  have "RecoveryAdapter_RestoreFromCheckpoint io_ok order1 h ra1 hc1 = (None, restore_result (node_components js env) hc order1 hc1)"
    using r f(2,3) k(2)
    by (simp add: RecoveryAdapter_RestoreFromCheckpoint_def CheckpointManager_HasCheckpoint_def CheckpointManager_RestoreFromCheckpoint_def ra1)
  moreover have "dpos_view (hc_dpos (restore_result (node_components js env) hc order1 hc1)) = dpos_view (hc_dpos hc)"
    by (rule dpos_cp.restore_view [OF dpos_framed d(2) _ node_components_simps(2) HOL.refl HOL.refl _ dpos(1)])
      (use d dpos(2) in \<open>auto simp: dpos_component_def\<close>)
  ultimately show ?thesis using ra1(1) poh_not_restored [of order1 js env hc hc1] d poh by (simp add: HybridConsensus_GetLastBlockHeight_def)
qed

text \<open>An example: the stake module of \<open>dpos_example\<close> in a node whose hash chain has made five steps.\<close>

definition saved_node :: HybridConsensus where
  "saved_node = set_dpos dpos_example hybrid_example"

definition later_node :: HybridConsensus where
  "later_node = hybrid_example\<lparr>hc_poh := (hc_poh hybrid_example)\<lparr>poh_count := 6\<rparr>\<rparr>"

definition example_codec :: node_codec where
  "example_codec = \<lparr>nc_metadata = \<lparr>marshal = (\<lambda>_. []), unmarshal = (\<lambda>_. None)\<rparr>, nc_lachesis = (\<lambda>_. []), nc_lachesis_of = (\<lambda>_. None),
     nc_dpos = (\<lambda>_. []), nc_dpos_of = (\<lambda>_. Some (projr (DPoS_GetState [7] dpos_example))), nc_poh = (\<lambda>_. []), nc_poh_of = (\<lambda>_. Some (1, 5)),
     nc_consensus = (\<lambda>_. [])\<rparr>"

definition example_node_env :: node_env where
  "example_node_env = \<lparr>ne_save = \<lparr>so_heights = [], so_nodes = [], so_events = [], so_peers = [], so_finalized = [], so_checkpoints = []\<rparr>, ne_dpos = [7], ne_now = 0\<rparr>"

definition example_adapter :: RecoveryAdapter where
  "example_adapter = \<lparr>ra_recovery = rec_NewRecoveryManager [],
     ra_checkpoints = RecoveryAdapter_registerComponents example_codec example_node_env default_manager, ra_disk = empty_disk\<rparr>"

definition example_order :: "string list" where
  "example_order = [''lachesis'', ''dpos'', ''poh'', ''consensus'']"

lemma example_adapter_simps:
  "cm_components (ra_checkpoints example_adapter) = node_components example_codec example_node_env" "cm_checkpoints (ra_checkpoints example_adapter) = Map.empty"
  "cm_maxCheckpoints (ra_checkpoints example_adapter) = 10" "cm_pendingCheckpoint (ra_checkpoints example_adapter) = None"
  "cm_checkpointInterval (ra_checkpoints example_adapter) = 1000" "ra_disk example_adapter = empty_disk"
  by (simp_all add: example_adapter_def register_components default_manager_def)
    (simp_all add: RecoveryAdapter_registerComponents_def CheckpointManager_RegisterComponent_def)

lemma example_range: "range_order (node_components js env) example_order"
  by (simp add: range_order_def example_order_def node_components_def insert_commute)

lemma saved_node_simps: "hc_dpos saved_node = dpos_example" "hc_poh saved_node = hc_poh hybrid_example" "hc_poh later_node = (hc_poh hybrid_example)\<lparr>poh_count := 6\<rparr>"
  by (simp_all add: saved_node_def later_node_def set_dpos_def)

theorem rollback_is_partial_witness:
  "\<exists>hc2. RecoveryAdapter_RestoreFromCheckpoint io_ok example_order 1000
       (snd (RecoveryAdapter_CreateCheckpoint example_codec io_ok 0 example_order 1000 ''h'' ''p'' saved_node example_adapter)) later_node = (None, hc2) \<and>
     dpos_view (hc_dpos hc2) = dpos_view dpos_example \<and> PoH_GetCount (hc_poh hc2) = 6"
proof -
  obtain e ra1 where c: "RecoveryAdapter_CreateCheckpoint example_codec io_ok 0 example_order 1000 ''h'' ''p'' saved_node example_adapter = (e, ra1)"
    by (metis surj_pair)
  obtain st where st: "DPoS_GetState [7] dpos_example = Inr st"
    by (simp add: DPoS_GetState_def dpos_example_def v_example_def f64_finite_def)
  have s: "CheckpointManager_ShouldCreateCheckpoint 1000 (ra_checkpoints example_adapter)"
    by (simp add: CheckpointManager_ShouldCreateCheckpoint_def example_adapter_simps)
  have d: "can_dpos example_codec example_node_env saved_node later_node"
    using dpos_example_reachable st by (simp add: can_dpos_def saved_node_simps example_node_env_def example_codec_def range_order_def) (simp add: dpos_example_def)
  have "e = None \<and> (\<exists>hc2. RecoveryAdapter_RestoreFromCheckpoint io_ok example_order 1000 ra1 later_node = (None, hc2) \<and>
      dpos_view (hc_dpos hc2) = dpos_view (hc_dpos saved_node) \<and>
      hc_poh hc2 = hc_poh later_node \<and> HybridConsensus_GetLastBlockHeight hc2 = HybridConsensus_GetLastBlockHeight later_node)"
    by (rule rollback_is_partial [OF example_adapter_simps(1) s _ _ _ example_range example_range c _ _ d, where st = st])
      (use st in \<open>auto simp: example_adapter_simps empty_disk_def saved_node_simps hybrid_example_simps(1) PoH_GetCount_def PoH_GetSnapshot_def
        example_codec_def example_node_env_def\<close>)
  then show ?thesis by (auto simp: c saved_node_simps PoH_GetCount_def)
qed

section \<open>Errors that are hidden\<close>

text \<open>One failed write of the metadata leaves the checkpoint pending; from then on every call of the adapter returns without an error and without a checkpoint.\<close>

fun create_all ::
  "node_codec \<Rightarrow> (io \<times> int \<times> string list \<times> uint64 \<times> string \<times> string \<times> HybridConsensus) list \<Rightarrow> RecoveryAdapter \<Rightarrow> adapter_error option list \<times> RecoveryAdapter" where
  "create_all js [] ra = ([], ra)"
| "create_all js ((io, now, order, height, bh, ph, hc) # calls) ra =
     (case RecoveryAdapter_CreateCheckpoint js io now order height bh ph hc ra of
        (e, ra1) \<Rightarrow> (case create_all js calls ra1 of (es, ra2) \<Rightarrow> (e # es, ra2)))"

lemma pending_stays:
  "cm_pendingCheckpoint (ra_checkpoints ra) \<noteq> None \<Longrightarrow> create_all js calls ra = (replicate (length calls) None, ra)"
proof (induction calls)
  case (Cons x calls)
  then show ?case
    by (cases x) (simp add: RecoveryAdapter_CreateCheckpoint_def CheckpointManager_ShouldCreateCheckpoint_def)
qed simp

lemma finalize_fails:
  "CheckpointManager_FinalizeCheckpoint js io order s (cm, dk) = (Some CmErrWrite, cm1, dk1) \<Longrightarrow> cm_pendingCheckpoint cm1 \<noteq> None"
  by (auto simp: CheckpointManager_FinalizeCheckpoint_def Let_def split: option.splits prod.splits if_splits)

text \<open>When the metadata of a checkpoint could not be written once, the node never makes a checkpoint again, and no call says so: the checkpoint that failed stays
  pending, \<open>ShouldCreateCheckpoint\<close> then is false for every height, and the adapter returns no error for whatever sequence of calls follows.\<close>

theorem failed_write_ends_checkpoints:
  assumes "RecoveryAdapter_CreateCheckpoint js io now order h bh ph hc ra = (Some (AdErrFinalize CmErrWrite), ra1)"
  shows "create_all js calls ra1 = (replicate (length calls) None, ra1)"
proof -
  obtain cm dk cm1 dk1 where w: "CheckpointManager_FinalizeCheckpoint (nc_metadata js) io order hc (cm, dk) = (Some CmErrWrite, cm1, dk1)"
      and r: "ra_checkpoints ra1 = cm1"
    using assms by (auto simp: RecoveryAdapter_CreateCheckpoint_def split: if_splits prod.splits sum.splits)
  have "cm_pendingCheckpoint (ra_checkpoints ra1) \<noteq> None" unfolding r using finalize_fails [OF w] .
  then show ?thesis by (rule pending_stays)
qed

theorem failed_write_ends_checkpoints_witness:
  "\<exists>ra1. RecoveryAdapter_CreateCheckpoint example_codec (io_ok\<lparr>io_write := (\<lambda>_. Some None)\<rparr>) 0 example_order 1000 ''h'' ''p'' saved_node example_adapter =
       (Some (AdErrFinalize CmErrWrite), ra1) \<and>
     create_all example_codec [(io_ok, 0, example_order, 2000, ''h'', ''p'', saved_node)] ra1 = ([None], ra1)"
proof -
  let ?io = "io_ok\<lparr>io_write := (\<lambda>_. Some None)\<rparr>"
  obtain e ra1 where c: "RecoveryAdapter_CreateCheckpoint example_codec ?io 0 example_order 1000 ''h'' ''p'' saved_node example_adapter = (e, ra1)"
    by (metis surj_pair)
  have "e = Some (AdErrFinalize CmErrWrite)"
    using c by (auto simp: RecoveryAdapter_CreateCheckpoint_def CheckpointManager_ShouldCreateCheckpoint_def example_adapter_simps
        CheckpointManager_CreateCheckpoint_def os_MkdirAll_def io_ok_def Let_def CheckpointManager_FinalizeCheckpoint_def os_WriteFile_def
        split: prod.splits if_splits)
  with c failed_write_ends_checkpoints [of example_codec ?io 0 example_order 1000 "''h''" "''p''" saved_node example_adapter ra1
      "[(io_ok, 0, example_order, 2000, ''h'', ''p'', saved_node)]"] show ?thesis by simp
qed

text \<open>A restore in which no file can be read changes nothing and reports success.\<close>

lemma restore_claims_success:
  assumes "cm_checkpoints (ra_checkpoints ra) h = Some c" and "ck_Status c = CheckpointComplete" and "\<And>p. \<not> io_read io p"
  shows "RecoveryAdapter_RestoreFromCheckpoint io order h ra hc = (None, hc)"
proof -
  have "restore_loop io cm p names dk s = s" for cm p names dk and s :: HybridConsensus
    using assms(3) by (induction names arbitrary: s) (simp_all add: os_ReadFile_def)
  then show ?thesis using assms(1,2)
    by (simp add: RecoveryAdapter_RestoreFromCheckpoint_def CheckpointManager_HasCheckpoint_def CheckpointManager_RestoreFromCheckpoint_def)
qed

text \<open>Restoring from the latest checkpoint dereferences the nil pointer of \<open>latest_dangling\<close>.\<close>

lemma restore_latest_panics:
  "CheckpointManager_GetLatestCheckpoint (ra_checkpoints ra) = Inr None \<Longrightarrow> RecoveryAdapter_RestoreFromLatestCheckpoint io order ra hc = None"
  by (simp add: RecoveryAdapter_RestoreFromLatestCheckpoint_def)

text \<open>Between one and two intervals the subtraction of the health check wraps, and the newest possible checkpoint is called too old.\<close>

lemma adapter_health_wraps:
  assumes "cm_checkpointInterval (ra_checkpoints ra) = i" and "hc_lastBlockHeight hc = h" and "unat i < unat h" and "unat h < 2 * unat i" and "2 * unat i < 2 ^ 63"
    and "cm_lastCheckpoint (ra_checkpoints ra) = i"
  shows "WarnOldCheckpoint i h \<in> set (ah_warnings (RecoveryAdapter_PerformHealthCheck now ra hc))"
proof -
  have "unat (2 * i) = 2 * unat i" using assms(5) by (simp add: unat_mult_lem [THEN iffD1])
  with assms(4,5) have "unat (h - 2 * i) = 2 ^ 64 + unat h - 2 * unat i" by (simp add: unat_sub_if')
  with assms(4,5) have "i < h - 2 * i" by (simp add: word_less_nat_alt)
  moreover have "i < h" using assms(3) by (simp add: word_less_nat_alt)
  ultimately show ?thesis using assms(1,2,6)
    by (simp add: RecoveryAdapter_PerformHealthCheck_def Let_def RecoveryAdapter_GetLastCheckpointHeight_def CheckpointManager_GetLastCheckpointHeight_def
        CheckpointManager_GetCheckpointInterval_def HybridConsensus_GetLastBlockHeight_def)
qed

end
