(* ===== verification/MongoTheory.thy ===== *)
theory MongoTheory
  imports TxManager "HOL-Library.AList"
begin

text \<open>
  The ledger and the block store on MongoDB: \<open>storage/mongo_ledger.go\<close> and \<open>storage/mongo_store.go\<close>.

  The database is not part of the program. Its state is a type variable \<open>'db\<close> and the calls the ledger makes of the driver are a record, a parameter of the
  definitions; each may fail. A query by a field that has a unique index gives at most one document. The documents are records with the keys the code writes;
  what a property relies on of the database is a named hypothesis. In a session the writes go to a copy of the database, which \<open>CommitTransaction\<close> puts in the place of the database or not.
  Time limits are failures of the calls.
\<close>

section \<open>Documents and calls\<close>

record AccountDoc =
  ad_address :: string
  ad_publicKey :: bytes
  ad_balance :: float64
  ad_nonce :: int

record TransactionDoc =
  td_txHash :: string
  td_from :: string
  td_to :: string
  td_amount :: float64
  td_timestamp :: int
  td_signature :: bytes
  td_nonce :: int
  td_blockHeight :: int
  td_status :: string

record BlockDoc =
  bd_blockHeight :: int
  bd_hash :: string
  bd_previousHash :: string
  bd_timestamp :: int
  bd_transactions :: "Transaction list"

text \<open>The state data of a snapshot that was read is \<open>None\<close> when it is not of the Go type \<open>map[string]interface{}\<close>.\<close>

record SnapshotDoc =
  sd_blockHeight :: int
  sd_stateRoot :: string
  sd_stateData :: "(string \<times> AccountDoc) list option"
  sd_timestamp :: int

record ContractDoc =
  kd_contractID :: string
  kd_code :: string
  kd_owner :: string
  kd_ABI :: string
  kd_language :: string
  kd_gasUsage :: float64

datatype mongo_error = ErrNoDocuments | MongoFailure string

record 'db Mongo =
  mg_createIndexes :: "'db \<Rightarrow> mongo_error option \<times> 'db"
  mg_lastBlock :: "'db \<Rightarrow> mongo_error + int option"
  mg_findAccount :: "string \<Rightarrow> 'db \<Rightarrow> mongo_error + AccountDoc"
  mg_insertAccount :: "AccountDoc \<Rightarrow> 'db \<Rightarrow> mongo_error option \<times> 'db"
  mg_setAccount :: "string \<Rightarrow> bytes \<Rightarrow> float64 \<Rightarrow> int \<Rightarrow> 'db \<Rightarrow> mongo_error option \<times> 'db"
  mg_incBalance :: "string \<Rightarrow> float64 \<Rightarrow> 'db \<Rightarrow> (mongo_error + nat) \<times> 'db"
  mg_allAccounts :: "'db \<Rightarrow> mongo_error + AccountDoc list"
  mg_replaceAccounts :: "(string \<times> AccountDoc) list \<Rightarrow> 'db \<Rightarrow> mongo_error option \<times> 'db"
  mg_findTransaction :: "string \<Rightarrow> 'db \<Rightarrow> mongo_error + TransactionDoc"
  mg_insertTransaction :: "TransactionDoc \<Rightarrow> 'db \<Rightarrow> mongo_error option \<times> 'db"
  mg_commitTransactionDoc :: "string \<Rightarrow> int \<Rightarrow> string \<Rightarrow> 'db \<Rightarrow> mongo_error option \<times> 'db"
  mg_findBlock :: "int \<Rightarrow> 'db \<Rightarrow> mongo_error + Block"
  mg_insertBlock :: "BlockDoc \<Rightarrow> 'db \<Rightarrow> mongo_error option \<times> 'db"
  mg_countBlocks :: "'db \<Rightarrow> mongo_error + nat"
  mg_findSnapshot :: "int \<Rightarrow> 'db \<Rightarrow> mongo_error + SnapshotDoc"
  mg_insertSnapshot :: "SnapshotDoc \<Rightarrow> 'db \<Rightarrow> mongo_error option \<times> 'db"
  mg_findContract :: "string \<Rightarrow> 'db \<Rightarrow> mongo_error + ContractDoc"
  mg_insertContract :: "ContractDoc \<Rightarrow> 'db \<Rightarrow> mongo_error option \<times> 'db"
  mg_deleteContract :: "string \<Rightarrow> 'db \<Rightarrow> mongo_error option \<times> 'db"
  mg_startSession :: "'db \<Rightarrow> mongo_error option"
  mg_startTransaction :: "'db \<Rightarrow> mongo_error option"
  mg_commitTransaction :: "'db \<Rightarrow> 'db \<Rightarrow> mongo_error option \<times> 'db"

section \<open>The ledger\<close>

record MongoLedger =
  ml_currentHeight :: int

datatype ledger_error =
    LErrMongo mongo_error
  | LErrExists string
  | LErrMissing string
  | LErrNew string
  | LErrWrap string mongo_error

text \<open>The inner \<open>option\<close> of \<open>mg_lastBlock\<close> is \<open>None\<close> when the height of the document is neither of the two integer types.\<close>

definition MongoLedger_getCurrentHeightFromDB :: "'db Mongo \<Rightarrow> 'db \<Rightarrow> ledger_error + int" where
  "MongoLedger_getCurrentHeightFromDB mg db =
     (case mg_lastBlock mg db of
        Inl ErrNoDocuments \<Rightarrow> Inr 0
      | Inl e \<Rightarrow> Inl (LErrMongo e)
      | Inr (Some v) \<Rightarrow> Inr v
      | Inr None \<Rightarrow> Inl (LErrNew ''unable to parse blockHeight''))"

definition NewMongoLedger :: "'db Mongo \<Rightarrow> mongo_error option \<Rightarrow> 'db \<Rightarrow> (ledger_error + MongoLedger) \<times> 'db" where
  "NewMongoLedger mg connect db =
     (case connect of
        Some e \<Rightarrow> (Inl (LErrWrap ''mongo connect error'' e), db)
      | None \<Rightarrow>
          (case mg_createIndexes mg db of
             (Some e, db1) \<Rightarrow> (Inl (LErrWrap ''failed to create indexes'' e), db1)
           | (None, db1) \<Rightarrow>
               (case MongoLedger_getCurrentHeightFromDB mg db1 of
                  Inl e \<Rightarrow> (Inl e, db1)
                | Inr height \<Rightarrow> (Inr \<lparr>ml_currentHeight = height\<rparr>, db1))))"

definition MongoLedger_CreateAccount :: "'db Mongo \<Rightarrow> Account \<Rightarrow> 'db \<Rightarrow> ledger_error option \<times> 'db" where
  "MongoLedger_CreateAccount mg ac db =
     (case mg_findAccount mg (acc_ID ac) db of
        Inr existing \<Rightarrow> (Some (LErrExists (acc_ID ac)), db)
      | Inl ErrNoDocuments \<Rightarrow>
          (case mg_insertAccount mg \<lparr>ad_address = acc_ID ac, ad_publicKey = acc_PublicKey ac, ad_balance = acc_Balance ac, ad_nonce = 0\<rparr> db of
             (e, db1) \<Rightarrow> (map_option LErrMongo e, db1))
      | Inl e \<Rightarrow> (Some (LErrMongo e), db))"

definition MongoLedger_UpdateAccount :: "'db Mongo \<Rightarrow> Account \<Rightarrow> 'db \<Rightarrow> ledger_error option \<times> 'db" where
  "MongoLedger_UpdateAccount mg ac db =
     (case mg_setAccount mg (acc_ID ac) (acc_PublicKey ac) (acc_Balance ac) (acc_Nonce ac) db of (e, db1) \<Rightarrow> (map_option LErrMongo e, db1))"

definition MongoLedger_GetBalance :: "'db Mongo \<Rightarrow> string \<Rightarrow> 'db \<Rightarrow> ledger_error + float64" where
  "MongoLedger_GetBalance mg accountID db = (case mg_findAccount mg accountID db of Inl e \<Rightarrow> Inl (LErrMongo e) | Inr ac \<Rightarrow> Inr (ad_balance ac))"

definition MongoLedger_UpdateAccountBalance :: "'db Mongo \<Rightarrow> string \<Rightarrow> float64 \<Rightarrow> 'db \<Rightarrow> ledger_error option \<times> 'db" where
  "MongoLedger_UpdateAccountBalance mg accountID amount db =
     (case mg_incBalance mg accountID amount db of
        (Inl e, db1) \<Rightarrow> (Some (LErrMongo e), db1)
      | (Inr matched, db1) \<Rightarrow> if matched = 0 then (Some (LErrMissing accountID), db1) else (None, db1))"

text \<open>The fee and the data of a transaction are not stored.\<close>

definition MongoLedger_AddTransaction :: "'db Mongo \<Rightarrow> Transaction \<Rightarrow> 'db \<Rightarrow> ledger_error option \<times> 'db" where
  "MongoLedger_AddTransaction mg tx db =
     (case mg_findTransaction mg (tx_ID tx) db of
        Inr existing \<Rightarrow> (Some (LErrExists (tx_ID tx)), db)
      | Inl ErrNoDocuments \<Rightarrow>
          (case mg_insertTransaction mg \<lparr>td_txHash = tx_ID tx, td_from = tx_Sender tx, td_to = tx_Receiver tx, td_amount = tx_Amount tx,
                  td_timestamp = tx_Timestamp tx, td_signature = tx_Signature tx, td_nonce = tx_Nonce tx, td_blockHeight = tx_BlockHeight tx,
                  td_status = ''pending''\<rparr> db of
             (e, db1) \<Rightarrow> (map_option LErrMongo e, db1))
      | Inl e \<Rightarrow> (Some (LErrMongo e), db))"

definition MongoLedger_IsTransactionCommitted :: "'db Mongo \<Rightarrow> string \<Rightarrow> 'db \<Rightarrow> bool" where
  "MongoLedger_IsTransactionCommitted mg txID db = (case mg_findTransaction mg txID db of Inl _ \<Rightarrow> False | Inr _ \<Rightarrow> True)"

text \<open>The transactions of a block, in the session; the first error ends the loop.\<close>

fun commit_transactions :: "'db Mongo \<Rightarrow> int \<Rightarrow> Transaction list \<Rightarrow> 'db \<Rightarrow> mongo_error option \<times> 'db" where
  "commit_transactions mg number [] db = (None, db)"
| "commit_transactions mg number (tx # txs) db =
     (case mg_commitTransactionDoc mg (tx_ID tx) number ''committed'' db of
        (Some e, db1) \<Rightarrow> (Some e, db1)
      | (None, db1) \<Rightarrow> commit_transactions mg number txs db1)"

definition MongoLedger_CommitBlock :: "'db Mongo \<Rightarrow> Block \<Rightarrow> MongoLedger \<times> 'db \<Rightarrow> ledger_error option \<times> MongoLedger \<times> 'db" where
  "MongoLedger_CommitBlock mg block = (\<lambda>(ml, db).
     case mg_startSession mg db of
       Some e \<Rightarrow> (Some (LErrWrap ''failed to start session'' e), ml, db)
     | None \<Rightarrow>
         (case mg_startTransaction mg db of
            Some e \<Rightarrow> (Some (LErrMongo e), ml, db)
          | None \<Rightarrow>
              (case mg_insertBlock mg \<lparr>bd_blockHeight = blk_Number block, bd_hash = blk_Hash block, bd_previousHash = blk_PreviousHash block,
                      bd_timestamp = blk_Timestamp block, bd_transactions = blk_Transactions block\<rparr> db of
                 (Some e, sdb) \<Rightarrow> (Some (LErrMongo e), ml, db)
               | (None, sdb) \<Rightarrow>
                   (case commit_transactions mg (blk_Number block) (blk_Transactions block) sdb of
                      (Some e, sdb1) \<Rightarrow> (Some (LErrMongo e), ml, db)
                    | (None, sdb1) \<Rightarrow>
                        let ml1 = (if blk_Number block > ml_currentHeight ml then ml\<lparr>ml_currentHeight := blk_Number block\<rparr> else ml) in
                        (case mg_commitTransaction mg sdb1 db of (e, db1) \<Rightarrow> (map_option LErrMongo e, ml1, db1))))))"

definition MongoLedger_GetBlockByNumber :: "'db Mongo \<Rightarrow> int \<Rightarrow> 'db \<Rightarrow> Block option" where
  "MongoLedger_GetBlockByNumber mg num db = (case mg_findBlock mg num db of Inl _ \<Rightarrow> None | Inr block \<Rightarrow> Some block)"

text \<open>\<open>computeStateRoot\<close> hashes the JSON text of the state data, a parameter; a text that cannot be made gives the empty root.\<close>

definition computeStateRoot :: "((string \<times> AccountDoc) list \<Rightarrow> bytes option) \<Rightarrow> (string \<times> AccountDoc) list \<Rightarrow> string" where
  "computeStateRoot js stateData = (case js stateData of None \<Rightarrow> '''' | Some data \<Rightarrow> HashData data)"

text \<open>The map of the documents by address: a later document replaces an earlier one.\<close>

definition state_data :: "AccountDoc list \<Rightarrow> (string \<times> AccountDoc) list" where
  "state_data docs = fold (\<lambda>d m. AList.update (ad_address d) d m) docs []"

definition MongoLedger_CreateSnapshot ::
  "'db Mongo \<Rightarrow> ((string \<times> AccountDoc) list \<Rightarrow> bytes option) \<Rightarrow> int \<Rightarrow> int \<Rightarrow> 'db \<Rightarrow> ledger_error option \<times> 'db" where
  "MongoLedger_CreateSnapshot mg js now height db =
     (case mg_allAccounts mg db of
        Inl e \<Rightarrow> (Some (LErrMongo e), db)
      | Inr docs \<Rightarrow>
          (case mg_insertSnapshot mg \<lparr>sd_blockHeight = height, sd_stateRoot = computeStateRoot js (state_data docs),
                  sd_stateData = Some (state_data docs), sd_timestamp = now\<rparr> db of
             (e, db1) \<Rightarrow> (map_option LErrMongo e, db1)))"

definition MongoLedger_RestoreSnapshot :: "'db Mongo \<Rightarrow> int \<Rightarrow> MongoLedger \<times> 'db \<Rightarrow> ledger_error option \<times> MongoLedger \<times> 'db" where
  "MongoLedger_RestoreSnapshot mg height = (\<lambda>(ml, db).
     case mg_findSnapshot mg height db of
       Inl e \<Rightarrow> (Some (LErrWrap ''snapshot not found'' e), ml, db)
     | Inr snapshot \<Rightarrow>
         (case sd_stateData snapshot of
            None \<Rightarrow> (Some (LErrNew ''invalid stateData in snapshot''), ml, db)
          | Some stateData \<Rightarrow>
              if stateData = [] then (None, ml\<lparr>ml_currentHeight := height\<rparr>, db)
              else case mg_replaceAccounts mg stateData db of
                (Some e, db1) \<Rightarrow> (Some (LErrWrap ''failed to restore accounts from snapshot'' e), ml, db1)
              | (None, db1) \<Rightarrow> (None, ml\<lparr>ml_currentHeight := height\<rparr>, db1)))"

definition MongoLedger_IntegrityCheck :: "'db Mongo \<Rightarrow> 'db \<Rightarrow> ledger_error option" where
  "MongoLedger_IntegrityCheck mg db =
     (case mg_countBlocks mg db of
        Inl e \<Rightarrow> Some (LErrMongo e)
      | Inr n \<Rightarrow> if n = 0 then Some (LErrNew ''no blocks found in ledger'') else None)"

text \<open>Of a contract the state, the events and the functions, which the ledger does not read, are left out.\<close>

record SmartContract =
  sc_ID :: string
  sc_Code :: string
  sc_Owner :: string
  sc_ABI :: string
  sc_Language :: string
  sc_GasUsage :: float64

definition MongoLedger_DeploySmartContract :: "'db Mongo \<Rightarrow> SmartContract \<Rightarrow> 'db \<Rightarrow> ledger_error option \<times> 'db" where
  "MongoLedger_DeploySmartContract mg sc db =
     (case mg_insertContract mg \<lparr>kd_contractID = sc_ID sc, kd_code = sc_Code sc, kd_owner = sc_Owner sc, kd_ABI = sc_ABI sc,
             kd_language = sc_Language sc, kd_gasUsage = sc_GasUsage sc\<rparr> db of
        (e, db1) \<Rightarrow> (map_option LErrMongo e, db1))"

text \<open>Execution is simulated: the result is a text made of the function and the printed parameters.\<close>

definition MongoLedger_ExecuteSmartContract :: "'db Mongo \<Rightarrow> string \<Rightarrow> string \<Rightarrow> string \<Rightarrow> 'db \<Rightarrow> ledger_error + string" where
  "MongoLedger_ExecuteSmartContract mg scID function params db =
     (case mg_findContract mg scID db of
        Inl e \<Rightarrow> Inl (LErrMissing scID)
      | Inr contract \<Rightarrow> Inr (''Executed function '' @ function @ '' with params '' @ params))"

definition MongoLedger_RemoveSmartContract :: "'db Mongo \<Rightarrow> string \<Rightarrow> 'db \<Rightarrow> ledger_error option \<times> 'db" where
  "MongoLedger_RemoveSmartContract mg contractID db = (case mg_deleteContract mg contractID db of (e, db1) \<Rightarrow> (map_option LErrMongo e, db1))"

section \<open>The block store\<close>

text \<open>The store writes the block itself; the driver names its fields.\<close>

record 'db MongoBlocks =
  mb_insert :: "Block \<Rightarrow> 'db \<Rightarrow> mongo_error option \<times> 'db"
  mb_find :: "uint64 \<Rightarrow> 'db \<Rightarrow> mongo_error + Block"

definition MongoStore_SaveBlock :: "'db MongoBlocks \<Rightarrow> Block \<Rightarrow> 'db \<Rightarrow> ledger_error option \<times> 'db" where
  "MongoStore_SaveBlock mb block db = (case mb_insert mb block db of (e, db1) \<Rightarrow> (map_option LErrMongo e, db1))"

definition MongoStore_GetBlock :: "'db MongoBlocks \<Rightarrow> uint64 \<Rightarrow> 'db \<Rightarrow> ledger_error + Block" where
  "MongoStore_GetBlock mb blockNumber db =
     (case mb_find mb blockNumber db of Inl e \<Rightarrow> Inl (LErrWrap ''failed to retrieve block'' e) | Inr block \<Rightarrow> Inr block)"

section \<open>The ledger of the transaction manager\<close>

text \<open>The three methods the transaction manager calls, on the database. The manager does not look into the errors.\<close>

definition mongo_ledger :: "'db Mongo \<Rightarrow> 'db LedgerAPI" where
  "mongo_ledger mg =
     \<lparr>l_AddTransaction = (\<lambda>tx db. case MongoLedger_AddTransaction mg tx db of (e, db1) \<Rightarrow> (map_option (\<lambda>_. ErrNew ''ledger'') e, db1)),
      l_UpdateAccountBalance = (\<lambda>a x db. case MongoLedger_UpdateAccountBalance mg a x db of (e, db1) \<Rightarrow> (map_option (\<lambda>_. ErrNew ''ledger'') e, db1)),
      l_IsTransactionCommitted = MongoLedger_IsTransactionCommitted mg\<rparr>"

section \<open>Snapshots\<close>

text \<open>What the properties rely on of the database: the unique index on the addresses, a replacement of documents by their keys, and a document
  that was inserted is found as it was.\<close>

definition documented_find :: "'db Mongo \<Rightarrow> bool" where
  "documented_find mg \<longleftrightarrow>
     (\<forall>db docs. mg_allAccounts mg db = Inr docs \<longrightarrow>
        distinct (map ad_address docs) \<and> (\<forall>a d. mg_findAccount mg a db = Inr d \<longleftrightarrow> d \<in> set docs \<and> ad_address d = a))"

definition documented_replace :: "'db Mongo \<Rightarrow> bool" where
  "documented_replace mg \<longleftrightarrow>
     (\<forall>xs db db1. mg_replaceAccounts mg xs db = (None, db1) \<longrightarrow>
        (\<forall>a. mg_findAccount mg a db1 = (case map_of xs a of Some d \<Rightarrow> Inr d | None \<Rightarrow> mg_findAccount mg a db)))"

definition documented_snapshots :: "'db Mongo \<Rightarrow> bool" where
  "documented_snapshots mg \<longleftrightarrow>
     (\<forall>s db db1. mg_insertSnapshot mg s db = (None, db1) \<longrightarrow> mg_findSnapshot mg (sd_blockHeight s) db1 = Inr s)"

lemma map_of_state_data:
  "distinct (map ad_address docs) \<Longrightarrow> map_of (state_data docs) a = Some d \<longleftrightarrow> d \<in> set docs \<and> ad_address d = a"
proof -
  have gen: "map_of (fold (\<lambda>d m. AList.update (ad_address d) d m) docs m) a = Some d \<longleftrightarrow>
      d \<in> set docs \<and> ad_address d = a \<or> a \<notin> ad_address ` set docs \<and> map_of m a = Some d"
    if "distinct (map ad_address docs)" for docs m
    using that by (induction docs arbitrary: m) (auto simp: update_conv')
  show "distinct (map ad_address docs) \<Longrightarrow> map_of (state_data docs) a = Some d \<longleftrightarrow> d \<in> set docs \<and> ad_address d = a"
    unfolding state_data_def by (simp add: gen)
qed

text \<open>Restoring a snapshot gives every account that existed when the snapshot was made its document back, balance and nonce included, and sets the height to the one
  of the snapshot, whatever happened to the accounts in between; accounts that were created since are left as they are.\<close>

theorem snapshot_restores_accounts:
  assumes "documented_find mg" and "documented_replace mg" and "documented_snapshots mg"
    and "MongoLedger_CreateSnapshot mg js now h db = (None, db1)"
    and "mg_findSnapshot mg h db2 = mg_findSnapshot mg h db1"
    and "MongoLedger_RestoreSnapshot mg h (ml, db2) = (None, ml1, db3)"
  shows "ml_currentHeight ml1 = h \<and>
    (\<forall>a. mg_findAccount mg a db3 = (case mg_findAccount mg a db of Inr d \<Rightarrow> Inr d | Inl _ \<Rightarrow> mg_findAccount mg a db2))"
proof -
  obtain docs s where d: "mg_allAccounts mg db = Inr docs" "mg_insertSnapshot mg s db = (None, db1)" "sd_blockHeight s = h"
      "sd_stateData s = Some (state_data docs)"
    using assms(4) by (auto simp: MongoLedger_CreateSnapshot_def split: sum.splits prod.splits)
  have docs: "distinct (map ad_address docs)" "\<And>a d. mg_findAccount mg a db = Inr d \<longleftrightarrow> d \<in> set docs \<and> ad_address d = a"
    using assms(1) d(1) by (auto simp: documented_find_def)
  have "mg_findSnapshot mg h db2 = Inr s" using assms(3,5) d(2,3) by (auto simp: documented_snapshots_def)
  then have r: "ml_currentHeight ml1 = h" "state_data docs = [] \<and> db3 = db2 \<or> mg_replaceAccounts mg (state_data docs) db2 = (None, db3)"
    using assms(6) d(4) by (auto simp: MongoLedger_RestoreSnapshot_def split: if_splits prod.splits option.splits)
  have "mg_findAccount mg a db3 = (case map_of (state_data docs) a of Some d \<Rightarrow> Inr d | None \<Rightarrow> mg_findAccount mg a db2)" for a
    using r(2) assms(2) by (auto simp: documented_replace_def)
  moreover have eq: "map_of (state_data docs) a = Some d \<longleftrightarrow> mg_findAccount mg a db = Inr d" for a d
    by (simp add: map_of_state_data [OF docs(1)] docs(2))
  have "(case map_of (state_data docs) a of Some d \<Rightarrow> Inr d | None \<Rightarrow> x) = (case mg_findAccount mg a db of Inr d \<Rightarrow> Inr d | Inl _ \<Rightarrow> x)" for a and x :: "mongo_error + AccountDoc"
  proof (cases "mg_findAccount mg a db")
    case (Inl e)
    then have "map_of (state_data docs) a = None" using eq [of a] by (metis not_Some_eq sum.distinct(1))
    then show ?thesis by (simp add: Inl)
  next
    case (Inr d)
    then have "map_of (state_data docs) a = Some d" using eq by blast
    then show ?thesis by (simp add: Inr)
  qed
  ultimately show ?thesis using r(1) by simp
qed

text \<open>Data that is not of the expected Go type cannot be restored.\<close>

lemma restore_other_type:
  "mg_findSnapshot mg h db = Inr s \<Longrightarrow> sd_stateData s = None \<Longrightarrow>
     MongoLedger_RestoreSnapshot mg h (ml, db) = (Some (LErrNew ''invalid stateData in snapshot''), ml, db)"
  by (simp add: MongoLedger_RestoreSnapshot_def)

section \<open>Transfers and blocks\<close>

definition documented_inc :: "'db Mongo \<Rightarrow> bool" where
  "documented_inc mg \<longleftrightarrow>
     (\<forall>a x db n db1. mg_incBalance mg a x db = (Inr n, db1) \<longrightarrow> n \<noteq> 0 \<longrightarrow>
        (\<exists>d. mg_findAccount mg a db = Inr d \<and> mg_findAccount mg a db1 = Inr (d\<lparr>ad_balance := f64_add (ad_balance d) x\<rparr>)) \<and>
        (\<forall>b. b \<noteq> a \<longrightarrow> mg_findAccount mg b db1 = mg_findAccount mg b db))"

lemma update_booked:
  assumes "documented_inc mg" and "MongoLedger_UpdateAccountBalance mg a x db = (None, db1)"
  obtains d where "mg_findAccount mg a db = Inr d" and "mg_findAccount mg a db1 = Inr (d\<lparr>ad_balance := f64_add (ad_balance d) x\<rparr>)"
    and "\<forall>b. b \<noteq> a \<longrightarrow> mg_findAccount mg b db1 = mg_findAccount mg b db"
  using assms unfolding documented_inc_def MongoLedger_UpdateAccountBalance_def
  by (auto split: prod.splits sum.splits if_splits) blast

text \<open>When the transaction manager books a transaction on this ledger without an error, the sender's balance has changed by the amount and the fee, the receiver's by the
  amount, and no other account by anything. The sender's balance is not looked at: the booking may take it below zero.\<close>

theorem ledger_transfer:
  assumes "documented_inc mg" and "TransactionManager_updateBalances (mongo_ledger mg) tx db = (None, db2)" and "tx_Sender tx \<noteq> tx_Receiver tx"
  shows "\<exists>s r. MongoLedger_GetBalance mg (tx_Sender tx) db = Inr s \<and> MongoLedger_GetBalance mg (tx_Receiver tx) db = Inr r \<and>
    MongoLedger_GetBalance mg (tx_Sender tx) db2 = Inr (f64_add s (f64_neg (f64_add (tx_Amount tx) (tx_Fee tx)))) \<and>
    MongoLedger_GetBalance mg (tx_Receiver tx) db2 = Inr (f64_add r (tx_Amount tx)) \<and>
    (\<forall>b. b \<noteq> tx_Sender tx \<and> b \<noteq> tx_Receiver tx \<longrightarrow> MongoLedger_GetBalance mg b db2 = MongoLedger_GetBalance mg b db)"
proof -
  obtain db1 where u: "MongoLedger_UpdateAccountBalance mg (tx_Sender tx) (f64_neg (f64_add (tx_Amount tx) (tx_Fee tx))) db = (None, db1)"
      "MongoLedger_UpdateAccountBalance mg (tx_Receiver tx) (tx_Amount tx) db1 = (None, db2)"
    using assms(2) by (auto simp: TransactionManager_updateBalances_def mongo_ledger_def split: prod.splits option.splits)
  obtain d where d: "mg_findAccount mg (tx_Sender tx) db = Inr d"
      "mg_findAccount mg (tx_Sender tx) db1 = Inr (d\<lparr>ad_balance := f64_add (ad_balance d) (f64_neg (f64_add (tx_Amount tx) (tx_Fee tx)))\<rparr>)"
      "\<forall>b. b \<noteq> tx_Sender tx \<longrightarrow> mg_findAccount mg b db1 = mg_findAccount mg b db"
    by (rule update_booked [OF assms(1) u(1)])
  obtain r where r: "mg_findAccount mg (tx_Receiver tx) db1 = Inr r"
      "mg_findAccount mg (tx_Receiver tx) db2 = Inr (r\<lparr>ad_balance := f64_add (ad_balance r) (tx_Amount tx)\<rparr>)"
      "\<forall>b. b \<noteq> tx_Receiver tx \<longrightarrow> mg_findAccount mg b db2 = mg_findAccount mg b db1"
    by (rule update_booked [OF assms(1) u(2)])
  show ?thesis using d r assms(3) by (auto simp: MongoLedger_GetBalance_def)
qed

text \<open>The height of the ledger is moved before the transaction of the database is committed: when the commit fails, the ledger claims a block that the database does not have.\<close>

theorem failed_commit_moves_height:
  assumes "mg_startSession mg db = None" and "mg_startTransaction mg db = None"
    and "mg_insertBlock mg \<lparr>bd_blockHeight = blk_Number block, bd_hash = blk_Hash block, bd_previousHash = blk_PreviousHash block,
           bd_timestamp = blk_Timestamp block, bd_transactions = blk_Transactions block\<rparr> db = (None, sdb)"
    and "commit_transactions mg (blk_Number block) (blk_Transactions block) sdb = (None, sdb1)"
    and "mg_commitTransaction mg sdb1 db = (Some e, db)" and "ml_currentHeight ml < blk_Number block"
  shows "MongoLedger_CommitBlock mg block (ml, db) = (Some (LErrMongo e), ml\<lparr>ml_currentHeight := blk_Number block\<rparr>, db)"
  using assms by (simp add: MongoLedger_CommitBlock_def)

section \<open>A concrete database\<close>

text \<open>A database with room for one account and one snapshot.\<close>

definition small_mongo :: "(AccountDoc option \<times> SnapshotDoc option) Mongo" where
  "small_mongo =
     \<lparr>mg_createIndexes = (\<lambda>db. (None, db)), mg_lastBlock = (\<lambda>db. Inl ErrNoDocuments),
      mg_findAccount = (\<lambda>a db. case fst db of None \<Rightarrow> Inl ErrNoDocuments | Some d \<Rightarrow> if ad_address d = a then Inr d else Inl ErrNoDocuments),
      mg_insertAccount = (\<lambda>d db. if fst db = None then (None, Some d, snd db) else (Some (MongoFailure ''full''), db)),
      mg_setAccount = (\<lambda>a k b n db. (Some (MongoFailure ''unsupported''), db)),
      mg_incBalance = (\<lambda>a x db. case fst db of None \<Rightarrow> (Inr 0, db)
         | Some d \<Rightarrow> if ad_address d = a then (Inr 1, Some (d\<lparr>ad_balance := f64_add (ad_balance d) x\<rparr>), snd db) else (Inr 0, db)),
      mg_allAccounts = (\<lambda>db. Inr (case fst db of None \<Rightarrow> [] | Some d \<Rightarrow> [d])),
      mg_replaceAccounts = (\<lambda>xs db. case (xs, fst db) of ([(a, d)], Some d0) \<Rightarrow>
           if ad_address d = a \<and> ad_address d0 = a then (None, Some d, snd db) else (Some (MongoFailure ''full''), db)
         | _ \<Rightarrow> (Some (MongoFailure ''full''), db)),
      mg_findTransaction = (\<lambda>t db. Inl ErrNoDocuments), mg_insertTransaction = (\<lambda>t db. (Some (MongoFailure ''full''), db)),
      mg_commitTransactionDoc = (\<lambda>t n s db. (None, db)), mg_findBlock = (\<lambda>n db. Inl ErrNoDocuments),
      mg_insertBlock = (\<lambda>b db. (Some (MongoFailure ''full''), db)), mg_countBlocks = (\<lambda>db. Inr 0),
      mg_findSnapshot = (\<lambda>h db. case snd db of None \<Rightarrow> Inl ErrNoDocuments | Some s \<Rightarrow> if sd_blockHeight s = h then Inr s else Inl ErrNoDocuments),
      mg_insertSnapshot = (\<lambda>s db. (None, fst db, Some s)), mg_findContract = (\<lambda>c db. Inl ErrNoDocuments),
      mg_insertContract = (\<lambda>c db. (Some (MongoFailure ''full''), db)), mg_deleteContract = (\<lambda>c db. (None, db)),
      mg_startSession = (\<lambda>db. None), mg_startTransaction = (\<lambda>db. None), mg_commitTransaction = (\<lambda>s db. (None, s))\<rparr>"

definition alice_doc :: AccountDoc where
  "alice_doc = \<lparr>ad_address = ''alice'', ad_publicKey = [1], ad_balance = Fin 10, ad_nonce = 0\<rparr>"

theorem snapshot_restores_accounts_witness:
  "\<exists>db1 db2 db3 ml1. MongoLedger_CreateSnapshot small_mongo (\<lambda>_. None) 0 7 (Some alice_doc, None) = (None, db1) \<and>
     MongoLedger_UpdateAccountBalance small_mongo ''alice'' (Fin 5) db1 = (None, db2) \<and>
     MongoLedger_RestoreSnapshot small_mongo 7 (\<lparr>ml_currentHeight = 9\<rparr>, db2) = (None, ml1, db3) \<and> mg_findAccount small_mongo ''alice'' db3 = Inr alice_doc"
proof -
  have doc: "documented_find small_mongo" "documented_replace small_mongo" "documented_snapshots small_mongo"
    by (auto simp: documented_find_def documented_replace_def documented_snapshots_def small_mongo_def split: option.splits list.splits if_splits)
  obtain db1 where c: "MongoLedger_CreateSnapshot small_mongo (\<lambda>_. None) 0 7 (Some alice_doc, None) = (None, db1)"
    by (simp add: MongoLedger_CreateSnapshot_def small_mongo_def)
  then have d: "fst db1 = Some alice_doc" "\<exists>s. snd db1 = Some s \<and> sd_blockHeight s = 7 \<and> sd_stateData s = Some [(''alice'', alice_doc)]"
    by (auto simp: MongoLedger_CreateSnapshot_def small_mongo_def state_data_def alice_doc_def)
  obtain db2 where u: "MongoLedger_UpdateAccountBalance small_mongo ''alice'' (Fin 5) db1 = (None, db2)"
    and d2: "snd db2 = snd db1" "\<exists>x. fst db2 = Some x \<and> ad_address x = ''alice''"
    using d(1) by (simp add: MongoLedger_UpdateAccountBalance_def small_mongo_def alice_doc_def)
  obtain ml1 db3 where r: "MongoLedger_RestoreSnapshot small_mongo 7 (\<lparr>ml_currentHeight = 9\<rparr>, db2) = (None, ml1, db3)"
    using d(2) d2 by (auto simp: MongoLedger_RestoreSnapshot_def small_mongo_def alice_doc_def)
  have "mg_findSnapshot small_mongo 7 db2 = mg_findSnapshot small_mongo 7 db1" using d2(1) by (simp add: small_mongo_def)
  from snapshot_restores_accounts [OF doc c this r]
  have "mg_findAccount small_mongo ''alice'' db3 = Inr alice_doc" by (simp add: small_mongo_def alice_doc_def)
  with c u r show ?thesis by blast
qed

end
