(* ===== verification/NetworkTheory.thy ===== *)
theory NetworkTheory
  imports Accounts
begin

text \<open>
  The peers of the node: \<open>network/network_manager.go\<close>, \<open>network/peer.go\<close>, \<open>network/discovery.go\<close> and \<open>network/p2p_node.go\<close>.

  Peers are objects in a store and the manager's map holds their addresses in it, because two connections to the same network address are two peers. Sockets are left out: whether
  a connection is made, a message is written or a read ends is an argument. A goroutine is one operation per event it handles. The mutex of the manager is held for a whole
  operation; it is not reentrant, so an operation that asks for it while it is held by itself, or after it was never released, does not return (\<open>NBlocks\<close>).
\<close>

section \<open>Data\<close>

datatype payload = Text string | TransactionPayload Transaction

record Message =
  msg_Type :: string
  msg_Payload :: payload

record Peer =
  p_Addr :: string
  p_incoming :: "Message list"
  p_quit :: bool
  p_writing :: bool

record NetworkManager =
  nm_localAddr :: string
  nm_peers :: "string \<rightharpoonup> nat"
  nm_store :: "nat \<Rightarrow> Peer"
  nm_next :: nat
  nm_isRunning :: bool
  nm_stopClosed :: bool
  nm_discoveryClosed :: bool
  nm_health :: int
  nm_locked :: bool

datatype 'a net_outcome = NReturns 'a NetworkManager | NPanics | NBlocks NetworkManager

definition NewPeer :: "string \<Rightarrow> Peer" where
  "NewPeer addr = \<lparr>p_Addr = addr, p_incoming = [], p_quit = False, p_writing = True\<rparr>"

definition NewNetworkManager :: "string \<Rightarrow> NetworkManager" where
  "NewNetworkManager localAddr =
     \<lparr>nm_localAddr = localAddr, nm_peers = Map.empty, nm_store = (\<lambda>_. NewPeer ''''), nm_next = 0, nm_isRunning = False, nm_stopClosed = False,
      nm_discoveryClosed = False, nm_health = 0, nm_locked = False\<rparr>"

section \<open>Peers\<close>

text \<open>A message is queued unless the channel, with its 32 places, is full.\<close>

definition Peer_Send :: "Message \<Rightarrow> Peer \<Rightarrow> Peer" where
  "Peer_Send msg p = (if length (p_incoming p) < 32 then p\<lparr>p_incoming := p_incoming p @ [msg]\<rparr> else p)"

text \<open>One event of the write loop: it ends when the peer is closed; a message or a keepalive is written; an error ends the loop and leaves the peer as it is.\<close>

datatype write_event = WriteQueued bool | WriteKeepalive bool

fun Peer_writeLoop :: "write_event \<Rightarrow> Peer \<Rightarrow> Peer" where
  "Peer_writeLoop (WriteQueued ok) p =
     (if \<not> p_writing p then p
      else if p_quit p then p\<lparr>p_writing := False\<rparr>
      else case p_incoming p of
        [] \<Rightarrow> p
      | m # ms \<Rightarrow> p\<lparr>p_incoming := ms, p_writing := ok\<rparr>)"
| "Peer_writeLoop (WriteKeepalive ok) p =
     (if \<not> p_writing p then p
      else if p_quit p then p\<lparr>p_writing := False\<rparr>
      else p\<lparr>p_writing := ok\<rparr>)"

definition set_peer :: "nat \<Rightarrow> Peer \<Rightarrow> NetworkManager \<Rightarrow> NetworkManager" where
  "set_peer i p nm = nm\<lparr>nm_store := (nm_store nm)(i := p)\<rparr>"

section \<open>The manager\<close>

definition NetworkManager_addPeer :: "nat \<Rightarrow> NetworkManager \<Rightarrow> unit net_outcome" where
  "NetworkManager_addPeer i nm =
     (if nm_locked nm then NBlocks nm else NReturns () (nm\<lparr>nm_peers := (nm_peers nm)(p_Addr (nm_store nm i) \<mapsto> i)\<rparr>))"

definition NetworkManager_RemovePeer :: "string \<Rightarrow> NetworkManager \<Rightarrow> unit net_outcome" where
  "NetworkManager_RemovePeer addr nm = (if nm_locked nm then NBlocks nm else NReturns () (nm\<lparr>nm_peers := (nm_peers nm)(addr := None)\<rparr>))"

definition Peer_Close :: "nat \<Rightarrow> NetworkManager \<Rightarrow> unit net_outcome" where
  "Peer_Close i nm =
     (if p_quit (nm_store nm i) then NReturns () nm
      else NetworkManager_RemovePeer (p_Addr (nm_store nm i)) (set_peer i ((nm_store nm i)\<lparr>p_quit := True\<rparr>) nm))"

text \<open>The read loop does nothing with a message and closes the peer at the first error.\<close>

definition Peer_readLoop :: "bool \<Rightarrow> nat \<Rightarrow> NetworkManager \<Rightarrow> unit net_outcome" where
  "Peer_readLoop ok i nm = (if ok \<and> \<not> p_quit (nm_store nm i) then NReturns () nm else Peer_Close i nm)"

definition new_connection :: "string \<Rightarrow> NetworkManager \<Rightarrow> unit net_outcome" where
  "new_connection addr nm = NetworkManager_addPeer (nm_next nm) ((set_peer (nm_next nm) (NewPeer addr) nm)\<lparr>nm_next := nm_next nm + 1\<rparr>)"

definition NetworkManager_handleInbound :: "string \<Rightarrow> NetworkManager \<Rightarrow> unit net_outcome" where
  "NetworkManager_handleInbound addr nm = new_connection addr nm"

datatype net_error = NetErrAlreadyRunning | NetErrNotRunning | NetErrDial string

definition NetworkManager_Start :: "NetworkManager \<Rightarrow> net_error option net_outcome" where
  "NetworkManager_Start nm =
     (if nm_locked nm then NBlocks nm
      else if nm_isRunning nm then NReturns (Some NetErrAlreadyRunning) nm
      else NReturns None (nm\<lparr>nm_isRunning := True\<rparr>))"

text \<open>The loop of \<open>Stop\<close> runs with the mutex held, which \<open>Close\<close> asks for again.\<close>

fun close_peers :: "nat list \<Rightarrow> NetworkManager \<Rightarrow> unit net_outcome" where
  "close_peers [] nm = NReturns () nm"
| "close_peers (i # is) nm =
     (case Peer_Close i nm of
        NReturns _ nm1 \<Rightarrow> close_peers is nm1
      | NPanics \<Rightarrow> NPanics
      | NBlocks nm1 \<Rightarrow> NBlocks nm1)"

definition NetworkManager_Stop :: "string list \<Rightarrow> NetworkManager \<Rightarrow> net_error option net_outcome" where
  "NetworkManager_Stop order nm =
     (if nm_locked nm then NBlocks nm
      else if \<not> nm_isRunning nm then NReturns (Some NetErrNotRunning) nm
      else if nm_stopClosed nm \<or> nm_discoveryClosed nm then NPanics
      else case close_peers (map (\<lambda>a. the (nm_peers nm a)) order)
                  (nm\<lparr>nm_isRunning := False, nm_stopClosed := True, nm_discoveryClosed := True, nm_locked := True\<rparr>) of
        NReturns _ nm1 \<Rightarrow> NReturns None (nm1\<lparr>nm_peers := Map.empty, nm_locked := False\<rparr>)
      | NPanics \<Rightarrow> NPanics
      | NBlocks nm1 \<Rightarrow> NBlocks nm1)"

definition NetworkManager_DialPeer :: "bool \<Rightarrow> string \<Rightarrow> NetworkManager \<Rightarrow> net_error option net_outcome" where
  "NetworkManager_DialPeer conn_ok addr nm =
     (if nm_locked nm then NBlocks nm
      else if \<not> nm_isRunning nm then NReturns (Some NetErrNotRunning) nm
      else if \<not> conn_ok then NReturns (Some (NetErrDial addr)) nm
      else case new_connection addr nm of
        NReturns _ nm1 \<Rightarrow> NReturns None nm1 | NPanics \<Rightarrow> NPanics | NBlocks nm1 \<Rightarrow> NBlocks nm1)"

definition NetworkManager_Broadcast :: "string list \<Rightarrow> Message \<Rightarrow> NetworkManager \<Rightarrow> unit net_outcome" where
  "NetworkManager_Broadcast order msg nm =
     (if nm_locked nm then NBlocks nm
      else NReturns () (fold (\<lambda>a nm. let i = the (nm_peers nm a) in set_peer i (Peer_Send msg (nm_store nm i)) nm) order nm))"

definition NetworkManager_BroadcastTransaction :: "string list \<Rightarrow> Transaction \<Rightarrow> NetworkManager \<Rightarrow> unit net_outcome" where
  "NetworkManager_BroadcastTransaction order tx nm =
     NetworkManager_Broadcast order \<lparr>msg_Type = ''TransactionBroadcast'', msg_Payload = TransactionPayload tx\<rparr> nm"

definition NetworkManager_GetNetworkHealth :: "NetworkManager \<Rightarrow> int net_outcome" where
  "NetworkManager_GetNetworkHealth nm = (if nm_locked nm then NBlocks nm else NReturns (nm_health nm) nm)"

definition NetworkManager_periodicHealthCheck :: "NetworkManager \<Rightarrow> unit net_outcome" where
  "NetworkManager_periodicHealthCheck nm =
     (if nm_stopClosed nm then NReturns () nm
      else if nm_locked nm then NBlocks nm
      else NReturns () (nm\<lparr>nm_health := (nm_health nm + 5) mod 100\<rparr>))"

section \<open>Discovery and the node\<close>

text \<open>A poll dials every seed but the own address, whether or not there is a connection to it; without a manager it does nothing. \<open>dial\<close> says which
  connections are made.\<close>

record BasicDiscovery =
  bd_knownPeers :: "string list"
  bd_hasManager :: bool

definition NewBasicDiscovery :: "string list \<Rightarrow> bool \<Rightarrow> BasicDiscovery" where
  "NewBasicDiscovery initialSeeds hasManager = \<lparr>bd_knownPeers = initialSeeds, bd_hasManager = hasManager\<rparr>"

definition BasicDiscovery_SetNetworkManager :: "bool \<Rightarrow> BasicDiscovery \<Rightarrow> BasicDiscovery" where
  "BasicDiscovery_SetNetworkManager hasManager bd = bd\<lparr>bd_hasManager := hasManager\<rparr>"

fun dial_seeds :: "bool \<Rightarrow> (string \<Rightarrow> bool) \<Rightarrow> string list \<Rightarrow> NetworkManager \<Rightarrow> unit net_outcome" where
  "dial_seeds hasManager dial [] nm = NReturns () nm"
| "dial_seeds hasManager dial (seed # seeds) nm =
     (if \<not> hasManager \<or> seed = nm_localAddr nm then dial_seeds hasManager dial seeds nm
      else case NetworkManager_DialPeer (dial seed) seed nm of
        NReturns _ nm1 \<Rightarrow> dial_seeds hasManager dial seeds nm1
      | NPanics \<Rightarrow> NPanics
      | NBlocks nm1 \<Rightarrow> NBlocks nm1)"

definition BasicDiscovery_discoverPeers :: "(string \<Rightarrow> bool) \<Rightarrow> BasicDiscovery \<Rightarrow> NetworkManager \<Rightarrow> unit net_outcome" where
  "BasicDiscovery_discoverPeers dial bd nm = dial_seeds (bd_hasManager bd) dial (bd_knownPeers bd) nm"

definition P2PNode_ConnectToPeer :: "bool \<Rightarrow> string \<Rightarrow> NetworkManager \<Rightarrow> unit net_outcome" where
  "P2PNode_ConnectToPeer conn_ok peerAddr nm =
     (case NetworkManager_DialPeer conn_ok peerAddr nm of
        NReturns _ nm1 \<Rightarrow> NReturns () nm1 | NPanics \<Rightarrow> NPanics | NBlocks nm1 \<Rightarrow> NBlocks nm1)"

definition P2PNode_BroadcastMsg :: "string list \<Rightarrow> string \<Rightarrow> payload \<Rightarrow> NetworkManager \<Rightarrow> unit net_outcome" where
  "P2PNode_BroadcastMsg order msgType payload nm = NetworkManager_Broadcast order \<lparr>msg_Type = msgType, msg_Payload = payload\<rparr> nm"

section \<open>Every history of the manager\<close>

inductive net_reachable :: "NetworkManager \<Rightarrow> bool" where
  net_new: "net_reachable (NewNetworkManager addr)"
| net_start: "net_reachable nm \<Longrightarrow> NetworkManager_Start nm = NReturns r nm1 \<Longrightarrow> net_reachable nm1"
| net_stop: "net_reachable nm \<Longrightarrow> range_order (nm_peers nm) order \<Longrightarrow> NetworkManager_Stop order nm = NReturns r nm1 \<Longrightarrow> net_reachable nm1"
| net_inbound: "net_reachable nm \<Longrightarrow> NetworkManager_handleInbound addr nm = NReturns u nm1 \<Longrightarrow> net_reachable nm1"
| net_dial: "net_reachable nm \<Longrightarrow> NetworkManager_DialPeer conn_ok addr nm = NReturns r nm1 \<Longrightarrow> net_reachable nm1"
| net_read: "net_reachable nm \<Longrightarrow> i < nm_next nm \<Longrightarrow> Peer_readLoop ok i nm = NReturns u nm1 \<Longrightarrow> net_reachable nm1"
| net_write: "net_reachable nm \<Longrightarrow> i < nm_next nm \<Longrightarrow> net_reachable (set_peer i (Peer_writeLoop ev (nm_store nm i)) nm)"
| net_broadcast: "net_reachable nm \<Longrightarrow> range_order (nm_peers nm) order \<Longrightarrow> NetworkManager_Broadcast order msg nm = NReturns u nm1 \<Longrightarrow> net_reachable nm1"
| net_health: "net_reachable nm \<Longrightarrow> NetworkManager_periodicHealthCheck nm = NReturns u nm1 \<Longrightarrow> net_reachable nm1"

text \<open>The peers in the map are open, are filed under their own addresses and were made by the manager; no queue is longer than its channel;
  the health is a multiple of five below a hundred; the two stop channels are closed together.\<close>

definition peers_ok :: "NetworkManager \<Rightarrow> bool" where
  "peers_ok nm \<longleftrightarrow>
     (\<forall>a i. nm_peers nm a = Some i \<longrightarrow> i < nm_next nm \<and> p_Addr (nm_store nm i) = a \<and> \<not> p_quit (nm_store nm i)) \<and>
     (\<forall>i. length (p_incoming (nm_store nm i)) \<le> 32)"

definition net_inv :: "NetworkManager \<Rightarrow> bool" where
  "net_inv nm \<longleftrightarrow> peers_ok nm \<and> \<not> nm_locked nm \<and> nm_discoveryClosed nm = nm_stopClosed nm \<and> 0 \<le> nm_health nm \<and> nm_health nm < 100 \<and> nm_health nm mod 5 = 0"

lemma new_connection_inv:
  assumes "net_inv nm"
  obtains nm1 where "new_connection addr nm = NReturns () nm1" and "net_inv nm1" and "nm_peers nm1 = (nm_peers nm)(addr \<mapsto> nm_next nm)"
    and "nm_store nm1 = (nm_store nm)(nm_next nm := NewPeer addr)" and "nm_next nm1 = nm_next nm + 1" and "nm_isRunning nm1 = nm_isRunning nm"
    and "nm_localAddr nm1 = nm_localAddr nm"
  using assms
  by (fastforce simp: new_connection_def NetworkManager_addPeer_def set_peer_def NewPeer_def net_inv_def peers_ok_def split: if_splits)

lemma Peer_Close_inv:
  assumes "net_inv nm" and "Peer_Close i nm = NReturns u nm1"
  shows "net_inv nm1"
proof (cases "p_quit (nm_store nm i)")
  case False
  then have nm1: "nm1 = nm\<lparr>nm_store := (nm_store nm)(i := (nm_store nm i)\<lparr>p_quit := True\<rparr>), nm_peers := (nm_peers nm)(p_Addr (nm_store nm i) := None)\<rparr>"
    using assms by (auto simp: Peer_Close_def NetworkManager_RemovePeer_def set_peer_def net_inv_def)
  show ?thesis using assms(1) unfolding nm1 by (auto simp: net_inv_def peers_ok_def)
qed (use assms in \<open>simp add: Peer_Close_def\<close>)

lemma close_peers_locked: "nm_locked nm \<Longrightarrow> is \<noteq> [] \<Longrightarrow> \<forall>i\<in>set is. \<not> p_quit (nm_store nm i) \<Longrightarrow> \<exists>nm1. close_peers is nm = NBlocks nm1 \<and> nm_locked nm1"
  by (cases "is") (auto simp: Peer_Close_def NetworkManager_RemovePeer_def set_peer_def)

text \<open>What \<open>Stop\<close> does in a state of the invariant.\<close>

lemma Stop_cases:
  assumes "net_inv nm" and "range_order (nm_peers nm) order" and "nm_isRunning nm" and "\<not> nm_stopClosed nm"
  shows "if nm_peers nm = Map.empty
    then NetworkManager_Stop order nm = NReturns None (nm\<lparr>nm_isRunning := False, nm_stopClosed := True, nm_discoveryClosed := True, nm_peers := Map.empty\<rparr>)
    else \<exists>nm1. NetworkManager_Stop order nm = NBlocks nm1 \<and> nm_locked nm1"
proof (cases "order = []")
  case True
  then have "nm_peers nm = Map.empty" using assms(2) by (auto simp: range_order_def)
  with True show ?thesis using assms by (simp add: NetworkManager_Stop_def net_inv_def)
next
  case False
  let ?nm = "nm\<lparr>nm_isRunning := False, nm_stopClosed := True, nm_discoveryClosed := True, nm_locked := True\<rparr>"
  have e: "nm_peers nm \<noteq> Map.empty" using False assms(2) by (auto simp: range_order_def)
  have "\<forall>i\<in>set (map (\<lambda>a. the (nm_peers nm a)) order). \<not> p_quit (nm_store nm i)"
    using assms(1,2) by (force simp: range_order_def net_inv_def peers_ok_def)
  then obtain nm1 where "close_peers (map (\<lambda>a. the (nm_peers nm a)) order) ?nm = NBlocks nm1" and "nm_locked nm1"
    using close_peers_locked [of ?nm "map (\<lambda>a. the (nm_peers nm a)) order"] False by auto
  with e show ?thesis using assms by (simp add: NetworkManager_Stop_def net_inv_def)
qed

lemma Broadcast_store:
  assumes "peers_ok nm" and "distinct order" and "set order \<subseteq> dom (nm_peers nm)"
  shows "fold (\<lambda>a nm. let i = the (nm_peers nm a) in set_peer i (Peer_Send msg (nm_store nm i)) nm) order nm =
    nm\<lparr>nm_store := (\<lambda>i. if \<exists>a\<in>set order. nm_peers nm a = Some i then Peer_Send msg (nm_store nm i) else nm_store nm i)\<rparr>"
  using assms
proof (induction order rule: rev_induct)
  case Nil
  then show ?case by simp
next
  case (snoc a order)
  obtain i where i: "nm_peers nm a = Some i" using snoc.prems(3) by auto
  have other: "\<not> (\<exists>b\<in>set order. nm_peers nm b = Some i)"
    using i snoc.prems unfolding peers_ok_def by (metis distinct_append disjoint_insert(1) list.set(2) Int_iff distinct.simps(2) insert_iff list.set_intros(1))
  show ?case using snoc other i by (auto simp: set_peer_def Let_def fun_eq_iff)
qed

lemma Peer_Send_simps [simp]:
  "p_Addr (Peer_Send msg p) = p_Addr p" "p_quit (Peer_Send msg p) = p_quit p" "p_writing (Peer_Send msg p) = p_writing p"
  by (simp_all add: Peer_Send_def)

lemma Peer_Send_queue: "length (p_incoming p) \<le> 32 \<Longrightarrow> length (p_incoming (Peer_Send msg p)) \<le> 32"
  by (simp add: Peer_Send_def)

lemma Peer_writeLoop_simps [simp]:
  "p_Addr (Peer_writeLoop ev p) = p_Addr p" "p_quit (Peer_writeLoop ev p) = p_quit p"
  by (cases ev; auto split: list.splits)+

lemma Peer_writeLoop_queue: "length (p_incoming p) \<le> 32 \<Longrightarrow> length (p_incoming (Peer_writeLoop ev p)) \<le> 32"
  by (cases ev) (auto split: list.splits)

text \<open>A broadcast in a state of the invariant queues the message at every peer of the map, in whatever order the map is walked.\<close>

lemma Broadcast_result:
  assumes "net_inv nm" and "range_order (nm_peers nm) order"
  shows "NetworkManager_Broadcast order msg nm =
    NReturns () (nm\<lparr>nm_store := (\<lambda>i. if i \<in> ran (nm_peers nm) then Peer_Send msg (nm_store nm i) else nm_store nm i)\<rparr>)"
proof -
  have "(\<exists>a\<in>set order. nm_peers nm a = Some i) \<longleftrightarrow> i \<in> ran (nm_peers nm)" for i
    using assms(2) by (auto simp: range_order_def ran_def)
  then show ?thesis
    using assms Broadcast_store [of nm order msg] by (simp add: NetworkManager_Broadcast_def net_inv_def range_order_def)
qed

lemma DialPeer_inv: "net_inv nm \<Longrightarrow> NetworkManager_DialPeer conn_ok addr nm = NReturns r nm1 \<Longrightarrow> net_inv nm1"
  by (rule new_connection_inv [of nm addr]) (auto simp: NetworkManager_DialPeer_def split: if_splits)

lemma DialPeer_returns: "net_inv nm \<Longrightarrow> \<exists>r nm1. NetworkManager_DialPeer conn_ok addr nm = NReturns r nm1"
  by (rule new_connection_inv [of nm addr]) (auto simp: NetworkManager_DialPeer_def net_inv_def split: if_splits)

lemma set_peer_inv:
  "net_inv nm \<Longrightarrow> p_Addr p = p_Addr (nm_store nm i) \<Longrightarrow> p_quit p = p_quit (nm_store nm i) \<Longrightarrow> length (p_incoming p) \<le> 32 \<Longrightarrow> net_inv (set_peer i p nm)"
  by (auto simp: net_inv_def peers_ok_def set_peer_def)

lemma Stop_inv:
  assumes "net_inv nm" and "range_order (nm_peers nm) order" and "NetworkManager_Stop order nm = NReturns r nm1"
  shows "net_inv nm1"
proof (cases "nm_isRunning nm \<and> \<not> nm_stopClosed nm")
  case True
  then show ?thesis using Stop_cases [OF assms(1,2)] assms(1,3) by (auto simp: net_inv_def peers_ok_def split: if_splits)
next
  case False
  then show ?thesis using assms(1,3) by (auto simp: NetworkManager_Stop_def net_inv_def split: if_splits)
qed

lemma health_mod: "(h::int) mod 5 = 0 \<Longrightarrow> (h + 5) mod 100 mod 5 = 0"
proof -
  assume "h mod 5 = 0"
  then have "5 dvd h + 5" by (simp add: mod_eq_0_iff_dvd)
  then show ?thesis by (simp add: mod_mod_cancel mod_eq_0_iff_dvd)
qed

lemma net_reachable_inv: "net_reachable nm \<Longrightarrow> net_inv nm"
proof (induction rule: net_reachable.induct)
  case (net_new addr)
  show ?case by (simp add: net_inv_def peers_ok_def NewNetworkManager_def NewPeer_def)
next
  case (net_start nm r nm1)
  then show ?case by (auto simp: NetworkManager_Start_def net_inv_def peers_ok_def split: if_splits)
next
  case (net_stop nm order r nm1)
  then show ?case by (blast intro: Stop_inv)
next
  case (net_inbound nm addr u nm1)
  obtain nm2 where "new_connection addr nm = NReturns () nm2" and "net_inv nm2" by (rule new_connection_inv [OF net_inbound.IH])
  then show ?case using net_inbound.hyps(2) by (simp add: NetworkManager_handleInbound_def)
next
  case (net_dial nm conn_ok addr r nm1)
  then show ?case by (blast intro: DialPeer_inv)
next
  case (net_read nm i ok u nm1)
  then show ?case by (auto simp: Peer_readLoop_def intro: Peer_Close_inv split: if_splits)
next
  case (net_write nm i ev)
  then show ?case by (intro set_peer_inv Peer_writeLoop_queue) (auto simp: net_inv_def peers_ok_def)
next
  case (net_broadcast nm order msg u nm1)
  then show ?case by (auto simp: Broadcast_result net_inv_def peers_ok_def Peer_Send_queue split: if_splits)
next
  case (net_health nm u nm1)
  then show ?case by (auto simp: NetworkManager_periodicHealthCheck_def net_inv_def peers_ok_def health_mod split: if_splits)
qed


text \<open>A poll of the discovery always returns and stays within the histories of the manager.\<close>

lemma dial_seeds_reachable: "net_reachable nm \<Longrightarrow> \<exists>nm1. dial_seeds hasManager dial seeds nm = NReturns () nm1 \<and> net_reachable nm1"
proof (induction seeds arbitrary: nm)
  case (Cons seed seeds)
  obtain r nm1 where d: "NetworkManager_DialPeer (dial seed) seed nm = NReturns r nm1"
    using DialPeer_returns [OF net_reachable_inv [OF Cons.prems]] by blast
  then have "net_reachable nm1" using Cons.prems by (blast intro: net_dial)
  then show ?case using Cons d by auto
qed simp

section \<open>Properties\<close>

text \<open>In every running state a history of the manager can reach (starts, stops, inbound and dialled connections, reads, writes, broadcasts and health checks) whose stop
  channel is still open, \<open>Stop\<close> returns when there is no peer; with a peer it blocks for ever on the mutex it holds itself, and from then on so does every broadcast,
  dial and removal of a peer.\<close>

theorem stop_blocks_with_peers:
  assumes "net_reachable nm" and "range_order (nm_peers nm) order" and "nm_isRunning nm" and "\<not> nm_stopClosed nm"
  shows "if nm_peers nm = Map.empty
    then NetworkManager_Stop order nm = NReturns None (nm\<lparr>nm_isRunning := False, nm_stopClosed := True, nm_discoveryClosed := True, nm_peers := Map.empty\<rparr>)
    else \<exists>nm1. NetworkManager_Stop order nm = NBlocks nm1 \<and>
           (\<forall>order msg. NetworkManager_Broadcast order msg nm1 = NBlocks nm1) \<and>
           (\<forall>conn_ok addr. NetworkManager_DialPeer conn_ok addr nm1 = NBlocks nm1) \<and>
           (\<forall>addr. NetworkManager_RemovePeer addr nm1 = NBlocks nm1)"
  using Stop_cases [OF net_reachable_inv [OF assms(1)] assms(2-4)]
  by (auto simp: NetworkManager_Broadcast_def NetworkManager_DialPeer_def NetworkManager_RemovePeer_def)

definition one_peer :: NetworkManager where
  "one_peer = (NewNetworkManager ''a'')\<lparr>nm_isRunning := True, nm_peers := [''b'' \<mapsto> 0], nm_store := (\<lambda>_. NewPeer '''')(0 := NewPeer ''b''), nm_next := 1\<rparr>"

lemma one_peer_reachable: "net_reachable one_peer"
proof -
  have "net_reachable ((NewNetworkManager ''a'')\<lparr>nm_isRunning := True\<rparr>)"
    by (rule net_start [OF net_new, of "''a''"]) (simp add: NetworkManager_Start_def NewNetworkManager_def)
  then show ?thesis
    by (rule net_dial [of _ True "''b''" None])
      (simp add: NetworkManager_DialPeer_def new_connection_def NetworkManager_addPeer_def set_peer_def one_peer_def NewNetworkManager_def NewPeer_def)
qed

theorem stop_blocks_with_peers_witness:
  "\<exists>nm1. NetworkManager_Stop [''b''] one_peer = NBlocks nm1 \<and> NetworkManager_Broadcast [] \<lparr>msg_Type = ''m'', msg_Payload = Text ''''\<rparr> nm1 = NBlocks nm1"
proof -
  have "range_order (nm_peers one_peer) [''b'']" "nm_isRunning one_peer" "\<not> nm_stopClosed one_peer" "nm_peers one_peer \<noteq> Map.empty"
    by (simp_all add: range_order_def one_peer_def NewNetworkManager_def)
  with stop_blocks_with_peers [OF one_peer_reachable] show ?thesis by (metis (no_types, lifting))
qed

text \<open>A broadcast in every state of a history returns and queues the message at exactly the peers of the map, in whatever order the map is walked; a peer whose queue
  of 32 is full loses it. Every peer of the map is open and filed under its own address, and no queue is longer than its channel.\<close>

theorem broadcast_queues:
  assumes "net_reachable nm" and "range_order (nm_peers nm) order"
  shows "\<exists>nm1. NetworkManager_Broadcast order msg nm = NReturns () nm1 \<and> nm_peers nm1 = nm_peers nm \<and>
    (\<forall>i. p_incoming (nm_store nm1 i) =
       (if i \<in> ran (nm_peers nm) \<and> length (p_incoming (nm_store nm i)) < 32 then p_incoming (nm_store nm i) @ [msg] else p_incoming (nm_store nm i))) \<and>
    (\<forall>a i. nm_peers nm1 a = Some i \<longrightarrow> p_Addr (nm_store nm1 i) = a \<and> \<not> p_quit (nm_store nm1 i)) \<and>
    (\<forall>i. length (p_incoming (nm_store nm1 i)) \<le> 32)"
  using net_reachable_inv [OF net_broadcast [OF assms Broadcast_result [OF net_reachable_inv [OF assms(1)] assms(2), of msg]]]
  unfolding Broadcast_result [OF net_reachable_inv [OF assms(1)] assms(2)] net_inv_def peers_ok_def
  by (auto simp: Peer_Send_def)

theorem broadcast_queues_witness:
  "\<exists>nm1. NetworkManager_Broadcast [''b''] \<lparr>msg_Type = ''m'', msg_Payload = Text ''hi''\<rparr> one_peer = NReturns () nm1 \<and>
     p_incoming (nm_store nm1 0) = [\<lparr>msg_Type = ''m'', msg_Payload = Text ''hi''\<rparr>]"
proof -
  have o: "range_order (nm_peers one_peer) [''b'']" by (simp add: range_order_def one_peer_def NewNetworkManager_def)
  have "p_incoming (nm_store one_peer 0) = []" "0 \<in> ran (nm_peers one_peer)" by (simp_all add: one_peer_def NewNetworkManager_def NewPeer_def)
  then show ?thesis using broadcast_queues [OF one_peer_reachable o, of "\<lparr>msg_Type = ''m'', msg_Payload = Text ''hi''\<rparr>"] by fastforce
qed

text \<open>Discovery dials a seed again although it is connected: the new connection takes the place of the old one in the map, and when the old one then ends, the
  address leaves the map with it, so that the new, open connection no longer gets any broadcast.\<close>

theorem redial_loses_peer:
  assumes "net_reachable nm" and "nm_isRunning nm" and "nm_peers nm seed = Some i" and "seed \<noteq> nm_localAddr nm"
  shows "\<exists>nm1 nm2. BasicDiscovery_discoverPeers (\<lambda>_. True) (NewBasicDiscovery [seed] True) nm = NReturns () nm1 \<and>
    nm_peers nm1 seed = Some (nm_next nm) \<and> Peer_readLoop False i nm1 = NReturns () nm2 \<and>
    nm_peers nm2 seed = None \<and> nm_next nm \<notin> ran (nm_peers nm2) \<and> \<not> p_quit (nm_store nm2 (nm_next nm))"
proof -
  have inv: "net_inv nm" by (rule net_reachable_inv [OF assms(1)])
  then have i: "i < nm_next nm" "p_Addr (nm_store nm i) = seed" "\<not> p_quit (nm_store nm i)" "\<not> nm_locked nm"
    and r: "nm_next nm \<notin> ran (nm_peers nm)"
    using assms(3) by (auto simp: net_inv_def peers_ok_def ran_def)
  obtain nm1 where n: "new_connection seed nm = NReturns () nm1" "net_inv nm1" "nm_peers nm1 = (nm_peers nm)(seed \<mapsto> nm_next nm)"
    "nm_store nm1 = (nm_store nm)(nm_next nm := NewPeer seed)"
    by (rule new_connection_inv [OF inv])
  have d: "BasicDiscovery_discoverPeers (\<lambda>_. True) (NewBasicDiscovery [seed] True) nm = NReturns () nm1"
    using n(1) i(4) assms(2,4) by (simp add: BasicDiscovery_discoverPeers_def NewBasicDiscovery_def NetworkManager_DialPeer_def)
  have "\<not> nm_locked nm1" using n(2) by (simp add: net_inv_def)
  then have "Peer_readLoop False i nm1 =
      NReturns () (nm1\<lparr>nm_store := (nm_store nm1)(i := (nm_store nm1 i)\<lparr>p_quit := True\<rparr>), nm_peers := (nm_peers nm1)(seed := None)\<rparr>)"
    using n(3,4) i by (simp add: Peer_readLoop_def Peer_Close_def NetworkManager_RemovePeer_def set_peer_def)
  with d n(3,4) i r show ?thesis by (auto simp: NewPeer_def ran_def)
qed

theorem redial_loses_peer_witness:
  "\<exists>nm1 nm2. BasicDiscovery_discoverPeers (\<lambda>_. True) (NewBasicDiscovery [''b''] True) one_peer = NReturns () nm1 \<and>
    Peer_readLoop False 0 nm1 = NReturns () nm2 \<and> nm_peers nm2 ''b'' = None \<and> \<not> p_quit (nm_store nm2 1)"
proof -
  have "nm_isRunning one_peer" "nm_peers one_peer ''b'' = Some 0" "''b'' \<noteq> nm_localAddr one_peer" "nm_next one_peer = 1"
    by (simp_all add: one_peer_def NewNetworkManager_def)
  with redial_loses_peer [OF one_peer_reachable] show ?thesis by (metis (no_types, lifting))
qed

end
