(* ===== verification/ApiTheory.thy ===== *)
theory ApiTheory
  imports WalletTheory MongoTheory
begin

text \<open>
  The REST API of \<open>api/server.go\<close>, \<open>api/transactions.go\<close>, \<open>api/wallets.go\<close> and \<open>api/token_supply.go\<close>, and the ledger and store wrappers of \<open>main.go\<close> behind it.

  A handler is a function of the decoded request and of the components it calls, which are those of \<open>TxManager\<close>, \<open>WalletTheory\<close>, \<open>TokenSupplyTheory\<close> and \<open>MongoTheory\<close>.
  A request body that cannot be decoded is \<open>None\<close>, and \<open>js\<close> says of a payload whether \<open>encoding/json\<close> can encode it. The router is a library: it is a parameter.
  Texts of errors and messages are kept up to the part that depends on the error.
\<close>

section \<open>Requests and responses\<close>

record TransactionResponse =
  tr_ID :: string
  tr_Sender :: string
  tr_Receiver :: string
  tr_Amount :: float64
  tr_Fee :: float64
  tr_Timestamp :: int
  tr_Status :: string
  tr_Nonce :: int
  tr_Data :: bytes


record TransactionFeeEstimateResponse =
  fe_EstimatedFee :: float64
  fe_MinimumFee :: float64
  fe_RecommendedFee :: float64
  fe_HighPriorityFee :: float64
  fe_CurrentNetworkLoad :: float64

record WalletResponse =
  wr_ID :: string
  wr_PublicKey :: string
  wr_Balance :: float64

record TokenSupplyResponse =
  sr_TotalSupply :: float64
  sr_CirculatingSupply :: float64
  sr_TreasuryBalance :: float64
  sr_TreasuryID :: string

text \<open>\<open>Block\<close> of \<open>storage/block.go\<close>, with the time in nanoseconds; its transactions are never set by the code.\<close>

record StorageBlock =
  sb_Number :: uint64
  sb_Timestamp :: int
  sb_PrevBlockHash :: string
  sb_BlockHash :: string

datatype body =
    BError string
  | BMessage string
  | BTransaction TransactionResponse
  | BTransactions "TransactionResponse list"
  | BTransactionStatus string string
  | BFees TransactionFeeEstimateResponse
  | BPoolStats nat TransactionStats
  | BNonce string int
  | BStatus uint64 float64
  | BAccount Account
  | BBlock Block
  | BStorageBlock StorageBlock
  | BWallet WalletResponse
  | BFunded string float64
  | BSupply TokenSupplyResponse

text \<open>A response is a JSON document or a plain text, with its status code.\<close>

datatype response = JSON int body | Plain int string

definition respondWithJSON :: "(body \<Rightarrow> bool) \<Rightarrow> int \<Rightarrow> body \<Rightarrow> response" where
  "respondWithJSON js code payload = (if js payload then JSON code payload else Plain 500 ''JSON marshal error'')"

definition respondWithError :: "(body \<Rightarrow> bool) \<Rightarrow> int \<Rightarrow> string \<Rightarrow> response" where
  "respondWithError js code message = respondWithJSON js code (BError message)"

text \<open>\<open>strconv.Atoi\<close>: a sign or none, then decimal digits, with a value of 64 bits.\<close>

fun decimal :: "int \<Rightarrow> string \<Rightarrow> int option" where
  "decimal acc [] = Some acc"
| "decimal acc (c # cs) =
     (let d = (of_char c :: int) - 48 in if 0 \<le> d \<and> d \<le> 9 then decimal (acc * 10 + d) cs else None)"

definition Atoi :: "string \<Rightarrow> int option" where
  "Atoi s =
     (let (sign, ds) = (case s of c # cs \<Rightarrow> if c = CHR ''-'' then (- 1, cs) else if c = CHR ''+'' then (1, cs) else (1, s) | [] \<Rightarrow> (1, [])) in
      if ds = [] then None
      else case decimal 0 ds of
        None \<Rightarrow> None
      | Some n \<Rightarrow> if - (2 ^ 63) \<le> sign * n \<and> sign * n < 2 ^ 63 then Some (sign * n) else None)"

text \<open>The number in a query parameter, or the default when it is missing, cannot be read or is too small.\<close>

definition query_number :: "int \<Rightarrow> int \<Rightarrow> string \<Rightarrow> int" where
  "query_number least dflt s =
     (if s = '''' then dflt else case Atoi s of None \<Rightarrow> dflt | Some n \<Rightarrow> if least \<le> n then n else dflt)"

definition transaction_response :: "string \<Rightarrow> Transaction \<Rightarrow> TransactionResponse" where
  "transaction_response status tx =
     \<lparr>tr_ID = tx_ID tx, tr_Sender = tx_Sender tx, tr_Receiver = tx_Receiver tx, tr_Amount = tx_Amount tx, tr_Fee = tx_Fee tx,
      tr_Timestamp = tx_Timestamp tx, tr_Status = status, tr_Nonce = tx_Nonce tx, tr_Data = tx_Data tx\<rparr>"

section \<open>Transactions\<close>


definition handleGetTransactionStatus :: "(body \<Rightarrow> bool) \<Rightarrow> 'l LedgerAPI \<Rightarrow> string \<Rightarrow> TransactionManager \<times> 'l \<Rightarrow> response" where
  "handleGetTransactionStatus js ledger txID st =
     (if txID = '''' then respondWithError js 400 ''Transaction ID is required''
      else case TransactionManager_GetTransactionStatus ledger txID st of
        (status, Some e) \<Rightarrow> respondWithError js 404 ''Transaction not found''
      | (status, None) \<Rightarrow> respondWithJSON js 200 (BTransactionStatus txID status))"

text \<open>The ledger of the API: the methods of its interface, and those it is asked for by the assertion to \<open>common.LedgerAPI\<close>, which are \<open>None\<close> when that fails.\<close>

record 'l ApiLedger =
  al_GetBlockByNumber :: "int \<Rightarrow> 'l \<Rightarrow> Block option"
  al_CreateSnapshot :: "int \<Rightarrow> 'l \<Rightarrow> ledger_error option \<times> 'l"
  al_RestoreSnapshot :: "int \<Rightarrow> 'l \<Rightarrow> ledger_error option \<times> 'l"
  al_GetTransaction :: "(string \<Rightarrow> 'l \<Rightarrow> ledger_error + Transaction) option"
  al_GetAccountTransactions :: "(string \<Rightarrow> int \<Rightarrow> int \<Rightarrow> 'l \<Rightarrow> ledger_error + Transaction list) option"

definition handleGetTransaction ::
  "(body \<Rightarrow> bool) \<Rightarrow> 'l ApiLedger \<Rightarrow> string list \<Rightarrow> string \<Rightarrow> TransactionManager \<times> 'l \<Rightarrow> response" where
  "handleGetTransaction js ledger ids txID st =
     (if txID = '''' then respondWithError js 400 ''Transaction ID is required''
      else case List.find (\<lambda>tx. tx_ID tx = txID) (TransactionManager_GetPendingTransactions ids (fst st)) of
        Some tx \<Rightarrow> respondWithJSON js 200 (BTransaction (transaction_response ''pending'' tx))
      | None \<Rightarrow>
          (case al_GetTransaction ledger of
             None \<Rightarrow> respondWithError js 500 ''Ledger API not available''
           | Some getTransaction \<Rightarrow>
               (case getTransaction txID (snd st) of
                  Inl e \<Rightarrow> respondWithError js 404 ''Transaction not found''
                | Inr tx \<Rightarrow> respondWithJSON js 200 (BTransaction (transaction_response ''committed'' tx)))))"

definition handleGetPendingTransactions :: "(body \<Rightarrow> bool) \<Rightarrow> string list \<Rightarrow> string \<Rightarrow> string \<Rightarrow> TransactionManager \<Rightarrow> response" where
  "handleGetPendingTransactions js ids limitStr accountID tm =
     (case (if accountID \<noteq> '''' then TransactionManager_GetPendingTransactionsByAccount ids accountID tm
            else Inr (TransactionManager_GetPendingTransactions ids tm)) of
        Inl e \<Rightarrow> respondWithError js 500 ''Failed to retrieve pending transactions''
      | Inr txs \<Rightarrow> respondWithJSON js 200 (BTransactions (map (transaction_response ''pending'') (take (nat (query_number 1 50 limitStr)) txs))))"

text \<open>The pending transactions come after those of the ledger, without a limit; an error in finding them is ignored.\<close>

definition handleGetAccountTransactions ::
  "(body \<Rightarrow> bool) \<Rightarrow> 'l ApiLedger \<Rightarrow> string list \<Rightarrow> string \<Rightarrow> string \<Rightarrow> string \<Rightarrow> TransactionManager \<times> 'l \<Rightarrow> response" where
  "handleGetAccountTransactions js ledger ids accountID limitStr offsetStr st =
     (if accountID = '''' then respondWithError js 400 ''Account ID is required''
      else case al_GetAccountTransactions ledger of
        None \<Rightarrow> respondWithError js 500 ''Ledger API not available''
      | Some getAccountTransactions \<Rightarrow>
          (case getAccountTransactions accountID (query_number 1 20 limitStr) (query_number 0 0 offsetStr) (snd st) of
             Inl e \<Rightarrow> respondWithError js 500 ''Failed to retrieve account transactions''
           | Inr txs \<Rightarrow>
               respondWithJSON js 200 (BTransactions (map (transaction_response ''committed'') txs @
                 map (transaction_response ''pending'')
                   (case TransactionManager_GetPendingTransactionsByAccount ids accountID (fst st) of Inl _ \<Rightarrow> [] | Inr pend \<Rightarrow> pend)))))"

definition handleEstimateTransactionFee :: "(body \<Rightarrow> bool) \<Rightarrow> float64 \<Rightarrow> TransactionManager \<Rightarrow> response" where
  "handleEstimateTransactionFee js networkLoad tm =
     (let baseFee = TransactionManager_EstimateFee tm in
      respondWithJSON js 200 (BFees \<lparr>fe_EstimatedFee = baseFee, fe_MinimumFee = f64_mul baseFee (rnd (4 / 5)), fe_RecommendedFee = baseFee,
        fe_HighPriorityFee = f64_mul baseFee (rnd (3 / 2)), fe_CurrentNetworkLoad = networkLoad\<rparr>))"

definition handleGetTransactionPoolStats :: "(body \<Rightarrow> bool) \<Rightarrow> TransactionManager \<Rightarrow> response" where
  "handleGetTransactionPoolStats js tm =
     respondWithJSON js 200 (BPoolStats (TransactionManager_GetPoolSize tm) (TransactionManager_GetStats tm))"

definition handleSuggestTransactionNonce :: "(body \<Rightarrow> bool) \<Rightarrow> string \<Rightarrow> TransactionManager \<Rightarrow> response" where
  "handleSuggestTransactionNonce js accountID tm =
     (if accountID = '''' then respondWithError js 400 ''Account ID is required''
      else respondWithJSON js 200 (BNonce accountID (TransactionManager_SuggestNonce accountID tm)))"

section \<open>The server\<close>

text \<open>The height is \<open>None\<close> when the consensus object has no \<open>GetLastBlockHeight\<close>.\<close>

definition handleStatus :: "(body \<Rightarrow> bool) \<Rightarrow> uint64 option \<Rightarrow> float64 \<Rightarrow> response" where
  "handleStatus js height networkLoad = respondWithJSON js 200 (BStatus (case height of Some h \<Rightarrow> h | None \<Rightarrow> 0) networkLoad)"

definition handleGetAccount :: "(body \<Rightarrow> bool) \<Rightarrow> string \<Rightarrow> accounts \<Rightarrow> response" where
  "handleGetAccount js accountID accs =
     (case GetAccount accountID accs of
        None \<Rightarrow> respondWithError js 404 (''Account '' @ accountID @ '' not found'')
      | Some account \<Rightarrow> respondWithJSON js 200 (BAccount account))"

definition handleGetBlock :: "(body \<Rightarrow> bool) \<Rightarrow> 'l ApiLedger \<Rightarrow> string \<Rightarrow> 'l \<Rightarrow> response" where
  "handleGetBlock js ledger numStr l =
     (case Atoi numStr of
        None \<Rightarrow> respondWithError js 400 ''Invalid block number''
      | Some num \<Rightarrow>
          (case al_GetBlockByNumber ledger num l of
             None \<Rightarrow> respondWithError js 404 (''Block '' @ fmt_d num @ '' not found'')
           | Some block \<Rightarrow> respondWithJSON js 200 (BBlock block)))"

definition handleCreateSnapshot :: "(body \<Rightarrow> bool) \<Rightarrow> 'l ApiLedger \<Rightarrow> string \<Rightarrow> 'l \<Rightarrow> response \<times> 'l" where
  "handleCreateSnapshot js ledger heightStr l =
     (case Atoi heightStr of
        None \<Rightarrow> (respondWithError js 400 ''Invalid snapshot height'', l)
      | Some height \<Rightarrow>
          (case al_CreateSnapshot ledger height l of
             (Some e, l1) \<Rightarrow> (respondWithError js 500 ''Snapshot creation failed'', l1)
           | (None, l1) \<Rightarrow> (respondWithJSON js 200 (BMessage (''Snapshot created at height '' @ fmt_d height)), l1)))"

definition handleRestoreSnapshot :: "(body \<Rightarrow> bool) \<Rightarrow> 'l ApiLedger \<Rightarrow> string \<Rightarrow> 'l \<Rightarrow> response \<times> 'l" where
  "handleRestoreSnapshot js ledger heightStr l =
     (case Atoi heightStr of
        None \<Rightarrow> (respondWithError js 400 ''Invalid snapshot height'', l)
      | Some height \<Rightarrow>
          (case al_RestoreSnapshot ledger height l of
             (Some e, l1) \<Rightarrow> (respondWithError js 500 ''Snapshot restore failed'', l1)
           | (None, l1) \<Rightarrow> (respondWithJSON js 200 (BMessage (''Ledger restored to snapshot at height '' @ fmt_d height)), l1)))"

text \<open>A negative number becomes a large block number.\<close>

definition handleStorageGetBlock :: "(body \<Rightarrow> bool) \<Rightarrow> (uint64 \<Rightarrow> ledger_error + StorageBlock) \<Rightarrow> string \<Rightarrow> response" where
  "handleStorageGetBlock js getBlock numStr =
     (case Atoi numStr of
        None \<Rightarrow> respondWithError js 400 ''Invalid block number''
      | Some num \<Rightarrow>
          (case getBlock (word_of_int num) of
             Inl e \<Rightarrow> respondWithError js 404 (''Block '' @ fmt_d num @ '' not found in storage'')
           | Inr block \<Rightarrow> respondWithJSON js 200 (BStorageBlock block)))"

section \<open>Wallets and the token supply\<close>

definition DefaultInitialFunding :: float64 where
  "DefaultInitialFunding = Fin 100"

definition encodeToHex :: "bytes \<Rightarrow> string" where
  "encodeToHex data = hex_encode data"

text \<open>A failure to fund the wallet, or to read its balance, does not end the request. The outer \<open>None\<close> is a panic.\<close>

definition handleCreateWallet ::
  "(body \<Rightarrow> bool) \<Rightarrow> wallet_env \<Rightarrow> aead_seal \<Rightarrow> bytes option \<Rightarrow> string \<Rightarrow> TokenSupply \<times> accounts \<Rightarrow> (response \<times> TokenSupply \<times> accounts) option" where
  "handleCreateWallet js wenv seal rand encKey = (\<lambda>(ts, accs).
     case NewWallet wenv of
       None \<Rightarrow> None
     | Some (Inl e) \<Rightarrow> Some (Plain 500 ''Failed to create wallet'', ts, accs)
     | Some (Inr newWallet) \<Rightarrow>
         (case Wallet_RegisterAccount seal rand encKey newWallet accs of
            None \<Rightarrow> None
          | Some (Some e, accs1) \<Rightarrow> Some (Plain 500 ''Failed to register wallet account'', ts, accs1)
          | Some (None, accs1) \<Rightarrow>
              let (ts2, accs2) = snd (TokenSupply_FundNewWallet (w_ID newWallet) DefaultInitialFunding (ts, accs1));
                  balance = (case Wallet_GetBalance newWallet accs2 of Inl e \<Rightarrow> f64_0 | Inr b \<Rightarrow> b) in
              (case w_SigKeyPair newWallet of
                 None \<Rightarrow> None
               | Some sig \<Rightarrow>
                   Some (respondWithJSON js 201 (BWallet \<lparr>wr_ID = w_ID newWallet, wr_PublicKey = encodeToHex (kp_PublicKey sig), wr_Balance = balance\<rparr>),
                         ts2, accs2))))"

definition handleFundWallet :: "(body \<Rightarrow> bool) \<Rightarrow> string \<Rightarrow> float64 option \<Rightarrow> TokenSupply \<times> accounts \<Rightarrow> response \<times> TokenSupply \<times> accounts" where
  "handleFundWallet js walletID body st =
     (case GetAccount walletID (snd st) of
        None \<Rightarrow> (respondWithError js 404 (''Wallet '' @ walletID @ '' not found''), st)
      | Some account \<Rightarrow>
          (case body of
             None \<Rightarrow> (respondWithError js 400 ''Invalid request payload'', st)
           | Some amount \<Rightarrow>
               if f64_le amount f64_0 then (respondWithError js 400 ''Amount must be positive'', st)
               else case TokenSupply_FundNewWallet walletID amount st of
                 (Some e, st1) \<Rightarrow> (respondWithError js 500 ''Failed to fund wallet'', st1)
               | (None, st1) \<Rightarrow>
                   (case GetAccount walletID (snd st1) of
                      None \<Rightarrow> (respondWithError js 500 ''Failed to retrieve updated account'', st1)
                    | Some updatedAccount \<Rightarrow> (respondWithJSON js 200 (BFunded walletID (acc_Balance updatedAccount)), st1))))"

definition handleGetTokenSupply :: "(body \<Rightarrow> bool) \<Rightarrow> TokenSupply \<times> accounts \<Rightarrow> response" where
  "handleGetTokenSupply js st =
     respondWithJSON js 200 (BSupply \<lparr>sr_TotalSupply = ts_totalSupply (fst st), sr_CirculatingSupply = ts_circulatingSupply (fst st),
       sr_TreasuryBalance = TokenSupply_GetTreasuryBalance st, sr_TreasuryID = ts_treasuryID (fst st)\<rparr>)"

section \<open>The node's ledger and store\<close>

text \<open>\<open>MongoLedgerWrapper\<close> of \<open>main.go\<close> answers the methods the ledger lacks with fixed values and forwards the others.\<close>

definition MongoLedgerWrapper_GetAccountTransactions :: "string \<Rightarrow> int \<Rightarrow> int \<Rightarrow> MongoLedger \<times> 'db \<Rightarrow> ledger_error + Transaction list" where
  "MongoLedgerWrapper_GetAccountTransactions accountID limit offset l = Inr []"

definition MongoLedgerWrapper_GetBlockHeight :: "MongoLedger \<times> 'db \<Rightarrow> ledger_error + int" where
  "MongoLedgerWrapper_GetBlockHeight l = Inr 0"

definition MongoLedgerWrapper_GetBlocksByRange :: "int \<Rightarrow> int \<Rightarrow> MongoLedger \<times> 'db \<Rightarrow> ledger_error + Block list" where
  "MongoLedgerWrapper_GetBlocksByRange startNum endNum l = Inr []"

definition MongoLedgerWrapper_GetTransaction :: "string \<Rightarrow> MongoLedger \<times> 'db \<Rightarrow> ledger_error + Transaction" where
  "MongoLedgerWrapper_GetTransaction txID l = Inl (LErrNew ''transaction not found'')"

definition MongoLedgerWrapper_GetLastBlockHash :: "MongoLedger \<times> 'db \<Rightarrow> ledger_error + string" where
  "MongoLedgerWrapper_GetLastBlockHash l = Inr (replicate 64 CHR ''0'')"

definition MongoLedgerWrapper ::
  "'db Mongo \<Rightarrow> ((string \<times> AccountDoc) list \<Rightarrow> bytes option) \<Rightarrow> int \<Rightarrow> (MongoLedger \<times> 'db) ApiLedger" where
  "MongoLedgerWrapper mg root_js now =
     \<lparr>al_GetBlockByNumber = (\<lambda>num l. MongoLedger_GetBlockByNumber mg num (snd l)),
      al_CreateSnapshot = (\<lambda>height l. case MongoLedger_CreateSnapshot mg root_js now height (snd l) of (e, db) \<Rightarrow> (e, fst l, db)),
      al_RestoreSnapshot = MongoLedger_RestoreSnapshot mg,
      al_GetTransaction = Some MongoLedgerWrapper_GetTransaction,
      al_GetAccountTransactions = Some MongoLedgerWrapper_GetAccountTransactions\<rparr>"

definition StoreWrapper_GetBlock :: "'db MongoBlocks \<Rightarrow> uint64 \<Rightarrow> 'db \<Rightarrow> ledger_error + StorageBlock" where
  "StoreWrapper_GetBlock mb blockNumber db =
     (case MongoStore_GetBlock mb blockNumber db of
        Inl e \<Rightarrow> Inl e
      | Inr b \<Rightarrow> Inr \<lparr>sb_Number = blockNumber, sb_Timestamp = blk_Timestamp b * second, sb_PrevBlockHash = blk_PreviousHash b, sb_BlockHash = blk_Hash b\<rparr>)"

definition StoreWrapper_SaveBlock :: "'db MongoBlocks \<Rightarrow> StorageBlock \<Rightarrow> 'db \<Rightarrow> ledger_error option \<times> 'db" where
  "StoreWrapper_SaveBlock mb b db =
     MongoStore_SaveBlock mb \<lparr>blk_Number = sint (sb_Number b), blk_PreviousHash = sb_PrevBlockHash b, blk_Hash = sb_BlockHash b, blk_Transactions = [],
       blk_Timestamp = unix (sb_Timestamp b), blk_Validator = '''', blk_MerkleRoot = ''''\<rparr> db"

section \<open>Routes\<close>

datatype http_method = GET | POST

datatype endpoint =
    EStatus | EGetAccount | EGetBlock | ESubmitTransaction | EGetTransactionStatus | EGetTransaction | EGetPendingTransactions | EGetAccountTransactions
  | EEstimateTransactionFee | EGetTransactionPoolStats | ESuggestTransactionNonce | ECreateWallet | EFundWallet | EGetTokenSupply | ECreateSnapshot
  | ERestoreSnapshot | EStorageGetBlock

type_synonym route = "http_method \<times> string \<times> endpoint"

definition RegisterTransactionRoutes :: "route list" where
  "RegisterTransactionRoutes =
     [(POST, ''/transactions'', ESubmitTransaction),
      (GET, ''/transactions/{id}/status'', EGetTransactionStatus),
      (GET, ''/transactions/{id}'', EGetTransaction),
      (GET, ''/transactions/pending'', EGetPendingTransactions),
      (GET, ''/accounts/{id}/transactions'', EGetAccountTransactions),
      (GET, ''/transactions/fee/estimate'', EEstimateTransactionFee),
      (GET, ''/transactions/pool/stats'', EGetTransactionPoolStats),
      (GET, ''/accounts/{id}/nonce'', ESuggestTransactionNonce)]"

definition StartServer_routes :: "route list" where
  "StartServer_routes =
     [(GET, ''/status'', EStatus), (GET, ''/accounts/{id}'', EGetAccount), (GET, ''/blocks/{number}'', EGetBlock)] @
     RegisterTransactionRoutes @
     [(POST, ''/wallets'', ECreateWallet), (POST, ''/wallets/{id}/fund'', EFundWallet), (GET, ''/token-supply'', EGetTokenSupply),
      (GET, ''/ledger/snapshot/{height}'', ECreateSnapshot), (POST, ''/ledger/restore/{height}'', ERestoreSnapshot),
      (GET, ''/storage/block/{number}'', EStorageGetBlock)]"

text \<open>What \<open>gorilla/mux\<close> documents of a router, for paths that need no cleaning: routes are tested in the order they were added and the first that matches is taken; a
  pattern without variables matches itself only, and a variable without a regular expression matches one segment, that is a nonempty text without a slash.\<close>

record mux =
  mux_match :: "string \<Rightarrow> string \<Rightarrow> bool"
  mux_dispatch :: "route list \<Rightarrow> http_method \<Rightarrow> string \<Rightarrow> endpoint option"

definition clean_path :: "string \<Rightarrow> bool" where
  "clean_path p \<longleftrightarrow> CHR ''.'' \<notin> set p \<and> successively (\<lambda>c d. \<not> (c = CHR ''/'' \<and> d = CHR ''/'')) p"

definition plain_text :: "string \<Rightarrow> bool" where
  "plain_text s \<longleftrightarrow> CHR ''{'' \<notin> set s \<and> CHR ''}'' \<notin> set s"

definition documented_mux :: "mux \<Rightarrow> bool" where
  "documented_mux m \<longleftrightarrow>
     (\<forall>routes meth p. clean_path p \<longrightarrow> mux_dispatch m routes meth p =
        map_option (\<lambda>(_, _, e). e) (List.find (\<lambda>(meth', pat, _). meth' = meth \<and> mux_match m pat p) routes)) \<and>
     (\<forall>pat p. plain_text pat \<longrightarrow> (mux_match m pat p \<longleftrightarrow> p = pat)) \<and>
     (\<forall>pre x post p. plain_text pre \<longrightarrow> plain_text x \<longrightarrow> plain_text post \<longrightarrow> CHR '':'' \<notin> set x \<longrightarrow>
        (mux_match m (pre @ ''{'' @ x @ ''}'' @ post) p \<longleftrightarrow> (\<exists>v. v \<noteq> [] \<and> CHR ''/'' \<notin> set v \<and> p = pre @ v @ post)))"

section \<open>What the transaction endpoints serve\<close>

text \<open>The scan of the pending transactions finds what the pool has under the ID.\<close>

lemma find_pending:
  assumes "pool_inv n (tm_pool tm)" and "range_order (tp_txMap (tm_pool tm)) ids"
  shows "List.find (\<lambda>tx. tx_ID tx = txID) (TransactionManager_GetPendingTransactions ids tm) =
    (case TransactionPool_GetTransaction txID (tm_pool tm) of Inl _ \<Rightarrow> None | Inr tx \<Rightarrow> Some tx)"
proof -
  let ?txs = "TransactionManager_GetPendingTransactions ids tm"
  have key: "tx_ID (ti_tx (tp_store (tm_pool tm) r)) = i" if "tp_txMap (tm_pool tm) i = Some r" for i r
    using assms(1) that by (auto simp: pool_inv_def)
  have sub: "tx \<in> set ?txs \<Longrightarrow> TransactionPool_GetTransaction (tx_ID tx) (tm_pool tm) = Inr tx" for tx
    using assms(2) key
    by (auto simp: TransactionManager_GetPendingTransactions_def TransactionPool_GetAllTransactions_def TransactionPool_GetTransaction_def range_order_def dom_def)
  show ?thesis
  proof (cases "TransactionPool_GetTransaction txID (tm_pool tm)")
    case (Inl e)
    then have "\<forall>tx\<in>set ?txs. tx_ID tx \<noteq> txID" using sub by force
    then show ?thesis using Inl by (simp add: find_None_iff)
  next
    case (Inr tx)
    then obtain r where r: "tp_txMap (tm_pool tm) txID = Some r" "tx = ti_tx (tp_store (tm_pool tm) r)"
      by (auto simp: TransactionPool_GetTransaction_def split: option.splits)
    then have "tx \<in> set ?txs" "tx_ID tx = txID"
      using assms(2) key
      by (force simp: TransactionManager_GetPendingTransactions_def TransactionPool_GetAllTransactions_def range_order_def dom_def)+
    then obtain tx' where "List.find (\<lambda>tx. tx_ID tx = txID) ?txs = Some tx'" by (cases "List.find (\<lambda>tx. tx_ID tx = txID) ?txs") (auto simp: find_None_iff)
    moreover from this have "tx' \<in> set ?txs" "tx_ID tx' = txID" by (auto simp: find_Some_iff)
    ultimately show ?thesis using sub [of tx'] Inr by simp
  qed
qed

lemma served_transaction:
  assumes "manager_inv n tm" and "range_order (tp_txMap (tm_pool tm)) ids" and "txID \<noteq> []"
  shows "handleGetTransaction js ledger ids txID (tm, l) =
    (case TransactionPool_GetTransaction txID (tm_pool tm) of
       Inr tx \<Rightarrow> respondWithJSON js 200 (BTransaction (transaction_response ''pending'' tx))
     | Inl _ \<Rightarrow>
         (case al_GetTransaction ledger of
            None \<Rightarrow> respondWithError js 500 ''Ledger API not available''
          | Some get \<Rightarrow>
              (case get txID l of
                 Inl _ \<Rightarrow> respondWithError js 404 ''Transaction not found''
               | Inr tx \<Rightarrow> respondWithJSON js 200 (BTransaction (transaction_response ''committed'' tx)))))"
  using assms find_pending [OF _ assms(2), of n txID]
  by (simp add: handleGetTransaction_def manager_inv_def split: sum.splits option.splits)





section \<open>What the routes reach\<close>

lemma plain_texts:
  "plain_text ''/status''" "plain_text ''/accounts/''" "plain_text ''id''" "plain_text ''''" "plain_text ''/blocks/''" "plain_text ''number''"
  "plain_text ''/transactions/''" "plain_text ''/transactions/pending''"
  by (simp_all add: plain_text_def)

lemma pending_dispatch:
  assumes m: "documented_mux m"
  shows "mux_dispatch m StartServer_routes GET ''/transactions/pending'' = Some EGetTransaction"
proof -
  have lit: "mux_match m ''/status'' p \<longleftrightarrow> p = ''/status''" for p using m plain_texts by (simp add: documented_mux_def)
  have var: "mux_match m (pre @ ''{'' @ x @ ''}'' @ post) p \<longleftrightarrow> (\<exists>v. v \<noteq> [] \<and> CHR ''/'' \<notin> set v \<and> p = pre @ v @ post)"
    if "plain_text pre" "plain_text x" "plain_text post" "CHR '':'' \<notin> set x" for pre x post p
    using m that unfolding documented_mux_def by blast
  let ?p = "''/transactions/pending''"
  have no: "\<not> mux_match m ''/status'' ?p" "\<not> mux_match m ''/accounts/{id}'' ?p" "\<not> mux_match m ''/blocks/{number}'' ?p"
    using lit var [of "''/accounts/''" "''id''" "''''" ?p] var [of "''/blocks/''" "''number''" "''''" ?p] by (simp_all add: plain_texts)
  have st: "\<not> mux_match m ''/transactions/{id}/status'' ?p"
  proof
    assume "mux_match m ''/transactions/{id}/status'' ?p"
    then obtain v where "''pending'' = v @ ''/status''"
      using var [of "''/transactions/''" "''id''" "''/status''" ?p] by (auto simp: plain_texts)
    then have "CHR ''/'' \<in> set ''pending''" by (metis in_set_conv_decomp append_Cons)
    then show False by simp
  qed
  have yes: "mux_match m ''/transactions/{id}'' ?p"
    using var [of "''/transactions/''" "''id''" "''''" ?p] by (simp add: plain_texts)
  have "clean_path ?p" by (simp add: clean_path_def)
  with m have "mux_dispatch m StartServer_routes GET ?p =
      map_option (\<lambda>(_, _, e). e) (List.find (\<lambda>(meth', pat, _). meth' = GET \<and> mux_match m pat ?p) StartServer_routes)"
    unfolding documented_mux_def by blast
  then show ?thesis using no st yes by (simp add: StartServer_routes_def RegisterTransactionRoutes_def)
qed

text \<open>No request reaches the list of pending transactions: \<open>/transactions/{id}\<close> is registered before \<open>/transactions/pending\<close> and takes its path. The request is
  answered as one for a transaction with the ID "pending", and since no such transaction exists and the node's ledger finds none, always with 404.\<close>

theorem pending_list_unreachable:
  assumes "documented_mux m" and "manager_reachable ledger n (tm, l)" and "int (Suc n) < 2 ^ 63"
    and "range_order (tp_txMap (tm_pool tm)) ids" and "\<And>payload. js payload"
  shows "mux_dispatch m StartServer_routes GET ''/transactions/pending'' = Some EGetTransaction \<and>
    (clean_path p \<longrightarrow> mux_dispatch m StartServer_routes meth p \<noteq> Some EGetPendingTransactions) \<and>
    handleGetTransaction js (MongoLedgerWrapper mg root_js now) ids ''pending'' (tm, ml) = JSON 404 (BError ''Transaction not found'')"
proof (intro conjI impI notI)
  show d: "mux_dispatch m StartServer_routes GET ''/transactions/pending'' = Some EGetTransaction" by (rule pending_dispatch [OF assms(1)])
  show False if p: "clean_path p" "mux_dispatch m StartServer_routes meth p = Some EGetPendingTransactions"
  proof -
    obtain route where f: "List.find (\<lambda>(meth', pat, _). meth' = meth \<and> mux_match m pat p) StartServer_routes = Some route" "snd (snd route) = EGetPendingTransactions"
      using p assms(1) by (auto simp: documented_mux_def split: option.splits)
    then have "route \<in> set StartServer_routes" "fst route = meth" "mux_match m (fst (snd route)) p" by (auto simp: find_Some_iff intro: nth_mem dest: nth_mem)
    then have "meth = GET" "mux_match m ''/transactions/pending'' p"
      using f(2) by (auto simp: StartServer_routes_def RegisterTransactionRoutes_def)
    then have "p = ''/transactions/pending''" using assms(1) plain_texts(8) unfolding documented_mux_def by blast
    then show False using p(2) d \<open>meth = GET\<close> by simp
  qed
  have "''pending'' \<notin> dom (tp_txMap (tm_pool tm))"
    using manager_long_ids [OF assms(2,3)] by (force simp: long_ids_def)
  then have "TransactionPool_GetTransaction ''pending'' (tm_pool tm) = Inl ErrTxNotFound" by (simp add: TransactionPool_GetTransaction_def domIff)
  then show "handleGetTransaction js (MongoLedgerWrapper mg root_js now) ids ''pending'' (tm, ml) = JSON 404 (BError ''Transaction not found'')"
    using assms(5)
    by (simp add: served_transaction [OF manager_reachable_inv [OF assms(2,3), simplified] assms(4)] MongoLedgerWrapper_def MongoLedgerWrapper_GetTransaction_def respondWithError_def respondWithJSON_def)
qed


text \<open>A router with the documented behaviour.\<close>

definition mux_example_match :: "string \<Rightarrow> string \<Rightarrow> bool" where
  "mux_example_match pat p =
     (let pre = takeWhile (\<lambda>c. c \<noteq> CHR ''{'') pat; rest = drop (length pre) pat in
      if rest = [] then p = pat
      else let post = drop 1 (dropWhile (\<lambda>c. c \<noteq> CHR ''}'') rest);
               v = take (length p - length pre - length post) (drop (length pre) p) in
           v \<noteq> [] \<and> CHR ''/'' \<notin> set v \<and> p = pre @ v @ post)"

definition mux_example :: mux where
  "mux_example = \<lparr>mux_match = mux_example_match,
     mux_dispatch = (\<lambda>routes meth p. map_option (\<lambda>(_, _, e). e) (List.find (\<lambda>(meth', pat, _). meth' = meth \<and> mux_example_match pat p) routes))\<rparr>"

lemma mux_example_literal: "plain_text pat \<Longrightarrow> mux_example_match pat p \<longleftrightarrow> p = pat"
proof -
  assume "plain_text pat"
  then have t: "takeWhile (\<lambda>c. c \<noteq> CHR ''{'') pat = pat" by (auto simp: plain_text_def takeWhile_eq_all_conv)
  show ?thesis unfolding mux_example_match_def Let_def t by simp
qed

lemma mux_example_variable:
  assumes "plain_text pre" and "plain_text x" and "plain_text post"
  shows "mux_example_match (pre @ ''{'' @ x @ ''}'' @ post) p \<longleftrightarrow> (\<exists>v. v \<noteq> [] \<and> CHR ''/'' \<notin> set v \<and> p = pre @ v @ post)"
proof -
  have pre: "takeWhile (\<lambda>c. c \<noteq> CHR ''{'') (pre @ ''{'' @ x @ ''}'' @ post) = pre"
    using assms(1) by (subst takeWhile_append2) (auto simp: plain_text_def)
  have "dropWhile (\<lambda>c. c \<noteq> CHR ''}'') (''{'' @ x @ ''}'' @ post) = ''}'' @ post"
    using assms(2) by (simp add: plain_text_def) (subst dropWhile_append2, auto)
  then have m: "mux_example_match (pre @ ''{'' @ x @ ''}'' @ post) p \<longleftrightarrow>
      (let v = take (length p - length pre - length post) (drop (length pre) p) in v \<noteq> [] \<and> CHR ''/'' \<notin> set v \<and> p = pre @ v @ post)"
    unfolding mux_example_match_def Let_def pre by simp
  show ?thesis unfolding m Let_def by (rule iffI, blast) auto
qed

lemma mux_example_documented: "documented_mux mux_example"
  unfolding documented_mux_def mux_example_def by (simp add: mux_example_literal mux_example_variable del: append.simps)

lemma example_manager_empty: "tp_txMap (tm_pool example_manager) = Map.empty"
  by (simp add: example_manager_def NewTransactionManager_def WithCryptoManager_def WithMaxTransactionAge_def example_pool_defs)

theorem pending_list_unreachable_witness:
  "mux_dispatch mux_example StartServer_routes GET ''/transactions/pending'' = Some EGetTransaction"
  by (rule conjunct1 [OF pending_list_unreachable [OF mux_example_documented example_manager_reachable, where ids = "[]" and js = "\<lambda>_. True"]])
    (simp_all add: range_order_def example_manager_empty)

section \<open>Committed transactions\<close>

text \<open>The node's ledger never hands out a committed transaction: for a transaction that is recorded in the database and no longer pending, the status endpoint
  answers \<open>Committed\<close>, while the transaction endpoint answers 404; the history of an account consists of its pending transactions only.\<close>

theorem committed_not_served:
  assumes "manager_reachable (mongo_ledger mg) n (tm, db)" and "int (Suc n) < 2 ^ 63"
    and "range_order (tp_txMap (tm_pool tm)) ids" and "\<And>payload. js payload"
    and "txID \<noteq> ''''" and "\<not> TransactionPool_HasTransaction txID (tm_pool tm)" and "MongoLedger_IsTransactionCommitted mg txID db" and "account \<noteq> ''''"
  shows "handleGetTransactionStatus js (mongo_ledger mg) txID (tm, db) = JSON 200 (BTransactionStatus txID ''Committed'') \<and>
    handleGetTransaction js (MongoLedgerWrapper mg root_js now) ids txID (tm, ml, db) = JSON 404 (BError ''Transaction not found'') \<and>
    handleGetAccountTransactions js (MongoLedgerWrapper mg root_js now) ids account limit offset (tm, ml, db) =
      JSON 200 (BTransactions (map (transaction_response ''pending'')
        (filter (\<lambda>tx. tx_Sender tx = account \<or> tx_Receiver tx = account) (TransactionManager_GetPendingTransactions ids tm))))"
proof (intro conjI)
  show "handleGetTransactionStatus js (mongo_ledger mg) txID (tm, db) = JSON 200 (BTransactionStatus txID ''Committed'')"
    using assms by (simp add: handleGetTransactionStatus_def TransactionManager_GetTransactionStatus_def mongo_ledger_def respondWithJSON_def)
  have "TransactionPool_GetTransaction txID (tm_pool tm) = Inl ErrTxNotFound"
    using assms(6) by (simp add: TransactionPool_GetTransaction_def TransactionPool_HasTransaction_def)
  then show "handleGetTransaction js (MongoLedgerWrapper mg root_js now) ids txID (tm, ml, db) = JSON 404 (BError ''Transaction not found'')"
    using assms(4) by (simp add: served_transaction [OF manager_reachable_inv [OF assms(1,2), simplified] assms(3,5)] MongoLedgerWrapper_def
        MongoLedgerWrapper_GetTransaction_def respondWithError_def respondWithJSON_def)
  show "handleGetAccountTransactions js (MongoLedgerWrapper mg root_js now) ids account limit offset (tm, ml, db) =
      JSON 200 (BTransactions (map (transaction_response ''pending'')
        (filter (\<lambda>tx. tx_Sender tx = account \<or> tx_Receiver tx = account) (TransactionManager_GetPendingTransactions ids tm))))"
    using assms(4,8) by (simp add: handleGetAccountTransactions_def MongoLedgerWrapper_def MongoLedgerWrapper_GetAccountTransactions_def
        TransactionManager_GetPendingTransactionsByAccount_def respondWithJSON_def)
qed

definition one_transaction :: "unit Mongo" where
  "one_transaction = \<lparr>mg_createIndexes = (\<lambda>db. (None, db)), mg_lastBlock = (\<lambda>db. Inl ErrNoDocuments), mg_findAccount = (\<lambda>a db. Inl ErrNoDocuments),
      mg_insertAccount = (\<lambda>d db. (None, db)), mg_setAccount = (\<lambda>a k b n db. (None, db)), mg_incBalance = (\<lambda>a x db. (Inr 0, db)),
      mg_allAccounts = (\<lambda>db. Inr []), mg_replaceAccounts = (\<lambda>xs db. (None, db)),
      mg_findTransaction = (\<lambda>t db. if t = ''t'' then Inr \<lparr>td_txHash = ''t'', td_from = ''a'', td_to = ''b'', td_amount = Fin 1, td_timestamp = 0,
         td_signature = [], td_nonce = 1, td_blockHeight = 1, td_status = ''committed''\<rparr> else Inl ErrNoDocuments),
      mg_insertTransaction = (\<lambda>t db. (None, db)), mg_commitTransactionDoc = (\<lambda>t n s db. (None, db)), mg_findBlock = (\<lambda>n db. Inl ErrNoDocuments),
      mg_insertBlock = (\<lambda>b db. (None, db)), mg_countBlocks = (\<lambda>db. Inr 0), mg_findSnapshot = (\<lambda>h db. Inl ErrNoDocuments),
      mg_insertSnapshot = (\<lambda>s db. (None, db)), mg_findContract = (\<lambda>c db. Inl ErrNoDocuments), mg_insertContract = (\<lambda>c db. (None, db)),
      mg_deleteContract = (\<lambda>c db. (None, db)), mg_startSession = (\<lambda>db. None), mg_startTransaction = (\<lambda>db. None),
      mg_commitTransaction = (\<lambda>s db. (None, s))\<rparr>"

lemma example_manager_any: "manager_reachable ledger 0 (example_manager, l)"
proof -
  have "NewTransactionPool 0
     (\<lambda>_. \<lparr>ti_tx = example_tx [] 0, ti_priority = 0, ti_index = 0, ti_insertTime = 0, ti_size = 0\<rparr>)
     4 hour f64_0 (Fin 10) hour [WithKeyManager False, WithConflictResolution True] = Some (example_pool 4)"
    by (simp add: example_pool_def NewTransactionPool_def)
  then show ?thesis unfolding example_manager_def by (rule manager_reachable.new) (simp add: manager_options_def)
qed

theorem committed_not_served_witness:
  "handleGetTransactionStatus (\<lambda>_. True) (mongo_ledger one_transaction) ''t'' (example_manager, ()) = JSON 200 (BTransactionStatus ''t'' ''Committed'') \<and>
   handleGetTransaction (\<lambda>_. True) (MongoLedgerWrapper one_transaction (\<lambda>_. None) 0) [] ''t'' (example_manager, \<lparr>ml_currentHeight = 1\<rparr>, ()) =
     JSON 404 (BError ''Transaction not found'')"
proof -
  have pre: "int (Suc 0) < 2 ^ 63" "range_order (tp_txMap (tm_pool example_manager)) []" "\<not> TransactionPool_HasTransaction ''t'' (tm_pool example_manager)"
      "MongoLedger_IsTransactionCommitted one_transaction ''t'' ()"
    by (simp_all add: range_order_def example_manager_empty TransactionPool_HasTransaction_def MongoLedger_IsTransactionCommitted_def one_transaction_def)
  show ?thesis
    using committed_not_served [OF example_manager_any pre(1,2) TrueI _ pre(3,4), of "''a''" "\<lambda>_. None" 0 "\<lparr>ml_currentHeight = 1\<rparr>"]
    by simp
qed

section \<open>The faucet\<close>

text \<open>Anyone can raise the circulating supply without moving a token: \<open>GET /token-supply\<close> names the treasury, and \<open>POST /wallets/{id}/fund\<close> with that ID and
  any whole amount up to the balance of the treasury answers 200, leaves every balance as it was and counts the amount as circulating. The request can be repeated.\<close>

theorem faucet_inflates:
  assumes "supply_inv T E d v (ts, accs)" and "accs (ts_treasuryID ts) = Some t" and "0 < n" and "n \<le> bal_int t" and "\<And>payload. js payload"
    and "handleGetTokenSupply js (ts, accs) = JSON 200 (BSupply r)"
  shows "handleFundWallet js (sr_TreasuryID r) (Some (Fin (of_int n))) (ts, accs) =
    (JSON 200 (BFunded (sr_TreasuryID r) (acc_Balance t)), ts\<lparr>ts_circulatingSupply := f64_add (ts_circulatingSupply ts) (Fin (of_int n))\<rparr>, accs)"
proof -
  have tab: "whole_table accs" using assms(1) by (simp add: supply_inv_def)
  note self_transfers(1) [OF tab assms(2-4)]
  moreover have "sr_TreasuryID r = ts_treasuryID ts" using assms(6,5) by (auto simp: handleGetTokenSupply_def respondWithJSON_def)
  ultimately show ?thesis
    using assms(2,3,5) by (simp add: handleFundWallet_def GetAccount_def Fund_is_Mint respondWithJSON_def)
qed


theorem faucet_inflates_witness:
  "\<exists>ts accs r. handleGetTokenSupply (\<lambda>_. True) (ts, accs) = JSON 200 (BSupply r) \<and>
     snd (snd (handleFundWallet (\<lambda>_. True) (sr_TreasuryID r) (Some (Fin 30)) (ts, accs))) = accs \<and>
     ts_circulatingSupply (fst (snd (handleFundWallet (\<lambda>_. True) (sr_TreasuryID r) (Some (Fin 30)) (ts, accs)))) \<noteq> ts_circulatingSupply ts"
proof -
  let ?i = "TokenSupply_Initialize 1 1 (Fin (of_int 100)) ''T'' (GetTokenSupply, Map.empty)"
  obtain ts accs where i: "?i = (None, ts, accs)" "ts_treasuryID ts = ''T''" "ts_circulatingSupply ts = f64_0"
      "\<exists>t. accs ''T'' = Some t \<and> acc_Balance t = Fin (of_int 100)"
    by (simp add: TokenSupply_Initialize_def GetAccount_def RegisterAccount_def GetTokenSupply_def)
  then obtain t where t: "accs (ts_treasuryID ts) = Some t" "bal_int t = 100" by (auto simp: bal_int_def)
  have "bal_sum (Map.empty(''T'' := None)) = 0" by (simp add: bal_sum_def)
  then have inv: "supply_inv 100 0 0 0 (ts, accs)" using Initialize_inv [OF i(1)] by auto
  define r where "r = \<lparr>sr_TotalSupply = ts_totalSupply ts, sr_CirculatingSupply = ts_circulatingSupply ts,
       sr_TreasuryBalance = TokenSupply_GetTreasuryBalance (ts, accs), sr_TreasuryID = ts_treasuryID ts\<rparr>"
  have g: "handleGetTokenSupply (\<lambda>_. True) (ts, accs) = JSON 200 (BSupply r)" by (simp add: handleGetTokenSupply_def respondWithJSON_def r_def)
  have "f64_add f64_0 (Fin 30) \<noteq> f64_0" using rnd_int [of 30] by simp
  moreover have "(0 :: int) < 30" "30 \<le> bal_int t" using t(2) by simp_all
  ultimately show ?thesis using faucet_inflates [OF inv t(1) _ _ TrueI g, of 30] g i(3) by force
qed

end
