(* ===== verification/Spec2Isabelle.thy ===== *)
theory Spec2Isabelle
  imports Accounts TokenSupplyTheory Dilithium KyberTheory WalletTheory ConfigTheory TxPool TxUtils TxManager DPoSTheory PoHTheory LachesisTheory GovernanceTheory
    ErrorsTheory ValidatorManagerTheory LockTheory BatchTheory HybridState EventFlowTheory EventFlowRuns RecoveryTheory HybridTheory
    HybridProperties OptimizerTheory ProfilerTheory CheckpointTheory RecoveryAdapterTheory MongoTheory NetworkTheory ApiTheory
begin

text \<open>
  A verification development of Diamante Quant, a blockchain node written in Go (\<open>src/\<close>).

  \<^bold>\<open>The program.\<close> Users hold accounts and sign transactions (\<open>common\<close>, \<open>crypto\<close>). A transaction
  manager checks a transaction's fee, signature and nonce, keeps it in a bounded priority pool and
  hands it to a ledger (\<open>transaction\<close>). Validators agree on the order of events through a hybrid
  consensus (\<open>consensus\<close>): a hash chain that proves the passage of time (PoH), a delegated proof of
  stake that elects the active validators and pays and slashes them (DPoS), and a graph of events
  on which finality is decided by stake-weighted virtual voting (Lachesis: graph, gossip, voting,
  finalizer). Governance changes the parameters of these modules, and a validator manager keeps a
  second registry of the validators which mirrors its stakes into DPoS and the event graph.

  \<^bold>\<open>Correspondence.\<close> One theory per component, in the order in which they call each other; a
  definition carries the name of the Go function, a method \<open>T.M\<close> is \<open>T_M\<close>, a struct is a record and
  an enumeration a datatype (or a word, where the code compares or prints numbers).
  \<^item> \<^theory_text>\<open>Float64\<close>, \<^theory_text>\<open>Prelude\<close>, \<^theory_text>\<open>Sha256\<close>, \<^theory_text>\<open>Hex\<close>, \<^theory_text>\<open>GoTime\<close>: what the program uses of the language and of
    Go's library. A \<open>float64\<close> is an exact rational, an infinity or a NaN, and every operation rounds
    to nearest even; fixed-width integers are words; a map is a partial function, and the order in
    which a \<open>range\<close> statement visits it is an argument of the operation, so that a theorem holds for
    every order; SHA-256 is defined in full.
  \<^item> \<^theory_text>\<open>Accounts\<close> (\<open>common/common.go\<close>, \<open>common/accounts.go\<close>) and \<^theory_text>\<open>TokenSupplyTheory\<close>
    (\<open>common/token_supply.go\<close>): the account table, its methods, key encryption, blocks and chains,
    and the singleton token supply. The locale \<open>account_method\<close> states what a method may do to an
    account and is interpreted on the three methods.
  \<^item> \<^theory_text>\<open>Dilithium\<close> (\<open>crypto/dilithium.go\<close>) and \<^theory_text>\<open>KyberTheory\<close> (\<open>crypto/kyber.go\<close>, \<open>crypto/crypto_manager.go\<close>): signatures, key
    encapsulation and the crypto manager over the schemes of the circl library, parameters with their documented laws.
  \<^item> \<^theory_text>\<open>ConfigTheory\<close> (\<open>config/config.go\<close>): the configuration with its validation tags and the manager that reloads it; the validator
    library is a parameter whose documented meaning of the tags is the hypothesis \<open>documented_validator\<close>.
  \<^item> \<^theory_text>\<open>GoHeap\<close> (\<open>container/heap\<close>) and \<^theory_text>\<open>TxPool\<close> (\<open>transaction/transaction_pool.go\<close>): the heap algorithms
    over the locale \<open>heap_interface\<close>, extended by \<open>heap_queue\<close>, and the pool whose queue of
    references with back pointers interprets it.
  \<^item> \<^theory_text>\<open>TxUtils\<close> (\<open>transaction/transaction_utils.go\<close>): nonces, replay protection and validation; the
    locale \<open>nonce_tracker\<close> is interpreted on both trackers. \<^theory_text>\<open>TxManager\<close>
    (\<open>transaction/transaction_manager.go\<close>): the manager over a ledger given as a record of its
    operations. \<^theory_text>\<open>WalletTheory\<close> (\<open>wallet/wallet.go\<close>): wallets, on top of the keys, the account table, the manager and the disk.
  \<^item> \<^theory_text>\<open>DPoSTheory\<close> (\<open>consensus/diamantepos/diamantepos.go\<close>) and \<^theory_text>\<open>PoHTheory\<close>
    (\<open>consensus/diamantepoh/diamantepoh.go\<close>).
  \<^item> \<^theory_text>\<open>DagTheory\<close>, \<^theory_text>\<open>VotingTheory\<close>, \<^theory_text>\<open>Finalization\<close>, \<^theory_text>\<open>LachesisTheory\<close> (\<open>consensus/diamantefinality\<close>): the
    event graph over a store of shared event objects (a reference is an address of the store, and
    an update through one reference is seen through all), voting, the finalizer over the locale
    \<open>voting_interface\<close> (interpreted on virtual voting), gossip with bounded channels, and the facade.
  \<^item> \<^theory_text>\<open>GovernanceTheory\<close> (\<open>consensus/governance/governance.go\<close>), \<^theory_text>\<open>ErrorsTheory\<close>
    (\<open>consensus/errors.go\<close>) and \<^theory_text>\<open>ValidatorManagerTheory\<close> (\<open>consensus/validator_manager.go\<close>).
  \<^item> \<^theory_text>\<open>LockTheory\<close> (\<open>consensus/deadlock_detector.go\<close>): the watched mutexes and the detector, and a small model of goroutines
    that take locks. \<^theory_text>\<open>BatchTheory\<close> (\<open>consensus/batch_processor.go\<close>): the queues and batches of events; its priority queue is another
    interpretation of \<open>heap_queue\<close>.
  \<^item> \<^theory_text>\<open>HybridState\<close> (the state of \<open>consensus/diamantehybrid.go\<close> with the records of its managers, and the finalization of one event),
    \<^theory_text>\<open>EventFlowTheory\<close> and \<^theory_text>\<open>EventFlowRuns\<close> (\<open>consensus/event_flow.go\<close>), \<^theory_text>\<open>RecoveryTheory\<close> (\<open>consensus/recovery_manager.go\<close> with
    \<open>Start\<close>, \<open>Stop\<close> and the recovery from a checkpoint), \<^theory_text>\<open>HybridTheory\<close> (the rest of \<open>consensus/diamantehybrid.go\<close>) and
    \<^theory_text>\<open>HybridProperties\<close>: the hybrid consensus, which owns all modules above. Its operations give an \<open>outcome\<close>: they return, panic or never
    return.
  \<^item> \<^theory_text>\<open>OptimizerTheory\<close> (\<open>consensus/aiopt/optimizer.go\<close>): sampling, prediction and adaptation, on the interface of the consensus and, tick by tick, on
    the state of the node. \<^theory_text>\<open>ProfilerTheory\<close> (\<open>consensus/performance_profiler.go\<close>): the timings of operations.
  \<^item> \<^theory_text>\<open>CheckpointTheory\<close> (\<open>consensus/recovery/checkpoint_manager.go\<close>): checkpoints in files, over a small model of a disk whose operations may fail, for
    components with any state. \<^theory_text>\<open>RecoveryAdapterTheory\<close> (\<open>consensus/recovery/recovery_manager.go\<close>, \<open>consensus/recovery/hybrid_consensus_recovery.go\<close>): the recovery manager and the adapter that
    makes the modules of the hybrid consensus components of checkpoints. The locale \<open>checkpointed\<close> states what a component promises
    and is interpreted on the hash chain and on the stakes.
  \<^item> \<^theory_text>\<open>MongoTheory\<close> (\<open>storage/mongo_ledger.go\<close>, \<open>storage/mongo_store.go\<close>): the ledger and the block store over a record of the queries to the
    database; \<open>mongo_ledger\<close> makes it a ledger of the transaction manager. \<^theory_text>\<open>NetworkTheory\<close> (\<open>network\<close>): the manager with its mutex, the peers with their
    queues, and discovery; its operations return, panic or block. \<^theory_text>\<open>ApiTheory\<close> (\<open>api\<close> and the wrappers of \<open>main.go\<close>): the handlers of the REST API and its
    routes, on top of the transaction manager, the account table, the token supply and the ledger.

  \<^bold>\<open>Conventions.\<close> Stateful code takes the state and returns it updated; an error is a value of a sum
  type and a panic is \<^term>\<open>None\<close> (in the hybrid consensus, an \<open>outcome\<close>). The clock, random bytes, JSON codecs, other nodes and library code are
  arguments. A mutex is held for a whole operation, so the operations are atomic and concurrency
  is an arbitrary sequence of them. The relations \<open>pool_reachable\<close>, \<open>manager_reachable\<close>, \<open>dpos_reachable\<close>, \<open>dag_built\<close>, \<open>voting_reachable\<close>,
  \<open>gossip_reachable\<close>, \<open>lachesis_step\<close>, \<open>gov_step\<close>, \<open>table_reachable\<close>, \<open>supply_reachable\<close>, \<open>vm_step\<close>, \<open>watched_reachable\<close>, \<open>bp_step\<close>, \<open>hybrid_step\<close>, \<open>optimizer_reachable\<close>,
  \<open>cm_reachable\<close>, \<open>crypto_reachable\<close>, \<open>wallet_reachable\<close>, \<open>config_reachable\<close> and \<open>net_reachable\<close> close the initial states under the operations of their component. Where one of them leaves an
  operation out or limits its arguments, the theorems on it say so: \<open>lachesis_step\<close> and \<open>vm_step\<close> have no \<open>RestoreState\<close>, which may put any saved
  state in place (for Lachesis the theorem starts from an arbitrary state, so that it applies after a restore too); \<open>dpos_reachable\<close> restores what a
  reachable instance has saved, and data that cannot be read; \<open>supply_reachable\<close> moves whole amounts, to and from any account, the treasury included;
  and \<open>gossip_reachable\<close>, \<open>dag_built\<close> have their round-trip theorems for restoring instead. Invariants are
  proved by rule induction on them. A ticker loop is one operation per tick. There is no fuel:
  every loop is a total function (structural, or with a termination proof from a measure), except
  the loop over a range of heights in \<open>Lachesis.GetFinalizedEvents\<close>, which does not end when the
  upper height is the largest word; it is a \<open>partial_function\<close> into \<open>option\<close>, and the theorem on it
  states exactly when it returns. A goroutine an operation starts is an operation of its own; where two goroutines take several
  locks, the order of their locks is modelled by \<open>lock_step\<close>.

  \<^bold>\<open>What is proved.\<close>
  \<^item> Tokens and accounts: no sequence of operations creates or destroys tokens, the circulating supply is what is outside the treasury plus what was
    minted to the treasury itself, balances and stakes stay well-formed, and rejected operations change nothing.
  \<^item> Transactions: the heap, its back pointers and the index of the pool agree after any operations;
    no operation panics; adding and removing cancel; a nonce is accepted at most once; the batch
    validation is the sequence of the single ones; a chain that passes validation is hash-linked.
  \<^item> Keys and wallets: generated keys sign, keys survive serialisation, a message that is encrypted and signed by one manager is recovered and
    verified by another, length-prefixed keys parse uniquely; a registered wallet can pay and an exported one can be imported. The served
    configuration has always passed validation, and only three of the checks that follow the tags can fail.
  \<^item> Stake and time: totals and active sets agree with the registry, rewards stay within the budget
    of the epoch, slashing takes one percent per recorded misbehaviour, saved states are restored; recorded
    proofs verify and a batch is the sequence of its records.
  \<^item> Finality: a graph built by the node passes its own consistency check, a graph that passes it has
    no cycle, what is finalized was justified by a majority, two quorums intersect, the search for an event finds
    exactly the ancestors, and the finalizer's outcome does not depend on the order of votes.
  \<^item> Governance and validators: a proposal moves along its life cycle only, execution preserves the
    invariants of the modules it changes, and the two registries of stakes agree.
  \<^item> Hybrid consensus: an active validator's event is created, stamped and tracked; a round of the finalization worker ends and finalizes
    exactly the events that are due; a running node with an active validator produces the next block; the batch processor's queues
    agree and every waiting event is batched; a failed recovery leaves the chain and the validators as they were and brings Lachesis and DPoS back. The model also shows where
    the node stops working: its blocks are always empty, the third checkpoint deadlocks, recovery fails once time has passed, a stopped node
    cannot be restarted, retries run out until they are reset, and two goroutines of the batch processor take two locks in opposite orders.
  \<^item> Parameters and checkpoints: the optimizer never panics and keeps the parameters within stated bounds; the profiler's metrics summarise the
    recorded durations; the number of checkpoints is bounded and the latest one is found; a checkpoint survives a restart of the node. The
    model also shows that the optimizer drives the gossip delay of an idle node to zero, that going back to a checkpoint restores only a
    part of the node, that one failed write ends all checkpoints, and that recoveries are limited for the life of the node.
  \<^item> Ledger, network and API: a booking on the ledger changes the two balances it names, a snapshot restores the accounts, a broadcast queues the
    message at exactly the peers of the map, and a submitted transaction can be read back through the API. The model also shows that stopping the network with a peer
    connected blocks for ever, that discovery loses peers, that one route hides another, and that the faucet can be used to inflate the supply.
  \<^item> The remaining theorems state behaviours a maintainer should know, for each of which the manifest
    has a finding: for instance that transactions the manager creates are never processed, that the
    pool's optimisation evicts the transactions of highest priority, that a jailed validator can
    escape, and that a restored validator manager has lost its registry.

  \<^bold>\<open>Not modelled.\<close> The light node and the metrics reporter, which forward to a SQLite database and to an external service, the start-up in
  \<open>main.go\<close> apart from its wrappers, and what belongs to libraries: sockets, the HTTP router, the JSON and BSON codecs, the AEAD, the MongoDB server and the file system are
  arguments of the operations. Goroutine scheduling inside one operation (apart from the order of locks), log output and the content of error texts that no code
  compares are left out.
\<close>

end
